(* ===== verification/Prelude.thy ===== *)
theory Prelude
  imports Main "HOL-Library.Word"
begin

unbundle bit_operations_syntax

text \<open>
  Shared vocabulary of the development: the machine integers of the crate (\<open>u8\<close> is an 8-bit
  word, \<open>usize\<close> is a natural number because every length is bounded by memory), the error type
  of \<open>src/src/mqtt_serde/parser/mod.rs\<close>, results as sums with the error on the left, Rust's
  \<open>?\<close> operator as \<open>tryE\<close>, checked slice accesses, and the generic lemmas the components use.

  A Rust panic (a failed \<open>assert!\<close>, an index out of range, an unsigned subtraction below zero)
  is a value too: \<open>Inl (Panic ...)\<close>.  It is the one constructor of \<open>ParseError\<close> the source does
  not have.  Theorems about absence of panics are stated with \<open>no_panic\<close>.
\<close>

section \<open>Machine integers and buffers\<close>

type_synonym u8 = "8 word"
type_synonym u16 = "16 word"
type_synonym u32 = "32 word"
type_synonym bytes = "u8 list"

text \<open>A Rust \<open>String\<close> is represented by its UTF-8 bytes; validity is \<open>utf8_valid\<close> (Base\_Data).\<close>

type_synonym str = "u8 list"

text \<open>ASCII literals of the source, as the bytes \<open>as_bytes\<close> gives.\<close>

definition ascii :: "string \<Rightarrow> str" where
  "ascii s = map of_char s"

named_theorems codec_simps "characteristic equations of the encoders and decoders"
named_theorems no_panic_intros "introduction rules for absence of panics"

section \<open>Parse errors\<close>

text \<open>
  Messages built with \<open>format!\<close> are represented by their constant part; \<open>IoError\<close>, \<open>Utf8Error\<close> and
  \<open>FromUtf8Error\<close> carry no payload.  \<open>Panic\<close> is not a value of the enum: it is the outcome of a
  failed index, slice, assertion or checked arithmetic operation.
\<close>

datatype ParseError =
    More nat string
  | IoError
  | ParseErr string
  | IncompleteProperty
  | Utf8Error
  | FromUtf8Error
  | StringTooLong
  | BufferTooShort
  | BufferEmpty
  | InvalidLength
  | InvalidPropertyId
  | InvalidPacketType
  | UnSuppProtoVsn
  | InternalError string
  | InvalidVariableByteInteger
  | Panic string

type_synonym 'a res = "ParseError + 'a"

section \<open>The question-mark operator\<close>

definition tryE :: "'e + 'a \<Rightarrow> ('a \<Rightarrow> 'e + 'b) \<Rightarrow> 'e + 'b" where
  "tryE m f = (case m of Inl e \<Rightarrow> Inl e | Inr x \<Rightarrow> f x)"

lemma tryE_Inl [simp]: "tryE (Inl e) f = Inl e"
  by (simp add: tryE_def)

lemma tryE_Inr [simp]: "tryE (Inr x) f = f x"
  by (simp add: tryE_def)

lemma tryE_eq_Inr: "tryE m f = Inr y \<longleftrightarrow> (\<exists>x. m = Inr x \<and> f x = Inr y)"
  by (cases m) auto

lemma tryE_eq_Inl: "tryE m f = Inl e \<longleftrightarrow> m = Inl e \<or> (\<exists>x. m = Inr x \<and> f x = Inl e)"
  by (cases m) auto

lemma tryE_InrE [elim!]:
  assumes "tryE m f = Inr y"
  obtains x where "m = Inr x" and "f x = Inr y"
  using assms by (auto simp: tryE_eq_Inr)

lemma tryE_cong [fundef_cong]:
  assumes "m = m'" and "\<And>x. m' = Inr x \<Longrightarrow> f x = f' x"
  shows "tryE m f = tryE m' f'"
  using assms by (cases m') auto

definition no_panic :: "'a res \<Rightarrow> bool" where
  "no_panic r \<longleftrightarrow> (case r of Inl (Panic s) \<Rightarrow> False | _ \<Rightarrow> True)"

lemma no_panic_Inr [simp]: "no_panic (Inr x)"
  by (simp add: no_panic_def)

lemma no_panic_Inl: "no_panic (Inl e) \<longleftrightarrow> (\<forall>s. e \<noteq> Panic s)"
  by (cases e) (auto simp: no_panic_def)

lemma no_panic_Inl_simps [simp]:
  "no_panic (Inl (More n s))" "no_panic (Inl (ParseErr s))" "no_panic (Inl IncompleteProperty)"
  "no_panic (Inl Utf8Error)" "no_panic (Inl StringTooLong)" "no_panic (Inl BufferTooShort)"
  "no_panic (Inl BufferEmpty)" "no_panic (Inl InvalidLength)" "no_panic (Inl InvalidPropertyId)"
  "no_panic (Inl InvalidPacketType)" "no_panic (Inl UnSuppProtoVsn)"
  "no_panic (Inl (InternalError s))" "no_panic (Inl InvalidVariableByteInteger)"
  "\<not> no_panic (Inl (Panic s))"
  by (simp_all add: no_panic_def)

lemma no_panic_tryE [no_panic_intros]:
  assumes "no_panic m" and "\<And>x. m = Inr x \<Longrightarrow> no_panic (f x)"
  shows "no_panic (tryE m f)"
proof (cases m)
  case (Inl e)
  with assms(1) show ?thesis by (simp add: no_panic_Inl)
next
  case (Inr x)
  with assms(2) show ?thesis by simp
qed

lemma no_panic_if [no_panic_intros]:
  assumes "c \<Longrightarrow> no_panic a" and "\<not> c \<Longrightarrow> no_panic b"
  shows "no_panic (if c then a else b)"
  using assms by simp

section \<open>Checked accesses\<close>

text \<open>
  \<open>buffer.get(i)\<close> and \<open>buffer.get(a..b)\<close> return \<open>None\<close> out of range, \<open>&buffer[a..]\<close>,
  \<open>&buffer[a..b]\<close> and \<open>buffer[i]\<close> panic.  \<open>require\<close> is the helper of
  \<open>src/src/mqtt_serde/validation.rs\<close>.
\<close>

definition get_byte :: "bytes \<Rightarrow> nat \<Rightarrow> ParseError \<Rightarrow> u8 res" where
  "get_byte b i e = (if i < length b then Inr (b ! i) else Inl e)"

definition get_from :: "bytes \<Rightarrow> nat \<Rightarrow> ParseError \<Rightarrow> bytes res" where
  "get_from b i e = (if i \<le> length b then Inr (drop i b) else Inl e)"

definition get_range :: "bytes \<Rightarrow> nat \<Rightarrow> nat \<Rightarrow> ParseError \<Rightarrow> bytes res" where
  "get_range b i j e = (if i \<le> j \<and> j \<le> length b then Inr (take (j - i) (drop i b)) else Inl e)"

abbreviation index_byte :: "bytes \<Rightarrow> nat \<Rightarrow> u8 res" where
  "index_byte b i \<equiv> get_byte b i (Panic ''index out of bounds'')"

abbreviation slice_from :: "bytes \<Rightarrow> nat \<Rightarrow> bytes res" where
  "slice_from b i \<equiv> get_from b i (Panic ''slice index out of range'')"

abbreviation slice_range :: "bytes \<Rightarrow> nat \<Rightarrow> nat \<Rightarrow> bytes res" where
  "slice_range b i j \<equiv> get_range b i j (Panic ''slice index out of range'')"

definition require :: "bool \<Rightarrow> string \<Rightarrow> unit res" where
  "require valid message = (if valid then Inr () else Inl (ParseErr message))"

lemma require_eq_Inr [simp]: "require c m = Inr u \<longleftrightarrow> c"
  by (simp add: require_def)

lemma require_True [simp]: "c \<Longrightarrow> require c m = Inr ()"
  by (simp add: require_def)

lemma no_panic_require [simp]: "no_panic (require c m)"
  by (simp add: require_def)

lemma get_byte_Inr: "get_byte b i e = Inr x \<longleftrightarrow> i < length b \<and> x = b ! i"
  by (auto simp: get_byte_def)

lemma get_from_Inr: "get_from b i e = Inr x \<longleftrightarrow> i \<le> length b \<and> x = drop i b"
  by (auto simp: get_from_def)

lemma get_range_Inr:
  "get_range b i j e = Inr x \<longleftrightarrow> i \<le> j \<and> j \<le> length b \<and> x = take (j - i) (drop i b)"
  by (auto simp: get_range_def)

lemma no_panic_get_byte [no_panic_intros]:
  "(i < length b \<or> no_panic (Inl e :: u8 res)) \<Longrightarrow> no_panic (get_byte b i e)"
  by (auto simp: get_byte_def)

lemma no_panic_get_from [no_panic_intros]:
  "(i \<le> length b \<or> no_panic (Inl e :: bytes res)) \<Longrightarrow> no_panic (get_from b i e)"
  by (auto simp: get_from_def)

lemma no_panic_get_range [no_panic_intros]:
  "(i \<le> j \<and> j \<le> length b \<or> no_panic (Inl e :: bytes res)) \<Longrightarrow> no_panic (get_range b i j e)"
  by (auto simp: get_range_def)

lemma get_byte_append [simp]: "i < length a \<Longrightarrow> get_byte (a @ b) i e = get_byte a i e"
  by (simp add: get_byte_def nth_append)

lemma get_byte_append_length [simp]: "get_byte (a @ x # b) (length a) e = Inr x"
  by (simp add: get_byte_def)

lemma get_from_append_length [simp]: "get_from (a @ b) (length a) e = Inr b"
  by (simp add: get_from_def)

lemma get_byte_Cons_0 [simp]: "get_byte (x # xs) 0 e = Inr x"
  by (simp add: get_byte_def)

lemma get_from_Cons_1 [simp]: "get_from (x # xs) (Suc 0) e = Inr xs"
  by (simp add: get_from_def)

lemma get_from_0 [simp]: "get_from xs 0 e = Inr xs"
  by (simp add: get_from_def)

section \<open>Words\<close>

lemma u8_le_2_cases:
  assumes "(q :: u8) \<le> 2"
  obtains "q = 0" | "q = 1" | "q = 2"
proof -
  have "unat q \<le> 2"
    using assms by (simp add: word_le_nat_alt)
  then have "unat q = unat (0 :: u8) \<or> unat q = unat (1 :: u8) \<or> unat q = unat (2 :: u8)"
    by auto
  then have "q = 0 \<or> q = 1 \<or> q = 2"
    by (simp only: word_unat_eq_iff)
  then show ?thesis using that by blast
qed

lemma unat_u8_less [simp]: "unat (x :: u8) < 256"
  using unsigned_less [of x, where ?'a = nat] by simp

lemma unat_u16_less [simp]: "unat (x :: u16) < 65536"
  using unsigned_less [of x, where ?'a = nat] by simp

lemma unat_u32_less [simp]: "unat (x :: u32) < 4294967296"
  using unsigned_less [of x, where ?'a = nat] by simp

lemma unat_of_nat_u8 [simp]: "unat (of_nat n :: u8) = n mod 256"
  by (simp add: unat_of_nat)

lemma unat_of_nat_u16 [simp]: "unat (of_nat n :: u16) = n mod 65536"
  by (simp add: unat_of_nat)

lemma unat_of_nat_u32 [simp]: "unat (of_nat n :: u32) = n mod 4294967296"
  by (simp add: unat_of_nat)

text \<open>The cast \<open>n as u8\<close>, kept opaque so that the simplifier does not normalise it away.\<close>

definition as_u8 :: "nat \<Rightarrow> u8" where
  "as_u8 n = of_nat n"

lemma unat_as_u8 [simp]: "unat (as_u8 n) = n mod 256"
  by (simp add: as_u8_def)

lemma unat_ucast_u32_u8: "unat (ucast (x :: u32) :: u8) = unat x mod 256"
  by (simp add: unsigned_ucast_eq take_bit_eq_mod)

lemma bit_u8_unat: "bit (b :: u8) n \<longleftrightarrow> odd (unat b div 2 ^ n)"
  by (metis bit_iff_odd bit_unsigned_iff possible_bit_nat)

lemma u8_and_127 [simp]: "(b :: u8) AND 127 = b mod 128"
  using take_bit_eq_mask [of 7 b] by (simp add: mask_eq_exp_minus_1 take_bit_eq_mod)

lemma u8_and_15 [simp]: "(b :: u8) AND 15 = b mod 16"
  using take_bit_eq_mask [of 4 b] by (simp add: mask_eq_exp_minus_1 take_bit_eq_mod)

lemma u8_and_128_eq_0: "(b :: u8) AND 128 = 0 \<longleftrightarrow> unat b < 128"
proof -
  have "b AND 128 = 0 \<longleftrightarrow> \<not> bit b 7"
    using and_exp_eq_0_iff_not_bit [of b 7] by simp
  also have "\<dots> \<longleftrightarrow> even (unat b div 128)"
    by (simp add: bit_u8_unat)
  also have "\<dots> \<longleftrightarrow> unat b div 128 = 0"
  proof -
    have "unat b div 128 < 2" by (rule less_mult_imp_div_less) simp
    then show ?thesis by (cases "unat b div 128") auto
  qed
  also have "\<dots> \<longleftrightarrow> unat b < 128" by (simp add: div_eq_0_iff)
  finally show ?thesis .
qed

lemma unat_u8_or_128:
  assumes "unat (b :: u8) < 128"
  shows "unat (b OR 128) = unat b + 128"
proof -
  have "b AND 128 = 0" using assms by (simp add: u8_and_128_eq_0)
  then have "b OR 128 = b + 128" using disjunctive_add_eq_or by metis
  then show ?thesis using assms by (simp add: unat_word_ariths)
qed

section \<open>Interfaces of the codecs\<close>

text \<open>
  What a decoder of this crate promises its callers: it returns a value and the number of bytes
  read, that number is positive and within the buffer, the value depends only on those bytes,
  and no input makes it panic.
\<close>

locale wire_decoder =
  fixes dec :: "bytes \<Rightarrow> ('a \<times> nat) res"
  assumes dec_consumes: "dec b = Inr (x, n) \<Longrightarrow> 0 < n \<and> n \<le> length b"
    and dec_no_panic: "no_panic (dec b)"
    and dec_local: "dec b = Inr (x, n) \<Longrightarrow> dec (take n b @ r) = Inr (x, n)"
begin

lemma dec_append: "dec b = Inr (x, n) \<Longrightarrow> dec (b @ r) = Inr (x, n)"
  using dec_local [of b x n "drop n b @ r"] dec_consumes [of b x n]
  by (metis append.assoc append_take_drop_id)

lemma dec_slice_no_panic: "dec b = Inr (x, n) \<Longrightarrow> no_panic (slice_from b n)"
  using dec_consumes [of b x n] by (intro no_panic_get_from) simp

end

text \<open>A decoder with its encoder: decoding what was encoded gives it back, whatever follows.\<close>

locale wire_codec = wire_decoder dec
  for dec :: "bytes \<Rightarrow> ('a \<times> nat) res" +
  fixes enc :: "'a \<Rightarrow> bytes" and ok :: "'a \<Rightarrow> bool"
  assumes dec_enc: "ok x \<Longrightarrow> dec (enc x @ r) = Inr (x, length (enc x))"
begin

lemma dec_enc_Nil: "ok x \<Longrightarrow> dec (enc x) = Inr (x, length (enc x))"
  using dec_enc [of x "[]"] by simp

lemma enc_not_Nil: "ok x \<Longrightarrow> enc x \<noteq> []"
  using dec_enc_Nil [of x] dec_consumes [of "enc x" x "length (enc x)"] by auto

lemma enc_prefix_free:
  assumes "ok x" and "ok y" and "enc x @ r = enc y @ s"
  shows "x = y \<and> r = s"
  using dec_enc [OF assms(1), of r] dec_enc [OF assms(2), of s] assms(3) by auto

lemma enc_inj: "ok x \<Longrightarrow> ok y \<Longrightarrow> enc x = enc y \<Longrightarrow> x = y"
  using enc_prefix_free [of x y "[]" "[]"] by simp

lemma concat_enc_inj:
  "\<forall>x \<in> set xs. ok x \<Longrightarrow> \<forall>y \<in> set ys. ok y \<Longrightarrow> concat (map enc xs) = concat (map enc ys) \<Longrightarrow> xs = ys"
proof (induction xs arbitrary: ys)
  case Nil
  then show ?case by (cases ys) (auto dest: enc_not_Nil)
next
  case (Cons x xs)
  note hyps = Cons.prems and IH = Cons.IH
  show ?case
  proof (cases ys)
    case Nil
    then show ?thesis using hyps enc_not_Nil [of x] by simp
  next
    case (Cons y ys')
    have eq: "enc x @ concat (map enc xs) = enc y @ concat (map enc ys')"
      using hyps(3) Cons by simp
    have *: "x = y \<and> concat (map enc xs) = concat (map enc ys')"
      by (rule enc_prefix_free [OF _ _ eq]) (use Cons hyps in simp_all)
    then have "xs = ys'"
      by (intro IH) (use Cons hyps in simp_all)
    then show ?thesis using * Cons by simp
  qed
qed

end

text \<open>
  A canonical codec also accepts only what its encoder writes: every accepted value is valid and
  the bytes read are its encoding.  This gives the whole contract of \<open>wire_codec\<close>.
\<close>

locale canonical_codec =
  fixes dec :: "bytes \<Rightarrow> ('a \<times> nat) res" and enc :: "'a \<Rightarrow> bytes" and ok :: "'a \<Rightarrow> bool"
  assumes c_dec_enc: "ok x \<Longrightarrow> dec (enc x @ r) = Inr (x, length (enc x))"
    and c_enc_not_Nil: "ok x \<Longrightarrow> enc x \<noteq> []"
    and dec_canonical: "dec b = Inr (x, n) \<Longrightarrow> ok x \<and> n = length (enc x) \<and> take n b = enc x"
    and c_dec_no_panic: "no_panic (dec b)"

sublocale canonical_codec \<subseteq> wire_codec
proof
  fix b x n r
  assume d: "dec b = Inr (x, n)"
  note c = dec_canonical [OF d]
  have "length (take n b) = n" by (metis c)
  then have "n \<le> length b" by simp
  moreover have "0 < n" using c c_enc_not_Nil [of x] by auto
  ultimately show "0 < n \<and> n \<le> length b" by blast
  show "dec (take n b @ r) = Inr (x, n)" by (metis c c_dec_enc)
qed (auto simp: c_dec_enc c_dec_no_panic)

text \<open>
  The loops that read a section element by element: while the offset is below the end, decode at
  the offset, advance, append.  \<open>at_end\<close> says which ends the loop is run with.
\<close>

locale element_loop = canonical_codec dec enc ok
  for dec :: "bytes \<Rightarrow> ('a \<times> nat) res" and enc :: "'a \<Rightarrow> bytes" and ok :: "'a \<Rightarrow> bool" +
  fixes loop :: "bytes \<Rightarrow> nat \<Rightarrow> nat \<Rightarrow> 'a list \<Rightarrow> ('a list \<times> nat) res"
    and at_end :: "bytes \<Rightarrow> nat \<Rightarrow> bool"
  assumes loop_done: "at_end b stop \<Longrightarrow> stop \<le> off \<Longrightarrow> loop b stop off acc = Inr (acc, off)"
    and loop_ok: "at_end b stop \<Longrightarrow> off < stop \<Longrightarrow> off \<le> length b \<Longrightarrow> dec (drop off b) = Inr (x, n) \<Longrightarrow>
          loop b stop off acc = loop b stop (off + n) (acc @ [x])"
    and loop_err: "at_end b stop \<Longrightarrow> off < stop \<Longrightarrow> off \<le> length b \<Longrightarrow> dec (drop off b) = Inl e \<Longrightarrow>
          loop b stop off acc = Inl e"
begin

lemma loop_encoded:
  assumes "\<forall>x \<in> set xs. ok x"
    and "at_end (pre @ concat (map enc xs) @ post) (length (pre @ concat (map enc xs)))"
  shows "loop (pre @ concat (map enc xs) @ post) (length (pre @ concat (map enc xs))) (length pre) acc =
         Inr (acc @ xs, length (pre @ concat (map enc xs)))"
  using assms
proof (induction xs arbitrary: pre acc)
  case Nil
  then show ?case by (simp add: loop_done)
next
  case (Cons x xs)
  let ?b = "pre @ concat (map enc (x # xs)) @ post"
  have x: "ok x" and e: "enc x \<noteq> []" using Cons.prems(1) enc_not_Nil by auto
  have "dec (drop (length pre) ?b) = Inr (x, length (enc x))" using dec_enc [OF x] by simp
  from loop_ok [OF Cons.prems(2) _ _ this] have
    "loop ?b (length (pre @ concat (map enc (x # xs)))) (length pre) acc =
     loop ?b (length (pre @ concat (map enc (x # xs)))) (length pre + length (enc x)) (acc @ [x])"
    using e by simp
  then show ?case using Cons.IH [of "pre @ enc x" "acc @ [x]"] Cons.prems by simp
qed

lemma loop_sound:
  assumes "at_end b stop" and "off \<le> length b" and "loop b stop off acc = Inr (ys, off')"
  shows "\<exists>xs. ys = acc @ xs \<and> (\<forall>x \<in> set xs. ok x) \<and> off \<le> off' \<and> stop \<le> off' \<and>
    off' \<le> max (length b) off \<and> take (off' - off) (drop off b) = concat (map enc xs)"
  using assms(2,3)
proof (induction off arbitrary: acc rule: measure_induct_rule [of "\<lambda>off. length b - off"])
  case (less off)
  show ?case
  proof (cases "stop \<le> off")
    case True
    then show ?thesis using less.prems loop_done [OF assms(1) True] by auto
  next
    case False
    then have off: "off < stop" by simp
    obtain x n where d: "dec (drop off b) = Inr (x, n)"
      using loop_err [OF assms(1) off less.prems(1)] less.prems(2)
      by (cases "dec (drop off b)") auto
    have n: "0 < n" "off + n \<le> length b" using dec_consumes [OF d] less.prems(1) by auto
    have t: "ok x" "take n (drop off b) = enc x" using dec_canonical [OF d] by auto
    have "loop b stop (off + n) (acc @ [x]) = Inr (ys, off')"
      using loop_ok [OF assms(1) off less.prems(1) d] less.prems(2) by simp
    moreover have "length b - (off + n) < length b - off" using n by linarith
    ultimately obtain xs where xs: "ys = (acc @ [x]) @ xs" "\<forall>x \<in> set xs. ok x" "off + n \<le> off'"
      "stop \<le> off'" "off' \<le> length b" "take (off' - (off + n)) (drop (off + n) b) = concat (map enc xs)"
      using less.IH [of "off + n" "acc @ [x]"] n by auto
    have "take (off' - off) (drop off b) = take n (drop off b) @ take (off' - (off + n)) (drop (off + n) b)"
      using xs(3) take_add [of n "off' - (off + n)" "drop off b"] by (simp add: add.commute)
    then show ?thesis using xs t n by (intro exI [of _ "x # xs"]) auto
  qed
qed

lemma loop_no_panic:
  assumes "at_end b stop" and "off \<le> length b"
  shows "no_panic (loop b stop off acc)"
  using assms(2)
proof (induction off arbitrary: acc rule: measure_induct_rule [of "\<lambda>off. length b - off"])
  case (less off)
  show ?case
  proof (cases "stop \<le> off")
    case True
    then show ?thesis using loop_done [OF assms(1) True] by simp
  next
    case False
    then have off: "off < stop" by simp
    show ?thesis
    proof (cases "dec (drop off b)")
      case (Inl e)
      then show ?thesis
        using loop_err [OF assms(1) off less.prems Inl] dec_no_panic [of "drop off b"]
        by (simp add: no_panic_Inl)
    next
      case (Inr p)
      then obtain x n where d: "dec (drop off b) = Inr (x, n)" by (cases p) auto
      have n: "0 < n" "off + n \<le> length b" using dec_consumes [OF d] less.prems by auto
      then have "length b - (off + n) < length b - off" by linarith
      then show ?thesis
        using less.IH [of "off + n"] n loop_ok [OF assms(1) off less.prems d] by simp
    qed
  qed
qed

end

end
