(* ===== verification/Base_Data.thy ===== *)
theory Base_Data
  imports Prelude
begin

unbundle bit_operations_syntax

text \<open>
  The wire representation of MQTT scalars, \<open>src/src/mqtt_serde/base_data.rs\<close>: two- and
  four-byte integers, the variable byte integer, length-prefixed binary data and strings, with
  the wrappers of \<open>parser/mod.rs\<close> and \<open>mqtt_serde/mod.rs\<close>.  The crate is modelled with its
  default feature \<open>strict-protocol-compliance\<close>.
\<close>

section \<open>Fixed-width integers\<close>

definition to_be_bytes16 :: "u16 \<Rightarrow> bytes" where
  "to_be_bytes16 v = [as_u8 (unat v div 256), as_u8 (unat v)]"

definition from_be_bytes16 :: "u8 \<Rightarrow> u8 \<Rightarrow> u16" where
  "from_be_bytes16 a b = of_nat (unat a * 256 + unat b)"

definition to_be_bytes32 :: "u32 \<Rightarrow> bytes" where
  "to_be_bytes32 v = [as_u8 (unat v div 16777216), as_u8 (unat v div 65536),
                      as_u8 (unat v div 256), as_u8 (unat v)]"

definition from_be_bytes32 :: "u8 \<Rightarrow> u8 \<Rightarrow> u8 \<Rightarrow> u8 \<Rightarrow> u32" where
  "from_be_bytes32 a b c d =
     of_nat (((unat a * 256 + unat b) * 256 + unat c) * 256 + unat d)"

definition TwoByteInteger_encode :: "u16 \<Rightarrow> bytes" where
  "TwoByteInteger_encode v = to_be_bytes16 v"

definition TwoByteInteger_decode :: "bytes \<Rightarrow> (u16 \<times> nat) res" where
  "TwoByteInteger_decode b =
     (if length b < 2 then Inl BufferTooShort else Inr (from_be_bytes16 (b ! 0) (b ! 1), 2))"

definition FourByteInteger_encode :: "u32 \<Rightarrow> bytes" where
  "FourByteInteger_encode v = to_be_bytes32 v"

definition FourByteInteger_decode :: "bytes \<Rightarrow> (u32 \<times> nat) res" where
  "FourByteInteger_decode b =
     (if length b < 4 then Inl BufferTooShort
      else Inr (from_be_bytes32 (b ! 0) (b ! 1) (b ! 2) (b ! 3), 4))"

section \<open>Variable byte integers\<close>

text \<open>\<open>encoded_len\<close>: the \<open>while\<close> loop with its counter.\<close>

function vbi_len_loop :: "u32 \<Rightarrow> nat \<Rightarrow> nat" where
  "vbi_len_loop val len =
     (if 128 \<le> val then vbi_len_loop (drop_bit 7 val) (len + 1) else len)"
  by pat_completeness auto
termination
  by (relation "measure (\<lambda>(v, _). unat v)")
     (auto simp: drop_bit_eq_div unat_div word_le_nat_alt intro!: div_less_dividend)

definition VariableByteInteger_encoded_len :: "u32 \<Rightarrow> nat" where
  "VariableByteInteger_encoded_len val = vbi_len_loop val 1"

text \<open>\<open>encode_into\<close>: the bytes the loop pushes for \<open>num\<close>.\<close>

function VariableByteInteger_encode :: "u32 \<Rightarrow> bytes" where
  "VariableByteInteger_encode num =
     (let byte = ucast (num mod 128) :: u8; num' = num div 128
      in if 0 < num' then (byte OR 128) # VariableByteInteger_encode num' else [byte])"
  by pat_completeness auto
termination
  by (relation "measure unat")
     (auto simp: unat_div word_less_nat_alt word_le_nat_alt div_greater_zero_iff
           intro!: div_less_dividend)

text \<open>
  \<open>decode\<close>: the \<open>loop\<close> reads byte \<open>i\<close>; the assertion on the accumulated value is kept as a
  panic branch.
\<close>

function vbi_decode_loop :: "bytes \<Rightarrow> nat \<Rightarrow> nat \<Rightarrow> nat \<Rightarrow> (nat \<times> nat) res" where
  "vbi_decode_loop buffer i multiplier val =
     (if i < length buffer then
        let byte = buffer ! i in
        if 127 < byte \<and> i = 3 then Inl (ParseErr ''invalid remaining length, MSB is 1'')
        else let val' = val + unat (byte AND 127) * multiplier in
        if \<not> val' \<le> 268435455 then Inl (Panic ''Remaining length must not exceed 268435455'')
        else if byte AND 128 = 0 then Inr (val', i + 1)
        else vbi_decode_loop buffer (i + 1) (multiplier * 128) val'
      else Inl (More 1 ''vbi: not enough bytes for remaining length''))"
  by pat_completeness auto
termination
  by (relation "measure (\<lambda>(b, i, _, _). length b - i)") auto

definition VariableByteInteger_decode :: "bytes \<Rightarrow> (nat \<times> nat) res" where
  "VariableByteInteger_decode buffer =
     (if buffer = [] then Inl BufferTooShort
      else tryE (vbi_decode_loop buffer 0 1 0) (\<lambda>(val, i).
        if 1 < i \<and> buffer ! (i - 1) = 0
        then Inl (ParseErr ''Variable Byte Integer encoding is not minimal'')
        else Inr (val, i)))"

declare vbi_len_loop.simps [simp del]
  and VariableByteInteger_encode.simps [simp del]
  and vbi_decode_loop.simps [simp del]

section \<open>Binary data and strings\<close>

definition BinaryData_encode :: "bytes \<Rightarrow> bytes" where
  "BinaryData_encode data = to_be_bytes16 (of_nat (length data)) @ data"

definition BinaryData_decode :: "bytes \<Rightarrow> (bytes \<times> nat) res" where
  "BinaryData_decode b =
     tryE (TwoByteInteger_decode b) (\<lambda>(len, _).
       let start = 2; end_pos = start + unat len in
       if length b < end_pos then Inl BufferTooShort
       else Inr (take (end_pos - start) (drop start b), end_pos))"

text \<open>
  \<open>String::from_utf8\<close> of the standard library: the well-formed byte sequences of the Unicode
  standard (no overlong forms, no surrogates, nothing above U+10FFFF).
\<close>

definition utf8_cont :: "u8 \<Rightarrow> bool" where
  "utf8_cont b \<longleftrightarrow> 0x80 \<le> b \<and> b \<le> 0xBF"

definition utf8_second3 :: "u8 \<Rightarrow> u8 \<Rightarrow> bool" where
  "utf8_second3 a b \<longleftrightarrow>
     a = 0xE0 \<and> 0xA0 \<le> b \<and> b \<le> 0xBF \<or>
     0xE1 \<le> a \<and> a \<le> 0xEC \<and> utf8_cont b \<or>
     a = 0xED \<and> 0x80 \<le> b \<and> b \<le> 0x9F \<or>
     0xEE \<le> a \<and> a \<le> 0xEF \<and> utf8_cont b"

definition utf8_second4 :: "u8 \<Rightarrow> u8 \<Rightarrow> bool" where
  "utf8_second4 a b \<longleftrightarrow>
     a = 0xF0 \<and> 0x90 \<le> b \<and> b \<le> 0xBF \<or>
     0xF1 \<le> a \<and> a \<le> 0xF3 \<and> utf8_cont b \<or>
     a = 0xF4 \<and> 0x80 \<le> b \<and> b \<le> 0x8F"

fun utf8_valid :: "bytes \<Rightarrow> bool" where
  "utf8_valid [] = True"
| "utf8_valid (a # r) =
     (if a < 0x80 then utf8_valid r
      else case r of [] \<Rightarrow> False | b # r2 \<Rightarrow>
        if 0xC2 \<le> a \<and> a \<le> 0xDF then utf8_cont b \<and> utf8_valid r2
        else (case r2 of [] \<Rightarrow> False | c # r3 \<Rightarrow>
          if utf8_second3 a b then utf8_cont c \<and> utf8_valid r3
          else (case r3 of [] \<Rightarrow> False | d # r4 \<Rightarrow>
            utf8_second4 a b \<and> utf8_cont c \<and> utf8_cont d \<and> utf8_valid r4)))"

definition validate_mqtt_utf8_string :: "str \<Rightarrow> unit res" where
  "validate_mqtt_utf8_string s =
     (if 0 \<in> set s then Inl (ParseErr ''UTF-8 string contains null character (U+0000)'')
      else Inr ())"

definition Utf8String_encode :: "str \<Rightarrow> bytes" where
  "Utf8String_encode s = BinaryData_encode s"

definition Utf8String_decode :: "bytes \<Rightarrow> (str \<times> nat) res" where
  "Utf8String_decode b =
     tryE (BinaryData_decode b) (\<lambda>(data, len).
     tryE (if utf8_valid data then Inr data else Inl Utf8Error) (\<lambda>s.
     tryE (validate_mqtt_utf8_string s) (\<lambda>_. Inr (s, len))))"

definition Utf8StringPair_encode :: "str \<Rightarrow> str \<Rightarrow> bytes" where
  "Utf8StringPair_encode key val = Utf8String_encode key @ Utf8String_encode val"

definition Utf8StringPair_decode :: "bytes \<Rightarrow> ((str \<times> str) \<times> nat) res" where
  "Utf8StringPair_decode b =
     tryE (Utf8String_decode b) (\<lambda>(key, key_len).
     tryE (slice_from b key_len) (\<lambda>rest.
     tryE (Utf8String_decode rest) (\<lambda>(val, value_len).
     Inr ((key, val), key_len + value_len))))"

text \<open>The length-checked encoders of \<open>src/src/mqtt_serde/mod.rs\<close>.\<close>

definition encode_binary_data :: "bytes \<Rightarrow> bytes res" where
  "encode_binary_data data =
     (if 65535 < length data then Inl StringTooLong else Inr (BinaryData_encode data))"

definition encode_utf8_string :: "str \<Rightarrow> bytes res" where
  "encode_utf8_string s =
     (if 65535 < length s then Inl StringTooLong
      else tryE (validate_mqtt_utf8_string s) (\<lambda>_. Inr (Utf8String_encode s)))"

text \<open>The wrappers of \<open>src/src/mqtt_serde/parser/mod.rs\<close>.\<close>

definition packet_type :: "bytes \<Rightarrow> u8 res" where
  "packet_type b = (if b = [] then Inl BufferEmpty else Inr (drop_bit 4 (b ! 0)))"

definition parse_remaining_length :: "bytes \<Rightarrow> (nat \<times> nat) res" where
  "parse_remaining_length b = VariableByteInteger_decode b"

definition parse_vbi :: "bytes \<Rightarrow> (nat \<times> nat) res" where
  "parse_vbi b = VariableByteInteger_decode b"

definition parse_utf8_string :: "bytes \<Rightarrow> (str \<times> nat) res" where
  "parse_utf8_string b = Utf8String_decode b"

definition parse_packet_id :: "bytes \<Rightarrow> (u16 \<times> nat) res" where
  "parse_packet_id b = TwoByteInteger_decode b"

definition parse_binary_data :: "bytes \<Rightarrow> (bytes \<times> nat) res" where
  "parse_binary_data b = BinaryData_decode b"

section \<open>Round trips of the scalars\<close>

lemma from_to_be_bytes16:
  "from_be_bytes16 (as_u8 (unat v div 256)) (as_u8 (unat v)) = v"
proof -
  have "unat v div 256 < 256" by (rule less_mult_imp_div_less) simp
  then have "unat v div 256 mod 256 * 256 + unat v mod 256 = unat v"
    by (simp only: mod_less div_mult_mod_eq)
  then show ?thesis
    by (simp only: from_be_bytes16_def unat_as_u8 word_unat_eq_iff unat_of_nat_u16
                   mod_less [OF unat_u16_less])
qed

lemma from_to_be_bytes32:
  "from_be_bytes32 (as_u8 (unat v div 16777216)) (as_u8 (unat v div 65536))
     (as_u8 (unat v div 256)) (as_u8 (unat v)) = v"
proof -
  let ?n = "unat v"
  have b: "?n div 16777216 < 256" by (rule less_mult_imp_div_less) simp
  have 1: "?n div 16777216 * 256 + ?n div 65536 mod 256 = ?n div 65536"
    using div_mult_mod_eq [of "?n div 65536" 256] by (simp add: div_mult2_eq [symmetric])
  have 2: "?n div 65536 * 256 + ?n div 256 mod 256 = ?n div 256"
    using div_mult_mod_eq [of "?n div 256" 256] by (simp add: div_mult2_eq [symmetric])
  show ?thesis
    by (simp only: from_be_bytes32_def unat_as_u8 word_unat_eq_iff unat_of_nat_u32
                   mod_less [OF b] 1 2 div_mult_mod_eq mod_less [OF unat_u32_less])
qed

lemma length_to_be_bytes16 [simp]: "length (to_be_bytes16 v) = 2"
  by (simp add: to_be_bytes16_def)

lemma length_to_be_bytes32 [simp]: "length (to_be_bytes32 v) = 4"
  by (simp add: to_be_bytes32_def)

lemma TwoByteInteger_decode_Cons:
  "TwoByteInteger_decode (a # b # rest) = Inr (from_be_bytes16 a b, 2)"
  by (simp add: TwoByteInteger_decode_def)

lemma FourByteInteger_decode_Cons:
  "FourByteInteger_decode (a # b # c # d # rest) = Inr (from_be_bytes32 a b c d, 4)"
  by (simp add: FourByteInteger_decode_def eval_nat_numeral)

lemma TwoByteInteger_decode_encode [codec_simps]:
  "TwoByteInteger_decode (to_be_bytes16 v @ rest) = Inr (v, 2)"
  by (simp only: to_be_bytes16_def append_Cons append_Nil TwoByteInteger_decode_Cons
                 from_to_be_bytes16)

lemma FourByteInteger_decode_encode [codec_simps]:
  "FourByteInteger_decode (to_be_bytes32 v @ rest) = Inr (v, 4)"
  by (simp only: to_be_bytes32_def append_Cons append_Nil FourByteInteger_decode_Cons
                 from_to_be_bytes32)

lemma TwoByteInteger_decode_Inr:
  "TwoByteInteger_decode b = Inr (v, n) \<Longrightarrow> n = 2 \<and> 2 \<le> length b"
  by (auto simp: TwoByteInteger_decode_def split: if_splits)

section \<open>Variable byte integers: round trip and canonicity\<close>

lemma unat_ucast_mod_128: "unat (ucast (num mod 128 :: u32) :: u8) = unat num mod 128"
proof -
  have "unat num mod 128 < 256" by (rule less_trans [of _ 128]) auto
  then show ?thesis by (simp add: unat_ucast_u32_u8 unat_mod)
qed

lemma vbi_encode_small:
  assumes "unat num < 128"
  shows "VariableByteInteger_encode num = [as_u8 (unat num)]"
proof -
  have "unat (num div 128) = 0" using assms by (simp add: unat_div)
  then have "num div 128 = 0" by (simp add: unat_eq_zero)
  moreover have "ucast (num mod 128) = (as_u8 (unat num))"
    using assms by (simp only: word_unat_eq_iff unat_ucast_mod_128 unat_as_u8) simp
  ultimately show ?thesis by (simp add: VariableByteInteger_encode.simps [of num])
qed

lemma vbi_encode_large:
  assumes "128 \<le> unat num"
  shows "VariableByteInteger_encode num =
           as_u8 (unat num mod 128 + 128) # VariableByteInteger_encode (num div 128)"
proof -
  have "0 < num div 128" using assms by (simp add: word_less_nat_alt unat_div div_greater_zero_iff)
  moreover have "ucast (num mod 128) OR 128 = (as_u8 (unat num mod 128 + 128))"
  proof -
    have lt: "unat num mod 128 < 128" by simp
    then have "unat (ucast (num mod 128) OR 128 :: u8) = unat num mod 128 + 128"
      using unat_u8_or_128 [of "ucast (num mod 128)"] by (simp only: unat_ucast_mod_128)
    moreover have "(unat num mod 128 + 128) mod 256 = unat num mod 128 + 128"
      using lt by (intro mod_less) linarith
    ultimately show ?thesis by (simp only: word_unat_eq_iff unat_as_u8)
  qed
  ultimately show ?thesis by (simp add: VariableByteInteger_encode.simps [of num])
qed

lemma vbi_encode_cases:
  obtains (small) "unat num < 128" "VariableByteInteger_encode num = [as_u8 (unat num)]"
  | (large) "128 \<le> unat num" "unat (num div 128) = unat num div 128"
      "VariableByteInteger_encode num =
        as_u8 (unat num mod 128 + 128) # VariableByteInteger_encode (num div 128)"
  by (cases "unat num < 128") (auto simp: vbi_encode_small vbi_encode_large unat_div)

lemma vbi_induct:
  assumes "\<And>num. (128 \<le> unat num \<Longrightarrow> P (num div 128)) \<Longrightarrow> P num"
  shows "P (num :: u32)"
proof (induction num rule: measure_induct_rule [of unat])
  case (less num)
  show ?case by (rule assms, rule less) (simp add: unat_div)
qed

lemma vbi_encode_not_Nil [simp]: "VariableByteInteger_encode num \<noteq> []"
  by (rule vbi_encode_cases [of num]) auto

lemma length_vbi_encode_le:
  "k > 0 \<Longrightarrow> length (VariableByteInteger_encode num) \<le> k \<longleftrightarrow> unat num < 128 ^ k"
proof (induction num arbitrary: k rule: vbi_induct)
  case (1 num)
  show ?case
  proof (rule vbi_encode_cases [of num])
    assume *: "unat num < 128" "VariableByteInteger_encode num = [as_u8 (unat num)]"
    have "(128::nat) ^ 1 \<le> 128 ^ k" using "1.prems" by (intro power_increasing) auto
    then show ?thesis using * "1.prems" by (simp del: One_nat_def)
  next
    assume *: "128 \<le> unat num" "unat (num div 128) = unat num div 128"
      "VariableByteInteger_encode num =
        as_u8 (unat num mod 128 + 128) # VariableByteInteger_encode (num div 128)"
    obtain j where k: "k = Suc j" using "1.prems" by (cases k) auto
    show ?thesis
    proof (cases j)
      case 0
      then show ?thesis using * k by (simp add: not_less)
    next
      case (Suc i)
      then have "length (VariableByteInteger_encode (num div 128)) \<le> j \<longleftrightarrow>
                 unat num div 128 < 128 ^ j"
        using "1.IH" [OF *(1), of j] * by simp
      also have "\<dots> \<longleftrightarrow> unat num < 128 ^ k"
        using k by (simp add: div_less_iff_less_mult mult.commute)
      finally show ?thesis using * k by simp
    qed
  qed
qed

lemma vbi_len_loop_eq:
  "vbi_len_loop val len = len + length (VariableByteInteger_encode val) - 1"
proof (induction val arbitrary: len rule: vbi_induct)
  case (1 num)
  have d: "drop_bit 7 num = num div 128" by (simp add: drop_bit_eq_div)
  have c: "128 \<le> num \<longleftrightarrow> 128 \<le> unat num" by (simp add: word_le_nat_alt)
  show ?case
    using "1.IH" [of "len + 1"]
    by (subst vbi_len_loop.simps) (rule vbi_encode_cases [of num]; auto simp: c d)
qed

lemma vbi_decode_loop_unfold:
  "vbi_decode_loop b i m val =
    (if i < length b then
       if i = 3 \<and> 128 \<le> unat (b ! i) then Inl (ParseErr ''invalid remaining length, MSB is 1'')
       else if \<not> val + unat (b ! i) mod 128 * m \<le> 268435455
            then Inl (Panic ''Remaining length must not exceed 268435455'')
       else if unat (b ! i) < 128 then Inr (val + unat (b ! i) mod 128 * m, i + 1)
       else vbi_decode_loop b (i + 1) (m * 128) (val + unat (b ! i) mod 128 * m)
     else Inl (More 1 ''vbi: not enough bytes for remaining length''))"
proof -
  have m: "unat (b ! i AND 127) = unat (b ! i) mod 128" by (simp add: unat_mod)
  have g: "127 < b ! i \<and> i = 3 \<longleftrightarrow> i = 3 \<and> 128 \<le> unat (b ! i)"
    by (auto simp: word_less_nat_alt)
  show ?thesis
    by (subst vbi_decode_loop.simps) (simp only: Let_def m g u8_and_128_eq_0)
qed

lemma vbi_decode_loop_step:
  assumes "i < length b" and "i \<noteq> 3 \<or> unat (b ! i) < 128"
    and "val + unat (b ! i) mod 128 * m \<le> 268435455"
  shows "vbi_decode_loop b i m val =
    (if unat (b ! i) < 128 then Inr (val + unat (b ! i) mod 128 * m, i + 1)
     else vbi_decode_loop b (i + 1) (m * 128) (val + unat (b ! i) mod 128 * m))"
proof -
  have "\<not> (i = 3 \<and> 128 \<le> unat (b ! i))" using assms(2) by linarith
  with assms show ?thesis
    by (subst vbi_decode_loop_unfold) (simp only: if_True if_False not_True_eq_False)
qed

lemma vbi_decode_loop_encode:
  assumes "length pre + length (VariableByteInteger_encode num) \<le> 4" and "val < 128 ^ length pre"
  shows "vbi_decode_loop (pre @ VariableByteInteger_encode num @ rest) (length pre)
             (128 ^ length pre) val
         = Inr (val + unat num * 128 ^ length pre,
                length pre + length (VariableByteInteger_encode num))"
  using assms
proof (induction num arbitrary: pre val rule: vbi_induct)
  case (1 num)
  have bound: "v + w * 128 ^ length pre \<le> 268435455" if "v < 128 ^ length pre" "w < 128" "length pre \<le> 3" for v w :: nat
  proof -
    have "v + w * 128 ^ length pre < 128 ^ length pre + 127 * 128 ^ length pre"
      using that by (intro add_less_le_mono mult_right_mono) auto
    also have "\<dots> = 128 ^ Suc (length pre)" by simp
    also have "\<dots> \<le> 128 ^ 4" using that by (intro power_increasing) auto
    finally show ?thesis by simp
  qed
  show ?case
  proof (rule vbi_encode_cases [of num])
    assume *: "unat num < 128" "VariableByteInteger_encode num = [as_u8 (unat num)]"
    let ?b = "pre @ as_u8 (unat num) # rest"
    have u: "unat (?b ! length pre) = unat num"
      using * by (simp only: nth_append_length unat_as_u8) simp
    have "vbi_decode_loop ?b (length pre) (128 ^ length pre) val =
          Inr (val + unat num * 128 ^ length pre, length pre + 1)"
      using * "1.prems" bound [of val "unat num"]
      by (subst vbi_decode_loop_step) (auto simp: u)
    then show ?thesis by (simp add: *(2) del: of_nat_unat)
  next
    assume *: "128 \<le> unat num" "unat (num div 128) = unat num div 128"
      "VariableByteInteger_encode num =
        as_u8 (unat num mod 128 + 128) # VariableByteInteger_encode (num div 128)"
    let ?x = "as_u8 (unat num mod 128 + 128)"
    let ?b = "pre @ ?x # VariableByteInteger_encode (num div 128) @ rest"
    have "(unat num mod 128 + 128) mod 256 = unat num mod 128 + 128"
      by (intro mod_less) (use mod_less_divisor [of 128 "unat num"] in linarith)
    then have u: "unat (?b ! length pre) = unat num mod 128 + 128"
      by (simp only: nth_append_length unat_as_u8)
    have l: "length (VariableByteInteger_encode (num div 128)) \<ge> 1"
      using vbi_encode_not_Nil [of "num div 128"] by (cases "VariableByteInteger_encode (num div 128)") auto
    let ?v = "val + unat num mod 128 * 128 ^ length pre"
    have v: "?v < 128 ^ length (pre @ [?x])"
    proof -
      have "?v < 128 ^ length pre + 127 * 128 ^ length pre"
        using "1.prems"(2) mod_less_divisor [of 128 "unat num"]
        by (intro add_less_le_mono mult_right_mono) auto
      then show ?thesis by simp
    qed
    have s: "vbi_decode_loop ?b (length pre) (128 ^ length pre) val =
          vbi_decode_loop ?b (length pre + 1) (128 ^ length pre * 128) ?v"
      using * "1.prems" l bound [of val "unat num mod 128"]
      by (subst vbi_decode_loop_step) (auto simp: u)
    have ih: "vbi_decode_loop ((pre @ [?x]) @ VariableByteInteger_encode (num div 128) @ rest)
          (length (pre @ [?x])) (128 ^ length (pre @ [?x])) ?v =
       Inr (?v + unat (num div 128) * 128 ^ length (pre @ [?x]),
            length (pre @ [?x]) + length (VariableByteInteger_encode (num div 128)))"
      using *(3) "1.prems"(1) by (intro "1.IH" [OF *(1)] v) simp
    have q: "?v + unat (num div 128) * 128 ^ length (pre @ [?x]) = val + unat num * 128 ^ length pre"
    proof -
      have "unat num = unat num mod 128 + unat num div 128 * 128" by simp
      then have "unat num * 128 ^ length pre =
        unat num mod 128 * 128 ^ length pre + unat num div 128 * 128 * 128 ^ length pre"
        by (metis add_mult_distrib)
      then show ?thesis using *(2) by simp
    qed
    show ?thesis
      using s ih q by (simp add: *(3) mult.commute del: of_nat_add)
  qed
qed

lemma VariableByteInteger_last:
  "1 < length (VariableByteInteger_encode num) \<Longrightarrow> last (VariableByteInteger_encode num) \<noteq> 0"
proof (induction num rule: vbi_induct)
  case (1 num)
  show ?case
  proof (rule vbi_encode_cases [of num])
    assume "unat num < 128" "VariableByteInteger_encode num = [as_u8 (unat num)]"
    then show ?thesis using "1.prems" by simp
  next
    assume *: "128 \<le> unat num" "unat (num div 128) = unat num div 128"
      "VariableByteInteger_encode num =
        as_u8 (unat num mod 128 + 128) # VariableByteInteger_encode (num div 128)"
    show ?thesis
    proof (cases "1 < length (VariableByteInteger_encode (num div 128))")
      case True
      then show ?thesis using "1.IH" [OF *(1)] * by simp
    next
      case False
      then have l: "unat num div 128 < 128"
        using length_vbi_encode_le [of 1 "num div 128"] *(2) by simp
      then have e: "VariableByteInteger_encode (num div 128) = [as_u8 (unat num div 128)]"
        using vbi_encode_small [of "num div 128"] *(2) by simp
      have "unat (as_u8 (unat num div 128)) \<noteq> unat (0 :: u8)" using l *(1) by simp
      then have "as_u8 (unat num div 128) \<noteq> 0" by (simp only: word_unat_eq_iff not_False_eq_True)
      then show ?thesis using *(3) e by simp
    qed
  qed
qed

lemma vbi_decode_encode [codec_simps]:
  assumes "unat v \<le> 268435455"
  shows "VariableByteInteger_decode (VariableByteInteger_encode v @ rest) =
         Inr (unat v, length (VariableByteInteger_encode v))"
proof -
  let ?e = "VariableByteInteger_encode v"
  have l: "length ?e \<le> 4" using assms length_vbi_encode_le [of 4 v] by simp
  have d: "vbi_decode_loop (?e @ rest) 0 1 0 = Inr (unat v, length ?e)"
    using vbi_decode_loop_encode [of "[]" v 0 rest] l by simp
  have "(?e @ rest) ! (length ?e - 1) = last ?e" by (simp add: last_conv_nth nth_append)
  then show ?thesis
    using d VariableByteInteger_last [of v] by (auto simp: VariableByteInteger_decode_def)
qed

lemma vbi_encode_step:
  assumes "0 < q" and "q < 2097152" and "128 \<le> unat y"
  shows "VariableByteInteger_encode (of_nat (unat y mod 128 + q * 128)) =
         y # VariableByteInteger_encode (of_nat q)"
proof -
  let ?n = "unat y mod 128 + q * 128"
  have m: "unat y mod 128 < 128" by simp
  have n: "unat (of_nat ?n :: u32) = ?n"
    using assms m by (simp only: unat_of_nat_u32) (intro mod_less, linarith)
  have q: "unat (of_nat q :: u32) = q" using assms by simp
  have dv: "?n div 128 = q" using m by simp
  have "of_nat ?n div 128 = (of_nat q :: u32)"
    by (simp only: word_unat_eq_iff unat_div n q) (simp add: dv del: div_mult_self3)
  moreover have "as_u8 (?n mod 128 + 128) = y"
  proof -
    have "unat y div 128 < 2" by (rule less_mult_imp_div_less) simp
    moreover have "0 < unat y div 128" using assms(3) by (simp add: div_greater_zero_iff)
    ultimately have "unat y div 128 = 1" by linarith
    then have "unat y mod 128 + 128 = unat y" using div_mult_mod_eq [of "unat y" 128] by linarith
    then have "?n mod 128 + 128 = unat y" by simp
    then show ?thesis by (simp add: word_unat_eq_iff del: mod_mult_self3)
  qed
  moreover have "128 \<le> unat (of_nat ?n :: u32)" using assms(1) by (simp only: n)
  ultimately show ?thesis using vbi_encode_large [of "of_nat ?n"] by (simp only: n)
qed

lemma vbi_decode_loop_sound:
  assumes "vbi_decode_loop b i (128 ^ i) val = Inr (v, n)" and "i < 4"
  shows "i < n \<and> n \<le> 4 \<and> n \<le> length b \<and>
     (\<exists>q < 128 ^ (n - i). v = val + q * 128 ^ i \<and>
       ((i + 1 < n \<longrightarrow> b ! (n - 1) \<noteq> 0) \<longrightarrow>
        VariableByteInteger_encode (of_nat q) = take (n - i) (drop i b)))"
  using assms
proof (induction i arbitrary: val rule: measure_induct_rule [of "\<lambda>i. 4 - i"])
  case (less i)
  let ?y = "unat (b ! i)"
  let ?v = "val + ?y mod 128 * 128 ^ i"
  have lt: "i < length b" and n3: "\<not> (i = 3 \<and> 128 \<le> ?y)" and le: "?v \<le> 268435455"
    using less.prems(1) by (subst (asm) vbi_decode_loop_unfold, simp split: if_splits)+
  have d: "drop i b = b ! i # drop (Suc i) b" using lt by (simp add: Cons_nth_drop_Suc)
  show ?case
  proof (cases "?y < 128")
    case True
    then have r: "v = val + ?y * 128 ^ i" "n = Suc i"
      using less.prems(1) lt n3 le by (subst (asm) vbi_decode_loop_unfold, simp)+
    have "unat (of_nat ?y :: u32) = ?y"
      by (simp only: unat_of_nat_u32) (simp add: less_trans [OF unat_u8_less])
    moreover have "as_u8 ?y = b ! i" by (simp add: word_unat_eq_iff)
    ultimately have "VariableByteInteger_encode (of_nat ?y) = [b ! i]"
      using True by (simp add: vbi_encode_small)
    then show ?thesis using True r d lt less.prems(2) by (intro conjI exI [of _ ?y]) auto
  next
    case False
    then have r: "vbi_decode_loop b (i + 1) (128 ^ (i + 1)) ?v = Inr (v, n)"
      using less.prems(1) lt n3 le by (subst (asm) vbi_decode_loop_unfold) (simp add: mult.commute)
    have i3: "i + 1 < 4" using n3 False less.prems(2) by linarith
    obtain q where n: "i + 1 < n" "n \<le> 4" "n \<le> length b" and q: "q < 128 ^ (n - (i + 1))"
      "v = ?v + q * 128 ^ (i + 1)"
      and e: "(i + 1 + 1 < n \<longrightarrow> b ! (n - 1) \<noteq> 0) \<longrightarrow>
              VariableByteInteger_encode (of_nat q) = take (n - (i + 1)) (drop (i + 1) b)"
    proof -
      have "4 - (i + 1) < 4 - i" using i3 by simp
      from less.IH [OF this r i3] show thesis using that by blast
    qed
    let ?q = "?y mod 128 + q * 128"
    have s: "n - i = Suc (n - (i + 1))" using n by simp
    have b1: "?q < 128 ^ (n - i)"
    proof -
      have "?q < 128 + q * 128" by simp
      also have "\<dots> = (q + 1) * 128" by simp
      also have "\<dots> \<le> 128 ^ (n - (i + 1)) * 128" using q(1) by (intro mult_right_mono) auto
      finally show ?thesis using s by simp
    qed
    have b2: "q < 2097152"
    proof -
      have "(128::nat) ^ (n - (i + 1)) \<le> 128 ^ 3" using n by (intro power_increasing) auto
      then show ?thesis using q(1) by simp
    qed
    have b3: "VariableByteInteger_encode (of_nat ?q) = take (n - i) (drop i b)"
      if nz: "b ! (n - 1) \<noteq> 0"
    proof -
      have e': "VariableByteInteger_encode (of_nat q) = take (n - (i + 1)) (drop (i + 1) b)"
        using e nz by simp
      have "q \<noteq> 0"
      proof
        assume "q = 0"
        then have "[0] = take (n - (i + 1)) (drop (i + 1) b)"
          using e' vbi_encode_small [of 0] by (simp add: as_u8_def)
        then have "take (n - (i + 1)) (drop (i + 1) b) = [0]" by (rule sym)
        moreover from arg_cong [OF this, of length] have "n = i + 2" using n by simp
        ultimately show False using nz n by (simp add: take_Suc_conv_app_nth)
      qed
      then show ?thesis using vbi_encode_step [of q "b ! i"] False b2 e' s d by simp
    qed
    show ?thesis using n q b1 b3 by (intro conjI exI [of _ ?q]) (auto simp: algebra_simps)
  qed
qed

lemma vbi_decode_canonical:
  assumes "VariableByteInteger_decode b = Inr (v, n)"
  shows "v \<le> 268435455" and "0 < n" and "n \<le> 4" and "n \<le> length b"
    and "take n b = VariableByteInteger_encode (of_nat v)"
proof -
  have "vbi_decode_loop b 0 (128 ^ 0) 0 = Inr (v, n)" and nz: "1 < n \<longrightarrow> b ! (n - 1) \<noteq> 0"
    using assms by (auto simp: VariableByteInteger_decode_def split: if_splits)
  from vbi_decode_loop_sound [OF this(1)] nz
  have *: "0 < n" "n \<le> 4" "n \<le> length b" "v < 128 ^ n"
    "VariableByteInteger_encode (of_nat v) = take n b" by auto
  have "(128::nat) ^ n \<le> 128 ^ 4" using *(2) by (intro power_increasing) auto
  then show "v \<le> 268435455" using *(4) by simp
  show "0 < n" "n \<le> 4" "n \<le> length b" "take n b = VariableByteInteger_encode (of_nat v)"
    using * by simp_all
qed

lemma no_panic_vbi_decode_loop:
  assumes "val < 128 ^ i" and "i < 4"
  shows "no_panic (vbi_decode_loop b i (128 ^ i) val)"
  using assms
proof (induction i arbitrary: val rule: measure_induct_rule [of "\<lambda>i. 4 - i"])
  case (less i)
  let ?y = "unat (b ! i)"
  let ?v = "val + ?y mod 128 * 128 ^ i"
  have "?v < 128 ^ i + 127 * 128 ^ i"
    using less.prems mod_less_divisor [of 128 ?y] by (intro add_less_le_mono mult_right_mono) auto
  then have v: "?v < 128 ^ (i + 1)" by simp
  have "(128::nat) ^ (i + 1) \<le> 128 ^ 4" using less.prems by (intro power_increasing) auto
  then have le: "?v \<le> 268435455" using v by simp
  have "i \<noteq> 3 \<Longrightarrow> no_panic (vbi_decode_loop b (i + 1) (128 ^ (i + 1)) ?v)"
    using less.IH [OF _ v] less.prems(2) by fastforce
  then show ?case
    using le by (subst vbi_decode_loop_unfold) (cases "i = 3"; cases "?y < 128"; simp add: mult.commute)
qed

lemma no_panic_vbi_decode [simp]: "no_panic (VariableByteInteger_decode b)"
  using no_panic_vbi_decode_loop [of 0 0 b]
  by (auto simp: VariableByteInteger_decode_def intro!: no_panic_tryE)

lemma vbi_decode_take:
  assumes "VariableByteInteger_decode b = Inr (v, n)"
  shows "VariableByteInteger_decode (take n b @ r) = Inr (v, n)"
proof -
  note c = vbi_decode_canonical [OF assms]
  have u: "unat (of_nat v :: u32) = v" using c(1) by simp
  have "length (VariableByteInteger_encode (of_nat v)) = n" using c(4,5) by (metis length_take min.absorb2)
  then show ?thesis using vbi_decode_encode [of "of_nat v" r] c(1,5) u by simp
qed

section \<open>Length-prefixed data\<close>

lemma TwoByteInteger_decode_take:
  "2 \<le> n \<Longrightarrow> TwoByteInteger_decode b = Inr (v, 2) \<Longrightarrow> TwoByteInteger_decode (take n b @ r) = Inr (v, 2)"
  by (auto simp: TwoByteInteger_decode_def nth_append split: if_splits)

lemma FourByteInteger_decode_Inr:
  "FourByteInteger_decode b = Inr (v, n) \<Longrightarrow> n = 4 \<and> 4 \<le> length b"
  by (auto simp: FourByteInteger_decode_def split: if_splits)

lemma no_panic_TwoByteInteger [simp]: "no_panic (TwoByteInteger_decode b)"
  by (simp add: TwoByteInteger_decode_def)

lemma no_panic_FourByteInteger [simp]: "no_panic (FourByteInteger_decode b)"
  by (simp add: FourByteInteger_decode_def)

lemma BinaryData_decode_encode [codec_simps]:
  assumes "length d \<le> 65535"
  shows "BinaryData_decode (BinaryData_encode d @ r) = Inr (d, length d + 2)"
proof -
  have "unat (of_nat (length d) :: u16) = length d" using assms by simp
  then show ?thesis
    by (simp add: BinaryData_decode_def BinaryData_encode_def TwoByteInteger_decode_encode
        del: of_nat_unat unat_of_nat_u16)
qed

lemma length_BinaryData_encode [simp]: "length (BinaryData_encode d) = length d + 2"
  by (simp add: BinaryData_encode_def)

lemma length_Utf8String_encode [simp]: "length (Utf8String_encode d) = length d + 2"
  by (simp add: Utf8String_encode_def)

lemma BinaryData_decode_Inr:
  assumes "BinaryData_decode b = Inr (d, n)"
  shows "2 \<le> n" and "n \<le> length b" and "length d = n - 2" and "length d \<le> 65535"
    and "TwoByteInteger_decode b = Inr (of_nat (n - 2), 2)"
    and "d = take (n - 2) (drop 2 b)"
proof -
  from assms obtain l where l: "TwoByteInteger_decode b = Inr (l, 2)" "n = 2 + unat l" "n \<le> length b"
    "d = take (n - 2) (drop 2 b)"
    by (fastforce simp: BinaryData_decode_def Let_def dest: TwoByteInteger_decode_Inr
        split: if_splits)
  have u: "unat l \<le> 65535" using unat_u16_less [of l] by linarith
  from l show "2 \<le> n" "n \<le> length b" "length d = n - 2" "d = take (n - 2) (drop 2 b)" by auto
  from l u show "length d \<le> 65535" by simp
  show "TwoByteInteger_decode b = Inr (of_nat (n - 2), 2)" using l by simp
qed

lemma no_panic_BinaryData [simp]: "no_panic (BinaryData_decode b)"
  by (auto simp: BinaryData_decode_def intro!: no_panic_tryE)

lemma BinaryData_decode_take:
  assumes "BinaryData_decode b = Inr (d, n)"
  shows "BinaryData_decode (take n b @ r) = Inr (d, n)"
proof -
  note c = BinaryData_decode_Inr [OF assms]
  have "TwoByteInteger_decode (take n b @ r) = Inr (of_nat (n - 2), 2)"
    using c by (intro TwoByteInteger_decode_take) auto
  moreover have "unat (of_nat (n - 2) :: u16) = n - 2" using c(3,4) by simp
  moreover have "2 + (n - 2) = n" using c(1) by simp
  ultimately show ?thesis
    using c by (simp add: BinaryData_decode_def drop_take del: of_nat_diff)
qed

text \<open>The strings a packet may carry: at most 65535 bytes of UTF-8 with no U+0000.\<close>

definition str_ok :: "str \<Rightarrow> bool" where
  "str_ok s \<longleftrightarrow> length s \<le> 65535 \<and> utf8_valid s \<and> 0 \<notin> set s"

lemma Utf8String_decode_encode [codec_simps]:
  "str_ok s \<Longrightarrow> Utf8String_decode (Utf8String_encode s @ r) = Inr (s, length s + 2)"
  by (simp add: Utf8String_decode_def Utf8String_encode_def codec_simps str_ok_def
      validate_mqtt_utf8_string_def)

lemma encode_utf8_string_ok [simp]: "str_ok s \<Longrightarrow> encode_utf8_string s = Inr (Utf8String_encode s)"
  by (simp add: encode_utf8_string_def str_ok_def validate_mqtt_utf8_string_def)

lemma encode_binary_data_ok [simp]:
  "length d \<le> 65535 \<Longrightarrow> encode_binary_data d = Inr (BinaryData_encode d)"
  by (simp add: encode_binary_data_def)

lemma Utf8String_decode_Inr:
  assumes "Utf8String_decode b = Inr (s, n)"
  shows "BinaryData_decode b = Inr (s, n)" and "str_ok s" and "n = length s + 2" and "n \<le> length b"
proof -
  show d: "BinaryData_decode b = Inr (s, n)" and "str_ok s"
    using assms
    by (auto simp: Utf8String_decode_def str_ok_def validate_mqtt_utf8_string_def
        dest: BinaryData_decode_Inr(4) split: if_splits)
  show "n = length s + 2" "n \<le> length b" using BinaryData_decode_Inr [OF d] by auto
qed

lemma no_panic_Utf8String [simp]: "no_panic (Utf8String_decode b)"
  by (auto simp: Utf8String_decode_def validate_mqtt_utf8_string_def intro!: no_panic_tryE)

lemma Utf8String_decode_take:
  assumes "Utf8String_decode b = Inr (s, n)"
  shows "Utf8String_decode (take n b @ r) = Inr (s, n)"
  using Utf8String_decode_Inr [OF assms] BinaryData_decode_take [of b s n r]
  by (simp add: Utf8String_decode_def str_ok_def validate_mqtt_utf8_string_def)

lemma from_be_bytes16_inverse: "to_be_bytes16 (from_be_bytes16 a b) = [a, b]"
proof -
  have a: "unat a * 256 + unat b < 65536"
    using unat_u8_less [of a] unat_u8_less [of b] by linarith
  then have "unat (from_be_bytes16 a b) = unat a * 256 + unat b"
    by (simp only: from_be_bytes16_def unat_of_nat_u16 mod_less)
  moreover have "(unat a * 256 + unat b) div 256 = unat a" "(unat a * 256 + unat b) mod 256 = unat b"
    by simp_all
  ultimately show ?thesis
    by (simp only: to_be_bytes16_def word_unat_eq_iff unat_as_u8 list.inject mod_less [OF unat_u8_less]
                   simp_thms)
qed

lemma TwoByteInteger_canonical:
  assumes "TwoByteInteger_decode b = Inr (v, n)"
  shows "n = 2" and "take 2 b = to_be_bytes16 v"
proof -
  show "n = 2" using TwoByteInteger_decode_Inr [OF assms] by simp
  obtain x y r where "b = x # y # r"
    using TwoByteInteger_decode_Inr [OF assms] by (metis Suc_le_length_iff numeral_2_eq_2)
  then show "take 2 b = to_be_bytes16 v"
    using assms by (auto simp: TwoByteInteger_decode_Cons from_be_bytes16_inverse)
qed

lemma BinaryData_canonical:
  assumes "BinaryData_decode b = Inr (d, n)"
  shows "length d \<le> 65535" and "n = length d + 2" and "take n b = BinaryData_encode d"
proof -
  note c = BinaryData_decode_Inr [OF assms]
  show "length d \<le> 65535" "n = length d + 2" using c by auto
  have "take n b = take 2 b @ take (n - 2) (drop 2 b)"
    using take_add [of 2 "n - 2" b] le_add_diff_inverse [OF c(1)] by simp
  then show "take n b = BinaryData_encode d"
    using TwoByteInteger_canonical [OF c(5)] c(3,6) by (simp add: BinaryData_encode_def)
qed

interpretation two_byte: canonical_codec TwoByteInteger_decode TwoByteInteger_encode "\<lambda>_. True"
proof unfold_locales
  show "TwoByteInteger_encode x \<noteq> []" for x
    by (simp add: TwoByteInteger_encode_def to_be_bytes16_def)
  fix b x n
  assume "TwoByteInteger_decode b = Inr (x, n)"
  from TwoByteInteger_canonical [OF this]
  show "True \<and> n = length (TwoByteInteger_encode x) \<and> take n b = TwoByteInteger_encode x"
    by (simp add: TwoByteInteger_encode_def)
qed (simp_all add: codec_simps TwoByteInteger_encode_def)

interpretation vbi: canonical_codec VariableByteInteger_decode
  "\<lambda>v. VariableByteInteger_encode (of_nat v)" "\<lambda>v. v \<le> 268435455"
proof unfold_locales
  fix x :: nat and r
  assume "x \<le> 268435455"
  then have "unat (of_nat x :: u32) = x" by simp
  then show "VariableByteInteger_decode (VariableByteInteger_encode (of_nat x) @ r) =
      Inr (x, length (VariableByteInteger_encode (of_nat x)))"
    using \<open>x \<le> 268435455\<close> vbi_decode_encode [of "of_nat x" r] by simp
next
  fix b x n
  assume "VariableByteInteger_decode b = Inr (x, n)"
  note c = vbi_decode_canonical [OF this]
  then show "x \<le> 268435455 \<and> n = length (VariableByteInteger_encode (of_nat x)) \<and>
      take n b = VariableByteInteger_encode (of_nat x)"
    by (metis length_take min.absorb2)
qed simp_all

interpretation binary: canonical_codec BinaryData_decode BinaryData_encode "\<lambda>d. length d \<le> 65535"
proof unfold_locales
  show "BinaryData_encode x \<noteq> []" for x by (simp add: BinaryData_encode_def to_be_bytes16_def)
qed (auto simp: codec_simps dest: BinaryData_canonical)

interpretation utf8: canonical_codec Utf8String_decode Utf8String_encode str_ok
proof unfold_locales
  show "Utf8String_encode x \<noteq> []" for x
    by (simp add: Utf8String_encode_def BinaryData_encode_def to_be_bytes16_def)
  fix b x n
  assume "Utf8String_decode b = Inr (x, n)"
  note u = Utf8String_decode_Inr [OF this]
  show "str_ok x \<and> n = length (Utf8String_encode x) \<and> take n b = Utf8String_encode x"
    using u BinaryData_canonical [OF u(1)] by (simp add: Utf8String_encode_def)
qed (auto simp: codec_simps)

end
