(* ===== verification/Topics.thy ===== *)
theory Topics
  imports Base_Data
begin

text \<open>
  Topic names and topic filters: \<open>validate_topic_filter\<close> and \<open>validate_shared_subscription\<close> of
  \<open>src/src/mqtt_serde/mod.rs\<close>, \<open>topic_matches\<close> of
  \<open>src/src/mqtt_session/server_session.rs\<close>, and the string checks of
  \<open>src/src/mqtt_serde/validation.rs\<close>.  Splitting a string at an ASCII character is splitting its
  UTF-8 bytes.
\<close>

section \<open>Splitting at a separator\<close>

abbreviation slash :: u8 where "slash \<equiv> 0x2F"
abbreviation hash :: u8 where "hash \<equiv> 0x23"
abbreviation plus_c :: u8 where "plus_c \<equiv> 0x2B"
abbreviation dollar :: u8 where "dollar \<equiv> 0x24"

text \<open>\<open>s.split(c)\<close>: at least one piece, the empty string included.\<close>

fun split_on :: "u8 \<Rightarrow> str \<Rightarrow> str list" where
  "split_on c [] = [[]]"
| "split_on c (x # xs) =
     (if x = c then [] # split_on c xs
      else case split_on c xs of [] \<Rightarrow> [[x]] | l # ls \<Rightarrow> (x # l) # ls)"

text \<open>\<open>s.splitn(n, c)\<close>: at most \<open>n\<close> pieces, the last one holding the rest.\<close>

fun splitn :: "nat \<Rightarrow> u8 \<Rightarrow> str \<Rightarrow> str list" where
  "splitn 0 c s = []"
| "splitn (Suc 0) c s = [s]"
| "splitn (Suc (Suc n)) c s =
     (let l = takeWhile (\<lambda>x. x \<noteq> c) s in
      case dropWhile (\<lambda>x. x \<noteq> c) s of [] \<Rightarrow> [l] | _ # r \<Rightarrow> l # splitn (Suc n) c r)"

definition starts_with :: "str \<Rightarrow> str \<Rightarrow> bool" where
  "starts_with s p \<longleftrightarrow> take (length p) s = p"

section \<open>Filters\<close>

text \<open>The \<open>while let\<close> loop over the levels; the next level is the head of the tail.\<close>

fun validate_levels :: "str list \<Rightarrow> unit res" where
  "validate_levels [] = Inr ()"
| "validate_levels (level # rest) =
     (let is_last = (rest = []) in
      tryE (if hash \<in> set level then
              if level \<noteq> [hash] then
                Inl (ParseErr ''Multi-level wildcard (#) must be the only character in topic level'')
              else if \<not> is_last then
                Inl (ParseErr ''Multi-level wildcard (#) must be the last level in topic filter'')
              else Inr ()
            else Inr ()) (\<lambda>_.
      tryE (if plus_c \<in> set level \<and> level \<noteq> [plus_c] then
              Inl (ParseErr ''Single-level wildcard (+) must be the only character in topic level'')
            else Inr ()) (\<lambda>_.
      validate_levels rest)))"

definition validate_topic_filter :: "str \<Rightarrow> unit res" where
  "validate_topic_filter topic_filter =
     tryE (validate_mqtt_utf8_string topic_filter) (\<lambda>_.
     if topic_filter = [] then Inl (ParseErr ''Topic filter cannot be empty'')
     else if 65535 < length topic_filter then Inl StringTooLong
     else validate_levels (split_on slash topic_filter))"

abbreviation share_prefix :: str where
  "share_prefix \<equiv> ascii ''$share/''"

definition validate_shared_subscription :: "str \<Rightarrow> unit res" where
  "validate_shared_subscription topic_filter =
     (if starts_with topic_filter share_prefix then
        let parts = splitn 3 slash topic_filter;
            err = ParseErr ''Invalid shared subscription format: must be $share/ShareName/TopicFilter''
        in
        tryE (if 1 < length parts then Inr (parts ! 1) else Inl err) (\<lambda>share_name.
        tryE (if 2 < length parts then Inr (parts ! 2) else Inl err) (\<lambda>actual_topic_filter.
        if share_name = [] \<or> plus_c \<in> set share_name \<or> hash \<in> set share_name then
          Inl (ParseErr ''Shared subscription ShareName cannot be empty or contain wildcards'')
        else if actual_topic_filter = [] then
          Inl (ParseErr ''Shared subscription TopicFilter cannot be empty'')
        else validate_topic_filter actual_topic_filter))
      else Inr ())"

section \<open>Field checks of validation.rs\<close>

definition validation_string :: "str \<Rightarrow> unit res" where
  "validation_string s =
     (if 65535 < length s then Inl StringTooLong else validate_mqtt_utf8_string s)"

definition validation_topic :: "str \<Rightarrow> unit res" where
  "validation_topic s =
     tryE (validation_string s) (\<lambda>_.
     tryE (require (s \<noteq> []) ''Topic name cannot be empty'') (\<lambda>_.
     require (\<not> (plus_c \<in> set s \<or> hash \<in> set s)) ''Topic name cannot contain wildcards''))"

definition validation_packet_id :: "u16 \<Rightarrow> unit res" where
  "validation_packet_id v = require (v \<noteq> 0) ''Packet identifier cannot be zero''"

section \<open>Matching\<close>

text \<open>The \<open>loop\<close> of \<open>topic_matches\<close> over the two iterators.\<close>

fun match_levels :: "str list \<Rightarrow> str list \<Rightarrow> bool" where
  "match_levels [] topics = (topics = [])"
| "match_levels (level # filters) topics =
     (if level = [hash] then filters = []
      else if level = [plus_c] then
        (case topics of [] \<Rightarrow> False | _ # topics' \<Rightarrow> match_levels filters topics')
      else
        (case topics of [] \<Rightarrow> False
         | t # topics' \<Rightarrow> if t \<noteq> level then False else match_levels filters topics'))"

definition topic_matches :: "str \<Rightarrow> str \<Rightarrow> bool" where
  "topic_matches topic_filter topic =
     (if starts_with topic [dollar] \<and>
         (starts_with topic_filter [plus_c] \<or> starts_with topic_filter [hash])
      then False
      else match_levels (split_on slash topic_filter) (split_on slash topic))"

section \<open>Lemmas\<close>

lemma split_on_not_Nil [simp]: "split_on c s \<noteq> []"
  by (induction s) (auto split: list.splits)

lemma split_on_Cons_sep: "split_on c (c # s) = [] # split_on c s"
  by simp

lemma split_on_level: "l \<in> set (split_on c s) \<Longrightarrow> c \<notin> set l"
proof (induction s arbitrary: l)
  case (Cons x s)
  then show ?case by (cases "split_on c s") (auto split: if_splits)
qed simp

lemma split_on_no_sep: "c \<notin> set s \<Longrightarrow> split_on c s = [s]"
  by (induction s) auto

lemma split_on_append:
  "c \<notin> set l \<Longrightarrow> split_on c (l @ c # r) = l # split_on c r"
  by (induction l) auto

text \<open>Strings are in bijection with their levels: joining undoes splitting.\<close>

lemma split_on_join:
  "ls \<noteq> [] \<Longrightarrow> \<forall>l \<in> set ls. c \<notin> set l \<Longrightarrow> split_on c (concat (map (\<lambda>l. l @ [c]) (butlast ls)) @ last ls) = ls"
proof (induction ls)
  case (Cons l ls)
  then show ?case by (cases ls) (auto simp: split_on_append split_on_no_sep)
qed simp

lemma join_split_on:
  "concat (map (\<lambda>l. l @ [c]) (butlast (split_on c s))) @ last (split_on c s) = s"
  by (induction s) (auto split: list.splits)

subsection \<open>The filter grammar, character by character\<close>

text \<open>
  The wording of the MQTT specification, section 4.7.1: the multi-level wildcard is the last
  character of the filter and stands alone or follows a separator; the single-level wildcard
  occupies an entire level.
\<close>

definition hash_placed :: "str \<Rightarrow> nat \<Rightarrow> bool" where
  "hash_placed s i \<longleftrightarrow> (i = 0 \<or> s ! (i - 1) = slash) \<and> i + 1 = length s"

definition plus_placed :: "str \<Rightarrow> nat \<Rightarrow> bool" where
  "plus_placed s i \<longleftrightarrow> (i = 0 \<or> s ! (i - 1) = slash) \<and> (i + 1 = length s \<or> s ! (i + 1) = slash)"

definition wildcards_placed :: "str \<Rightarrow> bool" where
  "wildcards_placed s \<longleftrightarrow>
     (\<forall>i < length s. (s ! i = hash \<longrightarrow> hash_placed s i) \<and> (s ! i = plus_c \<longrightarrow> plus_placed s i))"

lemma level_neighbours:
  assumes "slash \<notin> set l" and "i < length l"
  shows "i = 0 \<or> l ! (i - 1) = slash \<longleftrightarrow> i = 0"
    and "i + 1 = length l \<or> l ! (i + 1) = slash \<longleftrightarrow> i + 1 = length l"
proof -
  have "i \<noteq> 0 \<Longrightarrow> l ! (i - 1) \<noteq> slash"
    using assms nth_mem [of "i - 1" l] by (metis less_imp_diff_less)
  then show "i = 0 \<or> l ! (i - 1) = slash \<longleftrightarrow> i = 0" by blast
  have "i + 1 \<noteq> length l \<Longrightarrow> l ! (i + 1) \<noteq> slash"
    using assms nth_mem [of "i + 1" l] by (metis Suc_eq_plus1 Suc_lessI)
  then show "i + 1 = length l \<or> l ! (i + 1) = slash \<longleftrightarrow> i + 1 = length l" by blast
qed

lemma single_level_iff:
  "(\<forall>i < length l. l ! i = c \<longrightarrow> i = 0 \<and> i + 1 = length l) \<longleftrightarrow> (c \<in> set l \<longrightarrow> l = [c])"
proof (intro iffI impI)
  assume *: "\<forall>i < length l. l ! i = c \<longrightarrow> i = 0 \<and> i + 1 = length l" and "c \<in> set l"
  then obtain i where i: "i < length l" "l ! i = c" by (auto simp: in_set_conv_nth)
  with * have "i = 0" "length l = 1" by auto
  then show "l = [c]" using i(2) by (cases l) auto
next
  assume *: "c \<in> set l \<longrightarrow> l = [c]"
  show "\<forall>i < length l. l ! i = c \<longrightarrow> i = 0 \<and> i + 1 = length l"
  proof (intro allI impI)
    fix i assume "i < length l" "l ! i = c"
    moreover from this have "l = [c]" using * nth_mem [of i l] by auto
    ultimately show "i = 0 \<and> i + 1 = length l" by simp
  qed
qed

lemma wildcards_placed_level:
  assumes "slash \<notin> set l"
  shows "wildcards_placed l \<longleftrightarrow> (hash \<in> set l \<longrightarrow> l = [hash]) \<and> (plus_c \<in> set l \<longrightarrow> l = [plus_c])"
  unfolding wildcards_placed_def hash_placed_def plus_placed_def
  by (simp only: level_neighbours [OF assms] single_level_iff [symmetric] cong: imp_cong) blast

lemma all_less_append_Cons:
  "(\<forall>i < length (l @ c # r). P i) \<longleftrightarrow>
   (\<forall>i < length l. P i) \<and> P (length l) \<and> (\<forall>j < length r. P (length l + 1 + j))"
proof (intro iffI conjI allI impI)
  fix i
  assume *: "(\<forall>i < length l. P i) \<and> P (length l) \<and> (\<forall>j < length r. P (length l + 1 + j))"
    and i: "i < length (l @ c # r)"
  show "P i"
  proof (cases "i \<le> length l")
    case True
    then show ?thesis using * by (cases "i = length l") auto
  next
    case False
    then have "i - length l - 1 < length r" "length l + 1 + (i - length l - 1) = i" using i by auto
    then show ?thesis using * by metis
  qed
qed auto

lemma wildcards_placed_join:
  assumes "slash \<notin> set l"
  shows "wildcards_placed (l @ slash # r) \<longleftrightarrow>
    hash \<notin> set l \<and> (plus_c \<in> set l \<longrightarrow> l = [plus_c]) \<and> wildcards_placed r"
proof -
  let ?s = "l @ slash # r"
  have lh: "hash_placed ?s i \<longleftrightarrow> False" if "i < length l" for i
    using that by (simp add: hash_placed_def)
  have lp: "plus_placed ?s i \<longleftrightarrow> i = 0 \<and> i + 1 = length l" if "i < length l" for i
    using level_neighbours [OF assms that] that
    by (cases "i + 1 = length l") (auto simp: plus_placed_def nth_append)
  have r: "hash_placed ?s (length l + 1 + j) \<longleftrightarrow> hash_placed r j"
    "plus_placed ?s (length l + 1 + j) \<longleftrightarrow> plus_placed r j" for j
    by (auto simp: hash_placed_def plus_placed_def nth_append nth_Cons')
  have n: "?s ! (length l + 1 + j) = r ! j" "i < length l \<Longrightarrow> ?s ! i = l ! i" for i j
    by (simp_all add: nth_append)
  have "wildcards_placed ?s \<longleftrightarrow>
      (\<forall>i < length l. l ! i \<noteq> hash \<and> (l ! i = plus_c \<longrightarrow> i = 0 \<and> i + 1 = length l)) \<and>
      wildcards_placed r"
    unfolding wildcards_placed_def all_less_append_Cons n(1) r by (simp add: n lh lp)
  also have "\<dots> \<longleftrightarrow> hash \<notin> set l \<and> (plus_c \<in> set l \<longrightarrow> l = [plus_c]) \<and> wildcards_placed r"
    unfolding single_level_iff [symmetric] by (auto simp: in_set_conv_nth)
  finally show ?thesis .
qed

lemma validate_levels_wildcards:
  "ls \<noteq> [] \<Longrightarrow> \<forall>l \<in> set ls. slash \<notin> set l \<Longrightarrow>
   validate_levels ls = Inr () \<longleftrightarrow>
   wildcards_placed (concat (map (\<lambda>l. l @ [slash]) (butlast ls)) @ last ls)"
proof (induction ls)
  case (Cons l ls)
  show ?case
  proof (cases "ls = []")
    case True
    then show ?thesis
      using Cons.prems by (auto simp: wildcards_placed_level split: if_splits)
  next
    case False
    then have "wildcards_placed (concat (map (\<lambda>l. l @ [slash]) (butlast (l # ls))) @ last (l # ls)) \<longleftrightarrow>
      hash \<notin> set l \<and> (plus_c \<in> set l \<longrightarrow> l = [plus_c]) \<and> validate_levels ls = Inr ()"
      using Cons by (simp add: wildcards_placed_join)
    then show ?thesis using False by (auto split: if_splits)
  qed
qed simp

lemma validate_topic_filter_iff:
  "validate_topic_filter s = Inr () \<longleftrightarrow>
   s \<noteq> [] \<and> length s \<le> 65535 \<and> 0 \<notin> set s \<and> wildcards_placed s"
  using validate_levels_wildcards [of "split_on slash s"] split_on_level [of _ slash s]
  by (auto simp: validate_topic_filter_def validate_mqtt_utf8_string_def join_split_on)

subsection \<open>Matching level by level\<close>

definition level_matches :: "str \<Rightarrow> str \<Rightarrow> bool" where
  "level_matches f t \<longleftrightarrow> f = [plus_c] \<or> f = t"

text \<open>The reference: a filter without \<open>#\<close> matches level by level; one ending in \<open>#\<close> matches
  every topic that has at least the levels before it.\<close>

definition matches_spec :: "str list \<Rightarrow> str list \<Rightarrow> bool" where
  "matches_spec fs ts \<longleftrightarrow>
     (if [hash] \<in> set fs then
        [hash] \<notin> set (butlast fs) \<and> length fs - 1 \<le> length ts \<and>
        list_all2 level_matches (butlast fs) (take (length fs - 1) ts)
      else list_all2 level_matches fs ts)"

lemma match_levels_spec: "match_levels fs ts \<longleftrightarrow> matches_spec fs ts"
proof (induction fs ts rule: match_levels.induct)
  case (2 level filters topics)
  show ?case
  proof (cases topics)
    case Nil
    then show ?thesis by (cases filters) (auto simp: matches_spec_def)
  next
    case (Cons t ts)
    have "matches_spec (level # filters) (t # ts) \<longleftrightarrow>
      (if level = [hash] then filters = []
       else level_matches level t \<and> matches_spec filters ts)"
      by (cases filters) (auto simp: matches_spec_def level_matches_def)
    then show ?thesis using 2 Cons by (auto simp: level_matches_def)
  qed
qed (auto simp: matches_spec_def)

end
