(* ===== verification/Properties.thy ===== *)
theory Properties
  imports Topics
begin

text \<open>
  MQTT 5 properties, \<open>src/src/mqtt_serde/mqttv5/common/properties.rs\<close>, with the value check
  \<open>property_value\<close> of \<open>src/src/mqtt_serde/validation.rs\<close> that the strict build runs on every
  property it encodes or decodes.
\<close>

section \<open>Identifiers and properties\<close>

datatype PropertyID =
    ID_PayloadFormatIndicator
  | ID_MessageExpiryInterval
  | ID_ContentType
  | ID_ResponseTopic
  | ID_CorrelationData
  | ID_SubscriptionIdentifier
  | ID_SessionExpiryInterval
  | ID_AssignedClientIdentifier
  | ID_ServerKeepAlive
  | ID_AuthenticationMethod
  | ID_AuthenticationData
  | ID_RequestProblemInformation
  | ID_WillDelayInterval
  | ID_RequestResponseInformation
  | ID_ResponseInformation
  | ID_ServerReference
  | ID_ReasonString
  | ID_ReceiveMaximum
  | ID_TopicAliasMaximum
  | ID_TopicAlias
  | ID_MaximumQoS
  | ID_RetainAvailable
  | ID_UserProperty
  | ID_MaximumPacketSize
  | ID_WildcardSubscriptionAvailable
  | ID_SubscriptionIdentifierAvailable
  | ID_SharedSubscriptionAvailable

datatype Property =
    PayloadFormatIndicator u8
  | MessageExpiryInterval u32
  | ContentType str
  | ResponseTopic str
  | CorrelationData bytes
  | SubscriptionIdentifier u32
  | SessionExpiryInterval u32
  | AssignedClientIdentifier str
  | ServerKeepAlive u16
  | AuthenticationMethod str
  | AuthenticationData bytes
  | RequestProblemInformation u8
  | WillDelayInterval u32
  | RequestResponseInformation u8
  | ResponseInformation str
  | ServerReference str
  | ReasonString str
  | ReceiveMaximum u16
  | TopicAliasMaximum u16
  | TopicAlias u16
  | MaximumQoS u8
  | RetainAvailable u8
  | UserProperty str str
  | MaximumPacketSize u32
  | WildcardSubscriptionAvailable u8
  | SubscriptionIdentifierAvailable u8
  | SharedSubscriptionAvailable u8

fun property_id :: "PropertyID \<Rightarrow> u8" where
    "property_id ID_PayloadFormatIndicator = 0x01"
  | "property_id ID_MessageExpiryInterval = 0x02"
  | "property_id ID_ContentType = 0x03"
  | "property_id ID_ResponseTopic = 0x08"
  | "property_id ID_CorrelationData = 0x09"
  | "property_id ID_SubscriptionIdentifier = 0x0B"
  | "property_id ID_SessionExpiryInterval = 0x11"
  | "property_id ID_AssignedClientIdentifier = 0x12"
  | "property_id ID_ServerKeepAlive = 0x13"
  | "property_id ID_AuthenticationMethod = 0x15"
  | "property_id ID_AuthenticationData = 0x16"
  | "property_id ID_RequestProblemInformation = 0x17"
  | "property_id ID_WillDelayInterval = 0x18"
  | "property_id ID_RequestResponseInformation = 0x19"
  | "property_id ID_ResponseInformation = 0x1A"
  | "property_id ID_ServerReference = 0x1C"
  | "property_id ID_ReasonString = 0x1F"
  | "property_id ID_ReceiveMaximum = 0x21"
  | "property_id ID_TopicAliasMaximum = 0x22"
  | "property_id ID_TopicAlias = 0x23"
  | "property_id ID_MaximumQoS = 0x24"
  | "property_id ID_RetainAvailable = 0x25"
  | "property_id ID_UserProperty = 0x26"
  | "property_id ID_MaximumPacketSize = 0x27"
  | "property_id ID_WildcardSubscriptionAvailable = 0x28"
  | "property_id ID_SubscriptionIdentifierAvailable = 0x29"
  | "property_id ID_SharedSubscriptionAvailable = 0x2A"

definition PropertyID_try_from :: "nat \<Rightarrow> PropertyID res" where
  "PropertyID_try_from v =
     (if v = 0x01 then Inr ID_PayloadFormatIndicator
      else if v = 0x02 then Inr ID_MessageExpiryInterval
      else if v = 0x03 then Inr ID_ContentType
      else if v = 0x08 then Inr ID_ResponseTopic
      else if v = 0x09 then Inr ID_CorrelationData
      else if v = 0x0B then Inr ID_SubscriptionIdentifier
      else if v = 0x11 then Inr ID_SessionExpiryInterval
      else if v = 0x12 then Inr ID_AssignedClientIdentifier
      else if v = 0x13 then Inr ID_ServerKeepAlive
      else if v = 0x15 then Inr ID_AuthenticationMethod
      else if v = 0x16 then Inr ID_AuthenticationData
      else if v = 0x17 then Inr ID_RequestProblemInformation
      else if v = 0x18 then Inr ID_WillDelayInterval
      else if v = 0x19 then Inr ID_RequestResponseInformation
      else if v = 0x1A then Inr ID_ResponseInformation
      else if v = 0x1C then Inr ID_ServerReference
      else if v = 0x1F then Inr ID_ReasonString
      else if v = 0x21 then Inr ID_ReceiveMaximum
      else if v = 0x22 then Inr ID_TopicAliasMaximum
      else if v = 0x23 then Inr ID_TopicAlias
      else if v = 0x24 then Inr ID_MaximumQoS
      else if v = 0x25 then Inr ID_RetainAvailable
      else if v = 0x26 then Inr ID_UserProperty
      else if v = 0x27 then Inr ID_MaximumPacketSize
      else if v = 0x28 then Inr ID_WildcardSubscriptionAvailable
      else if v = 0x29 then Inr ID_SubscriptionIdentifierAvailable
      else if v = 0x2A then Inr ID_SharedSubscriptionAvailable
      else Inl InvalidPropertyId)"

section \<open>Value checks\<close>

definition binary_limit :: "bytes \<Rightarrow> unit res" where
  "binary_limit v = (if 65535 < length v then Inl StringTooLong else Inr ())"

fun property_value :: "Property \<Rightarrow> unit res" where
    "property_value (PayloadFormatIndicator v) = require (v \<le> 1) ''Property value must be 0 or 1''"
  | "property_value (MessageExpiryInterval v) = Inr ()"
  | "property_value (ContentType v) = validation_string v"
  | "property_value (ResponseTopic v) = validation_topic v"
  | "property_value (CorrelationData v) = binary_limit v"
  | "property_value (SubscriptionIdentifier v) = require (1 \<le> v \<and> v \<le> 268435455) ''Invalid Subscription Identifier''"
  | "property_value (SessionExpiryInterval v) = Inr ()"
  | "property_value (AssignedClientIdentifier v) = 
       tryE (validation_string v) (\<lambda>_.
       require (v \<noteq> []) ''Assigned Client Identifier cannot be empty'')"
  | "property_value (ServerKeepAlive v) = Inr ()"
  | "property_value (AuthenticationMethod v) = validation_string v"
  | "property_value (AuthenticationData v) = binary_limit v"
  | "property_value (RequestProblemInformation v) = require (v \<le> 1) ''Property value must be 0 or 1''"
  | "property_value (WillDelayInterval v) = Inr ()"
  | "property_value (RequestResponseInformation v) = require (v \<le> 1) ''Property value must be 0 or 1''"
  | "property_value (ResponseInformation v) = validation_string v"
  | "property_value (ServerReference v) = validation_string v"
  | "property_value (ReasonString v) = validation_string v"
  | "property_value (ReceiveMaximum v) = require (v \<noteq> 0) ''Property value cannot be zero''"
  | "property_value (TopicAliasMaximum v) = Inr ()"
  | "property_value (TopicAlias v) = require (v \<noteq> 0) ''Property value cannot be zero''"
  | "property_value (MaximumQoS v) = require (v \<le> 1) ''Property value must be 0 or 1''"
  | "property_value (RetainAvailable v) = require (v \<le> 1) ''Property value must be 0 or 1''"
  | "property_value (UserProperty k v) =
       tryE (validation_string k) (\<lambda>_. validation_string v)"
  | "property_value (MaximumPacketSize v) = require (v \<noteq> 0) ''Maximum Packet Size cannot be zero''"
  | "property_value (WildcardSubscriptionAvailable v) = require (v \<le> 1) ''Property value must be 0 or 1''"
  | "property_value (SubscriptionIdentifierAvailable v) = require (v \<le> 1) ''Property value must be 0 or 1''"
  | "property_value (SharedSubscriptionAvailable v) = require (v \<le> 1) ''Property value must be 0 or 1''"

section \<open>Encoding\<close>

definition binary_len :: "nat \<Rightarrow> nat res" where
  "binary_len len = (if 65535 < len then Inl StringTooLong else Inr (2 + len))"

fun property_value_len :: "Property \<Rightarrow> nat res" where
    "property_value_len (PayloadFormatIndicator v) = Inr 1"
  | "property_value_len (MessageExpiryInterval v) = Inr 4"
  | "property_value_len (ContentType v) = binary_len (length v)"
  | "property_value_len (ResponseTopic v) = binary_len (length v)"
  | "property_value_len (CorrelationData v) = binary_len (length v)"
  | "property_value_len (SubscriptionIdentifier v) = Inr (VariableByteInteger_encoded_len v)"
  | "property_value_len (SessionExpiryInterval v) = Inr 4"
  | "property_value_len (AssignedClientIdentifier v) = binary_len (length v)"
  | "property_value_len (ServerKeepAlive v) = Inr 2"
  | "property_value_len (AuthenticationMethod v) = binary_len (length v)"
  | "property_value_len (AuthenticationData v) = binary_len (length v)"
  | "property_value_len (RequestProblemInformation v) = Inr 1"
  | "property_value_len (WillDelayInterval v) = Inr 4"
  | "property_value_len (RequestResponseInformation v) = Inr 1"
  | "property_value_len (ResponseInformation v) = binary_len (length v)"
  | "property_value_len (ServerReference v) = binary_len (length v)"
  | "property_value_len (ReasonString v) = binary_len (length v)"
  | "property_value_len (ReceiveMaximum v) = Inr 2"
  | "property_value_len (TopicAliasMaximum v) = Inr 2"
  | "property_value_len (TopicAlias v) = Inr 2"
  | "property_value_len (MaximumQoS v) = Inr 1"
  | "property_value_len (RetainAvailable v) = Inr 1"
  | "property_value_len (UserProperty k v) =
       tryE (binary_len (length k)) (\<lambda>kl. tryE (binary_len (length v)) (\<lambda>vl. Inr (kl + vl)))"
  | "property_value_len (MaximumPacketSize v) = Inr 4"
  | "property_value_len (WildcardSubscriptionAvailable v) = Inr 1"
  | "property_value_len (SubscriptionIdentifierAvailable v) = Inr 1"
  | "property_value_len (SharedSubscriptionAvailable v) = Inr 1"

definition Property_encoded_len :: "Property \<Rightarrow> nat res" where
  "Property_encoded_len p =
     tryE (property_value p) (\<lambda>_.
     tryE (property_value_len p) (\<lambda>value_len. Inr (1 + value_len)))"

definition append_binary :: "bytes \<Rightarrow> bytes" where
  "append_binary data = to_be_bytes16 (of_nat (length data)) @ data"

fun encode_validated :: "Property \<Rightarrow> bytes" where
    "encode_validated (PayloadFormatIndicator v) = property_id ID_PayloadFormatIndicator # [v]"
  | "encode_validated (MessageExpiryInterval v) = property_id ID_MessageExpiryInterval # to_be_bytes32 v"
  | "encode_validated (ContentType v) = property_id ID_ContentType # append_binary v"
  | "encode_validated (ResponseTopic v) = property_id ID_ResponseTopic # append_binary v"
  | "encode_validated (CorrelationData v) = property_id ID_CorrelationData # append_binary v"
  | "encode_validated (SubscriptionIdentifier v) = property_id ID_SubscriptionIdentifier # VariableByteInteger_encode v"
  | "encode_validated (SessionExpiryInterval v) = property_id ID_SessionExpiryInterval # to_be_bytes32 v"
  | "encode_validated (AssignedClientIdentifier v) = property_id ID_AssignedClientIdentifier # append_binary v"
  | "encode_validated (ServerKeepAlive v) = property_id ID_ServerKeepAlive # to_be_bytes16 v"
  | "encode_validated (AuthenticationMethod v) = property_id ID_AuthenticationMethod # append_binary v"
  | "encode_validated (AuthenticationData v) = property_id ID_AuthenticationData # append_binary v"
  | "encode_validated (RequestProblemInformation v) = property_id ID_RequestProblemInformation # [v]"
  | "encode_validated (WillDelayInterval v) = property_id ID_WillDelayInterval # to_be_bytes32 v"
  | "encode_validated (RequestResponseInformation v) = property_id ID_RequestResponseInformation # [v]"
  | "encode_validated (ResponseInformation v) = property_id ID_ResponseInformation # append_binary v"
  | "encode_validated (ServerReference v) = property_id ID_ServerReference # append_binary v"
  | "encode_validated (ReasonString v) = property_id ID_ReasonString # append_binary v"
  | "encode_validated (ReceiveMaximum v) = property_id ID_ReceiveMaximum # to_be_bytes16 v"
  | "encode_validated (TopicAliasMaximum v) = property_id ID_TopicAliasMaximum # to_be_bytes16 v"
  | "encode_validated (TopicAlias v) = property_id ID_TopicAlias # to_be_bytes16 v"
  | "encode_validated (MaximumQoS v) = property_id ID_MaximumQoS # [v]"
  | "encode_validated (RetainAvailable v) = property_id ID_RetainAvailable # [v]"
  | "encode_validated (UserProperty k v) =
       property_id ID_UserProperty # append_binary k @ append_binary v"
  | "encode_validated (MaximumPacketSize v) = property_id ID_MaximumPacketSize # to_be_bytes32 v"
  | "encode_validated (WildcardSubscriptionAvailable v) = property_id ID_WildcardSubscriptionAvailable # [v]"
  | "encode_validated (SubscriptionIdentifierAvailable v) = property_id ID_SubscriptionIdentifierAvailable # [v]"
  | "encode_validated (SharedSubscriptionAvailable v) = property_id ID_SharedSubscriptionAvailable # [v]"

record PropertyEncoder =
  pe_properties :: "Property list"
  pe_body_len :: nat

fun PropertyEncoder_body_len :: "Property list \<Rightarrow> nat \<Rightarrow> nat res" where
  "PropertyEncoder_body_len [] body_len = Inr body_len"
| "PropertyEncoder_body_len (p # ps) body_len =
     tryE (Property_encoded_len p) (\<lambda>l. PropertyEncoder_body_len ps (body_len + l))"

definition PropertyEncoder_new :: "Property list \<Rightarrow> PropertyEncoder res" where
  "PropertyEncoder_new properties =
     tryE (PropertyEncoder_body_len properties 0) (\<lambda>body_len.
     Inr \<lparr>pe_properties = properties, pe_body_len = body_len\<rparr>)"

definition PropertyEncoder_encoded_len :: "PropertyEncoder \<Rightarrow> nat" where
  "PropertyEncoder_encoded_len e =
     VariableByteInteger_encoded_len (of_nat (pe_body_len e)) + pe_body_len e"

definition PropertyEncoder_encode_into :: "PropertyEncoder \<Rightarrow> bytes" where
  "PropertyEncoder_encode_into e =
     VariableByteInteger_encode (of_nat (pe_body_len e)) @ concat (map encode_validated (pe_properties e))"

definition encode_properities_hdr :: "Property list \<Rightarrow> bytes res" where
  "encode_properities_hdr properties =
     tryE (PropertyEncoder_new properties) (\<lambda>e. Inr (PropertyEncoder_encode_into e))"

section \<open>Decoding\<close>

text \<open>The five shapes of the arms of \<open>parse_property\<close>; \<open>C\<close> is the constructor an arm builds.\<close>

definition read_u8 :: "(u8 \<Rightarrow> Property) \<Rightarrow> bytes \<Rightarrow> nat \<Rightarrow> (Property \<times> nat) res" where
  "read_u8 C buffer offset =
     tryE (get_byte buffer offset IncompleteProperty) (\<lambda>val. Inr (C val, offset + 1))"

definition read_u16 :: "(u16 \<Rightarrow> Property) \<Rightarrow> bytes \<Rightarrow> nat \<Rightarrow> (Property \<times> nat) res" where
  "read_u16 C buffer offset =
     tryE (get_range buffer offset (offset + 2) IncompleteProperty) (\<lambda>s.
     Inr (C (from_be_bytes16 (s ! 0) (s ! 1)), offset + 2))"

definition read_u32 :: "(u32 \<Rightarrow> Property) \<Rightarrow> bytes \<Rightarrow> nat \<Rightarrow> (Property \<times> nat) res" where
  "read_u32 C buffer offset =
     tryE (get_range buffer offset (offset + 4) IncompleteProperty) (\<lambda>s.
     Inr (C (from_be_bytes32 (s ! 0) (s ! 1) (s ! 2) (s ! 3)), offset + 4))"

definition read_str :: "(str \<Rightarrow> Property) \<Rightarrow> bytes \<Rightarrow> nat \<Rightarrow> (Property \<times> nat) res" where
  "read_str C buffer offset =
     tryE (slice_from buffer offset) (\<lambda>rest.
     tryE (parse_utf8_string rest) (\<lambda>(val, consumed). Inr (C val, offset + consumed)))"

definition read_bin :: "(bytes \<Rightarrow> Property) \<Rightarrow> bytes \<Rightarrow> nat \<Rightarrow> (Property \<times> nat) res" where
  "read_bin C buffer offset =
     tryE (slice_from buffer offset) (\<lambda>rest.
     tryE (BinaryData_decode rest) (\<lambda>(val, consumed). Inr (C val, offset + consumed)))"

definition read_vbi :: "(u32 \<Rightarrow> Property) \<Rightarrow> bytes \<Rightarrow> nat \<Rightarrow> (Property \<times> nat) res" where
  "read_vbi C buffer offset =
     tryE (slice_from buffer offset) (\<lambda>rest.
     tryE (parse_vbi rest) (\<lambda>(val, consumed). Inr (C (of_nat val), offset + consumed)))"

definition read_pair :: "(str \<Rightarrow> str \<Rightarrow> Property) \<Rightarrow> bytes \<Rightarrow> nat \<Rightarrow> (Property \<times> nat) res" where
  "read_pair C buffer offset =
     tryE (slice_from buffer offset) (\<lambda>rest.
     tryE (parse_utf8_string rest) (\<lambda>(key, consumed_key).
     tryE (slice_from buffer (offset + consumed_key)) (\<lambda>rest2.
     tryE (parse_utf8_string rest2) (\<lambda>(val, consumed_val).
     Inr (C key val, offset + consumed_key + consumed_val)))))"

fun parse_property_value :: "PropertyID \<Rightarrow> bytes \<Rightarrow> nat \<Rightarrow> (Property \<times> nat) res" where
    "parse_property_value ID_PayloadFormatIndicator b i = read_u8 PayloadFormatIndicator b i"
  | "parse_property_value ID_MessageExpiryInterval b i = read_u32 MessageExpiryInterval b i"
  | "parse_property_value ID_ContentType b i = read_str ContentType b i"
  | "parse_property_value ID_ResponseTopic b i = read_str ResponseTopic b i"
  | "parse_property_value ID_CorrelationData b i = read_bin CorrelationData b i"
  | "parse_property_value ID_SubscriptionIdentifier b i = read_vbi SubscriptionIdentifier b i"
  | "parse_property_value ID_SessionExpiryInterval b i = read_u32 SessionExpiryInterval b i"
  | "parse_property_value ID_AssignedClientIdentifier b i = read_str AssignedClientIdentifier b i"
  | "parse_property_value ID_ServerKeepAlive b i = read_u16 ServerKeepAlive b i"
  | "parse_property_value ID_AuthenticationMethod b i = read_str AuthenticationMethod b i"
  | "parse_property_value ID_AuthenticationData b i = read_bin AuthenticationData b i"
  | "parse_property_value ID_RequestProblemInformation b i = read_u8 RequestProblemInformation b i"
  | "parse_property_value ID_WillDelayInterval b i = read_u32 WillDelayInterval b i"
  | "parse_property_value ID_RequestResponseInformation b i = read_u8 RequestResponseInformation b i"
  | "parse_property_value ID_ResponseInformation b i = read_str ResponseInformation b i"
  | "parse_property_value ID_ServerReference b i = read_str ServerReference b i"
  | "parse_property_value ID_ReasonString b i = read_str ReasonString b i"
  | "parse_property_value ID_ReceiveMaximum b i = read_u16 ReceiveMaximum b i"
  | "parse_property_value ID_TopicAliasMaximum b i = read_u16 TopicAliasMaximum b i"
  | "parse_property_value ID_TopicAlias b i = read_u16 TopicAlias b i"
  | "parse_property_value ID_MaximumQoS b i = read_u8 MaximumQoS b i"
  | "parse_property_value ID_RetainAvailable b i = read_u8 RetainAvailable b i"
  | "parse_property_value ID_UserProperty b i = read_pair UserProperty b i"
  | "parse_property_value ID_MaximumPacketSize b i = read_u32 MaximumPacketSize b i"
  | "parse_property_value ID_WildcardSubscriptionAvailable b i = read_u8 WildcardSubscriptionAvailable b i"
  | "parse_property_value ID_SubscriptionIdentifierAvailable b i = read_u8 SubscriptionIdentifierAvailable b i"
  | "parse_property_value ID_SharedSubscriptionAvailable b i = read_u8 SharedSubscriptionAvailable b i"

definition parse_property :: "bytes \<Rightarrow> (Property \<times> nat) res" where
  "parse_property buffer =
     tryE (parse_vbi buffer) (\<lambda>(property_id, consumed).
     tryE (case PropertyID_try_from property_id of
             Inl _ \<Rightarrow> Inl (ParseErr ''Unknown property ID'') | Inr p \<Rightarrow> Inr p) (\<lambda>property.
     parse_property_value property buffer consumed))"

section \<open>Canonicity of the elements\<close>

lemma from_be_bytes32_inverse: "to_be_bytes32 (from_be_bytes32 a b c d) = [a, b, c, d]"
proof -
  let ?n = "((unat a * 256 + unat b) * 256 + unat c) * 256 + unat d"
  have s: "x * 256 + unat y \<le> X * 256 + 255" if "x \<le> X" for x X :: nat and y :: u8
    using that unat_u8_less [of y] by linarith
  have "unat a \<le> 255" using unat_u8_less [of a] by linarith
  from s [OF s [OF s [OF this]], of b c d] have "?n < 4294967296" by simp
  then have u: "unat (from_be_bytes32 a b c d) = ?n"
    by (simp only: from_be_bytes32_def unat_of_nat_u32 mod_less)
  have dv: "(x * 256 + unat y) div 256 = x" for x :: nat and y :: u8 by simp
  have d1: "?n div 256 = (unat a * 256 + unat b) * 256 + unat c" by (rule dv)
  have d2: "?n div 65536 = unat a * 256 + unat b"
  proof -
    have "?n div 65536 = ?n div 256 div 256" by (simp only: div_mult2_eq [symmetric]) simp
    then show ?thesis by (simp only: d1 dv)
  qed
  have d3: "?n div 16777216 = unat a"
  proof -
    have "?n div 16777216 = ?n div 65536 div 256" by (simp only: div_mult2_eq [symmetric]) simp
    then show ?thesis by (simp only: d2 dv)
  qed
  have m: "(x * 256 + unat y) mod 256 = unat y" for x :: nat and y :: u8 by simp
  show ?thesis
    by (simp only: to_be_bytes32_def u d1 d2 d3 word_unat_eq_iff unat_as_u8 list.inject m
                   mod_less [OF unat_u8_less] simp_thms)
qed

lemma list_of_length_2: "length s = 2 \<Longrightarrow> s = [s ! 0, s ! 1]"
  by (cases s rule: list.exhaust; cases "tl s" rule: list.exhaust; auto)

lemma list_of_length_4:
  assumes "length s = 4"
  shows "s = [s ! 0, s ! 1, s ! 2, s ! 3]"
  using assms by (auto intro!: nth_equalityI simp: less_Suc_eq eval_nat_numeral)

text \<open>
  The values that have a wire form: strings of at most 65535 bytes of UTF-8 without U+0000, binary
  data of at most 65535 bytes, subscription identifiers of at most four bytes.
\<close>

definition prop_wire_ok :: "Property \<Rightarrow> bool" where
  "prop_wire_ok p \<longleftrightarrow> (case p of
      ContentType s \<Rightarrow> str_ok s | ResponseTopic s \<Rightarrow> str_ok s | AssignedClientIdentifier s \<Rightarrow> str_ok s
    | AuthenticationMethod s \<Rightarrow> str_ok s | ResponseInformation s \<Rightarrow> str_ok s
    | ServerReference s \<Rightarrow> str_ok s | ReasonString s \<Rightarrow> str_ok s
    | UserProperty k v \<Rightarrow> str_ok k \<and> str_ok v
    | CorrelationData d \<Rightarrow> length d \<le> 65535 | AuthenticationData d \<Rightarrow> length d \<le> 65535
    | SubscriptionIdentifier v \<Rightarrow> v \<le> 268435455
    | _ \<Rightarrow> True)"

text \<open>Rust strings are UTF-8; the type invariant of \<open>Property\<close>.\<close>

definition prop_utf8 :: "Property \<Rightarrow> bool" where
  "prop_utf8 p \<longleftrightarrow> (case p of
      ContentType s \<Rightarrow> utf8_valid s | ResponseTopic s \<Rightarrow> utf8_valid s
    | AssignedClientIdentifier s \<Rightarrow> utf8_valid s | AuthenticationMethod s \<Rightarrow> utf8_valid s
    | ResponseInformation s \<Rightarrow> utf8_valid s | ServerReference s \<Rightarrow> utf8_valid s
    | ReasonString s \<Rightarrow> utf8_valid s | UserProperty k v \<Rightarrow> utf8_valid k \<and> utf8_valid v
    | _ \<Rightarrow> True)"

definition prop_ok :: "Property \<Rightarrow> bool" where
  "prop_ok p \<longleftrightarrow> property_value p = Inr () \<and> prop_utf8 p"

lemma validation_string_ok: "validation_string s = Inr u \<and> utf8_valid s \<longleftrightarrow> str_ok s"
  by (auto simp: validation_string_def validate_mqtt_utf8_string_def str_ok_def)

lemma validation_topic_ok:
  "validation_topic s = Inr u \<longleftrightarrow>
   validation_string s = Inr () \<and> s \<noteq> [] \<and> plus_c \<notin> set s \<and> hash \<notin> set s"
  by (auto simp: validation_topic_def)

lemma prop_ok_wire: "prop_ok p \<Longrightarrow> prop_wire_ok p"
  by (cases p) (auto simp: prop_ok_def prop_wire_ok_def prop_utf8_def validation_topic_ok
      binary_limit_def intro: validation_string_ok [THEN iffD1, OF conjI] split: if_splits)

lemma prop_wire_utf8: "prop_wire_ok p \<Longrightarrow> prop_utf8 p"
  by (cases p) (auto simp: prop_wire_ok_def prop_utf8_def str_ok_def)

lemma append_binary_eq: "append_binary d = BinaryData_encode d"
  by (simp add: append_binary_def BinaryData_encode_def)

subsection \<open>The readers\<close>

lemma get_from_1 [simp]: "get_from (x # xs) 1 e = Inr xs"
  by (simp add: get_from_def)

lemma read_u8_encode: "read_u8 C (i # v # r) 1 = Inr (C v, 2)"
  by (simp add: read_u8_def get_byte_def)

lemma get_range_Cons_append: "length xs = n \<Longrightarrow> get_range (i # xs @ r) 1 (1 + n) e = Inr xs"
  by (simp add: get_range_def)

lemma nth_to_be_bytes16:
  "to_be_bytes16 v ! 0 = as_u8 (unat v div 256)" "to_be_bytes16 v ! 1 = as_u8 (unat v)"
  by (simp_all add: to_be_bytes16_def)

lemma read_u16_encode: "read_u16 C (i # to_be_bytes16 v @ r) 1 = Inr (C v, 3)"
  unfolding read_u16_def get_range_Cons_append [OF length_to_be_bytes16] tryE_Inr nth_to_be_bytes16
  by (simp add: from_to_be_bytes16)

lemma nth_to_be_bytes32:
  "to_be_bytes32 v ! 0 = as_u8 (unat v div 16777216)" "to_be_bytes32 v ! 1 = as_u8 (unat v div 65536)"
  "to_be_bytes32 v ! 2 = as_u8 (unat v div 256)" "to_be_bytes32 v ! 3 = as_u8 (unat v)"
  by (simp_all add: to_be_bytes32_def)

lemma read_u32_encode: "read_u32 C (i # to_be_bytes32 v @ r) 1 = Inr (C v, 5)"
  unfolding read_u32_def get_range_Cons_append [OF length_to_be_bytes32] tryE_Inr nth_to_be_bytes32
  by (simp add: from_to_be_bytes32)

lemma read_str_encode: "str_ok v \<Longrightarrow> read_str C (i # append_binary v @ r) 1 = Inr (C v, 3 + length v)"
  using Utf8String_decode_encode [of v r]
  by (simp add: read_str_def parse_utf8_string_def append_binary_eq Utf8String_encode_def)

lemma read_bin_encode:
  "length v \<le> 65535 \<Longrightarrow> read_bin C (i # append_binary v @ r) 1 = Inr (C v, 3 + length v)"
  by (simp add: read_bin_def append_binary_eq BinaryData_decode_encode)

lemma read_vbi_encode:
  "unat v \<le> 268435455 \<Longrightarrow> read_vbi C (i # VariableByteInteger_encode v @ r) 1 =
     Inr (C v, 1 + length (VariableByteInteger_encode v))"
  by (simp add: read_vbi_def parse_vbi_def vbi_decode_encode)

lemma read_pair_encode:
  "str_ok k \<Longrightarrow> str_ok v \<Longrightarrow>
   read_pair C (i # append_binary k @ append_binary v @ r) 1 = Inr (C k v, 5 + length k + length v)"
  using Utf8String_decode_encode [of k "append_binary v @ r"] Utf8String_decode_encode [of v r]
  by (simp add: read_pair_def parse_utf8_string_def append_binary_eq Utf8String_encode_def
      get_from_def)

lemmas read_encode = read_u8_encode read_u16_encode read_u32_encode read_str_encode read_bin_encode
  read_vbi_encode read_pair_encode

lemma as_u8_unat: "as_u8 (unat x) = x"
  by (simp add: word_unat_eq_iff)

lemma vbi_decode_single: "unat x < 128 \<Longrightarrow> VariableByteInteger_decode (x # r) = Inr (unat x, 1)"
  using vbi_decode_encode [of "of_nat (unat x)" r] vbi_encode_small [of "of_nat (unat x)"]
  by (simp add: as_u8_unat del: of_nat_unat)

lemma unat_property_id_less: "unat (property_id i) < 128"
  by (cases i) auto

lemma PropertyID_try_from_id [simp]: "PropertyID_try_from (unat (property_id i)) = Inr i"
  by (cases i) (simp_all add: PropertyID_try_from_def)

lemma PropertyID_try_from_Inr: "PropertyID_try_from v = Inr i \<Longrightarrow> v = unat (property_id i)"
  by (auto simp: PropertyID_try_from_def split: if_splits)

lemma parse_property_Cons:
  "parse_property (property_id i # r) = parse_property_value i (property_id i # r) 1"
  by (simp add: parse_property_def parse_vbi_def vbi_decode_single unat_property_id_less)

lemma parse_property_encode:
  assumes "prop_wire_ok p"
  shows "parse_property (encode_validated p @ r) = Inr (p, length (encode_validated p))"
  using assms
  by (cases p)
     (simp_all only: encode_validated.simps append_Cons append.assoc parse_property_Cons
        parse_property_value.simps prop_wire_ok_def Property.simps read_encode word_le_nat_alt,
      simp_all add: read_encode [unfolded One_nat_def] append_binary_eq)

lemma read_u8_canonical:
  "read_u8 C (i # r) 1 = Inr (p, n) \<Longrightarrow> \<exists>v. p = C v \<and> n = 2 \<and> take n (i # r) = i # [v]"
  by (auto simp: read_u8_def get_byte_Inr take_Suc_conv_app_nth numeral_2_eq_2 simp del: take_Suc_Cons)

lemma get_range_1_Inr:
  "get_range (i # r) 1 (1 + n) e = Inr s \<longleftrightarrow> n \<le> length r \<and> s = take n r"
  by (auto simp: get_range_def)

lemma read_u16_canonical:
  assumes "read_u16 C (i # r) 1 = Inr (p, n)"
  shows "\<exists>v. p = C v \<and> n = 3 \<and> take n (i # r) = i # to_be_bytes16 v"
proof -
  from assms obtain s where s: "2 \<le> length r" "s = take 2 r" "p = C (from_be_bytes16 (s ! 0) (s ! 1))"
    "n = 1 + 2"
    unfolding read_u16_def tryE_eq_Inr get_range_1_Inr by blast
  then have t: "take n (i # r) = i # s" by (simp add: numeral_2_eq_2)
  have e: "s = to_be_bytes16 (from_be_bytes16 (s ! 0) (s ! 1))"
    unfolding from_be_bytes16_inverse using s by (intro list_of_length_2) simp
  have "take n (i # r) = i # to_be_bytes16 (from_be_bytes16 (s ! 0) (s ! 1))"
    using t e by metis
  then show ?thesis using s(3,4) by (intro exI [of _ "from_be_bytes16 (s ! 0) (s ! 1)"]) simp
qed

lemma read_u32_canonical:
  assumes "read_u32 C (i # r) 1 = Inr (p, n)"
  shows "\<exists>v. p = C v \<and> n = 5 \<and> take n (i # r) = i # to_be_bytes32 v"
proof -
  from assms obtain s where s: "4 \<le> length r" "s = take 4 r"
    "p = C (from_be_bytes32 (s ! 0) (s ! 1) (s ! 2) (s ! 3))" "n = 1 + 4"
    unfolding read_u32_def tryE_eq_Inr get_range_1_Inr by blast
  then have t: "take n (i # r) = i # s" by simp
  have e: "s = to_be_bytes32 (from_be_bytes32 (s ! 0) (s ! 1) (s ! 2) (s ! 3))"
    unfolding from_be_bytes32_inverse using s by (intro list_of_length_4) simp
  have "take n (i # r) = i # to_be_bytes32 (from_be_bytes32 (s ! 0) (s ! 1) (s ! 2) (s ! 3))"
    using t e by metis
  then show ?thesis
    using s(3,4) by (intro exI [of _ "from_be_bytes32 (s ! 0) (s ! 1) (s ! 2) (s ! 3)"]) simp
qed

lemma parse_utf8_string_canonical:
  "parse_utf8_string b = Inr (v, n) \<Longrightarrow>
   str_ok v \<and> n = length (append_binary v) \<and> take n b = append_binary v"
  using utf8.dec_canonical [of b v n]
  by (auto simp: parse_utf8_string_def append_binary_eq Utf8String_encode_def)

lemma read_str_canonical:
  "read_str C (i # r) 1 = Inr (p, n) \<Longrightarrow>
   \<exists>v. p = C v \<and> str_ok v \<and> n = Suc (length (append_binary v)) \<and> take n (i # r) = i # append_binary v"
  by (auto simp: read_str_def dest!: parse_utf8_string_canonical)

lemma read_bin_canonical:
  "read_bin C (i # r) 1 = Inr (p, n) \<Longrightarrow>
   \<exists>v. p = C v \<and> length v \<le> 65535 \<and> n = Suc (length (append_binary v)) \<and>
       take n (i # r) = i # append_binary v"
  using binary.dec_canonical by (fastforce simp: read_bin_def append_binary_eq)

lemma read_vbi_canonical:
  assumes "read_vbi C (i # r) 1 = Inr (p, n)"
  shows "\<exists>v. p = C v \<and> v \<le> 268435455 \<and> n = Suc (length (VariableByteInteger_encode v)) \<and>
       take n (i # r) = i # VariableByteInteger_encode v"
proof -
  from assms obtain v m where v: "VariableByteInteger_decode r = Inr (v, m)" "p = C (of_nat v)" "n = Suc m"
    by (auto simp: read_vbi_def parse_vbi_def)
  have "(of_nat v :: u32) \<le> 268435455" using vbi.dec_canonical [OF v(1)] by (simp add: word_le_nat_alt)
  then show ?thesis using v vbi.dec_canonical [OF v(1)] by auto
qed

lemma read_pair_canonical:
  assumes "read_pair C (i # r) 1 = Inr (p, n)"
  shows "\<exists>k v. p = C k v \<and> str_ok k \<and> str_ok v \<and>
    n = Suc (length (append_binary k @ append_binary v)) \<and>
    take n (i # r) = i # append_binary k @ append_binary v"
proof -
  from assms obtain k kl v vl where *: "parse_utf8_string r = Inr (k, kl)"
    "parse_utf8_string (drop kl r) = Inr (v, vl)" "p = C k v" "n = Suc (kl + vl)"
    by (auto simp: read_pair_def get_from_Inr)
  note k = parse_utf8_string_canonical [OF *(1)] and v = parse_utf8_string_canonical [OF *(2)]
  have "take (kl + vl) r = append_binary k @ append_binary v"
    using k v by (metis take_add)
  then show ?thesis using * k v by (intro exI [of _ k] exI [of _ v]) simp
qed

lemma parse_property_canonical:
  assumes "parse_property b = Inr (p, n)"
  shows "prop_wire_ok p \<and> n = length (encode_validated p) \<and> take n b = encode_validated p"
proof -
  from assms obtain v m i where *: "VariableByteInteger_decode b = Inr (v, m)"
    "PropertyID_try_from v = Inr i" "parse_property_value i b m = Inr (p, n)"
    by (auto simp: parse_property_def parse_vbi_def split: sum.splits)
  have v: "v = unat (property_id i)" by (rule PropertyID_try_from_Inr) fact
  note c = vbi.dec_canonical [OF *(1)]
  have "VariableByteInteger_encode (of_nat v) = [property_id i]"
    using vbi_encode_small [of "of_nat v"] unat_property_id_less [of i] v
    by (simp add: as_u8_unat del: of_nat_unat)
  then have b: "take 1 b = [property_id i]" and m: "m = 1" using c by auto
  then obtain r where r: "b = property_id i # r" by (cases b) auto
  have "parse_property_value i (property_id i # r) 1 = Inr (p, n)" using *(3) r m by simp
  then show ?thesis
    unfolding r
    by (cases i)
       (auto dest!: read_u8_canonical read_u16_canonical read_u32_canonical read_str_canonical
          read_bin_canonical read_vbi_canonical read_pair_canonical
        simp: prop_wire_ok_def simp del: One_nat_def)
qed

lemma no_panic_reads [simp]:
  "no_panic (read_u8 C b i)" "no_panic (read_u16 C' b i)" "no_panic (read_u32 C'' b i)"
  by (auto simp: read_u8_def read_u16_def read_u32_def intro!: no_panic_intros)

lemma no_panic_parse_utf8_string [simp]: "no_panic (parse_utf8_string b)"
  by (simp add: parse_utf8_string_def)

lemma no_panic_read_slices:
  assumes "i \<le> length b"
  shows "no_panic (read_str C b i)" "no_panic (read_bin C' b i)" "no_panic (read_vbi C'' b i)"
    "no_panic (read_pair D b i)"
proof -
  show "no_panic (read_str C b i)" "no_panic (read_bin C' b i)" "no_panic (read_vbi C'' b i)"
    using assms
    by (auto simp: read_str_def read_bin_def read_vbi_def parse_vbi_def get_from_def
        intro!: no_panic_tryE)
  have "kl \<le> length (drop i b)" if "parse_utf8_string (drop i b) = Inr (k, kl)" for k kl
    using utf8.dec_consumes [of "drop i b" k kl] that by (simp add: parse_utf8_string_def)
  then show "no_panic (read_pair D b i)"
    using assms by (fastforce simp: read_pair_def get_from_def intro!: no_panic_tryE)
qed

lemma no_panic_parse_property [simp]: "no_panic (parse_property b)"
proof -
  have "no_panic (parse_property_value i b m)" if "VariableByteInteger_decode b = Inr (v, m)" for i v m
    using vbi.dec_consumes [OF that] by (cases i) (simp_all add: no_panic_read_slices)
  then show ?thesis
    by (auto simp: parse_property_def parse_vbi_def split: sum.splits intro!: no_panic_tryE)
qed

interpretation property: canonical_codec parse_property encode_validated prop_wire_ok
proof unfold_locales
  show "encode_validated p \<noteq> []" for p by (cases p) simp_all
qed (simp_all add: parse_property_encode parse_property_canonical)

section \<open>Property sections\<close>

function parse_properties_loop ::
  "bytes \<Rightarrow> nat \<Rightarrow> Property list \<Rightarrow> (Property list \<times> nat) res" where
  "parse_properties_loop buffer offset properties =
     (if offset < length buffer then
        tryE (slice_from buffer offset) (\<lambda>rest.
        tryE (parse_property rest) (\<lambda>(prop, consumed).
        tryE (property_value prop) (\<lambda>_.
        parse_properties_loop buffer (offset + consumed) (properties @ [prop]))))
      else Inr (properties, offset))"
  by pat_completeness auto
termination
  by (relation "measure (\<lambda>(b, i, _). length b - i)") (auto dest!: property.dec_consumes)

declare parse_properties_loop.simps [simp del]

definition parse_properties :: "bytes \<Rightarrow> (Property list \<times> nat) res" where
  "parse_properties buffer = parse_properties_loop buffer 0 []"

definition parse_properties_hdr :: "bytes \<Rightarrow> (Property list \<times> nat) res" where
  "parse_properties_hdr buffer =
     tryE (parse_vbi buffer) (\<lambda>(prop_len, offset).
     if length buffer < offset + prop_len then Inl IncompleteProperty
     else
       tryE (slice_range buffer offset (offset + prop_len)) (\<lambda>sect.
       tryE (parse_properties sect) (\<lambda>(props, consumed).
       Inr (props, offset + consumed))))"

text \<open>One round of the loop: decode, then check the value.\<close>

definition parse_checked_property :: "bytes \<Rightarrow> (Property \<times> nat) res" where
  "parse_checked_property b =
     tryE (parse_property b) (\<lambda>(p, n). tryE (property_value p) (\<lambda>_. Inr (p, n)))"

lemma no_panic_validation [simp]:
  "no_panic (validation_string s)" "no_panic (validation_topic s)" "no_panic (binary_limit s)"
  by (auto simp: validation_string_def validate_mqtt_utf8_string_def validation_topic_def
      binary_limit_def intro!: no_panic_tryE)

lemma no_panic_property_value [simp]: "no_panic (property_value p)"
  by (cases p) (auto intro!: no_panic_tryE)

interpretation prop_loop: element_loop parse_checked_property encode_validated prop_ok
  "\<lambda>b stop. parse_properties_loop b" "\<lambda>b stop. stop = length b"
proof unfold_locales
  show "encode_validated p \<noteq> []" for p by (cases p) simp_all
  show "parse_checked_property (encode_validated p @ r) = Inr (p, length (encode_validated p))"
    if "prop_ok p" for p r
    using that by (simp add: parse_checked_property_def parse_property_encode prop_ok_wire)
      (simp add: prop_ok_def)
  show "prop_ok p \<and> n = length (encode_validated p) \<and> take n b = encode_validated p"
    if "parse_checked_property b = Inr (p, n)" for b p n
    using that parse_property_canonical [of b p n] prop_wire_utf8 [of p]
    by (auto simp: parse_checked_property_def prop_ok_def)
  show "no_panic (parse_checked_property b)" for b
    by (auto simp: parse_checked_property_def intro!: no_panic_tryE)
  fix b :: bytes and stop off :: nat and acc :: "Property list"
  assume s: "stop = length b"
  show "parse_properties_loop b off acc = Inr (acc, off)" if "stop \<le> off"
    using s that by (subst parse_properties_loop.simps) simp
  assume o: "off < stop" "off \<le> length b"
  show "parse_properties_loop b off acc = parse_properties_loop b (off + n) (acc @ [p])"
    if "parse_checked_property (drop off b) = Inr (p, n)" for p n
    using s o that
    by (subst parse_properties_loop.simps) (auto simp: get_from_def parse_checked_property_def)
  show "parse_properties_loop b off acc = Inl e"
    if "parse_checked_property (drop off b) = Inl e" for e
    using s o that
    by (subst parse_properties_loop.simps)
       (auto simp: get_from_def parse_checked_property_def tryE_eq_Inl)
qed

lemma property_encoded_len_ok:
  assumes "prop_ok p"
  shows "Property_encoded_len p = Inr (length (encode_validated p))"
proof -
  have "property_value p = Inr ()" "prop_wire_ok p"
    using assms prop_ok_wire by (simp_all add: prop_ok_def)
  then show ?thesis
    by (cases p)
       (simp_all add: Property_encoded_len_def prop_wire_ok_def binary_len_def append_binary_eq
          VariableByteInteger_encoded_len_def vbi_len_loop_eq str_ok_def)
qed

lemma PropertyEncoder_body_len_ok:
  "\<forall>p \<in> set ps. prop_ok p \<Longrightarrow>
   PropertyEncoder_body_len ps n = Inr (n + length (concat (map encode_validated ps)))"
  by (induction ps arbitrary: n) (auto simp: property_encoded_len_ok add.assoc)

lemma PropertyEncoder_body_len_Inr:
  "PropertyEncoder_body_len ps n = Inr m \<Longrightarrow> p \<in> set ps \<Longrightarrow> property_value p = Inr ()"
  by (induction ps arbitrary: n) (auto simp: Property_encoded_len_def)

text \<open>The section a valid list of properties is written as, and the lists that have one.\<close>

definition props_body :: "Property list \<Rightarrow> bytes" where
  "props_body ps = concat (map encode_validated ps)"

definition props_wire :: "Property list \<Rightarrow> bytes" where
  "props_wire ps = VariableByteInteger_encode (of_nat (length (props_body ps))) @ props_body ps"

definition props_ok :: "Property list \<Rightarrow> bool" where
  "props_ok ps \<longleftrightarrow> (\<forall>p \<in> set ps. prop_ok p) \<and> length (props_body ps) \<le> 268435455"

lemma PropertyEncoder_new_ok:
  assumes "\<forall>p \<in> set ps. prop_ok p"
  shows "PropertyEncoder_new ps = Inr \<lparr>pe_properties = ps, pe_body_len = length (props_body ps)\<rparr>"
  using PropertyEncoder_body_len_ok [OF assms, of 0]
  by (simp add: PropertyEncoder_new_def props_body_def)

lemma PropertyEncoder_new_Inr:
  assumes "PropertyEncoder_new ps = Inr e" and "\<forall>p \<in> set ps. prop_utf8 p"
  shows "\<forall>p \<in> set ps. prop_ok p" and "e = \<lparr>pe_properties = ps, pe_body_len = length (props_body ps)\<rparr>"
    and "PropertyEncoder_encode_into e = props_wire ps"
    and "PropertyEncoder_encoded_len e = length (props_wire ps)"
proof -
  from assms(1) obtain m where "PropertyEncoder_body_len ps 0 = Inr m"
    by (auto simp: PropertyEncoder_new_def)
  from PropertyEncoder_body_len_Inr [OF this] assms(2) show ok: "\<forall>p \<in> set ps. prop_ok p"
    by (simp add: prop_ok_def)
  show e: "e = \<lparr>pe_properties = ps, pe_body_len = length (props_body ps)\<rparr>"
    using PropertyEncoder_new_ok [OF ok] assms(1) by simp
  show "PropertyEncoder_encode_into e = props_wire ps"
    by (simp add: e PropertyEncoder_encode_into_def props_wire_def props_body_def)
  show "PropertyEncoder_encoded_len e = length (props_wire ps)"
    by (simp add: e PropertyEncoder_encoded_len_def props_wire_def
        VariableByteInteger_encoded_len_def vbi_len_loop_eq)
qed

lemma encode_properities_hdr_Inr:
  "encode_properities_hdr ps = Inr bs \<Longrightarrow> \<forall>p \<in> set ps. prop_utf8 p \<Longrightarrow>
   bs = props_wire ps \<and> (\<forall>p \<in> set ps. prop_ok p)"
  by (auto simp: encode_properities_hdr_def dest: PropertyEncoder_new_Inr(1,3))

lemma encode_properities_hdr_ok [simp]:
  "\<forall>p \<in> set ps. prop_ok p \<Longrightarrow> encode_properities_hdr ps = Inr (props_wire ps)"
  by (simp add: encode_properities_hdr_def PropertyEncoder_new_ok PropertyEncoder_encode_into_def
      props_wire_def props_body_def)

lemma parse_properties_body:
  "\<forall>p \<in> set ps. prop_ok p \<Longrightarrow> parse_properties (props_body ps) = Inr (ps, length (props_body ps))"
  using prop_loop.loop_encoded [of ps "[]" "[]" "[]"]
  by (simp add: parse_properties_def props_body_def)

lemma parse_properties_sound:
  assumes "parse_properties b = Inr (ps, n)"
  shows "(\<forall>p \<in> set ps. prop_ok p) \<and> n = length b \<and> b = props_body ps"
  using prop_loop.loop_sound [where b = b and off = 0 and acc = "[]" and ys = ps and off' = n] assms
  by (auto simp: parse_properties_def props_body_def)

lemma no_panic_parse_properties [simp]: "no_panic (parse_properties b)"
  using prop_loop.loop_no_panic [where b = b and off = 0 and acc = "[]"] by (simp add: parse_properties_def)

lemma parse_properties_hdr_wire:
  assumes "props_ok ps"
  shows "parse_properties_hdr (props_wire ps @ r) = Inr (ps, length (props_wire ps))"
proof -
  let ?l = "VariableByteInteger_encode (of_nat (length (props_body ps)))"
  have "VariableByteInteger_decode (?l @ props_body ps @ r) = Inr (length (props_body ps), length ?l)"
    using assms by (intro vbi.dec_enc) (simp add: props_ok_def)
  then show ?thesis
    using assms
    by (simp add: parse_properties_hdr_def parse_vbi_def props_wire_def get_range_def
        parse_properties_body props_ok_def)
qed

lemma parse_properties_hdr_canonical:
  assumes "parse_properties_hdr b = Inr (ps, n)"
  shows "props_ok ps \<and> n = length (props_wire ps) \<and> take n b = props_wire ps"
proof -
  from assms obtain l i m where *: "VariableByteInteger_decode b = Inr (l, i)" "i + l \<le> length b"
    "parse_properties (take l (drop i b)) = Inr (ps, m)" "n = i + m"
    by (auto simp: parse_properties_hdr_def parse_vbi_def get_range_Inr not_less split: if_splits)
  note v = vbi.dec_canonical [OF *(1)] and s = parse_properties_sound [OF *(3)]
  have "length (take l (drop i b)) = l" using *(2) by simp
  then have l: "length (props_body ps) = l" "m = l" using s by metis+
  have "take n b = take i b @ take l (drop i b)" using *(4) l by (simp add: take_add)
  then show ?thesis using v s l *(4) by (auto simp: props_ok_def props_wire_def)
qed

lemma no_panic_parse_properties_hdr [simp]: "no_panic (parse_properties_hdr b)"
  by (auto simp: parse_properties_hdr_def parse_vbi_def intro!: no_panic_tryE no_panic_get_range)

interpretation sect: canonical_codec parse_properties_hdr props_wire props_ok
proof unfold_locales
  show "props_wire ps \<noteq> []" for ps by (simp add: props_wire_def)
qed (simp_all add: parse_properties_hdr_wire parse_properties_hdr_canonical)

lemma props_ok_Nil [simp]: "props_ok []"
  by (simp add: props_ok_def props_body_def)

lemma props_wire_Nil [simp]: "props_wire [] = [0]"
  using vbi_encode_small [of 0] by (simp add: props_wire_def props_body_def as_u8_def)

end
