(* ===== verification/Validation.thy ===== *)
theory Validation
  imports Properties
begin

unbundle bit_operations_syntax

text \<open>
  The field checks the strict build runs before encoding and after decoding,
  \<open>src/src/mqtt_serde/validation.rs\<close>, and the parts of \<open>src/src/mqtt_serde/control_packet.rs\<close>
  every packet shares: \<open>ControlPacketType\<close> and the default methods of the trait
  \<open>MqttControlPacket\<close>.
\<close>

section \<open>Control packet types\<close>

datatype ControlPacketType =
    CONNECT | CONNACK | PUBLISH | PUBACK | PUBREC | PUBREL | PUBCOMP | SUBSCRIBE | SUBACK
  | UNSUBSCRIBE | UNSUBACK | PINGREQ | PINGRESP | DISCONNECT | AUTH

fun control_packet_type_u8 :: "ControlPacketType \<Rightarrow> u8" where
    "control_packet_type_u8 CONNECT = 1"
  | "control_packet_type_u8 CONNACK = 2"
  | "control_packet_type_u8 PUBLISH = 3"
  | "control_packet_type_u8 PUBACK = 4"
  | "control_packet_type_u8 PUBREC = 5"
  | "control_packet_type_u8 PUBREL = 6"
  | "control_packet_type_u8 PUBCOMP = 7"
  | "control_packet_type_u8 SUBSCRIBE = 8"
  | "control_packet_type_u8 SUBACK = 9"
  | "control_packet_type_u8 UNSUBSCRIBE = 10"
  | "control_packet_type_u8 UNSUBACK = 11"
  | "control_packet_type_u8 PINGREQ = 12"
  | "control_packet_type_u8 PINGRESP = 13"
  | "control_packet_type_u8 DISCONNECT = 14"
  | "control_packet_type_u8 AUTH = 15"

definition ControlPacketType_try_from :: "u8 \<Rightarrow> ControlPacketType res" where
  "ControlPacketType_try_from v =
     (if v = 1 then Inr CONNECT
      else if v = 2 then Inr CONNACK
      else if v = 3 then Inr PUBLISH
      else if v = 4 then Inr PUBACK
      else if v = 5 then Inr PUBREC
      else if v = 6 then Inr PUBREL
      else if v = 7 then Inr PUBCOMP
      else if v = 8 then Inr SUBSCRIBE
      else if v = 9 then Inr SUBACK
      else if v = 10 then Inr UNSUBSCRIBE
      else if v = 11 then Inr UNSUBACK
      else if v = 12 then Inr PINGREQ
      else if v = 13 then Inr PINGRESP
      else if v = 14 then Inr DISCONNECT
      else if v = 15 then Inr AUTH
      else Inl InvalidPacketType)"

definition from_first_byte :: "u8 \<Rightarrow> (ControlPacketType \<times> u8) res" where
  "from_first_byte byte =
     tryE (ControlPacketType_try_from (drop_bit 4 byte)) (\<lambda>pkt_type. Inr (pkt_type, byte AND 0x0F))"

text \<open>The default methods of the trait: the type and flags of the first byte are parameters.\<close>

definition fixed_header_bytes :: "ControlPacketType \<Rightarrow> u8 \<Rightarrow> nat \<Rightarrow> bytes" where
  "fixed_header_bytes kind flags len =
     (push_bit 4 (control_packet_type_u8 kind) OR flags) # VariableByteInteger_encode (of_nat len)"

definition packet_to_bytes ::
  "ControlPacketType \<Rightarrow> u8 \<Rightarrow> unit res \<Rightarrow> bytes res \<Rightarrow> bytes res \<Rightarrow> bytes res" where
  "packet_to_bytes kind flags validate variable_header payload =
     tryE validate (\<lambda>_.
     tryE variable_header (\<lambda>vhdr.
     tryE payload (\<lambda>payload.
     Inr (fixed_header_bytes kind flags (length vhdr + length payload) @ vhdr @ payload))))"

section \<open>Field checks\<close>

definition validation_publish :: "u8 \<Rightarrow> bool \<Rightarrow> u16 option \<Rightarrow> unit res" where
  "validation_publish qos dup pid =
     tryE (require (qos \<le> 2) ''PUBLISH QoS cannot exceed 2'') (\<lambda>_.
     tryE (require (qos \<noteq> 0 \<or> \<not> dup) ''PUBLISH DUP must be zero for QoS 0'') (\<lambda>_.
     if 0 < qos then
       (case pid of None \<Rightarrow> Inl (ParseErr ''Missing packet identifier'')
        | Some i \<Rightarrow> validation_packet_id i)
     else Inr ()))"

definition validation_connect_flags :: "u8 \<Rightarrow> unit res" where
  "validation_connect_flags flags =
     tryE (require (flags AND 1 = 0) ''CONNECT reserved flag must be zero'') (\<lambda>_.
     tryE (require (drop_bit 3 flags AND 3 \<noteq> 3) ''Will QoS cannot exceed 2'') (\<lambda>_.
     require (flags AND 4 \<noteq> 0 \<or> flags AND 0x38 = 0) ''Will QoS and RETAIN require the Will flag''))"

definition validation_fixed_header :: "u8 \<Rightarrow> unit res" where
  "validation_fixed_header byte =
     (let kind = drop_bit 4 byte; flags = byte AND 0x0F;
          valid = (if kind = 3 then
                     (let qos = drop_bit 1 flags AND 3 in qos \<le> 2 \<and> (qos \<noteq> 0 \<or> flags AND 8 = 0))
                   else if kind = 6 \<or> kind = 8 \<or> kind = 10 then flags = 2
                   else if 1 \<le> kind \<and> kind \<le> 15 then flags = 0
                   else False)
      in require valid ''Invalid MQTT fixed header flags'')"

datatype PropertyContext =
    Ctx_Connect | Ctx_ConnAck | Ctx_Publish | Ctx_Will | Ctx_Subscribe | Ctx_Unsubscribe | Ctx_Ack
  | Ctx_Disconnect | Ctx_Auth

text \<open>The table of \<open>properties\<close>: identifier and contexts a property may appear in.\<close>

fun property_rule :: "Property \<Rightarrow> PropertyContext \<Rightarrow> nat \<times> bool" where
    "property_rule (PayloadFormatIndicator _) context = (0x01, context \<in> {Ctx_Publish, Ctx_Will})"
  | "property_rule (MessageExpiryInterval _) context = (0x02, context \<in> {Ctx_Publish, Ctx_Will})"
  | "property_rule (ContentType _) context = (0x03, context \<in> {Ctx_Publish, Ctx_Will})"
  | "property_rule (ResponseTopic _) context = (0x08, context \<in> {Ctx_Publish, Ctx_Will})"
  | "property_rule (CorrelationData _) context = (0x09, context \<in> {Ctx_Publish, Ctx_Will})"
  | "property_rule (SubscriptionIdentifier _) context = (0x0B, context \<in> {Ctx_Publish, Ctx_Subscribe})"
  | "property_rule (SessionExpiryInterval _) context = (0x11, context \<in> {Ctx_Connect, Ctx_ConnAck, Ctx_Disconnect})"
  | "property_rule (AssignedClientIdentifier _) context = (0x12, context = Ctx_ConnAck)"
  | "property_rule (ServerKeepAlive _) context = (0x13, context = Ctx_ConnAck)"
  | "property_rule (AuthenticationMethod _) context = (0x15, context \<in> {Ctx_Connect, Ctx_ConnAck, Ctx_Auth})"
  | "property_rule (AuthenticationData _) context = (0x16, context \<in> {Ctx_Connect, Ctx_ConnAck, Ctx_Auth})"
  | "property_rule (RequestProblemInformation _) context = (0x17, context = Ctx_Connect)"
  | "property_rule (WillDelayInterval _) context = (0x18, context = Ctx_Will)"
  | "property_rule (RequestResponseInformation _) context = (0x19, context = Ctx_Connect)"
  | "property_rule (ResponseInformation _) context = (0x1A, context = Ctx_ConnAck)"
  | "property_rule (ServerReference _) context = (0x1C, context \<in> {Ctx_ConnAck, Ctx_Disconnect})"
  | "property_rule (ReasonString _) context = (0x1F, context \<in> {Ctx_ConnAck, Ctx_Ack, Ctx_Disconnect, Ctx_Auth})"
  | "property_rule (ReceiveMaximum _) context = (0x21, context \<in> {Ctx_Connect, Ctx_ConnAck})"
  | "property_rule (TopicAliasMaximum _) context = (0x22, context \<in> {Ctx_Connect, Ctx_ConnAck})"
  | "property_rule (TopicAlias _) context = (0x23, context = Ctx_Publish)"
  | "property_rule (MaximumQoS _) context = (0x24, context = Ctx_ConnAck)"
  | "property_rule (RetainAvailable _) context = (0x25, context = Ctx_ConnAck)"
  | "property_rule (UserProperty _ _) context = (0x26, True)"
  | "property_rule (MaximumPacketSize _) context = (0x27, context \<in> {Ctx_Connect, Ctx_ConnAck})"
  | "property_rule (WildcardSubscriptionAvailable _) context = (0x28, context = Ctx_ConnAck)"
  | "property_rule (SubscriptionIdentifierAvailable _) context = (0x29, context = Ctx_ConnAck)"
  | "property_rule (SharedSubscriptionAvailable _) context = (0x2A, context = Ctx_ConnAck)"

text \<open>The \<open>for\<close> loop with its bit set of identifiers seen.\<close>

fun properties_loop :: "PropertyContext \<Rightarrow> 64 word \<Rightarrow> Property list \<Rightarrow> 64 word res" where
  "properties_loop context seen [] = Inr seen"
| "properties_loop context seen (property # rest) =
     (let (pid, allowed) = property_rule property context in
      tryE (require allowed ''Property is not allowed in this packet'') (\<lambda>_.
      let repeatable = (pid = 0x26 \<or> pid = 0x0B \<and> context = Ctx_Publish) in
      tryE (require (repeatable \<or> seen AND push_bit pid 1 = 0) ''Duplicate singleton property'') (\<lambda>_.
      let seen' = seen OR push_bit pid 1 in
      tryE (property_value property) (\<lambda>_.
      properties_loop context seen' rest))))"

definition validation_properties :: "Property list \<Rightarrow> PropertyContext \<Rightarrow> unit res" where
  "validation_properties properties context =
     tryE (properties_loop context 0 properties) (\<lambda>seen.
     if context = Ctx_Connect then
       require (seen AND push_bit 0x16 1 = 0 \<or> seen AND push_bit 0x15 1 \<noteq> 0)
         ''CONNECT Authentication Data requires Authentication Method''
     else Inr ())"

definition reason_codes :: "ControlPacketType \<Rightarrow> u8 list" where
  "reason_codes kind = (case kind of
      CONNACK \<Rightarrow> [0, 0x80, 0x81, 0x82, 0x83, 0x84, 0x85, 0x86, 0x87, 0x88, 0x89, 0x8A, 0x8C, 0x90,
                   0x95, 0x97, 0x99, 0x9A, 0x9B, 0x9C, 0x9D, 0x9F]
    | PUBACK \<Rightarrow> [0, 0x10, 0x80, 0x83, 0x87, 0x90, 0x91, 0x97, 0x99]
    | PUBREC \<Rightarrow> [0, 0x10, 0x80, 0x83, 0x87, 0x90, 0x91, 0x97, 0x99]
    | PUBREL \<Rightarrow> [0, 0x92]
    | PUBCOMP \<Rightarrow> [0, 0x92]
    | SUBACK \<Rightarrow> [0, 1, 2, 0x80, 0x83, 0x87, 0x8F, 0x91, 0x97, 0x9E, 0xA1, 0xA2]
    | UNSUBACK \<Rightarrow> [0, 0x11, 0x80, 0x83, 0x87, 0x8F, 0x91]
    | DISCONNECT \<Rightarrow> [0, 4, 0x80, 0x81, 0x82, 0x83, 0x87, 0x89, 0x8B, 0x8D, 0x8E, 0x8F, 0x90, 0x93,
                      0x94, 0x95, 0x96, 0x97, 0x98, 0x99, 0x9A, 0x9B, 0x9C, 0x9D, 0x9E, 0x9F, 0xA0,
                      0xA1, 0xA2]
    | AUTH \<Rightarrow> [0, 0x18, 0x19]
    | _ \<Rightarrow> [])"

definition reason :: "ControlPacketType \<Rightarrow> u8 \<Rightarrow> unit res" where
  "reason kind code = require (code \<in> set (reason_codes kind)) ''Invalid reason code for packet type''"

section \<open>The bit set of identifiers seen\<close>

lemma no_panic_validation_packet_id [simp]: "no_panic (validation_packet_id v)"
  by (simp add: validation_packet_id_def)

lemma no_panic_checks [simp]:
  "no_panic (validation_publish q d i)" "no_panic (validation_connect_flags f)"
  "no_panic (validation_fixed_header f)" "no_panic (reason k c)"
  by (auto simp: validation_publish_def validation_connect_flags_def validation_fixed_header_def reason_def Let_def
      split: option.splits intro!: no_panic_tryE)

lemma no_panic_properties_loop [simp]: "no_panic (properties_loop c seen ps)"
  by (induction ps arbitrary: seen) (auto simp: Let_def split: prod.splits intro!: no_panic_tryE)

lemma no_panic_validation_properties [simp]: "no_panic (validation_properties ps c)"
  by (auto simp: validation_properties_def intro!: no_panic_tryE)

definition prop_id_of :: "Property \<Rightarrow> nat" where
  "prop_id_of p = fst (property_rule p Ctx_Publish)"

lemma property_rule_id: "fst (property_rule p c) = prop_id_of p"
  by (cases p) (simp_all add: prop_id_of_def)

lemma prop_id_less: "prop_id_of p < 64"
  by (cases p) (simp_all add: prop_id_of_def)

lemma seen_bit: "(seen AND push_bit i 1 = 0) = (\<not> bit (seen :: 64 word) i)"
  by (metis and_exp_eq_0_iff_not_bit push_bit_of_1)

lemma bit_seen_or:
  "i < 64 \<Longrightarrow> bit ((seen :: 64 word) OR push_bit j 1) i \<longleftrightarrow> bit seen i \<or> i = j"
  by (auto simp: bit_or_iff bit_exp_iff)

text \<open>
  What \<open>properties\<close> decides, without the bit set: every property is allowed in the context and has
  a valid value, the identifiers that may not repeat are distinct, and in CONNECT authentication
  data comes with an authentication method.
\<close>

definition may_repeat :: "PropertyContext \<Rightarrow> Property \<Rightarrow> bool" where
  "may_repeat c p \<longleftrightarrow> (case p of UserProperty _ _ \<Rightarrow> True | SubscriptionIdentifier _ \<Rightarrow> c = Ctx_Publish | _ \<Rightarrow> False)"

definition properties_spec :: "Property list \<Rightarrow> PropertyContext \<Rightarrow> bool" where
  "properties_spec ps c \<longleftrightarrow>
     (\<forall>p \<in> set ps. snd (property_rule p c) \<and> property_value p = Inr ()) \<and>
     distinct (map prop_id_of (filter (\<lambda>p. \<not> may_repeat c p) ps)) \<and>
     (c = Ctx_Connect \<longrightarrow> (\<exists>d. AuthenticationData d \<in> set ps) \<longrightarrow> (\<exists>m. AuthenticationMethod m \<in> set ps))"

lemma may_repeat_id:
  "may_repeat c p \<longleftrightarrow> prop_id_of p = 0x26 \<or> prop_id_of p = 0x0B \<and> c = Ctx_Publish"
  by (cases p) (simp_all add: may_repeat_def prop_id_of_def)

lemma properties_loop_Cons:
  "properties_loop c seen (p # ps) = Inr seen' \<longleftrightarrow>
   snd (property_rule p c) \<and> (may_repeat c p \<or> \<not> bit seen (prop_id_of p)) \<and>
   property_value p = Inr () \<and>
   properties_loop c (seen OR push_bit (prop_id_of p) 1) ps = Inr seen'"
  using property_rule_id [of p c]
  by (auto simp: Let_def split_beta tryE_eq_Inr seen_bit may_repeat_id simp del: push_bit_of_1)

lemma properties_loop_bits:
  "properties_loop c seen ps = Inr seen' \<Longrightarrow> i < 64 \<Longrightarrow>
   bit seen' i \<longleftrightarrow> bit seen i \<or> i \<in> prop_id_of ` set ps"
proof (induction ps arbitrary: seen)
  case (Cons p ps)
  then have "properties_loop c (seen OR push_bit (prop_id_of p) 1) ps = Inr seen'"
    by (simp only: properties_loop_Cons)
  from Cons.IH [OF this Cons.prems(2)] show ?case
    using bit_seen_or [OF Cons.prems(2)] by auto
qed simp

lemma properties_loop_iff:
  "(\<exists>seen'. properties_loop c seen ps = Inr seen') \<longleftrightarrow>
   (\<forall>p \<in> set ps. snd (property_rule p c) \<and> property_value p = Inr ()) \<and>
   distinct (map prop_id_of (filter (\<lambda>p. \<not> may_repeat c p) ps)) \<and>
   (\<forall>p \<in> set ps. may_repeat c p \<or> \<not> bit seen (prop_id_of p))"
proof (induction ps arbitrary: seen)
  case (Cons p ps)
  have r: "may_repeat c q \<longleftrightarrow> may_repeat c p" if "prop_id_of q = prop_id_of p" for q
    using that by (simp add: may_repeat_id)
  have "(\<exists>seen'. properties_loop c seen (p # ps) = Inr seen') \<longleftrightarrow>
    snd (property_rule p c) \<and> (may_repeat c p \<or> \<not> bit seen (prop_id_of p)) \<and>
    property_value p = Inr () \<and>
    (\<exists>seen'. properties_loop c (seen OR push_bit (prop_id_of p) 1) ps = Inr seen')"
    by (simp only: properties_loop_Cons) blast
  also have "\<dots> \<longleftrightarrow>
    snd (property_rule p c) \<and> (may_repeat c p \<or> \<not> bit seen (prop_id_of p)) \<and>
    property_value p = Inr () \<and>
    (\<forall>q \<in> set ps. snd (property_rule q c) \<and> property_value q = Inr ()) \<and>
    distinct (map prop_id_of (filter (\<lambda>p. \<not> may_repeat c p) ps)) \<and>
    (\<forall>q \<in> set ps. may_repeat c q \<or> \<not> bit seen (prop_id_of q) \<and> prop_id_of q \<noteq> prop_id_of p)"
    by (simp only: Cons.IH bit_seen_or [OF prop_id_less] de_Morgan_disj)
  finally show ?case
    using r by (cases "may_repeat c p") (auto simp: image_iff simp del: properties_loop.simps)
qed simp

lemma prop_id_auth:
  "0x16 = prop_id_of p \<longleftrightarrow> (\<exists>d. p = AuthenticationData d)"
  "0x15 = prop_id_of p \<longleftrightarrow> (\<exists>d. p = AuthenticationMethod d)"
  by (cases p; simp add: prop_id_of_def)+

lemma prop_id_auth_set:
  "0x16 \<in> prop_id_of ` set ps \<longleftrightarrow> (\<exists>d. AuthenticationData d \<in> set ps)"
  "0x15 \<in> prop_id_of ` set ps \<longleftrightarrow> (\<exists>d. AuthenticationMethod d \<in> set ps)"
  unfolding image_iff prop_id_auth by blast+

lemma validation_properties_iff: "validation_properties ps c = Inr () \<longleftrightarrow> properties_spec ps c"
proof -
  have auth: "(seen AND push_bit 0x16 1 = 0 \<or> seen AND push_bit 0x15 1 \<noteq> 0) \<longleftrightarrow>
      ((\<exists>d. AuthenticationData d \<in> set ps) \<longrightarrow> (\<exists>m. AuthenticationMethod m \<in> set ps))"
    if "properties_loop c 0 ps = Inr seen" for seen
    using properties_loop_bits [OF that, where i = "0x16"] properties_loop_bits [OF that, where i = "0x15"]
    unfolding seen_bit prop_id_auth_set by auto
  have "validation_properties ps c = Inr () \<longleftrightarrow>
    (\<exists>seen. properties_loop c 0 ps = Inr seen \<and> (c = Ctx_Connect \<longrightarrow>
       (seen AND push_bit 0x16 1 = 0 \<or> seen AND push_bit 0x15 1 \<noteq> 0)))"
    by (auto simp: validation_properties_def tryE_eq_Inr simp del: push_bit_of_1)
  also have "\<dots> \<longleftrightarrow> (\<exists>seen. properties_loop c 0 ps = Inr seen) \<and> (c = Ctx_Connect \<longrightarrow>
     ((\<exists>d. AuthenticationData d \<in> set ps) \<longrightarrow> (\<exists>m. AuthenticationMethod m \<in> set ps)))"
    using auth by blast
  also have "\<dots> \<longleftrightarrow> properties_spec ps c"
    by (auto simp: properties_loop_iff properties_spec_def)
  finally show ?thesis .
qed

end
