(* ===== verification/Packet_Frame.thy ===== *)
theory Packet_Frame
  imports Validation
begin

unbundle bit_operations_syntax

text \<open>
  What every packet codec of \<open>mqttv5/\<close> and \<open>mqttv3/\<close> shares: the result type \<open>ParseOk\<close> and
  \<open>validated_packet\<close> of \<open>src/src/mqtt_serde/parser/mod.rs\<close>, and the opening of each
  \<open>from_bytes\<close> (type check, flag check, remaining length, incomplete input).  The type of the
  packet is a parameter of \<open>ParseOk\<close> here; \<open>Control_Packet\<close> instantiates it with the enum
  \<open>MqttPacket\<close>.
\<close>

section \<open>Results and framing\<close>

datatype 'p ParseOk = Continue nat nat | Packet 'p nat | TopicName str nat

definition validated_packet :: "('p \<Rightarrow> unit res) \<Rightarrow> 'p \<Rightarrow> nat \<Rightarrow> 'p ParseOk res" where
  "validated_packet validate p consumed = tryE (validate p) (\<lambda>_. Inr (Packet p consumed))"

definition parse_topic_name :: "bytes \<Rightarrow> ('p ParseOk) res" where
  "parse_topic_name b = tryE (parse_utf8_string b) (\<lambda>(name, consumed). Inr (TopicName name consumed))"

text \<open>
  The opening statements of the decoders.  \<open>pre\<close> is the check of the first byte a decoder makes
  before it reads the remaining length; \<open>body\<close> gets the remaining length, the offset of the
  variable header and the offset of the end of the packet.
\<close>

definition open_packet ::
  "ControlPacketType \<Rightarrow> (u8 \<Rightarrow> unit res) \<Rightarrow> bytes \<Rightarrow> (nat \<Rightarrow> nat \<Rightarrow> nat \<Rightarrow> 'p ParseOk res) \<Rightarrow> 'p ParseOk res"
where
  "open_packet kind pre buffer body =
     tryE (packet_type buffer) (\<lambda>t.
     if t \<noteq> control_packet_type_u8 kind then Inl InvalidPacketType else
     tryE (index_byte buffer 0) (\<lambda>byte1.
     tryE (pre byte1) (\<lambda>_.
     tryE (slice_from buffer 1) (\<lambda>rest.
     tryE (parse_remaining_length rest) (\<lambda>(size, vbi_len).
     let offset = 1 + vbi_len; total_len = offset + size in
     if length buffer < total_len then Inr (Continue (total_len - length buffer) 0)
     else body size offset total_len)))))"

text \<open>The check \<open>buffer[0] & 0x0F != flags\<close>.\<close>

definition flags_check :: "u8 \<Rightarrow> string \<Rightarrow> u8 \<Rightarrow> unit res" where
  "flags_check flags message byte1 =
     (if byte1 AND 0x0F \<noteq> flags then Inl (ParseErr message) else Inr ())"

definition no_check :: "u8 \<Rightarrow> unit res" where
  "no_check byte1 = Inr ()"

section \<open>Access into a buffer with a known prefix\<close>

lemma get_from_append_ge [simp]: "length a \<le> n \<Longrightarrow> get_from (a @ b) n e = get_from b (n - length a) e"
  by (auto simp: get_from_def)

lemma get_byte_append_ge [simp]: "length a \<le> n \<Longrightarrow> get_byte (a @ b) n e = get_byte b (n - length a) e"
  by (auto simp: get_byte_def nth_append)

lemma get_range_append_ge [simp]:
  "length a \<le> i \<Longrightarrow> i \<le> j \<Longrightarrow> get_range (a @ b) i j e = get_range b (i - length a) (j - length a) e"
  by (auto simp: get_range_def)

lemma get_range_0_append [simp]: "get_range (a @ b) 0 (length a) e = Inr a"
  by (simp add: get_range_def)

lemma get_range_all [simp]: "get_range a 0 (length a) e = Inr a"
  by (simp add: get_range_def)

lemma get_Cons_Suc [simp]:
  "get_byte (x # xs) (Suc n) e = get_byte xs n e"
  "get_from (x # xs) (Suc n) e = get_from xs n e"
  "get_range (x # xs) (Suc n) (Suc m) e = get_range xs n m e"
  by (simp_all add: get_byte_def get_from_def get_range_def)

lemma get_Cons_numeral [simp]:
  "get_byte (x # xs) (numeral k) e = get_byte xs (pred_numeral k) e"
  "get_from (x # xs) (numeral k) e = get_from xs (pred_numeral k) e"
  "get_from (x # xs) (numeral k + n) e = get_from xs (pred_numeral k + n) e"
  "get_range (x # xs) (numeral k) (numeral l) e = get_range xs (pred_numeral k) (pred_numeral l) e"
  "get_range (x # xs) (Suc n) (numeral l) e = get_range xs n (pred_numeral l) e"
  by (simp_all add: numeral_eq_Suc)

lemma props_wire_not_Nil [simp]: "props_wire ps \<noteq> []"
  by (simp add: props_wire_def)

section \<open>The first byte\<close>

definition first_byte :: "ControlPacketType \<Rightarrow> u8 \<Rightarrow> u8" where
  "first_byte kind flags = push_bit 4 (control_packet_type_u8 kind) OR flags"

lemma u8_lt_16_drop: "(f :: u8) < 16 \<Longrightarrow> drop_bit 4 f = 0"
  by (simp add: drop_bit_eq_div word_less_nat_alt word_unat_eq_iff unat_div)

lemma u8_lt_16_and: "(f :: u8) < 16 \<Longrightarrow> f AND 15 = f"
  by (simp add: word_less_nat_alt word_unat_eq_iff unat_mod)

lemma first_byte_type:
  "flags < 16 \<Longrightarrow> drop_bit 4 (first_byte kind flags) = control_packet_type_u8 kind"
  by (cases kind) (simp_all add: first_byte_def drop_bit_or u8_lt_16_drop)

lemma first_byte_flags: "flags < 16 \<Longrightarrow> first_byte kind flags AND 15 = flags"
  using u8_lt_16_and [of flags]
  by (cases kind) (simp_all only: first_byte_def bit.conj_disj_distrib2, simp_all)

lemma control_packet_type_u8_inj [simp]:
  "control_packet_type_u8 k = control_packet_type_u8 l \<longleftrightarrow> k = l"
  by (cases k; cases l; simp)

lemma ControlPacketType_try_from_u8 [simp]:
  "ControlPacketType_try_from (control_packet_type_u8 k) = Inr k"
  by (cases k) (simp_all add: ControlPacketType_try_from_def)

lemma ControlPacketType_try_from_Inr:
  "ControlPacketType_try_from v = Inr k \<longleftrightarrow> v = control_packet_type_u8 k"
  by (cases k) (auto simp: ControlPacketType_try_from_def split: if_splits)

lemma flags_check_first_byte [simp]:
  "flags < 16 \<Longrightarrow> flags_check flags m (first_byte kind flags) = Inr ()"
  by (simp add: flags_check_def first_byte_flags del: u8_and_15)

lemma no_panic_flags_check [simp]: "no_panic (flags_check f m b)"
  by (simp add: flags_check_def)

section \<open>Frames\<close>

text \<open>The bytes of a packet: fixed header, then the variable header and payload.\<close>

definition frame :: "ControlPacketType \<Rightarrow> u8 \<Rightarrow> bytes \<Rightarrow> bytes" where
  "frame kind flags content = fixed_header_bytes kind flags (length content) @ content"

lemma packet_to_bytes_Inr:
  "packet_to_bytes kind flags v vh pl = Inr bs \<longleftrightarrow>
   v = Inr () \<and> (\<exists>h p. vh = Inr h \<and> pl = Inr p \<and> bs = frame kind flags (h @ p))"
  by (auto simp: packet_to_bytes_def frame_def tryE_eq_Inr)

lemma frame_split: "frame kind flags content = fixed_header_bytes kind flags (length content) @ content"
  by (rule frame_def)

lemma packet_type_frame:
  "flags < 16 \<Longrightarrow> packet_type (frame kind flags c @ r) = Inr (control_packet_type_u8 kind)"
  using first_byte_type [of flags kind]
  by (simp add: packet_type_def frame_def fixed_header_bytes_def first_byte_def)

lemma length_fixed_header_le:
  "length content \<le> 268435455 \<Longrightarrow> length (fixed_header_bytes kind flags (length content)) \<le> 5"
  using length_vbi_encode_le [of 4 "of_nat (length content)"] by (simp add: fixed_header_bytes_def)

lemma open_packet_frame:
  assumes "flags < 16" and "length content \<le> 268435455"
  shows "open_packet kind pre (frame kind flags content @ r) body =
    tryE (pre (first_byte kind flags)) (\<lambda>_.
      let h = length (fixed_header_bytes kind flags (length content)) in
      body (length content) h (h + length content))"
proof -
  let ?l = "VariableByteInteger_encode (of_nat (length content))"
  have "VariableByteInteger_decode (?l @ content @ r) = Inr (length content, length ?l)"
    using assms(2) by (rule vbi.dec_enc)
  then show ?thesis
    using packet_type_frame [OF assms(1), of kind content r]
    by (simp add: open_packet_def frame_def fixed_header_bytes_def parse_remaining_length_def
        first_byte_def)
qed

lemma encode_props_ok:
  assumes "encode_properities_hdr ps = Inr x" and "\<forall>p \<in> set ps. prop_utf8 p" and "length x \<le> 268435455"
  shows "x = props_wire ps" and "props_ok ps"
proof -
  from encode_properities_hdr_Inr [OF assms(1,2)] have *: "x = props_wire ps" "\<forall>p \<in> set ps. prop_ok p"
    by auto
  then show "x = props_wire ps" by simp
  show "props_ok ps" using * assms(3) by (auto simp: props_ok_def props_wire_def)
qed

lemma length_frame_ge: "length c \<le> length (frame k f c)"
  by (simp add: frame_def)

lemma open_packet_header:
  assumes "flags < 16" and "length (frame kind flags c) \<le> 268435455"
  shows "open_packet kind pre (fixed_header_bytes kind flags (length c) @ c @ r) body =
    tryE (pre (first_byte kind flags)) (\<lambda>_.
      body (length c) (length (fixed_header_bytes kind flags (length c)))
        (length (fixed_header_bytes kind flags (length c)) + length c))"
proof -
  have "length c \<le> 268435455" using assms(2) length_frame_ge [of c kind flags] by linarith
  from open_packet_frame [OF assms(1) this, of kind pre r body] show ?thesis
    by (simp only: frame_def append_assoc Let_def)
qed

lemma no_panic_packet_type [simp]: "no_panic (packet_type b)"
  by (simp add: packet_type_def)

lemma no_panic_open_packet:
  assumes "\<And>byte1. no_panic (pre byte1)"
    and "\<And>size offset total. 2 \<le> offset \<Longrightarrow> total = offset + size \<Longrightarrow> total \<le> length buffer \<Longrightarrow>
           no_panic (body size offset total)"
  shows "no_panic (open_packet kind pre buffer body)"
proof -
  have b: "0 < length buffer" "Suc 0 \<le> length buffer" if "packet_type buffer = Inr t" for t
    using that by (cases buffer; simp add: packet_type_def)+
  have "2 \<le> Suc n" if "VariableByteInteger_decode x = Inr (v, n)" for x v n
    using vbi.dec_consumes [OF that] by simp
  then show ?thesis
    unfolding open_packet_def Let_def parse_remaining_length_def
    by (intro no_panic_tryE no_panic_if no_panic_get_byte no_panic_get_from)
       (use b assms in \<open>auto split: prod.splits intro!: assms(2)\<close>)
qed

end
