(* ===== verification/Packets_V5.thy ===== *)
theory Packets_V5
  imports Packet_Frame
begin

unbundle bit_operations_syntax

text \<open>
  The MQTT 5 packets other than CONNECT, \<open>src/src/mqtt_serde/mqttv5/\<close>: for each its record,
  \<open>validate\<close>, \<open>variable_header\<close>, \<open>payload\<close>, \<open>to_bytes\<close> and \<open>from_bytes\<close>.  The four
  acknowledgements are instances of one macro and therefore of one group of definitions.
\<close>

section \<open>PUBACK, PUBREC, PUBREL, PUBCOMP\<close>

record Ack5 =
  ack_packet_id :: u16
  ack_reason_code :: u8
  ack_properties :: "Property list"

definition Ack5_new_success :: "u16 \<Rightarrow> Ack5" where
  "Ack5_new_success pid = \<lparr>ack_packet_id = pid, ack_reason_code = 0, ack_properties = []\<rparr>"

definition Ack5_validate :: "ControlPacketType \<Rightarrow> Ack5 \<Rightarrow> unit res" where
  "Ack5_validate kind p =
     tryE (validation_packet_id (ack_packet_id p)) (\<lambda>_.
     tryE (reason kind (ack_reason_code p)) (\<lambda>_.
     validation_properties (ack_properties p) Ctx_Ack))"

definition Ack5_variable_header :: "Ack5 \<Rightarrow> bytes res" where
  "Ack5_variable_header p =
     (let bytes = to_be_bytes16 (ack_packet_id p) in
      if ack_reason_code p = 0 \<and> ack_properties p = [] then Inr bytes
      else tryE (encode_properities_hdr (ack_properties p)) (\<lambda>props.
        Inr (bytes @ ack_reason_code p # props)))"

definition Ack5_to_bytes :: "ControlPacketType \<Rightarrow> u8 \<Rightarrow> Ack5 \<Rightarrow> bytes res" where
  "Ack5_to_bytes kind flags p =
     packet_to_bytes kind flags (Ack5_validate kind p) (Ack5_variable_header p) (Inr [])"

definition Ack5_from_bytes :: "ControlPacketType \<Rightarrow> u8 \<Rightarrow> bytes \<Rightarrow> Ack5 ParseOk res" where
  "Ack5_from_bytes kind flags buffer =
     open_packet kind (flags_check flags ''Invalid flags'') buffer (\<lambda>size offset total_len.
     tryE (get_from buffer offset BufferTooShort) (\<lambda>rest.
     tryE (parse_packet_id rest) (\<lambda>(packet_id, consumed).
     let offset = offset + consumed in
     tryE (if 2 < size then tryE (get_byte buffer offset BufferTooShort) (\<lambda>code. Inr (code, offset + 1))
           else Inr (0, offset)) (\<lambda>(reason_code, offset).
     tryE (if offset < total_len then
             tryE (get_range buffer offset total_len BufferTooShort) parse_properties_hdr
           else Inr ([], 0)) (\<lambda>(properties, consumed).
     let offset = offset + consumed in
     if offset \<noteq> total_len then Inl (InternalError ''Inconsistent offset'')
     else validated_packet (Ack5_validate kind)
       \<lparr>ack_packet_id = packet_id, ack_reason_code = reason_code, ack_properties = properties\<rparr> offset)))))"

abbreviation ack5_kind :: "ControlPacketType \<Rightarrow> bool" where
  "ack5_kind k \<equiv> k \<in> {PUBACK, PUBREC, PUBREL, PUBCOMP}"

text \<open>The fourth macro argument: only PUBREL has a non-zero flags nibble.\<close>

definition ack5_flags :: "ControlPacketType \<Rightarrow> u8" where
  "ack5_flags k = (if k = PUBREL then 0x02 else 0x00)"

section \<open>PUBLISH\<close>

record Publish5 =
  pub_topic_name :: str
  pub_qos :: u8
  pub_dup :: bool
  pub_retain :: bool
  pub_packet_id :: "u16 option"
  pub_payload :: bytes
  pub_properties :: "Property list"

definition Publish5_validate :: "Publish5 \<Rightarrow> unit res" where
  "Publish5_validate p =
     tryE (validation_publish (pub_qos p) (pub_dup p) (pub_packet_id p)) (\<lambda>_.
     tryE (validation_properties (pub_properties p) Ctx_Publish) (\<lambda>_.
     if pub_topic_name p = [] then
       require (\<exists>q \<in> set (pub_properties p). case q of TopicAlias _ \<Rightarrow> True | _ \<Rightarrow> False)
         ''Empty topic requires a Topic Alias''
     else validation_topic (pub_topic_name p)))"

definition publish_flags :: "u8 \<Rightarrow> bool \<Rightarrow> bool \<Rightarrow> u8" where
  "publish_flags qos dup retain =
     (let val = push_bit 1 qos;
          val = (if dup then val OR 0x08 else val)
      in if retain then val OR 0x01 else val)"

definition publish_qos_of :: "u8 \<Rightarrow> u8" where
  "publish_qos_of flags = drop_bit 1 (flags AND 0x06)"

text \<open>\<open>encode_publish_header_into\<close> and \<open>encode_publish_into\<close> of \<open>control_packet.rs\<close>.\<close>

definition encode_publish_header_into ::
  "u8 \<Rightarrow> str \<Rightarrow> u16 option \<Rightarrow> nat \<Rightarrow> nat \<Rightarrow> bytes" where
  "encode_publish_header_into flags topic pid properties_len payload_len =
     (let remaining_length =
        2 + length topic + (if pid = None then 0 else 1) * 2 + properties_len + payload_len
      in (0x30 OR flags) # VariableByteInteger_encode (of_nat remaining_length)
         @ to_be_bytes16 (of_nat (length topic)) @ topic
         @ (case pid of None \<Rightarrow> [] | Some i \<Rightarrow> to_be_bytes16 i))"

definition encode_publish_into ::
  "u8 \<Rightarrow> str \<Rightarrow> u16 option \<Rightarrow> bytes \<Rightarrow> bytes \<Rightarrow> bytes" where
  "encode_publish_into flags topic pid properties payload =
     encode_publish_header_into flags topic pid (length properties) (length payload)
       @ properties @ payload"

text \<open>\<open>encode_to_buffer\<close>: the bytes appended; \<open>to_bytes\<close> starts from an empty buffer.\<close>

definition Publish5_to_bytes :: "Publish5 \<Rightarrow> bytes res" where
  "Publish5_to_bytes p =
     tryE (Publish5_validate p) (\<lambda>_.
     if 65535 < length (pub_topic_name p) then Inl StringTooLong else
     tryE (if 0 < pub_qos p then
             (case pub_packet_id p of
                None \<Rightarrow> Inl (ParseErr ''QoS > 0 requires a packet identifier'')
              | Some i \<Rightarrow> Inr (Some i))
           else Inr None) (\<lambda>packet_id.
     let flags = publish_flags (pub_qos p) (pub_dup p) (pub_retain p) in
     if pub_properties p = [] then
       Inr (encode_publish_into flags (pub_topic_name p) packet_id [0] (pub_payload p))
     else
       tryE (PropertyEncoder_new (pub_properties p)) (\<lambda>properties.
       Inr (encode_publish_header_into flags (pub_topic_name p) packet_id
              (PropertyEncoder_encoded_len properties) (length (pub_payload p))
            @ PropertyEncoder_encode_into properties @ pub_payload p))))"

text \<open>\<open>variable_header\<close>, which the default encoder of the trait would use.\<close>

definition Publish5_variable_header :: "Publish5 \<Rightarrow> bytes res" where
  "Publish5_variable_header p =
     tryE (encode_utf8_string (pub_topic_name p)) (\<lambda>topic.
     tryE (if 0 < pub_qos p then
             (case pub_packet_id p of
                Some packet_id \<Rightarrow> Inr (to_be_bytes16 packet_id)
              | None \<Rightarrow> Inl (ParseErr ''QoS > 0 requires a packet identifier''))
           else Inr []) (\<lambda>id_bytes.
     tryE (encode_properities_hdr (pub_properties p)) (\<lambda>props.
     Inr (topic @ id_bytes @ props))))"

text \<open>
  \<open>from_bytes\<close>.  \<open>packet_size - offset\<close> is an unsigned subtraction: it panics below zero in a
  build with overflow checks, the branch kept here.
\<close>

definition Publish5_from_bytes :: "bytes \<Rightarrow> Publish5 ParseOk res" where
  "Publish5_from_bytes buffer =
     tryE (get_byte buffer 0 BufferTooShort) (\<lambda>first_byte.
     open_packet PUBLISH (\<lambda>b.
       if publish_qos_of b = 3 then
         Inl (ParseErr ''PUBLISH QoS bits must not be set to 11 (invalid QoS 3)'')
       else if publish_qos_of b = 0 \<and> b AND 0x8 \<noteq> 0 then
         Inl (ParseErr ''PUBLISH DUP flag must be 0 for QoS 0 messages'')
       else Inr ()) buffer (\<lambda>msgsize offset packet_size.
     let dup = (first_byte AND 0x8 \<noteq> 0); qos = publish_qos_of first_byte;
         retain = (first_byte AND 0x1 \<noteq> 0) in
     tryE (get_from buffer offset BufferTooShort) (\<lambda>rest.
     tryE (tryE (parse_topic_name rest :: Publish5 ParseOk res) (\<lambda>r. case r of
             TopicName name consumed \<Rightarrow> Inr (name, consumed)
           | _ \<Rightarrow> Inl (ParseErr ''Expected TopicName''))) (\<lambda>(topic_name, consumed).
     let offset = offset + consumed in
     if hash \<in> set topic_name \<or> plus_c \<in> set topic_name then
       Inl (ParseErr ''PUBLISH Topic Name must not contain wildcard characters (# or +)'')
     else
     tryE (if 0 < qos then
             tryE (get_from buffer offset BufferTooShort) (\<lambda>rest.
             tryE (parse_packet_id rest) (\<lambda>(packet_id, consumed).
             Inr (Some packet_id, offset + consumed)))
           else Inr (None, offset)) (\<lambda>(packet_id_opt, offset).
     tryE (get_from buffer offset BufferTooShort) (\<lambda>rest.
     tryE (parse_properties_hdr rest) (\<lambda>(properties, consumed).
     let offset = offset + consumed in
     if packet_size < offset then Inl (Panic ''attempt to subtract with overflow'') else
     let payload_len = packet_size - offset in
     tryE (get_range buffer offset (offset + payload_len) BufferTooShort) (\<lambda>payload.
     let offset = offset + payload_len in
     if offset \<noteq> packet_size then Inl InvalidLength
     else validated_packet Publish5_validate
       \<lparr>pub_topic_name = topic_name, pub_qos = qos, pub_dup = dup, pub_retain = retain,
        pub_packet_id = packet_id_opt, pub_payload = payload, pub_properties = properties\<rparr>
       offset)))))))) "

section \<open>CONNACK\<close>

record ConnAck5 =
  ca_session_present :: bool
  ca_reason_code :: u8
  ca_properties :: "Property list option"

definition unwrap_or_default :: "'a list option \<Rightarrow> 'a list" where
  "unwrap_or_default v = (case v of None \<Rightarrow> [] | Some x \<Rightarrow> x)"

definition ConnAck5_validate :: "ConnAck5 \<Rightarrow> unit res" where
  "ConnAck5_validate p =
     tryE (reason CONNACK (ca_reason_code p)) (\<lambda>_.
     tryE (validation_properties (unwrap_or_default (ca_properties p)) Ctx_ConnAck) (\<lambda>_.
     require (\<not> ca_session_present p \<or> ca_reason_code p = 0)
       ''Failed CONNACK cannot set Session Present''))"

definition ConnAck5_variable_header :: "ConnAck5 \<Rightarrow> bytes res" where
  "ConnAck5_variable_header p =
     tryE (encode_properities_hdr (unwrap_or_default (ca_properties p))) (\<lambda>props.
     Inr ((if ca_session_present p then 1 else 0) # ca_reason_code p # props))"

definition ConnAck5_to_bytes :: "ConnAck5 \<Rightarrow> bytes res" where
  "ConnAck5_to_bytes p =
     packet_to_bytes CONNACK 0 (ConnAck5_validate p) (ConnAck5_variable_header p) (Inr [])"

definition ConnAck5_from_bytes :: "bytes \<Rightarrow> ConnAck5 ParseOk res" where
  "ConnAck5_from_bytes buffer =
     open_packet CONNACK validation_fixed_header buffer (\<lambda>size offset total_len.
     tryE (get_byte buffer offset BufferTooShort) (\<lambda>session_present_byte.
     let session_present = (session_present_byte AND 0x01 = 1) in
     if session_present_byte AND 0xFE \<noteq> 0 then
       Inl (ParseErr ''CONNACK Connect Acknowledge Flags reserved bits must be 0'')
     else
     tryE (get_byte buffer (offset + 1) BufferTooShort) (\<lambda>reason_code.
     let offset = offset + 2 in
     tryE (get_from buffer offset BufferTooShort) (\<lambda>rest.
     tryE (parse_properties_hdr rest) (\<lambda>(properties, consumed).
     let offset = offset + consumed;
         properties = (if properties = [] then None else Some properties) in
     if offset \<noteq> total_len then Inl InvalidLength
     else validated_packet ConnAck5_validate
       \<lparr>ca_session_present = session_present, ca_reason_code = reason_code, ca_properties = properties\<rparr>
       offset)))))"

section \<open>DISCONNECT and AUTH\<close>

record Disconnect5 =
  disc_reason_code :: u8
  disc_properties :: "Property list"

definition Disconnect5_new_normal :: Disconnect5 where
  "Disconnect5_new_normal = \<lparr>disc_reason_code = 0, disc_properties = []\<rparr>"

definition Disconnect5_validate :: "Disconnect5 \<Rightarrow> unit res" where
  "Disconnect5_validate p =
     tryE (reason DISCONNECT (disc_reason_code p)) (\<lambda>_.
     validation_properties (disc_properties p) Ctx_Disconnect)"

definition Disconnect5_variable_header :: "Disconnect5 \<Rightarrow> bytes res" where
  "Disconnect5_variable_header p =
     (if disc_reason_code p = 0 \<and> disc_properties p = [] then Inr []
      else tryE (encode_properities_hdr (disc_properties p)) (\<lambda>props.
        Inr (disc_reason_code p # props)))"

definition Disconnect5_to_bytes :: "Disconnect5 \<Rightarrow> bytes res" where
  "Disconnect5_to_bytes p =
     packet_to_bytes DISCONNECT 0 (Disconnect5_validate p) (Disconnect5_variable_header p) (Inr [])"

definition Disconnect5_from_bytes :: "bytes \<Rightarrow> Disconnect5 ParseOk res" where
  "Disconnect5_from_bytes buffer =
     open_packet DISCONNECT no_check buffer (\<lambda>size offset total_len.
     tryE (tryE (index_byte buffer 0)
             (flags_check 0 ''DISCONNECT packet has invalid fixed header flags'')) (\<lambda>_.
     tryE (if 0 < size then
             if total_len \<le> offset then Inl BufferTooShort else
             tryE (index_byte buffer offset) (\<lambda>reason_code.
             let offset = offset + 1 in
             if offset < total_len then
               tryE (get_range buffer offset total_len BufferTooShort) (\<lambda>rest.
               tryE (parse_properties_hdr rest) (\<lambda>(properties, consumed).
               Inr (reason_code, properties, offset + consumed)))
             else Inr (reason_code, [], offset))
           else Inr (0, [], offset)) (\<lambda>(reason_code, properties, offset).
     if offset \<noteq> total_len then Inl (InternalError ''Inconsistent offset'')
     else validated_packet Disconnect5_validate
       \<lparr>disc_reason_code = reason_code, disc_properties = properties\<rparr> total_len)))"

record Auth5 =
  auth_reason_code :: u8
  auth_properties :: "Property list"

definition Auth5_validate :: "Auth5 \<Rightarrow> unit res" where
  "Auth5_validate p =
     tryE (reason AUTH (auth_reason_code p)) (\<lambda>_.
     validation_properties (auth_properties p) Ctx_Auth)"

definition Auth5_variable_header :: "Auth5 \<Rightarrow> bytes res" where
  "Auth5_variable_header p =
     tryE (encode_properities_hdr (auth_properties p)) (\<lambda>props. Inr (auth_reason_code p # props))"

definition Auth5_to_bytes :: "Auth5 \<Rightarrow> bytes res" where
  "Auth5_to_bytes p = packet_to_bytes AUTH 0 (Auth5_validate p) (Auth5_variable_header p) (Inr [])"

definition Auth5_from_bytes :: "bytes \<Rightarrow> Auth5 ParseOk res" where
  "Auth5_from_bytes buffer =
     open_packet AUTH no_check buffer (\<lambda>size offset total_len.
     tryE (tryE (index_byte buffer 0)
             (flags_check 0 ''AUTH packet has invalid fixed header flags'')) (\<lambda>_.
     if size = 0 then
       validated_packet Auth5_validate \<lparr>auth_reason_code = 0, auth_properties = []\<rparr> total_len
     else if total_len \<le> offset then Inl BufferTooShort
     else
     tryE (index_byte buffer offset) (\<lambda>reason_code.
     let offset = offset + 1 in
     tryE (get_range buffer offset total_len BufferTooShort) (\<lambda>rest.
     tryE (parse_properties_hdr rest) (\<lambda>(properties, consumed).
     let offset = offset + consumed in
     if offset \<noteq> total_len then Inl (InternalError ''Inconsistent offset'')
     else validated_packet Auth5_validate
       \<lparr>auth_reason_code = reason_code, auth_properties = properties\<rparr> total_len)))))"

section \<open>PINGREQ and PINGRESP\<close>

definition ping_to_bytes :: "ControlPacketType \<Rightarrow> bytes res" where
  "ping_to_bytes kind = packet_to_bytes kind 0 (Inr ()) (Inr []) (Inr [])"

definition ping5_from_bytes :: "ControlPacketType \<Rightarrow> bytes \<Rightarrow> unit ParseOk res" where
  "ping5_from_bytes kind buffer =
     open_packet kind no_check buffer (\<lambda>size offset total_len.
     if size \<noteq> 0 then Inl (ParseErr ''packet must have remaining length of 0'') else
     tryE (tryE (index_byte buffer 0) (flags_check 0 ''packet has invalid fixed header flags'')) (\<lambda>_.
     Inr (Packet () total_len)))"

section \<open>SUBSCRIBE\<close>

record TopicSubscription =
  ts_topic_filter :: str
  ts_qos :: u8
  ts_no_local :: bool
  ts_retain_as_published :: bool
  ts_retain_handling :: u8

text \<open>\<open>subscription\<close> of \<open>validation.rs\<close>.\<close>

definition validation_subscription :: "TopicSubscription \<Rightarrow> unit res" where
  "validation_subscription s =
     tryE (validate_topic_filter (ts_topic_filter s)) (\<lambda>_.
     tryE (validate_shared_subscription (ts_topic_filter s)) (\<lambda>_.
     tryE (require (ts_qos s \<le> 2) ''Subscription QoS cannot exceed 2'') (\<lambda>_.
     tryE (require (ts_retain_handling s \<le> 2) ''Retain Handling cannot exceed 2'') (\<lambda>_.
     require (\<not> ts_no_local s \<or> \<not> starts_with (ts_topic_filter s) share_prefix)
       ''No Local is not allowed on a shared subscription''))))"

definition encode_subscription_options :: "TopicSubscription \<Rightarrow> u8" where
  "encode_subscription_options s =
     (let options = 0 OR (ts_qos s AND 0x03);
          options = (if ts_no_local s then options OR 0x04 else options);
          options = (if ts_retain_as_published s then options OR 0x08 else options)
      in options OR push_bit 4 (ts_retain_handling s AND 0x03))"

definition decode_subscription_options :: "u8 \<Rightarrow> u8 \<times> bool \<times> bool \<times> u8" where
  "decode_subscription_options options =
     (options AND 0x03, options AND 0x04 \<noteq> 0, options AND 0x08 \<noteq> 0, drop_bit 4 options AND 0x03)"

definition TopicSubscription_to_bytes :: "TopicSubscription \<Rightarrow> bytes res" where
  "TopicSubscription_to_bytes s =
     tryE (validation_subscription s) (\<lambda>_.
     tryE (encode_utf8_string (ts_topic_filter s)) (\<lambda>f.
     Inr (f @ [encode_subscription_options s])))"

definition TopicSubscription_from_bytes :: "bytes \<Rightarrow> (TopicSubscription \<times> nat) res" where
  "TopicSubscription_from_bytes buffer =
     tryE (slice_from buffer 0) (\<lambda>rest.
     tryE (parse_utf8_string rest) (\<lambda>(topic_filter, offset).
     tryE (validate_topic_filter topic_filter) (\<lambda>_.
     tryE (validate_shared_subscription topic_filter) (\<lambda>_.
     tryE (get_byte buffer offset BufferTooShort) (\<lambda>options.
     let offset = offset + 1 in
     if options AND 0xC0 \<noteq> 0 then
       Inl (ParseErr ''SUBSCRIBE Subscription Options reserved bits must be 0'')
     else
     let (qos, no_local, retain_as_published, retain_handling) = decode_subscription_options options in
     if no_local \<and> starts_with topic_filter share_prefix then
       Inl (ParseErr ''SUBSCRIBE No Local flag must not be set on Shared Subscriptions'')
     else
     let subscription = \<lparr>ts_topic_filter = topic_filter, ts_qos = qos, ts_no_local = no_local,
           ts_retain_as_published = retain_as_published, ts_retain_handling = retain_handling\<rparr> in
     tryE (validation_subscription subscription) (\<lambda>_. Inr (subscription, offset)))))))"

record Subscribe5 =
  sub_packet_id :: u16
  sub_subscriptions :: "TopicSubscription list"
  sub_properties :: "Property list"

text \<open>\<open>for x in xs { check(x)?; }\<close> and the loop that extends a buffer.\<close>

fun check_each :: "('a \<Rightarrow> unit res) \<Rightarrow> 'a list \<Rightarrow> unit res" where
  "check_each f [] = Inr ()"
| "check_each f (x # xs) = tryE (f x) (\<lambda>_. check_each f xs)"

fun extend_each :: "('a \<Rightarrow> bytes res) \<Rightarrow> 'a list \<Rightarrow> bytes \<Rightarrow> bytes res" where
  "extend_each f [] bytes = Inr bytes"
| "extend_each f (x # xs) bytes = tryE (f x) (\<lambda>b. extend_each f xs (bytes @ b))"

definition Subscribe5_validate :: "Subscribe5 \<Rightarrow> unit res" where
  "Subscribe5_validate p =
     tryE (validation_packet_id (sub_packet_id p)) (\<lambda>_.
     tryE (require (sub_subscriptions p \<noteq> []) ''SUBSCRIBE must contain a subscription'') (\<lambda>_.
     tryE (validation_properties (sub_properties p) Ctx_Subscribe) (\<lambda>_.
     check_each validation_subscription (sub_subscriptions p))))"

definition id_props_header :: "u16 \<Rightarrow> Property list \<Rightarrow> string \<Rightarrow> bytes res" where
  "id_props_header pid properties message =
     (if pid = 0 then Inl (ParseErr message)
      else tryE (encode_properities_hdr properties) (\<lambda>props. Inr (to_be_bytes16 pid @ props)))"

definition Subscribe5_payload :: "Subscribe5 \<Rightarrow> bytes res" where
  "Subscribe5_payload p =
     (if sub_subscriptions p = [] then
        Inl (ParseErr ''SUBSCRIBE payload must contain at least one subscription'')
      else extend_each TopicSubscription_to_bytes (sub_subscriptions p) [])"

definition Subscribe5_to_bytes :: "Subscribe5 \<Rightarrow> bytes res" where
  "Subscribe5_to_bytes p =
     packet_to_bytes SUBSCRIBE 0x02 (Subscribe5_validate p)
       (id_props_header (sub_packet_id p) (sub_properties p) ''SUBSCRIBE packet_id must be > 0'')
       (Subscribe5_payload p)"

section \<open>UNSUBSCRIBE\<close>

record Unsubscribe5 =
  unsub_packet_id :: u16
  unsub_topic_filters :: "str list"
  unsub_properties :: "Property list"

definition Unsubscribe5_validate :: "Unsubscribe5 \<Rightarrow> unit res" where
  "Unsubscribe5_validate p =
     tryE (validation_packet_id (unsub_packet_id p)) (\<lambda>_.
     tryE (require (unsub_topic_filters p \<noteq> []) ''UNSUBSCRIBE must contain a topic filter'') (\<lambda>_.
     tryE (validation_properties (unsub_properties p) Ctx_Unsubscribe) (\<lambda>_.
     check_each (\<lambda>f. tryE (validate_topic_filter f) (\<lambda>_. validate_shared_subscription f))
       (unsub_topic_filters p))))"

definition Unsubscribe5_payload :: "Unsubscribe5 \<Rightarrow> bytes res" where
  "Unsubscribe5_payload p =
     (if unsub_topic_filters p = [] then
        Inl (ParseErr ''UNSUBSCRIBE payload must contain at least one topic filter'')
      else extend_each encode_utf8_string (unsub_topic_filters p) [])"

definition Unsubscribe5_to_bytes :: "Unsubscribe5 \<Rightarrow> bytes res" where
  "Unsubscribe5_to_bytes p =
     packet_to_bytes UNSUBSCRIBE 0x02 (Unsubscribe5_validate p)
       (id_props_header (unsub_packet_id p) (unsub_properties p) ''UNSUBSCRIBE packet_id must be > 0'')
       (Unsubscribe5_payload p)"

section \<open>SUBACK and UNSUBACK\<close>

record SubAck5 =
  suback_packet_id :: u16
  suback_reason_codes :: "u8 list"
  suback_properties :: "Property list"

definition SubAck5_validate :: "ControlPacketType \<Rightarrow> SubAck5 \<Rightarrow> unit res" where
  "SubAck5_validate kind p =
     tryE (validation_packet_id (suback_packet_id p)) (\<lambda>_.
     tryE (require (suback_reason_codes p \<noteq> []) ''must contain a reason code'') (\<lambda>_.
     tryE (validation_properties (suback_properties p) Ctx_Ack) (\<lambda>_.
     check_each (reason kind) (suback_reason_codes p))))"

definition SubAck5_payload :: "SubAck5 \<Rightarrow> bytes res" where
  "SubAck5_payload p =
     (if suback_reason_codes p = [] then
        Inl (ParseErr ''payload must contain at least one reason code'')
      else Inr (suback_reason_codes p))"

definition SubAck5_to_bytes :: "ControlPacketType \<Rightarrow> SubAck5 \<Rightarrow> bytes res" where
  "SubAck5_to_bytes kind p =
     packet_to_bytes kind 0 (SubAck5_validate kind p)
       (id_props_header (suback_packet_id p) (suback_properties p) ''packet_id must be > 0'')
       (SubAck5_payload p)"

definition SubAck5_from_bytes :: "ControlPacketType \<Rightarrow> bytes \<Rightarrow> SubAck5 ParseOk res" where
  "SubAck5_from_bytes kind buffer =
     open_packet kind validation_fixed_header buffer (\<lambda>size offset total_len.
     tryE (get_from buffer offset BufferTooShort) (\<lambda>rest.
     tryE (parse_packet_id rest) (\<lambda>(packet_id, consumed).
     let offset = offset + consumed in
     if packet_id = 0 then Inl (ParseErr ''packet_id must be > 0'') else
     tryE (get_range buffer offset total_len BufferTooShort) (\<lambda>rest.
     tryE (parse_properties_hdr rest) (\<lambda>(properties, consumed).
     let offset = offset + consumed in
     tryE (get_range buffer offset total_len BufferTooShort) (\<lambda>reason_codes.
     if reason_codes = [] then Inl (ParseErr ''payload must contain at least one reason code'')
     else validated_packet (SubAck5_validate kind)
       \<lparr>suback_packet_id = packet_id, suback_reason_codes = reason_codes,
        suback_properties = properties\<rparr> total_len))))))"

section \<open>Round trips of the acknowledgements and PUBLISH\<close>

lemma ack5_flags_less [simp]: "ack5_flags k < 16"
  by (simp add: ack5_flags_def)

lemma Ack5_from_to_bytes:
  assumes "Ack5_to_bytes kind flags p = Inr bs" and "flags < 16"
    and "\<forall>q \<in> set (ack_properties p). prop_utf8 q" and "length bs \<le> 268435455"
  shows "Ack5_from_bytes kind flags (bs @ r) = Inr (Packet p (length bs))"
proof -
  obtain h where v: "Ack5_validate kind p = Inr ()" and h: "Ack5_variable_header p = Inr h"
    and bs: "bs = frame kind flags h"
    using assms(1) by (auto simp: Ack5_to_bytes_def packet_to_bytes_Inr)
  have l: "length h \<le> 268435455" using assms(4) length_frame_ge [of h kind flags] by (simp add: bs)
  note open_h = open_packet_header [OF assms(2,4) [unfolded bs]]
  show ?thesis
  proof (cases "ack_reason_code p = 0 \<and> ack_properties p = []")
    case True
    then have "h = to_be_bytes16 (ack_packet_id p)" using h by (simp add: Ack5_variable_header_def)
    then show ?thesis
      unfolding Ack5_from_bytes_def bs frame_split append_assoc open_h
      using True v l assms(2)
      by (cases p) (simp add: parse_packet_id_def TwoByteInteger_decode_encode validated_packet_def)
  next
    case False
    then obtain x where x: "encode_properities_hdr (ack_properties p) = Inr x"
      and hx: "h = to_be_bytes16 (ack_packet_id p) @ ack_reason_code p # x"
      using h by (auto simp: Ack5_variable_header_def Let_def)
    then have px: "x = props_wire (ack_properties p)" "props_ok (ack_properties p)"
      using encode_props_ok [OF x assms(3)] l by auto
    then show ?thesis
      unfolding Ack5_from_bytes_def bs frame_split append_assoc open_h
      using v l assms(2) hx
      by (cases p) (simp add: parse_packet_id_def TwoByteInteger_decode_encode validated_packet_def
          sect.dec_enc_Nil)
  qed
qed


lemma publish_flags_first_byte:
  assumes "q \<le> 2"
  shows "publish_flags q d r < 16"
    and "publish_qos_of (first_byte PUBLISH (publish_flags q d r)) = q"
    and "first_byte PUBLISH (publish_flags q d r) AND 8 \<noteq> 0 \<longleftrightarrow> d"
    and "first_byte PUBLISH (publish_flags q d r) AND 1 \<noteq> 0 \<longleftrightarrow> r"
  using assms
  by (cases q rule: u8_le_2_cases; cases d; cases r;
      simp add: publish_flags_def publish_qos_of_def first_byte_def)+

definition publish_id_bytes :: "u16 option \<Rightarrow> bytes" where
  "publish_id_bytes pid = (case pid of None \<Rightarrow> [] | Some i \<Rightarrow> to_be_bytes16 i)"

lemma encode_publish_header_frame:
  "encode_publish_header_into flags topic pid (length props) (length payload) @ props @ payload =
   frame PUBLISH flags (BinaryData_encode topic @ publish_id_bytes pid @ props @ payload)"
  by (cases pid) (simp_all add: encode_publish_header_into_def frame_def fixed_header_bytes_def
      BinaryData_encode_def publish_id_bytes_def add.assoc)

lemma validation_publish_Inr:
  "validation_publish q d pid = Inr u \<longleftrightarrow>
   q \<le> 2 \<and> (q \<noteq> 0 \<or> \<not> d) \<and> (q = 0 \<or> (\<exists>i. pid = Some i \<and> i \<noteq> 0))"
  by (auto simp: validation_publish_def validation_packet_id_def word_gt_0 split: option.splits if_splits)

definition Publish5_wf :: "Publish5 \<Rightarrow> bool" where
  "Publish5_wf p \<longleftrightarrow> utf8_valid (pub_topic_name p) \<and> (\<forall>q \<in> set (pub_properties p). prop_utf8 q) \<and>
     (pub_qos p = 0 \<longrightarrow> pub_packet_id p = None)"

lemma Publish5_validate_topic:
  assumes "Publish5_validate p = Inr ()" and "utf8_valid (pub_topic_name p)"
  shows "str_ok (pub_topic_name p)" and "hash \<notin> set (pub_topic_name p)" and "plus_c \<notin> set (pub_topic_name p)"
    and "validation_publish (pub_qos p) (pub_dup p) (pub_packet_id p) = Inr ()"
  using assms
  by (cases "pub_topic_name p = []"; auto simp: Publish5_validate_def validation_topic_ok str_ok_def
      validation_string_def validate_mqtt_utf8_string_def split: if_splits)+

lemma Publish5_to_bytes_Inr:
  assumes "Publish5_to_bytes p = Inr bs" and "Publish5_wf p"
  shows "Publish5_validate p = Inr ()" and "\<forall>q \<in> set (pub_properties p). prop_ok q"
    and "bs = frame PUBLISH (publish_flags (pub_qos p) (pub_dup p) (pub_retain p))
           (Utf8String_encode (pub_topic_name p) @ publish_id_bytes (pub_packet_id p) @
            props_wire (pub_properties p) @ pub_payload p)"
proof -
  show v: "Publish5_validate p = Inr ()" using assms(1) by (auto simp: Publish5_to_bytes_def)
  note t = Publish5_validate_topic [OF v] 
  have u: "\<forall>q \<in> set (pub_properties p). prop_utf8 q" "utf8_valid (pub_topic_name p)"
    and q0: "pub_qos p = 0 \<longrightarrow> pub_packet_id p = None"
    using assms(2) by (simp_all add: Publish5_wf_def)
  have q: "pub_qos p = 0 \<or> (\<exists>i. pub_packet_id p = Some i)"
    using t(4) u by (auto simp: validation_publish_Inr)
  show ok: "\<forall>q \<in> set (pub_properties p). prop_ok q"
    using v u by (auto simp: Publish5_validate_def validation_properties_iff properties_spec_def prop_ok_def)
  have pid: "(if 0 < pub_qos p then
             (case pub_packet_id p of
                None \<Rightarrow> Inl (ParseErr ''QoS > 0 requires a packet identifier'')
              | Some i \<Rightarrow> Inr (Some i))
           else Inr None) = Inr (pub_packet_id p)"
    using q q0 by (auto simp: word_gt_0)
  have e: "PropertyEncoder_new (pub_properties p) = Inr e \<Longrightarrow>
     PropertyEncoder_encode_into e = props_wire (pub_properties p) \<and>
     PropertyEncoder_encoded_len e = length (props_wire (pub_properties p))" for e
    using PropertyEncoder_new_Inr [OF _ u(1)] by blast
  have l: "\<not> 65535 < length (pub_topic_name p)" using t(1) u(2) by (simp add: str_ok_def)
  have "Publish5_to_bytes p = Inr (encode_publish_header_into (publish_flags (pub_qos p) (pub_dup p) (pub_retain p))
     (pub_topic_name p) (pub_packet_id p) (length (props_wire (pub_properties p))) (length (pub_payload p))
     @ props_wire (pub_properties p) @ pub_payload p)"
    using PropertyEncoder_new_ok [OF ok] e
    by (simp add: Publish5_to_bytes_def v pid l encode_publish_into_def Let_def)
  then show "bs = frame PUBLISH (publish_flags (pub_qos p) (pub_dup p) (pub_retain p))
           (Utf8String_encode (pub_topic_name p) @ publish_id_bytes (pub_packet_id p) @
            props_wire (pub_properties p) @ pub_payload p)"
    using assms(1) by (simp add: encode_publish_header_frame Utf8String_encode_def)
qed

lemma Publish5_from_to_bytes:
  assumes "Publish5_to_bytes p = Inr bs" and "Publish5_wf p" and "length bs \<le> 268435455"
  shows "Publish5_from_bytes (bs @ r) = Inr (Packet p (length bs))"
proof -
  note b = Publish5_to_bytes_Inr [OF assms(1,2)]
  have "utf8_valid (pub_topic_name p)" using assms(2) by (simp add: Publish5_wf_def)
  note t = Publish5_validate_topic [OF b(1) this]
  have q: "pub_qos p \<le> 2" "pub_qos p \<noteq> 0 \<or> \<not> pub_dup p" using t(4) by (simp_all add: validation_publish_Inr)
  note f = publish_flags_first_byte [OF q(1), of "pub_dup p" "pub_retain p"]
  let ?f = "publish_flags (pub_qos p) (pub_dup p) (pub_retain p)"
  define c where "c = Utf8String_encode (pub_topic_name p) @ publish_id_bytes (pub_packet_id p) @
            props_wire (pub_properties p) @ pub_payload p"
  have bs: "bs = frame PUBLISH ?f c" using b(3) by (simp add: c_def)
  note open_h = open_packet_header [OF f(1) assms(3) [unfolded bs]]
  have l: "length (props_wire (pub_properties p)) \<le> 268435455"
    using assms(3) length_frame_ge [of c PUBLISH ?f] by (simp add: bs c_def)
  then have ok: "props_ok (pub_properties p)" using b(2) by (auto simp: props_ok_def props_wire_def)
  have fb: "get_byte (fixed_header_bytes PUBLISH ?f (length c) @ c @ r) 0 BufferTooShort =
      Inr (first_byte PUBLISH ?f)"
    by (simp add: fixed_header_bytes_def first_byte_def)
  have q3: "pub_qos p \<noteq> 3" using q(1) by (cases "pub_qos p" rule: u8_le_2_cases) auto
  have pid: "pub_packet_id p = None" if "pub_qos p = 0"
    using that assms(2) by (simp add: Publish5_wf_def)
  have pid': "\<exists>i. pub_packet_id p = Some i" if "pub_qos p \<noteq> 0"
    using that t(4) by (auto simp: validation_publish_Inr)
  show ?thesis
    unfolding Publish5_from_bytes_def bs frame_split append_assoc fb tryE_Inr open_h f
    using q q3 t(1-3) ok b(1) pid pid'
    by (cases "pub_qos p = 0"; cases p)
       (auto simp add: word_gt_0 c_def publish_id_bytes_def parse_topic_name_def parse_utf8_string_def
          Utf8String_decode_encode parse_packet_id_def TwoByteInteger_decode_encode sect.dec_enc
          validated_packet_def Let_def add.assoc)
qed

text \<open>The streaming encoder writes what the default encoder of the trait writes.\<close>

lemma Publish5_to_bytes_default:
  assumes "utf8_valid (pub_topic_name p)" and "\<forall>q \<in> set (pub_properties p). prop_utf8 q"
  shows "Publish5_to_bytes p =
    packet_to_bytes PUBLISH (publish_flags (pub_qos p) (pub_dup p) (pub_retain p))
      (Publish5_validate p) (Publish5_variable_header p) (Inr (pub_payload p))"
proof (cases "Publish5_validate p")
  case (Inl e)
  then show ?thesis by (simp add: Publish5_to_bytes_def packet_to_bytes_def)
next
  case (Inr u)
  then have v: "Publish5_validate p = Inr ()" by simp
  note t = Publish5_validate_topic [OF v assms(1)]
  have ok: "\<forall>q \<in> set (pub_properties p). prop_ok q"
    using v assms(2)
    by (auto simp: Publish5_validate_def validation_properties_iff properties_spec_def prop_ok_def)
  define pid where "pid = (if 0 < pub_qos p then pub_packet_id p else None)"
  have pid: "(if 0 < pub_qos p then
             (case pub_packet_id p of
                None \<Rightarrow> Inl (ParseErr ''QoS > 0 requires a packet identifier'')
              | Some i \<Rightarrow> Inr (Some i))
           else Inr None) = Inr pid"
    "(if 0 < pub_qos p then
             (case pub_packet_id p of
                Some packet_id \<Rightarrow> Inr (to_be_bytes16 packet_id)
              | None \<Rightarrow> Inl (ParseErr ''QoS > 0 requires a packet identifier''))
           else Inr []) = Inr (publish_id_bytes pid)"
    using t(4) by (auto simp: validation_publish_Inr publish_id_bytes_def word_gt_0 pid_def
      split: option.splits)
  have e: "PropertyEncoder_new (pub_properties p) = Inr e \<Longrightarrow>
     PropertyEncoder_encode_into e = props_wire (pub_properties p) \<and>
     PropertyEncoder_encoded_len e = length (props_wire (pub_properties p))" for e
    using PropertyEncoder_new_Inr [OF _ assms(2)] by blast
  let ?f = "publish_flags (pub_qos p) (pub_dup p) (pub_retain p)"
  have "Publish5_to_bytes p = Inr (encode_publish_header_into ?f (pub_topic_name p) pid
      (length (props_wire (pub_properties p))) (length (pub_payload p))
      @ props_wire (pub_properties p) @ pub_payload p)"
    using PropertyEncoder_new_ok [OF ok] e t(1)
    by (simp add: Publish5_to_bytes_def v pid(1) str_ok_def encode_publish_into_def Let_def)
  moreover have "Publish5_variable_header p = Inr (Utf8String_encode (pub_topic_name p) @
      publish_id_bytes pid @ props_wire (pub_properties p))"
    using ok t(1) by (simp add: Publish5_variable_header_def pid(2))
  ultimately show ?thesis
    by (simp add: v packet_to_bytes_def encode_publish_header_frame frame_def Utf8String_encode_def
        add.assoc)
qed

section \<open>Subscription options\<close>

lemma u8_and_pow_bit:
  "(x :: u8) AND 4 \<noteq> 0 \<longleftrightarrow> bit x 2" "(x :: u8) AND 8 \<noteq> 0 \<longleftrightarrow> bit x 3"
  "(x :: u8) AND 1 \<noteq> 0 \<longleftrightarrow> bit x 0" "(x :: u8) AND 2 \<noteq> 0 \<longleftrightarrow> bit x 1"
  using and_exp_eq_0_iff_not_bit [of x 2] and_exp_eq_0_iff_not_bit [of x 3]
    and_exp_eq_0_iff_not_bit [of x 0] and_exp_eq_0_iff_not_bit [of x 1]
  by simp_all

lemma u8_bit_eqI:
  assumes "\<And>n. n \<in> {0, 1, 2, 3, 4, 5, 6, 7} \<Longrightarrow> bit (x :: u8) n \<longleftrightarrow> bit y n"
  shows "x = y"
proof (rule bit_word_eqI)
  fix n
  assume "n < LENGTH(8)"
  then have "n \<in> {0, 1, 2, 3, 4, 5, 6, 7}" by auto
  then show "bit x n \<longleftrightarrow> bit y n" by (rule assms)
qed

definition options_of :: "u8 \<times> bool \<times> bool \<times> u8 \<Rightarrow> u8" where
  "options_of t = (case t of (q, nl, rap, rh) \<Rightarrow>
     (q AND 3) OR (if nl then 4 else 0) OR (if rap then 8 else 0) OR push_bit 4 (rh AND 3))"

lemma encode_subscription_options_eq:
  "encode_subscription_options s =
   options_of (ts_qos s, ts_no_local s, ts_retain_as_published s, ts_retain_handling s)"
  by (simp add: encode_subscription_options_def options_of_def Let_def or.assoc)

lemma options_decode_encode:
  assumes "q \<le> 2" and "rh \<le> 2"
  shows "decode_subscription_options (options_of (q, nl, rap, rh)) = (q, nl, rap, rh)"
    and "options_of (q, nl, rap, rh) AND 0xC0 = 0"
  by (rule u8_le_2_cases [OF assms(1)]; rule u8_le_2_cases [OF assms(2)]; cases nl; cases rap;
      simp add: decode_subscription_options_def options_of_def)+

lemma options_encode_decode:
  assumes "x AND 0xC0 = 0"
  shows "options_of (decode_subscription_options x) = x"
proof (rule u8_bit_eqI)
  have "\<not> bit (x AND 0xC0) 6" "\<not> bit (x AND 0xC0) 7" using assms by simp_all
  then have "\<not> bit x 6" "\<not> bit x 7" by (simp_all add: bit_and_iff)
  then show "bit (options_of (decode_subscription_options x)) n \<longleftrightarrow> bit x n"
    if "n \<in> {0, 1, 2, 3, 4, 5, 6, 7}" for n
    using that
    by (elim insertE emptyE;
        simp add: options_of_def decode_subscription_options_def u8_and_pow_bit bit_or_iff
          bit_and_iff bit_push_bit_iff bit_drop_bit_eq)
qed


definition ts_wire :: "TopicSubscription \<Rightarrow> bytes" where
  "ts_wire s = Utf8String_encode (ts_topic_filter s) @ [encode_subscription_options s]"

definition ts_ok :: "TopicSubscription \<Rightarrow> bool" where
  "ts_ok s \<longleftrightarrow> validation_subscription s = Inr () \<and> utf8_valid (ts_topic_filter s)"

lemma no_panic_validate_levels [simp]: "no_panic (validate_levels ls)"
  by (induction ls) (auto simp: Let_def intro!: no_panic_tryE no_panic_if)

lemma no_panic_validate_topic_filter [simp]: "no_panic (validate_topic_filter f)"
  by (auto simp: validate_topic_filter_def validate_mqtt_utf8_string_def intro!: no_panic_tryE)

lemma no_panic_validate_shared [simp]: "no_panic (validate_shared_subscription f)"
  by (auto simp: validate_shared_subscription_def Let_def intro!: no_panic_tryE)

lemma no_panic_validation_subscription [simp]: "no_panic (validation_subscription s)"
  by (auto simp: validation_subscription_def intro!: no_panic_tryE)

lemma topic_filter_str_ok:
  "validate_topic_filter f = Inr () \<Longrightarrow> utf8_valid f \<Longrightarrow> str_ok f"
  by (simp add: validate_topic_filter_iff str_ok_def)

lemma ts_decode_wire:
  assumes "ts_ok s"
  shows "TopicSubscription_from_bytes (ts_wire s @ r) = Inr (s, length (ts_wire s))"
proof -
  have v: "validate_topic_filter (ts_topic_filter s) = Inr ()" "validate_shared_subscription (ts_topic_filter s) = Inr ()"
    "ts_qos s \<le> 2" "ts_retain_handling s \<le> 2"
    "\<not> ts_no_local s \<or> \<not> starts_with (ts_topic_filter s) share_prefix"
    "validation_subscription s = Inr ()" "utf8_valid (ts_topic_filter s)"
    using assms by (auto simp: ts_ok_def validation_subscription_def)
  note o = options_decode_encode [OF v(3,4), of "ts_no_local s" "ts_retain_as_published s"]
  have s: "\<lparr>ts_topic_filter = ts_topic_filter s, ts_qos = ts_qos s, ts_no_local = ts_no_local s,
      ts_retain_as_published = ts_retain_as_published s, ts_retain_handling = ts_retain_handling s\<rparr> = s"
    by simp
  show ?thesis
    using v topic_filter_str_ok [OF v(1,7)]
    by (auto simp: TopicSubscription_from_bytes_def ts_wire_def parse_utf8_string_def
        Utf8String_decode_encode encode_subscription_options_eq o s)
qed

lemma ts_decode_canonical:
  assumes "TopicSubscription_from_bytes b = Inr (s, n)"
  shows "ts_ok s \<and> n = length (ts_wire s) \<and> take n b = ts_wire s"
proof -
  from assms obtain f m x where f: "Utf8String_decode b = Inr (f, m)" "m < length b" "x = b ! m"
    "x AND 0xC0 = 0" "n = m + 1" and s: "validation_subscription s = Inr ()" "ts_topic_filter s = f"
    "(ts_qos s, ts_no_local s, ts_retain_as_published s, ts_retain_handling s) = decode_subscription_options x"
    by (auto simp: TopicSubscription_from_bytes_def parse_utf8_string_def get_byte_Inr Let_def
        split: if_splits prod.splits)
  note u = utf8.dec_canonical [OF f(1)]
  have "encode_subscription_options s = x"
    using options_encode_decode [OF f(4)] by (simp add: encode_subscription_options_eq s(3))
  moreover have "take n b = take m b @ [x]" using f(2,3,5) by (simp add: take_Suc_conv_app_nth)
  ultimately have "take n b = ts_wire s" using u s(2) by (metis ts_wire_def)
  then show ?thesis using u f s by (auto simp: ts_ok_def ts_wire_def str_ok_def)
qed

lemma no_panic_ts_decode [simp]: "no_panic (TopicSubscription_from_bytes b)"
  by (auto simp: TopicSubscription_from_bytes_def Let_def split: prod.splits
      intro!: no_panic_tryE no_panic_get_byte)

interpretation ts: canonical_codec TopicSubscription_from_bytes ts_wire ts_ok
  by unfold_locales (simp_all add: ts_decode_wire ts_decode_canonical, simp add: ts_wire_def)

section \<open>The decoding loops of SUBSCRIBE and UNSUBSCRIBE\<close>

function subscriptions_loop ::
  "bytes \<Rightarrow> nat \<Rightarrow> nat \<Rightarrow> TopicSubscription list \<Rightarrow> (TopicSubscription list \<times> nat) res" where
  "subscriptions_loop buffer total_len offset subscriptions =
     (if offset < total_len then
        tryE (slice_from buffer offset) (\<lambda>rest.
        tryE (TopicSubscription_from_bytes rest) (\<lambda>(subscription, consumed).
        subscriptions_loop buffer total_len (offset + consumed) (subscriptions @ [subscription])))
      else Inr (subscriptions, offset))"
  by pat_completeness auto
termination
  by (relation "measure (\<lambda>(b, t, i, _). t - i)") (auto dest!: ts.dec_consumes)

function filters_loop :: "bytes \<Rightarrow> nat \<Rightarrow> nat \<Rightarrow> str list \<Rightarrow> (str list \<times> nat) res" where
  "filters_loop buffer total_len offset topic_filters =
     (if offset < total_len then
        tryE (slice_from buffer offset) (\<lambda>rest.
        tryE (parse_utf8_string rest) (\<lambda>(topic_filter, consumed).
        filters_loop buffer total_len (offset + consumed) (topic_filters @ [topic_filter])))
      else Inr (topic_filters, offset))"
  by pat_completeness auto
termination
  by (relation "measure (\<lambda>(b, t, i, _). t - i)")
     (auto simp: parse_utf8_string_def dest!: utf8.dec_consumes)

declare subscriptions_loop.simps [simp del] filters_loop.simps [simp del]

definition Subscribe5_from_bytes :: "bytes \<Rightarrow> Subscribe5 ParseOk res" where
  "Subscribe5_from_bytes buffer =
     open_packet SUBSCRIBE (flags_check 0x02 ''SUBSCRIBE fixed header flags must be 0010'') buffer
       (\<lambda>size offset total_len.
     tryE (get_from buffer offset BufferTooShort) (\<lambda>rest.
     tryE (parse_packet_id rest) (\<lambda>(packet_id, consumed).
     let offset = offset + consumed in
     if packet_id = 0 then Inl (ParseErr ''SUBSCRIBE packet_id must be > 0'') else
     tryE (get_range buffer offset total_len BufferTooShort) (\<lambda>rest.
     tryE (parse_properties_hdr rest) (\<lambda>(properties, consumed).
     let offset = offset + consumed in
     tryE (subscriptions_loop buffer total_len offset []) (\<lambda>(subscriptions, offset).
     if subscriptions = [] then
       Inl (ParseErr ''SUBSCRIBE payload must contain at least one subscription'')
     else if offset \<noteq> total_len then Inl (InternalError ''Inconsistent offset'')
     else validated_packet Subscribe5_validate
       \<lparr>sub_packet_id = packet_id, sub_subscriptions = subscriptions, sub_properties = properties\<rparr>
       offset))))))"

definition Unsubscribe5_from_bytes :: "bytes \<Rightarrow> Unsubscribe5 ParseOk res" where
  "Unsubscribe5_from_bytes buffer =
     open_packet UNSUBSCRIBE (flags_check 0x02 ''UNSUBSCRIBE fixed header flags must be 0010'') buffer
       (\<lambda>size offset total_len.
     tryE (get_from buffer offset BufferTooShort) (\<lambda>rest.
     tryE (parse_packet_id rest) (\<lambda>(packet_id, consumed).
     let offset = offset + consumed in
     if packet_id = 0 then Inl (ParseErr ''UNSUBSCRIBE packet_id must be > 0'') else
     tryE (get_range buffer offset total_len BufferTooShort) (\<lambda>rest.
     tryE (parse_properties_hdr rest) (\<lambda>(properties, consumed).
     let offset = offset + consumed in
     tryE (filters_loop buffer total_len offset []) (\<lambda>(topic_filters, offset).
     if topic_filters = [] then
       Inl (ParseErr ''UNSUBSCRIBE payload must contain at least one topic filter'')
     else if offset \<noteq> total_len then Inl (InternalError ''Inconsistent offset'')
     else validated_packet Unsubscribe5_validate
       \<lparr>unsub_packet_id = packet_id, unsub_topic_filters = topic_filters,
        unsub_properties = properties\<rparr> offset))))))"

interpretation ts_loop: element_loop TopicSubscription_from_bytes ts_wire ts_ok
  subscriptions_loop "\<lambda>_ _. True"
  by unfold_locales (subst subscriptions_loop.simps; simp add: get_from_def)+

interpretation filter_loop: element_loop Utf8String_decode Utf8String_encode str_ok
  filters_loop "\<lambda>_ _. True"
  by unfold_locales (subst filters_loop.simps; simp add: get_from_def parse_utf8_string_def)+

section \<open>Round trips of the other packets\<close>

lemma validation_fixed_header_0 [simp]:
  "kind \<in> {CONNECT, CONNACK, PUBACK, PUBREC, PUBCOMP, SUBACK, UNSUBACK, PINGREQ, PINGRESP, DISCONNECT, AUTH} \<Longrightarrow>
   validation_fixed_header (first_byte kind 0) = Inr ()"
  by (auto simp: validation_fixed_header_def first_byte_def)

lemma get_from_2 [simp]: "get_from (x # y # xs) 2 e = Inr xs"
  by (simp add: get_from_def)

lemma ConnAck5_from_to_bytes:
  assumes "ConnAck5_to_bytes p = Inr bs" and "\<forall>q \<in> set (unwrap_or_default (ca_properties p)). prop_utf8 q"
    and "ca_properties p \<noteq> Some []" and "length bs \<le> 268435455"
  shows "ConnAck5_from_bytes (bs @ r) = Inr (Packet p (length bs))"
proof -
  let ?ps = "unwrap_or_default (ca_properties p)"
  obtain x where v: "ConnAck5_validate p = Inr ()" and x: "encode_properities_hdr ?ps = Inr x"
    and bs: "bs = frame CONNACK 0 ((if ca_session_present p then 1 else 0) # ca_reason_code p # x)"
    using assms(1) by (auto simp: ConnAck5_to_bytes_def packet_to_bytes_Inr ConnAck5_variable_header_def)
  have "length x \<le> 268435455" using assms(4) by (simp add: bs frame_def)
  note px = encode_props_ok [OF x assms(2) this]
  define c where "c = (if ca_session_present p then 1 else 0) # ca_reason_code p # x"
  have bs: "bs = frame CONNACK 0 c" by (simp add: bs c_def)
  note open_h = open_packet_header [OF _ assms(4) [unfolded bs]]
  have p: "\<lparr>ca_session_present = ca_session_present p, ca_reason_code = ca_reason_code p,
      ca_properties = (if ?ps = [] then None else Some ?ps)\<rparr> = p"
    using assms(3) by (cases p) (auto simp: unwrap_or_default_def split: option.splits)
  have sp: "(if b then 1 else 0 :: u8) AND 1 = 1 \<longleftrightarrow> b" "(if b then 1 else 0 :: u8) AND 0xFE = 0" for b
    by simp_all
  show ?thesis
    unfolding ConnAck5_from_bytes_def bs frame_split append_assoc
    by (subst open_h)
       (use v px in \<open>simp_all add: c_def sect.dec_enc validated_packet_def Let_def sp p
          split del: if_split\<close>)
qed

lemma Disconnect5_from_to_bytes:
  assumes "Disconnect5_to_bytes p = Inr bs" and "\<forall>q \<in> set (disc_properties p). prop_utf8 q"
    and "length bs \<le> 268435455"
  shows "Disconnect5_from_bytes (bs @ r) = Inr (Packet p (length bs))"
proof -
  obtain h where v: "Disconnect5_validate p = Inr ()" and h: "Disconnect5_variable_header p = Inr h"
    and bs: "bs = frame DISCONNECT 0 h"
    using assms(1) by (auto simp: Disconnect5_to_bytes_def packet_to_bytes_Inr)
  note open_h = open_packet_header [OF _ assms(3) [unfolded bs]]
  have fb: "get_byte (fixed_header_bytes DISCONNECT 0 n @ y) 0 e = Inr (first_byte DISCONNECT 0)" for n y e
    by (simp add: fixed_header_bytes_def first_byte_def)
  show ?thesis
  proof (cases "disc_reason_code p = 0 \<and> disc_properties p = []")
    case True
    then have "h = []" using h by (simp add: Disconnect5_variable_header_def)
    then show ?thesis
      unfolding Disconnect5_from_bytes_def bs frame_split append_assoc
      by (subst open_h) (use True v in \<open>cases p; simp add: no_check_def validated_packet_def fb\<close>)+
  next
    case False
    then obtain x where x: "encode_properities_hdr (disc_properties p) = Inr x"
      and hx: "h = disc_reason_code p # x"
      using h by (auto simp: Disconnect5_variable_header_def)
    have "length x \<le> 268435455" using assms(3) by (simp add: bs frame_def hx)
    note px = encode_props_ok [OF x assms(2) this]
    show ?thesis
      unfolding Disconnect5_from_bytes_def bs frame_split append_assoc
      by (subst open_h) (use v px hx in \<open>cases p; simp add: no_check_def sect.dec_enc_Nil validated_packet_def Let_def fb\<close>)+
  qed
qed

lemma Auth5_from_to_bytes:
  assumes "Auth5_to_bytes p = Inr bs" and "\<forall>q \<in> set (auth_properties p). prop_utf8 q"
    and "length bs \<le> 268435455"
  shows "Auth5_from_bytes (bs @ r) = Inr (Packet p (length bs))"
proof -
  obtain x where v: "Auth5_validate p = Inr ()" and x: "encode_properities_hdr (auth_properties p) = Inr x"
    and bs: "bs = frame AUTH 0 (auth_reason_code p # x)"
    using assms(1) by (auto simp: Auth5_to_bytes_def packet_to_bytes_Inr Auth5_variable_header_def)
  have "length x \<le> 268435455" using assms(3) by (simp add: bs frame_def)
  note px = encode_props_ok [OF x assms(2) this]
  define c where "c = auth_reason_code p # x"
  have bs: "bs = frame AUTH 0 c" by (simp add: bs c_def)
  note open_h = open_packet_header [OF _ assms(3) [unfolded bs]]
  have fb: "get_byte (fixed_header_bytes AUTH 0 n @ y) 0 e = Inr (first_byte AUTH 0)" for n y e
    by (simp add: fixed_header_bytes_def first_byte_def)
  show ?thesis
    unfolding Auth5_from_bytes_def bs frame_split append_assoc
    by (subst open_h) (use v px in \<open>cases p; simp add: c_def no_check_def sect.dec_enc_Nil validated_packet_def Let_def fb\<close>)+
qed

lemma ping5_from_to_bytes:
  assumes "ping_to_bytes kind = Inr bs"
  shows "ping5_from_bytes kind (bs @ r) = Inr (Packet () (length bs))"
proof -
  have bs: "bs = frame kind 0 []" using assms by (simp add: ping_to_bytes_def packet_to_bytes_Inr)
  have fb: "get_byte (fixed_header_bytes kind 0 n @ y) 0 e = Inr (first_byte kind 0)" for n y e
    by (simp add: fixed_header_bytes_def first_byte_def)
  have "length (frame kind 0 []) \<le> 268435455"
    using length_fixed_header_le [of "[]" kind 0] by (simp add: frame_def)
  note open_h = open_packet_header [OF _ this]
  show ?thesis
    unfolding ping5_from_bytes_def bs frame_split append_assoc
    by (subst open_h) (simp_all add: no_check_def fb)
qed

lemma SubAck5_from_to_bytes:
  assumes "SubAck5_to_bytes kind p = Inr bs" and "kind = SUBACK \<or> kind = UNSUBACK"
    and "\<forall>q \<in> set (suback_properties p). prop_utf8 q" and "length bs \<le> 268435455"
  shows "SubAck5_from_bytes kind (bs @ r) = Inr (Packet p (length bs))"
proof -
  obtain x where v: "SubAck5_validate kind p = Inr ()" and x: "encode_properities_hdr (suback_properties p) = Inr x"
    and ne: "suback_reason_codes p \<noteq> []" and pid: "suback_packet_id p \<noteq> 0"
    and bs: "bs = frame kind 0 (to_be_bytes16 (suback_packet_id p) @ x @ suback_reason_codes p)"
    using assms(1) by (auto simp: SubAck5_to_bytes_def packet_to_bytes_Inr id_props_header_def
        SubAck5_payload_def split: if_splits)
  have "length x \<le> 268435455" using assms(4) by (simp add: bs frame_def)
  note px = encode_props_ok [OF x assms(3) this]
  define c where "c = to_be_bytes16 (suback_packet_id p) @ x @ suback_reason_codes p"
  have bs: "bs = frame kind 0 c" by (simp add: bs c_def)
  note open_h = open_packet_header [OF _ assms(4) [unfolded bs]]
  have fh: "validation_fixed_header (first_byte kind 0) = Inr ()" using assms(2) by auto
  have g: "get_range (a @ b @ r) 0 (length a + length b) e = Inr (a @ b)" for a b r :: bytes and e
    using get_range_0_append [of "a @ b" r e] by simp
  show ?thesis
    unfolding SubAck5_from_bytes_def bs frame_split append_assoc
    by (subst open_h)
       (use v px ne pid in \<open>cases p; simp add: c_def fh parse_packet_id_def TwoByteInteger_decode_encode
         sect.dec_enc validated_packet_def Let_def g\<close>)+
qed

lemma check_each_Inr: "check_each f xs = Inr () \<longleftrightarrow> (\<forall>x \<in> set xs. f x = Inr ())"
  by (induction xs) (auto simp: tryE_eq_Inr)

lemma extend_each_Inr:
  "extend_each f xs bytes = Inr bs \<Longrightarrow> \<forall>x \<in> set xs. \<forall>b. f x = Inr b \<longrightarrow> b = enc x \<Longrightarrow>
   bs = bytes @ concat (map enc xs)"
proof (induction xs arbitrary: bytes)
  case (Cons x xs)
  then obtain b where "f x = Inr b" and e: "extend_each f xs (bytes @ b) = Inr bs" by auto
  with Cons.prems have "b = enc x" by simp
  then show ?case using Cons.IH [OF e] Cons.prems by simp
qed simp

lemma Subscribe5_from_to_bytes:
  assumes "Subscribe5_to_bytes p = Inr bs"
    and "\<forall>q \<in> set (sub_properties p). prop_utf8 q"
    and "\<forall>s \<in> set (sub_subscriptions p). utf8_valid (ts_topic_filter s)" and "length bs \<le> 268435455"
  shows "Subscribe5_from_bytes (bs @ r) = Inr (Packet p (length bs))"
proof -
  obtain x y where v: "Subscribe5_validate p = Inr ()" and x: "encode_properities_hdr (sub_properties p) = Inr x"
    and ne: "sub_subscriptions p \<noteq> []" and pid: "sub_packet_id p \<noteq> 0"
    and y: "extend_each TopicSubscription_to_bytes (sub_subscriptions p) [] = Inr y"
    and bs: "bs = frame SUBSCRIBE 2 (to_be_bytes16 (sub_packet_id p) @ x @ y)"
    using assms(1) by (auto simp: Subscribe5_to_bytes_def packet_to_bytes_Inr id_props_header_def
        Subscribe5_payload_def split: if_splits)
  have "length x \<le> 268435455" using assms(4) by (simp add: bs frame_def)
  note px = encode_props_ok [OF x assms(2) this]
  have ok: "\<forall>s \<in> set (sub_subscriptions p). ts_ok s"
    using v assms(3) by (auto simp: Subscribe5_validate_def check_each_Inr ts_ok_def)
  have "TopicSubscription_to_bytes s = Inr b \<longrightarrow> b = ts_wire s" if "s \<in> set (sub_subscriptions p)" for s b
    using that by (auto simp: TopicSubscription_to_bytes_def ts_wire_def encode_utf8_string_def split: if_splits)
  then have y: "y = concat (map ts_wire (sub_subscriptions p))"
    using extend_each_Inr [OF y, of ts_wire] by simp
  define c where "c = to_be_bytes16 (sub_packet_id p) @ x @ y"
  have bs: "bs = frame SUBSCRIBE 2 c" by (simp add: bs c_def)
  note open_h = open_packet_header [OF _ assms(4) [unfolded bs]]
  have g: "get_range (a @ b @ r) 0 (length a + length b) e = Inr (a @ b)" for a b r :: bytes and e
    using get_range_0_append [of "a @ b" r e] by simp
  define H where "H = fixed_header_bytes SUBSCRIBE 2 (length c)"
  have lp: "subscriptions_loop (H @ c @ r) (length H + length c)
      (length H + (2 + length x)) [] = Inr (sub_subscriptions p, length H + length c)"
    using ts_loop.loop_encoded [OF ok TrueI, of "H @ to_be_bytes16 (sub_packet_id p) @ x" r "[]"]
    by (simp add: c_def y add.assoc)
  show ?thesis
    unfolding Subscribe5_from_bytes_def bs frame_split append_assoc
    by (subst open_h, simp, unfold H_def [symmetric])
       (use v px ne pid lp in \<open>cases p; simp add: c_def parse_packet_id_def
          TwoByteInteger_decode_encode sect.dec_enc validated_packet_def Let_def g\<close>)
qed

lemma Unsubscribe5_from_to_bytes:
  assumes "Unsubscribe5_to_bytes p = Inr bs"
    and "\<forall>q \<in> set (unsub_properties p). prop_utf8 q"
    and "\<forall>f \<in> set (unsub_topic_filters p). utf8_valid f" and "length bs \<le> 268435455"
  shows "Unsubscribe5_from_bytes (bs @ r) = Inr (Packet p (length bs))"
proof -
  obtain x y where v: "Unsubscribe5_validate p = Inr ()" and x: "encode_properities_hdr (unsub_properties p) = Inr x"
    and ne: "unsub_topic_filters p \<noteq> []" and pid: "unsub_packet_id p \<noteq> 0"
    and y: "extend_each encode_utf8_string (unsub_topic_filters p) [] = Inr y"
    and bs: "bs = frame UNSUBSCRIBE 2 (to_be_bytes16 (unsub_packet_id p) @ x @ y)"
    using assms(1) by (auto simp: Unsubscribe5_to_bytes_def packet_to_bytes_Inr id_props_header_def
        Unsubscribe5_payload_def split: if_splits)
  have "length x \<le> 268435455" using assms(4) by (simp add: bs frame_def)
  note px = encode_props_ok [OF x assms(2) this]
  have ok: "\<forall>f \<in> set (unsub_topic_filters p). str_ok f"
    using v assms(3) topic_filter_str_ok
    by (auto simp: Unsubscribe5_validate_def check_each_Inr tryE_eq_Inr)
  have "encode_utf8_string f = Inr b \<longrightarrow> b = Utf8String_encode f" for f b
    by (auto simp: encode_utf8_string_def split: if_splits)
  then have y: "y = concat (map Utf8String_encode (unsub_topic_filters p))"
    using extend_each_Inr [OF y, of Utf8String_encode] by simp
  define c where "c = to_be_bytes16 (unsub_packet_id p) @ x @ y"
  have bs: "bs = frame UNSUBSCRIBE 2 c" by (simp add: bs c_def)
  note open_h = open_packet_header [OF _ assms(4) [unfolded bs]]
  have g: "get_range (a @ b @ r) 0 (length a + length b) e = Inr (a @ b)" for a b r :: bytes and e
    using get_range_0_append [of "a @ b" r e] by simp
  define H where "H = fixed_header_bytes UNSUBSCRIBE 2 (length c)"
  have lp: "filters_loop (H @ c @ r) (length H + length c)
      (length H + (2 + length x)) [] = Inr (unsub_topic_filters p, length H + length c)"
    using filter_loop.loop_encoded [OF ok TrueI, of "H @ to_be_bytes16 (unsub_packet_id p) @ x" r "[]"]
    by (simp add: c_def y add.assoc)
  show ?thesis
    unfolding Unsubscribe5_from_bytes_def bs frame_split append_assoc
    by (subst open_h, simp, unfold H_def [symmetric])
       (use v px ne pid lp in \<open>cases p; simp add: c_def parse_packet_id_def
          TwoByteInteger_decode_encode sect.dec_enc validated_packet_def Let_def g\<close>)
qed

section \<open>Absence of panics\<close>

lemma no_panic_check_each: "(\<And>x. no_panic (f x)) \<Longrightarrow> no_panic (check_each f xs)"
  by (induction xs) (auto intro!: no_panic_tryE)

lemma no_panic_validates [simp]:
  "no_panic (Ack5_validate kind a)" "no_panic (Publish5_validate b)" "no_panic (ConnAck5_validate c)"
  "no_panic (Disconnect5_validate d)" "no_panic (Auth5_validate e)" "no_panic (Subscribe5_validate f)"
  "no_panic (Unsubscribe5_validate g)" "no_panic (SubAck5_validate kind h)"
  by (auto simp: Ack5_validate_def Publish5_validate_def ConnAck5_validate_def Disconnect5_validate_def
      Auth5_validate_def Subscribe5_validate_def Unsubscribe5_validate_def SubAck5_validate_def
      intro!: no_panic_tryE no_panic_check_each)

lemma no_panic_validated_packet: "no_panic (v p) \<Longrightarrow> no_panic (validated_packet v p n)"
  by (auto simp: validated_packet_def intro!: no_panic_tryE)

lemma no_panic_parse_packet_id [simp]: "no_panic (parse_packet_id b)"
  by (simp add: parse_packet_id_def)

lemmas no_panic_packet = no_panic_tryE no_panic_if no_panic_validated_packet no_panic_get_byte
  no_panic_get_from no_panic_get_range

lemma Ack5_no_panic: "no_panic (Ack5_from_bytes kind flags b)"
  unfolding Ack5_from_bytes_def Let_def
  by (rule no_panic_open_packet) (auto split: prod.splits intro!: no_panic_packet)

lemma ConnAck5_no_panic: "no_panic (ConnAck5_from_bytes b)"
  unfolding ConnAck5_from_bytes_def Let_def
  by (rule no_panic_open_packet) (auto split: prod.splits intro!: no_panic_packet)

lemma Disconnect5_no_panic: "no_panic (Disconnect5_from_bytes b)"
  unfolding Disconnect5_from_bytes_def Let_def
  by (rule no_panic_open_packet)
     (auto simp: no_check_def split: prod.splits intro!: no_panic_packet)

lemma Auth5_no_panic: "no_panic (Auth5_from_bytes b)"
  unfolding Auth5_from_bytes_def Let_def
  by (rule no_panic_open_packet)
     (auto simp: no_check_def split: prod.splits intro!: no_panic_packet)

lemma ping5_no_panic: "no_panic (ping5_from_bytes kind b)"
  unfolding ping5_from_bytes_def Let_def
  by (rule no_panic_open_packet)
     (auto simp: no_check_def split: prod.splits intro!: no_panic_packet)

lemma SubAck5_no_panic: "no_panic (SubAck5_from_bytes kind b)"
  unfolding SubAck5_from_bytes_def Let_def
  by (rule no_panic_open_packet) (auto split: prod.splits intro!: no_panic_packet)

lemma parse_props_offset:
  assumes "get_range b i j e = Inr s" and "parse_properties_hdr s = Inr (ps, n)"
  shows "i + n \<le> length b"
  using assms sect.dec_consumes [OF assms(2)] by (auto simp: get_range_Inr)

lemma Subscribe5_no_panic: "no_panic (Subscribe5_from_bytes b)"
  unfolding Subscribe5_from_bytes_def Let_def
  by (rule no_panic_open_packet)
     (auto split: prod.splits intro!: no_panic_packet ts_loop.loop_no_panic dest: parse_props_offset)

lemma Unsubscribe5_no_panic: "no_panic (Unsubscribe5_from_bytes b)"
  unfolding Unsubscribe5_from_bytes_def Let_def
  by (rule no_panic_open_packet)
     (auto split: prod.splits intro!: no_panic_packet filter_loop.loop_no_panic dest: parse_props_offset)

text \<open>
  A buffer that holds exactly one packet, as the stream parser cuts it.
\<close>

definition framed :: "bytes \<Rightarrow> bool" where
  "framed b \<longleftrightarrow> (case VariableByteInteger_decode (tl b) of
      Inr (sz, n) \<Rightarrow> length b = 1 + n + sz | Inl _ \<Rightarrow> False)"

lemma open_packet_framed_no_panic:
  assumes "framed b" and "\<And>byte1. no_panic (pre byte1)"
    and "\<And>sz offset. 2 \<le> offset \<Longrightarrow> length b = offset + sz \<Longrightarrow> no_panic (body sz offset (length b))"
  shows "no_panic (open_packet kind pre b body)"
proof (cases b)
  case (Cons x xs)
  obtain sz n where d: "VariableByteInteger_decode xs = Inr (sz, n)" "length b = 1 + n + sz"
    using assms(1) Cons by (auto simp: framed_def split: sum.splits)
  have "2 \<le> 1 + n" using vbi.dec_consumes [OF d(1)] by simp
  from assms(3) [OF this d(2)] have "no_panic (body sz (1 + n) (1 + n + sz))" by (simp only: d(2))
  then show ?thesis
    using assms(2) d Cons
    by (auto simp: open_packet_def packet_type_def parse_remaining_length_def intro!: no_panic_packet)
qed (simp add: open_packet_def packet_type_def)

lemma Publish5_no_panic:
  assumes "framed b"
  shows "no_panic (Publish5_from_bytes b)"
proof -
  have le: "i + n \<le> length b" if "get_from b i e = Inr s" "parse_properties_hdr s = Inr (ps, n)" for i e s ps n
    using that sect.dec_consumes [OF that(2)] by (auto simp: get_from_Inr)
  show ?thesis
    unfolding Publish5_from_bytes_def Let_def
    by (intro no_panic_tryE no_panic_get_byte open_packet_framed_no_panic [OF assms])
       (auto simp: parse_topic_name_def dest!: le split: prod.splits ParseOk.splits intro!: no_panic_packet)
qed

end
