(* ===== verification/Connect_V5.thy ===== *)
theory Connect_V5
  imports Packets_V5
begin

unbundle bit_operations_syntax

text \<open>
  The MQTT 5 CONNECT packet and its will message, \<open>src/src/mqtt_serde/mqttv5/connect.rs\<close> and
  \<open>will.rs\<close>.
\<close>

section \<open>Will\<close>

record WillProperties =
  wp_will_delay_interval :: "u32 option"
  wp_payload_format_indicator :: "u8 option"
  wp_message_expiry_interval :: "u32 option"
  wp_content_type :: "str option"
  wp_response_topic :: "str option"
  wp_correlation_data :: "bytes option"
  wp_user_properties :: "Property list"

definition WillProperties_new :: WillProperties where
  "WillProperties_new = \<lparr>wp_will_delay_interval = None, wp_payload_format_indicator = None,
     wp_message_expiry_interval = None, wp_content_type = None, wp_response_topic = None,
     wp_correlation_data = None, wp_user_properties = []\<rparr>"

record Will =
  w_will_qos :: u8
  w_will_retain :: bool
  w_will_topic :: str
  w_will_message :: bytes
  w_properties :: WillProperties

text \<open>One iteration of the loop over the decoded properties.\<close>

definition will_property :: "Property \<Rightarrow> WillProperties \<Rightarrow> WillProperties" where
  "will_property property wp = (case property of
      WillDelayInterval v \<Rightarrow> wp\<lparr>wp_will_delay_interval := Some v\<rparr>
    | PayloadFormatIndicator v \<Rightarrow> wp\<lparr>wp_payload_format_indicator := Some v\<rparr>
    | MessageExpiryInterval v \<Rightarrow> wp\<lparr>wp_message_expiry_interval := Some v\<rparr>
    | ContentType v \<Rightarrow> wp\<lparr>wp_content_type := Some v\<rparr>
    | ResponseTopic v \<Rightarrow> wp\<lparr>wp_response_topic := Some v\<rparr>
    | CorrelationData v \<Rightarrow> wp\<lparr>wp_correlation_data := Some v\<rparr>
    | UserProperty k v \<Rightarrow> wp\<lparr>wp_user_properties := wp_user_properties wp @ [UserProperty k v]\<rparr>
    | _ \<Rightarrow> wp)"

definition Will_from_bytes :: "bytes \<Rightarrow> u8 \<Rightarrow> (Will \<times> nat) res" where
  "Will_from_bytes buffer connect_flags =
     tryE (parse_properties_hdr buffer) (\<lambda>(properties, consumed).
     tryE (validation_properties properties Ctx_Will) (\<lambda>_.
     let offset = consumed in
     tryE (slice_from buffer offset) (\<lambda>rest.
     tryE (parse_utf8_string rest) (\<lambda>(will_topic, consumed).
     let offset = offset + consumed in
     tryE (slice_from buffer offset) (\<lambda>rest.
     tryE (parse_binary_data rest) (\<lambda>(will_message, consumed).
     let offset = offset + consumed;
         will_qos = drop_bit 3 connect_flags AND 0x03;
         will_retain = (connect_flags AND 0x20 \<noteq> 0) in
     Inr (\<lparr>w_will_qos = will_qos, w_will_retain = will_retain, w_will_topic = will_topic,
           w_will_message = will_message,
           w_properties = fold will_property properties WillProperties_new\<rparr>, offset)))))))"

section \<open>CONNECT\<close>

record Connect5 =
  con_protocol_name :: str
  con_protocol_version :: u8
  con_keep_alive :: u16
  con_client_id :: str
  con_will :: "Will option"
  con_username :: "str option"
  con_password :: "bytes option"
  con_properties :: "Property list"
  con_clean_start :: bool

definition Connect5_connect_flags :: "Connect5 \<Rightarrow> u8" where
  "Connect5_connect_flags p =
     (let flags = 0;
          flags = (if con_username p \<noteq> None then flags OR 0x80 else flags);
          flags = (if con_password p \<noteq> None then flags OR 0x40 else flags);
          flags = (case con_will p of
                     Some will \<Rightarrow>
                       let flags = flags OR 0x04; flags = flags OR push_bit 3 (w_will_qos will)
                       in if w_will_retain will then flags OR 0x20 else flags
                   | None \<Rightarrow> flags)
      in if con_clean_start p then flags OR 0x02 else flags)"

definition Connect5_validate :: "Connect5 \<Rightarrow> unit res" where
  "Connect5_validate p =
     tryE (validation_string (con_protocol_name p)) (\<lambda>_.
     tryE (validation_string (con_client_id p)) (\<lambda>_.
     tryE (case con_username p of None \<Rightarrow> Inr () | Some u \<Rightarrow> validation_string u) (\<lambda>_.
     tryE (case con_will p of None \<Rightarrow> Inr () | Some w \<Rightarrow>
             tryE (require (w_will_qos w \<le> 2) ''Will QoS cannot exceed 2'') (\<lambda>_.
             validation_topic (w_will_topic w))) (\<lambda>_.
     validation_properties (con_properties p) Ctx_Connect))))"

definition Connect5_variable_header :: "Connect5 \<Rightarrow> bytes res" where
  "Connect5_variable_header p =
     tryE (encode_utf8_string (con_protocol_name p)) (\<lambda>name.
     tryE (encode_properities_hdr (con_properties p)) (\<lambda>props.
     Inr (name @ con_protocol_version p # Connect5_connect_flags p
          # to_be_bytes16 (con_keep_alive p) @ props)))"

definition will_property_list :: "WillProperties \<Rightarrow> Property list" where
  "will_property_list wp =
     (case wp_will_delay_interval wp of None \<Rightarrow> [] | Some v \<Rightarrow> [WillDelayInterval v]) @
     (case wp_payload_format_indicator wp of None \<Rightarrow> [] | Some v \<Rightarrow> [PayloadFormatIndicator v]) @
     (case wp_message_expiry_interval wp of None \<Rightarrow> [] | Some v \<Rightarrow> [MessageExpiryInterval v]) @
     (case wp_content_type wp of None \<Rightarrow> [] | Some v \<Rightarrow> [ContentType v]) @
     (case wp_response_topic wp of None \<Rightarrow> [] | Some v \<Rightarrow> [ResponseTopic v]) @
     (case wp_correlation_data wp of None \<Rightarrow> [] | Some v \<Rightarrow> [CorrelationData v]) @
     wp_user_properties wp"

definition Connect5_will_payload :: "Will \<Rightarrow> bytes res" where
  "Connect5_will_payload w =
     (let will_properties = will_property_list (w_properties w) in
      tryE (validation_properties will_properties Ctx_Will) (\<lambda>_.
      tryE (encode_properities_hdr will_properties) (\<lambda>props.
      tryE (encode_utf8_string (w_will_topic w)) (\<lambda>topic.
      tryE (encode_binary_data (w_will_message w)) (\<lambda>message.
      Inr (props @ topic @ message))))))"

definition Connect5_payload :: "Connect5 \<Rightarrow> bytes res" where
  "Connect5_payload p =
     tryE (encode_utf8_string (con_client_id p)) (\<lambda>client_id.
     tryE (case con_will p of None \<Rightarrow> Inr [] | Some w \<Rightarrow> Connect5_will_payload w) (\<lambda>will.
     tryE (case con_username p of None \<Rightarrow> Inr [] | Some u \<Rightarrow> encode_utf8_string u) (\<lambda>username.
     tryE (case con_password p of None \<Rightarrow> Inr [] | Some w \<Rightarrow> encode_binary_data w) (\<lambda>password.
     Inr (client_id @ will @ username @ password)))))"

definition Connect5_to_bytes :: "Connect5 \<Rightarrow> bytes res" where
  "Connect5_to_bytes p =
     packet_to_bytes CONNECT 0 (Connect5_validate p) (Connect5_variable_header p) (Connect5_payload p)"

text \<open>The flag checks of \<open>from_bytes\<close>.\<close>

definition Connect5_check_flags :: "u8 \<Rightarrow> unit res" where
  "Connect5_check_flags connect_flags =
     (if connect_flags AND 0x01 \<noteq> 0 then Inl (ParseErr ''CONNECT packet reserved flag is not 0'') else
      let will_flag = (connect_flags AND 0x04 \<noteq> 0);
          will_qos = drop_bit 3 connect_flags AND 0x03;
          will_retain = (connect_flags AND 0x20 \<noteq> 0) in
      if \<not> will_flag then
        if will_qos \<noteq> 0 then Inl (ParseErr ''Will QoS must be 0 if Will Flag is 0'')
        else if will_retain then Inl (ParseErr ''Will Retain must be 0 if Will Flag is 0'')
        else Inr ()
      else if will_qos = 3 then Inl (ParseErr ''Will QoS cannot be 3'') else Inr ())"

text \<open>The tail of \<open>from_bytes\<close> from the payload on, at a given offset.\<close>

definition Connect5_read_will :: "bytes \<Rightarrow> nat \<Rightarrow> u8 \<Rightarrow> (Will option \<times> nat) res" where
  "Connect5_read_will buffer offset connect_flags =
     (if connect_flags AND 0x04 \<noteq> 0 then
        tryE (slice_from buffer offset) (\<lambda>rest.
        tryE (Will_from_bytes rest connect_flags) (\<lambda>(will, consumed).
        let offset = offset + consumed in
        if w_will_topic will = [] \<or> w_will_message will = [] then
          Inl (ParseErr ''Will topic or message cannot be empty'')
        else Inr (Some will, offset)))
      else Inr (None, offset))"

definition Connect5_read_username :: "bytes \<Rightarrow> nat \<Rightarrow> u8 \<Rightarrow> (str option \<times> nat) res" where
  "Connect5_read_username buffer offset connect_flags =
     (if connect_flags AND 0x80 \<noteq> 0 then
        tryE (get_from buffer offset BufferTooShort) (\<lambda>rest.
        tryE (parse_utf8_string rest) (\<lambda>(username, consumed).
        let offset = offset + consumed in
        if username = [] then Inl (ParseErr ''Username cannot be empty'')
        else Inr (Some username, offset)))
      else Inr (None, offset))"

definition Connect5_read_password :: "bytes \<Rightarrow> nat \<Rightarrow> u8 \<Rightarrow> (bytes option \<times> nat) res" where
  "Connect5_read_password buffer offset connect_flags =
     (if connect_flags AND 0x40 \<noteq> 0 then
        tryE (get_from buffer offset BufferTooShort) (\<lambda>rest.
        tryE (parse_binary_data rest) (\<lambda>(password, consumed).
        let offset = offset + consumed in
        if password = [] then Inl (ParseErr ''Password cannot be empty'')
        else Inr (Some password, offset)))
      else Inr (None, offset))"

definition Connect5_from_bytes :: "bytes \<Rightarrow> Connect5 ParseOk res" where
  "Connect5_from_bytes buffer =
     open_packet CONNECT validation_fixed_header buffer (\<lambda>size offset total_len.
     tryE (get_from buffer offset BufferTooShort) (\<lambda>rest.
     tryE (parse_utf8_string rest) (\<lambda>(protocol_name, consumed).
     if protocol_name \<noteq> ascii ''MQTT'' then Inl UnSuppProtoVsn else
     let offset = offset + consumed in
     tryE (get_byte buffer offset BufferTooShort) (\<lambda>protocol_version.
     let offset = offset + 1 in
     tryE (get_byte buffer offset BufferTooShort) (\<lambda>connect_flags.
     let offset = offset + 1 in
     tryE (Connect5_check_flags connect_flags) (\<lambda>_.
     tryE (get_range buffer offset (offset + 2) BufferTooShort) (\<lambda>slice.
     let keep_alive = from_be_bytes16 (slice ! 0) (slice ! 1); offset = offset + 2 in
     tryE (get_from buffer offset BufferTooShort) (\<lambda>rest.
     tryE (parse_properties_hdr rest) (\<lambda>(properties, consumed).
     let offset = offset + consumed in
     tryE (get_from buffer offset BufferTooShort) (\<lambda>rest.
     tryE (parse_utf8_string rest) (\<lambda>(client_id, consumed).
     let offset = offset + consumed in
     tryE (Connect5_read_will buffer offset connect_flags) (\<lambda>(will, offset).
     tryE (Connect5_read_username buffer offset connect_flags) (\<lambda>(username, offset).
     tryE (Connect5_read_password buffer offset connect_flags) (\<lambda>(password, offset).
     if offset \<noteq> total_len then Inl (InternalError ''Inconsistent offset'')
     else validated_packet Connect5_validate
       \<lparr>con_protocol_name = protocol_name, con_protocol_version = protocol_version,
        con_keep_alive = keep_alive, con_client_id = client_id, con_will = will,
        con_username = username, con_password = password, con_properties = properties,
        con_clean_start = (connect_flags AND 0x02 \<noteq> 0)\<rparr> offset))))))))))))))"

section \<open>Round trip\<close>

text \<open>
  The side conditions of the round trip beyond the UTF-8 type invariant: the decoder insists on the
  protocol name and refuses an empty user name, password or will message, which the encoder accepts.
\<close>

definition is_user_property :: "Property \<Rightarrow> bool" where
  "is_user_property q = (case q of UserProperty _ _ \<Rightarrow> True | _ \<Rightarrow> False)"

lemma is_user_property_iff: "is_user_property q \<longleftrightarrow> (\<exists>k v. q = UserProperty k v)"
  by (cases q) (simp_all add: is_user_property_def)

definition Will_wf :: "Will \<Rightarrow> bool" where
  "Will_wf w \<longleftrightarrow> utf8_valid (w_will_topic w) \<and> w_will_message w \<noteq> [] \<and>
     (\<forall>q \<in> set (will_property_list (w_properties w)). prop_utf8 q) \<and>
     (\<forall>q \<in> set (wp_user_properties (w_properties w)). is_user_property q)"

definition Connect5_wf :: "Connect5 \<Rightarrow> bool" where
  "Connect5_wf p \<longleftrightarrow> con_protocol_name p = ascii ''MQTT'' \<and> utf8_valid (con_client_id p) \<and>
     (\<forall>q \<in> set (con_properties p). prop_utf8 q) \<and>
     (case con_username p of None \<Rightarrow> True | Some u \<Rightarrow> u \<noteq> [] \<and> utf8_valid u) \<and>
     con_password p \<noteq> Some [] \<and>
     (case con_will p of None \<Rightarrow> True | Some w \<Rightarrow> Will_wf w)"

definition connect_flag_byte :: "bool \<Rightarrow> bool \<Rightarrow> (u8 \<times> bool) option \<Rightarrow> bool \<Rightarrow> u8" where
  "connect_flag_byte u w will clean =
     (let f = 0; f = (if u then f OR 0x80 else f); f = (if w then f OR 0x40 else f);
          f = (case will of None \<Rightarrow> f | Some (q, r) \<Rightarrow>
                 if r then ((f OR 0x04) OR push_bit 3 q) OR 0x20 else (f OR 0x04) OR push_bit 3 q)
      in if clean then f OR 0x02 else f)"

lemma Connect5_connect_flags_eq:
  "Connect5_connect_flags p = connect_flag_byte (con_username p \<noteq> None) (con_password p \<noteq> None)
     (map_option (\<lambda>w. (w_will_qos w, w_will_retain w)) (con_will p)) (con_clean_start p)"
  by (simp only: Connect5_connect_flags_def connect_flag_byte_def Let_def split: option.split) auto

lemma connect_flag_byte_decode:
  assumes "\<forall>q r. will = Some (q, r) \<longrightarrow> q \<le> 2"
  shows "connect_flag_byte u w will clean AND 0x80 \<noteq> 0 \<longleftrightarrow> u"
    and "connect_flag_byte u w will clean AND 0x40 \<noteq> 0 \<longleftrightarrow> w"
    and "connect_flag_byte u w will clean AND 0x02 \<noteq> 0 \<longleftrightarrow> clean"
    and "connect_flag_byte u w will clean AND 0x04 \<noteq> 0 \<longleftrightarrow> will \<noteq> None"
    and "will = Some (q, r) \<Longrightarrow> drop_bit 3 (connect_flag_byte u w will clean) AND 0x03 = q"
    and "will = Some (q, r) \<Longrightarrow> connect_flag_byte u w will clean AND 0x20 \<noteq> 0 \<longleftrightarrow> r"
    and "Connect5_check_flags (connect_flag_byte u w will clean) = Inr ()"
proof -
  consider "will = None" | r where "will = Some (0, r)" | r where "will = Some (1, r)" | r where "will = Some (2, r)"
  proof (cases will)
    case (Some a)
    then obtain q r where "will = Some (q, r)" by (cases a) auto
    with assms that show ?thesis by (auto elim: u8_le_2_cases [of q])
  qed (use that in auto)
  note cs = this
  show "connect_flag_byte u w will clean AND 0x80 \<noteq> 0 \<longleftrightarrow> u"
    "connect_flag_byte u w will clean AND 0x40 \<noteq> 0 \<longleftrightarrow> w"
    "connect_flag_byte u w will clean AND 0x02 \<noteq> 0 \<longleftrightarrow> clean"
    "connect_flag_byte u w will clean AND 0x04 \<noteq> 0 \<longleftrightarrow> will \<noteq> None"
    "will = Some (q, r) \<Longrightarrow> drop_bit 3 (connect_flag_byte u w will clean) AND 0x03 = q"
    "will = Some (q, r) \<Longrightarrow> connect_flag_byte u w will clean AND 0x20 \<noteq> 0 \<longleftrightarrow> r"
    "Connect5_check_flags (connect_flag_byte u w will clean) = Inr ()"
    by (cases rule: cs; cases u; cases w; cases clean;
        simp add: connect_flag_byte_def Connect5_check_flags_def split: if_splits)+
qed

lemma fold_will_user:
  "\<forall>q \<in> set us. \<exists>k v. q = UserProperty k v \<Longrightarrow>
   fold will_property us wp = wp\<lparr>wp_user_properties := wp_user_properties wp @ us\<rparr>"
proof (induction us arbitrary: wp)
  case (Cons q us)
  then show ?case by (auto simp: will_property_def)
qed simp

lemma fold_will_property_list:
  assumes "\<forall>q \<in> set (wp_user_properties wp). \<exists>k v. q = UserProperty k v"
  shows "fold will_property (will_property_list wp) WillProperties_new = wp"
  using assms
  by (cases wp)
     (simp add: will_property_list_def will_property_def WillProperties_new_def fold_will_user
        split: option.splits)

lemma parse_binary_data_encode [simp]:
  "length d \<le> 65535 \<Longrightarrow> parse_binary_data (BinaryData_encode d @ r) = Inr (d, length d + 2)"
  by (simp add: parse_binary_data_def BinaryData_decode_encode)

lemma parse_utf8_string_encode [simp]:
  "str_ok s \<Longrightarrow> parse_utf8_string (Utf8String_encode s @ r) = Inr (s, length s + 2)"
  by (simp add: parse_utf8_string_def Utf8String_decode_encode)

lemma parse_encode_Nil [simp]:
  "length d \<le> 65535 \<Longrightarrow> parse_binary_data (BinaryData_encode d) = Inr (d, length d + 2)"
  "str_ok s \<Longrightarrow> parse_utf8_string (Utf8String_encode s) = Inr (s, length s + 2)"
  using parse_binary_data_encode [of d "[]"] parse_utf8_string_encode [of s "[]"] by simp_all

lemma encode_utf8_string_Inr:
  "encode_utf8_string s = Inr b \<Longrightarrow> utf8_valid s \<Longrightarrow> b = Utf8String_encode s \<and> str_ok s"
  by (auto simp: encode_utf8_string_def str_ok_def validate_mqtt_utf8_string_def split: if_splits)

lemma encode_binary_data_Inr:
  "encode_binary_data s = Inr b \<Longrightarrow> b = BinaryData_encode s \<and> length s \<le> 65535"
  by (auto simp: encode_binary_data_def split: if_splits)

definition opt_wire :: "('a \<Rightarrow> bytes) \<Rightarrow> 'a option \<Rightarrow> bytes" where
  "opt_wire f x = (case x of None \<Rightarrow> [] | Some v \<Rightarrow> f v)"

definition will_wire :: "Will \<Rightarrow> bytes" where
  "will_wire w = props_wire (will_property_list (w_properties w)) @ Utf8String_encode (w_will_topic w) @
     BinaryData_encode (w_will_message w)"

lemma will_payload_Inr:
  assumes "Connect5_will_payload w = Inr b" and "Will_wf w" and "length b \<le> 268435455"
  shows "b = will_wire w" and "props_ok (will_property_list (w_properties w))"
    and "validation_properties (will_property_list (w_properties w)) Ctx_Will = Inr ()"
    and "str_ok (w_will_topic w)" and "length (w_will_message w) \<le> 65535"
proof -
  let ?ps = "will_property_list (w_properties w)"
  from assms(1) obtain x t m where *: "validation_properties ?ps Ctx_Will = Inr ()"
    "encode_properities_hdr ?ps = Inr x" "encode_utf8_string (w_will_topic w) = Inr t"
    "encode_binary_data (w_will_message w) = Inr m" "b = x @ t @ m"
    by (auto simp: Connect5_will_payload_def Let_def)
  have "length x \<le> 268435455" using assms(3) *(5) by simp
  note px = encode_props_ok [OF *(2) _ this]
  show "b = will_wire w" "props_ok ?ps" "validation_properties ?ps Ctx_Will = Inr ()"
    "str_ok (w_will_topic w)" "length (w_will_message w) \<le> 65535"
    using * px assms(2) encode_utf8_string_Inr [OF *(3)] encode_binary_data_Inr [OF *(4)]
    by (auto simp: Will_wf_def will_wire_def)
qed

lemma Connect5_read_will_wire:
  assumes "\<forall>w. will = Some w \<longrightarrow> props_ok (will_property_list (w_properties w)) \<and>
      validation_properties (will_property_list (w_properties w)) Ctx_Will = Inr () \<and>
      str_ok (w_will_topic w) \<and> length (w_will_message w) \<le> 65535 \<and> w_will_topic w \<noteq> [] \<and>
      Will_wf w \<and> drop_bit 3 f AND 0x03 = w_will_qos w \<and> (f AND 0x20 \<noteq> 0 \<longleftrightarrow> w_will_retain w)"
    and "f AND 0x04 \<noteq> 0 \<longleftrightarrow> will \<noteq> None"
  shows "Connect5_read_will (pre @ opt_wire will_wire will @ r) (length pre) f =
    Inr (will, length pre + length (opt_wire will_wire will))"
proof (cases will)
  case None
  then show ?thesis using assms(2) by (simp add: Connect5_read_will_def opt_wire_def)
next
  case (Some w)
  with assms(1) have w: "props_ok (will_property_list (w_properties w))"
    "validation_properties (will_property_list (w_properties w)) Ctx_Will = Inr ()"
    "str_ok (w_will_topic w)" "length (w_will_message w) \<le> 65535" "w_will_topic w \<noteq> []"
    "Will_wf w" "drop_bit 3 f AND 0x03 = w_will_qos w" "f AND 0x20 \<noteq> 0 \<longleftrightarrow> w_will_retain w"
    by simp_all
  have "fold will_property (will_property_list (w_properties w)) WillProperties_new = w_properties w"
    using w(6) by (intro fold_will_property_list) (simp add: Will_wf_def is_user_property_iff)
  then have "Will_from_bytes (will_wire w @ r) f = Inr (w, length (will_wire w))"
    using w by (cases w) (simp add: Will_from_bytes_def will_wire_def sect.dec_enc Let_def)
  then show ?thesis
    using assms(2) Some w by (simp add: Connect5_read_will_def opt_wire_def Will_wf_def)
qed

lemma Connect5_read_username_wire:
  assumes "f AND 0x80 \<noteq> 0 \<longleftrightarrow> u \<noteq> None" and "\<forall>s. u = Some s \<longrightarrow> str_ok s \<and> s \<noteq> []"
  shows "Connect5_read_username (pre @ opt_wire Utf8String_encode u @ r) (length pre) f =
    Inr (u, length pre + length (opt_wire Utf8String_encode u))"
  using assms by (cases u) (simp_all add: Connect5_read_username_def opt_wire_def)

lemma Connect5_read_password_wire:
  assumes "f AND 0x40 \<noteq> 0 \<longleftrightarrow> u \<noteq> None" and "\<forall>s. u = Some s \<longrightarrow> length s \<le> 65535 \<and> s \<noteq> []"
  shows "Connect5_read_password (pre @ opt_wire BinaryData_encode u @ r) (length pre) f =
    Inr (u, length pre + length (opt_wire BinaryData_encode u))"
  using assms by (cases u) (simp_all add: Connect5_read_password_def opt_wire_def)

lemma Connect5_to_bytes_Inr:
  assumes "Connect5_to_bytes p = Inr bs" and "Connect5_wf p" and "length bs \<le> 268435455"
  shows "Connect5_validate p = Inr ()" and "props_ok (con_properties p)" and "str_ok (con_client_id p)"
    and "\<forall>u. con_username p = Some u \<longrightarrow> str_ok u \<and> u \<noteq> []"
    and "\<forall>w. con_password p = Some w \<longrightarrow> length w \<le> 65535 \<and> w \<noteq> []"
    and "\<forall>w. con_will p = Some w \<longrightarrow> props_ok (will_property_list (w_properties w)) \<and>
      validation_properties (will_property_list (w_properties w)) Ctx_Will = Inr () \<and>
      str_ok (w_will_topic w) \<and> length (w_will_message w) \<le> 65535 \<and> w_will_topic w \<noteq> [] \<and>
      Will_wf w \<and> w_will_qos w \<le> 2"
    and "bs = frame CONNECT 0 ((Utf8String_encode (ascii ''MQTT'') @ con_protocol_version p #
       Connect5_connect_flags p # to_be_bytes16 (con_keep_alive p) @ props_wire (con_properties p) @
       Utf8String_encode (con_client_id p)) @ opt_wire will_wire (con_will p) @
       opt_wire Utf8String_encode (con_username p) @ opt_wire BinaryData_encode (con_password p))"
proof -
  obtain n x c w u a where v: "Connect5_validate p = Inr ()"
    and n: "encode_utf8_string (con_protocol_name p) = Inr n"
    and x: "encode_properities_hdr (con_properties p) = Inr x"
    and c: "encode_utf8_string (con_client_id p) = Inr c"
    and w: "(case con_will p of None \<Rightarrow> Inr [] | Some w \<Rightarrow> Connect5_will_payload w) = Inr w"
    and u: "(case con_username p of None \<Rightarrow> Inr [] | Some u \<Rightarrow> encode_utf8_string u) = Inr u"
    and a: "(case con_password p of None \<Rightarrow> Inr [] | Some w \<Rightarrow> encode_binary_data w) = Inr a"
    and bs: "bs = frame CONNECT 0 ((n @ con_protocol_version p # Connect5_connect_flags p #
      to_be_bytes16 (con_keep_alive p) @ x) @ c @ w @ u @ a)"
    using assms(1) by (auto simp: Connect5_to_bytes_def packet_to_bytes_Inr
        Connect5_variable_header_def Connect5_payload_def)
  have l: "length x \<le> 268435455" "length w \<le> 268435455" using assms(3) by (auto simp: bs frame_def)
  have wf: "con_protocol_name p = ascii ''MQTT''" "utf8_valid (con_client_id p)"
    "\<forall>q \<in> set (con_properties p). prop_utf8 q" "con_password p \<noteq> Some []"
    "\<forall>u. con_username p = Some u \<longrightarrow> u \<noteq> [] \<and> utf8_valid u"
    "\<forall>w. con_will p = Some w \<longrightarrow> Will_wf w"
    using assms(2) by (auto simp: Connect5_wf_def)
  have mqtt: "utf8_valid (ascii ''MQTT'')" by (simp add: ascii_def)
  note px = encode_props_ok [OF x wf(3) l(1)]
  note cx = encode_utf8_string_Inr [OF c wf(2)]
  have ux: "u = opt_wire Utf8String_encode (con_username p)"
    and us: "\<forall>u. con_username p = Some u \<longrightarrow> str_ok u \<and> u \<noteq> []"
    using u wf(5) by (auto simp: opt_wire_def dest: encode_utf8_string_Inr split: option.splits)
  have ax: "a = opt_wire BinaryData_encode (con_password p)"
    and as: "\<forall>w. con_password p = Some w \<longrightarrow> length w \<le> 65535 \<and> w \<noteq> []"
    using a wf(4) by (auto simp: opt_wire_def dest: encode_binary_data_Inr split: option.splits)
  have wp: "b = will_wire y \<and> props_ok (will_property_list (w_properties y)) \<and>
      validation_properties (will_property_list (w_properties y)) Ctx_Will = Inr () \<and>
      str_ok (w_will_topic y) \<and> length (w_will_message y) \<le> 65535"
    if "con_will p = Some y" "w = b" for y b
    using will_payload_Inr [of y b] that w wf(6) l(2) by auto
  have vt: "w_will_topic y \<noteq> [] \<and> w_will_qos y \<le> 2" if "con_will p = Some y" for y
    using v that by (auto simp: Connect5_validate_def validation_topic_ok)
  have wx: "w = opt_wire will_wire (con_will p)"
    using w wp by (auto simp: opt_wire_def split: option.splits)
  show "Connect5_validate p = Inr ()" "props_ok (con_properties p)" "str_ok (con_client_id p)"
    "\<forall>u. con_username p = Some u \<longrightarrow> str_ok u \<and> u \<noteq> []"
    "\<forall>w. con_password p = Some w \<longrightarrow> length w \<le> 65535 \<and> w \<noteq> []"
    using v px cx us as by simp_all
  show "\<forall>w. con_will p = Some w \<longrightarrow> props_ok (will_property_list (w_properties w)) \<and>
      validation_properties (will_property_list (w_properties w)) Ctx_Will = Inr () \<and>
      str_ok (w_will_topic w) \<and> length (w_will_message w) \<le> 65535 \<and> w_will_topic w \<noteq> [] \<and>
      Will_wf w \<and> w_will_qos w \<le> 2"
    using wp vt wf(6) by simp
  show "bs = frame CONNECT 0 ((Utf8String_encode (ascii ''MQTT'') @ con_protocol_version p #
       Connect5_connect_flags p # to_be_bytes16 (con_keep_alive p) @ props_wire (con_properties p) @
       Utf8String_encode (con_client_id p)) @ opt_wire will_wire (con_will p) @
       opt_wire Utf8String_encode (con_username p) @ opt_wire BinaryData_encode (con_password p))"
    using encode_utf8_string_Inr [OF n] wf(1) mqtt px cx ux ax wx by (simp add: bs)
qed

lemma str_ok_MQTT [simp]: "str_ok (ascii ''MQTT'')"
  by (simp add: str_ok_def ascii_def)

lemma get_range_16: "get_range (to_be_bytes16 v @ r) 0 2 e = Inr (to_be_bytes16 v)"
  using get_range_0_append [of "to_be_bytes16 v" r e] by simp

lemma from_nth_to_be_bytes16 [simp]:
  "from_be_bytes16 (to_be_bytes16 v ! 0) (to_be_bytes16 v ! Suc 0) = v"
  using nth_to_be_bytes16 [of v] from_to_be_bytes16 [of v] by simp

lemma Connect5_from_to_bytes:
  assumes "Connect5_to_bytes p = Inr bs" and "Connect5_wf p" and "length bs \<le> 268435455"
  shows "Connect5_from_bytes (bs @ r) = Inr (Packet p (length bs))"
proof -
  note b = Connect5_to_bytes_Inr [OF assms]
  let ?f = "Connect5_connect_flags p"
  define A where "A = Utf8String_encode (ascii ''MQTT'') @ con_protocol_version p #
       ?f # to_be_bytes16 (con_keep_alive p) @ props_wire (con_properties p) @
       Utf8String_encode (con_client_id p)"
  define W U P where "W = opt_wire will_wire (con_will p)" and "U = opt_wire Utf8String_encode (con_username p)"
    and "P = opt_wire BinaryData_encode (con_password p)"
  define c where "c = A @ W @ U @ P"
  have bs: "bs = frame CONNECT 0 c" using b(7) by (simp add: c_def A_def W_def U_def P_def)
  note open_h = open_packet_header [OF _ assms(3) [unfolded bs]]
  define H where "H = fixed_header_bytes CONNECT 0 (length c)"
  have f: "?f AND 0x80 \<noteq> 0 \<longleftrightarrow> con_username p \<noteq> None" "?f AND 0x40 \<noteq> 0 \<longleftrightarrow> con_password p \<noteq> None"
    "?f AND 0x02 \<noteq> 0 \<longleftrightarrow> con_clean_start p" "?f AND 0x04 \<noteq> 0 \<longleftrightarrow> con_will p \<noteq> None"
    "Connect5_check_flags ?f = Inr ()"
    "\<And>w. con_will p = Some w \<Longrightarrow> drop_bit 3 ?f AND 0x03 = w_will_qos w \<and> (?f AND 0x20 \<noteq> 0 \<longleftrightarrow> w_will_retain w)"
    unfolding Connect5_connect_flags_eq using b(6) by (subst connect_flag_byte_decode; auto)+
  have B: "H @ c @ r = (H @ A) @ W @ U @ P @ r" "H @ c @ r = (H @ A @ W) @ U @ P @ r"
    "H @ c @ r = (H @ A @ W @ U) @ P @ r" by (simp_all add: c_def)
  have rw: "Connect5_read_will (H @ c @ r) (length (H @ A)) ?f = Inr (con_will p, length (H @ A @ W))"
    unfolding B(1) W_def by (subst Connect5_read_will_wire) (use b(6) f in auto)
  have ru: "Connect5_read_username (H @ c @ r) (length (H @ A @ W)) ?f = Inr (con_username p, length (H @ A @ W @ U))"
    unfolding B(2) U_def by (subst Connect5_read_username_wire) (use b(4) f in auto)
  have rp: "Connect5_read_password (H @ c @ r) (length (H @ A @ W @ U)) ?f = Inr (con_password p, length (H @ c))"
    unfolding B(3) P_def by (subst Connect5_read_password_wire) (use b(5) f in \<open>auto simp: c_def P_def\<close>)
  have p: "\<lparr>con_protocol_name = ascii ''MQTT'', con_protocol_version = con_protocol_version p,
        con_keep_alive = con_keep_alive p, con_client_id = con_client_id p, con_will = con_will p,
        con_username = con_username p, con_password = con_password p, con_properties = con_properties p,
        con_clean_start = con_clean_start p\<rparr> = p"
    using assms(2) by (cases p) (simp add: Connect5_wf_def)
  have lA: "length (H @ A) = 12 + (length H + (length (props_wire (con_properties p)) + length (con_client_id p)))"
    by (simp add: A_def ascii_def)
  have lM: "length (ascii ''MQTT'') = 4" by (simp add: ascii_def)
  show ?thesis
    unfolding Connect5_from_bytes_def bs frame_split append_assoc
    by (subst open_h, simp, unfold H_def [symmetric])
       (use rw [unfolded lA] ru rp b(1-3) f(3,5) p in \<open>simp add: c_def A_def sect.dec_enc validated_packet_def
          Let_def get_range_16 lM\<close>)
qed

section \<open>Absence of panics\<close>

lemma no_panic_parse_binary [simp]: "no_panic (parse_binary_data b)"
  by (simp add: parse_binary_data_def)

lemma Will_no_panic: "no_panic (Will_from_bytes b f)"
proof -
  have 1: "n \<le> length b" if "parse_properties_hdr b = Inr (ps, n)" for ps n
    using sect.dec_consumes [OF that] by simp
  have 2: "i + n \<le> length b" if "slice_from b i = Inr s" "parse_utf8_string s = Inr (x, n)" for i s x n
    using that utf8.dec_consumes [of s x n] by (auto simp: get_from_Inr parse_utf8_string_def)
  show ?thesis
    unfolding Will_from_bytes_def Let_def
    by (auto split: prod.splits intro!: no_panic_packet dest: 1 2)
qed

lemma Connect5_no_panic: "no_panic (Connect5_from_bytes b)"
proof -
  have v: "no_panic (Connect5_validate p)" for p
    by (auto simp: Connect5_validate_def split: option.splits intro!: no_panic_tryE)
  have f: "no_panic (Connect5_check_flags f)" for f
    by (simp add: Connect5_check_flags_def Let_def)
  have o: "i + n \<le> length b" if "get_from b i e = Inr s" "parse_utf8_string s = Inr (x, n)" for i e s x n
    using that utf8.dec_consumes [of s x n] by (auto simp: get_from_Inr parse_utf8_string_def)
  have w: "no_panic (Connect5_read_will b i f)" if "i \<le> length b" for i f
    using that unfolding Connect5_read_will_def Let_def
    by (auto split: prod.splits intro!: no_panic_packet Will_no_panic)
  have u: "no_panic (Connect5_read_username b i f)" "no_panic (Connect5_read_password b i f)" for i f
    unfolding Connect5_read_username_def Connect5_read_password_def Let_def
    by (auto split: prod.splits intro!: no_panic_packet)
  show ?thesis
    unfolding Connect5_from_bytes_def Let_def
    by (rule no_panic_open_packet)
       (auto split: prod.splits intro!: no_panic_packet v f w u dest: o)
qed

end
