(* ===== verification/Packets_V3.thy ===== *)
theory Packets_V3
  imports Connect_V5
begin

unbundle bit_operations_syntax

text \<open>
  The MQTT 3.1.1 packets, \<open>src/src/mqtt_serde/mqttv3/\<close>.  The five acknowledgements that carry only
  a message identifier are instances of one macro and of one group of definitions.
\<close>

section \<open>PUBACK, PUBREC, PUBREL, PUBCOMP, UNSUBACK\<close>

record Ack3 =
  ack3_message_id :: u16

definition Ack3_validate :: "Ack3 \<Rightarrow> unit res" where
  "Ack3_validate p = validation_packet_id (ack3_message_id p)"

definition Ack3_to_bytes :: "ControlPacketType \<Rightarrow> u8 \<Rightarrow> Ack3 \<Rightarrow> bytes res" where
  "Ack3_to_bytes kind flags p =
     packet_to_bytes kind flags (Ack3_validate p) (Inr (to_be_bytes16 (ack3_message_id p))) (Inr [])"

definition Ack3_from_bytes :: "ControlPacketType \<Rightarrow> u8 \<Rightarrow> bytes \<Rightarrow> Ack3 ParseOk res" where
  "Ack3_from_bytes kind flags buffer =
     open_packet kind (flags_check flags ''packet has invalid fixed header flags'') buffer
       (\<lambda>size offset total_len.
     if size \<noteq> 2 then Inl (ParseErr ''packet must have remaining length of 2'') else
     tryE (index_byte buffer offset) (\<lambda>hi.
     tryE (index_byte buffer (offset + 1)) (\<lambda>lo.
     validated_packet Ack3_validate \<lparr>ack3_message_id = from_be_bytes16 hi lo\<rparr> total_len)))"

section \<open>CONNACK\<close>

record ConnAck3 =
  ca3_session_present :: bool
  ca3_return_code :: u8

definition ConnAck3_validate :: "ConnAck3 \<Rightarrow> unit res" where
  "ConnAck3_validate p =
     tryE (require (ca3_return_code p \<le> 5) ''Invalid CONNACK return code'') (\<lambda>_.
     require (\<not> ca3_session_present p \<or> ca3_return_code p = 0)
       ''Failed CONNACK cannot set Session Present'')"

definition ConnAck3_variable_header :: "ConnAck3 \<Rightarrow> bytes res" where
  "ConnAck3_variable_header p =
     (if 5 < ca3_return_code p then Inl (ParseErr ''Invalid CONNACK return code'')
      else Inr [if ca3_session_present p then 1 else 0, ca3_return_code p])"

definition ConnAck3_to_bytes :: "ConnAck3 \<Rightarrow> bytes res" where
  "ConnAck3_to_bytes p =
     packet_to_bytes CONNACK 0 (ConnAck3_validate p) (ConnAck3_variable_header p) (Inr [])"

definition ConnAck3_from_bytes :: "bytes \<Rightarrow> ConnAck3 ParseOk res" where
  "ConnAck3_from_bytes buffer =
     open_packet CONNACK (flags_check 0 ''CONNACK packet has invalid fixed header flags'') buffer
       (\<lambda>size vh_offset total_len.
     if size \<noteq> 2 then Inl (ParseErr ''CONNACK packet must have a remaining length of 2'') else
     tryE (index_byte buffer vh_offset) (\<lambda>session_present_byte.
     if session_present_byte AND 0xFE \<noteq> 0 then
       Inl (ParseErr ''CONNACK session present flags reserved bits must be 0'')
     else
     tryE (index_byte buffer (vh_offset + 1)) (\<lambda>return_code.
     if 5 < return_code then Inl (ParseErr ''Invalid CONNACK return code'')
     else validated_packet ConnAck3_validate
       \<lparr>ca3_session_present = (session_present_byte = 1), ca3_return_code = return_code\<rparr> total_len)))"

section \<open>PUBLISH\<close>

record Publish3 =
  pub3_dup :: bool
  pub3_qos :: u8
  pub3_retain :: bool
  pub3_topic_name :: str
  pub3_message_id :: "u16 option"
  pub3_payload :: bytes

definition Publish3_validate :: "Publish3 \<Rightarrow> unit res" where
  "Publish3_validate p =
     tryE (validation_publish (pub3_qos p) (pub3_dup p) (pub3_message_id p)) (\<lambda>_.
     validation_topic (pub3_topic_name p))"

definition Publish3_flags :: "Publish3 \<Rightarrow> u8" where
  "Publish3_flags p =
     (push_bit 3 (if pub3_dup p then 1 else 0) OR push_bit 1 (pub3_qos p))
     OR (if pub3_retain p then 1 else 0)"

definition Publish3_to_bytes :: "Publish3 \<Rightarrow> bytes res" where
  "Publish3_to_bytes p =
     tryE (Publish3_validate p) (\<lambda>_.
     tryE (if 0 < pub3_qos p then
             (case pub3_message_id p of
                None \<Rightarrow> Inl (ParseErr ''Message ID is required for QoS > 0'')
              | Some i \<Rightarrow> Inr (Some i))
           else Inr None) (\<lambda>packet_id.
     Inr (encode_publish_into (Publish3_flags p) (pub3_topic_name p) packet_id [] (pub3_payload p))))"

definition Publish3_from_bytes :: "bytes \<Rightarrow> Publish3 ParseOk res" where
  "Publish3_from_bytes buffer =
     open_packet PUBLISH (\<lambda>b.
       if 2 < drop_bit 1 ((b AND 0x0F) AND 0x06) then Inl (ParseErr ''Invalid QoS level'') else Inr ())
       buffer (\<lambda>size offset total_len.
     tryE (index_byte buffer 0) (\<lambda>byte1.
     let flags = byte1 AND 0x0F; dup = (0 < flags AND 0x08); qos = drop_bit 1 (flags AND 0x06);
         retain = (0 < flags AND 0x01) in
     tryE (slice_range buffer offset total_len) (\<lambda>rest.
     tryE (parse_utf8_string rest) (\<lambda>(topic_name, consumed).
     let offset = offset + consumed in
     tryE (if 0 < qos then
             if total_len < offset + 2 then Inl (ParseErr ''Missing message ID for QoS > 0'') else
             tryE (index_byte buffer offset) (\<lambda>hi.
             tryE (index_byte buffer (offset + 1)) (\<lambda>lo.
             Inr (Some (from_be_bytes16 hi lo), offset + 2)))
           else Inr (None, offset)) (\<lambda>(message_id, offset).
     tryE (slice_range buffer offset total_len) (\<lambda>payload.
     validated_packet Publish3_validate
       \<lparr>pub3_dup = dup, pub3_qos = qos, pub3_retain = retain, pub3_topic_name = topic_name,
        pub3_message_id = message_id, pub3_payload = payload\<rparr> total_len))))))"

section \<open>SUBACK\<close>

record SubAck3 =
  suback3_message_id :: u16
  suback3_return_codes :: "u8 list"

definition suback3_code_ok :: "u8 \<Rightarrow> bool" where
  "suback3_code_ok code \<longleftrightarrow> code \<in> {0, 1, 2, 0x80}"

definition SubAck3_validate :: "SubAck3 \<Rightarrow> unit res" where
  "SubAck3_validate p =
     tryE (validation_packet_id (suback3_message_id p)) (\<lambda>_.
     tryE (require (suback3_return_codes p \<noteq> []) ''SUBACK must contain a reason code'') (\<lambda>_.
     check_each (\<lambda>code. require (suback3_code_ok code) ''Invalid SUBACK return code'')
       (suback3_return_codes p)))"

definition SubAck3_payload :: "SubAck3 \<Rightarrow> bytes res" where
  "SubAck3_payload p =
     tryE (check_each (\<lambda>code. if \<not> suback3_code_ok code
             then Inl (ParseErr ''Invalid SUBACK return code'') else Inr ()) (suback3_return_codes p)) (\<lambda>_.
     Inr (suback3_return_codes p))"

definition SubAck3_to_bytes :: "SubAck3 \<Rightarrow> bytes res" where
  "SubAck3_to_bytes p =
     packet_to_bytes SUBACK 0 (SubAck3_validate p) (Inr (to_be_bytes16 (suback3_message_id p)))
       (SubAck3_payload p)"

definition SubAck3_from_bytes :: "bytes \<Rightarrow> SubAck3 ParseOk res" where
  "SubAck3_from_bytes buffer =
     open_packet SUBACK (flags_check 0 ''SUBACK packet has invalid fixed header flags'') buffer
       (\<lambda>size offset total_len.
     if size < 2 then Inl (ParseErr ''SUBACK packet must have a 2-byte message identifier'') else
     tryE (index_byte buffer offset) (\<lambda>hi.
     tryE (index_byte buffer (offset + 1)) (\<lambda>lo.
     let message_id = from_be_bytes16 hi lo; offset = offset + 2 in
     tryE (slice_range buffer offset total_len) (\<lambda>return_codes.
     tryE (check_each (\<lambda>code. if \<not> suback3_code_ok code
             then Inl (ParseErr ''Invalid SUBACK return code in payload'') else Inr ()) return_codes) (\<lambda>_.
     validated_packet SubAck3_validate
       \<lparr>suback3_message_id = message_id, suback3_return_codes = return_codes\<rparr> total_len)))))"

section \<open>SUBSCRIBE and UNSUBSCRIBE\<close>

record SubscriptionTopic =
  st_topic_filter :: str
  st_qos :: u8

record Subscribe3 =
  sub3_message_id :: u16
  sub3_subscriptions :: "SubscriptionTopic list"

definition Subscribe3_validate :: "Subscribe3 \<Rightarrow> unit res" where
  "Subscribe3_validate p =
     tryE (validation_packet_id (sub3_message_id p)) (\<lambda>_.
     tryE (require (sub3_subscriptions p \<noteq> []) ''SUBSCRIBE must contain a subscription'') (\<lambda>_.
     check_each (\<lambda>sub. tryE (validate_topic_filter (st_topic_filter sub)) (\<lambda>_.
       require (st_qos sub \<le> 2) ''Subscription QoS cannot exceed 2'')) (sub3_subscriptions p)))"

definition Subscribe3_payload :: "Subscribe3 \<Rightarrow> bytes res" where
  "Subscribe3_payload p =
     extend_each (\<lambda>sub.
       if 2 < st_qos sub then Inl (ParseErr ''Invalid QoS level'')
       else Inr (Utf8String_encode (st_topic_filter sub) @ [st_qos sub])) (sub3_subscriptions p) []"

definition Subscribe3_to_bytes :: "Subscribe3 \<Rightarrow> bytes res" where
  "Subscribe3_to_bytes p =
     packet_to_bytes SUBSCRIBE 0x02 (Subscribe3_validate p)
       (Inr (TwoByteInteger_encode (sub3_message_id p))) (Subscribe3_payload p)"

record Unsubscribe3 =
  unsub3_message_id :: u16
  unsub3_topic_filters :: "str list"

definition Unsubscribe3_validate :: "Unsubscribe3 \<Rightarrow> unit res" where
  "Unsubscribe3_validate p =
     tryE (validation_packet_id (unsub3_message_id p)) (\<lambda>_.
     tryE (require (unsub3_topic_filters p \<noteq> []) ''UNSUBSCRIBE must contain a topic filter'') (\<lambda>_.
     check_each validate_topic_filter (unsub3_topic_filters p)))"

definition Unsubscribe3_to_bytes :: "Unsubscribe3 \<Rightarrow> bytes res" where
  "Unsubscribe3_to_bytes p =
     packet_to_bytes UNSUBSCRIBE 0x02 (Unsubscribe3_validate p)
       (Inr (TwoByteInteger_encode (unsub3_message_id p)))
       (extend_each (\<lambda>topic. Inr (Utf8String_encode topic)) (unsub3_topic_filters p) [])"

text \<open>The decoding loops read within the packet only: the slices end at \<open>payload_end\<close>.\<close>

function subscriptions3_loop ::
  "bytes \<Rightarrow> nat \<Rightarrow> nat \<Rightarrow> SubscriptionTopic list \<Rightarrow> (SubscriptionTopic list \<times> nat) res" where
  "subscriptions3_loop buffer payload_end offset subscriptions =
     (if offset < payload_end then
        tryE (slice_range buffer offset payload_end) (\<lambda>rest.
        tryE (parse_utf8_string rest) (\<lambda>(topic_filter, consumed).
        let offset' = offset + consumed in
        if payload_end \<le> offset' then Inl (ParseErr ''SUBSCRIBE payload is missing QoS byte'') else
        tryE (index_byte buffer offset') (\<lambda>qos.
        if 2 < qos then Inl (ParseErr ''Invalid QoS level in payload'') else
        subscriptions3_loop buffer payload_end (offset' + 1)
          (subscriptions @ [\<lparr>st_topic_filter = topic_filter, st_qos = qos\<rparr>]))))
      else Inr (subscriptions, offset))"
  by pat_completeness auto
termination by (relation "measure (\<lambda>(b, t, i, _). t - i)") auto

function filters3_loop :: "bytes \<Rightarrow> nat \<Rightarrow> nat \<Rightarrow> str list \<Rightarrow> (str list \<times> nat) res" where
  "filters3_loop buffer payload_end offset topic_filters =
     (if offset < payload_end then
        tryE (slice_range buffer offset payload_end) (\<lambda>rest.
        tryE (parse_utf8_string rest) (\<lambda>(topic, consumed).
        filters3_loop buffer payload_end (offset + consumed) (topic_filters @ [topic])))
      else Inr (topic_filters, offset))"
  by pat_completeness auto
termination
  by (relation "measure (\<lambda>(b, t, i, _). t - i)")
     (auto simp: parse_utf8_string_def dest!: utf8.dec_consumes)

declare subscriptions3_loop.simps [simp del] filters3_loop.simps [simp del]

definition Subscribe3_from_bytes :: "bytes \<Rightarrow> Subscribe3 ParseOk res" where
  "Subscribe3_from_bytes buffer =
     open_packet SUBSCRIBE (flags_check 0x02 ''SUBSCRIBE packet has invalid fixed header flags'') buffer
       (\<lambda>size offset total_len.
     if size < 2 then Inl (ParseErr ''SUBSCRIBE packet must have a 2-byte message identifier'') else
     tryE (index_byte buffer offset) (\<lambda>hi.
     tryE (index_byte buffer (offset + 1)) (\<lambda>lo.
     let message_id = from_be_bytes16 hi lo; offset = offset + 2 in
     tryE (subscriptions3_loop buffer total_len offset []) (\<lambda>(subscriptions, offset).
     if offset \<noteq> total_len then Inl (InternalError ''Failed to consume entire SUBSCRIBE packet'')
     else validated_packet Subscribe3_validate
       \<lparr>sub3_message_id = message_id, sub3_subscriptions = subscriptions\<rparr> total_len))))"

definition Unsubscribe3_from_bytes :: "bytes \<Rightarrow> Unsubscribe3 ParseOk res" where
  "Unsubscribe3_from_bytes buffer =
     open_packet UNSUBSCRIBE (flags_check 0x02 ''UNSUBSCRIBE packet has invalid fixed header flags'') buffer
       (\<lambda>size offset total_len.
     if size < 2 then Inl (ParseErr ''UNSUBSCRIBE packet must have a 2-byte message identifier'') else
     tryE (index_byte buffer offset) (\<lambda>hi.
     tryE (index_byte buffer (offset + 1)) (\<lambda>lo.
     let message_id = from_be_bytes16 hi lo; offset = offset + 2 in
     tryE (filters3_loop buffer total_len offset []) (\<lambda>(topic_filters, offset).
     if offset \<noteq> total_len then Inl (InternalError ''Failed to consume entire UNSUBSCRIBE packet'')
     else validated_packet Unsubscribe3_validate
       \<lparr>unsub3_message_id = message_id, unsub3_topic_filters = topic_filters\<rparr> total_len))))"

section \<open>PINGREQ, PINGRESP, DISCONNECT\<close>

definition ping3_from_bytes :: "ControlPacketType \<Rightarrow> bytes \<Rightarrow> unit ParseOk res" where
  "ping3_from_bytes kind buffer =
     tryE (packet_type buffer) (\<lambda>t.
     if t \<noteq> control_packet_type_u8 kind then Inl InvalidPacketType else
     tryE (tryE (index_byte buffer 0) (flags_check 0 ''packet has invalid fixed header flags'')) (\<lambda>_.
     tryE (slice_from buffer 1) (\<lambda>rest.
     if rest = [] then Inr (Continue 1 0) else
     tryE (parse_remaining_length rest) (\<lambda>(size, vbi_len).
     let total_len = 1 + vbi_len + size in
     if length buffer < total_len then Inr (Continue (total_len - length buffer) 0)
     else if size \<noteq> 0 then Inl (ParseErr ''packet must have a remaining length of 0'')
     else Inr (Packet () total_len)))))"

definition Disconnect3_from_bytes :: "bytes \<Rightarrow> unit ParseOk res" where
  "Disconnect3_from_bytes buffer =
     open_packet DISCONNECT (flags_check 0 ''DISCONNECT packet has invalid fixed header flags'') buffer
       (\<lambda>size offset total_len.
     if size \<noteq> 0 then
       Inl (ParseErr ''MQTT v3.1.1 DISCONNECT packet must have remaining length of 0'')
     else Inr (Packet () total_len))"

section \<open>CONNECT\<close>

record Will3 =
  w3_retain :: bool
  w3_qos :: u8
  w3_topic :: str
  w3_message :: bytes

record Connect3 =
  con3_protocol_name :: str
  con3_protocol_version :: u8
  con3_clean_session :: bool
  con3_keep_alive :: u16
  con3_client_id :: str
  con3_will :: "Will3 option"
  con3_username :: "str option"
  con3_password :: "bytes option"

definition Connect3_validate :: "Connect3 \<Rightarrow> unit res" where
  "Connect3_validate p =
     tryE (validation_string (con3_protocol_name p)) (\<lambda>_.
     tryE (validation_string (con3_client_id p)) (\<lambda>_.
     tryE (case con3_username p of None \<Rightarrow> Inr () | Some u \<Rightarrow> validation_string u) (\<lambda>_.
     case con3_will p of None \<Rightarrow> Inr () | Some w \<Rightarrow>
       tryE (require (w3_qos w \<le> 2) ''Will QoS cannot exceed 2'') (\<lambda>_.
       validation_topic (w3_topic w)))))"

definition Connect3_flags :: "Connect3 \<Rightarrow> u8" where
  "Connect3_flags p =
     (let flags = 0;
          flags = (if con3_clean_session p then flags OR 0x02 else flags);
          flags = (case con3_will p of
                     Some will \<Rightarrow>
                       let flags = flags OR 0x04; flags = flags OR push_bit 3 (w3_qos will)
                       in if w3_retain will then flags OR 0x20 else flags
                   | None \<Rightarrow> flags);
          flags = (if con3_username p \<noteq> None then flags OR 0x80 else flags)
      in if con3_password p \<noteq> None then flags OR 0x40 else flags)"

definition Connect3_variable_header :: "Connect3 \<Rightarrow> bytes res" where
  "Connect3_variable_header p =
     Inr (Utf8String_encode (con3_protocol_name p) @ con3_protocol_version p # Connect3_flags p
          # TwoByteInteger_encode (con3_keep_alive p))"

definition Connect3_payload :: "Connect3 \<Rightarrow> bytes res" where
  "Connect3_payload p =
     Inr (Utf8String_encode (con3_client_id p)
       @ (case con3_will p of None \<Rightarrow> [] | Some w \<Rightarrow>
            Utf8String_encode (w3_topic w) @ TwoByteInteger_encode (of_nat (length (w3_message w)))
            @ w3_message w)
       @ (case con3_username p of None \<Rightarrow> [] | Some u \<Rightarrow> Utf8String_encode u)
       @ (case con3_password p of None \<Rightarrow> [] | Some w \<Rightarrow>
            TwoByteInteger_encode (of_nat (length w)) @ w))"

definition Connect3_to_bytes :: "Connect3 \<Rightarrow> bytes res" where
  "Connect3_to_bytes p =
     packet_to_bytes CONNECT 0 (Connect3_validate p) (Connect3_variable_header p) (Connect3_payload p)"

text \<open>The length-prefixed byte arrays of the payload, read in place.\<close>

definition Connect3_read_binary :: "bytes \<Rightarrow> nat \<Rightarrow> (bytes \<times> nat) res" where
  "Connect3_read_binary buffer offset =
     tryE (slice_from buffer offset) (\<lambda>rest.
     tryE (TwoByteInteger_decode rest) (\<lambda>(len, _).
     let offset = offset + 2 in
     if length buffer < offset + unat len then Inl BufferTooShort else
     tryE (slice_range buffer offset (offset + unat len)) (\<lambda>data.
     Inr (data, offset + unat len))))"

definition Connect3_read_will :: "bytes \<Rightarrow> nat \<Rightarrow> u8 \<Rightarrow> (Will3 option \<times> nat) res" where
  "Connect3_read_will buffer offset flags =
     (if 0 < flags AND 0x04 then
        tryE (slice_from buffer offset) (\<lambda>rest.
        tryE (parse_utf8_string rest) (\<lambda>(topic, consumed).
        tryE (Connect3_read_binary buffer (offset + consumed)) (\<lambda>(message, offset).
        Inr (Some \<lparr>w3_retain = (0 < flags AND 0x20), w3_qos = drop_bit 3 (flags AND 0x18),
                   w3_topic = topic, w3_message = message\<rparr>, offset))))
      else Inr (None, offset))"

definition Connect3_read_username :: "bytes \<Rightarrow> nat \<Rightarrow> u8 \<Rightarrow> (str option \<times> nat) res" where
  "Connect3_read_username buffer offset flags =
     (if 0 < flags AND 0x80 then
        tryE (slice_from buffer offset) (\<lambda>rest.
        tryE (parse_utf8_string rest) (\<lambda>(u, consumed). Inr (Some u, offset + consumed)))
      else Inr (None, offset))"

definition Connect3_read_password :: "bytes \<Rightarrow> nat \<Rightarrow> u8 \<Rightarrow> (bytes option \<times> nat) res" where
  "Connect3_read_password buffer offset flags =
     (if 0 < flags AND 0x40 then
        tryE (Connect3_read_binary buffer offset) (\<lambda>(p, offset). Inr (Some p, offset))
      else Inr (None, offset))"

definition Connect3_from_bytes :: "bytes \<Rightarrow> Connect3 ParseOk res" where
  "Connect3_from_bytes buffer =
     open_packet CONNECT validation_fixed_header buffer (\<lambda>size offset total_len.
     tryE (slice_from buffer offset) (\<lambda>rest.
     tryE (parse_utf8_string rest) (\<lambda>(proto_name, consumed).
     let offset = offset + consumed in
     tryE (get_byte buffer offset BufferTooShort) (\<lambda>version.
     let offset = offset + 1 in
     if version \<noteq> 4 \<and> version \<noteq> 3 then Inl (ParseErr ''Invalid protocol version'') else
     if \<not> (proto_name = ascii ''MQTT'' \<and> version = 4 \<or> proto_name = ascii ''MQIsdp'' \<and> version = 3)
     then Inl (ParseErr ''Invalid protocol name'') else
     tryE (get_byte buffer offset BufferTooShort) (\<lambda>flags.
     tryE (validation_connect_flags flags) (\<lambda>_.
     let offset = offset + 1 in
     if flags AND 0x01 \<noteq> 0 then Inl (ParseErr ''CONNECT reserved flag bit is not 0'') else
     if 0 < flags AND 0x40 \<and> \<not> 0 < flags AND 0x80 then
       Inl (ParseErr ''Password flag requires username flag'') else
     tryE (slice_from buffer offset) (\<lambda>rest.
     tryE (TwoByteInteger_decode rest) (\<lambda>(keep_alive, _).
     let offset = offset + 2 in
     tryE (slice_from buffer offset) (\<lambda>rest.
     tryE (parse_utf8_string rest) (\<lambda>(client_id, consumed).
     let offset = offset + consumed in
     tryE (Connect3_read_will buffer offset flags) (\<lambda>(will, offset).
     tryE (Connect3_read_username buffer offset flags) (\<lambda>(username, offset).
     tryE (Connect3_read_password buffer offset flags) (\<lambda>(password, offset).
     if offset \<noteq> total_len then Inl (InternalError ''Failed to consume entire CONNECT packet'')
     else validated_packet Connect3_validate
       \<lparr>con3_protocol_name = proto_name, con3_protocol_version = version,
        con3_clean_session = (0 < flags AND 0x02), con3_keep_alive = keep_alive,
        con3_client_id = client_id, con3_will = will, con3_username = username,
        con3_password = password\<rparr> total_len)))))))))))))"

section \<open>Round trips\<close>

lemma get_range_2: "get_range (x # y # xs) 2 (Suc (Suc n)) e = get_range xs 0 n e"
  by (simp add: get_range_def)

lemma be16_hi_lo:
  obtains hi lo where "to_be_bytes16 v = [hi, lo]" and "from_be_bytes16 hi lo = v"
  using that [OF _ from_to_be_bytes16] by (simp add: to_be_bytes16_def)

lemma Ack3_from_to_bytes:
  assumes "Ack3_to_bytes kind flags p = Inr bs" and "flags < 16"
  shows "Ack3_from_bytes kind flags (bs @ r) = Inr (Packet p (length bs))"
proof -
  define c where "c = to_be_bytes16 (ack3_message_id p)"
  have v: "Ack3_validate p = Inr ()" and bs: "bs = frame kind flags c"
    using assms(1) by (auto simp: Ack3_to_bytes_def packet_to_bytes_Inr c_def)
  have "length (frame kind flags c) \<le> 268435455"
    using length_fixed_header_le [of c kind flags] by (simp add: frame_def c_def)
  note open_h = open_packet_header [OF _ this]
  obtain hi lo where hl: "to_be_bytes16 (ack3_message_id p) = [hi, lo]"
    "from_be_bytes16 hi lo = ack3_message_id p"
    by (rule be16_hi_lo)
  show ?thesis
    unfolding Ack3_from_bytes_def bs frame_split append_assoc
    by (subst open_h) (use v assms(2) hl in \<open>cases p; simp add: c_def validated_packet_def\<close>)+
qed

lemma ConnAck3_from_to_bytes:
  assumes "ConnAck3_to_bytes p = Inr bs"
  shows "ConnAck3_from_bytes (bs @ r) = Inr (Packet p (length bs))"
proof -
  define c where "c = [if ca3_session_present p then 1 else 0, ca3_return_code p]"
  have v: "ConnAck3_validate p = Inr ()" and bs: "bs = frame CONNACK 0 c" and le: "\<not> 5 < ca3_return_code p"
    using assms(1) by (auto simp: ConnAck3_to_bytes_def packet_to_bytes_Inr ConnAck3_variable_header_def c_def split: if_splits)
  have "length (frame CONNACK 0 c) \<le> 268435455"
    using length_fixed_header_le [of c CONNACK 0] by (simp add: frame_def c_def)
  note open_h = open_packet_header [OF _ this]
  have sp: "(if b then 1 else 0 :: u8) AND 0xFE = 0" "(if b then 1 else 0 :: u8) = 1 \<longleftrightarrow> b" for b
    by simp_all
  have p: "\<lparr>ca3_session_present = ca3_session_present p, ca3_return_code = ca3_return_code p\<rparr> = p"
    by simp
  show ?thesis
    unfolding ConnAck3_from_bytes_def bs frame_split append_assoc
    by (subst open_h)
       (use v le in \<open>simp_all add: c_def validated_packet_def sp p split del: if_split\<close>)
qed


lemma Publish3_flags_byte:
  assumes "pub3_qos p \<le> 2"
  shows "Publish3_flags p < 16"
    and "(0 < (first_byte PUBLISH (Publish3_flags p) AND 0x0F) AND 0x08) \<longleftrightarrow> pub3_dup p"
    and "drop_bit 1 ((first_byte PUBLISH (Publish3_flags p) AND 0x0F) AND 0x06) = pub3_qos p"
    and "(0 < (first_byte PUBLISH (Publish3_flags p) AND 0x0F) AND 0x01) \<longleftrightarrow> pub3_retain p"
  by (rule u8_le_2_cases [OF assms]; cases "pub3_dup p"; cases "pub3_retain p";
      simp add: Publish3_flags_def first_byte_def)+

definition Publish3_wf :: "Publish3 \<Rightarrow> bool" where
  "Publish3_wf p \<longleftrightarrow> utf8_valid (pub3_topic_name p) \<and> (pub3_qos p = 0 \<longrightarrow> pub3_message_id p = None)"

lemma Publish3_from_to_bytes:
  assumes "Publish3_to_bytes p = Inr bs" and "Publish3_wf p" and "length bs \<le> 268435455"
  shows "Publish3_from_bytes (bs @ r) = Inr (Packet p (length bs))"
proof -
  let ?id = "pub3_message_id p"
  have v: "Publish3_validate p = Inr ()" using assms(1) by (auto simp: Publish3_to_bytes_def)
  have q: "pub3_qos p \<le> 2" "pub3_qos p = 0 \<or> (\<exists>i. ?id = Some i)"
    and t: "str_ok (pub3_topic_name p)"
    using v assms(2)
    by (auto simp: Publish3_validate_def validation_publish_Inr validation_topic_ok Publish3_wf_def
        validation_string_def validate_mqtt_utf8_string_def str_ok_def split: if_splits)
  have q0: "pub3_qos p = 0 \<Longrightarrow> ?id = None" using assms(2) by (simp add: Publish3_wf_def)
  define c where "c = BinaryData_encode (pub3_topic_name p) @ publish_id_bytes ?id @ [] @ pub3_payload p"
  have "Publish3_to_bytes p = Inr (frame PUBLISH (Publish3_flags p) c)"
    using v q q0 unfolding c_def encode_publish_header_frame [symmetric]
    by (auto simp: Publish3_to_bytes_def encode_publish_into_def word_gt_0 split: option.splits)
  then have bs: "bs = frame PUBLISH (Publish3_flags p) c" using assms(1) by simp
  note f = Publish3_flags_byte [OF q(1)]
  note open_h = open_packet_header [OF f(1) assms(3) [unfolded bs]]
  have fb: "get_byte (fixed_header_bytes PUBLISH (Publish3_flags p) n @ y) 0 e =
      Inr (first_byte PUBLISH (Publish3_flags p))" for n y e
    by (simp add: fixed_header_bytes_def first_byte_def)
  have g: "get_range (H @ c @ r) (length H) (length H + length c) e = Inr c" for H e by simp
  have p: "\<lparr>pub3_dup = pub3_dup p, pub3_qos = q, pub3_retain = pub3_retain p,
      pub3_topic_name = pub3_topic_name p, pub3_message_id = m, pub3_payload = pub3_payload p\<rparr> = p"
    if "pub3_qos p = q" "?id = m" for q m
    using that by (cases p) simp
  note u = parse_utf8_string_encode [unfolded Utf8String_encode_def]
  show ?thesis
  proof (cases "pub3_qos p = 0")
    case True
    then show ?thesis
      unfolding Publish3_from_bytes_def bs frame_split append_assoc open_h fb tryE_Inr Let_def f g
      using v t q0 q
      by (simp add: p c_def publish_id_bytes_def u validated_packet_def Let_def)
  next
    case False
    then obtain i where i: "?id = Some i" using q by auto
    obtain hi lo where hl: "to_be_bytes16 i = [hi, lo]" "from_be_bytes16 hi lo = i" by (rule be16_hi_lo)
    show ?thesis
      unfolding Publish3_from_bytes_def bs frame_split append_assoc open_h fb tryE_Inr Let_def f g
      using v t q False i hl
      by (simp add: p c_def publish_id_bytes_def u validated_packet_def Let_def word_gt_0 not_less get_range_2)
  qed
qed

lemma SubAck3_from_to_bytes:
  assumes "SubAck3_to_bytes p = Inr bs" and "length bs \<le> 268435455"
  shows "SubAck3_from_bytes (bs @ r) = Inr (Packet p (length bs))"
proof -
  define c where "c = to_be_bytes16 (suback3_message_id p) @ suback3_return_codes p"
  have v: "SubAck3_validate p = Inr ()" and bs: "bs = frame SUBACK 0 c"
    using assms(1) by (auto simp: SubAck3_to_bytes_def packet_to_bytes_Inr SubAck3_payload_def c_def)
  have ck: "check_each (\<lambda>code. if \<not> suback3_code_ok code then Inl e else Inr ()) (suback3_return_codes p) = Inr ()" for e
    using v by (auto simp: SubAck3_validate_def check_each_Inr)
  note open_h = open_packet_header [OF _ assms(2) [unfolded bs]]
  obtain hi lo where hl: "to_be_bytes16 (suback3_message_id p) = [hi, lo]"
    "from_be_bytes16 hi lo = suback3_message_id p" by (rule be16_hi_lo)
  have p: "\<lparr>suback3_message_id = suback3_message_id p, suback3_return_codes = suback3_return_codes p\<rparr> = p"
    by simp
  show ?thesis
    unfolding SubAck3_from_bytes_def bs frame_split append_assoc
    by (subst open_h, simp)
       (use v ck hl in \<open>simp add: c_def validated_packet_def Let_def p get_range_2\<close>)
qed

lemma slice_range_append:
  "j \<le> length b \<Longrightarrow> get_range (b @ r) i j e = get_range b i j e"
  by (auto simp: get_range_def)

lemma filters3_loop_append:
  "stop \<le> length b \<Longrightarrow> filters3_loop (b @ r) stop off acc = filters3_loop b stop off acc"
proof (induction b stop off acc rule: filters3_loop.induct)
  case (1 b stop off acc)
  show ?case
    by (subst (1 2) filters3_loop.simps)
       (use 1 in \<open>auto simp: slice_range_append intro!: tryE_cong split: prod.splits\<close>)
qed

lemma subscriptions3_loop_append:
  "stop \<le> length b \<Longrightarrow> subscriptions3_loop (b @ r) stop off acc = subscriptions3_loop b stop off acc"
proof (induction b stop off acc rule: subscriptions3_loop.induct)
  case (1 b stop off acc)
  show ?case
    by (subst (1 2) subscriptions3_loop.simps)
       (use 1 in \<open>auto simp: slice_range_append Let_def intro!: tryE_cong split: prod.splits\<close>)
qed

interpretation filter3_loop: element_loop Utf8String_decode Utf8String_encode str_ok
  filters3_loop "\<lambda>b stop. stop = length b"
  by unfold_locales (subst filters3_loop.simps; simp add: get_range_def parse_utf8_string_def)+

text \<open>One round of the SUBSCRIBE loop, as a codec.\<close>

definition st_decode :: "bytes \<Rightarrow> (SubscriptionTopic \<times> nat) res" where
  "st_decode b = tryE (parse_utf8_string b) (\<lambda>(f, n).
     if length b \<le> n then Inl (ParseErr ''SUBSCRIBE payload is missing QoS byte'')
     else if 2 < b ! n then Inl (ParseErr ''Invalid QoS level in payload'')
     else Inr (\<lparr>st_topic_filter = f, st_qos = b ! n\<rparr>, n + 1))"

definition st_wire :: "SubscriptionTopic \<Rightarrow> bytes" where
  "st_wire s = Utf8String_encode (st_topic_filter s) @ [st_qos s]"

definition st_ok :: "SubscriptionTopic \<Rightarrow> bool" where
  "st_ok s \<longleftrightarrow> str_ok (st_topic_filter s) \<and> st_qos s \<le> 2"

interpretation st_loop: element_loop st_decode st_wire st_ok
  subscriptions3_loop "\<lambda>b stop. stop = length b"
proof unfold_locales
  show "st_wire s \<noteq> []" for s by (simp add: st_wire_def)
  show "st_decode (st_wire s @ r) = Inr (s, length (st_wire s))" if "st_ok s" for s r
    using that by (cases s) (simp add: st_decode_def st_wire_def st_ok_def not_less nth_append)
  show "st_ok s \<and> n = length (st_wire s) \<and> take n b = st_wire s" if "st_decode b = Inr (s, n)" for b s n
  proof -
    from that obtain f m where f: "Utf8String_decode b = Inr (f, m)" "m < length b" "\<not> 2 < b ! m"
      "s = \<lparr>st_topic_filter = f, st_qos = b ! m\<rparr>" "n = m + 1"
      by (auto simp: st_decode_def parse_utf8_string_def not_le split: if_splits)
    note u = utf8.dec_canonical [OF f(1)]
    have "take n b = take m b @ [b ! m]" using f(2,5) by (simp add: take_Suc_conv_app_nth)
    moreover have "st_wire s = Utf8String_encode f @ [b ! m]" by (simp add: st_wire_def f(4))
    ultimately have "take n b = st_wire s" using u by metis
    then show ?thesis using u f by (auto simp: st_wire_def st_ok_def not_less)
  qed
  show "no_panic (st_decode b)" for b
    by (auto simp: st_decode_def intro!: no_panic_tryE)
  fix b :: bytes and stop off :: nat and acc :: "SubscriptionTopic list"
  assume s: "stop = length b"
  show "subscriptions3_loop b stop off acc = Inr (acc, off)" if "stop \<le> off"
    using s that by (subst subscriptions3_loop.simps) simp
  assume o: "off < stop" "off \<le> length b"
  show "subscriptions3_loop b stop off acc = subscriptions3_loop b stop (off + n) (acc @ [x])"
    if "st_decode (drop off b) = Inr (x, n)" for x n
    using s o that
    by (subst subscriptions3_loop.simps)
       (auto simp: get_range_def get_byte_def st_decode_def Let_def add.assoc split: if_splits)
  show "subscriptions3_loop b stop off acc = Inl e"
    if "st_decode (drop off b) = Inl e" for e
    using s o that
    by (subst subscriptions3_loop.simps, cases "parse_utf8_string (drop off b)")
       (auto simp: get_range_def get_byte_def st_decode_def Let_def split: if_splits)
qed

lemma Subscribe3_from_to_bytes:
  assumes "Subscribe3_to_bytes p = Inr bs"
    and "\<forall>s \<in> set (sub3_subscriptions p). utf8_valid (st_topic_filter s)" and "length bs \<le> 268435455"
  shows "Subscribe3_from_bytes (bs @ r) = Inr (Packet p (length bs))"
proof -
  obtain y where v: "Subscribe3_validate p = Inr ()" and y: "Subscribe3_payload p = Inr y"
    and bs: "bs = frame SUBSCRIBE 2 (to_be_bytes16 (sub3_message_id p) @ y)"
    using assms(1) by (auto simp: Subscribe3_to_bytes_def packet_to_bytes_Inr TwoByteInteger_encode_def)
  have ok: "\<forall>s \<in> set (sub3_subscriptions p). st_ok s"
    using v assms(2) topic_filter_str_ok
    by (auto simp: Subscribe3_validate_def check_each_Inr tryE_eq_Inr st_ok_def)
  have y: "y = concat (map st_wire (sub3_subscriptions p))"
    using extend_each_Inr [OF y [unfolded Subscribe3_payload_def], of st_wire] by (simp add: st_wire_def)
  obtain hi lo where hl: "to_be_bytes16 (sub3_message_id p) = [hi, lo]"
    "from_be_bytes16 hi lo = sub3_message_id p" by (rule be16_hi_lo)
  define c where "c = hi # lo # y"
  have bs: "bs = frame SUBSCRIBE 2 c" by (simp add: bs c_def hl)
  note open_h = open_packet_header [OF _ assms(3) [unfolded bs]]
  define H where "H = fixed_header_bytes SUBSCRIBE 2 (length c)"
  have lp: "subscriptions3_loop (H @ c @ r) (length H + length c) (length H + 2) [] =
      Inr (sub3_subscriptions p, length H + length c)"
    using st_loop.loop_encoded [OF ok, of "H @ [hi, lo]" "[]" "[]"]
      subscriptions3_loop_append [of "length (H @ c)" "H @ c" r]
    by (simp add: c_def y)
  have p: "\<lparr>sub3_message_id = sub3_message_id p, sub3_subscriptions = sub3_subscriptions p\<rparr> = p" by simp
  show ?thesis
    unfolding Subscribe3_from_bytes_def bs frame_split append_assoc
    by (subst open_h, simp, unfold H_def [symmetric])
       (use v lp hl in \<open>simp add: c_def validated_packet_def Let_def p\<close>)
qed

lemma Unsubscribe3_from_to_bytes:
  assumes "Unsubscribe3_to_bytes p = Inr bs"
    and "\<forall>f \<in> set (unsub3_topic_filters p). utf8_valid f" and "length bs \<le> 268435455"
  shows "Unsubscribe3_from_bytes (bs @ r) = Inr (Packet p (length bs))"
proof -
  obtain y where v: "Unsubscribe3_validate p = Inr ()"
    and y: "extend_each (\<lambda>topic. Inr (Utf8String_encode topic)) (unsub3_topic_filters p) [] = Inr y"
    and bs: "bs = frame UNSUBSCRIBE 2 (to_be_bytes16 (unsub3_message_id p) @ y)"
    using assms(1) by (auto simp: Unsubscribe3_to_bytes_def packet_to_bytes_Inr TwoByteInteger_encode_def)
  have ok: "\<forall>f \<in> set (unsub3_topic_filters p). str_ok f"
    using v assms(2) topic_filter_str_ok
    by (auto simp: Unsubscribe3_validate_def check_each_Inr)
  have y: "y = concat (map Utf8String_encode (unsub3_topic_filters p))"
    using extend_each_Inr [OF y, of Utf8String_encode] by simp
  obtain hi lo where hl: "to_be_bytes16 (unsub3_message_id p) = [hi, lo]"
    "from_be_bytes16 hi lo = unsub3_message_id p" by (rule be16_hi_lo)
  define c where "c = hi # lo # y"
  have bs: "bs = frame UNSUBSCRIBE 2 c" by (simp add: bs c_def hl)
  note open_h = open_packet_header [OF _ assms(3) [unfolded bs]]
  define H where "H = fixed_header_bytes UNSUBSCRIBE 2 (length c)"
  have lp: "filters3_loop (H @ c @ r) (length H + length c) (length H + 2) [] =
      Inr (unsub3_topic_filters p, length H + length c)"
    using filter3_loop.loop_encoded [OF ok, of "H @ [hi, lo]" "[]" "[]"]
      filters3_loop_append [of "length (H @ c)" "H @ c" r]
    by (simp add: c_def y)
  have p: "\<lparr>unsub3_message_id = unsub3_message_id p, unsub3_topic_filters = unsub3_topic_filters p\<rparr> = p" by simp
  show ?thesis
    unfolding Unsubscribe3_from_bytes_def bs frame_split append_assoc
    by (subst open_h, simp, unfold H_def [symmetric])
       (use v lp hl in \<open>simp add: c_def validated_packet_def Let_def p\<close>)
qed

lemma ping3_from_to_bytes:
  assumes "ping_to_bytes kind = Inr bs"
  shows "ping3_from_bytes kind (bs @ r) = Inr (Packet () (length bs))"
proof -
  have "unat (0 :: u32) < 128" by simp
  then have z: "VariableByteInteger_encode 0 = [0]" using vbi_encode_small [of 0] by (simp add: as_u8_def)
  have bs: "bs = first_byte kind 0 # [0]"
    using assms by (simp add: ping_to_bytes_def packet_to_bytes_Inr frame_def fixed_header_bytes_def z first_byte_def)
  show ?thesis
    by (simp add: bs ping3_from_bytes_def packet_type_def first_byte_type parse_remaining_length_def
        vbi_decode_single)
qed

lemma Disconnect3_from_to_bytes:
  assumes "ping_to_bytes DISCONNECT = Inr bs"
  shows "Disconnect3_from_bytes (bs @ r) = Inr (Packet () (length bs))"
proof -
  have bs: "bs = frame DISCONNECT 0 []" using assms by (simp add: ping_to_bytes_def packet_to_bytes_Inr)
  have "length (frame DISCONNECT 0 []) \<le> 268435455"
    using length_fixed_header_le [of "[]" DISCONNECT 0] by (simp add: frame_def)
  note open_h = open_packet_header [OF _ this]
  show ?thesis
    unfolding Disconnect3_from_bytes_def bs frame_split append_assoc
    by (subst open_h) simp_all
qed

section \<open>CONNECT: round trip\<close>

text \<open>
  The side conditions: what the decoder demands of the protocol name and level, a password only
  with a user name, and byte arrays that fit their two-byte length, which the encoder does not check.
\<close>

definition Connect3_wf :: "Connect3 \<Rightarrow> bool" where
  "Connect3_wf p \<longleftrightarrow>
     (con3_protocol_name p = ascii ''MQTT'' \<and> con3_protocol_version p = 4 \<or>
      con3_protocol_name p = ascii ''MQIsdp'' \<and> con3_protocol_version p = 3) \<and>
     utf8_valid (con3_client_id p) \<and>
     (case con3_username p of None \<Rightarrow> con3_password p = None | Some u \<Rightarrow> utf8_valid u) \<and>
     (case con3_password p of None \<Rightarrow> True | Some w \<Rightarrow> length w \<le> 65535) \<and>
     (case con3_will p of None \<Rightarrow> True | Some w \<Rightarrow> utf8_valid (w3_topic w) \<and> length (w3_message w) \<le> 65535)"

definition connect3_flag_byte :: "bool \<Rightarrow> bool \<Rightarrow> (u8 \<times> bool) option \<Rightarrow> bool \<Rightarrow> u8" where
  "connect3_flag_byte u w will clean =
     (let f = 0; f = (if clean then f OR 0x02 else f);
          f = (case will of None \<Rightarrow> f | Some (q, r) \<Rightarrow>
                 if r then ((f OR 0x04) OR push_bit 3 q) OR 0x20 else (f OR 0x04) OR push_bit 3 q);
          f = (if u then f OR 0x80 else f)
      in if w then f OR 0x40 else f)"

lemma Connect3_flags_eq:
  "Connect3_flags p = connect3_flag_byte (con3_username p \<noteq> None) (con3_password p \<noteq> None)
     (map_option (\<lambda>w. (w3_qos w, w3_retain w)) (con3_will p)) (con3_clean_session p)"
  by (simp only: Connect3_flags_def connect3_flag_byte_def Let_def split: option.split) auto

lemma connect3_flag_byte_eq:
  assumes "\<forall>q r. will = Some (q, r) \<longrightarrow> q \<le> 2"
  shows "connect3_flag_byte u w will clean = connect_flag_byte u w will clean"
    and "validation_connect_flags (connect3_flag_byte u w will clean) = Inr ()"
    and "connect3_flag_byte u w will clean AND 1 = 0"
proof -
  consider "will = None" | r where "will = Some (0, r)" | r where "will = Some (1, r)" | r where "will = Some (2, r)"
  proof (cases will)
    case (Some a)
    then obtain q r where "will = Some (q, r)" by (cases a) auto
    with assms that show ?thesis by (auto elim: u8_le_2_cases [of q])
  qed (use that in auto)
  note cs = this
  show "connect3_flag_byte u w will clean = connect_flag_byte u w will clean"
    "validation_connect_flags (connect3_flag_byte u w will clean) = Inr ()"
    "connect3_flag_byte u w will clean AND 1 = 0"
    by (cases rule: cs; cases u; cases w; cases clean;
        simp add: connect_flag_byte_def connect3_flag_byte_def validation_connect_flags_def split: if_splits)+
qed

definition bin_wire :: "bytes \<Rightarrow> bytes" where
  "bin_wire d = TwoByteInteger_encode (of_nat (length d)) @ d"

lemma bin_wire_eq: "bin_wire d = BinaryData_encode d"
  by (simp add: bin_wire_def BinaryData_encode_def TwoByteInteger_encode_def)

lemma Connect3_read_binary_wire:
  assumes "length d \<le> 65535"
  shows "Connect3_read_binary (pre @ bin_wire d @ r) (length pre) = Inr (d, length pre + length (bin_wire d))"
proof -
  have u: "unat (of_nat (length d) :: u16) = length d" using assms by simp
  show ?thesis
    by (simp add: Connect3_read_binary_def bin_wire_def TwoByteInteger_encode_def
        TwoByteInteger_decode_encode u del: unat_of_nat_u16 of_nat_unat)
qed

definition will3_wire :: "Will3 \<Rightarrow> bytes" where
  "will3_wire w = Utf8String_encode (w3_topic w) @ bin_wire (w3_message w)"

lemma Connect3_read_will_wire:
  assumes "\<forall>w. will = Some w \<longrightarrow> str_ok (w3_topic w) \<and> length (w3_message w) \<le> 65535 \<and>
      drop_bit 3 f AND 0x03 = w3_qos w \<and> (f AND 0x20 \<noteq> 0 \<longleftrightarrow> w3_retain w)"
    and "f AND 0x04 \<noteq> 0 \<longleftrightarrow> will \<noteq> None"
  shows "Connect3_read_will (pre @ opt_wire will3_wire will @ r) (length pre) f =
    Inr (will, length pre + length (opt_wire will3_wire will))"
proof (cases will)
  case None
  then show ?thesis using assms(2) by (simp add: Connect3_read_will_def opt_wire_def word_gt_0)
next
  case (Some w)
  have q: "drop_bit 3 (f AND 0x18) = drop_bit 3 f AND 0x03" by (simp add: drop_bit_and)
  have b: "Connect3_read_binary ((pre @ Utf8String_encode (w3_topic w)) @ bin_wire (w3_message w) @ r)
      (length (pre @ Utf8String_encode (w3_topic w))) =
      Inr (w3_message w, length (pre @ Utf8String_encode (w3_topic w)) + length (bin_wire (w3_message w)))"
    using assms(1) Some by (intro Connect3_read_binary_wire) simp
  have w: "\<lparr>w3_retain = w3_retain w, w3_qos = w3_qos w, w3_topic = w3_topic w, w3_message = w3_message w\<rparr> = w"
    by simp
  show ?thesis
    unfolding Connect3_read_will_def q
    using assms Some b by (simp add: opt_wire_def will3_wire_def word_gt_0 w)
qed

lemma Connect3_read_username_wire:
  assumes "f AND 0x80 \<noteq> 0 \<longleftrightarrow> u \<noteq> None" and "\<forall>s. u = Some s \<longrightarrow> str_ok s"
  shows "Connect3_read_username (pre @ opt_wire Utf8String_encode u @ r) (length pre) f =
    Inr (u, length pre + length (opt_wire Utf8String_encode u))"
  using assms by (cases u) (simp_all add: Connect3_read_username_def opt_wire_def word_gt_0)

lemma Connect3_read_password_wire:
  assumes "f AND 0x40 \<noteq> 0 \<longleftrightarrow> u \<noteq> None" and "\<forall>s. u = Some s \<longrightarrow> length s \<le> 65535"
  shows "Connect3_read_password (pre @ opt_wire bin_wire u @ r) (length pre) f =
    Inr (u, length pre + length (opt_wire bin_wire u))"
  using assms Connect3_read_binary_wire
  by (cases u) (simp_all add: Connect3_read_password_def opt_wire_def word_gt_0)

lemma Connect3_from_to_bytes:
  assumes "Connect3_to_bytes p = Inr bs" and "Connect3_wf p" and "length bs \<le> 268435455"
  shows "Connect3_from_bytes (bs @ r) = Inr (Packet p (length bs))"
proof -
  let ?f = "Connect3_flags p"
  define A where "A = Utf8String_encode (con3_protocol_name p) @ con3_protocol_version p #
       ?f # to_be_bytes16 (con3_keep_alive p) @ Utf8String_encode (con3_client_id p)"
  define W U P where "W = opt_wire will3_wire (con3_will p)" and "U = opt_wire Utf8String_encode (con3_username p)"
    and "P = opt_wire bin_wire (con3_password p)"
  define c where "c = A @ W @ U @ P"
  have v: "Connect3_validate p = Inr ()" and bs: "bs = frame CONNECT 0 c"
    using assms(1)
    by (auto simp: Connect3_to_bytes_def packet_to_bytes_Inr Connect3_variable_header_def
        Connect3_payload_def c_def A_def W_def U_def P_def opt_wire_def will3_wire_def bin_wire_def
        TwoByteInteger_encode_def split: option.splits)
  have v': "validation_string (con3_client_id p) = Inr ()"
    "\<And>u. con3_username p = Some u \<Longrightarrow> validation_string u = Inr ()"
    "\<And>w. con3_will p = Some w \<Longrightarrow> validation_string (w3_topic w) = Inr () \<and> w3_qos w \<le> 2"
    using v by (auto simp: Connect3_validate_def validation_topic_ok)
  have wf0: "utf8_valid (con3_client_id p)"
    "\<And>u. con3_username p = Some u \<Longrightarrow> utf8_valid u"
    "\<And>w. con3_will p = Some w \<Longrightarrow> utf8_valid (w3_topic w) \<and> length (w3_message w) \<le> 65535"
    "\<And>w. con3_password p = Some w \<Longrightarrow> length w \<le> 65535 \<and> con3_username p \<noteq> None"
    using assms(2) by (simp_all add: Connect3_wf_def split: option.splits)
  note so = validation_string_ok [THEN iffD1, OF conjI]
  have wf: "con3_protocol_name p = ascii ''MQTT'' \<and> con3_protocol_version p = 4 \<or>
      con3_protocol_name p = ascii ''MQIsdp'' \<and> con3_protocol_version p = 3"
    "str_ok (con3_client_id p)" "\<forall>s. con3_username p = Some s \<longrightarrow> str_ok s"
    "\<forall>s. con3_password p = Some s \<longrightarrow> length s \<le> 65535 \<and> con3_username p \<noteq> None"
    "\<forall>w. con3_will p = Some w \<longrightarrow> str_ok (w3_topic w) \<and> length (w3_message w) \<le> 65535 \<and> w3_qos w \<le> 2"
    using assms(2) v' wf0 so by (simp_all add: Connect3_wf_def)
  have nm: "str_ok (con3_protocol_name p)" using wf(1) by (auto simp: str_ok_def ascii_def)
  have wq: "\<forall>q r. map_option (\<lambda>w. (w3_qos w, w3_retain w)) (con3_will p) = Some (q, r) \<longrightarrow> q \<le> 2"
    using wf(5) by auto
  note ff = connect3_flag_byte_eq [OF wq]
  have f: "?f AND 0x80 \<noteq> 0 \<longleftrightarrow> con3_username p \<noteq> None" "?f AND 0x40 \<noteq> 0 \<longleftrightarrow> con3_password p \<noteq> None"
    "?f AND 0x02 \<noteq> 0 \<longleftrightarrow> con3_clean_session p" "?f AND 0x04 \<noteq> 0 \<longleftrightarrow> con3_will p \<noteq> None"
    "\<And>w. con3_will p = Some w \<Longrightarrow> drop_bit 3 ?f AND 0x03 = w3_qos w \<and> (?f AND 0x20 \<noteq> 0 \<longleftrightarrow> w3_retain w)"
    unfolding Connect3_flags_eq ff(1) using wf(5) by (subst connect_flag_byte_decode; auto)+
  have f': "validation_connect_flags ?f = Inr ()" "?f AND 1 = 0"
    unfolding Connect3_flags_eq using ff(2,3) by simp_all
  note open_h = open_packet_header [OF _ assms(3) [unfolded bs]]
  define H where "H = fixed_header_bytes CONNECT 0 (length c)"
  have B: "H @ c @ r = (H @ A) @ W @ U @ P @ r" "H @ c @ r = (H @ A @ W) @ U @ P @ r"
    "H @ c @ r = (H @ A @ W @ U) @ P @ r" by (simp_all add: c_def)
  have rw: "Connect3_read_will (H @ c @ r) (length (H @ A)) ?f = Inr (con3_will p, length (H @ A @ W))"
    unfolding B(1) W_def by (subst Connect3_read_will_wire) (use wf(5) f in auto)
  have ru: "Connect3_read_username (H @ c @ r) (length (H @ A @ W)) ?f = Inr (con3_username p, length (H @ A @ W @ U))"
    unfolding B(2) U_def by (subst Connect3_read_username_wire) (use wf(3) f in auto)
  have rp: "Connect3_read_password (H @ c @ r) (length (H @ A @ W @ U)) ?f = Inr (con3_password p, length (H @ c))"
    unfolding B(3) P_def by (subst Connect3_read_password_wire) (use wf(4) f in \<open>auto simp: c_def P_def\<close>)
  have p: "\<lparr>con3_protocol_name = con3_protocol_name p, con3_protocol_version = con3_protocol_version p,
      con3_clean_session = con3_clean_session p, con3_keep_alive = con3_keep_alive p,
      con3_client_id = con3_client_id p, con3_will = con3_will p,
      con3_username = con3_username p, con3_password = con3_password p\<rparr> = p" by simp
  have pw: "(0 < ?f AND 0x40 \<and> \<not> 0 < ?f AND 0x80) \<longleftrightarrow> False" "0 < ?f AND 0x02 \<longleftrightarrow> con3_clean_session p"
    using f wf(4) by (auto simp: word_gt_0)
  have ver: "(con3_protocol_version p \<noteq> 4 \<and> con3_protocol_version p \<noteq> 3) \<longleftrightarrow> False"
    "(con3_protocol_name p = ascii ''MQTT'' \<and> con3_protocol_version p = 4 \<or>
      con3_protocol_name p = ascii ''MQIsdp'' \<and> con3_protocol_version p = 3) \<longleftrightarrow> True"
    using wf(1) by auto
  show ?thesis
    unfolding Connect3_from_bytes_def bs frame_split append_assoc
    by (subst open_h, simp, unfold H_def [symmetric])
       (use rw ru rp v wf(2) nm f' in \<open>simp add: c_def A_def validated_packet_def Let_def
          TwoByteInteger_decode_encode p pw ver add.assoc\<close>)
qed

section \<open>Absence of panics\<close>

lemma no_panic_validates3 [simp]:
  "no_panic (Ack3_validate a)" "no_panic (Publish3_validate b)" "no_panic (ConnAck3_validate c)"
  "no_panic (Subscribe3_validate f)" "no_panic (Unsubscribe3_validate g)" "no_panic (SubAck3_validate h)"
  "no_panic (Connect3_validate p)"
  by (auto simp: Ack3_validate_def Publish3_validate_def ConnAck3_validate_def Subscribe3_validate_def
      Unsubscribe3_validate_def SubAck3_validate_def Connect3_validate_def
      split: option.splits intro!: no_panic_tryE no_panic_check_each)

lemma Ack3_no_panic: "no_panic (Ack3_from_bytes kind flags b)"
  unfolding Ack3_from_bytes_def Let_def
  by (rule no_panic_open_packet) (auto split: prod.splits intro!: no_panic_packet)

lemma ConnAck3_no_panic: "no_panic (ConnAck3_from_bytes b)"
  unfolding ConnAck3_from_bytes_def Let_def
  by (rule no_panic_open_packet) (auto split: prod.splits intro!: no_panic_packet)

lemma parse_utf8_range:
  assumes "get_range b i j e = Inr s" and "parse_utf8_string s = Inr (x, n)"
  shows "i + n \<le> j \<and> j \<le> length b"
  using assms utf8.dec_consumes [of s x n] by (auto simp: get_range_Inr parse_utf8_string_def)

lemma Publish3_no_panic: "no_panic (Publish3_from_bytes b)"
  unfolding Publish3_from_bytes_def Let_def
  by (rule no_panic_open_packet)
     (auto split: prod.splits if_split_asm dest!: parse_utf8_range intro!: no_panic_packet)

lemma SubAck3_no_panic: "no_panic (SubAck3_from_bytes b)"
  unfolding SubAck3_from_bytes_def Let_def
  by (rule no_panic_open_packet)
     (auto split: prod.splits intro!: no_panic_packet no_panic_check_each)

lemma filters3_loop_no_panic:
  "stop \<le> length b \<Longrightarrow> off \<le> stop \<Longrightarrow> no_panic (filters3_loop b stop off acc)"
  using filters3_loop_append [of stop "take stop b" "drop stop b" off acc]
    filter3_loop.loop_no_panic [where b = "take stop b" and stop = stop and off = off and acc = acc]
  by simp

lemma subscriptions3_loop_no_panic:
  "stop \<le> length b \<Longrightarrow> off \<le> stop \<Longrightarrow> no_panic (subscriptions3_loop b stop off acc)"
  using subscriptions3_loop_append [of stop "take stop b" "drop stop b" off acc]
    st_loop.loop_no_panic [where b = "take stop b" and stop = stop and off = off and acc = acc]
  by simp

lemma Subscribe3_no_panic: "no_panic (Subscribe3_from_bytes b)"
  unfolding Subscribe3_from_bytes_def Let_def
  by (rule no_panic_open_packet)
     (auto split: prod.splits intro!: no_panic_packet subscriptions3_loop_no_panic)

lemma Unsubscribe3_no_panic: "no_panic (Unsubscribe3_from_bytes b)"
  unfolding Unsubscribe3_from_bytes_def Let_def
  by (rule no_panic_open_packet)
     (auto split: prod.splits intro!: no_panic_packet filters3_loop_no_panic)

lemma ping3_no_panic: "no_panic (ping3_from_bytes kind b)"
  unfolding ping3_from_bytes_def Let_def parse_remaining_length_def
  by (cases b) (auto simp: packet_type_def split: prod.splits intro!: no_panic_packet)

lemma Disconnect3_no_panic: "no_panic (Disconnect3_from_bytes b)"
  unfolding Disconnect3_from_bytes_def
  by (rule no_panic_open_packet) (auto intro!: no_panic_packet)

lemma Connect3_no_panic: "no_panic (Connect3_from_bytes b)"
proof -
  have o: "i + n \<le> length b" if "get_from b i e = Inr s" "parse_utf8_string s = Inr (x, n)" for i e s x n
    using that utf8.dec_consumes [of s x n] by (auto simp: get_from_Inr parse_utf8_string_def)
  have o2: "i + 2 \<le> length b" if "get_from b i e = Inr s" "TwoByteInteger_decode s = Inr (x, n)" for i e s x n
    using that TwoByteInteger_decode_Inr [of s x n] by (auto simp: get_from_Inr)
  have bn: "no_panic (Connect3_read_binary b i)" if "i \<le> length b" for i
    using that unfolding Connect3_read_binary_def Let_def
    by (auto split: prod.splits intro!: no_panic_packet)
  have bo: "j \<le> length b" if "Connect3_read_binary b i = Inr (x, j)" for i x j
    using that by (auto simp: Connect3_read_binary_def Let_def split: if_splits)
  have w: "no_panic (Connect3_read_will b i f)" if "i \<le> length b" for i f
    using that unfolding Connect3_read_will_def Let_def
    by (auto split: prod.splits intro!: no_panic_packet bn dest: o)
  have wo: "j \<le> length b" if "Connect3_read_will b i f = Inr (x, j)" "i \<le> length b" for i f x j
    using that by (auto simp: Connect3_read_will_def dest: bo split: if_splits)
  have u: "no_panic (Connect3_read_username b i f)" if "i \<le> length b" for i f
    using that unfolding Connect3_read_username_def
    by (auto split: prod.splits intro!: no_panic_packet)
  have uo: "j \<le> length b" if "Connect3_read_username b i f = Inr (x, j)" "i \<le> length b" for i f x j
    using that by (auto simp: Connect3_read_username_def dest: o split: if_splits)
  have p: "no_panic (Connect3_read_password b i f)" if "i \<le> length b" for i f
    using that unfolding Connect3_read_password_def
    by (auto split: prod.splits intro!: no_panic_packet bn)
  show ?thesis
    unfolding Connect3_from_bytes_def Let_def
    by (rule no_panic_open_packet)
       (auto split: prod.splits intro!: no_panic_packet w u p dest: o o2 wo uo simp: get_byte_Inr)
qed

end
