(* ===== verification/Control_Packet.thy ===== *)
theory Control_Packet
  imports Packets_V3
begin

text \<open>
  The enum \<open>MqttPacket\<close> and its methods, \<open>src/src/mqtt_serde/control_packet.rs\<close>: dispatch to the
  codec of each packet, and the two decoders selected by the protocol version.
\<close>

section \<open>The packet enum\<close>

datatype MqttPacket =
    P_Connect5 Connect5
  | P_ConnAck5 ConnAck5
  | P_Publish5 Publish5
  | P_PubAck5 Ack5
  | P_PubRec5 Ack5
  | P_PubRel5 Ack5
  | P_PubComp5 Ack5
  | P_Subscribe5 Subscribe5
  | P_SubAck5 SubAck5
  | P_Unsubscribe5 Unsubscribe5
  | P_UnsubAck5 SubAck5
  | P_PingReq5
  | P_PingResp5
  | P_Disconnect5 Disconnect5
  | P_Auth Auth5
  | P_Connect3 Connect3
  | P_ConnAck3 ConnAck3
  | P_Publish3 Publish3
  | P_PubAck3 Ack3
  | P_PubRec3 Ack3
  | P_PubRel3 Ack3
  | P_PubComp3 Ack3
  | P_Subscribe3 Subscribe3
  | P_SubAck3 SubAck3
  | P_Unsubscribe3 Unsubscribe3
  | P_UnsubAck3 Ack3
  | P_PingReq3
  | P_PingResp3
  | P_Disconnect3

fun MqttPacket_packet_type :: "MqttPacket \<Rightarrow> ControlPacketType" where
    "MqttPacket_packet_type (P_Connect5 _) = CONNECT"
  | "MqttPacket_packet_type (P_ConnAck5 _) = CONNACK"
  | "MqttPacket_packet_type (P_Publish5 _) = PUBLISH"
  | "MqttPacket_packet_type (P_PubAck5 _) = PUBACK"
  | "MqttPacket_packet_type (P_PubRec5 _) = PUBREC"
  | "MqttPacket_packet_type (P_PubRel5 _) = PUBREL"
  | "MqttPacket_packet_type (P_PubComp5 _) = PUBCOMP"
  | "MqttPacket_packet_type (P_Subscribe5 _) = SUBSCRIBE"
  | "MqttPacket_packet_type (P_SubAck5 _) = SUBACK"
  | "MqttPacket_packet_type (P_Unsubscribe5 _) = UNSUBSCRIBE"
  | "MqttPacket_packet_type (P_UnsubAck5 _) = UNSUBACK"
  | "MqttPacket_packet_type (P_PingReq5) = PINGREQ"
  | "MqttPacket_packet_type (P_PingResp5) = PINGRESP"
  | "MqttPacket_packet_type (P_Disconnect5 _) = DISCONNECT"
  | "MqttPacket_packet_type (P_Auth _) = AUTH"
  | "MqttPacket_packet_type (P_Connect3 _) = CONNECT"
  | "MqttPacket_packet_type (P_ConnAck3 _) = CONNACK"
  | "MqttPacket_packet_type (P_Publish3 _) = PUBLISH"
  | "MqttPacket_packet_type (P_PubAck3 _) = PUBACK"
  | "MqttPacket_packet_type (P_PubRec3 _) = PUBREC"
  | "MqttPacket_packet_type (P_PubRel3 _) = PUBREL"
  | "MqttPacket_packet_type (P_PubComp3 _) = PUBCOMP"
  | "MqttPacket_packet_type (P_Subscribe3 _) = SUBSCRIBE"
  | "MqttPacket_packet_type (P_SubAck3 _) = SUBACK"
  | "MqttPacket_packet_type (P_Unsubscribe3 _) = UNSUBSCRIBE"
  | "MqttPacket_packet_type (P_UnsubAck3 _) = UNSUBACK"
  | "MqttPacket_packet_type (P_PingReq3) = PINGREQ"
  | "MqttPacket_packet_type (P_PingResp3) = PINGRESP"
  | "MqttPacket_packet_type (P_Disconnect3) = DISCONNECT"

fun MqttPacket_validate :: "MqttPacket \<Rightarrow> unit res" where
    "MqttPacket_validate (P_Connect5 p) = Connect5_validate p"
  | "MqttPacket_validate (P_ConnAck5 p) = ConnAck5_validate p"
  | "MqttPacket_validate (P_Publish5 p) = Publish5_validate p"
  | "MqttPacket_validate (P_PubAck5 p) = Ack5_validate PUBACK p"
  | "MqttPacket_validate (P_PubRec5 p) = Ack5_validate PUBREC p"
  | "MqttPacket_validate (P_PubRel5 p) = Ack5_validate PUBREL p"
  | "MqttPacket_validate (P_PubComp5 p) = Ack5_validate PUBCOMP p"
  | "MqttPacket_validate (P_Subscribe5 p) = Subscribe5_validate p"
  | "MqttPacket_validate (P_SubAck5 p) = SubAck5_validate SUBACK p"
  | "MqttPacket_validate (P_Unsubscribe5 p) = Unsubscribe5_validate p"
  | "MqttPacket_validate (P_UnsubAck5 p) = SubAck5_validate UNSUBACK p"
  | "MqttPacket_validate (P_PingReq5) = Inr ()"
  | "MqttPacket_validate (P_PingResp5) = Inr ()"
  | "MqttPacket_validate (P_Disconnect5 p) = Disconnect5_validate p"
  | "MqttPacket_validate (P_Auth p) = Auth5_validate p"
  | "MqttPacket_validate (P_Connect3 p) = Connect3_validate p"
  | "MqttPacket_validate (P_ConnAck3 p) = ConnAck3_validate p"
  | "MqttPacket_validate (P_Publish3 p) = Publish3_validate p"
  | "MqttPacket_validate (P_PubAck3 p) = Ack3_validate p"
  | "MqttPacket_validate (P_PubRec3 p) = Ack3_validate p"
  | "MqttPacket_validate (P_PubRel3 p) = Ack3_validate p"
  | "MqttPacket_validate (P_PubComp3 p) = Ack3_validate p"
  | "MqttPacket_validate (P_Subscribe3 p) = Subscribe3_validate p"
  | "MqttPacket_validate (P_SubAck3 p) = SubAck3_validate p"
  | "MqttPacket_validate (P_Unsubscribe3 p) = Unsubscribe3_validate p"
  | "MqttPacket_validate (P_UnsubAck3 p) = Ack3_validate p"
  | "MqttPacket_validate (P_PingReq3) = Inr ()"
  | "MqttPacket_validate (P_PingResp3) = Inr ()"
  | "MqttPacket_validate (P_Disconnect3) = Inr ()"

fun MqttPacket_to_bytes :: "MqttPacket \<Rightarrow> bytes res" where
    "MqttPacket_to_bytes (P_Connect5 p) = Connect5_to_bytes p"
  | "MqttPacket_to_bytes (P_ConnAck5 p) = ConnAck5_to_bytes p"
  | "MqttPacket_to_bytes (P_Publish5 p) = Publish5_to_bytes p"
  | "MqttPacket_to_bytes (P_PubAck5 p) = Ack5_to_bytes PUBACK 0 p"
  | "MqttPacket_to_bytes (P_PubRec5 p) = Ack5_to_bytes PUBREC 0 p"
  | "MqttPacket_to_bytes (P_PubRel5 p) = Ack5_to_bytes PUBREL 2 p"
  | "MqttPacket_to_bytes (P_PubComp5 p) = Ack5_to_bytes PUBCOMP 0 p"
  | "MqttPacket_to_bytes (P_Subscribe5 p) = Subscribe5_to_bytes p"
  | "MqttPacket_to_bytes (P_SubAck5 p) = SubAck5_to_bytes SUBACK p"
  | "MqttPacket_to_bytes (P_Unsubscribe5 p) = Unsubscribe5_to_bytes p"
  | "MqttPacket_to_bytes (P_UnsubAck5 p) = SubAck5_to_bytes UNSUBACK p"
  | "MqttPacket_to_bytes (P_PingReq5) = ping_to_bytes PINGREQ"
  | "MqttPacket_to_bytes (P_PingResp5) = ping_to_bytes PINGRESP"
  | "MqttPacket_to_bytes (P_Disconnect5 p) = Disconnect5_to_bytes p"
  | "MqttPacket_to_bytes (P_Auth p) = Auth5_to_bytes p"
  | "MqttPacket_to_bytes (P_Connect3 p) = Connect3_to_bytes p"
  | "MqttPacket_to_bytes (P_ConnAck3 p) = ConnAck3_to_bytes p"
  | "MqttPacket_to_bytes (P_Publish3 p) = Publish3_to_bytes p"
  | "MqttPacket_to_bytes (P_PubAck3 p) = Ack3_to_bytes PUBACK 0 p"
  | "MqttPacket_to_bytes (P_PubRec3 p) = Ack3_to_bytes PUBREC 0 p"
  | "MqttPacket_to_bytes (P_PubRel3 p) = Ack3_to_bytes PUBREL 2 p"
  | "MqttPacket_to_bytes (P_PubComp3 p) = Ack3_to_bytes PUBCOMP 0 p"
  | "MqttPacket_to_bytes (P_Subscribe3 p) = Subscribe3_to_bytes p"
  | "MqttPacket_to_bytes (P_SubAck3 p) = SubAck3_to_bytes p"
  | "MqttPacket_to_bytes (P_Unsubscribe3 p) = Unsubscribe3_to_bytes p"
  | "MqttPacket_to_bytes (P_UnsubAck3 p) = Ack3_to_bytes UNSUBACK 0 p"
  | "MqttPacket_to_bytes (P_PingReq3) = ping_to_bytes PINGREQ"
  | "MqttPacket_to_bytes (P_PingResp3) = ping_to_bytes PINGRESP"
  | "MqttPacket_to_bytes (P_Disconnect3) = ping_to_bytes DISCONNECT"

definition set_dup :: "bool \<Rightarrow> MqttPacket \<Rightarrow> MqttPacket" where
  "set_dup dup packet = (case packet of
     P_Publish5 p \<Rightarrow> P_Publish5 (p\<lparr>pub_dup := dup\<rparr>)
   | P_Publish3 p \<Rightarrow> P_Publish3 (p\<lparr>pub3_dup := dup\<rparr>)
   | _ \<Rightarrow> packet)"

text \<open>The typed result of a packet decoder as a result over the enum.\<close>

definition into_packet :: "('p \<Rightarrow> MqttPacket) \<Rightarrow> 'p ParseOk res \<Rightarrow> MqttPacket ParseOk res" where
  "into_packet C r = tryE r (\<lambda>ok. Inr (case ok of
      Continue hint consumed \<Rightarrow> Continue hint consumed
    | Packet p consumed \<Rightarrow> Packet (C p) consumed
    | TopicName name consumed \<Rightarrow> TopicName name consumed))"

definition from_bytes_v5 :: "bytes \<Rightarrow> MqttPacket ParseOk res" where
  "from_bytes_v5 buffer =
     tryE (packet_type buffer) (\<lambda>packet_type_byte.
     tryE (ControlPacketType_try_from packet_type_byte) (\<lambda>packet_type.
     case packet_type of
       CONNECT \<Rightarrow> into_packet P_Connect5 (Connect5_from_bytes buffer)
     | CONNACK \<Rightarrow> into_packet P_ConnAck5 (ConnAck5_from_bytes buffer)
     | PUBLISH \<Rightarrow> into_packet P_Publish5 (Publish5_from_bytes buffer)
     | PUBACK \<Rightarrow> into_packet P_PubAck5 (Ack5_from_bytes PUBACK 0 buffer)
     | PUBREC \<Rightarrow> into_packet P_PubRec5 (Ack5_from_bytes PUBREC 0 buffer)
     | PUBREL \<Rightarrow> into_packet P_PubRel5 (Ack5_from_bytes PUBREL 2 buffer)
     | PUBCOMP \<Rightarrow> into_packet P_PubComp5 (Ack5_from_bytes PUBCOMP 0 buffer)
     | SUBSCRIBE \<Rightarrow> into_packet P_Subscribe5 (Subscribe5_from_bytes buffer)
     | SUBACK \<Rightarrow> into_packet P_SubAck5 (SubAck5_from_bytes SUBACK buffer)
     | UNSUBSCRIBE \<Rightarrow> into_packet P_Unsubscribe5 (Unsubscribe5_from_bytes buffer)
     | UNSUBACK \<Rightarrow> into_packet P_UnsubAck5 (SubAck5_from_bytes UNSUBACK buffer)
     | PINGREQ \<Rightarrow> into_packet (\<lambda>_. P_PingReq5) (ping5_from_bytes PINGREQ buffer)
     | PINGRESP \<Rightarrow> into_packet (\<lambda>_. P_PingResp5) (ping5_from_bytes PINGRESP buffer)
     | DISCONNECT \<Rightarrow> into_packet P_Disconnect5 (Disconnect5_from_bytes buffer)
     | AUTH \<Rightarrow> into_packet P_Auth (Auth5_from_bytes buffer)))"

definition from_bytes_v3 :: "bytes \<Rightarrow> MqttPacket ParseOk res" where
  "from_bytes_v3 buffer =
     tryE (packet_type buffer) (\<lambda>packet_type_byte.
     tryE (ControlPacketType_try_from packet_type_byte) (\<lambda>packet_type.
     case packet_type of
       CONNECT \<Rightarrow> into_packet P_Connect3 (Connect3_from_bytes buffer)
     | CONNACK \<Rightarrow> into_packet P_ConnAck3 (ConnAck3_from_bytes buffer)
     | PUBLISH \<Rightarrow> into_packet P_Publish3 (Publish3_from_bytes buffer)
     | PUBACK \<Rightarrow> into_packet P_PubAck3 (Ack3_from_bytes PUBACK 0 buffer)
     | PUBREC \<Rightarrow> into_packet P_PubRec3 (Ack3_from_bytes PUBREC 0 buffer)
     | PUBREL \<Rightarrow> into_packet P_PubRel3 (Ack3_from_bytes PUBREL 2 buffer)
     | PUBCOMP \<Rightarrow> into_packet P_PubComp3 (Ack3_from_bytes PUBCOMP 0 buffer)
     | SUBSCRIBE \<Rightarrow> into_packet P_Subscribe3 (Subscribe3_from_bytes buffer)
     | SUBACK \<Rightarrow> into_packet P_SubAck3 (SubAck3_from_bytes buffer)
     | UNSUBSCRIBE \<Rightarrow> into_packet P_Unsubscribe3 (Unsubscribe3_from_bytes buffer)
     | UNSUBACK \<Rightarrow> into_packet P_UnsubAck3 (Ack3_from_bytes UNSUBACK 0 buffer)
     | PINGREQ \<Rightarrow> into_packet (\<lambda>_. P_PingReq3) (ping3_from_bytes PINGREQ buffer)
     | PINGRESP \<Rightarrow> into_packet (\<lambda>_. P_PingResp3) (ping3_from_bytes PINGRESP buffer)
     | DISCONNECT \<Rightarrow> into_packet (\<lambda>_. P_Disconnect3) (Disconnect3_from_bytes buffer)
     | _ \<Rightarrow> Inl InvalidPacketType))"

definition from_bytes_with_version :: "bytes \<Rightarrow> u8 \<Rightarrow> MqttPacket ParseOk res" where
  "from_bytes_with_version buffer mqtt_version =
     (if mqtt_version = 3 \<or> mqtt_version = 4 then from_bytes_v3 buffer
      else if mqtt_version = 5 then from_bytes_v5 buffer
      else Inl InvalidPacketType)"

section \<open>Well-formed packets\<close>

text \<open>
  The type invariant of the Rust values (strings are UTF-8) with, for the packets whose encoder
  accepts more than the decoder returns, the side conditions of the round trip.
\<close>

definition packet5_wf :: "MqttPacket \<Rightarrow> bool" where
  "packet5_wf packet = (case packet of
     P_Connect5 p \<Rightarrow> Connect5_wf p
   | P_ConnAck5 p \<Rightarrow> ((\<forall>q \<in> set (unwrap_or_default (ca_properties p)). prop_utf8 q)
        \<and> ca_properties p \<noteq> Some [])
   | P_Publish5 p \<Rightarrow> Publish5_wf p
   | P_PubAck5 p \<Rightarrow> (\<forall>q \<in> set (ack_properties p). prop_utf8 q)
   | P_PubRec5 p \<Rightarrow> (\<forall>q \<in> set (ack_properties p). prop_utf8 q)
   | P_PubRel5 p \<Rightarrow> (\<forall>q \<in> set (ack_properties p). prop_utf8 q)
   | P_PubComp5 p \<Rightarrow> (\<forall>q \<in> set (ack_properties p). prop_utf8 q)
   | P_Subscribe5 p \<Rightarrow> ((\<forall>q \<in> set (sub_properties p). prop_utf8 q)
        \<and> (\<forall>s \<in> set (sub_subscriptions p). utf8_valid (ts_topic_filter s)))
   | P_SubAck5 p \<Rightarrow> (\<forall>q \<in> set (suback_properties p). prop_utf8 q)
   | P_Unsubscribe5 p \<Rightarrow> ((\<forall>q \<in> set (unsub_properties p). prop_utf8 q)
        \<and> (\<forall>f \<in> set (unsub_topic_filters p). utf8_valid f))
   | P_UnsubAck5 p \<Rightarrow> (\<forall>q \<in> set (suback_properties p). prop_utf8 q)
   | P_PingReq5 \<Rightarrow> True
   | P_PingResp5 \<Rightarrow> True
   | P_Disconnect5 p \<Rightarrow> (\<forall>q \<in> set (disc_properties p). prop_utf8 q)
   | P_Auth p \<Rightarrow> (\<forall>q \<in> set (auth_properties p). prop_utf8 q)
   | _ \<Rightarrow> False)"

definition packet3_wf :: "MqttPacket \<Rightarrow> bool" where
  "packet3_wf packet = (case packet of
     P_Connect3 p \<Rightarrow> Connect3_wf p
   | P_ConnAck3 _ \<Rightarrow> True
   | P_Publish3 p \<Rightarrow> Publish3_wf p
   | P_PubAck3 _ \<Rightarrow> True
   | P_PubRec3 _ \<Rightarrow> True
   | P_PubRel3 _ \<Rightarrow> True
   | P_PubComp3 _ \<Rightarrow> True
   | P_Subscribe3 p \<Rightarrow> (\<forall>s \<in> set (sub3_subscriptions p). utf8_valid (st_topic_filter s))
   | P_SubAck3 _ \<Rightarrow> True
   | P_Unsubscribe3 p \<Rightarrow> (\<forall>f \<in> set (unsub3_topic_filters p). utf8_valid f)
   | P_UnsubAck3 _ \<Rightarrow> True
   | P_PingReq3 \<Rightarrow> True
   | P_PingResp3 \<Rightarrow> True
   | P_Disconnect3 \<Rightarrow> True
   | _ \<Rightarrow> False)"

section \<open>Dispatch\<close>

lemma into_packet_simps [simp]:
  "into_packet C (Inr (Packet p n)) = Inr (Packet (C p) n)"
  "into_packet C (Inr (Continue h n)) = Inr (Continue h n)"
  "into_packet C (Inl e) = Inl e"
  by (simp_all add: into_packet_def)

lemma no_panic_into_packet: "no_panic r \<Longrightarrow> no_panic (into_packet C r)"
  by (auto simp: into_packet_def intro!: no_panic_tryE)

lemma packet_to_bytes_type:
  assumes "packet_to_bytes kind flags v h p = Inr bs" and "flags < 16"
  shows "packet_type (bs @ r) = Inr (control_packet_type_u8 kind)"
  using assms by (auto simp: packet_to_bytes_Inr packet_type_frame)

lemma Publish_to_bytes_type:
  "Publish5_to_bytes p = Inr bs \<Longrightarrow> packet_type (bs @ r) = Inr (control_packet_type_u8 PUBLISH)"
  "Publish3_to_bytes q = Inr bs' \<Longrightarrow> packet_type (bs' @ r) = Inr (control_packet_type_u8 PUBLISH)"
proof -
  have f: "drop_bit 4 (0x30 OR publish_flags a d t) = 3" if "a \<le> 2" for a d t
    using first_byte_type [OF publish_flags_first_byte(1) [OF that], of PUBLISH d t]
    by (simp add: first_byte_def)
  have f3: "drop_bit 4 (0x30 OR Publish3_flags q) = 3" if "pub3_qos q \<le> 2"
    using first_byte_type [OF Publish3_flags_byte(1) [OF that], of PUBLISH]
    by (simp add: first_byte_def)
  show "Publish5_to_bytes p = Inr bs \<Longrightarrow> packet_type (bs @ r) = Inr (control_packet_type_u8 PUBLISH)"
    using f [of "pub_qos p" "pub_dup p" "pub_retain p"]
    by (auto simp: Publish5_to_bytes_def Publish5_validate_def validation_publish_Inr packet_type_def
        encode_publish_into_def encode_publish_header_into_def Let_def split: if_splits option.splits)
  show "Publish3_to_bytes q = Inr bs' \<Longrightarrow> packet_type (bs' @ r) = Inr (control_packet_type_u8 PUBLISH)"
    using f3
    by (auto simp: Publish3_to_bytes_def Publish3_validate_def validation_publish_Inr packet_type_def
        encode_publish_into_def encode_publish_header_into_def Let_def split: if_splits option.splits)
qed

lemmas to_bytes_defs = Connect5_to_bytes_def ConnAck5_to_bytes_def Ack5_to_bytes_def
  Subscribe5_to_bytes_def SubAck5_to_bytes_def Unsubscribe5_to_bytes_def ping_to_bytes_def
  Disconnect5_to_bytes_def Auth5_to_bytes_def Connect3_to_bytes_def ConnAck3_to_bytes_def
  Ack3_to_bytes_def Subscribe3_to_bytes_def SubAck3_to_bytes_def Unsubscribe3_to_bytes_def

lemma to_bytes_packet_type:
  "MqttPacket_to_bytes p = Inr bs \<Longrightarrow>
   packet_type (bs @ r) = Inr (control_packet_type_u8 (MqttPacket_packet_type p))"
  by (cases p)
     (simp_all add: to_bytes_defs Publish_to_bytes_type packet_to_bytes_type)

lemma from_bytes_v5_dispatch:
  "packet_type b = Inr (control_packet_type_u8 k) \<Longrightarrow>
   from_bytes_v5 b = (case k of
       CONNECT \<Rightarrow> into_packet P_Connect5 (Connect5_from_bytes b)
     | CONNACK \<Rightarrow> into_packet P_ConnAck5 (ConnAck5_from_bytes b)
     | PUBLISH \<Rightarrow> into_packet P_Publish5 (Publish5_from_bytes b)
     | PUBACK \<Rightarrow> into_packet P_PubAck5 (Ack5_from_bytes PUBACK 0 b)
     | PUBREC \<Rightarrow> into_packet P_PubRec5 (Ack5_from_bytes PUBREC 0 b)
     | PUBREL \<Rightarrow> into_packet P_PubRel5 (Ack5_from_bytes PUBREL 2 b)
     | PUBCOMP \<Rightarrow> into_packet P_PubComp5 (Ack5_from_bytes PUBCOMP 0 b)
     | SUBSCRIBE \<Rightarrow> into_packet P_Subscribe5 (Subscribe5_from_bytes b)
     | SUBACK \<Rightarrow> into_packet P_SubAck5 (SubAck5_from_bytes SUBACK b)
     | UNSUBSCRIBE \<Rightarrow> into_packet P_Unsubscribe5 (Unsubscribe5_from_bytes b)
     | UNSUBACK \<Rightarrow> into_packet P_UnsubAck5 (SubAck5_from_bytes UNSUBACK b)
     | PINGREQ \<Rightarrow> into_packet (\<lambda>_. P_PingReq5) (ping5_from_bytes PINGREQ b)
     | PINGRESP \<Rightarrow> into_packet (\<lambda>_. P_PingResp5) (ping5_from_bytes PINGRESP b)
     | DISCONNECT \<Rightarrow> into_packet P_Disconnect5 (Disconnect5_from_bytes b)
     | AUTH \<Rightarrow> into_packet P_Auth (Auth5_from_bytes b))"
  by (simp add: from_bytes_v5_def)

lemma from_bytes_v3_dispatch:
  "packet_type b = Inr (control_packet_type_u8 k) \<Longrightarrow>
   from_bytes_v3 b = (case k of
       CONNECT \<Rightarrow> into_packet P_Connect3 (Connect3_from_bytes b)
     | CONNACK \<Rightarrow> into_packet P_ConnAck3 (ConnAck3_from_bytes b)
     | PUBLISH \<Rightarrow> into_packet P_Publish3 (Publish3_from_bytes b)
     | PUBACK \<Rightarrow> into_packet P_PubAck3 (Ack3_from_bytes PUBACK 0 b)
     | PUBREC \<Rightarrow> into_packet P_PubRec3 (Ack3_from_bytes PUBREC 0 b)
     | PUBREL \<Rightarrow> into_packet P_PubRel3 (Ack3_from_bytes PUBREL 2 b)
     | PUBCOMP \<Rightarrow> into_packet P_PubComp3 (Ack3_from_bytes PUBCOMP 0 b)
     | SUBSCRIBE \<Rightarrow> into_packet P_Subscribe3 (Subscribe3_from_bytes b)
     | SUBACK \<Rightarrow> into_packet P_SubAck3 (SubAck3_from_bytes b)
     | UNSUBSCRIBE \<Rightarrow> into_packet P_Unsubscribe3 (Unsubscribe3_from_bytes b)
     | UNSUBACK \<Rightarrow> into_packet P_UnsubAck3 (Ack3_from_bytes UNSUBACK 0 b)
     | PINGREQ \<Rightarrow> into_packet (\<lambda>_. P_PingReq3) (ping3_from_bytes PINGREQ b)
     | PINGRESP \<Rightarrow> into_packet (\<lambda>_. P_PingResp3) (ping3_from_bytes PINGRESP b)
     | DISCONNECT \<Rightarrow> into_packet (\<lambda>_. P_Disconnect3) (Disconnect3_from_bytes b)
     | _ \<Rightarrow> Inl InvalidPacketType)"
  by (simp add: from_bytes_v3_def)

section \<open>Round trips\<close>

lemma from_to_bytes_v5:
  assumes "MqttPacket_to_bytes p = Inr bs" and "packet5_wf p" and "length bs \<le> 268435455"
  shows "from_bytes_v5 (bs @ r) = Inr (Packet p (length bs))"
  using assms from_bytes_v5_dispatch [OF to_bytes_packet_type [OF assms(1)], of r]
  by (cases p)
     (simp_all add: packet5_wf_def Connect5_from_to_bytes ConnAck5_from_to_bytes
        Publish5_from_to_bytes Ack5_from_to_bytes Subscribe5_from_to_bytes SubAck5_from_to_bytes
        Unsubscribe5_from_to_bytes ping5_from_to_bytes Disconnect5_from_to_bytes
        Auth5_from_to_bytes)

lemma from_to_bytes_v3:
  assumes "MqttPacket_to_bytes p = Inr bs" and "packet3_wf p" and "length bs \<le> 268435455"
  shows "from_bytes_v3 (bs @ r) = Inr (Packet p (length bs))"
  using assms from_bytes_v3_dispatch [OF to_bytes_packet_type [OF assms(1)], of r]
  by (cases p)
     (simp_all add: packet3_wf_def Connect3_from_to_bytes ConnAck3_from_to_bytes
        Publish3_from_to_bytes Ack3_from_to_bytes Subscribe3_from_to_bytes SubAck3_from_to_bytes
        Unsubscribe3_from_to_bytes ping3_from_to_bytes Disconnect3_from_to_bytes)

section \<open>Absence of panics\<close>

lemma no_panic_ControlPacketType [simp]: "no_panic (ControlPacketType_try_from v)"
  by (simp add: ControlPacketType_try_from_def)

lemma from_bytes_v5_no_panic:
  assumes "framed b"
  shows "no_panic (from_bytes_v5 b)"
  unfolding from_bytes_v5_def
  by (auto split: ControlPacketType.splits intro!: no_panic_tryE no_panic_into_packet
      Publish5_no_panic [OF assms] Connect5_no_panic ConnAck5_no_panic Ack5_no_panic
      Subscribe5_no_panic SubAck5_no_panic Unsubscribe5_no_panic ping5_no_panic
      Disconnect5_no_panic Auth5_no_panic)

lemma from_bytes_v3_no_panic: "no_panic (from_bytes_v3 b)"
  unfolding from_bytes_v3_def
  by (auto split: ControlPacketType.splits intro!: no_panic_tryE no_panic_into_packet
      Publish3_no_panic Connect3_no_panic ConnAck3_no_panic Ack3_no_panic
      Subscribe3_no_panic SubAck3_no_panic Unsubscribe3_no_panic ping3_no_panic
      Disconnect3_no_panic)

section \<open>The encoders do not panic\<close>

lemma no_panic_encode_string [simp]: "no_panic (encode_utf8_string v)" "no_panic (encode_binary_data v)"
  by (auto simp: encode_utf8_string_def encode_binary_data_def validate_mqtt_utf8_string_def Let_def
      intro!: no_panic_intros)

lemma no_panic_value_len [simp]: "no_panic (property_value_len p)"
  by (cases p) (auto simp: binary_len_def intro!: no_panic_intros)

lemma no_panic_body_len [simp]: "no_panic (PropertyEncoder_body_len ps n)"
  by (induction ps arbitrary: n) (auto simp: Property_encoded_len_def intro!: no_panic_intros)

lemma no_panic_encoder [simp]: "no_panic (PropertyEncoder_new ps)" "no_panic (encode_properities_hdr ps)"
  by (auto simp: PropertyEncoder_new_def encode_properities_hdr_def intro!: no_panic_intros)

lemma no_panic_packet_to_bytes:
  "no_panic v \<Longrightarrow> no_panic h \<Longrightarrow> no_panic p \<Longrightarrow> no_panic (packet_to_bytes kind flags v h p)"
  by (auto simp: packet_to_bytes_def intro!: no_panic_intros)

lemma no_panic_extend_each: "(\<And>x. no_panic (f x)) \<Longrightarrow> no_panic (extend_each f xs b)"
  by (induction xs arbitrary: b) (auto intro!: no_panic_intros)

lemma no_panic_subscription_bytes [simp]: "no_panic (TopicSubscription_to_bytes t)"
  by (auto simp: TopicSubscription_to_bytes_def Let_def intro!: no_panic_intros)

lemma no_panic_id_props_header [simp]: "no_panic (id_props_header i ps m)"
  by (auto simp: id_props_header_def intro!: no_panic_intros)

lemma to_bytes5_no_panic [simp]:
  "no_panic (Connect5_to_bytes a)" "no_panic (ConnAck5_to_bytes b)" "no_panic (Publish5_to_bytes c)"
  "no_panic (Ack5_to_bytes k f d)" "no_panic (Subscribe5_to_bytes e)" "no_panic (SubAck5_to_bytes k g)"
  "no_panic (Unsubscribe5_to_bytes h)" "no_panic (ping_to_bytes k)" "no_panic (Disconnect5_to_bytes i)"
  "no_panic (Auth5_to_bytes j)"
  by (auto simp: Connect5_to_bytes_def Connect5_validate_def Connect5_variable_header_def
      Connect5_payload_def Connect5_will_payload_def ConnAck5_to_bytes_def ConnAck5_variable_header_def
      Publish5_to_bytes_def Ack5_to_bytes_def Ack5_variable_header_def Subscribe5_to_bytes_def
      Subscribe5_payload_def SubAck5_to_bytes_def SubAck5_payload_def Unsubscribe5_to_bytes_def
      Unsubscribe5_payload_def ping_to_bytes_def Disconnect5_to_bytes_def
      Disconnect5_variable_header_def Auth5_to_bytes_def Auth5_variable_header_def Let_def
      split: option.splits
      intro!: no_panic_intros no_panic_packet_to_bytes no_panic_extend_each)

lemma to_bytes3_no_panic [simp]:
  "no_panic (Connect3_to_bytes a)" "no_panic (ConnAck3_to_bytes b)" "no_panic (Publish3_to_bytes c)"
  "no_panic (Ack3_to_bytes k f d)" "no_panic (Subscribe3_to_bytes e)" "no_panic (SubAck3_to_bytes g)"
  "no_panic (Unsubscribe3_to_bytes h)"
  by (auto simp: Connect3_to_bytes_def Connect3_variable_header_def Connect3_payload_def
      ConnAck3_to_bytes_def ConnAck3_variable_header_def Publish3_to_bytes_def Ack3_to_bytes_def
      Subscribe3_to_bytes_def Subscribe3_payload_def SubAck3_to_bytes_def SubAck3_payload_def
      Unsubscribe3_to_bytes_def Let_def
      split: option.splits
      intro!: no_panic_intros no_panic_packet_to_bytes no_panic_extend_each no_panic_check_each)

lemma MqttPacket_to_bytes_no_panic [simp]: "no_panic (MqttPacket_to_bytes p)"
  by (cases p) (simp_all)

end
