(* ===== verification/Framing.thy ===== *)
theory Framing
  imports Control_Packet
begin

text \<open>
  Frames: \<open>packet_frame_len\<close> of \<open>src/src/mqtt_serde/parser/leveled.rs\<close>, which finds the end of a
  packet from its fixed header, and the law all packet decoders obey, on which the stream parser
  relies: a decoder that returns a packet has consumed exactly the frame its header announces.
\<close>

section \<open>The length of a frame\<close>

definition packet_frame_len :: "bytes \<Rightarrow> nat option res" where
  "packet_frame_len buffer =
     (if length buffer < 2 then Inr None
      else tryE (slice_from buffer 1) (\<lambda>rest.
        case parse_remaining_length rest of
          Inl (More _ _) \<Rightarrow> Inr None
        | Inl e \<Rightarrow> Inl e
        | Inr (remaining_len, vbi_bytes) \<Rightarrow>
            let total = 1 + vbi_bytes + remaining_len in
            if length buffer < total then Inr None else Inr (Some total)))"

text \<open>The frame that starts a buffer, as the fixed header announces it.\<close>

definition frame_size :: "bytes \<Rightarrow> nat option" where
  "frame_size b = (case b of [] \<Rightarrow> None | _ # rest \<Rightarrow>
     (case VariableByteInteger_decode rest of Inr (sz, n) \<Rightarrow> Some (1 + n + sz) | Inl _ \<Rightarrow> None))"

lemma frame_size_ge_2: "frame_size b = Some n \<Longrightarrow> 2 \<le> n"
  by (auto simp: frame_size_def split: list.splits sum.splits dest!: vbi.dec_consumes)

lemma frame_size_framed: "framed b \<longleftrightarrow> b \<noteq> [] \<and> frame_size b = Some (length b)"
  by (cases b) (auto simp: framed_def frame_size_def VariableByteInteger_decode_def split: sum.splits)

lemma packet_frame_len_Some:
  "packet_frame_len b = Inr (Some n) \<longleftrightarrow> frame_size b = Some n \<and> n \<le> length b"
proof (cases b)
  case (Cons x xs)
  have "2 \<le> length b" if "frame_size b = Some n" "n \<le> length b"
    using frame_size_ge_2 [OF that(1)] that(2) by simp
  then show ?thesis
    using Cons
    by (auto simp: packet_frame_len_def frame_size_def parse_remaining_length_def Let_def
        split: sum.splits ParseError.splits)
qed (simp add: packet_frame_len_def frame_size_def)

lemma no_panic_packet_frame_len [simp]: "no_panic (packet_frame_len b)"
proof (cases b)
  case (Cons x xs)
  then show ?thesis
    using no_panic_vbi_decode [of xs]
    by (auto simp: packet_frame_len_def parse_remaining_length_def Let_def no_panic_def
        split: sum.splits ParseError.splits)
qed (simp add: packet_frame_len_def)

text \<open>More input never changes a frame that is already complete.\<close>

lemma frame_size_append: "frame_size b = Some n \<Longrightarrow> frame_size (b @ r) = Some n"
  by (auto simp: frame_size_def vbi.dec_append split: list.splits sum.splits)

lemma frame_size_take:
  assumes "frame_size b = Some n" and "n \<le> length b"
  shows "frame_size (take n b) = Some n"
proof -
  obtain x xs sz k where b: "b = x # xs" and d: "VariableByteInteger_decode xs = Inr (sz, k)"
    and n: "n = 1 + k + sz"
    using assms(1) by (auto simp: frame_size_def split: list.splits sum.splits)
  have "take (k + sz) xs = take k xs @ take sz (drop k xs)" by (simp add: take_add)
  then have "VariableByteInteger_decode (take (k + sz) xs) = Inr (sz, k)"
    using vbi_decode_take [OF d] by simp
  then show ?thesis by (simp add: b n frame_size_def)
qed

section \<open>Decoders consume their frame\<close>

definition whole :: "nat \<Rightarrow> 'p ParseOk res \<Rightarrow> bool" where
  "whole t r \<longleftrightarrow> (\<forall>ok. r = Inr ok \<longrightarrow> (\<exists>p. ok = Packet p t))"

lemma whole_Inl [simp]: "whole t (Inl e)"
  by (simp add: whole_def)

lemma whole_Packet [simp]: "whole t (Inr (Packet p n)) \<longleftrightarrow> n = t"
  by (auto simp: whole_def)

lemma whole_tryE: "(\<And>x. m = Inr x \<Longrightarrow> whole t (f x)) \<Longrightarrow> whole t (tryE m f)"
  by (auto simp: whole_def)

lemma whole_validated: "whole t (validated_packet v p t)"
  by (auto simp: validated_packet_def intro: whole_tryE)

definition consumes_frame :: "bytes \<Rightarrow> 'p ParseOk res \<Rightarrow> bool" where
  "consumes_frame b r \<longleftrightarrow> (case r of
     Inl _ \<Rightarrow> True
   | Inr (Packet p n) \<Rightarrow> frame_size b = Some n \<and> n \<le> length b
   | Inr (Continue hint consumed) \<Rightarrow>
       consumed = 0 \<and> 0 < hint \<and> (\<forall>n. frame_size b = Some n \<longrightarrow> length b < n)
   | Inr (TopicName _ _) \<Rightarrow> False)"

lemma consumes_frame_Inl [simp]: "consumes_frame b (Inl e)"
  by (simp add: consumes_frame_def)

lemma consumes_frame_whole:
  assumes "whole n r" and "frame_size b = Some n" and "n \<le> length b"
  shows "consumes_frame b r"
  using assms by (auto simp: consumes_frame_def whole_def split: sum.splits ParseOk.splits)

lemma consumes_frame_tryE:
  "(\<And>x. m = Inr x \<Longrightarrow> consumes_frame b (f x)) \<Longrightarrow> consumes_frame b (tryE m f)"
  by (cases m) simp_all

lemma consumes_frame_into_packet:
  "consumes_frame b r \<Longrightarrow> consumes_frame b (into_packet C r)"
  by (cases r) (auto simp: consumes_frame_def into_packet_def split: ParseOk.splits)

lemma frame_size_slice:
  "slice_from b (Suc 0) = Inr rest \<Longrightarrow> parse_remaining_length rest = Inr (sz, k) \<Longrightarrow>
   frame_size b = Some (Suc (k + sz))"
  by (cases b) (auto simp: get_from_def frame_size_def parse_remaining_length_def)

lemma frame_size_slice_Nil: "slice_from b (Suc 0) = Inr [] \<Longrightarrow> frame_size b = None"
  by (cases b) (auto simp: get_from_def frame_size_def VariableByteInteger_decode_def)

lemma consumes_frame_open:
  assumes "\<And>sz offset t. whole t (body sz offset t)"
  shows "consumes_frame b (open_packet kind pre b body)"
proof -
  have "consumes_frame b (body sz (Suc k) (Suc (k + sz)))"
    if "frame_size b = Some (Suc (k + sz))" "\<not> length b < Suc (k + sz)" for sz k
    using that assms by (intro consumes_frame_whole [of "Suc (k + sz)"]) auto
  then show ?thesis
    unfolding open_packet_def
    by (auto intro!: consumes_frame_tryE dest!: frame_size_slice
        simp: Let_def consumes_frame_def [of b "Inr (Continue h n)" for h n])
qed

lemmas whole_intros = whole_tryE whole_validated

lemma consumes_frame_v5:
  "consumes_frame b (Ack5_from_bytes kind flags b)"
  "consumes_frame b (Publish5_from_bytes b)"
  "consumes_frame b (ConnAck5_from_bytes b)"
  "consumes_frame b (Disconnect5_from_bytes b)"
  "consumes_frame b (Auth5_from_bytes b)"
  "consumes_frame b (ping5_from_bytes kind b)"
  "consumes_frame b (SubAck5_from_bytes kind b)"
  "consumes_frame b (Subscribe5_from_bytes b)"
  "consumes_frame b (Unsubscribe5_from_bytes b)"
  "consumes_frame b (Connect5_from_bytes b)"
  unfolding Ack5_from_bytes_def Publish5_from_bytes_def ConnAck5_from_bytes_def
    Disconnect5_from_bytes_def Auth5_from_bytes_def ping5_from_bytes_def SubAck5_from_bytes_def
    Subscribe5_from_bytes_def Unsubscribe5_from_bytes_def Connect5_from_bytes_def
  by (auto intro!: consumes_frame_tryE consumes_frame_open whole_intros simp: Let_def)

lemma consumes_frame_ping3: "consumes_frame b (ping3_from_bytes kind b)"
  unfolding ping3_from_bytes_def
  by (auto intro!: consumes_frame_tryE simp: Let_def consumes_frame_def [of b "Inr x" for x])
     ((drule frame_size_slice_Nil | drule (1) frame_size_slice), simp)+

lemma consumes_frame_v3:
  "consumes_frame b (Ack3_from_bytes kind flags b)"
  "consumes_frame b (Publish3_from_bytes b)"
  "consumes_frame b (ConnAck3_from_bytes b)"
  "consumes_frame b (Disconnect3_from_bytes b)"
  "consumes_frame b (SubAck3_from_bytes b)"
  "consumes_frame b (Subscribe3_from_bytes b)"
  "consumes_frame b (Unsubscribe3_from_bytes b)"
  "consumes_frame b (Connect3_from_bytes b)"
  unfolding Ack3_from_bytes_def Publish3_from_bytes_def ConnAck3_from_bytes_def
    Disconnect3_from_bytes_def SubAck3_from_bytes_def
    Subscribe3_from_bytes_def Unsubscribe3_from_bytes_def Connect3_from_bytes_def
  by (auto intro!: consumes_frame_tryE consumes_frame_open whole_intros simp: Let_def)

lemma from_bytes_consumes_frame:
  "consumes_frame b (from_bytes_v5 b)" "consumes_frame b (from_bytes_v3 b)"
  "consumes_frame b (from_bytes_with_version b v)"
proof -
  show v5: "consumes_frame b (from_bytes_v5 b)"
    unfolding from_bytes_v5_def
    by (auto split: ControlPacketType.splits
        intro!: consumes_frame_tryE consumes_frame_into_packet consumes_frame_v5)
  show v3: "consumes_frame b (from_bytes_v3 b)"
    unfolding from_bytes_v3_def
    by (auto split: ControlPacketType.splits
        intro!: consumes_frame_tryE consumes_frame_into_packet consumes_frame_v3
          consumes_frame_ping3)
  show "consumes_frame b (from_bytes_with_version b v)"
    using v5 v3 by (simp add: from_bytes_with_version_def)
qed

end
