(* ===== verification/Leveled.thy ===== *)
theory Leveled
  imports Framing
begin

unbundle bit_operations_syntax

text \<open>
  The leveled parser, \<open>src/src/mqtt_serde/parser/leveled.rs\<close>: the packet type only, the fixed
  header with the raw remainder, or the variable header with the raw payload.
\<close>

section \<open>Results\<close>

datatype ParseLevel = Level_Full | Level_HeadersParsed | Level_RawBody | Level_TypeOnly

datatype VariableHeader =
    ConnectV5 str u8 bool u16 u8 "Property list"
  | ConnAckV5 bool u8 "Property list option"
  | PublishV5 str u8 bool bool "u16 option" "Property list"
  | PubAckV5 u16 u8 "Property list"
  | PubRecV5 u16 u8 "Property list"
  | PubRelV5 u16 u8 "Property list"
  | PubCompV5 u16 u8 "Property list"
  | SubscribeV5 u16 "Property list"
  | SubAckV5 u16 "Property list"
  | UnsubscribeV5 u16 "Property list"
  | UnsubAckV5 u16 "Property list"
  | DisconnectV5 u8 "Property list"
  | AuthV5 u8 "Property list"
  | ConnectV3 str u8 bool u16 u8
  | ConnAckV3 bool u8
  | PublishV3 str u8 bool bool "u16 option"
  | PacketIdOnlyV3 u16
  | EmptyHeader

record TypeOnlyPacket =
  to_packet_type :: ControlPacketType
  to_flags :: u8

record RawBodyPacket =
  rb_packet_type :: ControlPacketType
  rb_flags :: u8
  rb_remaining :: bytes

record HeadersParsedPacket =
  hp_packet_type :: ControlPacketType
  hp_flags :: u8
  hp_mqtt_version :: u8
  hp_variable_header :: VariableHeader
  hp_raw_payload :: bytes

datatype ParsedPacket =
    Parsed_Full MqttPacket
  | Parsed_Headers HeadersParsedPacket
  | Parsed_RawBody RawBodyPacket
  | Parsed_TypeOnly TypeOnlyPacket

fun ParsedPacket_packet_type :: "ParsedPacket \<Rightarrow> ControlPacketType" where
  "ParsedPacket_packet_type (Parsed_Full pkt) = MqttPacket_packet_type pkt"
| "ParsedPacket_packet_type (Parsed_Headers p) = hp_packet_type p"
| "ParsedPacket_packet_type (Parsed_RawBody p) = rb_packet_type p"
| "ParsedPacket_packet_type (Parsed_TypeOnly p) = to_packet_type p"

datatype LeveledParseOk = L_Continue nat nat | L_Packet ParsedPacket nat

section \<open>Type only and raw body\<close>

text \<open>
  The opening statements the four functions share: type and flags of the first byte, remaining
  length, incomplete input.  \<open>body\<close> gets the type, the flags, the length of the fixed header, the
  remaining length and the length of the packet.
\<close>

definition open_leveled ::
  "bytes \<Rightarrow> (ControlPacketType \<Rightarrow> u8 \<Rightarrow> nat \<Rightarrow> nat \<Rightarrow> nat \<Rightarrow> LeveledParseOk res) \<Rightarrow> LeveledParseOk res"
where
  "open_leveled buffer body =
     (if buffer = [] then Inl BufferEmpty
      else tryE (index_byte buffer 0) (\<lambda>byte1.
        tryE (from_first_byte byte1) (\<lambda>(pkt_type, flags).
        if length buffer < 2 then Inr (L_Continue 1 0)
        else tryE (slice_from buffer 1) (\<lambda>rest.
          case parse_remaining_length rest of
            Inl (More n _) \<Rightarrow> Inr (L_Continue n 0)
          | Inl e \<Rightarrow> Inl e
          | Inr (remaining_len, vbi_bytes) \<Rightarrow>
              let fixed_hdr_len = 1 + vbi_bytes; total_len = fixed_hdr_len + remaining_len in
              if length buffer < total_len
              then Inr (L_Continue (total_len - length buffer) 0)
              else body pkt_type flags fixed_hdr_len remaining_len total_len))))"

definition parse_type_only :: "bytes \<Rightarrow> LeveledParseOk res" where
  "parse_type_only buffer = open_leveled buffer (\<lambda>pkt_type flags _ _ total_len.
     Inr (L_Packet (Parsed_TypeOnly \<lparr>to_packet_type = pkt_type, to_flags = flags\<rparr>) total_len))"

text \<open>
  \<open>into_range\<close> of \<open>src/src/mqtt_serde/payload.rs\<close> for owned storage: \<open>truncate\<close>, then \<open>drain\<close>,
  which panics when the start lies beyond the truncated length.
\<close>

definition into_range :: "bytes \<Rightarrow> nat \<Rightarrow> nat \<Rightarrow> bytes res" where
  "into_range payload a b =
     (let payload = take b payload in
      if a \<le> length payload then Inr (drop a payload)
      else Inl (Panic ''drain range out of bounds''))"

definition parse_raw_body :: "bytes \<Rightarrow> LeveledParseOk res" where
  "parse_raw_body buffer =
     open_leveled buffer (\<lambda>pkt_type flags remaining_start _ total_len.
     tryE (into_range buffer remaining_start total_len) (\<lambda>remaining.
     Inr (L_Packet (Parsed_RawBody \<lparr>rb_packet_type = pkt_type, rb_flags = flags,
                                    rb_remaining = remaining\<rparr>) total_len)))"

section \<open>Variable headers, MQTT 5\<close>

definition parse_packet_id_raw :: "bytes \<Rightarrow> (u16 \<times> nat) res" where
  "parse_packet_id_raw buffer =
     (if length buffer < 2 then Inl BufferTooShort
      else Inr (from_be_bytes16 (buffer ! 0) (buffer ! 1), 2))"

definition parse_publish_header_v5 :: "u8 \<Rightarrow> bytes \<Rightarrow> (VariableHeader \<times> nat) res" where
  "parse_publish_header_v5 flags body =
     (let dup = (flags AND 0x08 \<noteq> 0); qos = drop_bit 1 (flags AND 0x06);
          retain = (flags AND 0x01 \<noteq> 0) in
     tryE (get_from body 0 BufferTooShort) (\<lambda>rest.
     tryE (parse_utf8_string rest) (\<lambda>(topic_name, offset).
     tryE (if 0 < qos then
             tryE (slice_from body offset) (\<lambda>rest.
             tryE (parse_packet_id_raw rest) (\<lambda>(i, consumed). Inr (Some i, offset + consumed)))
           else Inr (None, offset)) (\<lambda>(packet_id, offset).
     tryE (get_from body offset BufferTooShort) (\<lambda>rest.
     tryE (parse_properties_hdr rest) (\<lambda>(properties, consumed).
     Inr (PublishV5 topic_name qos dup retain packet_id properties, offset + consumed)))))))"

text \<open>Protocol name, protocol version, connect flags and keep alive, as both CONNECT parsers read them.\<close>

definition connect_fields :: "bytes \<Rightarrow> (str \<times> u8 \<times> u8 \<times> u16 \<times> nat) res" where
  "connect_fields body =
     tryE (parse_utf8_string body) (\<lambda>(protocol_name, offset).
     tryE (get_byte body offset BufferTooShort) (\<lambda>protocol_version.
     let offset = offset + 1 in
     tryE (get_byte body offset BufferTooShort) (\<lambda>connect_flags.
     let offset = offset + 1 in
     if length body < offset + 2 then Inl BufferTooShort
     else
       let keep_alive = from_be_bytes16 (body ! offset) (body ! (offset + 1)) in
       Inr (protocol_name, protocol_version, connect_flags, keep_alive, offset + 2))))"

definition parse_connect_header_v5 :: "bytes \<Rightarrow> (VariableHeader \<times> nat) res" where
  "parse_connect_header_v5 body =
     tryE (connect_fields body) (\<lambda>(protocol_name, protocol_version, connect_flags, keep_alive, offset).
     let clean_start = (connect_flags AND 0x02 \<noteq> 0) in
     tryE (get_from body offset BufferTooShort) (\<lambda>rest.
     tryE (parse_properties_hdr rest) (\<lambda>(properties, consumed).
     Inr (ConnectV5 protocol_name protocol_version clean_start keep_alive connect_flags properties,
          offset + consumed))))"

definition parse_connack_header_v5 :: "bytes \<Rightarrow> (VariableHeader \<times> nat) res" where
  "parse_connack_header_v5 body =
     (if length body < 2 then Inl BufferTooShort
      else
        let session_present = (body ! 0 AND 0x01 \<noteq> 0); reason_code = body ! 1; offset = 2 in
        tryE (get_from body offset BufferTooShort) (\<lambda>rest.
        tryE (parse_properties_hdr rest) (\<lambda>(props, consumed).
        let properties = (if props = [] then None else Some props) in
        Inr (ConnAckV5 session_present reason_code properties, offset + consumed))))"

text \<open>SUBSCRIBE, SUBACK, UNSUBSCRIBE and UNSUBACK: the same statements for each constructor.\<close>

definition parse_id_props_header ::
  "(u16 \<Rightarrow> Property list \<Rightarrow> VariableHeader) \<Rightarrow> bytes \<Rightarrow> (VariableHeader \<times> nat) res" where
  "parse_id_props_header C body =
     tryE (parse_packet_id_raw body) (\<lambda>(packet_id, offset).
     tryE (get_from body offset BufferTooShort) (\<lambda>rest.
     tryE (parse_properties_hdr rest) (\<lambda>(properties, consumed).
     Inr (C packet_id properties, offset + consumed))))"

definition parse_subscribe_header_v5 :: "bytes \<Rightarrow> (VariableHeader \<times> nat) res" where
  "parse_subscribe_header_v5 body = parse_id_props_header SubscribeV5 body"

definition parse_suback_header_v5 :: "bytes \<Rightarrow> (VariableHeader \<times> nat) res" where
  "parse_suback_header_v5 body = parse_id_props_header SubAckV5 body"

definition parse_unsubscribe_header_v5 :: "bytes \<Rightarrow> (VariableHeader \<times> nat) res" where
  "parse_unsubscribe_header_v5 body = parse_id_props_header UnsubscribeV5 body"

definition parse_unsuback_header_v5 :: "bytes \<Rightarrow> (VariableHeader \<times> nat) res" where
  "parse_unsuback_header_v5 body = parse_id_props_header UnsubAckV5 body"

datatype VhdrV5Kind = Vhdr_PubAck | Vhdr_PubRec | Vhdr_PubRel | Vhdr_PubComp

definition parse_ack_with_props_v5 :: "bytes \<Rightarrow> VhdrV5Kind \<Rightarrow> (VariableHeader \<times> nat) res" where
  "parse_ack_with_props_v5 body kind =
     tryE (parse_packet_id_raw body) (\<lambda>(packet_id, offset).
     tryE (if offset < length body then
             let rc = body ! offset; offset = offset + 1 in
             if offset < length body then
               tryE (slice_from body offset) (\<lambda>rest.
               tryE (parse_properties_hdr rest) (\<lambda>(props, consumed).
               Inr (rc, props, offset + consumed)))
             else Inr (rc, [], offset)
           else Inr (0, [], offset)) (\<lambda>(reason_code, properties, offset).
     Inr ((case kind of
             Vhdr_PubAck \<Rightarrow> PubAckV5 packet_id reason_code properties
           | Vhdr_PubRec \<Rightarrow> PubRecV5 packet_id reason_code properties
           | Vhdr_PubRel \<Rightarrow> PubRelV5 packet_id reason_code properties
           | Vhdr_PubComp \<Rightarrow> PubCompV5 packet_id reason_code properties), offset)))"

text \<open>DISCONNECT and AUTH: the same statements for each constructor.\<close>

definition parse_reason_header ::
  "(u8 \<Rightarrow> Property list \<Rightarrow> VariableHeader) \<Rightarrow> bytes \<Rightarrow> nat \<Rightarrow> (VariableHeader \<times> nat) res" where
  "parse_reason_header C body remaining_len =
     (if remaining_len = 0 then Inr (C 0 [], 0)
      else
        tryE (index_byte body 0) (\<lambda>reason_code.
        let offset = 1 in
        tryE (if offset < length body then
                tryE (slice_from body offset) (\<lambda>rest.
                tryE (parse_properties_hdr rest) (\<lambda>(props, consumed). Inr (props, offset + consumed)))
              else Inr ([], offset)) (\<lambda>(properties, offset).
        Inr (C reason_code properties, offset))))"

definition parse_disconnect_header_v5 :: "bytes \<Rightarrow> nat \<Rightarrow> (VariableHeader \<times> nat) res" where
  "parse_disconnect_header_v5 body remaining_len = parse_reason_header DisconnectV5 body remaining_len"

definition parse_auth_header_v5 :: "bytes \<Rightarrow> nat \<Rightarrow> (VariableHeader \<times> nat) res" where
  "parse_auth_header_v5 body remaining_len = parse_reason_header AuthV5 body remaining_len"

section \<open>Variable headers, MQTT 3.1.1\<close>

definition parse_publish_header_v3 :: "u8 \<Rightarrow> bytes \<Rightarrow> (VariableHeader \<times> nat) res" where
  "parse_publish_header_v3 flags body =
     (let dup = (flags AND 0x08 \<noteq> 0); qos = drop_bit 1 (flags AND 0x06);
          retain = (flags AND 0x01 \<noteq> 0) in
     tryE (parse_utf8_string body) (\<lambda>(topic_name, offset).
     tryE (if 0 < qos then
             tryE (slice_from body offset) (\<lambda>rest.
             tryE (parse_packet_id_raw rest) (\<lambda>(i, consumed). Inr (Some i, offset + consumed)))
           else Inr (None, offset)) (\<lambda>(message_id, offset).
     Inr (PublishV3 topic_name qos dup retain message_id, offset))))"

definition parse_connect_header_v3 :: "bytes \<Rightarrow> (VariableHeader \<times> nat) res" where
  "parse_connect_header_v3 body =
     tryE (connect_fields body) (\<lambda>(protocol_name, protocol_version, connect_flags, keep_alive, offset).
     let clean_session = (connect_flags AND 0x02 \<noteq> 0) in
     Inr (ConnectV3 protocol_name protocol_version clean_session keep_alive connect_flags, offset))"

definition parse_connack_header_v3 :: "bytes \<Rightarrow> (VariableHeader \<times> nat) res" where
  "parse_connack_header_v3 body =
     (if length body < 2 then Inl BufferTooShort
      else Inr (ConnAckV3 (body ! 0 AND 0x01 \<noteq> 0) (body ! 1), 2))"

section \<open>Headers only\<close>

definition variable_header_v5 ::
  "ControlPacketType \<Rightarrow> u8 \<Rightarrow> bytes \<Rightarrow> nat \<Rightarrow> (VariableHeader \<times> nat) res" where
  "variable_header_v5 pkt_type flags packet_body remaining_len = (case pkt_type of
       PUBLISH \<Rightarrow> parse_publish_header_v5 flags packet_body
     | CONNECT \<Rightarrow> parse_connect_header_v5 packet_body
     | CONNACK \<Rightarrow> parse_connack_header_v5 packet_body
     | SUBSCRIBE \<Rightarrow> parse_subscribe_header_v5 packet_body
     | SUBACK \<Rightarrow> parse_suback_header_v5 packet_body
     | UNSUBSCRIBE \<Rightarrow> parse_unsubscribe_header_v5 packet_body
     | UNSUBACK \<Rightarrow> parse_unsuback_header_v5 packet_body
     | PUBACK \<Rightarrow> parse_ack_with_props_v5 packet_body Vhdr_PubAck
     | PUBREC \<Rightarrow> parse_ack_with_props_v5 packet_body Vhdr_PubRec
     | PUBREL \<Rightarrow> parse_ack_with_props_v5 packet_body Vhdr_PubRel
     | PUBCOMP \<Rightarrow> parse_ack_with_props_v5 packet_body Vhdr_PubComp
     | DISCONNECT \<Rightarrow> parse_disconnect_header_v5 packet_body remaining_len
     | AUTH \<Rightarrow> parse_auth_header_v5 packet_body remaining_len
     | PINGREQ \<Rightarrow> Inr (EmptyHeader, 0)
     | PINGRESP \<Rightarrow> Inr (EmptyHeader, 0))"

definition variable_header_v3 ::
  "ControlPacketType \<Rightarrow> u8 \<Rightarrow> bytes \<Rightarrow> (VariableHeader \<times> nat) res" where
  "variable_header_v3 pkt_type flags packet_body =
     (if pkt_type = PUBLISH then parse_publish_header_v3 flags packet_body
      else if pkt_type = CONNECT then parse_connect_header_v3 packet_body
      else if pkt_type = CONNACK then parse_connack_header_v3 packet_body
      else if pkt_type \<in> {PINGREQ, PINGRESP, DISCONNECT} then Inr (EmptyHeader, 0)
      else if pkt_type = AUTH then Inl (ParseErr ''AUTH packet is not supported in MQTT v3'')
      else tryE (parse_packet_id_raw packet_body) (\<lambda>(i, consumed).
        Inr (PacketIdOnlyV3 i, consumed)))"

definition parse_headers_only_v5 :: "bytes \<Rightarrow> LeveledParseOk res" where
  "parse_headers_only_v5 buffer =
     open_leveled buffer (\<lambda>pkt_type flags fixed_hdr_len remaining_len total_len.
     tryE (slice_range buffer fixed_hdr_len total_len) (\<lambda>packet_body.
     tryE (variable_header_v5 pkt_type flags packet_body remaining_len) (\<lambda>(vh, vhdr_consumed).
     tryE (into_range buffer (fixed_hdr_len + vhdr_consumed) total_len) (\<lambda>raw_payload.
     Inr (L_Packet (Parsed_Headers \<lparr>hp_packet_type = pkt_type, hp_flags = flags, hp_mqtt_version = 5,
            hp_variable_header = vh, hp_raw_payload = raw_payload\<rparr>) total_len)))))"

definition parse_headers_only_v3 :: "bytes \<Rightarrow> LeveledParseOk res" where
  "parse_headers_only_v3 buffer =
     open_leveled buffer (\<lambda>pkt_type flags fixed_hdr_len remaining_len total_len.
     tryE (slice_range buffer fixed_hdr_len total_len) (\<lambda>packet_body.
     tryE (variable_header_v3 pkt_type flags packet_body) (\<lambda>(vh, vhdr_consumed).
     tryE (into_range buffer (fixed_hdr_len + vhdr_consumed) total_len) (\<lambda>raw_payload.
     Inr (L_Packet (Parsed_Headers \<lparr>hp_packet_type = pkt_type, hp_flags = flags, hp_mqtt_version = 4,
            hp_variable_header = vh, hp_raw_payload = raw_payload\<rparr>) total_len)))))"

definition parse_headers_only :: "bytes \<Rightarrow> u8 \<Rightarrow> LeveledParseOk res" where
  "parse_headers_only buffer mqtt_version =
     (if mqtt_version = 3 \<or> mqtt_version = 4 then parse_headers_only_v3 buffer
      else if mqtt_version = 5 then parse_headers_only_v5 buffer
      else Inl InvalidPacketType)"

section \<open>The leveled parsers never panic\<close>

lemma open_leveled_frame:
  "open_leveled b body = Inr ok \<Longrightarrow> (\<exists>h. ok = L_Continue h 0) \<or>
   (\<exists>x xs sz k kind flags. b = x # xs \<and> from_first_byte x = Inr (kind, flags) \<and>
      VariableByteInteger_decode xs = Inr (sz, k) \<and> 1 + k + sz \<le> length b \<and>
      body kind flags (1 + k) sz (1 + k + sz) = Inr ok)"
  by (cases b)
     (auto simp: open_leveled_def parse_remaining_length_def Let_def
       split: if_splits sum.splits ParseError.splits)

lemma open_leveled_no_panic:
  assumes "\<And>kind flags k sz. 2 \<le> k \<Longrightarrow> k + sz \<le> length b \<Longrightarrow> no_panic (body kind flags k sz (k + sz))"
  shows "no_panic (open_leveled b body)"
proof (cases b)
  case (Cons x xs)
  have t: "no_panic (from_first_byte x)"
    by (auto simp: from_first_byte_def intro!: no_panic_tryE)
  have v: "no_panic (VariableByteInteger_decode xs)" by simp
  show ?thesis
  proof (cases "VariableByteInteger_decode xs")
    case (Inl e)
    then show ?thesis
      using Cons t v
      by (auto simp: open_leveled_def parse_remaining_length_def no_panic_Inl
          intro!: no_panic_tryE split: ParseError.splits)
  next
    case (Inr y)
    then obtain sz k where y: "VariableByteInteger_decode xs = Inr (sz, k)" by (cases y) auto
    have "2 \<le> Suc k" using vbi.dec_consumes [OF y] by simp
    from assms [OF this, of sz] show ?thesis
      using Cons t y
      by (auto simp: open_leveled_def parse_remaining_length_def Let_def intro!: no_panic_tryE)
  qed
qed (simp add: open_leveled_def)

definition within :: "bytes \<Rightarrow> ('a \<times> nat) res \<Rightarrow> bool" where
  "within body r \<longleftrightarrow> no_panic r \<and> (\<forall>x n. r = Inr (x, n) \<longrightarrow> n \<le> length body)"

lemma within_tryE:
  "no_panic m \<Longrightarrow> (\<And>x. m = Inr x \<Longrightarrow> within body (f x)) \<Longrightarrow> within body (tryE m f)"
  by (auto simp: within_def intro!: no_panic_tryE)

lemma within_Inl: "no_panic (Inl e :: 'a res) \<Longrightarrow> within body (Inl e)"
  by (simp add: within_def no_panic_Inl)

lemma within_Inr [simp]: "within body (Inr (x, n)) \<longleftrightarrow> n \<le> length body"
  by (simp add: within_def)

lemma packet_id_raw_Inr: "parse_packet_id_raw b = Inr (i, n) \<Longrightarrow> n = 2 \<and> 2 \<le> length b"
  by (auto simp: parse_packet_id_raw_def split: if_splits)

lemma no_panic_packet_id_raw [simp]: "no_panic (parse_packet_id_raw b)"
  by (simp add: parse_packet_id_raw_def)

lemma utf8_consumes: "parse_utf8_string b = Inr (s, n) \<Longrightarrow> n \<le> length b"
  using utf8.dec_consumes [of b s n] by (simp add: parse_utf8_string_def)

lemma props_consumes: "parse_properties_hdr b = Inr (ps, n) \<Longrightarrow> n \<le> length b"
  using sect.dec_consumes [of b ps n] by simp

lemma no_panic_slice [simp]: "n \<le> length b \<Longrightarrow> no_panic (slice_from b n)"
  by (simp add: get_from_def)

lemma no_panic_get [simp]:
  "no_panic (get_from b n BufferTooShort)" "no_panic (get_byte b n BufferTooShort)"
  by (simp_all add: get_from_def get_byte_def)

lemma within_connect_fields:
  "no_panic (connect_fields b)"
  "connect_fields b = Inr (n, v, f, k, off) \<Longrightarrow> off \<le> length b"
  by (auto simp: connect_fields_def Let_def intro!: no_panic_tryE split: if_splits)

lemmas header_defs = parse_publish_header_v5_def parse_connect_header_v5_def parse_connack_header_v5_def
  parse_subscribe_header_v5_def parse_suback_header_v5_def parse_unsubscribe_header_v5_def
  parse_unsuback_header_v5_def parse_id_props_header_def parse_ack_with_props_v5_def
  parse_disconnect_header_v5_def parse_auth_header_v5_def parse_reason_header_def
  parse_publish_header_v3_def parse_connect_header_v3_def parse_connack_header_v3_def

lemma within_publish:
  "within body (parse_publish_header_v5 flags body)" "within body (parse_publish_header_v3 flags body)"
  by (auto simp: header_defs Let_def get_from_Inr intro!: within_tryE no_panic_tryE
      dest!: packet_id_raw_Inr utf8_consumes props_consumes split: if_splits)

lemma within_connect:
  "within body (parse_connect_header_v5 body)" "within body (parse_connect_header_v3 body)"
  "within body (parse_connack_header_v5 body)" "within body (parse_connack_header_v3 body)"
  by (auto simp: header_defs Let_def get_from_Inr within_connect_fields intro!: within_tryE within_Inl
      dest!: props_consumes dest: within_connect_fields(2))

lemma within_acks:
  "within body (parse_id_props_header C body)" "within body (parse_ack_with_props_v5 body kind)"
  by (auto simp: header_defs Let_def get_from_Inr intro!: within_tryE no_panic_tryE
      dest!: packet_id_raw_Inr props_consumes split: if_splits)

lemma within_reason:
  "n \<le> length body \<Longrightarrow> within body (parse_reason_header C body n)"
  by (auto simp: header_defs Let_def get_from_Inr get_byte_def intro!: within_tryE no_panic_tryE
      dest!: props_consumes split: if_splits)

lemma within_variable_header:
  "n \<le> length body \<Longrightarrow> within body (variable_header_v5 kind flags body n)"
  "within body (variable_header_v3 kind flags body)"
proof -
  show "n \<le> length body \<Longrightarrow> within body (variable_header_v5 kind flags body n)"
    by (cases kind) (simp_all add: variable_header_v5_def within_publish within_connect within_acks
      within_reason parse_subscribe_header_v5_def parse_suback_header_v5_def
      parse_unsubscribe_header_v5_def parse_unsuback_header_v5_def
      parse_disconnect_header_v5_def parse_auth_header_v5_def)
  show "within body (variable_header_v3 kind flags body)"
    by (auto simp: variable_header_v3_def within_publish within_connect
        intro!: within_tryE within_Inl dest!: packet_id_raw_Inr)
qed

lemma into_range_ok: "a \<le> b \<Longrightarrow> b \<le> length p \<Longrightarrow> into_range p a b = Inr (take (b - a) (drop a p))"
  by (simp add: into_range_def drop_take)

lemma leveled_no_panic:
  "no_panic (parse_type_only b)" "no_panic (parse_raw_body b)" "no_panic (parse_headers_only b v)"
proof -
  show "no_panic (parse_type_only b)"
    by (auto simp: parse_type_only_def intro!: open_leveled_no_panic)
  show "no_panic (parse_raw_body b)"
    by (auto simp: parse_raw_body_def into_range_ok intro!: open_leveled_no_panic no_panic_tryE)
  have w: "no_panic (tryE (slice_range b k (k + sz)) (\<lambda>packet_body.
       tryE (vh packet_body) (\<lambda>(x, n).
       tryE (into_range b (k + n) (k + sz)) (\<lambda>p. Inr (F x p)))))"
    if "k + sz \<le> length b" "\<And>body. length body = sz \<Longrightarrow> within body (vh body)"
    for k sz and vh :: "bytes \<Rightarrow> (VariableHeader \<times> nat) res" and F :: "VariableHeader \<Rightarrow> bytes \<Rightarrow> LeveledParseOk"
  proof -
    have "slice_range b k (k + sz) = Inr (take sz (drop k b))"
      using that(1) by (simp add: get_range_def)
    moreover have "within (take sz (drop k b)) (vh (take sz (drop k b)))"
      using that by simp
    ultimately show ?thesis
      using that(1)
      by (auto simp: within_def into_range_ok intro!: no_panic_tryE)
  qed
  have "no_panic (parse_headers_only_v5 b)" "no_panic (parse_headers_only_v3 b)"
    unfolding parse_headers_only_v5_def parse_headers_only_v3_def
    by (intro open_leveled_no_panic w; simp add: within_variable_header)+
  then show "no_panic (parse_headers_only b v)" by (simp add: parse_headers_only_def)
qed

section \<open>The raw body is lossless\<close>

lemma first_byte_split:
  "from_first_byte x = Inr (kind, flags) \<Longrightarrow> push_bit 4 (control_packet_type_u8 kind) OR flags = x"
proof -
  assume "from_first_byte x = Inr (kind, flags)"
  then have k: "drop_bit 4 x = control_packet_type_u8 kind" and f: "flags = x AND 15"
    by (auto simp: from_first_byte_def ControlPacketType_try_from_Inr)
  have f: "flags = take_bit 4 x" by (simp add: f take_bit_eq_mod)
  show ?thesis
    unfolding k [symmetric] f
    by (auto intro!: bit_eqI simp: bit_or_iff bit_push_bit_iff bit_drop_bit_eq bit_take_bit_iff
        not_less)
qed

lemma raw_body_lossless:
  assumes "parse_raw_body b = Inr (L_Packet (Parsed_RawBody p) n)"
  shows "take n b = fixed_header_bytes (rb_packet_type p) (rb_flags p) (length (rb_remaining p))
           @ rb_remaining p"
proof -
  from open_leveled_frame [OF assms [unfolded parse_raw_body_def]]
  obtain x xs sz k kind flags where b: "b = x # xs" and f: "from_first_byte x = Inr (kind, flags)"
    and d: "VariableByteInteger_decode xs = Inr (sz, k)" and l: "1 + k + sz \<le> length b"
    and r: "tryE (into_range b (1 + k) (1 + k + sz)) (\<lambda>remaining.
     Inr (L_Packet (Parsed_RawBody \<lparr>rb_packet_type = kind, rb_flags = flags,
                                    rb_remaining = remaining\<rparr>) (1 + k + sz))) = Inr (L_Packet (Parsed_RawBody p) n)"
    by auto
  have p: "rb_packet_type p = kind" "rb_flags p = flags" "rb_remaining p = take sz (drop k xs)" "n = 1 + k + sz"
    using r l b by (auto simp: into_range_ok)
  have s: "length (take sz (drop k xs)) = sz" using l b by simp
  have "take n b = x # take k xs @ take sz (drop k xs)" using b p by (simp add: take_add)
  also have "take k xs = VariableByteInteger_encode (of_nat sz)" by (rule vbi_decode_canonical(5) [OF d])
  finally show ?thesis
    using first_byte_split [OF f] s by (simp add: p fixed_header_bytes_def)
qed

section \<open>Header-level parsing agrees with full parsing\<close>

definition header_agrees :: "MqttPacket \<Rightarrow> VariableHeader \<Rightarrow> bool" where
  "header_agrees packet vh = (case packet of
     P_Publish5 p \<Rightarrow> vh = PublishV5 (pub_topic_name p) (pub_qos p) (pub_dup p) (pub_retain p)
                        (pub_packet_id p) (pub_properties p)
   | P_Connect5 p \<Rightarrow> (\<exists>flags. vh = ConnectV5 (con_protocol_name p) (con_protocol_version p)
                        (con_clean_start p) (con_keep_alive p) flags (con_properties p))
   | P_ConnAck5 p \<Rightarrow> vh = ConnAckV5 (ca_session_present p) (ca_reason_code p) (ca_properties p)
   | P_PubAck5 p \<Rightarrow> vh = PubAckV5 (ack_packet_id p) (ack_reason_code p) (ack_properties p)
   | P_PubRec5 p \<Rightarrow> vh = PubRecV5 (ack_packet_id p) (ack_reason_code p) (ack_properties p)
   | P_PubRel5 p \<Rightarrow> vh = PubRelV5 (ack_packet_id p) (ack_reason_code p) (ack_properties p)
   | P_PubComp5 p \<Rightarrow> vh = PubCompV5 (ack_packet_id p) (ack_reason_code p) (ack_properties p)
   | P_Subscribe5 p \<Rightarrow> vh = SubscribeV5 (sub_packet_id p) (sub_properties p)
   | P_SubAck5 p \<Rightarrow> vh = SubAckV5 (suback_packet_id p) (suback_properties p)
   | P_Unsubscribe5 p \<Rightarrow> vh = UnsubscribeV5 (unsub_packet_id p) (unsub_properties p)
   | P_UnsubAck5 p \<Rightarrow> vh = UnsubAckV5 (suback_packet_id p) (suback_properties p)
   | P_Disconnect5 p \<Rightarrow> vh = DisconnectV5 (disc_reason_code p) (disc_properties p)
   | P_Auth p \<Rightarrow> vh = AuthV5 (auth_reason_code p) (auth_properties p)
   | P_PingReq5 \<Rightarrow> vh = EmptyHeader
   | P_PingResp5 \<Rightarrow> vh = EmptyHeader
   | _ \<Rightarrow> False)"

lemma drop_access:
  assumes "m \<le> length b"
  shows "get_from b (m + i) e = get_from (drop m b) i e"
    "get_byte b (m + i) e = get_byte (drop m b) i e"
    "get_range b (m + i) (m + j) e = get_range (drop m b) i j e"
  using assms by (auto simp: get_from_def get_byte_def get_range_def add.commute)

text \<open>A buffer that is one frame: first byte \<open>x\<close>, body \<open>w\<close> from offset \<open>m\<close> on.\<close>

definition frame_at :: "bytes \<Rightarrow> u8 \<Rightarrow> nat \<Rightarrow> bytes \<Rightarrow> bool" where
  "frame_at b x m w \<longleftrightarrow> (\<exists>xs k. b = x # xs \<and> VariableByteInteger_decode xs = Inr (length w, k) \<and>
     m = 1 + k \<and> m \<le> length b \<and> w = drop m b)"

lemma framed_frame_at: "framed b \<Longrightarrow> \<exists>x m. frame_at b x m (drop m b)"
  by (cases b) (auto simp: framed_def frame_at_def VariableByteInteger_decode_def split: sum.splits)

lemma frame_at_access:
  assumes "frame_at b x m w"
  shows "m \<le> n \<Longrightarrow> get_from b n e = get_from w (n - m) e"
    "m \<le> n \<Longrightarrow> get_byte b n e = get_byte w (n - m) e"
    "m \<le> n \<Longrightarrow> m \<le> n' \<Longrightarrow> get_range b n n' e = get_range w (n - m) (n' - m) e"
    "get_byte b 0 e = Inr x"
proof -
  have *: "m \<le> length b" "w = drop m b" using assms by (auto simp: frame_at_def)
  then show "m \<le> n \<Longrightarrow> get_from b n e = get_from w (n - m) e"
    "m \<le> n \<Longrightarrow> get_byte b n e = get_byte w (n - m) e"
    "m \<le> n \<Longrightarrow> m \<le> n' \<Longrightarrow> get_range b n n' e = get_range w (n - m) (n' - m) e"
    by (auto simp: get_from_def get_byte_def get_range_def)
  show "get_byte b 0 e = Inr x" using assms by (auto simp: frame_at_def)
qed

lemma get_ok:
  "i \<le> length b \<Longrightarrow> get_from b i e = Inr (drop i b)"
  "i < length b \<Longrightarrow> get_byte b i e = Inr (b ! i)"
  "i \<le> j \<Longrightarrow> j \<le> length b \<Longrightarrow> get_range b i j e = Inr (take (j - i) (drop i b))"
  by (simp_all add: get_from_def get_byte_def get_range_def)

lemmas get_Inr = get_from_Inr get_byte_Inr get_range_Inr get_ok

lemma open_packet_frame_at:
  assumes "frame_at b x m w" and "open_packet kind pre b body = Inr ok"
  shows "body (length w) m (m + length w) = Inr ok"
proof -
  have "length b = m + length w" using assms(1) by (auto simp: frame_at_def)
  then show ?thesis
    using assms by (auto simp: frame_at_def open_packet_def packet_type_def parse_remaining_length_def
      Let_def split: if_splits)
qed

lemma parse_packet_id_raw_eq:
  "parse_packet_id b = Inr (i, n) \<Longrightarrow> n = 2 \<and> 2 \<le> length b \<and> parse_packet_id_raw b = Inr (i, 2)"
  by (auto simp: parse_packet_id_def TwoByteInteger_decode_def parse_packet_id_raw_def split: if_splits)

lemma u8_and_nibble:
  "(x AND 15) AND 8 = x AND (8::u8)" "(x AND 15) AND 6 = x AND (6::u8)" "(x AND 15) AND 1 = x AND (1::u8)"
  by (simp_all only: and.assoc) simp_all

lemma u8_and_1: "x AND 1 \<noteq> 0 \<longleftrightarrow> x AND 1 = (1 :: u8)"
  by (simp add: and_one_eq odd_iff_mod_2_eq_one)

lemma drop_4: "drop (4 + n) w = drop (Suc (Suc (Suc (Suc n)))) w"
  by (simp add: numeral_eq_Suc)

lemma parse_properties_hdr_Nil [simp]: "parse_properties_hdr [] \<noteq> Inr x"
  using sect.dec_consumes [of "[]" "fst x" "snd x"] by auto

lemma publish_agrees:
  assumes fr: "frame_at b x m w" and p: "Publish5_from_bytes b = Inr (Packet p n)"
  shows "\<exists>vh c. parse_publish_header_v5 (x AND 15) w = Inr (vh, c) \<and> header_agrees (P_Publish5 p) vh \<and>
    drop c w = pub_payload p"
proof -
  note acc = frame_at_access [OF fr]
  show ?thesis
    using open_packet_frame_at [OF fr p [unfolded Publish5_from_bytes_def acc(4) tryE_Inr]]
    by (auto simp: acc Let_def add.assoc parse_publish_header_v5_def u8_and_nibble publish_qos_of_def
        parse_topic_name_def validated_packet_def get_Inr header_agrees_def
        dest!: parse_packet_id_raw_eq split: if_splits simp del: u8_and_15)
qed

lemma ack_agrees:
  assumes fr: "frame_at b x m w" and p: "Ack5_from_bytes kind flags b = Inr (Packet p n)"
  shows "\<exists>c. parse_ack_with_props_v5 w Vhdr_PubAck =
      Inr (PubAckV5 (ack_packet_id p) (ack_reason_code p) (ack_properties p), c)"
    "\<exists>c. parse_ack_with_props_v5 w Vhdr_PubRec =
      Inr (PubRecV5 (ack_packet_id p) (ack_reason_code p) (ack_properties p), c)"
    "\<exists>c. parse_ack_with_props_v5 w Vhdr_PubRel =
      Inr (PubRelV5 (ack_packet_id p) (ack_reason_code p) (ack_properties p), c)"
    "\<exists>c. parse_ack_with_props_v5 w Vhdr_PubComp =
      Inr (PubCompV5 (ack_packet_id p) (ack_reason_code p) (ack_properties p), c)"
  using open_packet_frame_at [OF fr p [unfolded Ack5_from_bytes_def]]
  by (auto simp: frame_at_access [OF fr] Let_def add.assoc parse_ack_with_props_v5_def
      validated_packet_def get_Inr dest!: parse_packet_id_raw_eq split: if_splits)

lemma connack_agrees:
  assumes fr: "frame_at b x m w" and p: "ConnAck5_from_bytes b = Inr (Packet p n)"
  shows "\<exists>vh c. parse_connack_header_v5 w = Inr (vh, c) \<and> header_agrees (P_ConnAck5 p) vh"
proof -
  note acc = frame_at_access [OF fr]
  show ?thesis
    using open_packet_frame_at [OF fr p [unfolded ConnAck5_from_bytes_def]]
    by (auto simp: acc Let_def add.assoc parse_connack_header_v5_def validated_packet_def get_Inr
        header_agrees_def u8_and_1 split: if_splits)
qed

lemma connect_agrees:
  assumes fr: "frame_at b x m w" and p: "Connect5_from_bytes b = Inr (Packet p n)"
  shows "\<exists>vh c. parse_connect_header_v5 w = Inr (vh, c) \<and> header_agrees (P_Connect5 p) vh"
proof -
  note acc = frame_at_access [OF fr]
  show ?thesis
    using open_packet_frame_at [OF fr p [unfolded Connect5_from_bytes_def]]
    by (auto simp: acc Let_def add.assoc parse_connect_header_v5_def validated_packet_def get_Inr
        connect_fields_def header_agrees_def drop_4 split: if_splits)
qed

lemma id_props_agrees:
  assumes fr: "frame_at b x m w"
  shows "Subscribe5_from_bytes b = Inr (Packet p n) \<Longrightarrow>
      \<exists>c. parse_id_props_header C w = Inr (C (sub_packet_id p) (sub_properties p), c)"
    "Unsubscribe5_from_bytes b = Inr (Packet q n) \<Longrightarrow>
      \<exists>c. parse_id_props_header C w = Inr (C (unsub_packet_id q) (unsub_properties q), c)"
    "SubAck5_from_bytes kind b = Inr (Packet r n) \<Longrightarrow>
      \<exists>c. parse_id_props_header C w = Inr (C (suback_packet_id r) (suback_properties r), c)"
  unfolding Subscribe5_from_bytes_def Unsubscribe5_from_bytes_def SubAck5_from_bytes_def
  by (drule open_packet_frame_at [OF fr],
      auto simp: frame_at_access [OF fr] Let_def add.assoc parse_id_props_header_def
        validated_packet_def get_Inr dest!: parse_packet_id_raw_eq split: if_splits)+

lemma reason_agrees:
  assumes fr: "frame_at b x m w"
  shows "Disconnect5_from_bytes b = Inr (Packet p n) \<Longrightarrow>
      \<exists>c. parse_reason_header C w (length w) = Inr (C (disc_reason_code p) (disc_properties p), c)"
    "Auth5_from_bytes b = Inr (Packet q n) \<Longrightarrow>
      \<exists>c. parse_reason_header C w (length w) = Inr (C (auth_reason_code q) (auth_properties q), c)"
  unfolding Disconnect5_from_bytes_def Auth5_from_bytes_def
  by (drule open_packet_frame_at [OF fr],
      auto simp: frame_at_access [OF fr] Let_def add.assoc parse_reason_header_def
        validated_packet_def get_Inr split: if_splits)+

lemma into_packet_Packet:
  "into_packet C r = Inr (Packet p n) \<longleftrightarrow> (\<exists>q. r = Inr (Packet q n) \<and> p = C q)"
  by (cases r) (auto simp: into_packet_def split: ParseOk.splits)

lemma variable_header_agrees:
  assumes fr: "frame_at b x m w" and p: "from_bytes_v5 b = Inr (Packet p n)"
  shows "\<exists>vh c. drop_bit 4 x = control_packet_type_u8 (MqttPacket_packet_type p) \<and>
    variable_header_v5 (MqttPacket_packet_type p) (x AND 15) w (length w) = Inr (vh, c) \<and>
    header_agrees p vh \<and> (\<forall>q. p = P_Publish5 q \<longrightarrow> drop c w = pub_payload q)"
proof -
  obtain xs where b: "b = x # xs" using fr by (auto simp: frame_at_def)
  obtain kind where k: "drop_bit 4 x = control_packet_type_u8 kind"
    using p b by (auto simp: from_bytes_v5_def packet_type_def ControlPacketType_try_from_Inr)
  then have "packet_type b = Inr (control_packet_type_u8 kind)" by (simp add: b packet_type_def)
  note p = p [unfolded from_bytes_v5_dispatch [OF this]]
  note defs = into_packet_Packet variable_header_v5_def k header_agrees_def
    parse_subscribe_header_v5_def parse_suback_header_v5_def parse_unsubscribe_header_v5_def
    parse_unsuback_header_v5_def parse_disconnect_header_v5_def parse_auth_header_v5_def
  show ?thesis
  proof (cases kind)
    case PUBLISH
    then obtain q where q: "Publish5_from_bytes b = Inr (Packet q n)" "p = P_Publish5 q"
      using p by (auto simp: into_packet_Packet)
    show ?thesis using publish_agrees [OF fr q(1)] PUBLISH q(2) by (auto simp: defs(1-3) simp del: u8_and_15)
  next
    case CONNECT
    then obtain q where q: "Connect5_from_bytes b = Inr (Packet q n)" "p = P_Connect5 q"
      using p by (auto simp: into_packet_Packet)
    show ?thesis using connect_agrees [OF fr q(1)] CONNECT q(2) by (auto simp: defs(1-3) simp del: u8_and_15)
  next
    case CONNACK
    then obtain q where q: "ConnAck5_from_bytes b = Inr (Packet q n)" "p = P_ConnAck5 q"
      using p by (auto simp: into_packet_Packet)
    show ?thesis using connack_agrees [OF fr q(1)] CONNACK q(2) by (auto simp: defs(1-3) simp del: u8_and_15)
  next
    case PUBACK
    then obtain q where q: "Ack5_from_bytes PUBACK 0 b = Inr (Packet q n)" "p = P_PubAck5 q"
      using p by (auto simp: into_packet_Packet)
    show ?thesis using ack_agrees(1) [OF fr q(1)] PUBACK q(2) by (auto simp: defs simp del: u8_and_15)
  next
    case PUBREC
    then obtain q where q: "Ack5_from_bytes PUBREC 0 b = Inr (Packet q n)" "p = P_PubRec5 q"
      using p by (auto simp: into_packet_Packet)
    show ?thesis using ack_agrees(2) [OF fr q(1)] PUBREC q(2) by (auto simp: defs simp del: u8_and_15)
  next
    case PUBREL
    then obtain q where q: "Ack5_from_bytes PUBREL 2 b = Inr (Packet q n)" "p = P_PubRel5 q"
      using p by (auto simp: into_packet_Packet)
    show ?thesis using ack_agrees(3) [OF fr q(1)] PUBREL q(2) by (auto simp: defs simp del: u8_and_15)
  next
    case PUBCOMP
    then obtain q where q: "Ack5_from_bytes PUBCOMP 0 b = Inr (Packet q n)" "p = P_PubComp5 q"
      using p by (auto simp: into_packet_Packet)
    show ?thesis using ack_agrees(4) [OF fr q(1)] PUBCOMP q(2) by (auto simp: defs simp del: u8_and_15)
  next
    case SUBSCRIBE
    then obtain q where q: "Subscribe5_from_bytes b = Inr (Packet q n)" "p = P_Subscribe5 q"
      using p by (auto simp: into_packet_Packet)
    show ?thesis using id_props_agrees(1) [OF fr q(1), where C = SubscribeV5] SUBSCRIBE q(2) by (auto simp: defs simp del: u8_and_15)
  next
    case SUBACK
    then obtain q where q: "SubAck5_from_bytes SUBACK b = Inr (Packet q n)" "p = P_SubAck5 q"
      using p by (auto simp: into_packet_Packet)
    show ?thesis using id_props_agrees(3) [OF fr q(1), where C = SubAckV5] SUBACK q(2) by (auto simp: defs simp del: u8_and_15)
  next
    case UNSUBSCRIBE
    then obtain q where q: "Unsubscribe5_from_bytes b = Inr (Packet q n)" "p = P_Unsubscribe5 q"
      using p by (auto simp: into_packet_Packet)
    show ?thesis using id_props_agrees(2) [OF fr q(1), where C = UnsubscribeV5] UNSUBSCRIBE q(2) by (auto simp: defs simp del: u8_and_15)
  next
    case UNSUBACK
    then obtain q where q: "SubAck5_from_bytes UNSUBACK b = Inr (Packet q n)" "p = P_UnsubAck5 q"
      using p by (auto simp: into_packet_Packet)
    show ?thesis using id_props_agrees(3) [OF fr q(1), where C = UnsubAckV5] UNSUBACK q(2) by (auto simp: defs simp del: u8_and_15)
  next
    case DISCONNECT
    then obtain q where q: "Disconnect5_from_bytes b = Inr (Packet q n)" "p = P_Disconnect5 q"
      using p by (auto simp: into_packet_Packet)
    show ?thesis using reason_agrees(1) [OF fr q(1), where C = DisconnectV5] DISCONNECT q(2) by (auto simp: defs simp del: u8_and_15)
  next
    case AUTH
    then obtain q where q: "Auth5_from_bytes b = Inr (Packet q n)" "p = P_Auth q"
      using p by (auto simp: into_packet_Packet)
    show ?thesis using reason_agrees(2) [OF fr q(1), where C = AuthV5] AUTH q(2) by (auto simp: defs simp del: u8_and_15)
  qed (use p in \<open>auto simp: defs\<close>)
qed

lemma open_leveled_frame_at:
  assumes "frame_at b x m w" and "drop_bit 4 x = control_packet_type_u8 kind"
  shows "open_leveled b body = body kind (x AND 15) m (length w) (length b)"
proof -
  have "from_first_byte x = Inr (kind, x AND 15)"
    using assms(2) by (simp add: from_first_byte_def)
  moreover have "length b = m + length w" "2 \<le> m"
    using assms(1) by (auto simp: frame_at_def dest!: vbi.dec_consumes)
  ultimately show ?thesis
    using assms(1) by (auto simp: open_leveled_def frame_at_def parse_remaining_length_def Let_def)
qed

lemma levels_agree_v5:
  assumes "framed b" and p: "from_bytes_v5 b = Inr (Packet p n)"
  shows "\<exists>h. parse_headers_only_v5 b = Inr (L_Packet (Parsed_Headers h) n) \<and>
      hp_packet_type h = MqttPacket_packet_type p \<and> header_agrees p (hp_variable_header h) \<and>
      (\<forall>q. p = P_Publish5 q \<longrightarrow> hp_raw_payload h = pub_payload q)"
    and "\<exists>r. parse_raw_body b = Inr (L_Packet (Parsed_RawBody r) n) \<and>
      rb_packet_type r = MqttPacket_packet_type p"
    and "\<exists>t. parse_type_only b = Inr (L_Packet (Parsed_TypeOnly t) n) \<and>
      to_packet_type t = MqttPacket_packet_type p"
proof -
  obtain x m w where fr: "frame_at b x m w" using framed_frame_at [OF assms(1)] by blast
  have w: "length b = m + length w" "w = drop m b" using fr by (auto simp: frame_at_def)
  have n: "n = length b"
    using from_bytes_consumes_frame(1) [of b] p frame_size_framed [of b] assms(1)
    by (simp add: consumes_frame_def)
  obtain vh c where v: "drop_bit 4 x = control_packet_type_u8 (MqttPacket_packet_type p)"
    "variable_header_v5 (MqttPacket_packet_type p) (x AND 15) w (length w) = Inr (vh, c)"
    "header_agrees p vh" "\<forall>q. p = P_Publish5 q \<longrightarrow> drop c w = pub_payload q"
    using variable_header_agrees [OF fr p] by blast
  have c: "c \<le> length w"
    using within_variable_header(1) [of "length w" w "MqttPacket_packet_type p" "x AND 15"] v(2)
    by (simp add: within_def)
  have s: "slice_range b m (length b) = Inr w"
    "into_range b (m + c) (length b) = Inr (drop c w)" "into_range b m (length b) = Inr w"
    using w c by (simp_all add: get_range_def into_range_def add.commute)
  show "\<exists>h. parse_headers_only_v5 b = Inr (L_Packet (Parsed_Headers h) n) \<and>
      hp_packet_type h = MqttPacket_packet_type p \<and> header_agrees p (hp_variable_header h) \<and>
      (\<forall>q. p = P_Publish5 q \<longrightarrow> hp_raw_payload h = pub_payload q)"
    using v s n by (simp add: parse_headers_only_v5_def open_leveled_frame_at [OF fr v(1)] del: u8_and_15)
  show "\<exists>r. parse_raw_body b = Inr (L_Packet (Parsed_RawBody r) n) \<and>
      rb_packet_type r = MqttPacket_packet_type p"
    using s n by (simp add: parse_raw_body_def open_leveled_frame_at [OF fr v(1)])
  show "\<exists>t. parse_type_only b = Inr (L_Packet (Parsed_TypeOnly t) n) \<and>
      to_packet_type t = MqttPacket_packet_type p"
    using n by (simp add: parse_type_only_def open_leveled_frame_at [OF fr v(1)])
qed

end
