(* ===== verification/Stream_Parser.thy ===== *)
theory Stream_Parser
  imports Leveled
begin

text \<open>
  The stateful stream parser, \<open>src/src/mqtt_serde/parser/stream.rs\<close>, in the default build (owned
  storage with a read offset): \<open>feed\<close>, \<open>next_packet\<close>, \<open>next_parsed\<close>, version detection, the
  lazy compaction of the buffer, and the reading iterator \<open>MqttStream\<close>.  An operation returns its
  result with the new state, also when the result is an error.
\<close>

section \<open>State and operations\<close>

record MqttParser =
  mp_buffer :: bytes
  mp_read_offset :: nat
  mp_version :: u8
  mp_level :: ParseLevel

definition MqttParser_new :: "u8 \<Rightarrow> MqttParser" where
  "MqttParser_new mqtt_version = \<lparr>mp_buffer = [], mp_read_offset = 0, mp_version = mqtt_version,
     mp_level = Level_Full\<rparr>"

definition MqttParser_with_level :: "u8 \<Rightarrow> ParseLevel \<Rightarrow> MqttParser" where
  "MqttParser_with_level mqtt_version level = \<lparr>mp_buffer = [], mp_read_offset = 0,
     mp_version = mqtt_version, mp_level = level\<rparr>"

definition ParseLevel_from :: "u8 \<Rightarrow> ParseLevel" where
  "ParseLevel_from v =
     (if v = 1 then Level_HeadersParsed else if v = 2 then Level_RawBody
      else if v = 3 then Level_TypeOnly else Level_Full)"

definition set_parse_level :: "ParseLevel \<Rightarrow> MqttParser \<Rightarrow> MqttParser" where
  "set_parse_level level s = s\<lparr>mp_level := level\<rparr>"

text \<open>\<open>buffer\<close>: the slice \<open>&self.buffer[self.read_offset..]\<close>.\<close>

definition parser_buffer :: "MqttParser \<Rightarrow> bytes res" where
  "parser_buffer s = slice_from (mp_buffer s) (mp_read_offset s)"

definition compact :: "MqttParser \<Rightarrow> MqttParser res" where
  "compact s =
     (if mp_read_offset s \<noteq> 0 then
        tryE (parser_buffer s) (\<lambda>unread.
        let unread_len = length unread;
            buffer = unread @ drop (length unread) (mp_buffer s)
        in Inr (s\<lparr>mp_buffer := take unread_len buffer, mp_read_offset := 0\<rparr>))
      else Inr s)"

definition feed :: "bytes \<Rightarrow> MqttParser \<Rightarrow> MqttParser res" where
  "feed data s =
     tryE (if mp_read_offset s \<noteq> 0 then
             tryE (parser_buffer s) (\<lambda>unread.
             if length unread \<le> mp_read_offset s then compact s else Inr s)
           else Inr s) (\<lambda>s.
     Inr (s\<lparr>mp_buffer := mp_buffer s @ data\<rparr>))"

definition advance :: "nat \<Rightarrow> MqttParser \<Rightarrow> MqttParser res" where
  "advance consumed s =
     tryE (parser_buffer s) (\<lambda>unread.
     if \<not> consumed \<le> length unread then Inl (Panic ''assertion failed: consumed <= self.buffer().len()'')
     else
       let read_offset = mp_read_offset s + consumed in
       if read_offset = length (mp_buffer s)
       then Inr (s\<lparr>mp_buffer := [], mp_read_offset := 0\<rparr>)
       else Inr (s\<lparr>mp_read_offset := read_offset\<rparr>))"

definition take_frame :: "nat \<Rightarrow> MqttParser \<Rightarrow> (bytes \<times> MqttParser) res" where
  "take_frame len s =
     tryE (parser_buffer s) (\<lambda>unread.
     tryE (slice_range unread 0 len) (\<lambda>frame.
     tryE (advance len s) (\<lambda>s. Inr (frame, s))))"

definition buffer_mut :: "MqttParser \<Rightarrow> MqttParser res" where
  "buffer_mut s = compact s"

definition set_mqtt_vsn :: "nat \<Rightarrow> MqttParser \<Rightarrow> (u8 \<times> MqttParser) res" where
  "set_mqtt_vsn offset s =
     (if mp_version s \<noteq> 0 then Inr (mp_version s, s)
      else
        tryE (parser_buffer s) (\<lambda>buffer.
        tryE (index_byte buffer offset) (\<lambda>first.
        if first \<noteq> 0x10 then Inl (ParseErr ''Expected CONNECT packet to determine MQTT version'')
        else
          let offset = offset + 1 in
          tryE (slice_from buffer offset) (\<lambda>rest.
          tryE (parse_vbi rest) (\<lambda>(_, consumed).
          let offset = offset + consumed in
          tryE (slice_from buffer offset) (\<lambda>rest.
          tryE (parse_utf8_string rest) (\<lambda>(_, consumed).
          let vsn_offset = offset + consumed in
          if length buffer < vsn_offset + 1
          then Inl (More (vsn_offset + 1 - length buffer) ''MQTT version'')
          else
            tryE (index_byte buffer vsn_offset) (\<lambda>v. Inr (v, s\<lparr>mp_version := v\<rparr>)))))))))"

text \<open>
  \<open>next_packet\<close>.  The result and the new state are a pair; a panic keeps the state it occurred in.
\<close>

definition next_packet :: "MqttParser \<Rightarrow> MqttPacket option res \<times> MqttParser" where
  "next_packet s =
     (if mp_version s = 0
      then (Inl (Panic ''MQTT version must be set before parsing packets''), s)
      else case parser_buffer s of
        Inl e \<Rightarrow> (Inl e, s)
      | Inr buffer \<Rightarrow>
          if buffer = [] then (Inr None, s)
          else case packet_frame_len buffer of
            Inl e \<Rightarrow> (Inl e, s)
          | Inr None \<Rightarrow> (Inr None, s)
          | Inr (Some frame_len) \<Rightarrow>
              (case tryE (slice_range buffer 0 frame_len)
                      (\<lambda>frame. from_bytes_with_version frame (mp_version s)) of
                 Inr (Packet packet consumed) \<Rightarrow>
                   (case advance consumed s of
                      Inl e \<Rightarrow> (Inl e, s)
                    | Inr s' \<Rightarrow> (Inr (Some packet), s'))
               | Inr (Continue _ _) \<Rightarrow> (Inr None, s)
               | Inl e \<Rightarrow> (Inl e, s)
               | Inr (TopicName _ _) \<Rightarrow> (Inl (ParseErr ''Unexpected ParseOk variant''), s)))"

text \<open>
  The arms of \<open>next_parsed\<close> for a raw body and for headers: the frame is taken out of the buffer
  before it is parsed, so a parse error also consumes it.
\<close>

definition next_from_frame ::
  "(bytes \<Rightarrow> LeveledParseOk res) \<Rightarrow> bytes \<Rightarrow> MqttParser \<Rightarrow> ParsedPacket option res \<times> MqttParser" where
  "next_from_frame parse buffer s =
     (case packet_frame_len buffer of
        Inl e \<Rightarrow> (Inl e, s)
      | Inr None \<Rightarrow> (Inr None, s)
      | Inr (Some total_len) \<Rightarrow>
          (case take_frame total_len s of
             Inl e \<Rightarrow> (Inl e, s)
           | Inr (packet_bytes, s') \<Rightarrow>
               (case parse packet_bytes of
                  Inr (L_Packet pkt _) \<Rightarrow> (Inr (Some pkt), s')
                | Inl e \<Rightarrow> (Inl e, s')
                | Inr (L_Continue _ _) \<Rightarrow> (Inl (Panic ''frame completeness already verified''), s'))))"

definition next_parsed :: "MqttParser \<Rightarrow> ParsedPacket option res \<times> MqttParser" where
  "next_parsed s =
     (case parser_buffer s of
        Inl e \<Rightarrow> (Inl e, s)
      | Inr buffer \<Rightarrow>
          if buffer = [] then (Inr None, s)
          else case mp_level s of
            Level_Full \<Rightarrow>
              (let (r, s') = next_packet s in
               (case r of Inl e \<Rightarrow> Inl e | Inr packet \<Rightarrow> Inr (map_option Parsed_Full packet), s'))
          | Level_TypeOnly \<Rightarrow>
              (case parse_type_only buffer of
                 Inr (L_Packet pkt consumed) \<Rightarrow>
                   (case advance consumed s of
                      Inl e \<Rightarrow> (Inl e, s)
                    | Inr s' \<Rightarrow> (Inr (Some pkt), s'))
               | Inr (L_Continue _ _) \<Rightarrow> (Inr None, s)
               | Inl e \<Rightarrow> (Inl e, s))
          | Level_RawBody \<Rightarrow> next_from_frame parse_raw_body buffer s
          | Level_HeadersParsed \<Rightarrow>
              if mp_version s = 0
              then (Inl (Panic ''MQTT version must be set before parsing packets''), s)
              else next_from_frame (\<lambda>b. parse_headers_only b (mp_version s)) buffer s)"

section \<open>Refinement: the unread bytes\<close>

text \<open>
  The abstract parser is the string of unread bytes: feeding appends, a packet removes its frame,
  and neither depends on how the bytes are stored.
\<close>

definition unread :: "MqttParser \<Rightarrow> bytes" where
  "unread s = drop (mp_read_offset s) (mp_buffer s)"

definition parser_inv :: "MqttParser \<Rightarrow> bool" where
  "parser_inv s \<longleftrightarrow> mp_read_offset s \<le> length (mp_buffer s)"

definition abs_next :: "u8 \<Rightarrow> bytes \<Rightarrow> MqttPacket option res \<times> bytes" where
  "abs_next v b =
     (case packet_frame_len b of
        Inl e \<Rightarrow> (Inl e, b)
      | Inr None \<Rightarrow> (Inr None, b)
      | Inr (Some n) \<Rightarrow>
          (case from_bytes_with_version (take n b) v of
             Inr (Packet p _) \<Rightarrow> (Inr (Some p), drop n b)
           | Inr _ \<Rightarrow> (Inr None, b)
           | Inl e \<Rightarrow> (Inl e, b)))"

lemma parser_inv_new [simp]:
  "parser_inv (MqttParser_new v)" "unread (MqttParser_new v) = []"
  "parser_inv (MqttParser_with_level v l)" "unread (MqttParser_with_level v l) = []"
  by (simp_all add: parser_inv_def unread_def MqttParser_new_def MqttParser_with_level_def)

lemma parser_buffer_unread: "parser_inv s \<Longrightarrow> parser_buffer s = Inr (unread s)"
  by (simp add: parser_inv_def parser_buffer_def unread_def get_from_def)

lemma compact_refines:
  assumes "parser_inv s"
  shows "\<exists>s'. compact s = Inr s' \<and> parser_inv s' \<and> unread s' = unread s \<and>
    mp_read_offset s' = 0 \<and> mp_version s' = mp_version s \<and> mp_level s' = mp_level s"
  using assms
  by (auto simp: compact_def parser_buffer_unread Let_def)
     (simp_all add: parser_inv_def unread_def)

lemma feed_refines:
  assumes "parser_inv s"
  shows "\<exists>s'. feed d s = Inr s' \<and> parser_inv s' \<and> unread s' = unread s @ d \<and>
    mp_version s' = mp_version s \<and> mp_level s' = mp_level s"
proof -
  obtain c where c: "compact s = Inr c" "parser_inv c" "unread c = unread s"
    "mp_version c = mp_version s" "mp_level c = mp_level s"
    using compact_refines [OF assms] by blast
  have app: "parser_inv (t\<lparr>mp_buffer := mp_buffer t @ d\<rparr>) \<and>
      unread (t\<lparr>mp_buffer := mp_buffer t @ d\<rparr>) = unread t @ d" if "parser_inv t" for t
    using that by (simp add: parser_inv_def unread_def)
  show ?thesis
    using c app [OF assms] app [OF c(2)] by (auto simp: feed_def parser_buffer_unread [OF assms])
qed

lemma advance_refines:
  assumes "parser_inv s" and "n \<le> length (unread s)"
  shows "\<exists>s'. advance n s = Inr s' \<and> parser_inv s' \<and> unread s' = drop n (unread s) \<and>
    mp_version s' = mp_version s \<and> mp_level s' = mp_level s"
  using assms
  by (auto simp: advance_def parser_buffer_unread Let_def)
     (auto simp: parser_inv_def unread_def add.commute)

lemma from_bytes_frame_exact:
  assumes "frame_size b = Some n" and "n \<le> length b"
    and "from_bytes_with_version (take n b) v = Inr ok"
  shows "\<exists>p. ok = Packet p n"
  using from_bytes_consumes_frame(3) [of "take n b" v] assms frame_size_take [OF assms(1,2)]
  by (auto simp: consumes_frame_def split: ParseOk.splits)

lemma packet_frame_len_Nil [simp]: "packet_frame_len [] = Inr None"
  by (simp add: packet_frame_len_def)

lemma next_packet_refines:
  assumes "parser_inv s" and "mp_version s \<noteq> 0" and "next_packet s = (r, s')"
  shows "(r, unread s') = abs_next (mp_version s) (unread s)"
    and "parser_inv s' \<and> mp_version s' = mp_version s \<and> mp_level s' = mp_level s"
proof -
  have "(r, unread s') = abs_next (mp_version s) (unread s) \<and>
    parser_inv s' \<and> mp_version s' = mp_version s \<and> mp_level s' = mp_level s"
  proof (cases "packet_frame_len (unread s)")
    case (Inl e)
    then have "unread s \<noteq> []" by auto
    then show ?thesis
      using Inl assms by (auto simp: next_packet_def parser_buffer_unread abs_next_def)
  next
    case (Inr o')
    show ?thesis
    proof (cases o')
      case None
      then show ?thesis
        using assms Inr by (auto simp: next_packet_def parser_buffer_unread abs_next_def split: if_splits)
    next
      case (Some n)
      then have n: "frame_size (unread s) = Some n" "n \<le> length (unread s)"
        using Inr by (simp_all add: packet_frame_len_Some)
      then have ne: "unread s \<noteq> []" by (auto simp: frame_size_def)
      obtain t where t: "advance n s = Inr t" "parser_inv t" "unread t = drop n (unread s)"
        "mp_version t = mp_version s" "mp_level t = mp_level s"
        using advance_refines [OF assms(1) n(2)] by blast
      have sl: "slice_range (unread s) 0 n = Inr (take n (unread s))"
        using n(2) by (simp add: get_range_def)
      show ?thesis
      proof (cases "from_bytes_with_version (take n (unread s)) (mp_version s)")
        case (Inl e)
        then show ?thesis
          using assms Inr Some ne sl
          by (auto simp: next_packet_def parser_buffer_unread abs_next_def)
      next
        case (Inr ok)
        then obtain p where p: "ok = Packet p n" using from_bytes_frame_exact [OF n] by blast
        then show ?thesis
          using assms \<open>packet_frame_len (unread s) = Inr o'\<close> Some ne sl Inr t
          by (auto simp: next_packet_def parser_buffer_unread abs_next_def)
      qed
    qed
  qed
  then show "(r, unread s') = abs_next (mp_version s) (unread s)"
    "parser_inv s' \<and> mp_version s' = mp_version s \<and> mp_level s' = mp_level s" by simp_all
qed

section \<open>Draining the buffer\<close>

lemma abs_next_Some:
  "abs_next v b = (Inr (Some p), b') \<longleftrightarrow>
   (\<exists>n. frame_size b = Some n \<and> n \<le> length b \<and>
      from_bytes_with_version (take n b) v = Inr (Packet p n) \<and> b' = drop n b)"
proof
  assume a: "abs_next v b = (Inr (Some p), b')"
  then obtain n m where "packet_frame_len b = Inr (Some n)"
    "from_bytes_with_version (take n b) v = Inr (Packet p m)" "b' = drop n b"
    by (auto simp: abs_next_def split: sum.splits option.splits ParseOk.splits)
  then show "\<exists>n. frame_size b = Some n \<and> n \<le> length b \<and>
      from_bytes_with_version (take n b) v = Inr (Packet p n) \<and> b' = drop n b"
    using from_bytes_frame_exact [of b n v] by (auto simp: packet_frame_len_Some)
next
  assume "\<exists>n. frame_size b = Some n \<and> n \<le> length b \<and>
      from_bytes_with_version (take n b) v = Inr (Packet p n) \<and> b' = drop n b"
  then obtain n where "packet_frame_len b = Inr (Some n)"
    "from_bytes_with_version (take n b) v = Inr (Packet p n)" "b' = drop n b"
    by (auto simp: packet_frame_len_Some)
  then show "abs_next v b = (Inr (Some p), b')" by (simp add: abs_next_def)
qed

lemma abs_next_keeps: "abs_next v b = (r, b') \<Longrightarrow> (\<forall>p. r \<noteq> Inr (Some p)) \<Longrightarrow> b' = b"
  by (auto simp: abs_next_def split: sum.splits option.splits ParseOk.splits)

lemma abs_next_shrinks: "abs_next v b = (Inr (Some p), b') \<Longrightarrow> length b' < length b"
  by (auto simp: abs_next_Some dest!: frame_size_ge_2)

text \<open>The loop of the callers: take packets until the buffer has no complete one, or an error.\<close>

function drain :: "u8 \<Rightarrow> bytes \<Rightarrow> MqttPacket list \<times> ParseError option \<times> bytes" where
  "drain v b = (case abs_next v b of
      (Inr (Some p), b') \<Rightarrow> (let (ps, e, r) = drain v b' in (p # ps, e, r))
    | (Inr None, b') \<Rightarrow> ([], None, b')
    | (Inl e, b') \<Rightarrow> ([], Some e, b'))"
  by pat_completeness auto
termination
  by (relation "measure (\<lambda>(v, b). length b)") (auto dest: abs_next_shrinks [OF sym])

declare drain.simps [simp del]

text \<open>What is already decided does not change when more bytes arrive.\<close>

lemma vbi_loop_append:
  "\<forall>n s. vbi_decode_loop b i m val \<noteq> Inl (More n s) \<Longrightarrow>
   vbi_decode_loop (b @ c) i m val = vbi_decode_loop b i m val"
proof (induction b i m val rule: vbi_decode_loop.induct)
  case (1 b i m val)
  have i: "i < length b"
  proof (rule ccontr)
    assume "\<not> i < length b"
    then have "vbi_decode_loop b i m val = Inl (More 1 ''vbi: not enough bytes for remaining length'')"
      by (simp add: vbi_decode_loop.simps [of b i])
    then show False using 1(2) by blast
  qed
  let ?v = "val + unat ((b ! i) AND 127) * m"
  show ?case
  proof (cases "(127 < b ! i \<and> i = 3) \<or> \<not> ?v \<le> 268435455 \<or> (b ! i) AND 128 = 0")
    case True
    then show ?thesis
      using i by (subst (1 2) vbi_decode_loop.simps) (auto simp: nth_append Let_def simp del: u8_and_127)
  next
    case False
    then have e: "vbi_decode_loop b i m val = vbi_decode_loop b (i + 1) (m * 128) ?v"
      "vbi_decode_loop (b @ c) i m val = vbi_decode_loop (b @ c) (i + 1) (m * 128) ?v"
      using i by (subst vbi_decode_loop.simps; auto simp: nth_append Let_def simp del: u8_and_127)+
    have "vbi_decode_loop (b @ c) (i + 1) (m * 128) ?v = vbi_decode_loop b (i + 1) (m * 128) ?v"
      using False i 1(2) by (intro 1(1) [OF _ refl _ refl]) (simp_all add: e del: u8_and_127)
    then show ?thesis by (simp only: e)
  qed
qed

lemma vbi_decode_append:
  assumes "\<forall>n s. VariableByteInteger_decode b \<noteq> Inl (More n s)" and "b \<noteq> []"
  shows "VariableByteInteger_decode (b @ c) = VariableByteInteger_decode b"
proof (cases "vbi_decode_loop b 0 1 0")
  case (Inl e)
  then have "vbi_decode_loop (b @ c) 0 1 0 = Inl e"
    using assms vbi_loop_append [of b 0 1 0 c] by (auto simp: VariableByteInteger_decode_def)
  then show ?thesis using Inl assms(2) by (simp add: VariableByteInteger_decode_def)
next
  case (Inr y)
  then obtain val i where y: "vbi_decode_loop b 0 1 0 = Inr (val, i)" by (cases y) auto
  then have "vbi_decode_loop (b @ c) 0 1 0 = Inr (val, i)"
    using vbi_loop_append [of b 0 1 0 c] by simp
  moreover have "i \<le> length b" "0 < i"
    using vbi_decode_loop_sound [of b 0 0 val i] y by auto
  ultimately show ?thesis
    using y assms(2) by (auto simp: VariableByteInteger_decode_def nth_append)
qed

lemma packet_frame_len_Inl:
  "packet_frame_len b = Inl e \<Longrightarrow> packet_frame_len (b @ c) = Inl e"
proof -
  assume e: "packet_frame_len b = Inl e"
  then have l: "2 \<le> length b" by (auto simp: packet_frame_len_def split: if_splits)
  then obtain x xs where b: "b = x # xs" "xs \<noteq> []"
    by (metis One_nat_def Suc_le_length_iff length_Cons length_0_conv list.size(3) not_less_eq_eq numeral_2_eq_2 zero_le)
  have v: "VariableByteInteger_decode xs = Inl e" "\<forall>n s. e \<noteq> More n s"
    using e l by (auto simp: b packet_frame_len_def parse_remaining_length_def Let_def
        split: sum.splits ParseError.splits if_splits)
  then have "VariableByteInteger_decode (xs @ c) = Inl e"
    using vbi_decode_append [of xs c] b(2) by simp
  then show ?thesis
    using v(2) l b by (cases e) (auto simp: packet_frame_len_def parse_remaining_length_def)
qed

lemma abs_next_append:
  "abs_next v b = (Inr (Some p), b') \<Longrightarrow> abs_next v (b @ c) = (Inr (Some p), b' @ c)"
  by (auto simp: abs_next_Some frame_size_append)

lemma abs_next_append_error:
  assumes "abs_next v b = (Inl e, b')"
  shows "abs_next v (b @ c) = (Inl e, b @ c)"
proof (cases "packet_frame_len b")
  case (Inl e')
  then show ?thesis
    using assms packet_frame_len_Inl [OF Inl, of c] by (auto simp: abs_next_def)
next
  case (Inr o')
  then obtain n where n: "packet_frame_len b = Inr (Some n)"
    "from_bytes_with_version (take n b) v = Inl e"
    using assms by (cases o') (auto simp: abs_next_def split: sum.splits ParseOk.splits)
  then have "packet_frame_len (b @ c) = Inr (Some n)" "take n (b @ c) = take n b"
    by (auto simp: packet_frame_len_Some frame_size_append)
  then show ?thesis using n(2) by (simp add: abs_next_def del: take_append)
qed

text \<open>Draining before more bytes arrive and going on with the rest is draining everything at once.\<close>

lemma drain_append:
  "drain v b = (ps, None, r) \<Longrightarrow> drain v (b @ c) = (let (qs, e, r') = drain v (r @ c) in (ps @ qs, e, r'))"
proof (induction v b arbitrary: ps rule: drain.induct)
  case (1 v b)
  show ?case
  proof (cases "abs_next v b")
    case (Pair x b')
    show ?thesis
    proof (cases x)
      case (Inl e)
      then show ?thesis using 1(2) Pair by (simp add: drain.simps [of v b])
    next
      case (Inr o')
      show ?thesis
      proof (cases o')
        case None
        then have "b' = b" using abs_next_keeps [OF Pair] Inr by simp
        then show ?thesis
          using 1(2) Pair Inr None by (auto simp: drain.simps [of v b] split: prod.splits)
      next
        case (Some p)
        then have n: "abs_next v b = (Inr (Some p), b')" using Pair Inr by simp
        then obtain qs where qs: "drain v b' = (qs, None, r)" "ps = p # qs"
          using 1(2) by (auto simp: drain.simps [of v b] split: prod.splits)
        have "drain v (b' @ c) = (let (rs, e, r') = drain v (r @ c) in (qs @ rs, e, r'))"
          by (rule 1(1) [OF n [symmetric] refl refl qs(1)])
        then show ?thesis
          using abs_next_append [OF n, of c] qs(2)
          by (auto simp: drain.simps [of v "b @ c"] split: prod.splits)
      qed
    qed
  qed
qed

lemma drain_append_error:
  "drain v b = (ps, Some e, r) \<Longrightarrow> drain v (b @ c) = (ps, Some e, r @ c)"
proof (induction v b arbitrary: ps rule: drain.induct)
  case (1 v b)
  obtain x b' where Pair: "abs_next v b = (x, b')" by fastforce
  show ?case
  proof (cases "\<exists>p. x = Inr (Some p)")
    case True
    then obtain p where n: "abs_next v b = (Inr (Some p), b')" using Pair by blast
    then obtain qs where qs: "drain v b' = (qs, Some e, r)" "ps = p # qs"
      using 1(2) by (auto simp: drain.simps [of v b] split: prod.splits)
    have "drain v (b' @ c) = (qs, Some e, r @ c)" by (rule 1(1) [OF n [symmetric] refl refl qs(1)])
    then show ?thesis
      using abs_next_append [OF n, of c] qs(2) by (simp add: drain.simps [of v "b @ c"])
  next
    case False
    then have b: "b' = b" using abs_next_keeps [OF Pair] by blast
    have "x = Inl e" "ps = []" "r = b"
      using 1(2) Pair False b by (auto simp: drain.simps [of v b] split: sum.splits option.splits)
    then show ?thesis
      using abs_next_append_error [of v b e b' c] Pair by (simp add: drain.simps [of v "b @ c"])
  qed
qed

section \<open>Streams of encoded packets\<close>

text \<open>
  The interface of the packet codec that the stream parser needs: a version whose decoder inverts
  the encoder on the packets it supports.
\<close>

locale stream_codec =
  fixes v :: u8 and enc :: "MqttPacket \<Rightarrow> bytes" and ok :: "MqttPacket \<Rightarrow> bool"
  assumes dec_enc: "ok p \<Longrightarrow> from_bytes_with_version (enc p @ r) v = Inr (Packet p (length (enc p)))"
begin

lemma frame_size_enc: "ok p \<Longrightarrow> frame_size (enc p @ r) = Some (length (enc p))"
  using from_bytes_consumes_frame(3) [of "enc p @ r" v] dec_enc [of p r] by (simp add: consumes_frame_def)

lemma abs_next_enc: "ok p \<Longrightarrow> abs_next v (enc p @ r) = (Inr (Some p), r)"
  using dec_enc [of p "[]"] frame_size_enc [of p r] by (simp add: abs_next_Some)

lemma drain_encodings:
  "\<forall>p \<in> set ps. ok p \<Longrightarrow>
   drain v (concat (map enc ps) @ r) = (let (qs, e, r') = drain v r in (ps @ qs, e, r'))"
proof (induction ps)
  case (Cons p ps)
  then show ?case
    using abs_next_enc [of p "concat (map enc ps) @ r"]
    by (simp add: drain.simps [of v "enc p @ concat (map enc ps) @ r"] split: prod.splits)
qed (simp split: prod.splits)

lemma drain_complete: "\<forall>p \<in> set ps. ok p \<Longrightarrow> drain v (concat (map enc ps)) = (ps, None, [])"
  using drain_encodings [of ps "[]"] by (simp add: drain.simps [of v "[]"] abs_next_def)

end

definition wire :: "MqttPacket \<Rightarrow> bytes" where
  "wire p = (case MqttPacket_to_bytes p of Inr b \<Rightarrow> b | Inl _ \<Rightarrow> [])"

definition sendable :: "(MqttPacket \<Rightarrow> bool) \<Rightarrow> MqttPacket \<Rightarrow> bool" where
  "sendable well p \<longleftrightarrow> well p \<and> (case MqttPacket_to_bytes p of
     Inr b \<Rightarrow> length b \<le> 268435455 | Inl _ \<Rightarrow> False)"

lemma sendable_wire:
  "sendable well p \<Longrightarrow> MqttPacket_to_bytes p = Inr (wire p) \<and> well p \<and> length (wire p) \<le> 268435455"
  by (auto simp: sendable_def wire_def split: sum.splits)

interpretation stream5: stream_codec 5 wire "sendable packet5_wf"
  by unfold_locales
     (auto simp: from_bytes_with_version_def from_to_bytes_v5 dest!: sendable_wire)

interpretation stream3: stream_codec 4 wire "sendable packet3_wf"
  by unfold_locales
     (auto simp: from_bytes_with_version_def from_to_bytes_v3 dest!: sendable_wire)

section \<open>The reading iterator\<close>

text \<open>
  \<open>MqttStream\<close> over a reader, given by the results of its successive calls of \<open>read\<close>; an exhausted
  list is the end of the stream, like a read of zero bytes.
\<close>

datatype read_result = Read_Ok bytes | Read_Err

fun stream_next ::
  "MqttParser \<Rightarrow> read_result list \<Rightarrow> MqttPacket res option \<times> MqttParser \<times> read_result list" where
  "stream_next s reads =
     (case next_packet s of
        (Inr (Some packet), s) \<Rightarrow> (Some (Inr packet), s, reads)
      | (Inr None, s) \<Rightarrow>
          (case buffer_mut s of
             Inl e \<Rightarrow> (Some (Inl e), s, reads)
           | Inr s \<Rightarrow>
               (case reads of
                  [] \<Rightarrow> (None, s, [])
                | Read_Err # reads \<Rightarrow> (Some (Inl IoError), s, reads)
                | Read_Ok d # reads \<Rightarrow>
                    if d = [] then (None, s, reads)
                    else stream_next (s\<lparr>mp_buffer := mp_buffer s @ d\<rparr>) reads))
      | (Inl e, s) \<Rightarrow> (Some (Inl e), s, reads))"

declare stream_next.simps [simp del]

definition chunks :: "bytes list \<Rightarrow> read_result list" where
  "chunks ds = map Read_Ok ds"

lemma drain_step:
  "abs_next v b = (Inr (Some p), b') \<Longrightarrow> drain v b = (let (ps, e, r) = drain v b' in (p # ps, e, r))"
  by (simp add: drain.simps [of v b])

lemma stream_next_unfold:
  assumes "parser_inv s" and "mp_version s \<noteq> 0"
  shows "abs_next (mp_version s) (unread s) = (Inr (Some p), b') \<Longrightarrow>
      \<exists>t. stream_next s rs = (Some (Inr p), t, rs) \<and> parser_inv t \<and> unread t = b' \<and>
        mp_version t = mp_version s"
    and "abs_next (mp_version s) (unread s) = (Inl e, b') \<Longrightarrow>
      \<exists>t. stream_next s rs = (Some (Inl e), t, rs) \<and> parser_inv t \<and> mp_version t = mp_version s"
    and "abs_next (mp_version s) (unread s) = (Inr None, b') \<Longrightarrow>
      \<exists>t. parser_inv t \<and> unread t = unread s \<and> mp_version t = mp_version s \<and>
        stream_next s rs = (case rs of
           [] \<Rightarrow> (None, t, [])
         | Read_Err # reads \<Rightarrow> (Some (Inl IoError), t, reads)
         | Read_Ok d # reads \<Rightarrow>
             if d = [] then (None, t, reads)
             else stream_next (t\<lparr>mp_buffer := mp_buffer t @ d\<rparr>) reads)"
proof -
  obtain x t where x: "next_packet s = (x, t)" by fastforce
  note t = next_packet_refines [OF assms x]
  show "abs_next (mp_version s) (unread s) = (Inr (Some p), b') \<Longrightarrow>
      \<exists>t. stream_next s rs = (Some (Inr p), t, rs) \<and> parser_inv t \<and> unread t = b' \<and>
        mp_version t = mp_version s"
    "abs_next (mp_version s) (unread s) = (Inl e, b') \<Longrightarrow>
      \<exists>t. stream_next s rs = (Some (Inl e), t, rs) \<and> parser_inv t \<and> mp_version t = mp_version s"
    using t x by (auto simp: stream_next.simps [of s])
  obtain c where c: "compact t = Inr c" "parser_inv c" "unread c = unread t" "mp_version c = mp_version t"
    using compact_refines [of t] t by blast
  assume n: "abs_next (mp_version s) (unread s) = (Inr None, b')"
  then have "b' = unread s" using abs_next_keeps [OF n] by simp
  then show "\<exists>t. parser_inv t \<and> unread t = unread s \<and> mp_version t = mp_version s \<and>
        stream_next s rs = (case rs of
           [] \<Rightarrow> (None, t, [])
         | Read_Err # reads \<Rightarrow> (Some (Inl IoError), t, reads)
         | Read_Ok d # reads \<Rightarrow>
             if d = [] then (None, t, reads)
             else stream_next (t\<lparr>mp_buffer := mp_buffer t @ d\<rparr>) reads)"
    using n t x c by (intro exI [of _ c]) (simp add: stream_next.simps [of s] buffer_mut_def)
qed

text \<open>
  What the iterator yields, for any way of cutting the input into non-empty reads: the first packet
  of the whole remaining input, its error, or the end.
\<close>

definition yields :: "u8 \<Rightarrow> MqttPacket list \<times> ParseError option \<times> bytes \<Rightarrow>
    MqttPacket res option \<times> MqttParser \<times> read_result list \<Rightarrow> bool" where
  "yields v rest out \<longleftrightarrow> (case rest of (ps, e, r) \<Rightarrow> case out of (item, s, reads) \<Rightarrow>
     \<exists>ds. reads = chunks ds \<and> [] \<notin> set ds \<and> parser_inv s \<and> mp_version s = v \<and>
       (case ps of
          p # qs \<Rightarrow> item = Some (Inr p) \<and> drain v (unread s @ concat ds) = (qs, e, r)
        | [] \<Rightarrow> (case e of
            Some err \<Rightarrow> item = Some (Inl err)
          | None \<Rightarrow> item = None \<and> ds = [] \<and> unread s = r)))"

lemma yields_decided:
  assumes "parser_inv s" and "mp_version s = v" and "v \<noteq> 0" and "[] \<notin> set ds"
    and "abs_next v (unread s) = (x, b')" and "x \<noteq> Inr None"
  shows "yields v (drain v (unread s @ concat ds)) (stream_next s (chunks ds))"
proof (cases x)
  case (Inl e)
  then have n: "abs_next v (unread s) = (Inl e, b')" using assms by simp
  then show ?thesis
    using stream_next_unfold(2) [OF assms(1), of e b' "chunks ds"] assms
      abs_next_append_error [OF n, of "concat ds"]
    by (auto simp: yields_def drain.simps [of v "unread s @ concat ds"] intro!: exI [of _ ds])
next
  case (Inr o')
  then obtain p where n: "abs_next v (unread s) = (Inr (Some p), b')" using assms by (cases o') auto
  then show ?thesis
    using stream_next_unfold(1) [OF assms(1), of p b' "chunks ds"] assms
      drain_step [OF abs_next_append [OF n, of "concat ds"]]
    by (auto simp: yields_def split: prod.splits intro!: exI [of _ ds])
qed

lemma stream_next_yields:
  assumes "parser_inv s" and "mp_version s = v" and "v \<noteq> 0" and "[] \<notin> set ds"
  shows "yields v (drain v (unread s @ concat ds)) (stream_next s (chunks ds))"
  using assms
proof (induction ds arbitrary: s)
  case Nil
  obtain x b' where n: "abs_next v (unread s) = (x, b')" by fastforce
  show ?case
  proof (cases "x = Inr None")
    case True
    then obtain t where "parser_inv t" "unread t = unread s" "mp_version t = v"
      "stream_next s (chunks []) = (None, t, [])"
      using stream_next_unfold(3) [OF Nil.prems(1), of b' "chunks []"] Nil.prems n
      by (auto simp: chunks_def)
    then show ?thesis
      using n True abs_next_keeps [OF n] by (simp add: yields_def drain.simps [of v "unread s"] chunks_def)
  qed (rule yields_decided [OF Nil.prems n])
next
  case (Cons d ds)
  obtain x b' where n: "abs_next v (unread s) = (x, b')" by fastforce
  show ?case
  proof (cases "x = Inr None")
    case True
    then obtain t where t: "parser_inv t" "unread t = unread s" "mp_version t = v"
      "stream_next s (chunks (d # ds)) = stream_next (t\<lparr>mp_buffer := mp_buffer t @ d\<rparr>) (chunks ds)"
      using stream_next_unfold(3) [OF Cons.prems(1), of b' "chunks (d # ds)"] Cons.prems n
      by (auto simp: chunks_def)
    have "parser_inv (t\<lparr>mp_buffer := mp_buffer t @ d\<rparr>)"
      "unread (t\<lparr>mp_buffer := mp_buffer t @ d\<rparr>) = unread s @ d"
      using t(1,2) by (simp_all add: parser_inv_def unread_def)
    then show ?thesis
      using Cons.IH [of "t\<lparr>mp_buffer := mp_buffer t @ d\<rparr>"] Cons.prems t by simp
  qed (rule yields_decided [OF Cons.prems n])
qed

section \<open>The parser never panics\<close>

lemma from_bytes_frame_no_panic:
  assumes "frame_size b = Some n" and "n \<le> length b"
  shows "no_panic (from_bytes_with_version (take n b) v)"
proof -
  have "framed (take n b)"
    using frame_size_take [OF assms] assms frame_size_ge_2 [OF assms(1)]
    by (auto simp: frame_size_framed)
  then show ?thesis
    by (simp add: from_bytes_with_version_def from_bytes_v5_no_panic from_bytes_v3_no_panic)
qed

lemma abs_next_no_panic: "no_panic (fst (abs_next v b))"
proof (cases "packet_frame_len b")
  case (Inl e)
  then show ?thesis using no_panic_packet_frame_len [of b] by (simp add: abs_next_def no_panic_Inl)
next
  case (Inr o')
  show ?thesis
  proof (cases o')
    case (Some n)
    then have "no_panic (from_bytes_with_version (take n b) v)"
      using Inr by (intro from_bytes_frame_no_panic) (simp_all add: packet_frame_len_Some)
    then show ?thesis
      using Inr Some by (auto simp: abs_next_def no_panic_Inl split: sum.splits ParseOk.splits)
  qed (use Inr in \<open>simp add: abs_next_def\<close>)
qed

lemma next_packet_no_panic:
  assumes "parser_inv s" and "mp_version s \<noteq> 0"
  shows "no_panic (fst (next_packet s))"
proof -
  obtain r s' where r: "next_packet s = (r, s')" by fastforce
  have "fst (next_packet s) = fst (abs_next (mp_version s) (unread s))"
    using next_packet_refines(1) [OF assms r] r by (metis fst_conv)
  then show ?thesis by (simp add: abs_next_no_panic)
qed

text \<open>A leveled parser given a complete frame does not ask for more input.\<close>

lemma open_leveled_complete:
  assumes "frame_size b = Some n" and "n \<le> length b"
    and "open_leveled b body = Inr (L_Continue h c)"
  shows "\<exists>kind flags k sz. body kind flags k sz n = Inr (L_Continue h c)"
proof -
  obtain x xs sz k where b: "b = x # xs" and d: "VariableByteInteger_decode xs = Inr (sz, k)"
    and n: "n = 1 + k + sz"
    using assms(1) by (auto simp: frame_size_def split: list.splits sum.splits)
  have "\<not> length b < 2" using assms(2) frame_size_ge_2 [OF assms(1)] by simp
  then show ?thesis
    using assms(2,3) b d n
    by (auto simp: open_leveled_def parse_remaining_length_def Let_def)
qed

lemma leveled_complete:
  assumes "frame_size b = Some n" and "n \<le> length b"
  shows "parse_raw_body b \<noteq> Inr (L_Continue h c)" "parse_headers_only b v \<noteq> Inr (L_Continue h c)"
  by (auto simp: parse_raw_body_def parse_headers_only_def parse_headers_only_v5_def
      parse_headers_only_v3_def tryE_eq_Inr dest!: open_leveled_complete [OF assms] split: if_splits)

lemma next_from_frame_no_panic:
  assumes "parser_inv s" and "\<And>b. no_panic (parse b)"
    and "\<And>b n h c. frame_size b = Some n \<Longrightarrow> n \<le> length b \<Longrightarrow> parse b \<noteq> Inr (L_Continue h c)"
  shows "no_panic (fst (next_from_frame parse (unread s) s))" "parser_inv (snd (next_from_frame parse (unread s) s))"
proof -
  have "no_panic (fst (next_from_frame parse (unread s) s)) \<and> parser_inv (snd (next_from_frame parse (unread s) s))"
  proof (cases "packet_frame_len (unread s)")
    case (Inl e)
    then show ?thesis
      using no_panic_packet_frame_len [of "unread s"] assms(1) by (simp add: next_from_frame_def no_panic_Inl)
  next
    case (Inr o')
    show ?thesis
    proof (cases o')
      case (Some n)
      then have n: "frame_size (unread s) = Some n" "n \<le> length (unread s)"
        using Inr by (simp_all add: packet_frame_len_Some)
      let ?f = "take n (unread s)"
      obtain t where t: "advance n s = Inr t" "parser_inv t" using advance_refines [OF assms(1) n(2)] by blast
      then have "take_frame n s = Inr (?f, t)"
        using n(2) by (simp add: take_frame_def parser_buffer_unread [OF assms(1)] get_range_def)
      moreover have "parse ?f \<noteq> Inr (L_Continue h c)" for h c
        using assms(3) frame_size_take [OF n] n(2) by simp
      ultimately show ?thesis
        using Inr Some t(2) assms(2) [of ?f]
        by (auto simp: next_from_frame_def no_panic_Inl split: sum.splits LeveledParseOk.splits)
    qed (use Inr assms(1) in \<open>simp add: next_from_frame_def\<close>)
  qed
  then show "no_panic (fst (next_from_frame parse (unread s) s))"
    "parser_inv (snd (next_from_frame parse (unread s) s))" by simp_all
qed

lemma next_parsed_safe:
  assumes inv: "parser_inv s" and "mp_version s \<noteq> 0"
  shows "no_panic (fst (next_parsed s))" and "parser_inv (snd (next_parsed s))"
proof -
  obtain r s' where r: "next_packet s = (r, s')" by fastforce
  have np: "no_panic r" "parser_inv s'"
    using next_packet_no_panic [OF assms] next_packet_refines(2) [OF assms r] r by simp_all
  have adv: "\<exists>t. advance n s = Inr t \<and> parser_inv t"
    if "parse_type_only (unread s) = Inr (L_Packet p n)" for p n
  proof -
    have "n \<le> length (unread s)"
      using open_leveled_frame [OF that [unfolded parse_type_only_def]] by auto
    then show ?thesis using advance_refines [OF inv] by blast
  qed
  have "no_panic (fst (next_parsed s)) \<and> parser_inv (snd (next_parsed s))"
  proof (cases "mp_level s")
    case Level_Full
    then show ?thesis
      using np inv r by (auto simp: next_parsed_def parser_buffer_unread no_panic_Inl split: sum.splits)
  next
    case Level_TypeOnly
    then show ?thesis
      using adv inv leveled_no_panic(1) [of "unread s"]
      by (auto simp: next_parsed_def parser_buffer_unread no_panic_Inl split: sum.splits LeveledParseOk.splits)
  next
    case Level_RawBody
    then show ?thesis
      using inv next_from_frame_no_panic [OF inv, of parse_raw_body]
      by (simp add: next_parsed_def parser_buffer_unread leveled_no_panic leveled_complete)
  next
    case Level_HeadersParsed
    then show ?thesis
      using inv assms(2) next_from_frame_no_panic [OF inv, of "\<lambda>b. parse_headers_only b (mp_version s)"]
      by (simp add: next_parsed_def parser_buffer_unread leveled_no_panic leveled_complete)
  qed
  then show "no_panic (fst (next_parsed s))" "parser_inv (snd (next_parsed s))" by simp_all
qed

section \<open>Iterating to the end\<close>

text \<open>The items of the first \<open>n\<close> calls of \<open>next\<close> on a stream, up to the end of the stream.\<close>

fun stream_take :: "nat \<Rightarrow> MqttParser \<Rightarrow> read_result list \<Rightarrow> MqttPacket res list" where
  "stream_take 0 s reads = []"
| "stream_take (Suc n) s reads =
     (case stream_next s reads of
        (Some item, s, reads) \<Rightarrow> item # stream_take n s reads
      | (None, s, reads) \<Rightarrow> [])"

lemma stream_take_drain:
  assumes "parser_inv s" and "mp_version s = v" and "v \<noteq> 0" and "[] \<notin> set ds"
    and "drain v (unread s @ concat ds) = (ps, None, r)"
  shows "stream_take n s (chunks ds) = map Inr (take n ps)"
  using assms
proof (induction n arbitrary: s ds ps)
  case (Suc n)
  obtain item t reads where o: "stream_next s (chunks ds) = (item, t, reads)" by (metis prod_cases3)
  have y: "yields v (ps, None, r) (item, t, reads)"
    using stream_next_yields [OF Suc.prems(1-4)] Suc.prems(5) o by simp
  show ?case
  proof (cases ps)
    case Nil
    then show ?thesis using y o by (auto simp: yields_def)
  next
    case (Cons p qs)
    then obtain es where "reads = chunks es" "[] \<notin> set es" "parser_inv t" "mp_version t = v"
      "item = Some (Inr p)" "drain v (unread t @ concat es) = (qs, None, r)"
      using y by (auto simp: yields_def)
    then show ?thesis using Suc.IH [of t es qs] Suc.prems(3) o Cons by simp
  qed
qed simp

end
