(* ===== verification/Priority_Queue.thy ===== *)
theory Priority_Queue
  imports Prelude "HOL-Library.Multiset"
begin

text \<open>
  The bounded priority queue, \<open>src/src/priority_queue.rs\<close>.  The \<open>BTreeMap\<close> from priorities to
  queues is an association list in ascending key order; a queue is a list, front first.
\<close>

section \<open>State and operations\<close>

record ('p, 't) PriorityQueue =
  pq_map :: "('p \<times> 't list) list"
  pq_capacity :: nat
  pq_size :: nat

definition PriorityQueue_new :: "nat \<Rightarrow> ('p, 't) PriorityQueue" where
  "PriorityQueue_new capacity = \<lparr>pq_map = [], pq_capacity = capacity, pq_size = 0\<rparr>"

text \<open>\<open>map.entry(priority).or_default().push_back(item)\<close>.\<close>

fun push_back :: "'p::linorder \<Rightarrow> 't \<Rightarrow> ('p \<times> 't list) list \<Rightarrow> ('p \<times> 't list) list" where
  "push_back p t [] = [(p, [t])]"
| "push_back p t ((q, ts) # m) =
     (if p = q then (q, ts @ [t]) # m
      else if p < q then (p, [t]) # (q, ts) # m
      else (q, ts) # push_back p t m)"

definition drop_lowest_priority :: "('p, 't) PriorityQueue \<Rightarrow> ('p, 't) PriorityQueue" where
  "drop_lowest_priority pq = (case pq_map pq of
     [] \<Rightarrow> pq
   | (p, deque) # m \<Rightarrow>
       let deque = tl deque
       in pq\<lparr>pq_map := (if deque = [] then m else (p, deque) # m), pq_size := pq_size pq - 1\<rparr>)"

definition enqueue :: "'p::linorder \<Rightarrow> 't \<Rightarrow> ('p, 't) PriorityQueue \<Rightarrow> ('p, 't) PriorityQueue" where
  "enqueue priority item pq =
     (let pq = pq\<lparr>pq_map := push_back priority item (pq_map pq), pq_size := pq_size pq + 1\<rparr>
      in if pq_capacity pq < pq_size pq then drop_lowest_priority pq else pq)"

text \<open>\<open>last_entry\<close> is the last element; \<open>?\<close> leaves the queue as it is.\<close>

definition dequeue :: "('p, 't) PriorityQueue \<Rightarrow> ('p \<times> 't) option \<times> ('p, 't) PriorityQueue" where
  "dequeue pq =
     (if pq_size pq = 0 \<or> pq_map pq = [] then (None, pq)
      else case last (pq_map pq) of (prio, deque) \<Rightarrow>
        (case deque of
           [] \<Rightarrow> (None, pq)
         | item # deque \<Rightarrow>
             (Some (prio, item),
              pq\<lparr>pq_map := (if deque = [] then butlast (pq_map pq)
                            else butlast (pq_map pq) @ [(prio, deque)]),
                 pq_size := pq_size pq - 1\<rparr>)))"

definition peek :: "('p, 't) PriorityQueue \<Rightarrow> ('p \<times> 't) option" where
  "peek pq =
     (if pq_map pq = [] then None
      else case last (pq_map pq) of (prio, deque) \<Rightarrow>
        (case deque of [] \<Rightarrow> None | item # _ \<Rightarrow> Some (prio, item)))"

definition pq_len :: "('p, 't) PriorityQueue \<Rightarrow> nat" where
  "pq_len pq = pq_size pq"

definition pq_is_empty :: "('p, 't) PriorityQueue \<Rightarrow> bool" where
  "pq_is_empty pq \<longleftrightarrow> pq_size pq = 0"

definition pq_clear :: "('p, 't) PriorityQueue \<Rightarrow> ('p, 't) PriorityQueue" where
  "pq_clear pq = pq\<lparr>pq_map := [], pq_size := 0\<rparr>"

text \<open>The effect of a loop over \<open>iter_mut\<close> that replaces each element.\<close>

definition pq_map_items :: "('t \<Rightarrow> 't) \<Rightarrow> ('p, 't) PriorityQueue \<Rightarrow> ('p, 't) PriorityQueue" where
  "pq_map_items f pq = pq\<lparr>pq_map := map (\<lambda>(p, ts). (p, map f ts)) (pq_map pq)\<rparr>"

section \<open>Abstraction: the elements in ascending priority, oldest first\<close>

definition flatten :: "('p \<times> 't list) list \<Rightarrow> ('p \<times> 't) list" where
  "flatten m = concat (map (\<lambda>(p, ts). map (Pair p) ts) m)"

definition items :: "('p, 't) PriorityQueue \<Rightarrow> ('p \<times> 't) list" where
  "items pq = flatten (pq_map pq)"

definition map_ok :: "('p::linorder \<times> 't list) list \<Rightarrow> bool" where
  "map_ok m \<longleftrightarrow> sorted_wrt (<) (map fst m) \<and> (\<forall>(p, ts) \<in> set m. ts \<noteq> [])"

definition pq_inv :: "('p::linorder, 't) PriorityQueue \<Rightarrow> bool" where
  "pq_inv pq \<longleftrightarrow> map_ok (pq_map pq) \<and> pq_size pq = length (items pq) \<and> pq_size pq \<le> pq_capacity pq"

text \<open>
  The specification on the list of elements: a new element goes behind those of lower or equal
  priority, and the element served is the oldest of the highest priority.
\<close>

definition spec_insert :: "'p::linorder \<Rightarrow> 't \<Rightarrow> ('p \<times> 't) list \<Rightarrow> ('p \<times> 't) list" where
  "spec_insert p t xs = takeWhile (\<lambda>x. fst x \<le> p) xs @ [(p, t)] @ dropWhile (\<lambda>x. fst x \<le> p) xs"

definition spec_enqueue :: "nat \<Rightarrow> 'p::linorder \<Rightarrow> 't \<Rightarrow> ('p \<times> 't) list \<Rightarrow> ('p \<times> 't) list" where
  "spec_enqueue cap p t xs =
     (if cap < length xs + 1 then tl (spec_insert p t xs) else spec_insert p t xs)"

definition spec_dequeue :: "('p::linorder \<times> 't) list \<Rightarrow> (('p \<times> 't) option \<times> ('p \<times> 't) list)" where
  "spec_dequeue xs =
     (if xs = [] then (None, [])
      else let m = fst (last xs);
               low = takeWhile (\<lambda>x. fst x < m) xs; high = dropWhile (\<lambda>x. fst x < m) xs
           in (Some (hd high), low @ tl high))"

lemma flatten_simps [simp]:
  "flatten [] = []" "flatten ((p, ts) # m) = map (Pair p) ts @ flatten m"
  "flatten (m @ m') = flatten m @ flatten m'"
  by (simp_all add: flatten_def)

lemma flatten_key: "x \<in> set (flatten m) \<Longrightarrow> fst x \<in> fst ` set m"
  by (force simp: flatten_def)

lemma flatten_eq_Nil: "map_ok m \<Longrightarrow> flatten m = [] \<longleftrightarrow> m = []"
  by (cases m) (auto simp: map_ok_def)

lemma map_ok_Cons:
  "map_ok ((p, ts) # m) \<longleftrightarrow> ts \<noteq> [] \<and> (\<forall>q \<in> fst ` set m. p < q) \<and> map_ok m"
  by (auto simp: map_ok_def)

lemma map_ok_append:
  "map_ok (m @ m') \<longleftrightarrow> map_ok m \<and> map_ok m' \<and> (\<forall>p \<in> fst ` set m. \<forall>q \<in> fst ` set m'. p < q)"
  by (induction m) (force simp: map_ok_Cons map_ok_def [of "[]"])+

lemma sorted_flatten: "map_ok m \<Longrightarrow> sorted (map fst (flatten m))"
proof (induction m)
  case (Cons a m)
  obtain p ts where a: "a = (p, ts)" by fastforce
  have "sorted (map fst (map (Pair p) ts))" by (simp add: comp_def map_replicate_const)
  then show ?case
    using Cons a by (auto simp: map_ok_Cons sorted_append comp_def dest!: flatten_key intro: less_imp_le)
qed simp

lemma push_back_keys: "fst ` set (push_back p t m) = insert p (fst ` set m)"
  by (induction p t m rule: push_back.induct) auto

lemma map_ok_push_back: "map_ok m \<Longrightarrow> map_ok (push_back p t m)"
  by (induction p t m rule: push_back.induct) (auto simp: map_ok_Cons push_back_keys map_ok_def [of "[]"])

lemma flatten_push_back: "map_ok m \<Longrightarrow> flatten (push_back p t m) = spec_insert p t (flatten m)"
proof (induction p t m rule: push_back.induct)
  case (2 p t q ts m)
  have hi: "takeWhile (\<lambda>x. fst x \<le> p) (flatten m) = [] \<and> dropWhile (\<lambda>x. fst x \<le> p) (flatten m) = flatten m"
    if "\<forall>k \<in> fst ` set m. p < k"
    using that flatten_key [of "hd (flatten m)" m]
    by (cases "flatten m") (auto simp: not_le)
  show ?case
    using 2 hi
    by (cases "p = q"; cases "p < q")
       (auto simp: spec_insert_def map_ok_Cons takeWhile_append dropWhile_append takeWhile_eq_Nil_iff
          dropWhile_eq_Nil_conv less_le_trans neq_Nil_conv)
qed (simp add: spec_insert_def)

lemma drop_lowest_refines:
  assumes "map_ok (pq_map pq)" and "pq_size pq = length (items pq)" and "pq_map pq \<noteq> []"
  shows "items (drop_lowest_priority pq) = tl (items pq)"
    and "map_ok (pq_map (drop_lowest_priority pq))"
    and "pq_size (drop_lowest_priority pq) = length (items (drop_lowest_priority pq))"
    and "pq_capacity (drop_lowest_priority pq) = pq_capacity pq"
proof -
  obtain p t ts m where m: "pq_map pq = (p, t # ts) # m"
    using assms by (cases "pq_map pq") (auto simp: map_ok_Cons neq_Nil_conv)
  then show i: "items (drop_lowest_priority pq) = tl (items pq)"
    by (simp add: items_def drop_lowest_priority_def)
  show "map_ok (pq_map (drop_lowest_priority pq))"
    using m assms(1) by (simp add: drop_lowest_priority_def map_ok_Cons)
  show "pq_size (drop_lowest_priority pq) = length (items (drop_lowest_priority pq))"
    unfolding i using m assms(2) by (simp add: drop_lowest_priority_def)
  show "pq_capacity (drop_lowest_priority pq) = pq_capacity pq"
    using m by (simp add: drop_lowest_priority_def)
qed

lemma length_spec_insert [simp]: "length (spec_insert p t xs) = Suc (length xs)"
proof -
  have "length (takeWhile (\<lambda>x. fst x \<le> p) xs) + length (dropWhile (\<lambda>x. fst x \<le> p) xs) = length xs"
    by (metis length_append takeWhile_dropWhile_id)
  then show ?thesis by (simp add: spec_insert_def)
qed

lemma enqueue_refines:
  assumes "pq_inv pq"
  shows "items (enqueue p t pq) = spec_enqueue (pq_capacity pq) p t (items pq)"
    and "pq_inv (enqueue p t pq)" and "pq_capacity (enqueue p t pq) = pq_capacity pq"
proof -
  define pq' where "pq' = pq\<lparr>pq_map := push_back p t (pq_map pq), pq_size := pq_size pq + 1\<rparr>"
  have i: "items pq' = spec_insert p t (items pq)" and m: "map_ok (pq_map pq')"
    and sz: "pq_size pq' = length (items pq')"
    using assms by (simp_all add: pq'_def pq_inv_def items_def flatten_push_back map_ok_push_back)
  have ne: "pq_map pq' \<noteq> []"
    using push_back_keys [of p t "pq_map pq"] by (auto simp: pq'_def)
  note d = drop_lowest_refines [OF m sz ne]
  have e: "enqueue p t pq = (if pq_capacity pq < pq_size pq + 1 then drop_lowest_priority pq' else pq')"
    by (simp add: enqueue_def pq'_def Let_def)
  have c: "pq_capacity pq' = pq_capacity pq" by (simp add: pq'_def)
  have s: "pq_size pq = length (items pq)" "pq_size pq \<le> pq_capacity pq"
    using assms by (simp_all add: pq_inv_def)
  show "items (enqueue p t pq) = spec_enqueue (pq_capacity pq) p t (items pq)"
    using d(1) i s by (simp add: e spec_enqueue_def)
  show "pq_capacity (enqueue p t pq) = pq_capacity pq"
    using d(4) c by (simp add: e)
  show "pq_inv (enqueue p t pq)"
    using d m sz c s i by (auto simp: e pq_inv_def)
qed

lemma dequeue_refines:
  assumes "pq_inv pq" and "dequeue pq = (r, pq')"
  shows "(r, items pq') = spec_dequeue (items pq)" and "pq_inv pq'" and "pq_capacity pq' = pq_capacity pq"
proof -
  have m: "map_ok (pq_map pq)" and sz: "pq_size pq = length (items pq)" "pq_size pq \<le> pq_capacity pq"
    using assms(1) by (simp_all add: pq_inv_def)
  have "(r, items pq') = spec_dequeue (items pq) \<and> pq_inv pq' \<and> pq_capacity pq' = pq_capacity pq"
  proof (cases "pq_map pq = []")
    case True
    then show ?thesis using assms by (auto simp: dequeue_def spec_dequeue_def items_def)
  next
    case False
    then obtain l p ts where l: "pq_map pq = l @ [(p, ts)]"
      by (metis append_butlast_last_id surj_pair)
    then obtain t us where ts: "ts = t # us" using m by (cases ts) (auto simp: map_ok_append map_ok_Cons)
    have it: "items pq = flatten l @ (p, t) # map (Pair p) us" by (simp add: items_def l ts)
    have lo: "\<forall>x \<in> set (flatten l). fst x < p"
      using m l flatten_key [of _ l] by (fastforce simp: map_ok_append)
    have la: "fst (last (items pq)) = p" by (cases us rule: rev_cases) (simp_all add: it)
    have tw: "takeWhile (\<lambda>x. fst x < p) (items pq) = flatten l"
      "dropWhile (\<lambda>x. fst x < p) (items pq) = (p, t) # map (Pair p) us"
      using lo by (auto simp: it takeWhile_append dropWhile_append dropWhile_eq_Nil_conv)
    have "0 < pq_size pq" using sz it by simp
    then have r: "r = Some (p, t)" "pq' = pq\<lparr>pq_map := (if us = [] then l else l @ [(p, us)]), pq_size := pq_size pq - 1\<rparr>"
      using assms(2) l ts by (auto simp: dequeue_def)
    have i': "items pq' = flatten l @ map (Pair p) us" by (simp add: r items_def)
    have "pq_inv pq'"
      unfolding pq_inv_def i' using m l ts sz it by (auto simp: r map_ok_append map_ok_Cons)
    then show ?thesis
      using r i' la tw it by (simp add: spec_dequeue_def Let_def)
  qed
  then show "(r, items pq') = spec_dequeue (items pq)" "pq_inv pq'" "pq_capacity pq' = pq_capacity pq"
    by simp_all
qed

lemma pq_inv_new [simp]: "pq_inv (PriorityQueue_new c)" "items (PriorityQueue_new c) = []"
  by (simp_all add: pq_inv_def PriorityQueue_new_def items_def map_ok_def)

lemma pq_inv_clear [simp]: "pq_inv (pq_clear pq)" "items (pq_clear pq) = []"
  by (simp_all add: pq_inv_def pq_clear_def items_def map_ok_def)

lemma pq_map_items_refines:
  "items (pq_map_items f pq) = map (map_prod id f) (items pq)"
  "pq_inv pq \<Longrightarrow> pq_inv (pq_map_items f pq)"
proof -
  have fl: "flatten (map (\<lambda>(p, ts). (p, map f ts)) m) = map (map_prod id f) (flatten m)" for m :: "('a \<times> 'b list) list"
    by (induction m) (auto simp: flatten_def)
  show i: "items (pq_map_items f pq) = map (map_prod id f) (items pq)"
    by (simp add: items_def pq_map_items_def fl)
  have k: "map fst (map (\<lambda>(p, ts). (p, map f ts)) m) = map fst m" for m :: "('a \<times> 'b list) list" by auto
  have "map_ok m \<Longrightarrow> map_ok (map (\<lambda>(p, ts). (p, map f ts)) m)" for m :: "('a \<times> 'b list) list"
    unfolding map_ok_def k by auto
  then show "pq_inv pq \<Longrightarrow> pq_inv (pq_map_items f pq)"
    by (auto simp: pq_inv_def i) (simp_all add: pq_map_items_def)
qed

lemma peek_dequeue: "pq_inv pq \<Longrightarrow> peek pq = fst (dequeue pq)"
  by (auto simp: peek_def dequeue_def pq_inv_def items_def split: prod.splits list.splits)
     (metis append_butlast_last_id flatten_eq_Nil length_0_conv)+

section \<open>The interface of a bounded priority queue\<close>

text \<open>
  What the engine relies on: the operations act on the sorted list of elements as the
  specification says.  The order in which elements are served and evicted follows from that.
\<close>

locale bounded_priority_queue =
  fixes enq :: "'p::linorder \<Rightarrow> 't \<Rightarrow> 'q \<Rightarrow> 'q" and deq :: "'q \<Rightarrow> ('p \<times> 't) option \<times> 'q"
    and elems :: "'q \<Rightarrow> ('p \<times> 't) list" and cap :: "'q \<Rightarrow> nat" and invar :: "'q \<Rightarrow> bool"
  assumes elems_enq: "invar q \<Longrightarrow> elems (enq p t q) = spec_enqueue (cap q) p t (elems q)"
    and elems_deq: "invar q \<Longrightarrow> (fst (deq q), elems (snd (deq q))) = spec_dequeue (elems q)"
    and elems_sorted: "invar q \<Longrightarrow> sorted (map fst (elems q))"
    and elems_bounded: "invar q \<Longrightarrow> length (elems q) \<le> cap q"
    and invar_enq: "invar q \<Longrightarrow> invar (enq p t q)"
    and invar_deq: "invar q \<Longrightarrow> invar (snd (deq q))"
    and cap_enq: "invar q \<Longrightarrow> cap (enq p t q) = cap q"
begin

lemma mset_spec_insert: "mset (spec_insert p t xs) = add_mset (p, t) (mset xs)"
proof -
  have "mset (takeWhile (\<lambda>x. fst x \<le> p) xs) + mset (dropWhile (\<lambda>x. fst x \<le> p) xs) = mset xs"
    by (metis mset_append takeWhile_dropWhile_id)
  then show ?thesis by (simp add: spec_insert_def)
qed

lemma sorted_le_last:
  assumes "sorted (map fst xs)" and "x \<in> set xs"
  shows "fst x \<le> fst (last xs)"
  using assms by (cases xs rule: rev_cases) (auto simp: sorted_append)

lemma deq_None: "invar q \<Longrightarrow> fst (deq q) = None \<longleftrightarrow> elems q = []"
  using elems_deq [of q] by (auto simp: spec_dequeue_def Let_def split: if_splits)

lemma deq_Some:
  assumes "invar q" and "fst (deq q) = Some (p, t)"
  shows "mset (elems q) = add_mset (p, t) (mset (elems (snd (deq q))))"
    and "\<forall>x \<in> set (elems q). fst x \<le> p"
    and "\<exists>low high. elems q = low @ (p, t) # high \<and> (\<forall>x \<in> set low. fst x < p)"
proof -
  let ?xs = "elems q" and ?m = "fst (last (elems q))"
  have ne: "?xs \<noteq> []" using deq_None [OF assms(1)] assms(2) by auto
  let ?lo = "takeWhile (\<lambda>x. fst x < ?m) ?xs" and ?hi = "dropWhile (\<lambda>x. fst x < ?m) ?xs"
  have "last ?xs \<in> set ?xs" using ne by simp
  then have hi: "?hi \<noteq> []" by (auto simp: dropWhile_eq_Nil_conv)
  have d: "hd ?hi = (p, t)" "elems (snd (deq q)) = ?lo @ tl ?hi"
    using elems_deq [OF assms(1)] assms(2) ne by (simp_all add: spec_dequeue_def Let_def)
  have sp: "?xs = ?lo @ (p, t) # tl ?hi"
    using hi d(1) by (metis list.collapse takeWhile_dropWhile_id)
  show "mset (elems q) = add_mset (p, t) (mset (elems (snd (deq q))))"
    unfolding d(2) by (subst sp) simp
  have so: "sorted (map fst ?xs)" by (rule elems_sorted [OF assms(1)])
  have le: "\<forall>x \<in> set ?xs. fst x \<le> ?m"
    using sorted_le_last [OF so] by blast
  have "\<not> p < ?m" using hi hd_dropWhile [OF hi] d(1) by simp
  moreover have "p \<le> ?m" using le sp by (metis fst_conv in_set_conv_decomp)
  ultimately have pm: "p = ?m" by simp
  then show "\<forall>x \<in> set (elems q). fst x \<le> p" using le by simp
  show "\<exists>low high. elems q = low @ (p, t) # high \<and> (\<forall>x \<in> set low. fst x < p)"
    using sp pm by (metis set_takeWhileD)
qed

lemma enq_room:
  "invar q \<Longrightarrow> length (elems q) < cap q \<Longrightarrow> mset (elems (enq p t q)) = add_mset (p, t) (mset (elems q))"
  by (simp add: elems_enq spec_enqueue_def mset_spec_insert)

lemma enq_full:
  assumes "invar q" and "length (elems q) = cap q"
  shows "\<exists>x. add_mset x (mset (elems (enq p t q))) = add_mset (p, t) (mset (elems q)) \<and>
     (\<forall>y \<in> set (elems (enq p t q)). fst x \<le> fst y)"
proof -
  let ?ys = "spec_insert p t (elems q)"
  have ne: "?ys \<noteq> []" by (simp add: spec_insert_def)
  then have ys: "?ys = hd ?ys # tl ?ys" by simp
  have e: "elems (enq p t q) = tl ?ys"
    using assms by (simp add: elems_enq spec_enqueue_def)
  have "sorted (map fst ?ys)"
  proof -
    have so: "sorted (map fst (elems q))" by (rule elems_sorted [OF assms(1)])
    let ?l = "takeWhile (\<lambda>x. fst x \<le> p) (elems q)" and ?h = "dropWhile (\<lambda>x. fst x \<le> p) (elems q)"
    have "sorted (map fst (?l @ ?h))" using so by simp
    then have s: "sorted (map fst ?l)" "sorted (map fst ?h)" "\<forall>x \<in> set ?l. \<forall>y \<in> set ?h. fst x \<le> fst y"
      by (auto simp: sorted_append simp del: takeWhile_dropWhile_id)
    have "\<forall>y \<in> set ?h. p \<le> fst y"
    proof (cases ?h)
      case (Cons a as)
      then have "p \<le> fst a" using hd_dropWhile [of "\<lambda>x. fst x \<le> p" "elems q"] by simp
      then show ?thesis using s(2) Cons by (auto intro: order_trans)
    qed (simp only: list.set ball_empty)
    moreover have "\<forall>x \<in> set ?l. fst x \<le> p" by (auto dest: set_takeWhileD)
    ultimately show ?thesis using s by (simp add: spec_insert_def sorted_append)
  qed
  then have "\<forall>y \<in> set (tl ?ys). fst (hd ?ys) \<le> fst y"
    by (subst (asm) ys) simp
  moreover have "add_mset (hd ?ys) (mset (tl ?ys)) = add_mset (p, t) (mset (elems q))"
    using mset_spec_insert [of p t "elems q"] by (metis ys mset.simps(2))
  ultimately show ?thesis unfolding e by blast
qed

end

interpretation pq: bounded_priority_queue enqueue dequeue items pq_capacity pq_inv
proof
  fix q :: "('p::linorder, 't) PriorityQueue" and p t
  assume inv: "pq_inv q"
  show "items (enqueue p t q) = spec_enqueue (pq_capacity q) p t (items q)"
    "pq_inv (enqueue p t q)" "pq_capacity (enqueue p t q) = pq_capacity q"
    by (rule enqueue_refines [OF inv])+
  show "(fst (dequeue q), items (snd (dequeue q))) = spec_dequeue (items q)" "pq_inv (snd (dequeue q))"
    using dequeue_refines [OF inv, of "fst (dequeue q)" "snd (dequeue q)"] by simp_all
  show "sorted (map fst (items q))" using inv by (simp add: pq_inv_def items_def sorted_flatten)
  show "length (items q) \<le> pq_capacity q" using inv by (simp add: pq_inv_def)
qed

end
