(* ===== verification/Packet_Ids.thy ===== *)
theory Packet_Ids
  imports Prelude
begin

text \<open>
  Packet identifier allocation.  The client session, the server session and the client engine each
  advance a 16-bit counter that skips zero; the server session and the engine search with it for an
  identifier that is not in use.  The locale states what the searches rely on, and the facts about
  them are proved once.
\<close>

section \<open>The cyclic counter\<close>

text \<open>The counter both sessions implement: zero and the maximum wrap to one.\<close>

definition id_succ :: "u16 \<Rightarrow> u16" where
  "id_succ c = (if c = 0xFFFF then 1 else c + 1)"

text \<open>At most \<open>n\<close> steps of a counter until an identifier passes the test.\<close>

fun search :: "('c \<Rightarrow> u16 \<times> 'c) \<Rightarrow> (u16 \<Rightarrow> bool) \<Rightarrow> nat \<Rightarrow> 'c \<Rightarrow> u16 option \<times> 'c" where
  "search next_id free 0 c = (None, c)"
| "search next_id free (Suc n) c =
     (let (i, c') = next_id c in if free i then (Some i, c') else search next_id free n c')"

locale packet_id_source =
  fixes next_id :: "'c \<Rightarrow> u16 \<times> 'c" and position :: "'c \<Rightarrow> u16"
  assumes next_fst: "fst (next_id c) = id_succ (position c)"
    and next_snd: "position (snd (next_id c)) = id_succ (position c)"
begin

lemma search_Some:
  "search next_id free n c = (Some i, c') \<Longrightarrow>
   free i \<and> position c' = i \<and> (\<exists>k. 0 < k \<and> k \<le> n \<and> i = (id_succ ^^ k) (position c) \<and>
     (\<forall>j. 0 < j \<longrightarrow> j < k \<longrightarrow> \<not> free ((id_succ ^^ j) (position c))))"
proof (induction n arbitrary: c)
  case (Suc n)
  obtain a d where n: "next_id c = (a, d)" by fastforce
  then have a: "a = id_succ (position c)" "position d = id_succ (position c)"
    using next_fst [of c] next_snd [of c] by simp_all
  show ?case
  proof (cases "free a")
    case True
    then show ?thesis using Suc.prems n a by (auto intro!: exI [of _ 1])
  next
    case False
    then obtain k where k: "free i" "position c' = i" "0 < k" "k \<le> n" "i = (id_succ ^^ k) (position d)"
      "\<forall>j. 0 < j \<longrightarrow> j < k \<longrightarrow> \<not> free ((id_succ ^^ j) (position d))"
      using Suc.IH [of d] Suc.prems n by auto
    have s: "(id_succ ^^ Suc j) (position c) = (id_succ ^^ j) (position d)" for j
      using a(2) by (simp add: funpow_swap1)
    have "\<not> free ((id_succ ^^ j) (position c))" if "0 < j" "j < Suc k" for j
      using that k(6) s [of "j - 1"] False a by (cases "j = 1") auto
    then show ?thesis using k s [of k] by (intro conjI exI [of _ "Suc k"]) auto
  qed
qed simp

lemma search_None:
  "search next_id free n c = (None, c') \<longleftrightarrow>
   (\<forall>j. 0 < j \<longrightarrow> j \<le> n \<longrightarrow> \<not> free ((id_succ ^^ j) (position c))) \<and> c' = ((snd \<circ> next_id) ^^ n) c"
proof (induction n arbitrary: c)
  case (Suc n)
  obtain a d where n: "next_id c = (a, d)" by fastforce
  then have a: "a = id_succ (position c)" "position d = id_succ (position c)"
    using next_fst [of c] next_snd [of c] by simp_all
  have s: "(id_succ ^^ Suc j) (position c) = (id_succ ^^ j) (position d)" for j
    using a(2) by (simp add: funpow_swap1)
  have "(\<forall>j. 0 < j \<longrightarrow> j \<le> Suc n \<longrightarrow> \<not> free ((id_succ ^^ j) (position c))) \<longleftrightarrow>
    \<not> free a \<and> (\<forall>j. 0 < j \<longrightarrow> j \<le> n \<longrightarrow> \<not> free ((id_succ ^^ j) (position d)))"
    (is "?l \<longleftrightarrow> ?r")
  proof
    assume l: ?l
    have "\<not> free a" using l [rule_format, of 1] a by simp
    moreover have "\<not> free ((id_succ ^^ j) (position d))" if "j \<le> n" for j
      using l [rule_format, of "Suc j"] that s [of j] by simp
    ultimately show ?r by simp
  next
    assume r: ?r
    show ?l
    proof (intro allI impI)
      fix j :: nat assume "0 < j" "j \<le> Suc n"
      then show "\<not> free ((id_succ ^^ j) (position c))"
        using r s [of "j - 1"] a by (cases "j = 1") auto
    qed
  qed
  then show ?case
    using n Suc.IH [of d] by (simp add: funpow_Suc_right del: funpow.simps)
qed auto

end

section \<open>The counter visits every identifier\<close>

lemma unat_id_succ: "unat (id_succ c) = (if unat c = 65535 then 1 else unat c + 1)"
proof -
  obtain n where n: "unat c = n" "n < 65536" using unat_u16_less [of c] by blast
  moreover have "c = 0xFFFF \<longleftrightarrow> unat c = 65535" by (simp add: word_unat_eq_iff)
  ultimately show ?thesis by (simp add: id_succ_def unat_word_ariths)
qed

lemma id_succ_nonzero [simp]: "id_succ c \<noteq> 0"
  using unat_id_succ [of c] by (auto split: if_splits)

lemma unat_id_succ_pow:
  "0 < n \<Longrightarrow> unat ((id_succ ^^ n) c) = (if unat c = 0 then (n - 1) mod 65535 + 1 else (unat c + n - 1) mod 65535 + 1)"
proof (induction n)
  case (Suc n)
  obtain v where c: "unat c = v" "v < 65536" using unat_u16_less [of c] by blast
  show ?case
  proof (cases "n = 0")
    case True
    then show ?thesis using c by (auto simp: unat_id_succ)
  next
    case False
    let ?m = "if unat c = 0 then n - 1 else unat c + n - 1"
    have i: "unat ((id_succ ^^ n) c) = ?m mod 65535 + 1" using Suc.IH False by simp
    have "?m mod 65535 < 65535" by simp
    then have "(?m + 1) mod 65535 = (if ?m mod 65535 = 65534 then 0 else ?m mod 65535 + 1)"
      by (simp add: mod_Suc)
    moreover have "?m + 1 = (if unat c = 0 then n else unat c + n)" using False by auto
    ultimately show ?thesis using i by (auto simp: unat_id_succ)
  qed
qed simp

lemma id_succ_reaches:
  assumes "i \<noteq> 0"
  shows "\<exists>k. 0 < k \<and> k \<le> 65535 \<and> (id_succ ^^ k) c = i"
proof -
  obtain v where v: "unat i = v" "0 < v" "v < 65536"
    using assms unat_u16_less [of i] by (auto simp: unat_gt_0)
  obtain u where u: "unat c = u" "u < 65536" using unat_u16_less [of c] by blast
  define k where "k = (if u = 0 then v else if u < v then v - u else v + 65535 - u)"
  have k: "0 < k" "k \<le> 65535" using v(2,3) u(2) by (auto simp: k_def)
  note pow = unat_id_succ_pow [OF k(1), of c]
  consider "u = 0" | "u \<noteq> 0" "u < v" | "u \<noteq> 0" "\<not> u < v" by blast
  then have "unat ((id_succ ^^ k) c) = v"
  proof cases
    case 1
    then show ?thesis using v u pow by (simp add: k_def)
  next
    case 2
    then have "u + k - 1 = v - 1" by (simp add: k_def)
    then show ?thesis using v u 2 pow by simp
  next
    case 3
    then have "u + k - 1 = (v - 1) + 65535" using u v by (simp add: k_def)
    then have "unat ((id_succ ^^ k) c) = ((v - 1) + 65535) mod 65535 + 1" using u 3 pow by simp
    also have "((v - 1) + 65535) mod 65535 = v - 1" using v by (subst mod_add_self2) simp
    finally show ?thesis using v by simp
  qed
  then show ?thesis using k v by (metis word_unat_eq_iff)
qed

lemma id_succ_pow_nonzero: "0 < k \<Longrightarrow> (id_succ ^^ k) c \<noteq> 0"
  by (cases k) auto

context packet_id_source
begin

text \<open>
  A search of 65535 steps fails only when every non-zero identifier is taken, and what it returns is
  free and not zero.
\<close>

lemma search_complete:
  "fst (search next_id free 65535 c) = None \<longleftrightarrow> (\<forall>i. i \<noteq> 0 \<longrightarrow> \<not> free i)"
proof
  assume "fst (search next_id free 65535 c) = None"
  then have n: "search next_id free 65535 c = (None, snd (search next_id free 65535 c))"
    by (metis prod.collapse)
  show "\<forall>i. i \<noteq> 0 \<longrightarrow> \<not> free i"
    using n [unfolded search_None] id_succ_reaches by metis
next
  assume a: "\<forall>i. i \<noteq> 0 \<longrightarrow> \<not> free i"
  then show "fst (search next_id free 65535 c) = None"
    using search_None [of free 65535 c "((snd \<circ> next_id) ^^ 65535) c"] id_succ_pow_nonzero by fastforce
qed

lemma search_sound:
  assumes "search next_id free n c = (Some i, c')"
  shows "free i" "i \<noteq> 0" "position c' = i"
  using search_Some [OF assms] id_succ_pow_nonzero by auto

text \<open>With fewer than 65535 identifiers in use the search succeeds.\<close>

lemma search_succeeds:
  assumes "finite U" and "card U < 65535"
  shows "\<exists>i c'. search next_id (\<lambda>i. i \<notin> U) 65535 c = (Some i, c') \<and> i \<notin> U \<and> i \<noteq> 0"
proof -
  have "\<exists>i. i \<noteq> 0 \<and> i \<notin> U"
  proof (rule ccontr)
    assume "\<nexists>i. i \<noteq> 0 \<and> i \<notin> U"
    then have "- {0 :: u16} \<subseteq> U" by auto
    then have "card (- {0 :: u16}) \<le> card U" by (rule card_mono [OF assms(1)])
    then show False using assms(2) by (simp add: Compl_eq_Diff_UNIV card_Diff_singleton card_word)
  qed
  then have "fst (search next_id (\<lambda>i. i \<notin> U) 65535 c) \<noteq> None" using search_complete by auto
  then obtain i c' where s: "search next_id (\<lambda>i. i \<notin> U) 65535 c = (Some i, c')"
    by (cases "search next_id (\<lambda>i. i \<notin> U) 65535 c") auto
  then show ?thesis using search_sound by blast
qed

end

end
