(* ===== verification/Hash_Map.thy ===== *)
theory Hash_Map
  imports Main "HOL-Library.AList"
begin

text \<open>
  The hash maps and sets of the sessions and the client (\<open>crate::collections::{Map, Set}\<close>) as
  association lists with distinct keys.  The order of the list stands for the iteration order of
  the hash map, which the code leaves unspecified; no theorem depends on it.
\<close>

abbreviation hm_insert :: "'k \<Rightarrow> 'v \<Rightarrow> ('k \<times> 'v) list \<Rightarrow> ('k \<times> 'v) list" where
  "hm_insert \<equiv> AList.update"

abbreviation hm_remove :: "'k \<Rightarrow> ('k \<times> 'v) list \<Rightarrow> ('k \<times> 'v) list" where
  "hm_remove \<equiv> AList.delete"

abbreviation hm_get :: "('k \<times> 'v) list \<Rightarrow> 'k \<Rightarrow> 'v option" where
  "hm_get \<equiv> map_of"

definition hm_contains :: "'k \<Rightarrow> ('k \<times> 'v) list \<Rightarrow> bool" where
  "hm_contains k m \<longleftrightarrow> map_of m k \<noteq> None"

abbreviation keys :: "('k \<times> 'v) list \<Rightarrow> 'k set" where
  "keys m \<equiv> fst ` set m"

abbreviation hm_ok :: "('k \<times> 'v) list \<Rightarrow> bool" where
  "hm_ok m \<equiv> distinct (map fst m)"

lemma hm_contains_iff [simp]: "hm_contains k m \<longleftrightarrow> k \<in> keys m"
  by (simp add: hm_contains_def map_of_eq_None_iff)

lemma keys_insert [simp]: "keys (hm_insert k v m) = insert k (keys m)"
  by (simp add: dom_update)

lemma keys_remove [simp]: "keys (hm_remove k m) = keys m - {k}"
  by (simp add: AList.delete_eq) force

lemma hm_ok_insert [simp]: "hm_ok m \<Longrightarrow> hm_ok (hm_insert k v m)"
  by (rule distinct_update)

lemma hm_ok_remove [simp]: "hm_ok m \<Longrightarrow> hm_ok (hm_remove k m)"
  by (rule distinct_delete)

lemma hm_get_insert [simp]: "hm_get (hm_insert k v m) k' = (if k' = k then Some v else hm_get m k')"
  by (simp add: update_conv')

lemma hm_get_remove [simp]: "hm_get (hm_remove k m) k' = (if k' = k then None else hm_get m k')"
  by (simp add: delete_conv')

lemma insert_fresh: "k \<notin> keys m \<Longrightarrow> hm_insert k v m = m @ [(k, v)]"
  by (induction m) auto

lemma length_keys: "hm_ok m \<Longrightarrow> length m = card (keys m)"
  by (metis distinct_card length_map set_map)

lemma length_remove [simp]: "hm_ok m \<Longrightarrow> k \<in> keys m \<Longrightarrow> length (hm_remove k m) = length m - 1"
  by (simp add: length_keys)

lemma length_insert:
  "hm_ok m \<Longrightarrow> length (hm_insert k v m) = (if k \<in> keys m then length m else Suc (length m))"
  by (auto simp: length_keys insert_absorb)

section \<open>Counting entries\<close>

definition count_entries :: "('v \<Rightarrow> bool) \<Rightarrow> ('k \<times> 'v) list \<Rightarrow> nat" where
  "count_entries P m = length (filter (P \<circ> snd) m)"

lemma count_entries_simps [simp]:
  "count_entries P [] = 0"
  "count_entries P (x # m) = (if P (snd x) then Suc (count_entries P m) else count_entries P m)"
  by (simp_all add: count_entries_def)

lemma count_entries_append [simp]: "count_entries P (m @ n) = count_entries P m + count_entries P n"
  by (simp add: count_entries_def)

lemma count_entries_remove:
  "hm_ok m \<Longrightarrow> hm_get m k = Some v \<Longrightarrow>
   count_entries P m = count_entries P (hm_remove k m) + (if P v then 1 else 0)"
  by (induction m) (force split: if_splits)+

lemma count_entries_insert:
  "hm_ok m \<Longrightarrow> hm_get m k = Some v \<Longrightarrow>
   count_entries P (hm_insert k w m) + (if P v then 1 else 0) =
   count_entries P m + (if P w then 1 else 0)"
  by (induction m) (auto split: if_splits)

lemma count_entries_le: "count_entries P m \<le> length m"
  by (simp add: count_entries_def)

end
