(* ===== verification/Server_Session.thy ===== *)
theory Server_Session
  imports Control_Packet Hash_Map Packet_Ids
begin

text \<open>
  The in-memory session of a server, \<open>src/src/mqtt_session/server_session.rs\<close>: subscriptions,
  retained messages, the queue of messages to forward, packet identifiers and the send quota, and
  the QoS 1 and QoS 2 exchanges in both directions.  A panic (\<open>unwrap\<close> of an absent identifier) is
  the value \<open>Inl (Panic ...)\<close>.
\<close>

declare map_of_eq_Some_iff [simp del] Some_eq_map_of_iff [simp del]

section \<open>State and operations\<close>

record Subscription =
  subscription_options :: TopicSubscription
  subscription_identifier :: "u32 option"

record ServerSession =
  ss_subscriptions :: "(str \<times> Subscription) list"
  ss_unacknowledged_publishes :: "(u16 \<times> Publish5) list"
  ss_pending_publishes :: "Publish5 list"
  ss_received_qos2 :: "u16 set"
  ss_retained_publishes :: "(str \<times> Publish5) list"
  ss_packet_id_counter :: u16
  ss_unacknowledged_pubrels :: "(u16 \<times> Ack5) list"
  ss_will :: "Publish5 option"
  ss_session_expiry_interval :: u32
  ss_receive_maximum :: u16

definition ServerSession_new :: "u16 \<Rightarrow> ServerSession" where
  "ServerSession_new receive_maximum =
     \<lparr>ss_subscriptions = [], ss_unacknowledged_publishes = [], ss_pending_publishes = [],
      ss_received_qos2 = {}, ss_retained_publishes = [], ss_packet_id_counter = 0,
      ss_unacknowledged_pubrels = [], ss_will = None, ss_session_expiry_interval = 0,
      ss_receive_maximum = receive_maximum\<rparr>"

definition is_subscription_identifier :: "Property \<Rightarrow> bool" where
  "is_subscription_identifier p = (case p of SubscriptionIdentifier _ \<Rightarrow> True | _ \<Rightarrow> False)"

definition forwarded_publish :: "Publish5 \<Rightarrow> Subscription \<Rightarrow> bool \<Rightarrow> Publish5" where
  "forwarded_publish publish subscription retained_replay =
     publish\<lparr>pub_qos := min (pub_qos publish) (ts_qos (subscription_options subscription)),
       pub_dup := False,
       pub_retain := retained_replay \<or>
         (pub_retain publish \<and> ts_retain_as_published (subscription_options subscription)),
       pub_packet_id := None,
       pub_properties := filter (\<lambda>p. \<not> is_subscription_identifier p) (pub_properties publish) @
         (case subscription_identifier subscription of
            None \<Rightarrow> [] | Some i \<Rightarrow> [SubscriptionIdentifier i])\<rparr>"

text \<open>\<open>find_map\<close> of the subscription identifier of a SUBSCRIBE.\<close>

fun find_identifier :: "Property list \<Rightarrow> u32 option" where
  "find_identifier [] = None"
| "find_identifier (SubscriptionIdentifier i # ps) = Some i"
| "find_identifier (p # ps) = find_identifier ps"

definition add_subscription :: "u32 option \<Rightarrow> TopicSubscription \<Rightarrow> ServerSession \<Rightarrow> ServerSession" where
  "add_subscription i opts s =
     (let subscription = \<lparr>subscription_options = opts, subscription_identifier = i\<rparr>;
          existed = hm_contains (ts_topic_filter opts) (ss_subscriptions s);
          s = (if \<not> starts_with (ts_topic_filter opts) share_prefix \<and>
                  (ts_retain_handling opts = 0 \<or> (ts_retain_handling opts = 1 \<and> \<not> existed))
               then s\<lparr>ss_pending_publishes := ss_pending_publishes s @
                      map (\<lambda>p. forwarded_publish p subscription True)
                        (filter (\<lambda>p. topic_matches (ts_topic_filter opts) (pub_topic_name p))
                          (map snd (ss_retained_publishes s)))\<rparr>
               else s)
      in s\<lparr>ss_subscriptions := hm_insert (ts_topic_filter opts) subscription (ss_subscriptions s)\<rparr>)"

definition handle_incoming_subscribe :: "Subscribe5 \<Rightarrow> ServerSession \<Rightarrow> ServerSession" where
  "handle_incoming_subscribe subscribe s =
     fold (add_subscription (find_identifier (sub_properties subscribe))) (sub_subscriptions subscribe) s"

definition handle_incoming_unsubscribe :: "Unsubscribe5 \<Rightarrow> ServerSession \<Rightarrow> ServerSession" where
  "handle_incoming_unsubscribe unsubscribe s =
     s\<lparr>ss_subscriptions := fold hm_remove (unsub_topic_filters unsubscribe) (ss_subscriptions s)\<rparr>"

definition unwrap :: "'a option \<Rightarrow> 'a res" where
  "unwrap x = (case x of Some y \<Rightarrow> Inr y
     | None \<Rightarrow> Inl (Panic ''called Option::unwrap() on a None value''))"

definition store_retained :: "Publish5 \<Rightarrow> ServerSession \<Rightarrow> ServerSession" where
  "store_retained publish s =
     (if pub_retain publish then
        if pub_payload publish = []
        then s\<lparr>ss_retained_publishes := hm_remove (pub_topic_name publish) (ss_retained_publishes s)\<rparr>
        else s\<lparr>ss_retained_publishes := hm_insert (pub_topic_name publish)
               (publish\<lparr>pub_dup := False, pub_packet_id := None\<rparr>) (ss_retained_publishes s)\<rparr>
      else s)"

definition route_publish :: "Publish5 \<Rightarrow> ServerSession \<Rightarrow> ServerSession" where
  "route_publish publish s =
     s\<lparr>ss_pending_publishes := ss_pending_publishes s @
       map (\<lambda>(_, subscription). forwarded_publish publish subscription False)
         (filter (\<lambda>(f, _). topic_matches f (pub_topic_name publish)) (ss_subscriptions s))\<rparr>"

definition handle_incoming_publish ::
  "Publish5 \<Rightarrow> ServerSession \<Rightarrow> (MqttPacket option \<times> ServerSession) res" where
  "handle_incoming_publish publish s =
     tryE (if pub_qos publish = 2
           then tryE (unwrap (pub_packet_id publish)) (\<lambda>i.
             Inr (i \<in> ss_received_qos2 s, s\<lparr>ss_received_qos2 := insert i (ss_received_qos2 s)\<rparr>))
           else Inr (False, s)) (\<lambda>(duplicate, s).
     if duplicate
     then tryE (unwrap (pub_packet_id publish)) (\<lambda>i. Inr (Some (P_PubRec5 (Ack5_new_success i)), s))
     else
       let s = route_publish publish (store_retained publish s) in
       if pub_qos publish = 1
       then tryE (unwrap (pub_packet_id publish)) (\<lambda>i.
         Inr (Some (P_PubAck5 \<lparr>ack_packet_id = i, ack_reason_code = 0, ack_properties = []\<rparr>), s))
       else if pub_qos publish = 2
       then tryE (unwrap (pub_packet_id publish)) (\<lambda>i.
         Inr (Some (P_PubRec5 \<lparr>ack_packet_id = i, ack_reason_code = 0, ack_properties = []\<rparr>), s))
       else Inr (None, s))"

definition ss_handle_puback :: "Ack5 \<Rightarrow> ServerSession \<Rightarrow> ServerSession" where
  "ss_handle_puback puback s =
     (if (case hm_get (ss_unacknowledged_publishes s) (ack_packet_id puback) of
            None \<Rightarrow> False | Some publish \<Rightarrow> pub_qos publish = 1)
      then s\<lparr>ss_unacknowledged_publishes :=
             hm_remove (ack_packet_id puback) (ss_unacknowledged_publishes s)\<rparr>
      else s)"

definition ss_handle_pubrec :: "Ack5 \<Rightarrow> ServerSession \<Rightarrow> Ack5 option \<times> ServerSession" where
  "ss_handle_pubrec pubrec s =
     (case hm_get (ss_unacknowledged_pubrels s) (ack_packet_id pubrec) of
        Some pubrel \<Rightarrow> (if ack_reason_code pubrec < 0x80 then Some pubrel else None, s)
      | None \<Rightarrow>
          if (case hm_get (ss_unacknowledged_publishes s) (ack_packet_id pubrec) of
                None \<Rightarrow> True | Some publish \<Rightarrow> pub_qos publish \<noteq> 2)
          then (None, s)
          else
            let s = s\<lparr>ss_unacknowledged_publishes :=
                  hm_remove (ack_packet_id pubrec) (ss_unacknowledged_publishes s)\<rparr> in
            if ack_reason_code pubrec < 0x80 then
              let pubrel = \<lparr>ack_packet_id = ack_packet_id pubrec, ack_reason_code = 0, ack_properties = []\<rparr>
              in (Some pubrel, s\<lparr>ss_unacknowledged_pubrels :=
                    hm_insert (ack_packet_id pubrec) pubrel (ss_unacknowledged_pubrels s)\<rparr>)
            else (None, s))"

definition ss_handle_pubrel :: "Ack5 \<Rightarrow> ServerSession \<Rightarrow> Ack5 \<times> ServerSession" where
  "ss_handle_pubrel pubrel s =
     (let known = ack_packet_id pubrel \<in> ss_received_qos2 s in
      (\<lparr>ack_packet_id = ack_packet_id pubrel, ack_reason_code = (if known then 0 else 0x92),
        ack_properties = []\<rparr>,
       s\<lparr>ss_received_qos2 := ss_received_qos2 s - {ack_packet_id pubrel}\<rparr>))"

definition ss_handle_pubcomp :: "Ack5 \<Rightarrow> ServerSession \<Rightarrow> ServerSession" where
  "ss_handle_pubcomp pubcomp s =
     s\<lparr>ss_unacknowledged_pubrels := hm_remove (ack_packet_id pubcomp) (ss_unacknowledged_pubrels s)\<rparr>"

text \<open>\<open>next_packet_id\<close>: \<open>checked_add(1).unwrap_or(1)\<close> on the counter, at most 65535 times.\<close>

definition server_count :: "u16 \<Rightarrow> u16 \<times> u16" where
  "server_count c = (let c = (if unat c + 1 < 65536 then c + 1 else 1) in (c, c))"

definition ss_next_packet_id :: "ServerSession \<Rightarrow> u16 option \<times> ServerSession" where
  "ss_next_packet_id s =
     (let (r, c) = search server_count
            (\<lambda>i. \<not> hm_contains i (ss_unacknowledged_publishes s) \<and>
                 \<not> hm_contains i (ss_unacknowledged_pubrels s)) 65535 (ss_packet_id_counter s)
      in (r, s\<lparr>ss_packet_id_counter := c\<rparr>))"

text \<open>The loop of \<open>take_pending_messages\<close> over the messages queued at its start.\<close>

fun take_pending_loop :: "nat \<Rightarrow> nat \<Rightarrow> ServerSession \<Rightarrow> (MqttPacket list \<times> ServerSession) res" where
  "take_pending_loop 0 available_slots s = Inr ([], s)"
| "take_pending_loop (Suc n) available_slots s =
     (case ss_pending_publishes s of
        [] \<Rightarrow> Inl (Panic ''called Option::unwrap() on a None value'')
      | publish # rest \<Rightarrow>
          let s = s\<lparr>ss_pending_publishes := rest\<rparr> in
          if 0 < pub_qos publish then
            if available_slots = 0
            then take_pending_loop n available_slots (s\<lparr>ss_pending_publishes := rest @ [publish]\<rparr>)
            else
              (case ss_next_packet_id s of
                 (None, s) \<Rightarrow> Inr ([], s\<lparr>ss_pending_publishes := publish # ss_pending_publishes s\<rparr>)
               | (Some i, s) \<Rightarrow>
                   let publish = publish\<lparr>pub_packet_id := Some i\<rparr>;
                       s = s\<lparr>ss_unacknowledged_publishes :=
                             hm_insert i publish (ss_unacknowledged_publishes s)\<rparr>
                   in tryE (take_pending_loop n (available_slots - 1) s) (\<lambda>(packets, s).
                      Inr (P_Publish5 publish # packets, s)))
          else
            tryE (take_pending_loop n available_slots s) (\<lambda>(packets, s).
            Inr (P_Publish5 publish # packets, s)))"

definition take_pending_messages :: "ServerSession \<Rightarrow> (MqttPacket list \<times> ServerSession) res" where
  "take_pending_messages s =
     (let inflight = length (ss_unacknowledged_publishes s) + length (ss_unacknowledged_pubrels s);
          available_slots = unat (ss_receive_maximum s) - inflight
      in take_pending_loop (length (ss_pending_publishes s)) available_slots s)"

definition ss_resend_pending_messages :: "ServerSession \<Rightarrow> (MqttPacket list \<times> ServerSession) res" where
  "ss_resend_pending_messages s =
     tryE (take_pending_messages s) (\<lambda>(packets, s').
     Inr (map (\<lambda>(_, p). P_Publish5 (p\<lparr>pub_dup := True\<rparr>)) (ss_unacknowledged_publishes s) @
          map (\<lambda>(_, r). P_PubRel5 r) (ss_unacknowledged_pubrels s) @ packets, s'))"

section \<open>Invariant\<close>

text \<open>The identifiers in use, and the number of exchanges that hold a slot of the send quota.\<close>

definition ss_used :: "ServerSession \<Rightarrow> u16 set" where
  "ss_used s = keys (ss_unacknowledged_publishes s) \<union> keys (ss_unacknowledged_pubrels s)"

definition ss_inflight :: "ServerSession \<Rightarrow> nat" where
  "ss_inflight s = length (ss_unacknowledged_publishes s) + length (ss_unacknowledged_pubrels s)"

text \<open>
  The outgoing exchanges: identifiers are distinct, not zero and owned either by a PUBLISH or by a
  PUBREL, there are at most as many as the receive maximum, and each carries its own identifier.
\<close>

definition outgoing_ok :: "(u16 \<times> Publish5) list \<Rightarrow> (u16 \<times> Ack5) list \<Rightarrow> nat \<Rightarrow> bool" where
  "outgoing_ok P R n \<longleftrightarrow> hm_ok P \<and> hm_ok R \<and> keys P \<inter> keys R = {} \<and> 0 \<notin> keys P \<and> 0 \<notin> keys R \<and>
     length P + length R \<le> n \<and>
     (\<forall>i p. hm_get P i = Some p \<longrightarrow> pub_packet_id p = Some i \<and> 0 < pub_qos p) \<and>
     (\<forall>i r. hm_get R i = Some r \<longrightarrow> ack_packet_id r = i)"

definition ss_inv :: "ServerSession \<Rightarrow> bool" where
  "ss_inv s \<longleftrightarrow> outgoing_ok (ss_unacknowledged_publishes s) (ss_unacknowledged_pubrels s)
     (unat (ss_receive_maximum s))"

lemma ss_inv_new [simp]: "ss_inv (ServerSession_new r)"
  by (simp add: ss_inv_def outgoing_ok_def ServerSession_new_def)

lemma outgoing_remove_publish: "outgoing_ok P R n \<Longrightarrow> outgoing_ok (hm_remove i P) R n"
  using length_delete_le [of i P] by (auto simp: outgoing_ok_def)

lemma outgoing_remove_pubrel: "outgoing_ok P R n \<Longrightarrow> outgoing_ok P (hm_remove i R) n"
  using length_delete_le [of i R] by (auto simp: outgoing_ok_def)

lemma outgoing_to_pubrel:
  assumes "outgoing_ok P R n" and "i \<in> keys P" and "ack_packet_id r = i"
  shows "outgoing_ok (hm_remove i P) (hm_insert i r R) n"
proof -
  have "i \<notin> keys R" using assms(1,2) unfolding outgoing_ok_def by blast
  moreover have "i \<noteq> 0" using assms(1,2) unfolding outgoing_ok_def by metis
  moreover obtain m where "length P = Suc m" using assms(2) by (cases P) auto
  ultimately have "i \<noteq> 0" "length (hm_remove i P) + length (hm_insert i r R) \<le> n"
    using assms by (simp_all add: outgoing_ok_def length_insert)
  then show ?thesis using assms \<open>i \<noteq> 0\<close> by (auto simp: outgoing_ok_def)
qed

lemma outgoing_add_publish:
  assumes "outgoing_ok P R n" and "i \<notin> keys P" and "i \<notin> keys R" and "i \<noteq> 0"
    and "length P + length R < n" and "pub_packet_id p = Some i" and "0 < pub_qos p"
  shows "outgoing_ok (P @ [(i, p)]) R n"
proof -
  have "\<forall>j q. hm_get (P @ [(i, p)]) j = Some q \<longrightarrow> pub_packet_id q = Some j \<and> 0 < pub_qos q"
    using assms by (auto simp: outgoing_ok_def map_add_def split: option.splits if_splits)
  then show ?thesis using assms by (simp add: outgoing_ok_def)
qed

lemma add_subscription_frame [simp]:
  "ss_unacknowledged_publishes (add_subscription i opts s) = ss_unacknowledged_publishes s"
  "ss_unacknowledged_pubrels (add_subscription i opts s) = ss_unacknowledged_pubrels s"
  "ss_receive_maximum (add_subscription i opts s) = ss_receive_maximum s"
  by (simp_all add: add_subscription_def Let_def)

lemma fold_frame: "(\<And>x t. f (g x t) = f t) \<Longrightarrow> f (fold g xs s) = f s"
  by (induction xs arbitrary: s) simp_all

lemma handle_subscribe_frame [simp]:
  "ss_unacknowledged_publishes (handle_incoming_subscribe m s) = ss_unacknowledged_publishes s"
  "ss_unacknowledged_pubrels (handle_incoming_subscribe m s) = ss_unacknowledged_pubrels s"
  "ss_receive_maximum (handle_incoming_subscribe m s) = ss_receive_maximum s"
  by (simp_all add: handle_incoming_subscribe_def fold_frame)

lemma handle_publish_frame:
  assumes "handle_incoming_publish p s = Inr (r, s')"
  shows "ss_unacknowledged_publishes s' = ss_unacknowledged_publishes s"
    and "ss_unacknowledged_pubrels s' = ss_unacknowledged_pubrels s"
    and "ss_receive_maximum s' = ss_receive_maximum s"
  using assms
  by (auto simp: handle_incoming_publish_def route_publish_def store_retained_def Let_def
      split: if_splits)

lemma ss_inv_puback: "ss_inv s \<Longrightarrow> ss_inv (ss_handle_puback a s)"
  by (simp add: ss_inv_def ss_handle_puback_def outgoing_remove_publish)

lemma ss_inv_pubcomp: "ss_inv s \<Longrightarrow> ss_inv (ss_handle_pubcomp a s)"
  by (simp add: ss_inv_def ss_handle_pubcomp_def outgoing_remove_pubrel)

lemma ss_inv_pubrel: "ss_inv (snd (ss_handle_pubrel a s)) \<longleftrightarrow> ss_inv s"
  by (simp add: ss_handle_pubrel_def Let_def ss_inv_def)

lemma ss_inv_pubrec:
  assumes "ss_inv s"
  shows "ss_inv (snd (ss_handle_pubrec a s))"
proof (cases "hm_get (ss_unacknowledged_pubrels s) (ack_packet_id a)")
  case None
  show ?thesis
  proof (cases "hm_get (ss_unacknowledged_publishes s) (ack_packet_id a)")
    case (Some p)
    then have "ack_packet_id a \<in> keys (ss_unacknowledged_publishes s)" by (force dest: map_of_SomeD)
    then show ?thesis
      using assms None Some
      by (simp add: ss_handle_pubrec_def ss_inv_def Let_def outgoing_remove_publish outgoing_to_pubrel)
  qed (use assms None in \<open>simp add: ss_handle_pubrec_def\<close>)
qed (use assms in \<open>simp add: ss_handle_pubrec_def\<close>)

section \<open>Packet identifiers\<close>

interpretation server_ids: packet_id_source server_count "\<lambda>c. c"
proof
  fix c :: u16
  obtain n where n: "unat c = n" "n < 65536" using unat_u16_less [of c] by blast
  have "c = 0xFFFF \<longleftrightarrow> n = 65535" using n by (simp add: word_unat_eq_iff)
  then show "fst (server_count c) = id_succ c" "snd (server_count c) = id_succ c"
    using n by (auto simp: server_count_def id_succ_def Let_def)
qed

lemma card_ss_used: "ss_inv s \<Longrightarrow> card (ss_used s) = ss_inflight s"
  by (simp add: ss_inv_def outgoing_ok_def ss_used_def ss_inflight_def card_Un_disjoint length_keys)

text \<open>
  While the send quota has room there is a free identifier: the search of \<open>next_packet_id\<close> cannot
  fail, because fewer than 65535 identifiers are in use.
\<close>

lemma ss_next_packet_id_Some:
  assumes "ss_inv s" and "ss_inflight s < unat (ss_receive_maximum s)"
  shows "\<exists>i c. ss_next_packet_id s = (Some i, s\<lparr>ss_packet_id_counter := c\<rparr>) \<and> i \<notin> ss_used s \<and> i \<noteq> 0"
proof -
  have "card (ss_used s) < 65535"
    using assms(2) card_ss_used [OF assms(1)] unat_u16_less [of "ss_receive_maximum s"] by linarith
  moreover have "finite (ss_used s)" by (simp add: ss_used_def)
  ultimately obtain i c where "search server_count (\<lambda>i. i \<notin> ss_used s) 65535 (ss_packet_id_counter s) = (Some i, c)"
    "i \<notin> ss_used s" "i \<noteq> 0"
    using server_ids.search_succeeds by blast
  then show ?thesis by (auto simp: ss_next_packet_id_def ss_used_def)
qed

section \<open>Draining the queue\<close>

text \<open>
  The specification: all QoS 0 messages and the first \<open>n\<close> others go out in order, the remaining ones
  stay in order.
\<close>

fun send_now :: "nat \<Rightarrow> Publish5 list \<Rightarrow> Publish5 list" where
  "send_now n [] = []"
| "send_now n (p # ps) =
     (if pub_qos p = 0 then p # send_now n ps
      else if n = 0 then send_now n ps else p # send_now (n - 1) ps)"

definition needs_slot :: "Publish5 \<Rightarrow> bool" where
  "needs_slot p \<longleftrightarrow> 0 < pub_qos p"

definition same_message :: "Publish5 \<Rightarrow> Publish5 \<Rightarrow> bool" where
  "same_message sent p \<longleftrightarrow>
     (if needs_slot p then \<exists>i. sent = p\<lparr>pub_packet_id := Some i\<rparr> else sent = p)"

definition with_id :: "Publish5 \<Rightarrow> u16 \<times> Publish5" where
  "with_id p = (the (pub_packet_id p), p)"

definition drained :: "ServerSession \<Rightarrow> Publish5 list \<Rightarrow> Publish5 list \<Rightarrow> ServerSession \<Rightarrow> bool" where
  "drained s sent pending s' \<longleftrightarrow> ss_inv s' \<and> (\<exists>c.
     s' = s\<lparr>ss_pending_publishes := pending, ss_packet_id_counter := c,
       ss_unacknowledged_publishes := ss_unacknowledged_publishes s @ map with_id (filter needs_slot sent)\<rparr>)"

lemma drained_frame:
  "drained s sent pending s' \<Longrightarrow> ss_inv s' \<and> ss_pending_publishes s' = pending \<and>
   ss_unacknowledged_publishes s' = ss_unacknowledged_publishes s @ map with_id (filter needs_slot sent) \<and>
   ss_unacknowledged_pubrels s' = ss_unacknowledged_pubrels s \<and>
   ss_subscriptions s' = ss_subscriptions s \<and> ss_retained_publishes s' = ss_retained_publishes s \<and>
   ss_received_qos2 s' = ss_received_qos2 s \<and> ss_receive_maximum s' = ss_receive_maximum s"
  by (auto simp: drained_def)

lemma take_pending_loop_drained:
  assumes "ss_inv s" and "ss_pending_publishes s = todo @ kept" and "0 < n \<longrightarrow> kept = []"
    and "n = unat (ss_receive_maximum s) - ss_inflight s"
  shows "\<exists>sent s'. take_pending_loop (length todo) n s = Inr (map P_Publish5 sent, s') \<and>
     list_all2 same_message sent (send_now n todo) \<and>
     drained s sent (kept @ drop n (filter needs_slot todo)) s'"
  using assms
proof (induction todo arbitrary: n s kept)
  case Nil
  then have "drained s [] kept s"
    by (auto simp: drained_def intro!: exI [of _ "ss_packet_id_counter s"])
  then show ?case using Nil by simp
next
  case (Cons p todo)
  let ?s = "s\<lparr>ss_pending_publishes := todo @ kept\<rparr>"
  have inv: "ss_inv ?s" using Cons.prems(1) by (simp add: ss_inv_def)
  have infl: "ss_inflight ?s = ss_inflight s" by (simp add: ss_inflight_def)
  show ?case
  proof (cases "pub_qos p = 0")
    case True
    obtain sent s' where r: "take_pending_loop (length todo) n ?s = Inr (map P_Publish5 sent, s')"
      "list_all2 same_message sent (send_now n todo)"
      "drained ?s sent (kept @ drop n (filter needs_slot todo)) s'"
      using Cons.IH [OF inv, of kept n] Cons.prems infl by auto
    then have "drained s (p # sent) (kept @ drop n (filter needs_slot todo)) s'"
      using True by (auto simp: drained_def needs_slot_def)
    moreover have "same_message p p" "\<not> needs_slot p"
      using True by (simp_all add: same_message_def needs_slot_def)
    ultimately show ?thesis
      using r True Cons.prems(2) by (intro exI [of _ "p # sent"] exI [of _ s']) simp
  next
    case qos: False
    then have pos: "0 < pub_qos p" by (simp add: word_gt_0)
    show ?thesis
    proof (cases "n = 0")
      case True
      let ?t = "s\<lparr>ss_pending_publishes := todo @ (kept @ [p])\<rparr>"
      have "ss_inv ?t" using Cons.prems(1) by (simp add: ss_inv_def)
      then obtain sent s' where r: "take_pending_loop (length todo) 0 ?t = Inr (map P_Publish5 sent, s')"
        "list_all2 same_message sent (send_now 0 todo)"
        "drained ?t sent ((kept @ [p]) @ filter needs_slot todo) s'"
        using Cons.IH [of ?t "kept @ [p]" 0] Cons.prems(4) True by (auto simp: ss_inflight_def)
      then have "drained s sent (kept @ filter needs_slot (p # todo)) s'"
        using pos by (auto simp: drained_def needs_slot_def)
      then show ?thesis
        using r True pos qos Cons.prems(2)
        by (intro exI [of _ sent] exI [of _ s']) (simp add: Let_def)
    next
      case False
      then have k: "kept = []" using Cons.prems(3) by simp
      obtain i c where nid: "ss_next_packet_id ?s = (Some i, ?s\<lparr>ss_packet_id_counter := c\<rparr>)"
        "i \<notin> ss_used ?s" "i \<noteq> 0"
        using ss_next_packet_id_Some [OF inv] False Cons.prems(4) infl by auto
      let ?p = "p\<lparr>pub_packet_id := Some i\<rparr>"
      let ?t = "s\<lparr>ss_pending_publishes := todo, ss_packet_id_counter := c,
        ss_unacknowledged_publishes := ss_unacknowledged_publishes s @ [(i, ?p)]\<rparr>"
      have ins: "hm_insert i ?p (ss_unacknowledged_publishes s) = ss_unacknowledged_publishes s @ [(i, ?p)]"
        using nid(2) by (simp add: insert_fresh ss_used_def)
      have "ss_inv ?t"
        using outgoing_add_publish [of "ss_unacknowledged_publishes s" _ _ i ?p] Cons.prems(1,4) nid
          False pos by (simp add: ss_inv_def ss_used_def ss_inflight_def)
      then obtain sent s' where r: "take_pending_loop (length todo) (n - 1) ?t = Inr (map P_Publish5 sent, s')"
        "list_all2 same_message sent (send_now (n - 1) todo)"
        "drained ?t sent (drop (n - 1) (filter needs_slot todo)) s'"
        using Cons.IH [of ?t "[]" "n - 1"] Cons.prems(4) k by (auto simp: ss_inflight_def)
      then have "drained s (?p # sent) (drop n (filter needs_slot (p # todo))) s'"
        using pos False by (cases n) (auto simp: drained_def needs_slot_def with_id_def)
      moreover have "same_message ?p p" using pos by (auto simp: same_message_def needs_slot_def)
      ultimately show ?thesis
        using r False pos qos Cons.prems(2) k nid(1) ins
        by (intro exI [of _ "?p # sent"] exI [of _ s']) (simp add: Let_def)
    qed
  qed
qed

lemma take_pending_drained:
  assumes "ss_inv s"
  shows "\<exists>sent s'. take_pending_messages s = Inr (map P_Publish5 sent, s') \<and>
     list_all2 same_message sent (send_now (unat (ss_receive_maximum s) - ss_inflight s) (ss_pending_publishes s)) \<and>
     drained s sent (drop (unat (ss_receive_maximum s) - ss_inflight s)
       (filter needs_slot (ss_pending_publishes s))) s'"
  using take_pending_loop_drained [OF assms, of "ss_pending_publishes s" "[]"]
  by (auto simp: take_pending_messages_def ss_inflight_def)

section \<open>Runs\<close>

text \<open>What the caller of a session does, with the packets it gets to send.\<close>

datatype ss_event =
    E_Subscribe Subscribe5
  | E_Unsubscribe Unsubscribe5
  | E_Publish Publish5
  | E_PubAck Ack5
  | E_PubRec Ack5
  | E_PubRel Ack5
  | E_PubComp Ack5
  | E_Take
  | E_Resend

fun ss_apply :: "ss_event \<Rightarrow> ServerSession \<Rightarrow> (MqttPacket list \<times> ServerSession) res" where
  "ss_apply (E_Subscribe m) s = Inr ([], handle_incoming_subscribe m s)"
| "ss_apply (E_Unsubscribe m) s = Inr ([], handle_incoming_unsubscribe m s)"
| "ss_apply (E_Publish p) s =
     tryE (handle_incoming_publish p s) (\<lambda>(r, s). Inr (case r of None \<Rightarrow> [] | Some q \<Rightarrow> [q], s))"
| "ss_apply (E_PubAck a) s = Inr ([], ss_handle_puback a s)"
| "ss_apply (E_PubRec a) s =
     (let (r, s) = ss_handle_pubrec a s in Inr (case r of None \<Rightarrow> [] | Some q \<Rightarrow> [P_PubRel5 q], s))"
| "ss_apply (E_PubRel a) s = (let (r, s) = ss_handle_pubrel a s in Inr ([P_PubComp5 r], s))"
| "ss_apply (E_PubComp a) s = Inr ([], ss_handle_pubcomp a s)"
| "ss_apply E_Take s = take_pending_messages s"
| "ss_apply E_Resend s = ss_resend_pending_messages s"

inductive ss_reachable :: "u16 \<Rightarrow> ServerSession \<Rightarrow> bool" for r where
  init: "ss_reachable r (ServerSession_new r)"
| step: "ss_reachable r s \<Longrightarrow> ss_apply e s = Inr (out, s') \<Longrightarrow> ss_reachable r s'"

lemma ss_apply_inv:
  assumes "ss_inv s" and "ss_apply e s = Inr (out, s')"
  shows "ss_inv s' \<and> ss_receive_maximum s' = ss_receive_maximum s"
proof (cases e)
  case (E_Subscribe m)
  then show ?thesis using assms by (auto simp: ss_inv_def)
next
  case (E_Unsubscribe m)
  then show ?thesis using assms by (auto simp: ss_inv_def handle_incoming_unsubscribe_def)
next
  case (E_Publish p)
  then obtain r where "handle_incoming_publish p s = Inr (r, s')" using assms(2) by auto
  then show ?thesis using assms(1) handle_publish_frame [of p s r s'] by (simp add: ss_inv_def)
next
  case (E_PubAck a)
  then show ?thesis using assms ss_inv_puback [of s a] by (auto simp: ss_handle_puback_def)
next
  case (E_PubRec a)
  then show ?thesis
    using assms ss_inv_pubrec [of s a]
    by (auto simp: ss_handle_pubrec_def Let_def split: prod.splits option.splits if_splits)
next
  case (E_PubRel a)
  then show ?thesis
    using assms ss_inv_pubrel [of a s] by (auto simp: ss_handle_pubrel_def Let_def)
next
  case (E_PubComp a)
  then show ?thesis using assms ss_inv_pubcomp [of s a] by (auto simp: ss_handle_pubcomp_def)
next
  case E_Take
  then show ?thesis using assms take_pending_drained [OF assms(1)] by (auto dest!: drained_frame)
next
  case E_Resend
  then show ?thesis
    using assms take_pending_drained [OF assms(1)]
    by (auto simp: ss_resend_pending_messages_def dest!: drained_frame)
qed

lemma ss_reachable_inv: "ss_reachable r s \<Longrightarrow> ss_inv s \<and> ss_receive_maximum s = r"
proof (induction rule: ss_reachable.induct)
  case init
  then show ?case by (simp add: ServerSession_new_def [of r] ss_inv_def outgoing_ok_def)
next
  case (step s e out s')
  then show ?case using ss_apply_inv by auto
qed

section \<open>Incoming QoS 2 messages are delivered once\<close>

fun is_pubrel_of :: "u16 \<Rightarrow> ss_event \<Rightarrow> bool" where
  "is_pubrel_of i (E_PubRel a) = (ack_packet_id a = i)"
| "is_pubrel_of i e = False"

fun ss_run :: "ss_event list \<Rightarrow> ServerSession \<Rightarrow> (MqttPacket list \<times> ServerSession) res" where
  "ss_run [] s = Inr ([], s)"
| "ss_run (e # es) s =
     tryE (ss_apply e s) (\<lambda>(out, s). tryE (ss_run es s) (\<lambda>(outs, s). Inr (out @ outs, s)))"

lemma add_subscription_received [simp]: "ss_received_qos2 (add_subscription i opts s) = ss_received_qos2 s"
  by (simp add: add_subscription_def Let_def)

lemma take_pending_received:
  "ss_inv s \<Longrightarrow> take_pending_messages s = Inr (out, s') \<Longrightarrow> ss_received_qos2 s' = ss_received_qos2 s"
  using take_pending_drained [of s] by (auto dest!: drained_frame)

lemma handle_publish_received:
  "handle_incoming_publish p s = Inr (r, s') \<Longrightarrow> ss_received_qos2 s \<subseteq> ss_received_qos2 s'"
  by (auto simp: handle_incoming_publish_def route_publish_def store_retained_def Let_def
      split: if_splits)

lemma ss_apply_received:
  assumes "ss_inv s" and "ss_apply e s = Inr (out, s')" and "\<not> is_pubrel_of i e"
    and "i \<in> ss_received_qos2 s"
  shows "i \<in> ss_received_qos2 s'"
proof (cases e)
  case (E_Publish p)
  then obtain r where "handle_incoming_publish p s = Inr (r, s')" using assms(2) by auto
  then show ?thesis using handle_publish_received assms(4) by blast
next
  case (E_PubRec a)
  then have "s' = snd (ss_handle_pubrec a s)" using assms(2) by (simp split: prod.splits)
  then show ?thesis using assms(4) by (simp add: ss_handle_pubrec_def Let_def split: option.splits)
next
  case E_Take
  then show ?thesis using assms take_pending_received [of s] by simp
next
  case E_Resend
  then obtain ps where "take_pending_messages s = Inr (ps, s')"
    using assms(2) by (auto simp: ss_resend_pending_messages_def)
  then show ?thesis using assms(1,4) take_pending_received [of s] by simp
qed (use assms in \<open>auto simp: handle_incoming_subscribe_def fold_frame handle_incoming_unsubscribe_def
    ss_handle_puback_def ss_handle_pubrel_def ss_handle_pubcomp_def Let_def split: if_splits\<close>)

lemma ss_run_received:
  "ss_run es s = Inr (out, s') \<Longrightarrow> ss_inv s \<Longrightarrow> \<forall>e \<in> set es. \<not> is_pubrel_of i e \<Longrightarrow>
   i \<in> ss_received_qos2 s \<Longrightarrow> ss_inv s' \<and> i \<in> ss_received_qos2 s'"
proof (induction es arbitrary: s out)
  case (Cons e es)
  then obtain o1 t o2 where "ss_apply e s = Inr (o1, t)" "ss_run es t = Inr (o2, s')" by auto
  then show ?case using Cons ss_apply_inv ss_apply_received by (metis list.set_intros)
qed simp

lemma ss_run_reachable:
  assumes "ss_run es s = Inr (out, s')" and "ss_reachable r s" shows "ss_reachable r s'"
  using assms
proof (induction es arbitrary: s out)
  case (Cons e es)
  then obtain o1 t o2 where "ss_apply e s = Inr (o1, t)" "ss_run es t = Inr (o2, s')" by auto
  then show ?case using Cons.IH Cons.prems(2) ss_reachable.step by blast
qed simp

lemma publish_qos2_first:
  assumes "pub_qos p = 2" and "pub_packet_id p = Some i" and "handle_incoming_publish p s = Inr (r, s')"
  shows "i \<in> ss_received_qos2 s'"
  using assms
  by (auto simp: handle_incoming_publish_def route_publish_def store_retained_def unwrap_def Let_def
      split: if_splits)

lemma publish_qos2_duplicate:
  assumes "pub_qos p = 2" and "pub_packet_id p = Some i" and "i \<in> ss_received_qos2 s"
  shows "handle_incoming_publish p s = Inr (Some (P_PubRec5 (Ack5_new_success i)), s)"
  using assms by (simp add: handle_incoming_publish_def unwrap_def insert_absorb)

section \<open>Retained messages and subscriptions\<close>

lemma retained_last:
  "hm_get (ss_retained_publishes (fold store_retained ps s)) t =
   (let qs = filter (\<lambda>p. pub_retain p \<and> pub_topic_name p = t) ps in
    if qs = [] then hm_get (ss_retained_publishes s) t
    else if pub_payload (last qs) = [] then None
    else Some ((last qs)\<lparr>pub_dup := False, pub_packet_id := None\<rparr>))"
proof (induction ps rule: rev_induct)
  case (snoc p ps)
  then show ?case by (auto simp: store_retained_def Let_def)
qed (simp add: Let_def)

lemma subscribe_last:
  "hm_get (ss_subscriptions (fold (add_subscription i) os s)) f =
   (let qs = filter (\<lambda>q. ts_topic_filter q = f) os in
    if qs = [] then hm_get (ss_subscriptions s) f
    else Some \<lparr>subscription_options = last qs, subscription_identifier = i\<rparr>)"
proof (induction os rule: rev_induct)
  case (snoc p ps)
  then show ?case by (auto simp: add_subscription_def Let_def)
qed (simp add: Let_def)

lemma unsubscribe_gone:
  "hm_get (fold hm_remove fs m) f = (if f \<in> set fs then None else hm_get m f)"
  by (induction fs arbitrary: m) auto

end
