(* ===== verification/Client_Types.thy ===== *)
theory Client_Types
  imports Prelude
begin

text \<open>
  Types the client shares: the caller-supplied monotonic time of \<open>src/src/time.rs\<close> and the error
  type of \<open>src/src/mqtt_client/error.rs\<close> with its classification.
\<close>

section \<open>Time\<close>

text \<open>
  A \<open>Timestamp\<close> is a 64-bit count of nanoseconds.  A \<open>Duration\<close> of the standard library counts
  nanoseconds without wrapping (up to 2^64 seconds), so it is a natural number.  The checked
  operations of \<open>u64\<close> are written out.
\<close>

type_synonym u64 = "64 word"
type_synonym Timestamp = u64
type_synonym Duration = nat

datatype TimeError = TimeError

definition u64_try_from :: "nat \<Rightarrow> u64 option" where
  "u64_try_from n = (if n < 2 ^ 64 then Some (of_nat n) else None)"

definition u64_checked_add :: "u64 \<Rightarrow> u64 \<Rightarrow> u64 option" where
  "u64_checked_add a b = (if unat a + unat b < 2 ^ 64 then Some (a + b) else None)"

definition try_from_millis :: "u64 \<Rightarrow> TimeError + Timestamp" where
  "try_from_millis millis =
     (if unat millis * 1000000 < 2 ^ 64 then Inr (millis * 1000000) else Inl TimeError)"

definition try_from_uptime_millis :: "64 word \<Rightarrow> TimeError + Timestamp" where
  "try_from_uptime_millis millis =
     (if sint millis < 0 then Inl TimeError else try_from_millis (of_int (sint millis)))"

definition as_millis :: "Timestamp \<Rightarrow> u64" where
  "as_millis t = t div 1000000"

definition as_millis_ceil :: "Timestamp \<Rightarrow> u64" where
  "as_millis_ceil t = t div 1000000 + (if t mod 1000000 \<noteq> 0 then 1 else 0)"

definition checked_add :: "Timestamp \<Rightarrow> Duration \<Rightarrow> Timestamp option" where
  "checked_add t duration =
     (case u64_try_from duration of None \<Rightarrow> None | Some nanos \<Rightarrow> u64_checked_add t nanos)"

definition checked_duration_since :: "Timestamp \<Rightarrow> Timestamp \<Rightarrow> Duration option" where
  "checked_duration_since t earlier = (if earlier \<le> t then Some (unat (t - earlier)) else None)"

definition saturating_duration_since :: "Timestamp \<Rightarrow> Timestamp \<Rightarrow> Duration" where
  "saturating_duration_since t earlier = (if earlier \<le> t then unat (t - earlier) else 0)"

lemma checked_add_Some:
  "checked_add t d = Some u \<longleftrightarrow> unat t + d < 2 ^ 64 \<and> unat u = unat t + d"
proof
  assume "checked_add t d = Some u"
  then have "d < 2 ^ 64" "unat t + d < 2 ^ 64" "u = t + of_nat d"
    by (auto simp: checked_add_def u64_try_from_def u64_checked_add_def unat_of_nat split: if_splits)
  then show "unat t + d < 2 ^ 64 \<and> unat u = unat t + d"
    by (simp add: unat_word_ariths unat_of_nat)
next
  assume a: "unat t + d < 2 ^ 64 \<and> unat u = unat t + d"
  then have d: "d < 2 ^ 64" by simp
  have "u = t + of_nat d" using a d by (simp add: word_unat_eq_iff unat_word_ariths unat_of_nat)
  then show "checked_add t d = Some u"
    using a d by (simp add: checked_add_def u64_try_from_def u64_checked_add_def unat_of_nat)
qed

lemma checked_add_None: "checked_add t d = None \<longleftrightarrow> 2 ^ 64 \<le> unat t + d"
  by (auto simp: checked_add_def u64_try_from_def u64_checked_add_def unat_of_nat)

lemma checked_add_mono:
  assumes "t \<le> t'" and "checked_add t' d = Some u'"
  shows "\<exists>u. checked_add t d = Some u \<and> u \<le> u'"
proof -
  have u': "unat t' + d < 2 ^ 64" "unat u' = unat t' + d" using assms(2) by (simp_all add: checked_add_Some)
  have le: "unat t \<le> unat t'" using assms(1) by (simp add: word_le_nat_alt)
  then obtain u where u: "checked_add t d = Some u"
    using u' checked_add_None [of t d] by (cases "checked_add t d") auto
  then have "unat u \<le> unat u'" using u' le by (simp add: checked_add_Some)
  then show ?thesis using u by (simp add: word_le_nat_alt)
qed

lemma duration_add:
  assumes "checked_add t d = Some u"
  shows "checked_duration_since u t = Some d" "saturating_duration_since u t = d"
proof -
  have "unat u = unat t + d" using assms by (simp add: checked_add_Some)
  then have "t \<le> u" "unat (u - t) = d" by (simp_all add: word_le_nat_alt unat_sub)
  then show "checked_duration_since u t = Some d" "saturating_duration_since u t = d"
    by (simp_all add: checked_duration_since_def saturating_duration_since_def)
qed

text \<open>
  Rounding up to milliseconds never fires early and is less than a millisecond late.
\<close>

lemma as_millis_ceil_bounds:
  "unat t \<le> unat (as_millis_ceil t) * 1000000" "unat (as_millis_ceil t) * 1000000 < unat t + 1000000"
proof -
  have d: "unat (t div 1000000) = unat t div 1000000" "unat (t mod 1000000) = unat t mod 1000000"
    by (simp_all add: unat_div unat_mod)
  have b: "unat t < 2 ^ 64" using unsigned_less [where 'a = nat, of t] by simp
  have e: "unat (as_millis_ceil t) = unat t div 1000000 + (if unat t mod 1000000 = 0 then 0 else 1)"
  proof (cases "unat t mod 1000000 = 0")
    case True
    then have "t mod 1000000 = 0" using d(2) by (metis unat_eq_zero)
    then show ?thesis using True d(1) by (simp add: as_millis_ceil_def)
  next
    case False
    then have "t mod 1000000 \<noteq> 0" using d(2) by (metis unsigned_0)
    moreover have "unat t div 1000000 + 1 < 2 ^ 64"
      using b div_le_mono [of "unat t" "2 ^ 64 - 1" 1000000] by simp
    ultimately show ?thesis
      using False d(1) by (simp add: as_millis_ceil_def unat_word_ariths)
  qed
  obtain q r where q: "unat t div 1000000 = q" "unat t mod 1000000 = r" by blast
  then have "unat t = q * 1000000 + r" "r < 1000000" using div_mult_mod_eq [of "unat t" 1000000] by auto
  then show "unat t \<le> unat (as_millis_ceil t) * 1000000"
    "unat (as_millis_ceil t) * 1000000 < unat t + 1000000"
    unfolding e q by simp_all
qed

lemma try_from_millis_Inr:
  assumes "try_from_millis m = Inr t"
  shows "unat t = unat m * 1000000" "as_millis t = m" "as_millis_ceil t = m"
proof -
  show t: "unat t = unat m * 1000000"
    using assms by (auto simp: try_from_millis_def unat_word_ariths split: if_splits)
  then have "unat (t div 1000000) = unat m" "unat (t mod 1000000) = 0"
    by (simp_all add: unat_div unat_mod)
  then show "as_millis t = m" "as_millis_ceil t = m"
    by (auto simp: as_millis_def as_millis_ceil_def word_unat_eq_iff)
qed

lemma try_from_uptime_millis_Inr:
  assumes "try_from_uptime_millis m = Inr t"
  shows "0 \<le> sint m" "int (unat t) = sint m * 1000000"
proof -
  show s: "0 \<le> sint m" using assms by (auto simp: try_from_uptime_millis_def split: if_splits)
  then have "try_from_millis (of_int (sint m)) = Inr t"
    using assms by (simp add: try_from_uptime_millis_def)
  from try_from_millis_Inr(1) [OF this] show "int (unat t) = sint m * 1000000"
    using s sint_lt [of m] by (simp add: uint_sint take_bit_int_eq_self)
qed

section \<open>Errors\<close>

text \<open>
  The kinds of \<open>std::io::ErrorKind\<close> that the code distinguishes or produces; \<open>OtherKind\<close>
  stands for the remaining ones.  \<open>ClientPanic\<close> is not a value of the error enum: it is the
  outcome of a failed \<open>expect\<close> or \<open>unwrap\<close>.
\<close>

datatype ErrorKind = ConnectionReset | BrokenPipe | UnexpectedEof | ConnectionAborted | TimedOut
  | KindNotConnected | WouldBlock | InvalidInput | InvalidData | Interrupted | OtherKind

datatype MqttClientError =
    ConnectionRefused u8 string
  | ConnectionLost string
  | NetworkError ErrorKind string
  | ProtocolViolation string
  | PacketParsing string bytes
  | InvalidPacketId u16
  | UnexpectedPacket string string
  | NoActiveSession
  | SessionExpired
  | PacketIdExhausted
  | OperationTimeout string u64
  | OperationCancelled string
  | PublishFailed "u16 option" u8 "str option"
  | SubscribeFailed "str list" "u8 list"
  | UnsubscribeFailed "str list" "u8 list"
  | InvalidState string string
  | NotConnected
  | AlreadyConnected
  | BufferFull string nat
  | ChannelClosed string
  | AuthenticationFailed "str option" u8 "str option"
  | InvalidConfiguration string string
  | ClientInternalError string
  | ClientPanic string

type_synonym 'a cres = "MqttClientError + 'a"

definition no_cpanic :: "'a cres \<Rightarrow> bool" where
  "no_cpanic r \<longleftrightarrow> (\<forall>m. r \<noteq> Inl (ClientPanic m))"

definition is_recoverable :: "MqttClientError \<Rightarrow> bool" where
  "is_recoverable e = (case e of
     NetworkError _ _ \<Rightarrow> True | ConnectionLost _ \<Rightarrow> True | OperationTimeout _ _ \<Rightarrow> True
   | SessionExpired \<Rightarrow> True | NotConnected \<Rightarrow> True | NoActiveSession \<Rightarrow> True | BufferFull _ _ \<Rightarrow> True
   | _ \<Rightarrow> False)"

definition should_reconnect :: "MqttClientError \<Rightarrow> bool" where
  "should_reconnect e = (case e of
     ConnectionLost _ \<Rightarrow> True
   | NetworkError kind _ \<Rightarrow>
       kind \<in> {ConnectionReset, BrokenPipe, UnexpectedEof, ConnectionAborted}
   | NotConnected \<Rightarrow> False
   | _ \<Rightarrow> False)"

definition is_fatal :: "MqttClientError \<Rightarrow> bool" where
  "is_fatal e = (case e of
     InvalidConfiguration _ _ \<Rightarrow> True | ProtocolViolation _ \<Rightarrow> True | ClientInternalError _ \<Rightarrow> True
   | _ \<Rightarrow> False)"

definition is_auth_error :: "MqttClientError \<Rightarrow> bool" where
  "is_auth_error e = (case e of
     AuthenticationFailed _ _ _ \<Rightarrow> True
   | ConnectionRefused reason_code _ \<Rightarrow> reason_code \<in> {0x86, 0x87, 0x8C}
   | _ \<Rightarrow> False)"

text \<open>The kind of the \<open>io::Error\<close> an error converts to.\<close>

definition io_error_kind :: "MqttClientError \<Rightarrow> ErrorKind" where
  "io_error_kind e = (case e of
     OperationTimeout _ _ \<Rightarrow> TimedOut
   | NetworkError kind _ \<Rightarrow> kind
   | ConnectionLost _ \<Rightarrow> ConnectionReset
   | NotConnected \<Rightarrow> KindNotConnected
   | ChannelClosed _ \<Rightarrow> BrokenPipe
   | BufferFull _ _ \<Rightarrow> WouldBlock
   | InvalidConfiguration _ _ \<Rightarrow> InvalidInput
   | ProtocolViolation _ \<Rightarrow> InvalidData
   | PacketParsing _ _ \<Rightarrow> InvalidData
   | OperationCancelled _ \<Rightarrow> Interrupted
   | _ \<Rightarrow> OtherKind)"

text \<open>
  The classes are consistent: an error that triggers reconnection is recoverable, and a fatal or
  authentication error is neither recoverable nor triggers reconnection.
\<close>

lemma error_classes:
  "should_reconnect e \<Longrightarrow> is_recoverable e"
  "is_fatal e \<Longrightarrow> \<not> is_recoverable e \<and> \<not> is_auth_error e"
  "is_auth_error e \<Longrightarrow> \<not> is_recoverable e"
  by (cases e; simp add: should_reconnect_def is_recoverable_def is_fatal_def is_auth_error_def)+

lemma reconnect_io_kind:
  "should_reconnect e \<Longrightarrow>
   io_error_kind e \<in> {ConnectionReset, BrokenPipe, UnexpectedEof, ConnectionAborted}"
  by (cases e; simp add: should_reconnect_def io_error_kind_def)

end
