(* ===== verification/Client_Options.thy ===== *)
theory Client_Options
  imports Control_Packet Client_Types
begin

text \<open>
  The configuration of a client (\<open>src/src/mqtt_client/opts.rs\<close>), its commands with their builders
  (\<open>src/src/mqtt_client/commands.rs\<close>), and the results an operation reports
  (\<open>src/src/mqtt_client/types.rs\<close>).  The TLS fields of the options are used by the transports
  only and are left out.  A builder method that panics returns \<open>Inl\<close> of its message.
\<close>

section \<open>Options\<close>

record OperationTimeouts =
  ot_connect :: "Duration option"
  ot_publish :: "Duration option"
  ot_subscribe :: "Duration option"
  ot_unsubscribe :: "Duration option"

definition OperationTimeouts_default :: OperationTimeouts where
  "OperationTimeouts_default = \<lparr>ot_connect = None, ot_publish = None, ot_subscribe = None,
     ot_unsubscribe = None\<rparr>"

text \<open>\<open>Duration::from_secs\<close> and \<open>Duration::from_millis\<close>, in nanoseconds.\<close>

definition from_secs :: "nat \<Rightarrow> Duration" where
  "from_secs n = n * 1000000000"

definition from_millis :: "nat \<Rightarrow> Duration" where
  "from_millis n = n * 1000000"

definition duration_as_millis :: "Duration \<Rightarrow> nat" where
  "duration_as_millis d = d div 1000000"

definition OperationTimeouts_cloud :: OperationTimeouts where
  "OperationTimeouts_cloud = \<lparr>ot_connect = Some (from_secs 30), ot_publish = Some (from_secs 10),
     ot_subscribe = Some (from_secs 10), ot_unsubscribe = Some (from_secs 10)\<rparr>"

record MqttClientOptions =
  o_operation_timeouts :: OperationTimeouts
  o_incoming_receive_maximum :: "u16 option"
  o_max_incoming_packet_size :: "nat option"
  o_max_incoming_buffer_bytes :: "nat option"
  o_max_outgoing_buffer_bytes :: "nat option"
  o_peer :: str
  o_client_id :: str
  o_clean_start :: bool
  o_keep_alive :: u16
  o_username :: "str option"
  o_password :: "bytes option"
  o_will :: "Will option"
  o_reconnect :: bool
  o_mqtt_version :: u8
  o_sessionless :: bool
  o_subscription_topics :: "TopicSubscription list"
  o_auto_ack :: bool
  o_session_expiry_interval :: "u32 option"
  o_maximum_packet_size :: "u32 option"
  o_request_response_information :: "bool option"
  o_request_problem_information :: "bool option"
  o_reconnect_base_delay_ms :: u64
  o_reconnect_max_delay_ms :: u64
  o_max_reconnect_attempts :: u32
  o_retransmission_timeout_ms :: u64
  o_ping_timeout_multiplier :: u32
  o_max_outgoing_packet_count :: nat
  o_max_event_count :: nat
  o_receive_maximum :: u16
  o_connect_properties :: "Property list"
  o_parser_buffer_size :: nat
  o_auto_keepalive :: bool

definition MqttClientOptions_default :: MqttClientOptions where
  "MqttClientOptions_default =
     \<lparr>o_operation_timeouts = OperationTimeouts_default, o_incoming_receive_maximum = None,
      o_max_incoming_packet_size = None, o_max_incoming_buffer_bytes = None,
      o_max_outgoing_buffer_bytes = None, o_peer = ascii ''localhost:1883'',
      o_client_id = ascii ''mqtt_client'', o_clean_start = True, o_keep_alive = 60,
      o_username = None, o_password = None, o_will = None, o_reconnect = False,
      o_mqtt_version = 5, o_sessionless = False, o_subscription_topics = [], o_auto_ack = True,
      o_session_expiry_interval = None, o_maximum_packet_size = None,
      o_request_response_information = None, o_request_problem_information = None,
      o_reconnect_base_delay_ms = 1000, o_reconnect_max_delay_ms = 60000,
      o_max_reconnect_attempts = 0, o_retransmission_timeout_ms = 5000,
      o_ping_timeout_multiplier = 2, o_max_outgoing_packet_count = 1000, o_max_event_count = 1000,
      o_receive_maximum = 65535, o_connect_properties = [], o_parser_buffer_size = 16384,
      o_auto_keepalive = True\<rparr>"

text \<open>The two setters that check their argument.\<close>

definition opts_mqtt_version :: "u8 \<Rightarrow> MqttClientOptions \<Rightarrow> string + MqttClientOptions" where
  "opts_mqtt_version version opts =
     (if version \<noteq> 3 \<and> version \<noteq> 4 \<and> version \<noteq> 5 then Inl ''mqtt_version must be 3, 4, or 5''
      else Inr (opts\<lparr>o_mqtt_version := version\<rparr>))"

definition opts_maximum_packet_size :: "u32 \<Rightarrow> MqttClientOptions \<Rightarrow> string + MqttClientOptions" where
  "opts_maximum_packet_size sz opts =
     (if sz = 0 then Inl ''maximum_packet_size must be greater than 0 (MQTT v5 protocol violation)''
      else Inr (opts\<lparr>o_maximum_packet_size := Some sz\<rparr>))"

section \<open>Commands\<close>

record PublishCommand =
  pc_topic_name :: str
  pc_payload :: bytes
  pc_qos :: u8
  pc_retain :: bool
  pc_dup :: bool
  pc_packet_id :: "u16 option"
  pc_properties :: "Property list"
  pc_priority :: u8

definition PublishCommand_simple :: "str \<Rightarrow> bytes \<Rightarrow> u8 \<Rightarrow> bool \<Rightarrow> PublishCommand" where
  "PublishCommand_simple topic payload qos retain =
     \<lparr>pc_topic_name = topic, pc_payload = payload, pc_qos = qos, pc_retain = retain, pc_dup = False,
      pc_packet_id = None, pc_properties = [], pc_priority = 128\<rparr>"

definition PublishCommand_with_priority :: "str \<Rightarrow> bytes \<Rightarrow> u8 \<Rightarrow> bool \<Rightarrow> u8 \<Rightarrow> PublishCommand" where
  "PublishCommand_with_priority topic payload qos retain priority =
     \<lparr>pc_topic_name = topic, pc_payload = payload, pc_qos = qos, pc_retain = retain, pc_dup = False,
      pc_packet_id = None, pc_properties = [], pc_priority = priority\<rparr>"

definition into_mqtt_publish :: "PublishCommand \<Rightarrow> Publish5" where
  "into_mqtt_publish c = \<lparr>pub_topic_name = pc_topic_name c, pub_qos = pc_qos c, pub_dup = pc_dup c,
     pub_retain = pc_retain c, pub_packet_id = pc_packet_id c, pub_payload = pc_payload c,
     pub_properties = pc_properties c\<rparr>"

definition into_mqttv3_publish :: "PublishCommand \<Rightarrow> Publish3" where
  "into_mqttv3_publish c = \<lparr>pub3_dup = pc_dup c, pub3_qos = pc_qos c, pub3_retain = pc_retain c,
     pub3_topic_name = pc_topic_name c, pub3_message_id = pc_packet_id c,
     pub3_payload = pc_payload c\<rparr>"

record SubscribeCommand =
  sc_packet_id :: "u16 option"
  sc_subscriptions :: "TopicSubscription list"
  sc_properties :: "Property list"

definition TopicSubscription_new_simple :: "str \<Rightarrow> u8 \<Rightarrow> TopicSubscription" where
  "TopicSubscription_new_simple topic_filter qos =
     \<lparr>ts_topic_filter = topic_filter, ts_qos = qos, ts_no_local = False,
      ts_retain_as_published = False, ts_retain_handling = 0\<rparr>"

definition SubscribeCommand_single :: "str \<Rightarrow> u8 \<Rightarrow> SubscribeCommand" where
  "SubscribeCommand_single topic qos =
     \<lparr>sc_packet_id = None, sc_subscriptions = [TopicSubscription_new_simple topic qos],
      sc_properties = []\<rparr>"

record UnsubscribeCommand =
  uc_packet_id :: "u16 option"
  uc_topics :: "str list"
  uc_properties :: "Property list"

section \<open>Builders\<close>

record PublishCommandBuilder =
  pb_topic_name :: "str option"
  pb_payload :: bytes
  pb_qos :: u8
  pb_retain :: bool
  pb_dup :: bool
  pb_packet_id :: "u16 option"
  pb_properties :: "Property list"
  pb_priority :: u8

definition PublishCommandBuilder_new :: PublishCommandBuilder where
  "PublishCommandBuilder_new = \<lparr>pb_topic_name = None, pb_payload = [], pb_qos = 0, pb_retain = False,
     pb_dup = False, pb_packet_id = None, pb_properties = [], pb_priority = 128\<rparr>"

datatype PublishBuilderError = NoTopic

definition PublishCommandBuilder_build :: "PublishCommandBuilder \<Rightarrow> PublishBuilderError + PublishCommand" where
  "PublishCommandBuilder_build b =
     (case pb_topic_name b of
        None \<Rightarrow> Inl NoTopic
      | Some topic_name \<Rightarrow>
          Inr \<lparr>pc_topic_name = topic_name, pc_payload = pb_payload b, pc_qos = pb_qos b,
               pc_retain = pb_retain b, pc_dup = pb_dup b, pc_packet_id = pb_packet_id b,
               pc_properties = pb_properties b, pc_priority = pb_priority b\<rparr>)"

record SubscribeCommandBuilder =
  sb_topics :: "TopicSubscription list"
  sb_properties :: "Property list"
  sb_packet_id :: "u16 option"

definition SubscribeCommandBuilder_new :: SubscribeCommandBuilder where
  "SubscribeCommandBuilder_new = \<lparr>sb_topics = [], sb_properties = [], sb_packet_id = None\<rparr>"

datatype SubscribeBuilderError = NoTopics

definition add_topic :: "str \<Rightarrow> u8 \<Rightarrow> SubscribeCommandBuilder \<Rightarrow> SubscribeCommandBuilder" where
  "add_topic topic qos b = b\<lparr>sb_topics := sb_topics b @ [TopicSubscription_new_simple topic qos]\<rparr>"

text \<open>\<open>topics.last_mut()\<close>: change the topic added last, or panic.\<close>

definition update_last ::
  "string \<Rightarrow> (TopicSubscription \<Rightarrow> TopicSubscription) \<Rightarrow> SubscribeCommandBuilder \<Rightarrow> string + SubscribeCommandBuilder" where
  "update_last message f b =
     (if sb_topics b = [] then Inl message
      else Inr (b\<lparr>sb_topics := butlast (sb_topics b) @ [f (last (sb_topics b))]\<rparr>))"

definition with_no_local :: "bool \<Rightarrow> SubscribeCommandBuilder \<Rightarrow> string + SubscribeCommandBuilder" where
  "with_no_local no_local =
     update_last ''Cannot set no_local: no topics added yet. Call add_topic() first.''
       (ts_no_local_update (\<lambda>_. no_local))"

definition with_retain_as_published :: "bool \<Rightarrow> SubscribeCommandBuilder \<Rightarrow> string + SubscribeCommandBuilder" where
  "with_retain_as_published rap =
     update_last ''Cannot set retain_as_published: no topics added yet. Call add_topic() first.''
       (ts_retain_as_published_update (\<lambda>_. rap))"

definition with_retain_handling :: "u8 \<Rightarrow> SubscribeCommandBuilder \<Rightarrow> string + SubscribeCommandBuilder" where
  "with_retain_handling rh b =
     (if 2 < rh then Inl ''Invalid retain_handling value. Must be 0, 1, or 2.''
      else update_last ''Cannot set retain_handling: no topics added yet. Call add_topic() first.''
        (ts_retain_handling_update (\<lambda>_. rh)) b)"

definition SubscribeCommandBuilder_build ::
  "SubscribeCommandBuilder \<Rightarrow> SubscribeBuilderError + SubscribeCommand" where
  "SubscribeCommandBuilder_build b =
     (if sb_topics b = [] then Inl NoTopics
      else Inr \<lparr>sc_packet_id = sb_packet_id b, sc_subscriptions = sb_topics b,
                sc_properties = sb_properties b\<rparr>)"

section \<open>Results and events\<close>

record ConnectionResult =
  cr_reason_code :: u8
  cr_session_present :: bool
  cr_properties :: "Property list option"

record AuthResult =
  ar_reason_code :: u8
  ar_properties :: "Property list"

record PublishResult =
  pr_packet_id :: "u16 option"
  pr_reason_code :: "u8 option"
  pr_properties :: "Property list option"
  pr_qos :: u8

record AckResult =
  kr_packet_id :: u16
  kr_reason_codes :: "u8 list"
  kr_properties :: "Property list"

datatype OperationKind = Op_Connect | Op_Publish | Op_Subscribe | Op_Unsubscribe

text \<open>
  The events of the engine; those of the QUIC transport (\<open>TransportClosed\<close>, \<open>StreamClosed\<close>,
  \<open>StreamReset\<close>, \<open>StreamStopped\<close>, \<open>ZeroRttStatusChanged\<close>) are emitted by code that is not
  modelled.
\<close>

datatype MqttEvent =
    OperationFailed OperationKind "u16 option" MqttClientError
  | Connected ConnectionResult
  | AuthReceived AuthResult
  | Disconnected "u8 option"
  | DisconnectReceived u8 "Property list"
  | Published PublishResult
  | Subscribed AckResult
  | Unsubscribed AckResult
  | PublishReceived "u16 option" "u64 option"
  | MessageReceived Publish5
  | PubRelReceived u16 "u64 option"
  | PingResponse bool
  | EventError MqttClientError
  | ReconnectNeeded
  | ReconnectScheduled u32 Duration

end
