(* ===== verification/Client_Session.thy ===== *)
theory Client_Session
  imports Control_Packet Hash_Map Packet_Ids
begin

text \<open>
  The session of a client, \<open>src/src/mqtt_session/client_session.rs\<close>: unacknowledged QoS 1 and QoS 2
  messages, unacknowledged PUBRELs and the packet identifier counter.
\<close>

declare map_of_eq_Some_iff [simp del] Some_eq_map_of_iff [simp del]

section \<open>State and operations\<close>

record ClientSession =
  cs_unacknowledged_publishes :: "(u16 \<times> Publish5) list"
  cs_unacknowledged_pubrels :: "(u16 \<times> Ack5) list"
  cs_packet_id_counter :: u16

definition ClientSession_new :: ClientSession where
  "ClientSession_new = \<lparr>cs_unacknowledged_publishes = [], cs_unacknowledged_pubrels = [],
     cs_packet_id_counter = 0\<rparr>"

definition cs_clear :: "ClientSession \<Rightarrow> ClientSession" where
  "cs_clear s = s\<lparr>cs_unacknowledged_publishes := [], cs_unacknowledged_pubrels := []\<rparr>"

definition restore_packet_id_counter :: "u16 \<Rightarrow> ClientSession \<Rightarrow> ClientSession" where
  "restore_packet_id_counter c s = s\<lparr>cs_packet_id_counter := c\<rparr>"

definition cs_next_packet_id :: "ClientSession \<Rightarrow> u16 \<times> ClientSession" where
  "cs_next_packet_id s =
     (let c = (if cs_packet_id_counter s = 0xFFFF \<or> cs_packet_id_counter s = 0 then 1
               else cs_packet_id_counter s + 1)
      in (c, s\<lparr>cs_packet_id_counter := c\<rparr>))"

definition handle_outgoing_publish :: "Publish5 \<Rightarrow> ClientSession \<Rightarrow> ClientSession" where
  "handle_outgoing_publish publish s =
     (case pub_packet_id publish of
        None \<Rightarrow> s
      | Some packet_id \<Rightarrow>
          if 0 < pub_qos publish \<and> \<not> hm_contains packet_id (cs_unacknowledged_publishes s)
          then s\<lparr>cs_unacknowledged_publishes := hm_insert packet_id publish (cs_unacknowledged_publishes s)\<rparr>
          else s)"

definition handle_outgoing_pubrel :: "Ack5 \<Rightarrow> ClientSession \<Rightarrow> ClientSession" where
  "handle_outgoing_pubrel pubrel s =
     s\<lparr>cs_unacknowledged_pubrels := hm_insert (ack_packet_id pubrel) pubrel (cs_unacknowledged_pubrels s)\<rparr>"

definition cs_handle_publish :: "Publish5 \<Rightarrow> MqttPacket option res" where
  "cs_handle_publish publish =
     (if pub_qos publish = 1 \<or> pub_qos publish = 2 then
        (case pub_packet_id publish of
           None \<Rightarrow> Inl (Panic ''called Option::unwrap() on a None value'')
         | Some i \<Rightarrow>
             let ack = \<lparr>ack_packet_id = i, ack_reason_code = 0, ack_properties = []\<rparr> in
             Inr (Some (if pub_qos publish = 1 then P_PubAck5 ack else P_PubRec5 ack)))
      else Inr None)"

definition cs_handle_puback :: "Ack5 \<Rightarrow> ClientSession \<Rightarrow> ClientSession" where
  "cs_handle_puback puback s =
     s\<lparr>cs_unacknowledged_publishes := hm_remove (ack_packet_id puback) (cs_unacknowledged_publishes s)\<rparr>"

definition cs_handle_pubrec :: "Ack5 \<Rightarrow> ClientSession \<Rightarrow> Ack5 option \<times> ClientSession" where
  "cs_handle_pubrec pubrec s =
     (let s' = s\<lparr>cs_unacknowledged_publishes :=
            hm_remove (ack_packet_id pubrec) (cs_unacknowledged_publishes s)\<rparr>
      in if ack_reason_code pubrec < 0x80
         then (Some \<lparr>ack_packet_id = ack_packet_id pubrec, ack_reason_code = 0, ack_properties = []\<rparr>, s')
         else (None, s'))"

definition cs_handle_pubrel :: "Ack5 \<Rightarrow> Ack5" where
  "cs_handle_pubrel pubrel =
     \<lparr>ack_packet_id = ack_packet_id pubrel, ack_reason_code = 0, ack_properties = []\<rparr>"

definition cs_handle_pubcomp :: "Ack5 \<Rightarrow> ClientSession \<Rightarrow> ClientSession" where
  "cs_handle_pubcomp pubcomp s =
     s\<lparr>cs_unacknowledged_pubrels := hm_remove (ack_packet_id pubcomp) (cs_unacknowledged_pubrels s)\<rparr>"

definition cs_resend_pending_messages :: "ClientSession \<Rightarrow> MqttPacket list" where
  "cs_resend_pending_messages s =
     map (\<lambda>(_, p). P_Publish5 (p\<lparr>pub_dup := True\<rparr>))
       (filter (\<lambda>(i, _). \<not> hm_contains i (cs_unacknowledged_pubrels s)) (cs_unacknowledged_publishes s)) @
     map (\<lambda>(_, r). P_PubRel5 r) (cs_unacknowledged_pubrels s)"

section \<open>Identifiers\<close>

interpretation client_ids: packet_id_source cs_next_packet_id cs_packet_id_counter
  by unfold_locales (auto simp: cs_next_packet_id_def id_succ_def Let_def)

section \<open>The life of an outgoing message\<close>

text \<open>
  What a QoS 1 or QoS 2 message goes through between \<open>handle_outgoing_publish\<close> and its last
  acknowledgement, as seen by a resend: the message with the duplicate flag, then its PUBREL, then
  nothing.
\<close>

definition resends :: "u16 \<Rightarrow> ClientSession \<Rightarrow> MqttPacket set" where
  "resends i s = {q \<in> set (cs_resend_pending_messages s). case q of
     P_Publish5 p \<Rightarrow> pub_packet_id p = Some i | P_PubRel5 r \<Rightarrow> ack_packet_id r = i | _ \<Rightarrow> False}"

definition cs_inv :: "ClientSession \<Rightarrow> bool" where
  "cs_inv s \<longleftrightarrow> hm_ok (cs_unacknowledged_publishes s) \<and> hm_ok (cs_unacknowledged_pubrels s) \<and>
     (\<forall>i p. hm_get (cs_unacknowledged_publishes s) i = Some p \<longrightarrow> pub_packet_id p = Some i \<and> 0 < pub_qos p) \<and>
     (\<forall>i r. hm_get (cs_unacknowledged_pubrels s) i = Some r \<longrightarrow> ack_packet_id r = i)"

lemma cs_inv_ops:
  "cs_inv ClientSession_new" "cs_inv s \<Longrightarrow> cs_inv (cs_clear s)"
  "cs_inv s \<Longrightarrow> cs_inv (snd (cs_next_packet_id s))"
  "cs_inv s \<Longrightarrow> cs_inv (handle_outgoing_publish p s)" "cs_inv s \<Longrightarrow> cs_inv (handle_outgoing_pubrel a s)"
  "cs_inv s \<Longrightarrow> cs_inv (cs_handle_puback a s)" "cs_inv s \<Longrightarrow> cs_inv (snd (cs_handle_pubrec a s))"
  "cs_inv s \<Longrightarrow> cs_inv (cs_handle_pubcomp a s)"
  by (auto simp: cs_inv_def ClientSession_new_def cs_clear_def cs_next_packet_id_def
      handle_outgoing_publish_def handle_outgoing_pubrel_def cs_handle_puback_def
      cs_handle_pubrec_def cs_handle_pubcomp_def Let_def split: option.splits)

lemma hm_get_set: "hm_ok m \<Longrightarrow> (i, v) \<in> set m \<longleftrightarrow> hm_get m i = Some v"
  by (simp add: map_of_eq_Some_iff)

lemma set_resend:
  assumes "cs_inv s"
  shows "set (cs_resend_pending_messages s) =
    {P_Publish5 (p\<lparr>pub_dup := True\<rparr>) |i p. hm_get (cs_unacknowledged_publishes s) i = Some p \<and>
       hm_get (cs_unacknowledged_pubrels s) i = None} \<union>
    {P_PubRel5 r |i r. hm_get (cs_unacknowledged_pubrels s) i = Some r}"
proof -
  have ok: "hm_ok (cs_unacknowledged_publishes s)" "hm_ok (cs_unacknowledged_pubrels s)"
    using assms by (simp_all add: cs_inv_def)
  have "set (cs_resend_pending_messages s) =
    {P_Publish5 (p\<lparr>pub_dup := True\<rparr>) |i p. (i, p) \<in> set (cs_unacknowledged_publishes s) \<and>
       i \<notin> keys (cs_unacknowledged_pubrels s)} \<union>
    {P_PubRel5 r |i r. (i, r) \<in> set (cs_unacknowledged_pubrels s)}"
    by (force simp: cs_resend_pending_messages_def)
  then show ?thesis by (simp only: hm_get_set [OF ok(1)] hm_get_set [OF ok(2)] map_of_eq_None_iff)
qed

text \<open>At most one packet per identifier is resent: the PUBREL if there is one, else the PUBLISH.\<close>

lemma resends_eq:
  assumes "cs_inv s"
  shows "resends i s = (case hm_get (cs_unacknowledged_pubrels s) i of
     Some r \<Rightarrow> {P_PubRel5 r}
   | None \<Rightarrow> (case hm_get (cs_unacknowledged_publishes s) i of
       Some p \<Rightarrow> {P_Publish5 (p\<lparr>pub_dup := True\<rparr>)} | None \<Rightarrow> {}))"
proof -
  have own: "\<And>j p. hm_get (cs_unacknowledged_publishes s) j = Some p \<Longrightarrow> pub_packet_id p = Some j"
    "\<And>j r. hm_get (cs_unacknowledged_pubrels s) j = Some r \<Longrightarrow> ack_packet_id r = j"
    using assms by (simp_all add: cs_inv_def)
  have eq: "hm_get (cs_unacknowledged_publishes s) j = Some p \<and> pub_packet_id p = Some i \<longleftrightarrow>
      hm_get (cs_unacknowledged_publishes s) i = Some p \<and> j = i"
    "hm_get (cs_unacknowledged_pubrels s) j = Some r \<and> ack_packet_id r = i \<longleftrightarrow>
      hm_get (cs_unacknowledged_pubrels s) i = Some r \<and> j = i" for j p r
    using own by fastforce+
  have "resends i s =
    {P_Publish5 (p\<lparr>pub_dup := True\<rparr>) |j p. (hm_get (cs_unacknowledged_publishes s) j = Some p \<and>
       pub_packet_id p = Some i) \<and> hm_get (cs_unacknowledged_pubrels s) j = None} \<union>
    {P_PubRel5 r |j r. hm_get (cs_unacknowledged_pubrels s) j = Some r \<and> ack_packet_id r = i}"
    unfolding resends_def set_resend [OF assms] by fastforce
  then show ?thesis unfolding eq by (auto split: option.splits)
qed

end
