(* ===== verification/Inflight.thy ===== *)
theory Inflight
  imports Control_Packet Client_Types Hash_Map
begin

text \<open>
  The in-flight queue of the client, \<open>src/src/mqtt_client/inflight.rs\<close>: outstanding exchanges by
  packet identifier with the order of admission, the retransmission deadlines of MQTT 3.1.1 and the
  send quota of MQTT 5 section 4.9, for \<open>T = Timestamp\<close>.  The hash map is only used by key.
  Operations that return \<open>Err\<close> leave the queue unchanged, so a result carries the new queue only on
  success.
\<close>

section \<open>State and operations\<close>

record InflightEntry =
  ie_packet_id :: u16
  ie_packet :: MqttPacket
  ie_sent_at :: Timestamp
  ie_retry_count :: u32
  ie_qos :: u8
  ie_stream :: "u64 option"

record InflightQueue =
  iq_entries :: "(u16 \<times> InflightEntry) list"
  iq_admission_order :: "u16 list"
  iq_deadline_queue :: "(u16 \<times> Timestamp) list"
  iq_receive_maximum :: u16
  iq_mqtt_version :: u8
  iq_retransmission_timeout :: Duration
  iq_publish_quota_used :: nat
  iq_last_update :: "Timestamp option"

definition InflightQueue_new :: "u16 \<Rightarrow> u8 \<Rightarrow> Duration \<Rightarrow> InflightQueue" where
  "InflightQueue_new receive_maximum mqtt_version retransmission_timeout =
     \<lparr>iq_entries = [], iq_admission_order = [], iq_deadline_queue = [],
      iq_receive_maximum = (if receive_maximum = 0 then 0xFFFF else receive_maximum),
      iq_mqtt_version = mqtt_version, iq_retransmission_timeout = retransmission_timeout,
      iq_publish_quota_used = 0, iq_last_update = None\<rparr>"

definition check_time :: "InflightQueue \<Rightarrow> Timestamp \<Rightarrow> unit cres" where
  "check_time q now =
     (if (case iq_last_update q of None \<Rightarrow> False | Some l \<Rightarrow> now < l) \<or>
         (iq_mqtt_version q \<noteq> 5 \<and> checked_add now (iq_retransmission_timeout q) = None)
      then Inl (InvalidConfiguration ''monotonic_time''
                  ''inflight timestamp moved backwards or its deadline overflowed'')
      else Inr ())"

definition can_push_publish :: "InflightQueue \<Rightarrow> bool" where
  "can_push_publish q \<longleftrightarrow> iq_publish_quota_used q < unat (iq_receive_maximum q)"

definition update_receive_maximum :: "u16 \<Rightarrow> InflightQueue \<Rightarrow> InflightQueue" where
  "update_receive_maximum receive_maximum q =
     (if 0 < receive_maximum then q\<lparr>iq_receive_maximum := receive_maximum\<rparr> else q)"

definition refresh_deadline :: "u16 \<Rightarrow> Timestamp \<Rightarrow> InflightQueue \<Rightarrow> InflightQueue cres" where
  "refresh_deadline packet_id now q =
     (if iq_mqtt_version q \<noteq> 5 then
        (case checked_add now (iq_retransmission_timeout q) of
           None \<Rightarrow> Inl (ClientPanic ''validated inflight deadline'')
         | Some deadline \<Rightarrow>
             Inr (q\<lparr>iq_deadline_queue :=
               filter (\<lambda>(i, _). i \<noteq> packet_id) (iq_deadline_queue q) @ [(packet_id, deadline)]\<rparr>))
      else Inr q)"

definition is_publish :: "MqttPacket \<Rightarrow> bool" where
  "is_publish p = (case p of P_Publish5 _ \<Rightarrow> True | P_Publish3 _ \<Rightarrow> True | _ \<Rightarrow> False)"

definition is_quota_packet :: "MqttPacket \<Rightarrow> bool" where
  "is_quota_packet p = (case p of P_Publish5 _ \<Rightarrow> True | P_Publish3 _ \<Rightarrow> True
     | P_PubRel5 _ \<Rightarrow> True | P_PubRel3 _ \<Rightarrow> True | _ \<Rightarrow> False)"

definition push_with_stream_at ::
  "u16 \<Rightarrow> MqttPacket \<Rightarrow> u8 \<Rightarrow> u64 option \<Rightarrow> Timestamp \<Rightarrow> InflightQueue \<Rightarrow> InflightQueue cres" where
  "push_with_stream_at packet_id packet qos stream now q =
     tryE (check_time q now) (\<lambda>_.
     if packet_id = 0 \<or> hm_contains packet_id (iq_entries q) then Inl (InvalidPacketId packet_id)
     else
       let publish = is_publish packet in
       if publish \<and> \<not> can_push_publish q
       then Inl (BufferFull ''inflight_publish'' (unat (iq_receive_maximum q)))
       else
         let q = (if publish then q\<lparr>iq_publish_quota_used := iq_publish_quota_used q + 1\<rparr> else q);
             q = q\<lparr>iq_entries := hm_insert packet_id
                    \<lparr>ie_packet_id = packet_id, ie_packet = packet, ie_sent_at = now,
                     ie_retry_count = 0, ie_qos = qos, ie_stream = stream\<rparr> (iq_entries q)\<rparr>;
             q = q\<lparr>iq_admission_order := iq_admission_order q @ [packet_id]\<rparr>;
             q = q\<lparr>iq_last_update := Some now\<rparr>
         in refresh_deadline packet_id now q)"

definition push_at :: "u16 \<Rightarrow> MqttPacket \<Rightarrow> u8 \<Rightarrow> Timestamp \<Rightarrow> InflightQueue \<Rightarrow> InflightQueue cres" where
  "push_at packet_id packet qos now q = push_with_stream_at packet_id packet qos None now q"

definition iq_get :: "u16 \<Rightarrow> InflightQueue \<Rightarrow> InflightEntry option" where
  "iq_get packet_id q = hm_get (iq_entries q) packet_id"

definition iq_contains :: "u16 \<Rightarrow> InflightQueue \<Rightarrow> bool" where
  "iq_contains packet_id q = hm_contains packet_id (iq_entries q)"

definition transition_pubrel_at ::
  "u16 \<Rightarrow> MqttPacket \<Rightarrow> Timestamp \<Rightarrow> InflightQueue \<Rightarrow> InflightQueue cres" where
  "transition_pubrel_at packet_id packet now q =
     tryE (check_time q now) (\<lambda>_.
     tryE (case hm_get (iq_entries q) packet_id of
             Some entry \<Rightarrow>
               refresh_deadline packet_id now
                 (q\<lparr>iq_entries := hm_insert packet_id
                     (entry\<lparr>ie_packet := packet, ie_sent_at := now\<rparr>) (iq_entries q)\<rparr>)
           | None \<Rightarrow> Inr q) (\<lambda>q.
     Inr (q\<lparr>iq_last_update := Some now\<rparr>)))"

definition resume_on_stream_at ::
  "u16 \<Rightarrow> u64 \<Rightarrow> Timestamp \<Rightarrow> InflightQueue \<Rightarrow> InflightQueue cres" where
  "resume_on_stream_at packet_id stream now q =
     tryE (check_time q now) (\<lambda>_.
     tryE (case hm_get (iq_entries q) packet_id of
             Some entry \<Rightarrow>
               refresh_deadline packet_id now
                 (q\<lparr>iq_entries := hm_insert packet_id
                     (entry\<lparr>ie_stream := Some stream, ie_sent_at := now\<rparr>) (iq_entries q)\<rparr>)
           | None \<Rightarrow> Inr q) (\<lambda>q.
     Inr (q\<lparr>iq_last_update := Some now\<rparr>)))"

definition acknowledge :: "u16 \<Rightarrow> InflightQueue \<Rightarrow> InflightEntry option \<times> InflightQueue" where
  "acknowledge packet_id q =
     (case hm_get (iq_entries q) packet_id of
        None \<Rightarrow> (None, q)
      | Some entry \<Rightarrow>
          let q = q\<lparr>iq_entries := hm_remove packet_id (iq_entries q)\<rparr>;
              q = q\<lparr>iq_admission_order := filter (\<lambda>i. i \<noteq> packet_id) (iq_admission_order q)\<rparr>;
              q = q\<lparr>iq_deadline_queue := filter (\<lambda>(i, _). i \<noteq> packet_id) (iq_deadline_queue q)\<rparr>;
              q = (if is_quota_packet (ie_packet entry)
                   then q\<lparr>iq_publish_quota_used := iq_publish_quota_used q - 1\<rparr> else q)
          in (Some entry, q))"

text \<open>The loop of \<open>get_expired_with_stream_at\<close>, at most as many rounds as there were deadlines.\<close>

fun expire_loop ::
  "nat \<Rightarrow> Timestamp \<Rightarrow> InflightQueue \<Rightarrow> ((MqttPacket \<times> u64 option) list \<times> InflightQueue) cres" where
  "expire_loop 0 now q = Inr ([], q)"
| "expire_loop (Suc n) now q =
     (case iq_deadline_queue q of
        [] \<Rightarrow> Inr ([], q)
      | (i, deadline) # rest \<Rightarrow>
          if now < deadline then Inr ([], q)
          else
            let q = q\<lparr>iq_deadline_queue := rest\<rparr> in
            (case hm_get (iq_entries q) i of
               Some entry \<Rightarrow>
                 let entry = entry\<lparr>ie_sent_at := now, ie_retry_count :=
                       (if ie_retry_count entry = 0xFFFFFFFF then 0xFFFFFFFF
                        else ie_retry_count entry + 1)\<rparr>
                 in tryE (refresh_deadline i now
                           (q\<lparr>iq_entries := hm_insert i entry (iq_entries q)\<rparr>)) (\<lambda>q.
                    tryE (expire_loop n now q) (\<lambda>(expired, q).
                    Inr ((ie_packet entry, ie_stream entry) # expired, q)))
             | None \<Rightarrow> expire_loop n now q))"

definition get_expired_with_stream_at ::
  "Timestamp \<Rightarrow> InflightQueue \<Rightarrow> ((MqttPacket \<times> u64 option) list \<times> InflightQueue) cres" where
  "get_expired_with_stream_at now q =
     tryE (check_time q now) (\<lambda>_.
     let q = q\<lparr>iq_last_update := Some now\<rparr> in
     expire_loop (length (iq_deadline_queue q)) now q)"

definition get_expired_at :: "Timestamp \<Rightarrow> InflightQueue \<Rightarrow> (MqttPacket list \<times> InflightQueue) cres" where
  "get_expired_at now q =
     tryE (get_expired_with_stream_at now q) (\<lambda>(expired, q). Inr (map fst expired, q))"

definition get_all_for_reconnect :: "InflightQueue \<Rightarrow> MqttPacket list" where
  "get_all_for_reconnect q =
     map ie_packet (List.map_filter (hm_get (iq_entries q)) (iq_admission_order q))"

definition snapshot_for_reconnect :: "InflightQueue \<Rightarrow> (u16 \<times> MqttPacket) list" where
  "snapshot_for_reconnect q =
     map (\<lambda>e. (ie_packet_id e, ie_packet e))
       (List.map_filter (hm_get (iq_entries q)) (iq_admission_order q))"

definition next_expiration :: "InflightQueue \<Rightarrow> Timestamp option" where
  "next_expiration q = (case iq_deadline_queue q of [] \<Rightarrow> None | (_, deadline) # _ \<Rightarrow> Some deadline)"

definition iq_clear :: "InflightQueue \<Rightarrow> InflightQueue" where
  "iq_clear q = q\<lparr>iq_entries := [], iq_admission_order := [], iq_deadline_queue := [],
     iq_publish_quota_used := 0\<rparr>"

definition iq_len :: "InflightQueue \<Rightarrow> nat" where
  "iq_len q = length (iq_entries q)"

definition iq_is_empty :: "InflightQueue \<Rightarrow> bool" where
  "iq_is_empty q \<longleftrightarrow> iq_entries q = []"

section \<open>Invariant\<close>

text \<open>
  Identifiers are distinct and not zero, the admission order lists exactly the outstanding
  identifiers, and every entry carries its own identifier.
\<close>

definition keyed :: "InflightQueue \<Rightarrow> bool" where
  "keyed q \<longleftrightarrow> hm_ok (iq_entries q) \<and> (\<forall>i e. hm_get (iq_entries q) i = Some e \<longrightarrow> ie_packet_id e = i \<and> i \<noteq> 0) \<and>
     distinct (iq_admission_order q) \<and> set (iq_admission_order q) = keys (iq_entries q)"

text \<open>
  Outside MQTT 5 there is exactly one deadline per exchange, the retransmission timeout after it
  was last sent, and the queue is sorted; no exchange was sent later than the last update.
\<close>

definition timed ::
  "u8 \<Rightarrow> Duration \<Rightarrow> (u16 \<times> InflightEntry) list \<Rightarrow> (u16 \<times> Timestamp) list \<Rightarrow> Timestamp option \<Rightarrow> bool" where
  "timed version timeout es dq upd \<longleftrightarrow>
     (if version = 5 then dq = []
      else distinct (map fst dq) \<and> keys dq = keys es \<and> sorted (map snd dq) \<and>
        (\<forall>(i, d) \<in> set dq. \<exists>e. hm_get es i = Some e \<and> checked_add (ie_sent_at e) timeout = Some d)) \<and>
     (\<forall>i e. hm_get es i = Some e \<longrightarrow> (\<exists>l. upd = Some l \<and> ie_sent_at e \<le> l))"

definition quota_ok :: "InflightQueue \<Rightarrow> bool" where
  "quota_ok q \<longleftrightarrow> iq_publish_quota_used q \<le> count_entries (is_quota_packet \<circ> ie_packet) (iq_entries q)"

definition iq_inv :: "InflightQueue \<Rightarrow> bool" where
  "iq_inv q \<longleftrightarrow> keyed q \<and> quota_ok q \<and>
     timed (iq_mqtt_version q) (iq_retransmission_timeout q) (iq_entries q) (iq_deadline_queue q)
       (iq_last_update q)"

lemma iq_inv_new [simp]: "iq_inv (InflightQueue_new r v t)"
  by (simp add: iq_inv_def keyed_def quota_ok_def timed_def InflightQueue_new_def)

lemma iq_inv_clear: "iq_inv (iq_clear q)"
  by (simp add: iq_inv_def keyed_def quota_ok_def timed_def iq_clear_def)

lemma iq_inv_update_receive_maximum: "iq_inv (update_receive_maximum r q) \<longleftrightarrow> iq_inv q"
  by (simp add: iq_inv_def keyed_def quota_ok_def update_receive_maximum_def)

lemma check_time_Inr:
  "check_time q now = Inr () \<longleftrightarrow>
   (\<forall>l. iq_last_update q = Some l \<longrightarrow> l \<le> now) \<and>
   (iq_mqtt_version q \<noteq> 5 \<longrightarrow> (\<exists>d. checked_add now (iq_retransmission_timeout q) = Some d))"
  by (auto simp: check_time_def not_less split: option.splits)

text \<open>Sending or resending one exchange, at a time no earlier than the last update.\<close>

definition moved :: "u8 \<Rightarrow> u16 \<Rightarrow> Timestamp \<Rightarrow> (u16 \<times> Timestamp) list \<Rightarrow> (u16 \<times> Timestamp) list" where
  "moved version i d dq = (if version = 5 then dq else filter (\<lambda>(j, _). j \<noteq> i) dq @ [(i, d)])"

lemma refresh_deadline_eq:
  "iq_mqtt_version q \<noteq> 5 \<longrightarrow> checked_add now (iq_retransmission_timeout q) = Some d \<Longrightarrow>
   refresh_deadline i now q =
    Inr (q\<lparr>iq_deadline_queue := moved (iq_mqtt_version q) i d (iq_deadline_queue q)\<rparr>)"
  by (auto simp: refresh_deadline_def moved_def)

lemma timed_sent:
  assumes "timed version timeout es dq upd" and "\<forall>l. upd = Some l \<longrightarrow> l \<le> now"
    and "hm_get es j = Some f"
  shows "ie_sent_at f \<le> now"
proof -
  have "\<exists>l. upd = Some l \<and> ie_sent_at f \<le> l" using assms(1,3) unfolding timed_def by blast
  then show ?thesis using assms(2) by auto
qed

lemma keys_filter [simp]: "fst ` {x \<in> set m. case x of (j, _) \<Rightarrow> j \<noteq> i} = keys m - {i}"
  by force

lemma timed_bound:
  assumes "timed version timeout es dq upd" and "\<forall>l. upd = Some l \<longrightarrow> l \<le> now"
    and "version \<noteq> 5" and "checked_add now timeout = Some d" and "(i, d') \<in> set dq"
  shows "d' \<le> d"
proof -
  obtain e where e: "hm_get es i = Some e" "checked_add (ie_sent_at e) timeout = Some d'"
    using assms(1,3,5) by (fastforce simp: timed_def)
  then have "ie_sent_at e \<le> now" using timed_sent [OF assms(1,2)] by blast
  then show ?thesis using checked_add_mono [OF _ assms(4)] e(2) by fastforce
qed

lemma timed_touch:
  assumes t: "timed version timeout es dq upd" and le: "\<forall>l. upd = Some l \<longrightarrow> l \<le> now"
    and d: "version \<noteq> 5 \<longrightarrow> checked_add now timeout = Some d" and e: "ie_sent_at e = now"
  shows "timed version timeout (hm_insert i e es) (moved version i d dq) (Some now)"
proof -
  note sent = timed_sent [OF t le]
  show ?thesis
  proof (cases "version = 5")
    case True
    then show ?thesis using t sent e by (auto simp: timed_def moved_def)
  next
    case False
    have "sorted (map snd (filter (\<lambda>(j, _). j \<noteq> i) dq))"
      using t False by (simp add: timed_def sorted_filter)
    moreover have "\<forall>x \<in> set dq. snd x \<le> d"
      using timed_bound [OF t le False, of d] d False by force
    ultimately have "sorted (map snd (moved version i d dq))"
      using False by (auto simp: moved_def sorted_append)
    moreover have "distinct (map fst (moved version i d dq))"
      using t False by (auto simp: moved_def timed_def distinct_map_filter)
    moreover have "keys (moved version i d dq) = insert i (keys es)"
      using t False by (auto simp: moved_def timed_def)
    moreover have "\<forall>(j, c) \<in> set (moved version i d dq). \<exists>f. hm_get (hm_insert i e es) j = Some f \<and>
        checked_add (ie_sent_at f) timeout = Some c"
      using t False d e by (auto simp: moved_def timed_def)
    ultimately show ?thesis using False sent e by (simp add: timed_def)
  qed
qed

lemma timed_remove:
  assumes "timed version timeout es dq upd"
  shows "timed version timeout (hm_remove i es) (filter (\<lambda>(j, _). j \<noteq> i) dq) upd"
  using assms by (auto simp: timed_def sorted_filter distinct_map_filter split: if_splits)

lemma timed_later:
  assumes "timed version timeout es dq upd" and "\<forall>l. upd = Some l \<longrightarrow> l \<le> now"
  shows "timed version timeout es dq (Some now)"
  using assms timed_sent [OF assms] by (auto simp: timed_def)


lemma keyed_get:
  "keyed q \<Longrightarrow> hm_get (iq_entries q) i = Some e \<Longrightarrow> ie_packet_id e = i \<and> i \<noteq> 0 \<and> i \<in> keys (iq_entries q)"
  by (auto simp: keyed_def rev_image_eqI dest!: map_of_SomeD)

text \<open>
  An exchange that is already outstanding is sent again: the part common to \<open>transition_pubrel_at\<close>,
  \<open>resume_on_stream_at\<close> and the expiry loop.
\<close>

lemma iq_inv_resend:
  assumes inv: "iq_inv q" and get: "hm_get (iq_entries q) i = Some e"
    and le: "\<forall>l. iq_last_update q = Some l \<longrightarrow> l \<le> now"
    and d: "iq_mqtt_version q \<noteq> 5 \<longrightarrow> checked_add now (iq_retransmission_timeout q) = Some d"
    and e': "ie_sent_at e' = now" "ie_packet_id e' = ie_packet_id e"
      "is_quota_packet (ie_packet e) \<longrightarrow> is_quota_packet (ie_packet e')"
  shows "iq_inv (q\<lparr>iq_entries := hm_insert i e' (iq_entries q),
    iq_deadline_queue := moved (iq_mqtt_version q) i d (iq_deadline_queue q),
    iq_last_update := Some now\<rparr>)"
proof -
  have k: "keyed q" and q: "quota_ok q" and t: "timed (iq_mqtt_version q) (iq_retransmission_timeout q)
      (iq_entries q) (iq_deadline_queue q) (iq_last_update q)"
    using inv by (simp_all add: iq_inv_def)
  have i: "i \<in> keys (iq_entries q)" "ie_packet_id e = i" "i \<noteq> 0" using keyed_get [OF k get] by simp_all
  have ok: "hm_ok (iq_entries q)" using k by (simp add: keyed_def)
  have "count_entries (is_quota_packet \<circ> ie_packet) (iq_entries q)
      \<le> count_entries (is_quota_packet \<circ> ie_packet) (hm_insert i e' (iq_entries q))"
    using count_entries_insert [OF ok get, of "is_quota_packet \<circ> ie_packet" e'] e'(3)
    by (auto split: if_splits)
  then show ?thesis
    using timed_touch [OF t le d e'(1)] k q i e'(2)
    by (simp add: iq_inv_def keyed_def quota_ok_def insert_absorb)
qed

definition new_entry :: "u16 \<Rightarrow> MqttPacket \<Rightarrow> u8 \<Rightarrow> u64 option \<Rightarrow> Timestamp \<Rightarrow> InflightEntry" where
  "new_entry i p qos stream now = \<lparr>ie_packet_id = i, ie_packet = p, ie_sent_at = now,
     ie_retry_count = 0, ie_qos = qos, ie_stream = stream\<rparr>"

text \<open>The deadline of an exchange sent now; outside MQTT 5 \<open>check_time\<close> makes sure there is one.\<close>

definition deadline_at :: "InflightQueue \<Rightarrow> Timestamp \<Rightarrow> Timestamp" where
  "deadline_at q now = (case checked_add now (iq_retransmission_timeout q) of Some d \<Rightarrow> d | None \<Rightarrow> now)"

lemma check_time_deadline:
  assumes "check_time q now = Inr ()"
  shows "iq_mqtt_version q \<noteq> 5 \<longrightarrow>
      checked_add now (iq_retransmission_timeout q) = Some (deadline_at q now)"
    and "\<forall>l. iq_last_update q = Some l \<longrightarrow> l \<le> now"
  using assms by (auto simp: check_time_Inr deadline_at_def)

lemma push_Inr:
  "push_with_stream_at i p qos stream now q = Inr q' \<longleftrightarrow>
   check_time q now = Inr () \<and> i \<noteq> 0 \<and> i \<notin> keys (iq_entries q) \<and>
   (is_publish p \<longrightarrow> can_push_publish q) \<and>
   q' = q\<lparr>iq_entries := hm_insert i (new_entry i p qos stream now) (iq_entries q),
      iq_admission_order := iq_admission_order q @ [i],
      iq_deadline_queue := moved (iq_mqtt_version q) i (deadline_at q now) (iq_deadline_queue q),
      iq_publish_quota_used := iq_publish_quota_used q + (if is_publish p then 1 else 0),
      iq_last_update := Some now\<rparr>" (is "?l \<longleftrightarrow> ?r")
proof (cases "check_time q now = Inr ()")
  case True
  note d = check_time_deadline(1) [OF True]
  show ?thesis
    using True d
    by (auto simp: push_with_stream_at_def Let_def new_entry_def
        refresh_deadline_eq [where d = "deadline_at q now"])
next
  case False
  then show ?thesis by (auto simp: push_with_stream_at_def)
qed

lemma iq_inv_push:
  assumes inv: "iq_inv q" and p: "push_with_stream_at i p qos stream now q = Inr q'"
  shows "iq_inv q'"
proof -
  note push = p [unfolded push_Inr]
  note le = check_time_deadline [OF push [THEN conjunct1]]
  have t: "timed (iq_mqtt_version q) (iq_retransmission_timeout q)
      (iq_entries q) (iq_deadline_queue q) (iq_last_update q)"
    using inv by (simp add: iq_inv_def)
  have "is_publish p \<Longrightarrow> is_quota_packet p"
    by (auto simp: is_publish_def is_quota_packet_def split: MqttPacket.splits)
  then have "quota_ok q'"
    using inv push by (auto simp: iq_inv_def quota_ok_def insert_fresh new_entry_def)
  moreover have "keyed q'" using inv push by (auto simp: iq_inv_def keyed_def new_entry_def)
  ultimately show ?thesis
    using timed_touch [OF t le(2,1), of "new_entry i p qos stream now" i] push
    by (simp add: iq_inv_def new_entry_def)
qed

lemma resend_Inr:
  assumes "check_time q now = Inr ()"
  shows "tryE (case hm_get (iq_entries q) i of
       Some entry \<Rightarrow> refresh_deadline i now (q\<lparr>iq_entries := hm_insert i (f entry) (iq_entries q)\<rparr>)
     | None \<Rightarrow> Inr q) (\<lambda>q. Inr (q\<lparr>iq_last_update := Some now\<rparr>)) =
   Inr (case hm_get (iq_entries q) i of
       Some entry \<Rightarrow> q\<lparr>iq_entries := hm_insert i (f entry) (iq_entries q),
         iq_deadline_queue := moved (iq_mqtt_version q) i (deadline_at q now) (iq_deadline_queue q),
         iq_last_update := Some now\<rparr>
     | None \<Rightarrow> q\<lparr>iq_last_update := Some now\<rparr>)"
  using check_time_deadline(1) [OF assms]
  by (simp add: refresh_deadline_eq [where d = "deadline_at q now"] split: option.splits)

lemma resend_inv:
  assumes "iq_inv q" and "check_time q now = Inr ()"
    and "\<And>e. ie_sent_at (f e) = now \<and> ie_packet_id (f e) = ie_packet_id e \<and>
      (is_quota_packet (ie_packet e) \<longrightarrow> is_quota_packet (ie_packet (f e)))"
  shows "iq_inv (case hm_get (iq_entries q) i of
       Some entry \<Rightarrow> q\<lparr>iq_entries := hm_insert i (f entry) (iq_entries q),
         iq_deadline_queue := moved (iq_mqtt_version q) i (deadline_at q now) (iq_deadline_queue q),
         iq_last_update := Some now\<rparr>
     | None \<Rightarrow> q\<lparr>iq_last_update := Some now\<rparr>)"
proof (cases "hm_get (iq_entries q) i")
  case None
  then show ?thesis
    using assms(1) check_time_deadline [OF assms(2)] timed_later [of _ _ _ _ "iq_last_update q" now]
    by (simp add: iq_inv_def keyed_def quota_ok_def)
next
  case (Some e)
  then show ?thesis
    using iq_inv_resend [OF assms(1) Some check_time_deadline(2,1) [OF assms(2)]] assms(3) by simp
qed

lemma transition_Inr:
  "transition_pubrel_at i p now q = Inr q' \<longleftrightarrow> check_time q now = Inr () \<and>
   q' = (case hm_get (iq_entries q) i of
       Some entry \<Rightarrow> q\<lparr>iq_entries := hm_insert i (entry\<lparr>ie_packet := p, ie_sent_at := now\<rparr>) (iq_entries q),
         iq_deadline_queue := moved (iq_mqtt_version q) i (deadline_at q now) (iq_deadline_queue q),
         iq_last_update := Some now\<rparr>
     | None \<Rightarrow> q\<lparr>iq_last_update := Some now\<rparr>)"
  unfolding transition_pubrel_at_def
  by (cases "check_time q now = Inr ()") (auto simp: resend_Inr)

lemma resume_Inr:
  "resume_on_stream_at i stream now q = Inr q' \<longleftrightarrow> check_time q now = Inr () \<and>
   q' = (case hm_get (iq_entries q) i of
       Some entry \<Rightarrow> q\<lparr>iq_entries := hm_insert i (entry\<lparr>ie_stream := Some stream, ie_sent_at := now\<rparr>) (iq_entries q),
         iq_deadline_queue := moved (iq_mqtt_version q) i (deadline_at q now) (iq_deadline_queue q),
         iq_last_update := Some now\<rparr>
     | None \<Rightarrow> q\<lparr>iq_last_update := Some now\<rparr>)"
  unfolding resume_on_stream_at_def
  by (cases "check_time q now = Inr ()") (auto simp: resend_Inr)

lemma iq_inv_transition:
  assumes "iq_inv q" and "is_quota_packet p" and "transition_pubrel_at i p now q = Inr q'"
  shows "iq_inv q'"
  using resend_inv [OF assms(1), of now "\<lambda>e. e\<lparr>ie_packet := p, ie_sent_at := now\<rparr>" i] assms(2,3)
  by (simp add: transition_Inr)

lemma iq_inv_resume:
  assumes "iq_inv q" and "resume_on_stream_at i stream now q = Inr q'"
  shows "iq_inv q'"
  using resend_inv [OF assms(1), of now "\<lambda>e. e\<lparr>ie_stream := Some stream, ie_sent_at := now\<rparr>" i] assms(2)
  by (simp add: resume_Inr)

lemma acknowledge_Some:
  assumes "hm_get (iq_entries q) i = Some e"
  shows "acknowledge i q = (Some e, q\<lparr>iq_entries := hm_remove i (iq_entries q),
     iq_admission_order := filter (\<lambda>j. j \<noteq> i) (iq_admission_order q),
     iq_deadline_queue := filter (\<lambda>(j, _). j \<noteq> i) (iq_deadline_queue q),
     iq_publish_quota_used := iq_publish_quota_used q - (if is_quota_packet (ie_packet e) then 1 else 0)\<rparr>)"
  using assms by (simp add: acknowledge_def Let_def)

lemma iq_inv_acknowledge:
  assumes "iq_inv q"
  shows "iq_inv (snd (acknowledge i q))"
proof (cases "hm_get (iq_entries q) i")
  case None
  then show ?thesis using assms by (simp add: acknowledge_def)
next
  case (Some e)
  then show ?thesis
    using assms timed_remove [of _ _ "iq_entries q" _ _ i]
      count_entries_remove [OF _ Some, of "is_quota_packet \<circ> ie_packet"]
    by (auto simp: acknowledge_Some iq_inv_def keyed_def quota_ok_def)
qed

section \<open>Retransmission\<close>

definition resent :: "Timestamp \<Rightarrow> InflightEntry \<Rightarrow> InflightEntry" where
  "resent now e = e\<lparr>ie_sent_at := now, ie_retry_count :=
     (if ie_retry_count e = 0xFFFFFFFF then 0xFFFFFFFF else ie_retry_count e + 1)\<rparr>"

lemma resent_simps [simp]:
  "ie_sent_at (resent now e) = now" "ie_packet_id (resent now e) = ie_packet_id e"
  "ie_packet (resent now e) = ie_packet e" "ie_stream (resent now e) = ie_stream e"
  "ie_qos (resent now e) = ie_qos e"
  by (simp_all add: resent_def)

text \<open>One round of the loop, with the deadline that is removed already gone from the rest.\<close>

lemma expire_step:
  assumes "iq_deadline_queue q = (i, d) # rest" and "i \<notin> keys rest" and "\<not> now < d"
    and "iq_mqtt_version q \<noteq> 5" and "checked_add now (iq_retransmission_timeout q) = Some d'"
    and "hm_get (iq_entries q) i = Some e"
  shows "expire_loop (Suc n) now q =
    tryE (expire_loop n now (q\<lparr>iq_entries := hm_insert i (resent now e) (iq_entries q),
        iq_deadline_queue := rest @ [(i, d')]\<rparr>)) (\<lambda>(expired, q).
    Inr ((ie_packet e, ie_stream e) # expired, q))"
proof -
  have "filter (\<lambda>(j, _). j \<noteq> i) rest = rest" using assms(2) by (force simp: filter_id_conv)
  then show ?thesis
    using assms by (simp add: refresh_deadline_def Let_def resent_def [symmetric])
qed

text \<open>
  The loop on a queue whose first \<open>n\<close> deadlines are still to be examined: the due ones are returned
  in order and moved, with a new deadline, behind the others.
\<close>

lemma expire_loop_spec:
  assumes "iq_deadline_queue q = todo @ moved_dq" and "distinct (map fst (iq_deadline_queue q))"
    and "keys (iq_deadline_queue q) \<subseteq> keys (iq_entries q)" and "iq_mqtt_version q \<noteq> 5"
    and "checked_add now (iq_retransmission_timeout q) = Some d'"
  shows "\<exists>es. expire_loop (length todo) now q =
      Inr (map (\<lambda>(i, _). (let e = the (hm_get (iq_entries q) i) in (ie_packet e, ie_stream e)))
             (takeWhile (\<lambda>(_, d). d \<le> now) todo),
           q\<lparr>iq_entries := es, iq_deadline_queue := dropWhile (\<lambda>(_, d). d \<le> now) todo @ moved_dq @
               map (\<lambda>(i, _). (i, d')) (takeWhile (\<lambda>(_, d). d \<le> now) todo)\<rparr>) \<and>
    (\<forall>i. hm_get es i = (if i \<in> keys (takeWhile (\<lambda>(_, d). d \<le> now) todo)
       then map_option (resent now) (hm_get (iq_entries q) i) else hm_get (iq_entries q) i))"
  using assms
proof (induction todo arbitrary: q moved_dq)
  case Nil
  then show ?case by (intro exI [of _ "iq_entries q"]) simp
next
  case (Cons x todo)
  obtain i d where x: "x = (i, d)" by fastforce
  show ?case
  proof (cases "now < d")
    case True
    then show ?thesis
      using Cons.prems(1) x by (intro exI [of _ "iq_entries q"]) (simp add: leD)
  next
    case False
    then have le: "d \<le> now" by simp
    have i: "i \<in> keys (iq_entries q)" "i \<notin> keys (todo @ moved_dq)"
      using Cons.prems(1-3) x by auto
    then obtain e where e: "hm_get (iq_entries q) i = Some e"
      by (metis map_of_eq_None_iff not_None_eq)
    define q2 where "q2 = q\<lparr>iq_entries := hm_insert i (resent now e) (iq_entries q),
        iq_deadline_queue := (todo @ moved_dq) @ [(i, d')]\<rparr>"
    have step: "expire_loop (length (x # todo)) now q = tryE (expire_loop (length todo) now q2)
       (\<lambda>(expired, q). Inr ((ie_packet e, ie_stream e) # expired, q))"
      using expire_step [of q i d "todo @ moved_dq" now d' e "length todo"] Cons.prems x i(2) False e
      by (simp add: q2_def)
    obtain es where es: "expire_loop (length todo) now q2 =
        Inr (map (\<lambda>(i, _). (let e = the (hm_get (iq_entries q2) i) in (ie_packet e, ie_stream e)))
             (takeWhile (\<lambda>(_, d). d \<le> now) todo),
           q2\<lparr>iq_entries := es, iq_deadline_queue := dropWhile (\<lambda>(_, d). d \<le> now) todo @
             (moved_dq @ [(i, d')]) @ map (\<lambda>(i, _). (i, d')) (takeWhile (\<lambda>(_, d). d \<le> now) todo)\<rparr>)"
      "\<forall>i. hm_get es i = (if i \<in> keys (takeWhile (\<lambda>(_, d). d \<le> now) todo)
         then map_option (resent now) (hm_get (iq_entries q2) i) else hm_get (iq_entries q2) i)"
      using Cons.IH [of q2 "moved_dq @ [(i, d')]"] Cons.prems i x by (auto simp: q2_def)
    have ni: "i \<notin> keys (takeWhile (\<lambda>(_, d). d \<le> now) todo)"
      using i(2) by (auto dest!: set_takeWhileD)
    have same: "map (\<lambda>(i, _). (let e = the (hm_get (iq_entries q2) i) in (ie_packet e, ie_stream e)))
             (takeWhile (\<lambda>(_, d). d \<le> now) todo) =
        map (\<lambda>(i, _). (let e = the (hm_get (iq_entries q) i) in (ie_packet e, ie_stream e)))
             (takeWhile (\<lambda>(_, d). d \<le> now) todo)"
      using ni by (auto simp: q2_def rev_image_eqI)
    show ?thesis
    proof (intro exI [of _ es] conjI)
      show "expire_loop (length (x # todo)) now q =
        Inr (map (\<lambda>(i, _). (let e = the (hm_get (iq_entries q) i) in (ie_packet e, ie_stream e)))
             (takeWhile (\<lambda>(_, d). d \<le> now) (x # todo)),
           q\<lparr>iq_entries := es, iq_deadline_queue := dropWhile (\<lambda>(_, d). d \<le> now) (x # todo) @ moved_dq @
               map (\<lambda>(i, _). (i, d')) (takeWhile (\<lambda>(_, d). d \<le> now) (x # todo))\<rparr>)"
        unfolding step es(1) same using x le e by (simp add: q2_def)
      show "\<forall>i. hm_get es i = (if i \<in> keys (takeWhile (\<lambda>(_, d). d \<le> now) (x # todo))
       then map_option (resent now) (hm_get (iq_entries q) i) else hm_get (iq_entries q) i)"
        using es(2) x le e ni by (auto simp: q2_def)
    qed
  qed
qed


lemma expire_loop_inv:
  assumes "iq_inv q" and "iq_last_update q = Some now"
    and "iq_mqtt_version q \<noteq> 5 \<longrightarrow> checked_add now (iq_retransmission_timeout q) = Some d'"
    and "expire_loop n now q = Inr (xs, q')"
  shows "iq_inv q'"
  using assms
proof (induction n arbitrary: q xs)
  case (Suc n)
  show ?case
  proof (cases "iq_deadline_queue q")
    case Nil
    then show ?thesis using Suc.prems by simp
  next
    case (Cons x rest)
    obtain i d where x: "x = (i, d)" by fastforce
    have v: "iq_mqtt_version q \<noteq> 5" using Suc.prems(1) Cons by (auto simp: iq_inv_def timed_def)
    then have i: "i \<in> keys (iq_entries q)" "i \<notin> keys rest"
      using Suc.prems(1) Cons x by (auto simp: iq_inv_def timed_def)
    then obtain e where e: "hm_get (iq_entries q) i = Some e"
      by (metis map_of_eq_None_iff not_None_eq)
    let ?q = "q\<lparr>iq_entries := hm_insert i (resent now e) (iq_entries q),
        iq_deadline_queue := rest @ [(i, d')]\<rparr>"
    have "filter (\<lambda>(j, _). j \<noteq> i) rest = rest" using i(2) by (force simp: filter_id_conv)
    then have "moved (iq_mqtt_version q) i d' (iq_deadline_queue q) = rest @ [(i, d')]"
      using Cons x v by (simp add: moved_def)
    then have inv: "iq_inv ?q"
      using iq_inv_resend [OF Suc.prems(1) e, of now d' "resent now e"] Suc.prems(2,3)
      by (simp add: iq_inv_def keyed_def quota_ok_def)
    show ?thesis
    proof (cases "now < d")
      case True
      then show ?thesis using Suc.prems Cons x by simp
    next
      case False
      have "expire_loop (Suc n) now q = tryE (expire_loop n now ?q) (\<lambda>(expired, q).
          Inr ((ie_packet e, ie_stream e) # expired, q))"
        using expire_step [OF _ i(2) False v _ e] Suc.prems(3) Cons x v by simp
      then have "tryE (expire_loop n now ?q) (\<lambda>(expired, q).
          Inr ((ie_packet e, ie_stream e) # expired, q)) = Inr (xs, q')" using Suc.prems(4) by metis
      then obtain ys where "expire_loop n now ?q = Inr (ys, q')" by auto
      then show ?thesis using Suc.IH [OF inv] Suc.prems(2,3) by simp
    qed
  qed
qed simp

lemma sorted_takeWhile_filter:
  "sorted (map snd xs) \<Longrightarrow> takeWhile (\<lambda>(_, d). d \<le> now) xs = filter (\<lambda>(_, d). d \<le> now) xs \<and>
   dropWhile (\<lambda>(_, d). d \<le> now) xs = filter (\<lambda>(_, d). now < d) xs" for now :: "'a::linorder"
proof (induction xs)
  case (Cons x xs)
  then show ?case
  proof (cases "snd x \<le> now")
    case False
    then have "\<forall>y \<in> set xs. now < snd y" using Cons.prems by fastforce
    then show ?thesis using False by (auto simp: split_beta not_le filter_empty_conv filter_id_conv)
  qed (auto simp: split_beta not_le)
qed simp

lemma get_expired_spec:
  assumes inv: "iq_inv q" and c: "check_time q now = Inr ()" and v: "iq_mqtt_version q \<noteq> 5"
  defines "due \<equiv> filter (\<lambda>(_, d). d \<le> now) (iq_deadline_queue q)"
  shows "\<exists>q'. get_expired_with_stream_at now q =
      Inr (map (\<lambda>(i, _). (let e = the (iq_get i q) in (ie_packet e, ie_stream e))) due, q') \<and>
    iq_inv q' \<and>
    iq_deadline_queue q' = filter (\<lambda>(_, d). now < d) (iq_deadline_queue q) @
      map (\<lambda>(i, _). (i, deadline_at q now)) due \<and>
    (\<forall>i. iq_get i q' = (if i \<in> keys due then map_option (resent now) (iq_get i q) else iq_get i q)) \<and>
    iq_admission_order q' = iq_admission_order q \<and> iq_publish_quota_used q' = iq_publish_quota_used q"
proof -
  note d = check_time_deadline [OF c]
  have t: "timed (iq_mqtt_version q) (iq_retransmission_timeout q) (iq_entries q)
      (iq_deadline_queue q) (iq_last_update q)" using inv by (simp add: iq_inv_def)
  let ?q = "q\<lparr>iq_last_update := Some now\<rparr>"
  have inv': "iq_inv ?q"
    using inv timed_later [OF t d(2)] by (simp add: iq_inv_def keyed_def quota_ok_def)
  have so: "takeWhile (\<lambda>(_, d). d \<le> now) (iq_deadline_queue q) = due"
    "dropWhile (\<lambda>(_, d). d \<le> now) (iq_deadline_queue q) = filter (\<lambda>(_, d). now < d) (iq_deadline_queue q)"
    using sorted_takeWhile_filter [of "iq_deadline_queue q" now] t v by (simp_all add: timed_def due_def)
  have dq: "distinct (map fst (iq_deadline_queue q))" "keys (iq_deadline_queue q) \<subseteq> keys (iq_entries q)"
    using t v by (auto simp: timed_def)
  obtain es where es: "expire_loop (length (iq_deadline_queue q)) now ?q =
      Inr (map (\<lambda>(i, _). (let e = the (hm_get (iq_entries q) i) in (ie_packet e, ie_stream e))) due,
           ?q\<lparr>iq_entries := es, iq_deadline_queue := filter (\<lambda>(_, d). now < d) (iq_deadline_queue q) @
               map (\<lambda>(i, _). (i, deadline_at q now)) due\<rparr>)"
    "\<forall>i. hm_get es i = (if i \<in> keys due
       then map_option (resent now) (hm_get (iq_entries q) i) else hm_get (iq_entries q) i)"
    using expire_loop_spec [of ?q "iq_deadline_queue q" "[]" now "deadline_at q now"] dq v d(1) so by auto
  then show ?thesis
    using expire_loop_inv [OF inv' _ _ es(1), of "deadline_at q now"] c d(1)
    by (auto simp: get_expired_with_stream_at_def iq_get_def Let_def)
qed

lemma get_expired_v5:
  assumes "iq_inv q" and "check_time q now = Inr ()" and "iq_mqtt_version q = 5"
  shows "get_expired_with_stream_at now q = Inr ([], q\<lparr>iq_last_update := Some now\<rparr>)"
  using assms by (simp add: get_expired_with_stream_at_def iq_inv_def timed_def)

section \<open>Replay order\<close>

text \<open>The exchanges in the order of their admission: what a reconnect replays.\<close>

definition exchanges :: "InflightQueue \<Rightarrow> (u16 \<times> InflightEntry) list" where
  "exchanges q = map (\<lambda>i. (i, the (iq_get i q))) (iq_admission_order q)"

lemma exchanges_entries:
  assumes "iq_inv q"
  shows "List.map_filter (hm_get (iq_entries q)) (iq_admission_order q) = map snd (exchanges q)"
    and "set (exchanges q) = {(i, e). iq_get i q = Some e}"
proof -
  have k: "set (iq_admission_order q) = keys (iq_entries q)" using assms by (simp add: iq_inv_def keyed_def)
  have g: "\<forall>i \<in> set (iq_admission_order q). \<exists>e. hm_get (iq_entries q) i = Some e"
    unfolding k by (metis map_of_eq_None_iff not_None_eq)
  then have "map snd (map (\<lambda>i. (i, the (hm_get (iq_entries q) i))) xs) = List.map_filter (hm_get (iq_entries q)) xs"
    if "set xs \<subseteq> set (iq_admission_order q)" for xs
    using that by (induction xs) (auto simp: map_filter_def)
  then show "List.map_filter (hm_get (iq_entries q)) (iq_admission_order q) = map snd (exchanges q)"
    by (simp add: exchanges_def iq_get_def)
  show "set (exchanges q) = {(i, e). iq_get i q = Some e}"
    using g by (force simp: exchanges_def iq_get_def k image_iff dest: map_of_SomeD)
qed

lemma snapshot_exchanges:
  assumes "iq_inv q"
  shows "snapshot_for_reconnect q = map (\<lambda>(i, e). (i, ie_packet e)) (exchanges q)"
    and "get_all_for_reconnect q = map (ie_packet \<circ> snd) (exchanges q)"
proof -
  have "\<forall>(i, e) \<in> set (exchanges q). ie_packet_id e = i"
    using assms by (auto simp: exchanges_entries(2) iq_get_def iq_inv_def keyed_def)
  then show "snapshot_for_reconnect q = map (\<lambda>(i, e). (i, ie_packet e)) (exchanges q)"
    by (auto simp: snapshot_for_reconnect_def exchanges_entries(1) [OF assms])
  show "get_all_for_reconnect q = map (ie_packet \<circ> snd) (exchanges q)"
    by (simp add: get_all_for_reconnect_def exchanges_entries(1) [OF assms])
qed

lemma exchanges_push:
  assumes "iq_inv q" and "push_with_stream_at i p qos stream now q = Inr q'"
  shows "exchanges q' = exchanges q @ [(i, new_entry i p qos stream now)]"
proof -
  have "i \<notin> set (iq_admission_order q)" using assms by (auto simp: push_Inr iq_inv_def keyed_def)
  then show ?thesis using assms(2) by (auto simp: push_Inr exchanges_def iq_get_def)
qed

lemma exchanges_acknowledge:
  assumes "iq_inv q"
  shows "exchanges (snd (acknowledge i q)) = filter (\<lambda>x. fst x \<noteq> i) (exchanges q)"
    and "fst (acknowledge i q) = iq_get i q"
proof -
  have f: "filter (\<lambda>x. fst x \<noteq> i) (exchanges q) =
      map (\<lambda>j. (j, the (iq_get j q))) (filter (\<lambda>j. j \<noteq> i) (iq_admission_order q))"
    by (simp add: exchanges_def filter_map comp_def)
  have "exchanges (snd (acknowledge i q)) = filter (\<lambda>x. fst x \<noteq> i) (exchanges q) \<and>
    fst (acknowledge i q) = iq_get i q"
  proof (cases "hm_get (iq_entries q) i")
    case None
    then have "i \<notin> set (iq_admission_order q)"
      using assms by (auto simp: iq_inv_def keyed_def map_of_eq_None_iff)
    then have "filter (\<lambda>j. j \<noteq> i) (iq_admission_order q) = iq_admission_order q"
      by (auto simp: filter_id_conv)
    then show ?thesis using None f by (simp add: acknowledge_def exchanges_def iq_get_def)
  next
    case (Some e)
    then show ?thesis unfolding f by (simp add: acknowledge_Some exchanges_def iq_get_def)
  qed
  then show "exchanges (snd (acknowledge i q)) = filter (\<lambda>x. fst x \<noteq> i) (exchanges q)"
    "fst (acknowledge i q) = iq_get i q" by simp_all
qed

lemma exchanges_transition:
  assumes "iq_inv q" and "transition_pubrel_at i p now q = Inr q'"
  shows "exchanges q' = map (\<lambda>(j, e). (j, if j = i then e\<lparr>ie_packet := p, ie_sent_at := now\<rparr> else e)) (exchanges q)"
proof (cases "hm_get (iq_entries q) i")
  case None
  then have "i \<notin> set (iq_admission_order q)"
    using assms by (auto simp: iq_inv_def keyed_def map_of_eq_None_iff)
  then show ?thesis using assms(2) None by (auto simp: transition_Inr exchanges_def iq_get_def)
next
  case (Some e)
  then show ?thesis using assms(2) by (auto simp: transition_Inr exchanges_def iq_get_def)
qed

section \<open>The send quota\<close>

text \<open>
  Within the receive maximum, pushing keeps the quota within it: at most that many PUBLISH
  exchanges are opened without an acknowledgement in between.
\<close>

lemma quota_push:
  assumes "push_with_stream_at i p qos stream now q = Inr q'"
    and "iq_publish_quota_used q \<le> unat (iq_receive_maximum q)"
  shows "iq_publish_quota_used q' \<le> unat (iq_receive_maximum q') \<and>
     iq_publish_quota_used q' = iq_publish_quota_used q + (if is_publish p then 1 else 0)"
  using assms by (auto simp: push_Inr can_push_publish_def)

text \<open>While no PUBREL is pushed, the quota used is exactly the number of open exchanges.\<close>

definition quota_exact :: "InflightQueue \<Rightarrow> bool" where
  "quota_exact q \<longleftrightarrow> iq_publish_quota_used q = count_entries (is_quota_packet \<circ> ie_packet) (iq_entries q)"

lemma quota_exact_push:
  assumes "push_with_stream_at i p qos stream now q = Inr q'" and "quota_exact q"
    and "is_quota_packet p \<longrightarrow> is_publish p"
  shows "quota_exact q'"
proof -
  have "is_publish p \<Longrightarrow> is_quota_packet p"
    by (auto simp: is_publish_def is_quota_packet_def split: MqttPacket.splits)
  then show ?thesis using assms by (auto simp: push_Inr quota_exact_def insert_fresh new_entry_def)
qed

lemma quota_exact_acknowledge:
  assumes "iq_inv q" and "quota_exact q"
  shows "quota_exact (snd (acknowledge i q))"
proof (cases "hm_get (iq_entries q) i")
  case None
  then show ?thesis using assms by (simp add: acknowledge_def)
next
  case (Some e)
  then show ?thesis
    using assms count_entries_remove [OF _ Some, of "is_quota_packet \<circ> ie_packet"]
    by (auto simp: acknowledge_Some quota_exact_def iq_inv_def keyed_def)
qed

lemma no_cpanic_inflight:
  "no_cpanic (push_with_stream_at i p qos stream now q)"
  "no_cpanic (transition_pubrel_at i p now q)" "no_cpanic (resume_on_stream_at i s now q)"
  "iq_inv q \<Longrightarrow> no_cpanic (get_expired_with_stream_at now q)"
proof -
  have c: "check_time q now = Inl e \<Longrightarrow> e \<noteq> ClientPanic m" for e m
    by (auto simp: check_time_def split: if_splits)
  show "no_cpanic (push_with_stream_at i p qos stream now q)"
  proof (cases "check_time q now")
    case (Inl e)
    then show ?thesis using c by (simp add: push_with_stream_at_def no_cpanic_def)
  next
    case (Inr u)
    then show ?thesis
      using check_time_deadline(1) [of q now]
      by (auto simp: push_with_stream_at_def no_cpanic_def Let_def
          refresh_deadline_eq [where d = "deadline_at q now"])
  qed
  show "no_cpanic (transition_pubrel_at i p now q)" "no_cpanic (resume_on_stream_at i s now q)"
    using c by (cases "check_time q now"; simp add: transition_pubrel_at_def resume_on_stream_at_def
        no_cpanic_def resend_Inr)+
  assume inv: "iq_inv q"
  show "no_cpanic (get_expired_with_stream_at now q)"
  proof (cases "check_time q now")
    case (Inl e)
    then show ?thesis using c by (simp add: get_expired_with_stream_at_def no_cpanic_def)
  next
    case (Inr u)
    then show ?thesis
      using get_expired_spec [OF inv, of now] get_expired_v5 [OF inv, of now]
      by (cases "iq_mqtt_version q = 5") (auto simp: no_cpanic_def)
  qed
qed

end
