(* ===== verification/Engine_State.thy ===== *)
theory Engine_State
  imports Client_Options Client_Session Stream_Parser Priority_Queue Inflight
begin

text \<open>
  State and internal transitions of the protocol engine, \<open>src/src/mqtt_client/engine.rs\<close> and
  \<open>engine/protocol_state.rs\<close>, for \<open>T = Timestamp\<close>: loss of the connection and reconnection,
  limits on the output, the queues of responses, replayed and new messages.

  A transition returns \<open>Inl\<close> of a message where the code panics (\<open>expect\<close>, \<open>unwrap\<close>, overflow)
  and otherwise its value with the new engine.  A result of the code's own error type is a value.
  Hash maps are association lists, sets that are only tested are sets.
\<close>

declare map_of_eq_Some_iff [simp del] Some_eq_map_of_iff [simp del]

section \<open>State\<close>

datatype ReceiveStage = Stage_Publish u8 | Stage_PubRec | Stage_PubRel

type_synonym exchange_key = "u64 option \<times> u16"

record ProtocolState =
  ps_reserved :: "u16 set"
  ps_received :: "(exchange_key \<times> ReceiveStage) list"
  ps_received_unbound :: "exchange_key list"
  ps_received_on_connection :: "exchange_key set"
  ps_incoming_quota_used :: nat
  ps_incoming_aliases :: "(u16 \<times> str) list"
  ps_outgoing_aliases :: "(u16 \<times> str) list"
  ps_incoming_alias_maximum :: u16
  ps_outgoing_alias_maximum :: u16
  ps_incoming_receive_maximum :: u16
  ps_maximum_packet_size :: "nat option"
  ps_maximum_qos :: u8
  ps_retain_available :: bool
  ps_wildcard_available :: bool
  ps_shared_available :: bool
  ps_subscription_ids_available :: bool
  ps_keep_alive :: u16
  ps_session_expiry :: u32
  ps_has_session :: bool
  ps_connecting :: bool
  ps_input_closed :: bool
  ps_reauthenticating :: bool
  ps_queued_bytes :: nat
  ps_control_reserve :: nat
  ps_replay_reserve :: nat
  ps_responses :: "MqttPacket list"
  ps_deadlines :: "((OperationKind \<times> u16 option) \<times> (Timestamp \<times> Duration)) list"

definition ProtocolState_new :: "u16 \<Rightarrow> ProtocolState" where
  "ProtocolState_new keep_alive =
     \<lparr>ps_reserved = {}, ps_received = [], ps_received_unbound = [], ps_received_on_connection = {},
      ps_incoming_quota_used = 0, ps_incoming_aliases = [], ps_outgoing_aliases = [],
      ps_incoming_alias_maximum = 0, ps_outgoing_alias_maximum = 0,
      ps_incoming_receive_maximum = 0xFFFF, ps_maximum_packet_size = None, ps_maximum_qos = 2,
      ps_retain_available = True, ps_wildcard_available = True, ps_shared_available = True,
      ps_subscription_ids_available = True, ps_keep_alive = keep_alive, ps_session_expiry = 0,
      ps_has_session = False, ps_connecting = False, ps_input_closed = False,
      ps_reauthenticating = False, ps_queued_bytes = 0, ps_control_reserve = 6,
      ps_replay_reserve = 0, ps_responses = [], ps_deadlines = []\<rparr>"

record MqttEngine =
  me_now :: Timestamp
  me_state :: ProtocolState
  me_options :: MqttClientOptions
  me_session :: "ClientSession option"
  me_priority_queue :: "(u8, MqttPacket) PriorityQueue"
  me_is_connected :: bool
  me_last_packet_sent :: Timestamp
  me_last_packet_received :: Timestamp
  me_ping_sent_at :: "Timestamp option"
  me_parser :: MqttParser
  me_outgoing_buffer :: "bytes list"
  me_stream_retransmissions :: "(u64 \<times> bytes) list"
  me_inflight_queue :: InflightQueue
  me_previous_inflight :: "(u16 \<times> MqttPacket) list"
  me_transport_manages_session :: bool
  me_session_replay :: "(u16 \<times> MqttPacket) list"
  me_configured_subscriptions_pending :: bool
  me_events :: "MqttEvent list"
  me_reconnect_attempts :: u32
  me_next_reconnect_at :: "Timestamp option"
  me_reconnect_base_delay :: Duration
  me_reconnect_max_delay :: Duration
  me_max_reconnect_attempts :: u32

type_synonym 'a eng = "string + 'a \<times> MqttEngine"

definition MqttEngine_new_at :: "MqttClientOptions \<Rightarrow> Timestamp \<Rightarrow> MqttEngine" where
  "MqttEngine_new_at opts now =
     \<lparr>me_now = now, me_state = ProtocolState_new (o_keep_alive opts), me_options = opts,
      me_session = None,
      me_priority_queue = PriorityQueue_new (o_max_outgoing_packet_count opts),
      me_is_connected = False, me_last_packet_sent = now, me_last_packet_received = now,
      me_ping_sent_at = None, me_parser = MqttParser_new (o_mqtt_version opts),
      me_outgoing_buffer = [], me_stream_retransmissions = [],
      me_inflight_queue = InflightQueue_new (o_receive_maximum opts) (o_mqtt_version opts)
        (from_millis (unat (o_retransmission_timeout_ms opts))),
      me_previous_inflight = [], me_transport_manages_session = False, me_session_replay = [],
      me_configured_subscriptions_pending = False, me_events = [], me_reconnect_attempts = 0,
      me_next_reconnect_at = None,
      me_reconnect_base_delay = from_millis (unat (o_reconnect_base_delay_ms opts)),
      me_reconnect_max_delay = from_millis (unat (o_reconnect_max_delay_ms opts)),
      me_max_reconnect_attempts = o_max_reconnect_attempts opts\<rparr>"

abbreviation mqtt_version :: "MqttEngine \<Rightarrow> u8" where
  "mqtt_version s \<equiv> o_mqtt_version (me_options s)"

definition take_events :: "MqttEngine \<Rightarrow> MqttEvent list \<times> MqttEngine" where
  "take_events s = (me_events s, s\<lparr>me_events := []\<rparr>)"

abbreviation push_event :: "MqttEvent \<Rightarrow> MqttEngine \<Rightarrow> MqttEngine" where
  "push_event e s \<equiv> s\<lparr>me_events := me_events s @ [e]\<rparr>"

definition engine_set_parse_level :: "ParseLevel \<Rightarrow> MqttEngine \<Rightarrow> MqttEngine" where
  "engine_set_parse_level level s = s\<lparr>me_parser := set_parse_level level (me_parser s)\<rparr>"

definition try_set_parse_level :: "ParseLevel \<Rightarrow> MqttEngine \<Rightarrow> unit cres \<times> MqttEngine" where
  "try_set_parse_level level s =
     (if level \<noteq> Level_Full \<and>
         (\<not> me_is_connected s \<or> \<not> iq_is_empty (me_inflight_queue s) \<or>
          \<not> pq_is_empty (me_priority_queue s))
      then (Inl (InvalidState ''connected with no outstanding operations''
                   ''connecting or waiting for acknowledgements''), s)
      else (Inr (), engine_set_parse_level level s))"

definition require_full_parser :: "MqttEngine \<Rightarrow> unit cres" where
  "require_full_parser s =
     (if mp_level (me_parser s) \<noteq> Level_Full
      then Inl (InvalidState ''Full parser for acknowledgement-bearing operations'' ''reduced'')
      else Inr ())"

definition is_reconnect_event :: "MqttEvent \<Rightarrow> bool" where
  "is_reconnect_event e = (case e of ReconnectNeeded \<Rightarrow> True | ReconnectScheduled _ _ \<Rightarrow> True | _ \<Rightarrow> False)"

definition set_reconnect :: "bool \<Rightarrow> MqttEngine \<Rightarrow> MqttEngine" where
  "set_reconnect enabled s =
     (let s = s\<lparr>me_options := (me_options s)\<lparr>o_reconnect := enabled\<rparr>\<rparr> in
      if \<not> enabled
      then s\<lparr>me_next_reconnect_at := None,
             me_events := filter (\<lambda>e. \<not> is_reconnect_event e) (me_events s)\<rparr>
      else s)"

section \<open>Errors and panics\<close>

text \<open>\<open>ParseError::to_string\<close> up to the payloads that the model drops.\<close>

definition parse_error_string :: "ParseError \<Rightarrow> string" where
  "parse_error_string e = (case e of
     More _ _ \<Rightarrow> ''More data needed'' | IoError \<Rightarrow> ''IO Error'' | ParseErr m \<Rightarrow> ''Parse Error: '' @ m
   | IncompleteProperty \<Rightarrow> ''Incomplete Property'' | Utf8Error \<Rightarrow> ''UTF-8 Error''
   | FromUtf8Error \<Rightarrow> ''From UTF-8 Error'' | StringTooLong \<Rightarrow> ''String Too Long''
   | BufferTooShort \<Rightarrow> ''Buffer Too Short'' | BufferEmpty \<Rightarrow> ''Buffer is Empty''
   | InvalidLength \<Rightarrow> ''Invalid Length'' | InvalidPropertyId \<Rightarrow> ''Invalid Property ID''
   | InvalidPacketType \<Rightarrow> ''Invalid Packet Type'' | UnSuppProtoVsn \<Rightarrow> ''Unsupported Protocol Version''
   | InternalError m \<Rightarrow> ''Internal Error: '' @ m
   | InvalidVariableByteInteger \<Rightarrow> ''Invalid Variable Byte Integer'' | Panic m \<Rightarrow> m)"

definition from_parse_error :: "ParseError \<Rightarrow> MqttClientError" where
  "from_parse_error e = PacketParsing (parse_error_string e) []"

text \<open>\<open>map_err(MqttClientError::from)\<close>, and an operation of the parser that can only panic.\<close>

definition map_parse_err :: "'a res \<Rightarrow> 'a cres" where
  "map_parse_err r = (case r of Inl e \<Rightarrow> Inl (from_parse_error e) | Inr x \<Rightarrow> Inr x)"

definition expect_ok :: "string \<Rightarrow> 'e + 'a \<Rightarrow> string + 'a" where
  "expect_ok message r = (case r of Inl _ \<Rightarrow> Inl message | Inr x \<Rightarrow> Inr x)"

lemma expect_ok_simps [simp]:
  "expect_ok m (Inr x) = Inr x" "expect_ok m r = Inr x \<longleftrightarrow> r = Inr x"
  "expect_ok m (Inl e) = Inl m"
  by (simp_all add: expect_ok_def split: sum.splits)

definition invalid :: "string \<Rightarrow> string \<Rightarrow> MqttClientError" where
  "invalid f r = InvalidConfiguration f r"

section \<open>Deadlines and finished operations\<close>

definition deadline_from :: "Timestamp \<Rightarrow> Duration \<Rightarrow> string + Timestamp" where
  "deadline_from start duration =
     (case checked_add start duration of
        None \<Rightarrow> Inl ''validated engine deadline horizon'' | Some t \<Rightarrow> Inr t)"

definition start_deadline :: "OperationKind \<Rightarrow> u16 option \<Rightarrow> MqttEngine \<Rightarrow> string + MqttEngine" where
  "start_deadline operation i s =
     (let timeouts = o_operation_timeouts (me_options s);
          duration = (case operation of
             Op_Connect \<Rightarrow> ot_connect timeouts | Op_Publish \<Rightarrow> ot_publish timeouts
           | Op_Subscribe \<Rightarrow> ot_subscribe timeouts | Op_Unsubscribe \<Rightarrow> ot_unsubscribe timeouts)
      in case duration of
           None \<Rightarrow> Inr s
         | Some duration \<Rightarrow>
             tryE (deadline_from (me_now s) duration) (\<lambda>at.
             Inr (me_state_update (\<lambda>st. st\<lparr>ps_deadlines :=
                    hm_insert (operation, i) (at, duration) (ps_deadlines st)\<rparr>) s)))"

definition finish_operation :: "u16 \<Rightarrow> MqttEngine \<Rightarrow> MqttEngine" where
  "finish_operation i s =
     me_state_update (\<lambda>st.
       let st = st\<lparr>ps_reserved := ps_reserved st - {i}\<rparr>;
           st = (if ps_reserved st = {} then st\<lparr>ps_replay_reserve := 0\<rparr> else st)
       in st\<lparr>ps_deadlines := filter (\<lambda>((_, pid), _). pid \<noteq> Some i) (ps_deadlines st)\<rparr>) s"

definition operation_of :: "MqttPacket \<Rightarrow> OperationKind" where
  "operation_of packet = (case packet of
     P_Subscribe3 _ \<Rightarrow> Op_Subscribe | P_Subscribe5 _ \<Rightarrow> Op_Subscribe
   | P_Unsubscribe3 _ \<Rightarrow> Op_Unsubscribe | P_Unsubscribe5 _ \<Rightarrow> Op_Unsubscribe
   | _ \<Rightarrow> Op_Publish)"

definition fail_operation :: "u16 \<Rightarrow> MqttPacket \<Rightarrow> MqttClientError \<Rightarrow> MqttEngine \<Rightarrow> MqttEngine" where
  "fail_operation i packet error s =
     (let s = s\<lparr>me_inflight_queue := snd (acknowledge i (me_inflight_queue s))\<rparr>;
          s = finish_operation i s
      in push_event (OperationFailed (operation_of packet) (Some i) error) s)"

section \<open>Losing the connection\<close>

definition close_input :: "MqttEngine \<Rightarrow> string + MqttEngine" where
  "close_input s =
     tryE (expect_ok ''slice index out of range'' (buffer_mut (me_parser s))) (\<lambda>parser.
     Inr (me_state_update (\<lambda>st. st\<lparr>ps_connecting := False, ps_input_closed := True,
            ps_reauthenticating := False, ps_responses := [], ps_deadlines := [],
            ps_received_on_connection := {}, ps_incoming_quota_used := 0\<rparr>)
          (s\<lparr>me_is_connected := False, me_parser := parser\<lparr>mp_buffer := []\<rparr>,
             me_ping_sent_at := None\<rparr>)))"

definition is_topic_alias :: "Property \<Rightarrow> bool" where
  "is_topic_alias p = (case p of TopicAlias _ \<Rightarrow> True | _ \<Rightarrow> False)"

definition canonical :: "MqttPacket \<Rightarrow> MqttPacket" where
  "canonical packet = (case packet of
     P_Publish5 p \<Rightarrow> P_Publish5 (p\<lparr>pub_properties := filter (\<lambda>q. \<not> is_topic_alias q) (pub_properties p)\<rparr>)
   | _ \<Rightarrow> packet)"

fun queued_size :: "MqttPacket list \<Rightarrow> string + nat" where
  "queued_size [] = Inr 0"
| "queued_size (p # ps) =
     tryE (expect_ok ''validated queued packet'' (MqttPacket_to_bytes p)) (\<lambda>bytes.
     tryE (queued_size ps) (\<lambda>n. Inr (length bytes + n)))"

definition fail_all :: "(u16 \<times> MqttPacket) list \<Rightarrow> MqttClientError \<Rightarrow> MqttEngine \<Rightarrow> MqttEngine" where
  "fail_all outstanding error s = fold (\<lambda>(i, packet). fail_operation i packet error) outstanding s"

text \<open>The fields of the protocol state that belong to one connection.\<close>

definition reset_state :: "u16 \<Rightarrow> nat \<Rightarrow> ProtocolState \<Rightarrow> ProtocolState" where
  "reset_state keep_alive queued_bytes st =
     (let received = filter (\<lambda>(_, stage). stage \<noteq> Stage_Publish 1) (ps_received st)
      in st\<lparr>ps_incoming_aliases := [], ps_outgoing_aliases := [], ps_queued_bytes := queued_bytes,
            ps_outgoing_alias_maximum := 0, ps_maximum_packet_size := None, ps_maximum_qos := 2,
            ps_retain_available := True, ps_wildcard_available := True, ps_shared_available := True,
            ps_subscription_ids_available := True, ps_keep_alive := keep_alive,
            ps_received := received, ps_received_unbound := map fst received\<rparr>)"

text \<open>The branch for \<open>options.sessionless\<close>.\<close>

definition drop_session :: "MqttEngine \<Rightarrow> MqttEngine" where
  "drop_session s =
     (let s = me_state_update (\<lambda>st. st\<lparr>ps_has_session := False\<rparr>) s;
          s = fail_all (snapshot_for_reconnect (me_inflight_queue s)) SessionExpired s;
          replay = me_session_replay s;
          s = fail_all replay SessionExpired (s\<lparr>me_session_replay := []\<rparr>)
      in me_state_update (\<lambda>st. st\<lparr>ps_received := [], ps_received_unbound := []\<rparr>) s)"

definition reset_for_new_transport_inner :: "MqttEngine \<Rightarrow> string + MqttEngine" where
  "reset_for_new_transport_inner s =
     tryE (close_input s) (\<lambda>s.
     let s = s\<lparr>me_outgoing_buffer := [], me_configured_subscriptions_pending := False,
               me_stream_retransmissions := [],
               me_inflight_queue := update_receive_maximum (o_receive_maximum (me_options s))
                 (me_inflight_queue s),
               me_priority_queue := pq_map_items canonical (me_priority_queue s)\<rparr> in
     tryE (queued_size (map snd (items (me_priority_queue s)))) (\<lambda>queued_bytes.
     let s = me_state_update (reset_state (o_keep_alive (me_options s)) queued_bytes) s;
         s = (if o_sessionless (me_options s) then drop_session s else s)
     in Inr (s\<lparr>me_parser := MqttParser_new (o_mqtt_version (me_options s)),
               me_next_reconnect_at := None, me_last_packet_sent := me_now s,
               me_last_packet_received := me_now s, me_ping_sent_at := None\<rparr>)))"

definition backoff_ms :: "Duration \<Rightarrow> Duration \<Rightarrow> u32 \<Rightarrow> nat" where
  "backoff_ms base_delay max_delay attempts =
     (let exponent = min (unat attempts) 10;
          multiplier = 2 ^ exponent;
          delay_ms = min (duration_as_millis base_delay * multiplier) (2 ^ 128 - 1)
      in min delay_ms (duration_as_millis max_delay))"

definition schedule_reconnect_inner :: "Timestamp \<Rightarrow> MqttEngine \<Rightarrow> string + MqttEngine" where
  "schedule_reconnect_inner now s =
     (if me_next_reconnect_at s \<noteq> None then Inr s
      else if 0 < me_max_reconnect_attempts s \<and> me_max_reconnect_attempts s \<le> me_reconnect_attempts s
      then Inr (s\<lparr>me_next_reconnect_at := None\<rparr>)
      else
        let delay_ms = backoff_ms (me_reconnect_base_delay s) (me_reconnect_max_delay s)
              (me_reconnect_attempts s);
            delay = from_millis (delay_ms mod 2 ^ 64)
        in tryE (deadline_from now delay) (\<lambda>at.
           if me_reconnect_attempts s = 0xFFFFFFFF then Inl ''attempt to add with overflow''
           else
             let attempts = me_reconnect_attempts s + 1
             in Inr (push_event (ReconnectScheduled attempts delay)
                  (s\<lparr>me_next_reconnect_at := Some at, me_reconnect_attempts := attempts\<rparr>))))"

definition connection_lost_at :: "Timestamp \<Rightarrow> MqttEngine \<Rightarrow> string + MqttEngine" where
  "connection_lost_at now s =
     (let scheduled = me_next_reconnect_at s in
      tryE (reset_for_new_transport_inner s) (\<lambda>s.
      let s = s\<lparr>me_next_reconnect_at := scheduled\<rparr> in
      if o_reconnect (me_options s) then schedule_reconnect_inner now s else Inr s))"

definition handle_connection_lost_inner :: "MqttEngine \<Rightarrow> string + MqttEngine" where
  "handle_connection_lost_inner s = connection_lost_at (me_now s) s"

definition reset_reconnect_state :: "MqttEngine \<Rightarrow> MqttEngine" where
  "reset_reconnect_state s = s\<lparr>me_reconnect_attempts := 0, me_next_reconnect_at := None\<rparr>"

definition fail_connection :: "MqttClientError \<Rightarrow> MqttEngine \<Rightarrow> string + MqttEngine" where
  "fail_connection error s =
     tryE (connection_lost_at (me_now s) s) (\<lambda>s.
     Inr (push_event (Disconnected None) (push_event (EventError error) s)))"

text \<open>\<open>fail_connection\<close> followed by \<open>return (self.take_events(), ...)\<close>.\<close>

definition failed_with :: "'b \<Rightarrow> MqttClientError \<Rightarrow> MqttEngine \<Rightarrow> (MqttEvent list \<times> 'b) eng" where
  "failed_with r error s =
     tryE (fail_connection error s) (\<lambda>s. let (events, s) = take_events s in Inr ((events, r), s))"

section \<open>Limits on the output\<close>

definition validate_packet_capabilities :: "MqttEngine \<Rightarrow> MqttPacket \<Rightarrow> unit cres" where
  "validate_packet_capabilities s packet =
     (let check = (\<lambda>qos retain.
          if ps_maximum_qos (me_state s) < qos \<or> (retain \<and> \<not> ps_retain_available (me_state s))
          then Inl (invalid ''PUBLISH'' ''Broker does not support requested QoS or retain'')
          else Inr ())
      in case packet of
           P_Publish5 p \<Rightarrow> check (pub_qos p) (pub_retain p)
         | P_Publish3 p \<Rightarrow> check (pub3_qos p) (pub3_retain p)
         | _ \<Rightarrow> Inr ())"

definition check_packet_size :: "MqttEngine \<Rightarrow> bytes \<Rightarrow> unit cres" where
  "check_packet_size s bytes =
     (case o_max_outgoing_buffer_bytes (me_options s) of
        Some capacity \<Rightarrow>
          if capacity < length bytes then Inl (BufferFull ''outgoing packet'' capacity)
          else (case ps_maximum_packet_size (me_state s) of
                  Some m \<Rightarrow> if m < length bytes
                    then Inl (invalid ''packet size'' ''Packet exceeds the broker's Maximum Packet Size'')
                    else Inr ()
                | None \<Rightarrow> Inr ())
      | None \<Rightarrow>
          (case ps_maximum_packet_size (me_state s) of
             Some m \<Rightarrow> if m < length bytes
               then Inl (invalid ''packet size'' ''Packet exceeds the broker's Maximum Packet Size'')
               else Inr ()
           | None \<Rightarrow> Inr ()))"

definition outgoing_bytes :: "MqttEngine \<Rightarrow> nat" where
  "outgoing_bytes s = ps_queued_bytes (me_state s) + sum_list (map length (me_outgoing_buffer s))"

definition check_output_capacity :: "MqttEngine \<Rightarrow> nat \<Rightarrow> unit cres" where
  "check_output_capacity s additional =
     (case o_max_outgoing_buffer_bytes (me_options s) of
        Some capacity \<Rightarrow>
          if capacity < outgoing_bytes s + additional then Inl (BufferFull ''outgoing bytes'' capacity)
          else Inr ()
      | None \<Rightarrow> Inr ())"

definition is_auth_method :: "Property \<Rightarrow> bool" where
  "is_auth_method p = (case p of AuthenticationMethod _ \<Rightarrow> True | _ \<Rightarrow> False)"

definition ensure_outgoing_allowed :: "MqttEngine \<Rightarrow> ControlPacketType \<Rightarrow> unit cres" where
  "ensure_outgoing_allowed s pt =
     (if mqtt_version s = 5 \<and> ps_connecting (me_state s) \<and>
         list_ex is_auth_method (o_connect_properties (me_options s)) \<and>
         pt \<noteq> AUTH \<and> pt \<noteq> DISCONNECT
      then Inl (InvalidState ''AUTH or DISCONNECT until CONNACK''
                  ''packet during initial enhanced authentication'')
      else Inr ())"

definition enqueue_packet_inner :: "MqttPacket \<Rightarrow> MqttEngine \<Rightarrow> unit cres \<times> MqttEngine" where
  "enqueue_packet_inner packet s =
     (case tryE (ensure_outgoing_allowed s (MqttPacket_packet_type packet)) (\<lambda>_.
           if o_max_outgoing_packet_count (me_options s) \<le> length (me_outgoing_buffer s)
           then Inl (BufferFull ''outgoing'' (o_max_outgoing_packet_count (me_options s)))
           else
             tryE (validate_packet_capabilities s packet) (\<lambda>_.
             tryE (map_parse_err (MqttPacket_to_bytes packet)) (\<lambda>bytes.
             tryE (check_packet_size s bytes) (\<lambda>_.
             tryE (check_output_capacity s (length bytes)) (\<lambda>_. Inr bytes))))) of
        Inl e \<Rightarrow> (Inl e, s)
      | Inr bytes \<Rightarrow> (Inr (), s\<lparr>me_outgoing_buffer := me_outgoing_buffer s @ [bytes],
                               me_last_packet_sent := me_now s\<rparr>))"

section \<open>Responses, replay and the publish queue\<close>

text \<open>\<open>flush_responses\<close>: every round removes a response or leaves the loop.\<close>

fun flush_loop :: "nat \<Rightarrow> MqttEngine \<Rightarrow> string + MqttEngine" where
  "flush_loop 0 s = Inr s"
| "flush_loop (Suc n) s =
     (case ps_responses (me_state s) of
        [] \<Rightarrow> Inr s
      | packet # rest \<Rightarrow>
          if (case o_max_outgoing_buffer_bytes (me_options s) of
                None \<Rightarrow> False
              | Some capacity \<Rightarrow>
                  (case MqttPacket_to_bytes packet of Inl _ \<Rightarrow> False | Inr bytes \<Rightarrow> capacity < length bytes))
          then fail_connection (BufferFull ''protocol response''
                 (the (o_max_outgoing_buffer_bytes (me_options s)))) s
          else
            (case enqueue_packet_inner packet s of
               (Inr _, s) \<Rightarrow>
                 flush_loop n (me_state_update (\<lambda>st. st\<lparr>ps_responses := tl (ps_responses st)\<rparr>) s)
             | (Inl e, s) \<Rightarrow>
                 (case e of BufferFull _ _ \<Rightarrow> Inr s | _ \<Rightarrow> fail_connection e s)))"

definition flush_responses :: "MqttEngine \<Rightarrow> string + MqttEngine" where
  "flush_responses s = flush_loop (length (ps_responses (me_state s))) s"

definition replay_qos :: "MqttPacket \<Rightarrow> u8" where
  "replay_qos packet = (case packet of
     P_Publish5 p \<Rightarrow> pub_qos p | P_Publish3 p \<Rightarrow> pub3_qos p | _ \<Rightarrow> 2)"

text \<open>\<open>process_replay\<close>: every round removes an entry or leaves the loop.\<close>

fun replay_loop :: "nat \<Rightarrow> MqttEngine \<Rightarrow> string + MqttEngine" where
  "replay_loop 0 s = Inr s"
| "replay_loop (Suc n) s =
     (case me_session_replay s of
        [] \<Rightarrow> Inr s
      | (i, packet) # rest \<Rightarrow>
          if is_publish packet \<and> \<not> can_push_publish (me_inflight_queue s) then Inr s
          else
            (case enqueue_packet_inner packet s of
               (Inr _, s) \<Rightarrow>
                 let s = s\<lparr>me_session_replay := rest\<rparr> in
                 (case push_at i packet (replay_qos packet) (me_now s) (me_inflight_queue s) of
                    Inl (ClientPanic m) \<Rightarrow> Inl m
                  | Inl e \<Rightarrow> replay_loop n (fail_operation i packet e s)
                  | Inr q \<Rightarrow>
                      tryE (start_deadline Op_Publish (Some i) (s\<lparr>me_inflight_queue := q\<rparr>)) (\<lambda>s.
                      replay_loop n s))
             | (Inl e, s) \<Rightarrow>
                 (case e of
                    BufferFull _ _ \<Rightarrow> Inr s
                  | _ \<Rightarrow> replay_loop n (fail_operation i packet e (s\<lparr>me_session_replay := rest\<rparr>)))))"

definition process_replay :: "MqttEngine \<Rightarrow> string + MqttEngine" where
  "process_replay s =
     (if me_transport_manages_session s then Inr s
      else replay_loop (length (me_session_replay s)) s)"

definition publish_ident :: "MqttPacket \<Rightarrow> u16 option" where
  "publish_ident packet = (case packet of
     P_Publish5 p \<Rightarrow> pub_packet_id p | P_Publish3 p \<Rightarrow> pub3_message_id p | _ \<Rightarrow> None)"

definition publish_qos :: "MqttPacket \<Rightarrow> u8" where
  "publish_qos packet = (case packet of
     P_Publish5 p \<Rightarrow> pub_qos p | P_Publish3 p \<Rightarrow> pub3_qos p | _ \<Rightarrow> 0)"

text \<open>The three ways a round of \<open>process_queue_with_encoding\<close> takes the first packet out of the queue.\<close>

definition reject_queued :: "MqttClientError \<Rightarrow> MqttEngine \<Rightarrow> MqttEngine" where
  "reject_queued error s =
     (case dequeue (me_priority_queue s) of
        (None, _) \<Rightarrow> s
      | (Some (_, packet), q) \<Rightarrow>
          let s = s\<lparr>me_priority_queue := q\<rparr> in
          (case publish_ident packet of
             Some i \<Rightarrow> fail_operation i packet error s
           | None \<Rightarrow> push_event (EventError error) s))"

definition emit_queued :: "bytes \<Rightarrow> MqttEngine \<Rightarrow> string + MqttEngine" where
  "emit_queued bytes s =
     (case dequeue (me_priority_queue s) of
        (None, _) \<Rightarrow> Inr s
      | (Some (_, packet), q) \<Rightarrow>
          let s = s\<lparr>me_priority_queue := q\<rparr> in
          tryE (if 0 < publish_qos packet then
                  (case publish_ident packet of
                     None \<Rightarrow> Inl ''called Option::unwrap() on a None value''
                   | Some pid \<Rightarrow>
                       tryE (expect_ok ''reserved packet ID and checked quota''
                         (push_at pid packet (publish_qos packet) (me_now s) (me_inflight_queue s))) (\<lambda>iq.
                       start_deadline Op_Publish (Some pid) (s\<lparr>me_inflight_queue := iq\<rparr>)))
                else Inr s) (\<lambda>s.
          Inr (s\<lparr>me_outgoing_buffer := me_outgoing_buffer s @ [bytes], me_last_packet_sent := me_now s\<rparr>)))"

definition drop_broken :: "ParseError \<Rightarrow> MqttEngine \<Rightarrow> MqttEngine" where
  "drop_broken e s =
     (case dequeue (me_priority_queue s) of
        (None, _) \<Rightarrow> s
      | (Some _, q) \<Rightarrow> push_event (EventError (from_parse_error e)) (s\<lparr>me_priority_queue := q\<rparr>))"

definition queue_round :: "bytes option \<Rightarrow> MqttPacket \<Rightarrow> MqttEngine \<Rightarrow> string + MqttEngine" where
  "queue_round first_encoding packet s =
     (case (case first_encoding of None \<Rightarrow> MqttPacket_to_bytes packet | Some b \<Rightarrow> Inr b) of
        Inr bytes \<Rightarrow>
          let s = me_state_update (\<lambda>st. st\<lparr>ps_queued_bytes := ps_queued_bytes st - length bytes\<rparr>) s in
          (case tryE (validate_packet_capabilities s packet) (\<lambda>_. check_packet_size s bytes) of
             Inl error \<Rightarrow> Inr (reject_queued error s)
           | Inr _ \<Rightarrow> emit_queued bytes s)
      | Inl e \<Rightarrow> Inr (drop_broken e s))"

text \<open>
  The loop of \<open>process_queue_with_encoding\<close>: a round takes one packet out of the queue or leaves the
  loop.  Running out of rounds is reported as a panic; \<open>queue_loop_rounds\<close> below shows that the
  number of queued packets is enough.
\<close>

fun queue_loop :: "nat \<Rightarrow> bytes option \<Rightarrow> MqttEngine \<Rightarrow> string + MqttEngine" where
  "queue_loop n first_encoding s =
     (if length (me_outgoing_buffer s) < o_max_outgoing_packet_count (me_options s) then
        (case peek (me_priority_queue s) of
           None \<Rightarrow> Inr s
         | Some (_, packet) \<Rightarrow>
             if 0 < publish_qos packet \<and> \<not> can_push_publish (me_inflight_queue s) then Inr s
             else
               (case n of
                  0 \<Rightarrow> Inl ''queue loop does not end''
                | Suc n \<Rightarrow> tryE (queue_round first_encoding packet s) (\<lambda>s. queue_loop n None s)))
      else Inr s)"

declare queue_loop.simps [simp del]

definition process_queue_with_encoding :: "bytes option \<Rightarrow> MqttEngine \<Rightarrow> string + MqttEngine" where
  "process_queue_with_encoding first_encoding s =
     (if \<not> me_is_connected s then Inr s
      else
        tryE (flush_responses s) (\<lambda>s.
        if \<not> me_is_connected s then Inr s
        else
          tryE (process_replay s) (\<lambda>s.
          if \<not> me_is_connected s \<or> ps_responses (me_state s) \<noteq> [] \<or> me_session_replay s \<noteq> []
          then Inr s
          else queue_loop (pq_len (me_priority_queue s)) first_encoding s)))"

definition process_queue :: "MqttEngine \<Rightarrow> string + MqttEngine" where
  "process_queue s = process_queue_with_encoding None s"

end
