(* ===== verification/Engine_Commands.thy ===== *)
theory Engine_Commands
  imports Engine_State
begin

text \<open>
  The commands of the protocol engine: connecting, publishing, subscribing, disconnecting,
  authenticating, pinging and acknowledging by hand (\<open>src/src/mqtt_client/engine.rs\<close>,
  \<open>engine/protocol_state.rs\<close>).  A command returns \<open>Inl\<close> of a message where the code panics, and
  otherwise the code's own result with the engine; an error keeps the changes made before it.
\<close>

declare map_of_eq_Some_iff [simp del] Some_eq_map_of_iff [simp del]

section \<open>Fallible steps\<close>

text \<open>The operator \<open>?\<close> on a check of the current engine, and on a step that changes the engine.\<close>

definition checkE :: "'a cres \<Rightarrow> MqttEngine \<Rightarrow> ('a \<Rightarrow> 'b cres eng) \<Rightarrow> 'b cres eng" where
  "checkE r s f = (case r of Inl e \<Rightarrow> Inr (Inl e, s) | Inr x \<Rightarrow> f x)"

definition stepE :: "'a cres eng \<Rightarrow> ('a \<Rightarrow> MqttEngine \<Rightarrow> 'b cres eng) \<Rightarrow> 'b cres eng" where
  "stepE m f = (case m of
     Inl p \<Rightarrow> Inl p | Inr (Inl e, s) \<Rightarrow> Inr (Inl e, s) | Inr (Inr x, s) \<Rightarrow> f x s)"

lemma checkE_simps [simp]: "checkE (Inl e) s f = Inr (Inl e, s)" "checkE (Inr x) s f = f x"
  by (simp_all add: checkE_def)

lemma stepE_simps [simp]:
  "stepE (Inl p) f = Inl p" "stepE (Inr (Inl e, s)) f = Inr (Inl e, s)"
  "stepE (Inr (Inr x, s)) f = f x s"
  by (simp_all add: stepE_def)

text \<open>\<open>?\<close> on an operation of the in-flight queue.\<close>

definition inflightE :: "InflightQueue cres \<Rightarrow> MqttEngine \<Rightarrow> unit cres eng" where
  "inflightE r s = (case r of
     Inl (ClientPanic m) \<Rightarrow> Inl m | Inl e \<Rightarrow> Inr (Inl e, s)
   | Inr q \<Rightarrow> Inr (Inr (), s\<lparr>me_inflight_queue := q\<rparr>))"

section \<open>CONNECT and CONNACK properties\<close>

text \<open>
  \<open>core::mem::discriminant\<close> is equal for equal variants; the property identifiers of the
  specification are in bijection with the variants.
\<close>

definition same_discriminant :: "Property \<Rightarrow> Property \<Rightarrow> bool" where
  "same_discriminant p q \<longleftrightarrow> prop_id_of p = prop_id_of q"

definition connect_property :: "Property \<Rightarrow> unit cres" where
  "connect_property p =
     (let zero = Inl (invalid ''CONNECT'' ''Receive Maximum and Maximum Packet Size must be nonzero'');
          flag = Inl (invalid ''CONNECT'' ''Boolean property must be 0 or 1'')
      in case p of
        ReceiveMaximum v \<Rightarrow> if v = 0 then zero else Inr ()
      | MaximumPacketSize v \<Rightarrow> if v = 0 then zero else Inr ()
      | RequestResponseInformation v \<Rightarrow> if 1 < v then flag else Inr ()
      | RequestProblemInformation v \<Rightarrow> if 1 < v then flag else Inr ()
      | SessionExpiryInterval _ \<Rightarrow> Inr ()
      | TopicAliasMaximum _ \<Rightarrow> Inr ()
      | UserProperty _ _ \<Rightarrow> Inr ()
      | AuthenticationMethod _ \<Rightarrow> Inr ()
      | AuthenticationData _ \<Rightarrow> Inr ()
      | _ \<Rightarrow> Inl (invalid ''CONNECT'' ''Property is not valid in CONNECT''))"

fun merge_connect :: "Property list \<Rightarrow> Property list \<Rightarrow> Property list cres" where
  "merge_connect merged [] = Inr merged"
| "merge_connect merged (property # rest) =
     tryE (connect_property property) (\<lambda>_.
     if \<not> is_user_property property then
       (case List.find (\<lambda>p. same_discriminant p property) merged of
          Some existing \<Rightarrow>
            if existing \<noteq> property
            then Inl (invalid ''CONNECT'' ''Conflicting singleton property values'')
            else merge_connect merged rest
        | None \<Rightarrow> merge_connect (merged @ [property]) rest)
     else merge_connect (merged @ [property]) rest)"

definition is_auth_data :: "Property \<Rightarrow> bool" where
  "is_auth_data p = (case p of AuthenticationData _ \<Rightarrow> True | _ \<Rightarrow> False)"

abbreviation option_property :: "('a \<Rightarrow> Property) \<Rightarrow> 'a option \<Rightarrow> Property list" where
  "option_property C v \<equiv> (case v of None \<Rightarrow> [] | Some v \<Rightarrow> [C v])"

definition connect_properties :: "MqttClientOptions \<Rightarrow> Property list cres" where
  "connect_properties opts =
     (let properties = o_connect_properties opts
            @ option_property SessionExpiryInterval (o_session_expiry_interval opts)
            @ option_property MaximumPacketSize (o_maximum_packet_size opts)
            @ option_property (\<lambda>v. RequestResponseInformation (of_bool v)) (o_request_response_information opts)
            @ option_property (\<lambda>v. RequestProblemInformation (of_bool v)) (o_request_problem_information opts)
            @ option_property ReceiveMaximum (o_incoming_receive_maximum opts)
      in tryE (merge_connect [] properties) (\<lambda>merged.
         if list_ex is_auth_data merged \<and> \<not> list_ex is_auth_method merged
         then Inl (invalid ''CONNECT'' ''Authentication Data requires Authentication Method'')
         else Inr merged))"

definition connect_packet :: "MqttClientOptions \<Rightarrow> MqttPacket cres" where
  "connect_packet opts =
     tryE (if o_mqtt_version opts = 5 then connect_properties opts else Inr []) (\<lambda>properties.
     Inr (if o_mqtt_version opts = 5 then
       P_Connect5 \<lparr>con_protocol_name = ascii ''MQTT'', con_protocol_version = 5,
         con_keep_alive = o_keep_alive opts, con_client_id = o_client_id opts,
         con_will = o_will opts, con_username = o_username opts, con_password = o_password opts,
         con_properties = properties, con_clean_start = o_clean_start opts\<rparr>
     else
       P_Connect3 \<lparr>con3_protocol_name = ascii ''MQTT'', con3_protocol_version = 4,
         con3_clean_session = o_clean_start opts, con3_keep_alive = o_keep_alive opts,
         con3_client_id = o_client_id opts,
         con3_will = map_option (\<lambda>w. \<lparr>w3_retain = w_will_retain w, w3_qos = w_will_qos w,
           w3_topic = w_will_topic w, w3_message = w_will_message w\<rparr>) (o_will opts),
         con3_username = o_username opts, con3_password = o_password opts\<rparr>))"

definition negotiate_property :: "Property \<Rightarrow> MqttEngine \<Rightarrow> unit cres \<times> MqttEngine" where
  "negotiate_property p s =
     (let zero = (Inl (invalid ''CONNACK'' ''Limit must be nonzero''), s);
          flag = (\<lambda>v f. if 1 < (v :: u8) then (Inl (invalid ''CONNACK'' ''Boolean property must be 0 or 1''), s)
                   else (Inr (), me_state_update (f (v \<noteq> 0)) s));
          ok = (\<lambda>f. (Inr (), me_state_update f s))
      in case p of
        ReceiveMaximum v \<Rightarrow>
          if v = 0 then zero
          else (Inr (), s\<lparr>me_inflight_queue :=
                  update_receive_maximum (min v (o_receive_maximum (me_options s))) (me_inflight_queue s)\<rparr>)
      | MaximumPacketSize v \<Rightarrow>
          if v = 0 then zero else ok (\<lambda>st. st\<lparr>ps_maximum_packet_size := Some (unat v)\<rparr>)
      | MaximumQoS v \<Rightarrow>
          if 1 < v then (Inl (invalid ''CONNACK'' ''Maximum QoS must be 0 or 1''), s)
          else ok (\<lambda>st. st\<lparr>ps_maximum_qos := v\<rparr>)
      | RetainAvailable v \<Rightarrow> flag v (\<lambda>b st. st\<lparr>ps_retain_available := b\<rparr>)
      | WildcardSubscriptionAvailable v \<Rightarrow> flag v (\<lambda>b st. st\<lparr>ps_wildcard_available := b\<rparr>)
      | SharedSubscriptionAvailable v \<Rightarrow> flag v (\<lambda>b st. st\<lparr>ps_shared_available := b\<rparr>)
      | SubscriptionIdentifierAvailable v \<Rightarrow> flag v (\<lambda>b st. st\<lparr>ps_subscription_ids_available := b\<rparr>)
      | ServerKeepAlive v \<Rightarrow> ok (\<lambda>st. st\<lparr>ps_keep_alive := v\<rparr>)
      | TopicAliasMaximum v \<Rightarrow> ok (\<lambda>st. st\<lparr>ps_outgoing_alias_maximum := v\<rparr>)
      | AssignedClientIdentifier v \<Rightarrow>
          if v \<noteq> [] then (Inr (), s\<lparr>me_options := (me_options s)\<lparr>o_client_id := v\<rparr>\<rparr>)
          else (Inl (invalid ''CONNACK'' ''Assigned client ID is empty''), s)
      | SessionExpiryInterval v \<Rightarrow> ok (\<lambda>st. st\<lparr>ps_session_expiry := v\<rparr>)
      | AuthenticationMethod _ \<Rightarrow> (Inr (), s)
      | AuthenticationData _ \<Rightarrow> (Inr (), s)
      | ResponseInformation _ \<Rightarrow> (Inr (), s)
      | ServerReference _ \<Rightarrow> (Inr (), s)
      | ReasonString _ \<Rightarrow> (Inr (), s)
      | UserProperty _ _ \<Rightarrow> (Inr (), s)
      | _ \<Rightarrow> (Inl (invalid ''CONNACK'' ''Property is not valid in CONNACK''), s))"

fun negotiate_loop :: "Property list \<Rightarrow> Property list \<Rightarrow> MqttEngine \<Rightarrow> unit cres \<times> MqttEngine" where
  "negotiate_loop previous [] s = (Inr (), s)"
| "negotiate_loop previous (p # rest) s =
     (if \<not> is_user_property p \<and> list_ex (\<lambda>q. same_discriminant q p) previous
      then (Inl (invalid ''CONNACK'' ''Duplicate singleton property''), s)
      else case negotiate_property p s of
             (Inl e, s) \<Rightarrow> (Inl e, s)
           | (Inr _, s) \<Rightarrow> negotiate_loop (previous @ [p]) rest s)"

definition negotiate :: "Property list \<Rightarrow> MqttEngine \<Rightarrow> unit cres \<times> MqttEngine" where
  "negotiate properties s =
     (case negotiate_loop [] properties s of
        (Inl e, s) \<Rightarrow> (Inl e, s)
      | (Inr _, s) \<Rightarrow>
          (case tryE (connect_packet (me_options s)) (\<lambda>p. map_parse_err (MqttPacket_to_bytes p)) of
             Inl e \<Rightarrow> (Inl e, s)
           | Inr bytes \<Rightarrow>
               let reserve = max (length bytes) 6 in
               if (case o_max_outgoing_buffer_bytes (me_options s) of
                     None \<Rightarrow> False | Some limit \<Rightarrow> limit < reserve)
               then (Inl (invalid ''max_outgoing_buffer_bytes''
                       ''The reconnect CONNECT packet exceeds the outgoing byte limit''), s)
               else (Inr (), me_state_update (\<lambda>st. st\<lparr>ps_control_reserve := reserve\<rparr>) s)))"

section \<open>Connecting\<close>

text \<open>
  The positions map of \<open>connect_inner\<close> holds the last position of each identifier in
  \<open>previous_inflight\<close>.
\<close>

definition last_position :: "u16 \<Rightarrow> (u16 \<times> 'a) list \<Rightarrow> nat option" where
  "last_position i xs = List.find (\<lambda>k. fst (xs ! k) = i) (rev [0..<length xs])"

definition merge_previous :: "u16 \<times> MqttPacket \<Rightarrow> (u16 \<times> MqttPacket) list \<Rightarrow> (u16 \<times> MqttPacket) list" where
  "merge_previous e previous =
     (case last_position (fst e) previous of
        Some k \<Rightarrow> previous[k := (fst (previous ! k), snd e)]
      | None \<Rightarrow> previous @ [e])"

definition connect_parameter :: "Property \<Rightarrow> ProtocolState \<Rightarrow> ProtocolState" where
  "connect_parameter p st = (case p of
     SessionExpiryInterval v \<Rightarrow> st\<lparr>ps_session_expiry := v\<rparr>
   | ReceiveMaximum v \<Rightarrow> st\<lparr>ps_incoming_receive_maximum := v\<rparr>
   | TopicAliasMaximum v \<Rightarrow> st\<lparr>ps_incoming_alias_maximum := v\<rparr>
   | _ \<Rightarrow> st)"

definition connect_state :: "MqttPacket \<Rightarrow> ProtocolState \<Rightarrow> ProtocolState" where
  "connect_state packet st = (case packet of
     P_Connect5 connect \<Rightarrow> fold connect_parameter (con_properties connect) st
   | _ \<Rightarrow> st)"

text \<open>The end of \<open>connect_inner\<close>, once the CONNECT packet is in the output.\<close>

definition await_connack :: "nat \<Rightarrow> MqttEngine \<Rightarrow> string + MqttEngine" where
  "await_connack reserve s =
     (let previous = filter (\<lambda>(i, _). i \<in> ps_reserved (me_state s)) (me_previous_inflight s);
          outstanding = snapshot_for_reconnect (me_inflight_queue s) @ me_session_replay s;
          s = s\<lparr>me_previous_inflight := fold merge_previous outstanding previous,
                me_session_replay := []\<rparr>;
          s = me_state_update (\<lambda>st. st\<lparr>ps_control_reserve := reserve, ps_input_closed := False,
                ps_connecting := True, ps_reauthenticating := False\<rparr>) s
      in start_deadline Op_Connect None (s\<lparr>me_next_reconnect_at := None\<rparr>))"

definition connect_inner :: "MqttEngine \<Rightarrow> unit cres eng" where
  "connect_inner s =
     (if me_is_connected s then Inr (Inl AlreadyConnected, s)
      else if ps_connecting (me_state s)
      then Inr (Inl (InvalidState ''disconnected'' ''awaiting CONNACK''), s)
      else if o_max_outgoing_packet_count (me_options s) = 0 \<or> o_max_event_count (me_options s) = 0
      then Inr (Inl (InvalidConfiguration ''buffer limits'' ''Packet and event limits must be nonzero''), s)
      else
        checkE (connect_packet (me_options s)) s (\<lambda>packet.
        let s = me_state_update (connect_state packet) s;
            s = (if me_session s = None then s\<lparr>me_session := Some ClientSession_new\<rparr> else s)
        in
        checkE (map_parse_err (MqttPacket_to_bytes packet)) s (\<lambda>bytes.
        let reserve = max (length bytes) 6 in
        stepE (Inr (enqueue_packet_inner packet s)) (\<lambda>_ s.
        tryE (await_connack reserve s) (\<lambda>s. Inr (Inr (), s))))))"

section \<open>Packet identifiers\<close>

definition id_free :: "MqttEngine \<Rightarrow> u16 \<Rightarrow> bool" where
  "id_free s i \<longleftrightarrow> i \<notin> ps_reserved (me_state s) \<and> \<not> iq_contains i (me_inflight_queue s)"

definition next_packet_id :: "MqttEngine \<Rightarrow> u16 cres \<times> MqttEngine" where
  "next_packet_id s =
     (case me_session s of
        None \<Rightarrow> (Inl (ProtocolViolation ''No session available for packet ID allocation''), s)
      | Some session \<Rightarrow>
          let (r, session) = search cs_next_packet_id (id_free s) 65535 session;
              s = s\<lparr>me_session := Some session\<rparr>
          in (case r of None \<Rightarrow> (Inl PacketIdExhausted, s) | Some i \<Rightarrow> (Inr i, s)))"

definition candidate_id :: "u16 option \<Rightarrow> MqttEngine \<Rightarrow> u16 cres \<times> MqttEngine" where
  "candidate_id requested s =
     (case requested of
        Some i \<Rightarrow> if i = 0 \<or> \<not> id_free s i then (Inl (InvalidPacketId i), s) else (Inr i, s)
      | None \<Rightarrow> next_packet_id s)"

section \<open>Publishing\<close>

definition topic_aliases :: "Property list \<Rightarrow> u16 list" where
  "topic_aliases ps = List.map_filter (\<lambda>p. case p of TopicAlias v \<Rightarrow> Some v | _ \<Rightarrow> None) ps"

text \<open>The registration of an alias and the command with its canonical topic.\<close>

definition validate_publish ::
  "MqttEngine \<Rightarrow> PublishCommand \<Rightarrow> ((u16 \<times> str) option \<times> PublishCommand) cres" where
  "validate_publish s command =
     (if ps_maximum_qos (me_state s) < pc_qos command \<or>
         (pc_retain command \<and> \<not> ps_retain_available (me_state s))
      then Inl (invalid ''PUBLISH'' ''Broker does not support requested QoS or retain'')
      else case topic_aliases (pc_properties command) of
        [] \<Rightarrow> Inr (None, command)
      | alias # others \<Rightarrow>
          if others \<noteq> [] \<or> alias = 0 \<or> ps_outgoing_alias_maximum (me_state s) < alias
          then Inl (invalid ''Topic Alias'' ''Alias exceeds negotiated maximum or is duplicated'')
          else if pc_topic_name command = [] then
            (case hm_get (ps_outgoing_aliases (me_state s)) alias of
               None \<Rightarrow> Inl (invalid ''Topic Alias'' ''Undefined alias'')
             | Some topic \<Rightarrow> Inr (None, command\<lparr>pc_topic_name := topic\<rparr>))
          else Inr (Some (alias, pc_topic_name command), command))"

definition publish_packet :: "MqttEngine \<Rightarrow> PublishCommand \<Rightarrow> MqttPacket" where
  "publish_packet s command =
     (if mqtt_version s = 5 then P_Publish5 (into_mqtt_publish command)
      else P_Publish3 (into_mqttv3_publish command))"

definition assign_id :: "PublishCommand \<Rightarrow> MqttEngine \<Rightarrow> (u16 option \<times> PublishCommand) cres \<times> MqttEngine" where
  "assign_id command s =
     (if 0 < pc_qos command then
        (case candidate_id (pc_packet_id command) s of
           (Inl e, s) \<Rightarrow> (Inl e, s)
         | (Inr pid, s) \<Rightarrow> (Inr (Some pid, command\<lparr>pc_packet_id := Some pid\<rparr>), s))
      else (Inr (None, command), s))"

definition register_alias :: "(u16 \<times> str) option \<Rightarrow> MqttEngine \<Rightarrow> MqttEngine" where
  "register_alias alias s = (case alias of
     None \<Rightarrow> s
   | Some (i, topic) \<Rightarrow> me_state_update (\<lambda>st. st\<lparr>ps_outgoing_aliases :=
       hm_insert i topic (ps_outgoing_aliases st)\<rparr>) s)"

text \<open>The identifier of an accepted publication is reserved with the space to replay it.\<close>

definition reserve_id :: "u16 option \<Rightarrow> nat \<Rightarrow> MqttEngine \<Rightarrow> MqttEngine" where
  "reserve_id pid n s = (case pid of
     None \<Rightarrow> s
   | Some i \<Rightarrow> me_state_update (\<lambda>st. st\<lparr>ps_reserved := insert i (ps_reserved st),
       ps_replay_reserve := max (ps_replay_reserve st) n\<rparr>) s)"

text \<open>\<open>publish_inner\<close> after the identifier is chosen.\<close>

definition admit_publish ::
  "(u16 \<times> str) option \<Rightarrow> u16 option \<Rightarrow> PublishCommand \<Rightarrow> MqttEngine \<Rightarrow> (u16 option) cres eng" where
  "admit_publish registration pid command s =
     (let packet = publish_packet s command in
      checkE (map_parse_err (MqttPacket_to_bytes packet)) s (\<lambda>bytes.
      checkE (check_packet_size s bytes) s (\<lambda>_.
      let reserve = max (ps_control_reserve (me_state s)) (ps_replay_reserve (me_state s)) in
      checkE (check_output_capacity s (length bytes + reserve)) s (\<lambda>_.
      let s = me_state_update (\<lambda>st. st\<lparr>ps_queued_bytes := ps_queued_bytes st + length bytes\<rparr>) s;
          s = reserve_id pid (length bytes) s;
          s = register_alias registration s;
          first_encoding = (if pq_is_empty (me_priority_queue s) then Some bytes else None);
          s = s\<lparr>me_priority_queue := enqueue (pc_priority command) packet (me_priority_queue s)\<rparr>
      in
      tryE (process_queue_with_encoding first_encoding s) (\<lambda>s. Inr (Inr pid, s))))))"

definition publish_inner :: "PublishCommand \<Rightarrow> MqttEngine \<Rightarrow> (u16 option) cres eng" where
  "publish_inner command s =
     checkE (if 0 < pc_qos command then require_full_parser s else Inr ()) s (\<lambda>_.
     checkE (validate_publish s command) s (\<lambda>(registration, command).
     if o_max_outgoing_packet_count (me_options s) \<le> pq_len (me_priority_queue s)
     then Inr (Inl (BufferFull ''publish queue'' (o_max_outgoing_packet_count (me_options s))), s)
     else
       stepE (Inr (assign_id command s)) (\<lambda>(pid, command) s.
       admit_publish registration pid command s)))"

text \<open>\<open>publish_encoded_inner\<close> after the identifier is chosen.\<close>

definition encode_publish ::
  "(u16 \<times> str) option \<Rightarrow> u16 option \<Rightarrow> PublishCommand \<Rightarrow> u64 option \<Rightarrow> MqttEngine \<Rightarrow>
   (u16 option \<times> bytes) cres eng" where
  "encode_publish registration pid command stream s =
     (let qos = pc_qos command; packet = publish_packet s command in
      checkE (map_parse_err (MqttPacket_to_bytes packet)) s (\<lambda>bytes.
      checkE (check_packet_size s bytes) s (\<lambda>_.
      stepE (if 0 < qos then
               (case pid of
                  None \<Rightarrow> Inl ''QoS > 0 always assigns a packet id''
                | Some i \<Rightarrow> inflightE (push_with_stream_at i packet qos stream (me_now s) (me_inflight_queue s)) s)
             else Inr (Inr (), s)) (\<lambda>_ s.
      let s = reserve_id pid (length bytes) s in
      tryE (case pid of None \<Rightarrow> Inr s | Some i \<Rightarrow> start_deadline Op_Publish (Some i) s) (\<lambda>s.
      let s = register_alias registration s in
      Inr (Inr (pid, bytes), s\<lparr>me_last_packet_sent := me_now s\<rparr>))))))"

definition publish_encoded_inner ::
  "PublishCommand \<Rightarrow> u64 option \<Rightarrow> MqttEngine \<Rightarrow> (u16 option \<times> bytes) cres eng" where
  "publish_encoded_inner command stream s =
     checkE (ensure_outgoing_allowed s PUBLISH) s (\<lambda>_.
     checkE (if 0 < pc_qos command then require_full_parser s else Inr ()) s (\<lambda>_.
     checkE (validate_publish s command) s (\<lambda>(registration, command).
     stepE (Inr (assign_id command s)) (\<lambda>(pid, command) s.
     encode_publish registration pid command stream s))))"

section \<open>Subscribing\<close>

definition is_subscription_id :: "Property \<Rightarrow> bool" where
  "is_subscription_id p = (case p of SubscriptionIdentifier _ \<Rightarrow> True | _ \<Rightarrow> False)"

definition validate_subscribe :: "MqttEngine \<Rightarrow> SubscribeCommand \<Rightarrow> unit cres" where
  "validate_subscribe s command =
     (if \<not> ps_subscription_ids_available (me_state s) \<and> list_ex is_subscription_id (sc_properties command)
      then Inl (invalid ''SUBSCRIBE'' ''Broker does not support subscription identifiers'')
      else if list_ex (\<lambda>t.
          (\<not> ps_wildcard_available (me_state s) \<and>
             (plus_c \<in> set (ts_topic_filter t) \<or> hash \<in> set (ts_topic_filter t))) \<or>
          (\<not> ps_shared_available (me_state s) \<and> starts_with (ts_topic_filter t) share_prefix))
        (sc_subscriptions command)
      then Inl (invalid ''SUBSCRIBE'' ''Broker does not support this subscription'')
      else Inr ())"

definition subscribe_packet :: "MqttEngine \<Rightarrow> u16 \<Rightarrow> SubscribeCommand \<Rightarrow> MqttPacket" where
  "subscribe_packet s pid command =
     (if mqtt_version s = 5 then
        P_Subscribe5 \<lparr>sub_packet_id = pid, sub_subscriptions = sc_subscriptions command,
          sub_properties = sc_properties command\<rparr>
      else
        P_Subscribe3 \<lparr>sub3_message_id = pid, sub3_subscriptions =
          map (\<lambda>t. \<lparr>st_topic_filter = ts_topic_filter t, st_qos = ts_qos t\<rparr>) (sc_subscriptions command)\<rparr>)"

definition unsubscribe_packet :: "MqttEngine \<Rightarrow> u16 \<Rightarrow> UnsubscribeCommand \<Rightarrow> MqttPacket" where
  "unsubscribe_packet s pid command =
     (if mqtt_version s = 5 then
        P_Unsubscribe5 \<lparr>unsub_packet_id = pid, unsub_topic_filters = uc_topics command,
          unsub_properties = uc_properties command\<rparr>
      else P_Unsubscribe3 \<lparr>unsub3_message_id = pid, unsub3_topic_filters = uc_topics command\<rparr>)"

text \<open>The end of the four commands: the identifier is reserved and its deadline started.\<close>

definition started :: "OperationKind \<Rightarrow> u16 \<Rightarrow> MqttEngine \<Rightarrow> string + MqttEngine" where
  "started operation pid s =
     start_deadline operation (Some pid)
       (me_state_update (\<lambda>st. st\<lparr>ps_reserved := insert pid (ps_reserved st)\<rparr>) s)"

definition send_tracked :: "OperationKind \<Rightarrow> u16 \<Rightarrow> MqttPacket \<Rightarrow> MqttEngine \<Rightarrow> u16 cres eng" where
  "send_tracked operation pid packet s =
     stepE (Inr (enqueue_packet_inner packet s)) (\<lambda>_ s.
     stepE (inflightE (push_at pid packet 1 (me_now s) (me_inflight_queue s)) s) (\<lambda>_ s.
     tryE (started operation pid s) (\<lambda>s. Inr (Inr pid, s))))"

definition encode_tracked ::
  "OperationKind \<Rightarrow> u16 \<Rightarrow> MqttPacket \<Rightarrow> u64 option \<Rightarrow> MqttEngine \<Rightarrow> (u16 \<times> bytes) cres eng" where
  "encode_tracked operation pid packet stream s =
     checkE (map_parse_err (MqttPacket_to_bytes packet)) s (\<lambda>bytes.
     checkE (check_packet_size s bytes) s (\<lambda>_.
     stepE (inflightE (push_with_stream_at pid packet 1 stream (me_now s) (me_inflight_queue s)) s) (\<lambda>_ s.
     tryE (started operation pid s) (\<lambda>s.
     Inr (Inr (pid, bytes), s\<lparr>me_last_packet_sent := me_now s\<rparr>)))))"

definition subscribe_inner :: "SubscribeCommand \<Rightarrow> MqttEngine \<Rightarrow> u16 cres eng" where
  "subscribe_inner command s =
     checkE (ensure_outgoing_allowed s SUBSCRIBE) s (\<lambda>_.
     checkE (require_full_parser s) s (\<lambda>_.
     checkE (validate_subscribe s command) s (\<lambda>_.
     stepE (Inr (candidate_id (sc_packet_id command) s)) (\<lambda>pid s.
     send_tracked Op_Subscribe pid (subscribe_packet s pid command) s))))"

definition unsubscribe_inner :: "UnsubscribeCommand \<Rightarrow> MqttEngine \<Rightarrow> u16 cres eng" where
  "unsubscribe_inner command s =
     checkE (ensure_outgoing_allowed s UNSUBSCRIBE) s (\<lambda>_.
     checkE (require_full_parser s) s (\<lambda>_.
     stepE (Inr (candidate_id (uc_packet_id command) s)) (\<lambda>pid s.
     send_tracked Op_Unsubscribe pid (unsubscribe_packet s pid command) s)))"

definition subscribe_encoded_inner ::
  "SubscribeCommand \<Rightarrow> u64 option \<Rightarrow> MqttEngine \<Rightarrow> (u16 \<times> bytes) cres eng" where
  "subscribe_encoded_inner command stream s =
     checkE (ensure_outgoing_allowed s SUBSCRIBE) s (\<lambda>_.
     checkE (require_full_parser s) s (\<lambda>_.
     checkE (validate_subscribe s command) s (\<lambda>_.
     stepE (Inr (candidate_id (sc_packet_id command) s)) (\<lambda>pid s.
     encode_tracked Op_Subscribe pid (subscribe_packet s pid command) stream s))))"

definition unsubscribe_encoded_inner ::
  "UnsubscribeCommand \<Rightarrow> u64 option \<Rightarrow> MqttEngine \<Rightarrow> (u16 \<times> bytes) cres eng" where
  "unsubscribe_encoded_inner command stream s =
     checkE (ensure_outgoing_allowed s UNSUBSCRIBE) s (\<lambda>_.
     checkE (require_full_parser s) s (\<lambda>_.
     stepE (Inr (candidate_id (uc_packet_id command) s)) (\<lambda>pid s.
     encode_tracked Op_Unsubscribe pid (unsubscribe_packet s pid command) stream s)))"

section \<open>Disconnecting, authenticating, pinging\<close>

definition client_disconnect_reason :: "u8 \<Rightarrow> bool" where
  "client_disconnect_reason c \<longleftrightarrow> c = 0 \<or> c = 4 \<or> (0x80 \<le> c \<and> c \<le> 0x83) \<or> c = 0x90 \<or> (0x93 \<le> c \<and> c \<le> 0x99)"

definition extends_session :: "Property \<Rightarrow> bool" where
  "extends_session p = (case p of SessionExpiryInterval v \<Rightarrow> v \<noteq> 0 | _ \<Rightarrow> False)"

definition try_disconnect_with_inner :: "u8 \<Rightarrow> Property list \<Rightarrow> MqttEngine \<Rightarrow> unit cres eng" where
  "try_disconnect_with_inner reason_code properties s =
     (if \<not> client_disconnect_reason reason_code
      then Inr (Inl (InvalidConfiguration ''DISCONNECT reason code'' ''Not a client DISCONNECT reason code''), s)
      else if mqtt_version s \<noteq> 5 \<and> (reason_code \<noteq> 0 \<or> properties \<noteq> [])
      then Inr (Inl (InvalidConfiguration ''DISCONNECT'' ''Reason codes and properties require MQTT 5''), s)
      else if ps_session_expiry (me_state s) = 0 \<and> list_ex extends_session properties
      then Inr (Inl (ProtocolViolation ''DISCONNECT cannot extend a zero session expiry interval''), s)
      else if \<not> me_is_connected s
      then tryE (close_input (s\<lparr>me_next_reconnect_at := None\<rparr>)) (\<lambda>s. Inr (Inr (), s))
      else
        let packet = (if mqtt_version s = 5
              then P_Disconnect5 \<lparr>disc_reason_code = reason_code, disc_properties = properties\<rparr>
              else P_Disconnect3)
        in stepE (Inr (enqueue_packet_inner packet s)) (\<lambda>_ s.
           tryE (close_input (s\<lparr>me_next_reconnect_at := None\<rparr>)) (\<lambda>s. Inr (Inr (), s))))"

definition try_disconnect_inner :: "MqttEngine \<Rightarrow> unit cres eng" where
  "try_disconnect_inner s = try_disconnect_with_inner 0 [] s"

definition auth_methods :: "Property list \<Rightarrow> str list" where
  "auth_methods ps = List.map_filter (\<lambda>p. case p of AuthenticationMethod v \<Rightarrow> Some v | _ \<Rightarrow> None) ps"

text \<open>\<open>iter().find_map\<close> of the authentication method.\<close>

definition find_auth_method :: "Property list \<Rightarrow> str option" where
  "find_auth_method ps = (case auth_methods ps of [] \<Rightarrow> None | m # _ \<Rightarrow> Some m)"

definition try_auth_inner :: "u8 \<Rightarrow> Property list \<Rightarrow> MqttEngine \<Rightarrow> unit cres eng" where
  "try_auth_inner reason_code properties s =
     (if mqtt_version s \<noteq> 5 \<or> (reason_code \<noteq> 0x18 \<and> reason_code \<noteq> 0x19)
      then Inr (Inl (InvalidConfiguration ''AUTH''
                       ''Client AUTH requires MQTT 5 and reason code 0x18 or 0x19''), s)
      else case find_auth_method (o_connect_properties (me_options s)) of
        None \<Rightarrow> Inr (Inl (InvalidConfiguration ''AUTH'' ''CONNECT must specify an authentication method''), s)
      | Some m \<Rightarrow>
          if list_ex (\<lambda>v. v \<noteq> m) (auth_methods properties)
          then Inr (Inl (ProtocolViolation ''Authentication method cannot change during a connection''), s)
          else
            let valid_state = (if reason_code = 0x19
                  then me_is_connected s \<and> \<not> ps_reauthenticating (me_state s)
                  else ps_connecting (me_state s) \<or> ps_reauthenticating (me_state s))
            in if \<not> valid_state \<or> ps_input_closed (me_state s)
               then Inr (Inl (ProtocolViolation ''AUTH is not valid in the current authentication state''), s)
               else
                 let properties = (if auth_methods properties = []
                       then AuthenticationMethod m # properties else properties)
                 in stepE (Inr (enqueue_packet_inner
                       (P_Auth \<lparr>auth_reason_code = reason_code, auth_properties = properties\<rparr>) s)) (\<lambda>_ s.
                    Inr (Inr (), if reason_code = 0x19
                      then me_state_update (\<lambda>st. st\<lparr>ps_reauthenticating := True\<rparr>) s else s)))"

definition pingreq_packet :: "MqttEngine \<Rightarrow> MqttPacket" where
  "pingreq_packet s = (if mqtt_version s = 5 then P_PingReq5 else P_PingReq3)"

definition send_ping_inner_at :: "Timestamp \<Rightarrow> MqttEngine \<Rightarrow> unit cres \<times> MqttEngine" where
  "send_ping_inner_at now s =
     (case enqueue_packet_inner (pingreq_packet s) s of
        (Inl e, s) \<Rightarrow> (Inl e, s)
      | (Inr _, s) \<Rightarrow> (Inr (), s\<lparr>me_last_packet_sent := now, me_ping_sent_at := Some now\<rparr>))"

section \<open>Acknowledging received messages\<close>

text \<open>\<open>kind\<close> is 4 for PUBACK, 5 for PUBREC and 7 for PUBCOMP.\<close>

definition ack_expected :: "u8 \<Rightarrow> ReceiveStage \<Rightarrow> bool" where
  "ack_expected kind stage \<longleftrightarrow> (case stage of
     Stage_Publish q \<Rightarrow> (kind = 4 \<and> q = 1) \<or> (kind = 5 \<and> q = 2)
   | Stage_PubRec \<Rightarrow> kind = 5
   | Stage_PubRel \<Rightarrow> kind = 7)"

definition ack_property :: "Property \<Rightarrow> bool" where
  "ack_property p = (case p of ReasonString _ \<Rightarrow> True | UserProperty _ _ \<Rightarrow> True | _ \<Rightarrow> False)"

definition is_reason_string :: "Property \<Rightarrow> bool" where
  "is_reason_string p = (case p of ReasonString _ \<Rightarrow> True | _ \<Rightarrow> False)"

definition manual_ack_packet ::
  "MqttEngine \<Rightarrow> u16 \<Rightarrow> u8 \<Rightarrow> u8 \<Rightarrow> Property list \<Rightarrow> u64 option \<Rightarrow> MqttPacket cres" where
  "manual_ack_packet s i kind code properties stream =
     (if i = 0 then Inl (InvalidPacketId i)
      else if \<not> (case hm_get (ps_received (me_state s)) (stream, i) of
                   None \<Rightarrow> False | Some stage \<Rightarrow> ack_expected kind stage)
      then Inl (InvalidPacketId i)
      else if mqtt_version s \<noteq> 5 \<and> (code \<noteq> 0 \<or> properties \<noteq> [])
      then Inl (invalid ''acknowledgement'' ''MQTT 3 does not support reason codes or properties'')
      else if (kind = 7 \<and> code \<notin> set [0, 0x92]) \<or>
              (kind \<noteq> 7 \<and> code \<notin> set [0, 0x10, 0x80, 0x83, 0x87, 0x90, 0x91, 0x97, 0x99])
      then Inl (invalid ''acknowledgement'' ''Invalid reason code'')
      else if list_ex (\<lambda>p. \<not> ack_property p) properties \<or> 1 < length (filter is_reason_string properties)
      then Inl (invalid ''acknowledgement'' ''Invalid properties'')
      else
        let ack5 = \<lparr>ack_packet_id = i, ack_reason_code = code, ack_properties = properties\<rparr>;
            ack3 = \<lparr>ack3_message_id = i\<rparr>; v5 = (mqtt_version s = 5)
        in if kind = 4 then Inr (if v5 then P_PubAck5 ack5 else P_PubAck3 ack3)
           else if kind = 5 then Inr (if v5 then P_PubRec5 ack5 else P_PubRec3 ack3)
           else if kind = 7 then Inr (if v5 then P_PubComp5 ack5 else P_PubComp3 ack3)
           else Inl (ClientPanic ''internal error: entered unreachable code''))"

definition commit_receive_ack :: "u16 \<Rightarrow> u8 \<Rightarrow> u8 \<Rightarrow> u64 option \<Rightarrow> MqttEngine \<Rightarrow> MqttEngine" where
  "commit_receive_ack i kind code stream s =
     me_state_update (\<lambda>st.
       let key = (stream, i);
           st = st\<lparr>ps_received_unbound := removeAll key (ps_received_unbound st)\<rparr>
       in if kind = 5 \<and> code < 0x80 then
            (if hm_contains key (ps_received st)
             then st\<lparr>ps_received := hm_insert key Stage_PubRec (ps_received st)\<rparr> else st)
          else st\<lparr>ps_received := hm_remove key (ps_received st),
                  ps_received_on_connection := ps_received_on_connection st - {key},
                  ps_incoming_quota_used := ps_incoming_quota_used st - 1\<rparr>) s"

definition manual_ack :: "u16 \<Rightarrow> u8 \<Rightarrow> u8 \<Rightarrow> Property list \<Rightarrow> MqttEngine \<Rightarrow> unit cres eng" where
  "manual_ack i kind code properties s =
     checkE (manual_ack_packet s i kind code properties None) s (\<lambda>packet.
     stepE (Inr (enqueue_packet_inner packet s)) (\<lambda>_ s.
     Inr (Inr (), commit_receive_ack i kind code None s)))"

definition puback_inner :: "u16 \<Rightarrow> u8 \<Rightarrow> Property list \<Rightarrow> MqttEngine \<Rightarrow> unit cres eng" where
  "puback_inner i code properties s = manual_ack i 4 code properties s"

definition pubrec_inner :: "u16 \<Rightarrow> u8 \<Rightarrow> Property list \<Rightarrow> MqttEngine \<Rightarrow> unit cres eng" where
  "pubrec_inner i code properties s = manual_ack i 5 code properties s"

definition pubcomp_inner :: "u16 \<Rightarrow> u8 \<Rightarrow> Property list \<Rightarrow> MqttEngine \<Rightarrow> unit cres eng" where
  "pubcomp_inner i code properties s = manual_ack i 7 code properties s"

end
