(* ===== verification/Engine_Receive.thy ===== *)
theory Engine_Receive
  imports Engine_Commands
begin

text \<open>
  What the protocol engine does with incoming packets (\<open>src/src/mqtt_client/engine.rs\<close> and
  \<open>engine/protocol_state.rs\<close>): checks against the state of the connection, received messages and
  their acknowledgements, acknowledgements of own messages, session resumption, and the packets of
  the reduced parser levels.
\<close>

declare map_of_eq_Some_iff [simp del] Some_eq_map_of_iff [simp del]

section \<open>Admission\<close>

definition accept_incoming :: "ControlPacketType \<Rightarrow> MqttEngine \<Rightarrow> bool eng" where
  "accept_incoming pt s =
     (if ps_input_closed (me_state s) then Inr (False, s)
      else
        let valid = (case pt of
              CONNACK \<Rightarrow> ps_connecting (me_state s) \<and> \<not> me_is_connected s
            | AUTH \<Rightarrow> me_is_connected s \<or> (mqtt_version s = 5 \<and> ps_connecting (me_state s))
            | DISCONNECT \<Rightarrow> me_is_connected s \<or> (mqtt_version s = 5 \<and> ps_connecting (me_state s))
            | _ \<Rightarrow> me_is_connected s)
        in if \<not> valid then
             tryE (fail_connection (ProtocolViolation ''Unexpected packet in the current connection state'') s)
               (\<lambda>s. Inr (False, s))
           else Inr (True, s))"

definition min_option :: "nat option \<Rightarrow> nat option \<Rightarrow> nat option" where
  "min_option a b = (case a of None \<Rightarrow> b | Some x \<Rightarrow> (case b of None \<Rightarrow> a | Some y \<Rightarrow> Some (min x y)))"

definition max_packet_property :: "Property \<Rightarrow> nat option" where
  "max_packet_property p = (case p of MaximumPacketSize v \<Rightarrow> Some (unat v) | _ \<Rightarrow> None)"

definition validate_input_buffer :: "MqttClientOptions \<Rightarrow> bytes \<Rightarrow> unit cres" where
  "validate_input_buffer opts bytes =
     (if (case o_max_incoming_buffer_bytes opts of None \<Rightarrow> False | Some capacity \<Rightarrow> capacity < length bytes)
      then Inl (BufferFull ''incoming bytes'' (the (o_max_incoming_buffer_bytes opts)))
      else
        let advertised = (case o_maximum_packet_size opts of
              Some v \<Rightarrow> Some (unat v)
            | None \<Rightarrow> (case List.map_filter max_packet_property (o_connect_properties opts) of
                        [] \<Rightarrow> None | v # _ \<Rightarrow> Some v))
        in case min_option (o_max_incoming_packet_size opts) advertised of
             None \<Rightarrow> Inr ()
           | Some capacity \<Rightarrow>
               if 2 \<le> length bytes then
                 (case parse_vbi (drop 1 bytes) of
                    Inl _ \<Rightarrow> Inr ()
                  | Inr (len, n) \<Rightarrow>
                      if capacity < len + n + 1 then Inl (BufferFull ''incoming packet'' capacity)
                      else Inr ())
               else Inr ())"

section \<open>Received messages\<close>

definition received_key :: "ProtocolState \<Rightarrow> exchange_key \<Rightarrow> exchange_key option" where
  "received_key st key =
     (if hm_contains key (ps_received st) then Some key
      else List.find (\<lambda>k. snd k = snd key) (ps_received_unbound st))"

definition bind_received :: "exchange_key \<Rightarrow> exchange_key \<Rightarrow> ProtocolState \<Rightarrow> ProtocolState" where
  "bind_received previous key st =
     (let st = st\<lparr>ps_received_unbound := removeAll previous (ps_received_unbound st)\<rparr> in
      if previous \<noteq> key then
        (case hm_get (ps_received st) previous of
           None \<Rightarrow> st
         | Some stage \<Rightarrow> st\<lparr>ps_received := hm_insert key stage (hm_remove previous (ps_received st))\<rparr>)
      else st)"

text \<open>The message with its topic resolved, and the aliases it defines.\<close>

definition resolve_incoming :: "Publish5 \<Rightarrow> ProtocolState \<Rightarrow> Publish5 cres \<times> ProtocolState" where
  "resolve_incoming publish st =
     (let aliases = topic_aliases (pub_properties publish);
          done = (\<lambda>publish st.
            if pub_topic_name publish = []
            then (Inl (invalid ''PUBLISH'' ''Empty topic without a defined alias''), st)
            else (Inr publish, st))
      in case aliases of
           [] \<Rightarrow> done publish st
         | alias # others \<Rightarrow>
             if others \<noteq> [] \<or> alias = 0 \<or> ps_incoming_alias_maximum st < alias
             then (Inl (invalid ''Topic Alias'' ''Invalid incoming alias''), st)
             else if pub_topic_name publish = [] then
               (case hm_get (ps_incoming_aliases st) alias of
                  None \<Rightarrow> (Inl (invalid ''Topic Alias'' ''Undefined incoming alias''), st)
                | Some topic \<Rightarrow> done (publish\<lparr>pub_topic_name := topic\<rparr>) st)
             else done publish (st\<lparr>ps_incoming_aliases :=
                    hm_insert alias (pub_topic_name publish) (ps_incoming_aliases st)\<rparr>))"

definition receive_publish ::
  "u8 \<Rightarrow> u16 option \<Rightarrow> u64 option \<Rightarrow> ProtocolState \<Rightarrow> bool cres \<times> ProtocolState" where
  "receive_publish qos pid stream st =
     (case (if 0 < qos then pid else None) of
        None \<Rightarrow> (Inr True, st)
      | Some i \<Rightarrow>
          if i = 0 then (Inl (InvalidPacketId i), st)
          else
            let key = (stream, i); previous = received_key st key in
            if (case Option.bind previous (hm_get (ps_received st)) of
                  None \<Rightarrow> False | Some stage \<Rightarrow> (qos = 1) \<noteq> (stage = Stage_Publish 1))
            then (Inl (InvalidPacketId i), st)
            else if key \<notin> ps_received_on_connection st \<and>
                    unat (ps_incoming_receive_maximum st) \<le> ps_incoming_quota_used st
            then (Inl (ProtocolViolation ''Incoming Receive Maximum exceeded''), st)
            else
              let st = (if key \<notin> ps_received_on_connection st
                    then st\<lparr>ps_received_on_connection := insert key (ps_received_on_connection st),
                            ps_incoming_quota_used := ps_incoming_quota_used st + 1\<rparr>
                    else st)
              in case previous of
                   Some previous \<Rightarrow> (Inr False, bind_received previous key st)
                 | None \<Rightarrow> (Inr True, st\<lparr>ps_received := hm_insert key (Stage_Publish qos) (ps_received st)\<rparr>))"

type_synonym reaction = "MqttEvent list \<times> MqttPacket list"

definition receive_message :: "Publish5 \<Rightarrow> u64 option \<Rightarrow> MqttEngine \<Rightarrow> reaction eng" where
  "receive_message publish stream s =
     (case resolve_incoming publish (me_state s) of
        (Inl error, st) \<Rightarrow> failed_with [] error (s\<lparr>me_state := st\<rparr>)
      | (Inr publish, st) \<Rightarrow>
          let qos = pub_qos publish; pid = pub_packet_id publish in
          (case receive_publish qos pid stream st of
             (Inl error, st) \<Rightarrow> failed_with [] error (s\<lparr>me_state := st\<rparr>)
           | (Inr deliver, st) \<Rightarrow>
               let s = s\<lparr>me_state := st\<rparr>;
                   events = (if deliver then [PublishReceived pid stream, MessageReceived publish] else [])
               in case (if 0 < qos then pid else None) of
                    None \<Rightarrow> Inr ((events, []), s)
                  | Some i \<Rightarrow>
                      let already_acknowledged =
                            (hm_get (ps_received (me_state s)) (stream, i) = Some Stage_PubRec)
                      in if o_auto_ack (me_options s) \<or> already_acknowledged then
                           let kind = (if qos = 1 then 4 else 5) in
                           (case manual_ack_packet s i kind 0 [] stream of
                              Inr packet \<Rightarrow> Inr ((events, [packet]), commit_receive_ack i kind 0 stream s)
                            | Inl error \<Rightarrow> Inr ((events @ [EventError error], []), s))
                         else Inr ((events, []), s)))"

text \<open>The \<open>match\<close> of \<open>receive_pubrel\<close>: the reason code of the answer and the advanced exchange.\<close>

definition advance_pubrel :: "u8 \<Rightarrow> exchange_key \<Rightarrow> ProtocolState \<Rightarrow> (u8 \<times> ProtocolState) option" where
  "advance_pubrel version key st =
     (case received_key st key of
        None \<Rightarrow>
          if \<not> list_ex (\<lambda>(k, _). snd k = snd key) (ps_received st)
          then Some (if version = 5 then 0x92 else 0,
                     st\<lparr>ps_received := hm_insert key Stage_PubRel (ps_received st)\<rparr>)
          else None
      | Some previous \<Rightarrow>
          if hm_get (ps_received st) previous = Some Stage_PubRec \<or>
             hm_get (ps_received st) previous = Some Stage_PubRel
          then let st = bind_received previous key st
               in Some (0, st\<lparr>ps_received := hm_insert key Stage_PubRel (ps_received st)\<rparr>)
          else None)"

definition receive_pubrel :: "u16 \<Rightarrow> u64 option \<Rightarrow> MqttEngine \<Rightarrow> reaction eng" where
  "receive_pubrel i stream s =
     (if i = 0 then failed_with [] (InvalidPacketId i) s
      else case advance_pubrel (mqtt_version s) (stream, i) (me_state s) of
        None \<Rightarrow> Inr (([EventError (InvalidPacketId i)], []), s)
      | Some (code, st) \<Rightarrow>
          let s = s\<lparr>me_state := st\<rparr>; events = [PubRelReceived i stream] in
          if o_auto_ack (me_options s) then
            tryE (expect_ok ''validated PUBREL state'' (manual_ack_packet s i 7 code [] stream)) (\<lambda>packet.
            Inr ((events, [packet]), commit_receive_ack i 7 code stream s))
          else Inr ((events, []), s))"

section \<open>Acknowledgements of own messages\<close>

definition ack_of :: "MqttPacket \<Rightarrow> (u16 \<times> u8) option" where
  "ack_of packet = (case packet of
     P_PubAck5 p \<Rightarrow> Some (ack_packet_id p, 4) | P_PubAck3 p \<Rightarrow> Some (ack3_message_id p, 4)
   | P_PubRec5 p \<Rightarrow> Some (ack_packet_id p, 5) | P_PubRec3 p \<Rightarrow> Some (ack3_message_id p, 5)
   | P_PubComp5 p \<Rightarrow> Some (ack_packet_id p, 7) | P_PubComp3 p \<Rightarrow> Some (ack3_message_id p, 7)
   | P_SubAck5 p \<Rightarrow> Some (suback_packet_id p, 9) | P_SubAck3 p \<Rightarrow> Some (suback3_message_id p, 9)
   | P_UnsubAck5 p \<Rightarrow> Some (suback_packet_id p, 11) | P_UnsubAck3 p \<Rightarrow> Some (ack3_message_id p, 11)
   | _ \<Rightarrow> None)"

definition ack_fits :: "MqttPacket \<Rightarrow> u8 \<Rightarrow> bool" where
  "ack_fits sent kind \<longleftrightarrow> (case sent of
     P_Publish5 p \<Rightarrow> (kind = 4 \<or> kind = 5) \<and> pub_qos p = (if kind = 4 then 1 else 2)
   | P_Publish3 p \<Rightarrow> (kind = 4 \<or> kind = 5) \<and> pub3_qos p = (if kind = 4 then 1 else 2)
   | P_PubRel5 _ \<Rightarrow> kind = 5 \<or> kind = 7
   | P_PubRel3 _ \<Rightarrow> kind = 5 \<or> kind = 7
   | P_Subscribe5 _ \<Rightarrow> kind = 9
   | P_Subscribe3 _ \<Rightarrow> kind = 9
   | P_Unsubscribe5 _ \<Rightarrow> kind = 11
   | P_Unsubscribe3 _ \<Rightarrow> kind = 11
   | _ \<Rightarrow> False)"

definition suback_counts :: "MqttPacket \<Rightarrow> MqttPacket \<Rightarrow> (nat \<times> nat) option" where
  "suback_counts sent packet = (case (sent, packet) of
     (P_Subscribe3 sent, P_SubAck3 ack) \<Rightarrow>
       Some (length (sub3_subscriptions sent), length (suback3_return_codes ack))
   | (P_Subscribe5 sent, P_SubAck5 ack) \<Rightarrow>
       Some (length (sub_subscriptions sent), length (suback_reason_codes ack))
   | _ \<Rightarrow> None)"

definition validate_ack :: "MqttEngine \<Rightarrow> MqttPacket \<Rightarrow> u64 option \<Rightarrow> unit cres" where
  "validate_ack s packet stream =
     (case ack_of packet of
        None \<Rightarrow> Inr ()
      | Some (i, kind) \<Rightarrow>
          (case iq_get i (me_inflight_queue s) of
             None \<Rightarrow> Inl (InvalidPacketId i)
           | Some entry \<Rightarrow>
               if \<not> ack_fits (ie_packet entry) kind \<or> ie_stream entry \<noteq> stream
               then Inl (InvalidPacketId i)
               else (case suback_counts (ie_packet entry) packet of
                       None \<Rightarrow> Inr ()
                     | Some (expected, actual) \<Rightarrow>
                         if expected \<noteq> actual
                         then Inl (ProtocolViolation ''SUBACK has wrong number of results'')
                         else Inr ())))"

text \<open>\<open>acknowledge\<close> and \<open>finish_operation\<close> of the arms that complete a publication.\<close>

definition published ::
  "u16 \<Rightarrow> u8 \<Rightarrow> Property list option \<Rightarrow> MqttEngine \<Rightarrow> MqttEvent list \<times> MqttEngine" where
  "published i code properties s =
     (case acknowledge i (me_inflight_queue s) of
        (None, q) \<Rightarrow> ([], s\<lparr>me_inflight_queue := q\<rparr>)
      | (Some entry, q) \<Rightarrow>
          ([Published \<lparr>pr_packet_id = Some i, pr_reason_code = Some code, pr_properties = properties,
              pr_qos = ie_qos entry\<rparr>],
           finish_operation i (s\<lparr>me_inflight_queue := q\<rparr>)))"

definition completed :: "u16 \<Rightarrow> MqttEngine \<Rightarrow> MqttEngine" where
  "completed i s = finish_operation i (s\<lparr>me_inflight_queue := snd (acknowledge i (me_inflight_queue s))\<rparr>)"

definition pubrec_received :: "u16 \<Rightarrow> MqttPacket \<Rightarrow> MqttEngine \<Rightarrow> reaction eng" where
  "pubrec_received i rel s =
     tryE (expect_ok ''validated engine time'' (transition_pubrel_at i rel (me_now s) (me_inflight_queue s))) (\<lambda>q.
     Inr (([], [rel]), s\<lparr>me_inflight_queue := q\<rparr>))"

definition auth_received :: "u8 \<Rightarrow> Property list \<Rightarrow> MqttEngine \<Rightarrow> (MqttEvent option) eng" where
  "auth_received reason_code properties s =
     (let expected = find_auth_method (o_connect_properties (me_options s));
          methods = auth_methods properties;
          valid_state = (if reason_code = 0 then me_is_connected s \<and> ps_reauthenticating (me_state s)
            else if reason_code = 0x18 then ps_connecting (me_state s) \<or> ps_reauthenticating (me_state s)
            else False)
      in if expected = None \<or> \<not> valid_state \<or> length methods \<noteq> 1 \<or> Some (hd methods) \<noteq> expected
         then tryE (fail_connection (ProtocolViolation
                ''Server AUTH must use the CONNECT authentication method during an active authentication exchange'') s)
                (\<lambda>s. Inr (None, s))
         else Inr (Some (AuthReceived \<lparr>ar_reason_code = reason_code, ar_properties = properties\<rparr>),
                   if reason_code = 0
                   then me_state_update (\<lambda>st. st\<lparr>ps_reauthenticating := False\<rparr>) s else s))"

section \<open>Session resumption\<close>

definition is_pubrel :: "MqttPacket \<Rightarrow> bool" where
  "is_pubrel p = (case p of P_PubRel3 _ \<Rightarrow> True | P_PubRel5 _ \<Rightarrow> True | _ \<Rightarrow> False)"

text \<open>The stable \<open>sort_by_key\<close> on a Boolean key.\<close>

definition pubrel_first :: "(u16 \<times> MqttPacket) list \<Rightarrow> (u16 \<times> MqttPacket) list" where
  "pubrel_first previous =
     filter (is_pubrel \<circ> snd) previous @ filter (\<lambda>e. \<not> is_pubrel (snd e)) previous"

definition restore_entry :: "bool \<Rightarrow> u16 \<times> MqttPacket \<Rightarrow> MqttEngine \<Rightarrow> MqttEngine" where
  "restore_entry replay_unacknowledged e s =
     (let (i, packet) = e in
      if replay_unacknowledged \<and> is_quota_packet packet then
        s\<lparr>me_inflight_queue := snd (acknowledge i (me_inflight_queue s)),
          me_session_replay := me_session_replay s @ [(i, canonical (set_dup True packet))]\<rparr>
      else fail_operation i packet SessionExpired s)"

definition resumed :: "bool \<Rightarrow> MqttEngine \<Rightarrow> bool" where
  "resumed session_present s \<longleftrightarrow> session_present \<and> \<not> o_sessionless (me_options s)"

definition replays_unacknowledged :: "bool \<Rightarrow> MqttEngine \<Rightarrow> bool" where
  "replays_unacknowledged session_present s \<longleftrightarrow> resumed session_present s \<or>
     (mqtt_version s \<noteq> 5 \<and> \<not> o_clean_start (me_options s) \<and> \<not> o_sessionless (me_options s))"

text \<open>The loop over the exchanges of the previous connection.\<close>

definition restore_previous :: "bool \<Rightarrow> MqttEngine \<Rightarrow> MqttEngine" where
  "restore_previous replay s =
     fold (restore_entry replay)
       (if replay then pubrel_first (me_previous_inflight s) else me_previous_inflight s)
       (s\<lparr>me_previous_inflight := []\<rparr>)"

text \<open>The branch for a session that is not resumed.\<close>

definition fresh_session :: "MqttEvent list \<Rightarrow> MqttEngine \<Rightarrow> (MqttEvent list) eng" where
  "fresh_session events s =
     (let s = me_state_update (\<lambda>st. st\<lparr>ps_received := [], ps_received_unbound := []\<rparr>) s;
          topics = o_subscription_topics (me_options s)
      in if me_transport_manages_session s
         then Inr (events, s\<lparr>me_configured_subscriptions_pending := (topics \<noteq> [])\<rparr>)
         else if topics \<noteq> [] then
           tryE (subscribe_inner \<lparr>sc_packet_id = None, sc_subscriptions = topics, sc_properties = []\<rparr> s)
             (\<lambda>(r, s). Inr (case r of Inl error \<Rightarrow> events @ [EventError error] | Inr _ \<Rightarrow> events, s))
         else Inr (events, s))"

definition restore_session :: "bool \<Rightarrow> MqttEvent list \<Rightarrow> MqttEngine \<Rightarrow> (MqttEvent list) eng" where
  "restore_session session_present events s =
     (let is_resumed = resumed session_present s;
          s = restore_previous (replays_unacknowledged session_present s) s
      in
      tryE (if \<not> is_resumed then fresh_session events s else Inr (events, s)) (\<lambda>(events, s).
      tryE (process_replay s) (\<lambda>s. Inr (events, s))))"

section \<open>Dispatch\<close>

definition connack_refused :: "MqttClientError" where
  "connack_refused = ProtocolViolation ''CONNACK reports Session Present without local session state''"

text \<open>The end of both CONNACK arms.\<close>

definition connected :: "u8 \<Rightarrow> bool \<Rightarrow> Property list option \<Rightarrow> MqttEngine \<Rightarrow> MqttEvent list \<times> MqttEngine" where
  "connected code session_present properties s =
     (let s = s\<lparr>me_is_connected := (code = 0)\<rparr>;
          s = (if code = 0
               then reset_reconnect_state (me_state_update (\<lambda>st. st\<lparr>ps_has_session := True\<rparr>) s) else s)
      in ([Connected \<lparr>cr_reason_code = code, cr_session_present = session_present,
             cr_properties = properties\<rparr>], s))"

definition resume :: "bool \<Rightarrow> MqttEvent list \<Rightarrow> MqttEngine \<Rightarrow> reaction eng" where
  "resume session_present events s =
     (if me_is_connected s
      then tryE (restore_session session_present events s) (\<lambda>(events, s). Inr ((events, []), s))
      else tryE (handle_connection_lost_inner s) (\<lambda>s. Inr ((events, []), s)))"

definition handshake_over :: "MqttEngine \<Rightarrow> MqttEngine" where
  "handshake_over s = me_state_update (\<lambda>st. st\<lparr>ps_connecting := False,
     ps_deadlines := hm_remove (Op_Connect, None) (ps_deadlines st)\<rparr>) s"

definition receive_maximum_of :: "Property list \<Rightarrow> u16 option" where
  "receive_maximum_of ps =
     (case List.map_filter (\<lambda>p. case p of ReceiveMaximum v \<Rightarrow> Some v | _ \<Rightarrow> None) ps of
        [] \<Rightarrow> None | v # _ \<Rightarrow> Some v)"

definition connack5_received :: "ConnAck5 \<Rightarrow> MqttEngine \<Rightarrow> reaction eng" where
  "connack5_received ack s =
     (if ca_session_present ack \<and> \<not> ps_has_session (me_state s) then failed_with [] connack_refused s
      else
        let expected = find_auth_method (o_connect_properties (me_options s));
            properties = unwrap_or_default (ca_properties ack);
            received = find_auth_method properties
        in if (ca_reason_code ack = 0 \<and> received \<noteq> expected) \<or> (expected = None \<and> received \<noteq> None)
           then failed_with [] (ProtocolViolation ''CONNACK authentication method does not match CONNECT'') s
           else
             (case negotiate properties (handshake_over s) of
                (Inl error, s) \<Rightarrow> failed_with [] error s
              | (Inr _, s) \<Rightarrow>
                  let (events, s) = connected (ca_reason_code ack) (ca_session_present ack) (ca_properties ack) s;
                      s = (case receive_maximum_of properties of
                             None \<Rightarrow> s
                           | Some m \<Rightarrow> s\<lparr>me_inflight_queue :=
                               update_receive_maximum (min m (o_receive_maximum (me_options s)))
                                 (me_inflight_queue s)\<rparr>)
                  in resume (ca_session_present ack) events s))"

definition connack3_received :: "ConnAck3 \<Rightarrow> MqttEngine \<Rightarrow> reaction eng" where
  "connack3_received ack s =
     (if ca3_session_present ack \<and> \<not> ps_has_session (me_state s) then failed_with [] connack_refused s
      else
        let (events, s) = connected (ca3_return_code ack) (ca3_session_present ack) None (handshake_over s)
        in resume (ca3_session_present ack) events s)"

definition dispatch_packet :: "MqttPacket \<Rightarrow> u64 option \<Rightarrow> MqttEngine \<Rightarrow> reaction eng" where
  "dispatch_packet packet stream s = (case packet of
     P_ConnAck5 ack \<Rightarrow> connack5_received ack s
   | P_ConnAck3 ack \<Rightarrow> connack3_received ack s
   | P_PubAck5 ack \<Rightarrow>
       let (events, s) = published (ack_packet_id ack) (ack_reason_code ack) (Some (ack_properties ack)) s
       in Inr ((events, []), s)
   | P_PubAck3 ack \<Rightarrow> let (events, s) = published (ack3_message_id ack) 0 None s in Inr ((events, []), s)
   | P_Publish5 p \<Rightarrow> receive_message p stream s
   | P_Publish3 p \<Rightarrow>
       receive_message \<lparr>pub_topic_name = pub3_topic_name p, pub_qos = pub3_qos p, pub_dup = pub3_dup p,
         pub_retain = pub3_retain p, pub_packet_id = pub3_message_id p, pub_payload = pub3_payload p,
         pub_properties = []\<rparr> stream s
   | P_SubAck5 ack \<Rightarrow>
       Inr (([Subscribed \<lparr>kr_packet_id = suback_packet_id ack, kr_reason_codes = suback_reason_codes ack,
               kr_properties = suback_properties ack\<rparr>], []), completed (suback_packet_id ack) s)
   | P_SubAck3 ack \<Rightarrow>
       Inr (([Subscribed \<lparr>kr_packet_id = suback3_message_id ack, kr_reason_codes = suback3_return_codes ack,
               kr_properties = []\<rparr>], []), completed (suback3_message_id ack) s)
   | P_UnsubAck5 ack \<Rightarrow>
       Inr (([Unsubscribed \<lparr>kr_packet_id = suback_packet_id ack, kr_reason_codes = suback_reason_codes ack,
               kr_properties = suback_properties ack\<rparr>], []), completed (suback_packet_id ack) s)
   | P_UnsubAck3 ack \<Rightarrow>
       Inr (([Unsubscribed \<lparr>kr_packet_id = ack3_message_id ack, kr_reason_codes = [],
               kr_properties = []\<rparr>], []), completed (ack3_message_id ack) s)
   | P_PingResp5 \<Rightarrow> Inr (([PingResponse True], []), s\<lparr>me_ping_sent_at := None\<rparr>)
   | P_PingResp3 \<Rightarrow> Inr (([PingResponse True], []), s\<lparr>me_ping_sent_at := None\<rparr>)
   | P_PubRec5 rec \<Rightarrow>
       if 0x80 \<le> ack_reason_code rec then
         let (events, s) = published (ack_packet_id rec) (ack_reason_code rec) (Some (ack_properties rec)) s
         in Inr ((events, []), s)
       else pubrec_received (ack_packet_id rec)
              (P_PubRel5 \<lparr>ack_packet_id = ack_packet_id rec, ack_reason_code = 0, ack_properties = []\<rparr>) s
   | P_PubRec3 rec \<Rightarrow>
       pubrec_received (ack3_message_id rec) (P_PubRel3 \<lparr>ack3_message_id = ack3_message_id rec\<rparr>) s
   | P_PubRel5 rel \<Rightarrow> receive_pubrel (ack_packet_id rel) stream s
   | P_PubRel3 rel \<Rightarrow> receive_pubrel (ack3_message_id rel) stream s
   | P_PubComp5 c \<Rightarrow>
       let (events, s) = published (ack_packet_id c) (ack_reason_code c) (Some (ack_properties c)) s
       in Inr ((events, []), s)
   | P_PubComp3 c \<Rightarrow> let (events, s) = published (ack3_message_id c) 0 None s in Inr ((events, []), s)
   | P_Auth auth \<Rightarrow>
       tryE (auth_received (auth_reason_code auth) (auth_properties auth) s) (\<lambda>(event, s).
       Inr ((case event of None \<Rightarrow> [] | Some e \<Rightarrow> [e], []), s))
   | P_Disconnect5 d \<Rightarrow>
       tryE (handle_connection_lost_inner s) (\<lambda>s.
       Inr (([DisconnectReceived (disc_reason_code d) (disc_properties d)], []), s))
   | _ \<Rightarrow> Inr (([], []), s))"

definition is_violation :: "MqttClientError \<Rightarrow> bool" where
  "is_violation e = (case e of ProtocolViolation _ \<Rightarrow> True | _ \<Rightarrow> False)"

definition handle_packet :: "MqttPacket \<Rightarrow> u64 option \<Rightarrow> MqttEngine \<Rightarrow> reaction eng" where
  "handle_packet packet stream s =
     tryE (accept_incoming (MqttPacket_packet_type packet) s) (\<lambda>(accepted, s).
     if \<not> accepted then let (events, s) = take_events s in Inr ((events, []), s)
     else case validate_ack s packet stream of
       Inl error \<Rightarrow>
         if mqtt_version s \<noteq> 5 \<or> is_violation error then failed_with [] error s
         else Inr (([EventError error], []), s)
     | Inr _ \<Rightarrow> dispatch_packet packet stream s)"

section \<open>Reduced parser levels\<close>

type_synonym reduced_reaction = "MqttEvent option \<times> MqttPacket option"

definition type_only_received :: "TypeOnlyPacket \<Rightarrow> u64 option \<Rightarrow> MqttEngine \<Rightarrow> reduced_reaction eng" where
  "type_only_received packet stream s = (case to_packet_type packet of
     PUBLISH \<Rightarrow>
       let qos = and (drop_bit 1 (to_flags packet)) 3 in
       Inr ((Some (if qos = 0 then PublishReceived None stream
                   else EventError (ProtocolViolation ''type-only parser cannot acknowledge incoming PUBLISH'')),
             None), s)
   | PINGRESP \<Rightarrow> Inr ((Some (PingResponse True), None), s\<lparr>me_ping_sent_at := None\<rparr>)
   | DISCONNECT \<Rightarrow>
       tryE (handle_connection_lost_inner s) (\<lambda>s. Inr ((Some (Disconnected None), None), s))
   | _ \<Rightarrow> Inr ((None, None), s))"

definition headers_received :: "HeadersParsedPacket \<Rightarrow> u64 option \<Rightarrow> MqttEngine \<Rightarrow> reduced_reaction eng" where
  "headers_received packet stream s =
     (let auto = o_auto_ack (me_options s);
          ack5 = (\<lambda>i. \<lparr>ack_packet_id = i, ack_reason_code = 0, ack_properties = []\<rparr>);
          ack3 = (\<lambda>i. \<lparr>ack3_message_id = i\<rparr>)
      in case hp_variable_header packet of
        PublishV5 _ qos _ _ packet_id _ \<Rightarrow>
          Inr ((Some (PublishReceived packet_id stream),
                if auto \<and> qos = 1 then map_option (\<lambda>i. P_PubAck5 (ack5 i)) packet_id
                else if auto \<and> qos = 2 then map_option (\<lambda>i. P_PubRec5 (ack5 i)) packet_id else None), s)
      | PublishV3 _ qos _ _ message_id \<Rightarrow>
          Inr ((Some (PublishReceived message_id stream),
                if auto \<and> qos = 1 then map_option (\<lambda>i. P_PubAck3 (ack3 i)) message_id
                else if auto \<and> qos = 2 then map_option (\<lambda>i. P_PubRec3 (ack3 i)) message_id else None), s)
      | PubRelV5 packet_id _ _ \<Rightarrow>
          Inr ((Some (PubRelReceived packet_id stream),
                if auto then Some (P_PubComp5 (ack5 packet_id)) else None), s)
      | PacketIdOnlyV3 message_id \<Rightarrow>
          if hp_packet_type packet = PUBREL then
            Inr ((Some (PubRelReceived message_id stream),
                  if auto then Some (P_PubComp3 (ack3 message_id)) else None), s)
          else Inr ((None, None), s)
      | EmptyHeader \<Rightarrow>
          if hp_packet_type packet = PINGRESP
          then Inr ((Some (PingResponse True), None), s\<lparr>me_ping_sent_at := None\<rparr>)
          else if hp_packet_type packet = DISCONNECT
          then tryE (handle_connection_lost_inner s) (\<lambda>s. Inr ((Some (Disconnected None), None), s))
          else Inr ((None, None), s)
      | AuthV5 reason_code properties \<Rightarrow>
          tryE (auth_received reason_code properties s) (\<lambda>(event, s). Inr ((event, None), s))
      | DisconnectV5 reason_code properties \<Rightarrow>
          tryE (handle_connection_lost_inner s) (\<lambda>s.
          Inr ((Some (DisconnectReceived reason_code properties), None), s))
      | _ \<Rightarrow> Inr ((None, None), s))"

definition handle_reduced_packet :: "ParsedPacket \<Rightarrow> u64 option \<Rightarrow> MqttEngine \<Rightarrow> reduced_reaction eng" where
  "handle_reduced_packet packet stream s =
     tryE (accept_incoming (ParsedPacket_packet_type packet) s) (\<lambda>(accepted, s).
     if \<not> accepted then Inr ((None, None), s)
     else case packet of
       Parsed_TypeOnly p \<Rightarrow> type_only_received p stream s
     | Parsed_Headers p \<Rightarrow> headers_received p stream s
     | Parsed_RawBody _ \<Rightarrow>
         Inr ((Some (EventError (InvalidState ''Full, HeadersParsed, or TypeOnly parser level''
                 ''RawBody parser level'')), None), s)
     | Parsed_Full _ \<Rightarrow> Inl ''full packets use handle_packet'')"

end
