(* ===== verification/Engine_Steps.thy ===== *)
theory Engine_Steps
  imports Engine_Receive
begin

text \<open>
  Every operation of the engine as a sequence of elementary steps.  A step changes one of the parts
  of the engine that the invariants and the termination arguments look at (its \<open>core\<close>) under the
  condition the code has checked before it, or does not change the core at all.  The cost of a step
  bounds how much it adds to the work that is left: packets in the output, the queues, the responses
  and the messages to replay.  A property that holds of every step then holds of every operation;
  the locale \<open>engine_frame\<close> states this once.
\<close>

declare map_of_eq_Some_iff [simp del] Some_eq_map_of_iff [simp del]

section \<open>Elementary steps\<close>

definition core_options :: "MqttClientOptions \<Rightarrow> MqttClientOptions" where
  "core_options opts = opts\<lparr>o_client_id := [], o_reconnect := False\<rparr>"

definition core where
  "core s = (me_now s, core_options (me_options s), me_priority_queue s, me_is_connected s, me_parser s,
     me_outgoing_buffer s, me_inflight_queue s, me_previous_inflight s, me_session_replay s,
     ps_incoming_quota_used (me_state s), ps_incoming_receive_maximum (me_state s),
     ps_input_closed (me_state s), ps_responses (me_state s),
     (me_reconnect_base_delay s, me_reconnect_max_delay s, me_max_reconnect_attempts s))"

inductive micro :: "int \<Rightarrow> MqttEngine \<Rightarrow> MqttEngine \<Rightarrow> bool" where
  inert: "core s' = core s \<Longrightarrow> micro 0 s s'"
| send: "length (me_outgoing_buffer s) < o_max_outgoing_packet_count (me_options s) \<Longrightarrow>
    micro 1 s (s\<lparr>me_outgoing_buffer := me_outgoing_buffer s @ [b]\<rparr>)"
| pop_response: "ps_responses (me_state s) = p # rest \<Longrightarrow>
    micro (-1) s (me_state_update (\<lambda>st. st\<lparr>ps_responses := rest\<rparr>) s)"
| set_replay: "micro (int (length xs) - int (length (me_session_replay s))) s (s\<lparr>me_session_replay := xs\<rparr>)"
| set_previous: "micro (int (length xs) - int (length (me_previous_inflight s))) s (s\<lparr>me_previous_inflight := xs\<rparr>)"
| unqueue: "dequeue (me_priority_queue s) = (Some x, q) \<Longrightarrow> micro (-1) s (s\<lparr>me_priority_queue := q\<rparr>)"
| queue: "pq_len (me_priority_queue s) < o_max_outgoing_packet_count (me_options s) \<Longrightarrow>
    micro 1 s (s\<lparr>me_priority_queue := enqueue pr p (me_priority_queue s)\<rparr>)"
| canonicalise: "micro 0 s (s\<lparr>me_priority_queue := pq_map_items canonical (me_priority_queue s)\<rparr>)"
| track: "push_with_stream_at i p qos stream (me_now s) (me_inflight_queue s) = Inr q \<Longrightarrow>
    micro 0 s (s\<lparr>me_inflight_queue := q\<rparr>)"
| pubrel: "transition_pubrel_at i p (me_now s) (me_inflight_queue s) = Inr q \<Longrightarrow> is_quota_packet p \<Longrightarrow>
    micro 0 s (s\<lparr>me_inflight_queue := q\<rparr>)"
| untrack: "micro 0 s (s\<lparr>me_inflight_queue := snd (acknowledge i (me_inflight_queue s))\<rparr>)"
| quota: "micro 0 s (s\<lparr>me_inflight_queue := update_receive_maximum r (me_inflight_queue s)\<rparr>)"
| expire: "get_expired_with_stream_at (me_now s) (me_inflight_queue s) = Inr (x, q) \<Longrightarrow>
    micro 0 s (s\<lparr>me_inflight_queue := q\<rparr>)"
| take_quota: "me_is_connected s \<Longrightarrow>
    ps_incoming_quota_used (me_state s) < unat (ps_incoming_receive_maximum (me_state s)) \<Longrightarrow>
    micro 0 s (me_state_update (\<lambda>st. st\<lparr>ps_incoming_quota_used := ps_incoming_quota_used st + 1\<rparr>) s)"
| release_quota:
    "micro 0 s (me_state_update (\<lambda>st. st\<lparr>ps_incoming_quota_used := ps_incoming_quota_used st - 1\<rparr>) s)"
| set_limit: "\<not> me_is_connected s \<Longrightarrow>
    micro 0 s (me_state_update (\<lambda>st. st\<lparr>ps_incoming_receive_maximum := r\<rparr>) s)"
| set_connected: "\<not> me_is_connected s \<Longrightarrow> micro 0 s (s\<lparr>me_is_connected := b\<rparr>)"
| close: "close_input s = Inr s' \<Longrightarrow> micro (- int (length (ps_responses (me_state s)))) s s'"
| clear_output: "micro (- int (length (me_outgoing_buffer s))) s (s\<lparr>me_outgoing_buffer := []\<rparr>)"
| new_parser: "ps_input_closed (me_state s) \<Longrightarrow>
    micro 0 s (s\<lparr>me_parser := MqttParser_new (o_mqtt_version (me_options s))\<rparr>)"

inductive steps :: "int \<Rightarrow> MqttEngine \<Rightarrow> MqttEngine \<Rightarrow> bool" where
  steps_refl: "0 \<le> c \<Longrightarrow> steps c s s"
| steps_step: "steps c s t \<Longrightarrow> micro d t u \<Longrightarrow> steps (c + d) s u"

lemma steps_le: "steps c s t \<Longrightarrow> c \<le> d \<Longrightarrow> steps d s t"
proof (induction arbitrary: d rule: steps.induct)
  case (steps_refl c s)
  then show ?case by (intro steps.steps_refl) simp
next
  case (steps_step c s t e u)
  then have "steps (d - e) s t" by simp
  from steps.steps_step [OF this steps_step.hyps(2)] show ?case by simp
qed

lemma steps_trans: "steps b t u \<Longrightarrow> steps a s t \<Longrightarrow> steps (a + b) s u"
proof (induction arbitrary: a rule: steps.induct)
  case (steps_refl c s')
  then show ?case by (auto elim: steps_le)
next
  case (steps_step c s' t d u)
  then have "steps (a + c) s t" by simp
  from steps.steps_step [OF this steps_step.hyps(2)] show ?case by (simp add: add.assoc)
qed

lemma steps_via: "steps a s t \<Longrightarrow> steps b t u \<Longrightarrow> a + b \<le> c \<Longrightarrow> steps c s u"
  using steps_trans steps_le by blast

lemma micro_steps: "micro d s t \<Longrightarrow> d \<le> c \<Longrightarrow> steps c s t"
  using steps_step [OF steps_refl [of 0 s]] steps_le by force

lemma inert_steps: "core t = core s \<Longrightarrow> 0 \<le> c \<Longrightarrow> steps c s t"
  by (rule micro_steps [OF inert])

lemma steps_then: "steps a s t \<Longrightarrow> micro d t u \<Longrightarrow> a + d \<le> c \<Longrightarrow> steps c s u"
  using steps_step steps_le by blast

lemma steps_then_inert: "steps c s t \<Longrightarrow> core u = core t \<Longrightarrow> steps c s u"
  by (rule steps_then [OF _ inert]) auto

subsection \<open>Losing the connection\<close>

lemma core_finish_operation [simp]: "core (finish_operation i s) = core s"
  by (simp add: core_def finish_operation_def Let_def)

lemma core_push_event [simp]: "core (s\<lparr>me_events := es\<rparr>) = core s"
  by (simp add: core_def)

lemma start_deadline_core: "start_deadline k i s = Inr t \<Longrightarrow> core t = core s"
  by (auto simp: start_deadline_def Let_def core_def split: option.splits)

lemma fail_operation_steps: "steps 0 s (fail_operation i p e s)"
proof -
  let ?t = "s\<lparr>me_inflight_queue := snd (acknowledge i (me_inflight_queue s))\<rparr>"
  have "steps 0 s ?t" by (rule micro_steps [OF untrack]) simp
  then show ?thesis
    by (rule steps_then_inert) (simp add: fail_operation_def Let_def)
qed

lemma fail_all_steps: "steps 0 s (fail_all xs e s)"
proof (induction xs arbitrary: s)
  case (Cons x xs)
  obtain i p where x: "x = (i, p)" by fastforce
  have "steps 0 s (fail_all xs e (fail_operation i p e s))"
    by (rule steps_via [OF fail_operation_steps Cons.IH]) simp
  then show ?case by (simp add: fail_all_def x)
qed (simp add: fail_all_def steps_refl)

lemma closed_by_close_input: "close_input s = Inr t \<Longrightarrow> ps_input_closed (me_state t)"
  by (auto simp: close_input_def)

lemma micro_closed: "micro c s t \<Longrightarrow> ps_input_closed (me_state s) \<Longrightarrow> ps_input_closed (me_state t)"
  by (induction rule: micro.induct) (auto simp: core_def closed_by_close_input)

lemma steps_closed: "steps c s t \<Longrightarrow> ps_input_closed (me_state s) \<Longrightarrow> ps_input_closed (me_state t)"
  by (induction rule: steps.induct) (auto dest: micro_closed)

lemma core_reset_state [simp]: "core (me_state_update (reset_state k n) s) = core s"
  by (simp add: core_def reset_state_def Let_def)

lemma drop_session_steps: "steps 0 s (drop_session s)"
proof -
  let ?a = "me_state_update (\<lambda>st. st\<lparr>ps_has_session := False\<rparr>) s"
  let ?b = "fail_all (snapshot_for_reconnect (me_inflight_queue ?a)) SessionExpired ?a"
  let ?c = "?b\<lparr>me_session_replay := []\<rparr>"
  let ?d = "fail_all (me_session_replay ?b) SessionExpired ?c"
  have "steps 0 s ?a" by (rule inert_steps) (simp_all add: core_def)
  then have "steps 0 s ?b" by (rule steps_via [OF _ fail_all_steps]) simp
  then have "steps 0 s ?c" by (rule steps_then [OF _ set_replay]) simp
  then have "steps 0 s ?d" by (rule steps_via [OF _ fail_all_steps]) simp
  then have "steps 0 s (me_state_update (\<lambda>st. st\<lparr>ps_received := [], ps_received_unbound := []\<rparr>) ?d)"
    by (rule steps_then_inert) (simp add: core_def)
  then show ?thesis by (simp add: drop_session_def Let_def)
qed

lemma reset_steps:
  assumes "reset_for_new_transport_inner s = Inr t"
  shows "steps (- int (length (me_outgoing_buffer s)) - int (length (ps_responses (me_state s)))) s t"
    (is "steps ?c s t")
proof -
  obtain a n where a: "close_input s = Inr a"
    and n: "queued_size (map snd (items (pq_map_items canonical (me_priority_queue a)))) = Inr n"
    using assms by (auto simp: reset_for_new_transport_inner_def Let_def)
  have out: "me_outgoing_buffer a = me_outgoing_buffer s" using a by (auto simp: close_input_def)
  let ?b = "a\<lparr>me_outgoing_buffer := []\<rparr>"
  let ?b' = "?b\<lparr>me_inflight_queue :=
    update_receive_maximum (o_receive_maximum (me_options a)) (me_inflight_queue a)\<rparr>"
  let ?c' = "?b'\<lparr>me_priority_queue := pq_map_items canonical (me_priority_queue a)\<rparr>"
  let ?x = "a\<lparr>me_outgoing_buffer := [], me_configured_subscriptions_pending := False,
       me_stream_retransmissions := [],
       me_inflight_queue := update_receive_maximum (o_receive_maximum (me_options a)) (me_inflight_queue a),
       me_priority_queue := pq_map_items canonical (me_priority_queue a)\<rparr>"
  define d where "d = me_state_update (reset_state (o_keep_alive (me_options ?x)) n) ?x"
  define e where "e = (if o_sessionless (me_options d) then drop_session d else d)"
  have "steps (- int (length (ps_responses (me_state s)))) s a"
    by (rule micro_steps [OF close [OF a]]) simp
  then have "steps ?c s ?b" by (rule steps_then [OF _ clear_output]) (simp add: out)
  from steps_then [OF this quota [of ?b "o_receive_maximum (me_options a)"]] have "steps ?c s ?b'" by simp
  from steps_then [OF this canonicalise [of ?b']] have "steps ?c s ?c'" by simp
  then have d: "steps ?c s d" by (rule steps_then_inert) (simp add: d_def, simp add: core_def)
  have de: "steps 0 d e" by (simp add: e_def drop_session_steps steps_refl)
  have "ps_input_closed (me_state d)"
    using closed_by_close_input [OF a] by (simp add: d_def reset_state_def Let_def)
  then have "ps_input_closed (me_state e)" using steps_closed [OF de] by simp
  moreover have "steps ?c s e" using steps_via [OF d de] by simp
  ultimately have "steps ?c s (e\<lparr>me_parser := MqttParser_new (o_mqtt_version (me_options e))\<rparr>)"
    (is "steps _ _ ?f") by (blast intro: steps_then [OF _ new_parser] eq_refl add_0_right)
  moreover have "t = ?f\<lparr>me_next_reconnect_at := None, me_last_packet_sent := me_now e,
      me_last_packet_received := me_now e, me_ping_sent_at := None\<rparr>"
    using assms a n by (simp add: reset_for_new_transport_inner_def Let_def e_def d_def cong: if_cong)
  ultimately show ?thesis by (auto elim!: steps_then_inert simp: core_def)
qed

lemma schedule_core: "schedule_reconnect_inner now s = Inr t \<Longrightarrow> core t = core s"
  by (auto simp: schedule_reconnect_inner_def Let_def core_def split: if_splits)

abbreviation lost_cost :: "MqttEngine \<Rightarrow> int" where
  "lost_cost s \<equiv> - int (length (me_outgoing_buffer s)) - int (length (ps_responses (me_state s)))"

lemma connection_lost_steps:
  assumes "connection_lost_at now s = Inr t" shows "steps (lost_cost s) s t"
proof -
  obtain a where a: "reset_for_new_transport_inner s = Inr a"
    and t: "(if o_reconnect (me_options a)
      then schedule_reconnect_inner now (a\<lparr>me_next_reconnect_at := me_next_reconnect_at s\<rparr>)
      else Inr (a\<lparr>me_next_reconnect_at := me_next_reconnect_at s\<rparr>)) = Inr t"
    using assms by (auto simp: connection_lost_at_def Let_def)
  have "core t = core (a\<lparr>me_next_reconnect_at := me_next_reconnect_at s\<rparr>)"
    using t schedule_core by (auto split: if_splits)
  also have "\<dots> = core a" by (simp add: core_def)
  finally show ?thesis by (rule steps_then_inert [OF reset_steps [OF a]])
qed

lemma handle_connection_lost_steps: "handle_connection_lost_inner s = Inr t \<Longrightarrow> steps (lost_cost s) s t"
  unfolding handle_connection_lost_inner_def by (rule connection_lost_steps)

lemma fail_connection_steps:
  assumes "fail_connection e s = Inr t" shows "steps (lost_cost s) s t"
proof -
  obtain a where a: "connection_lost_at (me_now s) s = Inr a"
    and t: "t = push_event (Disconnected None) (push_event (EventError e) a)"
    using assms by (auto simp: fail_connection_def)
  show ?thesis by (rule steps_then_inert [OF connection_lost_steps [OF a]]) (simp add: t)
qed

lemma lost_cost_le: "steps (lost_cost s) s t \<Longrightarrow> 0 \<le> c \<Longrightarrow> steps c s t"
  by (erule steps_le) simp

lemmas fail_connection_steps0 = lost_cost_le [OF fail_connection_steps, of _ _ _ 0, simplified]
  and handle_connection_lost_steps0 = lost_cost_le [OF handle_connection_lost_steps, of _ _ 0, simplified]

subsection \<open>Output\<close>

lemma enqueue_packet_error: "enqueue_packet_inner p s = (Inl e, t) \<Longrightarrow> t = s"
  by (auto simp: enqueue_packet_inner_def split: sum.splits)

lemma enqueue_packet_steps:
  assumes "enqueue_packet_inner p s = (Inr u, t)" shows "steps 1 s t"
proof -
  obtain b where "length (me_outgoing_buffer s) < o_max_outgoing_packet_count (me_options s)"
    and t: "t = s\<lparr>me_outgoing_buffer := me_outgoing_buffer s @ [b], me_last_packet_sent := me_now s\<rparr>"
    using assms by (auto simp: enqueue_packet_inner_def split: sum.splits if_splits)
  then have "steps 1 s (s\<lparr>me_outgoing_buffer := me_outgoing_buffer s @ [b]\<rparr>)"
    by (intro micro_steps [OF send]) auto
  then show ?thesis by (rule steps_then_inert) (simp add: t core_def)
qed

lemma flush_loop_Suc:
  assumes "flush_loop (Suc n) s = Inr t"
  obtains "t = s" | e where "fail_connection e s = Inr t"
  | p rest a u where "ps_responses (me_state s) = p # rest" "enqueue_packet_inner p s = (Inr u, a)"
      "flush_loop n (me_state_update (\<lambda>st. st\<lparr>ps_responses := tl (ps_responses st)\<rparr>) a) = Inr t"
proof (cases "ps_responses (me_state s)")
  case Nil
  then show thesis using assms that(1) by simp
next
  case (Cons p rest)
  obtain r a where ra: "enqueue_packet_inner p s = (r, a)" by fastforce
  let ?big = "case o_max_outgoing_buffer_bytes (me_options s) of None \<Rightarrow> False
     | Some capacity \<Rightarrow> (case MqttPacket_to_bytes p of Inl _ \<Rightarrow> False | Inr bytes \<Rightarrow> capacity < length bytes)"
  show thesis
  proof (cases ?big)
    case True
    then show thesis using assms Cons that(2) by simp
  next
    case False
    note step = assms [simplified, unfolded Cons list.case, unfolded if_not_P [OF False], unfolded ra, simplified]
    show thesis
    proof (cases r)
      case (Inl e)
      then have "a = s" using ra enqueue_packet_error by simp
      then show thesis using step Inl that(1,2) by (cases e) auto
    next
      case (Inr u)
      then show thesis using step that(3) [OF Cons] ra by simp
    qed
  qed
qed

lemma pop_response_steps:
  assumes "ps_responses (me_state s) = p # rest" and "enqueue_packet_inner p s = (Inr u, a)"
  shows "steps 0 s (me_state_update (\<lambda>st. st\<lparr>ps_responses := tl (ps_responses st)\<rparr>) a)"
proof -
  have r: "ps_responses (me_state a) = p # rest"
    using assms by (auto simp: enqueue_packet_inner_def split: sum.splits)
  have "me_state_update (\<lambda>st. st\<lparr>ps_responses := tl (ps_responses st)\<rparr>) a =
      me_state_update (\<lambda>st. st\<lparr>ps_responses := rest\<rparr>) a"
    using r by (cases a) simp
  moreover have "steps 0 s (me_state_update (\<lambda>st. st\<lparr>ps_responses := rest\<rparr>) a)"
    by (rule steps_then [OF enqueue_packet_steps [OF assms(2)] pop_response [OF r]]) simp
  ultimately show ?thesis by simp
qed

lemma flush_loop_steps: "flush_loop n s = Inr t \<Longrightarrow> steps 0 s t"
proof (induction n arbitrary: s)
  case 0
  then show ?case by (simp add: steps_refl)
next
  case (Suc n)
  from Suc.prems show ?case
  proof (cases rule: flush_loop_Suc)
    case 1
    then show ?thesis by (simp add: steps_refl)
  next
    case (2 e)
    then show ?thesis by (rule fail_connection_steps0)
  next
    case (3 p rest a u)
    then show ?thesis using steps_via [OF pop_response_steps [OF 3(1,2)] Suc.IH [OF 3(3)]] by simp
  qed
qed

lemma flush_responses_steps: "flush_responses s = Inr t \<Longrightarrow> steps 0 s t"
  unfolding flush_responses_def by (rule flush_loop_steps)

lemma replay_loop_Suc:
  assumes "replay_loop (Suc n) s = Inr t"
  obtains "t = s"
  | i p rest e where "me_session_replay s = (i, p) # rest"
      "replay_loop n (fail_operation i p e (s\<lparr>me_session_replay := rest\<rparr>)) = Inr t"
  | i p rest u a e where "me_session_replay s = (i, p) # rest" "enqueue_packet_inner p s = (Inr u, a)"
      "replay_loop n (fail_operation i p e (a\<lparr>me_session_replay := rest\<rparr>)) = Inr t"
  | i p rest u a q b where "me_session_replay s = (i, p) # rest" "enqueue_packet_inner p s = (Inr u, a)"
      "push_at i p (replay_qos p) (me_now a) (me_inflight_queue a) = Inr q"
      "start_deadline Op_Publish (Some i) (a\<lparr>me_session_replay := rest, me_inflight_queue := q\<rparr>) = Inr b"
      "replay_loop n b = Inr t"
proof (cases "me_session_replay s")
  case Nil
  then show thesis using assms that(1) by simp
next
  case (Cons e rest)
  then obtain i p where c: "me_session_replay s = (i, p) # rest" by (cases e) auto
  obtain r a where ra: "enqueue_packet_inner p s = (r, a)" by fastforce
  show thesis
  proof (cases "is_publish p \<and> \<not> can_push_publish (me_inflight_queue s)")
    case True
    then show thesis using assms c that(1) by simp
  next
    case False
    note step = assms [simplified, unfolded c list.case prod.case, unfolded if_not_P [OF False], unfolded ra, simplified]
    show thesis
    proof (cases r)
      case (Inl e)
      then have "a = s" using ra enqueue_packet_error by simp
      then show thesis using step Inl that(1) that(2) [OF c] by (cases e) auto
    next
      case (Inr u)
      note ra = ra [unfolded Inr]
      show thesis
      proof (cases "push_at i p (replay_qos p) (me_now a) (me_inflight_queue a)")
        case (Inl e)
        then show thesis using step Inr that(3) [OF c ra] by (cases e) auto
      next
        case (Inr q)
        then show thesis using step \<open>r = Inr u\<close> that(4) [OF c ra Inr] by auto
      qed
    qed
  qed
qed

lemma replay_loop_steps: "replay_loop n s = Inr t \<Longrightarrow> steps 0 s t"
proof (induction n arbitrary: s)
  case 0
  then show ?case by (simp add: steps_refl)
next
  case (Suc n)
  from Suc.prems show ?case
  proof (cases rule: replay_loop_Suc)
    case 1
    then show ?thesis by (simp add: steps_refl)
  next
    case (2 i p rest e)
    have "steps (-1) s (s\<lparr>me_session_replay := rest\<rparr>)"
      by (rule micro_steps [OF set_replay]) (simp add: 2(1))
    from steps_via [OF this fail_operation_steps, of 0]
    show ?thesis using steps_via [OF _ Suc.IH [OF 2(2)]] by fastforce
  next
    case (3 i p rest u a e)
    have r: "me_session_replay a = (i, p) # rest"
      using 3(1,2) by (auto simp: enqueue_packet_inner_def split: sum.splits)
    have "steps 0 s (a\<lparr>me_session_replay := rest\<rparr>)"
      by (rule steps_then [OF enqueue_packet_steps [OF 3(2)] set_replay]) (simp add: r)
    from steps_via [OF this fail_operation_steps, of 0]
    show ?thesis using steps_via [OF _ Suc.IH [OF 3(3)]] by fastforce
  next
    case (4 i p rest u a q b)
    have r: "me_session_replay a = (i, p) # rest"
      using 4(1,2) by (auto simp: enqueue_packet_inner_def split: sum.splits)
    have "steps 0 s (a\<lparr>me_session_replay := rest\<rparr>)"
      by (rule steps_then [OF enqueue_packet_steps [OF 4(2)] set_replay]) (simp add: r)
    then have "steps 0 s (a\<lparr>me_session_replay := rest, me_inflight_queue := q\<rparr>)"
      using 4(3) by (intro steps_then [OF _ track]) (auto simp: push_at_def)
    then have "steps 0 s b" using steps_then_inert start_deadline_core [OF 4(4)] by blast
    from steps_via [OF this Suc.IH [OF 4(5)]] show ?thesis by simp
  qed
qed

lemma process_replay_steps: "process_replay s = Inr t \<Longrightarrow> steps 0 s t"
  by (auto simp: process_replay_def steps_refl dest: replay_loop_steps split: if_splits)

lemma unqueue_steps:
  "dequeue (me_priority_queue s) = (Some x, q) \<Longrightarrow> steps (-1) s (s\<lparr>me_priority_queue := q\<rparr>)"
  by (rule micro_steps [OF unqueue]) simp_all

lemma reject_queued_steps: "steps 0 s (reject_queued e s)"
proof (cases "dequeue (me_priority_queue s)")
  case (Pair x q)
  show ?thesis
  proof (cases x)
    case None
    then show ?thesis using Pair by (simp add: reject_queued_def steps_refl)
  next
    case (Some y)
    obtain pr p where y: "y = (pr, p)" by fastforce
    have a: "steps (-1) s (s\<lparr>me_priority_queue := q\<rparr>)" using unqueue_steps Pair Some by simp
    show ?thesis
    proof (cases "publish_ident p")
      case None
      then show ?thesis
        using steps_le [OF a, of 0] Pair Some y
        by (auto simp: reject_queued_def core_def intro: steps_then_inert)
    next
      case (Some i)
      then show ?thesis
        using steps_via [OF a fail_operation_steps, of 0] Pair \<open>x = Some y\<close> y
        by (simp add: reject_queued_def)
    qed
  qed
qed

lemma drop_broken_steps: "steps 0 s (drop_broken e s)"
proof (cases "dequeue (me_priority_queue s)")
  case (Pair x q)
  show ?thesis
  proof (cases x)
    case None
    then show ?thesis using Pair by (simp add: drop_broken_def steps_refl)
  next
    case (Some y)
    then have "steps (-1) s (s\<lparr>me_priority_queue := q\<rparr>)" using unqueue_steps Pair by simp
    from steps_le [OF this, of 0] show ?thesis
      using Pair Some by (auto simp: drop_broken_def core_def intro: steps_then_inert)
  qed
qed

lemma append_output_steps:
  assumes "steps (-1) s t" and "length (me_outgoing_buffer s) < o_max_outgoing_packet_count (me_options s)"
    and "me_outgoing_buffer t = me_outgoing_buffer s" "core_options (me_options t) = core_options (me_options s)"
  shows "steps 0 s (t\<lparr>me_outgoing_buffer := me_outgoing_buffer t @ [b], me_last_packet_sent := me_now t\<rparr>)"
proof -
  have "o_max_outgoing_packet_count (core_options (me_options t)) =
      o_max_outgoing_packet_count (core_options (me_options s))"
    using assms(4) by simp
  then have "length (me_outgoing_buffer t) < o_max_outgoing_packet_count (me_options t)"
    using assms(2,3) by (simp add: core_options_def)
  then have "steps 0 s (t\<lparr>me_outgoing_buffer := me_outgoing_buffer t @ [b]\<rparr>)"
    by (intro steps_then [OF assms(1) send]) auto
  then show ?thesis by (rule steps_then_inert) (simp add: core_def)
qed

lemma emit_queued_steps:
  assumes "emit_queued b s = Inr t"
    and "length (me_outgoing_buffer s) < o_max_outgoing_packet_count (me_options s)"
  shows "steps 0 s t"
proof (cases "dequeue (me_priority_queue s)")
  case (Pair x q)
  show ?thesis
  proof (cases x)
    case None
    then show ?thesis using Pair assms by (simp add: emit_queued_def steps_refl)
  next
    case (Some y)
    obtain pr p where y: "y = (pr, p)" by fastforce
    let ?s = "s\<lparr>me_priority_queue := q\<rparr>"
    have a: "steps (-1) s ?s" using unqueue_steps Pair Some by simp
    obtain c where c: "t = c\<lparr>me_outgoing_buffer := me_outgoing_buffer c @ [b], me_last_packet_sent := me_now c\<rparr>"
      and c': "c = ?s \<or> (\<exists>i iq. push_at i p (publish_qos p) (me_now ?s) (me_inflight_queue ?s) = Inr iq \<and>
        start_deadline Op_Publish (Some i) (?s\<lparr>me_inflight_queue := iq\<rparr>) = Inr c)"
      using assms(1) Pair Some y
      by (simp add: emit_queued_def Let_def) (fastforce split: if_splits option.splits)
    from c' show ?thesis
    proof
      assume "c = ?s"
      then show ?thesis unfolding c using append_output_steps [OF a assms(2)] by simp
    next
      assume "\<exists>i iq. push_at i p (publish_qos p) (me_now ?s) (me_inflight_queue ?s) = Inr iq \<and>
        start_deadline Op_Publish (Some i) (?s\<lparr>me_inflight_queue := iq\<rparr>) = Inr c"
      then obtain i iq where p: "push_at i p (publish_qos p) (me_now ?s) (me_inflight_queue ?s) = Inr iq"
        and d: "core c = core (?s\<lparr>me_inflight_queue := iq\<rparr>)"
        using start_deadline_core by blast
      have "steps (-1) s (?s\<lparr>me_inflight_queue := iq\<rparr>)"
        using p by (intro steps_then [OF a track]) (auto simp: push_at_def)
      then have "steps (-1) s c" using d steps_then_inert by blast
      then show ?thesis
        unfolding c by (rule append_output_steps [OF _ assms(2)]) (use d in \<open>simp_all add: core_def\<close>)
    qed
  qed
qed

lemma queue_round_steps:
  assumes "queue_round enc p s = Inr t"
    and "length (me_outgoing_buffer s) < o_max_outgoing_packet_count (me_options s)"
  shows "steps 0 s t"
proof (cases "case enc of None \<Rightarrow> MqttPacket_to_bytes p | Some b \<Rightarrow> Inr b")
  case (Inl e)
  then show ?thesis using assms(1) by (auto simp: queue_round_def drop_broken_steps split: option.splits)
next
  case (Inr b)
  let ?s = "me_state_update (\<lambda>st. st\<lparr>ps_queued_bytes := ps_queued_bytes st - length b\<rparr>) s"
  have a: "steps 0 s ?s" by (rule inert_steps) (simp_all add: core_def)
  have "(\<exists>e. t = reject_queued e ?s) \<or> emit_queued b ?s = Inr t"
    using assms(1) Inr by (auto simp: queue_round_def Let_def split: option.splits sum.splits)
  then show ?thesis
    using steps_via [OF a reject_queued_steps] steps_via [OF a emit_queued_steps [of b ?s t]] assms(2) by auto
qed

lemma queue_loop_cases:
  assumes "queue_loop n enc s = Inr t"
  obtains "t = s"
  | n' p a where "n = Suc n'" "queue_round enc p s = Inr a" "queue_loop n' None a = Inr t"
      "length (me_outgoing_buffer s) < o_max_outgoing_packet_count (me_options s)"
  using assms by (subst (asm) queue_loop.simps) (auto split: if_splits option.splits nat.splits)

lemma queue_loop_steps: "queue_loop n enc s = Inr t \<Longrightarrow> steps 0 s t"
proof (induction n arbitrary: enc s)
  case 0
  then show ?case by (cases rule: queue_loop_cases) (simp_all add: steps_refl)
next
  case (Suc n)
  from Suc.prems show ?case
  proof (cases rule: queue_loop_cases)
    case 1
    then show ?thesis by (simp add: steps_refl)
  next
    case (2 n' p a)
    then have "steps 0 a t" using Suc.IH by simp
    from steps_via [OF queue_round_steps [OF 2(2,4)] this] show ?thesis by simp
  qed
qed

lemma process_queue_with_encoding_steps: "process_queue_with_encoding enc s = Inr t \<Longrightarrow> steps 0 s t"
proof -
  assume p: "process_queue_with_encoding enc s = Inr t"
  show ?thesis
  proof (cases "me_is_connected s")
    case False
    then show ?thesis using p by (simp add: process_queue_with_encoding_def steps_refl)
  next
    case True
    then obtain a where a: "flush_responses s = Inr a" using p by (auto simp: process_queue_with_encoding_def)
    note s = flush_responses_steps [OF a]
    show ?thesis
    proof (cases "me_is_connected a")
      case False
      then show ?thesis using p a s True by (simp add: process_queue_with_encoding_def)
    next
      case c: True
      then obtain b where b: "process_replay a = Inr b"
        using p a True by (auto simp: process_queue_with_encoding_def)
      have "steps 0 s b" using steps_via [OF s process_replay_steps [OF b]] by simp
      moreover have "b = t \<or> queue_loop (pq_len (me_priority_queue b)) enc b = Inr t"
        using p a b True c by (auto simp: process_queue_with_encoding_def split: if_splits)
      ultimately show ?thesis using steps_via [OF _ queue_loop_steps, of 0 s b _ enc t 0] by auto
    qed
  qed
qed

lemma process_queue_steps: "process_queue s = Inr t \<Longrightarrow> steps 0 s t"
  unfolding process_queue_def by (rule process_queue_with_encoding_steps)

subsection \<open>Commands\<close>

lemma checkE_steps:
  assumes "checkE r s f = Inr (x, t)" and "\<And>y. r = Inr y \<Longrightarrow> f y = Inr (x, t) \<Longrightarrow> steps c s t" and "0 \<le> c"
  shows "steps c s t"
  using assms by (cases r) (auto simp: steps_refl)

lemma stepE_steps:
  assumes "stepE m f = Inr (x, t)" and "\<And>e. m = Inr (Inl e, t) \<Longrightarrow> steps c s t"
    and "\<And>y a. m = Inr (Inr y, a) \<Longrightarrow> f y a = Inr (x, t) \<Longrightarrow> steps c s t"
  shows "steps c s t"
  using assms by (auto simp: stepE_def split: sum.splits prod.splits)

lemma enqueue_stepE:
  assumes "stepE (Inr (enqueue_packet_inner p s)) f = Inr (x, t)"
    and "\<And>u a. enqueue_packet_inner p s = (Inr u, a) \<Longrightarrow> steps 1 s a \<Longrightarrow> f u a = Inr (x, t) \<Longrightarrow> steps c s t"
    and "0 \<le> c"
  shows "steps c s t"
  using assms(1)
proof (rule stepE_steps)
  fix e assume "Inr (enqueue_packet_inner p s) = (Inr (Inl e, t) :: unit cres eng)"
  then show "steps c s t" using assms(3) by (auto simp: steps_refl dest: enqueue_packet_error)
next
  fix u a assume e: "Inr (enqueue_packet_inner p s) = (Inr (Inr u, a) :: unit cres eng)"
    and f: "f u a = Inr (x, t)"
  from e have e': "enqueue_packet_inner p s = (Inr u, a)" by simp
  show "steps c s t" by (rule assms(2) [OF e' enqueue_packet_steps [OF e'] f])
qed

lemma next_packet_id_core: "next_packet_id s = (r, t) \<Longrightarrow> core t = core s"
  by (auto simp: next_packet_id_def Let_def core_def split: option.splits prod.splits)

lemma candidate_id_core: "candidate_id req s = (r, t) \<Longrightarrow> core t = core s"
  by (auto simp: candidate_id_def dest: next_packet_id_core split: option.splits if_splits)

lemma assign_id_core: "assign_id c s = (r, t) \<Longrightarrow> core t = core s"
  by (auto simp: assign_id_def dest: candidate_id_core split: if_splits prod.splits sum.splits)

lemma inflightE_steps:
  "inflightE (push_with_stream_at i p qos stream (me_now s) (me_inflight_queue s)) s = Inr (r, t) \<Longrightarrow>
   steps 0 s t"
  by (auto simp: inflightE_def steps_refl intro!: micro_steps [OF track]
      split: sum.splits MqttClientError.splits)

lemma started_core: "started k i s = Inr t \<Longrightarrow> core t = core s"
  unfolding started_def by (drule start_deadline_core) (simp add: core_def)

lemma core_register_alias [simp]: "core (register_alias a s) = core s"
  by (auto simp: register_alias_def core_def split: option.splits)

lemma core_reserve_id [simp]: "core (reserve_id i n s) = core s"
  by (auto simp: reserve_id_def core_def split: option.splits)

lemma send_tracked_steps: "send_tracked k i p s = Inr (r, t) \<Longrightarrow> steps 1 s t"
  unfolding send_tracked_def push_at_def
  by (erule enqueue_stepE, erule stepE_steps)
     (auto dest!: inflightE_steps started_core intro: steps_then_inert steps_via)

lemma encode_tracked_steps: "encode_tracked k i p st s = Inr (r, t) \<Longrightarrow> steps 0 s t"
  unfolding encode_tracked_def
  by (erule checkE_steps, erule checkE_steps, erule stepE_steps)
     (auto dest!: inflightE_steps started_core intro: steps_then_inert simp: core_def)

lemma core_then_steps: "core t = core s \<Longrightarrow> steps c t u \<Longrightarrow> steps c s u"
  using steps_via [OF inert_steps [of t s 0]] by simp

lemma candidate_stepE:
  assumes "stepE (Inr (candidate_id req s)) f = Inr (x, t)"
    and "\<And>i a. f i a = Inr (x, t) \<Longrightarrow> steps c a t" and "0 \<le> c"
  shows "steps c s t"
  using assms(1)
proof (rule stepE_steps)
  fix e assume "Inr (candidate_id req s) = (Inr (Inl e, t) :: u16 cres eng)"
  then show "steps c s t" using assms(3) by (auto intro: inert_steps dest: candidate_id_core)
next
  fix i a assume "Inr (candidate_id req s) = (Inr (Inr i, a) :: u16 cres eng)" and f: "f i a = Inr (x, t)"
  then show "steps c s t" using core_then_steps [OF candidate_id_core assms(2) [OF f]] by simp
qed

lemma subscribe_steps: "subscribe_inner c s = Inr (r, t) \<Longrightarrow> steps 1 s t"
  unfolding subscribe_inner_def
  by (erule checkE_steps, erule checkE_steps, erule checkE_steps, erule candidate_stepE)
     (auto dest: send_tracked_steps)

lemma unsubscribe_steps: "unsubscribe_inner c s = Inr (r, t) \<Longrightarrow> steps 1 s t"
  unfolding unsubscribe_inner_def
  by (erule checkE_steps, erule checkE_steps, erule candidate_stepE) (auto dest: send_tracked_steps)

lemma subscribe_encoded_steps: "subscribe_encoded_inner c st s = Inr (r, t) \<Longrightarrow> steps 0 s t"
  unfolding subscribe_encoded_inner_def
  by (erule checkE_steps, erule checkE_steps, erule checkE_steps, erule candidate_stepE)
     (auto dest: encode_tracked_steps)

lemma unsubscribe_encoded_steps: "unsubscribe_encoded_inner c st s = Inr (r, t) \<Longrightarrow> steps 0 s t"
  unfolding unsubscribe_encoded_inner_def
  by (erule checkE_steps, erule checkE_steps, erule candidate_stepE) (auto dest: encode_tracked_steps)

lemma assign_stepE:
  assumes "stepE (Inr (assign_id cmd s)) f = Inr (x, t)"
    and "\<And>i a. core a = core s \<Longrightarrow> f i a = Inr (x, t) \<Longrightarrow> steps c a t" and "0 \<le> c"
  shows "steps c s t"
  using assms(1)
proof (rule stepE_steps)
  fix e assume "Inr (assign_id cmd s) = (Inr (Inl e, t) :: (u16 option \<times> PublishCommand) cres eng)"
  then show "steps c s t" using assms(3) by (auto intro: inert_steps dest: assign_id_core)
next
  fix i a assume "Inr (assign_id cmd s) = (Inr (Inr i, a) :: (u16 option \<times> PublishCommand) cres eng)"
    and f: "f i a = Inr (x, t)"
  then have a: "core a = core s" by (simp add: assign_id_core)
  show "steps c s t" by (rule core_then_steps [OF a assms(2) [OF a f]])
qed

lemma admit_publish_steps:
  assumes "admit_publish r0 pid cmd s = Inr (r, t)"
    and room: "pq_len (me_priority_queue s) < o_max_outgoing_packet_count (me_options s)"
  shows "steps 1 s t"
  using assms(1) unfolding admit_publish_def Let_def
proof (elim checkE_steps)
  fix b :: bytes
  let ?b = "register_alias r0 (reserve_id pid (length b)
    (me_state_update (\<lambda>st. st\<lparr>ps_queued_bytes := ps_queued_bytes st + length b\<rparr>) s))"
  let ?q = "?b\<lparr>me_priority_queue := enqueue (pc_priority cmd) (publish_packet s cmd) (me_priority_queue ?b)\<rparr>"
  assume "tryE (process_queue_with_encoding (if pq_is_empty (me_priority_queue ?b) then Some b else None) ?q)
     (\<lambda>s. Inr (Inr pid, s)) = Inr (r, t)"
  then have q: "process_queue_with_encoding (if pq_is_empty (me_priority_queue ?b) then Some b else None) ?q
      = Inr t" by auto
  have b: "core ?b = core s" by (simp, simp add: core_def)
  then have "core_options (me_options ?b) = core_options (me_options s)" "me_priority_queue ?b = me_priority_queue s"
    by (simp_all add: core_def)
  then have "pq_len (me_priority_queue ?b) < o_max_outgoing_packet_count (core_options (me_options ?b))"
    using room by (simp add: core_options_def)
  then have "steps 1 ?b ?q" by (intro micro_steps [OF queue]) (simp_all add: core_options_def)
  then have "steps 1 ?b t" using steps_via [OF _ process_queue_with_encoding_steps [OF q]] by fastforce
  then show "steps 1 s t" by (rule core_then_steps [OF b])
qed simp_all

lemma publish_steps:
  assumes "publish_inner cmd s = Inr (r, t)" shows "steps 1 s t"
  using assms unfolding publish_inner_def
proof (elim checkE_steps)
  fix rc
  assume "(case rc of (registration, command) \<Rightarrow>
     if o_max_outgoing_packet_count (me_options s) \<le> pq_len (me_priority_queue s)
     then Inr (Inl (BufferFull ''publish queue'' (o_max_outgoing_packet_count (me_options s))), s)
     else stepE (Inr (assign_id command s)) (\<lambda>(pid, command) s. admit_publish registration pid command s)) =
     Inr (r, t)"
  then obtain registration command where
    "t = s \<or> (pq_len (me_priority_queue s) < o_max_outgoing_packet_count (me_options s) \<and>
     stepE (Inr (assign_id command s)) (\<lambda>(pid, command) s. admit_publish registration pid command s) = Inr (r, t))"
    by (auto split: prod.splits if_splits)
  then show "steps 1 s t"
  proof
    assume "pq_len (me_priority_queue s) < o_max_outgoing_packet_count (me_options s) \<and>
      stepE (Inr (assign_id command s)) (\<lambda>(pid, command) s. admit_publish registration pid command s) = Inr (r, t)"
    then have room: "pq_len (me_priority_queue s) < o_max_outgoing_packet_count (core_options (me_options s))"
      and e: "stepE (Inr (assign_id command s)) (\<lambda>(pid, command) s. admit_publish registration pid command s)
        = Inr (r, t)" by (simp_all add: core_options_def)
    from e show ?thesis
    proof (rule assign_stepE)
      fix i a assume a: "core a = core s"
        and f: "(case i of (pid, command) \<Rightarrow> \<lambda>s. admit_publish registration pid command s) a = Inr (r, t)"
      have "core_options (me_options a) = core_options (me_options s)" "me_priority_queue a = me_priority_queue s"
        using a by (simp_all add: core_def)
      then have "pq_len (me_priority_queue a) < o_max_outgoing_packet_count (core_options (me_options a))"
        using room by simp
      then show "steps 1 a t"
        using f by (cases i) (auto intro: admit_publish_steps simp: core_options_def)
    qed simp
  qed (simp add: steps_refl)
qed simp_all

lemma encode_publish_steps:
  assumes "encode_publish r0 pid cmd stream s = Inr (r, t)" shows "steps 0 s t"
  using assms unfolding encode_publish_def Let_def
proof (elim checkE_steps stepE_steps)
  fix b e
  assume "(if 0 < pc_qos cmd then
       case pid of None \<Rightarrow> Inl ''QoS > 0 always assigns a packet id''
       | Some i \<Rightarrow> inflightE (push_with_stream_at i (publish_packet s cmd) (pc_qos cmd) stream (me_now s)
            (me_inflight_queue s)) s else Inr (Inr (), s)) = Inr (Inl e, t)"
  then show "steps 0 s t" by (auto dest: inflightE_steps split: if_splits option.splits)
next
  fix b u a
  assume i: "(if 0 < pc_qos cmd then
       case pid of None \<Rightarrow> Inl ''QoS > 0 always assigns a packet id''
       | Some i \<Rightarrow> inflightE (push_with_stream_at i (publish_packet s cmd) (pc_qos cmd) stream (me_now s)
            (me_inflight_queue s)) s else Inr (Inr (), s)) = Inr (Inr u, a)"
    and d: "tryE (case pid of None \<Rightarrow> Inr (reserve_id pid (length b) a)
       | Some i \<Rightarrow> start_deadline Op_Publish (Some i) (reserve_id pid (length b) a))
      (\<lambda>s. Inr (Inr (pid, b), register_alias r0 s\<lparr>me_last_packet_sent := me_now (register_alias r0 s)\<rparr>)) =
      Inr (r, t)"
  have a: "steps 0 s a" using i by (auto dest: inflightE_steps simp: steps_refl split: if_splits option.splits)
  obtain c where c: "core c = core (reserve_id pid (length b) a)"
    and t: "t = register_alias r0 c\<lparr>me_last_packet_sent := me_now (register_alias r0 c)\<rparr>"
    using d by (cases pid) (auto dest!: start_deadline_core intro!: that)
  have "core t = core (register_alias r0 c)" by (simp add: t core_def)
  then have "core t = core a" using c by simp
  then show "steps 0 s t" by (rule steps_then_inert [OF a])
qed simp_all

lemma publish_encoded_steps:
  assumes "publish_encoded_inner cmd stream s = Inr (r, t)" shows "steps 0 s t"
  using assms unfolding publish_encoded_inner_def
proof (elim checkE_steps)
  fix rc
  assume "(case rc of (registration, command) \<Rightarrow>
    stepE (Inr (assign_id command s)) (\<lambda>(pid, command) s. encode_publish registration pid command stream s)) = Inr (r, t)"
  then show "steps 0 s t"
    by (cases rc) (auto elim!: assign_stepE dest: encode_publish_steps)
qed simp_all

lemma commit_receive_ack_steps: "steps 0 s (commit_receive_ack i kind code stream s)"
proof (cases "kind = 5 \<and> code < 0x80")
  case True
  then show ?thesis by (intro inert_steps) (auto simp: commit_receive_ack_def core_def Let_def)
next
  case False
  have "steps 0 s (me_state_update (\<lambda>st. st\<lparr>ps_incoming_quota_used := ps_incoming_quota_used st - 1\<rparr>) s)"
    by (rule micro_steps [OF release_quota]) simp
  then show ?thesis
    by (rule steps_then_inert) (use False in \<open>auto simp: commit_receive_ack_def core_def Let_def\<close>)
qed

lemma manual_ack_steps: "manual_ack i kind code ps s = Inr (r, t) \<Longrightarrow> steps 1 s t"
  unfolding manual_ack_def
  by (erule checkE_steps, erule enqueue_stepE) (auto intro: steps_via [OF _ commit_receive_ack_steps])

lemma close_input_steps: "close_input s = Inr t \<Longrightarrow> steps 0 s t"
  by (rule micro_steps [OF close]) simp_all

lemma close_now_steps:
  assumes "close_input (s\<lparr>me_next_reconnect_at := x\<rparr>) = Inr t" shows "steps 0 s t"
  using core_then_steps [OF _ close_input_steps [OF assms]] by (simp add: core_def)

lemma try_disconnect_steps:
  assumes "try_disconnect_with_inner code ps s = Inr (r, t)" shows "steps 1 s t"
proof -
  let ?p = "if mqtt_version s = 5 then P_Disconnect5 \<lparr>disc_reason_code = code, disc_properties = ps\<rparr>
            else P_Disconnect3"
  let ?close = "\<lambda>s. tryE (close_input (s\<lparr>me_next_reconnect_at := None\<rparr>)) (\<lambda>s. Inr (Inr (), s))"
  have "t = s \<or> ?close s = Inr (r, t) \<or>
      stepE (Inr (enqueue_packet_inner ?p s)) (\<lambda>_. ?close) = Inr (r, t)"
    using assms by (auto simp: try_disconnect_with_inner_def Let_def split: if_splits)
  then show ?thesis
    by (auto simp: steps_refl elim!: enqueue_stepE intro: steps_le [OF close_now_steps]
        steps_via [OF _ close_now_steps])
qed

lemma try_auth_steps: "try_auth_inner code ps s = Inr (r, t) \<Longrightarrow> steps 1 s t"
  unfolding try_auth_inner_def Let_def
  by (auto simp: steps_refl core_def elim!: enqueue_stepE intro: steps_then_inert
      split: if_splits option.splits)

lemma send_ping_steps: "send_ping_inner_at now s = (r, t) \<Longrightarrow> steps 1 s t"
  by (auto simp: send_ping_inner_at_def core_def steps_refl intro: steps_then_inert
      dest: enqueue_packet_error enqueue_packet_steps split: prod.splits sum.splits)

subsection \<open>Incoming packets\<close>

lemma accept_incoming_steps: "accept_incoming pt s = Inr (b, t) \<Longrightarrow> steps 0 s t"
  by (auto simp: accept_incoming_def Let_def steps_refl dest: fail_connection_steps0 split: if_splits)

lemma accept_incoming_True:
  "accept_incoming pt s = Inr (True, t) \<Longrightarrow> t = s \<and> \<not> ps_input_closed (me_state s) \<and>
   (pt = CONNACK \<longrightarrow> \<not> me_is_connected s) \<and> (pt \<notin> {CONNACK, AUTH, DISCONNECT} \<longrightarrow> me_is_connected s)"
  by (auto simp: accept_incoming_def Let_def split: if_splits ControlPacketType.splits)

lemma failed_with_steps:
  assumes "failed_with r e s = Inr ((ev, r'), t)" shows "r' = r \<and> steps 0 s t"
proof -
  obtain a where a: "fail_connection e s = Inr a" and t: "t = a\<lparr>me_events := []\<rparr>" "r' = r"
    using assms by (auto simp: failed_with_def take_events_def)
  then show ?thesis using steps_then_inert [OF fail_connection_steps0 [OF a]] by simp
qed

lemma resolve_incoming_core:
  "resolve_incoming p (me_state s) = (r, st) \<Longrightarrow> core (s\<lparr>me_state := st\<rparr>) = core s"
  by (auto simp: resolve_incoming_def Let_def core_def split: list.splits if_splits option.splits)

lemma bind_received_fields [simp]:
  "ps_incoming_quota_used (bind_received a b st) = ps_incoming_quota_used st"
  "ps_incoming_receive_maximum (bind_received a b st) = ps_incoming_receive_maximum st"
  "ps_input_closed (bind_received a b st) = ps_input_closed st"
  "ps_responses (bind_received a b st) = ps_responses st"
  by (auto simp: bind_received_def Let_def split: option.splits)

lemma receive_publish_steps:
  assumes "receive_publish qos pid stream (me_state s) = (r, st)" and "me_is_connected s"
  shows "steps 0 s (s\<lparr>me_state := st\<rparr>)"
proof -
  let ?t = "me_state_update (\<lambda>st. st\<lparr>ps_incoming_quota_used := ps_incoming_quota_used st + 1\<rparr>) s"
  have "core (s\<lparr>me_state := st\<rparr>) = core s \<or>
      ps_incoming_quota_used (me_state s) < unat (ps_incoming_receive_maximum (me_state s)) \<and>
      core (s\<lparr>me_state := st\<rparr>) = core ?t"
    using assms(1) by (auto simp: receive_publish_def Let_def core_def not_le split: option.splits if_splits)
  then show ?thesis
    using steps_then_inert [OF micro_steps [OF take_quota [OF assms(2)]], of 0] inert_steps by auto
qed

lemma receive_message_steps:
  assumes "receive_message p stream s = Inr ((ev, rs), t)" and "me_is_connected s"
  shows "steps 0 s t \<and> length rs \<le> 1"
proof -
  obtain r st where r: "resolve_incoming p (me_state s) = (r, st)" by fastforce
  note a = inert_steps [OF resolve_incoming_core [OF r], of 0, simplified]
  show ?thesis
  proof (cases r)
    case (Inl e)
    then have "rs = [] \<and> steps 0 (s\<lparr>me_state := st\<rparr>) t"
      using assms(1) r by (auto simp: receive_message_def dest!: failed_with_steps)
    then show ?thesis using steps_via [OF a, of 0 t 0] by simp
  next
    case (Inr p')
    obtain d st' where d: "receive_publish (pub_qos p') (pub_packet_id p') stream st = (d, st')" by fastforce
    let ?s = "s\<lparr>me_state := st'\<rparr>"
    have "steps 0 (s\<lparr>me_state := st\<rparr>) (s\<lparr>me_state := st\<rparr>\<lparr>me_state := st'\<rparr>)"
      using d assms(2) by (intro receive_publish_steps) auto
    then have b: "steps 0 s ?s" using steps_via [OF a] by simp
    show ?thesis
    proof (cases d)
      case (Inl e)
      then have "rs = [] \<and> steps 0 ?s t"
        using assms(1) r d \<open>r = Inr p'\<close> by (auto simp: receive_message_def Let_def dest!: failed_with_steps)
      then show ?thesis using steps_via [OF b, of 0 t 0] by simp
    next
      case (Inr dl)
      have "length rs \<le> 1 \<and> (t = ?s \<or> (\<exists>i kind. t = commit_receive_ack i kind 0 stream ?s))"
        using assms(1) r d \<open>r = Inr p'\<close> Inr
        by (auto simp: receive_message_def Let_def split: option.splits if_splits sum.splits)
      then show ?thesis using b steps_via [OF b commit_receive_ack_steps] by auto
    qed
  qed
qed

lemma advance_pubrel_core:
  "advance_pubrel v key (me_state s) = Some (code, st) \<Longrightarrow> core (s\<lparr>me_state := st\<rparr>) = core s"
  by (auto simp: advance_pubrel_def core_def Let_def split: option.splits if_splits)

lemma receive_pubrel_steps:
  assumes "receive_pubrel i stream s = Inr ((ev, rs), t)"
  shows "steps 0 s t \<and> length rs \<le> 1"
proof (cases "i = 0")
  case True
  then show ?thesis using assms by (auto simp: receive_pubrel_def dest!: failed_with_steps)
next
  case False
  show ?thesis
  proof (cases "advance_pubrel (mqtt_version s) (stream, i) (me_state s)")
    case None
    then show ?thesis using assms False by (auto simp: receive_pubrel_def steps_refl)
  next
    case (Some x)
    obtain code st where x: "x = (code, st)" by fastforce
    let ?s = "s\<lparr>me_state := st\<rparr>"
    have a: "steps 0 s ?s" using Some x by (intro inert_steps) (auto dest: advance_pubrel_core)
    have "length rs \<le> 1 \<and> (t = ?s \<or> t = commit_receive_ack i 7 code stream ?s)"
      using assms False Some x by (auto simp: receive_pubrel_def Let_def split: if_splits)
    then show ?thesis using a steps_via [OF a commit_receive_ack_steps, of 0] by auto
  qed
qed

lemma published_steps: "published i code ps s = (ev, t) \<Longrightarrow> steps 0 s t"
proof -
  assume p: "published i code ps s = (ev, t)"
  have "core t = core (s\<lparr>me_inflight_queue := snd (acknowledge i (me_inflight_queue s))\<rparr>)"
    using p by (auto simp: published_def split: prod.splits option.splits)
  then show ?thesis using steps_then_inert [OF micro_steps [OF untrack]] by fastforce
qed

lemma completed_steps: "steps 0 s (completed i s)"
  unfolding completed_def by (rule steps_then_inert [OF micro_steps [OF untrack]]) simp_all

lemma pubrec_received_steps:
  "pubrec_received i rel s = Inr ((ev, rs), t) \<Longrightarrow> is_quota_packet rel \<Longrightarrow> steps 0 s t \<and> length rs \<le> 1"
  by (auto simp: pubrec_received_def intro!: micro_steps [OF pubrel])

lemma auth_received_steps: "auth_received code ps s = Inr (ev, t) \<Longrightarrow> steps 0 s t"
  by (auto simp: auth_received_def Let_def core_def steps_refl intro!: inert_steps
      dest!: fail_connection_steps0 split: if_splits)

lemma restore_entry_steps: "steps 1 s (restore_entry b e s)"
proof (cases "b \<and> is_quota_packet (snd e)")
  case True
  let ?a = "s\<lparr>me_inflight_queue := snd (acknowledge (fst e) (me_inflight_queue s))\<rparr>"
  have "steps 0 s ?a" by (rule micro_steps [OF untrack]) simp
  then have "steps 1 s (?a\<lparr>me_session_replay := me_session_replay s @ [(fst e, canonical (set_dup True (snd e)))]\<rparr>)"
    by (rule steps_then [OF _ set_replay]) simp
  then show ?thesis using True by (simp add: restore_entry_def split_beta Let_def)
next
  case False
  then show ?thesis using steps_le [OF fail_operation_steps] by (auto simp: restore_entry_def split_beta Let_def)
qed

lemma restore_fold_steps: "steps (int (length xs)) s (fold (restore_entry b) xs s)"
proof (induction xs arbitrary: s)
  case (Cons x xs)
  from steps_via [OF restore_entry_steps Cons.IH] show ?case by simp
qed (simp add: steps_refl)

lemma length_pubrel_first [simp]: "length (pubrel_first xs) = length xs"
  by (induction xs) (auto simp: pubrel_first_def)

lemma restore_previous_steps: "steps 0 s (restore_previous b s)"
proof -
  have "steps (- int (length (me_previous_inflight s))) s (s\<lparr>me_previous_inflight := []\<rparr>)"
    by (rule micro_steps [OF set_previous]) simp
  then show ?thesis
    unfolding restore_previous_def by (rule steps_via [OF _ restore_fold_steps]) simp
qed

lemma fresh_session_steps:
  assumes "fresh_session ev s = Inr (ev', t)" shows "steps 1 s t"
proof -
  let ?d = "me_state_update (\<lambda>st. st\<lparr>ps_received := [], ps_received_unbound := []\<rparr>) s"
  have d: "core ?d = core s" by (simp add: core_def)
  have "core t = core ?d \<or> (\<exists>cmd r. subscribe_inner cmd ?d = Inr (r, t))"
    using assms by (auto simp: fresh_session_def Let_def core_def split: if_splits)
  then show ?thesis
    using d inert_steps [of t s 1] core_then_steps [OF d] subscribe_steps by auto
qed

lemma restore_session_steps:
  assumes "restore_session sp ev s = Inr (ev', t)" shows "steps 1 s t"
proof -
  let ?c = "restore_previous (replays_unacknowledged sp s) s"
  obtain e where e: "process_replay e = Inr t" and "e = ?c \<or> (\<exists>ev'. fresh_session ev ?c = Inr (ev', e))"
    using assms by (auto simp: restore_session_def Let_def split: if_splits)
  then have "steps 1 ?c e" using fresh_session_steps by (auto simp: steps_refl)
  then have "steps 1 s e" using steps_via [OF restore_previous_steps] by simp
  then show ?thesis using steps_via [OF _ process_replay_steps [OF e]] by simp
qed

lemma negotiate_property_steps: "negotiate_property p s = (r, t) \<Longrightarrow> steps 0 s t"
  by (cases p)
    (auto simp: negotiate_property_def Let_def core_def core_options_def steps_refl
      intro!: inert_steps micro_steps [OF quota] split: if_splits)

lemma negotiate_loop_steps: "negotiate_loop prev ps s = (r, t) \<Longrightarrow> steps 0 s t"
proof (induction ps arbitrary: prev s)
  case (Cons p ps)
  obtain x a where a: "negotiate_property p s = (x, a)" by fastforce
  note n = negotiate_property_steps [OF a]
  have "t = s \<or> t = a \<or> negotiate_loop (prev @ [p]) ps a = (r, t)"
    using Cons.prems a by (auto split: if_splits sum.splits)
  then show ?case using n steps_via [OF n Cons.IH] by (auto simp: steps_refl)
qed (simp add: steps_refl)

lemma negotiate_steps:
  assumes "negotiate ps s = (r, t)" shows "steps 0 s t"
proof -
  obtain x a where a: "negotiate_loop [] ps s = (x, a)" by fastforce
  have "core t = core a"
    using assms a by (auto simp: negotiate_def core_def Let_def split: sum.splits if_splits)
  then show ?thesis by (rule steps_then_inert [OF negotiate_loop_steps [OF a]])
qed

lemma resume_steps:
  "resume sp ev s = Inr ((ev', rs), t) \<Longrightarrow> steps 1 s t \<and> rs = []"
  by (auto simp: resume_def dest!: restore_session_steps handle_connection_lost_steps0
      elim: steps_le split: if_splits)

lemma handshake_core [simp]: "core (handshake_over s) = core s"
  by (simp add: handshake_over_def core_def)

lemma connected_steps:
  assumes "connected code sp ps s = (ev, t)" and "\<not> me_is_connected s" shows "steps 0 s t"
proof -
  have "core t = core (s\<lparr>me_is_connected := (code = 0)\<rparr>)"
    using assms(1) by (cases "code = 0") (auto simp: connected_def reset_reconnect_state_def core_def Let_def)
  then show ?thesis
    using steps_then_inert [OF micro_steps [OF set_connected [OF assms(2), of "code = 0"], of 0]] by simp
qed

lemma connack3_steps:
  assumes "connack3_received ack s = Inr ((ev, rs), t)" and "\<not> me_is_connected s"
  shows "steps 1 s t \<and> rs = []"
proof (cases "ca3_session_present ack \<and> \<not> ps_has_session (me_state s)")
  case True
  then show ?thesis using assms(1) by (auto simp: connack3_received_def dest!: failed_with_steps elim: steps_le)
next
  case False
  obtain e a where a: "connected (ca3_return_code ack) (ca3_session_present ack) None (handshake_over s) = (e, a)"
    by fastforce
  have "steps 0 (handshake_over s) a"
    by (rule connected_steps [OF a]) (use assms(2) in \<open>simp add: handshake_over_def\<close>)
  then have "steps 0 s a" by (rule core_then_steps [OF handshake_core])
  moreover have "resume (ca3_session_present ack) e a = Inr ((ev, rs), t)"
    using assms(1) False a by (auto simp: connack3_received_def)
  ultimately show ?thesis using resume_steps steps_via [of 0 s a 1 t 1] by auto
qed

lemma negotiate_not_connected:
  assumes "negotiate ps s = (r, t)" shows "me_is_connected t = me_is_connected s"
proof -
  have p: "negotiate_property p s = (r, t) \<Longrightarrow> me_is_connected t = me_is_connected s" for p s r t
    by (cases p) (auto simp: negotiate_property_def Let_def split: if_splits)
  have l: "negotiate_loop prev ps s = (r, t) \<Longrightarrow> me_is_connected t = me_is_connected s" for prev r t
    by (induction ps arbitrary: prev s) (auto dest: p split: if_splits prod.splits sum.splits)
  show ?thesis
    using assms by (auto simp: negotiate_def Let_def dest!: l split: prod.splits sum.splits if_splits)
qed

lemma connack5_steps:
  assumes "connack5_received ack s = Inr ((ev, rs), t)" and "\<not> me_is_connected s"
  shows "steps 1 s t \<and> rs = []"
proof -
  let ?ps = "unwrap_or_default (ca_properties ack)"
  obtain r a where n: "negotiate ?ps (handshake_over s) = (r, a)" by fastforce
  have a: "steps 0 s a" by (rule core_then_steps [OF handshake_core negotiate_steps [OF n]])
  obtain e b where b: "connected (ca_reason_code ack) (ca_session_present ack) (ca_properties ack) a = (e, b)"
    by fastforce
  have "\<not> me_is_connected a"
    using negotiate_not_connected [OF n] assms(2) by (simp add: handshake_over_def)
  then have b': "steps 0 s b" using steps_via [OF a connected_steps [OF b]] by simp
  let ?c = "case receive_maximum_of ?ps of None \<Rightarrow> b
    | Some m \<Rightarrow> b\<lparr>me_inflight_queue := update_receive_maximum (min m (o_receive_maximum (me_options b)))
        (me_inflight_queue b)\<rparr>"
  have c: "steps 0 s ?c"
    using b' steps_then [OF b' quota] by (auto split: option.splits)
  have "(\<exists>e. failed_with [] e s = Inr ((ev, rs), t)) \<or> (\<exists>e. failed_with [] e a = Inr ((ev, rs), t)) \<or>
      resume (ca_session_present ack) e ?c = Inr ((ev, rs), t)"
    using assms(1) n b
    by (auto simp: connack5_received_def Let_def split: if_splits sum.splits)
  then show ?thesis
    using resume_steps steps_via [OF c, of 1 t 1] steps_via [OF a, of 0 t 1]
    by (auto dest!: failed_with_steps elim: steps_le)
qed

lemma steps_01: "steps 0 s t \<Longrightarrow> steps 1 s t"
  by (erule steps_le) simp

lemma dispatch_packet_steps:
  assumes "dispatch_packet p stream s = Inr ((ev, rs), t)"
    and "MqttPacket_packet_type p = CONNACK \<longrightarrow> \<not> me_is_connected s"
    and "MqttPacket_packet_type p \<notin> {CONNACK, AUTH, DISCONNECT} \<longrightarrow> me_is_connected s"
  shows "steps (1 - int (length rs)) s t"
proof -
  have r0: "steps 0 s t \<and> length rs \<le> 1 \<Longrightarrow> ?thesis"
    and r1: "steps 1 s t \<and> rs = [] \<Longrightarrow> ?thesis"
    and r2: "steps 0 s t \<and> rs = [] \<Longrightarrow> ?thesis"
    by (auto elim: steps_le)
  note unfold = assms(1) [unfolded dispatch_packet_def]
  show ?thesis
  proof (cases p)
    case (P_ConnAck5 x2)
    then show ?thesis using unfold assms(2) by (intro r1) (auto dest: connack5_steps)
  next
    case (P_ConnAck3 x)
    then show ?thesis using unfold assms(2) by (intro r1) (auto dest: connack3_steps)
  next
    case (P_Publish5 x)
    then show ?thesis using unfold assms(3) by (intro r0) (auto dest: receive_message_steps)
  next
    case (P_Publish3 x)
    then show ?thesis using unfold assms(3) by (intro r0) (auto dest: receive_message_steps)
  next
    case (P_PubRel5 x)
    then show ?thesis using unfold by (intro r0) (auto dest: receive_pubrel_steps)
  next
    case (P_PubRel3 x)
    then show ?thesis using unfold by (intro r0) (auto dest: receive_pubrel_steps)
  next
    case (P_PubRec3 x)
    then show ?thesis using unfold by (intro r0) (auto dest: pubrec_received_steps simp: is_quota_packet_def)
  next
    case (P_PubRec5 x)
    show ?thesis
    proof (cases "0x80 \<le> ack_reason_code x")
      case True
      then show ?thesis using unfold P_PubRec5 by (intro r2) (auto dest: published_steps split: prod.splits)
    next
      case False
      then show ?thesis
        using unfold P_PubRec5 by (intro r0) (auto dest: pubrec_received_steps simp: is_quota_packet_def)
    qed
  next
    case (P_Auth x)
    then show ?thesis using unfold by (intro r2) (auto dest: auth_received_steps)
  next
    case (P_Disconnect5 x)
    then show ?thesis using unfold by (intro r2) (auto dest: handle_connection_lost_steps0)
  qed (use unfold in \<open>auto intro!: steps_01 dest!: published_steps simp: completed_steps steps_refl core_def
         intro: inert_steps split: prod.splits\<close>)
qed

lemma handle_packet_steps:
  assumes "handle_packet p stream s = Inr ((ev, rs), t)" shows "steps (1 - int (length rs)) s t"
proof -
  obtain b a where a: "accept_incoming (MqttPacket_packet_type p) s = Inr (b, a)"
    using assms by (auto simp: handle_packet_def)
  show ?thesis
  proof (cases b)
    case False
    then have "rs = [] \<and> core t = core a"
      using assms a by (auto simp: handle_packet_def take_events_def)
    then show ?thesis
      using steps_then_inert [OF accept_incoming_steps [OF a]] by (auto intro: steps_01)
  next
    case True
    with a have "accept_incoming (MqttPacket_packet_type p) s = Inr (True, a)" by simp
    note acc = accept_incoming_True [OF this]
    have "rs = [] \<and> steps 0 s t \<or> dispatch_packet p stream s = Inr ((ev, rs), t)"
      using assms a True acc
      by (auto simp: handle_packet_def steps_refl dest!: failed_with_steps split: sum.splits if_splits)
    then show ?thesis using dispatch_packet_steps acc by (auto intro: steps_01)
  qed
qed

lemma handle_reduced_steps:
  assumes "handle_reduced_packet p stream s = Inr ((ev, r), t)" shows "steps 0 s t"
proof -
  obtain b a where a: "accept_incoming (ParsedPacket_packet_type p) s = Inr (b, a)"
    using assms by (auto simp: handle_reduced_packet_def)
  have "t = a \<or> core t = core a \<or> handle_connection_lost_inner a = Inr t \<or>
      (\<exists>c ps e. auth_received c ps a = Inr (e, t))"
    using assms a
    by (auto simp: handle_reduced_packet_def type_only_received_def headers_received_def core_def Let_def
        split: if_splits ParsedPacket.splits ControlPacketType.splits VariableHeader.splits)
  moreover note s = accept_incoming_steps [OF a]
  ultimately show ?thesis
    using steps_then_inert [OF s] steps_via [OF s handle_connection_lost_steps0] steps_via [OF s auth_received_steps]
    by auto
qed

section \<open>Properties of steps are properties of operations\<close>

locale engine_frame =
  fixes R :: "MqttEngine \<Rightarrow> MqttEngine \<Rightarrow> bool"
  assumes R_refl: "R s s"
    and R_trans: "R s t \<Longrightarrow> R t u \<Longrightarrow> R s u"
    and R_micro: "micro c s t \<Longrightarrow> R s t"
begin

lemma frame: "steps c s t \<Longrightarrow> R s t"
  by (induction rule: steps.induct) (blast intro: R_refl R_trans R_micro)+

end

text \<open>The clock and the options that limit the engine do not change within an operation.\<close>

definition same_limits :: "MqttEngine \<Rightarrow> MqttEngine \<Rightarrow> bool" where
  "same_limits s t \<longleftrightarrow> me_now t = me_now s \<and> core_options (me_options t) = core_options (me_options s) \<and>
     me_reconnect_base_delay t = me_reconnect_base_delay s \<and>
     me_reconnect_max_delay t = me_reconnect_max_delay s \<and>
     me_max_reconnect_attempts t = me_max_reconnect_attempts s"

interpretation limits: engine_frame same_limits
proof
  show "same_limits s t" if "micro c s t" for c s t
    using that by (induction rule: micro.induct) (auto simp: same_limits_def core_def close_input_def)
qed (auto simp: same_limits_def)

text \<open>
  An operation leaves the input alone or closes it, and a closed input holds no unread bytes that an
  operation could add to.
\<close>

definition quiet :: "MqttEngine \<Rightarrow> MqttEngine \<Rightarrow> bool" where
  "quiet s t \<longleftrightarrow>
     (me_parser t = me_parser s \<and> ps_input_closed (me_state t) = ps_input_closed (me_state s)) \<or>
     (unread (me_parser t) = [] \<and> parser_inv (me_parser t) \<and> ps_input_closed (me_state t))"

lemma close_input_quiet: "close_input s = Inr t \<Longrightarrow> quiet s t"
  by (auto simp: close_input_def quiet_def unread_def parser_inv_def buffer_mut_def compact_def Let_def
      split: if_splits)

interpretation input: engine_frame quiet
proof
  show "quiet s t" if "micro c s t" for c s t
    using that
  proof (induction rule: micro.induct)
    case (close s s')
    then show ?case by (rule close_input_quiet)
  qed (auto simp: quiet_def core_def unread_def MqttParser_new_def parser_inv_def)
qed (auto simp: quiet_def)

text \<open>Packets that are waiting, and what a step can add to them.\<close>

definition pending :: "MqttEngine \<Rightarrow> nat" where
  "pending s = length (me_outgoing_buffer s) + length (ps_responses (me_state s)) +
     length (me_session_replay s) + length (me_previous_inflight s) + pq_len (me_priority_queue s)"

lemma pq_len_dequeue: "dequeue q = (Some x, q') \<Longrightarrow> pq_len q = Suc (pq_len q')"
  by (auto simp: dequeue_def pq_len_def split: if_splits prod.splits list.splits)

lemma pq_len_enqueue: "pq_len (enqueue p x q) \<le> Suc (pq_len q)"
  by (auto simp: enqueue_def drop_lowest_priority_def pq_len_def Let_def split: list.splits)

lemma pq_len_map_items [simp]: "pq_len (pq_map_items f q) = pq_len q"
  by (simp add: pq_len_def pq_map_items_def)

lemma micro_pending: "micro c s t \<Longrightarrow> int (pending t) \<le> int (pending s) + c"
proof (induction rule: micro.induct)
  case (queue s pr p)
  then show ?case using pq_len_enqueue [of pr p "me_priority_queue s"] by (simp add: pending_def)
next
  case (unqueue s x q)
  then show ?case using pq_len_dequeue [of "me_priority_queue s" x q] by (simp add: pending_def)
qed (auto simp: pending_def core_def close_input_def)

lemma steps_pending: "steps c s t \<Longrightarrow> int (pending t) \<le> int (pending s) + c"
  by (induction rule: steps.induct) (auto dest: micro_pending)

end
