(* ===== verification/Engine_Run.thy ===== *)
theory Engine_Run
  imports Engine_Steps
begin

text \<open>
  The driving interface of the engine: incoming bytes, ticks, outgoing bytes, packets of single
  streams (\<open>src/src/mqtt_client/engine.rs\<close>), and the entry points with an explicit clock
  (\<open>engine/explicit.rs\<close>).  The loop over the incoming packets and the loop that collects the output
  are total functions; their termination proofs use the steps of \<open>Engine_Steps\<close>.
\<close>

declare map_of_eq_Some_iff [simp del] Some_eq_map_of_iff [simp del]

section \<open>Incoming bytes\<close>

text \<open>The arms of \<open>handle_incoming_inner\<close> for a packet.\<close>

definition incoming_packet :: "ParsedPacket \<Rightarrow> MqttEngine \<Rightarrow> string + MqttEngine" where
  "incoming_packet packet s = (case packet of
     Parsed_Full p \<Rightarrow>
       tryE (handle_packet p None s) (\<lambda>((packet_events, responses), s).
       let s = s\<lparr>me_events := me_events s @ packet_events\<rparr>;
           s = me_state_update (\<lambda>st. st\<lparr>ps_responses := ps_responses st @ responses\<rparr>) s
       in flush_responses s)
   | _ \<Rightarrow>
       tryE (handle_reduced_packet packet None s) (\<lambda>((event, response), s).
       let s = (case event of None \<Rightarrow> s | Some e \<Rightarrow> push_event e s)
       in case response of
            None \<Rightarrow> Inr s
          | Some r \<Rightarrow> flush_responses (me_state_update (\<lambda>st. st\<lparr>ps_responses := ps_responses st @ [r]\<rparr>) s)))"

lemma advance_shrinks:
  assumes "parser_inv p" and "advance n p = Inr p'" and "0 < n"
  shows "length (unread p') < length (unread p)"
proof -
  have n: "n \<le> length (unread p)"
    using assms(1,2) by (auto simp: advance_def parser_buffer_unread split: if_splits)
  then have "unread p' = drop n (unread p)" using advance_refines [OF assms(1) n] assms(2) by auto
  then show ?thesis using n assms(3) by simp
qed

lemma next_from_frame_shrinks:
  assumes "parser_inv p" and "next_from_frame parse (unread p) p = (Inr (Some pkt), p')"
  shows "length (unread p') < length (unread p)"
proof -
  obtain n where n: "packet_frame_len (unread p) = Inr (Some n)" "advance n p = Inr p'"
    using assms(2)
    by (auto simp: next_from_frame_def take_frame_def split: sum.splits option.splits LeveledParseOk.splits)
  then have "2 \<le> n" by (auto simp: packet_frame_len_Some dest: frame_size_ge_2)
  then show ?thesis using advance_shrinks [OF assms(1) n(2)] by simp
qed

lemma next_parsed_shrinks:
  assumes "next_parsed p = (Inr (Some pkt), p')" shows "length (unread p') < length (unread p)"
proof -
  have inv: "parser_inv p"
    using assms by (auto simp: next_parsed_def parser_buffer_def get_from_def parser_inv_def split: if_splits)
  show ?thesis
  proof (cases "mp_level p")
    case Level_Full
    then obtain q where q: "next_packet p = (Inr (Some q), p')"
      using assms inv
      by (auto simp: next_parsed_def parser_buffer_unread split: if_splits prod.splits sum.splits)
    then have "mp_version p \<noteq> 0" by (auto simp: next_packet_def)
    from next_packet_refines(1) [OF inv this q] show ?thesis using abs_next_shrinks by metis
  next
    case Level_TypeOnly
    then obtain n q where n: "parse_type_only (unread p) = Inr (L_Packet q n)" "advance n p = Inr p'"
      using assms inv
      by (auto simp: next_parsed_def parser_buffer_unread split: if_splits sum.splits LeveledParseOk.splits)
    from open_leveled_frame [OF n(1) [unfolded parse_type_only_def]] have "0 < n" by auto
    then show ?thesis using advance_shrinks [OF inv n(2)] by simp
  next
    case Level_RawBody
    then show ?thesis
      using assms inv next_from_frame_shrinks [OF inv]
      by (auto simp: next_parsed_def parser_buffer_unread split: if_splits)
  next
    case Level_HeadersParsed
    then show ?thesis
      using assms inv next_from_frame_shrinks [OF inv]
      by (auto simp: next_parsed_def parser_buffer_unread split: if_splits)
  qed
qed

text \<open>What the handling of a packet can add to the waiting packets.\<close>

lemma pending_responses [simp]:
  "pending (me_state_update (\<lambda>st. st\<lparr>ps_responses := ps_responses st @ rs\<rparr>) s) = pending s + length rs"
  by (simp add: pending_def)

lemma quiet_responses:
  "quiet s (me_state_update (\<lambda>st. st\<lparr>ps_responses := rs st\<rparr>) s)"
  by (simp add: quiet_def)

lemma core_pending: "core t = core s \<Longrightarrow> pending t = pending s"
  by (simp add: core_def pending_def)

lemma core_quiet: "core t = core s \<Longrightarrow> quiet s t"
  by (simp add: core_def quiet_def)

lemma flush_effect: "flush_responses s = Inr t \<Longrightarrow> quiet s t \<and> pending t \<le> pending s"
  using input.frame [OF flush_responses_steps] steps_pending [OF flush_responses_steps] by fastforce

lemma answered_effect:
  assumes "steps c s a" and "core b = core a"
    and "flush_responses (me_state_update (\<lambda>st. st\<lparr>ps_responses := ps_responses st @ rs\<rparr>) b) = Inr t"
    and "c + int (length rs) \<le> 1"
  shows "quiet s t \<and> pending t \<le> Suc (pending s)"
proof -
  let ?b = "me_state_update (\<lambda>st. st\<lparr>ps_responses := ps_responses st @ rs\<rparr>) b"
  have "quiet ?b t" "pending t \<le> pending a + length rs"
    using flush_effect [OF assms(3)] core_pending [OF assms(2)] by simp_all
  moreover have "quiet s ?b"
    using input.R_trans [OF input.R_trans [OF input.frame [OF assms(1)] core_quiet [OF assms(2)]] quiet_responses] .
  ultimately show ?thesis
    using steps_pending [OF assms(1)] assms(4) input.R_trans [of s ?b t] by linarith
qed

lemma incoming_packet_effect:
  assumes "incoming_packet pkt s = Inr t"
  shows "quiet s t \<and> pending t \<le> Suc (pending s)"
proof (cases "\<exists>p. pkt = Parsed_Full p")
  case True
  then obtain p ev rs a where a: "handle_packet p None s = Inr ((ev, rs), a)"
    and f: "flush_responses (me_state_update (\<lambda>st. st\<lparr>ps_responses := ps_responses st @ rs\<rparr>)
      (a\<lparr>me_events := me_events a @ ev\<rparr>)) = Inr t"
    using assms by (auto simp: incoming_packet_def Let_def)
  show ?thesis by (rule answered_effect [OF handle_packet_steps [OF a] _ f]) simp_all
next
  case False
  then obtain ev r a where a: "handle_reduced_packet pkt None s = Inr ((ev, r), a)"
    and c: "(case r of None \<Rightarrow> Inr (case ev of None \<Rightarrow> a | Some e \<Rightarrow> push_event e a)
      | Some r \<Rightarrow> flush_responses (me_state_update (\<lambda>st. st\<lparr>ps_responses := ps_responses st @ [r]\<rparr>)
          (case ev of None \<Rightarrow> a | Some e \<Rightarrow> push_event e a))) = Inr t"
    using assms by (cases pkt) (auto simp: incoming_packet_def Let_def)
  have b: "core (case ev of None \<Rightarrow> a | Some e \<Rightarrow> push_event e a) = core a" by (cases ev) simp_all
  show ?thesis
  proof (cases r)
    case None
    then have "core t = core a" using c b by simp
    then have "steps 0 s t" by (rule steps_then_inert [OF handle_reduced_steps [OF a]])
    then show ?thesis using input.frame steps_pending by fastforce
  next
    case (Some p)
    show ?thesis
      by (rule answered_effect [OF handle_reduced_steps [OF a] b, where rs = "[p]"]) (use c Some in simp_all)
  qed
qed

lemma incoming_packet_shrinks:
  assumes "next_parsed (me_parser s) = (Inr (Some packet), parser)"
    and "incoming_packet packet (s\<lparr>me_parser := parser, me_last_packet_received := now\<rparr>) = Inr t"
  shows "length (unread (me_parser t)) < length (unread (me_parser s))"
proof -
  have "length (unread (me_parser t)) \<le> length (unread parser)"
    using incoming_packet_effect [OF assms(2)] by (auto simp: quiet_def)
  then show ?thesis using next_parsed_shrinks [OF assms(1)] by simp
qed

function incoming_loop :: "MqttEngine \<Rightarrow> string + MqttEngine" where
  "incoming_loop s =
     (if ps_responses (me_state s) \<noteq> [] \<or> ps_input_closed (me_state s) then Inr s
      else case parser_buffer (me_parser s) of
        Inl _ \<Rightarrow> Inl ''slice index out of range''
      | Inr buffer \<Rightarrow>
          (case validate_input_buffer (me_options s) buffer of
             Inl error \<Rightarrow> fail_connection error s
           | Inr _ \<Rightarrow>
               if o_max_event_count (me_options s) \<le> length (me_events s) then Inr s
               else
                 (case next_parsed (me_parser s) of
                    (Inr (Some packet), parser) \<Rightarrow>
                      tryE (incoming_packet packet (s\<lparr>me_parser := parser, me_last_packet_received := me_now s\<rparr>))
                        (\<lambda>s. incoming_loop s)
                  | (Inr None, parser) \<Rightarrow> Inr (s\<lparr>me_parser := parser\<rparr>)
                  | (Inl (Panic m), parser) \<Rightarrow> Inl m
                  | (Inl e, parser) \<Rightarrow> fail_connection (from_parse_error e) (s\<lparr>me_parser := parser\<rparr>))))"
  by pat_completeness auto
termination
  by (relation "measure (\<lambda>s. length (unread (me_parser s)))") (auto intro: incoming_packet_shrinks [OF sym])

declare incoming_loop.simps [simp del]

text \<open>\<open>handle_incoming_inner\<close> after the checks.\<close>

definition process_incoming :: "bytes \<Rightarrow> MqttEngine \<Rightarrow> (MqttEvent list) eng" where
  "process_incoming data s =
     tryE (expect_ok ''slice index out of range'' (feed data (me_parser s))) (\<lambda>parser.
     tryE (flush_responses (s\<lparr>me_parser := parser\<rparr>)) (\<lambda>s.
     tryE (incoming_loop s) (\<lambda>s.
     tryE (process_queue s) (\<lambda>s. Inr (take_events s)))))"

definition handle_incoming_inner :: "bytes \<Rightarrow> MqttEngine \<Rightarrow> (MqttEvent list) eng" where
  "handle_incoming_inner data s =
     (if ps_input_closed (me_state s) then Inr (take_events s)
      else
        tryE (expect_ok ''slice index out of range'' (parser_buffer (me_parser s))) (\<lambda>buffer.
        case o_max_incoming_buffer_bytes (me_options s) of
          Some capacity \<Rightarrow>
            if capacity < length buffer + length data
            then tryE (fail_connection (BufferFull ''incoming bytes'' capacity) s) (\<lambda>s. Inr (take_events s))
            else process_incoming data s
        | None \<Rightarrow> process_incoming data s))"

section \<open>Ticks\<close>

definition operation_text :: "OperationKind \<Rightarrow> string" where
  "operation_text operation = (case operation of
     Op_Connect \<Rightarrow> ''Connect'' | Op_Publish \<Rightarrow> ''Publish'' | Op_Subscribe \<Rightarrow> ''Subscribe''
   | Op_Unsubscribe \<Rightarrow> ''Unsubscribe'')"

text \<open>The expired deadlines, in the iteration order of the hash map.\<close>

fun expire_deadlines ::
  "Timestamp \<Rightarrow> ((OperationKind \<times> u16 option) \<times> Duration) list \<Rightarrow> MqttEngine \<Rightarrow> string + MqttEngine" where
  "expire_deadlines now [] s = Inr s"
| "expire_deadlines now (((operation, packet_id), duration) # rest) s =
     (let s = me_state_update (\<lambda>st. st\<lparr>ps_deadlines := hm_remove (operation, packet_id) (ps_deadlines st)\<rparr>) s;
          s = push_event (OperationFailed operation packet_id
                (OperationTimeout (operation_text operation) (of_nat (min (duration_as_millis duration) (2 ^ 64 - 1))))) s
      in tryE (if operation = Op_Connect then connection_lost_at now s else Inr s) (\<lambda>s.
         expire_deadlines now rest s))"

definition check_deadlines :: "Timestamp \<Rightarrow> MqttEngine \<Rightarrow> string + MqttEngine" where
  "check_deadlines now s =
     expire_deadlines now
       (map (\<lambda>(key, (_, duration)). (key, duration))
          (filter (\<lambda>(_, (at, _)). at \<le> now) (ps_deadlines (me_state s)))) s"

fun retransmit :: "Timestamp \<Rightarrow> (MqttPacket \<times> u64 option) list \<Rightarrow> MqttEngine \<Rightarrow> MqttEngine" where
  "retransmit now [] s = s"
| "retransmit now ((packet, stream) # rest) s =
     (let packet = set_dup True packet in
      case MqttPacket_to_bytes packet of
        Inl _ \<Rightarrow> retransmit now rest s
      | Inr bytes \<Rightarrow>
          let s = (case stream of
                Some stream_id \<Rightarrow>
                  s\<lparr>me_stream_retransmissions := me_stream_retransmissions s @ [(stream_id, bytes)]\<rparr>
              | None \<Rightarrow>
                  (case enqueue_packet_inner packet s of
                     (Inr _, s) \<Rightarrow> s
                   | (Inl (BufferFull _ _), s) \<Rightarrow> s
                   | (Inl error, s) \<Rightarrow> push_event (EventError error) s))
          in retransmit now rest (s\<lparr>me_last_packet_sent := now\<rparr>))"

definition handle_retransmissions :: "Timestamp \<Rightarrow> MqttEngine \<Rightarrow> string + MqttEngine" where
  "handle_retransmissions now s =
     tryE (expect_ok ''validated engine time'' (get_expired_with_stream_at now (me_inflight_queue s)))
       (\<lambda>(expired, q). Inr (retransmit now expired (s\<lparr>me_inflight_queue := q\<rparr>)))"

definition keep_alive_of :: "MqttEngine \<Rightarrow> Duration" where
  "keep_alive_of s = from_secs (unat (ps_keep_alive (me_state s)))"

definition ping_timeout_of :: "MqttEngine \<Rightarrow> Duration" where
  "ping_timeout_of s = keep_alive_of s * unat (o_ping_timeout_multiplier (me_options s))"

definition ping_timed_out :: "Timestamp \<Rightarrow> MqttEngine \<Rightarrow> bool" where
  "ping_timed_out now s \<longleftrightarrow> 0 < keep_alive_of s \<and>
     (case me_ping_sent_at s of
        None \<Rightarrow> False
      | Some sent_at \<Rightarrow> ping_timeout_of s \<le> saturating_duration_since now sent_at)"

definition ping_due :: "Timestamp \<Rightarrow> MqttEngine \<Rightarrow> bool" where
  "ping_due now s \<longleftrightarrow> me_ping_sent_at s = None \<and> o_auto_keepalive (me_options s) \<and>
     0 < keep_alive_of s \<and> keep_alive_of s \<le> saturating_duration_since now (me_last_packet_sent s)"

text \<open>The part of \<open>handle_tick_inner\<close> for a connected engine.\<close>

definition connected_tick :: "Timestamp \<Rightarrow> MqttEngine \<Rightarrow> (MqttEvent list) eng" where
  "connected_tick now s =
     (if ping_timed_out now s then
        tryE (connection_lost_at now s) (\<lambda>s. Inr (take_events (push_event (Disconnected None) s)))
      else
        let s = (if ping_due now s then snd (send_ping_inner_at now s) else s) in
        tryE (process_queue s) (\<lambda>s.
        tryE (handle_retransmissions now s) (\<lambda>s. Inr (take_events s))))"

definition handle_tick_inner :: "Timestamp \<Rightarrow> MqttEngine \<Rightarrow> (MqttEvent list) eng" where
  "handle_tick_inner now s =
     tryE (check_deadlines now s) (\<lambda>s.
     tryE (flush_responses s) (\<lambda>s.
     if \<not> me_is_connected s then
       let s = (case me_next_reconnect_at s of
             None \<Rightarrow> s
           | Some reconnect_at \<Rightarrow>
               if reconnect_at \<le> now
               then (push_event ReconnectNeeded s)\<lparr>me_next_reconnect_at := None\<rparr> else s)
       in Inr (take_events s)
     else connected_tick now s))"

definition min_list_option :: "Timestamp list \<Rightarrow> Timestamp option" where
  "min_list_option ts = (case ts of [] \<Rightarrow> None | _ \<Rightarrow> Some (Min (set ts)))"

definition keep_alive_deadline :: "MqttEngine \<Rightarrow> string + Timestamp option" where
  "keep_alive_deadline s =
     (if 0 < keep_alive_of s then
        (case me_ping_sent_at s of
           Some ping_sent_at \<Rightarrow>
             tryE (deadline_from ping_sent_at (ping_timeout_of s)) (\<lambda>t. Inr (Some t))
         | None \<Rightarrow>
             if o_auto_keepalive (me_options s)
             then tryE (deadline_from (me_last_packet_sent s) (keep_alive_of s)) (\<lambda>t. Inr (Some t))
             else Inr None)
      else Inr None)"

abbreviation deadline_times :: "MqttEngine \<Rightarrow> Timestamp list" where
  "deadline_times s \<equiv> map (\<lambda>(_, (at, _)). at) (ps_deadlines (me_state s))"

definition opt_list :: "'a option \<Rightarrow> 'a list" where
  "opt_list x = (case x of None \<Rightarrow> [] | Some y \<Rightarrow> [y])"

definition next_tick_at :: "MqttEngine \<Rightarrow> string + Timestamp option" where
  "next_tick_at s =
     (if \<not> me_is_connected s then
        Inr (min_list_option (opt_list (me_next_reconnect_at s) @ deadline_times s))
      else
        tryE (keep_alive_deadline s) (\<lambda>next.
        let next = (case next_expiration (me_inflight_queue s) of
              None \<Rightarrow> next
            | Some resend_at \<Rightarrow>
                (case next of None \<Rightarrow> Some resend_at
                 | Some t \<Rightarrow> if resend_at < t then Some resend_at else next))
        in Inr (min_list_option (opt_list next @ deadline_times s))))"

definition has_pending_output :: "MqttEngine \<Rightarrow> bool" where
  "has_pending_output s \<longleftrightarrow> me_outgoing_buffer s \<noteq> [] \<or> ps_responses (me_state s) \<noteq> []"

definition take_stream_retransmissions :: "MqttEngine \<Rightarrow> (u64 \<times> bytes) list \<times> MqttEngine" where
  "take_stream_retransmissions s = (me_stream_retransmissions s, s\<lparr>me_stream_retransmissions := []\<rparr>)"

section \<open>Outgoing bytes\<close>

lemma fail_operation_fields [simp]:
  "me_parser (fail_operation i p e s) = me_parser s"
  "me_is_connected (fail_operation i p e s) = me_is_connected s"
  "me_outgoing_buffer (fail_operation i p e s) = me_outgoing_buffer s"
  "me_stream_retransmissions (fail_operation i p e s) = me_stream_retransmissions s"
  "ps_input_closed (me_state (fail_operation i p e s)) = ps_input_closed (me_state s)"
  "ps_connecting (me_state (fail_operation i p e s)) = ps_connecting (me_state s)"
  "ps_responses (me_state (fail_operation i p e s)) = ps_responses (me_state s)"
  "ps_incoming_quota_used (me_state (fail_operation i p e s)) = ps_incoming_quota_used (me_state s)"
  "ps_deadlines (me_state s) = [] \<Longrightarrow> ps_deadlines (me_state (fail_operation i p e s)) = []"
  by (simp_all add: fail_operation_def finish_operation_def Let_def)

lemma fail_all_Cons: "fail_all (x # xs) e s = fail_all xs e (fail_operation (fst x) (snd x) e s)"
  by (simp add: fail_all_def split_beta)

lemma fail_all_fields [simp]:
  "me_parser (fail_all xs e s) = me_parser s"
  "me_is_connected (fail_all xs e s) = me_is_connected s"
  "me_outgoing_buffer (fail_all xs e s) = me_outgoing_buffer s"
  "me_stream_retransmissions (fail_all xs e s) = me_stream_retransmissions s"
  "ps_input_closed (me_state (fail_all xs e s)) = ps_input_closed (me_state s)"
  "ps_connecting (me_state (fail_all xs e s)) = ps_connecting (me_state s)"
  "ps_responses (me_state (fail_all xs e s)) = ps_responses (me_state s)"
  "ps_incoming_quota_used (me_state (fail_all xs e s)) = ps_incoming_quota_used (me_state s)"
  "ps_deadlines (me_state s) = [] \<Longrightarrow> ps_deadlines (me_state (fail_all xs e s)) = []"
  by (induction xs arbitrary: s) (simp_all add: fail_all_Cons, simp_all add: fail_all_def)

text \<open>What is left of a connection that was lost.\<close>

definition disconnected :: "MqttEngine \<Rightarrow> bool" where
  "disconnected s \<longleftrightarrow> \<not> me_is_connected s \<and> \<not> ps_connecting (me_state s) \<and> ps_input_closed (me_state s) \<and>
     unread (me_parser s) = [] \<and> parser_inv (me_parser s) \<and> me_outgoing_buffer s = [] \<and>
     me_stream_retransmissions s = [] \<and> ps_responses (me_state s) = [] \<and>
     ps_incoming_quota_used (me_state s) = 0 \<and> ps_deadlines (me_state s) = [] \<and> me_ping_sent_at s = None"

definition idle :: "MqttEngine \<Rightarrow> bool" where
  "idle s \<longleftrightarrow> \<not> me_is_connected s \<and> \<not> ps_connecting (me_state s) \<and> ps_input_closed (me_state s) \<and>
     ps_responses (me_state s) = [] \<and> ps_incoming_quota_used (me_state s) = 0 \<and> ps_deadlines (me_state s) = []"

lemma close_input_idle: "close_input s = Inr t \<Longrightarrow> idle t"
  by (auto simp: close_input_def idle_def)

lemma drop_session_idle:
  "idle s \<Longrightarrow> idle (drop_session s)"
  "me_outgoing_buffer (drop_session s) = me_outgoing_buffer s"
  "me_stream_retransmissions (drop_session s) = me_stream_retransmissions s"
  by (simp_all add: drop_session_def idle_def Let_def)

lemma reset_disconnected:
  assumes "reset_for_new_transport_inner s = Inr t" shows "disconnected t"
proof -
  obtain a n where a: "close_input s = Inr a"
    and n: "queued_size (map snd (items (pq_map_items canonical (me_priority_queue a)))) = Inr n"
    using assms by (auto simp: reset_for_new_transport_inner_def Let_def)
  define x where "x = a\<lparr>me_outgoing_buffer := [], me_configured_subscriptions_pending := False,
       me_stream_retransmissions := [],
       me_inflight_queue := update_receive_maximum (o_receive_maximum (me_options a)) (me_inflight_queue a),
       me_priority_queue := pq_map_items canonical (me_priority_queue a)\<rparr>"
  define d where "d = me_state_update (reset_state (o_keep_alive (me_options x)) n) x"
  have d: "idle d" "me_outgoing_buffer d = []" "me_stream_retransmissions d = []"
    using close_input_idle [OF a] by (simp_all add: d_def x_def idle_def reset_state_def Let_def)
  define e where "e = (if o_sessionless (me_options d) then drop_session d else d)"
  have e: "idle e" "me_outgoing_buffer e = []" "me_stream_retransmissions e = []"
    using d by (simp_all add: e_def drop_session_idle)
  have "t = e\<lparr>me_parser := MqttParser_new (o_mqtt_version (me_options e)),
      me_next_reconnect_at := None, me_last_packet_sent := me_now e,
      me_last_packet_received := me_now e, me_ping_sent_at := None\<rparr>"
    using assms a n by (simp add: reset_for_new_transport_inner_def Let_def e_def d_def x_def cong: if_cong)
  then show ?thesis
    using e by (simp add: disconnected_def idle_def unread_def parser_inv_def MqttParser_new_def)
qed

lemma connection_lost_disconnected:
  assumes "connection_lost_at now s = Inr t" shows "disconnected t"
proof -
  have keep: "disconnected (u\<lparr>me_next_reconnect_at := x, me_reconnect_attempts := y\<rparr>) = disconnected u"
    "disconnected (u\<lparr>me_next_reconnect_at := x\<rparr>) = disconnected u" for u x y
    by (simp_all add: disconnected_def)
  have ev: "disconnected (u\<lparr>me_events := es\<rparr>) = disconnected u" for u es by (simp add: disconnected_def)
  show ?thesis
    using assms reset_disconnected
    by (auto simp: connection_lost_at_def schedule_reconnect_inner_def Let_def keep ev split: if_splits)
qed

lemma fail_connection_disconnected:
  assumes "fail_connection e s = Inr t" shows "disconnected t"
proof -
  have ev: "disconnected (u\<lparr>me_events := es\<rparr>) = disconnected u" for u es by (simp add: disconnected_def)
  show ?thesis using assms connection_lost_disconnected by (auto simp: fail_connection_def ev)
qed

text \<open>
  Bytes and packets that are still to be handled.  A round of \<open>take_outgoing_inner\<close> never adds to
  them and removes what it returns.
\<close>

definition backlog :: "MqttEngine \<Rightarrow> nat" where
  "backlog s = length (unread (me_parser s)) + pending s"

lemma steps_backlog:
  assumes "steps c s t" and "c \<le> 0" shows "backlog t \<le> backlog s"
  using steps_pending [OF assms(1)] input.frame [OF assms(1)] assms(2) by (auto simp: backlog_def quiet_def)

lemma core_backlog: "core t = core s \<Longrightarrow> backlog t = backlog s"
  by (simp add: backlog_def core_def pending_def)

lemma next_parsed_None:
  assumes "next_parsed p = (Inr None, p')" shows "p' = p"
proof -
  have pk: "next_packet p = (Inr None, q) \<Longrightarrow> q = p" for q
    by (auto simp: next_packet_def split: if_splits sum.splits option.splits ParseOk.splits)
  have ff: "next_from_frame f b p = (Inr None, q) \<Longrightarrow> q = p" for f b q
    by (auto simp: next_from_frame_def split: sum.splits option.splits LeveledParseOk.splits)
  show ?thesis
    using assms pk ff
    by (auto simp: next_parsed_def
        split: sum.splits if_splits ParseLevel.splits prod.splits LeveledParseOk.splits)
qed

text \<open>
  Why the loop over the incoming packets ends: the input is closed, or responses wait for room in the
  output, or the application has events to fetch, or the unread bytes hold no complete packet.
\<close>

definition incoming_done :: "MqttEngine \<Rightarrow> bool" where
  "incoming_done s \<longleftrightarrow> ps_input_closed (me_state s) \<or> ps_responses (me_state s) \<noteq> [] \<or>
     o_max_event_count (me_options s) \<le> length (me_events s) \<or>
     next_parsed (me_parser s) = (Inr None, me_parser s)"

lemma incoming_loop_cases:
  assumes "incoming_loop s = Inr t"
  obtains "t = s" "incoming_done s"
  | e p where "p = me_parser s \<or> (\<exists>r. next_parsed (me_parser s) = (r, p))"
      "fail_connection e (s\<lparr>me_parser := p\<rparr>) = Inr t"
  | pkt p u b where "next_parsed (me_parser s) = (Inr (Some pkt), p)"
      "incoming_packet pkt (s\<lparr>me_parser := p, me_last_packet_received := me_now s\<rparr>) = Inr u"
      "incoming_loop u = Inr t" "\<not> (ps_responses (me_state s) \<noteq> [] \<or> ps_input_closed (me_state s))"
      "parser_buffer (me_parser s) = Inr b" "validate_input_buffer (me_options s) b = Inr ()"
      "\<not> o_max_event_count (me_options s) \<le> length (me_events s)"
proof (cases "ps_responses (me_state s) \<noteq> [] \<or> ps_input_closed (me_state s)")
  case True
  then show thesis using assms that(1) by (auto simp: incoming_loop.simps incoming_done_def)
next
  case opn: False
  note step = assms [unfolded incoming_loop.simps [of s], unfolded if_not_P [OF opn]]
  then obtain b where b: "parser_buffer (me_parser s) = Inr b" by (auto split: sum.splits)
  note step = step [unfolded b sum.case]
  show thesis
  proof (cases "validate_input_buffer (me_options s) b")
    case (Inl e)
    then show thesis using step that(2) [of "me_parser s" e] by simp
  next
    case v: (Inr u)
    note step = step [unfolded v sum.case]
    show thesis
    proof (cases "o_max_event_count (me_options s) \<le> length (me_events s)")
      case True
      then show thesis using step that(1) by (simp add: incoming_done_def)
    next
      case room: False
      obtain r p where n: "next_parsed (me_parser s) = (r, p)" by fastforce
      note step = step [unfolded if_not_P [OF room] n prod.case]
      show thesis
      proof (cases r)
        case (Inl e)
        then show thesis using step n that(2) [of p "from_parse_error e"] by (cases e) auto
      next
        case (Inr x)
        show thesis
        proof (cases x)
          case None
          then have "p = me_parser s" using n Inr next_parsed_None by simp
          then show thesis using step n Inr None that(1) by (simp add: incoming_done_def)
        next
          case (Some pkt)
          then show thesis using step n Inr opn b v room that(3) [of pkt p] by auto
        qed
      qed
    qed
  qed
qed

lemma fail_connection_backlog:
  assumes "fail_connection e (s\<lparr>me_parser := p\<rparr>) = Inr t" shows "backlog t \<le> backlog s"
  using fail_connection_disconnected [OF assms] steps_pending [OF fail_connection_steps0 [OF assms]]
  by (simp add: backlog_def pending_def disconnected_def)

lemma incoming_loop_backlog: "incoming_loop s = Inr t \<Longrightarrow> backlog t \<le> backlog s"
proof (induction s rule: incoming_loop.induct)
  case (1 s)
  from "1.prems" show ?case
  proof (cases rule: incoming_loop_cases)
    case (3 pkt p u b)
    have "backlog t \<le> backlog u"
      by (rule "1.IH" [OF 3(4,5,6,7) 3(1) [symmetric] refl refl 3(2,3)])
    moreover have "length (unread (me_parser u)) < length (unread (me_parser s))"
      by (rule incoming_packet_shrinks [OF 3(1,2)])
    moreover have "pending u \<le> Suc (pending s)"
      using incoming_packet_effect [OF 3(2)] by (simp add: pending_def)
    ultimately show ?thesis by (simp add: backlog_def)
  qed (auto dest: fail_connection_backlog)
qed

lemma take_events_backlog: "take_events s = (ev, t) \<Longrightarrow> backlog t = backlog s"
  by (auto simp: take_events_def intro: core_backlog)

lemma process_incoming_backlog:
  assumes "process_incoming data s = Inr (ev, t)" shows "backlog t \<le> backlog s + length data"
proof -
  obtain p a b c where p: "feed data (me_parser s) = Inr p"
    and a: "flush_responses (s\<lparr>me_parser := p\<rparr>) = Inr a" and b: "incoming_loop a = Inr b"
    and c: "process_queue b = Inr c" and t: "take_events c = (ev, t)"
    using assms by (auto simp: process_incoming_def)
  have "parser_inv (me_parser s)"
    using p by (auto simp: feed_def parser_buffer_def get_from_def parser_inv_def split: if_splits)
  then have "unread p = unread (me_parser s) @ data" using feed_refines [of "me_parser s" data] p by auto
  then have "backlog (s\<lparr>me_parser := p\<rparr>) = backlog s + length data"
    by (simp add: backlog_def pending_def)
  then show ?thesis
    using steps_backlog [OF flush_responses_steps [OF a]] incoming_loop_backlog [OF b]
      steps_backlog [OF process_queue_steps [OF c]] take_events_backlog [OF t] by simp
qed

lemma handle_incoming_cases:
  assumes "handle_incoming_inner data s = Inr (ev, t)"
  obtains "take_events s = (ev, t)" | e a where "fail_connection e s = Inr a" "take_events a = (ev, t)"
  | "process_incoming data s = Inr (ev, t)"
proof -
  have "take_events s = (ev, t) \<or> (\<exists>e a. fail_connection e s = Inr a \<and> take_events a = (ev, t)) \<or>
      process_incoming data s = Inr (ev, t)"
    using assms by (simp add: handle_incoming_inner_def split: if_splits) (force split: if_splits option.splits)
  then show thesis using that by blast
qed

lemma handle_incoming_backlog:
  assumes "handle_incoming_inner data s = Inr (ev, t)" shows "backlog t \<le> backlog s + length data"
  using assms
proof (cases rule: handle_incoming_cases)
  case (2 e a)
  then show ?thesis using steps_backlog [OF fail_connection_steps0 [OF 2(1)]] take_events_backlog [OF 2(2)] by simp
qed (simp_all add: take_events_backlog process_incoming_backlog)

text \<open>One round after the output has been taken.\<close>

definition refill :: "MqttEngine \<Rightarrow> string + MqttEngine" where
  "refill s =
     tryE (flush_responses s) (\<lambda>s.
     tryE (if \<not> ps_input_closed (me_state s)
           then tryE (handle_incoming_inner [] s) (\<lambda>(events, s). Inr (s\<lparr>me_events := me_events s @ events\<rparr>))
           else Inr s) (\<lambda>s.
     process_queue s))"

lemma refill_backlog:
  assumes "refill s = Inr t" shows "backlog t \<le> backlog s"
proof -
  obtain a b where a: "flush_responses s = Inr a" and b: "process_queue b = Inr t"
    and ab: "b = a \<or> (\<exists>ev c. handle_incoming_inner [] a = Inr (ev, c) \<and> b = c\<lparr>me_events := me_events c @ ev\<rparr>)"
    using assms by (auto simp: refill_def split: if_splits)
  from ab have "backlog b \<le> backlog a"
  proof
    assume "\<exists>ev c. handle_incoming_inner [] a = Inr (ev, c) \<and> b = c\<lparr>me_events := me_events c @ ev\<rparr>"
    then obtain ev c where c: "handle_incoming_inner [] a = Inr (ev, c)" "b = c\<lparr>me_events := me_events c @ ev\<rparr>"
      by blast
    then have "backlog b = backlog c" by (intro core_backlog) simp
    then show ?thesis using handle_incoming_backlog [OF c(1)] by simp
  qed simp
  then show ?thesis
    using steps_backlog [OF flush_responses_steps [OF a]] steps_backlog [OF process_queue_steps [OF b]] by simp
qed

function outgoing_loop :: "MqttEngine \<Rightarrow> bytes eng" where
  "outgoing_loop s =
     (let bytes = concat (me_outgoing_buffer s) in
      tryE (refill (s\<lparr>me_outgoing_buffer := []\<rparr>)) (\<lambda>s.
      if me_outgoing_buffer s = [] then Inr (bytes, s)
      else tryE (outgoing_loop s) (\<lambda>(rest, s). Inr (bytes @ rest, s))))"
  by pat_completeness auto
termination
proof (relation "measure (\<lambda>s. 2 * backlog s + (if me_outgoing_buffer s = [] then 1 else 0))", simp)
  fix s bytes t
  assume "refill (s\<lparr>me_outgoing_buffer := []\<rparr>) = Inr t" and n: "me_outgoing_buffer t \<noteq> []"
  then have "backlog t \<le> backlog (s\<lparr>me_outgoing_buffer := []\<rparr>)" by (rule_tac refill_backlog)
  then have "backlog t + length (me_outgoing_buffer s) \<le> backlog s" by (simp add: backlog_def pending_def)
  then show "(t, s) \<in> measure (\<lambda>s. 2 * backlog s + (if me_outgoing_buffer s = [] then 1 else 0))"
    using n by (cases "me_outgoing_buffer s") auto
qed

declare outgoing_loop.simps [simp del]

definition take_outgoing_inner :: "MqttEngine \<Rightarrow> bytes eng" where
  "take_outgoing_inner s = outgoing_loop s"

section \<open>Packets of single streams\<close>

text \<open>The responses to a packet go back on its own stream; a packet that cannot be encoded is reported.\<close>

fun encode_responses :: "MqttPacket list \<Rightarrow> MqttEvent list \<Rightarrow> bytes \<Rightarrow> MqttEvent list \<times> bytes" where
  "encode_responses [] events response_bytes = (events, response_bytes)"
| "encode_responses (response # rest) events response_bytes =
     (case MqttPacket_to_bytes response of
        Inr bytes \<Rightarrow> encode_responses rest events (response_bytes @ bytes)
      | Inl e \<Rightarrow> encode_responses rest (events @ [EventError (from_parse_error e)]) response_bytes)"

definition ingest_parsed_stream_packet_into ::
  "ParsedPacket \<Rightarrow> u64 \<Rightarrow> MqttEvent list \<Rightarrow> MqttEngine \<Rightarrow> (MqttEvent list \<times> bytes) eng" where
  "ingest_parsed_stream_packet_into packet stream events s =
     (let (waiting, s) = take_events (s\<lparr>me_last_packet_received := me_now s\<rparr>);
          events = events @ waiting
      in
      tryE (case packet of
              Parsed_Full p \<Rightarrow>
                tryE (handle_packet p (Some stream) s) (\<lambda>((packet_events, responses), s).
                Inr (encode_responses responses (events @ packet_events) [], s))
            | _ \<Rightarrow>
                tryE (handle_reduced_packet packet (Some stream) s) (\<lambda>((event, response), s).
                Inr (encode_responses (opt_list response) (events @ opt_list event) [], s)))
        (\<lambda>((events, response_bytes), s).
      let s = (if response_bytes \<noteq> [] then s\<lparr>me_last_packet_sent := me_now s\<rparr> else s) in
      tryE (process_queue s) (\<lambda>s.
      let (waiting, s) = take_events s in Inr ((events @ waiting, response_bytes), s))))"

definition ingest_stream_packet_inner :: "MqttPacket \<Rightarrow> u64 \<Rightarrow> MqttEngine \<Rightarrow> (MqttEvent list \<times> bytes) eng" where
  "ingest_stream_packet_inner packet stream s = ingest_parsed_stream_packet_into (Parsed_Full packet) stream [] s"

section \<open>Entry points with an explicit clock\<close>

definition clock_error :: "string \<Rightarrow> MqttClientError" where
  "clock_error r = InvalidConfiguration ''monotonic_time'' r"

definition horizon :: "MqttClientOptions \<Rightarrow> Duration list" where
  "horizon opts =
     (let timeouts = o_operation_timeouts opts in
      [from_secs 65535 * unat (max (o_ping_timeout_multiplier opts) 1),
       from_millis (unat (o_retransmission_timeout_ms opts)),
       from_millis (unat (o_reconnect_base_delay_ms opts)),
       from_millis (unat (o_reconnect_max_delay_ms opts))]
      @ opt_list (ot_connect timeouts) @ opt_list (ot_publish timeouts)
      @ opt_list (ot_subscribe timeouts) @ opt_list (ot_unsubscribe timeouts))"

definition check_time_range :: "MqttClientOptions \<Rightarrow> Timestamp \<Rightarrow> unit cres" where
  "check_time_range opts now =
     (if list_ex (\<lambda>d. checked_add now d = None) (horizon opts)
      then Inl (clock_error ''timestamp cannot represent the configured deadline horizon'')
      else Inr ())"

definition try_new_at :: "MqttClientOptions \<Rightarrow> Timestamp \<Rightarrow> MqttEngine cres" where
  "try_new_at opts now =
     (if \<not> (3 \<le> o_mqtt_version opts \<and> o_mqtt_version opts \<le> 5) \<or> o_parser_buffer_size opts = 0 \<or>
         o_max_event_count opts = 0 \<or> o_max_outgoing_packet_count opts = 0
      then Inl (InvalidConfiguration ''engine options''
                  ''MQTT version must be 3, 4 or 5 and parser/event/packet limits must be nonzero'')
      else tryE (check_time_range opts now) (\<lambda>_. Inr (MqttEngine_new_at opts now)))"

definition begin_update :: "Timestamp \<Rightarrow> MqttEngine \<Rightarrow> unit cres \<times> MqttEngine" where
  "begin_update now s =
     (if now < me_now s then (Inl (clock_error ''timestamp moved backwards''), s)
      else case check_time_range (me_options s) now of
             Inl e \<Rightarrow> (Inl e, s)
           | Inr _ \<Rightarrow> (Inr (), s\<lparr>me_now := now\<rparr>))"

text \<open>
  Every entry point checks the clock and runs the operation; the next two definitions are the
  bodies of the entry points whose operation returns a result, and of those whose operation cannot
  fail.
\<close>

definition at_time :: "Timestamp \<Rightarrow> (MqttEngine \<Rightarrow> 'a cres eng) \<Rightarrow> MqttEngine \<Rightarrow> 'a cres eng" where
  "at_time now f s = stepE (Inr (begin_update now s)) (\<lambda>_ s. f s)"

definition infallible :: "(MqttEngine \<Rightarrow> 'a eng) \<Rightarrow> MqttEngine \<Rightarrow> 'a cres eng" where
  "infallible f s = tryE (f s) (\<lambda>(x, s). Inr (Inr x, s))"

definition silent :: "(MqttEngine \<Rightarrow> string + MqttEngine) \<Rightarrow> MqttEngine \<Rightarrow> unit cres eng" where
  "silent f s = tryE (f s) (\<lambda>s. Inr (Inr (), s))"

definition handle_connection_lost_at :: "Timestamp \<Rightarrow> MqttEngine \<Rightarrow> unit cres eng" where
  "handle_connection_lost_at now = at_time now (silent handle_connection_lost_inner)"

definition reset_for_new_transport_at :: "Timestamp \<Rightarrow> MqttEngine \<Rightarrow> unit cres eng" where
  "reset_for_new_transport_at now = at_time now (silent reset_for_new_transport_inner)"

definition schedule_reconnect_at :: "Timestamp \<Rightarrow> MqttEngine \<Rightarrow> unit cres eng" where
  "schedule_reconnect_at now = at_time now (silent (schedule_reconnect_inner now))"

definition handle_incoming_at :: "bytes \<Rightarrow> Timestamp \<Rightarrow> MqttEngine \<Rightarrow> (MqttEvent list) cres eng" where
  "handle_incoming_at data now = at_time now (infallible (handle_incoming_inner data))"

definition handle_tick_at :: "Timestamp \<Rightarrow> MqttEngine \<Rightarrow> (MqttEvent list) cres eng" where
  "handle_tick_at now = at_time now (infallible (handle_tick_inner now))"

definition take_outgoing_at :: "Timestamp \<Rightarrow> MqttEngine \<Rightarrow> bytes cres eng" where
  "take_outgoing_at now = at_time now (infallible take_outgoing_inner)"

definition connect_at :: "Timestamp \<Rightarrow> MqttEngine \<Rightarrow> unit cres eng" where
  "connect_at now = at_time now connect_inner"

definition publish_at :: "PublishCommand \<Rightarrow> Timestamp \<Rightarrow> MqttEngine \<Rightarrow> (u16 option) cres eng" where
  "publish_at command now = at_time now (publish_inner command)"

definition publish_encoded_at ::
  "PublishCommand \<Rightarrow> u64 option \<Rightarrow> Timestamp \<Rightarrow> MqttEngine \<Rightarrow> (u16 option \<times> bytes) cres eng" where
  "publish_encoded_at command stream now = at_time now (publish_encoded_inner command stream)"

definition ingest_stream_packet_at ::
  "MqttPacket \<Rightarrow> u64 \<Rightarrow> Timestamp \<Rightarrow> MqttEngine \<Rightarrow> (MqttEvent list \<times> bytes) cres eng" where
  "ingest_stream_packet_at packet stream now = at_time now (infallible (ingest_stream_packet_inner packet stream))"

definition subscribe_at :: "SubscribeCommand \<Rightarrow> Timestamp \<Rightarrow> MqttEngine \<Rightarrow> u16 cres eng" where
  "subscribe_at command now = at_time now (subscribe_inner command)"

definition unsubscribe_at :: "UnsubscribeCommand \<Rightarrow> Timestamp \<Rightarrow> MqttEngine \<Rightarrow> u16 cres eng" where
  "unsubscribe_at command now = at_time now (unsubscribe_inner command)"

definition subscribe_encoded_at ::
  "SubscribeCommand \<Rightarrow> u64 option \<Rightarrow> Timestamp \<Rightarrow> MqttEngine \<Rightarrow> (u16 \<times> bytes) cres eng" where
  "subscribe_encoded_at command stream now = at_time now (subscribe_encoded_inner command stream)"

definition unsubscribe_encoded_at ::
  "UnsubscribeCommand \<Rightarrow> u64 option \<Rightarrow> Timestamp \<Rightarrow> MqttEngine \<Rightarrow> (u16 \<times> bytes) cres eng" where
  "unsubscribe_encoded_at command stream now = at_time now (unsubscribe_encoded_inner command stream)"

definition try_disconnect_with_at :: "u8 \<Rightarrow> Property list \<Rightarrow> Timestamp \<Rightarrow> MqttEngine \<Rightarrow> unit cres eng" where
  "try_disconnect_with_at code properties now = at_time now (try_disconnect_with_inner code properties)"

definition try_disconnect_at :: "Timestamp \<Rightarrow> MqttEngine \<Rightarrow> unit cres eng" where
  "try_disconnect_at now = at_time now try_disconnect_inner"

definition disconnect_at :: "Timestamp \<Rightarrow> MqttEngine \<Rightarrow> unit cres eng" where
  "disconnect_at now = at_time now try_disconnect_inner"

definition auth_at :: "u8 \<Rightarrow> Property list \<Rightarrow> Timestamp \<Rightarrow> MqttEngine \<Rightarrow> unit cres eng" where
  "auth_at code properties now = at_time now (try_auth_inner code properties)"

definition try_auth_at :: "u8 \<Rightarrow> Property list \<Rightarrow> Timestamp \<Rightarrow> MqttEngine \<Rightarrow> unit cres eng" where
  "try_auth_at code properties now = at_time now (try_auth_inner code properties)"

definition send_ping_at :: "Timestamp \<Rightarrow> MqttEngine \<Rightarrow> unit cres eng" where
  "send_ping_at now = at_time now (\<lambda>s. Inr (send_ping_inner_at (me_now s) s))"

definition try_send_ping_at :: "Timestamp \<Rightarrow> MqttEngine \<Rightarrow> unit cres eng" where
  "try_send_ping_at now = at_time now (\<lambda>s. Inr (send_ping_inner_at (me_now s) s))"

definition enqueue_packet_at :: "MqttPacket \<Rightarrow> Timestamp \<Rightarrow> MqttEngine \<Rightarrow> unit cres eng" where
  "enqueue_packet_at packet now = at_time now (\<lambda>s. Inr (enqueue_packet_inner packet s))"

definition puback_at :: "u16 \<Rightarrow> u8 \<Rightarrow> Property list \<Rightarrow> Timestamp \<Rightarrow> MqttEngine \<Rightarrow> unit cres eng" where
  "puback_at i code properties now = at_time now (puback_inner i code properties)"

definition pubrec_at :: "u16 \<Rightarrow> u8 \<Rightarrow> Property list \<Rightarrow> Timestamp \<Rightarrow> MqttEngine \<Rightarrow> unit cres eng" where
  "pubrec_at i code properties now = at_time now (pubrec_inner i code properties)"

definition pubcomp_at :: "u16 \<Rightarrow> u8 \<Rightarrow> Property list \<Rightarrow> Timestamp \<Rightarrow> MqttEngine \<Rightarrow> unit cres eng" where
  "pubcomp_at i code properties now = at_time now (pubcomp_inner i code properties)"

end
