(* ===== verification/Durable_Session.thy ===== *)
theory Durable_Session
  imports Engine_Run "HOL-Library.Option_ord" "HOL-Library.Product_Lexorder"
begin

text \<open>
  Checkpoints of a client session: \<open>snapshot_session\<close> and \<open>restore_session_state\<close> of
  \<open>src/src/mqtt_client/engine/session_state.rs\<close> with the data of
  \<open>src/src/mqtt_session/client_store.rs\<close> and the iterator of \<open>src/src/priority_queue.rs\<close> they use
  (feature \<open>durable-session\<close>).  Restoring returns the new engine only on success; on an error the
  engine stays as it was.  The store itself is a trait that the application implements.
\<close>

declare map_of_eq_Some_iff [simp del] Some_eq_map_of_iff [simp del]

section \<open>The checkpoint\<close>

datatype ReceivedStage = Saved_Publish | Saved_PubRec | Saved_PubRel

record ReceivedExchange =
  re_stream :: "u64 option"
  re_packet_id :: u16
  re_stage :: ReceivedStage

record ClientSessionState =
  css_version :: u32
  css_peer :: str
  css_client_id :: str
  css_mqtt_version :: u8
  css_has_session :: bool
  css_session_expiry_interval :: u32
  css_packet_id_counter :: u16
  css_outbound :: "(u16 \<times> MqttPacket) list"
  css_queued :: "(u8 \<times> MqttPacket) list"
  css_received :: "ReceivedExchange list"

definition session_invalid :: "string \<Rightarrow> MqttClientError" where
  "session_invalid r = InvalidConfiguration ''session state'' r"

text \<open>\<open>iter\<close>: from the highest priority down, oldest first.\<close>

definition pq_iter :: "('p, 't) PriorityQueue \<Rightarrow> ('p \<times> 't) list" where
  "pq_iter pq = flatten (rev (pq_map pq))"

text \<open>\<open>packet_id\<close>: the checks on a saved packet.  The bytes are those of \<open>#\<close>, \<open>+\<close> and NUL.\<close>

definition saved_publish_id :: "u8 \<Rightarrow> u16 option \<Rightarrow> str \<Rightarrow> bool \<Rightarrow> bool \<Rightarrow> u16 option cres" where
  "saved_publish_id qos pid topic dup queued =
     (if 2 < qos \<or> topic = [] \<or> list_ex (\<lambda>c. c = 35 \<or> c = 43 \<or> c = 0) topic \<or>
         (qos = 0 \<and> (pid \<noteq> None \<or> dup \<or> \<not> queued)) \<or>
         (0 < qos \<and> (case pid of None \<Rightarrow> True | Some i \<Rightarrow> i = 0))
      then Inl (session_invalid ''Invalid saved publication'') else Inr pid)"

definition saved_other_id :: "MqttPacket \<Rightarrow> u8 \<Rightarrow> bool \<Rightarrow> u16 option cres" where
  "saved_other_id packet version queued =
     (if queued then Inl (session_invalid ''Only publications may be queued'')
      else
        tryE (case packet of
            P_PubRel5 p \<Rightarrow> if version = 5 then Inr (ack_packet_id p)
              else Inl (session_invalid ''Invalid outstanding packet type or MQTT version'')
          | P_Subscribe5 p \<Rightarrow> if version = 5 then Inr (sub_packet_id p)
              else Inl (session_invalid ''Invalid outstanding packet type or MQTT version'')
          | P_Unsubscribe5 p \<Rightarrow> if version = 5 then Inr (unsub_packet_id p)
              else Inl (session_invalid ''Invalid outstanding packet type or MQTT version'')
          | P_PubRel3 p \<Rightarrow> if version \<noteq> 5 then Inr (ack3_message_id p)
              else Inl (session_invalid ''Invalid outstanding packet type or MQTT version'')
          | P_Subscribe3 p \<Rightarrow> if version \<noteq> 5 then Inr (sub3_message_id p)
              else Inl (session_invalid ''Invalid outstanding packet type or MQTT version'')
          | P_Unsubscribe3 p \<Rightarrow> if version \<noteq> 5 then Inr (unsub3_message_id p)
              else Inl (session_invalid ''Invalid outstanding packet type or MQTT version'')
          | _ \<Rightarrow> Inl (session_invalid ''Invalid outstanding packet type or MQTT version'')) (\<lambda>i.
        if i = 0 then Inl (session_invalid ''Saved packet identifiers must be nonzero'')
        else Inr (Some i)))"

definition saved_packet_id :: "MqttPacket \<Rightarrow> u8 \<Rightarrow> bool \<Rightarrow> u16 option cres" where
  "saved_packet_id packet version queued =
     (case packet of
        P_Publish5 p \<Rightarrow>
          if version = 5 then
            if list_ex is_topic_alias (pub_properties p)
            then Inl (session_invalid ''Saved publications must not contain topic aliases'')
            else saved_publish_id (pub_qos p) (pub_packet_id p) (pub_topic_name p) (pub_dup p) queued
          else saved_other_id packet version queued
      | P_Publish3 p \<Rightarrow>
          if version \<noteq> 5
          then saved_publish_id (pub3_qos p) (pub3_message_id p) (pub3_topic_name p) (pub3_dup p) queued
          else saved_other_id packet version queued
      | _ \<Rightarrow> saved_other_id packet version queued)"

section \<open>Taking a checkpoint\<close>

definition saved_stage :: "ReceiveStage \<Rightarrow> ReceivedStage option" where
  "saved_stage stage = (case stage of
     Stage_Publish q \<Rightarrow> if q = 2 then Some Saved_Publish else None
   | Stage_PubRec \<Rightarrow> Some Saved_PubRec
   | Stage_PubRel \<Rightarrow> Some Saved_PubRel)"

definition saved_received :: "(exchange_key \<times> ReceiveStage) list \<Rightarrow> ReceivedExchange list" where
  "saved_received received =
     sort_key (\<lambda>e. (re_stream e, re_packet_id e))
       (List.map_filter (\<lambda>((stream, i), stage). map_option
          (\<lambda>st. \<lparr>re_stream = stream, re_packet_id = i, re_stage = st\<rparr>) (saved_stage stage)) received)"

definition snapshot_session :: "MqttEngine \<Rightarrow> ClientSessionState cres" where
  "snapshot_session s =
     (if o_sessionless (me_options s) \<or> o_client_id (me_options s) = []
      then Inl (session_invalid ''Checkpointing requires session tracking and a client ID'')
      else
        let outbound = filter (\<lambda>(i, _). i \<in> ps_reserved (me_state s)) (me_previous_inflight s);
            outbound = fold merge_previous
              (snapshot_for_reconnect (me_inflight_queue s) @ me_session_replay s) outbound
        in Inr \<lparr>css_version = 1, css_peer = o_peer (me_options s),
             css_client_id = o_client_id (me_options s), css_mqtt_version = o_mqtt_version (me_options s),
             css_has_session = ps_has_session (me_state s),
             css_session_expiry_interval = ps_session_expiry (me_state s),
             css_packet_id_counter = (case me_session s of None \<Rightarrow> 0 | Some c \<Rightarrow> cs_packet_id_counter c),
             css_outbound = map (\<lambda>(i, p). (i, canonical p)) outbound,
             css_queued = map (\<lambda>(priority, p). (priority, canonical p)) (pq_iter (me_priority_queue s)),
             css_received = saved_received (ps_received (me_state s))\<rparr>)"

section \<open>Restoring a checkpoint\<close>

text \<open>The loop over the outstanding packets: reserved identifiers and the largest packet.\<close>

fun restore_outbound :: "u8 \<Rightarrow> (u16 \<times> MqttPacket) list \<Rightarrow> u16 set \<Rightarrow> nat \<Rightarrow> (u16 set \<times> nat) cres" where
  "restore_outbound version [] reserved replay_reserve = Inr (reserved, replay_reserve)"
| "restore_outbound version ((i, packet) # rest) reserved replay_reserve =
     tryE (saved_packet_id packet version False) (\<lambda>pid.
     if pid \<noteq> Some i \<or> i \<in> reserved
     then Inl (session_invalid ''Duplicate or inconsistent outstanding packet identifier'')
     else
       tryE (map_parse_err (MqttPacket_to_bytes packet)) (\<lambda>bytes.
       restore_outbound version rest (insert i reserved) (max replay_reserve (length bytes))))"

text \<open>The loop over the queued publications.\<close>

fun restore_queued ::
  "u8 \<Rightarrow> (u8 \<times> MqttPacket) list \<Rightarrow> u16 set \<Rightarrow> nat \<Rightarrow> nat \<Rightarrow> (u8, MqttPacket) PriorityQueue \<Rightarrow>
   (u16 set \<times> nat \<times> nat \<times> (u8, MqttPacket) PriorityQueue) cres" where
  "restore_queued version [] reserved replay_reserve queued_bytes queue =
     Inr (reserved, replay_reserve, queued_bytes, queue)"
| "restore_queued version ((priority, packet) # rest) reserved replay_reserve queued_bytes queue =
     tryE (saved_packet_id packet version True) (\<lambda>pid.
     if (case pid of None \<Rightarrow> False | Some i \<Rightarrow> i \<in> reserved)
     then Inl (session_invalid ''Duplicate queued packet identifier'')
     else
       tryE (map_parse_err (MqttPacket_to_bytes packet)) (\<lambda>bytes.
       restore_queued version rest
         (case pid of None \<Rightarrow> reserved | Some i \<Rightarrow> insert i reserved)
         (if pid = None then replay_reserve else max replay_reserve (length bytes))
         (queued_bytes + length bytes) (enqueue priority packet queue)))"

definition restored_stage :: "ReceivedStage \<Rightarrow> ReceiveStage" where
  "restored_stage stage = (case stage of
     Saved_Publish \<Rightarrow> Stage_Publish 2 | Saved_PubRec \<Rightarrow> Stage_PubRec | Saved_PubRel \<Rightarrow> Stage_PubRel)"

fun restore_received ::
  "bool \<Rightarrow> ReceivedExchange list \<Rightarrow> (exchange_key \<times> ReceiveStage) list \<Rightarrow>
   ((exchange_key \<times> ReceiveStage) list) cres" where
  "restore_received has_session [] received = Inr received"
| "restore_received has_session (e # rest) received =
     (let key = (re_stream e, re_packet_id e) in
      if \<not> has_session \<or> re_packet_id e = 0 \<or> hm_contains key received
      then Inl (session_invalid ''Invalid or duplicate incoming QoS 2 exchange'')
      else restore_received has_session rest (hm_insert key (restored_stage (re_stage e)) received))"

text \<open>The commit after the whole checkpoint has passed.\<close>

definition install_session ::
  "ClientSessionState \<Rightarrow> u16 set \<Rightarrow> nat \<Rightarrow> nat \<Rightarrow> nat \<Rightarrow> (u8, MqttPacket) PriorityQueue \<Rightarrow>
   (exchange_key \<times> ReceiveStage) list \<Rightarrow> MqttEngine \<Rightarrow> MqttEngine" where
  "install_session saved reserved replay_reserve queued_bytes control_reserve queue received s =
     me_state_update (\<lambda>st. st\<lparr>ps_reserved := reserved, ps_queued_bytes := queued_bytes,
         ps_control_reserve := control_reserve, ps_replay_reserve := replay_reserve,
         ps_has_session := css_has_session saved,
         ps_session_expiry := css_session_expiry_interval saved,
         ps_received_unbound := map fst received, ps_received := received, ps_input_closed := True\<rparr>)
       (s\<lparr>me_session := Some (restore_packet_id_counter (css_packet_id_counter saved) ClientSession_new),
          me_previous_inflight := css_outbound saved, me_priority_queue := queue\<rparr>)"

text \<open>The checks on the packets and exchanges of a checkpoint whose identity matches.\<close>

definition restore_contents :: "ClientSessionState \<Rightarrow> MqttEngine \<Rightarrow> MqttEngine cres" where
  "restore_contents saved s =
     tryE (restore_outbound (css_mqtt_version saved) (css_outbound saved) {} 0) (\<lambda>(reserved, replay_reserve).
     tryE (restore_queued (css_mqtt_version saved) (css_queued saved) reserved replay_reserve 0
             (PriorityQueue_new (o_max_outgoing_packet_count (me_options s))))
       (\<lambda>(reserved, replay_reserve, queued_bytes, queue).
     tryE (connect_packet (me_options s)) (\<lambda>packet.
     tryE (map_parse_err (MqttPacket_to_bytes packet)) (\<lambda>bytes.
     let control_reserve = max (length bytes) 6 in
     tryE (check_output_capacity s (queued_bytes + max control_reserve replay_reserve)) (\<lambda>_.
     tryE (restore_received (css_has_session saved) (css_received saved) []) (\<lambda>received.
     Inr (install_session saved reserved replay_reserve queued_bytes control_reserve queue received s)))))))"

definition restore_session_state :: "ClientSessionState \<Rightarrow> MqttEngine \<Rightarrow> MqttEngine cres" where
  "restore_session_state saved s =
     (if me_session s \<noteq> None \<or> me_is_connected s \<or> ps_connecting (me_state s) \<or>
         ps_reserved (me_state s) \<noteq> {} \<or> \<not> pq_is_empty (me_priority_queue s) \<or> me_outgoing_buffer s \<noteq> []
      then Inl (InvalidState ''a fresh engine before CONNECT or commands'' ''engine already in use'')
      else if css_version saved \<noteq> 1 then Inl (session_invalid ''Unsupported session state version'')
      else if o_sessionless (me_options s) \<or> o_clean_start (me_options s)
      then Inl (session_invalid ''Resumption requires session tracking and clean_start(false)'')
      else if css_client_id saved = [] \<or> css_client_id saved \<noteq> o_client_id (me_options s) \<or>
              css_peer saved \<noteq> o_peer (me_options s) \<or>
              css_mqtt_version saved \<noteq> o_mqtt_version (me_options s) \<or>
              \<not> (3 \<le> css_mqtt_version saved \<and> css_mqtt_version saved \<le> 5)
      then Inl (session_invalid ''Saved broker/client identity or MQTT version does not match'')
      else if o_max_outgoing_packet_count (me_options s) < length (css_queued saved)
      then Inl (session_invalid ''Saved publications exceed the configured queue capacity'')
      else restore_contents saved s)"

section \<open>The queue\<close>

text \<open>Refilling an empty queue from its iterator rebuilds it.\<close>

lemma enqueue_room:
  "pq_size q < pq_capacity q \<Longrightarrow>
   enqueue p t q = q\<lparr>pq_map := push_back p t (pq_map q), pq_size := Suc (pq_size q)\<rparr>"
  by (simp add: enqueue_def Let_def)

lemma fold_enqueue_room:
  "pq_size q + length xs \<le> pq_capacity q \<Longrightarrow> fold (\<lambda>(p, t). enqueue p t) xs q =
   q\<lparr>pq_map := fold (\<lambda>(p, t). push_back p t) xs (pq_map q), pq_size := pq_size q + length xs\<rparr>"
  by (induction xs arbitrary: q) (auto simp: enqueue_room)

lemma push_back_group:
  assumes "\<forall>q \<in> fst ` set m. p < q" and "ts \<noteq> []"
  shows "fold (\<lambda>(p, t). push_back p t) (map (Pair p) ts) m = (p, ts) # m"
proof -
  have g: "fold (\<lambda>(p, t). push_back p t) (map (Pair p) us) ((p, vs) # m) = (p, vs @ us) # m" for us vs
    by (induction us arbitrary: vs) simp_all
  obtain t us where ts: "ts = t # us" using assms(2) by (cases ts) auto
  have "push_back p t m = (p, [t]) # m" using assms(1) by (cases m) auto
  then show ?thesis using g [of us "[t]"] by (simp add: ts)
qed

lemma push_back_rebuild:
  "map_ok m \<Longrightarrow> fold (\<lambda>(p, t). push_back p t) (flatten (rev m)) [] = m"
proof (induction m)
  case (Cons x m)
  obtain p ts where x: "x = (p, ts)" by fastforce
  then show ?case using Cons push_back_group [of m p ts] by (simp add: map_ok_Cons)
qed simp

lemma length_flatten_rev [simp]: "length (flatten (rev m)) = length (flatten m)"
  by (induction m) (auto simp: flatten_def)

lemma refill_queue:
  assumes "pq_inv q" and "length (pq_iter q) \<le> n"
  shows "fold (\<lambda>(p, t). enqueue p t) (pq_iter q) (PriorityQueue_new n) =
    \<lparr>pq_map = pq_map q, pq_capacity = n, pq_size = pq_size q\<rparr>"
proof -
  have "map_ok (pq_map q)" "pq_size q = length (pq_iter q)"
    using assms(1) by (simp_all add: pq_inv_def items_def pq_iter_def)
  then show ?thesis
    using fold_enqueue_room [of "PriorityQueue_new n" "pq_iter q"] assms(2) push_back_rebuild [of "pq_map q"]
    by (simp add: PriorityQueue_new_def pq_iter_def)
qed

section \<open>What restoring accepts\<close>

lemma saved_id_cases:
  assumes "saved_packet_id p version queued = Inr pid"
  shows "pid \<noteq> Some 0" and "canonical p = p"
proof -
  have o: "saved_other_id q v b = Inr x \<Longrightarrow> x \<noteq> Some 0 \<and> (\<forall>m. q \<noteq> P_Publish5 m)" for q v b x
    by (cases q) (auto simp: saved_other_id_def split: if_splits)
  have u: "saved_publish_id qos i t d b = Inr x \<Longrightarrow> x \<noteq> Some 0" for qos i t d b x
    by (auto simp: saved_publish_id_def word_gt_0 split: if_splits option.splits)
  show "pid \<noteq> Some 0"
    using assms u o by (auto simp: saved_packet_id_def split: MqttPacket.splits if_splits)
  have "filter (\<lambda>q. \<not> is_topic_alias q) ps = ps" if "\<not> list_ex is_topic_alias ps" for ps
    using that by (auto simp: list_ex_iff filter_id_conv)
  then show "canonical p = p"
    using assms o by (auto simp: saved_packet_id_def canonical_def split: MqttPacket.splits if_splits)
qed

lemma restore_outbound_accepts:
  assumes "restore_outbound version xs reserved n = Inr (reserved', n')"
  shows "reserved' = reserved \<union> keys xs \<and> distinct (map fst xs) \<and> keys xs \<inter> reserved = {} \<and> 0 \<notin> keys xs \<and>
     map (\<lambda>(i, p). (i, canonical p)) xs = xs"
  using assms
proof (induction xs arbitrary: reserved n)
  case (Cons x xs)
  obtain i p where x: "x = (i, p)" by fastforce
  obtain m where p: "saved_packet_id p version False = Inr (Some i)" "i \<notin> reserved"
    and r: "restore_outbound version xs (insert i reserved) m = Inr (reserved', n')"
    using Cons.prems x by (auto split: if_splits)
  show ?case using Cons.IH [OF r] saved_id_cases [OF p(1)] p(2) x by auto
qed simp

text \<open>The identifiers of the queued publications.\<close>

definition queued_ids :: "u8 \<Rightarrow> (u8 \<times> MqttPacket) list \<Rightarrow> u16 list" where
  "queued_ids version xs = List.map_filter (\<lambda>(_, p).
     case saved_packet_id p version True of Inr pid \<Rightarrow> pid | Inl _ \<Rightarrow> None) xs"

lemma restore_queued_accepts:
  assumes "restore_queued version xs reserved n b q = Inr (reserved', n', b', q')"
  shows "reserved' = reserved \<union> set (queued_ids version xs) \<and> distinct (queued_ids version xs) \<and>
     set (queued_ids version xs) \<inter> reserved = {} \<and> 0 \<notin> set (queued_ids version xs) \<and>
     map (\<lambda>(priority, p). (priority, canonical p)) xs = xs \<and> q' = fold (\<lambda>(p, t). enqueue p t) xs q"
  using assms
proof (induction xs arbitrary: reserved n b q)
  case Nil
  then show ?case by (simp add: queued_ids_def map_filter_def)
next
  case (Cons x xs)
  obtain priority p where x: "x = (priority, p)" by fastforce
  obtain pid m k where pid: "saved_packet_id p version True = Inr pid"
    "\<not> (case pid of None \<Rightarrow> False | Some i \<Rightarrow> i \<in> reserved)"
    and r: "restore_queued version xs (case pid of None \<Rightarrow> reserved | Some i \<Rightarrow> insert i reserved) m k
      (enqueue priority p q) = Inr (reserved', n', b', q')"
    using Cons.prems x by (auto split: if_splits)
  have ids: "queued_ids version (x # xs) = (case pid of None \<Rightarrow> [] | Some i \<Rightarrow> [i]) @ queued_ids version xs"
    using pid x by (simp add: queued_ids_def map_filter_def split: option.splits)
  show ?case
    using Cons.IH [OF r] saved_id_cases [OF pid(1)] pid(2) x unfolding ids
    by (cases pid) (auto simp: queued_ids_def)
qed

definition exchange_of :: "ReceivedExchange \<Rightarrow> exchange_key \<times> ReceiveStage" where
  "exchange_of e = ((re_stream e, re_packet_id e), restored_stage (re_stage e))"

lemma restore_received_accepts:
  assumes "restore_received has_session xs received = Inr received'"
  shows "received' = received @ map exchange_of xs \<and> distinct (map (fst \<circ> exchange_of) xs) \<and>
     (\<forall>e \<in> set xs. re_packet_id e \<noteq> 0) \<and> set (map (fst \<circ> exchange_of) xs) \<inter> keys received = {}"
  using assms
proof (induction xs arbitrary: received)
  case (Cons e xs)
  let ?key = "(re_stream e, re_packet_id e)"
  have e: "re_packet_id e \<noteq> 0" "?key \<notin> keys received"
    "restore_received has_session xs (hm_insert ?key (restored_stage (re_stage e)) received) = Inr received'"
    using Cons.prems by (auto simp: Let_def split: if_splits)
  then show ?case
    using Cons.IH [OF e(3)] by (auto simp: insert_fresh exchange_of_def)
qed simp

lemma saved_exchange_of: "List.map_filter (\<lambda>((stream, i), stage). map_option
     (\<lambda>st. \<lparr>re_stream = stream, re_packet_id = i, re_stage = st\<rparr>) (saved_stage stage)) (map exchange_of xs) = xs"
proof (induction xs)
  case (Cons e xs)
  have "saved_stage (restored_stage st) = Some st" for st
    by (cases st) (simp_all add: saved_stage_def restored_stage_def)
  then show ?case using Cons by (simp add: exchange_of_def map_filter_def)
qed (simp add: map_filter_def)

lemma restore_cases:
  assumes "restore_session_state saved s = Inr t"
  obtains reserved replay_reserve queued_bytes control_reserve received where
    "t = install_session saved reserved replay_reserve queued_bytes control_reserve
       (fold (\<lambda>(p, t). enqueue p t) (css_queued saved)
         (PriorityQueue_new (o_max_outgoing_packet_count (me_options s)))) received s"
    "reserved = keys (css_outbound saved) \<union> set (queued_ids (css_mqtt_version saved) (css_queued saved))"
    "distinct (map fst (css_outbound saved) @ queued_ids (css_mqtt_version saved) (css_queued saved))"
    "0 \<notin> reserved"
    "map (\<lambda>(i, p). (i, canonical p)) (css_outbound saved) = css_outbound saved"
    "map (\<lambda>(priority, p). (priority, canonical p)) (css_queued saved) = css_queued saved"
    "received = map exchange_of (css_received saved)" "distinct (map fst received)"
    "length (css_queued saved) \<le> o_max_outgoing_packet_count (me_options s)"
    "css_version saved = 1" "\<not> o_sessionless (me_options s)" "css_client_id saved = o_client_id (me_options s)"
    "css_client_id saved \<noteq> []" "css_peer saved = o_peer (me_options s)"
    "css_mqtt_version saved = o_mqtt_version (me_options s)"
    "me_session s = None" "me_outgoing_buffer s = []"
proof -
  have g: "restore_contents saved s = Inr t" "length (css_queued saved) \<le> o_max_outgoing_packet_count (me_options s)"
    "css_version saved = 1" "\<not> o_sessionless (me_options s)" "css_client_id saved = o_client_id (me_options s)"
    "css_client_id saved \<noteq> []" "css_peer saved = o_peer (me_options s)"
    "css_mqtt_version saved = o_mqtt_version (me_options s)"
    "me_session s = None" "me_outgoing_buffer s = []"
    using assms by (auto simp: restore_session_state_def split: if_splits)
  obtain r1 n1 r2 n2 b q c rcv where o: "restore_outbound (css_mqtt_version saved) (css_outbound saved) {} 0 = Inr (r1, n1)"
    and u: "restore_queued (css_mqtt_version saved) (css_queued saved) r1 n1 0
      (PriorityQueue_new (o_max_outgoing_packet_count (me_options s))) = Inr (r2, n2, b, q)"
    and v: "restore_received (css_has_session saved) (css_received saved) [] = Inr rcv"
    and t: "t = install_session saved r2 n2 b c q rcv s"
    using g(1) by (auto simp: restore_contents_def Let_def)
  note o = restore_outbound_accepts [OF o] and u = restore_queued_accepts [OF u]
    and v = restore_received_accepts [OF v]
  show thesis
    using o u v g t
    by (intro that [of r2 n2 b c rcv]) (auto simp: comp_def)
qed

section \<open>Checkpoints survive a restart\<close>

lemma install_session_fields [simp]:
  "me_options (install_session saved r n b c q v s) = me_options s"
  "me_inflight_queue (install_session saved r n b c q v s) = me_inflight_queue s"
  "me_session_replay (install_session saved r n b c q v s) = me_session_replay s"
  "me_previous_inflight (install_session saved r n b c q v s) = css_outbound saved"
  "me_priority_queue (install_session saved r n b c q v s) = q"
  "me_session (install_session saved r n b c q v s) =
     Some (restore_packet_id_counter (css_packet_id_counter saved) ClientSession_new)"
  "ps_reserved (me_state (install_session saved r n b c q v s)) = r"
  "ps_received (me_state (install_session saved r n b c q v s)) = v"
  "ps_has_session (me_state (install_session saved r n b c q v s)) = css_has_session saved"
  "ps_session_expiry (me_state (install_session saved r n b c q v s)) = css_session_expiry_interval saved"
  by (simp_all add: install_session_def)

lemma snapshot_restored:
  assumes "restore_session_state saved s = Inr t"
    and "snapshot_for_reconnect (me_inflight_queue s) = []" "me_session_replay s = []"
    and "pq_inv q" "css_queued saved = pq_iter q"
    and "sorted (map (\<lambda>e. (re_stream e, re_packet_id e)) (css_received saved))"
  shows "snapshot_session t = Inr saved"
  using assms(1)
proof (cases rule: restore_cases)
  case (1 reserved replay_reserve queued_bytes control_reserve received)
  have "pq_iter (me_priority_queue t) = css_queued saved"
    using refill_queue [OF assms(4)] 1(9) assms(5) by (simp add: 1(1) pq_iter_def)
  moreover have "filter (\<lambda>(i, _). i \<in> reserved) (css_outbound saved) = css_outbound saved"
    unfolding 1(2) by (force simp: filter_id_conv)
  moreover have "saved_received received = css_received saved"
    using assms(6) by (simp add: saved_received_def 1(7) saved_exchange_of sort_key_id_if_sorted)
  ultimately show ?thesis
    using 1 assms(2,3)
    by (simp add: snapshot_session_def Let_def restore_packet_id_counter_def)
qed

lemma snapshot_ordered:
  assumes "snapshot_session s = Inr saved" and "pq_inv (me_priority_queue s)"
  shows "css_queued saved = pq_iter (pq_map_items canonical (me_priority_queue s))"
    "pq_inv (pq_map_items canonical (me_priority_queue s))"
    "sorted (map (\<lambda>e. (re_stream e, re_packet_id e)) (css_received saved))"
proof -
  have f: "flatten (rev (map (\<lambda>(p, ts). (p, map f ts)) m)) = map (\<lambda>(p, t). (p, f t)) (flatten (rev m))"
    for f :: "MqttPacket \<Rightarrow> MqttPacket" and m :: "(u8 \<times> MqttPacket list) list"
    by (induction m) (auto simp: flatten_def)
  show "css_queued saved = pq_iter (pq_map_items canonical (me_priority_queue s))"
    "sorted (map (\<lambda>e. (re_stream e, re_packet_id e)) (css_received saved))"
    using assms(1) by (auto simp: snapshot_session_def Let_def pq_iter_def pq_map_items_def f saved_received_def
        split: if_splits)
  show "pq_inv (pq_map_items canonical (me_priority_queue s))" by (rule pq_map_items_refines(2) [OF assms(2)])
qed

lemma checkpoint_restored:
  assumes "snapshot_session s = Inr saved" and "pq_inv (me_priority_queue s)"
    and "try_new_at opts now = Inr fresh" and "restore_session_state saved fresh = Inr t"
  shows "snapshot_session t = Inr saved"
proof -
  have "fresh = MqttEngine_new_at opts now" using assms(3) by (auto simp: try_new_at_def split: if_splits)
  then have "snapshot_for_reconnect (me_inflight_queue fresh) = []" "me_session_replay fresh = []"
    by (simp_all add: MqttEngine_new_at_def InflightQueue_new_def snapshot_for_reconnect_def map_filter_def)
  then show ?thesis
    using snapshot_restored [OF assms(4) _ _ snapshot_ordered(2,1,3) [OF assms(1,2)]] by simp
qed

end
