(* ===== verification/Engine_Invariant.thy ===== *)
theory Engine_Invariant
  imports Durable_Session
begin

text \<open>
  The invariant of the protocol engine and the states it can reach.  Each part of the invariant is
  checked once for the elementary steps and holds for every operation by the locale
  \<open>engine_frame\<close>; the entry points of \<open>engine/explicit.rs\<close> keep it, so it holds in every state
  that a sequence of calls can reach.
\<close>

declare map_of_eq_Some_iff [simp del] Some_eq_map_of_iff [simp del]

section \<open>The invariant\<close>

text \<open>The in-flight queue is consistent and was not touched in the future.\<close>

definition inflight_inv :: "MqttEngine \<Rightarrow> bool" where
  "inflight_inv s \<longleftrightarrow> (let q = me_inflight_queue s in iq_inv q \<and>
     (\<forall>l. iq_last_update q = Some l \<longrightarrow> l \<le> me_now s) \<and> iq_mqtt_version q = mqtt_version s \<and>
     iq_retransmission_timeout q = from_millis (unat (o_retransmission_timeout_ms (me_options s))))"

text \<open>The parser is well formed and decodes the configured protocol version.\<close>

definition input_inv :: "MqttEngine \<Rightarrow> bool" where
  "input_inv s \<longleftrightarrow> parser_inv (me_parser s) \<and> mp_version (me_parser s) = mqtt_version s"

text \<open>Output buffer and publish queue stay within the configured number of packets.\<close>

definition output_inv :: "MqttEngine \<Rightarrow> bool" where
  "output_inv s \<longleftrightarrow> length (me_outgoing_buffer s) \<le> o_max_outgoing_packet_count (me_options s) \<and>
     pq_inv (me_priority_queue s) \<and> pq_capacity (me_priority_queue s) = o_max_outgoing_packet_count (me_options s)"

text \<open>The peer has at most Receive Maximum unacknowledged messages, and none without a connection.\<close>

definition quota_inv :: "MqttEngine \<Rightarrow> bool" where
  "quota_inv s \<longleftrightarrow> ps_incoming_quota_used (me_state s) \<le> unat (ps_incoming_receive_maximum (me_state s)) \<and>
     (\<not> me_is_connected s \<longrightarrow> ps_incoming_quota_used (me_state s) = 0)"

text \<open>
  Every deadline the options allow can be represented from the current time, and the limits that the
  engine copied from its options are still those of the options.
\<close>

definition clock_inv :: "MqttEngine \<Rightarrow> bool" where
  "clock_inv s \<longleftrightarrow> check_time_range (me_options s) (me_now s) = Inr () \<and>
     3 \<le> mqtt_version s \<and> mqtt_version s \<le> 5 \<and> 0 < o_max_outgoing_packet_count (me_options s) \<and>
     0 < o_max_event_count (me_options s) \<and>
     me_reconnect_base_delay s = from_millis (unat (o_reconnect_base_delay_ms (me_options s))) \<and>
     me_reconnect_max_delay s = from_millis (unat (o_reconnect_max_delay_ms (me_options s))) \<and>
     me_max_reconnect_attempts s = o_max_reconnect_attempts (me_options s)"

definition eng_inv :: "MqttEngine \<Rightarrow> bool" where
  "eng_inv s \<longleftrightarrow> inflight_inv s \<and> input_inv s \<and> output_inv s \<and> quota_inv s \<and> clock_inv s"

lemma core_options_fields:
  assumes "core_options a = core_options b"
  shows "o_mqtt_version a = o_mqtt_version b"
    "o_retransmission_timeout_ms a = o_retransmission_timeout_ms b"
    "o_max_outgoing_packet_count a = o_max_outgoing_packet_count b"
    "o_max_event_count a = o_max_event_count b"
    "o_reconnect_base_delay_ms a = o_reconnect_base_delay_ms b"
    "o_reconnect_max_delay_ms a = o_reconnect_max_delay_ms b"
    "o_max_reconnect_attempts a = o_max_reconnect_attempts b"
    "check_time_range a t = check_time_range b t"
proof -
  have f: "f (core_options a) = f (core_options b)" for f :: "MqttClientOptions \<Rightarrow> 'z" using assms by simp
  show "o_mqtt_version a = o_mqtt_version b"
    "o_retransmission_timeout_ms a = o_retransmission_timeout_ms b"
    "o_max_outgoing_packet_count a = o_max_outgoing_packet_count b"
    "o_max_event_count a = o_max_event_count b"
    "o_reconnect_base_delay_ms a = o_reconnect_base_delay_ms b"
    "o_reconnect_max_delay_ms a = o_reconnect_max_delay_ms b"
    "o_max_reconnect_attempts a = o_max_reconnect_attempts b"
    using f [of o_mqtt_version] f [of o_retransmission_timeout_ms] f [of o_max_outgoing_packet_count]
      f [of o_max_event_count] f [of o_reconnect_base_delay_ms] f [of o_reconnect_max_delay_ms]
      f [of o_max_reconnect_attempts] by (simp_all add: core_options_def)
  have "horizon (core_options c) = horizon c" for c by (simp add: horizon_def core_options_def)
  then show "check_time_range a t = check_time_range b t"
    using arg_cong [OF assms, of horizon] by (simp add: check_time_range_def)
qed

lemma core_inv:
  assumes "core t = core s"
  shows "inflight_inv t = inflight_inv s" "input_inv t = input_inv s" "output_inv t = output_inv s"
    "quota_inv t = quota_inv s" "clock_inv t = clock_inv s"
proof -
  have o: "core_options (me_options t) = core_options (me_options s)" using assms by (simp add: core_def)
  note f = core_options_fields [OF o]
  show "inflight_inv t = inflight_inv s" "input_inv t = input_inv s" "output_inv t = output_inv s"
    "quota_inv t = quota_inv s" "clock_inv t = clock_inv s"
    using assms f
    by (simp_all add: core_def inflight_inv_def input_inv_def output_inv_def quota_inv_def clock_inv_def Let_def)
qed

lemma acknowledge_fields [simp]:
  "iq_last_update (snd (acknowledge i q)) = iq_last_update q"
  "iq_mqtt_version (snd (acknowledge i q)) = iq_mqtt_version q"
  "iq_retransmission_timeout (snd (acknowledge i q)) = iq_retransmission_timeout q"
  by (auto simp: acknowledge_def Let_def split: option.splits)

lemma update_receive_maximum_fields [simp]:
  "iq_last_update (update_receive_maximum r q) = iq_last_update q"
  "iq_mqtt_version (update_receive_maximum r q) = iq_mqtt_version q"
  "iq_retransmission_timeout (update_receive_maximum r q) = iq_retransmission_timeout q"
  by (simp_all add: update_receive_maximum_def)

lemma refresh_fields:
  "refresh_deadline i now q = Inr q' \<Longrightarrow> iq_last_update q' = iq_last_update q \<and>
   iq_mqtt_version q' = iq_mqtt_version q \<and> iq_retransmission_timeout q' = iq_retransmission_timeout q"
  by (auto simp: refresh_deadline_def split: if_splits option.splits)

lemma expire_loop_fields:
  "expire_loop n now q = Inr (x, q') \<Longrightarrow> iq_last_update q' = iq_last_update q \<and>
   iq_mqtt_version q' = iq_mqtt_version q \<and> iq_retransmission_timeout q' = iq_retransmission_timeout q"
proof (induction n arbitrary: q x)
  case (Suc n)
  then show ?case
    by (auto simp: Let_def split: list.splits if_splits option.splits dest!: refresh_fields)
qed simp

lemma get_expired_inv:
  assumes "iq_inv q" and "get_expired_with_stream_at now q = Inr (x, q')"
  shows "iq_inv q' \<and> iq_last_update q' = Some now \<and> iq_mqtt_version q' = iq_mqtt_version q \<and>
    iq_retransmission_timeout q' = iq_retransmission_timeout q"
proof -
  have c: "check_time q now = Inr ()"
    and e: "expire_loop (length (iq_deadline_queue q)) now (q\<lparr>iq_last_update := Some now\<rparr>) = Inr (x, q')"
    using assms(2) by (auto simp: get_expired_with_stream_at_def)
  have "iq_inv q'"
  proof (cases "iq_mqtt_version q = 5")
    case True
    have "iq_inv (q\<lparr>iq_last_update := Some now\<rparr>)"
      using assms(1) c timed_later
      by (auto simp: iq_inv_def keyed_def quota_ok_def check_time_Inr)
    then show ?thesis using get_expired_v5 [OF assms(1) c True] assms(2) by simp
  next
    case False
    then show ?thesis using get_expired_spec [OF assms(1) c] assms(2) by auto
  qed
  then show ?thesis using expire_loop_fields [OF e] by simp
qed

lemma transition_fields:
  "transition_pubrel_at i p now q = Inr q' \<Longrightarrow> iq_last_update q' = Some now \<and>
   iq_mqtt_version q' = iq_mqtt_version q \<and> iq_retransmission_timeout q' = iq_retransmission_timeout q"
  by (cases "hm_get (iq_entries q) i") (simp_all add: transition_Inr)

interpretation inflight: engine_frame "\<lambda>s t. inflight_inv s \<longrightarrow> inflight_inv t"
proof
  show "inflight_inv s \<longrightarrow> inflight_inv t" if "micro c s t" for c s t
    using that
  proof (induction rule: micro.induct)
    case (inert s' s)
    show ?case using core_inv [OF inert] by simp
  next
    case (track i p qos stream s q)
    then show ?case by (auto simp: inflight_inv_def Let_def intro: iq_inv_push simp: push_Inr)
  next
    case (pubrel i p s q)
    show ?case using iq_inv_transition [OF _ pubrel(2) pubrel(1)] transition_fields [OF pubrel(1)]
      by (simp add: inflight_inv_def Let_def)
  next
    case (expire s x q)
    show ?case using get_expired_inv [OF _ expire] by (simp add: inflight_inv_def Let_def)
  next
    case (close s s')
    then show ?case by (auto simp: close_input_def inflight_inv_def Let_def)
  qed (simp_all add: inflight_inv_def Let_def iq_inv_acknowledge iq_inv_update_receive_maximum)
qed auto

interpretation parsing: engine_frame "\<lambda>s t. input_inv s \<longrightarrow> input_inv t"
proof
  show "input_inv s \<longrightarrow> input_inv t" if "micro c s t" for c s t
    using that
  proof (induction rule: micro.induct)
    case (inert s' s)
    show ?case using core_inv [OF inert] by simp
  next
    case (close s s')
    then show ?case
      by (auto simp: close_input_def input_inv_def buffer_mut_def compact_def parser_inv_def Let_def
          split: if_splits)
  qed (simp_all add: input_inv_def parser_inv_def MqttParser_new_def)
qed auto

interpretation sending: engine_frame "\<lambda>s t. output_inv s \<longrightarrow> output_inv t"
proof
  show "output_inv s \<longrightarrow> output_inv t" if "micro c s t" for c s t
    using that
  proof (induction rule: micro.induct)
    case (inert s' s)
    show ?case using core_inv [OF inert] by simp
  next
    case (unqueue s x q)
    then show ?case using dequeue_refines(2,3) [OF _ unqueue] by (auto simp: output_inv_def)
  next
    case (queue s pr p)
    then show ?case by (simp add: output_inv_def enqueue_refines)
  next
    case (canonicalise s)
    have "pq_capacity (pq_map_items canonical q) = pq_capacity q" for q :: "(u8, MqttPacket) PriorityQueue"
      by (simp add: pq_map_items_def)
    then show ?case by (simp add: output_inv_def pq_map_items_refines)
  next
    case (close s s')
    then show ?case by (auto simp: close_input_def output_inv_def)
  qed (simp_all add: output_inv_def)
qed auto

interpretation receiving: engine_frame "\<lambda>s t. quota_inv s \<longrightarrow> quota_inv t"
proof
  show "quota_inv s \<longrightarrow> quota_inv t" if "micro c s t" for c s t
    using that
  proof (induction rule: micro.induct)
    case (inert s' s)
    show ?case using core_inv [OF inert] by simp
  next
    case (close s s')
    then show ?case by (auto simp: close_input_def quota_inv_def)
  qed (auto simp: quota_inv_def)
qed auto

lemma clock_inv_limits:
  assumes "same_limits s t" shows "clock_inv t = clock_inv s"
proof -
  have "core_options (me_options t) = core_options (me_options s)" using assms by (simp add: same_limits_def)
  from core_options_fields [OF this] show ?thesis using assms by (simp add: same_limits_def clock_inv_def)
qed

lemma eng_inv_steps: "steps c s t \<Longrightarrow> eng_inv s \<Longrightarrow> eng_inv t"
  using inflight.frame [of c s t] parsing.frame [of c s t] sending.frame [of c s t] receiving.frame [of c s t]
    clock_inv_limits [OF limits.frame [of c s t]]
  by (simp add: eng_inv_def)

lemma eng_inv_core: "core t = core s \<Longrightarrow> eng_inv t = eng_inv s"
  using core_inv [of t s] by (simp add: eng_inv_def)

section \<open>The invariant and the loops\<close>

lemma advance_version: "advance n p = Inr p' \<Longrightarrow> mp_version p' = mp_version p"
  by (auto simp: advance_def Let_def split: if_splits)

lemma next_parsed_version: "mp_version (snd (next_parsed p)) = mp_version p"
proof -
  have pk: "mp_version (snd (next_packet p)) = mp_version p"
    by (auto simp: next_packet_def dest!: advance_version split: if_splits sum.splits option.splits ParseOk.splits)
  have ff: "mp_version (snd (next_from_frame f b p)) = mp_version p" for f b
    by (auto simp: next_from_frame_def take_frame_def dest!: advance_version
        split: sum.splits option.splits LeveledParseOk.splits)
  show ?thesis
    using pk ff
    by (auto simp: next_parsed_def split_beta Let_def dest!: advance_version
        split: sum.splits if_splits ParseLevel.splits LeveledParseOk.splits)
qed

text \<open>The invariant depends on the parser only through \<open>input_inv\<close>.\<close>

lemma eng_inv_parser:
  assumes "eng_inv s" and "parser_inv p" and "mp_version p = mqtt_version s"
  shows "eng_inv (s\<lparr>me_parser := p\<rparr>)"
  using assms
  by (simp add: eng_inv_def inflight_inv_def input_inv_def output_inv_def quota_inv_def clock_inv_def Let_def)

lemma eng_inv_version: "eng_inv s \<Longrightarrow> mp_version (me_parser s) = mqtt_version s \<and> mqtt_version s \<noteq> 0"
  by (auto simp: eng_inv_def input_inv_def clock_inv_def)

lemma eng_inv_next_parsed:
  assumes "eng_inv s" and "next_parsed (me_parser s) = (r, p)"
  shows "eng_inv (s\<lparr>me_parser := p\<rparr>)"
proof (rule eng_inv_parser [OF assms(1)])
  have p: "parser_inv (me_parser s)" "mp_version (me_parser s) \<noteq> 0"
    using assms(1) eng_inv_version [OF assms(1)] by (auto simp: eng_inv_def input_inv_def)
  show "parser_inv p" using next_parsed_safe(2) [OF p] assms(2) by simp
  show "mp_version p = mqtt_version s"
    using next_parsed_version [of "me_parser s"] eng_inv_version [OF assms(1)] assms(2) by simp
qed

lemma eng_inv_feed:
  assumes "eng_inv s" and "feed data (me_parser s) = Inr p"
  shows "eng_inv (s\<lparr>me_parser := p\<rparr>)"
proof (rule eng_inv_parser [OF assms(1)])
  have "parser_inv (me_parser s)" using assms(1) by (simp add: eng_inv_def input_inv_def)
  from feed_refines [OF this, of data] obtain p' where "feed data (me_parser s) = Inr p'" "parser_inv p'"
    "mp_version p' = mp_version (me_parser s)" by blast
  then show "parser_inv p" "mp_version p = mqtt_version s"
    using assms(2) eng_inv_version [OF assms(1)] by simp_all
qed

lemma eng_inv_responses: "eng_inv (me_state_update (\<lambda>st. st\<lparr>ps_responses := rs st\<rparr>) s) = eng_inv s"
  by (simp add: eng_inv_def inflight_inv_def input_inv_def output_inv_def quota_inv_def clock_inv_def Let_def)

lemma eng_inv_events [simp]: "eng_inv (s\<lparr>me_events := es\<rparr>) = eng_inv s"
  by (rule eng_inv_core) simp

lemma eng_inv_incoming_packet:
  assumes "incoming_packet pkt s = Inr t" and "eng_inv s" shows "eng_inv t"
proof (cases "\<exists>p. pkt = Parsed_Full p")
  case True
  then obtain p ev rs a where a: "handle_packet p None s = Inr ((ev, rs), a)"
    and f: "flush_responses (me_state_update (\<lambda>st. st\<lparr>ps_responses := ps_responses st @ rs\<rparr>)
      (a\<lparr>me_events := me_events a @ ev\<rparr>)) = Inr t"
    using assms(1) by (auto simp: incoming_packet_def Let_def)
  have "eng_inv a" by (rule eng_inv_steps [OF handle_packet_steps [OF a] assms(2)])
  then show ?thesis
    by (intro eng_inv_steps [OF flush_responses_steps [OF f]]) (simp add: eng_inv_responses)
next
  case False
  then obtain ev r a where a: "handle_reduced_packet pkt None s = Inr ((ev, r), a)"
    and c: "(case r of None \<Rightarrow> Inr (case ev of None \<Rightarrow> a | Some e \<Rightarrow> push_event e a)
      | Some r \<Rightarrow> flush_responses (me_state_update (\<lambda>st. st\<lparr>ps_responses := ps_responses st @ [r]\<rparr>)
          (case ev of None \<Rightarrow> a | Some e \<Rightarrow> push_event e a))) = Inr t"
    using assms(1) by (cases pkt) (auto simp: incoming_packet_def Let_def)
  have "eng_inv a" by (rule eng_inv_steps [OF handle_reduced_steps [OF a] assms(2)])
  then have b: "eng_inv (case ev of None \<Rightarrow> a | Some e \<Rightarrow> push_event e a)" by (cases ev) simp_all
  show ?thesis
  proof (cases r)
    case None
    then show ?thesis using b c by simp
  next
    case (Some p)
    then have "flush_responses (me_state_update (\<lambda>st. st\<lparr>ps_responses := ps_responses st @ [p]\<rparr>)
          (case ev of None \<Rightarrow> a | Some e \<Rightarrow> push_event e a)) = Inr t" using c by simp
    from eng_inv_steps [OF flush_responses_steps [OF this]] show ?thesis using b by (simp add: eng_inv_responses)
  qed
qed

lemma eng_inv_incoming_loop: "incoming_loop s = Inr t \<Longrightarrow> eng_inv s \<Longrightarrow> eng_inv t"
proof (induction s rule: incoming_loop.induct)
  case (1 s)
  note inv = "1.prems"(2)
  from "1.prems"(1) show ?case
  proof (cases rule: incoming_loop_cases)
    case (2 e p)
    then have "eng_inv (s\<lparr>me_parser := p\<rparr>)" using eng_inv_next_parsed [OF inv] inv by auto
    then show ?thesis by (rule eng_inv_steps [OF fail_connection_steps0 [OF 2(2)]])
  next
    case (3 pkt p u b)
    have "eng_inv (s\<lparr>me_parser := p\<rparr>\<lparr>me_last_packet_received := me_now s\<rparr>)"
      using eng_inv_next_parsed [OF inv 3(1)] by (subst eng_inv_core [of _ "s\<lparr>me_parser := p\<rparr>"]) (simp_all add: core_def)
    then have "eng_inv u" using eng_inv_incoming_packet [OF 3(2)] by simp
    then show ?thesis by (rule "1.IH" [OF 3(4,5,6,7) 3(1) [symmetric] refl refl 3(2,3)])
  qed (use inv in simp)
qed

lemma eng_inv_take_events: "take_events s = (ev, t) \<Longrightarrow> eng_inv s \<Longrightarrow> eng_inv t"
  by (auto simp: take_events_def)

lemma eng_inv_process_incoming:
  assumes "process_incoming data s = Inr (ev, t)" and "eng_inv s" shows "eng_inv t"
proof -
  obtain p a b c where p: "feed data (me_parser s) = Inr p"
    and a: "flush_responses (s\<lparr>me_parser := p\<rparr>) = Inr a" and b: "incoming_loop a = Inr b"
    and c: "process_queue b = Inr c" and t: "take_events c = (ev, t)"
    using assms(1) by (auto simp: process_incoming_def)
  have "eng_inv a" by (rule eng_inv_steps [OF flush_responses_steps [OF a] eng_inv_feed [OF assms(2) p]])
  then have "eng_inv c" using eng_inv_steps [OF process_queue_steps [OF c]] eng_inv_incoming_loop [OF b] by blast
  then show ?thesis by (rule eng_inv_take_events [OF t])
qed

lemma eng_inv_handle_incoming:
  assumes "handle_incoming_inner data s = Inr (ev, t)" and "eng_inv s" shows "eng_inv t"
  using assms(1)
proof (cases rule: handle_incoming_cases)
  case (2 e a)
  then show ?thesis
    using eng_inv_take_events [OF 2(2)] eng_inv_steps [OF fail_connection_steps0 [OF 2(1)] assms(2)] by simp
qed (use assms(2) eng_inv_take_events eng_inv_process_incoming in blast)+

lemma eng_inv_refill:
  assumes "refill s = Inr t" and "eng_inv s" shows "eng_inv t"
proof -
  obtain a b where a: "flush_responses s = Inr a" and b: "process_queue b = Inr t"
    and ab: "b = a \<or> (\<exists>ev c. handle_incoming_inner [] a = Inr (ev, c) \<and> b = c\<lparr>me_events := me_events c @ ev\<rparr>)"
    using assms(1) by (auto simp: refill_def split: if_splits)
  have "eng_inv a" by (rule eng_inv_steps [OF flush_responses_steps [OF a] assms(2)])
  then have "eng_inv b" using ab eng_inv_handle_incoming by auto
  then show ?thesis by (rule eng_inv_steps [OF process_queue_steps [OF b]])
qed

lemma eng_inv_clear_output: "eng_inv s \<Longrightarrow> eng_inv (s\<lparr>me_outgoing_buffer := []\<rparr>)"
  by (rule eng_inv_steps [OF micro_steps [OF clear_output order.refl]])

lemma eng_inv_outgoing_loop: "outgoing_loop s = Inr (b, t) \<Longrightarrow> eng_inv s \<Longrightarrow> eng_inv t"
proof (induction s arbitrary: b rule: outgoing_loop.induct)
  case (1 s)
  obtain a where a: "refill (s\<lparr>me_outgoing_buffer := []\<rparr>) = Inr a"
    using "1.prems"(1) by (auto simp: outgoing_loop.simps [of s] Let_def)
  have i: "eng_inv a" by (rule eng_inv_refill [OF a eng_inv_clear_output [OF "1.prems"(2)]])
  show ?case
  proof (cases "me_outgoing_buffer a = []")
    case True
    then show ?thesis using "1.prems"(1) a i by (auto simp: outgoing_loop.simps [of s] Let_def)
  next
    case False
    then obtain b' where "outgoing_loop a = Inr (b', t)"
      using "1.prems"(1) a by (auto simp: outgoing_loop.simps [of s] Let_def)
    then show ?thesis using "1.IH" [OF refl a False] i by blast
  qed
qed

section \<open>Ticks, stream packets and connecting\<close>

lemma expire_deadlines_steps: "expire_deadlines now xs s = Inr t \<Longrightarrow> steps 0 s t"
proof (induction xs arbitrary: s)
  case (Cons x xs)
  obtain k i d where x: "x = ((k, i), d)" by (metis surj_pair)
  let ?s = "push_event (OperationFailed k i (OperationTimeout (operation_text k)
      (of_nat (min (duration_as_millis d) 18446744073709551615))))
      (me_state_update (\<lambda>st. st\<lparr>ps_deadlines := hm_remove (k, i) (ps_deadlines st)\<rparr>) s)"
  have s: "core ?s = core s" by (simp add: core_def)
  obtain u where u: "(if k = Op_Connect then connection_lost_at now ?s else Inr ?s) = Inr u"
    and t: "expire_deadlines now xs u = Inr t"
    using Cons.prems by (auto simp: x Let_def)
  have "steps 0 ?s u" using u by (auto simp: steps_refl split: if_splits intro: lost_cost_le connection_lost_steps)
  then have "steps 0 s u" by (rule core_then_steps [OF s])
  from steps_via [OF this Cons.IH [OF t]] show ?case by simp
qed (simp add: steps_refl)

lemma retransmit_steps: "steps (int (length xs)) s (retransmit now xs s)"
proof (induction xs arbitrary: s)
  case (Cons x xs)
  obtain p stream where x: "x = (p, stream)" by fastforce
  show ?case
  proof (cases "MqttPacket_to_bytes (set_dup True p)")
    case (Inl e)
    then show ?thesis using steps_le [OF Cons.IH] by (simp add: x)
  next
    case (Inr b)
    let ?r = "case stream of
       Some stream_id \<Rightarrow> s\<lparr>me_stream_retransmissions := me_stream_retransmissions s @ [(stream_id, b)]\<rparr>
     | None \<Rightarrow> (case enqueue_packet_inner (set_dup True p) s of
          (Inr _, s) \<Rightarrow> s | (Inl (BufferFull _ _), s) \<Rightarrow> s
        | (Inl error, s) \<Rightarrow> push_event (EventError error) s)"
    obtain y u where y: "enqueue_packet_inner (set_dup True p) s = (y, u)" by fastforce
    have "steps 1 s ?r"
    proof (cases y)
      case (Inl e)
      then have "u = s" using y enqueue_packet_error by simp
      then show ?thesis
        using y Inl by (intro inert_steps) (auto simp: core_def split: option.splits MqttClientError.splits)
    next
      case (Inr v)
      then show ?thesis
        using y enqueue_packet_steps [of "set_dup True p" s v u]
        by (auto simp: core_def intro: inert_steps split: option.splits)
    qed
    then have "steps 1 s (?r\<lparr>me_last_packet_sent := now\<rparr>)" by (rule steps_then_inert) (simp add: core_def)
    from steps_via [OF this Cons.IH] show ?thesis using Inr by (simp add: x Let_def)
  qed
qed (simp add: steps_refl)

lemma handle_retransmissions_steps:
  assumes "handle_retransmissions (me_now s) s = Inr t" shows "\<exists>c. steps c s t"
proof -
  obtain xs q where q: "get_expired_with_stream_at (me_now s) (me_inflight_queue s) = Inr (xs, q)"
    and t: "t = retransmit (me_now s) xs (s\<lparr>me_inflight_queue := q\<rparr>)"
    using assms by (auto simp: handle_retransmissions_def expect_ok_def split: sum.splits)
  have "steps 0 s (s\<lparr>me_inflight_queue := q\<rparr>)" using q by (intro micro_steps [OF expire]) auto
  then have "steps (int (length xs)) s t" unfolding t by (rule steps_via [OF _ retransmit_steps]) simp
  then show ?thesis ..
qed

lemma steps_now: "steps c s t \<Longrightarrow> me_now t = me_now s"
  using limits.frame [of c s t] by (simp add: same_limits_def)

lemma eng_inv_connected_tick:
  assumes "connected_tick (me_now s) s = Inr (ev, t)" and "eng_inv s" shows "eng_inv t"
proof (cases "ping_timed_out (me_now s) s")
  case True
  then obtain a where a: "connection_lost_at (me_now s) s = Inr a"
    and t: "take_events (push_event (Disconnected None) a) = (ev, t)"
    using assms(1) by (auto simp: connected_tick_def)
  have "eng_inv a" by (rule eng_inv_steps [OF connection_lost_steps [OF a] assms(2)])
  then show ?thesis using eng_inv_take_events [OF t] by simp
next
  case False
  define a where "a = (if ping_due (me_now s) s then snd (send_ping_inner_at (me_now s) s) else s)"
  obtain b c where b: "process_queue a = Inr b" and c: "handle_retransmissions (me_now s) b = Inr c"
    and t: "take_events c = (ev, t)"
    using assms(1) False by (auto simp: connected_tick_def a_def Let_def)
  have "steps 1 s a" using send_ping_steps [of "me_now s" s] by (auto simp: a_def steps_refl prod_eq_iff)
  from steps_via [OF this process_queue_steps [OF b]] have b': "steps 1 s b" by simp
  then obtain d where "steps d b c" using handle_retransmissions_steps [of b c] c steps_now [OF b'] by auto
  then have "eng_inv c" using eng_inv_steps b' assms(2) by blast
  then show ?thesis by (rule eng_inv_take_events [OF t])
qed

lemma eng_inv_handle_tick:
  assumes "handle_tick_inner (me_now s) s = Inr (ev, t)" and "eng_inv s" shows "eng_inv t"
proof -
  obtain a b where a: "check_deadlines (me_now s) s = Inr a" and b: "flush_responses a = Inr b"
    using assms(1) by (auto simp: handle_tick_inner_def)
  have ab: "steps 0 s b"
    using steps_via [OF expire_deadlines_steps [OF a [unfolded check_deadlines_def]] flush_responses_steps [OF b]]
    by simp
  have i: "eng_inv b" by (rule eng_inv_steps [OF ab assms(2)])
  show ?thesis
  proof (cases "me_is_connected b")
    case True
    then have "connected_tick (me_now b) b = Inr (ev, t)"
      using assms(1) a b steps_now [OF ab] by (simp add: handle_tick_inner_def)
    then show ?thesis using eng_inv_connected_tick i by blast
  next
    case False
    define c where "c = (case me_next_reconnect_at b of None \<Rightarrow> b
      | Some r \<Rightarrow> if r \<le> me_now s then (push_event ReconnectNeeded b)\<lparr>me_next_reconnect_at := None\<rparr> else b)"
    have "core c = core b" by (simp add: c_def core_def split: option.splits)
    then have "eng_inv c" using i eng_inv_core by blast
    moreover have "take_events c = (ev, t)"
      using assms(1) a b False by (simp add: handle_tick_inner_def c_def Let_def)
    ultimately show ?thesis using eng_inv_take_events by blast
  qed
qed

lemma eng_inv_ingest:
  assumes "ingest_parsed_stream_packet_into p stream evs s = Inr (r, t)" and "eng_inv s" shows "eng_inv t"
proof -
  obtain w a where w: "take_events (s\<lparr>me_last_packet_received := me_now s\<rparr>) = (w, a)" by fastforce
  obtain x b where x: "(case p of
              Parsed_Full q \<Rightarrow>
                tryE (handle_packet q (Some stream) a) (\<lambda>((packet_events, responses), s).
                Inr (encode_responses responses ((evs @ w) @ packet_events) [], s))
            | _ \<Rightarrow>
                tryE (handle_reduced_packet p (Some stream) a) (\<lambda>((event, response), s).
                Inr (encode_responses (opt_list response) ((evs @ w) @ opt_list event) [], s))) = Inr (x, b)"
    and t: "tryE (process_queue (if snd x \<noteq> [] then b\<lparr>me_last_packet_sent := me_now b\<rparr> else b))
        (\<lambda>s. let (waiting, s) = take_events s in Inr ((fst x @ waiting, snd x), s)) = Inr (r, t)"
    using assms(1) w by (auto simp: ingest_parsed_stream_packet_into_def Let_def)
  obtain c where c: "process_queue (if snd x \<noteq> [] then b\<lparr>me_last_packet_sent := me_now b\<rparr> else b) = Inr c"
    and t': "t = snd (take_events c)" using t by (auto simp: Let_def split_beta)
  have "core a = core s" using w by (auto simp: take_events_def core_def)
  then have "eng_inv a" using assms(2) eng_inv_core by blast
  moreover have "\<exists>k. steps k a b"
    using x by (cases p) (auto dest!: handle_packet_steps handle_reduced_steps)
  ultimately have "eng_inv b" using eng_inv_steps by blast
  then have "eng_inv (if snd x \<noteq> [] then b\<lparr>me_last_packet_sent := me_now b\<rparr> else b)"
    using eng_inv_core [of "b\<lparr>me_last_packet_sent := me_now b\<rparr>" b] by (simp add: core_def)
  then have "eng_inv c" by (rule eng_inv_steps [OF process_queue_steps [OF c]])
  then show ?thesis using t' by (simp add: take_events_def)
qed

lemma connect_state_fields [simp]:
  "ps_incoming_quota_used (connect_state p st) = ps_incoming_quota_used st"
  "ps_input_closed (connect_state p st) = ps_input_closed st"
  "ps_responses (connect_state p st) = ps_responses st"
proof -
  have f: "ps_incoming_quota_used (fold connect_parameter ps st) = ps_incoming_quota_used st \<and>
      ps_input_closed (fold connect_parameter ps st) = ps_input_closed st \<and>
      ps_responses (fold connect_parameter ps st) = ps_responses st" for ps
    by (induction ps arbitrary: st) (simp_all add: connect_parameter_def split: Property.split)
  show "ps_incoming_quota_used (connect_state p st) = ps_incoming_quota_used st"
    "ps_input_closed (connect_state p st) = ps_input_closed st"
    "ps_responses (connect_state p st) = ps_responses st"
    by (cases p; simp add: connect_state_def f)+
qed

lemma connect_state_steps:
  assumes "\<not> me_is_connected s" shows "steps 0 s (me_state_update (connect_state p) s)"
proof -
  let ?r = "ps_incoming_receive_maximum (connect_state p (me_state s))"
  have "steps 0 s (me_state_update (\<lambda>st. st\<lparr>ps_incoming_receive_maximum := ?r\<rparr>) s)"
    by (rule micro_steps [OF set_limit [OF assms]]) simp
  then show ?thesis by (rule steps_then_inert) (simp add: core_def)
qed

lemma eng_inv_await_connack:
  assumes "await_connack n s = Inr t" and "eng_inv s" shows "eng_inv t"
proof -
  obtain a where a: "start_deadline Op_Connect None a = Inr t" and i: "eng_inv a = eng_inv s"
    using assms(1)
    by (auto simp: await_connack_def Let_def eng_inv_def inflight_inv_def input_inv_def output_inv_def
        quota_inv_def clock_inv_def)
  show ?thesis using eng_inv_core [OF start_deadline_core [OF a]] i assms(2) by simp
qed

lemma eng_inv_connect:
  assumes "connect_inner s = Inr (r, t)" and "eng_inv s" shows "eng_inv t"
proof (cases "t = s")
  case False
  obtain p where p: "connect_packet (me_options s) = Inr p" and c: "\<not> me_is_connected s"
    using assms(1) False by (cases "connect_packet (me_options s)") (auto simp: connect_inner_def split: if_splits)
  define a where "a = (if me_session (me_state_update (connect_state p) s) = None
    then (me_state_update (connect_state p) s)\<lparr>me_session := Some ClientSession_new\<rparr>
    else me_state_update (connect_state p) s)"
  have "core a = core (me_state_update (connect_state p) s)" by (simp add: a_def core_def)
  then have a: "eng_inv a" using eng_inv_steps [OF connect_state_steps [OF c] assms(2)] eng_inv_core by blast
  have "checkE (map_parse_err (MqttPacket_to_bytes p)) a (\<lambda>bytes.
      stepE (Inr (enqueue_packet_inner p a)) (\<lambda>_ s. tryE (await_connack (max (length bytes) 6) s) (\<lambda>s.
      Inr (Inr (), s)))) = Inr (r, t)"
    using assms(1) False p c by (cases "me_session s") (simp_all add: connect_inner_def a_def Let_def split: if_splits)
  then have "t = a \<or> (\<exists>n u b. enqueue_packet_inner p a = (u, b) \<and> (t = b \<or> await_connack n b = Inr t))"
    by (cases "map_parse_err (MqttPacket_to_bytes p)"; cases "enqueue_packet_inner p a";
        cases "fst (enqueue_packet_inner p a)") auto
  then show ?thesis
    using a eng_inv_await_connack eng_inv_steps [OF enqueue_packet_steps]
    by (metis enqueue_packet_error old.sum.exhaust)
qed (use assms(2) in simp)

section \<open>Reachable states\<close>

text \<open>The calls of the public interface that change the engine.\<close>

datatype engine_call =
    Call_connection_lost | Call_reset_for_new_transport | Call_schedule_reconnect
  | Call_incoming bytes | Call_tick | Call_take_outgoing | Call_connect
  | Call_publish PublishCommand | Call_publish_encoded PublishCommand "u64 option"
  | Call_ingest_stream_packet MqttPacket u64
  | Call_subscribe SubscribeCommand | Call_unsubscribe UnsubscribeCommand
  | Call_subscribe_encoded SubscribeCommand "u64 option"
  | Call_unsubscribe_encoded UnsubscribeCommand "u64 option"
  | Call_disconnect | Call_disconnect_with u8 "Property list" | Call_auth u8 "Property list"
  | Call_send_ping | Call_enqueue_packet MqttPacket
  | Call_puback u16 u8 "Property list" | Call_pubrec u16 u8 "Property list" | Call_pubcomp u16 u8 "Property list"
  | Call_take_events | Call_set_parse_level ParseLevel | Call_try_set_parse_level ParseLevel
  | Call_set_reconnect bool | Call_reset_reconnect_state | Call_take_stream_retransmissions
  | Call_next_packet_id | Call_restore_session_state ClientSessionState

definition after :: "'a eng \<Rightarrow> string + MqttEngine" where
  "after r = tryE r (\<lambda>(_, s). Inr s)"

definition perform :: "engine_call \<Rightarrow> Timestamp \<Rightarrow> MqttEngine \<Rightarrow> string + MqttEngine" where
  "perform c now s = (case c of
     Call_connection_lost \<Rightarrow> after (handle_connection_lost_at now s)
   | Call_reset_for_new_transport \<Rightarrow> after (reset_for_new_transport_at now s)
   | Call_schedule_reconnect \<Rightarrow> after (schedule_reconnect_at now s)
   | Call_incoming data \<Rightarrow> after (handle_incoming_at data now s)
   | Call_tick \<Rightarrow> after (handle_tick_at now s)
   | Call_take_outgoing \<Rightarrow> after (take_outgoing_at now s)
   | Call_connect \<Rightarrow> after (connect_at now s)
   | Call_publish command \<Rightarrow> after (publish_at command now s)
   | Call_publish_encoded command stream \<Rightarrow> after (publish_encoded_at command stream now s)
   | Call_ingest_stream_packet packet stream \<Rightarrow> after (ingest_stream_packet_at packet stream now s)
   | Call_subscribe command \<Rightarrow> after (subscribe_at command now s)
   | Call_unsubscribe command \<Rightarrow> after (unsubscribe_at command now s)
   | Call_subscribe_encoded command stream \<Rightarrow> after (subscribe_encoded_at command stream now s)
   | Call_unsubscribe_encoded command stream \<Rightarrow> after (unsubscribe_encoded_at command stream now s)
   | Call_disconnect \<Rightarrow> after (try_disconnect_at now s)
   | Call_disconnect_with code properties \<Rightarrow> after (try_disconnect_with_at code properties now s)
   | Call_auth code properties \<Rightarrow> after (try_auth_at code properties now s)
   | Call_send_ping \<Rightarrow> after (send_ping_at now s)
   | Call_enqueue_packet packet \<Rightarrow> after (enqueue_packet_at packet now s)
   | Call_puback i code properties \<Rightarrow> after (puback_at i code properties now s)
   | Call_pubrec i code properties \<Rightarrow> after (pubrec_at i code properties now s)
   | Call_pubcomp i code properties \<Rightarrow> after (pubcomp_at i code properties now s)
   | Call_take_events \<Rightarrow> Inr (snd (take_events s))
   | Call_set_parse_level level \<Rightarrow> Inr (engine_set_parse_level level s)
   | Call_try_set_parse_level level \<Rightarrow> Inr (snd (try_set_parse_level level s))
   | Call_set_reconnect enabled \<Rightarrow> Inr (set_reconnect enabled s)
   | Call_reset_reconnect_state \<Rightarrow> Inr (reset_reconnect_state s)
   | Call_take_stream_retransmissions \<Rightarrow> Inr (snd (take_stream_retransmissions s))
   | Call_next_packet_id \<Rightarrow> Inr (snd (next_packet_id s))
   | Call_restore_session_state saved \<Rightarrow>
       Inr (case restore_session_state saved s of Inl _ \<Rightarrow> s | Inr t \<Rightarrow> t))"

inductive engine_reachable :: "MqttEngine \<Rightarrow> bool" where
  created: "try_new_at opts now = Inr s \<Longrightarrow> engine_reachable s"
| called: "engine_reachable s \<Longrightarrow> perform c now s = Inr t \<Longrightarrow> engine_reachable t"

fun perform_all :: "(engine_call \<times> Timestamp) list \<Rightarrow> MqttEngine \<Rightarrow> string + MqttEngine" where
  "perform_all [] s = Inr s"
| "perform_all ((c, now) # rest) s = tryE (perform c now s) (\<lambda>s. perform_all rest s)"

lemma perform_all_reachable: "perform_all cs s = Inr t \<Longrightarrow> engine_reachable s \<Longrightarrow> engine_reachable t"
proof (induction cs arbitrary: s)
  case (Cons x cs)
  obtain c now where x: "x = (c, now)" by fastforce
  then obtain u where "perform c now s = Inr u" "perform_all cs u = Inr t" using Cons.prems(1) by auto
  then show ?case using Cons.IH called Cons.prems(2) by blast
qed simp

lemma eng_inv_begin_update:
  assumes "begin_update now s = (r, t)" and "eng_inv s" shows "eng_inv t \<and> (r = Inr () \<longrightarrow> me_now t = now)"
  using assms
  by (auto simp: begin_update_def eng_inv_def inflight_inv_def input_inv_def output_inv_def quota_inv_def
      clock_inv_def Let_def split: if_splits sum.splits)

lemma eng_inv_at_time:
  assumes "after (at_time now f s) = Inr t" and "eng_inv s"
    and "\<And>a r u. eng_inv a \<Longrightarrow> me_now a = now \<Longrightarrow> f a = Inr (r, u) \<Longrightarrow> eng_inv u"
  shows "eng_inv t"
proof -
  obtain r a where a: "begin_update now s = (r, a)" by fastforce
  from eng_inv_begin_update [OF a assms(2)] show ?thesis
    using assms(1,3) a by (cases r) (auto simp: after_def at_time_def)
qed

lemma eng_inv_infallible:
  assumes "infallible f a = Inr (r, u)" and "\<And>x. f a = Inr (x, u) \<Longrightarrow> eng_inv u" shows "eng_inv u"
  using assms by (auto simp: infallible_def)

lemma eng_inv_silent:
  assumes "silent f a = Inr (r, u)" and "f a = Inr u \<Longrightarrow> eng_inv u" shows "eng_inv u"
  using assms by (auto simp: silent_def)

lemma eng_inv_new:
  assumes "try_new_at opts now = Inr s" shows "eng_inv s"
proof -
  have s: "s = MqttEngine_new_at opts now" and o: "check_time_range opts now = Inr ()"
    "3 \<le> o_mqtt_version opts" "o_mqtt_version opts \<le> 5" "0 < o_max_outgoing_packet_count opts" "0 < o_max_event_count opts"
    using assms by (auto simp: try_new_at_def split: if_splits)
  have c: "pq_capacity (PriorityQueue_new n) = n" for n by (simp add: PriorityQueue_new_def)
  have i: "iq_inv (InflightQueue_new r v d)" "iq_last_update (InflightQueue_new r v d) = None"
    "iq_mqtt_version (InflightQueue_new r v d) = v" "iq_retransmission_timeout (InflightQueue_new r v d) = d" for r v d
    by (simp, simp_all add: InflightQueue_new_def)
  show ?thesis
    using o c i
    by (simp add: s MqttEngine_new_at_def eng_inv_def inflight_inv_def input_inv_def output_inv_def quota_inv_def
        clock_inv_def ProtocolState_new_def MqttParser_new_def parser_inv_def Let_def)
qed

lemma eng_inv_inert_calls:
  "eng_inv (set_reconnect b s) = eng_inv s" "eng_inv (reset_reconnect_state s) = eng_inv s"
  "eng_inv (snd (take_stream_retransmissions s)) = eng_inv s" "eng_inv (snd (next_packet_id s)) = eng_inv s"
  "eng_inv (snd (take_events s)) = eng_inv s"
proof -
  show "eng_inv (set_reconnect b s) = eng_inv s"
    by (rule eng_inv_core) (simp add: set_reconnect_def core_def core_options_def Let_def)
  show "eng_inv (snd (next_packet_id s)) = eng_inv s"
    by (rule eng_inv_core, rule next_packet_id_core) (rule prod.collapse [symmetric])
qed (rule eng_inv_core, simp add: reset_reconnect_state_def take_stream_retransmissions_def take_events_def core_def)+

lemma eng_inv_set_parse_level: "eng_inv s \<Longrightarrow> eng_inv (engine_set_parse_level level s)"
  unfolding engine_set_parse_level_def
  by (rule eng_inv_parser) (auto simp: eng_inv_def input_inv_def parser_inv_def set_parse_level_def)

lemma pq_inv_fold_enqueue:
  "pq_inv q \<Longrightarrow> pq_inv (fold (\<lambda>(p, t). enqueue p t) xs q) \<and>
   pq_capacity (fold (\<lambda>(p, t). enqueue p t) xs q) = pq_capacity q"
  by (induction xs arbitrary: q) (auto simp: enqueue_refines)

lemma eng_inv_restore:
  assumes "restore_session_state saved s = Inr t" and "eng_inv s" shows "eng_inv t"
  using assms(1)
proof (cases rule: restore_cases)
  case (1 reserved replay_reserve queued_bytes control_reserve received)
  have q: "pq_inv (me_priority_queue t)" "pq_capacity (me_priority_queue t) = o_max_outgoing_packet_count (me_options s)"
    using pq_inv_fold_enqueue [OF pq_inv_new(1) [of "o_max_outgoing_packet_count (me_options s)"], of "css_queued saved"]
    by (simp_all add: 1(1)) (simp add: PriorityQueue_new_def)
  show ?thesis
    using assms(2) q
    by (simp add: 1(1) install_session_def eng_inv_def inflight_inv_def input_inv_def output_inv_def quota_inv_def
        clock_inv_def Let_def)
qed

lemma eng_inv_perform:
  assumes "perform c now s = Inr t" and "eng_inv s" shows "eng_inv t"
proof (cases c)
  case Call_connection_lost
  then show ?thesis
    using assms by (auto simp: perform_def handle_connection_lost_at_def elim!: eng_inv_at_time eng_inv_silent
        intro: eng_inv_steps [OF handle_connection_lost_steps])
next
  case Call_reset_for_new_transport
  then show ?thesis
    using assms by (auto simp: perform_def reset_for_new_transport_at_def elim!: eng_inv_at_time eng_inv_silent
        intro: eng_inv_steps [OF reset_steps])
next
  case Call_schedule_reconnect
  then show ?thesis
    using assms by (auto simp: perform_def schedule_reconnect_at_def eng_inv_core [OF schedule_core]
        elim!: eng_inv_at_time eng_inv_silent)
next
  case (Call_incoming d)
  then show ?thesis
    using assms by (auto simp: perform_def handle_incoming_at_def elim!: eng_inv_at_time eng_inv_infallible
        intro: eng_inv_handle_incoming)
next
  case Call_tick
  then show ?thesis
    using assms by (auto simp: perform_def handle_tick_at_def elim!: eng_inv_at_time eng_inv_infallible
        intro: eng_inv_handle_tick)
next
  case Call_take_outgoing
  then show ?thesis
    using assms by (auto simp: perform_def take_outgoing_at_def take_outgoing_inner_def
        elim!: eng_inv_at_time eng_inv_infallible intro: eng_inv_outgoing_loop)
next
  case Call_connect
  then show ?thesis
    using assms by (auto simp: perform_def connect_at_def elim!: eng_inv_at_time intro: eng_inv_connect)
next
  case (Call_ingest_stream_packet p x)
  then show ?thesis
    using assms by (auto simp: perform_def ingest_stream_packet_at_def ingest_stream_packet_inner_def
        elim!: eng_inv_at_time eng_inv_infallible intro: eng_inv_ingest)
next
  case Call_send_ping
  then show ?thesis
    using assms by (auto simp: perform_def send_ping_at_def elim!: eng_inv_at_time
        intro: eng_inv_steps [OF send_ping_steps])
next
  case (Call_enqueue_packet p)
  have "eng_inv u" if "eng_inv a" "enqueue_packet_inner p a = (r, u)" for a r u
    using that eng_inv_steps [OF enqueue_packet_steps] by (cases r) (auto dest: enqueue_packet_error)
  then show ?thesis
    using assms Call_enqueue_packet by (auto simp: perform_def enqueue_packet_at_def elim!: eng_inv_at_time)
next
  case (Call_set_parse_level l)
  then show ?thesis using assms by (auto simp: perform_def eng_inv_set_parse_level)
next
  case (Call_restore_session_state saved)
  then show ?thesis
    using assms eng_inv_restore [of saved s] by (auto simp: perform_def split: sum.splits)
next
  case (Call_try_set_parse_level l)
  then show ?thesis
    using assms by (auto simp: perform_def try_set_parse_level_def eng_inv_set_parse_level split: if_splits)
qed (use assms in \<open>auto simp: perform_def eng_inv_inert_calls publish_at_def publish_encoded_at_def subscribe_at_def
    unsubscribe_at_def subscribe_encoded_at_def unsubscribe_encoded_at_def try_disconnect_at_def
    try_disconnect_inner_def try_disconnect_with_at_def try_auth_at_def puback_at_def pubrec_at_def pubcomp_at_def
    puback_inner_def pubrec_inner_def pubcomp_inner_def
    elim!: eng_inv_at_time intro: eng_inv_steps [OF publish_steps] eng_inv_steps [OF publish_encoded_steps]
    eng_inv_steps [OF subscribe_steps] eng_inv_steps [OF unsubscribe_steps] eng_inv_steps [OF subscribe_encoded_steps]
    eng_inv_steps [OF unsubscribe_encoded_steps] eng_inv_steps [OF try_disconnect_steps]
    eng_inv_steps [OF try_auth_steps] eng_inv_steps [OF manual_ack_steps]\<close>)

lemma engine_reachable_inv: "engine_reachable s \<Longrightarrow> eng_inv s"
  by (induction rule: engine_reachable.induct) (auto intro: eng_inv_new eng_inv_perform)

end
