(* ===== verification/Engine_Host.thy ===== *)
theory Engine_Host
  imports Engine_Invariant
begin

text \<open>
  The system-clock interface of the engine, \<open>src/src/mqtt_client/engine/host.rs\<close> and
  \<open>inflight/host.rs\<close>, and the client without input and output around it,
  \<open>no_io_client.rs\<close> and \<open>no_io_client/host.rs\<close>.

  Every operation reads the system clock; the sample is the argument \<open>sample\<close>.  It is replaced
  by the time of the last operation when it is older, so that a stale sample is not an error, and
  an operation that cannot return an error reports it as an event.
\<close>

section \<open>Engine with the system clock\<close>

definition host_now :: "Timestamp \<Rightarrow> MqttEngine \<Rightarrow> Timestamp" where
  "host_now sample s = max sample (me_now s)"

definition host_new :: "MqttClientOptions \<Rightarrow> Timestamp \<Rightarrow> MqttEngine" where
  "host_new opts sample = MqttEngine_new_at opts sample"

text \<open>
  The error handling that the operations share: an error becomes an event of the engine, or the
  event that the call returns.
\<close>

definition report_error :: "'a \<Rightarrow> 'a cres eng \<Rightarrow> 'a eng" where
  "report_error failed r = tryE r (\<lambda>(x, s). case x of
     Inl e \<Rightarrow> Inr (failed, push_event (EventError e) s)
   | Inr y \<Rightarrow> Inr (y, s))"

definition error_value :: "(MqttClientError \<Rightarrow> 'a) \<Rightarrow> 'a cres eng \<Rightarrow> 'a eng" where
  "error_value f r = tryE r (\<lambda>(x, s). case x of Inl e \<Rightarrow> Inr (f e, s) | Inr y \<Rightarrow> Inr (y, s))"

definition host_handle_connection_lost :: "Timestamp \<Rightarrow> MqttEngine \<Rightarrow> unit eng" where
  "host_handle_connection_lost sample s =
     report_error () (handle_connection_lost_at (host_now sample s) s)"

definition host_reset_for_new_transport :: "Timestamp \<Rightarrow> MqttEngine \<Rightarrow> unit eng" where
  "host_reset_for_new_transport sample s =
     report_error () (reset_for_new_transport_at (host_now sample s) s)"

definition host_schedule_reconnect :: "Timestamp \<Rightarrow> MqttEngine \<Rightarrow> unit eng" where
  "host_schedule_reconnect now s = report_error () (schedule_reconnect_at (max now (me_now s)) s)"

definition host_handle_incoming :: "bytes \<Rightarrow> Timestamp \<Rightarrow> MqttEngine \<Rightarrow> (MqttEvent list) eng" where
  "host_handle_incoming data sample s =
     error_value (\<lambda>e. [EventError e]) (handle_incoming_at data (host_now sample s) s)"

definition host_handle_tick :: "Timestamp \<Rightarrow> MqttEngine \<Rightarrow> (MqttEvent list) eng" where
  "host_handle_tick now s = error_value (\<lambda>e. [EventError e]) (handle_tick_at (max now (me_now s)) s)"

definition host_take_outgoing :: "Timestamp \<Rightarrow> MqttEngine \<Rightarrow> bytes eng" where
  "host_take_outgoing sample s = report_error [] (take_outgoing_at (host_now sample s) s)"

definition host_ingest_stream_packet ::
  "MqttPacket \<Rightarrow> u64 \<Rightarrow> Timestamp \<Rightarrow> MqttEngine \<Rightarrow> (MqttEvent list \<times> bytes) eng" where
  "host_ingest_stream_packet packet stream sample s =
     error_value (\<lambda>e. ([EventError e], []))
       (ingest_stream_packet_at packet stream (host_now sample s) s)"

definition host_connect :: "Timestamp \<Rightarrow> MqttEngine \<Rightarrow> unit cres eng" where
  "host_connect sample s = connect_at (host_now sample s) s"

definition host_publish ::
  "PublishCommand \<Rightarrow> Timestamp \<Rightarrow> MqttEngine \<Rightarrow> (u16 option) cres eng" where
  "host_publish command sample s = publish_at command (host_now sample s) s"

definition host_publish_encoded ::
  "PublishCommand \<Rightarrow> u64 option \<Rightarrow> Timestamp \<Rightarrow> MqttEngine \<Rightarrow> (u16 option \<times> bytes) cres eng" where
  "host_publish_encoded command stream sample s = publish_encoded_at command stream (host_now sample s) s"

definition host_subscribe ::
  "SubscribeCommand \<Rightarrow> Timestamp \<Rightarrow> MqttEngine \<Rightarrow> u16 cres eng" where
  "host_subscribe command sample s = subscribe_at command (host_now sample s) s"

definition host_unsubscribe ::
  "UnsubscribeCommand \<Rightarrow> Timestamp \<Rightarrow> MqttEngine \<Rightarrow> u16 cres eng" where
  "host_unsubscribe command sample s = unsubscribe_at command (host_now sample s) s"

definition host_subscribe_encoded ::
  "SubscribeCommand \<Rightarrow> u64 option \<Rightarrow> Timestamp \<Rightarrow> MqttEngine \<Rightarrow> (u16 \<times> bytes) cres eng" where
  "host_subscribe_encoded command stream sample s = subscribe_encoded_at command stream (host_now sample s) s"

definition host_unsubscribe_encoded ::
  "UnsubscribeCommand \<Rightarrow> u64 option \<Rightarrow> Timestamp \<Rightarrow> MqttEngine \<Rightarrow> (u16 \<times> bytes) cres eng" where
  "host_unsubscribe_encoded command stream sample s = unsubscribe_encoded_at command stream (host_now sample s) s"

definition host_disconnect :: "Timestamp \<Rightarrow> MqttEngine \<Rightarrow> unit cres eng" where
  "host_disconnect sample s = disconnect_at (host_now sample s) s"

definition host_try_disconnect ::
  "Timestamp \<Rightarrow> MqttEngine \<Rightarrow> unit cres eng" where
  "host_try_disconnect sample s = try_disconnect_at (host_now sample s) s"

definition host_try_disconnect_with ::
  "u8 \<Rightarrow> Property list \<Rightarrow> Timestamp \<Rightarrow> MqttEngine \<Rightarrow> unit cres eng" where
  "host_try_disconnect_with code properties sample s = try_disconnect_with_at code properties (host_now sample s) s"

definition host_auth ::
  "u8 \<Rightarrow> Property list \<Rightarrow> Timestamp \<Rightarrow> MqttEngine \<Rightarrow> unit cres eng" where
  "host_auth code properties sample s = auth_at code properties (host_now sample s) s"

definition host_try_auth ::
  "u8 \<Rightarrow> Property list \<Rightarrow> Timestamp \<Rightarrow> MqttEngine \<Rightarrow> unit cres eng" where
  "host_try_auth code properties sample s = try_auth_at code properties (host_now sample s) s"

definition host_send_ping :: "Timestamp \<Rightarrow> MqttEngine \<Rightarrow> unit cres eng" where
  "host_send_ping sample s = send_ping_at (host_now sample s) s"

definition host_try_send_ping ::
  "Timestamp \<Rightarrow> MqttEngine \<Rightarrow> unit cres eng" where
  "host_try_send_ping sample s = try_send_ping_at (host_now sample s) s"

definition host_enqueue_packet ::
  "MqttPacket \<Rightarrow> Timestamp \<Rightarrow> MqttEngine \<Rightarrow> unit cres eng" where
  "host_enqueue_packet packet sample s = enqueue_packet_at packet (host_now sample s) s"

definition host_puback ::
  "u16 \<Rightarrow> u8 \<Rightarrow> Property list \<Rightarrow> Timestamp \<Rightarrow> MqttEngine \<Rightarrow> unit cres eng" where
  "host_puback i code properties sample s = puback_at i code properties (host_now sample s) s"

definition host_pubrec ::
  "u16 \<Rightarrow> u8 \<Rightarrow> Property list \<Rightarrow> Timestamp \<Rightarrow> MqttEngine \<Rightarrow> unit cres eng" where
  "host_pubrec i code properties sample s = pubrec_at i code properties (host_now sample s) s"

definition host_pubcomp ::
  "u16 \<Rightarrow> u8 \<Rightarrow> Property list \<Rightarrow> Timestamp \<Rightarrow> MqttEngine \<Rightarrow> unit cres eng" where
  "host_pubcomp i code properties sample s = pubcomp_at i code properties (host_now sample s) s"

section \<open>In-flight queue with the system clock\<close>

definition inflight_host_now :: "Timestamp \<Rightarrow> InflightQueue \<Rightarrow> Timestamp" where
  "inflight_host_now sample q = (case iq_last_update q of None \<Rightarrow> sample | Some latest \<Rightarrow> max sample latest)"

definition inflight_push :: "u16 \<Rightarrow> MqttPacket \<Rightarrow> u8 \<Rightarrow> Timestamp \<Rightarrow> InflightQueue \<Rightarrow> InflightQueue cres" where
  "inflight_push i packet qos sample q = push_at i packet qos (inflight_host_now sample q) q"

definition inflight_push_with_stream ::
  "u16 \<Rightarrow> MqttPacket \<Rightarrow> u8 \<Rightarrow> u64 option \<Rightarrow> Timestamp \<Rightarrow> InflightQueue \<Rightarrow> InflightQueue cres" where
  "inflight_push_with_stream i packet qos stream sample q =
     push_with_stream_at i packet qos stream (inflight_host_now sample q) q"

text \<open>An error of the next operations is dropped and leaves the queue as it was.\<close>

definition inflight_transition_pubrel :: "u16 \<Rightarrow> MqttPacket \<Rightarrow> Timestamp \<Rightarrow> InflightQueue \<Rightarrow> InflightQueue" where
  "inflight_transition_pubrel i packet sample q =
     (case transition_pubrel_at i packet (inflight_host_now sample q) q of Inl _ \<Rightarrow> q | Inr q' \<Rightarrow> q')"

definition inflight_resume_on_stream :: "u16 \<Rightarrow> u64 \<Rightarrow> Timestamp \<Rightarrow> InflightQueue \<Rightarrow> InflightQueue" where
  "inflight_resume_on_stream i stream sample q =
     (case resume_on_stream_at i stream (inflight_host_now sample q) q of Inl _ \<Rightarrow> q | Inr q' \<Rightarrow> q')"

definition inflight_get_expired :: "Timestamp \<Rightarrow> InflightQueue \<Rightarrow> MqttPacket list \<times> InflightQueue" where
  "inflight_get_expired now q = (case get_expired_at now q of Inl _ \<Rightarrow> ([], q) | Inr r \<Rightarrow> r)"

definition inflight_get_expired_with_stream ::
  "Timestamp \<Rightarrow> InflightQueue \<Rightarrow> (MqttPacket \<times> u64 option) list \<times> InflightQueue" where
  "inflight_get_expired_with_stream now q =
     (case get_expired_with_stream_at now q of Inl _ \<Rightarrow> ([], q) | Inr r \<Rightarrow> r)"

section \<open>Client without input and output\<close>

record NoIoMqttClient =
  nc_engine :: MqttEngine

type_synonym 'a noio = "string + 'a \<times> NoIoMqttClient"

text \<open>Every operation of the client is the operation of its engine.\<close>

definition on_engine :: "(MqttEngine \<Rightarrow> 'a eng) \<Rightarrow> NoIoMqttClient \<Rightarrow> 'a noio" where
  "on_engine f c = tryE (f (nc_engine c)) (\<lambda>(x, e). Inr (x, c\<lparr>nc_engine := e\<rparr>))"

definition nc_new_at :: "MqttClientOptions \<Rightarrow> Timestamp \<Rightarrow> NoIoMqttClient" where
  "nc_new_at opts now = \<lparr>nc_engine = MqttEngine_new_at opts now\<rparr>"

definition nc_try_new_at :: "MqttClientOptions \<Rightarrow> Timestamp \<Rightarrow> NoIoMqttClient cres" where
  "nc_try_new_at opts now = tryE (try_new_at opts now) (\<lambda>e. Inr \<lparr>nc_engine = e\<rparr>)"

definition nc_new :: "MqttClientOptions \<Rightarrow> Timestamp \<Rightarrow> NoIoMqttClient" where
  "nc_new opts sample = \<lparr>nc_engine = host_new opts sample\<rparr>"

definition nc_snapshot_session :: "NoIoMqttClient \<Rightarrow> ClientSessionState cres" where
  "nc_snapshot_session c = snapshot_session (nc_engine c)"

definition nc_restore_session_state :: "ClientSessionState \<Rightarrow> NoIoMqttClient \<Rightarrow> NoIoMqttClient cres" where
  "nc_restore_session_state saved c =
     tryE (restore_session_state saved (nc_engine c)) (\<lambda>e. Inr (c\<lparr>nc_engine := e\<rparr>))"

definition nc_next_tick_at :: "NoIoMqttClient \<Rightarrow> string + Timestamp option" where
  "nc_next_tick_at c = next_tick_at (nc_engine c)"

definition nc_take_events :: "NoIoMqttClient \<Rightarrow> MqttEvent list \<times> NoIoMqttClient" where
  "nc_take_events c = (let (events, e) = take_events (nc_engine c) in (events, c\<lparr>nc_engine := e\<rparr>))"

definition nc_set_parse_level :: "ParseLevel \<Rightarrow> NoIoMqttClient \<Rightarrow> NoIoMqttClient" where
  "nc_set_parse_level level c = c\<lparr>nc_engine := engine_set_parse_level level (nc_engine c)\<rparr>"

definition nc_has_pending_output :: "NoIoMqttClient \<Rightarrow> bool" where
  "nc_has_pending_output c = has_pending_output (nc_engine c)"

definition nc_is_connected :: "NoIoMqttClient \<Rightarrow> bool" where
  "nc_is_connected c = me_is_connected (nc_engine c)"

definition nc_mqtt_version :: "NoIoMqttClient \<Rightarrow> u8" where
  "nc_mqtt_version c = mqtt_version (nc_engine c)"

definition nc_options :: "NoIoMqttClient \<Rightarrow> MqttClientOptions" where
  "nc_options c = me_options (nc_engine c)"

definition nc_handle_incoming_at ::
  "bytes \<Rightarrow> Timestamp \<Rightarrow> NoIoMqttClient \<Rightarrow> (MqttEvent list) cres noio" where
  "nc_handle_incoming_at data now = on_engine (handle_incoming_at data now)"

definition nc_take_outgoing_at ::
  "Timestamp \<Rightarrow> NoIoMqttClient \<Rightarrow> bytes cres noio" where
  "nc_take_outgoing_at now = on_engine (take_outgoing_at now)"

definition nc_handle_tick_at ::
  "Timestamp \<Rightarrow> NoIoMqttClient \<Rightarrow> (MqttEvent list) cres noio" where
  "nc_handle_tick_at now = on_engine (handle_tick_at now)"

definition nc_connect_at ::
  "Timestamp \<Rightarrow> NoIoMqttClient \<Rightarrow> unit cres noio" where
  "nc_connect_at now = on_engine (connect_at now)"

definition nc_publish_at ::
  "PublishCommand \<Rightarrow> Timestamp \<Rightarrow> NoIoMqttClient \<Rightarrow> (u16 option) cres noio" where
  "nc_publish_at command now = on_engine (publish_at command now)"

definition nc_subscribe_at ::
  "SubscribeCommand \<Rightarrow> Timestamp \<Rightarrow> NoIoMqttClient \<Rightarrow> u16 cres noio" where
  "nc_subscribe_at command now = on_engine (subscribe_at command now)"

definition nc_unsubscribe_at ::
  "UnsubscribeCommand \<Rightarrow> Timestamp \<Rightarrow> NoIoMqttClient \<Rightarrow> u16 cres noio" where
  "nc_unsubscribe_at command now = on_engine (unsubscribe_at command now)"

definition nc_ping_at :: "Timestamp \<Rightarrow> NoIoMqttClient \<Rightarrow> unit cres noio" where
  "nc_ping_at now = on_engine (try_send_ping_at now)"

definition nc_disconnect_at ::
  "Timestamp \<Rightarrow> NoIoMqttClient \<Rightarrow> unit cres noio" where
  "nc_disconnect_at now = on_engine (disconnect_at now)"

definition nc_auth_at ::
  "u8 \<Rightarrow> Property list \<Rightarrow> Timestamp \<Rightarrow> NoIoMqttClient \<Rightarrow> unit cres noio" where
  "nc_auth_at code properties now = on_engine (auth_at code properties now)"

definition nc_reset_for_new_transport_at ::
  "Timestamp \<Rightarrow> NoIoMqttClient \<Rightarrow> unit cres noio" where
  "nc_reset_for_new_transport_at now = on_engine (reset_for_new_transport_at now)"

definition nc_schedule_reconnect_at ::
  "Timestamp \<Rightarrow> NoIoMqttClient \<Rightarrow> unit cres noio" where
  "nc_schedule_reconnect_at now = on_engine (schedule_reconnect_at now)"

definition nc_disconnect_with_at ::
  "u8 \<Rightarrow> Property list \<Rightarrow> Timestamp \<Rightarrow> NoIoMqttClient \<Rightarrow> unit cres noio" where
  "nc_disconnect_with_at code properties now = on_engine (try_disconnect_with_at code properties now)"

definition nc_puback_at ::
  "u16 \<Rightarrow> u8 \<Rightarrow> Property list \<Rightarrow> Timestamp \<Rightarrow> NoIoMqttClient \<Rightarrow> unit cres noio" where
  "nc_puback_at i code properties now = on_engine (puback_at i code properties now)"

definition nc_pubrec_at ::
  "u16 \<Rightarrow> u8 \<Rightarrow> Property list \<Rightarrow> Timestamp \<Rightarrow> NoIoMqttClient \<Rightarrow> unit cres noio" where
  "nc_pubrec_at i code properties now = on_engine (pubrec_at i code properties now)"

definition nc_pubcomp_at ::
  "u16 \<Rightarrow> u8 \<Rightarrow> Property list \<Rightarrow> Timestamp \<Rightarrow> NoIoMqttClient \<Rightarrow> unit cres noio" where
  "nc_pubcomp_at i code properties now = on_engine (pubcomp_at i code properties now)"

definition nc_handle_connection_lost_at ::
  "Timestamp \<Rightarrow> NoIoMqttClient \<Rightarrow> unit cres noio" where
  "nc_handle_connection_lost_at now = on_engine (handle_connection_lost_at now)"

definition nc_handle_incoming ::
  "bytes \<Rightarrow> Timestamp \<Rightarrow> NoIoMqttClient \<Rightarrow> (MqttEvent list) noio" where
  "nc_handle_incoming data now = on_engine (host_handle_incoming data now)"

definition nc_take_outgoing ::
  "Timestamp \<Rightarrow> NoIoMqttClient \<Rightarrow> bytes noio" where
  "nc_take_outgoing now = on_engine (host_take_outgoing now)"

definition nc_handle_tick ::
  "Timestamp \<Rightarrow> NoIoMqttClient \<Rightarrow> (MqttEvent list) noio" where
  "nc_handle_tick now = on_engine (host_handle_tick now)"

definition nc_connect :: "Timestamp \<Rightarrow> NoIoMqttClient \<Rightarrow> unit cres noio" where
  "nc_connect now = on_engine (host_connect now)"

definition nc_publish ::
  "PublishCommand \<Rightarrow> Timestamp \<Rightarrow> NoIoMqttClient \<Rightarrow> (u16 option) cres noio" where
  "nc_publish command now = on_engine (host_publish command now)"

definition nc_subscribe ::
  "SubscribeCommand \<Rightarrow> Timestamp \<Rightarrow> NoIoMqttClient \<Rightarrow> u16 cres noio" where
  "nc_subscribe command now = on_engine (host_subscribe command now)"

definition nc_unsubscribe ::
  "UnsubscribeCommand \<Rightarrow> Timestamp \<Rightarrow> NoIoMqttClient \<Rightarrow> u16 cres noio" where
  "nc_unsubscribe command now = on_engine (host_unsubscribe command now)"

definition nc_ping :: "Timestamp \<Rightarrow> NoIoMqttClient \<Rightarrow> unit cres noio" where
  "nc_ping now = on_engine (host_send_ping now)"

definition nc_disconnect ::
  "Timestamp \<Rightarrow> NoIoMqttClient \<Rightarrow> unit cres noio" where
  "nc_disconnect now = on_engine (host_disconnect now)"

definition nc_auth ::
  "u8 \<Rightarrow> Property list \<Rightarrow> Timestamp \<Rightarrow> NoIoMqttClient \<Rightarrow> unit cres noio" where
  "nc_auth code properties now = on_engine (host_auth code properties now)"

definition nc_reset_for_new_transport ::
  "Timestamp \<Rightarrow> NoIoMqttClient \<Rightarrow> unit noio" where
  "nc_reset_for_new_transport now = on_engine (host_reset_for_new_transport now)"

definition nc_schedule_reconnect ::
  "Timestamp \<Rightarrow> NoIoMqttClient \<Rightarrow> unit noio" where
  "nc_schedule_reconnect now = on_engine (host_schedule_reconnect now)"

definition nc_disconnect_with ::
  "u8 \<Rightarrow> Property list \<Rightarrow> Timestamp \<Rightarrow> NoIoMqttClient \<Rightarrow> unit cres noio" where
  "nc_disconnect_with code properties now = on_engine (host_try_disconnect_with code properties now)"

definition nc_puback ::
  "u16 \<Rightarrow> u8 \<Rightarrow> Property list \<Rightarrow> Timestamp \<Rightarrow> NoIoMqttClient \<Rightarrow> unit cres noio" where
  "nc_puback i code properties now = on_engine (host_puback i code properties now)"

definition nc_pubrec ::
  "u16 \<Rightarrow> u8 \<Rightarrow> Property list \<Rightarrow> Timestamp \<Rightarrow> NoIoMqttClient \<Rightarrow> unit cres noio" where
  "nc_pubrec i code properties now = on_engine (host_pubrec i code properties now)"

definition nc_pubcomp ::
  "u16 \<Rightarrow> u8 \<Rightarrow> Property list \<Rightarrow> Timestamp \<Rightarrow> NoIoMqttClient \<Rightarrow> unit cres noio" where
  "nc_pubcomp i code properties now = on_engine (host_pubcomp i code properties now)"

definition nc_handle_connection_lost ::
  "Timestamp \<Rightarrow> NoIoMqttClient \<Rightarrow> unit noio" where
  "nc_handle_connection_lost now = on_engine (host_handle_connection_lost now)"

section \<open>The engine invariant under the system clock\<close>

text \<open>A host call is a call of the explicit-time interface, up to the report of a clock error.\<close>

lemma host_call_inv:
  assumes "r s = Inr (x, t)" and "eng_inv s"
    and "perform c now s = after (r s)"
  shows "eng_inv t"
  using assms eng_inv_perform [of c now s t] by (simp add: after_def)

lemma report_error_inv:
  assumes "report_error d r = Inr (x, t)" and "\<And>y u. r = Inr (y, u) \<Longrightarrow> eng_inv u"
  shows "eng_inv t"
  using assms by (auto simp: report_error_def split: sum.splits)

lemma error_value_inv:
  assumes "error_value f r = Inr (x, t)" and "\<And>y u. r = Inr (y, u) \<Longrightarrow> eng_inv u"
  shows "eng_inv t"
  using assms by (auto simp: error_value_def split: sum.splits)

lemma host_connect_inv: "host_connect n s = Inr (r, t) \<Longrightarrow> eng_inv s \<Longrightarrow> eng_inv t"
  by (rule host_call_inv [where r = "connect_at (host_now n s)" and c = "Call_connect" and now = "host_now n s"])
    (simp_all add: host_connect_def perform_def)

lemma host_publish_inv: "host_publish command n s = Inr (r, t) \<Longrightarrow> eng_inv s \<Longrightarrow> eng_inv t"
  by (rule host_call_inv [where r = "publish_at command (host_now n s)" and c = "Call_publish command" and now = "host_now n s"])
    (simp_all add: host_publish_def perform_def)

lemma host_publish_encoded_inv: "host_publish_encoded command stream n s = Inr (r, t) \<Longrightarrow> eng_inv s \<Longrightarrow> eng_inv t"
  by (rule host_call_inv [where r = "publish_encoded_at command stream (host_now n s)" and c = "Call_publish_encoded command stream" and now = "host_now n s"])
    (simp_all add: host_publish_encoded_def perform_def)

lemma host_subscribe_inv: "host_subscribe command n s = Inr (r, t) \<Longrightarrow> eng_inv s \<Longrightarrow> eng_inv t"
  by (rule host_call_inv [where r = "subscribe_at command (host_now n s)" and c = "Call_subscribe command" and now = "host_now n s"])
    (simp_all add: host_subscribe_def perform_def)

lemma host_unsubscribe_inv: "host_unsubscribe command n s = Inr (r, t) \<Longrightarrow> eng_inv s \<Longrightarrow> eng_inv t"
  by (rule host_call_inv [where r = "unsubscribe_at command (host_now n s)" and c = "Call_unsubscribe command" and now = "host_now n s"])
    (simp_all add: host_unsubscribe_def perform_def)

lemma host_subscribe_encoded_inv: "host_subscribe_encoded command stream n s = Inr (r, t) \<Longrightarrow> eng_inv s \<Longrightarrow> eng_inv t"
  by (rule host_call_inv [where r = "subscribe_encoded_at command stream (host_now n s)" and c = "Call_subscribe_encoded command stream" and now = "host_now n s"])
    (simp_all add: host_subscribe_encoded_def perform_def)

lemma host_unsubscribe_encoded_inv: "host_unsubscribe_encoded command stream n s = Inr (r, t) \<Longrightarrow> eng_inv s \<Longrightarrow> eng_inv t"
  by (rule host_call_inv [where r = "unsubscribe_encoded_at command stream (host_now n s)" and c = "Call_unsubscribe_encoded command stream" and now = "host_now n s"])
    (simp_all add: host_unsubscribe_encoded_def perform_def)

lemma host_disconnect_inv: "host_disconnect n s = Inr (r, t) \<Longrightarrow> eng_inv s \<Longrightarrow> eng_inv t"
  by (rule host_call_inv [where r = "disconnect_at (host_now n s)" and c = "Call_disconnect" and now = "host_now n s"])
    (simp_all add: host_disconnect_def perform_def disconnect_at_def try_disconnect_at_def)

lemma host_try_disconnect_inv: "host_try_disconnect n s = Inr (r, t) \<Longrightarrow> eng_inv s \<Longrightarrow> eng_inv t"
  by (rule host_call_inv [where r = "try_disconnect_at (host_now n s)" and c = "Call_disconnect" and now = "host_now n s"])
    (simp_all add: host_try_disconnect_def perform_def)

lemma host_try_disconnect_with_inv: "host_try_disconnect_with code properties n s = Inr (r, t) \<Longrightarrow> eng_inv s \<Longrightarrow> eng_inv t"
  by (rule host_call_inv [where r = "try_disconnect_with_at code properties (host_now n s)" and c = "Call_disconnect_with code properties" and now = "host_now n s"])
    (simp_all add: host_try_disconnect_with_def perform_def)

lemma host_auth_inv: "host_auth code properties n s = Inr (r, t) \<Longrightarrow> eng_inv s \<Longrightarrow> eng_inv t"
  by (rule host_call_inv [where r = "auth_at code properties (host_now n s)" and c = "Call_auth code properties" and now = "host_now n s"])
    (simp_all add: host_auth_def perform_def auth_at_def try_auth_at_def)

lemma host_try_auth_inv: "host_try_auth code properties n s = Inr (r, t) \<Longrightarrow> eng_inv s \<Longrightarrow> eng_inv t"
  by (rule host_call_inv [where r = "try_auth_at code properties (host_now n s)" and c = "Call_auth code properties" and now = "host_now n s"])
    (simp_all add: host_try_auth_def perform_def)

lemma host_send_ping_inv: "host_send_ping n s = Inr (r, t) \<Longrightarrow> eng_inv s \<Longrightarrow> eng_inv t"
  by (rule host_call_inv [where r = "send_ping_at (host_now n s)" and c = "Call_send_ping" and now = "host_now n s"])
    (simp_all add: host_send_ping_def perform_def)

lemma host_try_send_ping_inv: "host_try_send_ping n s = Inr (r, t) \<Longrightarrow> eng_inv s \<Longrightarrow> eng_inv t"
  by (rule host_call_inv [where r = "try_send_ping_at (host_now n s)" and c = "Call_send_ping" and now = "host_now n s"])
    (simp_all add: host_try_send_ping_def perform_def try_send_ping_at_def send_ping_at_def)

lemma host_enqueue_packet_inv: "host_enqueue_packet packet n s = Inr (r, t) \<Longrightarrow> eng_inv s \<Longrightarrow> eng_inv t"
  by (rule host_call_inv [where r = "enqueue_packet_at packet (host_now n s)" and c = "Call_enqueue_packet packet" and now = "host_now n s"])
    (simp_all add: host_enqueue_packet_def perform_def)

lemma host_puback_inv: "host_puback i code properties n s = Inr (r, t) \<Longrightarrow> eng_inv s \<Longrightarrow> eng_inv t"
  by (rule host_call_inv [where r = "puback_at i code properties (host_now n s)" and c = "Call_puback i code properties" and now = "host_now n s"])
    (simp_all add: host_puback_def perform_def)

lemma host_pubrec_inv: "host_pubrec i code properties n s = Inr (r, t) \<Longrightarrow> eng_inv s \<Longrightarrow> eng_inv t"
  by (rule host_call_inv [where r = "pubrec_at i code properties (host_now n s)" and c = "Call_pubrec i code properties" and now = "host_now n s"])
    (simp_all add: host_pubrec_def perform_def)

lemma host_pubcomp_inv: "host_pubcomp i code properties n s = Inr (r, t) \<Longrightarrow> eng_inv s \<Longrightarrow> eng_inv t"
  by (rule host_call_inv [where r = "pubcomp_at i code properties (host_now n s)" and c = "Call_pubcomp i code properties" and now = "host_now n s"])
    (simp_all add: host_pubcomp_def perform_def)

lemma host_handle_connection_lost_inv: "host_handle_connection_lost n s = Inr (r, t) \<Longrightarrow> eng_inv s \<Longrightarrow> eng_inv t"
  unfolding host_handle_connection_lost_def
  by (erule report_error_inv, rule host_call_inv [where r = "handle_connection_lost_at (host_now n s)" and c = "Call_connection_lost" and now = "host_now n s"])
    (simp_all add: perform_def)

lemma host_reset_for_new_transport_inv: "host_reset_for_new_transport n s = Inr (r, t) \<Longrightarrow> eng_inv s \<Longrightarrow> eng_inv t"
  unfolding host_reset_for_new_transport_def
  by (erule report_error_inv, rule host_call_inv [where r = "reset_for_new_transport_at (host_now n s)" and c = "Call_reset_for_new_transport" and now = "host_now n s"])
    (simp_all add: perform_def)

lemma host_schedule_reconnect_inv: "host_schedule_reconnect n s = Inr (r, t) \<Longrightarrow> eng_inv s \<Longrightarrow> eng_inv t"
  unfolding host_schedule_reconnect_def
  by (erule report_error_inv, rule host_call_inv [where r = "schedule_reconnect_at (max n (me_now s))" and c = "Call_schedule_reconnect" and now = "max n (me_now s)"])
    (simp_all add: perform_def)

lemma host_handle_incoming_inv: "host_handle_incoming data n s = Inr (r, t) \<Longrightarrow> eng_inv s \<Longrightarrow> eng_inv t"
  unfolding host_handle_incoming_def
  by (erule error_value_inv, rule host_call_inv [where r = "handle_incoming_at data (host_now n s)" and c = "Call_incoming data" and now = "host_now n s"])
    (simp_all add: perform_def)

lemma host_handle_tick_inv: "host_handle_tick n s = Inr (r, t) \<Longrightarrow> eng_inv s \<Longrightarrow> eng_inv t"
  unfolding host_handle_tick_def
  by (erule error_value_inv, rule host_call_inv [where r = "handle_tick_at (max n (me_now s))" and c = "Call_tick" and now = "max n (me_now s)"])
    (simp_all add: perform_def)

lemma host_take_outgoing_inv: "host_take_outgoing n s = Inr (r, t) \<Longrightarrow> eng_inv s \<Longrightarrow> eng_inv t"
  unfolding host_take_outgoing_def
  by (erule report_error_inv, rule host_call_inv [where r = "take_outgoing_at (host_now n s)" and c = "Call_take_outgoing" and now = "host_now n s"])
    (simp_all add: perform_def)

lemma host_ingest_stream_packet_inv: "host_ingest_stream_packet packet stream n s = Inr (r, t) \<Longrightarrow> eng_inv s \<Longrightarrow> eng_inv t"
  unfolding host_ingest_stream_packet_def
  by (erule error_value_inv, rule host_call_inv [where r = "ingest_stream_packet_at packet stream (host_now n s)" and c = "Call_ingest_stream_packet packet stream" and now = "host_now n s"])
    (simp_all add: perform_def)

lemmas host_inv = host_handle_connection_lost_inv host_reset_for_new_transport_inv
  host_schedule_reconnect_inv host_handle_incoming_inv host_handle_tick_inv host_take_outgoing_inv
  host_ingest_stream_packet_inv host_connect_inv host_publish_inv host_publish_encoded_inv
  host_subscribe_inv host_unsubscribe_inv host_subscribe_encoded_inv host_unsubscribe_encoded_inv
  host_disconnect_inv host_try_disconnect_inv host_try_disconnect_with_inv host_auth_inv
  host_try_auth_inv host_send_ping_inv host_try_send_ping_inv host_enqueue_packet_inv
  host_puback_inv host_pubrec_inv host_pubcomp_inv

end
