(* ===== verification/Client_Builders.thy ===== *)
theory Client_Builders
  imports Client_Options
begin

text \<open>
  The setters of the client options (\<open>src/src/mqtt_client/opts.rs\<close>), of the command builders
  (\<open>commands.rs\<close>) and the queries of the results (\<open>types.rs\<close>).  A setter takes the builder by
  value and returns it changed; one that panics returns \<open>Inl\<close> of its message.
\<close>

section \<open>Options\<close>

definition opts_operation_timeouts :: "OperationTimeouts \<Rightarrow> MqttClientOptions \<Rightarrow> MqttClientOptions" where
  "opts_operation_timeouts v opts = opts\<lparr>o_operation_timeouts := v\<rparr>"

definition opts_incoming_receive_maximum :: "u16 \<Rightarrow> MqttClientOptions \<Rightarrow> MqttClientOptions" where
  "opts_incoming_receive_maximum v opts = opts\<lparr>o_incoming_receive_maximum := Some v\<rparr>"

definition opts_max_incoming_packet_size :: "nat \<Rightarrow> MqttClientOptions \<Rightarrow> MqttClientOptions" where
  "opts_max_incoming_packet_size v opts = opts\<lparr>o_max_incoming_packet_size := Some v\<rparr>"

definition opts_max_incoming_buffer_bytes :: "nat \<Rightarrow> MqttClientOptions \<Rightarrow> MqttClientOptions" where
  "opts_max_incoming_buffer_bytes v opts = opts\<lparr>o_max_incoming_buffer_bytes := Some v\<rparr>"

definition opts_max_outgoing_buffer_bytes :: "nat \<Rightarrow> MqttClientOptions \<Rightarrow> MqttClientOptions" where
  "opts_max_outgoing_buffer_bytes v opts = opts\<lparr>o_max_outgoing_buffer_bytes := Some v\<rparr>"

definition opts_peer :: "str \<Rightarrow> MqttClientOptions \<Rightarrow> MqttClientOptions" where
  "opts_peer v opts = opts\<lparr>o_peer := v\<rparr>"

definition opts_client_id :: "str \<Rightarrow> MqttClientOptions \<Rightarrow> MqttClientOptions" where
  "opts_client_id v opts = opts\<lparr>o_client_id := v\<rparr>"

definition opts_clean_start :: "bool \<Rightarrow> MqttClientOptions \<Rightarrow> MqttClientOptions" where
  "opts_clean_start v opts = opts\<lparr>o_clean_start := v\<rparr>"

definition opts_keep_alive :: "u16 \<Rightarrow> MqttClientOptions \<Rightarrow> MqttClientOptions" where
  "opts_keep_alive v opts = opts\<lparr>o_keep_alive := v\<rparr>"

definition opts_auto_keepalive :: "bool \<Rightarrow> MqttClientOptions \<Rightarrow> MqttClientOptions" where
  "opts_auto_keepalive v opts = opts\<lparr>o_auto_keepalive := v\<rparr>"

definition opts_username :: "str \<Rightarrow> MqttClientOptions \<Rightarrow> MqttClientOptions" where
  "opts_username v opts = opts\<lparr>o_username := Some v\<rparr>"

definition opts_password :: "bytes \<Rightarrow> MqttClientOptions \<Rightarrow> MqttClientOptions" where
  "opts_password v opts = opts\<lparr>o_password := Some v\<rparr>"

definition opts_will :: "Will \<Rightarrow> MqttClientOptions \<Rightarrow> MqttClientOptions" where
  "opts_will v opts = opts\<lparr>o_will := Some v\<rparr>"

definition opts_reconnect :: "bool \<Rightarrow> MqttClientOptions \<Rightarrow> MqttClientOptions" where
  "opts_reconnect v opts = opts\<lparr>o_reconnect := v\<rparr>"

definition opts_sessionless :: "bool \<Rightarrow> MqttClientOptions \<Rightarrow> MqttClientOptions" where
  "opts_sessionless v opts = opts\<lparr>o_sessionless := v\<rparr>"

definition opts_subscription_topics :: "TopicSubscription list \<Rightarrow> MqttClientOptions \<Rightarrow> MqttClientOptions" where
  "opts_subscription_topics v opts = opts\<lparr>o_subscription_topics := v\<rparr>"

definition opts_add_subscription_topic :: "TopicSubscription \<Rightarrow> MqttClientOptions \<Rightarrow> MqttClientOptions" where
  "opts_add_subscription_topic topic opts = opts\<lparr>o_subscription_topics := o_subscription_topics opts @ [topic]\<rparr>"

definition opts_auto_ack :: "bool \<Rightarrow> MqttClientOptions \<Rightarrow> MqttClientOptions" where
  "opts_auto_ack v opts = opts\<lparr>o_auto_ack := v\<rparr>"

definition opts_session_expiry_interval :: "u32 \<Rightarrow> MqttClientOptions \<Rightarrow> MqttClientOptions" where
  "opts_session_expiry_interval v opts = opts\<lparr>o_session_expiry_interval := Some v\<rparr>"

definition opts_no_maximum_packet_size :: "MqttClientOptions \<Rightarrow> MqttClientOptions" where
  "opts_no_maximum_packet_size opts = opts\<lparr>o_maximum_packet_size := None\<rparr>"

definition opts_request_response_information :: "bool \<Rightarrow> MqttClientOptions \<Rightarrow> MqttClientOptions" where
  "opts_request_response_information v opts = opts\<lparr>o_request_response_information := Some v\<rparr>"

definition opts_request_problem_information :: "bool \<Rightarrow> MqttClientOptions \<Rightarrow> MqttClientOptions" where
  "opts_request_problem_information v opts = opts\<lparr>o_request_problem_information := Some v\<rparr>"

definition opts_connect_properties :: "Property list \<Rightarrow> MqttClientOptions \<Rightarrow> MqttClientOptions" where
  "opts_connect_properties v opts = opts\<lparr>o_connect_properties := v\<rparr>"

definition opts_reconnect_base_delay_ms :: "u64 \<Rightarrow> MqttClientOptions \<Rightarrow> MqttClientOptions" where
  "opts_reconnect_base_delay_ms v opts = opts\<lparr>o_reconnect_base_delay_ms := v\<rparr>"

definition opts_reconnect_max_delay_ms :: "u64 \<Rightarrow> MqttClientOptions \<Rightarrow> MqttClientOptions" where
  "opts_reconnect_max_delay_ms v opts = opts\<lparr>o_reconnect_max_delay_ms := v\<rparr>"

definition opts_max_reconnect_attempts :: "u32 \<Rightarrow> MqttClientOptions \<Rightarrow> MqttClientOptions" where
  "opts_max_reconnect_attempts v opts = opts\<lparr>o_max_reconnect_attempts := v\<rparr>"

definition opts_retransmission_timeout_ms :: "u64 \<Rightarrow> MqttClientOptions \<Rightarrow> MqttClientOptions" where
  "opts_retransmission_timeout_ms v opts = opts\<lparr>o_retransmission_timeout_ms := v\<rparr>"

definition opts_ping_timeout_multiplier :: "u32 \<Rightarrow> MqttClientOptions \<Rightarrow> MqttClientOptions" where
  "opts_ping_timeout_multiplier v opts = opts\<lparr>o_ping_timeout_multiplier := v\<rparr>"

definition opts_max_outgoing_packet_count :: "nat \<Rightarrow> MqttClientOptions \<Rightarrow> MqttClientOptions" where
  "opts_max_outgoing_packet_count v opts = opts\<lparr>o_max_outgoing_packet_count := v\<rparr>"

definition opts_max_event_count :: "nat \<Rightarrow> MqttClientOptions \<Rightarrow> MqttClientOptions" where
  "opts_max_event_count v opts = opts\<lparr>o_max_event_count := v\<rparr>"

definition opts_receive_maximum :: "u16 \<Rightarrow> MqttClientOptions \<Rightarrow> MqttClientOptions" where
  "opts_receive_maximum v opts = opts\<lparr>o_receive_maximum := v\<rparr>"

definition opts_parser_buffer_size :: "nat \<Rightarrow> MqttClientOptions \<Rightarrow> MqttClientOptions" where
  "opts_parser_buffer_size v opts = opts\<lparr>o_parser_buffer_size := v\<rparr>"

text \<open>
  The TLS part of the options, over the configurations of the two TLS packages.
\<close>

datatype TlsBackend = Backend_Native | Backend_Rustls

record ('n, 'r) TlsOptions =
  to_tls_config :: "'n option"
  to_rustls_tls_config :: "'r option"
  to_tls_backend :: "TlsBackend option"

definition opts_tls_config :: "'n \<Rightarrow> ('n, 'r) TlsOptions \<Rightarrow> ('n, 'r) TlsOptions" where
  "opts_tls_config config t = t\<lparr>to_tls_config := Some config, to_tls_backend := Some Backend_Native\<rparr>"

definition opts_enable_tls :: "'n \<Rightarrow> ('n, 'r) TlsOptions \<Rightarrow> ('n, 'r) TlsOptions" where
  "opts_enable_tls default_config t =
     t\<lparr>to_tls_config := Some default_config, to_tls_backend := Some Backend_Native\<rparr>"

definition opts_disable_tls :: "('n, 'r) TlsOptions \<Rightarrow> ('n, 'r) TlsOptions" where
  "opts_disable_tls t =
     (let t = t\<lparr>to_tls_config := None\<rparr>
      in if to_tls_backend t = Some Backend_Native then t\<lparr>to_tls_backend := None\<rparr> else t)"

definition opts_enable_rustls_tls :: "'r \<Rightarrow> ('n, 'r) TlsOptions \<Rightarrow> ('n, 'r) TlsOptions" where
  "opts_enable_rustls_tls default_config t =
     t\<lparr>to_rustls_tls_config := Some default_config, to_tls_backend := Some Backend_Rustls\<rparr>"

definition opts_rustls_tls_config :: "'r \<Rightarrow> ('n, 'r) TlsOptions \<Rightarrow> ('n, 'r) TlsOptions" where
  "opts_rustls_tls_config config t =
     t\<lparr>to_rustls_tls_config := Some config, to_tls_backend := Some Backend_Rustls\<rparr>"

definition opts_tls_backend :: "TlsBackend \<Rightarrow> ('n, 'r) TlsOptions \<Rightarrow> ('n, 'r) TlsOptions" where
  "opts_tls_backend backend t = t\<lparr>to_tls_backend := Some backend\<rparr>"

section \<open>Commands\<close>

definition PublishCommand_new ::
  "str \<Rightarrow> bytes \<Rightarrow> u8 \<Rightarrow> bool \<Rightarrow> bool \<Rightarrow> u16 option \<Rightarrow> Property list \<Rightarrow> u8 \<Rightarrow> PublishCommand" where
  "PublishCommand_new topic payload qos retain dup i properties priority =
     \<lparr>pc_topic_name = topic, pc_payload = payload, pc_qos = qos, pc_retain = retain, pc_dup = dup,
      pc_packet_id = i, pc_properties = properties, pc_priority = priority\<rparr>"

definition SubscribeCommand_new ::
  "u16 option \<Rightarrow> TopicSubscription list \<Rightarrow> Property list \<Rightarrow> SubscribeCommand" where
  "SubscribeCommand_new i subscriptions properties =
     \<lparr>sc_packet_id = i, sc_subscriptions = subscriptions, sc_properties = properties\<rparr>"

definition UnsubscribeCommand_new :: "u16 option \<Rightarrow> str list \<Rightarrow> Property list \<Rightarrow> UnsubscribeCommand" where
  "UnsubscribeCommand_new i topics properties =
     \<lparr>uc_packet_id = i, uc_topics = topics, uc_properties = properties\<rparr>"

definition UnsubscribeCommand_from_topics :: "str list \<Rightarrow> UnsubscribeCommand" where
  "UnsubscribeCommand_from_topics topics = UnsubscribeCommand_new None topics []"

definition publish_topic :: "str \<Rightarrow> PublishCommandBuilder \<Rightarrow> PublishCommandBuilder" where
  "publish_topic v b = b\<lparr>pb_topic_name := Some v\<rparr>"

definition publish_payload :: "bytes \<Rightarrow> PublishCommandBuilder \<Rightarrow> PublishCommandBuilder" where
  "publish_payload v b = b\<lparr>pb_payload := v\<rparr>"

definition publish_qos :: "u8 \<Rightarrow> PublishCommandBuilder \<Rightarrow> PublishCommandBuilder" where
  "publish_qos v b = b\<lparr>pb_qos := v\<rparr>"

definition publish_retain :: "bool \<Rightarrow> PublishCommandBuilder \<Rightarrow> PublishCommandBuilder" where
  "publish_retain v b = b\<lparr>pb_retain := v\<rparr>"

definition publish_dup :: "bool \<Rightarrow> PublishCommandBuilder \<Rightarrow> PublishCommandBuilder" where
  "publish_dup v b = b\<lparr>pb_dup := v\<rparr>"

definition publish_with_packet_id :: "u16 \<Rightarrow> PublishCommandBuilder \<Rightarrow> PublishCommandBuilder" where
  "publish_with_packet_id v b = b\<lparr>pb_packet_id := Some v\<rparr>"

definition publish_add_property :: "Property \<Rightarrow> PublishCommandBuilder \<Rightarrow> PublishCommandBuilder" where
  "publish_add_property v b = b\<lparr>pb_properties := pb_properties b @ [v]\<rparr>"

definition publish_with_message_expiry_interval :: "u32 \<Rightarrow> PublishCommandBuilder \<Rightarrow> PublishCommandBuilder" where
  "publish_with_message_expiry_interval v b = b\<lparr>pb_properties := pb_properties b @ [MessageExpiryInterval v]\<rparr>"

definition publish_with_content_type :: "str \<Rightarrow> PublishCommandBuilder \<Rightarrow> PublishCommandBuilder" where
  "publish_with_content_type v b = b\<lparr>pb_properties := pb_properties b @ [ContentType v]\<rparr>"

definition publish_with_response_topic :: "str \<Rightarrow> PublishCommandBuilder \<Rightarrow> PublishCommandBuilder" where
  "publish_with_response_topic v b = b\<lparr>pb_properties := pb_properties b @ [ResponseTopic v]\<rparr>"

definition publish_with_correlation_data :: "bytes \<Rightarrow> PublishCommandBuilder \<Rightarrow> PublishCommandBuilder" where
  "publish_with_correlation_data v b = b\<lparr>pb_properties := pb_properties b @ [CorrelationData v]\<rparr>"

definition publish_with_topic_alias :: "u16 \<Rightarrow> PublishCommandBuilder \<Rightarrow> PublishCommandBuilder" where
  "publish_with_topic_alias v b = b\<lparr>pb_properties := pb_properties b @ [TopicAlias v]\<rparr>"

definition publish_with_user_property :: "str \<Rightarrow> str \<Rightarrow> PublishCommandBuilder \<Rightarrow> PublishCommandBuilder" where
  "publish_with_user_property k v b = b\<lparr>pb_properties := pb_properties b @ [UserProperty k v]\<rparr>"

definition publish_priority :: "u8 \<Rightarrow> PublishCommandBuilder \<Rightarrow> PublishCommandBuilder" where
  "publish_priority v b = b\<lparr>pb_priority := v\<rparr>"

definition add_topic_with_options ::
  "str \<Rightarrow> u8 \<Rightarrow> bool \<Rightarrow> bool \<Rightarrow> u8 \<Rightarrow> SubscribeCommandBuilder \<Rightarrow> SubscribeCommandBuilder" where
  "add_topic_with_options topic qos no_local rap rh b = b\<lparr>sb_topics := sb_topics b @
     [\<lparr>ts_topic_filter = topic, ts_qos = qos, ts_no_local = no_local, ts_retain_as_published = rap,
       ts_retain_handling = rh\<rparr>]\<rparr>"

definition subscribe_with_subscription_id :: "u32 \<Rightarrow> SubscribeCommandBuilder \<Rightarrow> SubscribeCommandBuilder" where
  "subscribe_with_subscription_id v b = b\<lparr>sb_properties := sb_properties b @ [SubscriptionIdentifier v]\<rparr>"

definition subscribe_add_property :: "Property \<Rightarrow> SubscribeCommandBuilder \<Rightarrow> SubscribeCommandBuilder" where
  "subscribe_add_property v b = b\<lparr>sb_properties := sb_properties b @ [v]\<rparr>"

definition subscribe_with_packet_id :: "u16 \<Rightarrow> SubscribeCommandBuilder \<Rightarrow> SubscribeCommandBuilder" where
  "subscribe_with_packet_id v b = b\<lparr>sb_packet_id := Some v\<rparr>"

section \<open>Results\<close>

definition reason_code_table :: "(u8 \<times> string) list" where
  "reason_code_table =
     [(0x00, ''Success''),
      (0x01, ''Granted QoS 1''),
      (0x02, ''Granted QoS 2''),
      (0x04, ''Disconnect with Will Message''),
      (0x10, ''No matching subscribers''),
      (0x11, ''No subscription existed''),
      (0x18, ''Continue authentication''),
      (0x19, ''Re-authenticate''),
      (0x80, ''Unspecified error''),
      (0x81, ''Malformed Packet''),
      (0x82, ''Protocol Error''),
      (0x83, ''Implementation specific error''),
      (0x84, ''Unsupported Protocol Version''),
      (0x85, ''Client Identifier not valid''),
      (0x86, ''Bad User Name or Password''),
      (0x87, ''Not authorized''),
      (0x88, ''Server unavailable''),
      (0x89, ''Server busy''),
      (0x8A, ''Banned''),
      (0x8B, ''Server shutting down''),
      (0x8C, ''Bad authentication method''),
      (0x8D, ''Keep Alive timeout''),
      (0x8E, ''Session taken over''),
      (0x8F, ''Topic Filter invalid''),
      (0x90, ''Topic Name invalid''),
      (0x91, ''Packet Identifier in use''),
      (0x92, ''Packet Identifier not found''),
      (0x93, ''Receive Maximum exceeded''),
      (0x94, ''Topic Alias invalid''),
      (0x95, ''Packet too large''),
      (0x96, ''Message rate too high''),
      (0x97, ''Quota exceeded''),
      (0x98, ''Administrative action''),
      (0x99, ''Payload format invalid''),
      (0x9A, ''Retain not supported''),
      (0x9B, ''QoS not supported''),
      (0x9C, ''Use another server''),
      (0x9D, ''Server moved''),
      (0x9E, ''Shared Subscriptions not supported''),
      (0x9F, ''Connection rate exceeded''),
      (0xA0, ''Maximum connect time''),
      (0xA1, ''Subscription Identifiers not supported''),
      (0xA2, ''Wildcard Subscriptions not supported'')]"

definition reason_code_to_string :: "u8 \<Rightarrow> string" where
  "reason_code_to_string code =
     (case map_of reason_code_table code of Some s \<Rightarrow> s | None \<Rightarrow> ''Unknown reason code'')"

definition connection_is_success :: "ConnectionResult \<Rightarrow> bool" where
  "connection_is_success r \<longleftrightarrow> cr_reason_code r = 0"

definition connection_is_failure :: "ConnectionResult \<Rightarrow> bool" where
  "connection_is_failure r \<longleftrightarrow> cr_reason_code r \<noteq> 0"

definition connection_reason_description :: "ConnectionResult \<Rightarrow> string" where
  "connection_reason_description r = reason_code_to_string (cr_reason_code r)"

definition auth_is_success :: "AuthResult \<Rightarrow> bool" where
  "auth_is_success r \<longleftrightarrow> ar_reason_code r = 0"

definition auth_is_continue :: "AuthResult \<Rightarrow> bool" where
  "auth_is_continue r \<longleftrightarrow> ar_reason_code r = 0x18"

definition auth_is_re_authenticate :: "AuthResult \<Rightarrow> bool" where
  "auth_is_re_authenticate r \<longleftrightarrow> ar_reason_code r = 0x19"

definition auth_reason_description :: "AuthResult \<Rightarrow> string" where
  "auth_reason_description r =
     (if ar_reason_code r = 0 then ''Success'' else if ar_reason_code r = 0x18 then ''Continue authentication''
      else if ar_reason_code r = 0x19 then ''Re-authenticate'' else ''Unknown authentication reason code'')"

definition subscribe_is_success :: "AckResult \<Rightarrow> bool" where
  "subscribe_is_success r \<longleftrightarrow> list_all (\<lambda>code. code \<le> 2) (kr_reason_codes r)"

definition successful_subscriptions :: "AckResult \<Rightarrow> nat" where
  "successful_subscriptions r = length (filter (\<lambda>code. code \<le> 2) (kr_reason_codes r))"

definition unsubscribe_is_success :: "AckResult \<Rightarrow> bool" where
  "unsubscribe_is_success r \<longleftrightarrow> list_all (\<lambda>code. code = 0 \<or> code = 17) (kr_reason_codes r)"

definition publish_is_success :: "PublishResult \<Rightarrow> bool" where
  "publish_is_success r \<longleftrightarrow> (case pr_reason_code r of None \<Rightarrow> True | Some code \<Rightarrow> code < 0x80)"

definition publish_reason_description :: "PublishResult \<Rightarrow> string" where
  "publish_reason_description r = (case pr_reason_code r of
     None \<Rightarrow> ''Success (QoS 0)'' | Some code \<Rightarrow> reason_code_to_string code)"

text \<open>A subscription succeeds exactly when all its filters do.\<close>

lemma subscribe_success_count:
  "subscribe_is_success r \<longleftrightarrow> successful_subscriptions r = length (kr_reason_codes r)"
  unfolding subscribe_is_success_def successful_subscriptions_def list_all_iff
  by (metis filter_id_conv length_filter_less less_irrefl_nat)

end
