(* ===== verification/Async_Config.thy ===== *)
theory Async_Config
  imports Engine_Host Client_Builders
begin

text \<open>
  Configuration of the asynchronous client, \<open>src/src/mqtt_client/tokio_async_client.rs\<close>, its
  merge into the options of the engine and the choice of the transport,
  \<open>tokio_async_client/worker.rs\<close>.

  The transports themselves (TCP, TLS, QUIC) are code of the operating system and of other
  packages: the model says which one the worker opens, with which settings, and what it makes of
  the outcome.  The features the crate is compiled with are a parameter.
\<close>

declare map_of_eq_Some_iff [simp del] Some_eq_map_of_iff [simp del]

section \<open>Configuration and its builder\<close>

datatype SocketAddr = SocketAddr bytes u16

record TokioAsyncClientConfig =
  tc_auto_reconnect :: bool
  tc_max_reconnect_delay_ms :: u64
  tc_max_reconnect_attempts :: u32
  tc_command_queue_size :: nat
  tc_buffer_messages :: bool
  tc_max_buffer_size :: nat
  tc_tcp_nodelay :: bool
  tc_connect_timeout_ms :: "u64 option"
  tc_subscribe_timeout_ms :: "u64 option"
  tc_publish_ack_timeout_ms :: "u64 option"
  tc_unsubscribe_timeout_ms :: "u64 option"
  tc_ping_timeout_ms :: "u64 option"
  tc_default_operation_timeout_ms :: u64
  tc_receive_maximum :: "u16 option"
  tc_topic_alias_maximum :: "u16 option"
  tc_quic_enable_0rtt :: bool
  tc_quic_insecure_skip_verify :: bool
  tc_quic_custom_root_ca_pem :: "str option"
  tc_quic_client_cert_pem :: "str option"
  tc_quic_client_key_pem :: "str option"
  tc_quic_datagram_receive_buffer_size :: nat
  tc_quic_local_bind_addr :: "SocketAddr option"
  tc_quic_enable_key_log :: bool
  tc_tls_enable_key_log :: bool
  tc_priority_queue_enabled :: bool
  tc_priority_queue_limit :: nat

definition TokioAsyncClientConfig_default :: TokioAsyncClientConfig where
  "TokioAsyncClientConfig_default =
     \<lparr>tc_auto_reconnect = True, tc_max_reconnect_delay_ms = 30000,
      tc_max_reconnect_attempts = 0, tc_command_queue_size = 1000, tc_buffer_messages = True,
      tc_max_buffer_size = 1000, tc_tcp_nodelay = True, tc_connect_timeout_ms = Some 30000,
      tc_subscribe_timeout_ms = Some 10000, tc_publish_ack_timeout_ms = Some 10000,
      tc_unsubscribe_timeout_ms = Some 10000, tc_ping_timeout_ms = Some 5000,
      tc_default_operation_timeout_ms = 30000, tc_receive_maximum = None,
      tc_topic_alias_maximum = None, tc_quic_enable_0rtt = False,
      tc_quic_insecure_skip_verify = False, tc_quic_custom_root_ca_pem = None,
      tc_quic_client_cert_pem = None, tc_quic_client_key_pem = None,
      tc_quic_datagram_receive_buffer_size = 0, tc_quic_local_bind_addr = None,
      tc_quic_enable_key_log = False, tc_tls_enable_key_log = False,
      tc_priority_queue_enabled = True, tc_priority_queue_limit = 1000\<rparr>"

record ConfigBuilder =
  cb_config :: TokioAsyncClientConfig

definition ConfigBuilder_new :: ConfigBuilder where
  "ConfigBuilder_new = \<lparr>cb_config = TokioAsyncClientConfig_default\<rparr>"

definition ConfigBuilder_build :: "ConfigBuilder \<Rightarrow> TokioAsyncClientConfig" where
  "ConfigBuilder_build b = cb_config b"

abbreviation configure ::
  "(TokioAsyncClientConfig \<Rightarrow> TokioAsyncClientConfig) \<Rightarrow> ConfigBuilder \<Rightarrow> ConfigBuilder" where
  "configure f b \<equiv> b\<lparr>cb_config := f (cb_config b)\<rparr>"

definition cb_auto_reconnect :: "bool \<Rightarrow> ConfigBuilder \<Rightarrow> ConfigBuilder" where
  "cb_auto_reconnect v = configure (\<lambda>c. c\<lparr>tc_auto_reconnect := v\<rparr>)"

definition cb_max_reconnect_delay_ms :: "u64 \<Rightarrow> ConfigBuilder \<Rightarrow> ConfigBuilder" where
  "cb_max_reconnect_delay_ms v = configure (\<lambda>c. c\<lparr>tc_max_reconnect_delay_ms := v\<rparr>)"

definition cb_max_reconnect_attempts :: "u32 \<Rightarrow> ConfigBuilder \<Rightarrow> ConfigBuilder" where
  "cb_max_reconnect_attempts v = configure (\<lambda>c. c\<lparr>tc_max_reconnect_attempts := v\<rparr>)"

definition cb_priority_queue_enabled :: "bool \<Rightarrow> ConfigBuilder \<Rightarrow> ConfigBuilder" where
  "cb_priority_queue_enabled v = configure (\<lambda>c. c\<lparr>tc_priority_queue_enabled := v\<rparr>)"

definition cb_priority_queue_limit :: "nat \<Rightarrow> ConfigBuilder \<Rightarrow> ConfigBuilder" where
  "cb_priority_queue_limit v = configure (\<lambda>c. c\<lparr>tc_priority_queue_limit := v\<rparr>)"

definition cb_connect_timeout_ms :: "u64 \<Rightarrow> ConfigBuilder \<Rightarrow> ConfigBuilder" where
  "cb_connect_timeout_ms v = configure (\<lambda>c. c\<lparr>tc_connect_timeout_ms := Some v\<rparr>)"

definition cb_no_connect_timeout :: "ConfigBuilder \<Rightarrow> ConfigBuilder" where
  "cb_no_connect_timeout = configure (\<lambda>c. c\<lparr>tc_connect_timeout_ms := None\<rparr>)"

definition cb_subscribe_timeout_ms :: "u64 \<Rightarrow> ConfigBuilder \<Rightarrow> ConfigBuilder" where
  "cb_subscribe_timeout_ms v = configure (\<lambda>c. c\<lparr>tc_subscribe_timeout_ms := Some v\<rparr>)"

definition cb_no_subscribe_timeout :: "ConfigBuilder \<Rightarrow> ConfigBuilder" where
  "cb_no_subscribe_timeout = configure (\<lambda>c. c\<lparr>tc_subscribe_timeout_ms := None\<rparr>)"

definition cb_publish_ack_timeout_ms :: "u64 \<Rightarrow> ConfigBuilder \<Rightarrow> ConfigBuilder" where
  "cb_publish_ack_timeout_ms v = configure (\<lambda>c. c\<lparr>tc_publish_ack_timeout_ms := Some v\<rparr>)"

definition cb_no_publish_ack_timeout :: "ConfigBuilder \<Rightarrow> ConfigBuilder" where
  "cb_no_publish_ack_timeout = configure (\<lambda>c. c\<lparr>tc_publish_ack_timeout_ms := None\<rparr>)"

definition cb_unsubscribe_timeout_ms :: "u64 \<Rightarrow> ConfigBuilder \<Rightarrow> ConfigBuilder" where
  "cb_unsubscribe_timeout_ms v = configure (\<lambda>c. c\<lparr>tc_unsubscribe_timeout_ms := Some v\<rparr>)"

definition cb_no_unsubscribe_timeout :: "ConfigBuilder \<Rightarrow> ConfigBuilder" where
  "cb_no_unsubscribe_timeout = configure (\<lambda>c. c\<lparr>tc_unsubscribe_timeout_ms := None\<rparr>)"

definition cb_ping_timeout_ms :: "u64 \<Rightarrow> ConfigBuilder \<Rightarrow> ConfigBuilder" where
  "cb_ping_timeout_ms v = configure (\<lambda>c. c\<lparr>tc_ping_timeout_ms := Some v\<rparr>)"

definition cb_no_ping_timeout :: "ConfigBuilder \<Rightarrow> ConfigBuilder" where
  "cb_no_ping_timeout = configure (\<lambda>c. c\<lparr>tc_ping_timeout_ms := None\<rparr>)"

definition cb_default_operation_timeout_ms :: "u64 \<Rightarrow> ConfigBuilder \<Rightarrow> ConfigBuilder" where
  "cb_default_operation_timeout_ms v = configure (\<lambda>c. c\<lparr>tc_default_operation_timeout_ms := v\<rparr>)"

definition cb_command_queue_size :: "nat \<Rightarrow> ConfigBuilder \<Rightarrow> ConfigBuilder" where
  "cb_command_queue_size v = configure (\<lambda>c. c\<lparr>tc_command_queue_size := v\<rparr>)"

definition cb_buffer_messages :: "bool \<Rightarrow> ConfigBuilder \<Rightarrow> ConfigBuilder" where
  "cb_buffer_messages v = configure (\<lambda>c. c\<lparr>tc_buffer_messages := v\<rparr>)"

definition cb_max_buffer_size :: "nat \<Rightarrow> ConfigBuilder \<Rightarrow> ConfigBuilder" where
  "cb_max_buffer_size v = configure (\<lambda>c. c\<lparr>tc_max_buffer_size := v\<rparr>)"

definition cb_tcp_nodelay :: "bool \<Rightarrow> ConfigBuilder \<Rightarrow> ConfigBuilder" where
  "cb_tcp_nodelay v = configure (\<lambda>c. c\<lparr>tc_tcp_nodelay := v\<rparr>)"

definition cb_no_timeouts :: "ConfigBuilder \<Rightarrow> ConfigBuilder" where
  "cb_no_timeouts = configure (\<lambda>c. c\<lparr>tc_connect_timeout_ms := None, tc_subscribe_timeout_ms := None, tc_publish_ack_timeout_ms := None, tc_unsubscribe_timeout_ms := None, tc_ping_timeout_ms := None\<rparr>)"

definition cb_default_timeouts :: "ConfigBuilder \<Rightarrow> ConfigBuilder" where
  "cb_default_timeouts = configure (\<lambda>c. c\<lparr>tc_connect_timeout_ms := Some 30000, tc_subscribe_timeout_ms := Some 10000, tc_publish_ack_timeout_ms := Some 10000,
     tc_unsubscribe_timeout_ms := Some 10000, tc_ping_timeout_ms := Some 5000, tc_default_operation_timeout_ms := 30000\<rparr>)"

definition cb_local_network_timeouts :: "ConfigBuilder \<Rightarrow> ConfigBuilder" where
  "cb_local_network_timeouts = configure (\<lambda>c. c\<lparr>tc_connect_timeout_ms := Some 5000, tc_subscribe_timeout_ms := Some 3000, tc_publish_ack_timeout_ms := Some 3000,
     tc_unsubscribe_timeout_ms := Some 3000, tc_ping_timeout_ms := Some 2000, tc_default_operation_timeout_ms := 5000\<rparr>)"

definition cb_internet_timeouts :: "ConfigBuilder \<Rightarrow> ConfigBuilder" where
  "cb_internet_timeouts = configure (\<lambda>c. c\<lparr>tc_connect_timeout_ms := Some 30000, tc_subscribe_timeout_ms := Some 10000, tc_publish_ack_timeout_ms := Some 10000,
     tc_unsubscribe_timeout_ms := Some 10000, tc_ping_timeout_ms := Some 5000, tc_default_operation_timeout_ms := 30000\<rparr>)"

definition cb_satellite_timeouts :: "ConfigBuilder \<Rightarrow> ConfigBuilder" where
  "cb_satellite_timeouts = configure (\<lambda>c. c\<lparr>tc_connect_timeout_ms := Some 120000, tc_subscribe_timeout_ms := Some 60000, tc_publish_ack_timeout_ms := Some 60000,
     tc_unsubscribe_timeout_ms := Some 60000, tc_ping_timeout_ms := Some 30000, tc_default_operation_timeout_ms := 120000\<rparr>)"

definition cb_receive_maximum :: "u16 \<Rightarrow> ConfigBuilder \<Rightarrow> string + ConfigBuilder" where
  "cb_receive_maximum v b =
     (if v = 0 then Inl ''receive_maximum must be greater than 0 (MQTT v5 protocol violation)''
      else Inr (configure (\<lambda>c. c\<lparr>tc_receive_maximum := Some v\<rparr>) b))"

definition cb_no_receive_maximum :: "ConfigBuilder \<Rightarrow> ConfigBuilder" where
  "cb_no_receive_maximum = configure (\<lambda>c. c\<lparr>tc_receive_maximum := None\<rparr>)"

definition cb_topic_alias_maximum :: "u16 \<Rightarrow> ConfigBuilder \<Rightarrow> ConfigBuilder" where
  "cb_topic_alias_maximum v = configure (\<lambda>c. c\<lparr>tc_topic_alias_maximum := Some v\<rparr>)"

definition cb_no_topic_alias :: "ConfigBuilder \<Rightarrow> ConfigBuilder" where
  "cb_no_topic_alias = configure (\<lambda>c. c\<lparr>tc_topic_alias_maximum := None\<rparr>)"

definition cb_quic_enable_0rtt :: "bool \<Rightarrow> ConfigBuilder \<Rightarrow> ConfigBuilder" where
  "cb_quic_enable_0rtt v = configure (\<lambda>c. c\<lparr>tc_quic_enable_0rtt := v\<rparr>)"

definition cb_quic_insecure_skip_verify :: "bool \<Rightarrow> ConfigBuilder \<Rightarrow> ConfigBuilder" where
  "cb_quic_insecure_skip_verify v = configure (\<lambda>c. c\<lparr>tc_quic_insecure_skip_verify := v\<rparr>)"

definition cb_quic_custom_root_ca_pem :: "str \<Rightarrow> ConfigBuilder \<Rightarrow> ConfigBuilder" where
  "cb_quic_custom_root_ca_pem v = configure (\<lambda>c. c\<lparr>tc_quic_custom_root_ca_pem := Some v\<rparr>)"

definition cb_quic_client_cert_pem :: "str \<Rightarrow> ConfigBuilder \<Rightarrow> ConfigBuilder" where
  "cb_quic_client_cert_pem v = configure (\<lambda>c. c\<lparr>tc_quic_client_cert_pem := Some v\<rparr>)"

definition cb_quic_client_key_pem :: "str \<Rightarrow> ConfigBuilder \<Rightarrow> ConfigBuilder" where
  "cb_quic_client_key_pem v = configure (\<lambda>c. c\<lparr>tc_quic_client_key_pem := Some v\<rparr>)"

definition cb_quic_datagram_receive_buffer_size :: "nat \<Rightarrow> ConfigBuilder \<Rightarrow> ConfigBuilder" where
  "cb_quic_datagram_receive_buffer_size v = configure (\<lambda>c. c\<lparr>tc_quic_datagram_receive_buffer_size := v\<rparr>)"

definition cb_quic_local_bind_addr :: "SocketAddr \<Rightarrow> ConfigBuilder \<Rightarrow> ConfigBuilder" where
  "cb_quic_local_bind_addr v = configure (\<lambda>c. c\<lparr>tc_quic_local_bind_addr := Some v\<rparr>)"

definition cb_quic_enable_key_log :: "bool \<Rightarrow> ConfigBuilder \<Rightarrow> ConfigBuilder" where
  "cb_quic_enable_key_log v = configure (\<lambda>c. c\<lparr>tc_quic_enable_key_log := v\<rparr>)"

definition cb_tls_enable_key_log :: "bool \<Rightarrow> ConfigBuilder \<Rightarrow> ConfigBuilder" where
  "cb_tls_enable_key_log v = configure (\<lambda>c. c\<lparr>tc_tls_enable_key_log := v\<rparr>)"

section \<open>Options of the engine\<close>

fun merge_loop :: "Property \<Rightarrow> Property list \<Rightarrow> bool \<Rightarrow> bool cres" where
  "merge_loop value [] found = Inr found"
| "merge_loop value (property # rest) found =
     (if same_discriminant property value then
        if property \<noteq> value
        then Inl (invalid ''CONNECT properties''
                    ''Async configuration conflicts with core CONNECT properties'')
        else merge_loop value rest True
      else merge_loop value rest found)"

definition merge_property :: "Property \<Rightarrow> MqttClientOptions \<Rightarrow> MqttClientOptions cres" where
  "merge_property value opts =
     tryE (merge_loop value (o_connect_properties opts) False) (\<lambda>found.
     Inr (if found then opts
          else opts\<lparr>o_connect_properties := o_connect_properties opts @ [value]\<rparr>))"

definition merge_receive_maximum :: "u16 option \<Rightarrow> MqttClientOptions \<Rightarrow> MqttClientOptions cres" where
  "merge_receive_maximum v opts = (case v of
     None \<Rightarrow> Inr opts
   | Some maximum \<Rightarrow>
       if maximum = 0 \<or> (case o_incoming_receive_maximum opts of None \<Rightarrow> False | Some x \<Rightarrow> x \<noteq> maximum)
       then Inl (invalid ''receive_maximum'' ''Receive Maximum is zero or conflicts with core options'')
       else tryE (merge_property (ReceiveMaximum maximum) opts) (\<lambda>opts.
            Inr (opts\<lparr>o_incoming_receive_maximum := Some maximum\<rparr>)))"

definition merge_topic_alias :: "u16 option \<Rightarrow> MqttClientOptions \<Rightarrow> MqttClientOptions cres" where
  "merge_topic_alias v opts = (case v of
     None \<Rightarrow> Inr opts
   | Some maximum \<Rightarrow> merge_property (TopicAliasMaximum maximum) opts)"

definition resolve_options :: "TokioAsyncClientConfig \<Rightarrow> MqttClientOptions \<Rightarrow> MqttClientOptions cres" where
  "resolve_options config opts =
     (if tc_command_queue_size config = 0 \<or> tc_default_operation_timeout_ms config = 0
      then Inl (invalid ''async configuration''
                  ''Command capacity and default operation timeout must be nonzero'')
      else
        tryE (merge_receive_maximum (tc_receive_maximum config) opts) (\<lambda>opts.
        tryE (merge_topic_alias (tc_topic_alias_maximum config) opts) (\<lambda>opts.
        let timeouts = o_operation_timeouts opts;
            opts = opts\<lparr>o_reconnect := tc_auto_reconnect config,
              o_reconnect_max_delay_ms := tc_max_reconnect_delay_ms config,
              o_max_reconnect_attempts := tc_max_reconnect_attempts config,
              o_operation_timeouts := timeouts\<lparr>ot_connect := (case ot_connect timeouts of
                  Some d \<Rightarrow> Some d
                | None \<Rightarrow> map_option (\<lambda>ms. from_millis (unat ms)) (tc_connect_timeout_ms config))\<rparr>\<rparr>
        in if tc_priority_queue_enabled config then
             if tc_priority_queue_limit config = 0
             then Inl (invalid ''priority_queue_limit'' ''Priority queue capacity must be nonzero'')
             else Inr (opts\<lparr>o_max_outgoing_packet_count :=
                    min (o_max_outgoing_packet_count opts) (tc_priority_queue_limit config)\<rparr>)
           else Inr opts)))"

section \<open>Choice of the transport\<close>

record features =
  ft_tls :: bool
  ft_rustls_tls :: bool
  ft_quic :: bool

text \<open>The settings of a QUIC connection, in the order in which the builder receives them.\<close>

datatype quic_setting =
    Quic_alpn str | Quic_enable_0rtt bool | Quic_insecure_skip_verify bool | Quic_custom_roots str
  | Quic_client_cert str | Quic_client_key str | Quic_datagram_buffer nat | Quic_key_log bool
  | Quic_local_bind SocketAddr

datatype transport_plan =
    Plan_Tcp str | Plan_NativeTls str | Plan_Rustls str bool | Plan_Quic str "quic_setting list"
  | Plan_Refused MqttClientError

record ConnectFuture =
  cf_peer :: str
  cf_plan :: transport_plan
  cf_timeout :: "u64 option"

definition starts_with :: "str \<Rightarrow> str \<Rightarrow> bool" where
  "starts_with prefix s \<longleftrightarrow> take (length prefix) s = prefix"

definition strip_prefix_or :: "str \<Rightarrow> str \<Rightarrow> str" where
  "strip_prefix_or prefix s = (if starts_with prefix s then drop (length prefix) s else s)"

definition quic_settings :: "TokioAsyncClientConfig \<Rightarrow> quic_setting list" where
  "quic_settings config =
     [Quic_alpn (ascii ''mqtt''), Quic_enable_0rtt (tc_quic_enable_0rtt config)]
     @ (if tc_quic_insecure_skip_verify config then [Quic_insecure_skip_verify True] else [])
     @ (case tc_quic_custom_root_ca_pem config of None \<Rightarrow> [] | Some pem \<Rightarrow> [Quic_custom_roots pem])
     @ (case (tc_quic_client_cert_pem config, tc_quic_client_key_pem config) of
          (Some cert, Some key) \<Rightarrow> [Quic_client_cert cert, Quic_client_key key] | _ \<Rightarrow> [])
     @ (if 0 < tc_quic_datagram_receive_buffer_size config
        then [Quic_datagram_buffer (tc_quic_datagram_receive_buffer_size config)] else [])
     @ (if tc_quic_enable_key_log config then [Quic_key_log True] else [])
     @ (case tc_quic_local_bind_addr config of None \<Rightarrow> [] | Some addr \<Rightarrow> [Quic_local_bind addr])"

definition tls_plan ::
  "features \<Rightarrow> TlsBackend option \<Rightarrow> TokioAsyncClientConfig \<Rightarrow> str \<Rightarrow> transport_plan" where
  "tls_plan ft backend config addr =
     (if \<not> ft_tls ft \<and> \<not> ft_rustls_tls ft then
        Plan_Refused (ProtocolViolation ''TLS transport requires the 'tls' or 'rustls-tls' feature'')
      else case backend of
        Some Backend_Rustls \<Rightarrow>
          if ft_rustls_tls ft then Plan_Rustls addr (tc_tls_enable_key_log config)
          else Plan_Refused (ProtocolViolation ''Rustls TLS backend requires the 'rustls-tls' feature'')
      | Some Backend_Native \<Rightarrow>
          if ft_tls ft then Plan_NativeTls addr
          else Plan_Refused (ProtocolViolation ''Native TLS backend requires the 'tls' feature'')
      | None \<Rightarrow>
          if ft_tls ft then Plan_NativeTls addr
          else Plan_Refused
                 (ProtocolViolation ''Select the rustls TLS backend when native TLS is unavailable''))"

definition create_transport ::
  "features \<Rightarrow> TlsBackend option \<Rightarrow> TokioAsyncClientConfig \<Rightarrow> MqttClientOptions \<Rightarrow> ConnectFuture" where
  "create_transport ft backend config opts =
     (let peer = o_peer opts;
          plan =
            (if starts_with (ascii ''mqtts://'') peer
             then tls_plan ft backend config (strip_prefix_or (ascii ''mqtts://'') peer)
             else if starts_with (ascii ''quic://'') peer then
               if ft_quic ft
               then Plan_Quic (strip_prefix_or (ascii ''quic://'') peer) (quic_settings config)
               else Plan_Refused (ProtocolViolation ''QUIC transport requires the 'quic' feature'')
             else Plan_Tcp (strip_prefix_or (ascii ''mqtt://'') peer))
      in \<lparr>cf_peer = peer, cf_plan = plan, cf_timeout = tc_connect_timeout_ms config\<rparr>)"

text \<open>
  What the future resolves to: the environment opens the transport, fails with a message at one of
  the settings or at the connection, or does not finish within the timeout.
\<close>

datatype attempt = Attempt_opened | Attempt_failed string | Attempt_setting_failed quic_setting string
  | Attempt_elapsed

definition text_of :: "str \<Rightarrow> string" where
  "text_of s = map (\<lambda>b. char_of (unat b)) s"

definition failure_text :: "ConnectFuture \<Rightarrow> string \<Rightarrow> MqttClientError" where
  "failure_text f e =
     (let peer = text_of (cf_peer f) in
      case cf_plan f of
        Plan_Refused error \<Rightarrow> error
      | Plan_Tcp _ \<Rightarrow> ConnectionLost (''TCP connection failed to '' @ peer @ '': '' @ e)
      | Plan_NativeTls _ \<Rightarrow> ConnectionLost (''TLS connection failed to '' @ peer @ '': '' @ e)
      | Plan_Rustls _ _ \<Rightarrow> ConnectionLost (''Rustls TLS connection failed to '' @ peer @ '': '' @ e)
      | Plan_Quic _ _ \<Rightarrow> ConnectionLost (''QUIC connection failed to '' @ peer @ '': '' @ e))"

definition setting_failure :: "quic_setting \<Rightarrow> string \<Rightarrow> MqttClientError" where
  "setting_failure setting e = ConnectionLost ((case setting of
     Quic_custom_roots _ \<Rightarrow> ''Failed to load custom root CA for QUIC: ''
   | Quic_client_cert _ \<Rightarrow> ''Failed to load client certificate for QUIC: ''
   | _ \<Rightarrow> ''Failed to load client private key for QUIC: '') @ e)"

definition connect_outcome :: "ConnectFuture \<Rightarrow> attempt \<Rightarrow> unit cres" where
  "connect_outcome f a = (case (cf_plan f, a) of
     (Plan_Refused e, _) \<Rightarrow> Inl e
   | (_, Attempt_opened) \<Rightarrow> Inr ()
   | (_, Attempt_failed e) \<Rightarrow> Inl (failure_text f e)
   | (_, Attempt_setting_failed setting e) \<Rightarrow> Inl (setting_failure setting e)
   | (_, Attempt_elapsed) \<Rightarrow>
       Inl (OperationTimeout ''transport connect'' (case cf_timeout f of None \<Rightarrow> 0 | Some ms \<Rightarrow> ms)))"

text \<open>The outcomes an attempt can have: only the loading of certificates and keys can fail, and only
  a future with a timeout can elapse.\<close>

definition possible_attempt :: "ConnectFuture \<Rightarrow> attempt \<Rightarrow> bool" where
  "possible_attempt f a = (case a of
     Attempt_elapsed \<Rightarrow> cf_timeout f \<noteq> None
   | Attempt_setting_failed setting _ \<Rightarrow>
       (case cf_plan f of
          Plan_Quic _ settings \<Rightarrow> setting \<in> set settings \<and>
            (case setting of Quic_custom_roots _ \<Rightarrow> True | Quic_client_cert _ \<Rightarrow> True
             | Quic_client_key _ \<Rightarrow> True | _ \<Rightarrow> False)
        | _ \<Rightarrow> False)
   | _ \<Rightarrow> True)"

section \<open>Properties\<close>

lemma merge_loop_Inr:
  "merge_loop v ps b = Inr f \<longleftrightarrow>
     (\<forall>p\<in>set ps. same_discriminant p v \<longrightarrow> p = v) \<and> (f \<longleftrightarrow> b \<or> v \<in> set ps)"
  by (induction ps arbitrary: b) (auto simp: same_discriminant_def)

lemma merge_property_Inr:
  assumes "merge_property v opts = Inr opts'"
  shows "v \<in> set (o_connect_properties opts')"
    and "set (o_connect_properties opts) \<subseteq> set (o_connect_properties opts')"
    and "\<forall>p\<in>set (o_connect_properties opts'). same_discriminant p v \<longrightarrow> p = v"
    and "opts' = opts\<lparr>o_connect_properties := o_connect_properties opts'\<rparr>"
  using assms by (auto simp: merge_property_def merge_loop_Inr split: if_splits)

lemma starts_with_strip: "starts_with p s \<Longrightarrow> p @ strip_prefix_or p s = s"
  by (metis append_take_drop_id starts_with_def strip_prefix_or_def)

text \<open>
  An encrypted scheme is never served by plain TCP, whatever the features, the backend and the
  configuration; and where the TLS settings allow no encryption the attempt is refused.
\<close>

definition encrypted_plan :: "features \<Rightarrow> str \<Rightarrow> transport_plan \<Rightarrow> bool" where
  "encrypted_plan ft peer plan = (case plan of
     Plan_Tcp _ \<Rightarrow> False
   | Plan_NativeTls addr \<Rightarrow> ascii ''mqtts://'' @ addr = peer \<and> ft_tls ft
   | Plan_Rustls addr _ \<Rightarrow> ascii ''mqtts://'' @ addr = peer \<and> ft_rustls_tls ft
   | Plan_Quic addr _ \<Rightarrow> ascii ''quic://'' @ addr = peer \<and> ft_quic ft
   | Plan_Refused e \<Rightarrow> (case e of ProtocolViolation _ \<Rightarrow> True | _ \<Rightarrow> False))"

lemma tls_plan_encrypted:
  "ascii ''mqtts://'' @ addr = peer \<Longrightarrow> encrypted_plan ft peer (tls_plan ft backend config addr)"
  by (auto simp: encrypted_plan_def tls_plan_def split: option.splits TlsBackend.splits)

lemma encrypted_peer_plan:
  assumes "starts_with (ascii ''mqtts://'') (o_peer opts) \<or> starts_with (ascii ''quic://'') (o_peer opts)"
  shows "encrypted_plan ft (o_peer opts) (cf_plan (create_transport ft backend config opts))"
proof (cases "starts_with (ascii ''mqtts://'') (o_peer opts)")
  case True
  then show ?thesis using tls_plan_encrypted [OF starts_with_strip [OF True]] by (simp add: create_transport_def Let_def)
next
  case False
  then show ?thesis using assms starts_with_strip by (auto simp: create_transport_def encrypted_plan_def Let_def)
qed

end
