(* ===== verification/Async_Worker.thy ===== *)
theory Async_Worker
  imports Async_Config "HOL-Library.Multiset"
begin

text \<open>
  The worker of the asynchronous client, \<open>src/src/mqtt_client/tokio_async_client/worker.rs\<close>: the
  task that owns the engine and the transport, executes the commands of the client, answers their
  response channels and hands the events to the application.

  A response channel is a number; \<open>wk_replies\<close> records what is sent into which channel,
  \<open>wk_batches\<close> the batches handed to the event handler and \<open>wk_written\<close> the bytes handed to the
  transport.  \<open>wk_taken\<close> and \<open>wk_dropped\<close> record which channels the worker received and which it
  dropped without a reply, and why.  The environment is a script in the state of the worker: the samples of the system
  clock, the outcome of every write and close, and for every call of the event handler the publish
  requests that arrive while it runs.  An exhausted script stands for a clock that has not moved, a
  write or close that succeeds, and a handler that returns at once.
\<close>

section \<open>State\<close>

type_synonym channel = nat

datatype reply =
    Reply_connect "ConnectionResult cres"
  | Reply_publish "PublishResult cres"
  | Reply_subscribe "AckResult cres"
  | Reply_unsubscribe "AckResult cres"
  | Reply_ping "bool cres"
  | Reply_done "unit cres"
  | Reply_admission "(u16 option) cres"

datatype TokioMqttEvent =
    TE_Connected ConnectionResult
  | TE_Disconnected "u8 option"
  | TE_Published PublishResult
  | TE_Subscribed AckResult
  | TE_Unsubscribed AckResult
  | TE_MessageReceived Publish5
  | TE_PingResponse bool
  | TE_Error MqttClientError
  | TE_PeerCertReceived bytes
  | TE_ConnectionLost
  | TE_ReconnectAttempt u32
  | TE_PendingOperationsCleared
  | TE_ParseError bytes ParseError bool
  | TE_AuthReceived AuthResult
  | TE_DisconnectReceived u8 "Property list"
  | TE_PubRelReceived u16
  | TE_EngineEvent MqttEvent

datatype TokioClientCommand =
    Cmd_Connect
  | Cmd_ConnectSync channel
  | Cmd_Subscribe SubscribeCommand
  | Cmd_SubscribeSync SubscribeCommand channel
  | Cmd_Publish PublishCommand
  | Cmd_PublishSync PublishCommand channel
  | Cmd_Unsubscribe UnsubscribeCommand
  | Cmd_UnsubscribeSync UnsubscribeCommand channel
  | Cmd_Ping
  | Cmd_PingSync channel
  | Cmd_Disconnect u8 "Property list" "channel option"
  | Cmd_Acknowledge u8 u16 u8 "Property list" channel
  | Cmd_Shutdown
  | Cmd_SetAutoReconnect bool
  | Cmd_Auth u8 "Property list"
  | Cmd_SendPacket MqttPacket

record PublishAdmission =
  pa_command :: PublishCommand
  pa_channel :: channel

datatype ConnectionState = CS_Disconnected | CS_Connecting | CS_Connected ConnectionResult | CS_Disconnecting

record Pending =
  pd_connect :: "channel list"
  pd_publish :: "(u16 \<times> channel) list"
  pd_subscribe :: "(u16 \<times> channel) list"
  pd_unsubscribe :: "(u16 \<times> channel) list"
  pd_ping :: "channel list"

definition Pending_default :: Pending where
  "Pending_default = \<lparr>pd_connect = [], pd_publish = [], pd_subscribe = [], pd_unsubscribe = [], pd_ping = []\<rparr>"

datatype drop_cause = Receiver_gone | Displaced

datatype io_outcome = Io_ok | Io_elapsed | Io_failed ErrorKind string

record worker =
  wk_engine :: MqttEngine
  wk_stream :: bool
  wk_state :: ConnectionState
  wk_connecting :: "ConnectFuture option"
  wk_intentional_stop :: bool
  wk_pending :: Pending
  wk_admission_open :: bool
  wk_admission_transport_failed :: bool
  wk_admission_needs_drain :: bool
  wk_config :: TokioAsyncClientConfig
  wk_features :: features
  wk_tls_backend :: "TlsBackend option"
  wk_clock :: "Timestamp list"
  wk_writes :: "io_outcome list"
  wk_closes :: "io_outcome list"
  wk_callbacks :: "PublishAdmission option list list"
  wk_replies :: "(channel \<times> reply) list"
  wk_batches :: "TokioMqttEvent list list"
  wk_written :: "bytes list"
  wk_taken :: "channel list"
  wk_dropped :: "(channel \<times> drop_cause) list"

type_synonym 'a wrk = "string + 'a \<times> worker"

definition worker_new ::
  "features \<Rightarrow> TlsBackend option \<Rightarrow> MqttClientOptions \<Rightarrow> TokioAsyncClientConfig \<Rightarrow> Timestamp \<Rightarrow> worker" where
  "worker_new ft backend opts config sample =
     \<lparr>wk_engine = host_new opts sample, wk_stream = False, wk_state = CS_Disconnected,
      wk_connecting = None, wk_intentional_stop = False, wk_pending = Pending_default,
      wk_admission_open = True, wk_admission_transport_failed = False,
      wk_admission_needs_drain = False, wk_config = config, wk_features = ft,
      wk_tls_backend = backend, wk_clock = [], wk_writes = [], wk_closes = [], wk_callbacks = [],
      wk_replies = [], wk_batches = [], wk_written = [], wk_taken = [],
      wk_dropped = []\<rparr>"

text \<open>The environment: the next clock sample, the next outcome of a write and of a close.\<close>

definition read_clock :: "worker \<Rightarrow> Timestamp \<times> worker" where
  "read_clock w = (case wk_clock w of [] \<Rightarrow> (0, w) | t # ts \<Rightarrow> (t, w\<lparr>wk_clock := ts\<rparr>))"

definition next_write :: "worker \<Rightarrow> io_outcome \<times> worker" where
  "next_write w = (case wk_writes w of [] \<Rightarrow> (Io_ok, w) | x # xs \<Rightarrow> (x, w\<lparr>wk_writes := xs\<rparr>))"

definition next_close :: "worker \<Rightarrow> io_outcome \<times> worker" where
  "next_close w = (case wk_closes w of [] \<Rightarrow> (Io_ok, w) | x # xs \<Rightarrow> (x, w\<lparr>wk_closes := xs\<rparr>))"

text \<open>A call of the engine with a sample of the clock, and a reply into a channel.\<close>

definition engine_op :: "(Timestamp \<Rightarrow> MqttEngine \<Rightarrow> 'a eng) \<Rightarrow> worker \<Rightarrow> 'a wrk" where
  "engine_op f w =
     (let (sample, w) = read_clock w in
      tryE (f sample (wk_engine w)) (\<lambda>(x, e). Inr (x, w\<lparr>wk_engine := e\<rparr>)))"

definition take_channels :: "channel list \<Rightarrow> worker \<Rightarrow> worker" where
  "take_channels txs w = w\<lparr>wk_taken := wk_taken w @ txs\<rparr>"

definition drop_channel :: "drop_cause \<Rightarrow> channel \<Rightarrow> worker \<Rightarrow> worker" where
  "drop_channel cause tx w = w\<lparr>wk_dropped := wk_dropped w @ [(tx, cause)]\<rparr>"

definition send :: "channel \<Rightarrow> reply \<Rightarrow> worker \<Rightarrow> worker" where
  "send tx r w = w\<lparr>wk_replies := wk_replies w @ [(tx, r)]\<rparr>"

section \<open>Pending operations\<close>

definition fail_connect :: "MqttClientError \<Rightarrow> worker \<Rightarrow> worker" where
  "fail_connect e w =
     (let p = wk_pending w in
      fold (\<lambda>tx. send tx (Reply_connect (Inl e))) (pd_connect p) (w\<lparr>wk_pending := p\<lparr>pd_connect := []\<rparr>\<rparr>))"

definition fail_ping :: "MqttClientError \<Rightarrow> worker \<Rightarrow> worker" where
  "fail_ping e w =
     (let p = wk_pending w in
      fold (\<lambda>tx. send tx (Reply_ping (Inl e))) (pd_ping p) (w\<lparr>wk_pending := p\<lparr>pd_ping := []\<rparr>\<rparr>))"

definition fail_publishes :: "MqttClientError \<Rightarrow> worker \<Rightarrow> worker" where
  "fail_publishes e w =
     (let p = wk_pending w in
      fold (\<lambda>(_, tx). send tx (Reply_publish (Inl e))) (pd_publish p)
        (w\<lparr>wk_pending := p\<lparr>pd_publish := []\<rparr>\<rparr>))"

definition fail_subscribes :: "MqttClientError \<Rightarrow> worker \<Rightarrow> worker" where
  "fail_subscribes e w =
     (let p = wk_pending w in
      fold (\<lambda>(_, tx). send tx (Reply_subscribe (Inl e))) (pd_subscribe p)
        (w\<lparr>wk_pending := p\<lparr>pd_subscribe := []\<rparr>\<rparr>))"

definition fail_unsubscribes :: "MqttClientError \<Rightarrow> worker \<Rightarrow> worker" where
  "fail_unsubscribes e w =
     (let p = wk_pending w in
      fold (\<lambda>(_, tx). send tx (Reply_unsubscribe (Inl e))) (pd_unsubscribe p)
        (w\<lparr>wk_pending := p\<lparr>pd_unsubscribe := []\<rparr>\<rparr>))"

definition pending_fail_all :: "MqttClientError \<Rightarrow> worker \<Rightarrow> worker" where
  "pending_fail_all e w =
     fail_unsubscribes e (fail_subscribes e (fail_publishes e (fail_ping e (fail_connect e w))))"

text \<open>The receivers that are gone are a parameter.\<close>

definition prune :: "channel list \<Rightarrow> Pending \<Rightarrow> Pending" where
  "prune closed p =
     \<lparr>pd_connect = filter (\<lambda>tx. tx \<notin> set closed) (pd_connect p),
      pd_publish = filter (\<lambda>(_, tx). tx \<notin> set closed) (pd_publish p),
      pd_subscribe = filter (\<lambda>(_, tx). tx \<notin> set closed) (pd_subscribe p),
      pd_unsubscribe = filter (\<lambda>(_, tx). tx \<notin> set closed) (pd_unsubscribe p),
      pd_ping = filter (\<lambda>tx. tx \<notin> set closed) (pd_ping p)\<rparr>"

definition pending_channels :: "Pending \<Rightarrow> channel list" where
  "pending_channels p = pd_connect p @ pd_ping p @ map snd (pd_publish p) @ map snd (pd_subscribe p)
     @ map snd (pd_unsubscribe p)"

definition prune_pending :: "channel list \<Rightarrow> worker \<Rightarrow> worker" where
  "prune_pending closed w =
     fold (drop_channel Receiver_gone) (filter (\<lambda>tx. tx \<in> set closed) (pending_channels (wk_pending w)))
       (w\<lparr>wk_pending := prune closed (wk_pending w)\<rparr>)"

definition poll_cancelled :: "channel list \<Rightarrow> Pending \<Rightarrow> bool" where
  "poll_cancelled closed p \<longleftrightarrow> list_ex (\<lambda>tx. tx \<in> set closed) (pending_channels p)"

section \<open>Publish requests\<close>

definition publish_command ::
  "TokioAsyncClientConfig \<Rightarrow> bool \<Rightarrow> PublishCommand \<Rightarrow> Timestamp \<Rightarrow> MqttEngine \<Rightarrow> (u16 option) cres eng" where
  "publish_command config intentional_stop command sample e =
     (if \<not> me_is_connected e \<and> (\<not> tc_buffer_messages config \<or> intentional_stop) then Inr (Inl NotConnected, e)
      else if \<not> me_is_connected e \<and> tc_max_buffer_size config \<le> pq_len (me_priority_queue e)
      then Inr (Inl (BufferFull ''offline publish queue'' (tc_max_buffer_size config)), e)
      else host_publish
             (if tc_priority_queue_enabled config then command else command\<lparr>pc_priority := 128\<rparr>) sample e)"

definition worker_publish :: "PublishCommand \<Rightarrow> worker \<Rightarrow> (u16 option) cres wrk" where
  "worker_publish command w =
     (if wk_admission_transport_failed w then Inr (Inl NotConnected, w)
      else engine_op (publish_command (wk_config w) (wk_intentional_stop w) command) w)"

definition admit :: "PublishAdmission \<Rightarrow> worker \<Rightarrow> unit wrk" where
  "admit request w =
     tryE (worker_publish (pa_command request) (take_channels [pa_channel request] w)) (\<lambda>(r, w).
     Inr ((), send (pa_channel request) (Reply_admission r) w))"

fun cancel_admissions :: "PublishAdmission list \<Rightarrow> worker \<Rightarrow> worker" where
  "cancel_admissions [] w = w"
| "cancel_admissions (request # rest) w =
     cancel_admissions rest
       (send (pa_channel request)
          (Reply_admission (Inl (OperationCancelled ''publish admission during shutdown''))) w)"

text \<open>\<open>queued\<close> holds the requests that are in the channel when it is closed.\<close>

definition close_admissions :: "PublishAdmission list \<Rightarrow> worker \<Rightarrow> worker" where
  "close_admissions queued w =
     cancel_admissions queued (take_channels (map pa_channel queued) (w\<lparr>wk_admission_open := False\<rparr>))"

section \<open>Event handler\<close>

text \<open>
  Requests are served while the handler runs, until the channel closes.  They go to the engine
  directly and never touch the batch the handler is working on.
\<close>

fun serve_admissions :: "PublishAdmission option list \<Rightarrow> worker \<Rightarrow> unit wrk" where
  "serve_admissions [] w = Inr ((), w)"
| "serve_admissions (request # rest) w =
     (if \<not> wk_admission_open w then Inr ((), w)
      else case request of
        None \<Rightarrow> Inr ((), w\<lparr>wk_admission_open := False\<rparr>)
      | Some request \<Rightarrow>
          tryE (admit request (w\<lparr>wk_admission_needs_drain := True\<rparr>)) (\<lambda>(_, w).
          serve_admissions rest w))"

definition deliver_batch :: "TokioMqttEvent list \<Rightarrow> worker \<Rightarrow> unit wrk" where
  "deliver_batch events w =
     (let (requests, callbacks) =
            (case wk_callbacks w of [] \<Rightarrow> ([], []) | requests # callbacks \<Rightarrow> (requests, callbacks))
      in serve_admissions requests (w\<lparr>wk_callbacks := callbacks, wk_batches := wk_batches w @ [events]\<rparr>))"

definition emit_batch :: "TokioMqttEvent list \<Rightarrow> worker \<Rightarrow> unit wrk" where
  "emit_batch batch w = (if batch = [] then Inr ((), w) else deliver_batch batch w)"

definition emit_event :: "TokioMqttEvent \<Rightarrow> worker \<Rightarrow> unit wrk" where
  "emit_event event w = emit_batch [event] w"

section \<open>Loss of the connection\<close>

text \<open>
  \<open>record_connection_lost\<close> returns the two events of a loss, none when there is no connection.
  Connects and pings fail; the other operations only when no reconnect will follow.
\<close>

definition connection_closed_error :: MqttClientError where
  "connection_closed_error = ConnectionLost ''MQTT transport closed''"

definition no_reconnect :: "Timestamp option \<Rightarrow> worker \<Rightarrow> bool" where
  "no_reconnect tick w \<longleftrightarrow>
     \<not> tc_auto_reconnect (wk_config w) \<or> wk_intentional_stop w \<or> tick = None"

definition record_connection_lost :: "u8 option \<Rightarrow> worker \<Rightarrow> (TokioMqttEvent list) wrk" where
  "record_connection_lost code w =
     (if wk_state w = CS_Disconnected then Inr ([], w)
      else
        tryE (engine_op host_handle_connection_lost
                (w\<lparr>wk_stream := False, wk_connecting := None, wk_state := CS_Disconnected\<rparr>)) (\<lambda>(_, w).
        let w = fail_ping connection_closed_error (fail_connect connection_closed_error w) in
        tryE (next_tick_at (wk_engine w)) (\<lambda>tick.
        Inr ([TE_Disconnected code, TE_ConnectionLost],
             if no_reconnect tick w then pending_fail_all connection_closed_error w else w))))"

definition transport_failed :: "MqttClientError \<Rightarrow> worker \<Rightarrow> unit wrk" where
  "transport_failed error w =
     tryE (record_connection_lost None w) (\<lambda>(lost, w).
     emit_batch (TE_Error error # lost) (w\<lparr>wk_admission_transport_failed := False\<rparr>))"

section \<open>Connecting\<close>

abbreviation new_transport :: "worker \<Rightarrow> ConnectFuture" where
  "new_transport w \<equiv>
     create_transport (wk_features w) (wk_tls_backend w) (wk_config w) (me_options (wk_engine w))"

definition start_connect :: "worker \<Rightarrow> worker" where
  "start_connect w =
     (if wk_state w \<noteq> CS_Disconnected then w
      else
        let e = reset_reconnect_state (set_reconnect (tc_auto_reconnect (wk_config w)) (wk_engine w));
            w = w\<lparr>wk_intentional_stop := False, wk_engine := e, wk_state := CS_Connecting\<rparr>
        in w\<lparr>wk_connecting := Some (new_transport w)\<rparr>)"

text \<open>\<open>nodelay\<close> is the error of \<open>set_nodelay\<close> on the new transport, if it fails.\<close>

definition open_transport :: "string option \<Rightarrow> worker \<Rightarrow> unit cres wrk" where
  "open_transport nodelay w =
     tryE (case (tc_tcp_nodelay (wk_config w), nodelay) of
             (True, Some error) \<Rightarrow> emit_event (TE_Error (NetworkError OtherKind (''TCP_NODELAY: '' @ error))) w
           | _ \<Rightarrow> Inr ((), w)) (\<lambda>(_, w).
     tryE (engine_op host_reset_for_new_transport (w\<lparr>wk_stream := True\<rparr>)) (\<lambda>(_, w).
     engine_op host_connect w))"

definition transport_connected :: "unit cres \<Rightarrow> string option \<Rightarrow> worker \<Rightarrow> unit wrk" where
  "transport_connected result nodelay w =
     tryE (case result of Inr _ \<Rightarrow> open_transport nodelay w | Inl e \<Rightarrow> Inr (Inl e, w)) (\<lambda>(r, w).
     case r of
       Inr _ \<Rightarrow> Inr ((), w)
     | Inl e \<Rightarrow> transport_failed e (fail_connect e w))"

section \<open>Events of the engine\<close>

abbreviation set_pending :: "(Pending \<Rightarrow> Pending) \<Rightarrow> worker \<Rightarrow> worker" where
  "set_pending f w \<equiv> w\<lparr>wk_pending := f (wk_pending w)\<rparr>"

definition answer_connects :: "ConnectionResult \<Rightarrow> worker \<Rightarrow> worker" where
  "answer_connects r w =
     fold (\<lambda>tx. send tx (Reply_connect (Inr r))) (pd_connect (wk_pending w))
       (set_pending (\<lambda>p. p\<lparr>pd_connect := []\<rparr>) w)"

definition answer_pings :: "bool \<Rightarrow> worker \<Rightarrow> worker" where
  "answer_pings r w =
     fold (\<lambda>tx. send tx (Reply_ping (Inr r))) (pd_ping (wk_pending w))
       (set_pending (\<lambda>p. p\<lparr>pd_ping := []\<rparr>) w)"

definition answer_publish :: "u16 option \<Rightarrow> PublishResult cres \<Rightarrow> worker \<Rightarrow> worker" where
  "answer_publish i r w = (case i of None \<Rightarrow> w | Some i \<Rightarrow>
     (case hm_get (pd_publish (wk_pending w)) i of
        None \<Rightarrow> w
      | Some tx \<Rightarrow> send tx (Reply_publish r) (set_pending (\<lambda>p. p\<lparr>pd_publish := hm_remove i (pd_publish p)\<rparr>) w)))"

definition answer_subscribe :: "u16 option \<Rightarrow> AckResult cres \<Rightarrow> worker \<Rightarrow> worker" where
  "answer_subscribe i r w = (case i of None \<Rightarrow> w | Some i \<Rightarrow>
     (case hm_get (pd_subscribe (wk_pending w)) i of
        None \<Rightarrow> w
      | Some tx \<Rightarrow> send tx (Reply_subscribe r) (set_pending (\<lambda>p. p\<lparr>pd_subscribe := hm_remove i (pd_subscribe p)\<rparr>) w)))"

definition answer_unsubscribe :: "u16 option \<Rightarrow> AckResult cres \<Rightarrow> worker \<Rightarrow> worker" where
  "answer_unsubscribe i r w = (case i of None \<Rightarrow> w | Some i \<Rightarrow>
     (case hm_get (pd_unsubscribe (wk_pending w)) i of
        None \<Rightarrow> w
      | Some tx \<Rightarrow> send tx (Reply_unsubscribe r) (set_pending (\<lambda>p. p\<lparr>pd_unsubscribe := hm_remove i (pd_unsubscribe p)\<rparr>) w)))"

definition fail_pending_operation :: "OperationKind \<Rightarrow> u16 option \<Rightarrow> MqttClientError \<Rightarrow> worker \<Rightarrow> worker" where
  "fail_pending_operation operation i e w = (case operation of
     Op_Connect \<Rightarrow> fail_connect e w
   | Op_Publish \<Rightarrow> answer_publish i (Inl e) w
   | Op_Subscribe \<Rightarrow> answer_subscribe i (Inl e) w
   | Op_Unsubscribe \<Rightarrow> answer_unsubscribe i (Inl e) w)"

definition reconnect_needed :: "worker \<Rightarrow> (TokioMqttEvent list) wrk" where
  "reconnect_needed w =
     (if tc_auto_reconnect (wk_config w) \<and> \<not> wk_intentional_stop w then
        if wk_stream w then record_connection_lost None w
        else if wk_state w = CS_Disconnected
        then Inr ([], w\<lparr>wk_state := CS_Connecting, wk_connecting := Some (new_transport w)\<rparr>)
        else Inr ([], w)
      else Inr ([], w))"

text \<open>
  One event: what it adds to the batch.  \<open>next_message\<close> tells that the next event is a
  \<open>MessageReceived\<close>, with which the metadata of a PUBLISH is folded.
\<close>

definition with_lost :: "TokioMqttEvent list \<Rightarrow> u8 option \<Rightarrow> worker \<Rightarrow> (TokioMqttEvent list) wrk" where
  "with_lost events code w =
     tryE (record_connection_lost code w) (\<lambda>(lost, w). Inr (events @ lost, w))"

definition dispatch_event :: "MqttEvent \<Rightarrow> bool \<Rightarrow> worker \<Rightarrow> (TokioMqttEvent list) wrk" where
  "dispatch_event event next_message w = (case event of
     Connected r \<Rightarrow>
       let w = answer_connects r (w\<lparr>wk_state := CS_Connected r\<rparr>) in
       if connection_is_success r then Inr ([TE_Connected r], w)
       else with_lost [TE_Connected r] (Some (cr_reason_code r)) w
   | Disconnected code \<Rightarrow>
       if wk_state w = CS_Disconnected then Inr ([TE_EngineEvent (Disconnected code)], w)
       else with_lost [] code w
   | DisconnectReceived code properties \<Rightarrow>
       with_lost [TE_DisconnectReceived code properties] (Some code) w
   | Published r \<Rightarrow> Inr ([TE_Published r], answer_publish (pr_packet_id r) (Inr r) w)
   | Subscribed r \<Rightarrow> Inr ([TE_Subscribed r], answer_subscribe (Some (kr_packet_id r)) (Inr r) w)
   | Unsubscribed r \<Rightarrow> Inr ([TE_Unsubscribed r], answer_unsubscribe (Some (kr_packet_id r)) (Inr r) w)
   | MessageReceived m \<Rightarrow> Inr ([TE_MessageReceived m], w)
   | PubRelReceived i _ \<Rightarrow> Inr ([TE_PubRelReceived i], w)
   | PingResponse r \<Rightarrow> Inr ([TE_PingResponse r], answer_pings r w)
   | AuthReceived r \<Rightarrow> Inr ([TE_AuthReceived r], w)
   | OperationFailed operation i e \<Rightarrow>
       let w = fail_pending_operation operation i e w in
       if operation = Op_Connect then with_lost [TE_Error e] None w else Inr ([TE_Error e], w)
   | EventError e \<Rightarrow> Inr ([TE_Error e], if wk_state w = CS_Connecting then fail_connect e w else w)
   | ReconnectNeeded \<Rightarrow>
       tryE (reconnect_needed w) (\<lambda>(lost, w). Inr (TE_EngineEvent ReconnectNeeded # lost, w))
   | ReconnectScheduled n delay \<Rightarrow>
       Inr ([if tc_auto_reconnect (wk_config w) \<and> \<not> wk_intentional_stop w then TE_ReconnectAttempt n
             else TE_EngineEvent event], w)
   | PublishReceived _ _ \<Rightarrow> Inr (if next_message then [] else [TE_EngineEvent event], w))"

definition is_message :: "MqttEvent \<Rightarrow> bool" where
  "is_message event = (case event of MessageReceived _ \<Rightarrow> True | _ \<Rightarrow> False)"

fun dispatch_loop :: "MqttEvent list \<Rightarrow> TokioMqttEvent list \<Rightarrow> worker \<Rightarrow> (TokioMqttEvent list) wrk" where
  "dispatch_loop [] batch w = Inr (batch, w)"
| "dispatch_loop (event # rest) batch w =
     tryE (dispatch_event event (case rest of [] \<Rightarrow> False | e # _ \<Rightarrow> is_message e) w) (\<lambda>(new, w).
     dispatch_loop rest (batch @ new) w)"

definition dispatch_events :: "MqttEvent list \<Rightarrow> worker \<Rightarrow> unit wrk" where
  "dispatch_events events w =
     (if events = [] then Inr ((), w)
      else tryE (dispatch_loop events [] w) (\<lambda>(batch, w). emit_batch batch w))"

section \<open>Output\<close>

definition io_error :: "string \<Rightarrow> string \<Rightarrow> u64 \<Rightarrow> io_outcome \<Rightarrow> unit cres" where
  "io_error operation context duration outcome = (case outcome of
     Io_ok \<Rightarrow> Inr ()
   | Io_elapsed \<Rightarrow> Inl (OperationTimeout operation duration)
   | Io_failed kind e \<Rightarrow> Inl (NetworkError kind (context @ e)))"

definition write_output :: "worker \<Rightarrow> unit cres wrk" where
  "write_output w =
     tryE (engine_op host_take_outgoing w) (\<lambda>(data, w).
     if data = [] then Inr (Inr (), w)
     else if \<not> wk_stream w then Inr (Inl NotConnected, w)
     else
       let (outcome, w) = next_write w
       in Inr (io_error ''transport write'' ''transport write: ''
                 (tc_default_operation_timeout_ms (wk_config w)) outcome,
               w\<lparr>wk_written := wk_written w @ [data]\<rparr>))"

definition worker_take_events :: "worker \<Rightarrow> MqttEvent list \<times> worker" where
  "worker_take_events w =
     (let (events, e) = take_events (wk_engine w) in (events, w\<lparr>wk_engine := e\<rparr>))"

definition is_err :: "'e + 'a \<Rightarrow> bool" where
  "is_err r = (case r of Inl _ \<Rightarrow> True | Inr _ \<Rightarrow> False)"

definition handle_outgoing :: "worker \<Rightarrow> unit cres wrk" where
  "handle_outgoing w =
     tryE (write_output (w\<lparr>wk_admission_needs_drain := False\<rparr>)) (\<lambda>(result, w).
     let (events, w) = worker_take_events (w\<lparr>wk_admission_transport_failed := is_err result\<rparr>) in
     tryE (dispatch_events events w) (\<lambda>(_, w). Inr (result, w)))"

section \<open>Commands\<close>

definition worker_acknowledge :: "u8 \<Rightarrow> u16 \<Rightarrow> u8 \<Rightarrow> Property list \<Rightarrow> worker \<Rightarrow> unit cres wrk" where
  "worker_acknowledge kind i code properties w =
     (if kind = 4 then engine_op (host_puback i code properties) w
      else if kind = 5 then engine_op (host_pubrec i code properties) w
      else if kind = 7 then engine_op (host_pubcomp i code properties) w
      else Inl ''internal acknowledgement kind'')"

definition worker_ping :: "worker \<Rightarrow> unit cres wrk" where
  "worker_ping w =
     (if \<not> me_is_connected (wk_engine w) then Inr (Inl NotConnected, w)
      else engine_op host_send_ping w)"

definition close_stream :: "worker \<Rightarrow> unit cres \<times> worker" where
  "close_stream w =
     (if wk_stream w then
        let (outcome, w) = next_close (w\<lparr>wk_stream := False\<rparr>)
        in ((case outcome of
               Io_ok \<Rightarrow> Inr ()
             | Io_elapsed \<Rightarrow>
                 Inl (OperationTimeout ''transport close'' (tc_default_operation_timeout_ms (wk_config w)))
             | Io_failed _ e \<Rightarrow> Inl (NetworkError OtherKind e)), w)
      else (Inr (), w))"

definition worker_disconnect :: "u8 \<Rightarrow> Property list \<Rightarrow> worker \<Rightarrow> unit cres wrk" where
  "worker_disconnect code properties w =
     tryE (engine_op (host_try_disconnect_with code properties) w) (\<lambda>(r, w).
     case r of
       Inl e \<Rightarrow> Inr (Inl e, w)
     | Inr _ \<Rightarrow>
         let active = wk_state w \<noteq> CS_Disconnected;
             w = w\<lparr>wk_state := CS_Disconnecting, wk_intentional_stop := True,
                   wk_engine := set_reconnect False (wk_engine w), wk_connecting := None\<rparr>;
             w = pending_fail_all (OperationCancelled ''disconnect'') w
         in tryE (write_output w) (\<lambda>(write, w).
            let (close, w) = close_stream w in
            tryE (engine_op host_reset_for_new_transport w) (\<lambda>(_, w).
            tryE (if active then emit_event (TE_Disconnected (Some code)) (w\<lparr>wk_state := CS_Disconnected\<rparr>)
                  else Inr ((), w\<lparr>wk_state := CS_Disconnected\<rparr>)) (\<lambda>(_, w).
            Inr (tryE write (\<lambda>_. close), w)))))"

definition emit_result :: "unit cres \<Rightarrow> worker \<Rightarrow> unit wrk" where
  "emit_result r w = (case r of Inl e \<Rightarrow> emit_event (TE_Error e) w | Inr _ \<Rightarrow> Inr ((), w))"

definition ok_unit :: "'a cres \<Rightarrow> unit cres" where
  "ok_unit r = tryE r (\<lambda>_. Inr ())"

text \<open>A synchronous request: the waiter is registered under the identifier, or answered with the error.\<close>

definition register :: "(u16 \<Rightarrow> worker \<Rightarrow> worker) \<Rightarrow> (MqttClientError \<Rightarrow> reply) \<Rightarrow> channel \<Rightarrow> u16 cres \<Rightarrow> worker \<Rightarrow> unit wrk" where
  "register add failed tx r w = (case r of
     Inr i \<Rightarrow> Inr ((), add i w)
   | Inl e \<Rightarrow> emit_event (TE_Error e) (send tx (failed e) w))"

text \<open>The insertion of a waiter drops the waiter that was registered under the identifier.\<close>

definition displace :: "channel option \<Rightarrow> worker \<Rightarrow> worker" where
  "displace old w = (case old of None \<Rightarrow> w | Some tx \<Rightarrow> drop_channel Displaced tx w)"

definition insert_publish :: "u16 \<Rightarrow> channel \<Rightarrow> worker \<Rightarrow> worker" where
  "insert_publish i tx w = set_pending (\<lambda>p. p\<lparr>pd_publish := hm_insert i tx (pd_publish p)\<rparr>)
     (displace (hm_get (pd_publish (wk_pending w)) i) w)"

definition insert_subscribe :: "u16 \<Rightarrow> channel \<Rightarrow> worker \<Rightarrow> worker" where
  "insert_subscribe i tx w = set_pending (\<lambda>p. p\<lparr>pd_subscribe := hm_insert i tx (pd_subscribe p)\<rparr>)
     (displace (hm_get (pd_subscribe (wk_pending w)) i) w)"

definition insert_unsubscribe :: "u16 \<Rightarrow> channel \<Rightarrow> worker \<Rightarrow> worker" where
  "insert_unsubscribe i tx w = set_pending (\<lambda>p. p\<lparr>pd_unsubscribe := hm_insert i tx (pd_unsubscribe p)\<rparr>)
     (displace (hm_get (pd_unsubscribe (wk_pending w)) i) w)"

definition qos0_result :: PublishResult where
  "qos0_result = \<lparr>pr_packet_id = None, pr_reason_code = None, pr_properties = None, pr_qos = 0\<rparr>"

definition worker_publish_sync :: "PublishCommand \<Rightarrow> channel \<Rightarrow> worker \<Rightarrow> unit wrk" where
  "worker_publish_sync command tx w =
     tryE (worker_publish command w) (\<lambda>(r, w). case r of
       Inr (Some i) \<Rightarrow> Inr ((), insert_publish i tx w)
     | Inr None \<Rightarrow> Inr ((), send tx (Reply_publish (Inr qos0_result)) w)
     | Inl e \<Rightarrow> emit_event (TE_Error e) (send tx (Reply_publish (Inl e)) w))"

definition worker_ping_sync :: "channel \<Rightarrow> worker \<Rightarrow> unit wrk" where
  "worker_ping_sync tx w =
     (let wait = (\<lambda>w. Inr ((), set_pending (\<lambda>p. p\<lparr>pd_ping := pd_ping p @ [tx]\<rparr>) w)) in
      if pd_ping (wk_pending w) = [] then
        tryE (worker_ping w) (\<lambda>(r, w). case r of
          Inl e \<Rightarrow> emit_event (TE_Error e) (send tx (Reply_ping (Inl e)) w)
        | Inr _ \<Rightarrow> wait w)
      else wait w)"

definition set_auto_reconnect :: "bool \<Rightarrow> worker \<Rightarrow> unit wrk" where
  "set_auto_reconnect enabled w =
     (let w = w\<lparr>wk_config := (wk_config w)\<lparr>tc_auto_reconnect := enabled\<rparr>,
                wk_engine := set_reconnect (enabled \<and> \<not> wk_intentional_stop w) (wk_engine w)\<rparr>
      in if \<not> enabled \<and> wk_state w = CS_Disconnected then Inr ((), pending_fail_all NotConnected w)
         else if wk_state w = CS_Disconnected \<and> \<not> wk_intentional_stop w
         then engine_op host_schedule_reconnect w
         else Inr ((), w))"

definition send_packet :: "MqttPacket \<Rightarrow> worker \<Rightarrow> unit cres wrk" where
  "send_packet packet w = (case packet of
     P_PubAck5 p \<Rightarrow> engine_op (host_puback (ack_packet_id p) (ack_reason_code p) (ack_properties p)) w
   | P_PubRec5 p \<Rightarrow> engine_op (host_pubrec (ack_packet_id p) (ack_reason_code p) (ack_properties p)) w
   | P_PubComp5 p \<Rightarrow> engine_op (host_pubcomp (ack_packet_id p) (ack_reason_code p) (ack_properties p)) w
   | P_PubAck3 p \<Rightarrow> engine_op (host_puback (ack3_message_id p) 0 []) w
   | P_PubRec3 p \<Rightarrow> engine_op (host_pubrec (ack3_message_id p) 0 []) w
   | P_PubComp3 p \<Rightarrow> engine_op (host_pubcomp (ack3_message_id p) 0 []) w
   | P_Disconnect5 p \<Rightarrow> worker_disconnect (disc_reason_code p) (disc_properties p) w
   | P_Disconnect3 \<Rightarrow> worker_disconnect 0 [] w
   | P_Auth p \<Rightarrow> engine_op (host_auth (auth_reason_code p) (auth_properties p)) w
   | _ \<Rightarrow> engine_op (host_enqueue_packet packet) w)"

text \<open>A command whose result is only reported when it is an error.\<close>

definition plain :: "'a cres wrk \<Rightarrow> unit wrk" where
  "plain r = tryE r (\<lambda>(x, w). emit_result (ok_unit x) w)"

text \<open>\<open>cancelled\<close> holds the receivers that are gone when the command is executed.\<close>

definition handle_command :: "channel list \<Rightarrow> TokioClientCommand \<Rightarrow> worker \<Rightarrow> unit wrk" where
  "handle_command cancelled command w = (case command of
     Cmd_Connect \<Rightarrow> Inr ((), start_connect w)
   | Cmd_ConnectSync tx \<Rightarrow>
       let w = take_channels [tx] w in
       (case wk_state w of
          CS_Connected r \<Rightarrow> Inr ((), send tx (Reply_connect (Inr r)) w)
        | _ \<Rightarrow> Inr ((), start_connect (set_pending (\<lambda>p. p\<lparr>pd_connect := pd_connect p @ [tx]\<rparr>) w)))
   | Cmd_Publish c \<Rightarrow> plain (worker_publish c w)
   | Cmd_PublishSync c tx \<Rightarrow> worker_publish_sync c tx (take_channels [tx] w)
   | Cmd_Subscribe c \<Rightarrow> plain (engine_op (host_subscribe c) w)
   | Cmd_SubscribeSync c tx \<Rightarrow>
       let w = take_channels [tx] w in
       if tx \<in> set cancelled then Inr ((), drop_channel Receiver_gone tx w)
       else tryE (engine_op (host_subscribe c) w) (\<lambda>(r, w).
            register (\<lambda>i. insert_subscribe i tx) (\<lambda>e. Reply_subscribe (Inl e)) tx r w)
   | Cmd_Unsubscribe c \<Rightarrow> plain (engine_op (host_unsubscribe c) w)
   | Cmd_UnsubscribeSync c tx \<Rightarrow>
       tryE (engine_op (host_unsubscribe c) (take_channels [tx] w)) (\<lambda>(r, w).
       register (\<lambda>i. insert_unsubscribe i tx) (\<lambda>e. Reply_unsubscribe (Inl e)) tx r w)
   | Cmd_Ping \<Rightarrow> plain (worker_ping w)
   | Cmd_PingSync tx \<Rightarrow> worker_ping_sync tx (take_channels [tx] w)
   | Cmd_Acknowledge kind i code properties tx \<Rightarrow>
       tryE (worker_acknowledge kind i code properties (take_channels [tx] w)) (\<lambda>(r, w).
       emit_result r (send tx (Reply_done r) w))
   | Cmd_Disconnect code properties response \<Rightarrow>
       tryE (worker_disconnect code properties
               (case response of None \<Rightarrow> w | Some tx \<Rightarrow> take_channels [tx] w)) (\<lambda>(r, w).
       emit_result r (case response of None \<Rightarrow> w | Some tx \<Rightarrow> send tx (Reply_done r) w))
   | Cmd_SetAutoReconnect enabled \<Rightarrow> set_auto_reconnect enabled w
   | Cmd_Auth code properties \<Rightarrow> plain (engine_op (host_auth code properties) w)
   | Cmd_SendPacket packet \<Rightarrow> plain (send_packet packet w)
   | Cmd_Shutdown \<Rightarrow> Inl ''shutdown is handled by the run loop'')"

section \<open>The run loop\<close>

datatype read_outcome = Read_data bytes | Read_failed ErrorKind string

text \<open>What wakes the loop; a command comes with the requests queued in the admission channel.\<close>

datatype wake =
    Wake_command "TokioClientCommand option" "PublishAdmission list"
  | Wake_admission "PublishAdmission option"
  | Wake_transport attempt "string option"
  | Wake_read read_outcome
  | Wake_deadline
  | Wake_drain
  | Wake_cancelled

text \<open>
  One round: the receivers that are gone at its start and when a command is executed, the branch
  that is taken, and the script of the environment.
\<close>

record round =
  rd_closed :: "channel list"
  rd_cancelled :: "channel list"
  rd_wake :: wake
  rd_clock :: "Timestamp list"
  rd_writes :: "io_outcome list"
  rd_closes :: "io_outcome list"
  rd_callbacks :: "PublishAdmission option list list"

definition wake_enabled :: "round \<Rightarrow> worker \<Rightarrow> bool" where
  "wake_enabled rd w \<longleftrightarrow> (case rd_wake rd of
     Wake_command _ _ \<Rightarrow> True
   | Wake_admission _ \<Rightarrow> wk_admission_open w
   | Wake_transport a _ \<Rightarrow> (case wk_connecting w of None \<Rightarrow> False | Some f \<Rightarrow> possible_attempt f a)
   | Wake_read outcome \<Rightarrow> wk_stream w \<and>
       (case outcome of Read_data data \<Rightarrow> length data \<le> 4096 | _ \<Rightarrow> True)
   | Wake_deadline \<Rightarrow> (case next_tick_at (wk_engine w) of Inr (Some _) \<Rightarrow> True | _ \<Rightarrow> False)
   | Wake_drain \<Rightarrow> wk_admission_needs_drain w \<or> has_pending_output (wk_engine w)
   | Wake_cancelled \<Rightarrow> poll_cancelled (rd_cancelled rd) (wk_pending w))"

definition shutdown :: "PublishAdmission list \<Rightarrow> worker \<Rightarrow> unit cres wrk" where
  "shutdown queued w =
     tryE (worker_disconnect 0 [] (close_admissions queued w)) (\<lambda>(r, w). case r of
       Inr _ \<Rightarrow> Inr (r, w)
     | Inl e \<Rightarrow>
         let w = pending_fail_all e
                   (w\<lparr>wk_engine := set_reconnect False (wk_engine w), wk_connecting := None, wk_stream := False\<rparr>)
         in tryE (if wk_state w \<noteq> CS_Disconnected then emit_event (TE_Disconnected None) w else Inr ((), w))
              (\<lambda>(_, w). Inr (r, w)))"

definition read_transport :: "read_outcome \<Rightarrow> worker \<Rightarrow> unit wrk" where
  "read_transport outcome w = (case outcome of
     Read_data data \<Rightarrow>
       if data = [] then transport_failed (ConnectionLost ''Connection closed by server'') w
       else tryE (engine_op (host_handle_incoming data) w) (\<lambda>(events, w). dispatch_events events w)
   | Read_failed kind e \<Rightarrow> transport_failed (NetworkError kind (''transport read: '' @ e)) w)"

text \<open>The branch of the round; \<open>Some\<close> result ends the loop.\<close>

definition handle_wake :: "round \<Rightarrow> worker \<Rightarrow> (unit cres option) wrk" where
  "handle_wake rd w =
     (let continue = (\<lambda>r. tryE r (\<lambda>(_, w). Inr (None, w))) in
      case rd_wake rd of
        Wake_command command queued \<Rightarrow>
          if command = None \<or> command = Some Cmd_Shutdown
          then tryE (shutdown queued w) (\<lambda>(r, w). Inr (Some r, w))
          else continue (handle_command (rd_cancelled rd) (the command) w)
      | Wake_admission request \<Rightarrow>
          (case request of
             Some request \<Rightarrow> continue (admit request w)
           | None \<Rightarrow> Inr (None, w\<lparr>wk_admission_open := False\<rparr>))
      | Wake_transport a nodelay \<Rightarrow>
          (case wk_connecting w of
             None \<Rightarrow> Inr (None, w)
           | Some f \<Rightarrow> continue (transport_connected (connect_outcome f a) nodelay (w\<lparr>wk_connecting := None\<rparr>)))
      | Wake_read outcome \<Rightarrow> continue (read_transport outcome w)
      | Wake_deadline \<Rightarrow>
          continue (tryE (engine_op host_handle_tick w) (\<lambda>(events, w). dispatch_events events w))
      | Wake_drain \<Rightarrow> Inr (None, w)
      | Wake_cancelled \<Rightarrow> Inr (None, w))"

definition finish_round :: "unit cres option \<Rightarrow> worker \<Rightarrow> (unit cres option) wrk" where
  "finish_round exit w = (case exit of
     Some r \<Rightarrow> Inr (Some r, w)
   | None \<Rightarrow>
       tryE (handle_outgoing w) (\<lambda>(r, w). case r of
         Inr _ \<Rightarrow> Inr (None, w)
       | Inl e \<Rightarrow> tryE (transport_failed e w) (\<lambda>(_, w). Inr (None, w))))"

definition begin_round :: "round \<Rightarrow> worker \<Rightarrow> worker" where
  "begin_round rd w = prune_pending (rd_closed rd)
     (w\<lparr>wk_clock := rd_clock rd, wk_writes := rd_writes rd, wk_closes := rd_closes rd,
        wk_callbacks := rd_callbacks rd\<rparr>)"

definition run_round :: "round \<Rightarrow> worker \<Rightarrow> (unit cres option) wrk" where
  "run_round rd w =
     (let w = begin_round rd w in
      tryE (next_tick_at (wk_engine w)) (\<lambda>_.
      tryE (handle_wake rd w) (\<lambda>(exit, w). finish_round exit w)))"

text \<open>The loop, over a sequence of rounds: it stops at the first round that returns.\<close>

fun run :: "round list \<Rightarrow> worker \<Rightarrow> (unit cres option) wrk" where
  "run [] w = Inr (None, w)"
| "run (rd # rest) w =
     tryE (run_round rd w) (\<lambda>(exit, w). case exit of None \<Rightarrow> run rest w | Some r \<Rightarrow> Inr (Some r, w))"

inductive worker_reachable :: "worker \<Rightarrow> bool" where
  started: "resolve_options config opts = Inr opts' \<Longrightarrow> try_new_at opts' now = Inr e \<Longrightarrow>
            worker_reachable (worker_new ft backend opts' config now)"
| round: "worker_reachable w \<Longrightarrow> wake_enabled rd (begin_round rd w) \<Longrightarrow> run_round rd w = Inr (None, t) \<Longrightarrow>
          worker_reachable t"

end
