(* ===== verification/Async_Invariant.thy ===== *)
theory Async_Invariant
  imports Async_Worker
begin

text \<open>
  Invariants of the asynchronous worker: the engine it drives stays consistent, every response
  channel it receives is accounted for, and it never has two transports.

  Most operations of the worker are sequences of a few kinds of changes, the steps of \<open>quietly\<close>:
  changes of the engine that keep its invariant, of the environment and the flags, entries of the
  logs, and the settlement of waiters.  What all these changes keep, every such operation keeps.
\<close>

section \<open>Quiet steps\<close>

text \<open>The waiters of an operation are registered under distinct identifiers.\<close>

definition pending_ok :: "Pending \<Rightarrow> bool" where
  "pending_ok p \<longleftrightarrow> hm_ok (pd_publish p) \<and> hm_ok (pd_subscribe p) \<and> hm_ok (pd_unsubscribe p)"

definition settles :: "Pending \<Rightarrow> Pending \<Rightarrow> channel list \<Rightarrow> bool" where
  "settles p q txs \<longleftrightarrow> (pending_ok p \<longrightarrow> pending_ok q \<and> mset (pending_channels p) = mset (pending_channels q) + mset txs)"

inductive wmicro :: "worker \<Rightarrow> worker \<Rightarrow> bool" where
  m_engine: "(eng_inv (wk_engine w) \<longrightarrow> eng_inv e) \<Longrightarrow> wmicro w (w\<lparr>wk_engine := e\<rparr>)"
| m_script: "wmicro w (w\<lparr>wk_clock := a, wk_writes := b, wk_closes := c, wk_callbacks := d\<rparr>)"
| m_flags: "wmicro w (w\<lparr>wk_admission_open := a, wk_admission_transport_failed := b, wk_admission_needs_drain := c\<rparr>)"
| m_batch: "wmicro w (w\<lparr>wk_batches := wk_batches w @ [b]\<rparr>)"
| m_write: "wk_stream w \<Longrightarrow> wmicro w (w\<lparr>wk_written := wk_written w @ [d]\<rparr>)"
| m_settle: "settles (wk_pending w) p (map fst rs @ map fst ds) \<Longrightarrow>
    wmicro w (w\<lparr>wk_pending := p, wk_replies := wk_replies w @ rs, wk_dropped := wk_dropped w @ ds\<rparr>)"
| m_admission: "wmicro w (w\<lparr>wk_taken := wk_taken w @ map fst rs, wk_replies := wk_replies w @ rs\<rparr>)"

definition quietly :: "worker \<Rightarrow> worker \<Rightarrow> bool" where
  "quietly = wmicro\<^sup>*\<^sup>*"

lemma quietly_refl [simp, intro!]: "quietly w w"
  by (simp add: quietly_def)

lemma quietly_trans [trans]: "quietly w u \<Longrightarrow> quietly u t \<Longrightarrow> quietly w t"
  by (simp add: quietly_def)

lemma quietly_micro: "wmicro w t \<Longrightarrow> quietly w t"
  by (simp add: quietly_def)

lemma quietly_micro': "wmicro w u \<Longrightarrow> t = u \<Longrightarrow> quietly w t"
  by (simp add: quietly_def)

text \<open>What a relation must satisfy to hold across every quiet operation.\<close>

locale worker_frame =
  fixes R :: "worker \<Rightarrow> worker \<Rightarrow> bool"
  assumes refl: "R w w"
    and trans: "R w u \<Longrightarrow> R u t \<Longrightarrow> R w t"
    and micro: "wmicro w t \<Longrightarrow> R w t"
begin

lemma frame: "quietly w t \<Longrightarrow> R w t"
  unfolding quietly_def by (induction rule: rtranclp_induct) (auto intro: refl trans micro)

end

text \<open>The engine invariant.\<close>

interpretation engine_kept: worker_frame "\<lambda>w t. eng_inv (wk_engine w) \<longrightarrow> eng_inv (wk_engine t)"
  by unfold_locales (auto elim: wmicro.cases)

text \<open>Transport and connection state.\<close>

definition link :: "worker \<Rightarrow> bool \<times> ConnectionState \<times> ConnectFuture option" where
  "link w = (wk_stream w, wk_state w, wk_connecting w)"

interpretation link_kept: worker_frame "\<lambda>w t. link t = link w"
  by unfold_locales (auto simp: link_def elim: wmicro.cases)

text \<open>
  The accounts of the response channels: the channels received are those answered, pending,
  dropped, and the ones a command is still holding.
\<close>

definition accounted :: "channel multiset \<Rightarrow> worker \<Rightarrow> bool" where
  "accounted held w \<longleftrightarrow> pending_ok (wk_pending w) \<and> mset (wk_taken w) =
     mset (map fst (wk_replies w)) + mset (pending_channels (wk_pending w)) + mset (map fst (wk_dropped w)) + held"

interpretation accounts_kept: worker_frame "\<lambda>w t. accounted held w \<longrightarrow> accounted held t"
  by unfold_locales (auto simp: accounted_def settles_def elim!: wmicro.cases)

text \<open>The logs only grow.\<close>

definition logs_extend :: "worker \<Rightarrow> worker \<Rightarrow> bool" where
  "logs_extend w t \<longleftrightarrow> (\<exists>b. wk_batches t = wk_batches w @ b) \<and> (\<exists>r. wk_replies t = wk_replies w @ r) \<and>
     (\<exists>d. wk_written t = wk_written w @ d)"

interpretation logs: worker_frame logs_extend
proof
  fix w u t assume "logs_extend w u" and "logs_extend u t"
  then show "logs_extend w t" by (auto simp: logs_extend_def)
qed (auto simp: logs_extend_def elim!: wmicro.cases)

text \<open>Configuration and the intentional stop.\<close>

interpretation config_kept: worker_frame
  "\<lambda>w t. wk_config t = wk_config w \<and> wk_intentional_stop t = wk_intentional_stop w"
  by unfold_locales (auto elim: wmicro.cases)

section \<open>Quiet operations\<close>

definition keeps_engine :: "(Timestamp \<Rightarrow> MqttEngine \<Rightarrow> 'a eng) \<Rightarrow> bool" where
  "keeps_engine f \<longleftrightarrow> (\<forall>n s x t. f n s = Inr (x, t) \<longrightarrow> eng_inv s \<longrightarrow> eng_inv t)"

named_theorems keeps "engine operations that keep the engine invariant"

lemma keeps_host [keeps]:
  "keeps_engine host_handle_connection_lost" "keeps_engine host_reset_for_new_transport"
  "keeps_engine host_schedule_reconnect" "keeps_engine (host_handle_incoming data)" "keeps_engine host_handle_tick"
  "keeps_engine host_take_outgoing" "keeps_engine host_connect" "keeps_engine (host_publish c)"
  "keeps_engine (host_subscribe sc)" "keeps_engine (host_unsubscribe uc)"
  "keeps_engine (host_try_disconnect_with code ps)" "keeps_engine (host_auth code ps)" "keeps_engine host_send_ping"
  "keeps_engine (host_enqueue_packet p)" "keeps_engine (host_puback i code ps)" "keeps_engine (host_pubrec i code ps)"
  "keeps_engine (host_pubcomp i code ps)"
  unfolding keeps_engine_def by (blast intro: host_inv)+

lemma keeps_publish_command [keeps]: "keeps_engine (publish_command config stop c)"
  unfolding keeps_engine_def publish_command_def by (auto split: if_splits intro: host_publish_inv)

lemma quietly_clock: "read_clock w = (n, t) \<Longrightarrow> quietly w t"
  by (auto simp: read_clock_def split: list.splits
      intro!: quietly_micro' [OF m_script [where w = w and b = "wk_writes w" and c = "wk_closes w" and d = "wk_callbacks w"]])

lemma quietly_engine_op:
  assumes "engine_op f w = Inr (x, t)" and "keeps_engine f" shows "quietly w t"
proof -
  obtain n u where u: "read_clock w = (n, u)" by fastforce
  with assms(1) obtain e where e: "f n (wk_engine u) = Inr (x, e)" and t: "t = u\<lparr>wk_engine := e\<rparr>"
    by (auto simp: engine_op_def)
  have "quietly u t" unfolding t by (rule quietly_micro, rule m_engine) (use e assms(2) in \<open>auto simp: keeps_engine_def\<close>)
  then show ?thesis using quietly_clock [OF u] quietly_trans by blast
qed

lemma fold_send: "fold (\<lambda>x. send (f x) (g x)) xs w = w\<lparr>wk_replies := wk_replies w @ map (\<lambda>x. (f x, g x)) xs\<rparr>"
  by (induction xs arbitrary: w) (simp_all add: send_def)

lemma fold_drop: "fold (drop_channel cause) xs w = w\<lparr>wk_dropped := wk_dropped w @ map (\<lambda>tx. (tx, cause)) xs\<rparr>"
  by (induction xs arbitrary: w) (simp_all add: drop_channel_def)

lemma quietly_settle:
  assumes "settles (wk_pending w) p (map fst rs)"
    and "t = w\<lparr>wk_pending := p, wk_replies := wk_replies w @ rs\<rparr>"
  shows "quietly w t"
  by (rule quietly_micro' [OF m_settle [of w p rs "[]"]]) (use assms in auto)

lemma fail_eqs:
  "fail_connect e w = w\<lparr>wk_pending := (wk_pending w)\<lparr>pd_connect := []\<rparr>,
     wk_replies := wk_replies w @ map (\<lambda>tx. (tx, Reply_connect (Inl e))) (pd_connect (wk_pending w))\<rparr>"
  "fail_ping e w = w\<lparr>wk_pending := (wk_pending w)\<lparr>pd_ping := []\<rparr>,
     wk_replies := wk_replies w @ map (\<lambda>tx. (tx, Reply_ping (Inl e))) (pd_ping (wk_pending w))\<rparr>"
  "fail_publishes e w = w\<lparr>wk_pending := (wk_pending w)\<lparr>pd_publish := []\<rparr>,
     wk_replies := wk_replies w @ map (\<lambda>x. (snd x, Reply_publish (Inl e))) (pd_publish (wk_pending w))\<rparr>"
  "fail_subscribes e w = w\<lparr>wk_pending := (wk_pending w)\<lparr>pd_subscribe := []\<rparr>,
     wk_replies := wk_replies w @ map (\<lambda>x. (snd x, Reply_subscribe (Inl e))) (pd_subscribe (wk_pending w))\<rparr>"
  "fail_unsubscribes e w = w\<lparr>wk_pending := (wk_pending w)\<lparr>pd_unsubscribe := []\<rparr>,
     wk_replies := wk_replies w @ map (\<lambda>x. (snd x, Reply_unsubscribe (Inl e))) (pd_unsubscribe (wk_pending w))\<rparr>"
  by (simp_all add: fail_connect_def fail_ping_def fail_publishes_def fail_subscribes_def fail_unsubscribes_def
      Let_def case_prod_unfold fold_send [of "\<lambda>x. x", simplified] fold_send)

lemma quietly_fail:
  "quietly w (fail_connect e w)" "quietly w (fail_ping e w)" "quietly w (fail_publishes e w)"
  "quietly w (fail_subscribes e w)" "quietly w (fail_unsubscribes e w)"
  by (rule quietly_settle [OF _ fail_eqs(1)], simp add: settles_def pending_ok_def pending_channels_def comp_def)
    (rule quietly_settle [OF _ fail_eqs(2)], simp add: settles_def pending_ok_def pending_channels_def comp_def,
     rule quietly_settle [OF _ fail_eqs(3)], simp add: settles_def pending_ok_def pending_channels_def comp_def,
     rule quietly_settle [OF _ fail_eqs(4)], simp add: settles_def pending_ok_def pending_channels_def comp_def,
     rule quietly_settle [OF _ fail_eqs(5)], simp add: settles_def pending_ok_def pending_channels_def comp_def)

lemma quietly_fail_all: "quietly w (pending_fail_all e w)"
  unfolding pending_fail_all_def by (meson quietly_fail quietly_trans)

lemma answer_eqs:
  "answer_connects r w = w\<lparr>wk_pending := (wk_pending w)\<lparr>pd_connect := []\<rparr>,
     wk_replies := wk_replies w @ map (\<lambda>tx. (tx, Reply_connect (Inr r))) (pd_connect (wk_pending w))\<rparr>"
  "answer_pings b w = w\<lparr>wk_pending := (wk_pending w)\<lparr>pd_ping := []\<rparr>,
     wk_replies := wk_replies w @ map (\<lambda>tx. (tx, Reply_ping (Inr b))) (pd_ping (wk_pending w))\<rparr>"
  by (simp_all add: answer_connects_def answer_pings_def fold_send [of "\<lambda>x. x", simplified])

lemma mset_remove_key:
  "hm_ok m \<Longrightarrow> hm_get m i = Some tx \<Longrightarrow>
   image_mset snd (mset m) = add_mset tx (image_mset snd (mset (hm_remove i m)))"
  by (induction m) (auto split: if_splits simp: delete_id)

lemma quietly_answer:
  "quietly w (answer_connects r w)" "quietly w (answer_pings b w)" "quietly w (answer_publish i pr w)"
  "quietly w (answer_subscribe i sr w)" "quietly w (answer_unsubscribe i sr w)"
proof -
  show "quietly w (answer_connects r w)" "quietly w (answer_pings b w)"
    by (rule quietly_settle [OF _ answer_eqs(1)], simp add: settles_def pending_ok_def pending_channels_def comp_def)
      (rule quietly_settle [OF _ answer_eqs(2)], simp add: settles_def pending_ok_def pending_channels_def comp_def)
  show "quietly w (answer_publish i pr w)"
    by (auto simp: answer_publish_def send_def settles_def pending_ok_def pending_channels_def split: option.splits
        intro!: quietly_settle [where p = "(wk_pending w)\<lparr>pd_publish := hm_remove (the i) (pd_publish (wk_pending w))\<rparr>"
          and rs = "[(the (hm_get (pd_publish (wk_pending w)) (the i)), Reply_publish pr)]"]
        dest: mset_remove_key)
  show "quietly w (answer_subscribe i sr w)"
    by (auto simp: answer_subscribe_def send_def settles_def pending_ok_def pending_channels_def split: option.splits
        intro!: quietly_settle [where p = "(wk_pending w)\<lparr>pd_subscribe := hm_remove (the i) (pd_subscribe (wk_pending w))\<rparr>"
          and rs = "[(the (hm_get (pd_subscribe (wk_pending w)) (the i)), Reply_subscribe sr)]"]
        dest: mset_remove_key)
  show "quietly w (answer_unsubscribe i sr w)"
    by (auto simp: answer_unsubscribe_def send_def settles_def pending_ok_def pending_channels_def split: option.splits
        intro!: quietly_settle [where p = "(wk_pending w)\<lparr>pd_unsubscribe := hm_remove (the i) (pd_unsubscribe (wk_pending w))\<rparr>"
          and rs = "[(the (hm_get (pd_unsubscribe (wk_pending w)) (the i)), Reply_unsubscribe sr)]"]
        dest: mset_remove_key)
qed

lemma mset_filter_split: "mset xs = mset (filter (\<lambda>x. x \<notin> A) xs) + mset (filter (\<lambda>x. x \<in> A) xs)"
  by (induction xs) auto

lemma hm_ok_filter: "hm_ok m \<Longrightarrow> hm_ok (filter P m)"
  by (induction m) (auto simp: image_iff)

lemma map_snd_filter: "map snd (filter (\<lambda>(k, tx). tx \<notin> A) m) = filter (\<lambda>tx. tx \<notin> A) (map snd m)"
  by (induction m) auto

lemma prune_pending_eq:
  "prune_pending closed w = w\<lparr>wk_pending := prune closed (wk_pending w),
     wk_dropped := wk_dropped w @ map (\<lambda>tx. (tx, Receiver_gone))
       (filter (\<lambda>tx. tx \<in> set closed) (pending_channels (wk_pending w)))\<rparr>"
  by (simp add: prune_pending_def fold_drop)

lemma prune_channels: "pending_channels (prune closed p) = filter (\<lambda>tx. tx \<notin> set closed) (pending_channels p)"
  by (simp add: pending_channels_def prune_def map_snd_filter)

lemma pending_ok_prune: "pending_ok p \<Longrightarrow> pending_ok (prune closed p)"
  by (simp add: pending_ok_def prune_def hm_ok_filter)

lemma quietly_prune: "quietly w (prune_pending closed w)"
proof (rule quietly_micro' [OF m_settle [where rs = "[]"]])
  show "prune_pending closed w = w\<lparr>wk_pending := prune closed (wk_pending w), wk_replies := wk_replies w @ [],
     wk_dropped := wk_dropped w @ map (\<lambda>tx. (tx, Receiver_gone))
       (filter (\<lambda>tx. tx \<in> set closed) (pending_channels (wk_pending w)))\<rparr>"
    by (simp add: prune_pending_eq)
qed (use mset_filter_split [of "pending_channels (wk_pending w)" "set closed"] in
    \<open>auto simp: settles_def prune_channels comp_def pending_ok_prune\<close>)

lemma take_publish:
  "worker_publish c (take_channels txs w) = tryE (worker_publish c w) (\<lambda>(r, u). Inr (r, take_channels txs u))"
  by (auto simp: worker_publish_def take_channels_def engine_op_def read_clock_def tryE_def Let_def
      split: list.splits sum.splits prod.splits)

lemma quietly_publish: "worker_publish c w = Inr (r, t) \<Longrightarrow> quietly w t"
  by (auto simp: worker_publish_def split: if_splits intro: quietly_engine_op keeps)

lemma quietly_admit: "admit rq w = Inr (x, t) \<Longrightarrow> quietly w t"
proof -
  assume "admit rq w = Inr (x, t)"
  then obtain r u where u: "worker_publish (pa_command rq) w = Inr (r, u)"
      and t': "t = send (pa_channel rq) (Reply_admission r) (take_channels [pa_channel rq] u)"
    by (auto simp: admit_def take_publish)
  then have t: "t = u\<lparr>wk_taken := wk_taken u @ map fst [(pa_channel rq, Reply_admission r)],
                  wk_replies := wk_replies u @ [(pa_channel rq, Reply_admission r)]\<rparr>"
    by (simp add: take_channels_def send_def)
  show ?thesis using quietly_publish [OF u] quietly_micro [OF m_admission] unfolding t by (blast intro: quietly_trans)
qed

lemma quietly_flags:
  "quietly w (w\<lparr>wk_admission_open := a\<rparr>)" "quietly w (w\<lparr>wk_admission_transport_failed := b\<rparr>)"
  "quietly w (w\<lparr>wk_admission_needs_drain := c\<rparr>)"
  using m_flags [where w = w and a = a and b = "wk_admission_transport_failed w" and c = "wk_admission_needs_drain w"]
    m_flags [where w = w and a = "wk_admission_open w" and b = b and c = "wk_admission_needs_drain w"]
    m_flags [where w = w and a = "wk_admission_open w" and b = "wk_admission_transport_failed w" and c = c]
  by (auto dest!: quietly_micro)

lemma quietly_serve: "serve_admissions rqs w = Inr (x, t) \<Longrightarrow> quietly w t"
proof (induction rqs arbitrary: w)
  case (Cons rq rest)
  show ?case
  proof (cases "\<not> wk_admission_open w \<or> rq = None")
    case True
    then show ?thesis using Cons.prems by (auto split: if_splits intro: quietly_flags)
  next
    case False
    then obtain q y u where q: "admit q (w\<lparr>wk_admission_needs_drain := True\<rparr>) = Inr (y, u)"
      "serve_admissions rest u = Inr (x, t)"
      using Cons.prems by (auto split: if_splits)
    show ?thesis
      by (rule quietly_trans [OF quietly_flags(3)], rule quietly_trans [OF quietly_admit [OF q(1)]], rule Cons.IH [OF q(2)])
  qed
qed simp

lemma quietly_deliver: "deliver_batch b w = Inr (x, t) \<Longrightarrow> quietly w t"
proof -
  assume d: "deliver_batch b w = Inr (x, t)"
  have "quietly w (w\<lparr>wk_callbacks := cs, wk_batches := wk_batches w @ [b]\<rparr>)" for cs
  proof (rule quietly_trans)
    show "quietly w (w\<lparr>wk_callbacks := cs\<rparr>)"
      by (rule quietly_micro' [OF m_script [where w = w and a = "wk_clock w" and b = "wk_writes w" and c = "wk_closes w" and d = cs]]) simp
    show "quietly (w\<lparr>wk_callbacks := cs\<rparr>) (w\<lparr>wk_callbacks := cs, wk_batches := wk_batches w @ [b]\<rparr>)"
      by (rule quietly_micro' [OF m_batch [where b = b]]) simp
  qed
  then show ?thesis using d by (auto simp: deliver_batch_def split: list.splits intro: quietly_trans quietly_serve)
qed

lemma quietly_emit: "emit_batch b w = Inr (x, t) \<Longrightarrow> quietly w t" "emit_event e w = Inr (x, t) \<Longrightarrow> quietly w t"
  "emit_result r w = Inr (x, t) \<Longrightarrow> quietly w t"
  by (auto simp: emit_batch_def emit_event_def emit_result_def split: if_splits sum.splits intro: quietly_deliver)

lemma quietly_write_output: "write_output w = Inr (r, t) \<Longrightarrow> quietly w t"
proof -
  assume "write_output w = Inr (r, t)"
  then obtain d u where u: "engine_op host_take_outgoing w = Inr (d, u)"
    and t: "t = u \<or> (wk_stream u \<and> (\<exists>oc v. next_write u = (oc, v) \<and> t = v\<lparr>wk_written := wk_written v @ [d]\<rparr>))"
    by (auto simp: write_output_def split: if_splits prod.splits)
  have v: "quietly u v \<and> wk_stream v = wk_stream u" if "next_write u = (oc, v)" for oc v
    using that by (auto simp: next_write_def split: list.splits
        intro!: quietly_micro' [OF m_script [where a = "wk_clock u" and c = "wk_closes u" and d = "wk_callbacks u"]])
  have "quietly u t" using t
  proof
    assume "wk_stream u \<and> (\<exists>oc v. next_write u = (oc, v) \<and> t = v\<lparr>wk_written := wk_written v @ [d]\<rparr>)"
    then obtain oc v where "wk_stream v" "quietly u v" "t = v\<lparr>wk_written := wk_written v @ [d]\<rparr>" using v by blast
    then show ?thesis using quietly_micro [OF m_write [of v d]] quietly_trans by blast
  qed simp
  then show ?thesis using quietly_engine_op [OF u keeps_host(6)] quietly_trans by blast
qed

lemma quietly_take_events: "worker_take_events w = (es, t) \<Longrightarrow> quietly w t"
  by (auto simp: worker_take_events_def take_events_def intro!: quietly_micro m_engine)

lemma quietly_acknowledge: "worker_acknowledge k i code ps w = Inr (r, t) \<Longrightarrow> quietly w t"
  by (auto simp: worker_acknowledge_def split: if_splits intro: quietly_engine_op keeps)

lemma quietly_ping: "worker_ping w = Inr (r, t) \<Longrightarrow> quietly w t"
  by (auto simp: worker_ping_def split: if_splits intro: quietly_engine_op keeps)

lemmas quiet_ops = quietly_engine_op quietly_publish quietly_admit quietly_serve quietly_emit quietly_write_output
  quietly_take_events quietly_acknowledge quietly_ping

section \<open>Operations that change the connection\<close>

lemma quietly_link: "quietly w t \<Longrightarrow> link t = link w"
  by (rule link_kept.frame)

lemma quietly_fields:
  "quietly w t \<Longrightarrow> wk_stream t = wk_stream w" "quietly w t \<Longrightarrow> wk_state t = wk_state w"
  "quietly w t \<Longrightarrow> wk_connecting t = wk_connecting w"
  by (auto dest: quietly_link simp: link_def)

lemma quietly_fail_pending: "quietly w (fail_pending_operation op i e w)"
  by (cases op) (auto simp: fail_pending_operation_def intro: quietly_fail quietly_answer)

lemma next_close_fields:
  "next_close w = (x, t) \<Longrightarrow> quietly w t"
  by (auto simp: next_close_def split: list.splits
      intro!: quietly_micro' [OF m_script [where w = w and a = "wk_clock w" and b = "wk_writes w" and d = "wk_callbacks w"]])

text \<open>The states of \<open>disconnect\<close> after the engine accepted the DISCONNECT.\<close>

definition stopping :: "worker \<Rightarrow> worker" where
  "stopping w = pending_fail_all (OperationCancelled ''disconnect'')
     (w\<lparr>wk_state := CS_Disconnecting, wk_intentional_stop := True,
        wk_engine := set_reconnect False (wk_engine w), wk_connecting := None\<rparr>)"

lemma disconnect_cases:
  assumes "worker_disconnect code ps w = Inr (r, t)"
  obtains (refused) e where "engine_op (host_try_disconnect_with code ps) w = Inr (Inl e, t)" "r = Inl e"
  | (stopped) u x v wr cl y z where "engine_op (host_try_disconnect_with code ps) w = Inr (Inr (), u)"
      "write_output (stopping u) = Inr (wr, v)" "close_stream v = (cl, y)"
      "engine_op host_reset_for_new_transport y = Inr (x, z)" "r = tryE wr (\<lambda>_. cl)"
      "t = z\<lparr>wk_state := CS_Disconnected\<rparr> \<or> emit_event (TE_Disconnected (Some code)) (z\<lparr>wk_state := CS_Disconnected\<rparr>) = Inr ((), t)"
proof -
  obtain q u where q: "engine_op (host_try_disconnect_with code ps) w = Inr (q, u)"
    and rest: "(case q of Inl e \<Rightarrow> Inr (Inl e, u) | Inr _ \<Rightarrow> tryE (write_output (stopping u)) (\<lambda>(write, v).
            let (close, v) = close_stream v in
            tryE (engine_op host_reset_for_new_transport v) (\<lambda>(_, v).
            tryE (if wk_state u \<noteq> CS_Disconnected then emit_event (TE_Disconnected (Some code)) (v\<lparr>wk_state := CS_Disconnected\<rparr>)
                  else Inr ((), v\<lparr>wk_state := CS_Disconnected\<rparr>)) (\<lambda>(_, v).
            Inr (tryE write (\<lambda>_. close), v))))) = Inr (r, t)"
    using assms unfolding worker_disconnect_def tryE_eq_Inr split_paired_Ex prod.case Let_def stopping_def by blast
  show thesis
  proof (cases q)
    case (Inl e)
    then have "r = Inl e" "t = u" using rest by auto
    then show thesis using q Inl refused by blast
  next
    case (Inr _)
    then obtain wr v where v: "write_output (stopping u) = Inr (wr, v)"
      and v': "(let (close, v) = close_stream v in
            tryE (engine_op host_reset_for_new_transport v) (\<lambda>(_, v).
            tryE (if wk_state u \<noteq> CS_Disconnected then emit_event (TE_Disconnected (Some code)) (v\<lparr>wk_state := CS_Disconnected\<rparr>)
                  else Inr ((), v\<lparr>wk_state := CS_Disconnected\<rparr>)) (\<lambda>(_, v).
            Inr (tryE wr (\<lambda>_. close), v)))) = Inr (r, t)"
      using rest by auto
    obtain cl y where y: "close_stream v = (cl, y)" by fastforce
    with v' obtain x z where z: "engine_op host_reset_for_new_transport y = Inr (x, z)"
      and t: "tryE (if wk_state u \<noteq> CS_Disconnected then emit_event (TE_Disconnected (Some code)) (z\<lparr>wk_state := CS_Disconnected\<rparr>)
                  else Inr ((), z\<lparr>wk_state := CS_Disconnected\<rparr>)) (\<lambda>(_, v). Inr (tryE wr (\<lambda>_. cl), v)) = Inr (r, t)"
      by auto
    from t have "r = tryE wr (\<lambda>_. cl)" "t = z\<lparr>wk_state := CS_Disconnected\<rparr> \<or>
        emit_event (TE_Disconnected (Some code)) (z\<lparr>wk_state := CS_Disconnected\<rparr>) = Inr ((), t)"
      by (auto split: if_splits)
    then show thesis using stopped q Inr v y z by (metis (full_types) old.unit.exhaust)
  qed
qed

lemma cancel_admissions_eq:
  "cancel_admissions rqs w = w\<lparr>wk_replies := wk_replies w @
     map (\<lambda>rq. (pa_channel rq, Reply_admission (Inl (OperationCancelled ''publish admission during shutdown'')))) rqs\<rparr>"
  by (induction rqs arbitrary: w) (simp_all add: send_def)

lemma quietly_close_admissions: "quietly w (close_admissions rqs w)"
proof (rule quietly_trans [OF quietly_flags(1) [of w False]], rule quietly_micro')
  let ?rs = "map (\<lambda>rq. (pa_channel rq, Reply_admission (Inl (OperationCancelled ''publish admission during shutdown'')))) rqs"
  show "wmicro (w\<lparr>wk_admission_open := False\<rparr>) (w\<lparr>wk_admission_open := False,
     wk_taken := wk_taken w @ map fst ?rs, wk_replies := wk_replies w @ ?rs\<rparr>)"
    using m_admission [of "w\<lparr>wk_admission_open := False\<rparr>" ?rs] by simp
  show "close_admissions rqs w = w\<lparr>wk_admission_open := False, wk_taken := wk_taken w @ map fst ?rs,
      wk_replies := wk_replies w @ ?rs\<rparr>"
    by (simp add: close_admissions_def cancel_admissions_eq take_channels_def comp_def)
qed

text \<open>The rest of a shutdown whose DISCONNECT the engine refused.\<close>

definition dropping :: "MqttClientError \<Rightarrow> worker \<Rightarrow> worker" where
  "dropping e w = pending_fail_all e
     (w\<lparr>wk_engine := set_reconnect False (wk_engine w), wk_connecting := None, wk_stream := False\<rparr>)"

lemma shutdown_cases:
  assumes "shutdown rqs w = Inr (r, t)"
  obtains u where "worker_disconnect 0 [] (close_admissions rqs w) = Inr (r, u)"
    and "r = Inr () \<and> t = u \<or> (\<exists>e. r = Inl e \<and> (t = dropping e u \<or> emit_event (TE_Disconnected None) (dropping e u) = Inr ((), t)))"
proof -
  obtain q u where q: "worker_disconnect 0 [] (close_admissions rqs w) = Inr (q, u)"
    and t: "(case q of Inr _ \<Rightarrow> Inr (q, u)
     | Inl e \<Rightarrow> tryE (if wk_state (dropping e u) \<noteq> CS_Disconnected then emit_event (TE_Disconnected None) (dropping e u)
          else Inr ((), dropping e u)) (\<lambda>(_, w). Inr (q, w))) = Inr (r, t)"
    using assms unfolding shutdown_def tryE_eq_Inr split_paired_Ex prod.case Let_def dropping_def by blast
  show thesis
  proof (rule that)
    show "worker_disconnect 0 [] (close_admissions rqs w) = Inr (r, u)" using q t by (cases q) (auto split: if_splits)
  qed (use t in \<open>cases q, auto split: if_splits\<close>)
qed

text \<open>
  The changes of the connection: what a relation must satisfy to hold across every operation that
  does not open a transport on a command of the client.
\<close>

locale worker_link =
  fixes R :: "worker \<Rightarrow> worker \<Rightarrow> bool"
  assumes R_quietly: "quietly w t \<Longrightarrow> R w t"
    and R_trans: "R w u \<Longrightarrow> R u t \<Longrightarrow> R w t"
    and R_lose: "R w (w\<lparr>wk_stream := False, wk_connecting := None, wk_state := CS_Disconnected\<rparr>)"
    and R_mark: "R w (w\<lparr>wk_state := CS_Connected r\<rparr>)"
    and R_retry: "\<not> wk_intentional_stop w \<Longrightarrow> wk_state w = CS_Disconnected \<Longrightarrow> \<not> wk_stream w \<Longrightarrow>
      R w (w\<lparr>wk_state := CS_Connecting, wk_connecting := Some f\<rparr>)"
    and R_stop: "R w (w\<lparr>wk_state := CS_Disconnecting, wk_intentional_stop := True,
      wk_engine := set_reconnect False (wk_engine w), wk_connecting := None\<rparr>)"
    and R_close: "wk_state w \<noteq> CS_Disconnected \<Longrightarrow> R w (w\<lparr>wk_stream := False\<rparr>)"
    and R_stopped: "\<not> wk_stream w \<Longrightarrow> wk_connecting w = None \<Longrightarrow> R w (w\<lparr>wk_state := CS_Disconnected\<rparr>)"
    and R_settings: "R w (w\<lparr>wk_config := c, wk_engine := set_reconnect b (wk_engine w)\<rparr>)"
    and R_drop: "R w (w\<lparr>wk_engine := set_reconnect False (wk_engine w), wk_connecting := None, wk_stream := False\<rparr>)"
begin

lemma R_refl [simp, intro!]: "R w w"
  by (simp add: R_quietly)

lemma R_then_quietly: "R w u \<Longrightarrow> quietly u t \<Longrightarrow> R w t"
  by (blast intro: R_trans R_quietly)

lemma R_lost:
  assumes "record_connection_lost code w = Inr (es, t)"
  shows "R w t" and "wk_state t = CS_Disconnected"
proof -
  have "R w t \<and> wk_state t = CS_Disconnected"
  proof (cases "wk_state w = CS_Disconnected")
    case True
    then show ?thesis using assms by (simp add: record_connection_lost_def)
  next
    case False
    let ?w = "w\<lparr>wk_stream := False, wk_connecting := None, wk_state := CS_Disconnected\<rparr>"
    obtain x u tick where u: "engine_op host_handle_connection_lost ?w = Inr (x, u)"
      and t: "t = (let v = fail_ping connection_closed_error (fail_connect connection_closed_error u) in
        if no_reconnect tick v then pending_fail_all connection_closed_error v else v)"
      using assms False by (auto simp: record_connection_lost_def Let_def)
    have "R w ?w" by (rule R_lose)
    moreover have q: "quietly ?w t"
    proof -
      have "quietly ?w (fail_ping connection_closed_error (fail_connect connection_closed_error u))"
        by (rule quietly_trans [OF quietly_engine_op [OF u keeps_host(1)]], rule quietly_trans [OF quietly_fail(1)],
            rule quietly_fail(2))
      then show ?thesis unfolding t Let_def using quietly_trans [OF _ quietly_fail_all] by simp
    qed
    ultimately show ?thesis using R_then_quietly quietly_fields(2) [OF q] by simp
  qed
  then show "R w t" and "wk_state t = CS_Disconnected" by simp_all
qed

lemma R_transport_failed: "transport_failed e w = Inr (x, t) \<Longrightarrow> R w t"
  by (auto simp: transport_failed_def dest!: R_lost(1) quietly_emit(1)
      elim!: R_then_quietly intro: quietly_trans quietly_flags)

lemma R_with_lost: "with_lost es code w = Inr (x, t) \<Longrightarrow> R w t"
  by (auto simp: with_lost_def dest: R_lost(1))

lemma R_reconnect_needed: "reconnect_needed w = Inr (es, t) \<Longrightarrow> R w t"
  by (auto simp: reconnect_needed_def split: if_splits dest: R_lost(1) intro: R_retry)

lemma R_connected: "R w (answer_connects r (w\<lparr>wk_state := CS_Connected r\<rparr>))"
  by (rule R_then_quietly [OF R_mark quietly_answer(1)])

lemma R_dispatch_event: "dispatch_event ev b w = Inr (es, t) \<Longrightarrow> R w t"
  by (cases ev)
    (auto simp: dispatch_event_def Let_def split: if_splits
      intro: R_connected R_trans [OF R_connected R_with_lost] R_with_lost
        R_trans [OF R_quietly [OF quietly_fail_pending] R_with_lost] R_reconnect_needed
        R_quietly quietly_answer quietly_fail quietly_fail_pending)

lemma R_dispatch_loop: "dispatch_loop evs b w = Inr (x, t) \<Longrightarrow> R w t"
proof (induction evs arbitrary: b w)
  case (Cons ev evs)
  then obtain es u where "dispatch_event ev (case evs of [] \<Rightarrow> False | e # _ \<Rightarrow> is_message e) w = Inr (es, u)"
    and "dispatch_loop evs (b @ es) u = Inr (x, t)" by auto
  then show ?case using R_dispatch_event Cons.IH R_trans by blast
qed simp

lemma R_dispatch_events: "dispatch_events evs w = Inr (x, t) \<Longrightarrow> R w t"
  by (auto simp: dispatch_events_def split: if_splits dest!: R_dispatch_loop quietly_emit(1)
      intro: R_then_quietly)

lemma R_handle_outgoing:
  assumes "handle_outgoing w = Inr (r, t)" shows "R w t"
proof -
  obtain r u es v x where u: "write_output (w\<lparr>wk_admission_needs_drain := False\<rparr>) = Inr (r, u)"
    and v: "worker_take_events (u\<lparr>wk_admission_transport_failed := is_err r\<rparr>) = (es, v)"
    and t: "dispatch_events es v = Inr (x, t)"
    using assms by (auto simp: handle_outgoing_def split: prod.splits)
  have "quietly w v"
    using quietly_flags(3) quietly_write_output [OF u] quietly_flags(2) quietly_take_events [OF v]
    by (meson quietly_trans)
  then show ?thesis using R_quietly R_dispatch_events [OF t] R_trans by blast
qed

lemma R_close_stream:
  assumes "close_stream w = (r, t)" and "wk_state w \<noteq> CS_Disconnected"
  shows "R w t \<and> \<not> wk_stream t \<and> wk_connecting t = wk_connecting w \<and> wk_state t = wk_state w"
proof (cases "wk_stream w")
  case True
  then obtain oc u where u: "next_close (w\<lparr>wk_stream := False\<rparr>) = (oc, u)" and t: "t = u"
    using assms(1) by (auto simp: close_stream_def split: prod.splits)
  have "R w (w\<lparr>wk_stream := False\<rparr>)" using assms(2) by (rule R_close)
  then show ?thesis
    using next_close_fields [OF u] R_then_quietly quietly_fields [OF next_close_fields [OF u]] t by simp
next
  case False
  then show ?thesis using assms(1) by (simp add: close_stream_def)
qed

lemma R_stopping: "R w (stopping w) \<and> wk_connecting (stopping w) = None \<and> wk_state (stopping w) = CS_Disconnecting"
  unfolding stopping_def
  using quietly_fields [OF quietly_fail_all] by (auto intro!: R_then_quietly [OF R_stop quietly_fail_all])

lemma R_disconnect:
  assumes "worker_disconnect code ps w = Inr (r, t)" shows "R w t"
  using assms
proof (cases rule: disconnect_cases)
  case (refused e)
  then show ?thesis by (blast intro: R_quietly quietly_engine_op keeps)
next
  case (stopped u x v wr cl y z)
  have u: "R w (stopping u)"
    using quietly_engine_op [OF stopped(1) keeps_host(11)] R_stopping R_quietly R_trans by blast
  note v = quietly_write_output [OF stopped(2)]
  have "wk_state v \<noteq> CS_Disconnected" "wk_connecting v = None"
    using quietly_fields [OF v] R_stopping [of u] by simp_all
  then have y: "R v y" "\<not> wk_stream y" "wk_connecting y = None"
    using R_close_stream [OF stopped(3)] by simp_all
  note z = quietly_engine_op [OF stopped(4) keeps_host(2)]
  have "R z (z\<lparr>wk_state := CS_Disconnected\<rparr>)"
    using quietly_fields [OF z] y by (simp add: R_stopped)
  then have "R w (z\<lparr>wk_state := CS_Disconnected\<rparr>)"
    using u R_quietly [OF v] y(1) R_quietly [OF z] by (blast intro: R_trans)
  then show ?thesis using stopped(6) R_then_quietly quietly_emit(2) by blast
qed

lemma R_plain: "plain r = Inr (x, t) \<Longrightarrow> (\<And>q u. r = Inr (q, u) \<Longrightarrow> R w u) \<Longrightarrow> R w t"
  by (auto simp: plain_def intro: R_then_quietly quietly_emit)

lemma R_send_packet: "send_packet p w = Inr (r, t) \<Longrightarrow> R w t"
  by (cases p) (auto simp: send_packet_def intro: R_disconnect R_quietly quietly_engine_op keeps)

lemma R_set_auto_reconnect: "set_auto_reconnect b w = Inr (x, t) \<Longrightarrow> R w t"
proof -
  assume a: "set_auto_reconnect b w = Inr (x, t)"
  let ?w = "w\<lparr>wk_config := (wk_config w)\<lparr>tc_auto_reconnect := b\<rparr>,
               wk_engine := set_reconnect (b \<and> \<not> wk_intentional_stop w) (wk_engine w)\<rparr>"
  have "R w ?w" by (rule R_settings)
  moreover have "quietly ?w t"
    using a by (auto simp: set_auto_reconnect_def Let_def split: if_splits
        intro: quietly_fail_all quietly_engine_op [OF _ keeps_host(3)])
  ultimately show ?thesis by (rule R_then_quietly)
qed

lemma R_dropping: "R w (dropping e w)"
  unfolding dropping_def
  by (rule R_then_quietly [OF R_drop quietly_fail_all])

lemma R_shutdown: "shutdown rqs w = Inr (r, t) \<Longrightarrow> R w t"
proof (erule shutdown_cases)
  fix u assume u: "worker_disconnect 0 [] (close_admissions rqs w) = Inr (r, u)"
    and t: "r = Inr () \<and> t = u \<or> (\<exists>e. r = Inl e \<and> (t = dropping e u \<or> emit_event (TE_Disconnected None) (dropping e u) = Inr ((), t)))"
  have "R w u" using R_trans [OF R_quietly [OF quietly_close_admissions] R_disconnect [OF u]] .
  then show "R w t" using t R_dropping R_trans R_then_quietly quietly_emit(2) by metis
qed

lemma R_read_transport: "read_transport oc w = Inr (x, t) \<Longrightarrow> R w t"
  by (auto simp: read_transport_def split: read_outcome.splits if_splits intro: R_transport_failed
      R_trans [OF R_quietly [OF quietly_engine_op [OF _ keeps_host(4)]] R_dispatch_events])

lemma R_finish_round: "finish_round exit w = Inr (r, t) \<Longrightarrow> R w t"
  by (auto simp: finish_round_def split: option.splits sum.splits
      intro: R_handle_outgoing R_trans [OF R_handle_outgoing R_transport_failed])

end

section \<open>The invariant\<close>

text \<open>There is no transport in the disconnected state, and never a second one being opened.\<close>

definition link_ok :: "worker \<Rightarrow> bool" where
  "link_ok w \<longleftrightarrow> (wk_state w = CS_Disconnected \<longrightarrow> \<not> wk_stream w \<and> wk_connecting w = None) \<and>
     (wk_connecting w \<noteq> None \<longrightarrow> \<not> wk_stream w)"

definition worker_inv :: "channel multiset \<Rightarrow> worker \<Rightarrow> bool" where
  "worker_inv held w \<longleftrightarrow> eng_inv (wk_engine w) \<and> accounted held w \<and> link_ok w"

definition sound :: "worker \<Rightarrow> worker \<Rightarrow> bool" where
  "sound w t \<longleftrightarrow> (\<forall>held. worker_inv held w \<longrightarrow> worker_inv held t)"

lemma sound_inv: "sound w t \<Longrightarrow> worker_inv held w \<Longrightarrow> worker_inv held t"
  by (simp add: sound_def)

lemma accounted_fields [simp]:
  "accounted h (w\<lparr>wk_stream := a\<rparr>) = accounted h w" "accounted h (w\<lparr>wk_state := b\<rparr>) = accounted h w"
  "accounted h (w\<lparr>wk_connecting := c\<rparr>) = accounted h w" "accounted h (w\<lparr>wk_intentional_stop := d\<rparr>) = accounted h w"
  "accounted h (w\<lparr>wk_engine := e\<rparr>) = accounted h w" "accounted h (w\<lparr>wk_config := f\<rparr>) = accounted h w"
  by (simp_all add: accounted_def)

lemma sound_trans [trans]: "sound w u \<Longrightarrow> sound u t \<Longrightarrow> sound w t"
  by (auto simp: sound_def)

lemma quietly_sound: "quietly w t \<Longrightarrow> sound w t"
  using engine_kept.frame [of w t] accounts_kept.frame [of w t] quietly_fields [of w t]
  by (auto simp: sound_def worker_inv_def link_ok_def)

interpretation sound: worker_link sound
proof
  show "sound w t" if "quietly w t" for w t using that by (rule quietly_sound)
qed (auto simp: sound_def worker_inv_def link_ok_def eng_inv_inert_calls)

lemma sound_start_connect: "sound w (start_connect w)"
  by (auto simp: sound_def start_connect_def Let_def worker_inv_def link_ok_def eng_inv_inert_calls)

lemma sound_open_transport:
  assumes "open_transport nodelay w = Inr (r, t)" and "wk_connecting w = None" and "wk_state w \<noteq> CS_Disconnected"
  shows "sound w t"
proof -
  obtain y u z v where u: "quietly w u" and v: "engine_op host_reset_for_new_transport (u\<lparr>wk_stream := True\<rparr>) = Inr (z, v)"
    and t: "engine_op host_connect v = Inr (r, t)"
    using assms(1) unfolding open_transport_def
    by (auto split: bool.splits option.splits dest: quietly_emit(2))
  have "sound u (u\<lparr>wk_stream := True\<rparr>)"
    using quietly_fields [OF u] assms(2,3) by (auto simp: sound_def worker_inv_def link_ok_def)
  then show ?thesis
    using quietly_sound [OF u] quietly_engine_op [OF v keeps_host(2)] quietly_engine_op [OF t keeps_host(7)]
    by (meson sound_trans quietly_sound)
qed

lemma sound_transport_connected:
  assumes "transport_connected result nodelay w = Inr (x, t)" and "wk_connecting w = None"
    and "wk_state w \<noteq> CS_Disconnected"
  shows "sound w t"
proof -
  obtain r u where r: "(case result of Inr _ \<Rightarrow> open_transport nodelay w | Inl e \<Rightarrow> Inr (Inl e, w)) = Inr (r, u)"
    and t: "(case r of Inr _ \<Rightarrow> Inr ((), u) | Inl e \<Rightarrow> transport_failed e (fail_connect e u)) = Inr (x, t)"
    using assms(1) unfolding transport_connected_def tryE_eq_Inr split_paired_Ex prod.case by blast
  have u: "sound w u" using r sound_open_transport [OF _ assms(2,3)] by (cases result) auto
  show ?thesis
  proof (cases r)
    case (Inl e)
    then show ?thesis using t sound.R_then_quietly [OF u quietly_fail(1)] sound.R_transport_failed sound_trans by fastforce
  qed (use u t in auto)
qed

section \<open>Commands\<close>

text \<open>A command holds its channel until it answers, registers or drops it.\<close>

lemma held_take: "worker_inv h w \<Longrightarrow> worker_inv (add_mset tx h) (take_channels [tx] w)"
  by (simp add: worker_inv_def accounted_def take_channels_def link_ok_def)

lemma held_send: "worker_inv (add_mset tx h) w \<Longrightarrow> worker_inv h (send tx r w)"
  by (simp add: worker_inv_def accounted_def send_def link_ok_def)

lemma held_drop: "worker_inv (add_mset tx h) w \<Longrightarrow> worker_inv h (drop_channel cause tx w)"
  by (simp add: worker_inv_def accounted_def drop_channel_def link_ok_def)

lemma mset_insert_key:
  assumes "hm_ok m"
  shows "image_mset snd (mset (hm_insert i tx m)) + (case hm_get m i of None \<Rightarrow> {#} | Some old \<Rightarrow> {#old#}) =
    add_mset tx (image_mset snd (mset m))"
  using assms by (induction m) (auto split: option.splits simp: map_of_eq_None_iff)

lemma held_insert:
  assumes "worker_inv (add_mset tx h) w"
  shows "worker_inv h (insert_publish i tx w)" "worker_inv h (insert_subscribe i tx w)" "worker_inv h (insert_unsubscribe i tx w)"
proof -
  have p: "pending_ok (wk_pending w)" using assms by (simp add: worker_inv_def accounted_def)
  show "worker_inv h (insert_publish i tx w)"
    using assms p mset_insert_key [of "pd_publish (wk_pending w)" i tx]
    by (auto simp: worker_inv_def accounted_def insert_publish_def displace_def drop_channel_def link_ok_def
        pending_ok_def pending_channels_def ac_simps split: option.splits)
  show "worker_inv h (insert_subscribe i tx w)"
    using assms p mset_insert_key [of "pd_subscribe (wk_pending w)" i tx]
    by (auto simp: worker_inv_def accounted_def insert_subscribe_def displace_def drop_channel_def link_ok_def
        pending_ok_def pending_channels_def ac_simps split: option.splits)
  show "worker_inv h (insert_unsubscribe i tx w)"
    using assms p mset_insert_key [of "pd_unsubscribe (wk_pending w)" i tx]
    by (auto simp: worker_inv_def accounted_def insert_unsubscribe_def displace_def drop_channel_def link_ok_def
        pending_ok_def pending_channels_def ac_simps split: option.splits)
qed

lemma held_push:
  assumes "worker_inv (add_mset tx h) w"
  shows "worker_inv h (set_pending (\<lambda>p. p\<lparr>pd_connect := pd_connect p @ [tx]\<rparr>) w)"
    "worker_inv h (set_pending (\<lambda>p. p\<lparr>pd_ping := pd_ping p @ [tx]\<rparr>) w)"
  using assms by (simp_all add: worker_inv_def accounted_def link_ok_def pending_ok_def pending_channels_def ac_simps)

lemma quietly_inv: "quietly w t \<Longrightarrow> worker_inv h w \<Longrightarrow> worker_inv h t"
  using quietly_sound sound_inv by blast

text \<open>A held channel is answered and the error reported.\<close>

lemma held_report:
  "emit_event e (send tx r w) = Inr (x, t) \<Longrightarrow> worker_inv (add_mset tx h) w \<Longrightarrow> worker_inv h t"
  "emit_result q (send tx r w) = Inr (x, t) \<Longrightarrow> worker_inv (add_mset tx h) w \<Longrightarrow> worker_inv h t"
  by (blast intro: quietly_inv quietly_emit held_send)+

lemma held_register:
  assumes "register add failed tx r w = Inr (x, t)" and "worker_inv (add_mset tx h) w"
    and "\<And>i. worker_inv h (add i w)"
  shows "worker_inv h t"
  using assms by (auto simp: register_def split: sum.splits intro: held_report)

lemma held_publish_sync:
  assumes "worker_publish_sync c tx w = Inr (x, t)" and "worker_inv (add_mset tx h) w" shows "worker_inv h t"
proof -
  obtain r u where u: "worker_publish c w = Inr (r, u)"
    and t: "(case r of Inr (Some i) \<Rightarrow> Inr ((), insert_publish i tx u)
       | Inr None \<Rightarrow> Inr ((), send tx (Reply_publish (Inr qos0_result)) u)
       | Inl e \<Rightarrow> emit_event (TE_Error e) (send tx (Reply_publish (Inl e)) u)) = Inr (x, t)"
    using assms(1) unfolding worker_publish_sync_def tryE_eq_Inr split_paired_Ex prod.case by blast
  have "worker_inv (add_mset tx h) u" using quietly_inv [OF quietly_publish [OF u] assms(2)] .
  then show ?thesis using t by (auto split: sum.splits option.splits intro: held_report held_insert held_send)
qed

lemma held_ping_sync:
  assumes "worker_ping_sync tx w = Inr (x, t)" and "worker_inv (add_mset tx h) w" shows "worker_inv h t"
proof (cases "pd_ping (wk_pending w) = []")
  case True
  then obtain r u where u: "worker_ping w = Inr (r, u)"
    and t: "(case r of Inl e \<Rightarrow> emit_event (TE_Error e) (send tx (Reply_ping (Inl e)) u)
       | Inr _ \<Rightarrow> Inr ((), set_pending (\<lambda>p. p\<lparr>pd_ping := pd_ping p @ [tx]\<rparr>) u)) = Inr (x, t)"
    using assms(1) unfolding worker_ping_sync_def Let_def if_P [OF True] tryE_eq_Inr split_paired_Ex prod.case by blast
  have "worker_inv (add_mset tx h) u" using quietly_inv [OF quietly_ping [OF u] assms(2)] .
  then show ?thesis using t by (auto split: sum.splits intro: held_report held_push)
next
  case False
  then show ?thesis using assms held_push(2) [OF assms(2)] by (auto simp: worker_ping_sync_def)
qed

lemma plain_op_inv:
  "plain (engine_op f w) = Inr (x, t) \<Longrightarrow> keeps_engine f \<Longrightarrow> worker_inv h w \<Longrightarrow> worker_inv h t"
  by (rule sound_inv [OF sound.R_plain]) (auto intro: quietly_sound quietly_engine_op)

lemma command_inv:
  assumes "handle_command gone c w = Inr (x, t)" and w: "worker_inv h w" shows "worker_inv h t"
proof (cases c)
  case Cmd_Connect
  then show ?thesis using assms sound_inv [OF sound_start_connect] by (auto simp: handle_command_def)
next
  case (Cmd_ConnectSync tx)
  have i: "worker_inv (add_mset tx h) (take_channels [tx] w)" using w by (rule held_take)
  show ?thesis
    using assms(1) Cmd_ConnectSync held_send [OF i] sound_inv [OF sound_start_connect held_push(1) [OF i]]
    by (auto simp: handle_command_def Let_def split: ConnectionState.splits)
next
  case (Cmd_Publish d)
  then show ?thesis
    using assms(1) sound_inv [OF sound.R_plain w] quietly_publish quietly_sound by (fastforce simp: handle_command_def)
next
  case (Cmd_PublishSync d tx)
  then show ?thesis using assms(1) held_publish_sync [OF _ held_take [OF w]] by (simp add: handle_command_def)
next
  case (Cmd_SubscribeSync d tx)
  have i: "worker_inv (add_mset tx h) (take_channels [tx] w)" using w by (rule held_take)
  show ?thesis
  proof (cases "tx \<in> set gone")
    case True
    then show ?thesis using assms(1) Cmd_SubscribeSync held_drop [OF i] by (auto simp: handle_command_def)
  next
    case False
    then obtain r u where u: "engine_op (host_subscribe d) (take_channels [tx] w) = Inr (r, u)"
      and t: "register (\<lambda>i. insert_subscribe i tx) (\<lambda>e. Reply_subscribe (Inl e)) tx r u = Inr (x, t)"
      using assms(1) Cmd_SubscribeSync by (auto simp: handle_command_def Let_def)
    show ?thesis
      using held_register [OF t] held_insert(2) quietly_inv [OF quietly_engine_op [OF u keeps_host(9)] i] by blast
  qed
next
  case (Cmd_UnsubscribeSync d tx)
  then obtain r u where u: "engine_op (host_unsubscribe d) (take_channels [tx] w) = Inr (r, u)"
    and t: "register (\<lambda>i. insert_unsubscribe i tx) (\<lambda>e. Reply_unsubscribe (Inl e)) tx r u = Inr (x, t)"
    using assms(1) by (auto simp: handle_command_def)
  show ?thesis
    using held_register [OF t] held_insert(3) quietly_inv [OF quietly_engine_op [OF u keeps_host(10)] held_take [OF w]] by blast
next
  case Cmd_Ping
  then show ?thesis
    using assms(1) sound_inv [OF sound.R_plain w] quietly_ping quietly_sound by (fastforce simp: handle_command_def)
next
  case (Cmd_PingSync tx)
  then show ?thesis using assms(1) held_ping_sync [OF _ held_take [OF w]] by (simp add: handle_command_def)
next
  case (Cmd_Acknowledge k i code ps tx)
  then obtain r u where u: "worker_acknowledge k i code ps (take_channels [tx] w) = Inr (r, u)"
    and t: "emit_result r (send tx (Reply_done r) u) = Inr (x, t)"
    using assms(1) by (auto simp: handle_command_def)
  show ?thesis using held_report(2) [OF t] quietly_inv [OF quietly_acknowledge [OF u] held_take [OF w]] .
next
  case (Cmd_Disconnect code ps response)
  let ?w = "case response of None \<Rightarrow> w | Some tx \<Rightarrow> take_channels [tx] w"
  obtain r u where u: "worker_disconnect code ps ?w = Inr (r, u)"
    and t: "emit_result r (case response of None \<Rightarrow> u | Some tx \<Rightarrow> send tx (Reply_done r) u) = Inr (x, t)"
    using assms(1) Cmd_Disconnect by (auto simp: handle_command_def)
  note i = sound_inv [OF sound.R_disconnect [OF u]]
  show ?thesis
  proof (cases response)
    case None
    then show ?thesis using t i [of h] w by (auto intro: quietly_inv [OF quietly_emit(3)])
  next
    case (Some tx)
    then show ?thesis using t i [of "add_mset tx h"] held_take [OF w] by (auto intro: held_report(2))
  qed
next
  case (Cmd_SetAutoReconnect b)
  then show ?thesis using assms sound_inv [OF sound.R_set_auto_reconnect] by (simp add: handle_command_def)
next
  case (Cmd_SendPacket p)
  then show ?thesis
    using assms(1) sound_inv [OF sound.R_plain w] sound.R_send_packet by (fastforce simp: handle_command_def)
qed (use assms in \<open>auto simp: handle_command_def intro: plain_op_inv keeps_host\<close>)

section \<open>The run loop\<close>

lemma wake_inv:
  assumes "handle_wake rd w = Inr (exit, t)" and w: "worker_inv h w" shows "worker_inv h t"
proof (cases "rd_wake rd")
  case (Wake_command c rqs)
  then show ?thesis
    using assms(1) sound_inv [OF sound.R_shutdown w] command_inv [OF _ w]
    by (auto simp: handle_wake_def Let_def split: if_splits)
next
  case (Wake_admission rq)
  then show ?thesis
    using assms(1) quietly_inv [OF quietly_admit w] quietly_inv [OF quietly_flags(1) w]
    by (auto simp: handle_wake_def Let_def split: option.splits)
next
  case (Wake_transport a nodelay)
  show ?thesis
  proof (cases "wk_connecting w")
    case None
    then show ?thesis using assms Wake_transport by (auto simp: handle_wake_def)
  next
    case (Some f)
    then obtain x where t: "transport_connected (connect_outcome f a) nodelay (w\<lparr>wk_connecting := None\<rparr>) = Inr (x, t)"
      using assms(1) Wake_transport by (auto simp: handle_wake_def)
    have "wk_state w \<noteq> CS_Disconnected" using w Some by (auto simp: worker_inv_def link_ok_def)
    then have "sound (w\<lparr>wk_connecting := None\<rparr>) t" using sound_transport_connected [OF t] by simp
    moreover have "worker_inv h (w\<lparr>wk_connecting := None\<rparr>)" using w by (auto simp: worker_inv_def link_ok_def)
    ultimately show ?thesis by (rule sound_inv)
  qed
next
  case (Wake_read oc)
  then show ?thesis using assms(1) sound_inv [OF sound.R_read_transport w] by (auto simp: handle_wake_def)
next
  case Wake_deadline
  then show ?thesis
    using assms(1) sound_inv [OF sound_trans [OF quietly_sound [OF quietly_engine_op [OF _ keeps_host(5)]] sound.R_dispatch_events] w]
    by (auto simp: handle_wake_def)
qed (use assms in \<open>auto simp: handle_wake_def\<close>)

lemma begin_round_quietly: "quietly w (begin_round rd w)"
  unfolding begin_round_def by (rule quietly_trans [OF quietly_micro [OF m_script] quietly_prune])

lemma round_inv:
  assumes "run_round rd w = Inr (exit, t)" and "worker_inv h w" shows "worker_inv h t"
proof -
  obtain q u where u: "handle_wake rd (begin_round rd w) = Inr (q, u)" and t: "finish_round q u = Inr (exit, t)"
    using assms(1) by (auto simp: run_round_def Let_def)
  show ?thesis
    using sound_inv [OF sound.R_finish_round [OF t]] wake_inv [OF u] quietly_inv [OF begin_round_quietly assms(2)] by blast
qed

lemma run_inv: "run rds w = Inr (exit, t) \<Longrightarrow> worker_inv h w \<Longrightarrow> worker_inv h t"
proof (induction rds arbitrary: w)
  case (Cons rd rds)
  then obtain q u where u: "run_round rd w = Inr (q, u)"
    and t: "(case q of None \<Rightarrow> run rds u | Some r \<Rightarrow> Inr (Some r, u)) = Inr (exit, t)" by auto
  show ?case using t Cons.IH round_inv [OF u Cons.prems(2)] by (cases q) auto
qed simp

lemma worker_new_inv:
  assumes "try_new_at opts now = Inr e" shows "worker_inv {#} (worker_new ft backend opts config now)"
proof -
  have "e = MqttEngine_new_at opts now" using assms by (auto simp: try_new_at_def split: if_splits)
  then show ?thesis
    using eng_inv_new [OF assms]
    by (simp add: worker_inv_def worker_new_def host_new_def link_ok_def accounted_def pending_ok_def
        Pending_default_def pending_channels_def)
qed

lemma worker_reachable_inv: "worker_reachable w \<Longrightarrow> worker_inv {#} w"
  by (induction rule: worker_reachable.induct) (auto intro: worker_new_inv round_inv)

end
