(* ===== verification/Async_Behaviour.thy ===== *)
theory Async_Behaviour
  imports Async_Invariant
begin

text \<open>
  What the asynchronous worker does over whole runs: after an accepted disconnect it stays silent
  until the client connects again, a shutdown settles every waiter, and the handler sees every
  result and message of the engine once and in order.
\<close>

section \<open>Silence after a disconnect\<close>

definition halted :: "worker \<Rightarrow> bool" where
  "halted w \<longleftrightarrow> wk_intentional_stop w \<and> \<not> wk_stream w \<and> wk_connecting w = None"

definition halts :: "worker \<Rightarrow> worker \<Rightarrow> bool" where
  "halts w t \<longleftrightarrow> (halted w \<longrightarrow> halted t \<and> wk_written t = wk_written w)"

text \<open>Nothing is written without a transport.\<close>

interpretation unwritten: worker_frame
  "\<lambda>w t. wk_stream t = wk_stream w \<and> (\<not> wk_stream w \<longrightarrow> wk_written t = wk_written w)"
  by unfold_locales (auto elim: wmicro.cases)

lemma halts_refl [simp, intro!]: "halts w w"
  by (simp add: halts_def)

lemma halts_trans [trans]: "halts w u \<Longrightarrow> halts u t \<Longrightarrow> halts w t"
  by (auto simp: halts_def)

lemma quietly_halts: "quietly w t \<Longrightarrow> halts w t"
  using unwritten.frame [of w t] config_kept.frame [of w t] quietly_fields [of w t]
  by (auto simp: halts_def halted_def)

interpretation halt: worker_link halts
proof
  show "halts w t" if "quietly w t" for w t using that by (rule quietly_halts)
qed (auto simp: halts_def halted_def)

text \<open>The bookkeeping of the response channels.\<close>

lemma halts_channels [simp]:
  "halts w (take_channels txs w)" "halts w (send tx r w)" "halts w (drop_channel cause tx w)"
  "halts w (insert_publish i tx w)" "halts w (insert_subscribe i tx w)" "halts w (insert_unsubscribe i tx w)"
  "halts w (w\<lparr>wk_pending := p\<rparr>)"
  by (auto simp: halts_def halted_def take_channels_def send_def drop_channel_def insert_publish_def
      insert_subscribe_def insert_unsubscribe_def displace_def split: option.splits)

lemma halts_send_report:
  "emit_event e (send tx r w) = Inr (x, t) \<Longrightarrow> halts w t" "emit_result q (send tx r w) = Inr (x, t) \<Longrightarrow> halts w t"
  by (rule halts_trans [OF halts_channels(2) quietly_halts], erule quietly_emit)+

lemma halts_register:
  assumes "register add failed tx r w = Inr (x, t)" and "\<And>i. halts w (add i w)" shows "halts w t"
  using assms by (auto simp: register_def split: sum.splits intro: halts_send_report)

lemma halts_publish_sync: "worker_publish_sync c tx w = Inr (x, t) \<Longrightarrow> halts w t"
proof -
  assume "worker_publish_sync c tx w = Inr (x, t)"
  then obtain r u where u: "worker_publish c w = Inr (r, u)"
    and t: "(case r of Inr (Some i) \<Rightarrow> Inr ((), insert_publish i tx u)
       | Inr None \<Rightarrow> Inr ((), send tx (Reply_publish (Inr qos0_result)) u)
       | Inl e \<Rightarrow> emit_event (TE_Error e) (send tx (Reply_publish (Inl e)) u)) = Inr (x, t)"
    unfolding worker_publish_sync_def tryE_eq_Inr split_paired_Ex prod.case by blast
  have "halts u t" using t by (auto split: sum.splits option.splits intro: halts_send_report)
  then show ?thesis using quietly_halts [OF quietly_publish [OF u]] halts_trans by blast
qed

lemma halts_ping_sync: "worker_ping_sync tx w = Inr (x, t) \<Longrightarrow> halts w t"
proof (cases "pd_ping (wk_pending w) = []")
  case True
  moreover assume "worker_ping_sync tx w = Inr (x, t)"
  ultimately obtain r u where u: "worker_ping w = Inr (r, u)"
    and t: "(case r of Inl e \<Rightarrow> emit_event (TE_Error e) (send tx (Reply_ping (Inl e)) u)
       | Inr _ \<Rightarrow> Inr ((), set_pending (\<lambda>p. p\<lparr>pd_ping := pd_ping p @ [tx]\<rparr>) u)) = Inr (x, t)"
    unfolding worker_ping_sync_def Let_def if_P [OF True] tryE_eq_Inr split_paired_Ex prod.case by blast
  have "halts u t" using t by (auto split: sum.splits intro: halts_send_report)
  then show ?thesis using quietly_halts [OF quietly_ping [OF u]] halts_trans by blast
qed (auto simp: worker_ping_sync_def)

definition connects :: "TokioClientCommand \<Rightarrow> bool" where
  "connects c = (case c of Cmd_Connect \<Rightarrow> True | Cmd_ConnectSync _ \<Rightarrow> True | _ \<Rightarrow> False)"

lemma halts_op: "engine_op f w = Inr (r, t) \<Longrightarrow> keeps_engine f \<Longrightarrow> halts w t"
  by (rule quietly_halts [OF quietly_engine_op])

lemma halts_take_op:
  "engine_op f (take_channels txs w) = Inr (r, t) \<Longrightarrow> keeps_engine f \<Longrightarrow> halts w t"
  by (rule halts_trans [OF halts_channels(1) halts_op])

lemma command_halts:
  assumes "handle_command gone c w = Inr (x, t)" and "\<not> connects c" shows "halts w t"
proof (cases c)
  case (Cmd_Publish d)
  then show ?thesis
    using assms(1) halt.R_plain [of _ x t w] quietly_halts quietly_publish by (fastforce simp: handle_command_def)
next
  case (Cmd_PublishSync d tx)
  then show ?thesis
    using assms(1) halts_trans [OF halts_channels(1) halts_publish_sync] by (simp add: handle_command_def)
next
  case (Cmd_SubscribeSync d tx)
  show ?thesis
  proof (cases "tx \<in> set gone")
    case True
    then show ?thesis
      using assms(1) Cmd_SubscribeSync halts_trans [OF halts_channels(1) halts_channels(3)] by (auto simp: handle_command_def)
  next
    case False
    then obtain r u where u: "engine_op (host_subscribe d) (take_channels [tx] w) = Inr (r, u)"
      and t: "register (\<lambda>i. insert_subscribe i tx) (\<lambda>e. Reply_subscribe (Inl e)) tx r u = Inr (x, t)"
      using assms(1) Cmd_SubscribeSync by (auto simp: handle_command_def Let_def)
    show ?thesis by (rule halts_trans [OF halts_take_op [OF u keeps_host(9)] halts_register [OF t halts_channels(5)]])
  qed
next
  case (Cmd_UnsubscribeSync d tx)
  then obtain r u where u: "engine_op (host_unsubscribe d) (take_channels [tx] w) = Inr (r, u)"
    and t: "register (\<lambda>i. insert_unsubscribe i tx) (\<lambda>e. Reply_unsubscribe (Inl e)) tx r u = Inr (x, t)"
    using assms(1) by (auto simp: handle_command_def)
  show ?thesis by (rule halts_trans [OF halts_take_op [OF u keeps_host(10)] halts_register [OF t halts_channels(6)]])
next
  case Cmd_Ping
  then show ?thesis
    using assms(1) halt.R_plain [of _ x t w] quietly_halts quietly_ping by (fastforce simp: handle_command_def)
next
  case (Cmd_PingSync tx)
  then show ?thesis
    using assms(1) halts_trans [OF halts_channels(1) halts_ping_sync] by (simp add: handle_command_def)
next
  case (Cmd_Acknowledge k i code ps tx)
  then obtain r u where u: "worker_acknowledge k i code ps (take_channels [tx] w) = Inr (r, u)"
    and t: "emit_result r (send tx (Reply_done r) u) = Inr (x, t)"
    using assms(1) by (auto simp: handle_command_def)
  show ?thesis
    by (rule halts_trans [OF halts_channels(1) halts_trans [OF quietly_halts [OF quietly_acknowledge [OF u]] halts_send_report(2) [OF t]]])
next
  case (Cmd_Disconnect code ps response)
  let ?w = "case response of None \<Rightarrow> w | Some tx \<Rightarrow> take_channels [tx] w"
  obtain r u where u: "worker_disconnect code ps ?w = Inr (r, u)"
    and t: "emit_result r (case response of None \<Rightarrow> u | Some tx \<Rightarrow> send tx (Reply_done r) u) = Inr (x, t)"
    using assms(1) Cmd_Disconnect by (auto simp: handle_command_def)
  have "halts w ?w" by (simp split: option.splits)
  moreover have "halts u t"
    using t quietly_halts [OF quietly_emit(3)] halts_send_report(2) by (cases response) auto
  ultimately show ?thesis using halt.R_disconnect [OF u] halts_trans by blast
next
  case (Cmd_SetAutoReconnect b)
  then show ?thesis using assms halt.R_set_auto_reconnect by (simp add: handle_command_def)
next
  case (Cmd_SendPacket p)
  then show ?thesis using assms(1) halt.R_plain [of _ x t w] halt.R_send_packet by (fastforce simp: handle_command_def)
qed (use assms in \<open>auto simp: handle_command_def connects_def intro: halt.R_plain halts_op keeps_host\<close>)

definition connect_round :: "round \<Rightarrow> bool" where
  "connect_round rd = (case rd_wake rd of Wake_command (Some c) _ \<Rightarrow> connects c | _ \<Rightarrow> False)"

lemma wake_halts:
  assumes "handle_wake rd w = Inr (exit, t)" and "\<not> connect_round rd" shows "halts w t"
proof (cases "rd_wake rd")
  case (Wake_command c rqs)
  then show ?thesis
    using assms halt.R_shutdown command_halts
    by (cases c) (auto simp: handle_wake_def connect_round_def Let_def split: if_splits)
next
  case (Wake_admission rq)
  then show ?thesis
    using assms(1) quietly_halts [OF quietly_admit] quietly_halts [OF quietly_flags(1)]
    by (auto simp: handle_wake_def Let_def split: option.splits)
next
  case (Wake_transport a nodelay)
  show ?thesis
  proof (cases "wk_connecting w")
    case None
    then show ?thesis using assms Wake_transport by (auto simp: handle_wake_def)
  next
    case (Some f)
    then show ?thesis by (simp add: halts_def halted_def)
  qed
next
  case (Wake_read oc)
  then show ?thesis using assms(1) halt.R_read_transport by (auto simp: handle_wake_def)
next
  case Wake_deadline
  then show ?thesis
    using assms(1) halts_trans [OF halts_op [OF _ keeps_host(5)] halt.R_dispatch_events] by (auto simp: handle_wake_def)
qed (use assms in \<open>auto simp: handle_wake_def\<close>)

lemma round_halts:
  assumes "run_round rd w = Inr (exit, t)" and "\<not> connect_round rd" shows "halts w t"
proof -
  obtain q u where u: "handle_wake rd (begin_round rd w) = Inr (q, u)" and t: "finish_round q u = Inr (exit, t)"
    using assms(1) by (auto simp: run_round_def Let_def)
  show ?thesis
    using quietly_halts [OF begin_round_quietly] wake_halts [OF u assms(2)] halt.R_finish_round [OF t] halts_trans by blast
qed

lemma run_halts:
  "run rds w = Inr (exit, t) \<Longrightarrow> list_all (\<lambda>rd. \<not> connect_round rd) rds \<Longrightarrow> halts w t"
proof (induction rds arbitrary: w)
  case (Cons rd rds)
  then obtain q u where u: "run_round rd w = Inr (q, u)"
    and t: "(case q of None \<Rightarrow> run rds u | Some r \<Rightarrow> Inr (Some r, u)) = Inr (exit, t)" by auto
  have "halts w u" using round_halts [OF u] Cons.prems(2) by simp
  moreover have "halts u t" using t Cons.IH Cons.prems(2) by (cases q) auto
  ultimately show ?case by (rule halts_trans)
qed simp

lemma disconnect_halts:
  assumes "worker_disconnect code ps w = Inr (r, t)" and "engine_op (host_try_disconnect_with code ps) w = Inr (Inr (), u)"
  shows "halted t"
  using assms(1)
proof (cases rule: disconnect_cases)
  case (refused e)
  then show ?thesis using assms(2) by simp
next
  case (stopped u' x v wr cl y z)
  have u: "wk_intentional_stop (stopping u')" "wk_connecting (stopping u') = None" "wk_state (stopping u') = CS_Disconnecting"
    using config_kept.frame [OF quietly_fail_all] sound.R_stopping by (auto simp: stopping_def)
  note v = quietly_write_output [OF stopped(2)]
  have y: "\<not> wk_stream y" "wk_connecting y = None" "wk_intentional_stop y"
  proof -
    have "wk_state v \<noteq> CS_Disconnected" using quietly_fields [OF v] u by simp
    then show "\<not> wk_stream y" "wk_connecting y = None"
      using sound.R_close_stream [OF stopped(3)] quietly_fields [OF v] u by simp_all
    have "wk_intentional_stop v" using config_kept.frame [OF v] u by simp
    then show "wk_intentional_stop y"
      using stopped(3) config_kept.frame [OF next_close_fields]
      by (auto simp: close_stream_def split: if_splits prod.splits)
  qed
  note z = quietly_engine_op [OF stopped(4) keeps_host(2)]
  have "halted (z\<lparr>wk_state := CS_Disconnected\<rparr>)"
    using y quietly_fields [OF z] config_kept.frame [OF z] by (simp add: halted_def)
  then show ?thesis using stopped(6) quietly_halts [OF quietly_emit(2)] by (auto simp: halts_def)
qed

section \<open>Waiters at the end of a run\<close>

definition settled :: "worker \<Rightarrow> bool" where
  "settled w \<longleftrightarrow> pending_ok (wk_pending w) \<and> pending_channels (wk_pending w) = []"

interpretation settled_kept: worker_frame "\<lambda>w t. settled w \<longrightarrow> settled t"
  by unfold_locales (auto simp: settled_def settles_def elim!: wmicro.cases)

lemma settled_fields [simp]:
  "settled (w\<lparr>wk_stream := a\<rparr>) = settled w" "settled (w\<lparr>wk_state := b\<rparr>) = settled w"
  by (simp_all add: settled_def)

lemma settled_fail_all: "settled (pending_fail_all e w)"
  by (simp add: settled_def pending_fail_all_def fail_eqs pending_ok_def pending_channels_def)

lemma settled_close: "close_stream w = (r, t) \<Longrightarrow> settled w \<Longrightarrow> settled t"
  using settled_kept.frame [OF next_close_fields]
  by (fastforce simp: close_stream_def split: if_splits prod.splits)

lemma disconnect_settled:
  assumes "worker_disconnect code ps w = Inr (r, t)" shows "settled t \<or> is_err r"
  using assms
proof (cases rule: disconnect_cases)
  case (refused e)
  then show ?thesis by (simp add: is_err_def)
next
  case (stopped u x v wr cl y z)
  have "settled v" using settled_kept.frame [OF quietly_write_output [OF stopped(2)]] settled_fail_all by (simp add: stopping_def)
  then have "settled z"
    using settled_close [OF stopped(3)] settled_kept.frame [OF quietly_engine_op [OF stopped(4) keeps_host(2)]] by simp
  then show ?thesis using stopped(6) settled_kept.frame [OF quietly_emit(2)] by auto
qed

lemma shutdown_settled: "shutdown rqs w = Inr (r, t) \<Longrightarrow> settled t"
proof (erule shutdown_cases)
  fix u assume u: "worker_disconnect 0 [] (close_admissions rqs w) = Inr (r, u)"
    and t: "r = Inr () \<and> t = u \<or> (\<exists>e. r = Inl e \<and> (t = dropping e u \<or> emit_event (TE_Disconnected None) (dropping e u) = Inr ((), t)))"
  have d: "settled (dropping e u)" for e by (simp add: dropping_def settled_fail_all)
  show "settled t"
    using t disconnect_settled [OF u] d settled_kept.frame [OF quietly_emit(2)] by (auto simp: is_err_def)
qed

lemma run_settled:
  "run rds w = Inr (Some r, t) \<Longrightarrow> settled t"
proof (induction rds arbitrary: w)
  case (Cons rd rds)
  then obtain q u where u: "run_round rd w = Inr (q, u)"
    and t: "(case q of None \<Rightarrow> run rds u | Some r \<Rightarrow> Inr (Some r, u)) = Inr (Some r, t)" by auto
  show ?case
  proof (cases q)
    case None
    then show ?thesis using t Cons.IH by simp
  next
    case (Some r')
    then obtain v where v: "handle_wake rd (begin_round rd w) = Inr (Some r', v)" and uv: "u = v"
      using u by (auto simp: run_round_def Let_def finish_round_def split: option.splits sum.splits)
    then obtain rqs where "shutdown rqs (begin_round rd w) = Inr (r', v)"
      by (auto simp: handle_wake_def Let_def split: wake.splits if_splits option.splits)
    then show ?thesis using shutdown_settled uv t Some by simp
  qed
qed simp

lemma accounts_distinct:
  assumes "mset xs = mset ys + mset zs + mset us" and "distinct xs" shows "distinct (ys @ zs @ us)"
proof -
  have "mset (ys @ zs @ us) = mset xs" using assms(1) by (simp add: add.assoc)
  then show ?thesis using assms(2) by (metis mset_eq_imp_distinct_iff)
qed

section \<open>What the handler sees\<close>

text \<open>
  The results and messages among the events of the engine and among those of a batch: everything
  but errors, reconnect notices and connection changes.
\<close>

definition reported :: "MqttEvent \<Rightarrow> TokioMqttEvent list" where
  "reported ev = (case ev of
     Connected r \<Rightarrow> [TE_Connected r] | Published r \<Rightarrow> [TE_Published r] | Subscribed r \<Rightarrow> [TE_Subscribed r]
   | Unsubscribed r \<Rightarrow> [TE_Unsubscribed r] | MessageReceived m \<Rightarrow> [TE_MessageReceived m]
   | PubRelReceived i _ \<Rightarrow> [TE_PubRelReceived i] | PingResponse r \<Rightarrow> [TE_PingResponse r]
   | AuthReceived r \<Rightarrow> [TE_AuthReceived r] | DisconnectReceived code ps \<Rightarrow> [TE_DisconnectReceived code ps]
   | _ \<Rightarrow> [])"

definition is_report :: "TokioMqttEvent \<Rightarrow> bool" where
  "is_report ev = (case ev of
     TE_Connected _ \<Rightarrow> True | TE_Published _ \<Rightarrow> True | TE_Subscribed _ \<Rightarrow> True | TE_Unsubscribed _ \<Rightarrow> True
   | TE_MessageReceived _ \<Rightarrow> True | TE_PubRelReceived _ \<Rightarrow> True | TE_PingResponse _ \<Rightarrow> True
   | TE_AuthReceived _ \<Rightarrow> True | TE_DisconnectReceived _ _ \<Rightarrow> True | _ \<Rightarrow> False)"

lemma lost_no_report: "record_connection_lost code w = Inr (es, t) \<Longrightarrow> filter is_report es = []"
  by (auto simp: record_connection_lost_def Let_def is_report_def split: if_splits)

lemma dispatch_event_reports: "dispatch_event ev b w = Inr (es, t) \<Longrightarrow> filter is_report es = reported ev"
  by (cases ev)
    (auto simp: dispatch_event_def with_lost_def reconnect_needed_def reported_def Let_def is_report_def
      split: if_splits dest!: lost_no_report)

lemma dispatch_loop_reports:
  "dispatch_loop evs b w = Inr (batch, t) \<Longrightarrow> filter is_report batch = filter is_report b @ concat (map reported evs)"
proof (induction evs arbitrary: b w)
  case (Cons ev evs)
  then obtain es u where "dispatch_event ev (case evs of [] \<Rightarrow> False | e # _ \<Rightarrow> is_message e) w = Inr (es, u)"
    and "dispatch_loop evs (b @ es) u = Inr (batch, t)" by auto
  then show ?case using dispatch_event_reports Cons.IH by fastforce
qed simp

text \<open>No operation on the way calls the handler, except the delivery of the batch.\<close>

lemma batches_op: "engine_op f w = Inr (x, t) \<Longrightarrow> wk_batches t = wk_batches w"
  by (auto simp: engine_op_def read_clock_def split: list.splits)

lemma batches_simps [simp]:
  "wk_batches (pending_fail_all e w) = wk_batches w" "wk_batches (fail_connect e w) = wk_batches w"
  "wk_batches (fail_ping e w) = wk_batches w" "wk_batches (send tx r w) = wk_batches w"
  "wk_batches (answer_connects cr w) = wk_batches w" "wk_batches (answer_pings b w) = wk_batches w"
  "wk_batches (answer_publish i pr w) = wk_batches w" "wk_batches (answer_subscribe i sr w) = wk_batches w"
  "wk_batches (answer_unsubscribe i sr w) = wk_batches w" "wk_batches (fail_pending_operation op i e w) = wk_batches w"
  by (simp_all add: pending_fail_all_def fail_eqs send_def answer_eqs answer_publish_def answer_subscribe_def
      answer_unsubscribe_def fail_pending_operation_def split: option.splits OperationKind.splits)

lemma batches_lost: "record_connection_lost code w = Inr (es, t) \<Longrightarrow> wk_batches t = wk_batches w"
  by (auto simp: record_connection_lost_def Let_def split: if_splits dest: batches_op)

lemma batches_dispatch_event: "dispatch_event ev b w = Inr (es, t) \<Longrightarrow> wk_batches t = wk_batches w"
  by (cases ev)
    (auto simp: dispatch_event_def with_lost_def reconnect_needed_def Let_def split: if_splits dest!: batches_lost)

lemma batches_dispatch_loop: "dispatch_loop evs b w = Inr (x, t) \<Longrightarrow> wk_batches t = wk_batches w"
proof (induction evs arbitrary: b w)
  case (Cons ev evs)
  then obtain es u where "dispatch_event ev (case evs of [] \<Rightarrow> False | e # _ \<Rightarrow> is_message e) w = Inr (es, u)"
    and "dispatch_loop evs (b @ es) u = Inr (x, t)" by auto
  then show ?case using batches_dispatch_event Cons.IH by fastforce
qed simp

lemma batches_publish: "worker_publish c w = Inr (r, t) \<Longrightarrow> wk_batches t = wk_batches w"
  by (auto simp: worker_publish_def split: if_splits dest: batches_op)

lemma batches_serve: "serve_admissions rqs w = Inr (x, t) \<Longrightarrow> wk_batches t = wk_batches w"
proof (induction rqs arbitrary: w)
  case (Cons rq rest)
  show ?case
  proof (cases "\<not> wk_admission_open w \<or> rq = None")
    case True
    then show ?thesis using Cons.prems by (auto split: if_splits)
  next
    case False
    then obtain q y u where q: "admit q (w\<lparr>wk_admission_needs_drain := True\<rparr>) = Inr (y, u)"
      "serve_admissions rest u = Inr (x, t)"
      using Cons.prems by (auto split: if_splits)
    have "wk_batches u = wk_batches w" using q(1) by (auto simp: admit_def take_channels_def dest!: batches_publish)
    then show ?thesis using Cons.IH [OF q(2)] by simp
  qed
qed simp

lemma batches_emit:
  "emit_batch b w = Inr (x, t) \<Longrightarrow> wk_batches t = wk_batches w @ (if b = [] then [] else [b])"
  by (auto simp: emit_batch_def deliver_batch_def split: if_splits list.splits dest!: batches_serve)

lemma dispatch_events_reports:
  assumes "dispatch_events evs w = Inr (x, t)"
  shows "\<exists>bs. wk_batches t = wk_batches w @ bs \<and> filter is_report (concat bs) = concat (map reported evs)"
proof (cases "evs = []")
  case True
  then show ?thesis using assms by (simp add: dispatch_events_def)
next
  case False
  then obtain b u where u: "dispatch_loop evs [] w = Inr (b, u)" and t: "emit_batch b u = Inr (x, t)"
    using assms by (auto simp: dispatch_events_def)
  show ?thesis
    using batches_emit [OF t] batches_dispatch_loop [OF u] dispatch_loop_reports [OF u]
    by (intro exI [of _ "if b = [] then [] else [b]"]) auto
qed

end
