(* ===== verification/Async_Client.thy ===== *)
theory Async_Client
  imports Async_Behaviour
begin

text \<open>
  The interface of the asynchronous client, \<open>src/src/mqtt_client/tokio_async_client.rs\<close>: every
  method sends a command to the worker; the synchronous ones wait for the reply, with a timeout.

  A method is the command it sends; a synchronous one is a \<open>call\<close>, the command with the timeout and
  the name that a timeout reports.  Whether the worker still runs, and what becomes of the response
  channel, are parameters of the result.
\<close>

section \<open>Errors of the standard library\<close>

record IoError =
  ie_kind :: ErrorKind
  ie_message :: string

type_synonym 'a io = "IoError + 'a"

definition from_io_error_plain :: "IoError \<Rightarrow> MqttClientError" where
  "from_io_error_plain e = NetworkError (ie_kind e) (ie_message e)"

definition from_io_error :: "IoError \<Rightarrow> string \<Rightarrow> MqttClientError" where
  "from_io_error e context = NetworkError (ie_kind e) (context @ '': '' @ ie_message e)"

definition map_io :: "'a io \<Rightarrow> 'a cres" where
  "map_io r = (case r of Inl e \<Rightarrow> Inl (from_io_error_plain e) | Inr x \<Rightarrow> Inr x)"

section \<open>Waiting for the worker\<close>

datatype 'a rx = Rx_sent 'a | Rx_dropped | Rx_waiting

text \<open>A future that is not resolved is \<open>None\<close>.\<close>

definition receive_response :: "'a cres rx \<Rightarrow> 'a cres option" where
  "receive_response rx = (case rx of
     Rx_sent r \<Rightarrow> Some r
   | Rx_dropped \<Rightarrow> Some (Inl (ChannelClosed ''async client response''))
   | Rx_waiting \<Rightarrow> None)"

definition with_timeout :: "u64 option \<Rightarrow> string \<Rightarrow> 'a cres option \<Rightarrow> 'a cres option" where
  "with_timeout timeout_ms operation future = (case timeout_ms of
     None \<Rightarrow> future
   | Some timeout \<Rightarrow>
       (case future of Some r \<Rightarrow> Some r | None \<Rightarrow> Some (Inl (OperationTimeout operation timeout))))"

definition send_command :: "bool \<Rightarrow> unit io" where
  "send_command running =
     (if running then Inr () else Inl \<lparr>ie_kind = BrokenPipe, ie_message = ''Worker task is no longer running''\<rparr>)"

definition sync_internal :: "bool \<Rightarrow> 'a cres rx \<Rightarrow> 'a cres option" where
  "sync_internal running rx = (case map_io (send_command running) of
     Inl e \<Rightarrow> Some (Inl e)
   | Inr _ \<Rightarrow> receive_response rx)"

record call =
  cl_command :: TokioClientCommand
  cl_timeout :: "u64 option"
  cl_operation :: string

definition call_result :: "call \<Rightarrow> bool \<Rightarrow> 'a cres rx \<Rightarrow> 'a cres option" where
  "call_result c running rx = with_timeout (cl_timeout c) (cl_operation c) (sync_internal running rx)"

section \<open>The client\<close>

record TokioAsyncMqttClient =
  ac_config :: TokioAsyncClientConfig

text \<open>Creation: the options are resolved and the worker is started on them.\<close>

definition ac_new ::
  "features \<Rightarrow> TlsBackend option \<Rightarrow> MqttClientOptions \<Rightarrow> TokioAsyncClientConfig \<Rightarrow> Timestamp \<Rightarrow>
   (TokioAsyncMqttClient \<times> worker) cres" where
  "ac_new ft backend opts config sample =
     tryE (resolve_options config opts) (\<lambda>opts.
     Inr (\<lparr>ac_config = config\<rparr>, worker_new ft backend opts config sample))"

definition ac_with_default_config ::
  "features \<Rightarrow> TlsBackend option \<Rightarrow> MqttClientOptions \<Rightarrow> Timestamp \<Rightarrow> (TokioAsyncMqttClient \<times> worker) cres" where
  "ac_with_default_config ft backend opts sample = ac_new ft backend opts TokioAsyncClientConfig_default sample"

text \<open>Methods that only send a command; their result is \<open>send_command\<close>.\<close>

definition ac_connect :: TokioClientCommand where
  "ac_connect = Cmd_Connect"

definition ac_subscribe_with_command :: "SubscribeCommand \<Rightarrow> TokioClientCommand" where
  "ac_subscribe_with_command command = Cmd_Subscribe command"

definition ac_subscribe :: "str \<Rightarrow> u8 \<Rightarrow> TokioClientCommand" where
  "ac_subscribe topic qos = ac_subscribe_with_command (SubscribeCommand_single topic qos)"

definition ac_publish_with_command :: "PublishCommand \<Rightarrow> TokioClientCommand" where
  "ac_publish_with_command command = Cmd_Publish command"

definition ac_publish :: "str \<Rightarrow> bytes \<Rightarrow> u8 \<Rightarrow> bool \<Rightarrow> TokioClientCommand" where
  "ac_publish topic payload qos retain =
     ac_publish_with_command (PublishCommand_simple topic payload qos retain)"

definition ac_publish_with_priority :: "str \<Rightarrow> bytes \<Rightarrow> u8 \<Rightarrow> bool \<Rightarrow> u8 \<Rightarrow> TokioClientCommand" where
  "ac_publish_with_priority topic payload qos retain priority =
     ac_publish_with_command (PublishCommand_with_priority topic payload qos retain priority)"

definition ac_unsubscribe_with_command :: "UnsubscribeCommand \<Rightarrow> TokioClientCommand" where
  "ac_unsubscribe_with_command command = Cmd_Unsubscribe command"

definition ac_unsubscribe :: "str list \<Rightarrow> TokioClientCommand" where
  "ac_unsubscribe topics = ac_unsubscribe_with_command (UnsubscribeCommand_from_topics topics)"

definition ac_ping :: TokioClientCommand where
  "ac_ping = Cmd_Ping"

definition ac_disconnect_with :: "u8 \<Rightarrow> Property list \<Rightarrow> TokioClientCommand" where
  "ac_disconnect_with code properties = Cmd_Disconnect code properties None"

definition ac_disconnect :: TokioClientCommand where
  "ac_disconnect = ac_disconnect_with 0 []"

definition ac_set_auto_reconnect :: "bool \<Rightarrow> TokioClientCommand" where
  "ac_set_auto_reconnect enabled = Cmd_SetAutoReconnect enabled"

definition ac_send_packet :: "MqttPacket \<Rightarrow> TokioClientCommand" where
  "ac_send_packet packet = Cmd_SendPacket packet"

definition ac_auth :: "u8 \<Rightarrow> Property list \<Rightarrow> TokioClientCommand" where
  "ac_auth code properties = Cmd_Auth code properties"

definition ac_auth_continue :: "Property list \<Rightarrow> TokioClientCommand" where
  "ac_auth_continue properties = ac_auth 0x18 properties"

definition ac_auth_re_authenticate :: "Property list \<Rightarrow> TokioClientCommand" where
  "ac_auth_re_authenticate properties = ac_auth 0x19 properties"

text \<open>\<open>joined\<close> is the result of the worker task, or the error of joining it.\<close>

definition ac_shutdown :: "string + unit cres \<Rightarrow> (string + MqttClientError) + unit" where
  "ac_shutdown joined = (case joined of
     Inl e \<Rightarrow> Inl (Inl e)
   | Inr (Inl e) \<Rightarrow> Inl (Inr e)
   | Inr (Inr _) \<Rightarrow> Inr ())"

text \<open>Synchronous methods, with the response channel they create.\<close>

abbreviation sync :: "TokioClientCommand \<Rightarrow> u64 option \<Rightarrow> string \<Rightarrow> call" where
  "sync command timeout operation \<equiv> \<lparr>cl_command = command, cl_timeout = timeout, cl_operation = operation\<rparr>"

definition ac_publish_with_command_sync :: "TokioAsyncMqttClient \<Rightarrow> PublishCommand \<Rightarrow> channel \<Rightarrow> call" where
  "ac_publish_with_command_sync c command tx =
     sync (Cmd_PublishSync command tx) (tc_publish_ack_timeout_ms (ac_config c)) ''publish''"

definition ac_publish_sync :: "TokioAsyncMqttClient \<Rightarrow> str \<Rightarrow> bytes \<Rightarrow> u8 \<Rightarrow> bool \<Rightarrow> channel \<Rightarrow> call" where
  "ac_publish_sync c topic payload qos retain tx =
     ac_publish_with_command_sync c (PublishCommand_simple topic payload qos retain) tx"

definition ac_publish_sync_with_priority ::
  "TokioAsyncMqttClient \<Rightarrow> str \<Rightarrow> bytes \<Rightarrow> u8 \<Rightarrow> bool \<Rightarrow> u8 \<Rightarrow> channel \<Rightarrow> call" where
  "ac_publish_sync_with_priority c topic payload qos retain priority tx =
     ac_publish_with_command_sync c (PublishCommand_with_priority topic payload qos retain priority) tx"

definition ac_disconnect_with_sync :: "TokioAsyncMqttClient \<Rightarrow> u8 \<Rightarrow> Property list \<Rightarrow> channel \<Rightarrow> call" where
  "ac_disconnect_with_sync c code properties tx =
     sync (Cmd_Disconnect code properties (Some tx)) (Some (tc_default_operation_timeout_ms (ac_config c))) ''disconnect''"

definition ac_disconnect_sync :: "TokioAsyncMqttClient \<Rightarrow> channel \<Rightarrow> call" where
  "ac_disconnect_sync c tx = ac_disconnect_with_sync c 0 [] tx"

definition ac_acknowledge :: "TokioAsyncMqttClient \<Rightarrow> u8 \<Rightarrow> u16 \<Rightarrow> u8 \<Rightarrow> Property list \<Rightarrow> channel \<Rightarrow> call" where
  "ac_acknowledge c kind i code properties tx =
     sync (Cmd_Acknowledge kind i code properties tx) (Some (tc_default_operation_timeout_ms (ac_config c))) ''acknowledge''"

definition ac_puback :: "TokioAsyncMqttClient \<Rightarrow> u16 \<Rightarrow> u8 \<Rightarrow> Property list \<Rightarrow> channel \<Rightarrow> call" where
  "ac_puback c i code properties tx = ac_acknowledge c 4 i code properties tx"

definition ac_pubrec :: "TokioAsyncMqttClient \<Rightarrow> u16 \<Rightarrow> u8 \<Rightarrow> Property list \<Rightarrow> channel \<Rightarrow> call" where
  "ac_pubrec c i code properties tx = ac_acknowledge c 5 i code properties tx"

definition ac_pubcomp :: "TokioAsyncMqttClient \<Rightarrow> u16 \<Rightarrow> u8 \<Rightarrow> Property list \<Rightarrow> channel \<Rightarrow> call" where
  "ac_pubcomp c i code properties tx = ac_acknowledge c 7 i code properties tx"

definition ac_connect_sync :: "TokioAsyncMqttClient \<Rightarrow> channel \<Rightarrow> call" where
  "ac_connect_sync c tx = sync (Cmd_ConnectSync tx) (tc_connect_timeout_ms (ac_config c)) ''connect''"

definition ac_subscribe_with_command_sync :: "TokioAsyncMqttClient \<Rightarrow> SubscribeCommand \<Rightarrow> channel \<Rightarrow> call" where
  "ac_subscribe_with_command_sync c command tx =
     sync (Cmd_SubscribeSync command tx) (tc_subscribe_timeout_ms (ac_config c)) ''subscribe''"

definition ac_subscribe_sync :: "TokioAsyncMqttClient \<Rightarrow> str \<Rightarrow> u8 \<Rightarrow> channel \<Rightarrow> call" where
  "ac_subscribe_sync c topic qos tx = ac_subscribe_with_command_sync c (SubscribeCommand_single topic qos) tx"

definition ac_unsubscribe_with_command_sync :: "TokioAsyncMqttClient \<Rightarrow> UnsubscribeCommand \<Rightarrow> channel \<Rightarrow> call" where
  "ac_unsubscribe_with_command_sync c command tx =
     sync (Cmd_UnsubscribeSync command tx) (tc_unsubscribe_timeout_ms (ac_config c)) ''unsubscribe''"

definition ac_unsubscribe_sync :: "TokioAsyncMqttClient \<Rightarrow> str list \<Rightarrow> channel \<Rightarrow> call" where
  "ac_unsubscribe_sync c topics tx =
     ac_unsubscribe_with_command_sync c (UnsubscribeCommand_from_topics topics) tx"

definition ac_ping_sync :: "TokioAsyncMqttClient \<Rightarrow> channel \<Rightarrow> call" where
  "ac_ping_sync c tx = sync (Cmd_PingSync tx) (tc_ping_timeout_ms (ac_config c)) ''ping''"

definition ac_connect_sync_with_timeout :: "u64 \<Rightarrow> channel \<Rightarrow> call" where
  "ac_connect_sync_with_timeout timeout tx = sync (Cmd_ConnectSync tx) (Some timeout) ''connect''"

definition ac_subscribe_sync_with_timeout :: "str \<Rightarrow> u8 \<Rightarrow> u64 \<Rightarrow> channel \<Rightarrow> call" where
  "ac_subscribe_sync_with_timeout topic qos timeout tx =
     sync (Cmd_SubscribeSync (SubscribeCommand_single topic qos) tx) (Some timeout) ''subscribe''"

definition ac_publish_sync_with_timeout :: "str \<Rightarrow> bytes \<Rightarrow> u8 \<Rightarrow> bool \<Rightarrow> u64 \<Rightarrow> channel \<Rightarrow> call" where
  "ac_publish_sync_with_timeout topic payload qos retain timeout tx =
     sync (Cmd_PublishSync (PublishCommand_simple topic payload qos retain) tx) (Some timeout) ''publish''"

definition ac_unsubscribe_sync_with_timeout :: "str list \<Rightarrow> u64 \<Rightarrow> channel \<Rightarrow> call" where
  "ac_unsubscribe_sync_with_timeout topics timeout tx =
     sync (Cmd_UnsubscribeSync (UnsubscribeCommand_from_topics topics) tx) (Some timeout) ''unsubscribe''"

definition ac_ping_sync_with_timeout :: "u64 \<Rightarrow> channel \<Rightarrow> call" where
  "ac_ping_sync_with_timeout timeout tx = sync (Cmd_PingSync tx) (Some timeout) ''ping''"

text \<open>The admission of a publish: no timeout, and its own channel to the worker.\<close>

definition ac_publish_with_command_admitted ::
  "bool \<Rightarrow> (u16 option) cres rx \<Rightarrow> (u16 option) cres option" where
  "ac_publish_with_command_admitted running rx =
     (if running then receive_response rx else Some (Inl (ChannelClosed ''async client admission'')))"

section \<open>Event handler\<close>

datatype callback =
    On_connected ConnectionResult | On_disconnected "u8 option" | On_disconnect_received u8 "Property list"
  | On_published PublishResult | On_subscribed AckResult | On_unsubscribed AckResult
  | On_message_received Publish5 | On_pubrel_received u16 | On_ping_response bool | On_error MqttClientError
  | On_peer_cert_received bytes | On_connection_lost | On_reconnect_attempt u32
  | On_pending_operations_cleared | On_parse_error bytes ParseError bool | On_auth_received AuthResult

definition callback_of :: "TokioMqttEvent \<Rightarrow> callback option" where
  "callback_of ev = (case ev of
     TE_Connected r \<Rightarrow> Some (On_connected r)
   | TE_Disconnected code \<Rightarrow> Some (On_disconnected code)
   | TE_DisconnectReceived code ps \<Rightarrow> Some (On_disconnect_received code ps)
   | TE_Published r \<Rightarrow> Some (On_published r)
   | TE_Subscribed r \<Rightarrow> Some (On_subscribed r)
   | TE_Unsubscribed r \<Rightarrow> Some (On_unsubscribed r)
   | TE_MessageReceived m \<Rightarrow> Some (On_message_received m)
   | TE_PubRelReceived i \<Rightarrow> Some (On_pubrel_received i)
   | TE_PingResponse r \<Rightarrow> Some (On_ping_response r)
   | TE_Error e \<Rightarrow> Some (On_error e)
   | TE_PeerCertReceived cert \<Rightarrow> Some (On_peer_cert_received cert)
   | TE_ConnectionLost \<Rightarrow> Some On_connection_lost
   | TE_ReconnectAttempt n \<Rightarrow> Some (On_reconnect_attempt n)
   | TE_PendingOperationsCleared \<Rightarrow> Some On_pending_operations_cleared
   | TE_ParseError raw e recoverable \<Rightarrow> Some (On_parse_error raw e recoverable)
   | TE_AuthReceived r \<Rightarrow> Some (On_auth_received r)
   | TE_EngineEvent _ \<Rightarrow> None)"

fun on_event_batch :: "TokioMqttEvent list \<Rightarrow> callback list" where
  "on_event_batch [] = []"
| "on_event_batch (event # rest) =
     (case callback_of event of None \<Rightarrow> on_event_batch rest | Some c \<Rightarrow> c # on_event_batch rest)"

section \<open>Properties\<close>

text \<open>A call with a timeout returns, whatever the worker does; a reply in time is its result.\<close>

lemma call_returns: "cl_timeout c \<noteq> None \<Longrightarrow> \<exists>r. call_result c running rx = Some r"
  by (auto simp: call_result_def with_timeout_def split: option.splits)

lemma call_reply: "call_result c True (Rx_sent r) = Some r"
  by (simp add: call_result_def with_timeout_def sync_internal_def send_command_def map_io_def receive_response_def
      split: option.splits)

lemma call_without_worker:
  "call_result c False rx = Some (Inl (NetworkError BrokenPipe ''Worker task is no longer running''))"
  by (simp add: call_result_def with_timeout_def sync_internal_def send_command_def map_io_def from_io_error_plain_def
      split: option.splits)

text \<open>The callbacks a batch triggers are those of its parts, in order.\<close>

lemma on_event_batch_append [simp]: "on_event_batch (xs @ ys) = on_event_batch xs @ on_event_batch ys"
  by (induction xs) (auto split: option.splits)

text \<open>A registered waiter receives the result that carries its identifier, and is then gone.\<close>

lemma answer_publish_delivers:
  assumes "hm_get (pd_publish (wk_pending w)) i = Some tx"
  shows "wk_replies (answer_publish (Some i) r w) = wk_replies w @ [(tx, Reply_publish r)]"
    and "hm_get (pd_publish (wk_pending (answer_publish (Some i) r w))) i = None"
  using assms by (simp_all add: answer_publish_def send_def)

end
