(* ===== verification/Engine_Behaviour.thy ===== *)
theory Engine_Behaviour
  imports Engine_Invariant
begin

text \<open>
  What the operations of the engine do on their branches: reconnection, identifiers, the loops over
  packets, ticks, and the delivery of incoming messages.
\<close>

declare map_of_eq_Some_iff [simp del] Some_eq_map_of_iff [simp del]

section \<open>Enough rounds\<close>

lemma queue_round_shrinks:
  assumes "pq_inv (me_priority_queue s)" and "peek (me_priority_queue s) = Some (pr, packet)"
    and "queue_round enc p s = Inr t"
  shows "pq_len (me_priority_queue t) < pq_len (me_priority_queue s) \<and> pq_inv (me_priority_queue t)"
proof -
  obtain x q where q: "dequeue (me_priority_queue s) = (Some x, q)"
    using assms(2) peek_dequeue [OF assms(1)] by (metis prod.collapse)
  have "me_priority_queue t = q"
    using assms(3) q
    by (auto simp: queue_round_def drop_broken_def reject_queued_def emit_queued_def Let_def
        fail_operation_def finish_operation_def start_deadline_def
        split: option.splits sum.splits prod.splits if_splits OperationKind.splits)
  then show ?thesis
    using pq_len_dequeue [OF q] dequeue_refines(2) [OF assms(1) q] by simp
qed

text \<open>With as many rounds as the queue has packets, more rounds make no difference.\<close>

lemma queue_loop_rounds:
  assumes "pq_inv (me_priority_queue s)" and "pq_len (me_priority_queue s) \<le> n"
  shows "queue_loop (n + k) enc s = queue_loop n enc s"
  using assms
proof (induction n arbitrary: enc s)
  case 0
  then have "peek (me_priority_queue s) = None"
    by (auto simp: peek_dequeue dequeue_def pq_len_def)
  then show ?case by (simp add: queue_loop.simps)
next
  case (Suc n)
  have "tryE (queue_round enc p s) (\<lambda>s. queue_loop (n + k) None s) =
      tryE (queue_round enc p s) (\<lambda>s. queue_loop n None s)"
    if "peek (me_priority_queue s) = Some (pr, p)" for p pr
  proof (cases "queue_round enc p s")
    case (Inr t)
    from queue_round_shrinks [OF Suc.prems(1) that Inr] have "queue_loop (n + k) None t = queue_loop n None t"
      using Suc.IH [of t None] Suc.prems(2) by simp
    then show ?thesis using Inr by simp
  qed simp
  then show ?case
    by (subst (1 2) queue_loop.simps) (auto split: option.splits)
qed

lemma flush_loop_rounds:
  "length (ps_responses (me_state s)) \<le> n \<Longrightarrow> flush_loop (n + k) s = flush_loop n s"
proof (induction n arbitrary: s)
  case 0
  then show ?case by (cases k) simp_all
next
  case (Suc n)
  have "flush_loop (n + k) (me_state_update (\<lambda>st. st\<lparr>ps_responses := tl (ps_responses st)\<rparr>) a) =
      flush_loop n (me_state_update (\<lambda>st. st\<lparr>ps_responses := tl (ps_responses st)\<rparr>) a)"
    if "enqueue_packet_inner p s = (Inr u, a)" for p u a
  proof -
    have "ps_responses (me_state a) = ps_responses (me_state s)"
      using that by (auto simp: enqueue_packet_inner_def split: sum.splits)
    then show ?thesis using Suc by simp
  qed
  then show ?case
    by (auto split: list.splits option.splits sum.splits prod.splits)
qed

lemma queue_loop_ends:
  assumes "pq_inv (me_priority_queue s)" and "pq_len (me_priority_queue s) \<le> n"
  shows "queue_loop n enc s \<noteq> Inl ''queue loop does not end''"
  using assms
proof (induction n arbitrary: enc s)
  case 0
  then have "peek (me_priority_queue s) = None"
    by (auto simp: peek_dequeue dequeue_def pq_len_def)
  then show ?case by (simp add: queue_loop.simps)
next
  case (Suc n)
  have e: "emit_queued b a \<noteq> Inl ''queue loop does not end''" for b a
    by (auto simp: emit_queued_def start_deadline_def deadline_from_def expect_ok_def Let_def tryE_def
        split: option.splits prod.splits sum.splits if_splits)
  have r: "queue_round enc p s \<noteq> Inl ''queue loop does not end''" for p
    using e by (auto simp: queue_round_def Let_def split: option.splits sum.splits)
  have "tryE (queue_round enc p s) (\<lambda>s. queue_loop n None s) \<noteq> Inl ''queue loop does not end''"
    if "peek (me_priority_queue s) = Some (pr, p)" for p pr
  proof (cases "queue_round enc p s")
    case (Inr t)
    from queue_round_shrinks [OF Suc.prems(1) that Inr] show ?thesis
      using Suc.IH [of t None] Suc.prems(2) Inr by simp
  qed (use r [of p] in simp)
  then show ?case
    by (subst queue_loop.simps) (auto split: option.splits)
qed

lemma fail_operation_replay [simp]: "me_session_replay (fail_operation i p e s) = me_session_replay s"
  by (simp add: fail_operation_def finish_operation_def Let_def)

lemma replay_loop_rounds:
  "length (me_session_replay s) \<le> n \<Longrightarrow> replay_loop (n + k) s = replay_loop n s"
proof (induction n arbitrary: s)
  case 0
  then show ?case by (cases k) simp_all
next
  case (Suc n)
  have e: "me_session_replay a = me_session_replay s" if "enqueue_packet_inner p s = (r, a)" for p r a
    using that by (auto simp: enqueue_packet_inner_def split: sum.splits)
  have d: "me_session_replay b = me_session_replay a" if "start_deadline k i a = Inr b" for k i a b
    using that by (auto simp: start_deadline_def Let_def split: option.splits)
  show ?case
  proof (cases "me_session_replay s")
    case (Cons x rest)
    obtain i p where x: "x = (i, p)" by fastforce
    obtain r a where a: "enqueue_packet_inner p s = (r, a)" by fastforce
    have n: "length rest \<le> n" using Suc.prems Cons by simp
    have f: "replay_loop (n + k) (fail_operation i p er (a\<lparr>me_session_replay := rest\<rparr>)) =
        replay_loop n (fail_operation i p er (a\<lparr>me_session_replay := rest\<rparr>))" for er
      using n by (intro Suc.IH) simp
    have t: "tryE (start_deadline Op_Publish (Some i) (a\<lparr>me_session_replay := rest, me_inflight_queue := q\<rparr>))
           (\<lambda>s. replay_loop (n + k) s) =
        tryE (start_deadline Op_Publish (Some i) (a\<lparr>me_session_replay := rest, me_inflight_queue := q\<rparr>))
           (\<lambda>s. replay_loop n s)" for q
      using n d Suc.IH by (auto simp: tryE_def split: sum.splits)
    show ?thesis
      by (simp add: Cons x a f t Let_def split: sum.split MqttClientError.split)
  qed simp
qed

section \<open>Reconnection\<close>

text \<open>
  The delay before attempt \<open>n + 1\<close>: the base delay doubled with every attempt, ten times at most,
  and capped.
\<close>

definition reconnect_delay_ms :: "MqttClientOptions \<Rightarrow> nat \<Rightarrow> nat" where
  "reconnect_delay_ms opts n =
     min (unat (o_reconnect_base_delay_ms opts) * 2 ^ min n 10) (unat (o_reconnect_max_delay_ms opts))"

lemma backoff_exact:
  "backoff_ms (from_millis (unat (b :: u64))) (from_millis (unat (m :: u64))) n =
   min (unat b * 2 ^ min (unat n) 10) (unat m)"
proof -
  have "unat b * 2 ^ min (unat n) 10 \<le> 2 ^ 64 * 2 ^ 10"
    using unsigned_less [of b, where ?'a = nat] by (intro mult_mono power_increasing) auto
  then have "unat b * 2 ^ min (unat n) 10 \<le> 2 ^ 128 - 1" by (rule order_trans) simp
  moreover have "duration_as_millis (from_millis k) = k" for k
    by (simp add: duration_as_millis_def from_millis_def)
  ultimately show ?thesis by (simp add: backoff_ms_def Let_def)
qed

text \<open>What \<open>schedule_reconnect_inner\<close> does in a state that satisfies the invariant.\<close>

lemma schedule_reconnect_exact:
  fixes s
  defines "n \<equiv> unat (me_reconnect_attempts s)"
  defines "delay \<equiv> from_millis (reconnect_delay_ms (me_options s) n)"
  assumes "eng_inv s" and "me_next_reconnect_at s = None"
    and "o_max_reconnect_attempts (me_options s) = 0 \<or> me_reconnect_attempts s < o_max_reconnect_attempts (me_options s)"
    and "n < 2 ^ 32 - 1"
  shows "\<exists>at. schedule_reconnect_inner (me_now s) s = Inr (push_event (ReconnectScheduled (me_reconnect_attempts s + 1) delay)
      (s\<lparr>me_next_reconnect_at := Some at, me_reconnect_attempts := me_reconnect_attempts s + 1\<rparr>)) \<and>
    unat at = unat (me_now s) + delay"
proof -
  have c: "check_time_range (me_options s) (me_now s) = Inr ()"
    and d: "me_reconnect_base_delay s = from_millis (unat (o_reconnect_base_delay_ms (me_options s)))"
      "me_reconnect_max_delay s = from_millis (unat (o_reconnect_max_delay_ms (me_options s)))"
      "me_max_reconnect_attempts s = o_max_reconnect_attempts (me_options s)"
    using assms(3) by (simp_all add: eng_inv_def clock_inv_def)
  have m: "reconnect_delay_ms (me_options s) n \<le> unat (o_reconnect_max_delay_ms (me_options s))"
    by (simp add: reconnect_delay_ms_def)
  have "checked_add (me_now s) (from_millis (unat (o_reconnect_max_delay_ms (me_options s)))) \<noteq> None"
    using c by (auto simp: check_time_range_def horizon_def Let_def split: if_splits)
  then have "unat (me_now s) + from_millis (unat (o_reconnect_max_delay_ms (me_options s))) < 2 ^ 64"
    by (simp add: checked_add_None)
  moreover have "delay \<le> from_millis (unat (o_reconnect_max_delay_ms (me_options s)))"
    using m by (simp add: delay_def from_millis_def)
  ultimately have "checked_add (me_now s) delay \<noteq> None" by (simp add: checked_add_None)
  then obtain at where at: "checked_add (me_now s) delay = Some at" by auto
  have "reconnect_delay_ms (me_options s) n mod 2 ^ 64 = reconnect_delay_ms (me_options s) n"
    using m unsigned_less [of "o_reconnect_max_delay_ms (me_options s)", where ?'a = nat] by simp
  moreover have "backoff_ms (me_reconnect_base_delay s) (me_reconnect_max_delay s) (me_reconnect_attempts s) =
      reconnect_delay_ms (me_options s) n"
    by (simp add: d backoff_exact reconnect_delay_ms_def n_def)
  ultimately have b: "from_millis (backoff_ms (me_reconnect_base_delay s) (me_reconnect_max_delay s)
      (me_reconnect_attempts s) mod 2 ^ 64) = delay" by (simp only: delay_def)
  have t: "deadline_from (me_now s) delay = Inr at" "unat at = unat (me_now s) + delay"
    using at iffD1 [OF checked_add_Some at] by (simp_all add: deadline_from_def)
  have l: "\<not> (0 < me_max_reconnect_attempts s \<and> me_max_reconnect_attempts s \<le> me_reconnect_attempts s)"
    using assms(5) d(3) by auto
  have o: "me_reconnect_attempts s \<noteq> 0xFFFFFFFF" using assms(6) by (auto simp: n_def)
  show ?thesis
    unfolding schedule_reconnect_inner_def Let_def b t(1) if_not_P [OF l] if_not_P [OF o]
    using assms(4) t(2) by (intro exI [of _ at]) simp
qed

lemma schedule_reconnect_stops:
  assumes "me_next_reconnect_at s \<noteq> None \<or>
    (0 < me_max_reconnect_attempts s \<and> me_max_reconnect_attempts s \<le> me_reconnect_attempts s)"
  shows "schedule_reconnect_inner now s = Inr s"
  using assms by (auto simp: schedule_reconnect_inner_def)

section \<open>Packet identifiers\<close>

lemma next_packet_id_exact:
  assumes "me_session s = Some session"
  shows "case next_packet_id s of
     (Inr i, t) \<Rightarrow> i \<noteq> 0 \<and> id_free s i \<and> (\<exists>c. t = s\<lparr>me_session := Some c\<rparr> \<and> cs_packet_id_counter c = i)
   | (Inl e, t) \<Rightarrow> e = PacketIdExhausted \<and> (\<forall>i. i \<noteq> 0 \<longrightarrow> \<not> id_free s i)"
proof -
  obtain r c where r: "search cs_next_packet_id (id_free s) 65535 session = (r, c)" by fastforce
  show ?thesis
  proof (cases r)
    case None
    then have "\<forall>i. i \<noteq> 0 \<longrightarrow> \<not> id_free s i"
      using client_ids.search_complete [of "id_free s" session] r by simp
    then show ?thesis using None r assms by (simp add: next_packet_id_def)
  next
    case (Some i)
    then show ?thesis
      using client_ids.search_sound [of "id_free s" 65535 session i c] r assms
      by (auto simp: next_packet_id_def)
  qed
qed

section \<open>Incoming bytes\<close>

lemma incoming_loop_progress: "incoming_loop s = Inr t \<Longrightarrow> incoming_done t"
proof (induction s rule: incoming_loop.induct)
  case (1 s)
  from "1.prems" show ?case
  proof (cases rule: incoming_loop_cases)
    case (2 e p)
    then show ?thesis using fail_connection_disconnected [OF 2(2)] by (simp add: incoming_done_def disconnected_def)
  next
    case (3 pkt p u b)
    show ?thesis by (rule "1.IH" [OF 3(4,5,6,7) 3(1) [symmetric] refl refl 3(2,3)])
  qed simp
qed

section \<open>Outgoing bytes\<close>

lemma outgoing_loop_drains:
  "outgoing_loop s = Inr (b, t) \<Longrightarrow>
   me_outgoing_buffer t = [] \<and> (\<exists>rest. b = concat (me_outgoing_buffer s) @ rest)"
proof (induction s arbitrary: b rule: outgoing_loop.induct)
  case (1 s)
  obtain a where a: "refill (s\<lparr>me_outgoing_buffer := []\<rparr>) = Inr a"
    using "1.prems" by (auto simp: outgoing_loop.simps [of s] Let_def)
  show ?case
  proof (cases "me_outgoing_buffer a = []")
    case True
    then show ?thesis using "1.prems" a by (auto simp: outgoing_loop.simps [of s] Let_def)
  next
    case False
    then obtain b' where l: "outgoing_loop a = Inr (b', t)" and b: "b = concat (me_outgoing_buffer s) @ b'"
      using "1.prems" a by (auto simp: outgoing_loop.simps [of s] Let_def)
    show ?thesis using "1.IH" [OF refl a False l] b by auto
  qed
qed

text \<open>A lost connection takes no input and gives no output.\<close>

lemma disconnected_inert:
  assumes "disconnected s"
  shows "handle_incoming_inner data s = Inr (take_events s)" "take_outgoing_inner s = Inr ([], s)"
proof -
  have f: "flush_responses s = Inr s" using assms by (simp add: flush_responses_def disconnected_def)
  have q: "process_queue s = Inr s"
    using assms by (simp add: process_queue_def process_queue_with_encoding_def disconnected_def)
  have e: "s\<lparr>me_outgoing_buffer := []\<rparr> = s" using assms by (simp add: disconnected_def)
  have "refill s = Inr s" using f q assms by (simp add: refill_def disconnected_def)
  then show "take_outgoing_inner s = Inr ([], s)"
    using assms by (simp add: take_outgoing_inner_def outgoing_loop.simps [of s] disconnected_def e)
  show "handle_incoming_inner data s = Inr (take_events s)"
    using assms by (simp add: handle_incoming_inner_def disconnected_def)
qed

section \<open>Ticks\<close>

definition due :: "Timestamp \<Rightarrow> MqttEngine \<Rightarrow> bool" where
  "due now s \<longleftrightarrow> list_ex (\<lambda>at. at \<le> now) (deadline_times s) \<or>
     (if me_is_connected s
      then ping_timed_out now s \<or> ping_due now s \<or>
        (case next_expiration (me_inflight_queue s) of None \<Rightarrow> False | Some at \<Rightarrow> at \<le> now)
      else (case me_next_reconnect_at s of None \<Rightarrow> False | Some at \<Rightarrow> at \<le> now))"

lemma min_list_option_le:
  "(case min_list_option ts of None \<Rightarrow> False | Some t \<Rightarrow> t \<le> now) \<longleftrightarrow> list_ex (\<lambda>t. t \<le> now) ts"
  by (cases ts) (auto simp: min_list_option_def Min_le_iff list_ex_iff)

lemma elapsed_iff:
  assumes "deadline_from start d = Inr t" and "start \<le> now"
  shows "d \<le> saturating_duration_since now start \<longleftrightarrow> t \<le> now"
proof -
  have t: "unat t = unat start + d"
    using assms(1) by (auto simp: deadline_from_def checked_add_Some split: option.splits)
  have "saturating_duration_since now start = unat now - unat start"
    using assms(2) by (simp add: saturating_duration_since_def checked_duration_since_def unat_sub)
  then show ?thesis using t assms(2) by (auto simp: word_le_nat_alt)
qed

text \<open>\<open>next_tick_at\<close> is the first time at which a tick has something to do.\<close>

lemma next_tick_exact:
  assumes "next_tick_at s = Inr next"
    and "me_last_packet_sent s \<le> now" and "\<And>t. me_ping_sent_at s = Some t \<Longrightarrow> t \<le> now"
  shows "due now s \<longleftrightarrow> (case next of None \<Rightarrow> False | Some at \<Rightarrow> at \<le> now)"
proof (cases "me_is_connected s")
  case False
  then have "next = min_list_option (opt_list (me_next_reconnect_at s) @ deadline_times s)"
    using assms(1) by (simp add: next_tick_at_def)
  then show ?thesis
    using False min_list_option_le [of now "opt_list (me_next_reconnect_at s) @ deadline_times s"]
    by (auto simp: due_def opt_list_def split: option.splits)
next
  case True
  obtain k where k: "keep_alive_deadline s = Inr k"
    using assms(1) True by (auto simp: next_tick_at_def)
  have ka: "(case k of None \<Rightarrow> False | Some at \<Rightarrow> at \<le> now) \<longleftrightarrow> ping_timed_out now s \<or> ping_due now s"
    using k assms(2,3) elapsed_iff
    by (auto simp: keep_alive_deadline_def ping_timed_out_def ping_due_def split: if_splits option.splits)
  define m where "m = (case next_expiration (me_inflight_queue s) of None \<Rightarrow> k
     | Some resend_at \<Rightarrow> (case k of None \<Rightarrow> Some resend_at
         | Some t \<Rightarrow> if resend_at < t then Some resend_at else k))"
  have n: "next = min_list_option (opt_list m @ deadline_times s)"
    using assms(1) True k by (simp add: next_tick_at_def m_def Let_def)
  have "(case m of None \<Rightarrow> False | Some at \<Rightarrow> at \<le> now) \<longleftrightarrow>
      (case k of None \<Rightarrow> False | Some at \<Rightarrow> at \<le> now) \<or>
      (case next_expiration (me_inflight_queue s) of None \<Rightarrow> False | Some at \<Rightarrow> at \<le> now)"
    by (auto simp: m_def split: option.splits)
  then show ?thesis
    using True ka n min_list_option_le [of now "opt_list m @ deadline_times s"]
    by (auto simp: due_def opt_list_def split: option.splits)
qed

lemma no_deadline_expired:
  "\<not> list_ex (\<lambda>at. at \<le> now) (deadline_times s) \<Longrightarrow> check_deadlines now s = Inr s"
proof -
  assume "\<not> list_ex (\<lambda>at. at \<le> now) (deadline_times s)"
  then have "filter (\<lambda>(_, (at, _)). at \<le> now) (ps_deadlines (me_state s)) = []"
    by (auto simp: list_ex_iff filter_empty_conv)
  then show ?thesis by (simp add: check_deadlines_def)
qed

lemma tick_not_connected:
  assumes "\<not> me_is_connected s" and "ps_responses (me_state s) = []"
    and "\<not> list_ex (\<lambda>at. at \<le> now) (deadline_times s)"
  shows "handle_tick_inner now s =
    Inr (if due now s then (me_events s @ [ReconnectNeeded], s\<lparr>me_events := [], me_next_reconnect_at := None\<rparr>)
         else (me_events s, s\<lparr>me_events := []\<rparr>))"
  using assms(1,2) no_deadline_expired [OF assms(3)] assms(3)
  by (auto simp: handle_tick_inner_def flush_responses_def due_def take_events_def Let_def split: option.splits)

lemma tick_ping_timeout:
  assumes "me_is_connected s" and "ps_responses (me_state s) = []"
    and "\<not> list_ex (\<lambda>at. at \<le> now) (deadline_times s)" and "ping_timed_out now s"
    and "handle_tick_inner now s = Inr (ev, t)"
  shows "disconnected t" "Disconnected None \<in> set ev"
proof -
  obtain a where a: "connection_lost_at now s = Inr a"
    and e: "take_events (push_event (Disconnected None) a) = (ev, t)"
    using assms(1,2,4,5) no_deadline_expired [OF assms(3)]
    by (auto simp: handle_tick_inner_def flush_responses_def connected_tick_def)
  show "Disconnected None \<in> set ev" using e by (auto simp: take_events_def)
  show "disconnected t"
    using e connection_lost_disconnected [OF a] by (auto simp: take_events_def disconnected_def)
qed

section \<open>Incoming messages\<close>

text \<open>A QoS 2 message with an identifier and a topic of its own.\<close>

definition qos2_message :: "u16 \<Rightarrow> Publish5 \<Rightarrow> bool" where
  "qos2_message i p \<longleftrightarrow> pub_qos p = 2 \<and> pub_packet_id p = Some i \<and> pub_topic_name p \<noteq> [] \<and>
     topic_aliases (pub_properties p) = []"

definition pubrec_packet :: "MqttEngine \<Rightarrow> u16 \<Rightarrow> MqttPacket" where
  "pubrec_packet s i =
     (if mqtt_version s = 5 then P_PubRec5 \<lparr>ack_packet_id = i, ack_reason_code = 0, ack_properties = []\<rparr>
      else P_PubRec3 \<lparr>ack3_message_id = i\<rparr>)"

text \<open>An exchange whose message was delivered and acknowledged with PUBREC on this connection.\<close>

definition awaits_pubrel :: "u64 option \<Rightarrow> u16 \<Rightarrow> MqttEngine \<Rightarrow> bool" where
  "awaits_pubrel stream i s \<longleftrightarrow> hm_get (ps_received (me_state s)) (stream, i) = Some Stage_PubRec \<and>
     (stream, i) \<in> ps_received_on_connection (me_state s)"

lemma resolve_plain:
  "qos2_message i p \<Longrightarrow> resolve_incoming p st = (Inr p, st)"
  by (simp add: qos2_message_def resolve_incoming_def)

lemma pubrec_answer:
  assumes "hm_get (ps_received (me_state s)) (stream, i) \<in> {Some (Stage_Publish 2), Some Stage_PubRec}" and "i \<noteq> 0"
  shows "manual_ack_packet s i 5 0 [] stream = Inr (pubrec_packet s i)"
  using assms by (auto simp: manual_ack_packet_def pubrec_packet_def ack_expected_def)

lemma qos2_first:
  assumes p: "qos2_message i p" and "i \<noteq> 0" and "o_auto_ack (me_options s)"
    and new: "received_key (me_state s) (stream, i) = None" "(stream, i) \<notin> ps_received_on_connection (me_state s)"
    and "ps_incoming_quota_used (me_state s) < unat (ps_incoming_receive_maximum (me_state s))"
  shows "\<exists>t. receive_message p stream s =
      Inr (([PublishReceived (Some i) stream, MessageReceived p], [pubrec_packet s i]), t) \<and>
    awaits_pubrel stream i t \<and> me_options t = me_options s \<and>
    ps_incoming_quota_used (me_state t) = Suc (ps_incoming_quota_used (me_state s))"
proof -
  define st where "st = (me_state s)\<lparr>
      ps_received_on_connection := insert (stream, i) (ps_received_on_connection (me_state s)),
      ps_incoming_quota_used := ps_incoming_quota_used (me_state s) + 1,
      ps_received := hm_insert (stream, i) (Stage_Publish 2) (ps_received (me_state s))\<rparr>"
  have r: "receive_publish 2 (Some i) stream (me_state s) = (Inr True, st)"
    using assms by (simp add: receive_publish_def Let_def st_def not_le)
  have a: "manual_ack_packet (s\<lparr>me_state := st\<rparr>) i 5 0 [] stream = Inr (pubrec_packet s i)"
    using pubrec_answer [of "s\<lparr>me_state := st\<rparr>" stream i] assms(2) by (simp add: st_def pubrec_packet_def)
  have q: "pub_qos p = 2" "pub_packet_id p = Some i" using p by (simp_all add: qos2_message_def)
  have "receive_message p stream s =
      Inr (([PublishReceived (Some i) stream, MessageReceived p], [pubrec_packet s i]),
        commit_receive_ack i 5 0 stream (s\<lparr>me_state := st\<rparr>))"
    using assms(3) by (simp add: receive_message_def resolve_plain [OF p] q r a Let_def)
  then show ?thesis
    by (auto simp: commit_receive_ack_def awaits_pubrel_def st_def Let_def)
qed

lemma qos2_duplicate:
  assumes p: "qos2_message i p" and "i \<noteq> 0" and w: "awaits_pubrel stream i s"
  shows "\<exists>t. receive_message p stream s = Inr (([], [pubrec_packet s i]), t) \<and> awaits_pubrel stream i t \<and>
    me_options t = me_options s \<and> ps_incoming_quota_used (me_state t) = ps_incoming_quota_used (me_state s)"
proof -
  have g: "hm_get (ps_received (me_state s)) (stream, i) = Some Stage_PubRec"
    and c: "(stream, i) \<in> ps_received_on_connection (me_state s)"
    using w by (simp_all add: awaits_pubrel_def)
  then have k: "hm_contains (stream, i) (ps_received (me_state s))" by (simp add: hm_contains_def del: hm_contains_iff)
  define st where "st = bind_received (stream, i) (stream, i) (me_state s)"
  have st: "ps_received st = ps_received (me_state s)"
    "ps_received_on_connection st = ps_received_on_connection (me_state s)"
    "ps_incoming_quota_used st = ps_incoming_quota_used (me_state s)"
    by (simp_all add: st_def bind_received_def Let_def)
  have r: "receive_publish 2 (Some i) stream (me_state s) = (Inr False, st)"
    using g c k assms(2) by (simp add: receive_publish_def received_key_def Let_def st_def del: hm_contains_iff)
  have a: "manual_ack_packet (s\<lparr>me_state := st\<rparr>) i 5 0 [] stream = Inr (pubrec_packet s i)"
    using pubrec_answer [of "s\<lparr>me_state := st\<rparr>" stream i] assms(2) g st by (simp add: pubrec_packet_def)
  have q: "pub_qos p = 2" "pub_packet_id p = Some i" using p by (simp_all add: qos2_message_def)
  have "receive_message p stream s =
      Inr (([], [pubrec_packet s i]), commit_receive_ack i 5 0 stream (s\<lparr>me_state := st\<rparr>))"
    using g by (simp add: receive_message_def resolve_plain [OF p] q r a st Let_def)
  then show ?thesis
    using g c st by (auto simp: commit_receive_ack_def awaits_pubrel_def Let_def)
qed

text \<open>A sequence of messages.\<close>

fun receive_messages :: "Publish5 list \<Rightarrow> u64 option \<Rightarrow> MqttEngine \<Rightarrow> reaction eng" where
  "receive_messages [] stream s = Inr (([], []), s)"
| "receive_messages (p # ps) stream s =
     tryE (receive_message p stream s) (\<lambda>((ev, rs), s).
     tryE (receive_messages ps stream s) (\<lambda>((ev', rs'), s). Inr ((ev @ ev', rs @ rs'), s)))"

lemma qos2_duplicates:
  assumes "\<forall>p \<in> set ps. qos2_message i p" and "i \<noteq> 0" and "awaits_pubrel stream i s"
  shows "\<exists>t. receive_messages ps stream s = Inr (([], replicate (length ps) (pubrec_packet s i)), t) \<and>
    awaits_pubrel stream i t \<and> me_options t = me_options s \<and>
    ps_incoming_quota_used (me_state t) = ps_incoming_quota_used (me_state s)"
  using assms(1,3)
proof (induction ps arbitrary: s)
  case (Cons p ps)
  obtain a where a: "receive_message p stream s = Inr (([], [pubrec_packet s i]), a)" "awaits_pubrel stream i a"
    "me_options a = me_options s" "ps_incoming_quota_used (me_state a) = ps_incoming_quota_used (me_state s)"
    using qos2_duplicate [OF _ assms(2) Cons.prems(2), of p] Cons.prems(1) by auto
  have e: "pubrec_packet a i = pubrec_packet s i" using a(3) by (simp add: pubrec_packet_def)
  show ?case using Cons.IH [OF _ a(2)] Cons.prems(1) a(1,3,4) e by auto
qed simp

lemma qos2_delivered_once:
  assumes "\<forall>q \<in> set (p # ps). qos2_message i q" and "i \<noteq> 0" and "o_auto_ack (me_options s)"
    and "received_key (me_state s) (stream, i) = None" "(stream, i) \<notin> ps_received_on_connection (me_state s)"
    and "ps_incoming_quota_used (me_state s) < unat (ps_incoming_receive_maximum (me_state s))"
  shows "\<exists>t. receive_messages (p # ps) stream s =
      Inr (([PublishReceived (Some i) stream, MessageReceived p], replicate (Suc (length ps)) (pubrec_packet s i)), t) \<and>
    awaits_pubrel stream i t \<and> me_options t = me_options s \<and>
    ps_incoming_quota_used (me_state t) = Suc (ps_incoming_quota_used (me_state s))"
proof -
  obtain a where a: "receive_message p stream s =
      Inr (([PublishReceived (Some i) stream, MessageReceived p], [pubrec_packet s i]), a)"
    "awaits_pubrel stream i a" "me_options a = me_options s"
    "ps_incoming_quota_used (me_state a) = Suc (ps_incoming_quota_used (me_state s))"
    using qos2_first [of i p s stream] assms by auto
  have e: "pubrec_packet a i = pubrec_packet s i" using a(3) by (simp add: pubrec_packet_def)
  show ?thesis using qos2_duplicates [OF _ assms(2) a(2), of ps] assms(1) a(1,3,4) e by auto
qed

text \<open>PUBREL ends the exchange: the identifier can be used for the next message.\<close>

lemma qos2_released:
  assumes "awaits_pubrel stream i s" and "i \<noteq> 0" and "o_auto_ack (me_options s)"
  shows "\<exists>r t. receive_pubrel i stream s = Inr (([PubRelReceived i stream], [r]), t) \<and>
    ack_of r = Some (i, 7) \<and> hm_get (ps_received (me_state t)) (stream, i) = None \<and>
    (stream, i) \<notin> ps_received_on_connection (me_state t) \<and>
    ps_incoming_quota_used (me_state t) = ps_incoming_quota_used (me_state s) - 1"
proof -
  have g: "hm_get (ps_received (me_state s)) (stream, i) = Some Stage_PubRec"
    using assms(1) by (simp add: awaits_pubrel_def)
  then have k: "hm_contains (stream, i) (ps_received (me_state s))" by (simp add: hm_contains_def del: hm_contains_iff)
  obtain st where st: "advance_pubrel (mqtt_version s) (stream, i) (me_state s) = Some (0, st)"
    "hm_get (ps_received st) (stream, i) = Some Stage_PubRel"
    "ps_incoming_quota_used st = ps_incoming_quota_used (me_state s)"
    using g k by (simp add: advance_pubrel_def received_key_def bind_received_def Let_def del: hm_contains_iff)
  define r where "r = (if mqtt_version s = 5
      then P_PubComp5 \<lparr>ack_packet_id = i, ack_reason_code = 0, ack_properties = []\<rparr>
      else P_PubComp3 \<lparr>ack3_message_id = i\<rparr>)"
  have "manual_ack_packet (s\<lparr>me_state := st\<rparr>) i 7 0 [] stream = Inr r"
    using st(2) assms(2) by (simp add: manual_ack_packet_def ack_expected_def r_def)
  then have "receive_pubrel i stream s = Inr (([PubRelReceived i stream], [r]),
      commit_receive_ack i 7 0 stream (s\<lparr>me_state := st\<rparr>))"
    using st(1) assms(2,3) by (simp add: receive_pubrel_def Let_def)
  then show ?thesis
    using st(3) by (auto simp: commit_receive_ack_def r_def ack_of_def Let_def)
qed

section \<open>Session resumption\<close>

lemma restore_entry_effect:
  "me_session_replay (restore_entry b (i, p) s) = me_session_replay s @
     (if b \<and> is_quota_packet p then [(i, canonical (set_dup True p))] else [])"
  "me_events (restore_entry b (i, p) s) = me_events s @
     (if b \<and> is_quota_packet p then [] else [OperationFailed (operation_of p) (Some i) SessionExpired])"
  by (simp_all add: restore_entry_def fail_operation_def finish_operation_def Let_def)

lemma restore_replay:
  "me_session_replay (fold (restore_entry b) xs s) = me_session_replay s @
     map (\<lambda>(i, p). (i, canonical (set_dup True p))) (filter (\<lambda>(i, p). b \<and> is_quota_packet p) xs)"
  by (induction xs arbitrary: s) (auto simp: restore_entry_effect)

lemma restore_events:
  "me_events (fold (restore_entry b) xs s) = me_events s @
     map (\<lambda>(i, p). OperationFailed (operation_of p) (Some i) SessionExpired)
       (filter (\<lambda>(i, p). \<not> (b \<and> is_quota_packet p)) xs)"
  by (induction xs arbitrary: s) (auto simp: restore_entry_effect)

end
