(* ===== verification/Engine_Scenarios.thy ===== *)
theory Engine_Scenarios
  imports Engine_Behaviour "HOL-Library.Code_Target_Nat"
begin

text \<open>
  Runs of the engine on concrete calls, evaluated by rewriting with the definitions: a connection that
  is set up and carries a message, and a run in which a packet identifier is used twice.
\<close>

lemma perform_all_append:
  "perform_all (cs @ ds) s = tryE (perform_all cs s) (\<lambda>s. perform_all ds s)"
proof (induction cs arbitrary: s)
  case (Cons c cs)
  obtain call now where "c = (call, now)" by fastforce
  then show ?case using Cons.IH by (cases "perform call now s") simp_all
qed simp

section \<open>Calls\<close>

definition example_options :: MqttClientOptions where
  "example_options = MqttClientOptions_default\<lparr>o_client_id := [99], o_mqtt_version := 4,
     o_sessionless := True, o_max_outgoing_packet_count := 2\<rparr>"

definition example_engine :: MqttEngine where
  "example_engine = MqttEngine_new_at example_options 0"

text \<open>A QoS 1 message to topic \<open>a\<close> for which the caller chose identifier 5.\<close>

definition example_publish :: PublishCommand where
  "example_publish = \<lparr>pc_topic_name = [97], pc_payload = [], pc_qos = 1, pc_retain = False, pc_dup = False,
     pc_packet_id = Some 5, pc_properties = [], pc_priority = 0\<rparr>"

definition example_packet :: MqttPacket where
  "example_packet = P_Publish3 \<lparr>pub3_dup = False, pub3_qos = 1, pub3_retain = False,
     pub3_topic_name = [97], pub3_message_id = Some 5, pub3_payload = []\<rparr>"

text \<open>The broker accepts the connection and has no session.\<close>

definition example_connack :: engine_call where
  "example_connack = Call_incoming [0x20, 2, 0, 0]"

lemma example_engine_new: "try_new_at example_options 0 = Inr example_engine"
  by code_simp

lemma example_engine_reachable: "engine_reachable example_engine"
  by (rule created [OF example_engine_new])

section \<open>A connection\<close>

definition connect_run :: "(engine_call \<times> Timestamp) list" where
  "connect_run = [(Call_connect, 1), (example_connack, 2), (Call_publish example_publish, 3)]"

definition connected_engine :: MqttEngine where
  "connected_engine = example_engine\<lparr>me_now := 3,
     me_state := (ProtocolState_new 60)\<lparr>ps_reserved := {5}, ps_has_session := True,
       ps_control_reserve := 15, ps_replay_reserve := 7\<rparr>,
     me_session := Some ClientSession_new, me_is_connected := True,
     me_last_packet_sent := 3, me_last_packet_received := 2,
     me_outgoing_buffer := [[16, 13, 0, 4, 77, 81, 84, 84, 4, 2, 0, 60, 0, 1, 99], [50, 5, 0, 1, 97, 0, 5]],
     me_inflight_queue := (me_inflight_queue example_engine)\<lparr>
       iq_entries := [(5, \<lparr>ie_packet_id = 5, ie_packet = example_packet, ie_sent_at = 3, ie_retry_count = 0,
         ie_qos = 1, ie_stream = None\<rparr>)],
       iq_admission_order := [5], iq_deadline_queue := [(5, 5000000003)], iq_publish_quota_used := 1,
       iq_last_update := Some 3\<rparr>\<rparr>"

lemma connect_run_result: "perform_all connect_run example_engine = Inr connected_engine"
  by code_simp

lemma connected_engine_reachable: "engine_reachable connected_engine"
  by (rule perform_all_reachable [OF connect_run_result example_engine_reachable])

section \<open>An identifier that is used twice\<close>

text \<open>
  A message is sent, the client connects again, and the connection is lost before the broker answers.
  A session that is not kept fails the message and frees its identifier, but the list of exchanges
  that wait for the answer of the broker still has it.  The caller uses the identifier for the next
  message, which waits in the queue.
\<close>

definition stale_run :: "(engine_call \<times> Timestamp) list" where
  "stale_run = [(Call_publish_encoded example_publish None, 1), (Call_connect, 1), (Call_connection_lost, 1),
     (Call_publish example_publish, 1)]"

definition stale_engine :: MqttEngine where
  "stale_engine = example_engine\<lparr>me_now := 1,
     me_state := (ProtocolState_new 60)\<lparr>ps_reserved := {5}, ps_input_closed := True, ps_queued_bytes := 7,
       ps_control_reserve := 15, ps_replay_reserve := 7\<rparr>,
     me_session := Some ClientSession_new,
     me_priority_queue := \<lparr>pq_map = [(0, [example_packet])], pq_capacity = 2, pq_size = 1\<rparr>,
     me_last_packet_sent := 1, me_last_packet_received := 1,
     me_inflight_queue := (me_inflight_queue example_engine)\<lparr>iq_last_update := Some 1\<rparr>,
     me_previous_inflight := [(5, example_packet)],
     me_events := [OperationFailed Op_Publish (Some 5) SessionExpired]\<rparr>"

lemma stale_run_result: "perform_all stale_run example_engine = Inr stale_engine"
  by code_simp

lemma stale_engine_reachable: "engine_reachable stale_engine"
  by (rule perform_all_reachable [OF stale_run_result example_engine_reachable])

text \<open>
  With the next connection the old entry is failed once more, which frees the identifier of the
  message in the queue; it is given to a third message, and sending both fails.
\<close>

definition reuse_run :: "(engine_call \<times> Timestamp) list" where
  "reuse_run = [(Call_connect, 1), (Call_send_ping, 1), (example_connack, 1),
     (Call_publish example_publish, 1), (Call_take_outgoing, 1)]"

lemma reuse_run_result:
  "perform_all reuse_run stale_engine = Inl ''reserved packet ID and checked quota''"
  by code_simp

section \<open>A restart\<close>

text \<open>
  A client that keeps its session has a message in flight and, after the connection was lost, another
  one in its queue; its checkpoint is restored into a new engine.
\<close>

definition durable_options :: MqttClientOptions where
  "durable_options = example_options\<lparr>o_sessionless := False, o_clean_start := False\<rparr>"

definition durable_run :: "(engine_call \<times> Timestamp) list" where
  "durable_run = [(Call_connect, 1), (example_connack, 2), (Call_publish example_publish, 3),
     (Call_connection_lost, 4), (Call_publish (example_publish\<lparr>pc_packet_id := Some 6, pc_priority := 3\<rparr>), 5)]"

definition durable_checkpoint :: ClientSessionState where
  "durable_checkpoint = \<lparr>css_version = 1, css_peer = o_peer durable_options, css_client_id = [99],
     css_mqtt_version = 4, css_has_session = True, css_session_expiry_interval = 0,
     css_packet_id_counter = 0, css_outbound = [(5, example_packet)],
     css_queued = [(3, P_Publish3 \<lparr>pub3_dup = False, pub3_qos = 1, pub3_retain = False,
       pub3_topic_name = [97], pub3_message_id = Some 6, pub3_payload = []\<rparr>)], css_received = []\<rparr>"

lemma durable_engines:
  "try_new_at durable_options 0 = Inr (MqttEngine_new_at durable_options 0)"
  "try_new_at durable_options 7 = Inr (MqttEngine_new_at durable_options 7)"
  by code_simp+

lemma durable_run_checkpoint:
  "\<exists>s. engine_reachable s \<and> snapshot_session s = Inr durable_checkpoint"
proof -
  have "case perform_all durable_run (MqttEngine_new_at durable_options 0) of
      Inr s \<Rightarrow> snapshot_session s = Inr durable_checkpoint | Inl _ \<Rightarrow> False" by code_simp
  then show ?thesis
    using perform_all_reachable [OF _ created [OF durable_engines(1)]] by (auto split: sum.splits)
qed

lemma durable_restored:
  "\<exists>t. restore_session_state durable_checkpoint (MqttEngine_new_at durable_options 7) = Inr t"
proof -
  have "case restore_session_state durable_checkpoint (MqttEngine_new_at durable_options 7) of
      Inr t \<Rightarrow> True | Inl _ \<Rightarrow> False" by code_simp
  then show ?thesis by (auto split: sum.splits)
qed

end
