(* ===== verification/Async_Scenarios.thy ===== *)
theory Async_Scenarios
  imports Async_Client Engine_Scenarios
begin

text \<open>
  A run of the asynchronous worker on concrete rounds, evaluated by rewriting with the definitions:
  it connects, publishes, and is then disconnected or shut down while the publish is waiting.
  Every round is evaluated on its own, from the explicit state before it.
\<close>

definition example_config :: TokioAsyncClientConfig where
  "example_config = TokioAsyncClientConfig_default\<lparr>tc_receive_maximum := None, tc_topic_alias_maximum := None\<rparr>"

definition example_features :: features where
  "example_features = \<lparr>ft_tls = False, ft_rustls_tls = False, ft_quic = False\<rparr>"

definition resolved_options :: MqttClientOptions where
  "resolved_options = example_options\<lparr>o_reconnect := tc_auto_reconnect example_config,
     o_reconnect_max_delay_ms := tc_max_reconnect_delay_ms example_config,
     o_max_reconnect_attempts := tc_max_reconnect_attempts example_config,
     o_operation_timeouts := (o_operation_timeouts example_options)\<lparr>ot_connect := Some (from_millis 30000)\<rparr>\<rparr>"

definition example_worker :: worker where
  "example_worker = worker_new example_features None resolved_options example_config 0"

lemma example_resolved: "resolve_options example_config example_options = Inr resolved_options"
  by code_simp

definition round_of :: "wake \<Rightarrow> Timestamp \<Rightarrow> round" where
  "round_of wake now = \<lparr>rd_closed = [], rd_cancelled = [], rd_wake = wake, rd_clock = [now, now, now, now, now, now],
     rd_writes = [], rd_closes = [], rd_callbacks = []\<rparr>"

section \<open>States of the engine\<close>

text \<open>The states of the engine: created, connecting, connected, and with a publish in flight.\<close>

definition engine0 :: MqttEngine where "engine0 = MqttEngine_new_at resolved_options 0"

definition engine1 :: MqttEngine where "engine1 = engine0\<lparr>me_now := 1\<rparr>"

definition engine2 :: MqttEngine where
  "engine2 = engine0\<lparr>me_now := 2,
     me_state := (ProtocolState_new 60)\<lparr>ps_connecting := True, ps_control_reserve := 15,
       ps_deadlines := [((Op_Connect, None), 30000000002, 30000000000)]\<rparr>,
     me_session := Some ClientSession_new, me_last_packet_sent := 2, me_last_packet_received := 2\<rparr>"

definition engine3 :: MqttEngine where
  "engine3 = engine0\<lparr>me_now := 3, me_state := (ProtocolState_new 60)\<lparr>ps_has_session := True, ps_control_reserve := 15\<rparr>,
     me_session := Some ClientSession_new, me_is_connected := True, me_last_packet_sent := 2,
     me_last_packet_received := 3\<rparr>"

definition sent_queue :: InflightQueue where
  "sent_queue = (InflightQueue_new 65535 4 5000000000)\<lparr>
     iq_entries := [(5, \<lparr>ie_packet_id = 5, ie_packet = example_packet, ie_sent_at = 4, ie_retry_count = 0,
       ie_qos = 1, ie_stream = None\<rparr>)],
     iq_admission_order := [5], iq_deadline_queue := [(5, 5000000004)], iq_publish_quota_used := 1,
     iq_last_update := Some 4\<rparr>"

definition engine4 :: MqttEngine where
  "engine4 = engine0\<lparr>me_now := 4,
     me_state := (ProtocolState_new 60)\<lparr>ps_reserved := {5}, ps_has_session := True, ps_control_reserve := 15,
       ps_replay_reserve := 7\<rparr>,
     me_session := Some ClientSession_new, me_is_connected := True, me_last_packet_sent := 4,
     me_last_packet_received := 3, me_inflight_queue := sent_queue\<rparr>"

definition example_connection :: ConnectionResult where
  "example_connection = \<lparr>cr_reason_code = 0, cr_session_present = False, cr_properties = None\<rparr>"

text \<open>Between the calls of one round.\<close>

definition reset_engine :: MqttEngine where
  "reset_engine = engine0\<lparr>me_now := 2, me_state := (ProtocolState_new 60)\<lparr>ps_input_closed := True, ps_control_reserve := 6\<rparr>,
     me_last_packet_sent := 2, me_last_packet_received := 2\<rparr>"

definition connect_packet :: bytes where
  "connect_packet = [16, 13, 0, 4, 77, 81, 84, 84, 4, 2, 0, 60, 0, 1, 99]"

definition publish_packet :: bytes where
  "publish_packet = [50, 5, 0, 1, 97, 0, 5]"

text \<open>After a disconnect: with DISCONNECT in the buffer, taken, and ready for a new transport.\<close>

definition engine5 :: "bool \<Rightarrow> bytes list \<Rightarrow> MqttEngine" where
  "engine5 reconnect output = engine0\<lparr>me_now := 5,
     me_state := (ProtocolState_new 60)\<lparr>ps_reserved := {5}, ps_has_session := True, ps_input_closed := True,
       ps_control_reserve := 15, ps_replay_reserve := 7\<rparr>,
     me_options := resolved_options\<lparr>o_reconnect := reconnect\<rparr>,
     me_session := Some ClientSession_new, me_last_packet_sent := 5,
     me_last_packet_received := 3, me_outgoing_buffer := output, me_inflight_queue := sent_queue\<rparr>"

definition engine6 :: MqttEngine where
  "engine6 = engine0\<lparr>me_now := 5,
     me_state := (ProtocolState_new 60)\<lparr>ps_input_closed := True, ps_control_reserve := 15\<rparr>,
     me_options := resolved_options\<lparr>o_reconnect := False\<rparr>,
     me_session := Some ClientSession_new, me_last_packet_sent := 5, me_last_packet_received := 5,
     me_inflight_queue := (InflightQueue_new 65535 4 5000000000)\<lparr>iq_last_update := Some 4\<rparr>,
     me_events := [OperationFailed Op_Publish (Some 5) SessionExpired]\<rparr>"

definition is_Inr :: "'a + 'b \<Rightarrow> bool" where
  "is_Inr r = (case r of Inr _ \<Rightarrow> True | Inl _ \<Rightarrow> False)"

text \<open>The calls of the engine in the run.\<close>

lemma ticks [simp]:
  "is_Inr (next_tick_at engine0)"
  "is_Inr (next_tick_at engine1)"
  "is_Inr (next_tick_at engine2)"
  "is_Inr (next_tick_at engine3)"
  "is_Inr (next_tick_at engine4)"
  "is_Inr (next_tick_at engine6)"
  by code_simp+

lemma engine_fields [simp]:
  "reset_reconnect_state (set_reconnect True engine0) = engine0" "me_options engine0 = resolved_options"
  "me_is_connected engine3" "me_events engine1 = []" "me_events engine2 = []" "me_events engine3 = []"
  "me_events engine4 = []"
  "me_events engine6 = [OperationFailed Op_Publish (Some 5) SessionExpired]"
  by code_simp+

lemma take_outgoing1 [simp]: "host_take_outgoing 1 engine0 = Inr ([], engine1)"
  by code_simp

lemma reset2 [simp]: "host_reset_for_new_transport 2 engine1 = Inr ((), reset_engine)"
  by code_simp

lemma connect2 [simp]: "host_connect 2 reset_engine = Inr (Inr (), engine2\<lparr>me_outgoing_buffer := [connect_packet]\<rparr>)"
  by code_simp

lemma take_outgoing2 [simp]: "host_take_outgoing 2 (engine2\<lparr>me_outgoing_buffer := [connect_packet]\<rparr>) = Inr (connect_packet, engine2)"
  by code_simp

lemma incoming3 [simp]: "host_handle_incoming [0x20, 2, 0, 0] 3 engine2 = Inr ([Connected example_connection], engine3)"
  by code_simp

lemma take_outgoing3 [simp]: "host_take_outgoing 3 engine3 = Inr ([], engine3)"
  by code_simp

lemma publish4 [simp]: "host_publish example_publish 4 engine3 = Inr (Inr (Some 5), engine4\<lparr>me_outgoing_buffer := [publish_packet]\<rparr>)"
  by code_simp

lemma take_outgoing4 [simp]: "host_take_outgoing 4 (engine4\<lparr>me_outgoing_buffer := [publish_packet]\<rparr>) = Inr (publish_packet, engine4)"
  by code_simp

lemma disconnect5 [simp]: "host_try_disconnect_with 0 [] 5 engine4 = Inr (Inr (), engine5 True [[224, 0]])"
  by code_simp

lemma stop5 [simp]: "set_reconnect False (engine5 True output) = engine5 False output"
  by code_simp

lemma take_outgoing5 [simp]: "host_take_outgoing 5 (engine5 False [[224, 0]]) = Inr ([224, 0], engine5 False [])"
  by code_simp

lemma reset5 [simp]: "host_reset_for_new_transport 5 (engine5 False []) = Inr ((), engine6)"
  by code_simp

lemma take_outgoing6 [simp]: "host_take_outgoing 6 engine6 = Inr ([], engine6\<lparr>me_now := 6\<rparr>)"
  by code_simp

section \<open>Rounds\<close>

text \<open>A call of connect, the opened transport, the CONNACK of the broker, and a publish.\<close>

definition round1 :: round where "round1 = round_of (Wake_command (Some (Cmd_ConnectSync 1)) []) 1"

definition round2 :: round where "round2 = round_of (Wake_transport Attempt_opened None) 2"

definition round3 :: round where "round3 = round_of (Wake_read (Read_data [0x20, 2, 0, 0])) 3"

definition round4 :: round where "round4 = round_of (Wake_command (Some (Cmd_PublishSync example_publish 2)) []) 4"

definition worker1 :: worker where
  "worker1 = example_worker\<lparr>wk_engine := engine1, wk_state := CS_Connecting,
     wk_connecting := Some (create_transport example_features None example_config resolved_options),
     wk_pending := Pending_default\<lparr>pd_connect := [1]\<rparr>, wk_clock := [1, 1, 1, 1, 1], wk_taken := [1]\<rparr>"

definition worker2 :: worker where
  "worker2 = worker1\<lparr>wk_engine := engine2, wk_connecting := None, wk_stream := True, wk_clock := [2, 2, 2],
     wk_written := [connect_packet]\<rparr>"

definition worker3 :: worker where
  "worker3 = worker2\<lparr>wk_engine := engine3, wk_state := CS_Connected example_connection, wk_pending := Pending_default,
     wk_clock := [3, 3, 3, 3], wk_replies := [(1, Reply_connect (Inr example_connection))],
     wk_batches := [[TE_Connected example_connection]]\<rparr>"

definition worker4 :: worker where
  "worker4 = worker3\<lparr>wk_engine := engine4, wk_pending := Pending_default\<lparr>pd_publish := [(5, 2)]\<rparr>,
     wk_clock := [4, 4, 4, 4], wk_taken := [1, 2], wk_written := [connect_packet, publish_packet]\<rparr>"

lemma example_fields [simp]:
  "wk_engine example_worker = engine0" "tc_auto_reconnect example_config" "tc_priority_queue_enabled example_config"
  "tc_tcp_nodelay example_config"
  "create_transport example_features None example_config resolved_options =
     \<lparr>cf_peer = ascii ''localhost:1883'', cf_plan = Plan_Tcp (ascii ''localhost:1883''), cf_timeout = Some 30000\<rparr>"
  "connection_is_success example_connection" "connect_packet \<noteq> []" "publish_packet \<noteq> []"
  by code_simp+

lemmas worker_values = example_worker_def worker_new_def host_new_def engine0_def [symmetric] worker1_def worker2_def
  worker3_def worker4_def Pending_default_def

lemmas eval_round = run_round_def begin_round_def prune_pending_def prune_def pending_channels_def handle_wake_def
  handle_command_def finish_round_def handle_outgoing_def write_output_def engine_op_def read_clock_def next_write_def
  take_channels_def send_def start_connect_def worker_take_events_def take_events_def dispatch_events_def is_err_def
  io_error_def transport_connected_def open_transport_def read_transport_def connect_outcome_def
  answer_connects_def emit_batch_def deliver_batch_def worker_publish_sync_def worker_publish_def publish_command_def
  insert_publish_def displace_def round_of_def round1_def round2_def round3_def round4_def wake_enabled_def
  dispatch_event_def Let_def

lemma tick_known: "is_Inr r \<Longrightarrow> tryE r (\<lambda>_. y) = y"
  by (auto simp: is_Inr_def split: sum.splits)

lemma round_results:
  "run_round round1 example_worker = Inr (None, worker1)" "run_round round2 worker1 = Inr (None, worker2)"
  "run_round round3 worker2 = Inr (None, worker3)" "run_round round4 worker3 = Inr (None, worker4)"
  by (simp_all add: eval_round worker_values tick_known)

lemma rounds_enabled:
  "wake_enabled round1 (begin_round round1 example_worker)" "wake_enabled round2 (begin_round round2 worker1)"
  "wake_enabled round3 (begin_round round3 worker2)" "wake_enabled round4 (begin_round round4 worker3)"
  by (simp_all add: eval_round worker_values possible_attempt_def)

lemma example_worker_reachable: "worker_reachable example_worker"
proof -
  have "try_new_at resolved_options 0 = Inr (MqttEngine_new_at resolved_options 0)" by code_simp
  then show ?thesis unfolding example_worker_def by (rule started [OF example_resolved])
qed

lemma worker4_reachable: "worker_reachable worker4"
  by (rule worker_reachable.round [OF worker_reachable.round [OF worker_reachable.round [OF
        worker_reachable.round [OF example_worker_reachable
          rounds_enabled(1) round_results(1)] rounds_enabled(2) round_results(2)]
        rounds_enabled(3) round_results(3)] rounds_enabled(4) round_results(4)])

section \<open>The end of the connection\<close>

text \<open>A disconnect while the publish is waiting, and a round after it.\<close>

definition stopping_worker :: worker where
  "stopping_worker = worker4\<lparr>wk_clock := [5, 5, 5]\<rparr>"

definition stopped_worker :: worker where
  "stopped_worker = worker4\<lparr>wk_engine := engine6, wk_stream := False, wk_state := CS_Disconnected,
     wk_intentional_stop := True, wk_pending := Pending_default, wk_clock := [],
     wk_replies := [(1, Reply_connect (Inr example_connection)), (2, Reply_publish (Inl (OperationCancelled ''disconnect'')))],
     wk_written := [connect_packet, publish_packet, [224, 0]],
     wk_batches := [[TE_Connected example_connection], [TE_Disconnected (Some 0)]]\<rparr>"

definition idle_round :: round where "idle_round = round_of Wake_drain 6"

definition shutdown_round :: round where
  "shutdown_round = round_of (Wake_command (Some Cmd_Shutdown) [\<lparr>pa_command = example_publish, pa_channel = 4\<rparr>]) 5"

lemmas eval_stop = eval_round worker_values worker_disconnect_def pending_fail_all_def fail_connect_def fail_ping_def
  fail_publishes_def fail_subscribes_def fail_unsubscribes_def close_stream_def next_close_def emit_event_def
  stopping_worker_def stopped_worker_def shutdown_def close_admissions_def shutdown_round_def idle_round_def
  fail_pending_operation_def answer_publish_def

lemma disconnect_accepted:
  "engine_op (host_try_disconnect_with 0 []) stopping_worker =
     Inr (Inr (), worker4\<lparr>wk_engine := engine5 True [[224, 0]], wk_clock := [5, 5]\<rparr>)"
  by (simp add: eval_stop)

lemma disconnect_result: "worker_disconnect 0 [] stopping_worker = Inr (Inr (), stopped_worker)"
  by (simp add: eval_stop)

lemma idle_result: "\<exists>t. run [idle_round] stopped_worker = Inr (None, t)"
  by (simp add: eval_stop tick_known)

lemma shutdown_result:
  "\<exists>t. run [shutdown_round] worker4 = Inr (Some (Inr ()), t) \<and> wk_taken t = [1, 2, 4]"
  by (simp add: eval_stop tick_known)

text \<open>Events of which two are reported.\<close>

definition example_events :: "MqttEvent list" where
  "example_events = [PingResponse True, EventError NotConnected, PubRelReceived 7 None]"

lemma example_events_result: "\<exists>t. dispatch_events example_events worker4 = Inr ((), t)"
  by (simp add: example_events_def eval_stop answer_pings_def)

end
