(* ===== verification/Socket_Stream.thy ===== *)
theory Socket_Stream
  imports Client_Types Stream_Parser
begin

text \<open>
  The packet iterator \<open>MqttStream\<close> (\<open>src/src/mqtt_serde/parser/stream.rs\<close>) over a socket.

  A socket is the list of the results that its reads will have and of those of its writes (once this
  list is used up, a write takes everything), with the bytes it has taken so far.
\<close>

section \<open>Sockets\<close>

type_synonym os_error = "ErrorKind \<times> string"

datatype socket_read = Sock_read bytes | Sock_failed os_error

datatype socket_write = Sock_took nat | Sock_refused os_error

record TcpStream =
  tcp_reads :: "socket_read list"
  tcp_writes :: "socket_write list"
  tcp_sent :: bytes
  tcp_read_timeout :: "Duration option"

record MqttStream =
  ms_parser :: MqttParser
  ms_stream :: TcpStream

definition MqttStream_new :: "TcpStream \<Rightarrow> u8 \<Rightarrow> MqttStream" where
  "MqttStream_new stream mqtt_version = \<lparr>ms_parser = MqttParser_new mqtt_version, ms_stream = stream\<rparr>"

text \<open>One call of \<open>write\<close>: the socket takes a prefix of the data and reports its length.\<close>

definition MqttStream_write :: "bytes \<Rightarrow> MqttStream \<Rightarrow> (os_error + nat) \<times> MqttStream" where
  "MqttStream_write data ms =
     (let s = ms_stream ms; took = (\<lambda>n ws. (Inr n, ms\<lparr>ms_stream := s\<lparr>tcp_writes := ws, tcp_sent := tcp_sent s @ take n data\<rparr>\<rparr>))
      in case tcp_writes s of
        [] \<Rightarrow> took (length data) []
      | Sock_took n # ws \<Rightarrow> took (min n (length data)) ws
      | Sock_refused e # ws \<Rightarrow> (Inl e, ms\<lparr>ms_stream := s\<lparr>tcp_writes := ws\<rparr>\<rparr>))"

text \<open>\<open>next\<close> of the iterator, with the error of the read that failed.\<close>

datatype stream_error = Stream_io os_error | Stream_parse ParseError

definition erase :: "socket_read \<Rightarrow> read_result" where
  "erase r = (case r of Sock_read d \<Rightarrow> Read_Ok d | Sock_failed _ \<Rightarrow> Read_Err)"

definition failed_read :: "socket_read list \<Rightarrow> ParseError \<Rightarrow> stream_error" where
  "failed_read consumed e =
     (if e = IoError then
        case rev consumed of Sock_failed k # _ \<Rightarrow> Stream_io k | _ \<Rightarrow> Stream_parse e
      else Stream_parse e)"

definition MqttStream_next :: "MqttStream \<Rightarrow> (stream_error + MqttPacket) option \<times> MqttStream" where
  "MqttStream_next ms =
     (let reads = tcp_reads (ms_stream ms);
          (item, parser, rest) = stream_next (ms_parser ms) (map erase reads);
          n = length reads - length rest;
          ms' = ms\<lparr>ms_parser := parser, ms_stream := (ms_stream ms)\<lparr>tcp_reads := drop n reads\<rparr>\<rparr>
      in (case item of
            None \<Rightarrow> None
          | Some (Inr packet) \<Rightarrow> Some (Inr packet)
          | Some (Inl e) \<Rightarrow> Some (Inl (failed_read (take n reads) e)), ms'))"

text \<open>What is left to read: a packet uses up at least one byte.\<close>

definition left_to_read :: "MqttStream \<Rightarrow> nat" where
  "left_to_read ms = length (unread (ms_parser ms)) +
     sum_list (map (\<lambda>r. case r of Sock_read d \<Rightarrow> length d | Sock_failed _ \<Rightarrow> 0) (tcp_reads (ms_stream ms)))"

abbreviation read_bytes :: "read_result list \<Rightarrow> nat" where
  "read_bytes reads \<equiv> sum_list (map (\<lambda>r. case r of Read_Ok d \<Rightarrow> length d | Read_Err \<Rightarrow> 0) reads)"

lemma stream_next_packet_ok:
  assumes "stream_next s reads = (Some (Inr p), t, rest)" shows "parser_inv s" "mp_version s \<noteq> 0"
proof -
  have v: "mp_version s \<noteq> 0"
    using assms by (auto simp: stream_next.simps [of s] next_packet_def split: if_splits)
  moreover have "parser_inv s"
  proof (rule ccontr)
    assume "\<not> parser_inv s"
    then have "\<exists>e. parser_buffer s = Inl e" by (simp add: parser_buffer_def parser_inv_def get_from_def)
    then show False using assms v by (auto simp: stream_next.simps [of s] next_packet_def)
  qed
  ultimately show "parser_inv s" "mp_version s \<noteq> 0" by simp_all
qed

lemma stream_next_uses:
  "stream_next s reads = (Some (Inr p), t, rest) \<Longrightarrow>
   length (unread t) + read_bytes rest < length (unread s) + read_bytes reads \<and>
   (\<exists>used. reads = used @ rest)"
proof (induction reads arbitrary: s)
  case (Cons r reads)
  note inv = stream_next_packet_ok [OF Cons.prems]
  obtain x b' where n: "abs_next (mp_version s) (unread s) = (x, b')" by fastforce
  consider (packet) q where "x = Inr (Some q)" | (failed) e where "x = Inl e" | (more) "x = Inr None"
    by (metis not_Some_eq obj_sumE)
  then show ?case
  proof cases
    case packet
    then show ?thesis
      using stream_next_unfold(1) [OF inv, of q b' "r # reads"] n Cons.prems abs_next_shrinks [of "mp_version s" "unread s" q b']
      by auto
  next
    case failed
    then show ?thesis using stream_next_unfold(2) [OF inv, of e b' "r # reads"] n Cons.prems by auto
  next
    case more
    then obtain u where u: "unread u = unread s" "parser_inv u"
      "stream_next s (r # reads) = (case r # reads of
           [] \<Rightarrow> (None, u, [])
         | Read_Err # reads \<Rightarrow> (Some (Inl IoError), u, reads)
         | Read_Ok d # reads \<Rightarrow> if d = [] then (None, u, reads)
             else stream_next (u\<lparr>mp_buffer := mp_buffer u @ d\<rparr>) reads)"
      using stream_next_unfold(3) [OF inv, of b' "r # reads"] n by auto
    then obtain d where r: "r = Read_Ok d" "stream_next (u\<lparr>mp_buffer := mp_buffer u @ d\<rparr>) reads = (Some (Inr p), t, rest)"
      using Cons.prems by (auto split: read_result.splits if_splits)
    have "unread (u\<lparr>mp_buffer := mp_buffer u @ d\<rparr>) = unread s @ d"
      using u(1,2) by (simp add: parser_inv_def unread_def)
    then show ?thesis using Cons.IH [OF r(2)] r(1) by auto
  qed
next
  case Nil
  note inv = stream_next_packet_ok [OF Nil.prems]
  obtain x b' where n: "abs_next (mp_version s) (unread s) = (x, b')" by fastforce
  consider (packet) q where "x = Inr (Some q)" | (failed) e where "x = Inl e" | (more) "x = Inr None"
    by (metis not_Some_eq obj_sumE)
  then show ?case
  proof cases
    case packet
    then show ?thesis
      using stream_next_unfold(1) [OF inv, of q b' "[]"] n Nil.prems abs_next_shrinks [of "mp_version s" "unread s" q b']
      by auto
  next
    case failed
    then show ?thesis using stream_next_unfold(2) [OF inv, of e b' "[]"] n Nil.prems by auto
  next
    case more
    then show ?thesis using stream_next_unfold(3) [OF inv, of b' "[]"] n Nil.prems by auto
  qed
qed

lemma read_bytes_erase:
  "read_bytes (map erase rs) = sum_list (map (\<lambda>r. case r of Sock_read d \<Rightarrow> length d | Sock_failed _ \<Rightarrow> 0) rs)"
  by (induction rs) (auto simp: erase_def split: socket_read.splits)

lemma MqttStream_next_shrinks:
  assumes "MqttStream_next ms = (Some (Inr p), ms')" shows "left_to_read ms' < left_to_read ms"
proof -
  let ?rs = "tcp_reads (ms_stream ms)"
  obtain item t rest where s: "stream_next (ms_parser ms) (map erase ?rs) = (item, t, rest)" by (metis prod_cases3)
  then have i: "item = Some (Inr p)" and t: "ms_parser ms' = t"
    and r: "tcp_reads (ms_stream ms') = drop (length ?rs - length rest) ?rs"
    using assms by (auto simp: MqttStream_next_def Let_def split: option.splits sum.splits)
  obtain used where u: "map erase ?rs = used @ rest"
    and d: "length (unread t) + read_bytes rest < length (unread (ms_parser ms)) + read_bytes (map erase ?rs)"
    using stream_next_uses [OF s [unfolded i]] by blast
  have "length ?rs = length used + length rest" using arg_cong [OF u, of length] by simp
  then have "map erase (tcp_reads (ms_stream ms')) = rest" using u r by (simp add: drop_map [symmetric])
  then show ?thesis using d t by (simp add: left_to_read_def read_bytes_erase [symmetric])
qed

section \<open>What a stream delivers\<close>

text \<open>
  A stream whose further input, however it is cut into reads, consists of the packets \<open>ps\<close> and an
  incomplete rest \<open>r\<close>.
\<close>

definition delivers :: "u8 \<Rightarrow> MqttPacket list \<Rightarrow> bytes \<Rightarrow> MqttStream \<Rightarrow> bool" where
  "delivers v ps r ms \<longleftrightarrow> parser_inv (ms_parser ms) \<and> mp_version (ms_parser ms) = v \<and>
     (\<exists>ds. tcp_reads (ms_stream ms) = map Sock_read ds \<and> [] \<notin> set ds \<and>
       drain v (unread (ms_parser ms) @ concat ds) = (ps, None, r))"

text \<open>Reading does not touch the other direction.\<close>

definition same_output :: "MqttStream \<Rightarrow> MqttStream \<Rightarrow> bool" where
  "same_output ms ms' \<longleftrightarrow> tcp_sent (ms_stream ms') = tcp_sent (ms_stream ms) \<and>
     tcp_writes (ms_stream ms') = tcp_writes (ms_stream ms)"

lemma same_output_refl [simp]: "same_output ms ms"
  by (simp add: same_output_def)

lemma same_output_trans: "same_output ms u \<Longrightarrow> same_output u t \<Longrightarrow> same_output ms t"
  by (simp add: same_output_def)

lemma next_same_output: "MqttStream_next ms = (x, ms') \<Longrightarrow> same_output ms ms'"
  by (auto simp: MqttStream_next_def Let_def same_output_def split: prod.splits)

lemma erase_reads [simp]: "erase \<circ> Sock_read = Read_Ok"
  by (auto simp: erase_def)

lemma drain_rest: "drain v b = (ps, None, r) \<Longrightarrow> drain v r = ([], None, r)"
proof (induction v b arbitrary: ps rule: drain.induct)
  case (1 v b)
  obtain x b' where n: "abs_next v b = (x, b')" by fastforce
  consider (packet) q where "x = Inr (Some q)" | (failed) e where "x = Inl e" | (more) "x = Inr None"
    by (metis not_Some_eq obj_sumE)
  then show ?case
  proof cases
    case packet
    then obtain qs where "drain v b' = (qs, None, r)"
      using "1.prems" n by (auto simp: drain.simps [of v b] split: prod.splits)
    then show ?thesis using "1.IH" [OF n [symmetric]] packet by simp
  next
    case more
    then show ?thesis
      using "1.prems" n abs_next_keeps [OF n] by (auto simp: drain.simps [of v b] drain.simps [of v r])
  qed (use "1.prems" n in \<open>simp add: drain.simps [of v b]\<close>)
qed

lemma next_delivers_packet:
  assumes "delivers v (p # ps) r ms" and "v \<noteq> 0"
  shows "\<exists>ms'. MqttStream_next ms = (Some (Inr p), ms') \<and> delivers v ps r ms'"
proof -
  obtain ds where ds: "tcp_reads (ms_stream ms) = map Sock_read ds" "[] \<notin> set ds"
    "drain v (unread (ms_parser ms) @ concat ds) = (p # ps, None, r)" and i: "parser_inv (ms_parser ms)" "mp_version (ms_parser ms) = v"
    using assms(1) by (auto simp: delivers_def)
  obtain item t rest where s: "stream_next (ms_parser ms) (chunks ds) = (item, t, rest)" by (metis prod_cases3)
  then obtain es where es: "rest = chunks es" "[] \<notin> set es" "parser_inv t" "mp_version t = v" "item = Some (Inr p)"
    "drain v (unread t @ concat es) = (ps, None, r)"
    using stream_next_yields [OF i assms(2) ds(2)] ds(3) by (auto simp: yields_def)
  obtain used where u: "chunks ds = used @ chunks es" using stream_next_uses [of "ms_parser ms" "chunks ds" p t rest] s es by auto
  have l: "length ds = length used + length es" using arg_cong [OF u, of length] by (simp add: chunks_def)
  then have "map Read_Ok (drop (length used) ds) = map Read_Ok es" using u by (simp add: chunks_def drop_map [symmetric])
  then have e: "drop (length used) ds = es" by (rule map_injective) (simp add: inj_def)
  define ms' where "ms' = ms\<lparr>ms_parser := t, ms_stream := (ms_stream ms)\<lparr>tcp_reads := map Sock_read es\<rparr>\<rparr>"
  have "MqttStream_next ms = (Some (Inr p), ms')"
    using s es(1,5) ds(1) l e by (simp add: MqttStream_next_def Let_def chunks_def ms'_def drop_map)
  moreover have "delivers v ps r ms'" using es by (auto simp: delivers_def ms'_def)
  ultimately show ?thesis by blast
qed

lemma next_delivers_end:
  assumes "delivers v [] r ms" and "v \<noteq> 0"
  shows "\<exists>ms'. MqttStream_next ms = (None, ms') \<and> delivers v [] r ms'"
proof -
  obtain ds where ds: "tcp_reads (ms_stream ms) = map Sock_read ds" "[] \<notin> set ds"
    "drain v (unread (ms_parser ms) @ concat ds) = ([], None, r)" and i: "parser_inv (ms_parser ms)" "mp_version (ms_parser ms) = v"
    using assms(1) by (auto simp: delivers_def)
  obtain item t rest where s: "stream_next (ms_parser ms) (chunks ds) = (item, t, rest)" by (metis prod_cases3)
  then have es: "rest = []" "parser_inv t" "mp_version t = v" "item = None" "unread t = r"
    using stream_next_yields [OF i assms(2) ds(2)] ds(3) by (auto simp: yields_def chunks_def)
  have "drain v r = ([], None, r)" using drain_rest [OF ds(3)] .
  then show ?thesis
    using s es ds(1) by (auto simp: MqttStream_next_def Let_def chunks_def delivers_def)
qed

text \<open>A new connection to a peer that sends these packets.\<close>

lemma delivers_new5:
  assumes "list_all (sendable packet5_wf) ps" and "concat ds = concat (map wire ps)" and "[] \<notin> set ds"
    and "tcp_reads stream = map Sock_read ds"
  shows "delivers 5 ps [] (MqttStream_new stream 5)"
  using assms stream5.drain_complete [of ps]
  by (auto simp: delivers_def MqttStream_new_def MqttParser_new_def list_all_iff parser_inv_def unread_def)

end
