(* ===== verification/Blocking_Client.thy ===== *)
theory Blocking_Client
  imports Socket_Stream Client_Builders Client_Session
begin

text \<open>
  The blocking client, \<open>src/src/mqtt_client/client.rs\<close>: every call sends a packet and reads until its
  answer arrives, keeping what else it reads; the \<open>_send\<close> methods only send.

  \<open>TcpStream::connect\<close> is an argument of the calls that connect: the error, or the socket it returns.
  An operation returns its result with the new state of the client, also when the result is an error.
\<close>

section \<open>State\<close>

record Context =
  cx_peer :: str
  cx_session :: "ClientSession option"
  cx_mqtt_stream :: "MqttStream option"
  cx_session_present :: bool
  cx_pending_subscribes :: "(u16 \<times> str) list"
  cx_pending_unsubscribes :: "(u16 \<times> str list) list"
  cx_pending_publishes :: "(u16 \<times> str \<times> u8) list"
  cx_unhandled_packets :: "MqttPacket list"

definition Context_new :: "str \<Rightarrow> Context" where
  "Context_new peer = \<lparr>cx_peer = peer, cx_session = None, cx_mqtt_stream = None, cx_session_present = False,
     cx_pending_subscribes = [], cx_pending_unsubscribes = [], cx_pending_publishes = [], cx_unhandled_packets = []\<rparr>"

definition Context_new_with_sess :: "str \<Rightarrow> ClientSession \<Rightarrow> Context" where
  "Context_new_with_sess peer session = \<lparr>cx_peer = peer, cx_session = Some session, cx_mqtt_stream = None,
     cx_session_present = False, cx_pending_subscribes = [], cx_pending_unsubscribes = [],
     cx_pending_publishes = [], cx_unhandled_packets = []\<rparr>"

record MqttClient = Context +
  mc_options :: MqttClientOptions

definition client_of :: "Context \<Rightarrow> MqttClientOptions \<Rightarrow> MqttClient" where
  "client_of c options = Context.extend c (MqttClient.fields options)"

definition MqttClient_new :: "MqttClientOptions \<Rightarrow> MqttClient" where
  "MqttClient_new options = client_of (Context_new (o_peer options)) options"

definition MqttClient_new_with_sess :: "MqttClientOptions \<Rightarrow> ClientSession \<Rightarrow> MqttClient" where
  "MqttClient_new_with_sess options session = client_of (Context_new_with_sess (o_peer options) session) options"

text \<open>
  The errors, one constructor per place that makes one; \<open>io_kind\<close> is the kind of the \<open>io::Error\<close>.
  A failed \<open>unwrap\<close> is \<open>Io_panic\<close>.
\<close>

datatype io_error =
    Io_os os_error | Io_not_connected | Io_serialize ParseError | Io_write os_error | Io_parse ParseError
  | Io_stream stream_error | Io_no_session | Io_expected_connack | Io_no_reply string | Io_panic string

definition io_kind :: "io_error \<Rightarrow> ErrorKind" where
  "io_kind e = (case e of
     Io_os k \<Rightarrow> fst k
   | Io_not_connected \<Rightarrow> KindNotConnected
   | Io_serialize _ \<Rightarrow> InvalidData
   | Io_parse _ \<Rightarrow> InvalidData
   | Io_stream _ \<Rightarrow> InvalidData
   | Io_no_reply _ \<Rightarrow> UnexpectedEof
   | _ \<Rightarrow> OtherKind)"

type_synonym 'a call_res = "(io_error + 'a) \<times> MqttClient"

definition andThen :: "'a call_res \<Rightarrow> ('a \<Rightarrow> MqttClient \<Rightarrow> 'b call_res) \<Rightarrow> 'b call_res" where
  "andThen r f = (case r of (Inl e, c) \<Rightarrow> (Inl e, c) | (Inr x, c) \<Rightarrow> f x c)"

definition is_v3 :: "MqttClient \<Rightarrow> bool" where
  "is_v3 c \<longleftrightarrow> o_mqtt_version (mc_options c) = 3 \<or> o_mqtt_version (mc_options c) = 4"

definition convert_will_v5_to_v3 :: "Will \<Rightarrow> Will3" where
  "convert_will_v5_to_v3 will = \<lparr>w3_retain = w_will_retain will, w3_qos = w_will_qos will,
     w3_topic = w_will_topic will, w3_message = w_will_message will\<rparr>"

definition pop_unhandled_packet :: "MqttClient \<Rightarrow> MqttPacket option \<times> MqttClient" where
  "pop_unhandled_packet c = (case cx_unhandled_packets c of
     [] \<Rightarrow> (None, c)
   | p # ps \<Rightarrow> (Some p, c\<lparr>cx_unhandled_packets := ps\<rparr>))"

definition clear_unhandled_packets :: "MqttClient \<Rightarrow> MqttClient" where
  "clear_unhandled_packets c = c\<lparr>cx_unhandled_packets := []\<rparr>"

section \<open>Sending and receiving\<close>

definition client_send :: "MqttPacket \<Rightarrow> MqttClient \<Rightarrow> unit call_res" where
  "client_send packet c = (case cx_mqtt_stream c of
     None \<Rightarrow> (Inl Io_not_connected, c)
   | Some stream \<Rightarrow>
       (case MqttPacket_to_bytes packet of
          Inl e \<Rightarrow> (Inl (Io_serialize e), c)
        | Inr packet_bytes \<Rightarrow>
            (case MqttStream_write packet_bytes stream of
               (Inl e, stream) \<Rightarrow> (Inl (Io_write e), c\<lparr>cx_mqtt_stream := Some stream\<rparr>)
             | (Inr _, stream) \<Rightarrow> (Inr (), c\<lparr>cx_mqtt_stream := Some stream\<rparr>))))"

definition recv_packet :: "MqttClient \<Rightarrow> (MqttPacket option) call_res" where
  "recv_packet c = (case cx_mqtt_stream c of
     None \<Rightarrow> (Inl Io_not_connected, c)
   | Some stream \<Rightarrow>
       (let (item, stream) = MqttStream_next stream; c = c\<lparr>cx_mqtt_stream := Some stream\<rparr>
        in case item of
          Some (Inr packet) \<Rightarrow> (Inr (Some packet), c)
        | Some (Inl (Stream_io e)) \<Rightarrow> (Inl (Io_os e), c)
        | Some (Inl (Stream_parse e)) \<Rightarrow> (Inl (Io_parse e), c)
        | None \<Rightarrow> (Inr None, c)))"

text \<open>\<open>find_map\<close> over the iterator; what is not looked for goes to the unhandled packets.\<close>

function find_packet ::
  "(MqttPacket \<Rightarrow> bool) \<Rightarrow> MqttStream \<Rightarrow> MqttPacket list \<Rightarrow> (io_error + MqttPacket option) \<times> MqttStream \<times> MqttPacket list" where
  "find_packet f ms unhandled = (case MqttStream_next ms of
     (None, ms) \<Rightarrow> (Inr None, ms, unhandled)
   | (Some (Inl e), ms) \<Rightarrow> (Inl (Io_stream e), ms, unhandled)
   | (Some (Inr packet), ms) \<Rightarrow>
       if f packet then (Inr (Some packet), ms, unhandled) else find_packet f ms (unhandled @ [packet]))"
  by pat_completeness auto
termination
  by (relation "measure (\<lambda>(f, ms, us). left_to_read ms)") (auto dest: MqttStream_next_shrinks [OF sym])

declare find_packet.simps [simp del]

definition recv_for_packet :: "(MqttPacket \<Rightarrow> bool) \<Rightarrow> MqttClient \<Rightarrow> (MqttPacket option) call_res" where
  "recv_for_packet f c = (case cx_mqtt_stream c of
     None \<Rightarrow> (Inl Io_not_connected, c)
   | Some stream \<Rightarrow>
       (case find_packet f stream (cx_unhandled_packets c) of
          (r, stream, unhandled) \<Rightarrow> (r, c\<lparr>cx_mqtt_stream := Some stream, cx_unhandled_packets := unhandled\<rparr>)))"

definition client_read_timeout :: "os_error option \<Rightarrow> Duration option \<Rightarrow> MqttClient \<Rightarrow> unit call_res" where
  "client_read_timeout failure timeout c = (case cx_mqtt_stream c of
     None \<Rightarrow> (Inl Io_not_connected, c)
   | Some stream \<Rightarrow>
       (case failure of
          Some e \<Rightarrow> (Inl (Io_os e), c)
        | None \<Rightarrow> (Inr (), c\<lparr>cx_mqtt_stream :=
            Some (stream\<lparr>ms_stream := (ms_stream stream)\<lparr>tcp_read_timeout := timeout\<rparr>\<rparr>)\<rparr>)))"

section \<open>Pending operations\<close>

definition complete_subscribe :: "u16 \<Rightarrow> MqttClient \<Rightarrow> str option \<times> MqttClient" where
  "complete_subscribe i c = (hm_get (cx_pending_subscribes c) i,
     c\<lparr>cx_pending_subscribes := hm_remove i (cx_pending_subscribes c)\<rparr>)"

definition complete_unsubscribe :: "u16 \<Rightarrow> MqttClient \<Rightarrow> str list option \<times> MqttClient" where
  "complete_unsubscribe i c = (hm_get (cx_pending_unsubscribes c) i,
     c\<lparr>cx_pending_unsubscribes := hm_remove i (cx_pending_unsubscribes c)\<rparr>)"

definition complete_publish :: "u16 \<Rightarrow> MqttClient \<Rightarrow> (str \<times> u8) option \<times> MqttClient" where
  "complete_publish i c = (hm_get (cx_pending_publishes c) i,
     c\<lparr>cx_pending_publishes := hm_remove i (cx_pending_publishes c)\<rparr>)"

definition clear_pending_operations :: "MqttClient \<Rightarrow> MqttClient" where
  "clear_pending_operations c =
     c\<lparr>cx_pending_subscribes := [], cx_pending_unsubscribes := [], cx_pending_publishes := []\<rparr>"

section \<open>Connecting\<close>

definition init_session :: "MqttClient \<Rightarrow> MqttClient" where
  "init_session c =
     (if o_sessionless (mc_options c)
      then c\<lparr>cx_session := None, mc_options := (mc_options c)\<lparr>o_clean_start := True\<rparr>\<rparr>
      else if cx_session c = None then c\<lparr>cx_session := Some ClientSession_new\<rparr>
      else c)"

definition connect3_packet :: "MqttClientOptions \<Rightarrow> MqttPacket" where
  "connect3_packet opts = P_Connect3 \<lparr>con3_protocol_name = ascii ''MQTT'', con3_protocol_version = 4,
     con3_clean_session = o_clean_start opts, con3_keep_alive = o_keep_alive opts,
     con3_client_id = o_client_id opts, con3_will = map_option convert_will_v5_to_v3 (o_will opts),
     con3_username = o_username opts, con3_password = o_password opts\<rparr>"

definition connect5_packet :: "MqttClientOptions \<Rightarrow> MqttPacket" where
  "connect5_packet opts = P_Connect5 \<lparr>con_protocol_name = ascii ''MQTT'', con_protocol_version = 5,
     con_keep_alive = o_keep_alive opts, con_client_id = o_client_id opts, con_will = o_will opts,
     con_username = o_username opts, con_password = o_password opts,
     con_properties = o_connect_properties opts, con_clean_start = o_clean_start opts\<rparr>"

text \<open>The reply to CONNECT: an accepted connection without a session clears what was pending.\<close>

definition accept_connack :: "u8 \<Rightarrow> bool \<Rightarrow> Property list option \<Rightarrow> MqttClient \<Rightarrow> ConnectionResult call_res" where
  "accept_connack code present properties c =
     (let c = c\<lparr>cx_session_present := present\<rparr>;
          c = (if code = 0 \<and> \<not> present
               then clear_pending_operations (c\<lparr>cx_session := map_option cs_clear (cx_session c)\<rparr>) else c)
      in (Inr \<lparr>cr_reason_code = code, cr_session_present = present, cr_properties = properties\<rparr>, c))"

definition no_connack :: io_error where
  "no_connack = Io_no_reply ''No CONNACK received from broker''"

definition connected :: "os_error + TcpStream \<Rightarrow> MqttClient \<Rightarrow> ConnectionResult call_res" where
  "connected socket c = (case socket of
     Inl _ \<Rightarrow> (Inl no_connack, c)
   | Inr stream \<Rightarrow>
       (let c = init_session c in
        if is_v3 c then
          andThen (client_send (connect3_packet (mc_options c))
              (c\<lparr>cx_mqtt_stream := Some (MqttStream_new stream (o_mqtt_version (mc_options c)))\<rparr>)) (\<lambda>_ c.
          andThen (recv_packet c) (\<lambda>packet c. case packet of
            None \<Rightarrow> (Inl no_connack, c)
          | Some (P_ConnAck3 connack) \<Rightarrow> accept_connack (ca3_return_code connack) (ca3_session_present connack) None c
          | Some _ \<Rightarrow> (Inl Io_expected_connack, c)))
        else
          andThen (client_send (connect5_packet (mc_options c))
              (c\<lparr>cx_mqtt_stream := Some (MqttStream_new stream 5)\<rparr>)) (\<lambda>_ c.
          andThen (recv_packet c) (\<lambda>packet c. case packet of
            None \<Rightarrow> (Inl no_connack, c)
          | Some (P_ConnAck5 connack) \<Rightarrow>
              accept_connack (ca_reason_code connack) (ca_session_present connack) (ca_properties connack) c
          | Some _ \<Rightarrow> (Inl Io_expected_connack, c)))))"

definition connect_send :: "os_error + TcpStream \<Rightarrow> MqttClient \<Rightarrow> unit call_res" where
  "connect_send socket c = (case socket of
     Inl e \<Rightarrow> (Inl (Io_os e), c)
   | Inr stream \<Rightarrow>
       (let c = init_session c
        in client_send (connect5_packet (mc_options c)) (c\<lparr>cx_mqtt_stream := Some (MqttStream_new stream 5)\<rparr>)))"

section \<open>Calls that wait for an answer\<close>

definition with_session ::
  "(u16 \<Rightarrow> MqttClient \<Rightarrow> 'a call_res) \<Rightarrow> MqttClient \<Rightarrow> 'a call_res" where
  "with_session f c = (case cx_session c of
     None \<Rightarrow> (Inl Io_no_session, c)
   | Some session \<Rightarrow> (let (i, session) = cs_next_packet_id session in f i (c\<lparr>cx_session := Some session\<rparr>)))"

text \<open>A packet that the predicate let through and that has another form is kept as unhandled.\<close>

definition await ::
  "(MqttPacket \<Rightarrow> bool) \<Rightarrow> (MqttPacket \<Rightarrow> 'a option) \<Rightarrow> string \<Rightarrow> MqttClient \<Rightarrow> 'a call_res" where
  "await expected result missing c =
     andThen (recv_for_packet expected c) (\<lambda>packet c. case packet of
       None \<Rightarrow> (Inl (Io_no_reply missing), c)
     | Some p \<Rightarrow> (case result p of
           Some r \<Rightarrow> (Inr r, c)
         | None \<Rightarrow> (Inl (Io_no_reply missing), c\<lparr>cx_unhandled_packets := cx_unhandled_packets c @ [p]\<rparr>)))"

definition is_suback :: "bool \<Rightarrow> u16 \<Rightarrow> MqttPacket \<Rightarrow> bool" where
  "is_suback v3 i p = (case p of
     P_SubAck3 a \<Rightarrow> v3 \<and> suback3_message_id a = i
   | P_SubAck5 a \<Rightarrow> \<not> v3 \<and> suback_packet_id a = i
   | _ \<Rightarrow> False)"

definition suback_result :: "MqttPacket \<Rightarrow> AckResult option" where
  "suback_result p = (case p of
     P_SubAck3 a \<Rightarrow> Some \<lparr>kr_packet_id = suback3_message_id a, kr_reason_codes = suback3_return_codes a, kr_properties = []\<rparr>
   | P_SubAck5 a \<Rightarrow> Some \<lparr>kr_packet_id = suback_packet_id a, kr_reason_codes = suback_reason_codes a,
       kr_properties = suback_properties a\<rparr>
   | _ \<Rightarrow> None)"

definition subscribe_packet_of :: "bool \<Rightarrow> u16 \<Rightarrow> str \<Rightarrow> u8 \<Rightarrow> MqttPacket" where
  "subscribe_packet_of v3 i topic qos =
     (if v3 then P_Subscribe3 \<lparr>sub3_message_id = i, sub3_subscriptions = [\<lparr>st_topic_filter = topic, st_qos = qos\<rparr>]\<rparr>
      else P_Subscribe5 \<lparr>sub_packet_id = i, sub_subscriptions = [TopicSubscription_new_simple topic qos], sub_properties = []\<rparr>)"

definition subscribed :: "str \<Rightarrow> u8 \<Rightarrow> MqttClient \<Rightarrow> AckResult call_res" where
  "subscribed topic qos = with_session (\<lambda>i c.
     andThen (client_send (subscribe_packet_of (is_v3 c) i topic qos) c) (\<lambda>_ c.
     await (is_suback (is_v3 c) i) suback_result ''No SUBACK received from broker'' c))"

definition is_unsuback :: "bool \<Rightarrow> u16 \<Rightarrow> MqttPacket \<Rightarrow> bool" where
  "is_unsuback v3 i p = (case p of
     P_UnsubAck3 a \<Rightarrow> v3 \<and> ack3_message_id a = i
   | P_UnsubAck5 a \<Rightarrow> \<not> v3 \<and> suback_packet_id a = i
   | _ \<Rightarrow> False)"

definition unsuback_result :: "nat \<Rightarrow> MqttPacket \<Rightarrow> AckResult option" where
  "unsuback_result n p = (case p of
     P_UnsubAck3 a \<Rightarrow> Some \<lparr>kr_packet_id = ack3_message_id a, kr_reason_codes = replicate n 0, kr_properties = []\<rparr>
   | P_UnsubAck5 a \<Rightarrow> Some \<lparr>kr_packet_id = suback_packet_id a, kr_reason_codes = suback_reason_codes a,
       kr_properties = suback_properties a\<rparr>
   | _ \<Rightarrow> None)"

definition unsubscribe_packet_of :: "bool \<Rightarrow> u16 \<Rightarrow> str list \<Rightarrow> MqttPacket" where
  "unsubscribe_packet_of v3 i topics =
     (if v3 then P_Unsubscribe3 \<lparr>unsub3_message_id = i, unsub3_topic_filters = topics\<rparr>
      else P_Unsubscribe5 \<lparr>unsub_packet_id = i, unsub_topic_filters = topics, unsub_properties = []\<rparr>)"

definition unsubscribed :: "str list \<Rightarrow> MqttClient \<Rightarrow> AckResult call_res" where
  "unsubscribed topics = with_session (\<lambda>i c.
     andThen (client_send (unsubscribe_packet_of (is_v3 c) i topics) c) (\<lambda>_ c.
     await (is_unsuback (is_v3 c) i) (unsuback_result (length topics)) ''No UNSUBACK received from broker'' c))"

definition unsubscribed_single :: "str \<Rightarrow> MqttClient \<Rightarrow> AckResult call_res" where
  "unsubscribed_single topic = unsubscribed [topic]"

section \<open>Publishing\<close>

definition publish_packet_of :: "bool \<Rightarrow> u16 option \<Rightarrow> str \<Rightarrow> bytes \<Rightarrow> u8 \<Rightarrow> bool \<Rightarrow> MqttPacket" where
  "publish_packet_of v3 i topic payload qos retain =
     (if v3 then P_Publish3 \<lparr>pub3_dup = False, pub3_qos = qos, pub3_retain = retain, pub3_topic_name = topic,
        pub3_message_id = i, pub3_payload = payload\<rparr>
      else P_Publish5 \<lparr>pub_topic_name = topic, pub_qos = qos, pub_dup = False, pub_retain = retain,
        pub_packet_id = i, pub_payload = payload, pub_properties = []\<rparr>)"

text \<open>The first acknowledgement of a kind with the identifier, and the result it stands for.\<close>

definition is_puback :: "bool \<Rightarrow> u16 \<Rightarrow> MqttPacket \<Rightarrow> bool" where
  "is_puback v3 i p = (case p of
     P_PubAck3 a \<Rightarrow> v3 \<and> ack3_message_id a = i | P_PubAck5 a \<Rightarrow> \<not> v3 \<and> ack_packet_id a = i | _ \<Rightarrow> False)"

definition is_pubrec :: "bool \<Rightarrow> u16 \<Rightarrow> MqttPacket \<Rightarrow> bool" where
  "is_pubrec v3 i p = (case p of
     P_PubRec3 a \<Rightarrow> v3 \<and> ack3_message_id a = i | P_PubRec5 a \<Rightarrow> \<not> v3 \<and> ack_packet_id a = i | _ \<Rightarrow> False)"

definition is_pubcomp :: "bool \<Rightarrow> u16 \<Rightarrow> MqttPacket \<Rightarrow> bool" where
  "is_pubcomp v3 i p = (case p of
     P_PubComp3 a \<Rightarrow> v3 \<and> ack3_message_id a = i | P_PubComp5 a \<Rightarrow> \<not> v3 \<and> ack_packet_id a = i | _ \<Rightarrow> False)"

definition ack3_result :: "u8 \<Rightarrow> Ack3 \<Rightarrow> PublishResult" where
  "ack3_result qos a = \<lparr>pr_packet_id = Some (ack3_message_id a), pr_reason_code = Some 0, pr_properties = None, pr_qos = qos\<rparr>"

definition ack5_result :: "u8 \<Rightarrow> Ack5 \<Rightarrow> PublishResult" where
  "ack5_result qos a = \<lparr>pr_packet_id = Some (ack_packet_id a), pr_reason_code = Some (ack_reason_code a),
     pr_properties = Some (ack_properties a), pr_qos = qos\<rparr>"

definition receive_for_puback :: "u16 option \<Rightarrow> MqttClient \<Rightarrow> PublishResult call_res" where
  "receive_for_puback packet_id c = (case packet_id of
     None \<Rightarrow> (Inl (Io_panic ''called `Option::unwrap()` on a `None` value''), c)
   | Some i \<Rightarrow>
       andThen (recv_for_packet (is_puback (is_v3 c) i) c) (\<lambda>packet c. case packet of
         Some (P_PubAck3 a) \<Rightarrow> (if is_v3 c then Inr (ack3_result 1 a) else Inl (Io_no_reply ''No PUBACK received from broker''), c)
       | Some (P_PubAck5 a) \<Rightarrow> (if is_v3 c then Inl (Io_no_reply ''No PUBACK received from broker'') else Inr (ack5_result 1 a), c)
       | _ \<Rightarrow> (Inl (Io_no_reply ''No PUBACK received from broker''), c)))"

definition pubrel_packet :: "bool \<Rightarrow> u16 \<Rightarrow> MqttPacket" where
  "pubrel_packet v3 i =
     (if v3 then P_PubRel3 \<lparr>ack3_message_id = i\<rparr>
      else P_PubRel5 \<lparr>ack_packet_id = i, ack_reason_code = 0, ack_properties = []\<rparr>)"

definition handle_qos2 :: "u16 option \<Rightarrow> MqttClient \<Rightarrow> PublishResult call_res" where
  "handle_qos2 packet_id c = (case packet_id of
     None \<Rightarrow> (Inl (Io_panic ''called `Option::unwrap()` on a `None` value''), c)
   | Some i \<Rightarrow>
       andThen (recv_for_packet (is_pubrec (is_v3 c) i) c) (\<lambda>_ c.
       andThen (client_send (pubrel_packet (is_v3 c) i) c) (\<lambda>_ c.
       andThen (recv_for_packet (is_pubcomp (is_v3 c) i) c) (\<lambda>packet c. case packet of
         Some (P_PubComp3 a) \<Rightarrow> (if is_v3 c then Inr (ack3_result 2 a) else Inl (Io_no_reply ''No PUBCOMP received from broker''), c)
       | Some (P_PubComp5 a) \<Rightarrow> (if is_v3 c then Inl (Io_no_reply ''No PUBCOMP received from broker'') else Inr (ack5_result 2 a), c)
       | _ \<Rightarrow> (Inl (Io_no_reply ''No PUBCOMP received from broker''), c)))))"

definition take_packet_id :: "u8 \<Rightarrow> ClientSession \<Rightarrow> u16 option \<times> ClientSession" where
  "take_packet_id qos session =
     (if 0 < qos then let (i, session) = cs_next_packet_id session in (Some i, session) else (None, session))"

definition published :: "str \<Rightarrow> bytes \<Rightarrow> u8 \<Rightarrow> bool \<Rightarrow> MqttClient \<Rightarrow> PublishResult call_res" where
  "published topic payload qos retain c = (case cx_session c of
     None \<Rightarrow> (Inl Io_no_session, c)
   | Some session \<Rightarrow>
       (let (packet_id, session) = take_packet_id qos session; c = c\<lparr>cx_session := Some session\<rparr> in
        andThen (client_send (publish_packet_of (is_v3 c) packet_id topic payload qos retain) c) (\<lambda>_ c.
        if qos = 1 then receive_for_puback packet_id c
        else if qos = 2 then handle_qos2 packet_id c
        else (Inr \<lparr>pr_packet_id = packet_id, pr_reason_code = None, pr_properties = None, pr_qos = qos\<rparr>, c))))"

section \<open>Disconnecting and pinging\<close>

definition disconnected :: "u8 \<Rightarrow> MqttClient \<Rightarrow> unit call_res" where
  "disconnected code c =
     client_send (if is_v3 c then P_Disconnect3 else P_Disconnect5 \<lparr>disc_reason_code = code, disc_properties = []\<rparr>) c"

definition pingd :: "MqttClient \<Rightarrow> bool call_res" where
  "pingd c =
     andThen (client_send (if is_v3 c then P_PingReq3 else P_PingReq5) c) (\<lambda>_ c.
     await (\<lambda>p. p = (if is_v3 c then P_PingResp3 else P_PingResp5))
       (\<lambda>p. if p = (if is_v3 c then P_PingResp3 else P_PingResp5) then Some True else None)
       ''No PINGRESP received from broker'' c)"

section \<open>Calls that only send\<close>

definition subscribe_send :: "str \<Rightarrow> u8 \<Rightarrow> MqttClient \<Rightarrow> u16 call_res" where
  "subscribe_send topic qos = with_session (\<lambda>i c.
     andThen (client_send (subscribe_packet_of False i topic qos) c) (\<lambda>_ c.
     (Inr i, c\<lparr>cx_pending_subscribes := hm_insert i topic (cx_pending_subscribes c)\<rparr>)))"

definition unsubscribe_send :: "str list \<Rightarrow> MqttClient \<Rightarrow> u16 call_res" where
  "unsubscribe_send topics = with_session (\<lambda>i c.
     andThen (client_send (unsubscribe_packet_of False i topics) c) (\<lambda>_ c.
     (Inr i, c\<lparr>cx_pending_unsubscribes := hm_insert i topics (cx_pending_unsubscribes c)\<rparr>)))"

definition unsubscribe_send_single :: "str \<Rightarrow> MqttClient \<Rightarrow> u16 call_res" where
  "unsubscribe_send_single topic = unsubscribe_send [topic]"

definition publish_send :: "str \<Rightarrow> bytes \<Rightarrow> u8 \<Rightarrow> bool \<Rightarrow> MqttClient \<Rightarrow> (u16 option) call_res" where
  "publish_send topic payload qos retain c = (case cx_session c of
     None \<Rightarrow> (Inl Io_no_session, c)
   | Some session \<Rightarrow>
       (let (packet_id, session) = take_packet_id qos session; c = c\<lparr>cx_session := Some session\<rparr> in
        andThen (client_send (publish_packet_of False packet_id topic payload qos retain) c) (\<lambda>_ c.
        (Inr packet_id, case packet_id of
           None \<Rightarrow> c
         | Some i \<Rightarrow> c\<lparr>cx_pending_publishes := hm_insert i (topic, qos) (cx_pending_publishes c)\<rparr>))))"

definition ping_send :: "MqttClient \<Rightarrow> unit call_res" where
  "ping_send c = client_send P_PingReq5 c"

definition disconnect_send :: "MqttClient \<Rightarrow> unit call_res" where
  "disconnect_send c = client_send (P_Disconnect5 Disconnect5_new_normal) c"

section \<open>Waiting for an answer\<close>

lemma find_packet_delivers:
  assumes "delivers v ps r ms" and "v \<noteq> 0"
  shows "\<exists>ms'. find_packet f ms us = (Inr (find f ps), ms', us @ takeWhile (\<lambda>x. \<not> f x) ps) \<and>
     delivers v (tl (dropWhile (\<lambda>x. \<not> f x) ps)) r ms' \<and> same_output ms ms'"
  using assms
proof (induction ps arbitrary: ms us)
  case Nil
  then obtain ms' where n: "MqttStream_next ms = (None, ms')" "delivers v [] r ms'" using next_delivers_end by blast
  then show ?case using next_same_output [OF n(1)] by (auto simp: find_packet.simps [of f ms])
next
  case (Cons p ps)
  then obtain ms' where n: "MqttStream_next ms = (Some (Inr p), ms')" "delivers v ps r ms'"
    using next_delivers_packet by blast
  show ?case
  proof (cases "f p")
    case True
    then show ?thesis using n next_same_output [OF n(1)] by (auto simp: find_packet.simps [of f ms])
  next
    case False
    obtain t where t: "find_packet f ms' (us @ [p]) = (Inr (find f ps), t, (us @ [p]) @ takeWhile (\<lambda>x. \<not> f x) ps)"
      "delivers v (tl (dropWhile (\<lambda>x. \<not> f x) ps)) r t" "same_output ms' t"
      using Cons.IH [OF n(2) Cons.prems(2)] by blast
    have "find_packet f ms us = find_packet f ms' (us @ [p])" using n(1) False by (simp add: find_packet.simps [of f ms])
    then show ?thesis
      using t False same_output_trans [OF next_same_output [OF n(1)] t(3)] by auto
  qed
qed

text \<open>
  A call that waits for a packet returns the first one that matches, keeps the ones before it, in
  order, and leaves the rest for the next call.
\<close>

lemma recv_for_packet_delivers:
  assumes "cx_mqtt_stream c = Some ms" and "delivers v ps r ms" and "v \<noteq> 0"
  shows "\<exists>ms'. recv_for_packet f c = (Inr (find f ps), c\<lparr>cx_mqtt_stream := Some ms',
       cx_unhandled_packets := cx_unhandled_packets c @ takeWhile (\<lambda>x. \<not> f x) ps\<rparr>) \<and>
     delivers v (tl (dropWhile (\<lambda>x. \<not> f x) ps)) r ms' \<and> same_output ms ms'"
  using find_packet_delivers [OF assms(2,3), of f "cx_unhandled_packets c"] assms(1)
  by (auto simp: recv_for_packet_def)

lemma find_first:
  assumes "f p" and "list_all (\<lambda>x. \<not> f x) qs"
  shows "find f (qs @ p # ps) = Some p" "takeWhile (\<lambda>x. \<not> f x) (qs @ p # ps) = qs"
    "tl (dropWhile (\<lambda>x. \<not> f x) (qs @ p # ps)) = ps"
  using assms by (induction qs) auto

text \<open>A write to a socket that takes everything.\<close>

lemma client_send_all:
  assumes "cx_mqtt_stream c = Some ms" and "tcp_writes (ms_stream ms) = []" and "MqttPacket_to_bytes p = Inr bs"
  shows "client_send p c = (Inr (), c\<lparr>cx_mqtt_stream := Some (ms\<lparr>ms_stream := (ms_stream ms)\<lparr>
     tcp_sent := tcp_sent (ms_stream ms) @ bs\<rparr>\<rparr>)\<rparr>)"
  using assms by (simp add: client_send_def MqttStream_write_def Let_def)

lemma delivers_sent [simp]:
  "delivers v ps r (ms\<lparr>ms_stream := (ms_stream ms)\<lparr>tcp_sent := b\<rparr>\<rparr>) = delivers v ps r ms"
  by (simp add: delivers_def)

text \<open>
  The whole QoS 2 handshake of MQTT 5: PUBREC, PUBREL, PUBCOMP, with other packets in between.
\<close>

lemma recv_first:
  assumes "cx_mqtt_stream c = Some ms" and "delivers v (qs @ p # ps) r ms" and "v \<noteq> 0"
    and "f p" and "list_all (\<lambda>x. \<not> f x) qs"
  shows "\<exists>ms'. recv_for_packet f c = (Inr (Some p), c\<lparr>cx_mqtt_stream := Some ms',
       cx_unhandled_packets := cx_unhandled_packets c @ qs\<rparr>) \<and> delivers v ps r ms' \<and> same_output ms ms'"
  using recv_for_packet_delivers [OF assms(1-3), of f] find_first [OF assms(4,5)] by simp

lemma handle_qos2_delivers:
  assumes c: "cx_mqtt_stream c = Some ms" "\<not> is_v3 c"
    and d: "delivers v (qs @ P_PubRec5 rec # rs @ P_PubComp5 fin # ts) r ms" "v \<noteq> 0"
    and w: "tcp_writes (ms_stream ms) = []"
    and qs: "ack_packet_id rec = i" "list_all (\<lambda>p. \<not> is_pubrec False i p) qs"
    and rs: "ack_packet_id fin = i" "list_all (\<lambda>p. \<not> is_pubcomp False i p) rs"
    and b: "MqttPacket_to_bytes (pubrel_packet False i) = Inr bs"
  shows "\<exists>ms'. handle_qos2 (Some i) c = (Inr (ack5_result 2 fin), c\<lparr>cx_mqtt_stream := Some ms',
       cx_unhandled_packets := cx_unhandled_packets c @ qs @ rs\<rparr>) \<and>
     delivers v ts r ms' \<and> tcp_sent (ms_stream ms') = tcp_sent (ms_stream ms) @ bs"
proof -
  obtain m1 where m1: "recv_for_packet (is_pubrec False i) c = (Inr (Some (P_PubRec5 rec)), c\<lparr>cx_mqtt_stream := Some m1,
       cx_unhandled_packets := cx_unhandled_packets c @ qs\<rparr>)"
    "delivers v (rs @ P_PubComp5 fin # ts) r m1" "same_output ms m1"
    using recv_first [OF c(1) d, of "is_pubrec False i"] qs by (auto simp: is_pubrec_def)
  define c1 where "c1 = c\<lparr>cx_mqtt_stream := Some m1, cx_unhandled_packets := cx_unhandled_packets c @ qs\<rparr>"
  define m2 where "m2 = m1\<lparr>ms_stream := (ms_stream m1)\<lparr>tcp_sent := tcp_sent (ms_stream m1) @ bs\<rparr>\<rparr>"
  have s: "client_send (pubrel_packet False i) c1 = (Inr (), c1\<lparr>cx_mqtt_stream := Some m2\<rparr>)"
    using client_send_all [of c1 m1 _ bs] m1(3) w b by (simp add: c1_def m2_def same_output_def)
  have "delivers v (rs @ P_PubComp5 fin # ts) r m2" using m1(2) by (simp add: m2_def)
  then obtain m3 where m3: "recv_for_packet (is_pubcomp False i) (c1\<lparr>cx_mqtt_stream := Some m2\<rparr>) = (Inr (Some (P_PubComp5 fin)),
      c1\<lparr>cx_mqtt_stream := Some m3, cx_unhandled_packets := cx_unhandled_packets c1 @ rs\<rparr>)"
    "delivers v ts r m3" "same_output m2 m3"
    using recv_first [of "c1\<lparr>cx_mqtt_stream := Some m2\<rparr>" m2 v rs "P_PubComp5 fin" ts r "is_pubcomp False i"] d(2) rs
    by (auto simp: is_pubcomp_def)
  have v: "\<not> is_v3 c1" "\<not> is_v3 (c1\<lparr>cx_mqtt_stream := x\<rparr>)" "\<not> is_v3 (c1\<lparr>cx_mqtt_stream := x, cx_unhandled_packets := y\<rparr>)" for x y
    using c(2) by (simp_all add: c1_def is_v3_def)
  have "handle_qos2 (Some i) c = (Inr (ack5_result 2 fin), c1\<lparr>cx_mqtt_stream := Some m3, cx_unhandled_packets := cx_unhandled_packets c1 @ rs\<rparr>)"
    using m1(1) s m3(1) c(2) v by (simp add: handle_qos2_def andThen_def c1_def [symmetric])
  moreover have "tcp_sent (ms_stream m3) = tcp_sent (ms_stream ms) @ bs"
    using m3(3) m1(3) by (simp add: same_output_def m2_def)
  ultimately show ?thesis using m3(2) by (auto simp: c1_def)
qed

lemma published_qos2:
  assumes c: "cx_session c = Some s" "cs_next_packet_id s = (i, s')" "cx_mqtt_stream c = Some ms" "\<not> is_v3 c"
    and d: "delivers v (qs @ P_PubRec5 rec # rs @ P_PubComp5 fin # ts) r ms" "v \<noteq> 0"
    and w: "tcp_writes (ms_stream ms) = []"
    and qs: "ack_packet_id rec = i" "list_all (\<lambda>p. \<not> is_pubrec False i p) qs"
    and rs: "ack_packet_id fin = i" "list_all (\<lambda>p. \<not> is_pubcomp False i p) rs"
    and b: "MqttPacket_to_bytes (publish_packet_of False (Some i) topic payload 2 retain) = Inr pub"
      "MqttPacket_to_bytes (pubrel_packet False i) = Inr rel"
  shows "\<exists>c' ms'. published topic payload 2 retain c = (Inr (ack5_result 2 fin), c') \<and>
     cx_unhandled_packets c' = cx_unhandled_packets c @ qs @ rs \<and> cx_mqtt_stream c' = Some ms' \<and>
     delivers v ts r ms' \<and> tcp_sent (ms_stream ms') = tcp_sent (ms_stream ms) @ pub @ rel"
proof -
  let ?c = "c\<lparr>cx_session := Some s'\<rparr>"
  define m where "m = ms\<lparr>ms_stream := (ms_stream ms)\<lparr>tcp_sent := tcp_sent (ms_stream ms) @ pub\<rparr>\<rparr>"
  have v: "\<not> is_v3 ?c" "\<not> is_v3 (?c\<lparr>cx_mqtt_stream := x\<rparr>)" for x using c(4) by (simp_all add: is_v3_def)
  have s: "client_send (publish_packet_of False (Some i) topic payload 2 retain) ?c = (Inr (), ?c\<lparr>cx_mqtt_stream := Some m\<rparr>)"
    using client_send_all [of ?c ms _ pub] c(3) w b(1) by (simp add: m_def)
  have "delivers v (qs @ P_PubRec5 rec # rs @ P_PubComp5 fin # ts) r m" "tcp_writes (ms_stream m) = []"
    using d(1) w by (simp_all add: m_def)
  then obtain ms' where "handle_qos2 (Some i) (?c\<lparr>cx_mqtt_stream := Some m\<rparr>) = (Inr (ack5_result 2 fin),
       ?c\<lparr>cx_mqtt_stream := Some ms', cx_unhandled_packets := cx_unhandled_packets c @ qs @ rs\<rparr>)"
    "delivers v ts r ms'" "tcp_sent (ms_stream ms') = tcp_sent (ms_stream m) @ rel"
    using handle_qos2_delivers [of "?c\<lparr>cx_mqtt_stream := Some m\<rparr>" m v qs rec rs fin ts r i rel] v(2) d(2) qs rs b(2) by auto
  then show ?thesis
    using c(1,2) v(1) s by (auto simp: published_def take_packet_id_def andThen_def Let_def m_def)
qed

text \<open>A short write is taken for a complete one.\<close>

lemma client_send_short:
  assumes "cx_mqtt_stream c = Some ms" and "tcp_writes (ms_stream ms) = Sock_took n # ws"
    and "MqttPacket_to_bytes p = Inr bs" and "n < length bs"
  shows "\<exists>ms'. client_send p c = (Inr (), c\<lparr>cx_mqtt_stream := Some ms'\<rparr>) \<and>
     tcp_sent (ms_stream ms') = tcp_sent (ms_stream ms) @ take n bs"
  using assms by (auto simp: client_send_def MqttStream_write_def Let_def)

end
