(* ===== verification/Thread_Client.thy ===== *)
theory Thread_Client
  imports Blocking_Client
begin

text \<open>
  The threaded client, \<open>src/src/mqtt_client/async_client.rs\<close>: a worker thread that owns a blocking
  client, executes the commands sent to it, reads what the broker sends and reports to the handler.

  The environment is a script: the outcomes of the calls of \<open>TcpStream::connect\<close> and of
  \<open>set_read_timeout\<close> (used up, the latter succeeds).  \<open>tw_events\<close> records the calls of the handler and
  \<open>tw_slept\<close> the pauses before reconnecting.  A worker that calls \<open>connect\<close> when the script is used up
  is still \<open>Waiting\<close> for it; arithmetic that overflows is \<open>Panicked\<close>, as in a build with overflow checks.
\<close>

section \<open>State\<close>

text \<open>The calls of \<open>MqttEventHandler\<close>.\<close>

datatype handler_call =
    Hc_connected ConnectionResult | Hc_disconnected "u8 option" | Hc_published PublishResult
  | Hc_subscribed AckResult | Hc_unsubscribed AckResult | Hc_message_received Publish5 | Hc_ping_response bool
  | Hc_error io_error | Hc_connection_lost | Hc_reconnect_attempt u32

datatype ClientCommand =
    TC_Connect | TC_Subscribe str u8 | TC_Publish str bytes u8 bool | TC_Unsubscribe "str list"
  | TC_Ping | TC_Disconnect | TC_Shutdown | TC_SetAutoReconnect bool

record AsyncClientConfig =
  ak_auto_reconnect :: bool
  ak_reconnect_delay_ms :: u64
  ak_max_reconnect_delay_ms :: u64
  ak_max_reconnect_attempts :: u32
  ak_command_queue_size :: nat
  ak_buffer_messages :: bool
  ak_max_buffer_size :: nat

definition AsyncClientConfig_default :: AsyncClientConfig where
  "AsyncClientConfig_default = \<lparr>ak_auto_reconnect = True, ak_reconnect_delay_ms = 1000,
     ak_max_reconnect_delay_ms = 30000, ak_max_reconnect_attempts = 0, ak_command_queue_size = 100,
     ak_buffer_messages = True, ak_max_buffer_size = 1000\<rparr>"

record ClientWorker =
  tw_client :: MqttClient
  tw_config :: AsyncClientConfig
  tw_is_connected :: bool
  tw_is_connecting :: bool
  tw_reconnect_attempts :: u32
  tw_message_buffer :: "(str \<times> bytes \<times> u8 \<times> bool) list"
  tw_pending_subscribes :: "(str \<times> u8) list"
  tw_connects :: "(os_error + TcpStream) list"
  tw_timeouts :: "os_error option list"
  tw_events :: "handler_call list"
  tw_slept :: "u64 list"

definition ClientWorker_new :: "MqttClientOptions \<Rightarrow> AsyncClientConfig \<Rightarrow> ClientWorker" where
  "ClientWorker_new opts config = \<lparr>tw_client = MqttClient_new opts, tw_config = config, tw_is_connected = False,
     tw_is_connecting = False, tw_reconnect_attempts = 0, tw_message_buffer = [], tw_pending_subscribes = [],
     tw_connects = [], tw_timeouts = [], tw_events = [], tw_slept = []\<rparr>"

datatype stop = Panicked string | Waiting

type_synonym thread_res = "stop + ClientWorker"

definition notify :: "handler_call \<Rightarrow> ClientWorker \<Rightarrow> ClientWorker" where
  "notify ev w = w\<lparr>tw_events := tw_events w @ [ev]\<rparr>"

definition next_timeout :: "ClientWorker \<Rightarrow> os_error option \<times> ClientWorker" where
  "next_timeout w = (case tw_timeouts w of [] \<Rightarrow> (None, w) | x # xs \<Rightarrow> (x, w\<lparr>tw_timeouts := xs\<rparr>))"

section \<open>Connecting\<close>

text \<open>\<open>reconnect_delay_ms * (1 << (reconnect_attempts - 1))\<close>, capped.\<close>

definition reconnect_delay :: "AsyncClientConfig \<Rightarrow> u32 \<Rightarrow> string + u64" where
  "reconnect_delay config attempts =
     (let shift = unat (attempts - 1) in
      if 64 \<le> shift then Inl ''attempt to shift left with overflow''
      else if 2 ^ 64 \<le> unat (ak_reconnect_delay_ms config) * 2 ^ shift then Inl ''attempt to multiply with overflow''
      else Inr (min (ak_reconnect_delay_ms config * 2 ^ shift) (ak_max_reconnect_delay_ms config)))"

definition try_connect :: "os_error + TcpStream \<Rightarrow> ClientWorker \<Rightarrow> (io_error + unit) \<times> ClientWorker" where
  "try_connect socket w =
     (case connect_send socket (tw_client w) of
        (Inl e, c) \<Rightarrow> (Inl e, w\<lparr>tw_client := c\<rparr>)
      | (Inr _, c) \<Rightarrow>
          (let (failure, w) = next_timeout w;
               (r, c) = client_read_timeout failure (Some (from_millis 100)) c
           in (r, w\<lparr>tw_client := c\<rparr>)))"

function handle_connect :: "ClientWorker \<Rightarrow> thread_res" and schedule_reconnect :: "ClientWorker \<Rightarrow> thread_res" where
  "handle_connect w = (case tw_connects w of
     [] \<Rightarrow> Inl Waiting
   | socket # rest \<Rightarrow>
       (let (r, v) = try_connect socket w; v = v\<lparr>tw_connects := rest\<rparr>
        in case r of
          Inr _ \<Rightarrow> Inr (v\<lparr>tw_is_connecting := True\<rparr>)
        | Inl e \<Rightarrow>
            (let v = notify (Hc_error e) (v\<lparr>tw_is_connecting := False\<rparr>)
             in if ak_auto_reconnect (tw_config v) then schedule_reconnect v else Inr v)))"
| "schedule_reconnect w =
     (let config = tw_config w in
      if 0 < ak_max_reconnect_attempts config \<and> ak_max_reconnect_attempts config \<le> tw_reconnect_attempts w then Inr w
      else if tw_reconnect_attempts w = - 1 then Inl (Panicked ''attempt to add with overflow'')
      else
        (let n = tw_reconnect_attempts w + 1;
             w = notify (Hc_reconnect_attempt n) (w\<lparr>tw_reconnect_attempts := n\<rparr>)
         in case reconnect_delay config n of
           Inl m \<Rightarrow> Inl (Panicked m)
         | Inr d \<Rightarrow> handle_connect (w\<lparr>tw_slept := tw_slept w @ [d]\<rparr>)))"
  by pat_completeness auto
termination
  by (relation "measure (\<lambda>x. case x of Inl w \<Rightarrow> 2 * length (tw_connects w) | Inr w \<Rightarrow> 2 * length (tw_connects w) + 1)")
    (auto simp: notify_def split: prod.splits)

declare handle_connect.simps [simp del] schedule_reconnect.simps [simp del]

definition handle_connection_lost :: "ClientWorker \<Rightarrow> thread_res" where
  "handle_connection_lost w =
     (if tw_is_connected w \<or> tw_is_connecting w then
        let w = notify Hc_connection_lost (w\<lparr>tw_is_connected := False, tw_is_connecting := False\<rparr>)
        in if ak_auto_reconnect (tw_config w) then schedule_reconnect w else Inr w
      else Inr w)"

section \<open>Commands\<close>

definition handle_subscribe :: "str \<Rightarrow> u8 \<Rightarrow> ClientWorker \<Rightarrow> ClientWorker" where
  "handle_subscribe topic qos w =
     (let (r, c) = subscribe_send topic qos (tw_client w);
          w = (case r of Inr _ \<Rightarrow> w\<lparr>tw_client := c\<rparr> | Inl e \<Rightarrow> notify (Hc_error e) (w\<lparr>tw_client := c\<rparr>))
      in w\<lparr>tw_pending_subscribes := hm_insert topic qos (tw_pending_subscribes w)\<rparr>)"

definition buffer_message :: "str \<Rightarrow> bytes \<Rightarrow> u8 \<Rightarrow> bool \<Rightarrow> ClientWorker \<Rightarrow> ClientWorker" where
  "buffer_message topic payload qos retain w =
     (if length (tw_message_buffer w) < ak_max_buffer_size (tw_config w)
      then w\<lparr>tw_message_buffer := tw_message_buffer w @ [(topic, payload, qos, retain)]\<rparr> else w)"

definition handle_publish :: "str \<Rightarrow> bytes \<Rightarrow> u8 \<Rightarrow> bool \<Rightarrow> ClientWorker \<Rightarrow> ClientWorker" where
  "handle_publish topic payload qos retain w =
     (let (r, c) = publish_send topic payload qos retain (tw_client w); w = w\<lparr>tw_client := c\<rparr>
      in case r of
        Inr packet_id \<Rightarrow>
          if qos = 0
          then notify (Hc_published \<lparr>pr_packet_id = packet_id, pr_reason_code = None, pr_properties = None, pr_qos = qos\<rparr>) w
          else w
      | Inl e \<Rightarrow>
          (let w = notify (Hc_error e) w
           in if ak_buffer_messages (tw_config w) then buffer_message topic payload qos retain w else w))"

definition forget_topics :: "str list \<Rightarrow> ClientWorker \<Rightarrow> ClientWorker" where
  "forget_topics topics w = w\<lparr>tw_pending_subscribes := fold hm_remove topics (tw_pending_subscribes w)\<rparr>"

definition handle_unsubscribe :: "str list \<Rightarrow> ClientWorker \<Rightarrow> ClientWorker" where
  "handle_unsubscribe topics w =
     (let (r, c) = unsubscribe_send topics (tw_client w);
          w = (case r of Inr _ \<Rightarrow> w\<lparr>tw_client := c\<rparr> | Inl e \<Rightarrow> notify (Hc_error e) (w\<lparr>tw_client := c\<rparr>))
      in forget_topics topics w)"

definition handle_ping :: "ClientWorker \<Rightarrow> thread_res" where
  "handle_ping w = (case ping_send (tw_client w) of
     (Inr _, c) \<Rightarrow> Inr (w\<lparr>tw_client := c\<rparr>)
   | (Inl e, c) \<Rightarrow> handle_connection_lost (notify (Hc_error e) (w\<lparr>tw_client := c\<rparr>)))"

definition handle_disconnect :: "ClientWorker \<Rightarrow> ClientWorker" where
  "handle_disconnect w =
     (let w = w\<lparr>tw_is_connecting := False\<rparr>
      in case disconnect_send (tw_client w) of
        (Inr _, c) \<Rightarrow> notify (Hc_disconnected (Some 0)) (w\<lparr>tw_client := c, tw_is_connected := False\<rparr>)
      | (Inl e, c) \<Rightarrow>
          notify (Hc_disconnected None) (notify (Hc_error e) (w\<lparr>tw_client := c, tw_is_connected := False\<rparr>)))"

text \<open>\<open>False\<close> ends the loop of the worker.\<close>

definition thread_command :: "ClientCommand \<Rightarrow> ClientWorker \<Rightarrow> stop + bool \<times> ClientWorker" where
  "thread_command command w =
     (let continue = (\<lambda>r. tryE r (\<lambda>w. Inr (True, w)))
      in case command of
        TC_Connect \<Rightarrow> continue (handle_connect w)
      | TC_Subscribe topic qos \<Rightarrow> Inr (True, handle_subscribe topic qos w)
      | TC_Publish topic payload qos retain \<Rightarrow> Inr (True, handle_publish topic payload qos retain w)
      | TC_Unsubscribe topics \<Rightarrow> Inr (True, handle_unsubscribe topics w)
      | TC_Ping \<Rightarrow> continue (handle_ping w)
      | TC_Disconnect \<Rightarrow> Inr (True, handle_disconnect w)
      | TC_Shutdown \<Rightarrow> Inr (False, w)
      | TC_SetAutoReconnect _ \<Rightarrow> Inr (True, w))"

section \<open>Incoming packets\<close>

definition process_buffered_messages :: "ClientWorker \<Rightarrow> ClientWorker" where
  "process_buffered_messages w =
     fold (\<lambda>(topic, payload, qos, retain). handle_publish topic payload qos retain) (tw_message_buffer w)
       (w\<lparr>tw_message_buffer := []\<rparr>)"

definition resubscribe_pending :: "ClientWorker \<Rightarrow> ClientWorker" where
  "resubscribe_pending w = fold (\<lambda>(topic, qos). handle_subscribe topic qos) (tw_pending_subscribes w) w"

abbreviation on_client :: "(MqttClient \<Rightarrow> 'a \<times> MqttClient) \<Rightarrow> ClientWorker \<Rightarrow> ClientWorker" where
  "on_client f w \<equiv> w\<lparr>tw_client := snd (f (tw_client w))\<rparr>"

definition ack_result_of :: "SubAck5 \<Rightarrow> AckResult" where
  "ack_result_of a = \<lparr>kr_packet_id = suback_packet_id a, kr_reason_codes = suback_reason_codes a,
     kr_properties = suback_properties a\<rparr>"

definition thread_packet :: "MqttPacket \<Rightarrow> ClientWorker \<Rightarrow> ClientWorker" where
  "thread_packet packet w = (case packet of
     P_ConnAck5 a \<Rightarrow>
       (let w = w\<lparr>tw_is_connecting := False, tw_is_connected := ca_reason_code a = 0, tw_reconnect_attempts := 0\<rparr>;
            w = notify (Hc_connected \<lparr>cr_reason_code = ca_reason_code a, cr_session_present = ca_session_present a,
                  cr_properties = ca_properties a\<rparr>) w
        in if tw_is_connected w then resubscribe_pending (process_buffered_messages w) else w)
   | P_SubAck5 a \<Rightarrow>
       (let result = ack_result_of a;
            w = (if subscribe_is_success result then on_client (complete_subscribe (suback_packet_id a)) w else w)
        in notify (Hc_subscribed result) w)
   | P_UnsubAck5 a \<Rightarrow>
       (let (topics, c) = complete_unsubscribe (suback_packet_id a) (tw_client w);
            w = (case topics of None \<Rightarrow> w\<lparr>tw_client := c\<rparr> | Some topics \<Rightarrow> forget_topics topics (w\<lparr>tw_client := c\<rparr>))
        in notify (Hc_unsubscribed (ack_result_of a)) w)
   | P_PubAck5 a \<Rightarrow>
       notify (Hc_published (ack5_result 1 a)) (on_client (complete_publish (ack_packet_id a)) w)
   | P_PubRec5 a \<Rightarrow> w
   | P_PubComp5 a \<Rightarrow>
       notify (Hc_published (ack5_result 2 a)) (on_client (complete_publish (ack_packet_id a)) w)
   | P_PingResp5 \<Rightarrow> notify (Hc_ping_response True) w
   | P_Publish5 publish \<Rightarrow> notify (Hc_message_received publish) w
   | _ \<Rightarrow> w)"

definition handle_incoming_messages :: "ClientWorker \<Rightarrow> thread_res" where
  "handle_incoming_messages w = (case recv_packet (tw_client w) of
     (Inr (Some packet), c) \<Rightarrow> Inr (thread_packet packet (w\<lparr>tw_client := c\<rparr>))
   | (Inr None, c) \<Rightarrow> handle_connection_lost (w\<lparr>tw_client := c\<rparr>)
   | (Inl e, c) \<Rightarrow>
       if io_kind e = TimedOut \<or> io_kind e = WouldBlock then Inr (w\<lparr>tw_client := c\<rparr>)
       else handle_connection_lost (notify (Hc_error e) (w\<lparr>tw_client := c\<rparr>)))"

section \<open>The loop of the worker\<close>

text \<open>What \<open>recv_timeout\<close> returns in a round; \<open>True\<close> in the result: the thread has ended.\<close>

datatype received = Got ClientCommand | Got_nothing | Got_hangup

definition thread_round :: "received \<Rightarrow> ClientWorker \<Rightarrow> stop + bool \<times> ClientWorker" where
  "thread_round rx w =
     tryE (case rx of
             Got command \<Rightarrow> thread_command command w
           | Got_nothing \<Rightarrow> Inr (True, w)
           | Got_hangup \<Rightarrow> Inr (False, w)) (\<lambda>(continue, w).
     if \<not> continue then Inr (True, w)
     else if tw_is_connected w \<or> tw_is_connecting w
     then tryE (handle_incoming_messages w) (\<lambda>w. Inr (False, w))
     else Inr (False, w))"

fun thread_run :: "received list \<Rightarrow> ClientWorker \<Rightarrow> stop + bool \<times> ClientWorker" where
  "thread_run [] w = Inr (False, w)"
| "thread_run (rx # rest) w =
     tryE (thread_round rx w) (\<lambda>(ended, w). if ended then Inr (True, w) else thread_run rest w)"

section \<open>The client\<close>

text \<open>Every method sends a command; a worker that has ended refuses it.\<close>

definition thread_send :: "bool \<Rightarrow> ClientCommand \<Rightarrow> (ErrorKind \<times> string) + ClientCommand" where
  "thread_send running command =
     (if running then Inr command else Inl (BrokenPipe, ''Worker thread is no longer running''))"

definition thread_connect :: ClientCommand where "thread_connect = TC_Connect"

definition thread_subscribe :: "str \<Rightarrow> u8 \<Rightarrow> ClientCommand" where "thread_subscribe topic qos = TC_Subscribe topic qos"

definition thread_publish :: "str \<Rightarrow> bytes \<Rightarrow> u8 \<Rightarrow> bool \<Rightarrow> ClientCommand" where
  "thread_publish topic payload qos retain = TC_Publish topic payload qos retain"

definition thread_unsubscribe :: "str list \<Rightarrow> ClientCommand" where "thread_unsubscribe topics = TC_Unsubscribe topics"

definition thread_ping :: ClientCommand where "thread_ping = TC_Ping"

definition thread_disconnect :: ClientCommand where "thread_disconnect = TC_Disconnect"

definition thread_set_auto_reconnect :: "bool \<Rightarrow> ClientCommand" where
  "thread_set_auto_reconnect enabled = TC_SetAutoReconnect enabled"

text \<open>\<open>joined\<close>: the message of the panic the thread ended with, or nothing.\<close>

definition thread_shutdown :: "string + unit \<Rightarrow> (ErrorKind \<times> string) + unit" where
  "thread_shutdown joined = (case joined of
     Inl _ \<Rightarrow> Inl (OtherKind, ''Worker thread panicked'')
   | Inr _ \<Rightarrow> Inr ())"

section \<open>Bounds\<close>

text \<open>The buffer keeps its capacity, and attempts their limit.\<close>

definition thread_inv :: "AsyncClientConfig \<Rightarrow> ClientWorker \<Rightarrow> bool" where
  "thread_inv config w \<longleftrightarrow> tw_config w = config \<and> length (tw_message_buffer w) \<le> ak_max_buffer_size config \<and>
     (0 < ak_max_reconnect_attempts config \<longrightarrow> tw_reconnect_attempts w \<le> ak_max_reconnect_attempts config)"

lemma thread_inv_fields [simp]:
  "thread_inv config (w\<lparr>tw_client := c\<rparr>) = thread_inv config w"
  "thread_inv config (w\<lparr>tw_is_connected := b\<rparr>) = thread_inv config w"
  "thread_inv config (w\<lparr>tw_is_connecting := b\<rparr>) = thread_inv config w"
  "thread_inv config (w\<lparr>tw_pending_subscribes := ps\<rparr>) = thread_inv config w"
  "thread_inv config (w\<lparr>tw_connects := cs\<rparr>) = thread_inv config w"
  "thread_inv config (w\<lparr>tw_timeouts := ts\<rparr>) = thread_inv config w"
  "thread_inv config (w\<lparr>tw_slept := ss\<rparr>) = thread_inv config w"
  "thread_inv config (notify ev w) = thread_inv config w"
  "thread_inv config (forget_topics topics w) = thread_inv config w"
  by (simp_all add: thread_inv_def notify_def forget_topics_def)

lemma thread_inv_new: "thread_inv config (ClientWorker_new opts config)"
  by (simp add: thread_inv_def ClientWorker_new_def)

lemma try_connect_inv: "try_connect socket w = (r, v) \<Longrightarrow> thread_inv config v = thread_inv config w"
  by (auto simp: try_connect_def next_timeout_def split: prod.splits sum.splits list.splits)

lemma u32_inc_le: "(a :: u32) < b \<Longrightarrow> a + 1 \<le> b"
  by (simp add: inc_le)

lemma connect_inv:
  "handle_connect w = Inr t \<Longrightarrow> thread_inv config w \<Longrightarrow> thread_inv config t"
  "schedule_reconnect v = Inr t \<Longrightarrow> thread_inv config v \<Longrightarrow> thread_inv config t"
proof (induction w and v rule: handle_connect_schedule_reconnect.induct)
  case (1 w)
  obtain socket rest where cs: "tw_connects w = socket # rest"
    using "1.prems"(1) by (auto simp: handle_connect.simps [of w] split: list.splits)
  obtain r v where v: "try_connect socket w = (r, v)" by fastforce
  have i: "thread_inv config v" using try_connect_inv [OF v] "1.prems"(2) by simp
  show ?case
  proof (cases r)
    case (Inl e)
    let ?v = "notify (Hc_error e) (v\<lparr>tw_connects := rest, tw_is_connecting := False\<rparr>)"
    have "(if ak_auto_reconnect (tw_config ?v) then schedule_reconnect ?v else Inr ?v) = Inr t"
      using "1.prems"(1) cs v Inl by (simp add: handle_connect.simps [of w] Let_def)
    moreover have "thread_inv config ?v" using i by simp
    ultimately show ?thesis using "1.IH" [OF cs v [symmetric] refl refl] Inl by (auto split: if_splits)
  next
    case (Inr x)
    then show ?thesis using "1.prems"(1) cs v i by (auto simp: handle_connect.simps [of w] Let_def)
  qed
next
  case (2 w)
  let ?config = "tw_config w"
  let ?n = "tw_reconnect_attempts w + 1"
  show ?case
  proof (cases "0 < ak_max_reconnect_attempts ?config \<and> ak_max_reconnect_attempts ?config \<le> tw_reconnect_attempts w")
    case True
    then show ?thesis using "2.prems" by (simp add: schedule_reconnect.simps [of w] Let_def)
  next
    case False
    then obtain d where n: "tw_reconnect_attempts w \<noteq> - 1" and d: "reconnect_delay ?config ?n = Inr d"
      using "2.prems"(1) by (auto simp: schedule_reconnect.simps [of w] Let_def split: if_splits sum.splits)
    let ?v = "notify (Hc_reconnect_attempt ?n) (w\<lparr>tw_reconnect_attempts := ?n\<rparr>)"
    have "handle_connect (?v\<lparr>tw_slept := tw_slept ?v @ [d]\<rparr>) = Inr t"
      using "2.prems"(1) False n d by (auto simp: schedule_reconnect.simps [of w] Let_def)
    moreover have "0 < ak_max_reconnect_attempts ?config \<longrightarrow> ?n \<le> ak_max_reconnect_attempts ?config"
      using False by (auto simp: not_le intro: u32_inc_le)
    then have "thread_inv config (?v\<lparr>tw_slept := tw_slept ?v @ [d]\<rparr>)"
      using "2.prems"(2) by (simp add: thread_inv_def notify_def)
    ultimately show ?thesis using "2.IH" [OF refl False n refl refl d] by simp
  qed
qed

lemma lost_inv: "handle_connection_lost w = Inr t \<Longrightarrow> thread_inv config w \<Longrightarrow> thread_inv config t"
  by (auto simp: handle_connection_lost_def Let_def split: if_splits dest: connect_inv(2))

lemma publish_inv: "thread_inv config w \<Longrightarrow> thread_inv config (handle_publish topic payload qos retain w)"
  by (auto simp: handle_publish_def buffer_message_def Let_def thread_inv_def notify_def split: prod.splits sum.splits)

lemma subscribe_inv [simp]: "thread_inv config (handle_subscribe topic qos w) = thread_inv config w"
  by (auto simp: handle_subscribe_def Let_def split: prod.splits sum.splits)

lemma buffered_inv: "thread_inv config w \<Longrightarrow> thread_inv config (process_buffered_messages w)"
proof -
  have "thread_inv config v \<Longrightarrow>
      thread_inv config (fold (\<lambda>(topic, payload, qos, retain). handle_publish topic payload qos retain) ms v)" for ms v
    by (induction ms arbitrary: v) (auto simp: publish_inv)
  moreover assume "thread_inv config w"
  ultimately show ?thesis by (simp add: process_buffered_messages_def thread_inv_def)
qed

lemma resubscribe_inv: "thread_inv config w \<Longrightarrow> thread_inv config (resubscribe_pending w)"
proof -
  have "thread_inv config v \<Longrightarrow> thread_inv config (fold (\<lambda>(topic, qos). handle_subscribe topic qos) ps v)" for ps v
    by (induction ps arbitrary: v) auto
  then show "thread_inv config w \<Longrightarrow> thread_inv config (resubscribe_pending w)" by (simp add: resubscribe_pending_def)
qed

lemma packet_inv:
  assumes "thread_inv config w" shows "thread_inv config (thread_packet packet w)"
proof -
  have "thread_inv config (w\<lparr>tw_is_connecting := a, tw_is_connected := b, tw_reconnect_attempts := 0\<rparr>)" for a b
    using assms by (simp add: thread_inv_def)
  then show ?thesis
    using assms by (cases packet)
      (auto simp: thread_packet_def Let_def intro!: resubscribe_inv buffered_inv split: prod.splits option.splits)
qed

lemma incoming_inv: "handle_incoming_messages w = Inr t \<Longrightarrow> thread_inv config w \<Longrightarrow> thread_inv config t"
  by (auto simp: handle_incoming_messages_def packet_inv split: prod.splits sum.splits option.splits if_splits
      dest: lost_inv)

lemma command_thread_inv:
  "thread_command command w = Inr (b, t) \<Longrightarrow> thread_inv config w \<Longrightarrow> thread_inv config t"
  by (cases command)
    (auto simp: thread_command_def handle_ping_def handle_unsubscribe_def handle_disconnect_def Let_def publish_inv
      split: prod.splits sum.splits dest: connect_inv(1) lost_inv)

lemma thread_round_inv:
  assumes "thread_round rx w = Inr (b, t)" and "thread_inv config w" shows "thread_inv config t"
proof -
  obtain q u where u: "(case rx of Got command \<Rightarrow> thread_command command w | Got_nothing \<Rightarrow> Inr (True, w)
       | Got_hangup \<Rightarrow> Inr (False, w)) = Inr (q, u)"
    and t: "(if \<not> q then Inr (True, u) else if tw_is_connected u \<or> tw_is_connecting u
       then tryE (handle_incoming_messages u) (\<lambda>w. Inr (False, w)) else Inr (False, u)) = Inr (b, t)"
    using assms(1) unfolding thread_round_def tryE_eq_Inr split_paired_Ex prod.case by blast
  have "thread_inv config u" using u assms(2) by (cases rx) (auto dest: command_thread_inv)
  then show ?thesis using t by (auto split: if_splits dest: incoming_inv)
qed

lemma thread_run_inv: "thread_run rxs w = Inr (b, t) \<Longrightarrow> thread_inv config w \<Longrightarrow> thread_inv config t"
proof (induction rxs arbitrary: w)
  case (Cons rx rxs)
  then obtain q u where u: "thread_round rx w = Inr (q, u)"
    and t: "(if q then Inr (True, u) else thread_run rxs u) = Inr (b, t)" by auto
  show ?case using t Cons.IH thread_round_inv [OF u Cons.prems(2)] by (auto split: if_splits)
qed simp

section \<open>A long outage\<close>

lemma try_connect_refused [simp]: "try_connect (Inl e) w = (Inl (Io_os e), w)"
  by (simp add: try_connect_def connect_send_def)

text \<open>
  With the default settings the product of the delay overflows at the fifty-sixth attempt in a row,
  before the cap is applied.
\<close>

lemma reconnect_delay_default:
  assumes "ak_reconnect_delay_ms config = 1000" and "n \<le> 55"
  shows "reconnect_delay config (of_nat n + 1) = (if n = 55 then Inl ''attempt to multiply with overflow''
     else Inr (min (1000 * 2 ^ n) (ak_max_reconnect_delay_ms config)))"
proof -
  have u: "unat (of_nat n :: u32) = n" using assms(2) by (simp add: unat_of_nat)
  show ?thesis
  proof (cases "n = 55")
    case True
    then show ?thesis using assms(1) by (simp add: reconnect_delay_def Let_def)
  next
    case False
    then have "(2::nat) ^ n \<le> 2 ^ 54" using assms(2) by (intro power_increasing) simp_all
    then have "\<not> (2::nat) ^ 64 \<le> 1000 * 2 ^ n" by simp
    then show ?thesis using assms u False by (simp add: reconnect_delay_def Let_def)
  qed
qed

lemma refused_step:
  assumes "ak_auto_reconnect (tw_config w)" and "ak_max_reconnect_attempts (tw_config w) = 0"
    and "tw_reconnect_attempts w \<noteq> - 1" and "tw_connects w = Inl e # rest"
  shows "handle_connect w = (case reconnect_delay (tw_config w) (tw_reconnect_attempts w + 1) of
      Inl m \<Rightarrow> Inl (Panicked m)
    | Inr d \<Rightarrow> handle_connect (w\<lparr>tw_connects := rest, tw_is_connecting := False,
        tw_reconnect_attempts := tw_reconnect_attempts w + 1,
        tw_events := tw_events w @ [Hc_error (Io_os e), Hc_reconnect_attempt (tw_reconnect_attempts w + 1)],
        tw_slept := tw_slept w @ [d]\<rparr>))"
  using assms by (simp add: handle_connect.simps [of w] schedule_reconnect.simps Let_def notify_def split: sum.split)

lemma outage_panics:
  assumes "ak_auto_reconnect (tw_config w)" and "ak_reconnect_delay_ms (tw_config w) = 1000"
    and "ak_max_reconnect_attempts (tw_config w) = 0"
    and "n \<le> 55" and "tw_reconnect_attempts w = of_nat n" and "tw_connects w = replicate (56 - n) (Inl e) @ rest"
  shows "handle_connect w = Inl (Panicked ''attempt to multiply with overflow'')"
  using assms
proof (induction "55 - n" arbitrary: n w)
  case 0
  then have "tw_connects w = Inl e # rest" "n = 55" by simp_all
  then show ?case using refused_step [of w e rest] reconnect_delay_default [of "tw_config w" 55] "0.prems" by simp
next
  case (Suc k)
  then have n: "n < 55" "56 - n = Suc (56 - Suc n)" by simp_all
  have m: "(of_nat n :: u32) \<noteq> - 1"
  proof
    assume "(of_nat n :: u32) = - 1"
    then have "of_nat (Suc n) = (0 :: u32)" by simp
    then have "unat (of_nat (Suc n) :: u32) = 0" by (simp only: unat_0)
    then show False using n(1) by (simp only: unat_of_nat) simp
  qed
  obtain d where d: "reconnect_delay (tw_config w) (tw_reconnect_attempts w + 1) = Inr d"
    using reconnect_delay_default [of "tw_config w" n] Suc.prems n(1) by simp
  let ?v = "w\<lparr>tw_connects := replicate (56 - Suc n) (Inl e) @ rest, tw_is_connecting := False,
        tw_reconnect_attempts := tw_reconnect_attempts w + 1,
        tw_events := tw_events w @ [Hc_error (Io_os e), Hc_reconnect_attempt (tw_reconnect_attempts w + 1)],
        tw_slept := tw_slept w @ [d]\<rparr>"
  have "handle_connect w = handle_connect ?v"
    using refused_step [of w e "replicate (56 - Suc n) (Inl e) @ rest"] Suc.prems n(2) m d by simp
  also have "\<dots> = Inl (Panicked ''attempt to multiply with overflow'')"
    using Suc.prems n(1) Suc.hyps(2) by (intro Suc.hyps(1) [of "Suc n"]) (simp_all add: add.commute)
  finally show ?case .
qed

section \<open>Acknowledgements\<close>

text \<open>
  The worker sends no acknowledgement of any kind: while the broker sends messages and PUBRECs, of
  whatever quality of service, nothing is written and no publish completes.
\<close>

definition needs_answer :: "MqttPacket \<Rightarrow> bool" where
  "needs_answer p = (case p of P_PubRec5 _ \<Rightarrow> True | P_Publish5 _ \<Rightarrow> True | _ \<Rightarrow> False)"

definition messages :: "MqttPacket list \<Rightarrow> handler_call list" where
  "messages ps = concat (map (\<lambda>p. case p of P_Publish5 m \<Rightarrow> [Hc_message_received m] | _ \<Rightarrow> []) ps)"

lemma recv_packet_delivers:
  assumes "cx_mqtt_stream c = Some ms" and "delivers v (p # ps) r ms" and "v \<noteq> 0"
  shows "\<exists>ms'. recv_packet c = (Inr (Some p), c\<lparr>cx_mqtt_stream := Some ms'\<rparr>) \<and> delivers v ps r ms' \<and> same_output ms ms'"
  using next_delivers_packet [OF assms(2,3)] next_same_output assms(1) by (fastforce simp: recv_packet_def)

lemma thread_round_unanswered:
  assumes "tw_is_connected w" and "cx_mqtt_stream (tw_client w) = Some ms" and "delivers 5 (p # ps) r ms" and "needs_answer p"
  shows "\<exists>ms'. thread_round Got_nothing w = Inr (False, w\<lparr>tw_client := (tw_client w)\<lparr>cx_mqtt_stream := Some ms'\<rparr>,
       tw_events := tw_events w @ messages [p]\<rparr>) \<and> delivers 5 ps r ms' \<and> same_output ms ms'"
proof -
  obtain ms' where "recv_packet (tw_client w) = (Inr (Some p), (tw_client w)\<lparr>cx_mqtt_stream := Some ms'\<rparr>)"
    "delivers 5 ps r ms'" "same_output ms ms'"
    using recv_packet_delivers [OF assms(2,3)] by auto
  then show ?thesis
    using assms(1,4)
    by (cases p) (auto simp: thread_round_def handle_incoming_messages_def thread_packet_def needs_answer_def messages_def
        notify_def)
qed

lemma thread_run_unanswered:
  assumes "tw_is_connected w" and "cx_mqtt_stream (tw_client w) = Some ms" and "delivers 5 ps r ms" and "list_all needs_answer ps"
  shows "\<exists>ms'. thread_run (replicate (length ps) Got_nothing) w = Inr (False, w\<lparr>tw_client := (tw_client w)\<lparr>cx_mqtt_stream := Some ms'\<rparr>,
       tw_events := tw_events w @ messages ps\<rparr>) \<and> tcp_sent (ms_stream ms') = tcp_sent (ms_stream ms)"
  using assms
proof (induction ps arbitrary: w ms)
  case Nil
  then have "w = w\<lparr>tw_client := (tw_client w)\<lparr>cx_mqtt_stream := Some ms\<rparr>, tw_events := tw_events w @ messages []\<rparr>"
    by (simp add: messages_def)
  then show ?case by auto
next
  case (Cons p ps)
  then obtain m where m: "thread_round Got_nothing w = Inr (False, w\<lparr>tw_client := (tw_client w)\<lparr>cx_mqtt_stream := Some m\<rparr>,
       tw_events := tw_events w @ messages [p]\<rparr>)" "delivers 5 ps r m" "same_output ms m"
    using thread_round_unanswered [of w ms p ps r] by auto
  let ?w = "w\<lparr>tw_client := (tw_client w)\<lparr>cx_mqtt_stream := Some m\<rparr>, tw_events := tw_events w @ messages [p]\<rparr>"
  obtain t where t: "thread_run (replicate (length ps) Got_nothing) ?w = Inr (False, ?w\<lparr>tw_client := (tw_client ?w)\<lparr>cx_mqtt_stream := Some t\<rparr>,
       tw_events := tw_events ?w @ messages ps\<rparr>)" "tcp_sent (ms_stream t) = tcp_sent (ms_stream m)"
    using Cons.IH [of ?w m] m(2) Cons.prems by auto
  then show ?case using m(1,3) by (auto simp: messages_def same_output_def)
qed

end
