(* ===== verification/Bindings.thy ===== *)
theory Bindings
  imports Engine_Host Client_Builders
begin

declare map_of_eq_Some_iff [simp del] Some_eq_map_of_iff [simp del]

text \<open>
  The arguments of the foreign-function bindings and their checks
  (\<open>src/flowsdk_ffi/src/engine/properties.rs\<close>, \<open>ffi_types.rs\<close>, \<open>runtime.rs\<close>): properties, publish,
  subscribe, unsubscribe and connect options, turned into commands and options of the engine.

  The text of an error is kept where the code gives it; where it is formatted from a property or from
  an error of the core, that value is the detail.  An \<open>unreachable!\<close> and the panic of a builder are \<open>Ffi_panic\<close>.
\<close>

section \<open>Types\<close>

datatype MqttPropertyFFI =
    F_PayloadFormatIndicator u8
  | F_MessageExpiryInterval u32
  | F_ContentType str
  | F_ResponseTopic str
  | F_CorrelationData bytes
  | F_SubscriptionIdentifier u32
  | F_SessionExpiryInterval u32
  | F_AssignedClientIdentifier str
  | F_ServerKeepAlive u16
  | F_AuthenticationMethod str
  | F_AuthenticationData bytes
  | F_RequestProblemInformation u8
  | F_WillDelayInterval u32
  | F_RequestResponseInformation u8
  | F_ResponseInformation str
  | F_ServerReference str
  | F_ReasonString str
  | F_ReceiveMaximum u16
  | F_TopicAliasMaximum u16
  | F_TopicAlias u16
  | F_MaximumQoS u8
  | F_RetainAvailable u8
  | F_UserProperty str str
  | F_MaximumPacketSize u32
  | F_WildcardSubscriptionAvailable u8
  | F_SubscriptionIdentifierAvailable u8
  | F_SharedSubscriptionAvailable u8

datatype ffi_detail =
    Detail string | Detail_property MqttPropertyFFI | Detail_core ParseError | Detail_client MqttClientError

datatype MqttErrorFFI =
    Ffi_Configuration ffi_detail | Ffi_InvalidArgument ffi_detail | Ffi_Engine ffi_detail
  | Ffi_Unsupported ffi_detail | Ffi_panic string

type_synonym 'a ffi = "MqttErrorFFI + 'a"

record MqttPublishOptionsFFI =
  fp_qos :: u8
  fp_retain :: bool
  fp_priority :: "u8 option"
  fp_properties :: "MqttPropertyFFI list"

record MqttSubscriptionFFI =
  fs_topic_filter :: str
  fs_qos :: u8
  fs_no_local :: bool
  fs_retain_as_published :: bool
  fs_retain_handling :: u8

record MqttSubscribeOptionsFFI =
  fso_subscriptions :: "MqttSubscriptionFFI list"
  fso_properties :: "MqttPropertyFFI list"

record MqttUnsubscribeOptionsFFI =
  fu_topics :: "str list"
  fu_properties :: "MqttPropertyFFI list"

record MqttDisconnectOptionsFFI =
  fd_reason_code :: u8
  fd_properties :: "MqttPropertyFFI list"

record MqttWillFFI =
  fw_topic :: str
  fw_payload :: bytes
  fw_qos :: u8
  fw_retain :: bool
  fw_properties :: "MqttPropertyFFI list"

record MqttEngineOptionsFFI =
  fe_retransmission_timeout_ms :: "u64 option"
  fe_ping_timeout_multiplier :: "u32 option"
  fe_max_outgoing_packet_count :: "u32 option"
  fe_max_event_count :: "u32 option"
  fe_parser_buffer_size :: "u32 option"
  fe_max_inflight :: "u16 option"
  fe_auto_keepalive :: "bool option"
  fe_auto_ack :: "bool option"
  fe_sessionless :: "bool option"
  fe_subscriptions :: "MqttSubscriptionFFI list"

record MqttOptionsFFI =
  fo_client_id :: str
  fo_mqtt_version :: u8
  fo_clean_start :: bool
  fo_keep_alive :: u16
  fo_username :: "str option"
  fo_password :: "str option"
  fo_reconnect_base_delay_ms :: u64
  fo_reconnect_max_delay_ms :: u64
  fo_max_reconnect_attempts :: u32

definition MqttOptionsFFI_default :: MqttOptionsFFI where
  "MqttOptionsFFI_default = \<lparr>fo_client_id = ascii ''mqtt_client'', fo_mqtt_version = 5, fo_clean_start = True,
     fo_keep_alive = 60, fo_username = None, fo_password = None, fo_reconnect_base_delay_ms = 1000,
     fo_reconnect_max_delay_ms = 60000, fo_max_reconnect_attempts = 0\<rparr>"

record MqttConnectOptionsFFI =
  fc_options :: MqttOptionsFFI
  fc_properties :: "MqttPropertyFFI list"
  fc_will :: "MqttWillFFI option"
  fc_binary_password :: "bytes option"
  fc_engine_options :: "MqttEngineOptionsFFI option"

definition connect_options_from :: "MqttOptionsFFI \<Rightarrow> MqttConnectOptionsFFI" where
  "connect_options_from options = \<lparr>fc_options = options, fc_properties = [], fc_will = None,
     fc_binary_password = None, fc_engine_options = None\<rparr>"

record MqttOperationTimeoutsFFI =
  ft_connect_ms :: "u64 option"
  ft_publish_ms :: "u64 option"
  ft_subscribe_ms :: "u64 option"
  ft_unsubscribe_ms :: "u64 option"

definition mqtt_cloud_timeouts :: MqttOperationTimeoutsFFI where
  "mqtt_cloud_timeouts = \<lparr>ft_connect_ms = Some 30000, ft_publish_ms = Some 10000, ft_subscribe_ms = Some 10000,
     ft_unsubscribe_ms = Some 10000\<rparr>"

record MqttRuntimeOptionsFFI =
  fr_peer :: "str option"
  fr_operation_timeouts :: "MqttOperationTimeoutsFFI option"
  fr_incoming_receive_maximum :: "u16 option"
  fr_max_incoming_packet_size :: "u64 option"
  fr_max_incoming_buffer_bytes :: "u64 option"
  fr_max_outgoing_buffer_bytes :: "u64 option"
  fr_reconnect :: "bool option"

section \<open>Properties\<close>

fun Property_of_ffi :: "MqttPropertyFFI \<Rightarrow> Property" where
    "Property_of_ffi (F_PayloadFormatIndicator v) = PayloadFormatIndicator v"
  | "Property_of_ffi (F_MessageExpiryInterval v) = MessageExpiryInterval v"
  | "Property_of_ffi (F_ContentType v) = ContentType v"
  | "Property_of_ffi (F_ResponseTopic v) = ResponseTopic v"
  | "Property_of_ffi (F_CorrelationData v) = CorrelationData v"
  | "Property_of_ffi (F_SubscriptionIdentifier v) = SubscriptionIdentifier v"
  | "Property_of_ffi (F_SessionExpiryInterval v) = SessionExpiryInterval v"
  | "Property_of_ffi (F_AssignedClientIdentifier v) = AssignedClientIdentifier v"
  | "Property_of_ffi (F_ServerKeepAlive v) = ServerKeepAlive v"
  | "Property_of_ffi (F_AuthenticationMethod v) = AuthenticationMethod v"
  | "Property_of_ffi (F_AuthenticationData v) = AuthenticationData v"
  | "Property_of_ffi (F_RequestProblemInformation v) = RequestProblemInformation v"
  | "Property_of_ffi (F_WillDelayInterval v) = WillDelayInterval v"
  | "Property_of_ffi (F_RequestResponseInformation v) = RequestResponseInformation v"
  | "Property_of_ffi (F_ResponseInformation v) = ResponseInformation v"
  | "Property_of_ffi (F_ServerReference v) = ServerReference v"
  | "Property_of_ffi (F_ReasonString v) = ReasonString v"
  | "Property_of_ffi (F_ReceiveMaximum v) = ReceiveMaximum v"
  | "Property_of_ffi (F_TopicAliasMaximum v) = TopicAliasMaximum v"
  | "Property_of_ffi (F_TopicAlias v) = TopicAlias v"
  | "Property_of_ffi (F_MaximumQoS v) = MaximumQoS v"
  | "Property_of_ffi (F_RetainAvailable v) = RetainAvailable v"
  | "Property_of_ffi (F_UserProperty k v) = UserProperty k v"
  | "Property_of_ffi (F_MaximumPacketSize v) = MaximumPacketSize v"
  | "Property_of_ffi (F_WildcardSubscriptionAvailable v) = WildcardSubscriptionAvailable v"
  | "Property_of_ffi (F_SubscriptionIdentifierAvailable v) = SubscriptionIdentifierAvailable v"
  | "Property_of_ffi (F_SharedSubscriptionAvailable v) = SharedSubscriptionAvailable v"

fun ffi_of_Property :: "Property \<Rightarrow> MqttPropertyFFI" where
    "ffi_of_Property (PayloadFormatIndicator v) = F_PayloadFormatIndicator v"
  | "ffi_of_Property (MessageExpiryInterval v) = F_MessageExpiryInterval v"
  | "ffi_of_Property (ContentType v) = F_ContentType v"
  | "ffi_of_Property (ResponseTopic v) = F_ResponseTopic v"
  | "ffi_of_Property (CorrelationData v) = F_CorrelationData v"
  | "ffi_of_Property (SubscriptionIdentifier v) = F_SubscriptionIdentifier v"
  | "ffi_of_Property (SessionExpiryInterval v) = F_SessionExpiryInterval v"
  | "ffi_of_Property (AssignedClientIdentifier v) = F_AssignedClientIdentifier v"
  | "ffi_of_Property (ServerKeepAlive v) = F_ServerKeepAlive v"
  | "ffi_of_Property (AuthenticationMethod v) = F_AuthenticationMethod v"
  | "ffi_of_Property (AuthenticationData v) = F_AuthenticationData v"
  | "ffi_of_Property (RequestProblemInformation v) = F_RequestProblemInformation v"
  | "ffi_of_Property (WillDelayInterval v) = F_WillDelayInterval v"
  | "ffi_of_Property (RequestResponseInformation v) = F_RequestResponseInformation v"
  | "ffi_of_Property (ResponseInformation v) = F_ResponseInformation v"
  | "ffi_of_Property (ServerReference v) = F_ServerReference v"
  | "ffi_of_Property (ReasonString v) = F_ReasonString v"
  | "ffi_of_Property (ReceiveMaximum v) = F_ReceiveMaximum v"
  | "ffi_of_Property (TopicAliasMaximum v) = F_TopicAliasMaximum v"
  | "ffi_of_Property (TopicAlias v) = F_TopicAlias v"
  | "ffi_of_Property (MaximumQoS v) = F_MaximumQoS v"
  | "ffi_of_Property (RetainAvailable v) = F_RetainAvailable v"
  | "ffi_of_Property (UserProperty k v) = F_UserProperty k v"
  | "ffi_of_Property (MaximumPacketSize v) = F_MaximumPacketSize v"
  | "ffi_of_Property (WildcardSubscriptionAvailable v) = F_WildcardSubscriptionAvailable v"
  | "ffi_of_Property (SubscriptionIdentifierAvailable v) = F_SubscriptionIdentifierAvailable v"
  | "ffi_of_Property (SharedSubscriptionAvailable v) = F_SharedSubscriptionAvailable v"

text \<open>The discriminants of the enum, numbered like the property identifiers.\<close>

fun discriminant :: "MqttPropertyFFI \<Rightarrow> nat" where
    "discriminant (F_PayloadFormatIndicator v) = 1"
  | "discriminant (F_MessageExpiryInterval v) = 2"
  | "discriminant (F_ContentType v) = 3"
  | "discriminant (F_ResponseTopic v) = 8"
  | "discriminant (F_CorrelationData v) = 9"
  | "discriminant (F_SubscriptionIdentifier v) = 11"
  | "discriminant (F_SessionExpiryInterval v) = 17"
  | "discriminant (F_AssignedClientIdentifier v) = 18"
  | "discriminant (F_ServerKeepAlive v) = 19"
  | "discriminant (F_AuthenticationMethod v) = 21"
  | "discriminant (F_AuthenticationData v) = 22"
  | "discriminant (F_RequestProblemInformation v) = 23"
  | "discriminant (F_WillDelayInterval v) = 24"
  | "discriminant (F_RequestResponseInformation v) = 25"
  | "discriminant (F_ResponseInformation v) = 26"
  | "discriminant (F_ServerReference v) = 28"
  | "discriminant (F_ReasonString v) = 31"
  | "discriminant (F_ReceiveMaximum v) = 33"
  | "discriminant (F_TopicAliasMaximum v) = 34"
  | "discriminant (F_TopicAlias v) = 35"
  | "discriminant (F_MaximumQoS v) = 36"
  | "discriminant (F_RetainAvailable v) = 37"
  | "discriminant (F_UserProperty k v) = 38"
  | "discriminant (F_MaximumPacketSize v) = 39"
  | "discriminant (F_WildcardSubscriptionAvailable v) = 40"
  | "discriminant (F_SubscriptionIdentifierAvailable v) = 41"
  | "discriminant (F_SharedSubscriptionAvailable v) = 42"

definition is_user :: "MqttPropertyFFI \<Rightarrow> bool" where
  "is_user p = (case p of F_UserProperty _ _ \<Rightarrow> True | _ \<Rightarrow> False)"

definition ffi_invalid :: "string \<Rightarrow> MqttErrorFFI" where
  "ffi_invalid message = Ffi_InvalidArgument (Detail message)"

definition ffi_text :: "str \<Rightarrow> unit ffi" where
  "ffi_text value =
     (if 65535 < length value \<or> 0 \<in> set value
      then Inl (ffi_invalid ''MQTT strings must be at most 65535 bytes and contain no NUL'') else Inr ())"

definition ffi_topic :: "str \<Rightarrow> bool \<Rightarrow> unit ffi" where
  "ffi_topic value allow_empty =
     tryE (ffi_text value) (\<lambda>_.
     if (\<not> allow_empty \<and> value = []) \<or> plus_c \<in> set value \<or> hash \<in> set value
     then Inl (ffi_invalid ''A topic name must be nonempty and contain no wildcards'') else Inr ())"

definition ffi_bool :: "u8 \<Rightarrow> unit ffi" where
  "ffi_bool v = (if 1 < v then Inl (ffi_invalid ''Boolean property must be 0 or 1'') else Inr ())"

definition ffi_binary :: "bytes \<Rightarrow> unit ffi" where
  "ffi_binary v = (if 65535 < length v then Inl (ffi_invalid ''Binary property exceeds 65535 bytes'') else Inr ())"

definition ffi_nonzero :: "bool \<Rightarrow> unit ffi" where
  "ffi_nonzero zero = (if zero then Inl (ffi_invalid ''Property value must be nonzero'') else Inr ())"

definition ffi_value :: "MqttPropertyFFI \<Rightarrow> unit ffi" where
  "ffi_value p = (case p of
     F_PayloadFormatIndicator v \<Rightarrow> ffi_bool v
   | F_RequestProblemInformation v \<Rightarrow> ffi_bool v
   | F_RequestResponseInformation v \<Rightarrow> ffi_bool v
   | F_MaximumQoS v \<Rightarrow> ffi_bool v
   | F_RetainAvailable v \<Rightarrow> ffi_bool v
   | F_WildcardSubscriptionAvailable v \<Rightarrow> ffi_bool v
   | F_SubscriptionIdentifierAvailable v \<Rightarrow> ffi_bool v
   | F_SharedSubscriptionAvailable v \<Rightarrow> ffi_bool v
   | F_SubscriptionIdentifier v \<Rightarrow>
       (if v = 0 \<or> 268435455 < v then Inl (ffi_invalid ''Subscription identifier must be in 1..268435455'') else Inr ())
   | F_ReceiveMaximum v \<Rightarrow> ffi_nonzero (v = 0)
   | F_TopicAlias v \<Rightarrow> ffi_nonzero (v = 0)
   | F_MaximumPacketSize v \<Rightarrow> ffi_nonzero (v = 0)
   | F_ContentType v \<Rightarrow> ffi_text v
   | F_AssignedClientIdentifier v \<Rightarrow> ffi_text v
   | F_AuthenticationMethod v \<Rightarrow> ffi_text v
   | F_ResponseInformation v \<Rightarrow> ffi_text v
   | F_ServerReference v \<Rightarrow> ffi_text v
   | F_ReasonString v \<Rightarrow> ffi_text v
   | F_ResponseTopic v \<Rightarrow> ffi_topic v False
   | F_UserProperty k v \<Rightarrow> tryE (ffi_text k) (\<lambda>_. ffi_text v)
   | F_CorrelationData v \<Rightarrow> ffi_binary v
   | F_AuthenticationData v \<Rightarrow> ffi_binary v
   | _ \<Rightarrow> Inr ())"

fun validate_loop :: "(MqttPropertyFFI \<Rightarrow> bool) \<Rightarrow> nat list \<Rightarrow> MqttPropertyFFI list \<Rightarrow> unit ffi" where
  "validate_loop allowed seen [] = Inr ()"
| "validate_loop allowed seen (p # ps) =
     (if \<not> allowed p then Inl (Ffi_InvalidArgument (Detail_property p))
      else if \<not> is_user p \<and> discriminant p \<in> set seen
      then Inl (ffi_invalid ''Only user properties may be repeated in outgoing client packets'')
      else
        tryE (ffi_value p) (\<lambda>_.
        validate_loop allowed (if is_user p then seen else discriminant p # seen) ps))"

definition ffi_validate :: "MqttPropertyFFI list \<Rightarrow> u8 \<Rightarrow> (MqttPropertyFFI \<Rightarrow> bool) \<Rightarrow> (Property list) ffi" where
  "ffi_validate properties version allowed =
     (if version \<noteq> 5 \<and> properties \<noteq> [] then Inl (ffi_invalid ''Properties require MQTT 5'')
      else
        tryE (validate_loop allowed [] properties) (\<lambda>_.
        Inr (map Property_of_ffi properties)))"

section \<open>Commands\<close>

definition publish_property :: "MqttPropertyFFI \<Rightarrow> bool" where
  "publish_property p = (case p of
     F_PayloadFormatIndicator _ \<Rightarrow> True | F_MessageExpiryInterval _ \<Rightarrow> True | F_ContentType _ \<Rightarrow> True
   | F_ResponseTopic _ \<Rightarrow> True | F_CorrelationData _ \<Rightarrow> True | F_TopicAlias _ \<Rightarrow> True | F_UserProperty _ _ \<Rightarrow> True
   | _ \<Rightarrow> False)"

definition ffi_publish_command ::
  "MqttPublishOptionsFFI \<Rightarrow> str \<Rightarrow> bytes \<Rightarrow> u8 \<Rightarrow> bool \<Rightarrow> PublishCommand ffi" where
  "ffi_publish_command opt topic_name payload version priority_supported =
     (if 2 < fp_qos opt then Inl (ffi_invalid ''QoS must be 0, 1, or 2'')
      else if \<not> priority_supported \<and> fp_priority opt \<noteq> None
      then Inl (Ffi_Unsupported (Detail ''Publish priority is not supported on QUIC''))
      else
        tryE (ffi_validate (fp_properties opt) version publish_property) (\<lambda>properties.
        tryE (ffi_topic topic_name (list_ex is_topic_alias properties)) (\<lambda>_.
        Inr \<lparr>pc_topic_name = topic_name, pc_payload = payload, pc_qos = fp_qos opt, pc_retain = fp_retain opt,
             pc_dup = False, pc_packet_id = None, pc_properties = properties,
             pc_priority = (case fp_priority opt of None \<Rightarrow> 128 | Some p \<Rightarrow> p)\<rparr>)))"

definition core_check :: "unit res \<Rightarrow> unit ffi" where
  "core_check r = (case r of Inl e \<Rightarrow> Inl (Ffi_InvalidArgument (Detail_core e)) | Inr _ \<Rightarrow> Inr ())"

definition ffi_filter :: "str \<Rightarrow> unit ffi" where
  "ffi_filter value =
     tryE (ffi_text value) (\<lambda>_.
     tryE (core_check (validate_topic_filter value)) (\<lambda>_.
     tryE (core_check (validate_shared_subscription value)) (\<lambda>_.
     if starts_with value share_prefix \<and>
       (let name = hd (split_on slash (drop (length share_prefix) value)) in plus_c \<in> set name \<or> hash \<in> set name)
     then Inl (ffi_invalid ''Shared subscription group must not contain wildcards'') else Inr ())))"

definition subscribe_property :: "MqttPropertyFFI \<Rightarrow> bool" where
  "subscribe_property p = (case p of F_SubscriptionIdentifier _ \<Rightarrow> True | F_UserProperty _ _ \<Rightarrow> True | _ \<Rightarrow> False)"

definition ffi_subscription :: "u8 \<Rightarrow> MqttSubscriptionFFI \<Rightarrow> TopicSubscription ffi" where
  "ffi_subscription version sub =
     tryE (ffi_filter (fs_topic_filter sub)) (\<lambda>_.
     if 2 < fs_qos sub \<or> 2 < fs_retain_handling sub
     then Inl (ffi_invalid ''QoS and retain_handling must be 0, 1, or 2'')
     else if version \<noteq> 5 \<and> (fs_no_local sub \<or> fs_retain_as_published sub \<or> fs_retain_handling sub \<noteq> 0)
     then Inl (ffi_invalid ''Subscription options require MQTT 5'')
     else if fs_no_local sub \<and> starts_with (fs_topic_filter sub) share_prefix
     then Inl (ffi_invalid ''No Local cannot be used with shared subscriptions'')
     else Inr \<lparr>ts_topic_filter = fs_topic_filter sub, ts_qos = fs_qos sub, ts_no_local = fs_no_local sub,
            ts_retain_as_published = fs_retain_as_published sub, ts_retain_handling = fs_retain_handling sub\<rparr>)"

fun ffi_subscriptions :: "u8 \<Rightarrow> MqttSubscriptionFFI list \<Rightarrow> (TopicSubscription list) ffi" where
  "ffi_subscriptions version [] = Inr []"
| "ffi_subscriptions version (sub # rest) =
     tryE (ffi_subscription version sub) (\<lambda>s.
     tryE (ffi_subscriptions version rest) (\<lambda>ss. Inr (s # ss)))"

definition ffi_subscribe_command :: "MqttSubscribeOptionsFFI \<Rightarrow> u8 \<Rightarrow> SubscribeCommand ffi" where
  "ffi_subscribe_command opt version =
     (if fso_subscriptions opt = [] then Inl (ffi_invalid ''At least one subscription is required'')
      else
        tryE (ffi_validate (fso_properties opt) version subscribe_property) (\<lambda>properties.
        tryE (ffi_subscriptions version (fso_subscriptions opt)) (\<lambda>subscriptions.
        Inr \<lparr>sc_packet_id = None, sc_subscriptions = subscriptions, sc_properties = properties\<rparr>)))"

fun ffi_filters :: "str list \<Rightarrow> unit ffi" where
  "ffi_filters [] = Inr ()"
| "ffi_filters (t # ts) = tryE (ffi_filter t) (\<lambda>_. ffi_filters ts)"

definition ffi_unsubscribe_command :: "MqttUnsubscribeOptionsFFI \<Rightarrow> u8 \<Rightarrow> UnsubscribeCommand ffi" where
  "ffi_unsubscribe_command opt version =
     (if fu_topics opt = [] then Inl (ffi_invalid ''At least one topic is required'')
      else
        tryE (ffi_filters (fu_topics opt)) (\<lambda>_.
        tryE (ffi_validate (fu_properties opt) version is_user) (\<lambda>properties.
        Inr \<lparr>uc_packet_id = None, uc_topics = fu_topics opt, uc_properties = properties\<rparr>)))"

section \<open>Connection options\<close>

definition options_of_ffi :: "MqttOptionsFFI \<Rightarrow> MqttClientOptions ffi" where
  "options_of_ffi opt =
     (case opts_mqtt_version (fo_mqtt_version opt) (opts_client_id (fo_client_id opt) MqttClientOptions_default) of
        Inl m \<Rightarrow> Inl (Ffi_panic m)
      | Inr b \<Rightarrow>
          (let b = opts_max_reconnect_attempts (fo_max_reconnect_attempts opt)
                 (opts_reconnect_max_delay_ms (fo_reconnect_max_delay_ms opt)
                 (opts_reconnect_base_delay_ms (fo_reconnect_base_delay_ms opt)
                 (opts_keep_alive (fo_keep_alive opt) (opts_clean_start (fo_clean_start opt) b))));
               b = (case fo_username opt of None \<Rightarrow> b | Some u \<Rightarrow> opts_username u b);
               b = (case fo_password opt of None \<Rightarrow> b | Some p \<Rightarrow> opts_password p b)
           in Inr b))"

text \<open>A repeated CONNECT property is dropped when it has the same value and refused otherwise.\<close>

fun deduplicate_loop :: "MqttPropertyFFI list \<Rightarrow> MqttPropertyFFI list \<Rightarrow> (MqttPropertyFFI list) ffi" where
  "deduplicate_loop found [] = Inr found"
| "deduplicate_loop found (p # ps) =
     (case (if is_user p then None else find (\<lambda>q. discriminant q = discriminant p) found) of
        None \<Rightarrow> deduplicate_loop (found @ [p]) ps
      | Some previous \<Rightarrow>
          if previous \<noteq> p then Inl (ffi_invalid ''Conflicting CONNECT property values'')
          else deduplicate_loop found ps)"

definition deduplicate_connect :: "MqttPropertyFFI list \<Rightarrow> (MqttPropertyFFI list) ffi" where
  "deduplicate_connect properties = deduplicate_loop [] properties"

definition connect_allowed :: "MqttPropertyFFI \<Rightarrow> bool" where
  "connect_allowed p = (case p of
     F_SessionExpiryInterval _ \<Rightarrow> True | F_ReceiveMaximum _ \<Rightarrow> True | F_MaximumPacketSize _ \<Rightarrow> True
   | F_TopicAliasMaximum _ \<Rightarrow> True | F_RequestResponseInformation _ \<Rightarrow> True | F_RequestProblemInformation _ \<Rightarrow> True
   | F_UserProperty _ _ \<Rightarrow> True | F_AuthenticationMethod _ \<Rightarrow> True | F_AuthenticationData _ \<Rightarrow> True | _ \<Rightarrow> False)"

definition will_property_ffi :: "MqttPropertyFFI \<Rightarrow> bool" where
  "will_property_ffi p = (case p of
     F_WillDelayInterval _ \<Rightarrow> True | F_PayloadFormatIndicator _ \<Rightarrow> True | F_MessageExpiryInterval _ \<Rightarrow> True
   | F_ContentType _ \<Rightarrow> True | F_ResponseTopic _ \<Rightarrow> True | F_CorrelationData _ \<Rightarrow> True | F_UserProperty _ _ \<Rightarrow> True
   | _ \<Rightarrow> False)"

fun set_will_properties :: "Property list \<Rightarrow> WillProperties \<Rightarrow> WillProperties ffi" where
  "set_will_properties [] wp = Inr wp"
| "set_will_properties (p # ps) wp =
     (case p of
        WillDelayInterval v \<Rightarrow> set_will_properties ps (wp\<lparr>wp_will_delay_interval := Some v\<rparr>)
      | PayloadFormatIndicator v \<Rightarrow> set_will_properties ps (wp\<lparr>wp_payload_format_indicator := Some v\<rparr>)
      | MessageExpiryInterval v \<Rightarrow> set_will_properties ps (wp\<lparr>wp_message_expiry_interval := Some v\<rparr>)
      | ContentType v \<Rightarrow> set_will_properties ps (wp\<lparr>wp_content_type := Some v\<rparr>)
      | ResponseTopic v \<Rightarrow> set_will_properties ps (wp\<lparr>wp_response_topic := Some v\<rparr>)
      | CorrelationData v \<Rightarrow> set_will_properties ps (wp\<lparr>wp_correlation_data := Some v\<rparr>)
      | UserProperty _ _ \<Rightarrow> set_will_properties ps (wp\<lparr>wp_user_properties := wp_user_properties wp @ [p]\<rparr>)
      | _ \<Rightarrow> Inl (Ffi_panic ''validated Will property''))"

definition ffi_will :: "MqttWillFFI \<Rightarrow> u8 \<Rightarrow> Will ffi" where
  "ffi_will w version =
     tryE (ffi_topic (fw_topic w) False) (\<lambda>_.
     if 2 < fw_qos w \<or> 65535 < length (fw_payload w) then Inl (ffi_invalid ''Invalid Will QoS or payload length'')
     else
       tryE (ffi_validate (fw_properties w) version will_property_ffi) (\<lambda>properties.
       tryE (set_will_properties properties WillProperties_new) (\<lambda>wp.
       Inr \<lparr>w_will_qos = fw_qos w, w_will_retain = fw_retain w, w_will_topic = fw_topic w,
            w_will_message = fw_payload w, w_properties = wp\<rparr>)))"

definition nonzero_option :: "string \<Rightarrow> 'a::zero option \<Rightarrow> ('a \<Rightarrow> MqttClientOptions \<Rightarrow> MqttClientOptions) \<Rightarrow> MqttClientOptions \<Rightarrow> MqttClientOptions ffi" where
  "nonzero_option name source target options = (case source of
     None \<Rightarrow> Inr options
   | Some v \<Rightarrow> if v = 0 then Inl (ffi_invalid (name @ '' must be greater than zero'')) else Inr (target v options))"

definition or_keep :: "'a option \<Rightarrow> ('a \<Rightarrow> 'b \<Rightarrow> 'b) \<Rightarrow> 'b \<Rightarrow> 'b" where
  "or_keep source target x = (case source of None \<Rightarrow> x | Some v \<Rightarrow> target v x)"

definition apply_engine_options :: "MqttEngineOptionsFFI \<Rightarrow> MqttClientOptions \<Rightarrow> MqttClientOptions ffi" where
  "apply_engine_options opt options =
     tryE (nonzero_option ''retransmission_timeout_ms'' (fe_retransmission_timeout_ms opt)
             (\<lambda>v core. core\<lparr>o_retransmission_timeout_ms := v\<rparr>) options) (\<lambda>options.
     tryE (nonzero_option ''ping_timeout_multiplier'' (fe_ping_timeout_multiplier opt)
             (\<lambda>v core. core\<lparr>o_ping_timeout_multiplier := v\<rparr>) options) (\<lambda>options.
     tryE (nonzero_option ''max_outgoing_packet_count'' (fe_max_outgoing_packet_count opt)
             (\<lambda>v core. core\<lparr>o_max_outgoing_packet_count := unat v\<rparr>) options) (\<lambda>options.
     tryE (nonzero_option ''max_event_count'' (fe_max_event_count opt)
             (\<lambda>v core. core\<lparr>o_max_event_count := unat v\<rparr>) options) (\<lambda>options.
     tryE (nonzero_option ''parser_buffer_size'' (fe_parser_buffer_size opt)
             (\<lambda>v core. core\<lparr>o_parser_buffer_size := unat v\<rparr>) options) (\<lambda>options.
     tryE (nonzero_option ''max_inflight'' (fe_max_inflight opt)
             (\<lambda>v core. core\<lparr>o_receive_maximum := v\<rparr>) options) (\<lambda>options.
     let options = or_keep (fe_auto_keepalive opt) (\<lambda>v core. core\<lparr>o_auto_keepalive := v\<rparr>) options;
         options = or_keep (fe_auto_ack opt) (\<lambda>v core. core\<lparr>o_auto_ack := v\<rparr>) options;
         options = or_keep (fe_sessionless opt) (\<lambda>v core. core\<lparr>o_sessionless := v\<rparr>) options
     in if o_sessionless options \<and>
          (\<not> o_clean_start options \<or> (case o_session_expiry_interval options of None \<Rightarrow> 0 | Some v \<Rightarrow> v) \<noteq> 0)
        then Inl (ffi_invalid ''Sessionless mode requires clean_start=True and zero session expiry'')
        else if fe_subscriptions opt = [] then Inr options
        else
          tryE (ffi_subscribe_command \<lparr>fso_subscriptions = fe_subscriptions opt, fso_properties = []\<rparr> (o_mqtt_version options))
            (\<lambda>command. Inr (options\<lparr>o_subscription_topics := sc_subscriptions command\<rparr>))))))))"

definition mirror_property :: "Property \<Rightarrow> MqttClientOptions \<Rightarrow> MqttClientOptions" where
  "mirror_property p options = (case p of
     SessionExpiryInterval v \<Rightarrow> options\<lparr>o_session_expiry_interval := Some v\<rparr>
   | MaximumPacketSize v \<Rightarrow> options\<lparr>o_maximum_packet_size := Some v\<rparr>
   | RequestResponseInformation v \<Rightarrow> options\<lparr>o_request_response_information := Some (v \<noteq> 0)\<rparr>
   | RequestProblemInformation v \<Rightarrow> options\<lparr>o_request_problem_information := Some (v \<noteq> 0)\<rparr>
   | _ \<Rightarrow> options)"

definition connect_into_core :: "MqttConnectOptionsFFI \<Rightarrow> MqttClientOptions ffi" where
  "connect_into_core c =
     (let opt = fc_options c; version = fo_mqtt_version opt in
      if \<not> (3 \<le> version \<and> version \<le> 5) then Inl (ffi_invalid ''MQTT version must be 3, 4, or 5'')
      else
        tryE (ffi_text (fo_client_id opt)) (\<lambda>_.
        tryE (case fo_username opt of None \<Rightarrow> Inr () | Some u \<Rightarrow> ffi_text u) (\<lambda>_.
        if fc_binary_password c \<noteq> None \<and> fo_password opt \<noteq> None
        then Inl (ffi_invalid ''Provide either a string or binary password'')
        else
          (let password = (case fc_binary_password c of Some p \<Rightarrow> Some p | None \<Rightarrow> fo_password opt) in
           if (case password of None \<Rightarrow> False | Some p \<Rightarrow> 65535 < length p)
           then Inl (ffi_invalid ''Password exceeds 65535 bytes'')
           else
             tryE (deduplicate_connect (fc_properties c)) (\<lambda>properties.
             tryE (ffi_validate properties version connect_allowed) (\<lambda>properties.
             if list_ex is_auth_data properties \<and> \<not> list_ex is_auth_method properties
             then Inl (ffi_invalid ''CONNECT authentication data requires an authentication method'')
             else
               tryE (options_of_ffi opt) (\<lambda>options.
               let options = fold mirror_property properties (options\<lparr>o_password := password\<rparr>);
                   options = options\<lparr>o_connect_properties := properties\<rparr>
               in tryE (case fc_will c of
                          None \<Rightarrow> Inr options
                        | Some will \<Rightarrow> tryE (ffi_will will version) (\<lambda>w. Inr (options\<lparr>o_will := Some w\<rparr>))) (\<lambda>options.
                  case fc_engine_options c of
                    None \<Rightarrow> Inr options
                  | Some tuning \<Rightarrow> apply_engine_options tuning options)))))))
     )"

section \<open>Runtime options\<close>

text \<open>
  A deadline is accepted when it is representable from the current time, a sample of the clock for
  each of them; sizes fit the platform (\<open>isize::MAX\<close> of a 64-bit one).
\<close>

definition instant_at :: "Timestamp \<Rightarrow> u64 \<Rightarrow> Timestamp ffi" where
  "instant_at origin ms = (case checked_add origin (from_millis (unat ms)) of
     None \<Rightarrow> Inl (ffi_invalid ''Time is outside the supported clock range'')
   | Some t \<Rightarrow> Inr t)"

definition runtime_duration :: "Timestamp \<Rightarrow> u64 option \<Rightarrow> (Duration option) ffi" where
  "runtime_duration sample ms = (case ms of
     None \<Rightarrow> Inr None
   | Some ms \<Rightarrow> tryE (instant_at sample ms) (\<lambda>_. Inr (Some (from_millis (unat ms)))))"

definition runtime_size :: "u64 option \<Rightarrow> (nat option) ffi" where
  "runtime_size value = (case value of
     None \<Rightarrow> Inr None
   | Some n \<Rightarrow>
       if 0 < n \<and> unat n \<le> 9223372036854775807 then Inr (Some (unat n))
       else Inl (ffi_invalid ''Byte limit is outside the supported size range''))"

text \<open>\<open>peer.trim().is_empty()\<close> is decided by the argument \<open>blank\<close>.\<close>

definition apply_runtime_options ::
  "(str \<Rightarrow> bool) \<Rightarrow> Timestamp \<times> Timestamp \<times> Timestamp \<times> Timestamp \<Rightarrow> MqttRuntimeOptionsFFI \<Rightarrow> MqttClientOptions \<Rightarrow> MqttClientOptions ffi" where
  "apply_runtime_options blank samples r options =
     tryE (case fr_peer r of
             None \<Rightarrow> Inr options
           | Some peer \<Rightarrow>
               if blank peer \<or> 0 \<in> set peer then Inl (ffi_invalid ''peer must be nonempty and contain no NUL'')
               else Inr (options\<lparr>o_peer := peer\<rparr>)) (\<lambda>options.
     tryE (case fr_operation_timeouts r of
             None \<Rightarrow> Inr options
           | Some t \<Rightarrow>
               (case samples of (s1, s2, s3, s4) \<Rightarrow>
                  tryE (runtime_duration s1 (ft_connect_ms t)) (\<lambda>c.
                  tryE (runtime_duration s2 (ft_publish_ms t)) (\<lambda>p.
                  tryE (runtime_duration s3 (ft_subscribe_ms t)) (\<lambda>s.
                  tryE (runtime_duration s4 (ft_unsubscribe_ms t)) (\<lambda>u.
                  Inr (options\<lparr>o_operation_timeouts := \<lparr>ot_connect = c, ot_publish = p, ot_subscribe = s, ot_unsubscribe = u\<rparr>\<rparr>))))))) (\<lambda>options.
     tryE (case fr_incoming_receive_maximum r of
             None \<Rightarrow> Inr options
           | Some v \<Rightarrow>
               if v = 0 then Inl (ffi_invalid ''incoming_receive_maximum must be positive'')
               else Inr (options\<lparr>o_incoming_receive_maximum := Some v\<rparr>)) (\<lambda>options.
     tryE (runtime_size (fr_max_incoming_packet_size r)) (\<lambda>a.
     tryE (runtime_size (fr_max_incoming_buffer_bytes r)) (\<lambda>b.
     tryE (runtime_size (fr_max_outgoing_buffer_bytes r)) (\<lambda>c.
     Inr (or_keep (fr_reconnect r) (\<lambda>v core. core\<lparr>o_reconnect := v\<rparr>)
            (options\<lparr>o_max_incoming_packet_size := a, o_max_incoming_buffer_bytes := b, o_max_outgoing_buffer_bytes := c\<rparr>))))))))"

section \<open>What the checks accept\<close>

text \<open>The two property types are the same data.\<close>

lemma property_both_ways: "ffi_of_Property (Property_of_ffi p) = p" "Property_of_ffi (ffi_of_Property q) = q"
  by (cases p; simp) (cases q; simp)

lemma discriminant_id: "discriminant p = prop_id_of (Property_of_ffi p)"
  by (cases p) (simp_all add: prop_id_of_def)

lemma is_user_iff: "is_user p \<longleftrightarrow> discriminant p = 0x26"
  by (cases p) (simp_all add: is_user_def)

lemma ffi_text_iff: "ffi_text v = Inr () \<longleftrightarrow> validation_string v = Inr ()"
  by (simp add: ffi_text_def validation_string_def validate_mqtt_utf8_string_def)

lemma ffi_topic_iff: "ffi_topic v False = Inr () \<longleftrightarrow> validation_topic v = Inr ()"
  by (auto simp: ffi_topic_def validation_topic_def ffi_text_iff require_def tryE_eq_Inr)

lemma ffi_topic_alias: "ffi_topic v a = Inr () \<longleftrightarrow> v = [] \<and> a \<or> validation_topic v = Inr ()"
  by (auto simp: ffi_topic_def validation_topic_def ffi_text_iff require_def tryE_eq_Inr validation_string_def
      validate_mqtt_utf8_string_def)

text \<open>A value the bindings accept is one the packet's own check accepts, one identifier apart.\<close>

lemma one_le_word: "(1 :: 32 word) \<le> v \<longleftrightarrow> v \<noteq> 0"
  by (simp add: linorder_not_less [symmetric] word_less_1)

lemma ffi_value_iff:
  assumes "discriminant p \<noteq> 0x12"
  shows "ffi_value p = Inr () \<longleftrightarrow> property_value (Property_of_ffi p) = Inr ()"
  using assms
  by (cases p)
    (simp_all add: ffi_value_def ffi_bool_def ffi_binary_def ffi_nonzero_def ffi_text_iff ffi_topic_iff require_def
      tryE_eq_Inr binary_limit_def not_le one_le_word)

text \<open>
  \<open>validate\<close> against the check of the core: when the allowed properties are those of a packet's
  context, what is accepted passes, apart from the pairing of the authentication properties.
\<close>

definition allowed_in :: "(MqttPropertyFFI \<Rightarrow> bool) \<Rightarrow> PropertyContext \<Rightarrow> bool" where
  "allowed_in allowed c \<longleftrightarrow>
     (\<forall>p. allowed p \<longrightarrow> snd (property_rule (Property_of_ffi p) c) \<and> discriminant p \<noteq> 0x12)"

lemma allowed_contexts:
  "allowed_in publish_property Ctx_Publish" "allowed_in subscribe_property Ctx_Subscribe"
  "allowed_in is_user Ctx_Unsubscribe" "allowed_in connect_allowed Ctx_Connect" "allowed_in will_property_ffi Ctx_Will"
  unfolding allowed_in_def
  by (auto simp: publish_property_def subscribe_property_def is_user_def connect_allowed_def will_property_ffi_def
      split: MqttPropertyFFI.splits)

lemma validate_loop_accepts:
  assumes "allowed_in allowed c"
  shows "validate_loop allowed seen ps = Inr () \<Longrightarrow>
    (\<forall>p\<in>set ps. snd (property_rule (Property_of_ffi p) c) \<and> property_value (Property_of_ffi p) = Inr () \<and> allowed p) \<and>
    distinct (map discriminant (filter (\<lambda>p. \<not> is_user p) ps)) \<and>
    (\<forall>p\<in>set ps. is_user p \<or> discriminant p \<notin> set seen)"
proof (induction ps arbitrary: seen)
  case (Cons p ps)
  let ?seen = "if is_user p then seen else discriminant p # seen"
  have step: "allowed p" "is_user p \<or> discriminant p \<notin> set seen" "ffi_value p = Inr ()"
      "validate_loop allowed ?seen ps = Inr ()"
    using Cons.prems by (auto simp: tryE_eq_Inr split: if_splits)
  have "snd (property_rule (Property_of_ffi p) c) \<and> property_value (Property_of_ffi p) = Inr ()"
    using assms step(1,3) by (auto simp: allowed_in_def ffi_value_iff)
  then show ?case
    using step(1,2) Cons.IH [OF step(4)] by (auto simp: is_user_iff split: if_splits)
qed simp

lemma ffi_validate_accepts:
  assumes "allowed_in allowed c" and "ffi_validate ps version allowed = Inr out"
  shows "out = map Property_of_ffi ps" and "version = 5 \<or> out = []"
    and "\<forall>p\<in>set out. snd (property_rule p c) \<and> property_value p = Inr ()"
    and "distinct (map prop_id_of (filter (\<lambda>p. prop_id_of p \<noteq> 0x26) out))" and "\<forall>p\<in>set ps. allowed p"
proof -
  have out: "out = map Property_of_ffi ps" and l: "validate_loop allowed [] ps = Inr ()" and v: "version = 5 \<or> ps = []"
    using assms(2) by (auto simp: ffi_validate_def tryE_eq_Inr split: if_splits)
  show "out = map Property_of_ffi ps" by (rule out)
  show "version = 5 \<or> out = []" using v out by simp
  show "\<forall>p\<in>set out. snd (property_rule p c) \<and> property_value p = Inr ()" "\<forall>p\<in>set ps. allowed p"
    using validate_loop_accepts [OF assms(1) l] out by auto
  have "map prop_id_of (filter (\<lambda>p. prop_id_of p \<noteq> 0x26) out) = map discriminant (filter (\<lambda>p. \<not> is_user p) ps)"
    unfolding out by (simp add: filter_map o_def is_user_iff discriminant_id)
  then show "distinct (map prop_id_of (filter (\<lambda>p. prop_id_of p \<noteq> 0x26) out))"
    using validate_loop_accepts [OF assms(1) l] by simp
qed

lemma ffi_validate_properties:
  assumes "allowed_in allowed c" and "ffi_validate ps version allowed = Inr out" and "c \<noteq> Ctx_Connect"
  shows "validation_properties out c = Inr ()"
proof -
  have "distinct (map prop_id_of (filter (\<lambda>p. \<not> may_repeat c p) out))"
    using distinct_map_filter [OF ffi_validate_accepts(4) [OF assms(1,2)], of "\<lambda>p. \<not> may_repeat c p"]
    by (simp add: filter_filter may_repeat_id conj_commute)
  then show ?thesis
    using ffi_validate_accepts(3) [OF assms(1,2)] assms(3) by (simp add: validation_properties_iff properties_spec_def)
qed

section \<open>Accepted commands are valid packets\<close>

lemma accepted_publish:
  assumes "ffi_publish_command opt topic payload 5 priority = Inr c" and "packet_id \<noteq> Some 0"
    and "packet_id \<noteq> None \<or> fp_qos opt = 0"
  shows "Publish5_validate (into_mqtt_publish (c\<lparr>pc_packet_id := packet_id\<rparr>)) = Inr ()"
proof -
  obtain props where v: "ffi_validate (fp_properties opt) 5 publish_property = Inr props"
      and t: "ffi_topic topic (list_ex is_topic_alias props) = Inr ()" and q: "fp_qos opt \<le> 2"
      and c: "pc_properties c = props" "pc_qos c = fp_qos opt" "pc_topic_name c = topic" "\<not> pc_dup c"
    using assms(1) by (auto simp: ffi_publish_command_def tryE_eq_Inr not_less split: if_splits)
  have a: "list_ex is_topic_alias props \<longleftrightarrow> (\<exists>q\<in>set props. case q of TopicAlias _ \<Rightarrow> True | _ \<Rightarrow> False)"
    by (simp add: list_ex_iff is_topic_alias_def)
  have "topic = [] \<longrightarrow> list_ex is_topic_alias props" "topic \<noteq> [] \<longrightarrow> validation_topic topic = Inr ()"
    using t by (auto simp: ffi_topic_alias validation_topic_def tryE_eq_Inr require_def)
  then show ?thesis
    using ffi_validate_properties [OF allowed_contexts(1) v] q c assms(2,3) a
    by (auto simp: Publish5_validate_def into_mqtt_publish_def validation_publish_def require_def
        validation_packet_id_def split: option.splits)
qed

lemma ffi_filter_valid:
  "ffi_filter f = Inr () \<Longrightarrow> validate_topic_filter f = Inr () \<and> validate_shared_subscription f = Inr ()"
  by (auto simp: ffi_filter_def tryE_eq_Inr core_check_def split: sum.splits)

lemma ffi_subscription_valid: "ffi_subscription version sub = Inr s \<Longrightarrow> validation_subscription s = Inr ()"
  using ffi_filter_valid [of "fs_topic_filter sub"]
  by (auto simp: ffi_subscription_def validation_subscription_def tryE_eq_Inr require_def not_less split: if_splits)

lemma ffi_subscriptions_valid:
  "ffi_subscriptions version subs = Inr ss \<Longrightarrow> check_each validation_subscription ss = Inr () \<and> length ss = length subs"
  by (induction subs arbitrary: ss) (auto simp: tryE_eq_Inr dest: ffi_subscription_valid)

lemma accepted_subscribe:
  assumes "ffi_subscribe_command opt 5 = Inr c" and "packet_id \<noteq> 0"
  shows "Subscribe5_validate \<lparr>sub_packet_id = packet_id, sub_subscriptions = sc_subscriptions c,
           sub_properties = sc_properties c\<rparr> = Inr ()"
proof -
  obtain props where v: "ffi_validate (fso_properties opt) 5 subscribe_property = Inr props"
      and s: "ffi_subscriptions 5 (fso_subscriptions opt) = Inr (sc_subscriptions c)" "fso_subscriptions opt \<noteq> []"
      and c: "sc_properties c = props"
    using assms(1) by (auto simp: ffi_subscribe_command_def tryE_eq_Inr split: if_splits)
  show ?thesis
    using ffi_validate_properties [OF allowed_contexts(2) v] ffi_subscriptions_valid [OF s(1)] s(2) assms(2) c
    by (auto simp: Subscribe5_validate_def validation_packet_id_def require_def)
qed

lemma ffi_filters_valid:
  "ffi_filters ts = Inr () \<Longrightarrow>
   check_each (\<lambda>f. tryE (validate_topic_filter f) (\<lambda>_. validate_shared_subscription f)) ts = Inr ()"
  by (induction ts) (auto simp: tryE_eq_Inr dest: ffi_filter_valid)

lemma accepted_unsubscribe:
  assumes "ffi_unsubscribe_command opt 5 = Inr c" and "packet_id \<noteq> 0"
  shows "Unsubscribe5_validate \<lparr>unsub_packet_id = packet_id, unsub_topic_filters = uc_topics c,
           unsub_properties = uc_properties c\<rparr> = Inr ()"
proof -
  obtain props where v: "ffi_validate (fu_properties opt) 5 is_user = Inr props"
      and f: "ffi_filters (fu_topics opt) = Inr ()" "fu_topics opt \<noteq> []"
      and c: "uc_properties c = props" "uc_topics c = fu_topics opt"
    using assms(1) by (auto simp: ffi_unsubscribe_command_def tryE_eq_Inr split: if_splits)
  show ?thesis
    using ffi_validate_properties [OF allowed_contexts(3) v] ffi_filters_valid [OF f(1)] f(2) assms(2) c
    by (auto simp: Unsubscribe5_validate_def validation_packet_id_def require_def)
qed

section \<open>Accepted connection options give a valid CONNECT\<close>

text \<open>Merging: the listed properties stay as they are, and repeating one of them adds nothing.\<close>

definition connect_ready :: "Property list \<Rightarrow> bool" where
  "connect_ready ps \<longleftrightarrow> (\<forall>p\<in>set ps. Engine_Commands.connect_property p = Inr ()) \<and>
     distinct (map prop_id_of (filter (\<lambda>p. prop_id_of p \<noteq> 0x26) ps))"

lemma user_property_id: "is_user_property p \<longleftrightarrow> prop_id_of p = 0x26"
  by (cases p) (simp_all add: is_user_property_def prop_id_of_def)

lemma merge_connect_append:
  "merge_connect m (xs @ ys) = tryE (merge_connect m xs) (\<lambda>m'. merge_connect m' ys)"
  by (induction m xs rule: merge_connect.induct) (auto simp: tryE_def split: sum.splits option.splits)

lemma merge_connect_fresh: "connect_ready (m @ ps) \<Longrightarrow> merge_connect m ps = Inr (m @ ps)"
proof (induction ps arbitrary: m)
  case (Cons p ps)
  have "prop_id_of p \<notin> prop_id_of ` {q \<in> set m. prop_id_of q \<noteq> 0x26}" if "\<not> is_user_property p"
    using Cons.prems that by (simp add: connect_ready_def user_property_id)
  then have "prop_id_of q \<noteq> prop_id_of p" if "\<not> is_user_property p" "q \<in> set m" for q
    using that unfolding user_property_id by (metis (mono_tags, lifting) imageI mem_Collect_eq)
  then have "find (\<lambda>q. same_discriminant q p) m = None" if "\<not> is_user_property p"
    using that by (auto simp: find_None_iff same_discriminant_def)
  then show ?case
    using Cons.prems Cons.IH [of "m @ [p]"] by (auto simp: connect_ready_def)
qed simp

lemma merge_connect_repeated:
  assumes "connect_ready m" and "\<forall>e\<in>set es. e \<in> set m \<and> \<not> is_user_property e"
  shows "merge_connect m es = Inr m"
  using assms(2)
proof (induction es)
  case (Cons e es)
  have e: "e \<in> set m" "\<not> is_user_property e" using Cons.prems by auto
  then obtain q where q: "find (\<lambda>q. same_discriminant q e) m = Some q"
    by (metis find_None_iff not_None_eq same_discriminant_def)
  then have "q \<in> set m" "prop_id_of q = prop_id_of e"
    by (auto simp: find_Some_iff same_discriminant_def)
  then have "q = e"
    using assms(1) e by (auto simp: connect_ready_def distinct_map inj_on_def user_property_id)
  then show ?case
    using Cons e q assms(1) by (auto simp: connect_ready_def)
qed simp

text \<open>The mirrored options hold values of the property list.\<close>

lemma fold_field:
  assumes "\<And>p x. f (g p x) = f x \<or> Q p (f (g p x))"
  shows "f (fold g ps x) = f x \<or> (\<exists>p\<in>set ps. Q p (f (fold g ps x)))"
proof (induction ps arbitrary: x)
  case (Cons p ps)
  then show ?case using assms [of p x] by (metis fold_simps(2) list.set_intros)
qed simp

lemma mirror_step:
  "o_session_expiry_interval (mirror_property p x) = o_session_expiry_interval x \<or>
     (\<exists>v. p = SessionExpiryInterval v \<and> o_session_expiry_interval (mirror_property p x) = Some v)"
  "o_maximum_packet_size (mirror_property p x) = o_maximum_packet_size x \<or>
     (\<exists>v. p = MaximumPacketSize v \<and> o_maximum_packet_size (mirror_property p x) = Some v)"
  "o_request_response_information (mirror_property p x) = o_request_response_information x \<or>
     (\<exists>v. p = RequestResponseInformation v \<and> o_request_response_information (mirror_property p x) = Some (v \<noteq> 0))"
  "o_request_problem_information (mirror_property p x) = o_request_problem_information x \<or>
     (\<exists>v. p = RequestProblemInformation v \<and> o_request_problem_information (mirror_property p x) = Some (v \<noteq> 0))"
  by (cases p; simp add: mirror_property_def)+

lemmas mirror_fold = mirror_step [THEN fold_field [of _ mirror_property]]

text \<open>What CONNECT is made of, and that mirroring and tuning leave the rest alone.\<close>

definition connect_view :: "MqttClientOptions \<Rightarrow> u8 \<times> str \<times> str option \<times> Will option \<times> u16 option" where
  "connect_view opts = (o_mqtt_version opts, o_client_id opts, o_username opts, o_will opts, o_incoming_receive_maximum opts)"

definition connect_lists :: "MqttClientOptions \<Rightarrow> Property list \<times> u32 option \<times> u32 option \<times> bool option \<times> bool option" where
  "connect_lists opts = (o_connect_properties opts, o_session_expiry_interval opts, o_maximum_packet_size opts,
     o_request_response_information opts, o_request_problem_information opts)"

lemmas connect_views = connect_view_def connect_lists_def

lemma mirror_view: "connect_view (fold mirror_property ps options) = connect_view options"
  by (induction ps arbitrary: options) (auto simp: connect_view_def mirror_property_def split: Property.splits)

lemma nonzero_option_rule:
  "nonzero_option n src t x = Inr y \<Longrightarrow> P x \<Longrightarrow> (\<And>v z. v \<noteq> 0 \<Longrightarrow> P z \<Longrightarrow> P (t v z)) \<Longrightarrow> P y"
  by (auto simp: nonzero_option_def split: option.splits if_splits)

lemma or_keep_rule: "P x \<Longrightarrow> (\<And>v z. P z \<Longrightarrow> P (t v z)) \<Longrightarrow> P (or_keep src t x)"
  by (simp add: or_keep_def split: option.splits)

text \<open>What holds of the options and is kept by each tuning holds of the tuned options.\<close>

lemma tuning_rule:
  assumes "apply_engine_options tuning options = Inr options'" and "P options"
    and nonzero: "\<And>v z. v \<noteq> 0 \<Longrightarrow> P z \<Longrightarrow> P (z\<lparr>o_retransmission_timeout_ms := v\<rparr>)"
      "\<And>v z. v \<noteq> 0 \<Longrightarrow> P z \<Longrightarrow> P (z\<lparr>o_ping_timeout_multiplier := v\<rparr>)"
      "\<And>v z. (v :: u32) \<noteq> 0 \<Longrightarrow> P z \<Longrightarrow> P (z\<lparr>o_max_outgoing_packet_count := unat v\<rparr>)"
      "\<And>v z. (v :: u32) \<noteq> 0 \<Longrightarrow> P z \<Longrightarrow> P (z\<lparr>o_max_event_count := unat v\<rparr>)"
      "\<And>v z. (v :: u32) \<noteq> 0 \<Longrightarrow> P z \<Longrightarrow> P (z\<lparr>o_parser_buffer_size := unat v\<rparr>)"
      "\<And>v z. v \<noteq> 0 \<Longrightarrow> P z \<Longrightarrow> P (z\<lparr>o_receive_maximum := v\<rparr>)"
    and keep: "\<And>v z. P z \<Longrightarrow> P (z\<lparr>o_auto_keepalive := v\<rparr>)" "\<And>v z. P z \<Longrightarrow> P (z\<lparr>o_auto_ack := v\<rparr>)"
      "\<And>v z. P z \<Longrightarrow> P (z\<lparr>o_sessionless := v\<rparr>)" "\<And>v z. P z \<Longrightarrow> P (z\<lparr>o_subscription_topics := v\<rparr>)"
  shows "P options'"
proof -
  let ?kept = "\<lambda>z. or_keep (fe_sessionless tuning) (\<lambda>v core. core\<lparr>o_sessionless := v\<rparr>)
    (or_keep (fe_auto_ack tuning) (\<lambda>v core. core\<lparr>o_auto_ack := v\<rparr>)
    (or_keep (fe_auto_keepalive tuning) (\<lambda>v core. core\<lparr>o_auto_keepalive := v\<rparr>) z))"
  obtain o1 o2 o3 o4 o5 o6 where
      n: "nonzero_option ''retransmission_timeout_ms'' (fe_retransmission_timeout_ms tuning)
             (\<lambda>v core. core\<lparr>o_retransmission_timeout_ms := v\<rparr>) options = Inr o1"
         "nonzero_option ''ping_timeout_multiplier'' (fe_ping_timeout_multiplier tuning)
             (\<lambda>v core. core\<lparr>o_ping_timeout_multiplier := v\<rparr>) o1 = Inr o2"
         "nonzero_option ''max_outgoing_packet_count'' (fe_max_outgoing_packet_count tuning)
             (\<lambda>v core. core\<lparr>o_max_outgoing_packet_count := unat v\<rparr>) o2 = Inr o3"
         "nonzero_option ''max_event_count'' (fe_max_event_count tuning)
             (\<lambda>v core. core\<lparr>o_max_event_count := unat v\<rparr>) o3 = Inr o4"
         "nonzero_option ''parser_buffer_size'' (fe_parser_buffer_size tuning)
             (\<lambda>v core. core\<lparr>o_parser_buffer_size := unat v\<rparr>) o4 = Inr o5"
         "nonzero_option ''max_inflight'' (fe_max_inflight tuning)
             (\<lambda>v core. core\<lparr>o_receive_maximum := v\<rparr>) o5 = Inr o6"
    and tail: "(if o_sessionless (?kept o6) \<and> (\<not> o_clean_start (?kept o6) \<or>
            (case o_session_expiry_interval (?kept o6) of None \<Rightarrow> 0 | Some v \<Rightarrow> v) \<noteq> 0)
        then Inl (ffi_invalid ''Sessionless mode requires clean_start=True and zero session expiry'')
        else if fe_subscriptions tuning = [] then Inr (?kept o6)
        else tryE (ffi_subscribe_command \<lparr>fso_subscriptions = fe_subscriptions tuning, fso_properties = []\<rparr> (o_mqtt_version (?kept o6)))
            (\<lambda>command. Inr ((?kept o6)\<lparr>o_subscription_topics := sc_subscriptions command\<rparr>))) = (Inr options' :: _ ffi)"
    using assms(1) unfolding apply_engine_options_def tryE_eq_Inr Let_def by blast
  have r: "options' = ?kept o6 \<or> (\<exists>subs. options' = (?kept o6)\<lparr>o_subscription_topics := subs\<rparr>)"
    using tail by (auto simp: tryE_eq_Inr split: if_splits)
  have "P o1" by (rule nonzero_option_rule [where P = P, OF n(1) assms(2) nonzero(1)])
  then have "P o2" by (rule nonzero_option_rule [where P = P, OF n(2) _ nonzero(2)])
  then have "P o3" by (rule nonzero_option_rule [where P = P, OF n(3) _ nonzero(3)])
  then have "P o4" by (rule nonzero_option_rule [where P = P, OF n(4) _ nonzero(4)])
  then have "P o5" by (rule nonzero_option_rule [where P = P, OF n(5) _ nonzero(5)])
  then have "P o6" by (rule nonzero_option_rule [where P = P, OF n(6) _ nonzero(6)])
  then have "P (?kept o6)" by (intro or_keep_rule [where P = P] keep)
  then show ?thesis using r keep(4) by auto
qed

lemma tuning_views:
  assumes "apply_engine_options tuning options = Inr options'"
  shows "connect_view options' = connect_view options \<and> connect_lists options' = connect_lists options"
  by (rule tuning_rule [OF assms]) (simp_all add: connect_views)

text \<open>A Will that is accepted: every property is one the code stores, and the stored ones are valid.\<close>

lemma set_will_step:
  "will_property_ffi (ffi_of_Property p) \<Longrightarrow> set_will_properties (p # ps) wp = set_will_properties ps (will_property p wp)"
  by (cases p) (simp_all add: will_property_ffi_def will_property_def)

lemma will_property_listed: "set (will_property_list (will_property p wp)) \<subseteq> insert p (set (will_property_list wp))"
  by (cases p) (auto simp: will_property_list_def will_property_def)

lemma will_property_users:
  "\<forall>p\<in>set (wp_user_properties wp). prop_id_of p = 0x26 \<Longrightarrow> \<forall>q\<in>set (wp_user_properties (will_property p wp)). prop_id_of q = 0x26"
  by (cases p) (auto simp: will_property_def prop_id_of_def)

lemma set_will_accepts:
  "\<forall>p\<in>set ps. will_property_ffi (ffi_of_Property p) \<Longrightarrow> \<exists>wp'. set_will_properties ps wp = Inr wp' \<and>
    set (will_property_list wp') \<subseteq> set ps \<union> set (will_property_list wp) \<and>
    ((\<forall>p\<in>set (wp_user_properties wp). prop_id_of p = 0x26) \<longrightarrow> (\<forall>p\<in>set (wp_user_properties wp'). prop_id_of p = 0x26))"
proof (induction ps arbitrary: wp)
  case (Cons p ps)
  obtain wp' where wp': "set_will_properties ps (will_property p wp) = Inr wp'"
      "set (will_property_list wp') \<subseteq> set ps \<union> set (will_property_list (will_property p wp))"
      "(\<forall>p\<in>set (wp_user_properties (will_property p wp)). prop_id_of p = 0x26) \<longrightarrow>
       (\<forall>p\<in>set (wp_user_properties wp'). prop_id_of p = 0x26)"
    using Cons by (metis list.set_intros(2))
  have "set_will_properties (p # ps) wp = Inr wp'"
    using wp'(1) Cons.prems by (simp del: set_will_properties.simps add: set_will_step)
  moreover have "set (will_property_list wp') \<subseteq> set (p # ps) \<union> set (will_property_list wp)"
    using wp'(2) will_property_listed [of p wp] by auto
  ultimately show ?case
    using wp'(3) will_property_users [of wp p] by blast
qed auto

lemma will_list_distinct:
  "\<forall>p\<in>set (wp_user_properties wp). prop_id_of p = 0x26 \<Longrightarrow>
   distinct (map prop_id_of (filter (\<lambda>p. \<not> may_repeat Ctx_Will p) (will_property_list wp)))"
  by (auto simp: will_property_list_def may_repeat_id filter_False prop_id_of_def split: option.split)

lemma accepted_will:
  assumes "ffi_will w version = Inr will"
  shows "w_will_qos will \<le> 2" and "validation_topic (w_will_topic will) = Inr ()"
    and "validation_properties (will_property_list (w_properties will)) Ctx_Will = Inr ()"
proof -
  obtain ps where t: "ffi_topic (fw_topic w) False = Inr ()" and v: "ffi_validate (fw_properties w) version will_property_ffi = Inr ps"
      and s: "set_will_properties ps WillProperties_new = Inr (w_properties will)"
      and w: "w_will_qos will = fw_qos w" "w_will_topic will = fw_topic w" "fw_qos w \<le> 2"
    using assms by (auto simp: ffi_will_def tryE_eq_Inr not_less split: if_splits)
  show "w_will_qos will \<le> 2" "validation_topic (w_will_topic will) = Inr ()"
    using t w by (auto simp: ffi_topic_iff)
  have "\<forall>p\<in>set ps. will_property_ffi (ffi_of_Property p)"
    using ffi_validate_accepts(1,5) [OF allowed_contexts(5) v] by (auto simp: property_both_ways)
  from set_will_accepts [OF this, of WillProperties_new]
  have sub: "set (will_property_list (w_properties will)) \<subseteq> set ps" and u: "\<forall>p\<in>set (wp_user_properties (w_properties will)). prop_id_of p = 0x26"
    using s by (auto simp: will_property_list_def WillProperties_new_def)
  show "validation_properties (will_property_list (w_properties will)) Ctx_Will = Inr ()"
    using ffi_validate_accepts(3) [OF allowed_contexts(5) v] sub will_list_distinct [OF u]
    by (auto simp: validation_properties_iff properties_spec_def)
qed

lemma connect_property_ok:
  "snd (property_rule p Ctx_Connect) \<Longrightarrow> property_value p = Inr () \<Longrightarrow> Engine_Commands.connect_property p = Inr ()"
  by (cases p) (auto simp: connect_property_def require_def not_le not_less split: if_splits)

text \<open>The steps of \<open>into_core\<close> that succeed, with the options before and after the tuning.\<close>

lemma connect_into_core_steps:
  assumes "connect_into_core c = Inr opts"
  obtains ps fps base password options options' where
    "ffi_text (fo_client_id (fc_options c)) = Inr ()"
    "\<forall>u. fo_username (fc_options c) = Some u \<longrightarrow> ffi_text u = Inr ()"
    "ffi_validate fps (fo_mqtt_version (fc_options c)) connect_allowed = Inr ps"
    "list_ex is_auth_data ps \<longrightarrow> list_ex is_auth_method ps"
    "options_of_ffi (fc_options c) = Inr base"
    "options = (fold mirror_property ps (base\<lparr>o_password := password\<rparr>))\<lparr>o_connect_properties := ps\<rparr>"
    "options' = options \<or> (\<exists>fw w. ffi_will fw (fo_mqtt_version (fc_options c)) = Inr w \<and> options' = options\<lparr>o_will := Some w\<rparr>)"
    "opts = options' \<or> (\<exists>tuning. apply_engine_options tuning options' = Inr opts)"
proof -
  obtain fps ps base password options' where
      s: "ffi_text (fo_client_id (fc_options c)) = Inr ()"
        "(case fo_username (fc_options c) of None \<Rightarrow> Inr () | Some u \<Rightarrow> ffi_text u) = Inr ()"
        "ffi_validate fps (fo_mqtt_version (fc_options c)) connect_allowed = Inr ps"
        "list_ex is_auth_data ps \<longrightarrow> list_ex is_auth_method ps" "options_of_ffi (fc_options c) = Inr base"
    and w: "(case fc_will c of
               None \<Rightarrow> Inr ((fold mirror_property ps (base\<lparr>o_password := password\<rparr>))\<lparr>o_connect_properties := ps\<rparr>)
             | Some will \<Rightarrow> tryE (ffi_will will (fo_mqtt_version (fc_options c))) (\<lambda>w.
                 Inr ((fold mirror_property ps (base\<lparr>o_password := password\<rparr>))\<lparr>o_connect_properties := ps, o_will := Some w\<rparr>)))
           = Inr options'"
    and t: "(case fc_engine_options c of None \<Rightarrow> Inr options' | Some tuning \<Rightarrow> apply_engine_options tuning options') = Inr opts"
    using assms unfolding connect_into_core_def Let_def
    by (auto simp: tryE_eq_Inr split: if_splits)
  show thesis
  proof (rule that [OF s(1) _ s(3,4,5) refl])
    show "\<forall>u. fo_username (fc_options c) = Some u \<longrightarrow> ffi_text u = Inr ()" using s(2) by auto
  qed (use w t in \<open>auto simp: tryE_eq_Inr split: option.splits\<close>)
qed

lemma options_of_ffi_view:
  assumes "options_of_ffi opt = Inr base"
  shows "connect_view base = (fo_mqtt_version opt, fo_client_id opt, fo_username opt, None, None)"
    and "connect_lists base = ([], None, None, None, None)"
  using assms
  by (auto simp: options_of_ffi_def opts_mqtt_version_def connect_views Let_def MqttClientOptions_default_def
      opts_max_reconnect_attempts_def opts_reconnect_max_delay_ms_def opts_reconnect_base_delay_ms_def
      opts_keep_alive_def opts_clean_start_def opts_client_id_def opts_username_def opts_password_def
      split: if_splits option.splits)

lemma of_bool_flag: "(v :: u8) \<le> 1 \<Longrightarrow> of_bool (v \<noteq> 0) = v"
  by (cases "v = 0") (simp, unat_arith)

lemma auth_kinds:
  "is_auth_data p \<longleftrightarrow> (\<exists>d. p = AuthenticationData d)" "is_auth_method p \<longleftrightarrow> (\<exists>m. p = AuthenticationMethod m)"
  by (cases p; simp add: is_auth_data_def is_auth_method_def)+

lemma option_property_ball: "(\<forall>e\<in>set (option_property C v). P e) \<longleftrightarrow> (\<forall>x. v = Some x \<longrightarrow> P (C x))"
  by (cases v) simp_all

lemma connect_properties_ready:
  assumes v: "ffi_validate fps version connect_allowed = Inr ps"
    and l: "connect_lists opts = connect_lists ((fold mirror_property ps base)\<lparr>o_connect_properties := ps\<rparr>)"
    and b: "connect_lists base = ([], None, None, None, None)" and r: "o_incoming_receive_maximum opts = None"
    and a: "list_ex is_auth_data ps \<longrightarrow> list_ex is_auth_method ps"
  shows "connect_properties opts = Inr ps"
proof -
  note ok = ffi_validate_accepts(3,4) [OF allowed_contexts(4) v]
  have ready: "connect_ready ps"
    using ok by (auto simp: connect_ready_def intro: connect_property_ok)
  have flag: "of_bool (w \<noteq> 0) = w" if "RequestResponseInformation w \<in> set ps \<or> RequestProblemInformation w \<in> set ps" for w
    using ok(1) that by (intro of_bool_flag) (auto simp: require_def split: if_splits)
  let ?extra = "option_property SessionExpiryInterval (o_session_expiry_interval opts)
     @ option_property MaximumPacketSize (o_maximum_packet_size opts)
     @ option_property (\<lambda>v. RequestResponseInformation (of_bool v)) (o_request_response_information opts)
     @ option_property (\<lambda>v. RequestProblemInformation (of_bool v)) (o_request_problem_information opts)"
  have mirrored: "o_session_expiry_interval opts = Some x1 \<Longrightarrow> SessionExpiryInterval x1 \<in> set ps"
      "o_maximum_packet_size opts = Some x2 \<Longrightarrow> MaximumPacketSize x2 \<in> set ps"
      "o_request_response_information opts = Some x3 \<Longrightarrow> RequestResponseInformation (of_bool x3) \<in> set ps"
      "o_request_problem_information opts = Some x4 \<Longrightarrow> RequestProblemInformation (of_bool x4) \<in> set ps" for x1 x2 x3 x4
    using l b mirror_fold [of ps base] flag unfolding connect_lists_def by fastforce+
  have "\<forall>e\<in>set ?extra. e \<in> set ps \<and> \<not> is_user_property e"
    unfolding set_append ball_Un option_property_ball using mirrored by (simp add: is_user_property_def)
  then have "merge_connect [] (ps @ ?extra) = Inr ps"
    using merge_connect_fresh [of "[]" ps] merge_connect_repeated [OF ready, of ?extra] ready
    by (simp add: merge_connect_append)
  moreover have "o_connect_properties opts = ps"
    using l by (simp add: connect_lists_def)
  ultimately show ?thesis
    using a r by (simp add: connect_properties_def)
qed

lemma accepted_connect:
  assumes "connect_into_core c = Inr opts" and "fo_mqtt_version (fc_options c) = 5"
  shows "\<exists>p. connect_packet opts = Inr (P_Connect5 p) \<and> Connect5_validate p = Inr () \<and>
    (\<forall>w. con_will p = Some w \<longrightarrow> validation_properties (will_property_list (w_properties w)) Ctx_Will = Inr ())"
proof -
  from assms(1) obtain ps fps base password options options' where
      s: "ffi_text (fo_client_id (fc_options c)) = Inr ()"
        "\<forall>u. fo_username (fc_options c) = Some u \<longrightarrow> ffi_text u = Inr ()"
      and v: "ffi_validate fps (fo_mqtt_version (fc_options c)) connect_allowed = Inr ps"
      and a: "list_ex is_auth_data ps \<longrightarrow> list_ex is_auth_method ps"
      and b: "options_of_ffi (fc_options c) = Inr base"
      and opt: "options = (fold mirror_property ps (base\<lparr>o_password := password\<rparr>))\<lparr>o_connect_properties := ps\<rparr>"
      and w: "options' = options \<or> (\<exists>fw w. ffi_will fw (fo_mqtt_version (fc_options c)) = Inr w \<and> options' = options\<lparr>o_will := Some w\<rparr>)"
      and t: "opts = options' \<or> (\<exists>tuning. apply_engine_options tuning options' = Inr opts)"
    by (rule connect_into_core_steps)
  let ?base = "base\<lparr>o_password := password\<rparr>"
  have views: "connect_view opts = connect_view options'" "connect_lists opts = connect_lists options'"
    using t tuning_views by auto
  have base: "connect_view ?base = (5, fo_client_id (fc_options c), fo_username (fc_options c), None, None)"
      "connect_lists ?base = ([], None, None, None, None)"
    using options_of_ffi_view [OF b] assms(2) by (simp_all add: connect_views)
  have fields: "o_mqtt_version opts = 5" "o_client_id opts = fo_client_id (fc_options c)"
      "o_username opts = fo_username (fc_options c)" "o_incoming_receive_maximum opts = None"
    using views(1) w opt mirror_view [of ps ?base] base(1) by (auto simp: connect_view_def)
  have will: "\<exists>fw. ffi_will fw (fo_mqtt_version (fc_options c)) = Inr will" if "o_will opts = Some will" for will
    using that views(1) w opt mirror_view [of ps ?base] base(1) by (auto simp: connect_view_def)
  have "connect_lists opts = connect_lists options"
    using views(2) w by (auto simp: connect_lists_def)
  then have props: "connect_properties opts = Inr ps"
    unfolding opt by (intro connect_properties_ready [OF v _ base(2) fields(4) a]) simp
  have "(\<exists>d. AuthenticationData d \<in> set ps) \<longrightarrow> (\<exists>m. AuthenticationMethod m \<in> set ps)"
    using a unfolding list_ex_iff auth_kinds by blast
  then have "validation_properties ps Ctx_Connect = Inr ()"
    using ffi_validate_accepts(3,4) [OF allowed_contexts(4) v]
    by (simp add: validation_properties_iff properties_spec_def may_repeat_id)
  moreover have "validation_string (ascii ''MQTT'') = Inr ()"
    by (simp add: validation_string_def validate_mqtt_utf8_string_def ascii_def)
  moreover have "(case o_username opts of None \<Rightarrow> Inr () | Some u \<Rightarrow> validation_string u) = Inr ()"
    using s(2) fields(3) by (simp add: ffi_text_iff split: option.split)
  moreover have "(case o_will opts of None \<Rightarrow> Inr () | Some w \<Rightarrow>
      tryE (require (w_will_qos w \<le> 2) ''Will QoS cannot exceed 2'') (\<lambda>_. validation_topic (w_will_topic w))) = Inr ()"
    using will accepted_will(1,2) by (auto simp: require_def split: option.split)
  moreover have "\<forall>w. o_will opts = Some w \<longrightarrow> validation_properties (will_property_list (w_properties w)) Ctx_Will = Inr ()"
    using will accepted_will(3) by blast
  ultimately show ?thesis
    using s(1) props fields(1,2) by (simp add: connect_packet_def Connect5_validate_def ffi_text_iff)
qed

section \<open>No panic\<close>

text \<open>Neither the \<open>unreachable!\<close> of the Will nor the panic of the version setter is reached.\<close>

definition no_ffi_panic :: "'a ffi \<Rightarrow> bool" where
  "no_ffi_panic r \<longleftrightarrow> (\<forall>m. r \<noteq> Inl (Ffi_panic m))"

lemma no_ffi_panic_basic [simp]:
  "no_ffi_panic (Inr x)" "no_ffi_panic (Inl (ffi_invalid m))" "no_ffi_panic (Inl (Ffi_InvalidArgument d))"
  by (simp_all add: no_ffi_panic_def ffi_invalid_def)

lemma no_ffi_panic_tryE:
  "no_ffi_panic r \<Longrightarrow> (\<And>x. r = Inr x \<Longrightarrow> no_ffi_panic (f x)) \<Longrightarrow> no_ffi_panic (tryE r f)"
  by (cases r) (auto simp: no_ffi_panic_def)

lemma no_ffi_panic_checks [simp]:
  "no_ffi_panic (ffi_text v)" "no_ffi_panic (ffi_topic v a)" "no_ffi_panic (ffi_filter v)" "no_ffi_panic (core_check r)"
  by (auto simp: ffi_text_def ffi_topic_def ffi_filter_def core_check_def intro!: no_ffi_panic_tryE split: sum.split)

lemma no_ffi_panic_value [simp]: "no_ffi_panic (ffi_value p)"
  by (cases p) (auto simp: ffi_value_def ffi_bool_def ffi_nonzero_def ffi_binary_def intro!: no_ffi_panic_tryE)

lemma no_ffi_panic_loops [simp]:
  "no_ffi_panic (validate_loop allowed seen ps)" "no_ffi_panic (deduplicate_loop found ps)" "no_ffi_panic (ffi_subscriptions v subs)"
  by (induction ps arbitrary: seen; auto intro!: no_ffi_panic_tryE)
    ((induction ps arbitrary: found; auto split: option.split),
     (induction subs; auto simp: ffi_subscription_def intro!: no_ffi_panic_tryE))

lemma no_ffi_panic_validate [simp]: "no_ffi_panic (ffi_validate ps version allowed)"
  by (auto simp: ffi_validate_def intro!: no_ffi_panic_tryE)

lemma no_ffi_panic_will: "no_ffi_panic (ffi_will w version)"
proof -
  have "no_ffi_panic (set_will_properties ps WillProperties_new)"
    if v: "ffi_validate (fw_properties w) version will_property_ffi = Inr ps" for ps
  proof -
    have "\<forall>p\<in>set ps. will_property_ffi (ffi_of_Property p)"
      using ffi_validate_accepts(1,5) [OF allowed_contexts(5) v] by (auto simp: property_both_ways)
    then show ?thesis
      using set_will_accepts [of ps WillProperties_new] by auto
  qed
  then show ?thesis
    unfolding ffi_will_def by (auto intro!: no_ffi_panic_tryE)
qed

lemma no_ffi_panic_nonzero [simp]: "no_ffi_panic (nonzero_option n src t options)"
  by (auto simp: nonzero_option_def split: option.split)

lemma no_ffi_panic_tuning: "no_ffi_panic (apply_engine_options tuning options)"
  by (auto simp: apply_engine_options_def ffi_subscribe_command_def Let_def intro!: no_ffi_panic_tryE)

lemma no_ffi_panic_connect: "no_ffi_panic (connect_into_core c)"
proof -
  have "no_ffi_panic (options_of_ffi (fc_options c))"
    if "3 \<le> fo_mqtt_version (fc_options c)" "fo_mqtt_version (fc_options c) \<le> 5"
  proof -
    have "fo_mqtt_version (fc_options c) = 3 \<or> fo_mqtt_version (fc_options c) = 4 \<or> fo_mqtt_version (fc_options c) = 5"
      using that by unat_arith
    then show ?thesis by (auto simp: options_of_ffi_def opts_mqtt_version_def Let_def)
  qed
  then show ?thesis
    unfolding connect_into_core_def deduplicate_connect_def
    by (auto simp: Let_def intro!: no_ffi_panic_tryE no_ffi_panic_will no_ffi_panic_tuning split: option.split)
qed

section \<open>Options for an engine\<close>

text \<open>Accepted options have a known protocol version and room for packets and events.\<close>

definition engine_ready :: "MqttClientOptions \<Rightarrow> bool" where
  "engine_ready opts \<longleftrightarrow> 3 \<le> o_mqtt_version opts \<and> o_mqtt_version opts \<le> 5 \<and>
     0 < o_max_outgoing_packet_count opts \<and> 0 < o_max_event_count opts \<and> 0 < o_parser_buffer_size opts"

lemma mirror_ready: "engine_ready (fold mirror_property ps options) = engine_ready options"
proof (induction ps arbitrary: options)
  case (Cons p ps)
  then show ?case by (cases p) (simp_all add: engine_ready_def mirror_property_def)
qed simp

lemma connect_into_core_ready:
  assumes "connect_into_core c = Inr opts"
  shows "engine_ready opts"
proof -
  from assms obtain ps fps base password options options' where
      b: "options_of_ffi (fc_options c) = Inr base"
      and opt: "options = (fold mirror_property ps (base\<lparr>o_password := password\<rparr>))\<lparr>o_connect_properties := ps\<rparr>"
      and w: "options' = options \<or> (\<exists>fw w. ffi_will fw (fo_mqtt_version (fc_options c)) = Inr w \<and> options' = options\<lparr>o_will := Some w\<rparr>)"
      and t: "opts = options' \<or> (\<exists>tuning. apply_engine_options tuning options' = Inr opts)"
    by (rule connect_into_core_steps)
  have "engine_ready (base\<lparr>o_password := password\<rparr>)"
    using b
    by (auto simp: options_of_ffi_def opts_mqtt_version_def engine_ready_def Let_def MqttClientOptions_default_def
        opts_max_reconnect_attempts_def opts_reconnect_max_delay_ms_def opts_reconnect_base_delay_ms_def
        opts_keep_alive_def opts_clean_start_def opts_client_id_def opts_username_def opts_password_def
        split: if_splits option.splits)
  then have "engine_ready (fold mirror_property ps (base\<lparr>o_password := password\<rparr>))"
    by (simp only: mirror_ready)
  then have "engine_ready options'"
    using w by (auto simp: opt engine_ready_def)
  moreover have "engine_ready opts" if "apply_engine_options tuning options' = Inr opts" for tuning
    by (rule tuning_rule [where P = engine_ready, OF that \<open>engine_ready options'\<close>]) (simp_all add: engine_ready_def unat_gt_0)
  ultimately show ?thesis using t by auto
qed

lemma apply_runtime_ready:
  assumes "apply_runtime_options blank samples r options = Inr options'" and "engine_ready options"
  shows "engine_ready options'"
proof -
  obtain o1 o2 o3 x y z where
      p: "(case fr_peer r of
             None \<Rightarrow> Inr options
           | Some peer \<Rightarrow>
               if blank peer \<or> 0 \<in> set peer then Inl (ffi_invalid ''peer must be nonempty and contain no NUL'')
               else Inr (options\<lparr>o_peer := peer\<rparr>)) = (Inr o1 :: _ ffi)"
    and t: "(case fr_operation_timeouts r of
             None \<Rightarrow> Inr o1
           | Some t \<Rightarrow>
               (case samples of (s1, s2, s3, s4) \<Rightarrow>
                  tryE (runtime_duration s1 (ft_connect_ms t)) (\<lambda>c.
                  tryE (runtime_duration s2 (ft_publish_ms t)) (\<lambda>p.
                  tryE (runtime_duration s3 (ft_subscribe_ms t)) (\<lambda>s.
                  tryE (runtime_duration s4 (ft_unsubscribe_ms t)) (\<lambda>u.
                  Inr (o1\<lparr>o_operation_timeouts := \<lparr>ot_connect = c, ot_publish = p, ot_subscribe = s, ot_unsubscribe = u\<rparr>\<rparr>)))))))
           = (Inr o2 :: _ ffi)"
    and m: "(case fr_incoming_receive_maximum r of
             None \<Rightarrow> Inr o2
           | Some v \<Rightarrow>
               if v = 0 then Inl (ffi_invalid ''incoming_receive_maximum must be positive'')
               else Inr (o2\<lparr>o_incoming_receive_maximum := Some v\<rparr>)) = (Inr o3 :: _ ffi)"
    and e: "options' = or_keep (fr_reconnect r) (\<lambda>v core. core\<lparr>o_reconnect := v\<rparr>)
            (o3\<lparr>o_max_incoming_packet_size := x, o_max_incoming_buffer_bytes := y, o_max_outgoing_buffer_bytes := z\<rparr>)"
    using assms(1) unfolding apply_runtime_options_def tryE_eq_Inr by blast
  have "engine_ready o1" using p assms(2) by (auto simp: engine_ready_def split: option.splits if_splits)
  then have "engine_ready o2" using t by (auto simp: engine_ready_def tryE_eq_Inr split: option.splits prod.splits)
  then have "engine_ready o3" using m by (auto simp: engine_ready_def split: option.splits if_splits)
  then show ?thesis unfolding e by (simp add: engine_ready_def or_keep_def split: option.split)
qed

end
