(* ===== verification/Bindings_Engine.thy ===== *)
theory Bindings_Engine
  imports Bindings
begin

declare map_of_eq_Some_iff [simp del] Some_eq_map_of_iff [simp del]

text \<open>
  The engine object of the bindings for a plain transport, \<open>MqttEngineFFI\<close> of
  \<open>src/flowsdk_ffi/src/engine.rs\<close> with its parts in \<open>runtime.rs\<close>, \<open>advanced.rs\<close> and
  \<open>session.rs\<close>.

  A method takes the samples of the clock that it reads, in order, and returns the panic of the
  engine or its result and the object after it; the two mutexes are held for the whole of every
  method that combines them.  A text that the code formats from an error is the error itself.  The
  JSON codec of session checkpoints is the pair of arguments \<open>to_json\<close> and \<open>from_json\<close>.
\<close>

section \<open>Events\<close>

datatype MqttOperationKindFFI = FOp_Connect | FOp_Publish | FOp_Subscribe | FOp_Unsubscribe

datatype MqttFailureKindFFI = Failure_Timeout | Failure_SessionExpired | Failure_Cancelled | Failure_Other

record MqttMessageFFI =
  mm_stream_id :: "u64 option"
  mm_topic :: str
  mm_payload :: bytes
  mm_qos :: u8
  mm_retain :: bool
  mm_dup :: bool
  mm_packet_id :: "u16 option"
  mm_properties :: "MqttPropertyFFI list"

record ConnectionResultFFI =
  fcr_reason_code :: u8
  fcr_session_present :: bool
  fcr_properties :: "MqttPropertyFFI list"

record AuthResultFFI =
  far_reason_code :: u8
  far_properties :: "MqttPropertyFFI list"

record PublishResultFFI =
  fpr_packet_id :: "u16 option"
  fpr_reason_code :: "u8 option"
  fpr_qos :: u8
  fpr_properties :: "MqttPropertyFFI list"

text \<open>\<open>SubscribeResultFFI\<close> and \<open>UnsubscribeResultFFI\<close> have the same fields.\<close>

record AckResultFFI =
  fkr_packet_id :: u16
  fkr_reason_codes :: "u8 list"
  fkr_properties :: "MqttPropertyFFI list"

datatype shown = Shown_client MqttClientError | Shown_ffi MqttErrorFFI

text \<open>The events of a plain transport; those of QUIC have no source among the modelled events.\<close>

datatype MqttEventFFI =
    E_PublishReceived "u16 option" "u64 option"
  | E_PubRelReceived u16 "u64 option"
  | E_Connected ConnectionResultFFI
  | E_AuthReceived AuthResultFFI
  | E_Disconnected "u8 option" "MqttPropertyFFI list"
  | E_MessageReceived MqttMessageFFI
  | E_Published PublishResultFFI
  | E_Subscribed AckResultFFI
  | E_Unsubscribed AckResultFFI
  | E_PingResponse bool
  | E_Error shown
  | E_OperationFailed MqttOperationKindFFI "u16 option" MqttFailureKindFFI MqttClientError "u64 option"
  | E_ReconnectNeeded
  | E_ReconnectScheduled u32 u64

definition map_operation :: "OperationKind \<Rightarrow> MqttOperationKindFFI" where
  "map_operation k = (case k of Op_Connect \<Rightarrow> FOp_Connect | Op_Publish \<Rightarrow> FOp_Publish
     | Op_Subscribe \<Rightarrow> FOp_Subscribe | Op_Unsubscribe \<Rightarrow> FOp_Unsubscribe)"

definition map_failure :: "MqttClientError \<Rightarrow> MqttFailureKindFFI \<times> u64 option" where
  "map_failure e = (case e of
     OperationTimeout _ timeout_ms \<Rightarrow> (Failure_Timeout, Some timeout_ms)
   | SessionExpired \<Rightarrow> (Failure_SessionExpired, None)
   | OperationCancelled _ \<Rightarrow> (Failure_Cancelled, None)
   | _ \<Rightarrow> (Failure_Other, None))"

definition map_event :: "MqttEvent \<Rightarrow> MqttEventFFI" where
  "map_event event = (case event of
     AuthReceived r \<Rightarrow>
       E_AuthReceived \<lparr>far_reason_code = ar_reason_code r, far_properties = map ffi_of_Property (ar_properties r)\<rparr>
   | Connected r \<Rightarrow>
       E_Connected \<lparr>fcr_reason_code = cr_reason_code r, fcr_session_present = cr_session_present r,
         fcr_properties = map ffi_of_Property (unwrap_or_default (cr_properties r))\<rparr>
   | Disconnected code \<Rightarrow> E_Disconnected code []
   | DisconnectReceived code properties \<Rightarrow> E_Disconnected (Some code) (map ffi_of_Property properties)
   | PublishReceived i stream \<Rightarrow> E_PublishReceived i stream
   | PubRelReceived i stream \<Rightarrow> E_PubRelReceived i stream
   | MessageReceived m \<Rightarrow>
       E_MessageReceived \<lparr>mm_stream_id = None, mm_topic = pub_topic_name m, mm_payload = pub_payload m,
         mm_qos = pub_qos m, mm_retain = pub_retain m, mm_dup = pub_dup m, mm_packet_id = pub_packet_id m,
         mm_properties = map ffi_of_Property (pub_properties m)\<rparr>
   | Published r \<Rightarrow>
       E_Published \<lparr>fpr_packet_id = pr_packet_id r, fpr_reason_code = pr_reason_code r, fpr_qos = pr_qos r,
         fpr_properties = map ffi_of_Property (unwrap_or_default (pr_properties r))\<rparr>
   | Subscribed r \<Rightarrow>
       E_Subscribed \<lparr>fkr_packet_id = kr_packet_id r, fkr_reason_codes = kr_reason_codes r,
         fkr_properties = map ffi_of_Property (kr_properties r)\<rparr>
   | Unsubscribed r \<Rightarrow>
       E_Unsubscribed \<lparr>fkr_packet_id = kr_packet_id r, fkr_reason_codes = kr_reason_codes r,
         fkr_properties = map ffi_of_Property (kr_properties r)\<rparr>
   | PingResponse success \<Rightarrow> E_PingResponse success
   | OperationFailed operation i e \<Rightarrow>
       (let (kind, timeout_ms) = map_failure e in E_OperationFailed (map_operation operation) i kind e timeout_ms)
   | EventError e \<Rightarrow> E_Error (Shown_client e)
   | ReconnectNeeded \<Rightarrow> E_ReconnectNeeded
   | ReconnectScheduled attempt delay \<Rightarrow> E_ReconnectScheduled attempt (of_nat (duration_as_millis delay)))"

text \<open>The closure of \<open>map_events\<close>: a message carries the stream of the PUBLISH reported before it.\<close>

fun map_events_from :: "u64 option \<Rightarrow> MqttEvent list \<Rightarrow> MqttEventFFI list" where
  "map_events_from stream [] = []"
| "map_events_from stream (event # rest) =
     (case map_event event of
        E_PublishReceived i stream_id \<Rightarrow> E_PublishReceived i stream_id # map_events_from stream_id rest
      | E_MessageReceived m \<Rightarrow> E_MessageReceived (m\<lparr>mm_stream_id := stream\<rparr>) # map_events_from None rest
      | e \<Rightarrow> e # map_events_from stream rest)"

definition map_events :: "MqttEvent list \<Rightarrow> MqttEventFFI list" where
  "map_events events = map_events_from None events"

section \<open>The object\<close>

record SessionAccess =
  sa_explicit_peer :: bool
  sa_used :: bool
  sa_restored :: bool

definition SessionAccess_new :: "bool \<Rightarrow> SessionAccess" where
  "SessionAccess_new explicit_peer = \<lparr>sa_explicit_peer = explicit_peer, sa_used = False, sa_restored = False\<rparr>"

record MqttEngineFFI =
  mf_engine :: MqttEngine
  mf_session :: SessionAccess
  mf_start_time :: Timestamp
  mf_events :: "MqttEventFFI list"

type_synonym 'a handle = "string + 'a \<times> MqttEngineFFI"

definition session_started :: "MqttEngineFFI \<Rightarrow> MqttEngineFFI" where
  "session_started h = h\<lparr>mf_session := (mf_session h)\<lparr>sa_used := True\<rparr>\<rparr>"

text \<open>A call of the engine, one whose error the method returns, and one whose arguments are checked first.\<close>

definition in_engine :: "(MqttEngine \<Rightarrow> 'a eng) \<Rightarrow> MqttEngineFFI \<Rightarrow> 'a handle" where
  "in_engine f h = tryE (f (mf_engine h)) (\<lambda>(x, e). Inr (x, h\<lparr>mf_engine := e\<rparr>))"

definition ffi_error :: "'a cres \<Rightarrow> 'a ffi" where
  "ffi_error r = (case r of Inl e \<Rightarrow> Inl (Ffi_Engine (Detail_client e)) | Inr x \<Rightarrow> Inr x)"

definition in_engine_checked :: "(MqttEngine \<Rightarrow> 'a cres eng) \<Rightarrow> MqttEngineFFI \<Rightarrow> 'a ffi handle" where
  "in_engine_checked f h = tryE (in_engine f h) (\<lambda>(r, h). Inr (ffi_error r, h))"

definition with_arguments :: "'a ffi \<Rightarrow> ('a \<Rightarrow> MqttEngine \<Rightarrow> 'b cres eng) \<Rightarrow> MqttEngineFFI \<Rightarrow> 'b ffi handle" where
  "with_arguments arguments f h = (case arguments of
     Inl e \<Rightarrow> Inr (Inl e, h)
   | Inr x \<Rightarrow> in_engine_checked (f x) h)"

text \<open>The clock samples of the constructor: one for each deadline, the engine, the origin.\<close>

definition MqttRuntimeOptionsFFI_default :: MqttRuntimeOptionsFFI where
  "MqttRuntimeOptionsFFI_default = \<lparr>fr_peer = None, fr_operation_timeouts = None, fr_incoming_receive_maximum = None,
     fr_max_incoming_packet_size = None, fr_max_incoming_buffer_bytes = None, fr_max_outgoing_buffer_bytes = None,
     fr_reconnect = None\<rparr>"

definition mf_new_with_runtime_options ::
  "(str \<Rightarrow> bool) \<Rightarrow> Timestamp \<times> Timestamp \<times> Timestamp \<times> Timestamp \<Rightarrow> Timestamp \<Rightarrow> Timestamp \<Rightarrow>
   MqttConnectOptionsFFI \<Rightarrow> MqttRuntimeOptionsFFI \<Rightarrow> MqttEngineFFI ffi" where
  "mf_new_with_runtime_options blank samples now origin opts runtime =
     tryE (connect_into_core opts) (\<lambda>options.
     tryE (apply_runtime_options blank samples runtime options) (\<lambda>options.
     Inr \<lparr>mf_engine = host_new options now, mf_session = SessionAccess_new (fr_peer runtime \<noteq> None),
          mf_start_time = origin, mf_events = []\<rparr>))"

definition mf_new_with_options ::
  "Timestamp \<Rightarrow> Timestamp \<Rightarrow> MqttConnectOptionsFFI \<Rightarrow> MqttEngineFFI ffi" where
  "mf_new_with_options now origin opts =
     mf_new_with_runtime_options (\<lambda>_. False) (now, now, now, now) now origin opts MqttRuntimeOptionsFFI_default"

definition mf_new_with_opts :: "Timestamp \<Rightarrow> Timestamp \<Rightarrow> MqttOptionsFFI \<Rightarrow> MqttEngineFFI ffi" where
  "mf_new_with_opts now origin opts = mf_new_with_options now origin (connect_options_from opts)"

definition mf_new :: "Timestamp \<Rightarrow> Timestamp \<Rightarrow> str option \<Rightarrow> u8 \<Rightarrow> MqttEngineFFI ffi" where
  "mf_new now origin client_id version = mf_new_with_opts now origin
     \<lparr>fo_client_id = (case client_id of None \<Rightarrow> ascii ''mqtt_client'' | Some i \<Rightarrow> i), fo_mqtt_version = version,
      fo_clean_start = True, fo_keep_alive = 60, fo_username = None, fo_password = None,
      fo_reconnect_base_delay_ms = 1000, fo_reconnect_max_delay_ms = 60000, fo_max_reconnect_attempts = 0\<rparr>"

definition mf_elapsed_ms :: "Timestamp \<Rightarrow> MqttEngineFFI \<Rightarrow> u64" where
  "mf_elapsed_ms now h = of_nat (duration_as_millis (saturating_duration_since now (mf_start_time h)))"

section \<open>Transport and time\<close>

definition mf_connection_lost :: "Timestamp \<Rightarrow> MqttEngineFFI \<Rightarrow> unit handle" where
  "mf_connection_lost now h = in_engine (host_handle_connection_lost now) h"

definition mf_connect :: "Timestamp \<Rightarrow> Timestamp \<Rightarrow> MqttEngineFFI \<Rightarrow> unit handle" where
  "mf_connect now1 now2 h =
     tryE (in_engine (host_reset_for_new_transport now1) (session_started h)) (\<lambda>(_, h).
     tryE (in_engine (host_connect now2) (h\<lparr>mf_events := []\<rparr>)) (\<lambda>(r, h).
     case r of
       Inl e \<Rightarrow> Inr ((), h\<lparr>mf_events := mf_events h @ map_events [EventError e]\<rparr>)
     | Inr _ \<Rightarrow> Inr ((), h)))"

definition mf_connect_checked :: "Timestamp \<Rightarrow> MqttEngineFFI \<Rightarrow> unit ffi handle" where
  "mf_connect_checked now h = in_engine_checked (host_connect now) (session_started h)"

definition mf_reset_for_new_transport :: "Timestamp \<Rightarrow> MqttEngineFFI \<Rightarrow> unit handle" where
  "mf_reset_for_new_transport now h = in_engine (host_reset_for_new_transport now) (session_started h)"

definition mf_incoming :: "bytes \<Rightarrow> Timestamp \<Rightarrow> MqttEngineFFI \<Rightarrow> (MqttEventFFI list) handle" where
  "mf_incoming data now h =
     tryE (in_engine (host_handle_incoming data now) (session_started h)) (\<lambda>(events, h).
     let mapped = map_events events in Inr (mapped, h\<lparr>mf_events := mf_events h @ mapped\<rparr>))"

definition mf_tick :: "u64 \<Rightarrow> Timestamp \<Rightarrow> MqttEngineFFI \<Rightarrow> (MqttEventFFI list) handle" where
  "mf_tick now_ms now h =
     (case instant_at (mf_start_time h) now_ms of
        Inl e \<Rightarrow>
          (let events = [E_Error (Shown_ffi e)]; h = session_started h
           in Inr (events, h\<lparr>mf_events := mf_events h @ events\<rparr>))
      | Inr time \<Rightarrow>
          tryE (in_engine (host_handle_incoming [] now) (session_started h)) (\<lambda>(first_events, h).
          tryE (in_engine (host_handle_tick time) h) (\<lambda>(events, h).
          let mapped = map_events (first_events @ events)
          in Inr (mapped, h\<lparr>mf_events := mf_events h @ mapped\<rparr>))))"

definition mf_next_tick_ms :: "MqttEngineFFI \<Rightarrow> string + int" where
  "mf_next_tick_ms h = tryE (next_tick_at (mf_engine h)) (\<lambda>tick. Inr (case tick of
     None \<Rightarrow> -1
   | Some tick \<Rightarrow>
       if tick \<le> mf_start_time h then 0
       else int (duration_as_millis (saturating_duration_since tick (mf_start_time h)))))"

definition mf_take_outgoing :: "Timestamp \<Rightarrow> MqttEngineFFI \<Rightarrow> bytes handle" where
  "mf_take_outgoing now h = in_engine (host_take_outgoing now) h"

definition mf_has_pending_output :: "MqttEngineFFI \<Rightarrow> bool" where
  "mf_has_pending_output h = has_pending_output (mf_engine h)"

definition mf_take_events :: "MqttEngineFFI \<Rightarrow> MqttEventFFI list \<times> MqttEngineFFI" where
  "mf_take_events h =
     (let (engine_events, e) = take_events (mf_engine h)
      in (mf_events h @ map_events engine_events, h\<lparr>mf_events := [], mf_engine := e\<rparr>))"

definition mf_push_event :: "MqttEventFFI \<Rightarrow> MqttEngineFFI \<Rightarrow> MqttEngineFFI" where
  "mf_push_event event h = h\<lparr>mf_events := mf_events h @ [event]\<rparr>"

definition mf_schedule_reconnect :: "u64 \<Rightarrow> MqttEngineFFI \<Rightarrow> unit ffi handle" where
  "mf_schedule_reconnect now_ms h =
     (case instant_at (mf_start_time h) now_ms of
        Inl e \<Rightarrow> Inr (Inl e, h)
      | Inr time \<Rightarrow> tryE (in_engine (host_schedule_reconnect time) h) (\<lambda>(_, h). Inr (Inr (), h)))"

definition is_reconnect_event_ffi :: "MqttEventFFI \<Rightarrow> bool" where
  "is_reconnect_event_ffi e = (case e of E_ReconnectNeeded \<Rightarrow> True | E_ReconnectScheduled _ _ \<Rightarrow> True | _ \<Rightarrow> False)"

definition mf_set_reconnect :: "bool \<Rightarrow> MqttEngineFFI \<Rightarrow> MqttEngineFFI" where
  "mf_set_reconnect enabled h =
     (let h = h\<lparr>mf_engine := set_reconnect enabled (mf_engine h)\<rparr>
      in if \<not> enabled then h\<lparr>mf_events := filter (\<lambda>e. \<not> is_reconnect_event_ffi e) (mf_events h)\<rparr> else h)"

section \<open>Commands\<close>

definition mf_version :: "MqttEngineFFI \<Rightarrow> u8" where
  "mf_version h = mqtt_version (mf_engine h)"

definition mf_is_connected :: "MqttEngineFFI \<Rightarrow> bool" where
  "mf_is_connected h = me_is_connected (mf_engine h)"

definition mf_disconnect_complete :: "MqttEngineFFI \<Rightarrow> bool" where
  "mf_disconnect_complete h = (\<not> mf_is_connected h)"

definition mf_ping :: "Timestamp \<Rightarrow> MqttEngineFFI \<Rightarrow> unit ffi handle" where
  "mf_ping now h = in_engine_checked (host_try_send_ping now) h"

definition auth_property :: "MqttPropertyFFI \<Rightarrow> bool" where
  "auth_property p = (case p of F_AuthenticationMethod _ \<Rightarrow> True | F_AuthenticationData _ \<Rightarrow> True
     | F_ReasonString _ \<Rightarrow> True | F_UserProperty _ _ \<Rightarrow> True | _ \<Rightarrow> False)"

definition mf_auth_with_properties ::
  "u8 \<Rightarrow> MqttPropertyFFI list \<Rightarrow> Timestamp \<Rightarrow> MqttEngineFFI \<Rightarrow> unit ffi handle" where
  "mf_auth_with_properties code properties now h =
     with_arguments (ffi_validate properties (mf_version h) auth_property)
       (\<lambda>properties. host_try_auth code properties now) h"

definition mf_auth :: "u8 \<Rightarrow> Timestamp \<Rightarrow> MqttEngineFFI \<Rightarrow> unit ffi handle" where
  "mf_auth code now h = mf_auth_with_properties code [] now h"

definition mf_publish_with_options ::
  "str \<Rightarrow> bytes \<Rightarrow> MqttPublishOptionsFFI \<Rightarrow> Timestamp \<Rightarrow> MqttEngineFFI \<Rightarrow> (u16 option) ffi handle" where
  "mf_publish_with_options topic payload options now h =
     with_arguments (ffi_publish_command options topic payload (mf_version h) True)
       (\<lambda>command. host_publish command now) h"

definition mf_publish ::
  "str \<Rightarrow> bytes \<Rightarrow> u8 \<Rightarrow> u8 option \<Rightarrow> Timestamp \<Rightarrow> MqttEngineFFI \<Rightarrow> int handle" where
  "mf_publish topic payload qos priority now h =
     tryE (mf_publish_with_options topic payload
             \<lparr>fp_qos = qos, fp_retain = False, fp_priority = priority, fp_properties = []\<rparr> now h) (\<lambda>(r, h).
     Inr (case r of Inr pid \<Rightarrow> (case pid of Some i \<Rightarrow> uint i | None \<Rightarrow> 0) | Inl _ \<Rightarrow> -1, h))"

definition id_or_minus_one :: "u16 ffi handle \<Rightarrow> int handle" where
  "id_or_minus_one r = tryE r (\<lambda>(x, h). Inr (case x of Inr i \<Rightarrow> uint i | Inl _ \<Rightarrow> -1, h))"

definition mf_subscribe_with_options ::
  "MqttSubscribeOptionsFFI \<Rightarrow> Timestamp \<Rightarrow> MqttEngineFFI \<Rightarrow> u16 ffi handle" where
  "mf_subscribe_with_options options now h =
     with_arguments (ffi_subscribe_command options (mf_version h)) (\<lambda>command. host_subscribe command now) h"

definition mf_subscribe :: "str \<Rightarrow> u8 \<Rightarrow> Timestamp \<Rightarrow> MqttEngineFFI \<Rightarrow> int handle" where
  "mf_subscribe topic_filter qos now h = id_or_minus_one (mf_subscribe_with_options
     \<lparr>fso_subscriptions = [\<lparr>fs_topic_filter = topic_filter, fs_qos = qos, fs_no_local = False,
        fs_retain_as_published = False, fs_retain_handling = 0\<rparr>], fso_properties = []\<rparr> now h)"

definition mf_unsubscribe_with_options ::
  "MqttUnsubscribeOptionsFFI \<Rightarrow> Timestamp \<Rightarrow> MqttEngineFFI \<Rightarrow> u16 ffi handle" where
  "mf_unsubscribe_with_options options now h =
     with_arguments (ffi_unsubscribe_command options (mf_version h)) (\<lambda>command. host_unsubscribe command now) h"

definition mf_unsubscribe :: "str \<Rightarrow> Timestamp \<Rightarrow> MqttEngineFFI \<Rightarrow> int handle" where
  "mf_unsubscribe topic_filter now h =
     id_or_minus_one (mf_unsubscribe_with_options \<lparr>fu_topics = [topic_filter], fu_properties = []\<rparr> now h)"

definition disconnect_property :: "MqttPropertyFFI \<Rightarrow> bool" where
  "disconnect_property p = (case p of F_SessionExpiryInterval _ \<Rightarrow> True | F_ReasonString _ \<Rightarrow> True
     | F_UserProperty _ _ \<Rightarrow> True | _ \<Rightarrow> False)"

definition mf_disconnect_with_options ::
  "MqttDisconnectOptionsFFI \<Rightarrow> Timestamp \<Rightarrow> MqttEngineFFI \<Rightarrow> unit ffi handle" where
  "mf_disconnect_with_options options now h =
     with_arguments (ffi_validate (fd_properties options) (mf_version h) disconnect_property)
       (\<lambda>properties. host_try_disconnect_with (fd_reason_code options) properties now) h"

definition mf_disconnect :: "Timestamp \<Rightarrow> MqttEngineFFI \<Rightarrow> unit ffi handle" where
  "mf_disconnect now h = mf_disconnect_with_options \<lparr>fd_reason_code = 0, fd_properties = []\<rparr> now h"

section \<open>Manual acknowledgements\<close>

datatype MqttAcknowledgementFFI = Ack_PubAck | Ack_PubRec | Ack_PubComp

datatype MqttParseLevelFFI = FL_Full | FL_HeadersParsed | FL_TypeOnly

definition ParseLevel_of_ffi :: "MqttParseLevelFFI \<Rightarrow> ParseLevel" where
  "ParseLevel_of_ffi level = (case level of FL_Full \<Rightarrow> Level_Full | FL_HeadersParsed \<Rightarrow> Level_HeadersParsed
     | FL_TypeOnly \<Rightarrow> Level_TypeOnly)"

definition mf_set_parse_level :: "MqttParseLevelFFI \<Rightarrow> MqttEngineFFI \<Rightarrow> unit ffi \<times> MqttEngineFFI" where
  "mf_set_parse_level level h =
     (let (r, e) = try_set_parse_level (ParseLevel_of_ffi level) (mf_engine h)
      in (ffi_error r, h\<lparr>mf_engine := e\<rparr>))"

definition ack_allowed :: "MqttPropertyFFI \<Rightarrow> bool" where
  "ack_allowed p = (case p of F_ReasonString _ \<Rightarrow> True | F_UserProperty _ _ \<Rightarrow> True | _ \<Rightarrow> False)"

definition acknowledgement_properties ::
  "MqttEngine \<Rightarrow> MqttAcknowledgementFFI \<Rightarrow> u16 \<Rightarrow> u8 \<Rightarrow> MqttPropertyFFI list \<Rightarrow> (Property list) ffi" where
  "acknowledgement_properties s kind i code properties =
     (if o_auto_ack (me_options s) then Inl (ffi_invalid ''Manual acknowledgements require auto_ack=False'')
      else if i = 0 then Inl (ffi_invalid ''Packet ID must be nonzero'')
      else
        tryE (ffi_validate properties (mqtt_version s) ack_allowed) (\<lambda>properties.
        let valid = (case kind of
              Ack_PubComp \<Rightarrow> code \<in> {0, 0x92}
            | _ \<Rightarrow> code \<in> {0, 0x10, 0x80, 0x83, 0x87, 0x90, 0x91, 0x97, 0x99})
        in if \<not> valid \<or> mqtt_version s \<noteq> 5 \<and> code \<noteq> 0
           then Inl (ffi_invalid ''Invalid acknowledgement reason code for this packet/version'')
           else Inr properties))"

definition mf_acknowledge ::
  "MqttAcknowledgementFFI \<Rightarrow> u16 \<Rightarrow> u8 \<Rightarrow> MqttPropertyFFI list \<Rightarrow> u64 option \<Rightarrow> Timestamp \<Rightarrow> MqttEngineFFI \<Rightarrow>
   unit ffi handle" where
  "mf_acknowledge kind i code properties stream_id now h =
     (if stream_id \<noteq> None then Inr (Inl (ffi_invalid ''Stream IDs require QUIC''), h)
      else with_arguments (acknowledgement_properties (mf_engine h) kind i code properties)
        (\<lambda>properties. case kind of
           Ack_PubAck \<Rightarrow> host_puback i code properties now
         | Ack_PubRec \<Rightarrow> host_pubrec i code properties now
         | Ack_PubComp \<Rightarrow> host_pubcomp i code properties now) h)"

section \<open>Session checkpoints\<close>

definition check_identity :: "SessionAccess \<Rightarrow> unit ffi" where
  "check_identity sa =
     (if \<not> sa_explicit_peer sa
      then Inl (Ffi_Configuration (Detail ''Persistence requires an explicit runtime peer identity'')) else Inr ())"

definition checkpoint_decode :: "(bytes \<Rightarrow> ClientSessionState option) \<Rightarrow> bytes \<Rightarrow> ClientSessionState ffi" where
  "checkpoint_decode from_json b = (case from_json b of
     None \<Rightarrow> Inl (ffi_invalid ''Malformed session checkpoint'')
   | Some saved \<Rightarrow>
       if css_version saved \<noteq> 1
       then Inl (Ffi_Configuration (Detail ''Unsupported session checkpoint version'')) else Inr saved)"

definition checkpoint_encode :: "(ClientSessionState \<Rightarrow> bytes option) \<Rightarrow> ClientSessionState \<Rightarrow> bytes ffi" where
  "checkpoint_encode to_json saved = (case to_json saved of
     None \<Rightarrow> Inl (Ffi_Engine (Detail ''Session encoding failed''))
   | Some b \<Rightarrow> Inr b)"

record MqttSessionInfoFFI =
  si_version :: u32
  si_peer :: str
  si_client_id :: str
  si_mqtt_version :: u8
  si_has_session :: bool
  si_session_expiry_interval :: u32

definition inspect_session_state :: "(bytes \<Rightarrow> ClientSessionState option) \<Rightarrow> bytes \<Rightarrow> MqttSessionInfoFFI ffi" where
  "inspect_session_state from_json b =
     tryE (checkpoint_decode from_json b) (\<lambda>saved.
     Inr \<lparr>si_version = css_version saved, si_peer = css_peer saved, si_client_id = css_client_id saved,
          si_mqtt_version = css_mqtt_version saved, si_has_session = css_has_session saved,
          si_session_expiry_interval = css_session_expiry_interval saved\<rparr>)"

definition restore_error :: "MqttClientError \<Rightarrow> MqttErrorFFI" where
  "restore_error e = (case e of InvalidConfiguration _ _ \<Rightarrow> Ffi_Configuration (Detail_client e)
     | _ \<Rightarrow> Ffi_Engine (Detail_client e))"

definition session_restore :: "ClientSessionState \<Rightarrow> MqttEngineFFI \<Rightarrow> unit ffi \<times> MqttEngineFFI" where
  "session_restore saved h =
     (case check_identity (mf_session h) of
        Inl e \<Rightarrow> (Inl e, h)
      | Inr _ \<Rightarrow>
          if sa_used (mf_session h) \<or> sa_restored (mf_session h)
          then (Inl (Ffi_Engine (Detail ''Restore requires a fresh engine before transport startup'')), h)
          else (case restore_session_state saved (mf_engine h) of
                  Inl e \<Rightarrow> (Inl (restore_error e), h)
                | Inr e \<Rightarrow> (Inr (), h\<lparr>mf_engine := e, mf_session := (mf_session h)\<lparr>sa_restored := True\<rparr>\<rparr>)))"

definition mf_snapshot_session :: "(ClientSessionState \<Rightarrow> bytes option) \<Rightarrow> MqttEngineFFI \<Rightarrow> bytes ffi" where
  "mf_snapshot_session to_json h =
     tryE (check_identity (mf_session h)) (\<lambda>_.
     tryE (ffi_error (snapshot_session (mf_engine h))) (\<lambda>saved. checkpoint_encode to_json saved))"

definition mf_restore_session_state ::
  "(bytes \<Rightarrow> ClientSessionState option) \<Rightarrow> bytes \<Rightarrow> MqttEngineFFI \<Rightarrow> unit ffi \<times> MqttEngineFFI" where
  "mf_restore_session_state from_json b h = (case checkpoint_decode from_json b of
     Inl e \<Rightarrow> (Inl e, h)
   | Inr saved \<Rightarrow> session_restore saved h)"

section \<open>Sequences of calls\<close>

text \<open>The methods that change the object, with their clock samples.\<close>

datatype ffi_call =
    FC_connection_lost Timestamp | FC_connect Timestamp Timestamp | FC_connect_checked Timestamp
  | FC_reset_for_new_transport Timestamp | FC_incoming bytes Timestamp | FC_tick u64 Timestamp
  | FC_take_outgoing Timestamp | FC_take_events | FC_push_event MqttEventFFI | FC_schedule_reconnect u64
  | FC_set_reconnect bool | FC_ping Timestamp | FC_auth u8 "MqttPropertyFFI list" Timestamp
  | FC_publish str bytes MqttPublishOptionsFFI Timestamp | FC_subscribe MqttSubscribeOptionsFFI Timestamp
  | FC_unsubscribe MqttUnsubscribeOptionsFFI Timestamp | FC_disconnect MqttDisconnectOptionsFFI Timestamp
  | FC_set_parse_level MqttParseLevelFFI
  | FC_acknowledge MqttAcknowledgementFFI u16 u8 "MqttPropertyFFI list" "u64 option" Timestamp
  | FC_restore ClientSessionState

definition then_object :: "'a handle \<Rightarrow> string + MqttEngineFFI" where
  "then_object r = tryE r (\<lambda>(_, h). Inr h)"

definition mf_perform :: "ffi_call \<Rightarrow> MqttEngineFFI \<Rightarrow> string + MqttEngineFFI" where
  "mf_perform c h = (case c of
     FC_connection_lost now \<Rightarrow> then_object (mf_connection_lost now h)
   | FC_connect now1 now2 \<Rightarrow> then_object (mf_connect now1 now2 h)
   | FC_connect_checked now \<Rightarrow> then_object (mf_connect_checked now h)
   | FC_reset_for_new_transport now \<Rightarrow> then_object (mf_reset_for_new_transport now h)
   | FC_incoming data now \<Rightarrow> then_object (mf_incoming data now h)
   | FC_tick now_ms now \<Rightarrow> then_object (mf_tick now_ms now h)
   | FC_take_outgoing now \<Rightarrow> then_object (mf_take_outgoing now h)
   | FC_take_events \<Rightarrow> Inr (snd (mf_take_events h))
   | FC_push_event event \<Rightarrow> Inr (mf_push_event event h)
   | FC_schedule_reconnect now_ms \<Rightarrow> then_object (mf_schedule_reconnect now_ms h)
   | FC_set_reconnect enabled \<Rightarrow> Inr (mf_set_reconnect enabled h)
   | FC_ping now \<Rightarrow> then_object (mf_ping now h)
   | FC_auth code properties now \<Rightarrow> then_object (mf_auth_with_properties code properties now h)
   | FC_publish topic payload options now \<Rightarrow> then_object (mf_publish_with_options topic payload options now h)
   | FC_subscribe options now \<Rightarrow> then_object (mf_subscribe_with_options options now h)
   | FC_unsubscribe options now \<Rightarrow> then_object (mf_unsubscribe_with_options options now h)
   | FC_disconnect options now \<Rightarrow> then_object (mf_disconnect_with_options options now h)
   | FC_set_parse_level level \<Rightarrow> Inr (snd (mf_set_parse_level level h))
   | FC_acknowledge kind i code properties stream_id now \<Rightarrow>
       then_object (mf_acknowledge kind i code properties stream_id now h)
   | FC_restore saved \<Rightarrow> Inr (snd (session_restore saved h)))"

fun mf_perform_all :: "ffi_call list \<Rightarrow> MqttEngineFFI \<Rightarrow> string + MqttEngineFFI" where
  "mf_perform_all [] h = Inr h"
| "mf_perform_all (c # cs) h = tryE (mf_perform c h) (\<lambda>h. mf_perform_all cs h)"

text \<open>The engine inside stays consistent.\<close>

lemma in_engine_inv:
  assumes "in_engine f h = Inr (x, h')" and "\<And>y e. f (mf_engine h) = Inr (y, e) \<Longrightarrow> eng_inv e"
  shows "eng_inv (mf_engine h')"
  using assms by (auto simp: in_engine_def)

lemma in_engine_checked_inv:
  assumes "in_engine_checked f h = Inr (x, h')" and "\<And>y e. f (mf_engine h) = Inr (y, e) \<Longrightarrow> eng_inv e"
  shows "eng_inv (mf_engine h')"
  using assms by (auto simp: in_engine_checked_def intro: in_engine_inv)

lemma with_arguments_inv:
  assumes "with_arguments a f h = Inr (x, h')" and "eng_inv (mf_engine h)"
    and "\<And>b y e. f b (mf_engine h) = Inr (y, e) \<Longrightarrow> eng_inv e"
  shows "eng_inv (mf_engine h')"
  using assms by (auto simp: with_arguments_def intro: in_engine_checked_inv split: sum.splits)

lemma engine_session_started [simp]: "mf_engine (session_started h) = mf_engine h"
  by (simp add: session_started_def)

lemma restore_inv: "restore_session_state saved s = Inr t \<Longrightarrow> eng_inv s \<Longrightarrow> eng_inv t"
  using eng_inv_perform [of "Call_restore_session_state saved" _ s t] by (simp add: perform_def)

lemma parse_level_inv: "eng_inv s \<Longrightarrow> eng_inv (snd (try_set_parse_level level s))"
  using eng_inv_perform [of "Call_try_set_parse_level level" _ s] by (simp add: perform_def)

lemma mf_connect_inv:
  assumes "mf_connect now1 now2 h = Inr (x, h')" and "eng_inv (mf_engine h)" shows "eng_inv (mf_engine h')"
proof -
  obtain y h1 r h2 where a: "in_engine (host_reset_for_new_transport now1) (session_started h) = Inr (y, h1)"
      and b: "in_engine (host_connect now2) (h1\<lparr>mf_events := []\<rparr>) = Inr (r, h2)"
      and c: "(case r of Inl e \<Rightarrow> Inr ((), h2\<lparr>mf_events := mf_events h2 @ map_events [EventError e]\<rparr>)
        | Inr _ \<Rightarrow> Inr ((), h2)) = (Inr (x, h') :: unit handle)"
    using assms(1) unfolding mf_connect_def tryE_eq_Inr split_paired_Ex prod.case by blast
  have e: "mf_engine h' = mf_engine h2" using c by (cases r) auto
  have "eng_inv (mf_engine h1)" by (rule in_engine_inv [OF a]) (use assms(2) in \<open>auto intro: host_inv\<close>)
  then have "eng_inv (mf_engine h2)" by (intro in_engine_inv [OF b]) (auto intro: host_inv)
  then show ?thesis by (simp add: e)
qed

lemma mf_tick_inv:
  assumes "mf_tick now_ms now h = Inr (x, h')" and "eng_inv (mf_engine h)" shows "eng_inv (mf_engine h')"
proof (cases "instant_at (mf_start_time h) now_ms")
  case (Inr time)
  then obtain y h1 z h2 where a: "in_engine (host_handle_incoming [] now) (session_started h) = Inr (y, h1)"
      and b: "in_engine (host_handle_tick time) h1 = Inr (z, h2)" and e: "mf_engine h' = mf_engine h2"
    using assms(1) by (auto simp: mf_tick_def tryE_eq_Inr Let_def)
  have "eng_inv (mf_engine h1)" by (rule in_engine_inv [OF a]) (use assms(2) in \<open>auto intro: host_inv\<close>)
  then have "eng_inv (mf_engine h2)" by (intro in_engine_inv [OF b]) (auto intro: host_inv)
  then show ?thesis by (simp add: e)
qed (use assms in \<open>auto simp: mf_tick_def Let_def\<close>)

lemma mf_perform_inv:
  assumes "mf_perform c h = Inr h'" and inv: "eng_inv (mf_engine h)"
  shows "eng_inv (mf_engine h')"
proof -
  note simps = mf_perform_def then_object_def tryE_eq_Inr
  note args = with_arguments_inv [OF _ inv]
  note invs = in_engine_inv in_engine_checked_inv
  show ?thesis
  proof (cases c)
    case FC_connect
    then show ?thesis using assms by (auto simp: simps intro: mf_connect_inv)
  next
    case FC_tick
    then show ?thesis using assms by (auto simp: simps intro: mf_tick_inv)
  next
    case FC_incoming
    then show ?thesis using assms
      by (auto simp: simps mf_incoming_def Let_def dest!: in_engine_inv intro: host_inv)
  next
    case FC_schedule_reconnect
    then show ?thesis using assms
      by (auto simp: simps mf_schedule_reconnect_def dest!: in_engine_inv intro: host_inv split: sum.splits)
  next
    case FC_acknowledge
    then show ?thesis using assms
      by (auto simp: simps mf_acknowledge_def elim!: args split: if_splits MqttAcknowledgementFFI.splits intro: host_inv)
  next
    case FC_restore
    then show ?thesis using assms
      by (auto simp: simps session_restore_def check_identity_def intro: restore_inv split: if_splits sum.splits)
  next
    case (FC_set_parse_level level)
    then show ?thesis using assms parse_level_inv [OF inv, of "ParseLevel_of_ffi level"]
      by (auto simp: simps mf_set_parse_level_def split: prod.splits)
  next
    case FC_set_reconnect
    then show ?thesis using assms by (auto simp: simps mf_set_reconnect_def eng_inv_inert_calls Let_def)
  next
    case FC_take_events
    then show ?thesis using assms eng_inv_inert_calls(5) [of "mf_engine h"]
      by (auto simp: simps mf_take_events_def split: prod.splits)
  next
    case FC_push_event
    then show ?thesis using assms by (auto simp: simps mf_push_event_def)
  qed (use assms in \<open>auto simp: simps mf_connection_lost_def mf_connect_checked_def mf_reset_for_new_transport_def
      mf_take_outgoing_def mf_ping_def mf_auth_with_properties_def mf_publish_with_options_def
      mf_subscribe_with_options_def mf_unsubscribe_with_options_def mf_disconnect_with_options_def
      elim!: args invs intro: host_inv\<close>)
qed

lemma mf_perform_all_inv: "mf_perform_all cs h = Inr h' \<Longrightarrow> eng_inv (mf_engine h) \<Longrightarrow> eng_inv (mf_engine h')"
  by (induction cs arbitrary: h) (auto dest: mf_perform_inv)

lemma mf_new_inv:
  assumes "mf_new_with_runtime_options blank samples now origin opts runtime = Inr h"
    and "check_time_range (me_options (mf_engine h)) now = Inr ()"
  shows "eng_inv (mf_engine h)"
proof -
  obtain core options where c: "connect_into_core opts = Inr core"
      and r: "apply_runtime_options blank samples runtime core = Inr options" and h: "mf_engine h = host_new options now"
    using assms(1) by (auto simp: mf_new_with_runtime_options_def tryE_eq_Inr)
  have "engine_ready options" by (rule apply_runtime_ready [OF r connect_into_core_ready [OF c]])
  moreover have "me_options (host_new options now) = options"
    by (simp add: host_new_def MqttEngine_new_at_def Let_def)
  ultimately have "try_new_at options now = Inr (host_new options now)"
    using assms(2) h by (auto simp: try_new_at_def engine_ready_def host_new_def)
  then show ?thesis using h eng_inv_new by simp
qed

section \<open>Events reach the application\<close>

datatype ffi_poll = Poll_incoming bytes Timestamp | Poll_tick u64 Timestamp

fun mf_polls :: "ffi_poll list \<Rightarrow> MqttEngineFFI \<Rightarrow> (MqttEventFFI list) handle" where
  "mf_polls [] h = Inr ([], h)"
| "mf_polls (p # ps) h =
     tryE (case p of Poll_incoming data now \<Rightarrow> mf_incoming data now h | Poll_tick now_ms now \<Rightarrow> mf_tick now_ms now h) (\<lambda>(es, h).
     tryE (mf_polls ps h) (\<lambda>(fs, h). Inr (es @ fs, h)))"

lemma in_engine_events: "in_engine f h = Inr (x, h') \<Longrightarrow> mf_events h' = mf_events h"
  by (auto simp: in_engine_def)

lemma events_session_started [simp]: "mf_events (session_started h) = mf_events h"
  by (simp add: session_started_def)

lemma mf_incoming_events: "mf_incoming data now h = Inr (es, h') \<Longrightarrow> mf_events h' = mf_events h @ es"
  by (auto simp: mf_incoming_def tryE_eq_Inr Let_def dest: in_engine_events)

lemma mf_tick_events: "mf_tick now_ms now h = Inr (es, h') \<Longrightarrow> mf_events h' = mf_events h @ es"
  by (auto simp: mf_tick_def tryE_eq_Inr Let_def dest!: in_engine_events split: sum.splits)

lemma mf_polls_events: "mf_polls ps h = Inr (es, h') \<Longrightarrow> mf_events h' = mf_events h @ es"
proof (induction ps arbitrary: h es)
  case (Cons p ps)
  obtain e1 h1 e2 where
      p: "(case p of Poll_incoming data now \<Rightarrow> mf_incoming data now h | Poll_tick now_ms now \<Rightarrow> mf_tick now_ms now h) = Inr (e1, h1)"
      and ps: "mf_polls ps h1 = Inr (e2, h')" and es: "es = e1 @ e2"
    using Cons.prems by (auto simp: tryE_eq_Inr)
  have "mf_events h1 = mf_events h @ e1"
    using p by (cases p) (auto dest: mf_incoming_events mf_tick_events)
  then show ?case using Cons.IH [OF ps] es by simp
qed simp

lemma mf_polls_taken:
  assumes "mf_polls ps h = Inr (es, h')"
  shows "fst (mf_take_events h') = mf_events h @ es @ map_events (me_events (mf_engine h'))"
    and "mf_events (snd (mf_take_events h')) = []" and "me_events (mf_engine (snd (mf_take_events h'))) = []"
  using mf_polls_events [OF assms] by (simp_all add: mf_take_events_def take_events_def)

end
