(* ===== verification/Grpc_Relay.thy ===== *)
theory Grpc_Relay
  imports Control_Packet Client_Types
begin

text \<open>
  The conversions of the gRPC relay, \<open>src/mqtt_grpc_duality/src/lib.rs\<close>, between control packets and
  the messages of \<open>proto/mqttv5.proto\<close>, \<open>proto/mqttv3.proto\<close> and \<open>proto/mqtt.proto\<close>.  A message is a
  record of its fields, \<open>oneof\<close> an option of a datatype, and an enum field the \<open>i32\<close> it is in the
  generated structures.  Message types with the same fields share one record, and their conversions,
  which are the same code, one definition.  Casts with \<open>as\<close> are \<open>ucast\<close>.
\<close>

type_synonym i32 = "32 word"

section \<open>Messages\<close>

record PbUserProperty =
  pb_key :: str
  pb_value :: str

datatype PropertyType =
    Pb_PayloadFormatIndicator bool
  | Pb_MessageExpiryInterval u32
  | Pb_ContentType str
  | Pb_ResponseTopic str
  | Pb_CorrelationData bytes
  | Pb_SubscriptionIdentifier u32
  | Pb_SessionExpiryInterval u32
  | Pb_AssignedClientIdentifier str
  | Pb_ServerKeepAlive u32
  | Pb_AuthenticationMethod str
  | Pb_AuthenticationData bytes
  | Pb_RequestProblemInformation bool
  | Pb_WillDelayInterval u32
  | Pb_RequestResponseInformation bool
  | Pb_ResponseInformation str
  | Pb_ServerReference str
  | Pb_ReasonString str
  | Pb_ReceiveMaximum u32
  | Pb_TopicAliasMaximum u32
  | Pb_TopicAlias u32
  | Pb_MaximumQoS u32
  | Pb_RetainAvailable bool
  | Pb_UserProperty PbUserProperty
  | Pb_MaximumPacketSize u32
  | Pb_WildcardSubscriptionAvailable bool
  | Pb_SubscriptionIdentifierAvailable bool
  | Pb_SharedSubscriptionAvailable bool

type_synonym PbProperty = "PropertyType option"

record PbWill5 =
  pw_topic :: str
  pw_payload :: bytes
  pw_qos :: i32
  pw_retain :: bool
  pw_properties :: "PbProperty list"

record PbConnect5 =
  pcon_client_id :: str
  pcon_protocol_name :: str
  pcon_protocol_version :: u32
  pcon_clean_start :: bool
  pcon_keep_alive :: u32
  pcon_username :: str
  pcon_password :: bytes
  pcon_will :: "PbWill5 option"
  pcon_properties :: "PbProperty list"

record PbConnack5 =
  pca_session_present :: bool
  pca_reason_code :: u32
  pca_properties :: "PbProperty list"

record PbPublish5 =
  ppub_topic :: str
  ppub_message_id :: u32
  ppub_qos :: i32
  ppub_retain :: bool
  ppub_dup :: bool
  ppub_payload :: bytes
  ppub_properties :: "PbProperty list"

text \<open>PUBACK, PUBREC, PUBREL and PUBCOMP.\<close>

record PbAck5 =
  pack_message_id :: u32
  pack_reason_code :: u32
  pack_properties :: "PbProperty list"

record PbTopicSubscription5 =
  pts_topic_filter :: str
  pts_qos :: u32
  pts_no_local :: bool
  pts_retain_as_published :: bool
  pts_retain_handling :: u32

record PbSubscribe5 =
  psub_message_id :: u32
  psub_subscriptions :: "PbTopicSubscription5 list"
  psub_properties :: "PbProperty list"

text \<open>SUBACK and UNSUBACK.\<close>

record PbSuback5 =
  psa_message_id :: u32
  psa_reason_codes :: "u32 list"
  psa_properties :: "PbProperty list"

record PbUnsubscribe5 =
  pun_message_id :: u32
  pun_topic_filters :: "str list"
  pun_properties :: "PbProperty list"

text \<open>DISCONNECT and AUTH.\<close>

record PbReason5 =
  prc_reason_code :: u32
  prc_properties :: "PbProperty list"

datatype Pb5Packet =
    Pb5_Connect PbConnect5
  | Pb5_Connack PbConnack5
  | Pb5_Publish PbPublish5
  | Pb5_Puback PbAck5
  | Pb5_Pubrec PbAck5
  | Pb5_Pubrel PbAck5
  | Pb5_Pubcomp PbAck5
  | Pb5_Subscribe PbSubscribe5
  | Pb5_Suback PbSuback5
  | Pb5_Unsubscribe PbUnsubscribe5
  | Pb5_Unsuback PbSuback5
  | Pb5_Pingreq
  | Pb5_Pingresp
  | Pb5_Disconnect PbReason5
  | Pb5_Auth PbReason5

record PbWill3 =
  pw3_topic :: str
  pw3_payload :: bytes
  pw3_qos :: i32
  pw3_retain :: bool

record PbConnect3 =
  pcon3_client_id :: str
  pcon3_protocol_name :: str
  pcon3_protocol_version :: u32
  pcon3_clean_session :: bool
  pcon3_keep_alive :: u32
  pcon3_username :: str
  pcon3_password :: bytes
  pcon3_will :: "PbWill3 option"

record PbConnack3 =
  pca3_session_present :: bool
  pca3_return_code :: u32

record PbPublish3 =
  ppub3_topic :: str
  ppub3_message_id :: u32
  ppub3_qos :: i32
  ppub3_retain :: bool
  ppub3_dup :: bool
  ppub3_payload :: bytes

record PbTopicSubscription3 =
  pts3_topic_filter :: str
  pts3_qos :: u32

record PbSubscribe3 =
  psub3_message_id :: u32
  psub3_subscriptions :: "PbTopicSubscription3 list"

record PbSuback3 =
  psa3_message_id :: u32
  psa3_return_codes :: "u32 list"

record PbUnsubscribe3 =
  pun3_message_id :: u32
  pun3_topic_filters :: "str list"

text \<open>The messages that carry only an identifier are that identifier.\<close>

datatype Pb3Packet =
    Pb3_Connect PbConnect3
  | Pb3_Connack PbConnack3
  | Pb3_Publish PbPublish3
  | Pb3_Puback u32
  | Pb3_Pubrec u32
  | Pb3_Pubrel u32
  | Pb3_Pubcomp u32
  | Pb3_Subscribe PbSubscribe3
  | Pb3_Suback PbSuback3
  | Pb3_Unsubscribe PbUnsubscribe3
  | Pb3_Unsuback u32
  | Pb3_Pingreq
  | Pb3_Pingresp
  | Pb3_Disconnect

datatype MessageDirection = ClientToBroker | BrokerToClient

record SessionControl =
  sc_control_type :: i32
  sc_client_id :: str

datatype StreamPayload =
    MqttV3Packet "Pb3Packet option"
  | MqttV5Packet "Pb5Packet option"
  | PL_SessionControl SessionControl

record MqttStreamMessage =
  sm_sequence_id :: u64
  sm_direction :: i32
  sm_payload :: "StreamPayload option"

section \<open>Properties\<close>

definition flag_byte :: "bool \<Rightarrow> u8" where
  "flag_byte val = (if val then 1 else 0)"

text \<open>\<open>TryFrom\<close> in both directions, with \<open>None\<close> for \<open>Err\<close>.\<close>

definition Property_to_pb :: "Property \<Rightarrow> PbProperty option" where
  "Property_to_pb p = Some (Some (case p of
       PayloadFormatIndicator val \<Rightarrow> Pb_PayloadFormatIndicator (val \<noteq> 0)
     | MessageExpiryInterval val \<Rightarrow> Pb_MessageExpiryInterval val
     | ContentType val \<Rightarrow> Pb_ContentType val
     | ResponseTopic val \<Rightarrow> Pb_ResponseTopic val
     | CorrelationData val \<Rightarrow> Pb_CorrelationData val
     | SubscriptionIdentifier val \<Rightarrow> Pb_SubscriptionIdentifier val
     | SessionExpiryInterval val \<Rightarrow> Pb_SessionExpiryInterval val
     | AssignedClientIdentifier val \<Rightarrow> Pb_AssignedClientIdentifier val
     | ServerKeepAlive val \<Rightarrow> Pb_ServerKeepAlive (ucast val)
     | AuthenticationMethod val \<Rightarrow> Pb_AuthenticationMethod val
     | AuthenticationData val \<Rightarrow> Pb_AuthenticationData val
     | RequestProblemInformation val \<Rightarrow> Pb_RequestProblemInformation (val \<noteq> 0)
     | WillDelayInterval val \<Rightarrow> Pb_WillDelayInterval val
     | RequestResponseInformation val \<Rightarrow> Pb_RequestResponseInformation (val \<noteq> 0)
     | ResponseInformation val \<Rightarrow> Pb_ResponseInformation val
     | ServerReference val \<Rightarrow> Pb_ServerReference val
     | ReasonString val \<Rightarrow> Pb_ReasonString val
     | ReceiveMaximum val \<Rightarrow> Pb_ReceiveMaximum (ucast val)
     | TopicAliasMaximum val \<Rightarrow> Pb_TopicAliasMaximum (ucast val)
     | TopicAlias val \<Rightarrow> Pb_TopicAlias (ucast val)
     | MaximumQoS val \<Rightarrow> Pb_MaximumQoS (ucast val)
     | RetainAvailable val \<Rightarrow> Pb_RetainAvailable (val \<noteq> 0)
     | UserProperty k v \<Rightarrow> Pb_UserProperty \<lparr>pb_key = k, pb_value = v\<rparr>
     | MaximumPacketSize val \<Rightarrow> Pb_MaximumPacketSize val
     | WildcardSubscriptionAvailable val \<Rightarrow> Pb_WildcardSubscriptionAvailable (val \<noteq> 0)
     | SubscriptionIdentifierAvailable val \<Rightarrow> Pb_SubscriptionIdentifierAvailable (val \<noteq> 0)
     | SharedSubscriptionAvailable val \<Rightarrow> Pb_SharedSubscriptionAvailable (val \<noteq> 0)))"

definition Property_from_pb :: "PbProperty \<Rightarrow> Property option" where
  "Property_from_pb p = (case p of
       Some (Pb_PayloadFormatIndicator val) \<Rightarrow> Some (PayloadFormatIndicator (flag_byte val))
     | Some (Pb_MessageExpiryInterval val) \<Rightarrow> Some (MessageExpiryInterval val)
     | Some (Pb_ContentType val) \<Rightarrow> Some (ContentType val)
     | Some (Pb_ResponseTopic val) \<Rightarrow> Some (ResponseTopic val)
     | Some (Pb_CorrelationData val) \<Rightarrow> Some (CorrelationData val)
     | Some (Pb_SubscriptionIdentifier val) \<Rightarrow> Some (SubscriptionIdentifier val)
     | Some (Pb_SessionExpiryInterval val) \<Rightarrow> Some (SessionExpiryInterval val)
     | Some (Pb_AssignedClientIdentifier val) \<Rightarrow> Some (AssignedClientIdentifier val)
     | Some (Pb_ServerKeepAlive val) \<Rightarrow> Some (ServerKeepAlive (ucast val))
     | Some (Pb_AuthenticationMethod val) \<Rightarrow> Some (AuthenticationMethod val)
     | Some (Pb_AuthenticationData val) \<Rightarrow> Some (AuthenticationData val)
     | Some (Pb_RequestProblemInformation val) \<Rightarrow> Some (RequestProblemInformation (flag_byte val))
     | Some (Pb_WillDelayInterval val) \<Rightarrow> Some (WillDelayInterval val)
     | Some (Pb_RequestResponseInformation val) \<Rightarrow> Some (RequestResponseInformation (flag_byte val))
     | Some (Pb_ResponseInformation val) \<Rightarrow> Some (ResponseInformation val)
     | Some (Pb_ServerReference val) \<Rightarrow> Some (ServerReference val)
     | Some (Pb_ReasonString val) \<Rightarrow> Some (ReasonString val)
     | Some (Pb_ReceiveMaximum val) \<Rightarrow> Some (ReceiveMaximum (ucast val))
     | Some (Pb_TopicAliasMaximum val) \<Rightarrow> Some (TopicAliasMaximum (ucast val))
     | Some (Pb_TopicAlias val) \<Rightarrow> Some (TopicAlias (ucast val))
     | Some (Pb_MaximumQoS val) \<Rightarrow> Some (MaximumQoS (ucast val))
     | Some (Pb_RetainAvailable val) \<Rightarrow> Some (RetainAvailable (flag_byte val))
     | Some (Pb_UserProperty u) \<Rightarrow> Some (UserProperty (pb_key u) (pb_value u))
     | Some (Pb_MaximumPacketSize val) \<Rightarrow> Some (MaximumPacketSize val)
     | Some (Pb_WildcardSubscriptionAvailable val) \<Rightarrow> Some (WildcardSubscriptionAvailable (flag_byte val))
     | Some (Pb_SubscriptionIdentifierAvailable val) \<Rightarrow> Some (SubscriptionIdentifierAvailable (flag_byte val))
     | Some (Pb_SharedSubscriptionAvailable val) \<Rightarrow> Some (SharedSubscriptionAvailable (flag_byte val))
     | None \<Rightarrow> None)"

definition convert_properties_to_pb :: "Property list \<Rightarrow> PbProperty list" where
  "convert_properties_to_pb properties = List.map_filter Property_to_pb properties"

definition convert_properties_from_pb :: "PbProperty list \<Rightarrow> Property list" where
  "convert_properties_from_pb properties = List.map_filter Property_from_pb properties"

text \<open>One optional property: it is added when it is present and converts.\<close>

definition pb_option :: "('a \<Rightarrow> Property) \<Rightarrow> 'a option \<Rightarrow> PbProperty list" where
  "pb_option f v = (case v of None \<Rightarrow> [] | Some x \<Rightarrow> (case Property_to_pb (f x) of None \<Rightarrow> [] | Some p \<Rightarrow> [p]))"

definition convert_will_properties_to_pb :: "WillProperties \<Rightarrow> PbProperty list" where
  "convert_will_properties_to_pb wp =
     pb_option WillDelayInterval (wp_will_delay_interval wp) @
     pb_option PayloadFormatIndicator (wp_payload_format_indicator wp) @
     pb_option MessageExpiryInterval (wp_message_expiry_interval wp) @
     pb_option ContentType (wp_content_type wp) @
     pb_option ResponseTopic (wp_response_topic wp) @
     pb_option CorrelationData (wp_correlation_data wp) @
     convert_properties_to_pb (wp_user_properties wp)"

text \<open>One round of the loop of \<open>convert_pb_to_will_properties\<close>.\<close>

definition will_property_from_pb :: "PbProperty \<Rightarrow> WillProperties \<Rightarrow> WillProperties" where
  "will_property_from_pb p wp = (case p of
       Some (Pb_WillDelayInterval val) \<Rightarrow> wp\<lparr>wp_will_delay_interval := Some val\<rparr>
     | Some (Pb_PayloadFormatIndicator val) \<Rightarrow> wp\<lparr>wp_payload_format_indicator := Some (flag_byte val)\<rparr>
     | Some (Pb_MessageExpiryInterval val) \<Rightarrow> wp\<lparr>wp_message_expiry_interval := Some val\<rparr>
     | Some (Pb_ContentType val) \<Rightarrow> wp\<lparr>wp_content_type := Some val\<rparr>
     | Some (Pb_ResponseTopic val) \<Rightarrow> wp\<lparr>wp_response_topic := Some val\<rparr>
     | Some (Pb_CorrelationData val) \<Rightarrow> wp\<lparr>wp_correlation_data := Some val\<rparr>
     | Some (Pb_UserProperty u) \<Rightarrow>
         wp\<lparr>wp_user_properties := wp_user_properties wp @ [UserProperty (pb_key u) (pb_value u)]\<rparr>
     | _ \<Rightarrow> wp)"

definition convert_pb_to_will_properties :: "PbProperty list \<Rightarrow> WillProperties" where
  "convert_pb_to_will_properties ps = fold will_property_from_pb ps WillProperties_new"

section \<open>MQTT 5\<close>

definition Connect5_to_pb :: "Connect5 \<Rightarrow> PbConnect5" where
  "Connect5_to_pb c =
     \<lparr>pcon_client_id = con_client_id c, pcon_protocol_name = ascii ''MQTT'',
      pcon_protocol_version = ucast (con_protocol_version c), pcon_clean_start = con_clean_start c,
      pcon_keep_alive = ucast (con_keep_alive c), pcon_username = unwrap_or_default (con_username c),
      pcon_password = unwrap_or_default (con_password c),
      pcon_will = map_option (\<lambda>w. \<lparr>pw_topic = w_will_topic w, pw_payload = w_will_message w,
        pw_qos = ucast (w_will_qos w), pw_retain = w_will_retain w,
        pw_properties = convert_will_properties_to_pb (w_properties w)\<rparr>) (con_will c),
      pcon_properties = convert_properties_to_pb (con_properties c)\<rparr>"

definition Connect5_from_pb :: "PbConnect5 \<Rightarrow> Connect5" where
  "Connect5_from_pb c =
     \<lparr>con_protocol_name = ascii ''MQTT'', con_protocol_version = 5,
      con_keep_alive = ucast (pcon_keep_alive c), con_client_id = pcon_client_id c,
      con_will = map_option (\<lambda>w. \<lparr>w_will_qos = ucast (pw_qos w), w_will_retain = pw_retain w,
        w_will_topic = pw_topic w, w_will_message = pw_payload w,
        w_properties = convert_pb_to_will_properties (pw_properties w)\<rparr>) (pcon_will c),
      con_username = (if pcon_username c = [] then None else Some (pcon_username c)),
      con_password = (if pcon_password c = [] then None else Some (pcon_password c)),
      con_properties = convert_properties_from_pb (pcon_properties c),
      con_clean_start = pcon_clean_start c\<rparr>"

definition ConnAck5_to_pb :: "ConnAck5 \<Rightarrow> PbConnack5" where
  "ConnAck5_to_pb c =
     \<lparr>pca_session_present = ca_session_present c, pca_reason_code = ucast (ca_reason_code c),
      pca_properties = (case ca_properties c of None \<Rightarrow> [] | Some ps \<Rightarrow> convert_properties_to_pb ps)\<rparr>"

definition ConnAck5_from_pb :: "PbConnack5 \<Rightarrow> ConnAck5" where
  "ConnAck5_from_pb c =
     \<lparr>ca_session_present = pca_session_present c, ca_reason_code = ucast (pca_reason_code c),
      ca_properties = Some (convert_properties_from_pb (pca_properties c))\<rparr>"

definition Publish5_to_pb :: "Publish5 \<Rightarrow> PbPublish5" where
  "Publish5_to_pb p =
     \<lparr>ppub_topic = pub_topic_name p,
      ppub_message_id = ucast (case pub_packet_id p of None \<Rightarrow> 0 | Some i \<Rightarrow> i),
      ppub_qos = ucast (pub_qos p), ppub_retain = pub_retain p, ppub_dup = pub_dup p,
      ppub_payload = pub_payload p, ppub_properties = convert_properties_to_pb (pub_properties p)\<rparr>"

definition Publish5_from_pb :: "PbPublish5 \<Rightarrow> Publish5" where
  "Publish5_from_pb p =
     \<lparr>pub_topic_name = ppub_topic p, pub_qos = ucast (ppub_qos p), pub_dup = ppub_dup p,
      pub_retain = ppub_retain p, pub_packet_id = Some (ucast (ppub_message_id p)),
      pub_payload = ppub_payload p, pub_properties = convert_properties_from_pb (ppub_properties p)\<rparr>"

definition Ack5_to_pb :: "Ack5 \<Rightarrow> PbAck5" where
  "Ack5_to_pb a =
     \<lparr>pack_message_id = ucast (ack_packet_id a), pack_reason_code = ucast (ack_reason_code a),
      pack_properties = convert_properties_to_pb (ack_properties a)\<rparr>"

definition Ack5_from_pb :: "PbAck5 \<Rightarrow> Ack5" where
  "Ack5_from_pb a =
     \<lparr>ack_packet_id = ucast (pack_message_id a), ack_reason_code = ucast (pack_reason_code a),
      ack_properties = convert_properties_from_pb (pack_properties a)\<rparr>"

definition Subscribe5_to_pb :: "Subscribe5 \<Rightarrow> PbSubscribe5" where
  "Subscribe5_to_pb s =
     \<lparr>psub_message_id = ucast (sub_packet_id s),
      psub_subscriptions = map (\<lambda>t. \<lparr>pts_topic_filter = ts_topic_filter t, pts_qos = ucast (ts_qos t),
        pts_no_local = ts_no_local t, pts_retain_as_published = ts_retain_as_published t,
        pts_retain_handling = ucast (ts_retain_handling t)\<rparr>) (sub_subscriptions s),
      psub_properties = convert_properties_to_pb (sub_properties s)\<rparr>"

definition Subscribe5_from_pb :: "PbSubscribe5 \<Rightarrow> Subscribe5" where
  "Subscribe5_from_pb s =
     \<lparr>sub_packet_id = ucast (psub_message_id s),
      sub_subscriptions = map (\<lambda>t. \<lparr>ts_topic_filter = pts_topic_filter t, ts_qos = ucast (pts_qos t),
        ts_no_local = pts_no_local t, ts_retain_as_published = pts_retain_as_published t,
        ts_retain_handling = ucast (pts_retain_handling t)\<rparr>) (psub_subscriptions s),
      sub_properties = convert_properties_from_pb (psub_properties s)\<rparr>"

definition SubAck5_to_pb :: "SubAck5 \<Rightarrow> PbSuback5" where
  "SubAck5_to_pb s =
     \<lparr>psa_message_id = ucast (suback_packet_id s), psa_reason_codes = map ucast (suback_reason_codes s),
      psa_properties = convert_properties_to_pb (suback_properties s)\<rparr>"

definition SubAck5_from_pb :: "PbSuback5 \<Rightarrow> SubAck5" where
  "SubAck5_from_pb s =
     \<lparr>suback_packet_id = ucast (psa_message_id s), suback_reason_codes = map ucast (psa_reason_codes s),
      suback_properties = convert_properties_from_pb (psa_properties s)\<rparr>"

definition Unsubscribe5_to_pb :: "Unsubscribe5 \<Rightarrow> PbUnsubscribe5" where
  "Unsubscribe5_to_pb u =
     \<lparr>pun_message_id = ucast (unsub_packet_id u), pun_topic_filters = unsub_topic_filters u,
      pun_properties = convert_properties_to_pb (unsub_properties u)\<rparr>"

definition Unsubscribe5_from_pb :: "PbUnsubscribe5 \<Rightarrow> Unsubscribe5" where
  "Unsubscribe5_from_pb u =
     \<lparr>unsub_packet_id = ucast (pun_message_id u), unsub_topic_filters = pun_topic_filters u,
      unsub_properties = convert_properties_from_pb (pun_properties u)\<rparr>"

definition Disconnect5_to_pb :: "Disconnect5 \<Rightarrow> PbReason5" where
  "Disconnect5_to_pb d =
     \<lparr>prc_reason_code = ucast (disc_reason_code d),
      prc_properties = convert_properties_to_pb (disc_properties d)\<rparr>"

definition Disconnect5_from_pb :: "PbReason5 \<Rightarrow> Disconnect5" where
  "Disconnect5_from_pb d =
     \<lparr>disc_reason_code = ucast (prc_reason_code d),
      disc_properties = convert_properties_from_pb (prc_properties d)\<rparr>"

definition Auth5_to_pb :: "Auth5 \<Rightarrow> PbReason5" where
  "Auth5_to_pb a =
     \<lparr>prc_reason_code = ucast (auth_reason_code a),
      prc_properties = convert_properties_to_pb (auth_properties a)\<rparr>"

definition Auth5_from_pb :: "PbReason5 \<Rightarrow> Auth5" where
  "Auth5_from_pb a =
     \<lparr>auth_reason_code = ucast (prc_reason_code a),
      auth_properties = convert_properties_from_pb (prc_properties a)\<rparr>"

section \<open>MQTT 3.1.1\<close>

definition Connect3_to_pb :: "Connect3 \<Rightarrow> PbConnect3" where
  "Connect3_to_pb c =
     \<lparr>pcon3_client_id = con3_client_id c, pcon3_protocol_name = con3_protocol_name c,
      pcon3_protocol_version = ucast (con3_protocol_version c), pcon3_clean_session = con3_clean_session c,
      pcon3_keep_alive = ucast (con3_keep_alive c), pcon3_username = unwrap_or_default (con3_username c),
      pcon3_password = unwrap_or_default (con3_password c),
      pcon3_will = map_option (\<lambda>w. \<lparr>pw3_topic = w3_topic w, pw3_payload = w3_message w,
        pw3_qos = ucast (w3_qos w), pw3_retain = w3_retain w\<rparr>) (con3_will c)\<rparr>"

definition Connect3_from_pb :: "PbConnect3 \<Rightarrow> Connect3" where
  "Connect3_from_pb c =
     \<lparr>con3_protocol_name = pcon3_protocol_name c, con3_protocol_version = ucast (pcon3_protocol_version c),
      con3_clean_session = pcon3_clean_session c, con3_keep_alive = ucast (pcon3_keep_alive c),
      con3_client_id = pcon3_client_id c,
      con3_will = map_option (\<lambda>w. \<lparr>w3_retain = pw3_retain w, w3_qos = ucast (pw3_qos w),
        w3_topic = pw3_topic w, w3_message = pw3_payload w\<rparr>) (pcon3_will c),
      con3_username = (if pcon3_username c = [] then None else Some (pcon3_username c)),
      con3_password = (if pcon3_password c = [] then None else Some (pcon3_password c))\<rparr>"

definition ConnAck3_to_pb :: "ConnAck3 \<Rightarrow> PbConnack3" where
  "ConnAck3_to_pb c =
     \<lparr>pca3_session_present = ca3_session_present c, pca3_return_code = ucast (ca3_return_code c)\<rparr>"

definition ConnAck3_from_pb :: "PbConnack3 \<Rightarrow> ConnAck3" where
  "ConnAck3_from_pb c =
     \<lparr>ca3_session_present = pca3_session_present c, ca3_return_code = ucast (pca3_return_code c)\<rparr>"

definition Publish3_to_pb :: "Publish3 \<Rightarrow> PbPublish3" where
  "Publish3_to_pb p =
     \<lparr>ppub3_topic = pub3_topic_name p,
      ppub3_message_id = ucast (case pub3_message_id p of None \<Rightarrow> 0 | Some i \<Rightarrow> i),
      ppub3_qos = ucast (pub3_qos p), ppub3_retain = pub3_retain p, ppub3_dup = pub3_dup p,
      ppub3_payload = pub3_payload p\<rparr>"

definition Publish3_from_pb :: "PbPublish3 \<Rightarrow> Publish3" where
  "Publish3_from_pb p =
     \<lparr>pub3_dup = ppub3_dup p, pub3_qos = ucast (ppub3_qos p), pub3_retain = ppub3_retain p,
      pub3_topic_name = ppub3_topic p,
      pub3_message_id = (if ppub3_message_id p = 0 then None else Some (ucast (ppub3_message_id p))),
      pub3_payload = ppub3_payload p\<rparr>"

definition Ack3_to_pb :: "Ack3 \<Rightarrow> u32" where
  "Ack3_to_pb a = ucast (ack3_message_id a)"

definition Ack3_from_pb :: "u32 \<Rightarrow> Ack3" where
  "Ack3_from_pb m = \<lparr>ack3_message_id = ucast m\<rparr>"

definition Subscribe3_to_pb :: "Subscribe3 \<Rightarrow> PbSubscribe3" where
  "Subscribe3_to_pb s =
     \<lparr>psub3_message_id = ucast (sub3_message_id s),
      psub3_subscriptions = map (\<lambda>t. \<lparr>pts3_topic_filter = st_topic_filter t, pts3_qos = ucast (st_qos t)\<rparr>)
        (sub3_subscriptions s)\<rparr>"

definition Subscribe3_from_pb :: "PbSubscribe3 \<Rightarrow> Subscribe3" where
  "Subscribe3_from_pb s =
     \<lparr>sub3_message_id = ucast (psub3_message_id s),
      sub3_subscriptions = map (\<lambda>t. \<lparr>st_topic_filter = pts3_topic_filter t, st_qos = ucast (pts3_qos t)\<rparr>)
        (psub3_subscriptions s)\<rparr>"

definition SubAck3_to_pb :: "SubAck3 \<Rightarrow> PbSuback3" where
  "SubAck3_to_pb s =
     \<lparr>psa3_message_id = ucast (suback3_message_id s), psa3_return_codes = map ucast (suback3_return_codes s)\<rparr>"

definition SubAck3_from_pb :: "PbSuback3 \<Rightarrow> SubAck3" where
  "SubAck3_from_pb s =
     \<lparr>suback3_message_id = ucast (psa3_message_id s), suback3_return_codes = map ucast (psa3_return_codes s)\<rparr>"

definition Unsubscribe3_to_pb :: "Unsubscribe3 \<Rightarrow> PbUnsubscribe3" where
  "Unsubscribe3_to_pb u =
     \<lparr>pun3_message_id = ucast (unsub3_message_id u), pun3_topic_filters = unsub3_topic_filters u\<rparr>"

definition Unsubscribe3_from_pb :: "PbUnsubscribe3 \<Rightarrow> Unsubscribe3" where
  "Unsubscribe3_from_pb u =
     \<lparr>unsub3_message_id = ucast (pun3_message_id u), unsub3_topic_filters = pun3_topic_filters u\<rparr>"

section \<open>Stream messages\<close>

definition stream_payload :: "MqttPacket \<Rightarrow> StreamPayload" where
  "stream_payload packet = (case packet of
       P_Connect3 p \<Rightarrow> MqttV3Packet (Some (Pb3_Connect (Connect3_to_pb p)))
     | P_ConnAck3 p \<Rightarrow> MqttV3Packet (Some (Pb3_Connack (ConnAck3_to_pb p)))
     | P_Publish3 p \<Rightarrow> MqttV3Packet (Some (Pb3_Publish (Publish3_to_pb p)))
     | P_PubAck3 p \<Rightarrow> MqttV3Packet (Some (Pb3_Puback (Ack3_to_pb p)))
     | P_PubRec3 p \<Rightarrow> MqttV3Packet (Some (Pb3_Pubrec (Ack3_to_pb p)))
     | P_PubRel3 p \<Rightarrow> MqttV3Packet (Some (Pb3_Pubrel (Ack3_to_pb p)))
     | P_PubComp3 p \<Rightarrow> MqttV3Packet (Some (Pb3_Pubcomp (Ack3_to_pb p)))
     | P_Subscribe3 p \<Rightarrow> MqttV3Packet (Some (Pb3_Subscribe (Subscribe3_to_pb p)))
     | P_SubAck3 p \<Rightarrow> MqttV3Packet (Some (Pb3_Suback (SubAck3_to_pb p)))
     | P_Unsubscribe3 p \<Rightarrow> MqttV3Packet (Some (Pb3_Unsubscribe (Unsubscribe3_to_pb p)))
     | P_UnsubAck3 p \<Rightarrow> MqttV3Packet (Some (Pb3_Unsuback (Ack3_to_pb p)))
     | P_PingReq3 \<Rightarrow> MqttV3Packet (Some Pb3_Pingreq)
     | P_PingResp3 \<Rightarrow> MqttV3Packet (Some Pb3_Pingresp)
     | P_Disconnect3 \<Rightarrow> MqttV3Packet (Some Pb3_Disconnect)
     | P_Connect5 p \<Rightarrow> MqttV5Packet (Some (Pb5_Connect (Connect5_to_pb p)))
     | P_ConnAck5 p \<Rightarrow> MqttV5Packet (Some (Pb5_Connack (ConnAck5_to_pb p)))
     | P_Publish5 p \<Rightarrow> MqttV5Packet (Some (Pb5_Publish (Publish5_to_pb p)))
     | P_PubAck5 p \<Rightarrow> MqttV5Packet (Some (Pb5_Puback (Ack5_to_pb p)))
     | P_PubRec5 p \<Rightarrow> MqttV5Packet (Some (Pb5_Pubrec (Ack5_to_pb p)))
     | P_PubRel5 p \<Rightarrow> MqttV5Packet (Some (Pb5_Pubrel (Ack5_to_pb p)))
     | P_PubComp5 p \<Rightarrow> MqttV5Packet (Some (Pb5_Pubcomp (Ack5_to_pb p)))
     | P_Subscribe5 p \<Rightarrow> MqttV5Packet (Some (Pb5_Subscribe (Subscribe5_to_pb p)))
     | P_SubAck5 p \<Rightarrow> MqttV5Packet (Some (Pb5_Suback (SubAck5_to_pb p)))
     | P_Unsubscribe5 p \<Rightarrow> MqttV5Packet (Some (Pb5_Unsubscribe (Unsubscribe5_to_pb p)))
     | P_UnsubAck5 p \<Rightarrow> MqttV5Packet (Some (Pb5_Unsuback (SubAck5_to_pb p)))
     | P_PingReq5 \<Rightarrow> MqttV5Packet (Some Pb5_Pingreq)
     | P_PingResp5 \<Rightarrow> MqttV5Packet (Some Pb5_Pingresp)
     | P_Disconnect5 p \<Rightarrow> MqttV5Packet (Some (Pb5_Disconnect (Disconnect5_to_pb p)))
     | P_Auth p \<Rightarrow> MqttV5Packet (Some (Pb5_Auth (Auth5_to_pb p))))"

definition direction_code :: "MessageDirection \<Rightarrow> i32" where
  "direction_code d = (case d of ClientToBroker \<Rightarrow> 0 | BrokerToClient \<Rightarrow> 1)"

definition convert_mqtt_to_stream_message ::
  "MqttPacket \<Rightarrow> u64 \<Rightarrow> MessageDirection \<Rightarrow> MqttStreamMessage option" where
  "convert_mqtt_to_stream_message packet sequence_id direction =
     map_option (\<lambda>p. \<lparr>sm_sequence_id = sequence_id, sm_direction = direction_code direction, sm_payload = Some p\<rparr>)
       (Some (stream_payload packet))"

definition packet_from_pb3 :: "Pb3Packet \<Rightarrow> MqttPacket" where
  "packet_from_pb3 packet = (case packet of
       Pb3_Connect p \<Rightarrow> P_Connect3 (Connect3_from_pb p)
     | Pb3_Connack p \<Rightarrow> P_ConnAck3 (ConnAck3_from_pb p)
     | Pb3_Publish p \<Rightarrow> P_Publish3 (Publish3_from_pb p)
     | Pb3_Puback p \<Rightarrow> P_PubAck3 (Ack3_from_pb p)
     | Pb3_Pubrec p \<Rightarrow> P_PubRec3 (Ack3_from_pb p)
     | Pb3_Pubrel p \<Rightarrow> P_PubRel3 (Ack3_from_pb p)
     | Pb3_Pubcomp p \<Rightarrow> P_PubComp3 (Ack3_from_pb p)
     | Pb3_Subscribe p \<Rightarrow> P_Subscribe3 (Subscribe3_from_pb p)
     | Pb3_Suback p \<Rightarrow> P_SubAck3 (SubAck3_from_pb p)
     | Pb3_Unsubscribe p \<Rightarrow> P_Unsubscribe3 (Unsubscribe3_from_pb p)
     | Pb3_Unsuback p \<Rightarrow> P_UnsubAck3 (Ack3_from_pb p)
     | Pb3_Pingreq \<Rightarrow> P_PingReq3
     | Pb3_Pingresp \<Rightarrow> P_PingResp3
     | Pb3_Disconnect \<Rightarrow> P_Disconnect3)"

definition packet_from_pb5 :: "Pb5Packet \<Rightarrow> MqttPacket" where
  "packet_from_pb5 packet = (case packet of
       Pb5_Connect p \<Rightarrow> P_Connect5 (Connect5_from_pb p)
     | Pb5_Connack p \<Rightarrow> P_ConnAck5 (ConnAck5_from_pb p)
     | Pb5_Publish p \<Rightarrow> P_Publish5 (Publish5_from_pb p)
     | Pb5_Puback p \<Rightarrow> P_PubAck5 (Ack5_from_pb p)
     | Pb5_Pubrec p \<Rightarrow> P_PubRec5 (Ack5_from_pb p)
     | Pb5_Pubrel p \<Rightarrow> P_PubRel5 (Ack5_from_pb p)
     | Pb5_Pubcomp p \<Rightarrow> P_PubComp5 (Ack5_from_pb p)
     | Pb5_Subscribe p \<Rightarrow> P_Subscribe5 (Subscribe5_from_pb p)
     | Pb5_Suback p \<Rightarrow> P_SubAck5 (SubAck5_from_pb p)
     | Pb5_Unsubscribe p \<Rightarrow> P_Unsubscribe5 (Unsubscribe5_from_pb p)
     | Pb5_Unsuback p \<Rightarrow> P_UnsubAck5 (SubAck5_from_pb p)
     | Pb5_Pingreq \<Rightarrow> P_PingReq5
     | Pb5_Pingresp \<Rightarrow> P_PingResp5
     | Pb5_Disconnect p \<Rightarrow> P_Disconnect5 (Disconnect5_from_pb p)
     | Pb5_Auth p \<Rightarrow> P_Auth (Auth5_from_pb p))"

definition convert_stream_message_to_mqtt_packet :: "MqttStreamMessage \<Rightarrow> MqttPacket option" where
  "convert_stream_message_to_mqtt_packet msg = (case sm_payload msg of
       Some (MqttV3Packet v3_packet) \<Rightarrow> map_option packet_from_pb3 v3_packet
     | Some (MqttV5Packet v5_packet) \<Rightarrow> map_option packet_from_pb5 v5_packet
     | _ \<Rightarrow> None)"

datatype MqttConnectPacket = ConnectV3 Connect3 | ConnectV5 Connect5

definition connect_packet_client_id :: "MqttConnectPacket \<Rightarrow> str" where
  "connect_packet_client_id p = (case p of ConnectV3 c \<Rightarrow> con3_client_id c | ConnectV5 c \<Rightarrow> con_client_id c)"

definition connect_packet_version :: "MqttConnectPacket \<Rightarrow> u8" where
  "connect_packet_version p = (case p of ConnectV3 _ \<Rightarrow> 3 | ConnectV5 _ \<Rightarrow> 5)"

section \<open>What arrives\<close>

lemma cast_back [simp]:
  "(ucast (ucast (x :: 8 word) :: 32 word) :: 8 word) = x"
  "(ucast (ucast (y :: 16 word) :: 32 word) :: 16 word) = y"
  by (simp_all add: unsigned_ucast_eq take_bit_word_eq_self)

lemma map_cast_back [simp]: "map (\<lambda>x. ucast (ucast (x :: 8 word) :: 32 word) :: 8 word) xs = xs"
  by simp

lemma flag_byte_back: "v \<le> 1 \<Longrightarrow> flag_byte (v \<noteq> 0) = v" for v :: u8
proof -
  assume "v \<le> 1"
  then have "v = 0 \<or> v = 1" by (simp add: word_le_nat_alt word_unat_eq_iff) linarith
  then show ?thesis by (auto simp: flag_byte_def)
qed

lemma property_back:
  assumes "property_value p = Inr ()"
  shows "\<exists>q. Property_to_pb p = Some q \<and> Property_from_pb q = Some p"
  using assms by (cases p) (auto simp: Property_to_pb_def Property_from_pb_def require_def flag_byte_back split: if_splits)

lemma properties_back:
  "\<forall>p \<in> set ps. property_value p = Inr () \<Longrightarrow> convert_properties_from_pb (convert_properties_to_pb ps) = ps"
proof (induction ps)
  case (Cons p ps)
  obtain q where "Property_to_pb p = Some q" "Property_from_pb q = Some p"
    using property_back [of p] Cons.prems by auto
  then show ?case
    using Cons by (simp add: convert_properties_from_pb_def convert_properties_to_pb_def map_filter_def)
qed (simp add: convert_properties_from_pb_def convert_properties_to_pb_def map_filter_def)

lemma validated_properties_back:
  "validation_properties ps c = Inr () \<Longrightarrow> convert_properties_from_pb (convert_properties_to_pb ps) = ps"
  by (rule properties_back) (simp add: validation_properties_iff properties_spec_def)

lemma will_option_back:
  "wp_will_delay_interval w = None \<Longrightarrow>
     fold will_property_from_pb (pb_option WillDelayInterval d) w = w\<lparr>wp_will_delay_interval := d\<rparr>"
  "wp_payload_format_indicator w = None \<Longrightarrow> (\<And>x. f = Some x \<Longrightarrow> x \<le> 1) \<Longrightarrow>
     fold will_property_from_pb (pb_option PayloadFormatIndicator f) w = w\<lparr>wp_payload_format_indicator := f\<rparr>"
  "wp_message_expiry_interval w = None \<Longrightarrow>
     fold will_property_from_pb (pb_option MessageExpiryInterval e) w = w\<lparr>wp_message_expiry_interval := e\<rparr>"
  "wp_content_type w = None \<Longrightarrow>
     fold will_property_from_pb (pb_option ContentType c) w = w\<lparr>wp_content_type := c\<rparr>"
  "wp_response_topic w = None \<Longrightarrow>
     fold will_property_from_pb (pb_option ResponseTopic t) w = w\<lparr>wp_response_topic := t\<rparr>"
  "wp_correlation_data w = None \<Longrightarrow>
     fold will_property_from_pb (pb_option CorrelationData b) w = w\<lparr>wp_correlation_data := b\<rparr>"
  by (auto simp: pb_option_def Property_to_pb_def will_property_from_pb_def flag_byte_back split: option.splits)

lemma will_users_back:
  "\<forall>q \<in> set us. is_user_property q \<Longrightarrow>
   fold will_property_from_pb (convert_properties_to_pb us) w =
   w\<lparr>wp_user_properties := wp_user_properties w @ us\<rparr>"
proof (induction us arbitrary: w)
  case (Cons u us)
  then obtain k v where "u = UserProperty k v" by (cases u) (auto simp: is_user_property_def)
  then show ?case
    using Cons by (simp add: convert_properties_to_pb_def map_filter_def Property_to_pb_def will_property_from_pb_def)
qed (simp add: convert_properties_to_pb_def map_filter_def)

lemma will_back:
  assumes "\<forall>q \<in> set (will_property_list wp). property_value q = Inr ()"
    and "\<forall>q \<in> set (wp_user_properties wp). is_user_property q"
  shows "convert_pb_to_will_properties (convert_will_properties_to_pb wp) = wp"
proof -
  have f: "x \<le> 1" if "wp_payload_format_indicator wp = Some x" for x
    using assms(1) that by (auto simp: will_property_list_def require_def split: if_splits)
  show ?thesis
    using f assms(2)
    by (simp add: convert_pb_to_will_properties_def convert_will_properties_to_pb_def will_option_back
        will_users_back WillProperties_new_def)
qed

text \<open>A packet through both conversions, as the two halves of the proxy do it.\<close>

definition relay :: "u64 \<Rightarrow> MessageDirection \<Rightarrow> MqttPacket \<Rightarrow> MqttPacket option" where
  "relay n d p = Option.bind (convert_mqtt_to_stream_message p n d) convert_stream_message_to_mqtt_packet"

text \<open>
  The messages have no presence for credentials, so empty ones arrive as absent; the decoder of MQTT 5
  does not accept them, the one of MQTT 3.1.1 does.
\<close>

definition relayable :: "MqttPacket \<Rightarrow> bool" where
  "relayable p = (case p of
     P_Connect5 c \<Rightarrow> con_protocol_name c = ascii ''MQTT'' \<and> con_protocol_version c = 5 \<and>
       con_username c \<noteq> Some [] \<and> con_password c \<noteq> Some [] \<and>
       (case con_will c of None \<Rightarrow> True
        | Some w \<Rightarrow> \<forall>q \<in> set (wp_user_properties (w_properties w)). is_user_property q)
   | P_Connect3 c \<Rightarrow> con3_username c \<noteq> Some [] \<and> con3_password c \<noteq> Some []
   | _ \<Rightarrow> True)"

lemma credential_back: "v \<noteq> Some [] \<Longrightarrow> (if unwrap_or_default v = [] then None else Some (unwrap_or_default v)) = v"
  by (cases v) (simp_all add: unwrap_or_default_def)

lemma Connect5_back:
  assumes "Connect5_to_bytes c = Inr bs" and "relayable (P_Connect5 c)"
  shows "Connect5_from_pb (Connect5_to_pb c) = c"
proof -
  have v: "Connect5_validate c = Inr ()" and pl: "\<exists>b. Connect5_payload c = Inr b"
    using assms(1) by (auto simp: Connect5_to_bytes_def packet_to_bytes_Inr)
  have ps: "convert_properties_from_pb (convert_properties_to_pb (con_properties c)) = con_properties c"
    using v by (intro validated_properties_back) (auto simp: Connect5_validate_def)
  have w: "convert_pb_to_will_properties (convert_will_properties_to_pb (w_properties w)) = w_properties w"
    if "con_will c = Some w" for w
  proof (rule will_back)
    have "validation_properties (will_property_list (w_properties w)) Ctx_Will = Inr ()"
      using pl that by (auto simp: Connect5_payload_def Connect5_will_payload_def Let_def)
    then show "\<forall>q \<in> set (will_property_list (w_properties w)). property_value q = Inr ()"
      by (simp add: validation_properties_iff properties_spec_def)
    show "\<forall>q \<in> set (wp_user_properties (w_properties w)). is_user_property q"
      using assms(2) that by (simp add: relayable_def)
  qed
  then have "map_option (\<lambda>w. w\<lparr>w_properties :=
      convert_pb_to_will_properties (convert_will_properties_to_pb (w_properties w))\<rparr>) (con_will c) = con_will c"
    by (cases "con_will c") simp_all
  then show ?thesis
    using assms(2) ps w
    by (cases "con_will c") (simp_all add: relayable_def Connect5_from_pb_def Connect5_to_pb_def credential_back cong: if_cong)
qed

lemma Connect3_back:
  assumes "relayable (P_Connect3 c)"
  shows "Connect3_from_pb (Connect3_to_pb c) = c"
proof -
  have "con3_username c \<noteq> Some []" "con3_password c \<noteq> Some []" using assms by (simp_all add: relayable_def)
  note cr = this [THEN credential_back]
  show ?thesis by (cases "con3_will c") (simp_all add: Connect3_from_pb_def Connect3_to_pb_def cr cong: if_cong)
qed

lemma ConnAck5_back:
  assumes "ConnAck5_to_bytes c = Inr bs"
  shows "ConnAck5_to_bytes (ConnAck5_from_pb (ConnAck5_to_pb c)) = Inr bs"
proof -
  have "validation_properties (unwrap_or_default (ca_properties c)) Ctx_ConnAck = Inr ()"
    using assms by (auto simp: ConnAck5_to_bytes_def packet_to_bytes_Inr ConnAck5_validate_def)
  then have "ConnAck5_from_pb (ConnAck5_to_pb c) = c\<lparr>ca_properties := Some (unwrap_or_default (ca_properties c))\<rparr>"
    using validated_properties_back properties_back [of "[]"]
    by (cases "ca_properties c")
       (auto simp: ConnAck5_from_pb_def ConnAck5_to_pb_def unwrap_or_default_def convert_properties_to_pb_def map_filter_def)
  then show ?thesis
    using assms by (simp add: ConnAck5_to_bytes_def ConnAck5_validate_def ConnAck5_variable_header_def unwrap_or_default_def)
qed

lemma Publish5_back:
  assumes "Publish5_to_bytes p = Inr bs"
  shows "Publish5_to_bytes (Publish5_from_pb (Publish5_to_pb p)) = Inr bs"
proof -
  have v: "Publish5_validate p = Inr ()" using assms by (auto simp: Publish5_to_bytes_def)
  then have ps: "convert_properties_from_pb (convert_properties_to_pb (pub_properties p)) = pub_properties p"
    by (intro validated_properties_back) (auto simp: Publish5_validate_def)
  define q where "q = p\<lparr>pub_packet_id := Some (case pub_packet_id p of None \<Rightarrow> 0 | Some i \<Rightarrow> i)\<rparr>"
  have e: "Publish5_from_pb (Publish5_to_pb p) = q"
    by (simp add: Publish5_from_pb_def Publish5_to_pb_def ps q_def)
  show ?thesis
  proof (cases "pub_qos p = 0")
    case True
    then have "Publish5_validate q = Publish5_validate p"
      by (simp add: q_def Publish5_validate_def validation_publish_def)
    then show ?thesis using assms True unfolding e by (simp add: Publish5_to_bytes_def q_def cong: if_cong)
  next
    case False
    then obtain i where "pub_packet_id p = Some i"
      using v by (auto simp: Publish5_validate_def validation_publish_def word_gt_0 split: option.splits if_splits)
    then have "q = p" by (simp add: q_def)
    then show ?thesis using assms e by simp
  qed
qed

lemma Publish3_back:
  assumes "Publish3_to_bytes p = Inr bs"
  shows "Publish3_to_bytes (Publish3_from_pb (Publish3_to_pb p)) = Inr bs"
proof -
  have v: "Publish3_validate p = Inr ()" using assms by (auto simp: Publish3_to_bytes_def)
  have z: "(ucast (i :: u16) :: u32) = 0 \<longleftrightarrow> i = 0" for i
    by (metis cast_back(2) unsigned_0)
  define q where "q = p\<lparr>pub3_message_id := (if pub3_message_id p = Some 0 then None else pub3_message_id p)\<rparr>"
  have e: "Publish3_from_pb (Publish3_to_pb p) = q"
    by (cases "pub3_message_id p") (simp_all add: Publish3_from_pb_def Publish3_to_pb_def z q_def)
  show ?thesis
  proof (cases "pub3_qos p = 0")
    case True
    then have "Publish3_validate q = Publish3_validate p"
      by (simp add: q_def Publish3_validate_def validation_publish_def)
    then show ?thesis using assms True unfolding e by (simp add: Publish3_to_bytes_def q_def Publish3_flags_def)
  next
    case False
    then have "pub3_message_id p \<noteq> Some 0"
      using v by (auto simp: Publish3_validate_def validation_publish_def validation_packet_id_def require_def
          word_gt_0 split: option.splits if_splits)
    then have "q = p" by (simp add: q_def)
    then show ?thesis using assms e by simp
  qed
qed

lemma map_topic_subscription: "map (\<lambda>t. \<lparr>ts_topic_filter = ts_topic_filter t, ts_qos = ts_qos t,
    ts_no_local = ts_no_local t, ts_retain_as_published = ts_retain_as_published t,
    ts_retain_handling = ts_retain_handling t\<rparr>) xs = xs"
  by (induction xs) simp_all

lemma properties5_back:
  "Ack5_to_bytes k f a = Inr bs \<Longrightarrow> Ack5_from_pb (Ack5_to_pb a) = a"
  "Subscribe5_to_bytes s = Inr bs \<Longrightarrow> Subscribe5_from_pb (Subscribe5_to_pb s) = s"
  "SubAck5_to_bytes k sa = Inr bs \<Longrightarrow> SubAck5_from_pb (SubAck5_to_pb sa) = sa"
  "Unsubscribe5_to_bytes u = Inr bs \<Longrightarrow> Unsubscribe5_from_pb (Unsubscribe5_to_pb u) = u"
  "Disconnect5_to_bytes d = Inr bs \<Longrightarrow> Disconnect5_from_pb (Disconnect5_to_pb d) = d"
  "Auth5_to_bytes au = Inr bs \<Longrightarrow> Auth5_from_pb (Auth5_to_pb au) = au"
  by (auto simp: Ack5_to_bytes_def Subscribe5_to_bytes_def SubAck5_to_bytes_def Unsubscribe5_to_bytes_def
      Disconnect5_to_bytes_def Auth5_to_bytes_def packet_to_bytes_Inr Ack5_validate_def Subscribe5_validate_def
      SubAck5_validate_def Unsubscribe5_validate_def Disconnect5_validate_def Auth5_validate_def
      Ack5_from_pb_def Ack5_to_pb_def Subscribe5_from_pb_def Subscribe5_to_pb_def SubAck5_from_pb_def
      SubAck5_to_pb_def Unsubscribe5_from_pb_def Unsubscribe5_to_pb_def Disconnect5_from_pb_def
      Disconnect5_to_pb_def Auth5_from_pb_def Auth5_to_pb_def comp_def map_topic_subscription
      validated_properties_back [of _ Ctx_Ack] validated_properties_back [of _ Ctx_Subscribe]
      validated_properties_back [of _ Ctx_Unsubscribe] validated_properties_back [of _ Ctx_Disconnect]
      validated_properties_back [of _ Ctx_Auth])

lemma map_subscription_topic: "map (\<lambda>t. \<lparr>st_topic_filter = st_topic_filter t, st_qos = st_qos t\<rparr>) xs = xs"
  by (induction xs) simp_all

lemma plain3_back:
  "ConnAck3_from_pb (ConnAck3_to_pb c) = c" "Ack3_from_pb (Ack3_to_pb a) = a"
  "Subscribe3_from_pb (Subscribe3_to_pb s) = s" "SubAck3_from_pb (SubAck3_to_pb sa) = sa"
  "Unsubscribe3_from_pb (Unsubscribe3_to_pb u) = u"
  by (simp_all add: ConnAck3_from_pb_def ConnAck3_to_pb_def Ack3_from_pb_def Ack3_to_pb_def
      Subscribe3_from_pb_def Subscribe3_to_pb_def SubAck3_from_pb_def SubAck3_to_pb_def
      Unsubscribe3_from_pb_def Unsubscribe3_to_pb_def comp_def map_subscription_topic)

lemmas relay_defs = relay_def convert_mqtt_to_stream_message_def convert_stream_message_to_mqtt_packet_def
  stream_payload_def packet_from_pb5_def packet_from_pb3_def

lemma relay_bytes:
  assumes "MqttPacket_to_bytes p = Inr bs" and "relayable p"
  shows "\<exists>q. relay n d p = Some q \<and> MqttPacket_to_bytes q = Inr bs"
proof (cases p)
  case (P_Connect5 c)
  then show ?thesis using assms Connect5_back [of c bs] by (simp add: relay_defs)
next
  case (P_Connect3 c)
  then show ?thesis using assms Connect3_back [of c] by (simp add: relay_defs)
next
  case (P_ConnAck5 c)
  then show ?thesis using assms ConnAck5_back [of c bs] by (simp add: relay_defs)
next
  case (P_Publish5 c)
  then show ?thesis using assms Publish5_back [of c bs] by (simp add: relay_defs)
next
  case (P_Publish3 c)
  then show ?thesis using assms Publish3_back [of c bs] by (simp add: relay_defs)
qed (use assms in \<open>simp_all add: relay_defs properties5_back plain3_back\<close>)

end
