(* ===== verification/Spec2Isabelle.thy ===== *)
theory Spec2Isabelle
  imports Stream_Parser Priority_Queue Packet_Ids Server_Session Async_Scenarios Thread_Client
    Bindings_Engine Grpc_Relay
begin

text \<open>
  A verification development of FlowSDK, an MQTT 5 and MQTT 3.1.1 client library in Rust.

  \<^bold>\<open>The program.\<close>  The wire layer (\<open>src/src/mqtt_serde/\<close>) encodes and decodes control packets of both
  protocol versions, at four depths of parsing, and cuts a byte stream into packets.  Sessions
  (\<open>src/src/mqtt_session/\<close>) keep what has to survive a connection on either side.  The client engine
  (\<open>src/src/mqtt_client/engine.rs\<close> and its modules) is a protocol machine without input or output: the
  caller passes it received bytes, commands and the current time and takes bytes to send, events and the
  time of the next tick.  It uses the stream parser for input, the priority queue
  (\<open>src/src/priority_queue.rs\<close>) for publications that wait for a connection or for send quota, the
  in-flight queue (\<open>inflight.rs\<close>) for unacknowledged exchanges and the client session for packet
  identifiers.  The asynchronous client (\<open>tokio_async_client.rs\<close>) owns an engine in a worker task that
  executes commands, answers them through response channels and hands events to a handler; the
  foreign-function bindings (\<open>src/flowsdk_ffi/src/\<close>) check the arguments of other languages and wrap an
  engine in an object.  Two older clients do without the engine: a blocking one over a socket
  (\<open>client.rs\<close>) and one that runs it in a thread (\<open>async_client.rs\<close>).  A separate crate relays packets over
  gRPC.

  \<^bold>\<open>Conventions.\<close>  Machine integers are words of their width (\<open>u8\<close>, \<open>u16\<close>, \<open>u32\<close>, \<open>u64\<close>), \<open>usize\<close> is \<open>nat\<close>,
  byte strings and UTF-8 strings are lists of bytes.  \<open>Result\<close> is a sum with the error on the left; a
  panic of the code is a value too: \<open>Panic\<close> among the parse errors, \<open>ClientPanic\<close> among the client errors
  of the in-flight queue, and \<open>Inl message\<close> for an operation of the engine, whose own \<open>Result\<close> is part of
  the value returned with the new state.  Arithmetic that panics in a build with overflow checks is
  written out as such a panic.  Hash maps are association lists with distinct keys (their iteration order
  is unspecified in the code and no theorem depends on it), ordered maps are sorted association lists.
  The build modelled is the default one: strict validation, owned buffers, \<open>T = Timestamp\<close> as the clock;
  the system clock of the host modules is that clock, read through samples.  What the operating system
  decides is a script in the state or an argument: reads, writes and connection attempts of a socket,
  clock samples, what wakes the worker, what arrives during a callback.  The state of a client also keeps
  logs of what leaves it (bytes, replies, handler calls, sleeps), which the code does not read.

  \<^bold>\<open>Theories and the code they model.\<close>

  \<^item> \<open>Prelude\<close>: the types above, the error monad, and the codec locales: \<open>wire_decoder\<close> (a decoder stays in
    its buffer and does not depend on what follows), \<open>wire_codec\<close> (decoding inverts encoding),
    \<open>canonical_codec\<close> (and what is accepted is an encoding) and \<open>element_loop\<close> (the loops over repeated
    elements).  Each is interpreted on the codecs below.
  \<^item> \<open>Base_Data\<close> (\<open>base_data.rs\<close>), \<open>Topics\<close> (\<open>mod.rs\<close>), \<open>Properties\<close> (\<open>mqttv5/common/properties.rs\<close>),
    \<open>Validation\<close> (\<open>validation.rs\<close>): scalars, topic filters, property sections, field checks.
  \<^item> \<open>Packet_Frame\<close>, \<open>Packets_V5\<close>, \<open>Connect_V5\<close>, \<open>Packets_V3\<close>, \<open>Control_Packet\<close>: the packets of \<open>mqttv5/\<close> and
    \<open>mqttv3/\<close>, one record, validation, encoder and decoder each, and the enum \<open>MqttPacket\<close> with its
    dispatch (\<open>control_packet.rs\<close>, \<open>parser/mod.rs\<close>).
  \<^item> \<open>Framing\<close>, \<open>Leveled\<close> (\<open>parser/leveled.rs\<close>, \<open>payload.rs\<close>): frame lengths and the four parse levels.
  \<^item> \<open>Stream_Parser\<close> (\<open>parser/stream.rs\<close>): the buffering parser and the packet iterator over a reader, with
    the locale \<open>stream_codec\<close> for delivery, interpreted for both versions.
  \<^item> \<open>Priority_Queue\<close> (\<open>priority_queue.rs\<close>): the bounded queue, the locale \<open>bounded_priority_queue\<close> as its
    contract and its interpretation.
  \<^item> \<open>Hash_Map\<close>, \<open>Packet_Ids\<close>: maps by key; the locale \<open>packet_id_source\<close> on the 16-bit counters that skip
    zero, interpreted by the client session and by the server session.
  \<^item> \<open>Server_Session\<close> (\<open>mqtt_session/server_session.rs\<close>): the record \<open>ServerSession\<close>, one definition per
    handler, the invariant \<open>ss_inv\<close> and the runs of a session.
  \<^item> \<open>Client_Types\<close> (\<open>time.rs\<close>, \<open>error.rs\<close>), \<open>Client_Options\<close> (\<open>opts.rs\<close>, \<open>commands.rs\<close>, \<open>types.rs\<close>),
    \<open>Client_Session\<close> (\<open>mqtt_session/client_session.rs\<close>), \<open>Inflight\<close> (\<open>inflight.rs\<close>).
  \<^item> \<open>Engine_State\<close>: the records \<open>MqttEngine\<close> and \<open>ProtocolState\<close>, field by field, and the transitions that
    are not public (\<open>process_queue\<close>, \<open>schedule_reconnect_inner\<close>, \<open>reset_for_new_transport_inner\<close> and so on);
    \<open>Engine_Commands\<close>: \<open>connect\<close>, \<open>publish\<close>, \<open>subscribe\<close>, \<open>disconnect\<close>, \<open>auth\<close>, pings and manual
    acknowledgements; \<open>Engine_Receive\<close>: what each incoming packet does; \<open>Engine_Run\<close>: incoming bytes,
    ticks, outgoing bytes and the entry points with explicit time (\<open>engine.rs\<close> up to \<open>QuicMqttEngine\<close>,
    \<open>engine/protocol_state.rs\<close>, \<open>engine/explicit.rs\<close>).
  \<^item> \<open>Durable_Session\<close> (\<open>engine/session_state.rs\<close>, \<open>client_store.rs\<close>): checkpoints of a client session.
  \<^item> \<open>Engine_Host\<close> (\<open>engine/host.rs\<close>, \<open>inflight/host.rs\<close>, \<open>no_io_client.rs\<close>): the interface that reads the system
    clock and the client without input and output; \<open>Client_Builders\<close> (\<open>opts.rs\<close>, \<open>commands.rs\<close>, \<open>types.rs\<close>): the
    setters of options and commands and the classification of results.
  \<^item> \<open>Async_Config\<close>, \<open>Async_Worker\<close>, \<open>Async_Client\<close> (\<open>tokio_async_client.rs\<close>, \<open>tokio_async_client/worker.rs\<close>): the
    configuration, the choice of the transport, the record \<open>worker\<close> with one definition per method and
    \<open>run\<close> as rounds of its select loop, and the methods of the client.  \<open>Async_Invariant\<close> decomposes the
    methods into quiet steps; the locale \<open>worker_frame\<close> lifts what those steps keep to the methods, the
    locale \<open>worker_link\<close> does the same for the methods that open and close the transport, and each part of the
    invariant is one interpretation.  \<open>Async_Behaviour\<close> has the theory of whole runs, \<open>Async_Scenarios\<close> a
    concrete one.
  \<^item> \<open>Socket_Stream\<close> (\<open>MqttStream\<close> of \<open>parser/stream.rs\<close> over a socket), \<open>Blocking_Client\<close> (\<open>client.rs\<close>) and
    \<open>Thread_Client\<close> (\<open>async_client.rs\<close>): \<open>delivers\<close> says which packets a stream still has to yield, whatever
    the reads cut, and the lemmas on the client say what a call sends and returns in terms of it.
  \<^item> \<open>Bindings\<close> (\<open>engine/properties.rs\<close>, \<open>engine/ffi_types.rs\<close>) and \<open>Bindings_Engine\<close> (\<open>engine.rs\<close>,
    \<open>engine/runtime.rs\<close>, \<open>engine/advanced.rs\<close>, \<open>engine/session.rs\<close> of the bindings): the checks of the arguments,
    compared with the checks of the core, and the object \<open>MqttEngineFFI\<close> for a plain transport.
  \<^item> \<open>Grpc_Relay\<close> (\<open>src/mqtt_grpc_duality/src/lib.rs\<close> and the message definitions under \<open>proto/\<close>): the
    conversions of control packets to gRPC messages and back.
  \<^item> \<open>Engine_Steps\<close>, \<open>Engine_Invariant\<close>, \<open>Engine_Behaviour\<close>, \<open>Engine_Scenarios\<close>: the theory of the engine.
    Every operation is decomposed into elementary steps on the part of the state that the invariants look
    at; the locale \<open>engine_frame\<close> lifts a relation that the steps respect to all operations, and each part
    of the invariant is one interpretation of it.  \<open>engine_reachable\<close> are the states that calls of the
    interface lead to.

  \<^bold>\<open>What is shown.\<close>

  \<^item> Packet codecs: C1 and C5 (round trips of every packet type),
    C18 and C37 (no panic on any frame), C39
    (the panic outside a frame), \<open>publish5_streaming\<close> (the two PUBLISH encoders agree),
    C21 and C19 (integers and property sections), C20 and
    \<open>topic_matching\<close> (topics).
  \<^item> Framing: \<open>decoders_consume_frame\<close> and C40 (the parse levels agree on a frame).
  \<^item> Streams: C23, \<open>parser_safe\<close>, C22 and C24 (the parser is the
    string of its unread bytes, does not panic, delivers what was sent, however the reads cut it).
  \<^item> Priority queue: \<open>queue_serves_highest\<close> and the eviction of the lowest priority.
  \<^item> In-flight queue: C7 (refinement of an ordered list)
    and \<open>inflight_expiry\<close> (retransmission).
  \<^item> Server session: C27, C6 (refinement of the flow control) and
    C28.
  \<^item> Engine: C2 (the invariant of all reachable states), C4 (exactly-once delivery),
    C8 (resumption), C16, \<open>packet_id_fresh\<close>, C31,
    C32 and C33 (its loops end and make
    progress), C30 (a run that panics).
  \<^item> Checkpoints: C15 and C29.
  \<^item> Asynchronous client: C3 (engine, response channels and transport in every reachable
    state), C9, C10, C25 and
    C26.
  \<^item> Blocking and threaded client: C14 (the QoS 2 handshake), C34,
    C35 and C36 (what they do not do), \<open>threaded_bounds\<close>.
  \<^item> Bindings: C11 and C12 (accepted arguments give valid packets),
    C13 and \<open>binding_events\<close> (any sequence of calls).
  \<^item> Relay: C17 (packets arrive byte for byte) and C38 (what does not).

  \<^bold>\<open>Loops and bounds.\<close>  \<open>incoming_loop\<close> and \<open>outgoing_loop\<close> are total functions: the unread bytes, and the
  bytes and packets that are still to be handled, decrease.  The loops over the publish queue, the waiting
  responses and the replay are given as many rounds as these lists have elements, which is enough by
  C33; the loop of \<open>get_expired_with_stream_at\<close> has the number of deadlines as its bound, as in
  the code; the searches for an identifier try 65535 of them, as the code does, and
  \<open>packet_id_fresh\<close> shows that this is all of them.  The loops of the worker and of the thread take one
  element of their script in each round, and the search for an answer in \<open>recv_for_packet\<close> ends because
  every packet it skips has used up input.

  \<^bold>\<open>Not modelled.\<close>  \<open>QuicMqttEngine\<close> (the second half of \<open>engine.rs\<close>), the TLS engine, the transports and the
  QUIC client drive the third-party stacks quinn, rustls and native-tls, and so do the TLS and QUIC objects of
  the bindings; the C functions of the bindings add raw pointers and JSON text to methods that are modelled.
  The gRPC proxies are sockets and tasks around the conversions; the raw packet editor builds malformed
  packets for tests.  Message texts for users and logging are left out, and so is the rebuilding of a UTF-8
  string from characters: strings are their bytes.
\<close>

section \<open>Evaluation of the codecs on concrete packets\<close>

lemmas eval_scalars = to_be_bytes16_def as_u8_def vbi_encode_small Let_def
  append_binary_def BinaryData_encode_def Utf8String_encode_def

lemmas eval_checks = validation_packet_id_def validation_string_def validation_topic_def
  validate_mqtt_utf8_string_def validation_publish_def validation_properties_def
  binary_limit_def binary_len_def

lemmas eval_properties = PropertyEncoder_new_def Property_encoded_len_def
  PropertyEncoder_encode_into_def PropertyEncoder_encoded_len_def
  VariableByteInteger_encoded_len_def vbi_len_loop.simps

lemmas eval_publish5 = Publish5_to_bytes_def Publish5_validate_def publish_flags_def
  encode_publish_header_into_def encode_publish_into_def

lemmas eval_publish3 = Publish3_to_bytes_def Publish3_validate_def Publish3_flags_def
  encode_publish_header_into_def encode_publish_into_def

text \<open>A QoS 1 PUBLISH of topic \<open>a/b\<close> with a topic alias and a user property, and its bytes.\<close>

definition pub5_example :: Publish5 where
  "pub5_example = \<lparr>pub_topic_name = [97, 47, 98], pub_qos = 1, pub_dup = False, pub_retain = True,
     pub_packet_id = Some 10, pub_payload = [1, 2],
     pub_properties = [TopicAlias 3, UserProperty [107] [118]]\<rparr>"

definition pub5_wire :: bytes where
  "pub5_wire = [0x33, 20, 0, 3, 97, 47, 98, 0, 10,
     10, 35, 0, 3, 38, 0, 1, 107, 0, 1, 118, 1, 2]"

lemma pub5_example_wire: "MqttPacket_to_bytes (P_Publish5 pub5_example) = Inr pub5_wire"
  by (simp add: pub5_example_def pub5_wire_def eval_publish5 eval_checks eval_properties
      eval_scalars)

lemma pub5_example_wf: "packet5_wf (P_Publish5 pub5_example)"
  by (simp add: pub5_example_def packet5_wf_def Publish5_wf_def prop_utf8_def)

definition pub3_example :: Publish3 where
  "pub3_example = \<lparr>pub3_dup = True, pub3_qos = 2, pub3_retain = False,
     pub3_topic_name = [97, 47, 98], pub3_message_id = Some 7, pub3_payload = [9]\<rparr>"

definition pub3_wire :: bytes where
  "pub3_wire = [0x3C, 8, 0, 3, 97, 47, 98, 0, 7, 9]"

lemma pub3_example_wire: "MqttPacket_to_bytes (P_Publish3 pub3_example) = Inr pub3_wire"
  by (simp add: pub3_example_def pub3_wire_def eval_publish3 eval_checks eval_scalars)

lemma pub3_example_wf: "packet3_wf (P_Publish3 pub3_example)"
  by (simp add: pub3_example_def packet3_wf_def Publish3_wf_def)

section \<open>The packet codecs\<close>

text \<open>
  C1.  Decoding inverts encoding for every MQTT 5 packet type: if \<open>to_bytes\<close> of a
  well-formed packet returns \<open>bs\<close> and \<open>bs\<close> is no longer than the largest remaining length,
  \<open>from_bytes_v5\<close> on \<open>bs\<close> followed by any further bytes returns that packet and consumes exactly
  \<open>bs\<close>.
\<close>

theorem packet5_roundtrip:
  assumes "MqttPacket_to_bytes p = Inr bs" and "packet5_wf p" and "length bs \<le> 268435455"
  shows "from_bytes_v5 (bs @ r) = Inr (Packet p (length bs))"
  by (rule from_to_bytes_v5 [OF assms])

theorem packet5_roundtrip_witness:
  "from_bytes_v5 (pub5_wire @ [0xC0, 0]) = Inr (Packet (P_Publish5 pub5_example) 22)"
  using packet5_roundtrip [OF pub5_example_wire pub5_example_wf, of "[0xC0, 0]"]
  by (simp add: pub5_wire_def)

text \<open>
  C5.  The same for every MQTT 3.1.1 packet type and \<open>from_bytes_v3\<close>.
\<close>

theorem packet3_roundtrip:
  assumes "MqttPacket_to_bytes p = Inr bs" and "packet3_wf p" and "length bs \<le> 268435455"
  shows "from_bytes_v3 (bs @ r) = Inr (Packet p (length bs))"
  by (rule from_to_bytes_v3 [OF assms])

theorem packet3_roundtrip_witness:
  "from_bytes_v3 (pub3_wire @ [0xD0]) = Inr (Packet (P_Publish3 pub3_example) 10)"
  using packet3_roundtrip [OF pub3_example_wire pub3_example_wf, of "[0xD0]"]
  by (simp add: pub3_wire_def)

text \<open>
  C18.  On a buffer that holds exactly one frame (as many bytes as its
  remaining length announces), whatever the bytes are, \<open>from_bytes_v5\<close> does not panic: no index,
  slice, subtraction or assertion of the decoders fails.
\<close>

theorem packet5_framed_no_panic:
  assumes "framed b"
  shows "no_panic (from_bytes_v5 b)"
  by (rule from_bytes_v5_no_panic [OF assms])

theorem packet5_framed_no_panic_witness:
  "framed [0x30, 3, 0, 5, 97] \<and> no_panic (from_bytes_v5 [0x30, 3, 0, 5, 97])"
  using packet5_framed_no_panic [of "[0x30, 3, 0, 5, 97]"]
  by (simp add: framed_def vbi_decode_single)

text \<open>
  C37.  \<open>from_bytes_v3\<close> does not panic on any buffer at all, framed or not.
\<close>

theorem packet3_no_panic: "no_panic (from_bytes_v3 b)"
  by (rule from_bytes_v3_no_panic)

text \<open>
  C39.  The hypothesis of the theorem on MQTT 5 is needed: on a buffer
  longer than its frame, a PUBLISH whose fields run past the remaining length makes
  \<open>packet_size - offset\<close> negative, which panics in a build with overflow checks.
\<close>

theorem publish5_unframed_panics:
  "from_bytes_v5 [0x30, 2, 0, 0, 0] = Inl (Panic ''attempt to subtract with overflow'')"
proof -
  have "Utf8String_decode [0, 0, 0] = Inr ([], 2)" "parse_properties_hdr [0] = Inr ([], 1)"
    using Utf8String_decode_encode [of "[]" "[0]"] sect.dec_enc [of "[]" "[]"]
    by (simp_all add: str_ok_def eval_scalars)
  then show ?thesis
    by (simp add: from_bytes_v5_def packet_type_def ControlPacketType_try_from_def
        Publish5_from_bytes_def open_packet_def publish_qos_of_def parse_remaining_length_def
        vbi_decode_single parse_topic_name_def parse_utf8_string_def)
qed

section \<open>Variable byte integers\<close>

text \<open>
  A value of at most four encoded bytes is decoded from its encoding, whatever
  follows, and \<open>encoded_len\<close> is the number of bytes read.
\<close>

theorem vbi_roundtrip:
  assumes "unat v \<le> 268435455"
  shows "VariableByteInteger_decode (VariableByteInteger_encode v @ r) =
         Inr (unat v, VariableByteInteger_encoded_len v)"
  using vbi_decode_encode [OF assms]
  by (simp add: VariableByteInteger_encoded_len_def vbi_len_loop_eq)

theorem vbi_roundtrip_witness:
  "VariableByteInteger_decode (VariableByteInteger_encode 321 @ [7]) =
   Inr (321, VariableByteInteger_encoded_len 321)"
  using vbi_roundtrip [of 321 "[7]"] by simp

text \<open>
  C21.  Whatever \<open>decode\<close> accepts is the shortest encoding: the value is in range,
  one to four bytes inside the buffer are read, and they are what \<open>encode\<close> writes.
\<close>

theorem vbi_canonical:
  assumes "VariableByteInteger_decode b = Inr (v, n)"
  shows "v \<le> 268435455 \<and> 0 < n \<and> n \<le> 4 \<and> n \<le> length b \<and>
         take n b = VariableByteInteger_encode (of_nat v)"
  using vbi_decode_canonical [OF assms] by blast

theorem vbi_canonical_witness: "take 1 [0x7F, 0x80] = VariableByteInteger_encode (of_nat 127)"
  using vbi_canonical [of "[0x7F, 0x80]" 127 1] by (simp add: vbi_decode_single)

section \<open>Properties\<close>

text \<open>
  A property section is decoded from what \<open>encode_properities_hdr\<close>
  writes for properties with UTF-8 strings, whatever follows the section.
\<close>

theorem properties_roundtrip:
  assumes "encode_properities_hdr ps = Inr bs" and "\<forall>p \<in> set ps. prop_utf8 p"
    and "length bs \<le> 268435455"
  shows "parse_properties_hdr (bs @ r) = Inr (ps, length bs)"
proof -
  have "bs = props_wire ps" "props_ok ps"
    using encode_properities_hdr_Inr [OF assms(1,2)] assms(3)
    by (auto simp: props_ok_def props_wire_def)
  then show ?thesis by (simp add: sect.dec_enc)
qed

theorem properties_roundtrip_witness:
  "parse_properties_hdr ([3, 0x23, 0, 5] @ [1]) = Inr ([TopicAlias 5], 4)"
  using properties_roundtrip [of "[TopicAlias 5]" "[3, 0x23, 0, 5]" "[1]"]
  by (simp add: encode_properities_hdr_def eval_properties eval_checks eval_scalars prop_utf8_def)

text \<open>
  Conversely a section that \<open>parse_properties_hdr\<close> accepts is, byte for
  byte, what \<open>encode_properities_hdr\<close> writes for the properties returned.
\<close>

theorem properties_canonical:
  assumes "parse_properties_hdr b = Inr (ps, n)"
  shows "n \<le> length b \<and> encode_properities_hdr ps = Inr (take n b)"
  using sect.dec_canonical [OF assms] sect.dec_consumes [OF assms] by (auto simp: props_ok_def)

theorem properties_canonical_witness: "encode_properities_hdr [] = Inr (take 1 [0, 9])"
  using properties_canonical [of "[0, 9]" "[]" 1] sect.dec_enc [of "[]" "[9]"] by simp

text \<open>
  The length \<open>PropertyEncoder\<close> computes before writing is the number of
  bytes it then writes.
\<close>

theorem property_encoder_exact:
  assumes "PropertyEncoder_new ps = Inr e" and "\<forall>p \<in> set ps. prop_utf8 p"
  shows "PropertyEncoder_encoded_len e = length (PropertyEncoder_encode_into e)"
  using PropertyEncoder_new_Inr(3,4) [OF assms] by simp

theorem property_encoder_exact_witness:
  "PropertyEncoder_encoded_len \<lparr>pe_properties = [TopicAlias 5], pe_body_len = 3\<rparr> =
   length (PropertyEncoder_encode_into \<lparr>pe_properties = [TopicAlias 5], pe_body_len = 3\<rparr>)"
  using property_encoder_exact [of "[TopicAlias 5]" "\<lparr>pe_properties = [TopicAlias 5], pe_body_len = 3\<rparr>"]
  by (simp add: eval_properties eval_checks eval_scalars prop_utf8_def)

text \<open>
  C19.  The one-pass check with a 64-bit set of seen identifiers decides exactly
  the rules of the packet: every property is allowed there and has a valid value, identifiers that
  may not repeat are pairwise distinct, and CONNECT has no authentication data without a method.
\<close>

theorem properties_validation: "validation_properties ps c = Inr () \<longleftrightarrow> properties_spec ps c"
  by (rule validation_properties_iff)

section \<open>Topics\<close>

text \<open>
  C20.  The level-by-level check of a topic filter accepts exactly the strings of
  the grammar of MQTT section 4.7.1 (\<open>#\<close> only as the whole last level, \<open>+\<close> only as a whole
  level), non-empty, at most 65535 bytes and without the null character.
\<close>

theorem topic_filter_grammar:
  "validate_topic_filter s = Inr () \<longleftrightarrow>
   s \<noteq> [] \<and> length s \<le> 65535 \<and> 0 \<notin> set s \<and> wildcards_placed s"
  by (rule validate_topic_filter_iff)

text \<open>
  The matching loop agrees with the reference: level by level, \<open>+\<close> for any one
  level, a final \<open>#\<close> for any remaining levels, and no leading wildcard for a topic that starts
  with \<open>$\<close>.
\<close>

theorem topic_matching:
  "topic_matches f t \<longleftrightarrow>
     \<not> (Topics.starts_with t [dollar] \<and> (Topics.starts_with f [plus_c] \<or> Topics.starts_with f [hash])) \<and>
     matches_spec (split_on slash f) (split_on slash t)"
  by (auto simp: topic_matches_def match_levels_spec)

section \<open>The PUBLISH encoders\<close>

text \<open>
  The hand-written \<open>encode_to_buffer\<close> of PUBLISH, which computes lengths
  first and appends the fields in one pass, writes the bytes of the generic encoder of the trait,
  and fails with the same errors.
\<close>

theorem publish5_streaming:
  assumes "utf8_valid (pub_topic_name p)" and "\<forall>q \<in> set (pub_properties p). prop_utf8 q"
  shows "Publish5_to_bytes p =
    packet_to_bytes PUBLISH (publish_flags (pub_qos p) (pub_dup p) (pub_retain p))
      (Publish5_validate p) (Publish5_variable_header p) (Inr (pub_payload p))"
  by (rule Publish5_to_bytes_default [OF assms])

theorem publish5_streaming_witness:
  "packet_to_bytes PUBLISH (publish_flags 1 False True) (Publish5_validate pub5_example)
     (Publish5_variable_header pub5_example) (Inr [1, 2]) = Inr pub5_wire"
  using publish5_streaming [of pub5_example] pub5_example_wire
  by (simp add: pub5_example_def prop_utf8_def)

section \<open>Frames and parse levels\<close>

text \<open>
  On any buffer and for either protocol version, a decoded packet
  consumes exactly the frame its fixed header announces, which lies inside the buffer; more input is
  asked for only while the frame is incomplete, without consuming anything and with a positive
  hint.
\<close>

theorem decoders_consume_frame:
  "case from_bytes_with_version b v of
     Inl _ \<Rightarrow> True
   | Inr (Packet p n) \<Rightarrow> frame_size b = Some n \<and> n \<le> length b
   | Inr (Continue hint consumed) \<Rightarrow>
       consumed = 0 \<and> 0 < hint \<and> (\<forall>n. frame_size b = Some n \<longrightarrow> length b < n)
   | Inr (TopicName _ _) \<Rightarrow> False"
  using from_bytes_consumes_frame(3) [of b v] by (simp add: consumes_frame_def)

theorem decoders_consume_frame_witness:
  "frame_size (pub5_wire @ [0xC0, 0]) = Some 22 \<and> 22 \<le> length (pub5_wire @ [0xC0, 0])"
  using decoders_consume_frame [of "pub5_wire @ [0xC0, 0]" 5]
    from_to_bytes_v5 [OF pub5_example_wire pub5_example_wf, of "[0xC0, 0]"]
  by (simp add: from_bytes_with_version_def pub5_wire_def)

text \<open>
  C40.  The lazy parse levels agree with full parsing: whenever \<open>from_bytes_v5\<close>
  decodes a frame, parsing only the headers returns the same packet type, the same header fields
  and properties and, for PUBLISH, the same payload; parsing the raw body or only the type returns
  the same type and length.
\<close>

theorem levels_agree:
  assumes "framed b" and "from_bytes_v5 b = Inr (Packet p n)"
  shows "\<exists>h r t. parse_headers_only_v5 b = Inr (L_Packet (Parsed_Headers h) n) \<and>
      hp_packet_type h = MqttPacket_packet_type p \<and> header_agrees p (hp_variable_header h) \<and>
      (case p of P_Publish5 q \<Rightarrow> hp_raw_payload h = pub_payload q | _ \<Rightarrow> True) \<and>
      parse_raw_body b = Inr (L_Packet (Parsed_RawBody r) n) \<and>
      rb_packet_type r = MqttPacket_packet_type p \<and>
      parse_type_only b = Inr (L_Packet (Parsed_TypeOnly t) n) \<and>
      to_packet_type t = MqttPacket_packet_type p"
proof -
  obtain h where "parse_headers_only_v5 b = Inr (L_Packet (Parsed_Headers h) n)"
    "hp_packet_type h = MqttPacket_packet_type p" "header_agrees p (hp_variable_header h)"
    "\<forall>q. p = P_Publish5 q \<longrightarrow> hp_raw_payload h = pub_payload q"
    using levels_agree_v5(1) [OF assms] by blast
  moreover from this have "case p of P_Publish5 q \<Rightarrow> hp_raw_payload h = pub_payload q | _ \<Rightarrow> True"
    by (cases p) simp_all
  ultimately show ?thesis using levels_agree_v5(2,3) [OF assms] by blast
qed

theorem levels_agree_witness:
  "\<exists>h. parse_headers_only_v5 pub5_wire = Inr (L_Packet (Parsed_Headers h) 22) \<and>
     hp_variable_header h = PublishV5 [97, 47, 98] 1 False True (Some 10)
       [TopicAlias 3, UserProperty [107] [118]] \<and> hp_raw_payload h = [1, 2]"
proof -
  have "framed pub5_wire" by (simp add: framed_def pub5_wire_def vbi_decode_single)
  moreover have "from_bytes_v5 pub5_wire = Inr (Packet (P_Publish5 pub5_example) 22)"
    using from_to_bytes_v5 [OF pub5_example_wire pub5_example_wf, of "[]"]
    by (simp add: pub5_wire_def)
  ultimately show ?thesis
    using levels_agree [of pub5_wire "P_Publish5 pub5_example" 22]
    by (auto simp: header_agrees_def pub5_example_def)
qed

text \<open>
  A packet parsed as a raw body loses nothing: the fixed header rebuilt
  from its type, flags and body length, followed by the body, is the frame it was read from.
\<close>

theorem raw_body_exact:
  assumes "parse_raw_body b = Inr (L_Packet (Parsed_RawBody p) n)"
  shows "take n b =
    fixed_header_bytes (rb_packet_type p) (rb_flags p) (length (rb_remaining p)) @ rb_remaining p"
  by (rule raw_body_lossless [OF assms])

theorem raw_body_exact_witness:
  "take 4 [0x35, 2, 7, 8, 9] = fixed_header_bytes PUBLISH 5 (length [7, 8 :: u8]) @ [7, 8]"
  using raw_body_exact [of "[0x35, 2, 7, 8, 9]"
      "\<lparr>rb_packet_type = PUBLISH, rb_flags = 5, rb_remaining = [7, 8]\<rparr>" 4]
  by (simp add: parse_raw_body_def open_leveled_def from_first_byte_def
      ControlPacketType_try_from_def parse_remaining_length_def vbi_decode_single into_range_def
      get_range_def Let_def)

section \<open>The stream parser\<close>

text \<open>
  C23.  The parser with its read offset and lazy compaction implements the
  string of its unread bytes: \<open>feed\<close> appends, and \<open>next_packet\<close> returns what the decoder
  returns for the first complete frame and removes that frame, or changes nothing.  The invariant
  holds initially and is kept.
\<close>

theorem parser_refines:
  assumes "parser_inv s" and "mp_version s \<noteq> 0"
  shows "parser_inv (MqttParser_new v) \<and> unread (MqttParser_new v) = [] \<and>
    (case feed d s of Inl _ \<Rightarrow> False
     | Inr s' \<Rightarrow> parser_inv s' \<and> unread s' = unread s @ d \<and> mp_version s' = mp_version s) \<and>
    (case next_packet s of (r, s') \<Rightarrow>
       parser_inv s' \<and> mp_version s' = mp_version s \<and>
       (r, unread s') = abs_next (mp_version s) (unread s))"
proof -
  have "case next_packet s of (r, s') \<Rightarrow>
       parser_inv s' \<and> mp_version s' = mp_version s \<and>
       (r, unread s') = abs_next (mp_version s) (unread s)"
    using next_packet_refines [OF assms] by (auto split: prod.splits)
  moreover have "case feed d s of Inl _ \<Rightarrow> False
     | Inr s' \<Rightarrow> parser_inv s' \<and> unread s' = unread s @ d \<and> mp_version s' = mp_version s"
    using feed_refines [OF assms(1), of d] by auto
  ultimately show ?thesis by simp
qed

theorem parser_refines_witness:
  "case feed pub5_wire \<lparr>mp_buffer = [9, 0x30], mp_read_offset = 1, mp_version = 5,
       mp_level = Level_Full\<rparr> of
     Inl _ \<Rightarrow> False | Inr s' \<Rightarrow> parser_inv s' \<and> unread s' = 0x30 # pub5_wire \<and> mp_version s' = 5"
  (is "case feed _ ?s of Inl _ \<Rightarrow> False | Inr s' \<Rightarrow> _ s'")
proof -
  have "parser_inv ?s" "unread ?s = [0x30]" "mp_version ?s = 5"
    by (simp_all add: parser_inv_def unread_def)
  then show ?thesis using parser_refines [of ?s 5 pub5_wire] by (auto split: sum.splits)
qed

text \<open>
  Once the protocol version is known, neither \<open>next_packet\<close> nor
  \<open>next_parsed\<close>, at any level and on any input, panics: the assertion in \<open>advance\<close>, the
  slices and the \<open>unreachable!\<close> arms are never reached.
\<close>

theorem parser_safe:
  assumes "parser_inv s" and "mp_version s \<noteq> 0"
  shows "no_panic (fst (next_packet s)) \<and> no_panic (fst (next_parsed s)) \<and>
         parser_inv (snd (next_parsed s))"
  using next_packet_no_panic [OF assms] next_parsed_safe [OF assms] by blast

theorem parser_safe_witness:
  "no_panic (fst (next_parsed \<lparr>mp_buffer = [0x30, 2, 0, 0, 0], mp_read_offset = 0, mp_version = 5,
     mp_level = Level_HeadersParsed\<rparr>))"
  using parser_safe [of "\<lparr>mp_buffer = [0x30, 2, 0, 0, 0], mp_read_offset = 0, mp_version = 5,
     mp_level = Level_HeadersParsed\<rparr>"]
  by (simp add: parser_inv_def)

text \<open>
  C22.  End to end over a byte stream: encode any list of MQTT 5 packets, cut
  the bytes anywhere into non-empty reads, and the iterator over the stream yields exactly those
  packets in order and then ends.
\<close>

theorem stream5_delivery:
  assumes "\<forall>p \<in> set ps. sendable packet5_wf p" and "[] \<notin> set ds"
    and "concat ds = concat (map wire ps)"
  shows "stream_take n (MqttParser_new 5) (chunks ds) = map Inr (take n ps)"
  using stream_take_drain [of "MqttParser_new 5" 5 ds ps "[]" n] stream5.drain_complete [OF assms(1)]
    assms(2,3)
  by (simp add: MqttParser_new_def parser_inv_def unread_def)

theorem stream5_delivery_witness:
  "stream_take 3 (MqttParser_new 5)
     (chunks [take 5 pub5_wire, drop 5 pub5_wire @ [0x33], tl pub5_wire]) =
   [Inr (P_Publish5 pub5_example), Inr (P_Publish5 pub5_example)]"
proof -
  have w: "wire (P_Publish5 pub5_example) = pub5_wire"
    using pub5_example_wire by (simp add: wire_def)
  have "sendable packet5_wf (P_Publish5 pub5_example)"
    using pub5_example_wf pub5_example_wire by (simp add: sendable_def pub5_wire_def)
  then show ?thesis
    using stream5_delivery [of "[P_Publish5 pub5_example, P_Publish5 pub5_example]"
        "[take 5 pub5_wire, drop 5 pub5_wire @ [0x33], tl pub5_wire]" 3]
    by (simp add: w) (simp add: pub5_wire_def)
qed

text \<open>
  The same for MQTT 3.1.1.
\<close>

theorem stream3_delivery:
  assumes "\<forall>p \<in> set ps. sendable packet3_wf p" and "[] \<notin> set ds"
    and "concat ds = concat (map wire ps)"
  shows "stream_take n (MqttParser_new 4) (chunks ds) = map Inr (take n ps)"
  using stream_take_drain [of "MqttParser_new 4" 4 ds ps "[]" n] stream3.drain_complete [OF assms(1)]
    assms(2,3)
  by (simp add: MqttParser_new_def parser_inv_def unread_def)

theorem stream3_delivery_witness:
  "stream_take 2 (MqttParser_new 4) (chunks [take 1 pub3_wire, drop 1 pub3_wire]) =
   [Inr (P_Publish3 pub3_example)]"
proof -
  have w: "wire (P_Publish3 pub3_example) = pub3_wire"
    using pub3_example_wire by (simp add: wire_def)
  have "sendable packet3_wf (P_Publish3 pub3_example)"
    using pub3_example_wf pub3_example_wire by (simp add: sendable_def pub3_wire_def)
  then show ?thesis
    using stream3_delivery [of "[P_Publish3 pub3_example]" "[take 1 pub3_wire, drop 1 pub3_wire]" 2]
    by (simp add: w) (simp add: pub3_wire_def)
qed

text \<open>
  C24.  The iterator does not depend on how reads cut the input, also when the
  input holds an error or ends inside a frame: from any parser state, a call of \<open>next\<close> yields the
  first item of the packets, error and rest that \<open>drain\<close> finds in the whole remaining input, and
  leaves the others for the calls that follow.
\<close>

theorem stream_chunking:
  assumes "parser_inv s" and "mp_version s = v" and "v \<noteq> 0" and "[] \<notin> set ds"
  shows "case stream_next s (chunks ds) of (item, s', reads) \<Rightarrow>
    \<exists>es. reads = chunks es \<and> [] \<notin> set es \<and> parser_inv s' \<and>
      (case drain v (unread s @ concat ds) of
         (p # ps, e, r) \<Rightarrow> item = Some (Inr p) \<and> drain v (unread s' @ concat es) = (ps, e, r)
       | ([], Some e, r) \<Rightarrow> item = Some (Inl e)
       | ([], None, r) \<Rightarrow> item = None \<and> es = [] \<and> unread s' = r)"
  using stream_next_yields [OF assms]
  by (auto simp: yields_def split: prod.splits list.splits option.splits)

theorem stream_chunking_witness:
  "fst (stream_next (MqttParser_new 5) (chunks [[0x33], [20, 0]])) = None"
proof -
  have f: "packet_frame_len [0x33, 20, 0] = Inr None"
    by (simp add: packet_frame_len_def parse_remaining_length_def vbi_decode_single Let_def)
  then have d: "drain 5 [0x33, 20, 0] = ([], None, [0x33, 20, 0])"
    by (simp add: drain.simps [of 5 "[0x33, 20, 0]"] abs_next_def)
  show ?thesis
    using stream_chunking [of "MqttParser_new 5" 5 "[[0x33], [20, 0]]"]
    by (auto simp: MqttParser_new_def parser_inv_def unread_def d split: prod.splits)
qed

section \<open>The priority queue\<close>

text \<open>
  \<open>dequeue\<close> returns an element exactly when the queue is not
  empty; the element has the highest priority of all, is the oldest of that priority, and is the
  only one removed.
\<close>

theorem queue_serves_highest:
  assumes "pq_inv q"
  shows "case dequeue q of
     (None, q') \<Rightarrow> items q = []
   | (Some (p, t), q') \<Rightarrow> pq_inv q' \<and> mset (items q) = add_mset (p, t) (mset (items q')) \<and>
       (\<forall>x \<in> set (items q). fst x \<le> p) \<and>
       (\<exists>low high. items q = low @ (p, t) # high \<and> (\<forall>x \<in> set low. fst x < p))"
proof -
  obtain r q' where d: "dequeue q = (r, q')" by fastforce
  show ?thesis
  proof (cases r)
    case None
    then show ?thesis using pq.deq_None [OF assms] d by simp
  next
    case (Some x)
    then show ?thesis
      using pq.deq_Some [OF assms, of "fst x" "snd x"] pq.invar_deq [OF assms] d by (cases x) simp
  qed
qed

theorem queue_serves_highest_witness:
  "case dequeue (enqueue 1 ''c'' (enqueue 7 ''b'' (enqueue (7 :: nat) ''a'' (PriorityQueue_new 3)))) of
     (r, q') \<Rightarrow> r = Some (7, ''a'') \<and> pq_inv q' \<and>
       add_mset (7, ''a'') (mset (items q')) = {#(1, ''c''), (7, ''a''), (7, ''b'')#}"
proof -
  let ?q = "enqueue 1 ''c'' (enqueue 7 ''b'' (enqueue (7 :: nat) ''a'' (PriorityQueue_new 3)))"
  have "pq_inv ?q" by (simp add: pq.invar_enq)
  moreover have "fst (dequeue ?q) = Some (7, ''a'')"
    by (simp add: enqueue_def dequeue_def PriorityQueue_new_def Let_def)
  moreover have "mset (items ?q) = {#(1, ''c''), (7, ''a''), (7, ''b'')#}"
    by (simp add: items_def flatten_def enqueue_def PriorityQueue_new_def Let_def)
  ultimately show ?thesis using queue_serves_highest [of ?q] by (auto split: prod.splits)
qed

text \<open>
  \<open>enqueue\<close> keeps the invariant and the capacity.  With room it adds
  the element; when full it adds it and drops exactly one, whose priority is no higher than that of
  any element kept.
\<close>

theorem queue_evicts_lowest:
  assumes "pq_inv q"
  shows "pq_inv (enqueue p t q) \<and> pq_capacity (enqueue p t q) = pq_capacity q \<and>
    (if pq_len q < pq_capacity q then mset (items (enqueue p t q)) = add_mset (p, t) (mset (items q))
     else \<exists>x. add_mset x (mset (items (enqueue p t q))) = add_mset (p, t) (mset (items q)) \<and>
       (\<forall>y \<in> set (items (enqueue p t q)). fst x \<le> fst y))"
proof -
  have "pq_len q = length (items q)" "length (items q) \<le> pq_capacity q"
    using assms by (simp_all add: pq_len_def pq_inv_def)
  then show ?thesis
    using pq.enq_room [OF assms, of p t] pq.enq_full [OF assms, of p t] pq.invar_enq [OF assms]
      pq.cap_enq [OF assms] by simp
qed

theorem queue_evicts_lowest_witness:
  "\<exists>x. add_mset x (mset (items (enqueue (5 :: nat) ''b'' (enqueue 2 ''a'' (PriorityQueue_new 1))))) =
     {#(5, ''b''), (2, ''a'')#}"
  using queue_evicts_lowest [of "enqueue (2 :: nat) ''a'' (PriorityQueue_new 1)" 5 "''b''"]
  by (auto simp: pq.invar_enq)
     (auto simp: enqueue_def PriorityQueue_new_def Let_def items_def pq_len_def flatten_def)

section \<open>Time\<close>

text \<open>
  Deadlines are exact.  \<open>checked_add\<close> fails exactly when the sum does not fit 64 bits of
  nanoseconds; otherwise the elapsed time computed back is the duration that was added, and the
  milliseconds given to a timer are the deadline rounded up, never down.
\<close>

theorem timestamp_deadlines:
  "case checked_add t d of
     None \<Rightarrow> 2 ^ 64 \<le> unat t + d
   | Some u \<Rightarrow> unat u = unat t + d \<and> checked_duration_since u t = Some d \<and> saturating_duration_since u t = d \<and>
       unat u \<le> unat (as_millis_ceil u) * 1000000 \<and> unat (as_millis_ceil u) * 1000000 < unat u + 1000000"
proof (cases "checked_add t d")
  case None
  then have "2 ^ 64 \<le> unat t + d" by (simp add: checked_add_None)
  then show ?thesis using None by simp
next
  case (Some u)
  then have "unat u = unat t + d" by (simp add: checked_add_Some)
  then show ?thesis using Some duration_add [OF Some] as_millis_ceil_bounds [of u] by simp
qed

section \<open>The in-flight queue\<close>

text \<open>
  C7.  The in-flight queue implements an ordered list of exchanges.  What a reconnect replays is
  extended at the end by a push, changed in place by the transition to PUBREL and loses just the
  acknowledged exchange; the invariant is kept, and no operation panics.
\<close>

theorem inflight_replay_order:
  assumes "iq_inv q" and "is_quota_packet r"
  shows "(case push_with_stream_at i p qos stream now q of
       Inl e \<Rightarrow> \<forall>m. e \<noteq> ClientPanic m
     | Inr q' \<Rightarrow> iq_inv q' \<and> snapshot_for_reconnect q' = snapshot_for_reconnect q @ [(i, p)]) \<and>
    (case transition_pubrel_at i r now q of
       Inl e \<Rightarrow> \<forall>m. e \<noteq> ClientPanic m
     | Inr q' \<Rightarrow> iq_inv q' \<and>
         snapshot_for_reconnect q' = map (\<lambda>(j, x). (j, if j = i then r else x)) (snapshot_for_reconnect q)) \<and>
    iq_inv (snd (acknowledge i q)) \<and>
    snapshot_for_reconnect (snd (acknowledge i q)) = filter (\<lambda>(j, _). j \<noteq> i) (snapshot_for_reconnect q)"
proof -
  note s = snapshot_exchanges(1)
  have 1: "iq_inv q' \<and> snapshot_for_reconnect q' = snapshot_for_reconnect q @ [(i, p)]"
    if "push_with_stream_at i p qos stream now q = Inr q'" for q'
    using iq_inv_push [OF assms(1) that]
    by (simp add: s [OF assms(1)] s [OF iq_inv_push [OF assms(1) that]] exchanges_push [OF assms(1) that] new_entry_def)
  have 2: "iq_inv q' \<and>
      snapshot_for_reconnect q' = map (\<lambda>(j, x). (j, if j = i then r else x)) (snapshot_for_reconnect q)"
    if "transition_pubrel_at i r now q = Inr q'" for q'
    using iq_inv_transition [OF assms that]
    by (simp add: s [OF assms(1)] s [OF iq_inv_transition [OF assms that]] exchanges_transition [OF assms(1) that]
        split_beta)
  have 3: "iq_inv (snd (acknowledge i q))" "snapshot_for_reconnect (snd (acknowledge i q)) =
      filter (\<lambda>(j, _). j \<noteq> i) (snapshot_for_reconnect q)"
    using iq_inv_acknowledge [OF assms(1), of i]
    by (simp_all add: s [OF assms(1)] s [OF iq_inv_acknowledge [OF assms(1)]] exchanges_acknowledge(1) [OF assms(1)]
        filter_map comp_def split_beta)
  show ?thesis
  proof (intro conjI 3)
    show "case push_with_stream_at i p qos stream now q of Inl e \<Rightarrow> \<forall>m. e \<noteq> ClientPanic m
      | Inr q' \<Rightarrow> iq_inv q' \<and> snapshot_for_reconnect q' = snapshot_for_reconnect q @ [(i, p)]"
      using 1 no_cpanic_inflight(1) [of i p qos stream now q]
      by (cases "push_with_stream_at i p qos stream now q") (simp_all add: no_cpanic_def)
    show "case transition_pubrel_at i r now q of Inl e \<Rightarrow> \<forall>m. e \<noteq> ClientPanic m
      | Inr q' \<Rightarrow> iq_inv q' \<and>
         snapshot_for_reconnect q' = map (\<lambda>(j, x). (j, if j = i then r else x)) (snapshot_for_reconnect q)"
      using 2 no_cpanic_inflight(2) [of i r now q]
      by (cases "transition_pubrel_at i r now q") (simp_all add: no_cpanic_def)
  qed
qed

definition inflight_example :: "Timestamp \<Rightarrow> InflightQueue" where
  "inflight_example t = \<lparr>iq_entries = [(5, \<lparr>ie_packet_id = 5, ie_packet = example_packet, ie_sent_at = t,
       ie_retry_count = 0, ie_qos = 1, ie_stream = None\<rparr>)], iq_admission_order = [5],
     iq_deadline_queue = [(5, t + 100)], iq_receive_maximum = 2, iq_mqtt_version = 4,
     iq_retransmission_timeout = 100, iq_publish_quota_used = 1, iq_last_update = Some t\<rparr>"

lemma inflight_example_push:
  "push_at 5 example_packet 1 7 (InflightQueue_new 2 4 100) = Inr (inflight_example 7)"
  by code_simp

lemma inflight_example_inv: "iq_inv (inflight_example 7)"
  using iq_inv_push [of "InflightQueue_new 2 4 100" 5 example_packet 1 None 7 "inflight_example 7"] inflight_example_push
  by (simp add: push_at_def)

theorem inflight_replay_order_witness:
  "snapshot_for_reconnect (inflight_example 7) = [(5, example_packet)] \<and>
   snapshot_for_reconnect (snd (acknowledge 5 (inflight_example 7))) = []"
proof -
  have "is_quota_packet example_packet" by (simp add: example_packet_def is_quota_packet_def)
  from inflight_replay_order [OF inflight_example_inv this, of 5]
  have "snapshot_for_reconnect (snd (acknowledge 5 (inflight_example 7))) =
    filter (\<lambda>(j, _). j \<noteq> 5) (snapshot_for_reconnect (inflight_example 7))" by blast
  moreover have "snapshot_for_reconnect (inflight_example 7) = [(5, example_packet)]" by code_simp
  ultimately show ?thesis by simp
qed

text \<open>
  Retransmission outside MQTT 5.  At a valid time the expired exchanges are returned in
  the order of their deadlines, each once, and get the deadline one timeout later behind the others;
  nothing is acknowledged and the send quota does not change.
\<close>

theorem inflight_expiry:
  assumes "iq_inv q" and "check_time q now = Inr ()" and "iq_mqtt_version q \<noteq> 5"
  shows "\<exists>q'. get_expired_with_stream_at now q =
      Inr (map (\<lambda>(i, _). (let e = the (iq_get i q) in (ie_packet e, ie_stream e)))
        (filter (\<lambda>(_, d). d \<le> now) (iq_deadline_queue q)), q') \<and>
    iq_inv q' \<and>
    iq_deadline_queue q' = filter (\<lambda>(_, d). now < d) (iq_deadline_queue q) @
      map (\<lambda>(i, _). (i, deadline_at q now)) (filter (\<lambda>(_, d). d \<le> now) (iq_deadline_queue q)) \<and>
    iq_admission_order q' = iq_admission_order q \<and> iq_publish_quota_used q' = iq_publish_quota_used q"
  using get_expired_spec [OF assms] by auto

theorem inflight_expiry_witness:
  "\<exists>q'. get_expired_with_stream_at 200 (inflight_example 7) = Inr ([(example_packet, None)], q') \<and>
     iq_deadline_queue q' = [(5, 300)]"
proof -
  have "check_time (inflight_example 7) 200 = Inr ()" by code_simp
  moreover have "iq_mqtt_version (inflight_example 7) \<noteq> 5" by (simp add: inflight_example_def)
  moreover have "filter (\<lambda>(_, d). d \<le> 200) (iq_deadline_queue (inflight_example 7)) = [(5, 107)]"
    "filter (\<lambda>(_, d). 200 < d) (iq_deadline_queue (inflight_example 7)) = []"
    "the (iq_get 5 (inflight_example 7)) = \<lparr>ie_packet_id = 5, ie_packet = example_packet, ie_sent_at = 7,
       ie_retry_count = 0, ie_qos = 1, ie_stream = None\<rparr>"
    by (simp_all add: inflight_example_def iq_get_def)
  moreover have "deadline_at (inflight_example 7) 200 = 300" by code_simp
  ultimately show ?thesis using inflight_expiry [OF inflight_example_inv, of 200] by auto
qed

section \<open>The server session\<close>

text \<open>
  C27.  Whatever a client and the broker do with a server session, the outgoing exchanges stay
  within the receive maximum of the client, their identifiers are distinct and not zero, and every
  unacknowledged message carries the identifier it is stored under.
\<close>

theorem server_invariant:
  assumes "ss_reachable r s"
  shows "ss_inflight s \<le> unat r \<and> 0 \<notin> ss_used s \<and> card (ss_used s) = ss_inflight s \<and>
    (\<forall>i p. hm_get (ss_unacknowledged_publishes s) i = Some p \<longrightarrow> pub_packet_id p = Some i \<and> 0 < pub_qos p)"
proof -
  have i: "outgoing_ok (ss_unacknowledged_publishes s) (ss_unacknowledged_pubrels s) (unat r)" and inv: "ss_inv s"
    using ss_reachable_inv [OF assms] by (auto simp: ss_inv_def)
  show ?thesis using i card_ss_used [OF inv] by (simp add: outgoing_ok_def ss_inflight_def ss_used_def)
qed

text \<open>
  C6.  Flow control of the server.  \<open>take_pending_messages\<close> sends every QoS 0 message and as
  many others as the send quota has room, in the order of the queue, each with an identifier of its
  own; the rest stays queued in order, nothing is lost, and no identifier search fails.
\<close>

theorem server_take_pending:
  assumes "ss_reachable r s"
  shows "\<exists>sent s'. take_pending_messages s = Inr (map P_Publish5 sent, s') \<and>
     list_all2 same_message sent (send_now (unat r - ss_inflight s) (ss_pending_publishes s)) \<and>
     ss_pending_publishes s' = drop (unat r - ss_inflight s) (filter needs_slot (ss_pending_publishes s)) \<and>
     ss_unacknowledged_publishes s' = ss_unacknowledged_publishes s @ map with_id (filter needs_slot sent) \<and>
     ss_inflight s' \<le> unat r"
proof -
  have inv: "ss_inv s" "ss_receive_maximum s = r" using ss_reachable_inv [OF assms] by simp_all
  obtain sent s' where r: "take_pending_messages s = Inr (map P_Publish5 sent, s')"
    "list_all2 same_message sent (send_now (unat r - ss_inflight s) (ss_pending_publishes s))"
    "drained s sent (drop (unat r - ss_inflight s) (filter needs_slot (ss_pending_publishes s))) s'"
    using take_pending_drained [OF inv(1)] inv(2) by auto
  have "ss_inv s'" "ss_receive_maximum s' = r" using drained_frame [OF r(3)] inv(2) by simp_all
  then have "ss_inflight s' \<le> unat r" by (auto simp: ss_inv_def outgoing_ok_def ss_inflight_def)
  then show ?thesis using r drained_frame [OF r(3)] by blast
qed

text \<open>A subscriber to topic \<open>a\<close> that takes one message at a time, and three messages for it.\<close>

definition server_message :: "u8 \<Rightarrow> u8 \<Rightarrow> Publish5" where
  "server_message qos b = \<lparr>pub_topic_name = [97], pub_qos = qos, pub_dup = False, pub_retain = False,
     pub_packet_id = (if qos = 0 then None else Some 9), pub_payload = [b], pub_properties = []\<rparr>"

definition server_run :: "ss_event list" where
  "server_run = [E_Subscribe \<lparr>sub_packet_id = 1, sub_subscriptions = [\<lparr>ts_topic_filter = [97], ts_qos = 1,
       ts_no_local = False, ts_retain_as_published = False, ts_retain_handling = 0\<rparr>], sub_properties = []\<rparr>,
     E_Publish (server_message 1 1), E_Publish (server_message 2 2), E_Publish (server_message 0 3)]"

definition server_example :: ServerSession where
  "server_example = (ServerSession_new 1)\<lparr>
     ss_subscriptions := [([97], \<lparr>subscription_options = \<lparr>ts_topic_filter = [97], ts_qos = 1,
       ts_no_local = False, ts_retain_as_published = False, ts_retain_handling = 0\<rparr>,
       subscription_identifier = None\<rparr>)],
     ss_pending_publishes := [(server_message 1 1)\<lparr>pub_packet_id := None\<rparr>,
       (server_message 1 2)\<lparr>pub_packet_id := None\<rparr>, server_message 0 3],
     ss_received_qos2 := {9}\<rparr>"

lemma server_run_result:
  "ss_run server_run (ServerSession_new 1) = Inr ([P_PubAck5 (Ack5_new_success 9), P_PubRec5 (Ack5_new_success 9)], server_example)"
  by code_simp

lemma server_example_reachable: "ss_reachable 1 server_example"
  by (rule ss_run_reachable [OF server_run_result ss_reachable.init])

theorem server_take_pending_witness:
  "\<exists>sent s'. take_pending_messages server_example = Inr (map P_Publish5 sent, s') \<and>
     map pub_payload sent = [[1], [3]] \<and> map pub_payload (ss_pending_publishes s') = [[2]] \<and> ss_inflight s' \<le> 1"
proof -
  have n: "unat (1::u16) - ss_inflight server_example = 1"
    by (simp add: server_example_def ss_inflight_def ServerSession_new_def)
  have p: "ss_pending_publishes server_example = [(server_message 1 1)\<lparr>pub_packet_id := None\<rparr>,
       (server_message 1 2)\<lparr>pub_packet_id := None\<rparr>, server_message 0 3]"
    by (simp add: server_example_def)
  have f: "send_now 1 (ss_pending_publishes server_example) =
      [(server_message 1 1)\<lparr>pub_packet_id := None\<rparr>, server_message 0 3]"
    "drop 1 (filter needs_slot (ss_pending_publishes server_example)) =
      [(server_message 1 2)\<lparr>pub_packet_id := None\<rparr>]"
    by (simp_all add: p server_message_def needs_slot_def)
  have m: "map pub_payload sent = [[1], [3]]"
    if "list_all2 same_message sent [(server_message 1 1)\<lparr>pub_packet_id := None\<rparr>, server_message 0 3]" for sent
    using that by (auto simp: list_all2_Cons2 same_message_def server_message_def needs_slot_def)
  obtain sent s' where "take_pending_messages server_example = Inr (map P_Publish5 sent, s')"
    "list_all2 same_message sent [(server_message 1 1)\<lparr>pub_packet_id := None\<rparr>, server_message 0 3]"
    "ss_pending_publishes s' = [(server_message 1 2)\<lparr>pub_packet_id := None\<rparr>]" "ss_inflight s' \<le> 1"
    using server_take_pending [OF server_example_reachable] unfolding n f by auto
  then show ?thesis using m by (intro exI [of _ sent] exI [of _ s']) (simp add: server_message_def)
qed

theorem server_invariant_witness:
  "ss_inflight server_example \<le> 1 \<and> 0 \<notin> ss_used server_example \<and>
   card (ss_used server_example) = ss_inflight server_example"
  using server_invariant [OF server_example_reachable] by simp

text \<open>
  C28.  A QoS 2 message that was accepted is answered but not routed again: until the client
  releases the identifier with PUBREL, a second PUBLISH with it, after any other events, leaves the
  session unchanged and is answered with PUBREC.
\<close>

theorem server_qos2_once:
  assumes "ss_reachable r s" and "pub_qos p = 2" "pub_packet_id p = Some i"
    and "handle_incoming_publish p s = Inr (answer, s1)"
    and "ss_run es s1 = Inr (out, s2)" and "\<forall>e \<in> set es. \<not> is_pubrel_of i e"
    and "pub_qos q = 2" "pub_packet_id q = Some i"
  shows "handle_incoming_publish q s2 = Inr (Some (P_PubRec5 (Ack5_new_success i)), s2)"
proof -
  have "ss_apply (E_Publish p) s = Inr (case answer of None \<Rightarrow> [] | Some x \<Rightarrow> [x], s1)" using assms(4) by simp
  then have "ss_inv s1" using ss_apply_inv ss_reachable_inv [OF assms(1)] by blast
  then have "i \<in> ss_received_qos2 s2"
    using ss_run_received [OF assms(5) _ assms(6)] publish_qos2_first [OF assms(2,3,4)] by blast
  then show ?thesis by (rule publish_qos2_duplicate [OF assms(7,8)])
qed

theorem server_qos2_once_witness:
  "handle_incoming_publish (server_message 2 4) ((ServerSession_new 1)\<lparr>ss_received_qos2 := {9}\<rparr>) =
   Inr (Some (P_PubRec5 (Ack5_new_success 9)), (ServerSession_new 1)\<lparr>ss_received_qos2 := {9}\<rparr>)"
proof (rule server_qos2_once [OF ss_reachable.init [of 1]])
  show "handle_incoming_publish (server_message 2 2) (ServerSession_new 1) =
      Inr (Some (P_PubRec5 (Ack5_new_success 9)), (ServerSession_new 1)\<lparr>ss_received_qos2 := {9}\<rparr>)"
    by code_simp
  show "ss_run [E_PubRel (Ack5_new_success 8), E_Take] ((ServerSession_new 1)\<lparr>ss_received_qos2 := {9}\<rparr>) =
      Inr ([P_PubComp5 \<lparr>ack_packet_id = 8, ack_reason_code = 0x92, ack_properties = []\<rparr>],
        (ServerSession_new 1)\<lparr>ss_received_qos2 := {9}\<rparr>)"
    by code_simp
qed (simp_all add: server_message_def Ack5_new_success_def)

section \<open>The protocol engine\<close>

text \<open>
  C2.  The invariant of the engine, in every state that a created engine reaches by calls of its
  interface with any arguments and times: the in-flight queue, the parser and the publish queue are
  consistent, output buffer and publish queue stay within their capacity, the peer never has more
  unacknowledged messages than the receive maximum (and none without a connection), and every deadline
  the options allow is representable.
\<close>

theorem engine_invariant:
  assumes "engine_reachable s"
  shows "iq_inv (me_inflight_queue s) \<and> parser_inv (me_parser s) \<and>
    mp_version (me_parser s) = mqtt_version s \<and> iq_mqtt_version (me_inflight_queue s) = mqtt_version s \<and>
    length (me_outgoing_buffer s) \<le> o_max_outgoing_packet_count (me_options s) \<and>
    pq_inv (me_priority_queue s) \<and> pq_len (me_priority_queue s) \<le> o_max_outgoing_packet_count (me_options s) \<and>
    ps_incoming_quota_used (me_state s) \<le> unat (ps_incoming_receive_maximum (me_state s)) \<and>
    (\<not> me_is_connected s \<longrightarrow> ps_incoming_quota_used (me_state s) = 0) \<and>
    check_time_range (me_options s) (me_now s) = Inr ()"
proof -
  have i: "inflight_inv s" "input_inv s" "output_inv s" "quota_inv s" "clock_inv s"
    using engine_reachable_inv [OF assms] by (simp_all add: eng_inv_def)
  show ?thesis
    using i by (simp add: inflight_inv_def input_inv_def output_inv_def quota_inv_def clock_inv_def Let_def
        pq_len_def pq_inv_def)
qed

theorem engine_invariant_witness:
  "iq_inv (me_inflight_queue connected_engine) \<and> parser_inv (me_parser connected_engine) \<and>
   length (me_outgoing_buffer connected_engine) \<le> 2 \<and> pq_inv (me_priority_queue connected_engine) \<and>
   ps_incoming_quota_used (me_state connected_engine) \<le> 65535"
proof -
  have "o_max_outgoing_packet_count (me_options connected_engine) = 2"
    "unat (ps_incoming_receive_maximum (me_state connected_engine)) = 65535" by code_simp+
  then show ?thesis using engine_invariant [OF connected_engine_reachable] by simp
qed

text \<open>
  C30.  A run in which the engine panics.  An exchange that a lost session failed stays in the list
  of exchanges waiting for the next CONNACK; when its identifier is in use again by then, the identifier
  is freed under the message that holds it, is given out twice, and \<open>process_queue_with_encoding\<close> fails
  at its \<open>expect\<close>.
\<close>

theorem reserved_id_panic:
  "try_new_at example_options 0 = Inr example_engine \<and>
   perform_all (stale_run @ reuse_run) example_engine = Inl ''reserved packet ID and checked quota''"
  using example_engine_new by (simp add: perform_all_append stale_run_result reuse_run_result)

text \<open>
  C16.  Exponential backoff.  When no attempt is pending and the limit is not reached, attempt
  \<open>n + 1\<close> is scheduled after the base delay doubled \<open>min n 10\<close> times and capped by the maximum, without
  overflow, and announced with that delay; otherwise nothing happens.
\<close>

theorem reconnect_backoff:
  assumes "engine_reachable s" and "unat (me_reconnect_attempts s) < 2 ^ 32 - 1"
  shows "if me_next_reconnect_at s \<noteq> None \<or> (0 < o_max_reconnect_attempts (me_options s) \<and>
        o_max_reconnect_attempts (me_options s) \<le> me_reconnect_attempts s)
    then schedule_reconnect_inner (me_now s) s = Inr s
    else \<exists>at. schedule_reconnect_inner (me_now s) s = Inr (push_event
          (ReconnectScheduled (me_reconnect_attempts s + 1)
             (from_millis (reconnect_delay_ms (me_options s) (unat (me_reconnect_attempts s)))))
          (s\<lparr>me_next_reconnect_at := Some at, me_reconnect_attempts := me_reconnect_attempts s + 1\<rparr>)) \<and>
        unat at = unat (me_now s) + from_millis (reconnect_delay_ms (me_options s) (unat (me_reconnect_attempts s)))"
proof -
  have inv: "eng_inv s" by (rule engine_reachable_inv [OF assms(1)])
  have m: "me_max_reconnect_attempts s = o_max_reconnect_attempts (me_options s)"
    using inv by (simp add: eng_inv_def clock_inv_def)
  show ?thesis
    using schedule_reconnect_stops [of s "me_now s"] schedule_reconnect_exact [OF inv _ _ assms(2)] m
    by (auto simp: not_le word_gt_0)
qed

theorem reconnect_backoff_witness:
  "\<exists>at. schedule_reconnect_inner 1 stale_engine = Inr (push_event (ReconnectScheduled 1 (from_millis 1000))
      (stale_engine\<lparr>me_next_reconnect_at := Some at, me_reconnect_attempts := 1\<rparr>)) \<and>
    unat at = 1 + from_millis 1000"
proof -
  have e: "me_reconnect_attempts stale_engine = 0" "me_next_reconnect_at stale_engine = None"
    "o_max_reconnect_attempts (me_options stale_engine) = 0" "me_now stale_engine = 1"
    "reconnect_delay_ms (me_options stale_engine) 0 = 1000" by code_simp+
  show ?thesis using reconnect_backoff [OF stale_engine_reachable] by (simp add: e)
qed

text \<open>
  After a lost connection the engine takes no input and gives no output until the next
  connection, whatever was buffered before.
\<close>

theorem lost_connection_silent:
  assumes "handle_connection_lost_at now s = Inr (Inr (), t)"
  shows "\<not> me_is_connected t \<and> handle_incoming_inner data t = Inr (take_events t) \<and> take_outgoing_inner t = Inr ([], t)"
proof -
  obtain a where "connection_lost_at (me_now a) a = Inr t"
    using assms by (auto simp: handle_connection_lost_at_def at_time_def silent_def stepE_def
        handle_connection_lost_inner_def split: sum.splits prod.splits)
  then have "Engine_Run.disconnected t" by (rule connection_lost_disconnected)
  then show ?thesis using disconnected_inert by (simp add: Engine_Run.disconnected_def)
qed

theorem lost_connection_silent_witness:
  "\<exists>t. handle_connection_lost_at 9 connected_engine = Inr (Inr (), t) \<and> \<not> me_is_connected t \<and>
     handle_incoming_inner [0xD0, 0] t = Inr (take_events t) \<and> take_outgoing_inner t = Inr ([], t)"
proof -
  have "case handle_connection_lost_at 9 connected_engine of Inr (Inr (), t) \<Rightarrow> True | _ \<Rightarrow> False" by code_simp
  then obtain t where "handle_connection_lost_at 9 connected_engine = Inr (Inr (), t)"
    by (auto split: sum.splits)
  then show ?thesis using lost_connection_silent by blast
qed

text \<open>
  An identifier that \<open>next_packet_id\<close> gives out is not zero and neither reserved nor in
  flight, and the search fails only when there is no such identifier.
\<close>

theorem packet_id_fresh:
  assumes "me_session s = Some session"
  shows "case next_packet_id s of
     (Inr i, t) \<Rightarrow> i \<noteq> 0 \<and> id_free s i \<and> (\<exists>c. t = s\<lparr>me_session := Some c\<rparr> \<and> cs_packet_id_counter c = i)
   | (Inl e, t) \<Rightarrow> e = PacketIdExhausted \<and> (\<forall>i. i \<noteq> 0 \<longrightarrow> \<not> id_free s i)"
  by (rule next_packet_id_exact [OF assms])

theorem packet_id_fresh_witness:
  "case next_packet_id connected_engine of (Inr i, t) \<Rightarrow> i = 1 \<and> id_free connected_engine i | (Inl e, t) \<Rightarrow> False"
proof -
  have s: "me_session connected_engine = Some ClientSession_new" by code_simp
  have "case next_packet_id connected_engine of (Inr i, t) \<Rightarrow> i = 1 | (Inl e, t) \<Rightarrow> False" by code_simp
  then show ?thesis using packet_id_fresh [OF s] by (auto split: prod.splits sum.splits)
qed

text \<open>
  C32.  The loop over incoming packets ends only when the input is closed, responses wait for room
  in the output, the event queue is full, or the unread bytes hold no complete packet.  (It always ends:
  it is a total function, with the number of unread bytes as its measure.)
\<close>

theorem incoming_progress:
  assumes "incoming_loop s = Inr t"
  shows "ps_input_closed (me_state t) \<or> ps_responses (me_state t) \<noteq> [] \<or>
    o_max_event_count (me_options t) \<le> length (me_events t) \<or> next_parsed (me_parser t) = (Inr None, me_parser t)"
  using incoming_loop_progress [OF assms] by (simp add: incoming_done_def)

theorem incoming_progress_witness:
  "case incoming_loop (connected_engine\<lparr>me_parser := (me_parser connected_engine)\<lparr>mp_buffer := [0xD0, 0, 0xD0]\<rparr>\<rparr>) of
     Inr t \<Rightarrow> next_parsed (me_parser t) = (Inr None, me_parser t) | Inl _ \<Rightarrow> False"
proof -
  let ?s = "connected_engine\<lparr>me_parser := (me_parser connected_engine)\<lparr>mp_buffer := [0xD0, 0, 0xD0]\<rparr>\<rparr>"
  have "case incoming_loop ?s of Inr t \<Rightarrow> \<not> ps_input_closed (me_state t) \<and> ps_responses (me_state t) = [] \<and>
      \<not> o_max_event_count (me_options t) \<le> length (me_events t) | Inl _ \<Rightarrow> False" by code_simp
  then show ?thesis using incoming_progress [of ?s] by (auto split: sum.splits)
qed

text \<open>
  \<open>take_outgoing\<close> returns the whole output buffer first, then what the freed room lets out, and
  leaves the buffer empty.
\<close>

theorem output_drained:
  assumes "take_outgoing_inner s = Inr (b, t)"
  shows "me_outgoing_buffer t = [] \<and> (\<exists>rest. b = concat (me_outgoing_buffer s) @ rest)"
  using outgoing_loop_drains assms by (simp add: take_outgoing_inner_def)

theorem output_drained_witness:
  "case take_outgoing_inner connected_engine of
     Inr (b, t) \<Rightarrow> me_outgoing_buffer t = [] \<and> (\<exists>rest. b = concat (me_outgoing_buffer connected_engine) @ rest)
   | Inl _ \<Rightarrow> False"
proof -
  have "case take_outgoing_inner connected_engine of Inr _ \<Rightarrow> True | Inl _ \<Rightarrow> False" by code_simp
  then show ?thesis using output_drained [of connected_engine] by (auto split: sum.splits)
qed

text \<open>
  C33.  The loops over the publish queue, the waiting responses and the session replay end within as
  many rounds as they are given: more rounds make no difference, and the queue loop never runs out of
  them.
\<close>

theorem loop_rounds:
  assumes "pq_inv (me_priority_queue s)"
  shows "queue_loop (pq_len (me_priority_queue s) + k) enc s = queue_loop (pq_len (me_priority_queue s)) enc s \<and>
    queue_loop (pq_len (me_priority_queue s)) enc s \<noteq> Inl ''queue loop does not end'' \<and>
    flush_loop (length (ps_responses (me_state s)) + k) s = flush_loop (length (ps_responses (me_state s))) s \<and>
    replay_loop (length (me_session_replay s) + k) s = replay_loop (length (me_session_replay s)) s"
  using queue_loop_rounds [OF assms order_refl] queue_loop_ends [OF assms order_refl]
    flush_loop_rounds [OF order_refl] replay_loop_rounds [OF order_refl] by blast

theorem loop_rounds_witness: "queue_loop (1 + 7) None stale_engine = queue_loop 1 None stale_engine"
proof -
  have "pq_len (me_priority_queue stale_engine) = 1" by code_simp
  moreover have "pq_inv (me_priority_queue stale_engine)"
    using engine_reachable_inv [OF stale_engine_reachable] by (simp add: eng_inv_def output_inv_def)
  ultimately show ?thesis using loop_rounds [of stale_engine 7 None] by simp
qed



text \<open>
  What a tick does when no operation deadline passed: without a connection it asks for the
  reconnect exactly when that is due and changes nothing else; with a connection whose PINGRESP is
  overdue it closes the connection and reports it as the last event.
\<close>

theorem tick_outcomes:
  assumes "ps_responses (me_state s) = []" and "\<not> list_ex (\<lambda>at. at \<le> now) (deadline_times s)"
  shows "if \<not> me_is_connected s
    then handle_tick_inner now s =
      Inr (if due now s then (me_events s @ [ReconnectNeeded], s\<lparr>me_events := [], me_next_reconnect_at := None\<rparr>)
           else (me_events s, s\<lparr>me_events := []\<rparr>))
    else ping_timed_out now s \<longrightarrow> (case connection_lost_at now s of Inl m \<Rightarrow> handle_tick_inner now s = Inl m
      | Inr a \<Rightarrow> \<exists>t. handle_tick_inner now s = Inr (me_events a @ [Disconnected None], t) \<and> Engine_Run.disconnected t)"
proof (cases "me_is_connected s")
  case False
  then show ?thesis using tick_not_connected [OF _ assms] by simp
next
  case True
  have t: "handle_tick_inner now s = tryE (connection_lost_at now s) (\<lambda>a. Inr (take_events (push_event (Disconnected None) a)))"
    if "ping_timed_out now s"
    using that True assms(1) no_deadline_expired [OF assms(2)]
    by (simp add: handle_tick_inner_def flush_responses_def connected_tick_def)
  show ?thesis
  proof (simp add: True, intro impI)
    assume p: "ping_timed_out now s"
    show "case connection_lost_at now s of Inl m \<Rightarrow> handle_tick_inner now s = Inl m
      | Inr a \<Rightarrow> \<exists>t. handle_tick_inner now s = Inr (me_events a @ [Disconnected None], t) \<and> Engine_Run.disconnected t"
    proof (cases "connection_lost_at now s")
      case (Inr a)
      have "Engine_Run.disconnected (a\<lparr>me_events := []\<rparr>)"
        using connection_lost_disconnected [OF Inr] by (simp add: Engine_Run.disconnected_def)
      then show ?thesis using t [OF p] Inr by (simp add: take_events_def)
    qed (use t [OF p] in simp)
  qed
qed

theorem tick_outcomes_witness:
  "handle_tick_inner 9 stale_engine =
     Inr ([OperationFailed Op_Publish (Some 5) SessionExpired], stale_engine\<lparr>me_events := []\<rparr>) \<and>
   (case handle_tick_inner 300000000000 (connected_engine\<lparr>me_ping_sent_at := Some 3\<rparr>) of
      Inr (ev, t) \<Rightarrow> last ev = Disconnected None \<and> Engine_Run.disconnected t | Inl _ \<Rightarrow> False)"
proof -
  have s: "ps_responses (me_state stale_engine) = []" "\<not> list_ex (\<lambda>at. at \<le> 9) (deadline_times stale_engine)"
    "\<not> me_is_connected stale_engine" "\<not> due 9 stale_engine"
    "me_events stale_engine = [OperationFailed Op_Publish (Some 5) SessionExpired]" by code_simp+
  let ?c = "connected_engine\<lparr>me_ping_sent_at := Some 3\<rparr>"
  have c: "ps_responses (me_state ?c) = []" "\<not> list_ex (\<lambda>at. at \<le> 300000000000) (deadline_times ?c)"
    "me_is_connected ?c" "ping_timed_out 300000000000 ?c"
    "case connection_lost_at 300000000000 ?c of Inr _ \<Rightarrow> True | Inl _ \<Rightarrow> False" by code_simp+
  from c(5) obtain a where a: "connection_lost_at 300000000000 ?c = Inr a" by (auto split: sum.splits)
  show ?thesis using tick_outcomes [OF s(1,2)] s(3-5) tick_outcomes [OF c(1,2)] c(3,4) a by auto
qed




text \<open>
  C8.  Session resumption.  The exchanges of the previous connection are replayed with the PUBRELs
  first and otherwise in their order, the PUBLISHes marked as duplicates; whatever is not replayed is
  reported as failed with an expired session, in order, and nothing is dropped silently.
\<close>

theorem session_restore:
  "me_session_replay (restore_previous replay s) = me_session_replay s @
     map (\<lambda>(i, p). (i, canonical (set_dup True p)))
       (if replay then filter (is_quota_packet \<circ> snd)
          (filter (is_pubrel \<circ> snd) (me_previous_inflight s) @
           filter (\<lambda>e. \<not> is_pubrel (snd e)) (me_previous_inflight s)) else []) \<and>
   me_events (restore_previous replay s) = me_events s @
     map (\<lambda>(i, p). OperationFailed (operation_of p) (Some i) SessionExpired)
       (if replay then filter (\<lambda>e. \<not> is_quota_packet (snd e)) (pubrel_first (me_previous_inflight s))
        else me_previous_inflight s)"
  by (cases replay) (simp_all add: restore_previous_def restore_replay restore_events pubrel_first_def
      comp_def split_beta)

section \<open>Checkpoints\<close>

text \<open>
  C15.  A checkpoint survives a restart.  When the checkpoint of a running engine is restored into a
  new engine, a checkpoint of that engine is the same again: no queued publication, outstanding exchange
  or incoming QoS 2 exchange is lost, duplicated or reordered.
\<close>

theorem checkpoint_roundtrip:
  assumes "engine_reachable s" and "snapshot_session s = Inr saved"
    and "try_new_at opts now = Inr fresh" and "restore_session_state saved fresh = Inr t"
  shows "snapshot_session t = Inr saved"
proof -
  have "pq_inv (me_priority_queue s)"
    using engine_reachable_inv [OF assms(1)] by (simp add: eng_inv_def output_inv_def)
  then show ?thesis using checkpoint_restored [OF assms(2) _ assms(3,4)] by blast
qed

theorem checkpoint_roundtrip_witness:
  "\<exists>t. restore_session_state durable_checkpoint (MqttEngine_new_at durable_options 7) = Inr t \<and>
     snapshot_session t = Inr durable_checkpoint"
  using durable_run_checkpoint durable_restored checkpoint_roundtrip [OF _ _ durable_engines(2)] by blast

text \<open>
  C29.  What restoring accepts.  The identifiers of a restored checkpoint are not zero and belong to
  one outstanding exchange or queued publication each, exactly these are reserved afterwards, an incoming
  exchange occurs once, client and protocol version match, and nothing is sent before the next CONNECT.
\<close>

theorem checkpoint_checked:
  assumes "restore_session_state saved s = Inr t"
  shows "distinct (map fst (css_outbound saved) @ queued_ids (css_mqtt_version saved) (css_queued saved)) \<and>
    ps_reserved (me_state t) =
      set (map fst (css_outbound saved) @ queued_ids (css_mqtt_version saved) (css_queued saved)) \<and>
    0 \<notin> ps_reserved (me_state t) \<and> me_previous_inflight t = css_outbound saved \<and>
    hm_ok (ps_received (me_state t)) \<and> me_outgoing_buffer t = [] \<and> me_is_connected t = me_is_connected s \<and>
    css_client_id saved = o_client_id (me_options t) \<and> css_mqtt_version saved = o_mqtt_version (me_options t)"
  using assms
proof (cases rule: restore_cases)
  case (1 reserved replay_reserve queued_bytes control_reserve received)
  show ?thesis
    using 1(2-17) by (simp add: 1(1) install_session_def)
qed

theorem checkpoint_checked_witness:
  "\<exists>t. restore_session_state durable_checkpoint (MqttEngine_new_at durable_options 7) = Inr t \<and>
     ps_reserved (me_state t) = {5, 6}"
proof -
  have "set (map fst (css_outbound durable_checkpoint) @
      queued_ids (css_mqtt_version durable_checkpoint) (css_queued durable_checkpoint)) = {5, 6}" by code_simp
  then show ?thesis using durable_restored checkpoint_checked by fastforce
qed

section \<open>The gRPC relay\<close>





definition empty_username :: Connect3 where
  "empty_username = \<lparr>con3_protocol_name = ascii ''MQTT'', con3_protocol_version = 4, con3_clean_session = True,
     con3_keep_alive = 60, con3_client_id = [99], con3_will = None, con3_username = Some [], con3_password = None\<rparr>"

text \<open>
  C38.  The restriction on credentials is needed.  An MQTT 3.1.1 CONNECT with an empty user name is
  accepted by the decoder, and what the relay forwards is a CONNECT without user name.
\<close>

theorem grpc_empty_username_lost:
  "from_bytes_v3 [16, 15, 0, 4, 77, 81, 84, 84, 4, 0x82, 0, 60, 0, 1, 99, 0, 0] =
     Inr (Packet (P_Connect3 empty_username) 17) \<and>
   map_option MqttPacket_to_bytes (relay n d (P_Connect3 empty_username)) =
     Some (Inr [16, 13, 0, 4, 77, 81, 84, 84, 4, 0x02, 0, 60, 0, 1, 99])"
proof -
  have "relay n d (P_Connect3 empty_username) = Some (P_Connect3 (empty_username\<lparr>con3_username := None\<rparr>))"
    by (simp add: relay_defs Connect3_from_pb_def Connect3_to_pb_def empty_username_def unwrap_or_default_def)
  moreover have "MqttPacket_to_bytes (P_Connect3 (empty_username\<lparr>con3_username := None\<rparr>)) =
      Inr [16, 13, 0, 4, 77, 81, 84, 84, 4, 0x02, 0, 60, 0, 1, 99]" by code_simp
  moreover have "from_bytes_v3 [16, 15, 0, 4, 77, 81, 84, 84, 4, 0x82, 0, 60, 0, 1, 99, 0, 0] =
     Inr (Packet (P_Connect3 empty_username) 17)" by code_simp
  ultimately show ?thesis by simp
qed

section \<open>The asynchronous client\<close>

text \<open>
  C3.  The invariant of the asynchronous worker, in every state that its run loop reaches whatever
  commands, bytes, failures, clock readings and cancellations it meets: the engine keeps its invariant, every
  response channel the worker received is answered, waiting or dropped, exactly once each, there is no
  transport in the disconnected state, and while a transport is being opened there is no other.
\<close>

theorem worker_invariant:
  assumes "worker_reachable w"
  shows "eng_inv (wk_engine w) \<and>
    mset (wk_taken w) = mset (map fst (wk_replies w)) + mset (pending_channels (wk_pending w)) + mset (map fst (wk_dropped w)) \<and>
    (wk_state w = CS_Disconnected \<longrightarrow> \<not> wk_stream w \<and> wk_connecting w = None) \<and>
    (wk_connecting w \<noteq> None \<longrightarrow> \<not> wk_stream w)"
  using worker_reachable_inv [OF assms] by (simp add: worker_inv_def accounted_def link_ok_def)

theorem worker_invariant_witness:
  "wk_stream worker4 \<and> pd_publish (wk_pending worker4) = [(5, 2)] \<and> eng_inv (wk_engine worker4) \<and>
   mset (wk_taken worker4) = {#1#} + {#2#} \<and> wk_connecting worker4 = None"
proof -
  have "wk_stream worker4" "pd_publish (wk_pending worker4) = [(5, 2)]" by (simp_all add: worker_values)
  moreover have "map fst (wk_replies worker4) = [1]" "pending_channels (wk_pending worker4) = [2]" "wk_dropped worker4 = []"
    by (simp_all add: worker_values pending_channels_def)
  ultimately show ?thesis using worker_invariant [OF worker4_reachable] by auto
qed

text \<open>
  C10.  Once the engine accepts a disconnect, the worker has no transport and opens none, and
  writes no byte, whatever its rounds bring (reads, ticks, publishes, a change of the reconnect setting,
  a shutdown) until a command connects again; this also holds when the last write or the close failed.
\<close>

theorem disconnect_stays_silent:
  assumes "engine_op (host_try_disconnect_with code properties) w = Inr (Inr (), u)"
    and "worker_disconnect code properties w = Inr (r, t)"
    and "run rounds t = Inr (exit, v)" and "list_all (\<lambda>rd. \<not> connect_round rd) rounds"
  shows "\<not> wk_stream v \<and> wk_connecting v = None \<and> wk_intentional_stop v \<and> wk_written v = wk_written t"
  using run_halts [OF assms(3,4)] disconnect_halts [OF assms(2,1)] by (simp add: halts_def halted_def)

theorem disconnect_stays_silent_witness:
  "\<exists>v. run [idle_round] stopped_worker = Inr (None, v) \<and> \<not> wk_stream v \<and>
     wk_written v = [connect_packet, publish_packet, [224, 0]]"
proof -
  obtain v where v: "run [idle_round] stopped_worker = Inr (None, v)" using idle_result by blast
  have "list_all (\<lambda>rd. \<not> connect_round rd) [idle_round]"
    by (simp add: idle_round_def round_of_def connect_round_def)
  then show ?thesis
    using disconnect_stays_silent [OF disconnect_accepted disconnect_result v] v by (simp add: stopped_worker_def)
qed

text \<open>
  C9.  When the run loop of a reachable worker returns, after any further rounds, nobody is left
  waiting: every response channel the worker ever received has been answered or was dropped because its
  receiver was gone or its identifier was taken over, and no channel twice when the channels are distinct.
\<close>

theorem shutdown_settles_waiters:
  assumes "worker_reachable w" and "run rounds w = Inr (Some r, t)"
  shows "pending_channels (wk_pending t) = [] \<and>
    mset (wk_taken t) = mset (map fst (wk_replies t)) + mset (map fst (wk_dropped t)) \<and>
    (distinct (wk_taken t) \<longrightarrow> distinct (map fst (wk_replies t) @ map fst (wk_dropped t)))"
proof -
  have s: "pending_channels (wk_pending t) = []" using run_settled [OF assms(2)] by (simp add: settled_def)
  moreover have m: "mset (wk_taken t) = mset (map fst (wk_replies t)) + mset (map fst (wk_dropped t))"
    using run_inv [OF assms(2) worker_reachable_inv [OF assms(1)]] s by (simp add: worker_inv_def accounted_def)
  ultimately show ?thesis
    using accounts_distinct [of "wk_taken t" "map fst (wk_replies t)" "map fst (wk_dropped t)" "[]"] by simp
qed

theorem shutdown_settles_waiters_witness:
  "\<exists>t. run [shutdown_round] worker4 = Inr (Some (Inr ()), t) \<and> pending_channels (wk_pending t) = [] \<and>
     {#1, 2, 4#} = mset (map fst (wk_replies t)) + mset (map fst (wk_dropped t))"
proof -
  obtain t where t: "run [shutdown_round] worker4 = Inr (Some (Inr ()), t)" "wk_taken t = [1, 2, 4]"
    using shutdown_result by blast
  show ?thesis using shutdown_settles_waiters [OF worker4_reachable t(1)] t by auto
qed

text \<open>
  C25.  The event handler of the application sees every result and every message that the
  engine reports, in the order in which the engine reports them and once each, whatever other events,
  lost connections and publish requests come in between.
\<close>

theorem handler_sees_reports:
  assumes "dispatch_events events w = Inr (x, t)"
  shows "\<exists>bs. wk_batches t = wk_batches w @ bs \<and> filter is_report (concat bs) = concat (map reported events)"
  by (rule dispatch_events_reports [OF assms])

theorem handler_sees_reports_witness:
  "\<exists>t bs. dispatch_events example_events worker4 = Inr ((), t) \<and> wk_batches t = wk_batches worker4 @ bs \<and>
     filter is_report (concat bs) = [TE_PingResponse True, TE_PubRelReceived 7]"
proof -
  obtain t where t: "dispatch_events example_events worker4 = Inr ((), t)" using example_events_result by blast
  moreover have "concat (map reported example_events) = [TE_PingResponse True, TE_PubRelReceived 7]"
    by (simp add: example_events_def reported_def)
  ultimately show ?thesis using handler_sees_reports [OF t] by auto
qed

text \<open>
  C26.  A peer address with an encrypted scheme is never connected to in the clear, for
  every build, TLS backend and configuration: the transport is TLS or QUIC to the address after the
  scheme, or the attempt is refused.
\<close>

theorem encrypted_peer_never_plain:
  assumes "Async_Config.starts_with (ascii ''mqtts://'') (o_peer opts) \<or> Async_Config.starts_with (ascii ''quic://'') (o_peer opts)"
  shows "encrypted_plan ft (o_peer opts) (cf_plan (create_transport ft backend config opts))"
  by (rule encrypted_peer_plan [OF assms])

theorem encrypted_peer_never_plain_witness:
  "let opts = example_options\<lparr>o_peer := ascii ''quic://h''\<rparr>; ft = \<lparr>ft_tls = True, ft_rustls_tls = False, ft_quic = True\<rparr>
   in encrypted_plan ft (o_peer opts) (cf_plan (create_transport ft None example_config opts)) \<and>
      Async_Config.starts_with (ascii ''quic://'') (o_peer opts)"
proof -
  have "Async_Config.starts_with (ascii ''quic://'') (ascii ''quic://h'')" by code_simp
  then show ?thesis
    using encrypted_peer_never_plain [of "example_options\<lparr>o_peer := ascii ''quic://h''\<rparr>"
        "\<lparr>ft_tls = True, ft_rustls_tls = False, ft_quic = True\<rparr>" None example_config]
    by (simp add: Let_def)
qed

section \<open>The blocking and the threaded client\<close>

text \<open>A broker that answers a QoS 2 publish, with a message in between, in three reads.\<close>

definition broker_packets :: "MqttPacket list" where
  "broker_packets =
     [P_PubRec5 \<lparr>ack_packet_id = 1, ack_reason_code = 0, ack_properties = []\<rparr>,
      P_Publish5 \<lparr>pub_topic_name = [97], pub_qos = 0, pub_dup = False, pub_retain = False, pub_packet_id = None,
        pub_payload = [], pub_properties = []\<rparr>,
      P_PubComp5 \<lparr>ack_packet_id = 1, ack_reason_code = 0, ack_properties = []\<rparr>]"

definition broker_socket :: TcpStream where
  "broker_socket = \<lparr>tcp_reads = map Sock_read [[0x50, 2, 0], [1, 0x30, 4, 0, 1, 97, 0, 0x70], [2, 0, 1]],
     tcp_writes = [], tcp_sent = [], tcp_read_timeout = None\<rparr>"

definition example_client :: MqttClient where
  "example_client = (MqttClient_new MqttClientOptions_default)\<lparr>cx_session := Some ClientSession_new,
     cx_mqtt_stream := Some (MqttStream_new broker_socket 5)\<rparr>"

lemma broker_packets_wire: "map MqttPacket_to_bytes broker_packets =
    [Inr [0x50, 2, 0, 1], Inr [0x30, 4, 0, 1, 97, 0], Inr [0x70, 2, 0, 1]]"
  by code_simp

lemma broker_delivers: "delivers 5 broker_packets [] (MqttStream_new broker_socket 5)"
proof (rule delivers_new5)
  show "list_all (sendable packet5_wf) broker_packets"
    using broker_packets_wire by (simp add: broker_packets_def sendable_def packet5_wf_def Publish5_wf_def)
  show "concat [[0x50, 2, 0], [1, 0x30, 4, 0, 1, 97, 0, 0x70], [2, 0, 1 :: u8]] = concat (map wire broker_packets)"
    using broker_packets_wire by (simp add: broker_packets_def wire_def)
qed (simp_all add: broker_socket_def)

text \<open>
  C14.  The blocking client carries out the whole QoS 2 handshake: when the broker answers a
  publish with PUBREC and then PUBCOMP of its identifier, with any other packets around them and the bytes
  cut into reads in any way, \<open>published\<close> sends PUBLISH and PUBREL and nothing else, returns the result of
  the PUBCOMP, keeps the other packets in order, and leaves what follows for the next call.
\<close>

theorem blocking_publish_qos2:
  assumes "cx_session c = Some s" and "cs_next_packet_id s = (i, s')" and "cx_mqtt_stream c = Some ms" and "\<not> is_v3 c"
    and "delivers v (qs @ P_PubRec5 rec # rs @ P_PubComp5 fin # ts) r ms" and "v \<noteq> 0"
    and "tcp_writes (ms_stream ms) = []"
    and "ack_packet_id rec = i" and "list_all (\<lambda>p. \<not> is_pubrec False i p) qs"
    and "ack_packet_id fin = i" and "list_all (\<lambda>p. \<not> is_pubcomp False i p) rs"
    and "MqttPacket_to_bytes (publish_packet_of False (Some i) topic payload 2 retain) = Inr pub"
    and "MqttPacket_to_bytes (pubrel_packet False i) = Inr rel"
  shows "\<exists>c' ms'. Blocking_Client.published topic payload 2 retain c = (Inr (ack5_result 2 fin), c') \<and>
     cx_unhandled_packets c' = cx_unhandled_packets c @ qs @ rs \<and> cx_mqtt_stream c' = Some ms' \<and>
     delivers v ts r ms' \<and> tcp_sent (ms_stream ms') = tcp_sent (ms_stream ms) @ pub @ rel"
  by (rule published_qos2 [OF assms])

theorem blocking_publish_qos2_witness:
  "\<exists>c' ms'. Blocking_Client.published [98] [] 2 False example_client =
       (Inr \<lparr>pr_packet_id = Some 1, pr_reason_code = Some 0, pr_properties = Some [], pr_qos = 2\<rparr>, c') \<and>
     cx_unhandled_packets c' = [broker_packets ! 1] \<and> cx_mqtt_stream c' = Some ms' \<and>
     tcp_sent (ms_stream ms') = [0x34, 6, 0, 1, 98, 0, 1, 0] @ [0x62, 2, 0, 1]"
proof -
  have c: "cx_session example_client = Some ClientSession_new" "\<not> is_v3 example_client"
    "cx_mqtt_stream example_client = Some (MqttStream_new broker_socket 5)" "cx_unhandled_packets example_client = []"
    by (simp_all add: example_client_def MqttClient_new_def client_of_def Context_new_def is_v3_def
        MqttClientOptions_default_def Context.defs MqttClient.defs)
  have i: "cs_next_packet_id ClientSession_new = (1, ClientSession_new\<lparr>cs_packet_id_counter := 1\<rparr>)" by code_simp
  have b: "MqttPacket_to_bytes (publish_packet_of False (Some 1) [98] [] 2 False) = Inr [0x34, 6, 0, 1, 98, 0, 1, 0]"
    "MqttPacket_to_bytes (pubrel_packet False 1) = Inr [0x62, 2, 0, 1]" by code_simp+
  have d: "delivers 5 ([] @ broker_packets ! 0 # [broker_packets ! 1] @ broker_packets ! 2 # []) [] (MqttStream_new broker_socket 5)"
    using broker_delivers by (simp add: broker_packets_def)
  have w: "tcp_writes (ms_stream (MqttStream_new broker_socket 5)) = []" "tcp_sent (ms_stream (MqttStream_new broker_socket 5)) = []"
    by (simp_all add: MqttStream_new_def broker_socket_def)
  let ?ack = "\<lparr>ack_packet_id = 1, ack_reason_code = 0, ack_properties = []\<rparr>"
  have p: "broker_packets ! 0 = P_PubRec5 ?ack" "broker_packets ! 2 = P_PubComp5 ?ack"
    "list_all (\<lambda>p. \<not> is_pubcomp False 1 p) [broker_packets ! 1]"
    by (simp_all add: broker_packets_def is_pubcomp_def)
  have "\<exists>c' ms'. Blocking_Client.published [98] [] 2 False example_client = (Inr (ack5_result 2 ?ack), c') \<and>
     cx_unhandled_packets c' = cx_unhandled_packets example_client @ [] @ [broker_packets ! 1] \<and> cx_mqtt_stream c' = Some ms' \<and>
     delivers 5 [] [] ms' \<and> tcp_sent (ms_stream ms') = tcp_sent (ms_stream (MqttStream_new broker_socket 5)) @
       [0x34, 6, 0, 1, 98, 0, 1, 0] @ [0x62, 2, 0, 1]"
    using p(3) by (intro blocking_publish_qos2 [OF c(1) i c(3,2) d [unfolded p] _ w(1) _ _ _ _ b]) simp_all
  then show ?thesis using w(2) c(4) by (auto simp: ack5_result_def)
qed

text \<open>
  C34.  The blocking client loses data on a short write.  \<open>write\<close> of a socket may take only a
  prefix of the bytes; \<open>send_packet\<close> ignores how many were taken and reports success, so that the rest of the
  packet is never sent and the broker reads the next packet as its remainder.
\<close>

theorem short_write_accepted:
  assumes "cx_mqtt_stream c = Some ms" and "tcp_writes (ms_stream ms) = Sock_took n # ws"
    and "MqttPacket_to_bytes p = Inr bs" and "n < length bs"
  shows "\<exists>ms'. client_send p c = (Inr (), c\<lparr>cx_mqtt_stream := Some ms'\<rparr>) \<and>
     tcp_sent (ms_stream ms') = tcp_sent (ms_stream ms) @ take n bs"
  by (rule client_send_short [OF assms])

theorem short_write_accepted_witness:
  "\<exists>c' ms'. client_send (P_Disconnect5 Disconnect5_new_normal) (example_client\<lparr>cx_mqtt_stream :=
       Some (MqttStream_new (broker_socket\<lparr>tcp_writes := [Sock_took 1]\<rparr>) 5)\<rparr>) = (Inr (), c') \<and>
     cx_mqtt_stream c' = Some ms' \<and> tcp_sent (ms_stream ms') = [0xE0]"
proof -
  have "MqttPacket_to_bytes (P_Disconnect5 Disconnect5_new_normal) = Inr [0xE0, 0]" by code_simp
  then show ?thesis
    using short_write_accepted [of "example_client\<lparr>cx_mqtt_stream := Some (MqttStream_new (broker_socket\<lparr>tcp_writes := [Sock_took 1]\<rparr>) 5)\<rparr>"
        "MqttStream_new (broker_socket\<lparr>tcp_writes := [Sock_took 1]\<rparr>) 5" 1 "[]" "P_Disconnect5 Disconnect5_new_normal" "[0xE0, 0]"]
    by (auto simp: MqttStream_new_def broker_socket_def)
qed

text \<open>
  C35.  The threaded client never answers the broker.  While it receives PUBRECs and messages of
  any quality of service, it writes nothing, no publish completes and no identifier leaves the pending ones:
  a QoS 2 publish stays at PUBREC for ever, and QoS 1 and QoS 2 messages are delivered without an
  acknowledgement.
\<close>

theorem threaded_never_acknowledges:
  assumes "tw_is_connected w" and "cx_mqtt_stream (tw_client w) = Some ms" and "delivers 5 ps r ms" and "list_all needs_answer ps"
  shows "\<exists>ms'. thread_run (replicate (length ps) Got_nothing) w = Inr (False, w\<lparr>tw_client := (tw_client w)\<lparr>cx_mqtt_stream := Some ms'\<rparr>,
       tw_events := tw_events w @ messages ps\<rparr>) \<and> tcp_sent (ms_stream ms') = tcp_sent (ms_stream ms)"
  by (rule thread_run_unanswered [OF assms])

definition pubrec_socket :: TcpStream where
  "pubrec_socket = broker_socket\<lparr>tcp_reads := [Sock_read [0x50, 2, 0, 1]]\<rparr>"

definition pubrec_worker :: ClientWorker where
  "pubrec_worker = (ClientWorker_new MqttClientOptions_default AsyncClientConfig_default)\<lparr>tw_is_connected := True,
     tw_client := example_client\<lparr>cx_mqtt_stream := Some (MqttStream_new pubrec_socket 5), cx_pending_publishes := [(1, [98], 2)]\<rparr>\<rparr>"

lemma pubrec_delivers: "delivers 5 [broker_packets ! 0] [] (MqttStream_new pubrec_socket 5)"
proof (rule delivers_new5)
  show "list_all (sendable packet5_wf) [broker_packets ! 0]"
    using broker_packets_wire by (simp add: broker_packets_def sendable_def packet5_wf_def)
  show "concat [[0x50, 2, 0, 1 :: u8]] = concat (map wire [broker_packets ! 0])"
    using broker_packets_wire by (simp add: broker_packets_def wire_def)
qed (simp_all add: pubrec_socket_def)

theorem threaded_never_acknowledges_witness:
  "\<exists>t ms'. thread_run [Got_nothing] pubrec_worker = Inr (False, t) \<and> cx_mqtt_stream (tw_client t) = Some ms' \<and>
     tcp_sent (ms_stream ms') = [] \<and> cx_pending_publishes (tw_client t) = [(1, [98], 2)] \<and> tw_events t = []"
proof -
  have "tw_is_connected pubrec_worker" "cx_mqtt_stream (tw_client pubrec_worker) = Some (MqttStream_new pubrec_socket 5)"
    by (simp_all add: pubrec_worker_def)
  moreover have "list_all needs_answer [broker_packets ! 0]" by (simp add: broker_packets_def needs_answer_def)
  ultimately show ?thesis
    using threaded_never_acknowledges [of pubrec_worker "MqttStream_new pubrec_socket 5" "[broker_packets ! 0]" "[]"] pubrec_delivers
    by (auto simp: messages_def broker_packets_def pubrec_worker_def ClientWorker_new_def MqttStream_new_def pubrec_socket_def
        broker_socket_def)
qed

text \<open>
  C36.  The threaded client does not survive a long outage.  With the default configuration,
  after 56 refused connections in a row the multiplication that computes the next delay overflows, which
  panics in a build with overflow checks and ends the worker thread; the limit on the delay is applied
  only to the product.
\<close>

theorem threaded_outage_panics:
  "handle_connect ((ClientWorker_new opts AsyncClientConfig_default)\<lparr>tw_connects := replicate 56 (Inl e) @ rest\<rparr>) =
     Inl (Panicked ''attempt to multiply with overflow'')"
  by (rule outage_panics [where n = 0]) (simp_all add: ClientWorker_new_def AsyncClientConfig_default_def)

text \<open>
  Whatever commands, packets, errors and refused connections it meets, the threaded client keeps its
  message buffer within its capacity and the attempts within their limit.
\<close>

theorem threaded_bounds:
  assumes "thread_run received ((ClientWorker_new opts config)\<lparr>tw_connects := sockets, tw_timeouts := timeouts\<rparr>) = Inr (ended, w)"
  shows "length (tw_message_buffer w) \<le> ak_max_buffer_size config \<and>
    (0 < ak_max_reconnect_attempts config \<longrightarrow> tw_reconnect_attempts w \<le> ak_max_reconnect_attempts config)"
  using thread_run_inv [OF assms, of config] thread_inv_new [of config opts] by (simp add: thread_inv_def)

section \<open>The bindings\<close>

text \<open>
  C12.  What the bindings accept can be sent: the command made from accepted publish, subscribe or
  unsubscribe options, with the identifier the engine gives it, is a packet that passes the checks of the
  MQTT 5 encoder; every limit on properties, topics, filters and options that those checks enforce is
  already enforced on the arguments.
\<close>

theorem binding_commands_valid:
  assumes "i \<noteq> 0"
  shows "(ffi_publish_command popt topic payload 5 supported = Inr p \<longrightarrow>
       Publish5_validate (into_mqtt_publish (p\<lparr>pc_packet_id := Some i\<rparr>)) = Inr ()) \<and>
     (ffi_subscribe_command sopt 5 = Inr s \<longrightarrow>
       Subscribe5_validate \<lparr>sub_packet_id = i, sub_subscriptions = sc_subscriptions s, sub_properties = sc_properties s\<rparr> = Inr ()) \<and>
     (ffi_unsubscribe_command uopt 5 = Inr u \<longrightarrow>
       Unsubscribe5_validate \<lparr>unsub_packet_id = i, unsub_topic_filters = uc_topics u, unsub_properties = uc_properties u\<rparr> = Inr ())"
  using accepted_publish [of popt topic payload supported p "Some i"] accepted_subscribe [of sopt s i]
    accepted_unsubscribe [of uopt u i] assms by blast

definition aliased_publish :: MqttPublishOptionsFFI where
  "aliased_publish = \<lparr>fp_qos = 1, fp_retain = False, fp_priority = None,
     fp_properties = [F_TopicAlias 3, F_UserProperty [107] [118], F_UserProperty [107] [119]]\<rparr>"

definition shared_filter :: MqttSubscribeOptionsFFI where
  "shared_filter = \<lparr>fso_subscriptions = [\<lparr>fs_topic_filter = ascii ''$share/g/a/#'', fs_qos = 2, fs_no_local = False,
     fs_retain_as_published = True, fs_retain_handling = 1\<rparr>], fso_properties = [F_SubscriptionIdentifier 7]\<rparr>"

theorem binding_commands_valid_witness:
  "(\<exists>p. ffi_publish_command aliased_publish [] [1] 5 True = Inr p \<and>
     Publish5_validate (into_mqtt_publish (p\<lparr>pc_packet_id := Some 9\<rparr>)) = Inr ()) \<and>
   (\<exists>s. ffi_subscribe_command shared_filter 5 = Inr s \<and>
     Subscribe5_validate \<lparr>sub_packet_id = 9, sub_subscriptions = sc_subscriptions s, sub_properties = sc_properties s\<rparr> = Inr ())"
proof -
  have "\<not> isl (ffi_publish_command aliased_publish [] [1] 5 True)" "\<not> isl (ffi_subscribe_command shared_filter 5)"
    by code_simp+
  then obtain p s where "ffi_publish_command aliased_publish [] [1] 5 True = Inr p" "ffi_subscribe_command shared_filter 5 = Inr s"
    by (metis sum.collapse(2))
  then show ?thesis
    using binding_commands_valid [of 9 aliased_publish "[]" "[1]" True p shared_filter s "\<lparr>fu_topics = [], fu_properties = []\<rparr>"] by simp
qed

text \<open>
  C11.  Connection options are either refused with an error, never with a panic, or give a CONNECT
  of MQTT 5 that the engine can build and encode: the options that repeat a property agree with it, so
  that merging them finds no conflict, and the packet and the properties of its Will pass the checks.
\<close>

theorem binding_connect_valid:
  "case connect_into_core c of
     Inl e \<Rightarrow> \<forall>m. e \<noteq> Ffi_panic m
   | Inr opts \<Rightarrow> fo_mqtt_version (fc_options c) = 5 \<longrightarrow>
       (\<exists>p. Engine_Commands.connect_packet opts = Inr (P_Connect5 p) \<and> Connect5_validate p = Inr () \<and>
         (\<forall>w. con_will p = Some w \<longrightarrow> validation_properties (will_property_list (w_properties w)) Ctx_Will = Inr ()))"
  using no_ffi_panic_connect [of c] accepted_connect [of c] by (auto simp: no_ffi_panic_def split: sum.split)

text \<open>Options that repeat a property, with a Will and tuning.\<close>

definition example_connect :: MqttConnectOptionsFFI where
  "example_connect = \<lparr>fc_options = MqttOptionsFFI_default\<lparr>fo_username := Some [117]\<rparr>,
     fc_properties = [F_SessionExpiryInterval 0, F_ReceiveMaximum 10, F_SessionExpiryInterval 0, F_RequestProblemInformation 1],
     fc_will = Some \<lparr>fw_topic = [97], fw_payload = [1], fw_qos = 1, fw_retain = False,
       fw_properties = [F_WillDelayInterval 5, F_UserProperty [107] [118]]\<rparr>,
     fc_binary_password = Some [1, 2],
     fc_engine_options = Some \<lparr>fe_retransmission_timeout_ms = None, fe_ping_timeout_multiplier = None,
       fe_max_outgoing_packet_count = Some 2, fe_max_event_count = None, fe_parser_buffer_size = None,
       fe_max_inflight = None, fe_auto_keepalive = None, fe_auto_ack = Some False, fe_sessionless = Some True,
       fe_subscriptions = []\<rparr>\<rparr>"

lemma example_connect_accepted: "\<not> isl (connect_into_core example_connect)"
  by code_simp

theorem binding_connect_valid_witness:
  "\<exists>opts p. connect_into_core example_connect = Inr opts \<and> Engine_Commands.connect_packet opts = Inr (P_Connect5 p) \<and> Connect5_validate p = Inr ()"
proof -
  obtain opts where "connect_into_core example_connect = Inr opts"
    using example_connect_accepted by (metis sum.collapse(2))
  moreover have "fo_mqtt_version (fc_options example_connect) = 5" by code_simp
  ultimately show ?thesis using binding_connect_valid [of example_connect] by auto
qed

text \<open>
  C13.  The object of the bindings keeps the engine consistent: whatever methods are called on a new
  object, with whatever arguments and clock samples, the invariant of the engine holds after every call
  that returns; the options a foreign caller can pass are those for which an engine may be created, as
  long as the clock can represent their deadlines.
\<close>

theorem binding_invariant:
  assumes "mf_new_with_runtime_options blank samples now origin opts runtime = Inr h"
    and "check_time_range (me_options (mf_engine h)) now = Inr ()" and "mf_perform_all calls h = Inr h'"
  shows "eng_inv (mf_engine h')"
  by (rule mf_perform_all_inv [OF assms(3) mf_new_inv [OF assms(1,2)]])

definition example_calls :: "ffi_call list" where
  "example_calls = [FC_connect 2 3, FC_set_reconnect False, FC_take_events]"

definition example_object :: "MqttEngineFFI ffi" where
  "example_object = mf_new_with_runtime_options (\<lambda>_. False) (1, 1, 1, 1) 1 1 (connect_options_from MqttOptionsFFI_default)
     MqttRuntimeOptionsFFI_default"

lemma example_object_runs:
  "case example_object of Inl _ \<Rightarrow> False
   | Inr h \<Rightarrow> \<not> isl (check_time_range (me_options (mf_engine h)) 1) \<and>
       (case mf_perform_all example_calls h of Inl _ \<Rightarrow> False | Inr h \<Rightarrow> length (me_outgoing_buffer (mf_engine h)) = 1)"
  by code_simp

theorem binding_invariant_witness:
  "\<exists>h h'. example_object = Inr h \<and> mf_perform_all example_calls h = Inr h' \<and>
     length (me_outgoing_buffer (mf_engine h')) = 1 \<and> eng_inv (mf_engine h')"
proof -
  obtain h h' where h: "example_object = Inr h" "\<not> isl (check_time_range (me_options (mf_engine h)) 1)"
      "mf_perform_all example_calls h = Inr h'" "length (me_outgoing_buffer (mf_engine h')) = 1"
    using example_object_runs by (auto split: sum.splits)
  moreover from h(2) have "check_time_range (me_options (mf_engine h)) 1 = Inr ()"
    by (cases "check_time_range (me_options (mf_engine h)) 1") auto
  ultimately show ?thesis
    using binding_invariant [of "\<lambda>_. False" "(1, 1, 1, 1)" 1 1 "connect_options_from MqttOptionsFFI_default" MqttRuntimeOptionsFFI_default h
        example_calls h']
    by (auto simp: example_object_def)
qed

text \<open>
  Events are not lost between the methods that return them and \<open>take_events\<close>: after any number of reads
  and ticks, it returns what was waiting, then everything those calls returned, then what the engine still
  holds, in order, and nothing is left.
\<close>

theorem binding_events:
  assumes "mf_polls polls h = Inr (es, h')"
  shows "fst (mf_take_events h') = mf_events h @ es @ map_events (me_events (mf_engine h')) \<and>
    mf_events (snd (mf_take_events h')) = [] \<and> me_events (mf_engine (snd (mf_take_events h'))) = []"
  using mf_polls_taken [OF assms] by simp

end
